(* ===== verification/Prelude.thy ===== *)
theory Prelude
  imports Main "HOL-Library.AList" "HOL-Library.Char_ord" "HOL-Library.List_Lexorder"
    "HOL-Library.Product_Lexorder" "HOL-Library.Option_ord"
begin

text \<open>
  What every theory of the development shares: Python exceptions as values, dictionaries as
  association lists in insertion order, JSON values, the text operations of the standard library
  that the code calls (on strings whose characters are code points below 256), decimal rendering
  and parsing of integers, timestamps, and the generic lemmas on lists and options that the
  component proofs use.

  Timestamps.  An aware \<open>datetime\<close> normalised to UTC is an \<open>int\<close>: microseconds since
  1970-01-01T00:00Z.  A \<open>datetime\<close> whose zone the code still has to check is a value of
  \<open>pydatetime\<close>.  Durations (\<open>timedelta\<close>) are \<open>int\<close> microseconds.
\<close>

named_theorems model_simps "equations that unfold the small helpers of the model"
named_theorems inv_intros "introduction rules of the invariants"


section \<open>Exceptions as values\<close>

datatype py_error =
    ValueError string
  | TypeError string
  | KeyError string
  | RuntimeError string
  | AssertionError string
  | OSError string
  | FileNotFoundError string
  | TimeoutError
  | ConnectionError string
  | IntegrityError
  | DataIntegrityError string
  | ArxivCollectionError string
  | ArxivForbiddenError string
  | ArxivHTTPError int
  | ArxivTransportError string
  | ArxivParseError string
  | ArxivAPIError string \<comment> \<open>a subclass of \<open>ArxivParseError\<close>\<close>
  | ArxivQueryError string
  | OtherError string string

type_synonym 'a result = "py_error + 'a"

definition result_bind :: "'a result \<Rightarrow> ('a \<Rightarrow> 'b result) \<Rightarrow> 'b result" where
  "result_bind r f = (case r of Inl e \<Rightarrow> Inl e | Inr x \<Rightarrow> f x)"

text \<open>Evaluation takes the result first, not the continuation.\<close>

declare result_bind_def [code_unfold]

lemma result_bind_simps [simp]:
  "result_bind (Inl e) f = Inl e"
  "result_bind (Inr x) f = f x"
  by (simp_all add: result_bind_def)

lemma result_bind_eq_Inr [simp]:
  "result_bind r f = Inr y \<longleftrightarrow> (\<exists>x. r = Inr x \<and> f x = Inr y)"
  by (cases r) auto

definition is_ok :: "'a result \<Rightarrow> bool" where
  "is_ok r = (case r of Inl _ \<Rightarrow> False | Inr _ \<Rightarrow> True)"

lemma is_ok_simps [simp]: "\<not> is_ok (Inl e)" "is_ok (Inr x)"
  by (simp_all add: is_ok_def)

text \<open>A comprehension whose body may raise: the first exception wins.\<close>

fun result_map :: "('a \<Rightarrow> 'b result) \<Rightarrow> 'a list \<Rightarrow> 'b list result" where
  "result_map f [] = Inr []"
| "result_map f (x # xs) =
     (case f x of Inl e \<Rightarrow> Inl e
      | Inr y \<Rightarrow> (case result_map f xs of Inl e \<Rightarrow> Inl e | Inr ys \<Rightarrow> Inr (y # ys)))"

lemma result_map_Inr:
  "result_map f xs = Inr ys \<longleftrightarrow> list_all2 (\<lambda>x y. f x = Inr y) xs ys"
proof (induction xs arbitrary: ys)
  case (Cons x xs)
  show ?case
  proof (cases "f x")
    case (Inr y)
    show ?thesis
    proof (cases "result_map f xs")
      case (Inl e)
      with Cons.IH have "\<not> list_all2 (\<lambda>x y. f x = Inr y) xs zs" for zs by auto
      with Inl Inr show ?thesis by (auto simp: list_all2_Cons1)
    next
      case (Inr zs)
      with Cons.IH have "list_all2 (\<lambda>x y. f x = Inr y) xs ws \<longleftrightarrow> zs = ws" for ws by auto
      with Inr \<open>f x = Inr y\<close> show ?thesis by (auto simp: list_all2_Cons1)
    qed
  qed (auto simp: list_all2_Cons1)
qed auto


section \<open>Dictionaries\<close>

text \<open>
  A Python \<open>dict\<close> is an association list with distinct keys in insertion order.
  \<open>AList.update\<close> of the library stores in place or appends, as \<open>d[k] = v\<close> does.
\<close>

type_synonym ('k, 'v) dict = "('k \<times> 'v) list"

abbreviation dict_get :: "('k, 'v) dict \<Rightarrow> 'k \<Rightarrow> 'v option" where
  "dict_get \<equiv> map_of"

abbreviation dict_set :: "'k \<Rightarrow> 'v \<Rightarrow> ('k, 'v) dict \<Rightarrow> ('k, 'v) dict" where
  "dict_set \<equiv> AList.update"

abbreviation dict_keys :: "('k, 'v) dict \<Rightarrow> 'k list" where
  "dict_keys d \<equiv> map fst d"

text \<open>\<open>{**a, **b}\<close>\<close>

fun dict_merge :: "('k, 'v) dict \<Rightarrow> ('k, 'v) dict \<Rightarrow> ('k, 'v) dict" where
  "dict_merge a [] = a"
| "dict_merge a ((k, v) # b) = dict_merge (dict_set k v a) b"

definition dict_setdefault :: "'k \<Rightarrow> 'v \<Rightarrow> ('k, 'v) dict \<Rightarrow> ('k, 'v) dict" where
  "dict_setdefault k v d = (if k \<in> set (dict_keys d) then d else d @ [(k, v)])"

text \<open>\<open>{key(x): x for x in xs}\<close>: a later entry replaces an earlier one in place.\<close>

definition dict_by :: "('a \<Rightarrow> 'k) \<Rightarrow> 'a list \<Rightarrow> ('k, 'a) dict" where
  "dict_by key xs = foldl (\<lambda>d x. dict_set (key x) x d) [] xs"

text \<open>\<open>d.setdefault(k, []).append(x)\<close> over a list: grouping in first-seen order.\<close>

fun dict_append :: "'k \<Rightarrow> 'v \<Rightarrow> ('k, 'v list) dict \<Rightarrow> ('k, 'v list) dict" where
  "dict_append k v [] = [(k, [v])]"
| "dict_append k v ((k', vs) # d) =
     (if k' = k then (k', vs @ [v]) # d else (k', vs) # dict_append k v d)"

definition group_by :: "('a \<Rightarrow> 'k) \<Rightarrow> 'a list \<Rightarrow> ('k, 'a list) dict" where
  "group_by key xs = foldl (\<lambda>d x. dict_append (key x) x d) [] xs"

definition dict_get_list :: "('k, 'v list) dict \<Rightarrow> 'k \<Rightarrow> 'v list" where
  "dict_get_list d k = (case dict_get d k of None \<Rightarrow> [] | Some vs \<Rightarrow> vs)"

lemma dict_get_set [simp]: "dict_get (dict_set k v d) k' = (if k' = k then Some v else dict_get d k')"
  by (simp add: update_conv')

lemma dict_get_merge: "dict_get (dict_merge a b) k =
    (case dict_get (rev b) k of None \<Rightarrow> dict_get a k | Some v \<Rightarrow> Some v)"
proof (induction a b rule: dict_merge.induct)
  case (2 a k' v b)
  show ?case using 2 by (auto simp: map_add_def split: option.splits)
qed simp

lemma keys_dict_merge: "set (dict_keys (dict_merge a b)) = set (dict_keys a) \<union> set (dict_keys b)"
  by (induction a b rule: dict_merge.induct) (auto simp: update_keys)

lemma distinct_dict_merge: "distinct (dict_keys a) \<Longrightarrow> distinct (dict_keys (dict_merge a b))"
  by (induction a b rule: dict_merge.induct) (auto simp: distinct_update)

lemma dict_get_setdefault:
  "dict_get (dict_setdefault k v d) k' =
     (if k' = k then Some (case dict_get d k of None \<Rightarrow> v | Some w \<Rightarrow> w) else dict_get d k')"
proof (cases "k \<in> fst ` set d")
  case True
  then obtain w where "dict_get d k = Some w" by (cases "dict_get d k") (auto simp: map_of_eq_None_iff)
  with True show ?thesis by (simp add: dict_setdefault_def)
next
  case False
  then have "dict_get d k = None" by (simp add: map_of_eq_None_iff)
  with False show ?thesis by (auto simp: dict_setdefault_def map_add_def split: option.splits)
qed

lemma dict_get_append:
  "dict_get (dict_append k v d) k' =
     (if k' = k then Some (dict_get_list d k @ [v]) else dict_get d k')"
  by (induction d) (auto simp: dict_get_list_def)

lemma dict_get_list_append:
  "dict_get_list (dict_append k v d) k' = (if k' = k then dict_get_list d k @ [v] else dict_get_list d k')"
  by (simp add: dict_get_list_def dict_get_append)

lemma foldl_dict_append:
  "dict_get_list (foldl (\<lambda>d x. dict_append (key x) x d) d xs) k =
     dict_get_list d k @ filter (\<lambda>x. key x = k) xs"
  by (induction xs arbitrary: d) (auto simp: dict_get_list_append)

lemma group_by_get: "dict_get_list (group_by key xs) k = filter (\<lambda>x. key x = k) xs"
  by (simp add: group_by_def foldl_dict_append) (simp add: dict_get_list_def)

lemma dict_append_keys:
  "dict_keys (dict_append k v d) = (if k \<in> set (dict_keys d) then dict_keys d else dict_keys d @ [k])"
  by (induction k v d rule: dict_append.induct) simp_all

lemma keys_dict_append: "fst ` set (dict_append k v d) = insert k (fst ` set d)"
  using arg_cong [OF dict_append_keys, of set k v d] by (auto split: if_splits)

lemma distinct_dict_append: "distinct (dict_keys d) \<Longrightarrow> distinct (dict_keys (dict_append k v d))"
  by (simp only: dict_append_keys) simp

lemma keys_foldl_dict_append:
  "fst ` set (foldl (\<lambda>d x. dict_append (key x) x d) d xs) = fst ` set d \<union> key ` set xs"
  by (induction xs arbitrary: d) (simp_all add: keys_dict_append)

lemma keys_group_by: "fst ` set (group_by key xs) = key ` set xs"
  by (simp add: group_by_def keys_foldl_dict_append)

lemma distinct_foldl_dict_append:
  "distinct (dict_keys d) \<Longrightarrow> distinct (dict_keys (foldl (\<lambda>d x. dict_append (key x) x d) d xs))"
  by (induction xs arbitrary: d) (auto simp: distinct_dict_append)

lemma distinct_group_by: "distinct (dict_keys (group_by key xs))"
  by (simp add: group_by_def distinct_foldl_dict_append)

lemma dict_get_list_eq: "distinct (dict_keys d) \<Longrightarrow> (k, vs) \<in> set d \<Longrightarrow> dict_get_list d k = vs"
  by (simp add: dict_get_list_def)

lemma group_by_entry: "(k, ys) \<in> set (group_by key xs) \<Longrightarrow> ys = filter (\<lambda>x. key x = k) xs"
  using dict_get_list_eq [OF distinct_group_by] group_by_get by metis

lemma foldl_dict_by_get:
  "dict_get (foldl (\<lambda>d x. dict_set (key x) x d) d xs) k =
     (case find (\<lambda>x. key x = k) (rev xs) of None \<Rightarrow> dict_get d k | Some x \<Rightarrow> Some x)"
proof (induction xs arbitrary: d)
  case (Cons x xs)
  have "find P (ys @ [x]) = (case find P ys of None \<Rightarrow> (if P x then Some x else None) | Some y \<Rightarrow> Some y)"
    for P ys by (induction ys) auto
  then show ?case by (auto simp: Cons.IH split: option.splits)
qed simp

lemma dict_by_get:
  "dict_get (dict_by key xs) k = find (\<lambda>x. key x = k) (rev xs)"
  by (simp add: dict_by_def foldl_dict_by_get split: option.splits)

lemma find_distinct_eq:
  "distinct (map key xs) \<Longrightarrow> x \<in> set xs \<Longrightarrow> find (\<lambda>y. key y = key x) xs = Some x"
  by (induction xs) (auto simp: image_iff)

lemma dict_by_get_mem:
  "distinct (map key xs) \<Longrightarrow> x \<in> set xs \<Longrightarrow> dict_get (dict_by key xs) (key x) = Some x"
  using find_distinct_eq [of key "rev xs" x] by (simp add: dict_by_get flip: rev_map)

lemma dict_by_get_None: "dict_get (dict_by key xs) k = None \<longleftrightarrow> k \<notin> key ` set xs"
  by (auto simp: dict_by_get find_None_iff)

lemma dict_by_get_SomeD: "dict_get (dict_by key xs) k = Some x \<Longrightarrow> x \<in> set xs \<and> key x = k"
  by (auto simp: dict_by_get find_Some_iff) (metis nth_mem set_rev length_rev)


section \<open>JSON values\<close>

text \<open>
  The values of the JSON columns and payloads.  \<open>JTime\<close> is the ISO-8601 text that
  \<open>datetime.isoformat()\<close> gives for an aware UTC timestamp: the code writes such texts with
  \<open>isoformat\<close> and reads them back with \<open>datetime.fromisoformat\<close>, its inverse on them.  \<open>JDate\<close> is
  the text of a date in the same way.  Every other text is a \<open>JStr\<close>.  \<open>JFloat\<close> carries a decimal in
  millionths.
\<close>

datatype json =
    JNull
  | JBool bool
  | JInt int
  | JFloat int
  | JStr string
  | JTime int
  | JDate int
  | JList "json list"
  | JObj "(string \<times> json) list"

type_synonym jdict = "(string \<times> json) list"

definition jopt :: "('a \<Rightarrow> json) \<Rightarrow> 'a option \<Rightarrow> json" where
  "jopt f x = (case x of None \<Rightarrow> JNull | Some y \<Rightarrow> f y)"


text \<open>\<open>json_canon\<close> sorts the keys of objects, as \<open>json.dumps(..., sort_keys=True)\<close> writes them.\<close>

fun json_canon :: "json \<Rightarrow> json" where
  "json_canon (JList xs) = JList (map json_canon xs)"
| "json_canon (JObj d) = JObj (sort_key fst (map (\<lambda>(k, v). (k, json_canon v)) d))"
| "json_canon j = j"

text \<open>
  Two JSON values are equal in Python when they agree up to the order of keys in objects and up to the type
  of numbers: \<open>True == 1 == 1.0\<close>.
\<close>

fun json_value :: "json \<Rightarrow> json" where
  "json_value (JBool b) = JInt (if b then 1 else 0)"
| "json_value (JFloat m) = (if m mod 1000000 = 0 then JInt (m div 1000000) else JFloat m)"
| "json_value (JList xs) = JList (map json_value xs)"
| "json_value (JObj d) = JObj (map (\<lambda>(k, v). (k, json_value v)) d)"
| "json_value j = j"

definition json_eq :: "json \<Rightarrow> json \<Rightarrow> bool" where
  "json_eq a b = (json_canon (json_value a) = json_canon (json_value b))"

definition jdict_eq :: "jdict \<Rightarrow> jdict \<Rightarrow> bool" where
  "jdict_eq a b = json_eq (JObj a) (JObj b)"

lemma json_eq_refl [simp]: "json_eq a a"
  by (simp add: json_eq_def)

lemma json_eq_sym: "json_eq a b \<Longrightarrow> json_eq b a"
  by (simp add: json_eq_def)

lemma json_eq_trans: "json_eq a b \<Longrightarrow> json_eq b c \<Longrightarrow> json_eq a c"
  by (simp add: json_eq_def)

lemma jdict_eq_refl [simp]: "jdict_eq a a"
  by (simp add: jdict_eq_def)


section \<open>Text\<close>

text \<open>\<open>str.isspace\<close> and the whitespace that \<open>str.split()\<close> and \<open>str.strip()\<close> cut at.\<close>

definition is_space :: "char \<Rightarrow> bool" where
  "is_space c = (let n = (of_char c :: nat) in
     (9 \<le> n \<and> n \<le> 13) \<or> (28 \<le> n \<and> n \<le> 32) \<or> n = 133 \<or> n = 160)"

fun split_words_aux :: "string \<Rightarrow> string \<Rightarrow> string list" where
  "split_words_aux acc [] = (if acc = [] then [] else [rev acc])"
| "split_words_aux acc (c # cs) =
     (if is_space c
      then (if acc = [] then split_words_aux [] cs else rev acc # split_words_aux [] cs)
      else split_words_aux (c # acc) cs)"

definition split_words :: "string \<Rightarrow> string list" where
  "split_words s = split_words_aux [] s"

definition strip :: "string \<Rightarrow> string" where
  "strip s = rev (dropWhile is_space (rev (dropWhile is_space s)))"

fun join :: "string \<Rightarrow> string list \<Rightarrow> string" where
  "join sep [] = []"
| "join sep [x] = x"
| "join sep (x # y # xs) = x @ sep @ join sep (y # xs)"

definition ascii_lower :: "char \<Rightarrow> char" where
  "ascii_lower c = (let n = (of_char c :: nat) in
     if 65 \<le> n \<and> n \<le> 90 then char_of (n + 32) else c)"

definition ascii_upper :: "char \<Rightarrow> char" where
  "ascii_upper c = (let n = (of_char c :: nat) in
     if 97 \<le> n \<and> n \<le> 122 then char_of (n - 32) else c)"

text \<open>\<open>str.casefold()\<close> and \<open>str.upper()\<close> on ASCII text; other characters are kept.\<close>

definition casefold :: "string \<Rightarrow> string" where
  "casefold s = map ascii_lower s"

definition upper :: "string \<Rightarrow> string" where
  "upper s = map ascii_upper s"

text \<open>\<open>part in s\<close>\<close>

fun contains :: "string \<Rightarrow> string \<Rightarrow> bool" where
  "contains part [] = (part = [])"
| "contains part (c # cs) = (take (length part) (c # cs) = part \<or> contains part cs)"

text \<open>\<open>s.replace(a, b)\<close> for a one-character \<open>a\<close>.\<close>

fun replace_char :: "char \<Rightarrow> string \<Rightarrow> string \<Rightarrow> string" where
  "replace_char a b [] = []"
| "replace_char a b (c # cs) = (if c = a then b @ replace_char a b cs else c # replace_char a b cs)"

lemma split_words_aux_no_space:
  "(\<forall>c\<in>set acc. \<not> is_space c) \<Longrightarrow> w \<in> set (split_words_aux acc s) \<Longrightarrow>
     w \<noteq> [] \<and> (\<forall>c\<in>set w. \<not> is_space c)"
proof (induction acc s rule: split_words_aux.induct)
  case (1 acc)
  then show ?case by (cases "acc = []") simp_all
next
  case (2 acc c cs)
  show ?case
  proof (cases "is_space c")
    case True
    then have "w \<in> set (split_words_aux [] cs) \<or> w = rev acc \<and> acc \<noteq> []"
      using "2.prems"(2) by (auto split: if_splits)
    moreover have "w \<in> set (split_words_aux [] cs) \<Longrightarrow> w \<noteq> [] \<and> (\<forall>c\<in>set w. \<not> is_space c)"
      using "2.IH"(1,2) True by (metis empty_iff list.set(1))
    ultimately show ?thesis using "2.prems"(1) by auto
  next
    case False
    then have "\<forall>x\<in>set (c # acc). \<not> is_space x" using "2.prems"(1) by simp
    moreover have "w \<in> set (split_words_aux (c # acc) cs)" using "2.prems"(2) False by simp
    ultimately show ?thesis using "2.IH"(3) False by blast
  qed
qed

lemma split_words_no_space:
  "w \<in> set (split_words s) \<Longrightarrow> w \<noteq> [] \<and> (\<forall>c\<in>set w. \<not> is_space c)"
  using split_words_aux_no_space [of "[]"] by (simp add: split_words_def)

lemma split_words_aux_word:
  "\<forall>c\<in>set w. \<not> is_space c \<Longrightarrow> split_words_aux acc (w @ s) = split_words_aux (rev w @ acc) s"
  by (induction w arbitrary: acc) auto

lemma is_space_blank [simp]: "is_space CHR '' ''"
  by (simp add: is_space_def)

lemma split_words_join:
  "(\<forall>w\<in>set ws. w \<noteq> [] \<and> (\<forall>c\<in>set w. \<not> is_space c)) \<Longrightarrow> split_words (join '' '' ws) = ws"
proof (induction ws rule: induct_list012)
  case (2 x)
  then show ?case using split_words_aux_word [of x "[]" "[]"] by (simp add: split_words_def)
next
  case (3 x y xs)
  then show ?case
    using split_words_aux_word [of x "[]" "'' '' @ join '' '' (y # xs)"] by (simp add: split_words_def)
qed (simp add: split_words_def)

lemma dropWhile_space_id: "s = [] \<or> \<not> is_space (hd s) \<Longrightarrow> dropWhile is_space s = s"
  by (cases s) auto

lemma ascii_lower_idem [simp]: "ascii_lower (ascii_lower c) = ascii_lower c"
  by (auto simp: ascii_lower_def Let_def)

lemma casefold_idem [simp]: "casefold (casefold s) = casefold s"
  by (simp add: casefold_def)

lemma is_space_ascii_lower [simp]: "is_space (ascii_lower c) = is_space c"
proof -
  obtain n :: nat where c: "c = char_of n" "n < 256"
    by (metis char_of_char nat_of_char_less_256)
  show ?thesis
  proof (cases "65 \<le> n \<and> n \<le> 90")
    case True
    with c show ?thesis by (simp add: ascii_lower_def is_space_def Let_def)
  qed (use c in \<open>auto simp: ascii_lower_def\<close>)
qed


section \<open>Integers as text\<close>

fun show_nat :: "nat \<Rightarrow> string" where
  "show_nat n = (if n < 10 then [char_of (48 + n)] else show_nat (n div 10) @ [char_of (48 + n mod 10)])"

declare show_nat.simps [simp del]

definition show_int :: "int \<Rightarrow> string" where
  "show_int i = (if i < 0 then ''-'' @ show_nat (nat (- i)) else show_nat (nat i))"

text \<open>The same on binary integers, which is what evaluation uses.\<close>

function int_digits :: "int \<Rightarrow> string" where
  "int_digits n = (if n < 10 then [char_of (48 + n)] else int_digits (n div 10) @ [char_of (48 + n mod 10)])"
  by pat_completeness auto
termination by (relation "measure nat") auto

declare int_digits.simps [simp del]

lemma char_of_int: "0 \<le> n \<Longrightarrow> (char_of n :: char) = char_of (nat n)"
  using char_of_nat [where 'a = int, of "nat n"] by simp

lemma show_nat_int: "0 \<le> n \<Longrightarrow> show_nat (nat n) = int_digits n"
proof (induction n rule: int_digits.induct)
  case (1 n)
  show ?case
    by (subst show_nat.simps, subst int_digits.simps)
      (use 1 in \<open>auto simp: char_of_int nat_add_distrib nat_div_distrib nat_mod_distrib not_less\<close>)
qed

lemma show_int_code [code]: "show_int i = (if i < 0 then ''-'' @ int_digits (- i) else int_digits i)"
  by (simp add: show_int_def show_nat_int)

text \<open>\<open>f"{n:0wd}"\<close> for a natural number.\<close>

definition pad_left :: "nat \<Rightarrow> char \<Rightarrow> string \<Rightarrow> string" where
  "pad_left w c s = replicate (w - length s) c @ s"

definition show_padded :: "nat \<Rightarrow> nat \<Rightarrow> string" where
  "show_padded w n = pad_left w CHR ''0'' (show_nat n)"

definition digit_of :: "char \<Rightarrow> nat option" where
  "digit_of c = (let n = (of_char c :: nat) in if 48 \<le> n \<and> n \<le> 57 then Some (n - 48) else None)"

text \<open>
  \<open>int(text)\<close> on a word without whitespace: an optional sign and decimal digits, single
  underscores allowed between digits.  \<open>py_digits acc s\<close> has read at least one digit.
\<close>

fun py_digits :: "nat \<Rightarrow> string \<Rightarrow> nat option" where
  "py_digits acc [] = Some acc"
| "py_digits acc (c # cs) =
     (case digit_of c of
        Some d \<Rightarrow> py_digits (10 * acc + d) cs
      | None \<Rightarrow>
          (if c = CHR ''_''
           then (case cs of [] \<Rightarrow> None
                 | d # ds \<Rightarrow> (case digit_of d of None \<Rightarrow> None
                              | Some v \<Rightarrow> py_digits (10 * acc + v) ds))
           else None))"

definition py_nat :: "string \<Rightarrow> nat option" where
  "py_nat s = (case s of [] \<Rightarrow> None
     | c # cs \<Rightarrow> (case digit_of c of None \<Rightarrow> None | Some d \<Rightarrow> py_digits d cs))"

definition py_int :: "string \<Rightarrow> int option" where
  "py_int s = (case s of [] \<Rightarrow> None
     | c # cs \<Rightarrow>
         (if c = CHR ''-'' then map_option (\<lambda>n. - int n) (py_nat cs)
          else if c = CHR ''+'' then map_option int (py_nat cs)
          else map_option int (py_nat s)))"

lemma digit_of_char [simp]: "n < 10 \<Longrightarrow> digit_of (char_of (48 + n :: nat)) = Some n"
  by (simp add: digit_of_def)

lemma py_digits_append:
  "\<forall>c\<in>set s. digit_of c \<noteq> None \<Longrightarrow> py_digits acc (s @ t) =
     py_digits (fold (\<lambda>c a. 10 * a + the (digit_of c)) s acc) t"
  by (induction s arbitrary: acc) auto

lemma show_nat_digits: "\<forall>c\<in>set (show_nat n). digit_of c \<noteq> None"
proof (induction n rule: show_nat.induct)
  case (1 n)
  then show ?case by (subst show_nat.simps) (auto split: if_splits)
qed

lemma show_nat_fold: "fold (\<lambda>c a. 10 * a + the (digit_of c)) (show_nat n) 0 = n"
proof (induction n rule: show_nat.induct)
  case (1 n)
  then show ?case by (subst show_nat.simps) auto
qed

lemma show_nat_nonempty [simp]: "show_nat n \<noteq> []"
  by (subst show_nat.simps) simp

lemma py_nat_show [simp]: "py_nat (show_nat n) = Some n"
proof -
  obtain c cs where s: "show_nat n = c # cs" by (cases "show_nat n") auto
  with show_nat_digits [of n] obtain d where d: "digit_of c = Some d" by auto
  have "py_digits d (cs @ []) = py_digits (fold (\<lambda>c a. 10 * a + the (digit_of c)) cs d) []"
    using show_nat_digits [of n] s by (intro py_digits_append) auto
  also have "fold (\<lambda>c a. 10 * a + the (digit_of c)) cs d = n"
    using show_nat_fold [of n] s d by simp
  finally show ?thesis using s d by (simp add: py_nat_def)
qed

lemma show_nat_inj: "show_nat m = show_nat n \<Longrightarrow> m = n"
  by (metis py_nat_show option.inject)


section \<open>\<open>type(error).__name__\<close> and \<open>str(error)\<close>\<close>

definition error_name :: "py_error \<Rightarrow> string" where
  "error_name e = (case e of
     ValueError _ \<Rightarrow> ''ValueError'' | TypeError _ \<Rightarrow> ''TypeError'' | KeyError _ \<Rightarrow> ''KeyError''
   | RuntimeError _ \<Rightarrow> ''RuntimeError'' | AssertionError _ \<Rightarrow> ''AssertionError'' | OSError _ \<Rightarrow> ''OSError''
   | FileNotFoundError _ \<Rightarrow> ''FileNotFoundError'' | TimeoutError \<Rightarrow> ''TimeoutError''
   | ConnectionError _ \<Rightarrow> ''ConnectionError'' | IntegrityError \<Rightarrow> ''IntegrityError''
   | DataIntegrityError _ \<Rightarrow> ''DataIntegrityError'' | ArxivCollectionError _ \<Rightarrow> ''ArxivCollectionError''
   | ArxivForbiddenError _ \<Rightarrow> ''ArxivForbiddenError'' | ArxivHTTPError _ \<Rightarrow> ''ArxivHTTPError''
   | ArxivTransportError _ \<Rightarrow> ''ArxivTransportError'' | ArxivParseError _ \<Rightarrow> ''ArxivParseError''
   | ArxivAPIError _ \<Rightarrow> ''ArxivAPIError'' | ArxivQueryError _ \<Rightarrow> ''ArxivQueryError'' | OtherError n _ \<Rightarrow> n)"

definition error_text :: "py_error \<Rightarrow> string" where
  "error_text e = (case e of
     ValueError m \<Rightarrow> m | TypeError m \<Rightarrow> m | KeyError m \<Rightarrow> m | RuntimeError m \<Rightarrow> m | AssertionError m \<Rightarrow> m
   | OSError m \<Rightarrow> m | FileNotFoundError m \<Rightarrow> m | TimeoutError \<Rightarrow> [] | ConnectionError m \<Rightarrow> m | IntegrityError \<Rightarrow> []
   | DataIntegrityError m \<Rightarrow> m | ArxivCollectionError m \<Rightarrow> m | ArxivForbiddenError m \<Rightarrow> m
   | ArxivHTTPError status \<Rightarrow> ''arXiv API returned HTTP '' @ show_int status
   | ArxivTransportError m \<Rightarrow> m | ArxivParseError m \<Rightarrow> m | ArxivAPIError m \<Rightarrow> m | ArxivQueryError m \<Rightarrow> m
   | OtherError _ m \<Rightarrow> m)"


section \<open>Timestamps\<close>

datatype pydatetime =
    Naive int
  | Aware int int \<comment> \<open>wall-clock reading and UTC offset, both in microseconds\<close>

definition utc_instant :: "pydatetime \<Rightarrow> int option" where
  "utc_instant t = (case t of Naive _ \<Rightarrow> None | Aware wall offset \<Rightarrow> Some (wall - offset))"

abbreviation utc :: "int \<Rightarrow> pydatetime" where
  "utc t \<equiv> Aware t 0"

lemma utc_instant_simps [simp]:
  "utc_instant (Naive w) = None"
  "utc_instant (Aware w z) = Some (w - z)"
  by (simp_all add: utc_instant_def)

abbreviation second_us :: int where "second_us \<equiv> 1000000"
abbreviation minute_us :: int where "minute_us \<equiv> 60000000"
abbreviation hour_us :: int where "hour_us \<equiv> 3600000000"
abbreviation day_us :: int where "day_us \<equiv> 86400000000"

text \<open>\<open>date()\<close> of a UTC timestamp as the number of its day; \<open>weekday()\<close> with Monday 0.\<close>

definition date_of :: "int \<Rightarrow> int" where
  "date_of t = t div day_us"

definition weekday :: "int \<Rightarrow> int" where
  "weekday t = (date_of t + 3) mod 7"

text \<open>Division of a duration rounds half to even, as \<open>timedelta / int\<close> does.\<close>

definition round_half_even_div :: "int \<Rightarrow> int \<Rightarrow> int" where
  "round_half_even_div a b =
     (let q = a div b; r = a mod b in
      if 2 * r < b then q else if 2 * r > b then q + 1 else if even q then q else q + 1)"

lemma round_half_even_div_bounds:
  assumes "0 < b"
  shows "2 * a - b \<le> 2 * b * round_half_even_div a b \<and> 2 * b * round_half_even_div a b \<le> 2 * a + b"
proof -
  have a: "a = b * (a div b) + a mod b" and r: "0 \<le> a mod b" "a mod b < b"
    using assms by (simp_all add: mult_div_mod_eq)
  have "2 * a = 2 * (b * (a div b)) + 2 * (a mod b)" using a by linarith
  moreover have "2 * b * (a div b + 1) = 2 * (b * (a div b)) + 2 * b" by (simp add: algebra_simps)
  ultimately show ?thesis
    unfolding round_half_even_div_def Let_def using r by (auto simp: mult.assoc)
qed


lemma day_div: "0 \<le> r \<Longrightarrow> r < n \<Longrightarrow> (d * n + r) div n = (d::int)"
  by (metis add.commute add.right_neutral div_mult_self1 div_pos_pos_trivial add_0 order.strict_trans1 less_irrefl)

lemma day_mod: "0 \<le> r \<Longrightarrow> r < n \<Longrightarrow> (d * n + r) mod n = (r::int)"
  by (simp add: add.commute [of "d * n"])

lemma mod_eq_iff_day: "0 \<le> r \<Longrightarrow> r < n \<Longrightarrow> (t::int) mod n = r \<longleftrightarrow> (\<exists>d. t = d * n + r)"
  by (metis day_mod div_mult_mod_eq)


section \<open>Lists and options\<close>

text \<open>\<open>min(values, default=None)\<close> and \<open>max(values, default=None)\<close>\<close>

fun min_default :: "'a::linorder list \<Rightarrow> 'a option" where
  "min_default [] = None"
| "min_default (x # xs) = Some (fold min xs x)"

fun max_default :: "'a::linorder list \<Rightarrow> 'a option" where
  "max_default [] = None"
| "max_default (x # xs) = Some (fold max xs x)"

lemma min_default_eq: "xs \<noteq> [] \<Longrightarrow> min_default xs = Some (Min (set xs))"
  by (cases xs) (simp_all only: min_default.simps Min.set_eq_fold)

lemma max_default_eq: "xs \<noteq> [] \<Longrightarrow> max_default xs = Some (Max (set xs))"
  by (cases xs) (simp_all only: max_default.simps Max.set_eq_fold)

lemma min_default_None [simp]: "min_default xs = None \<longleftrightarrow> xs = []"
  by (cases xs) auto

lemma max_default_None [simp]: "max_default xs = None \<longleftrightarrow> xs = []"
  by (cases xs) auto

lemma min_default_SomeD: "min_default xs = Some m \<Longrightarrow> m \<in> set xs \<and> (\<forall>x\<in>set xs. m \<le> x)"
  by (cases "xs = []") (auto simp: min_default_eq)

lemma max_default_SomeD: "max_default xs = Some m \<Longrightarrow> m \<in> set xs \<and> (\<forall>x\<in>set xs. x \<le> m)"
  by (cases "xs = []") (auto simp: max_default_eq)

lemma find_append: "find P (xs @ ys) = (case find P xs of None \<Rightarrow> find P ys | Some x \<Rightarrow> Some x)"
  by (induction xs) simp_all

definition somes :: "'a option list \<Rightarrow> 'a list" where
  "somes xs = List.map_filter id xs"

lemma somes_Nil [simp]: "somes [] = []"
  by (simp add: somes_def map_filter_def)

lemma somes_Cons [simp]: "somes (x # xs) = (case x of None \<Rightarrow> somes xs | Some y \<Rightarrow> y # somes xs)"
  by (simp add: somes_def split: option.splits)

lemma set_somes [simp]: "set (somes xs) = {x. Some x \<in> set xs}"
  by (induction xs) (auto split: option.splits)

text \<open>\<open>sorted(set(xs))\<close>\<close>

definition sorted_set :: "'a::linorder list \<Rightarrow> 'a list" where
  "sorted_set xs = sort (remdups xs)"

lemma set_sorted_set [simp]: "set (sorted_set xs) = set xs"
  by (simp add: sorted_set_def)

lemma sorted_sorted_set [simp]: "sorted (sorted_set xs)"
  by (simp add: sorted_set_def)

lemma distinct_sorted_set [simp]: "distinct (sorted_set xs)"
  by (simp add: sorted_set_def)

lemma sorted_set_Nil_iff [simp]: "sorted_set xs = [] \<longleftrightarrow> xs = []"
  by (metis set_empty set_sorted_set)

text \<open>\<open>dict.fromkeys(xs)\<close>: first occurrences in order.\<close>

fun first_occurrences :: "'a list \<Rightarrow> 'a list" where
  "first_occurrences [] = []"
| "first_occurrences (x # xs) = x # filter (\<lambda>y. y \<noteq> x) (first_occurrences xs)"

lemma set_first_occurrences [simp]: "set (first_occurrences xs) = set xs"
  by (induction xs) auto

lemma distinct_first_occurrences [simp]: "distinct (first_occurrences xs)"
  by (induction xs) auto

definition or_else :: "'a option \<Rightarrow> 'a option \<Rightarrow> 'a option" where
  "or_else x y = (case x of None \<Rightarrow> y | Some _ \<Rightarrow> x)"

lemma or_else_simps [simp]: "or_else None y = y" "or_else (Some x) y = Some x"
  by (simp_all add: or_else_def)

definition bool_int :: "bool \<Rightarrow> int" where
  "bool_int b = (if b then 1 else 0)"

lemma sum_list_count:
  "sum_list (map (\<lambda>x. bool_int (P x)) xs) = int (length (filter P xs))"
  by (induction xs) (auto simp: bool_int_def)

text \<open>\<open>ORDER BY key DESC LIMIT 1\<close>; among equal keys the first row of the table.\<close>

fun latest_by :: "('a \<Rightarrow> 'b::linorder) \<Rightarrow> 'a list \<Rightarrow> 'a option" where
  "latest_by key [] = None"
| "latest_by key (x # xs) = Some (foldl (\<lambda>a r. if key a < key r then r else a) x xs)"

text \<open>A key no row of a table has yet: \<open>uuid4()\<close>.\<close>

definition fresh_id :: "nat list \<Rightarrow> nat" where
  "fresh_id ids = Suc (fold max ids 0)"

lemma fold_max_ge: "(a::nat) \<le> fold max xs a \<and> (x \<in> set xs \<longrightarrow> x \<le> fold max xs a)"
proof (induction xs arbitrary: a)
  case (Cons y ys)
  from Cons [of "max y a"] show ?case by auto
qed simp

lemma fresh_id_notin [simp]: "fresh_id ids \<notin> set ids"
  using fold_max_ge [of 0 ids "fresh_id ids"] by (auto simp: fresh_id_def)

lemma map_update_id: "(\<And>x. x \<in> set xs \<Longrightarrow> f x = x) \<Longrightarrow> map f xs = xs"
  by (induction xs) auto

lemma distinct_map_inj: "distinct (map f xs) \<Longrightarrow> x \<in> set xs \<Longrightarrow> y \<in> set xs \<Longrightarrow> f x = f y \<Longrightarrow> x = y"
  by (meson distinct_map inj_onD)

lemma sorted_bounds: "sorted xs \<Longrightarrow> x \<in> set xs \<Longrightarrow> hd xs \<le> x \<and> x \<le> last xs"
proof (induction xs)
  case (Cons y ys)
  then show ?case by (cases ys) auto
qed simp

lemma hd_last_mem: "xs \<noteq> [] \<Longrightarrow> hd xs \<in> set xs \<and> last xs \<in> set xs"
  by simp

end
