(* ===== verification/Db_Models.thy ===== *)
theory Db_Models
  imports Prelude
begin

text \<open>
  The relational models of \<open>observatory_db/models.py\<close>: every enum is a datatype with the value
  its members have in the database, every mapped class a record with the class's columns, every
  declared check and unique constraint a boolean function of a row or of a table.  UUID keys are
  natural numbers.  The audit columns \<open>created_at\<close> / \<open>updated_at\<close> of the timestamp mixin, which
  no modelled operation of these tables reads, are left out.  A table is the list of its rows.
\<close>


section \<open>Enumerations\<close>

datatype ingestion_status =
    RunRunning | RunSucceeded | RunPartial | RunFailed | RunCancelled

fun ingestion_status_value :: "ingestion_status \<Rightarrow> string" where
  "ingestion_status_value RunRunning = ''running''"
| "ingestion_status_value RunSucceeded = ''succeeded''"
| "ingestion_status_value RunPartial = ''partial''"
| "ingestion_status_value RunFailed = ''failed''"
| "ingestion_status_value RunCancelled = ''cancelled''"

datatype execution_status =
    Scheduled | Running | Succeeded | Partial | Failed | Missed | Interrupted

fun execution_status_value :: "execution_status \<Rightarrow> string" where
  "execution_status_value Scheduled = ''scheduled''"
| "execution_status_value Running = ''running''"
| "execution_status_value Succeeded = ''succeeded''"
| "execution_status_value Partial = ''partial''"
| "execution_status_value Failed = ''failed''"
| "execution_status_value Missed = ''missed''"
| "execution_status_value Interrupted = ''interrupted''"

definition all_execution_statuses :: "execution_status list" where
  "all_execution_statuses =
     [Scheduled, Running, Succeeded, Partial, Failed, Missed, Interrupted]"

text \<open>\<open>SchedulerExecutionStatus(text)\<close> looks a member up by its value.\<close>

definition execution_status_of :: "string \<Rightarrow> execution_status option" where
  "execution_status_of s = find (\<lambda>x. execution_status_value x = s) all_execution_statuses"

lemma execution_status_of_value [simp]: "execution_status_of (execution_status_value x) = Some x"
  by (cases x) (simp_all add: execution_status_of_def all_execution_statuses_def)

lemma execution_status_ofD: "execution_status_of s = Some x \<Longrightarrow> execution_status_value x = s"
  by (auto simp: execution_status_of_def find_Some_iff)

datatype quality_status = QualityPassed | QualityFailed | QualityWarning

fun quality_status_value :: "quality_status \<Rightarrow> string" where
  "quality_status_value QualityPassed = ''passed''"
| "quality_status_value QualityFailed = ''failed''"
| "quality_status_value QualityWarning = ''warning''"

datatype topic_status = TopicActive | TopicPaused | TopicDeprecated

fun topic_status_value :: "topic_status \<Rightarrow> string" where
  "topic_status_value TopicActive = ''active''"
| "topic_status_value TopicPaused = ''paused''"
| "topic_status_value TopicDeprecated = ''deprecated''"

datatype alias_status = AliasActive | AliasDeprecated

fun alias_status_value :: "alias_status \<Rightarrow> string" where
  "alias_status_value AliasActive = ''active''"
| "alias_status_value AliasDeprecated = ''deprecated''"

datatype alias_type =
    AliasName | AliasAbbreviation | AliasSpelling | AliasProductName | AliasRelatedTerm | AliasSearchTerm

fun alias_type_value :: "alias_type \<Rightarrow> string" where
  "alias_type_value AliasName = ''name''"
| "alias_type_value AliasAbbreviation = ''abbreviation''"
| "alias_type_value AliasSpelling = ''spelling''"
| "alias_type_value AliasProductName = ''product_name''"
| "alias_type_value AliasRelatedTerm = ''related_term''"
| "alias_type_value AliasSearchTerm = ''search_term''"

datatype match_mode = MatchExact | MatchPhrase

fun match_mode_value :: "match_mode \<Rightarrow> string" where
  "match_mode_value MatchExact = ''exact''"
| "match_mode_value MatchPhrase = ''phrase''"

lemma ingestion_status_value_inj: "ingestion_status_value a = ingestion_status_value b \<longleftrightarrow> a = b"
  by (cases a; cases b) simp_all

lemma execution_status_value_inj: "execution_status_value a = execution_status_value b \<longleftrightarrow> a = b"
  by (cases a; cases b) simp_all

lemma topic_status_value_inj: "topic_status_value a = topic_status_value b \<longleftrightarrow> a = b"
  by (cases a; cases b) simp_all

lemma alias_status_value_inj: "alias_status_value a = alias_status_value b \<longleftrightarrow> a = b"
  by (cases a; cases b) simp_all

lemma alias_type_value_inj: "alias_type_value a = alias_type_value b \<longleftrightarrow> a = b"
  by (cases a; cases b) simp_all

lemma match_mode_value_inj: "match_mode_value a = match_mode_value b \<longleftrightarrow> a = b"
  by (cases a; cases b) simp_all

lemmas enum_values_inj =
  ingestion_status_value_inj
  execution_status_value_inj
  topic_status_value_inj
  alias_status_value_inj
  alias_type_value_inj
  match_mode_value_inj


section \<open>Tables\<close>

record source_row =
  source_id :: nat
  source_name :: string
  source_kind :: string
  source_base_url :: "string option"
  source_is_active :: bool
  source_metadata :: jdict

record category_row =
  category_id :: nat
  category_name :: string
  category_slug :: string
  category_description :: "string option"
  category_parent_id :: "nat option"
  category_sort_order :: int

definition category_check :: "category_row \<Rightarrow> bool" where
  "category_check c = (category_sort_order c \<ge> 0)"

record topic_row =
  topic_id :: nat
  topic_canonical_name :: string
  topic_normalized_name :: string
  topic_slug :: string
  topic_description :: "string option"
  topic_category_id :: "nat option"
  topic_status :: topic_status
  topic_monitoring_priority :: int
  topic_deprecated_at :: "int option"
  topic_registry_version :: "int option"
  topic_metadata :: jdict

definition topic_check :: "topic_row \<Rightarrow> bool" where
  "topic_check t = (0 \<le> topic_monitoring_priority t \<and> topic_monitoring_priority t \<le> 100)"

text \<open>Confidences are decimals in millionths: the range 0 to 1 is 0 to 1000000.\<close>

record alias_row =
  alias_id :: nat
  alias_topic_id :: nat
  alias_source_id :: "nat option"
  alias_text :: string
  alias_normalized :: string
  alias_kind :: alias_type
  alias_match_mode :: match_mode
  alias_case_sensitive :: bool
  alias_status :: alias_status
  alias_confidence :: int
  alias_metadata :: jdict

definition alias_check :: "alias_row \<Rightarrow> bool" where
  "alias_check a = (0 \<le> alias_confidence a \<and> alias_confidence a \<le> 1000000)"

text \<open>
  \<open>uq_topic_aliases_source_normalized_alias\<close> does not constrain rows whose \<open>source_id\<close> is NULL:
  SQL compares NULL as distinct.
\<close>

definition alias_unique :: "alias_row list \<Rightarrow> bool" where
  "alias_unique rows =
     (distinct (map (\<lambda>a. (alias_topic_id a, alias_normalized a)) rows) \<and>
      distinct (map (\<lambda>a. (alias_source_id a, alias_normalized a))
                 (filter (\<lambda>a. alias_source_id a \<noteq> None) rows)))"

record mapping_row =
  mapping_id :: nat
  mapping_topic_id :: nat
  mapping_source_id :: nat
  mapping_enabled :: bool
  mapping_type :: string
  mapping_external_identifier :: "string option"
  mapping_query :: "string option"
  mapping_configuration :: jdict

definition mapping_unique :: "mapping_row list \<Rightarrow> bool" where
  "mapping_unique rows =
     distinct (map (\<lambda>m. (mapping_topic_id m, mapping_source_id m, mapping_type m)) rows)"

record registry_version_row =
  version_id :: nat
  version_number :: int
  version_checksum :: string
  version_source_file_count :: int
  version_topic_count :: int
  version_alias_count :: int
  version_mapping_count :: int
  version_applied_by :: string
  version_metadata :: jdict
  version_created_at :: int

definition registry_version_check :: "registry_version_row \<Rightarrow> bool" where
  "registry_version_check v =
     (version_number v > 0 \<and> version_source_file_count v \<ge> 0 \<and> version_topic_count v \<ge> 0 \<and>
      version_alias_count v \<ge> 0 \<and> version_mapping_count v \<ge> 0)"

record audit_row =
  audit_version_id :: nat
  audit_action :: string
  audit_entity_type :: string
  audit_entity_id :: string
  audit_before :: "jdict option"
  audit_after :: "jdict option"

record scheduler_execution =
  ex_id :: nat
  ex_job_name :: string
  ex_source_name :: string
  ex_scheduled_at :: int
  ex_started_at :: "int option"
  ex_finished_at :: "int option"
  ex_status :: execution_status
  ex_error_type :: "string option"
  ex_metadata :: jdict

definition execution_unique :: "scheduler_execution list \<Rightarrow> bool" where
  "execution_unique rows = distinct (map (\<lambda>r. (ex_job_name r, ex_scheduled_at r)) rows)"

record ingestion_run =
  run_id :: nat
  run_source_id :: nat
  run_started_at :: int
  run_finished_at :: "int option"
  run_status :: ingestion_status
  run_records_requested :: int
  run_records_received :: int
  run_records_inserted :: int
  run_records_updated :: int
  run_records_skipped :: int
  run_error_count :: int
  run_checkpoint_before :: "jdict option"
  run_checkpoint_after :: "jdict option"
  run_collector_version :: string
  run_metadata :: jdict

definition ingestion_run_check :: "ingestion_run \<Rightarrow> bool" where
  "ingestion_run_check r =
     (run_records_requested r \<ge> 0 \<and> run_records_received r \<ge> 0 \<and> run_records_inserted r \<ge> 0 \<and>
      run_records_updated r \<ge> 0 \<and> run_records_skipped r \<ge> 0 \<and> run_error_count r \<ge> 0)"

record ingestion_error_row =
  error_run_id :: nat
  error_occurred_at :: int
  error_type :: string
  error_message :: string
  error_record_identifier :: "string option"
  error_details :: jdict

record quality_check_row =
  check_run_id :: "nat option"
  check_name :: string
  check_status :: quality_status
  check_observed :: jdict
  check_expected :: jdict
  check_details :: jdict

end
