(* ===== verification/Cron.thy ===== *)
theory Cron
  imports Prelude
begin

text \<open>
  The UTC cron resolver of \<open>apps/worker/.../main.py\<close>: \<open>next_cron_run\<close>, \<open>next_arxiv_run\<close> and
  \<open>elapsed_cron_runs\<close>, with the daily schedule parser \<open>_daily_schedule_time\<close> and
  \<open>_latest_due_window\<close> of \<open>observatory_operations/scheduler.py\<close>.  Timestamps that the code
  checks for a zone are \<open>pydatetime\<close>; a resolved window is a UTC instant.  The lemmas show that
  the resolver returns the earliest matching instant after now and that the enumeration is exactly
  the set of matching instants of its interval.
\<close>


section \<open>Parsing and resolving a schedule\<close>

text \<open>The validated reading of \<open>minute hour * * weekday\<close>.\<close>

record cron_spec =
  cron_minute :: int
  cron_hour :: int
  cron_weekday :: "int option" \<comment> \<open>None for \<open>*\<close>; 0 is Sunday\<close>

definition parse_cron :: "string \<Rightarrow> string \<Rightarrow> cron_spec result" where
  "parse_cron schedule setting_name =
     (let parts = split_words schedule in
      if length parts \<noteq> 5 \<or> take 2 (drop 2 parts) \<noteq> [''*'', ''*''] then
        Inl (ValueError (setting_name @ '' must use UTC cron format: minute hour * * weekday''))
      else
        case (py_int (parts ! 0), py_int (parts ! 1)) of
          (Some minute, Some hour) \<Rightarrow>
            if \<not> (0 \<le> minute \<and> minute \<le> 59) \<or> \<not> (0 \<le> hour \<and> hour \<le> 23) then
              Inl (ValueError (setting_name @ '' hour/minute is outside the valid range''))
            else
              let weekday = parts ! 4 in
              if weekday = ''*'' then
                Inr \<lparr>cron_minute = minute, cron_hour = hour, cron_weekday = None\<rparr>
              else
                (case py_int weekday of
                   None \<Rightarrow> Inl (ValueError (setting_name @ '' weekday must be * or 0-6''))
                 | Some w \<Rightarrow>
                     if \<not> (0 \<le> w \<and> w \<le> 6) then
                       Inl (ValueError (setting_name @ '' weekday must be * or 0-6''))
                     else Inr \<lparr>cron_minute = minute, cron_hour = hour, cron_weekday = Some w\<rparr>)
        | _ \<Rightarrow> Inl (ValueError (setting_name @ '' minute and hour must be integers'')))"

text \<open>\<open>current.replace(hour=.., minute=.., second=0, microsecond=0)\<close>\<close>

definition at_time :: "cron_spec \<Rightarrow> int \<Rightarrow> int" where
  "at_time c current = date_of current * day_us + cron_hour c * hour_us + cron_minute c * minute_us"

definition resolve_cron :: "cron_spec \<Rightarrow> int \<Rightarrow> int" where
  "resolve_cron c current =
     (let candidate = at_time c current in
      case cron_weekday c of
        None \<Rightarrow> (if candidate > current then candidate else candidate + day_us)
      | Some w \<Rightarrow>
          (let cron_today = (weekday current + 1) mod 7;
               days_ahead = (w - cron_today) mod 7;
               candidate' = candidate + days_ahead * day_us
           in if candidate' > current then candidate' else candidate' + 7 * day_us))"

definition next_cron_run :: "string \<Rightarrow> pydatetime \<Rightarrow> string \<Rightarrow> int result" where
  "next_cron_run schedule now setting_name =
     (case parse_cron schedule setting_name of
        Inl e \<Rightarrow> Inl e
      | Inr c \<Rightarrow>
          (case utc_instant now of
             None \<Rightarrow> Inl (ValueError ''scheduler time must be timezone-aware'')
           | Some current \<Rightarrow> Inr (resolve_cron c current)))"

definition next_arxiv_run :: "string \<Rightarrow> pydatetime \<Rightarrow> int result" where
  "next_arxiv_run schedule now =
     (let parts = split_words schedule in
      if drop (length parts - 1) parts \<noteq> [''*''] then
        Inl (ValueError ''ARXIV_SCHEDULE must use daily UTC cron format: minute hour * * *'')
      else next_cron_run schedule now ''ARXIV_SCHEDULE'')"


section \<open>What a schedule means\<close>

text \<open>An instant matches a schedule when its UTC time of day and weekday are the schedule's.\<close>

definition cron_valid :: "cron_spec \<Rightarrow> bool" where
  "cron_valid c = (0 \<le> cron_minute c \<and> cron_minute c \<le> 59 \<and> 0 \<le> cron_hour c \<and> cron_hour c \<le> 23 \<and>
     (case cron_weekday c of None \<Rightarrow> True | Some w \<Rightarrow> 0 \<le> w \<and> w \<le> 6))"

definition cron_matches :: "cron_spec \<Rightarrow> int \<Rightarrow> bool" where
  "cron_matches c t =
     (t mod day_us = cron_hour c * hour_us + cron_minute c * minute_us \<and>
      (case cron_weekday c of None \<Rightarrow> True | Some w \<Rightarrow> (weekday t + 1) mod 7 = w))"

definition offset_of :: "cron_spec \<Rightarrow> int" where
  "offset_of c = cron_hour c * hour_us + cron_minute c * minute_us"

lemma parse_cron_valid: "parse_cron s n = Inr c \<Longrightarrow> cron_valid c"
  by (auto simp: parse_cron_def Let_def cron_valid_def split: if_splits option.splits)

lemma offset_bounds: "cron_valid c \<Longrightarrow> 0 \<le> offset_of c \<and> offset_of c < day_us"
  by (auto simp: cron_valid_def offset_of_def)

lemma matches_iff_day:
  assumes "cron_valid c"
  shows "cron_matches c t \<longleftrightarrow> (\<exists>d. t = d * day_us + offset_of c \<and>
           (case cron_weekday c of None \<Rightarrow> True | Some w \<Rightarrow> (d + 4) mod 7 = w))"
proof -
  have b: "0 \<le> offset_of c" "offset_of c < day_us" using offset_bounds [OF assms] by simp_all
  have m: "t mod day_us = offset_of c \<longleftrightarrow> (\<exists>d. t = d * day_us + offset_of c)"
    by (rule mod_eq_iff_day [OF b])
  have w: "(weekday (d * day_us + offset_of c) + 1) mod 7 = (d + 4) mod 7" for d
    unfolding weekday_def date_of_def day_div [OF b] by presburger
  have "cron_matches c t \<longleftrightarrow> (\<exists>d. t = d * day_us + offset_of c) \<and>
      (case cron_weekday c of None \<Rightarrow> True | Some w \<Rightarrow> (weekday t + 1) mod 7 = w)"
    using m by (simp only: cron_matches_def offset_of_def)
  also have "\<dots> \<longleftrightarrow> (\<exists>d. t = d * day_us + offset_of c \<and>
      (case cron_weekday c of None \<Rightarrow> True | Some w \<Rightarrow> (d + 4) mod 7 = w))"
  proof (cases "cron_weekday c")
    case (Some x)
    show ?thesis unfolding Some option.simps by (metis w)
  qed simp
  finally show ?thesis .
qed

lemma at_time_eq: "at_time c t = date_of t * day_us + offset_of c"
  by (simp add: at_time_def offset_of_def)

lemma date_bounds: "date_of t * day_us \<le> t \<and> t < (date_of t + 1) * day_us"
proof -
  have "t = date_of t * day_us + t mod day_us" unfolding date_of_def by (rule div_mult_mod_eq [symmetric])
  moreover have "0 \<le> t mod day_us" "t mod day_us < day_us" by simp_all
  ultimately have "date_of t * day_us \<le> t" "t < date_of t * day_us + day_us" by linarith+
  then show ?thesis by (simp add: distrib_right)
qed

lemma day_less: "(d::int) * day_us + x \<le> e * day_us + y \<Longrightarrow> y - x < day_us \<Longrightarrow> d \<le> e"
  by (smt (verit) mult_right_mono)

lemma mod7_shift: "((n::int) + x mod 7 + 4) mod 7 = (n + x + 4) mod 7"
  by (rule mod_add_cong) (simp_all add: mod_simps)

lemma mod7_add: "((n::int) + 7 + 4) mod 7 = (n + 4) mod 7"
  using mod_add_self2 [of "n + 4" 7] by (simp add: algebra_simps)

lemma mod7_diff: "((a::int) - b - c) mod 7 = ((a + 4) mod 7 - (b + c + 4) mod 7) mod 7"
  by (simp add: mod_diff_eq diff_diff_eq)

lemma weekday_shift:
  assumes "0 \<le> w" "w \<le> 6"
  shows "(date_of t + (w - (weekday t + 1) mod 7) mod 7 + 4) mod 7 = w"
proof -
  let ?n = "date_of t + 4"
  have "(weekday t + 1) mod 7 = ?n mod 7"
    unfolding weekday_def by (simp add: mod_simps add.commute)
  then have "(date_of t + (w - (weekday t + 1) mod 7) mod 7 + 4) mod 7 = (?n - ?n mod 7 + w) mod 7"
    unfolding mod7_shift by (simp add: algebra_simps)
  also have "?n - ?n mod 7 = 7 * (?n div 7)" by (rule minus_mod_eq_mult_div)
  finally show ?thesis using assms by simp
qed

text \<open>The resolver returns the earliest instant after now that matches.\<close>

lemma resolve_matches:
  assumes v: "cron_valid c"
  shows "cron_matches c (resolve_cron c t)"
proof (cases "cron_weekday c")
  case None
  have "\<exists>d. resolve_cron c t = d * day_us + offset_of c"
  proof (cases "at_time c t > t")
    case True
    with None show ?thesis by (auto simp: resolve_cron_def at_time_eq)
  next
    case False
    with None have "resolve_cron c t = (date_of t + 1) * day_us + offset_of c"
      by (simp add: resolve_cron_def at_time_eq algebra_simps)
    then show ?thesis by blast
  qed
  with v None show ?thesis by (simp only: matches_iff_day) simp
next
  case (Some w)
  define k where "k = (w - (weekday t + 1) mod 7) mod 7"
  have "0 \<le> w" "w \<le> 6" using v Some by (simp_all add: cron_valid_def)
  then have "(date_of t + k + 4) mod 7 = w" unfolding k_def by (rule weekday_shift)
  moreover from this have "(date_of t + k + 7 + 4) mod 7 = w" by (simp only: mod7_add)
  moreover have "resolve_cron c t = (date_of t + k) * day_us + offset_of c \<or>
      resolve_cron c t = (date_of t + k + 7) * day_us + offset_of c"
    using Some by (simp add: resolve_cron_def Let_def at_time_eq flip: k_def)
  ultimately show ?thesis using Some unfolding matches_iff_day [OF v] by (metis option.simps(5))
qed

lemma resolve_after:
  assumes v: "cron_valid c"
  shows "t < resolve_cron c t"
proof -
  have t: "t < date_of t * day_us + day_us" using date_bounds [of t] by (simp add: algebra_simps)
  have o: "0 \<le> offset_of c" using offset_bounds [OF v] by simp
  have k: "0 \<le> (w - (weekday t + 1) mod 7) mod 7" for w :: int by simp
  show ?thesis
  proof (cases "cron_weekday c")
    case None
    with t o show ?thesis by (simp add: resolve_cron_def Let_def at_time_eq)
  next
    case (Some w)
    define k where "k = (w - (weekday t + 1) mod 7) mod 7"
    have "0 \<le> k" by (simp add: k_def)
    with t o Some show ?thesis by (simp add: resolve_cron_def Let_def at_time_eq flip: k_def)
  qed
qed

lemma resolve_least:
  assumes v: "cron_valid c" and m: "cron_matches c u" and u: "t < u"
  shows "resolve_cron c t \<le> u"
proof -
  obtain d where d: "u = d * day_us + offset_of c"
    and w: "case cron_weekday c of None \<Rightarrow> True | Some w \<Rightarrow> (d + 4) mod 7 = w"
    using m unfolding matches_iff_day [OF v] by blast
  let ?n = "date_of t"
  have o: "0 \<le> offset_of c" "offset_of c < day_us" using offset_bounds [OF v] by simp_all
  have nd: "?n \<le> d" using day_less [of ?n 0 d "offset_of c"] date_bounds [of t] d u o by simp
  show ?thesis
  proof (cases "cron_weekday c")
    case None
    show ?thesis
    proof (cases "at_time c t > t")
      case True
      with None d nd show ?thesis by (simp add: resolve_cron_def at_time_eq)
    next
      case False
      then have "d \<noteq> ?n" using d u by (auto simp: at_time_eq)
      with nd have "?n + 1 \<le> d" by simp
      then have "(?n + 1) * day_us \<le> d * day_us" by simp
      with None False d show ?thesis by (simp add: resolve_cron_def at_time_eq algebra_simps)
    qed
  next
    case (Some wd)
    define k where "k = (wd - (weekday t + 1) mod 7) mod 7"
    have wd: "(d + 4) mod 7 = wd" using w Some by simp
    have "0 \<le> wd" "wd \<le> 6" using v Some by (simp_all add: cron_valid_def)
    then have k: "(?n + k + 4) mod 7 = wd" unfolding k_def by (rule weekday_shift)
    have "0 \<le> k" "k < 7" by (simp_all add: k_def)
    define j where "j = (d - ?n - k) div 7"
    have "(d - ?n - k) mod 7 = ((d + 4) mod 7 - (?n + k + 4) mod 7) mod 7"
      by (rule mod7_diff)
    then have "(d - ?n - k) mod 7 = 0" using wd k by simp
    then have j: "d = ?n + k + 7 * j" unfolding j_def by (simp add: mod_0_imp_dvd)
    have "0 \<le> j" using j nd \<open>k < 7\<close> by linarith
    show ?thesis
    proof (cases "at_time c t + k * day_us > t")
      case True
      have "(?n + k) * day_us \<le> d * day_us" using j \<open>0 \<le> j\<close> by simp
      with True Some d show ?thesis
        by (simp add: resolve_cron_def Let_def at_time_eq flip: k_def)
    next
      case False
      then have "j \<noteq> 0" using d u j by (auto simp: at_time_eq algebra_simps)
      with \<open>0 \<le> j\<close> have "(?n + k + 7) * day_us \<le> d * day_us" using j by simp
      with False Some d show ?thesis
        by (simp add: resolve_cron_def Let_def at_time_eq flip: k_def)
    qed
  qed
qed

lemmas resolve_cron_facts = resolve_matches resolve_after resolve_least


section \<open>Every elapsed window\<close>

text \<open>
  The \<open>while True\<close> loop of \<open>elapsed_cron_runs\<close>.  The schedule is parsed again in every pass with
  the same result; the loop stops because each pass moves the cursor up by at least one
  microsecond towards the boundary.
\<close>

function elapsed_loop :: "cron_spec \<Rightarrow> int \<Rightarrow> int \<Rightarrow> int list" where
  "elapsed_loop c cursor boundary =
     (let candidate = resolve_cron c cursor in
      if candidate > boundary \<or> \<not> cron_valid c then [] else candidate # elapsed_loop c candidate boundary)"
  by pat_completeness auto
termination
  by (relation "measure (\<lambda>(c, cursor, boundary). nat (boundary - cursor))")
     (auto simp: Let_def zless_nat_conj dest: resolve_after intro: less_le_trans order_less_le_trans)

declare elapsed_loop.simps [simp del]

definition elapsed_cron_runs ::
  "string \<Rightarrow> pydatetime \<Rightarrow> pydatetime \<Rightarrow> string \<Rightarrow> int list result" where
  "elapsed_cron_runs schedule after until setting_name =
     (case utc_instant after of
        None \<Rightarrow> Inl (ValueError ''last scheduler window must be timezone-aware'')
      | Some cursor \<Rightarrow>
          (case utc_instant until of
             None \<Rightarrow> Inl (ValueError ''scheduler reconciliation time must be timezone-aware'')
           | Some boundary \<Rightarrow>
               (case parse_cron schedule setting_name of
                  Inl e \<Rightarrow> Inl e
                | Inr c \<Rightarrow> Inr (elapsed_loop c cursor boundary))))"

lemma set_elapsed_loop:
  "cron_valid c \<Longrightarrow> set (elapsed_loop c a b) = {t. cron_matches c t \<and> a < t \<and> t \<le> b}"
proof (induction c a b rule: elapsed_loop.induct)
  case (1 c a b)
  note facts = resolve_cron_facts [OF "1.prems"]
  show ?case
  proof (cases "resolve_cron c a > b")
    case True
    then show ?thesis using facts(3) by (subst elapsed_loop.simps) fastforce
  next
    case False
    then have "set (elapsed_loop c a b) =
        insert (resolve_cron c a) {t. cron_matches c t \<and> resolve_cron c a < t \<and> t \<le> b}"
      using "1.IH" [OF refl] "1.prems" by (subst elapsed_loop.simps) (simp add: Let_def)
    also have "\<dots> = {t. cron_matches c t \<and> a < t \<and> t \<le> b}"
      using False facts(1,2) [of a] facts(3) [of _ a] by (auto simp: order.order_iff_strict)
    finally show ?thesis .
  qed
qed

lemma sorted_elapsed_loop: "cron_valid c \<Longrightarrow> sorted_wrt (<) (elapsed_loop c a b)"
proof (induction c a b rule: elapsed_loop.induct)
  case (1 c a b)
  then show ?case
    by (subst elapsed_loop.simps) (auto simp: Let_def set_elapsed_loop)
qed


section \<open>The daily schedule of the punctuality verifier\<close>

definition daily_schedule_time :: "string \<Rightarrow> (int \<times> int) result" where
  "daily_schedule_time schedule =
     (let parts = split_words schedule in
      if length parts \<noteq> 5 \<or> drop 2 parts \<noteq> [''*'', ''*'', ''*''] then
        Inl (ValueError ''punctuality verification requires a daily five-field UTC cron'')
      else
        case (py_int (parts ! 0), py_int (parts ! 1)) of
          (Some minute, Some hour) \<Rightarrow>
            if \<not> (0 \<le> minute \<and> minute \<le> 59) \<or> \<not> (0 \<le> hour \<and> hour \<le> 23) then
              Inl (ValueError ''scheduler hour/minute is outside the valid range'')
            else Inr (hour, minute)
        | _ \<Rightarrow> Inl (ValueError ''scheduler minute and hour must be integers''))"

definition latest_due_window :: "string \<Rightarrow> int \<Rightarrow> int result" where
  "latest_due_window schedule observed_at =
     (case daily_schedule_time schedule of
        Inl e \<Rightarrow> Inl e
      | Inr (hour, minute) \<Rightarrow>
          (let candidate = date_of observed_at * day_us + hour * hour_us + minute * minute_us
           in Inr (if candidate \<le> observed_at then candidate else candidate - day_us)))"

text \<open>Both parsers agree on daily schedules.\<close>

lemma daily_schedule_cron:
  fixes n :: string
  shows "daily_schedule_time s = Inr (h, m) \<longleftrightarrow>
     parse_cron s n = Inr \<lparr>cron_minute = m, cron_hour = h, cron_weekday = None\<rparr>"
proof -
  have "length parts = 5 \<Longrightarrow> drop 2 parts = [''*'', ''*'', ''*''] \<longleftrightarrow>
      take 2 (drop 2 parts) = [''*'', ''*''] \<and> parts ! 4 = ''*''" for parts :: "string list"
    by (auto simp: length_Suc_conv numeral_eq_Suc)
  then show ?thesis
    by (auto simp: daily_schedule_time_def parse_cron_def Let_def split: if_splits option.splits)
qed

text \<open>The latest due window and the next run are one day apart and enclose now.\<close>

lemma latest_due_next:
  assumes "latest_due_window s t = Inr w"
  shows "w \<le> t \<and> next_cron_run s (utc t) n = Inr (w + day_us)"
proof -
  obtain h m where hm: "daily_schedule_time s = Inr (h, m)"
    using assms by (auto simp: latest_due_window_def split: sum.splits)
  let ?c = "\<lparr>cron_minute = m, cron_hour = h, cron_weekday = None\<rparr>"
  have p: "parse_cron s n = Inr ?c" by (rule daily_schedule_cron [THEN iffD1, OF hm])
  have v: "cron_valid ?c" by (rule parse_cron_valid [OF p])
  have w: "w = (if at_time ?c t \<le> t then at_time ?c t else at_time ?c t - day_us)"
    using assms hm by (auto simp: latest_due_window_def at_time_def Let_def)
  have "at_time ?c t - day_us \<le> t"
    using date_bounds [of t] offset_bounds [OF v] by (simp add: at_time_eq)
  then show ?thesis
    using p w by (simp add: next_cron_run_def resolve_cron_def Let_def)
qed

section \<open>Properties\<close>

text \<open>
  \<open>next_cron_run\<close> returns the earliest matching instant strictly after now: the schedule parsed,
  the result lies on the schedule's time of day and weekday, and no instant in between does.
\<close>

theorem next_cron_run_earliest:
  assumes "next_cron_run schedule now setting_name = Inr t"
  shows "\<exists>c current. parse_cron schedule setting_name = Inr c \<and> utc_instant now = Some current \<and>
     current < t \<and> cron_matches c t \<and> \<not> (\<exists>u. current < u \<and> u < t \<and> cron_matches c u)"
proof -
  obtain c current where c: "parse_cron schedule setting_name = Inr c" "utc_instant now = Some current"
    "t = resolve_cron c current"
    using assms by (auto simp: next_cron_run_def split: sum.splits option.splits)
  note v = parse_cron_valid [OF c(1)]
  have "\<not> (\<exists>u. current < u \<and> u < t \<and> cron_matches c u)"
    using resolve_least [OF v] by (auto simp: c(3) not_le [symmetric])
  then show ?thesis using c resolve_matches [OF v] resolve_after [OF v] by blast
qed

theorem next_cron_run_earliest_witness:
  "\<exists>c current. parse_cron ''30 2 * * 1'' ''S'' = Inr c \<and> utc_instant (utc 0) = Some current \<and>
     current < 4 * day_us + 2 * hour_us + 30 * minute_us \<and>
     cron_matches c (4 * day_us + 2 * hour_us + 30 * minute_us) \<and>
     \<not> (\<exists>u. current < u \<and> u < 4 * day_us + 2 * hour_us + 30 * minute_us \<and> cron_matches c u)"
  by (rule next_cron_run_earliest) code_simp

text \<open>
  C5: \<open>elapsed_cron_runs\<close> terminates and lists exactly the matching instants after the given window
  and up to the boundary, each once and in ascending order.
\<close>

theorem elapsed_cron_runs_exact:
  assumes "elapsed_cron_runs schedule after until setting_name = Inr ws"
  shows "\<exists>c a b. parse_cron schedule setting_name = Inr c \<and> utc_instant after = Some a \<and>
     utc_instant until = Some b \<and> set ws = {t. cron_matches c t \<and> a < t \<and> t \<le> b} \<and> sorted_wrt (<) ws"
  using assms set_elapsed_loop [OF parse_cron_valid] sorted_elapsed_loop [OF parse_cron_valid]
  by (auto simp: elapsed_cron_runs_def split: sum.splits option.splits)

theorem elapsed_cron_runs_exact_witness:
  "\<exists>c a b. parse_cron ''0 6 * * *'' ''S'' = Inr c \<and> utc_instant (utc 0) = Some a \<and>
     utc_instant (utc (2 * day_us)) = Some b \<and>
     set [6 * hour_us, day_us + 6 * hour_us] = {t. cron_matches c t \<and> a < t \<and> t \<le> b} \<and>
     sorted_wrt (<) [6 * hour_us, day_us + 6 * hour_us]"
  by (rule elapsed_cron_runs_exact) code_simp

text \<open>
  The punctuality verifier and the worker read a daily schedule alike: the latest due window is
  not in the future and the worker's next run is exactly one day after it.
\<close>

theorem latest_due_window_next_run:
  assumes "latest_due_window schedule now = Inr w"
  shows "w \<le> now \<and> next_cron_run schedule (utc now) setting_name = Inr (w + day_us)"
  by (rule latest_due_next [OF assms])

theorem latest_due_window_next_run_witness:
  "6 * hour_us \<le> 7 * hour_us \<and> next_cron_run ''0 6 * * *'' (utc (7 * hour_us)) ''S'' = Inr (6 * hour_us + day_us)"
  by (rule latest_due_window_next_run) code_simp

end
