(* ===== verification/Scheduler_Ledger.thy ===== *)
theory Scheduler_Ledger
  imports Db_Models
begin

text \<open>
  \<open>SchedulerLedger\<close> of \<open>observatory_operations/scheduler.py\<close>: the table \<open>scheduler_executions\<close>
  as a list of rows and one function per operation, each returning its result or exception with the
  table after it.  A row that is updated by an \<open>UPDATE .. WHERE\<close> or through the session is updated
  in place.  The lemmas show the lifecycle of a window: unique windows, the evidence each status
  carries, the transitions that can happen, and that terminal rows never change.
\<close>

type_synonym ledger = "scheduler_execution list"


section \<open>Operations\<close>

definition require_utc :: "pydatetime \<Rightarrow> int result" where
  "require_utc value = (case utc_instant value of
     None \<Rightarrow> Inl (ValueError ''scheduler evidence timestamp must be timezone-aware'')
   | Some t \<Rightarrow> Inr t)"

lemma require_utc_simps [simp]:
  "require_utc (Naive w) = Inl (ValueError ''scheduler evidence timestamp must be timezone-aware'')"
  "require_utc (Aware w z) = Inr (w - z)"
  by (simp_all add: require_utc_def)

definition is_window :: "string \<Rightarrow> int \<Rightarrow> scheduler_execution \<Rightarrow> bool" where
  "is_window job window r = (ex_job_name r = job \<and> ex_scheduled_at r = window)"

definition materialized_windows :: "string \<Rightarrow> ledger \<Rightarrow> int list" where
  "materialized_windows job_name rows =
     first_occurrences (map ex_scheduled_at
       (sort_key ex_scheduled_at (filter (\<lambda>r. ex_job_name r = job_name) rows)))"

record reconciled_execution =
  rec_job_name :: string
  rec_source_name :: string
  rec_scheduled_at :: int
  rec_status :: execution_status

definition reconcilable :: "string \<Rightarrow> scheduler_execution \<Rightarrow> bool" where
  "reconcilable job_name r =
     (ex_job_name r = job_name \<and> (ex_status r = Scheduled \<or> ex_status r = Running))"

text \<open>The loop body of \<open>reconcile\<close>: None is its \<open>continue\<close>.\<close>

definition reconcile_row :: "int \<Rightarrow> scheduler_execution \<Rightarrow> scheduler_execution option" where
  "reconcile_row observed_at r =
     (let finish = (\<lambda>status err. r\<lparr>
            ex_status := status,
            ex_error_type := Some err,
            ex_finished_at := Some observed_at,
            ex_metadata := dict_set ''reconciled_at'' (JTime observed_at) (ex_metadata r)\<rparr>)
      in if ex_status r = Scheduled then
           (if ex_scheduled_at r > observed_at then None
            else Some (finish Missed ''worker_unavailable_at_due_time''))
         else Some (finish Interrupted ''worker_restarted_during_execution''))"

definition reconcile_update :: "string \<Rightarrow> int \<Rightarrow> scheduler_execution \<Rightarrow> scheduler_execution" where
  "reconcile_update job_name observed_at r =
     (if reconcilable job_name r
      then (case reconcile_row observed_at r of None \<Rightarrow> r | Some r' \<Rightarrow> r') else r)"

definition reconcile :: "string \<Rightarrow> pydatetime \<Rightarrow> ledger \<Rightarrow> reconciled_execution list result \<times> ledger" where
  "reconcile job_name now rows =
     (case require_utc now of
        Inl e \<Rightarrow> (Inl e, rows)
      | Inr observed_at \<Rightarrow>
          (let selected = sort_key ex_scheduled_at (filter (reconcilable job_name) rows);
               changed = somes (map (reconcile_row observed_at) selected)
           in (Inr (map (\<lambda>r. \<lparr>rec_job_name = ex_job_name r, rec_source_name = ex_source_name r,
                               rec_scheduled_at = ex_scheduled_at r, rec_status = ex_status r\<rparr>) changed),
               map (reconcile_update job_name observed_at) rows)))"

text \<open>
  \<open>plan\<close>.  The insertion violates \<open>uq_scheduler_execution_window\<close> when a row of the window is
  there; the exception path then reads that row back.
\<close>

definition plan_insert :: "string \<Rightarrow> string \<Rightarrow> int \<Rightarrow> jdict option \<Rightarrow> ledger \<Rightarrow> ledger" where
  "plan_insert job_name source window metadata rows =
     rows @ [\<lparr>ex_id = fresh_id (map ex_id rows), ex_job_name = job_name, ex_source_name = source,
              ex_scheduled_at = window, ex_started_at = None, ex_finished_at = None,
              ex_status = Scheduled, ex_error_type = None,
              ex_metadata = (case metadata of None \<Rightarrow> [] | Some m \<Rightarrow> m)\<rparr>]"

definition plan :: "string \<Rightarrow> string \<Rightarrow> pydatetime \<Rightarrow> jdict option \<Rightarrow> ledger \<Rightarrow> bool result \<times> ledger" where
  "plan job_name source scheduled_at metadata rows =
     (case require_utc scheduled_at of
        Inl e \<Rightarrow> (Inl e, rows)
      | Inr window \<Rightarrow>
          (if execution_unique (plan_insert job_name source window metadata rows)
           then (Inr True, plan_insert job_name source window metadata rows)
           else
             (case find (is_window job_name window) rows of
                None \<Rightarrow> (Inl IntegrityError, rows)
              | Some existing \<Rightarrow>
                  if ex_source_name existing \<noteq> source then
                    (Inl (RuntimeError ''scheduler window already exists with a different source''), rows)
                  else
                    (case metadata of
                       None \<Rightarrow> (Inr False, rows)
                     | Some m \<Rightarrow>
                         if m \<noteq> [] \<and> ex_status existing = Scheduled then
                           (let merged = foldl (\<lambda>d (k, v). dict_setdefault k v d) (ex_metadata existing) m
                            in if merged \<noteq> ex_metadata existing
                               then (Inr False,
                                     map (\<lambda>r. if ex_id r = ex_id existing then r\<lparr>ex_metadata := merged\<rparr> else r) rows)
                               else (Inr False, rows))
                         else (Inr False, rows)))))"

definition start :: "string \<Rightarrow> pydatetime \<Rightarrow> pydatetime \<Rightarrow> ledger \<Rightarrow> bool result \<times> ledger" where
  "start job_name scheduled_at now rows =
     (case require_utc scheduled_at of
        Inl e \<Rightarrow> (Inl e, rows)
      | Inr window \<Rightarrow>
          (case require_utc now of
             Inl e \<Rightarrow> (Inl e, rows)
           | Inr started_at \<Rightarrow>
               (let claimable = (\<lambda>r. is_window job_name window r \<and> ex_status r = Scheduled)
                in (Inr (\<exists>r\<in>set rows. claimable r),
                    map (\<lambda>r. if claimable r
                              then r\<lparr>ex_status := Running, ex_started_at := Some started_at,
                                     ex_error_type := None\<rparr>
                              else r) rows))))"

definition finish ::
  "string \<Rightarrow> pydatetime \<Rightarrow> pydatetime \<Rightarrow> execution_status \<Rightarrow> string option \<Rightarrow> ledger \<Rightarrow> unit result \<times> ledger" where
  "finish job_name scheduled_at now status err rows =
     (if status \<notin> {Succeeded, Partial, Failed} then
        (Inl (ValueError ''scheduler finish status must be succeeded, partial, or failed''), rows)
      else
        (case require_utc scheduled_at of
           Inl e \<Rightarrow> (Inl e, rows)
         | Inr window \<Rightarrow>
             (case require_utc now of
                Inl e \<Rightarrow> (Inl e, rows)
              | Inr finished_at \<Rightarrow>
                  (let open_row = (\<lambda>r. is_window job_name window r \<and> ex_status r = Running)
                   in if \<not> (\<exists>r\<in>set rows. open_row r)
                      then (Inl (RuntimeError ''scheduler execution is not running''), rows)
                      else (Inr (),
                            map (\<lambda>r. if open_row r
                                      then r\<lparr>ex_status := status, ex_finished_at := Some finished_at,
                                             ex_error_type := err\<rparr>
                                      else r) rows)))))"


section \<open>Invariants of the ledger\<close>

text \<open>The evidence a row carries in each status.\<close>

fun evidence_ok :: "execution_status \<Rightarrow> int option \<Rightarrow> int option \<Rightarrow> bool" where
  "evidence_ok Scheduled started finished = (started = None \<and> finished = None)"
| "evidence_ok Running started finished = (started \<noteq> None \<and> finished = None)"
| "evidence_ok Missed started finished = (started = None \<and> finished \<noteq> None)"
| "evidence_ok _ started finished = (started \<noteq> None \<and> finished \<noteq> None)"

definition row_ok :: "scheduler_execution \<Rightarrow> bool" where
  "row_ok r = evidence_ok (ex_status r) (ex_started_at r) (ex_finished_at r)"

definition ledger_inv :: "ledger \<Rightarrow> bool" where
  "ledger_inv rows = (execution_unique rows \<and> distinct (map ex_id rows) \<and> list_all row_ok rows)"

definition terminal :: "execution_status \<Rightarrow> bool" where
  "terminal s = (s \<in> {Succeeded, Partial, Failed, Missed, Interrupted})"

text \<open>The transitions of one row.\<close>

fun transition :: "execution_status \<Rightarrow> execution_status \<Rightarrow> bool" where
  "transition Scheduled t = (t \<in> {Scheduled, Running, Missed})"
| "transition Running t = (t \<in> {Running, Succeeded, Partial, Failed, Interrupted})"
| "transition s t = (s = t)"

text \<open>
  How one operation may change a row: identity, window and source never, a terminal row not at
  all, and the status along \<open>transition\<close>.
\<close>

definition row_step :: "scheduler_execution \<Rightarrow> scheduler_execution \<Rightarrow> bool" where
  "row_step r r' =
     (ex_id r' = ex_id r \<and> ex_job_name r' = ex_job_name r \<and> ex_source_name r' = ex_source_name r \<and>
      ex_scheduled_at r' = ex_scheduled_at r \<and> transition (ex_status r) (ex_status r') \<and>
      (terminal (ex_status r) \<longrightarrow> r' = r))"

text \<open>One operation keeps every row, changed along \<open>row_step\<close>, and may append new rows.\<close>

definition ledger_le :: "ledger \<Rightarrow> ledger \<Rightarrow> bool" where
  "ledger_le rows rows' = (\<exists>old new. rows' = old @ new \<and> list_all2 row_step rows old)"

lemma transition_refl [simp]: "transition s s"
  by (cases s) simp_all

lemma row_step_refl [simp]: "row_step r r"
  by (cases "ex_status r") (simp_all add: row_step_def)

lemma transition_trans: "transition a b \<Longrightarrow> transition b c \<Longrightarrow> (a = Scheduled \<and> b = Running) \<or> transition a c"
  by (cases a) auto

lemma list_all2_row_step_refl: "list_all2 row_step rows rows"
  by (simp add: list_all2_same)

lemma ledger_le_refl [simp]: "ledger_le rows rows"
  unfolding ledger_le_def by (rule exI [of _ rows], rule exI [of _ "[]"]) (simp add: list_all2_row_step_refl)

lemma ledger_le_map:
  "(\<And>r. r \<in> set rows \<Longrightarrow> row_step r (f r)) \<Longrightarrow> ledger_le rows (map f rows)"
  unfolding ledger_le_def
  by (rule exI [of _ "map f rows"], rule exI [of _ "[]"]) (simp add: list_all2_conv_all_nth)

lemma list_all2_row_step_keys:
  "list_all2 row_step rows rows' \<Longrightarrow>
     map (\<lambda>r. (ex_job_name r, ex_scheduled_at r)) rows' = map (\<lambda>r. (ex_job_name r, ex_scheduled_at r)) rows \<and>
     map ex_id rows' = map ex_id rows"
  by (induction rule: list_all2_induct) (auto simp: row_step_def)

lemma ledger_inv_map [inv_intros]:
  assumes "ledger_inv rows"
    and "\<And>r. r \<in> set rows \<Longrightarrow> row_step r (f r)"
    and "\<And>r. r \<in> set rows \<Longrightarrow> row_ok r \<Longrightarrow> row_ok (f r)"
  shows "ledger_inv (map f rows)"
proof -
  have "list_all2 row_step rows (map f rows)"
    using assms(2) by (simp add: list_all2_conv_all_nth)
  then have k: "map (\<lambda>r. (ex_job_name r, ex_scheduled_at r)) (map f rows) = map (\<lambda>r. (ex_job_name r, ex_scheduled_at r)) rows"
      "map ex_id (map f rows) = map ex_id rows"
    by (rule list_all2_row_step_keys [THEN conjunct1], rule list_all2_row_step_keys [THEN conjunct2])
  show ?thesis unfolding ledger_inv_def execution_unique_def k
    using assms(1,3) by (auto simp: ledger_inv_def execution_unique_def list_all_iff)
qed

lemma row_in_ledger:
  assumes "ledger_inv rows" "r \<in> set rows" "s \<in> set rows"
    "ex_job_name r = ex_job_name s" "ex_scheduled_at r = ex_scheduled_at s"
  shows "r = s"
  using distinct_map_inj [of "\<lambda>r. (ex_job_name r, ex_scheduled_at r)" rows r s] assms
  by (simp add: ledger_inv_def execution_unique_def)


subsection \<open>Every operation keeps the invariant and only moves rows forward\<close>

lemma reconcile_row_SomeD:
  "reconcile_row t r = Some r' \<Longrightarrow> reconcilable j r \<Longrightarrow>
     row_step r r' \<and> (row_ok r \<longrightarrow> row_ok r') \<and> terminal (ex_status r') \<and> ex_finished_at r' = Some t"
  by (cases "ex_status r")
     (auto simp: reconcile_row_def Let_def reconcilable_def row_step_def row_ok_def terminal_def split: if_splits)

lemma reconcile_update_step: "row_step r (reconcile_update j t r) \<and> (row_ok r \<longrightarrow> row_ok (reconcile_update j t r))"
  by (auto simp: reconcile_update_def split: option.splits dest: reconcile_row_SomeD)

lemma reconcile_inv [inv_intros]:
  assumes "ledger_inv rows"
  shows "ledger_inv (snd (reconcile j now rows))"
  using assms
  by (auto simp: reconcile_def Let_def reconcile_update_step split: sum.splits intro!: ledger_inv_map)

lemma reconcile_le: "ledger_le rows (snd (reconcile j now rows))"
  by (auto simp: reconcile_def Let_def reconcile_update_step split: sum.splits intro!: ledger_le_map)

lemma start_inv [inv_intros]:
  assumes "ledger_inv rows"
  shows "ledger_inv (snd (start j w now rows))"
  using assms
  by (auto simp: start_def Let_def row_step_def row_ok_def terminal_def split: sum.splits
      intro!: ledger_inv_map)

lemma start_le: "ledger_le rows (snd (start j w now rows))"
  by (auto simp: start_def Let_def row_step_def terminal_def split: sum.splits intro!: ledger_le_map)

lemma finish_inv [inv_intros]:
  assumes "ledger_inv rows"
  shows "ledger_inv (snd (finish j w now st e rows))"
  using assms
  by (auto simp: finish_def Let_def row_step_def row_ok_def terminal_def split: sum.splits
      intro!: ledger_inv_map)

lemma finish_le: "ledger_le rows (snd (finish j w now st e rows))"
  by (auto simp: finish_def Let_def row_step_def terminal_def split: sum.splits intro!: ledger_le_map)

lemma plan_insert_le: "ledger_le rows (plan_insert j s w m rows)"
  unfolding ledger_le_def plan_insert_def using list_all2_row_step_refl by blast

lemma row_step_metadata: "ex_status r = Scheduled \<Longrightarrow> row_step r (r\<lparr>ex_metadata := m\<rparr>)"
  by (simp add: row_step_def terminal_def)

text \<open>The row that \<open>plan\<close> merges into is the one row with its identity.\<close>

lemma plan_merge_step:
  assumes "distinct (map ex_id rows)" "find P rows = Some x" "ex_status x = Scheduled"
    "r \<in> set rows"
  shows "row_step r (if ex_id r = ex_id x then r\<lparr>ex_metadata := m\<rparr> else r)"
proof -
  have "x \<in> set rows" using assms(2) by (auto simp: find_Some_iff)
  then have "ex_id r = ex_id x \<Longrightarrow> r = x" using distinct_map_inj [OF assms(1,4)] by blast
  then show ?thesis using assms(3) by (auto simp: row_step_metadata)
qed

lemma plan_cases:
  "snd (plan j s w m rows) = rows \<or>
   (\<exists>window. snd (plan j s w m rows) = plan_insert j s window m rows \<and>
      execution_unique (plan_insert j s window m rows)) \<or>
   (\<exists>window x d. find (is_window j window) rows = Some x \<and> ex_status x = Scheduled \<and>
      snd (plan j s w m rows) = map (\<lambda>r. if ex_id r = ex_id x then r\<lparr>ex_metadata := d\<rparr> else r) rows)"
  by (auto simp: plan_def Let_def split: sum.splits option.splits if_splits)

lemma plan_inv [inv_intros]:
  assumes inv: "ledger_inv rows"
  shows "ledger_inv (snd (plan j s w m rows))"
  using plan_cases [of j s w m rows]
proof (elim disjE exE conjE)
  fix window
  assume "snd (plan j s w m rows) = plan_insert j s window m rows"
    and "execution_unique (plan_insert j s window m rows)"
  then show ?thesis
    using inv fresh_id_notin [of "map ex_id rows"]
    by (simp add: ledger_inv_def) (simp add: plan_insert_def row_ok_def)
next
  fix window x d
  assume x: "find (is_window j window) rows = Some x" "ex_status x = Scheduled"
    and eq: "snd (plan j s w m rows) = map (\<lambda>r. if ex_id r = ex_id x then r\<lparr>ex_metadata := d\<rparr> else r) rows"
  show ?thesis unfolding eq
    by (rule ledger_inv_map [OF inv plan_merge_step]) (use inv x in \<open>auto simp: ledger_inv_def row_ok_def\<close>)
qed (use inv in simp)

lemma plan_le:
  assumes inv: "ledger_inv rows"
  shows "ledger_le rows (snd (plan j s w m rows))"
  using plan_cases [of j s w m rows]
proof (elim disjE exE conjE)
  fix window x d
  assume x: "find (is_window j window) rows = Some x" "ex_status x = Scheduled"
    and eq: "snd (plan j s w m rows) = map (\<lambda>r. if ex_id r = ex_id x then r\<lparr>ex_metadata := d\<rparr> else r) rows"
  show ?thesis unfolding eq
    by (rule ledger_le_map [OF plan_merge_step]) (use inv x in \<open>auto simp: ledger_inv_def\<close>)
qed (simp_all add: plan_insert_le)

lemmas ledger_op_inv = plan_inv start_inv finish_inv reconcile_inv
lemmas ledger_op_le = plan_le start_le finish_le reconcile_le


section \<open>The ledger as a state machine\<close>

text \<open>Any interleaving of the operations, with any arguments, starting from an empty table.\<close>

inductive ledger_step :: "ledger \<Rightarrow> ledger \<Rightarrow> bool" where
  step_plan: "ledger_step rows (snd (plan j s w m rows))"
| step_start: "ledger_step rows (snd (start j w now rows))"
| step_finish: "ledger_step rows (snd (finish j w now st e rows))"
| step_reconcile: "ledger_step rows (snd (reconcile j now rows))"

inductive ledger_run :: "ledger \<Rightarrow> ledger \<Rightarrow> bool" where
  run_refl: "ledger_run rows rows"
| run_step: "ledger_run a b \<Longrightarrow> ledger_step b c \<Longrightarrow> ledger_run a c"

lemma ledger_step_inv: "ledger_step a b \<Longrightarrow> ledger_inv a \<Longrightarrow> ledger_inv b"
  by (induction rule: ledger_step.induct) (auto intro: ledger_op_inv)

lemma ledger_step_le: "ledger_step a b \<Longrightarrow> ledger_inv a \<Longrightarrow> ledger_le a b"
  by (induction rule: ledger_step.induct) (auto intro: ledger_op_le)

lemma ledger_run_inv: "ledger_run a b \<Longrightarrow> ledger_inv a \<Longrightarrow> ledger_inv b"
  by (induction rule: ledger_run.induct) (auto intro: ledger_step_inv)

text \<open>What survives a whole run: a row keeps its identity, and once terminal its every field.\<close>

lemma ledger_le_row:
  "ledger_le a b \<Longrightarrow> r \<in> set a \<Longrightarrow> \<exists>r'\<in>set b. row_step r r'"
  by (fastforce simp: ledger_le_def list_all2_conv_all_nth in_set_conv_nth)

lemma ledger_run_row:
  assumes "ledger_run a b" "ledger_inv a" "r \<in> set a"
  shows "\<exists>r'\<in>set b. ex_id r' = ex_id r \<and> ex_job_name r' = ex_job_name r \<and>
           ex_source_name r' = ex_source_name r \<and>
           ex_scheduled_at r' = ex_scheduled_at r \<and> (terminal (ex_status r) \<longrightarrow> r' = r)"
  using assms
proof (induction rule: ledger_run.induct)
  case (run_step a b c)
  then obtain r' where r': "r' \<in> set b" "ex_id r' = ex_id r" "ex_job_name r' = ex_job_name r"
    "ex_source_name r' = ex_source_name r" "ex_scheduled_at r' = ex_scheduled_at r"
    "terminal (ex_status r) \<longrightarrow> r' = r" by blast
  have "ledger_le b c" using run_step ledger_run_inv ledger_step_le by blast
  from ledger_le_row [OF this r'(1)] obtain r'' where "r'' \<in> set c" "row_step r' r''" by blast
  with r' show ?case by (auto simp: row_step_def)
qed auto


section \<open>What each operation does\<close>

definition claimed_row :: "int \<Rightarrow> scheduler_execution \<Rightarrow> scheduler_execution" where
  "claimed_row t r = r\<lparr>ex_status := Running, ex_started_at := Some t, ex_error_type := None\<rparr>"

lemma claimed_row_simps [simp]:
  "is_window j w (claimed_row t r) = is_window j w r"
  "ex_status (claimed_row t r) = Running" "ex_started_at (claimed_row t r) = Some t"
  by (simp_all add: claimed_row_def is_window_def)

lemma start_eq:
  "start j (utc w) (utc t) rows =
     (Inr (\<exists>r\<in>set rows. is_window j w r \<and> ex_status r = Scheduled),
      map (\<lambda>r. if is_window j w r \<and> ex_status r = Scheduled then claimed_row t r else r) rows)"
  by (simp add: start_def claimed_row_def)

lemma start_claims:
  assumes "start j (utc w) (utc t) rows = (Inr True, rows')"
  shows "\<exists>r\<in>set rows. is_window j w r \<and> ex_status r = Scheduled"
    and "\<exists>r\<in>set rows'. is_window j w r \<and> ex_status r = Running \<and> ex_started_at r = Some t"
proof -
  from assms show "\<exists>r\<in>set rows. is_window j w r \<and> ex_status r = Scheduled"
    by (simp add: start_eq)
  then obtain r where "r \<in> set rows" "is_window j w r" "ex_status r = Scheduled" by blast
  then have "claimed_row t r \<in> set rows'" using assms by (force simp: start_eq)
  with \<open>is_window j w r\<close> show "\<exists>r\<in>set rows'. is_window j w r \<and> ex_status r = Running \<and> ex_started_at r = Some t"
    by (intro bexI [of _ "claimed_row t r"]) simp_all
qed

lemma start_not_claimed:
  "start j (utc w) (utc t) rows = (Inr False, rows') \<Longrightarrow> rows' = rows"
  by (auto simp: start_eq intro!: map_idI)

lemma start_twice:
  assumes "start j (utc w) (utc t) rows = (b, rows')"
  shows "fst (start j (utc w) (utc u) rows') = Inr False"
  using assms by (auto simp: start_eq)

lemma reconcile_closes:
  assumes "reconcile j (utc t) rows = (res, rows')" "r \<in> set rows'" "ex_job_name r = j"
  shows "ex_status r \<noteq> Running \<and> (ex_status r = Scheduled \<longrightarrow> ex_scheduled_at r > t)"
proof -
  obtain q where "r = reconcile_update j t q"
    using assms(1,2) by (auto simp: reconcile_def Let_def)
  note q = this [unfolded reconcile_update_def]
  show ?thesis
  proof (cases "reconcilable j q")
    case True
    show ?thesis
    proof (cases "reconcile_row t q")
      case None
      with True q show ?thesis by (auto simp: reconcile_row_def Let_def reconcilable_def split: if_splits)
    next
      case (Some r')
      with reconcile_row_SomeD [OF Some True] True q show ?thesis by (auto simp: terminal_def)
    qed
  next
    case False
    with q assms(3) show ?thesis by (auto simp: reconcilable_def)
  qed
qed

lemma reconcile_idle:
  assumes "\<forall>r\<in>set rows. ex_job_name r = j \<longrightarrow> ex_status r \<noteq> Running \<and> (ex_status r = Scheduled \<longrightarrow> ex_scheduled_at r > t)"
  shows "reconcile j (utc t) rows = (Inr [], rows)"
proof -
  have none: "reconcile_row t r = None" if "r \<in> set rows" "reconcilable j r" for r
    using assms that by (auto simp: reconcile_row_def reconcilable_def)
  then have "somes (map (reconcile_row t) (sort_key ex_scheduled_at (filter (reconcilable j) rows))) = []"
    by (auto simp: image_iff none simp flip: set_empty)
  moreover have "map (reconcile_update j t) rows = rows"
    by (rule map_idI) (auto simp: none reconcile_update_def)
  ultimately show ?thesis by (simp add: reconcile_def Let_def)
qed

section \<open>Properties\<close>

text \<open>
  C2: whatever sequence of \<open>plan\<close>, \<open>start\<close>, \<open>finish\<close> and \<open>reconcile\<close> calls runs on an empty
  table, with any arguments and whether they raise or not, windows stay unique and every row carries
  exactly the timestamps of its status; and from then on a row keeps its identity, window and source,
  and a row with a terminal status never changes in any field.
\<close>

theorem ledger_lifecycle:
  assumes "ledger_run [] rows" "ledger_run rows rows'" "r \<in> set rows"
  shows "ledger_inv rows \<and> (\<exists>r'\<in>set rows'. ex_id r' = ex_id r \<and> ex_job_name r' = ex_job_name r \<and>
     ex_source_name r' = ex_source_name r \<and> ex_scheduled_at r' = ex_scheduled_at r \<and>
     (terminal (ex_status r) \<longrightarrow> r' = r))"
proof -
  have "ledger_inv []" by (simp add: ledger_inv_def execution_unique_def)
  then have "ledger_inv rows" using assms(1) by (rule ledger_run_inv [rotated])
  then show ?thesis using ledger_run_row [OF assms(2) _ assms(3)] by blast
qed

theorem ledger_lifecycle_witness:
  "\<exists>rows r. rows = snd (plan ''j'' ''arxiv'' (utc 5) None []) \<and> r \<in> set rows \<and> ledger_inv rows \<and>
     (\<exists>r'\<in>set (snd (reconcile ''j'' (utc 9) rows)). ex_id r' = ex_id r \<and> ex_job_name r' = ex_job_name r \<and>
     ex_source_name r' = ex_source_name r \<and> ex_scheduled_at r' = ex_scheduled_at r \<and>
     (terminal (ex_status r) \<longrightarrow> r' = r))"
proof -
  let ?rows = "snd (plan ''j'' ''arxiv'' (utc 5) None [])"
  have mem: "hd ?rows \<in> set ?rows"
    by (simp add: plan_def plan_insert_def execution_unique_def)
  show ?thesis
    using ledger_lifecycle [OF run_step [OF run_refl step_plan] run_step [OF run_refl step_reconcile] mem] mem
    by blast
qed

text \<open>
  A window can be claimed at most once: \<open>start\<close> answers true only on a planned row, which it
  turns running with the given start time, it changes nothing when it answers false, and a second
  \<open>start\<close> of the same window answers false.
\<close>

theorem start_claims_at_most_once:
  assumes "start job (utc w) (utc t) rows = (Inr claimed, rows')"
  shows "(claimed \<longrightarrow> (\<exists>r\<in>set rows. is_window job w r \<and> ex_status r = Scheduled) \<and>
       (\<exists>r\<in>set rows'. is_window job w r \<and> ex_status r = Running \<and> ex_started_at r = Some t)) \<and>
     (\<not> claimed \<longrightarrow> rows' = rows) \<and> fst (start job (utc w) (utc u) rows') = Inr False"
proof (cases claimed)
  case True
  with assms have "start job (utc w) (utc t) rows = (Inr True, rows')" by simp
  from start_claims [OF this] start_twice [OF this] True show ?thesis by blast
next
  case False
  with assms have "start job (utc w) (utc t) rows = (Inr False, rows')" by simp
  from start_not_claimed [OF this] start_twice [OF this] False show ?thesis by blast
qed

theorem start_claims_at_most_once_witness:
  "let rows = snd (plan ''j'' ''arxiv'' (utc 5) None []); rows' = snd (start ''j'' (utc 5) (utc 6) rows) in
     (True \<longrightarrow> (\<exists>r\<in>set rows. is_window ''j'' 5 r \<and> ex_status r = Scheduled) \<and>
       (\<exists>r\<in>set rows'. is_window ''j'' 5 r \<and> ex_status r = Running \<and> ex_started_at r = Some 6)) \<and>
     (\<not> True \<longrightarrow> rows' = rows) \<and> fst (start ''j'' (utc 5) (utc 7) rows') = Inr False"
  unfolding Let_def by (rule start_claims_at_most_once) code_simp

text \<open>
  after \<open>reconcile\<close> at an instant no row of the job is running and every planned row lies in the
  future; running it again at that instant reports and changes nothing.
\<close>

theorem reconcile_closes_and_settles:
  assumes "reconcile job (utc t) rows = (res, rows')"
  shows "(\<forall>r\<in>set rows'. ex_job_name r = job \<longrightarrow> ex_status r \<noteq> Running \<and>
       (ex_status r = Scheduled \<longrightarrow> ex_scheduled_at r > t)) \<and>
     reconcile job (utc t) rows' = (Inr [], rows')"
  using reconcile_closes [OF assms] reconcile_idle by blast

theorem reconcile_closes_and_settles_witness:
  "let rows = snd (plan ''j'' ''arxiv'' (utc 5) None []); rows' = snd (reconcile ''j'' (utc 9) rows) in
     (\<forall>r\<in>set rows'. ex_job_name r = ''j'' \<longrightarrow> ex_status r \<noteq> Running \<and>
       (ex_status r = Scheduled \<longrightarrow> ex_scheduled_at r > 9)) \<and>
     reconcile ''j'' (utc 9) rows' = (Inr [], rows')"
  unfolding Let_def by (rule reconcile_closes_and_settles [OF prod.collapse [symmetric]])

end
