(* ===== verification/Window_Ledger.thy ===== *)
theory Window_Ledger
  imports Scheduler_Ledger
begin

text \<open>
  The interface through which the worker uses the ledger: the status of a window and, for every
  operation, what it does to that status.  The client's facts are proved once from these laws; the
  ledger of \<open>Scheduler_Ledger\<close> is shown to satisfy them.
\<close>

datatype window_op =
    OpPlan string string int "jdict option"
  | OpStart string int int
  | OpFinish string int int execution_status "string option"
  | OpReconcile string int

fun op_job :: "window_op \<Rightarrow> string" where
  "op_job (OpPlan j s w m) = j"
| "op_job (OpStart j w t) = j"
| "op_job (OpFinish j w t st e) = j"
| "op_job (OpReconcile j t) = j"

locale window_ledger =
  fixes inv :: "'l \<Rightarrow> bool"
    and status :: "'l \<Rightarrow> string \<Rightarrow> int \<Rightarrow> execution_status option"
    and apply_op :: "window_op \<Rightarrow> 'l \<Rightarrow> 'l"
  assumes inv_op: "inv l \<Longrightarrow> inv (apply_op x l)"
    and other_job: "inv l \<Longrightarrow> op_job x \<noteq> j \<Longrightarrow> status (apply_op x l) j w = status l j w"
    and claims: "inv l \<Longrightarrow> status l j w = Some Scheduled \<Longrightarrow> status (apply_op (OpStart j w t) l) j w = Some Running"
    and finishes: "inv l \<Longrightarrow> status l j w = Some Running \<Longrightarrow> st \<in> {Succeeded, Partial, Failed} \<Longrightarrow>
           status (apply_op (OpFinish j w t st e) l) j w = Some st"
    and moves: "inv l \<Longrightarrow> status l j w = Some s \<Longrightarrow>
           \<exists>s'. status (apply_op x l) j w = Some s' \<and> transition s s'"
begin

fun run_ops :: "window_op list \<Rightarrow> 'l \<Rightarrow> 'l" where
  "run_ops [] l = l"
| "run_ops (x # xs) l = run_ops xs (apply_op x l)"

lemma run_ops_inv: "inv l \<Longrightarrow> inv (run_ops xs l)"
  by (induction xs arbitrary: l) (auto intro: inv_op)

text \<open>A window that one job is executing stays running whatever the other jobs do.\<close>

lemma running_survives:
  "inv l \<Longrightarrow> status l j w = Some Running \<Longrightarrow> \<forall>x\<in>set xs. op_job x \<noteq> j \<Longrightarrow>
     status (run_ops xs l) j w = Some Running"
  by (induction xs arbitrary: l) (auto simp: other_job inv_op)

lemma claim_then_finish:
  assumes "inv l" "status l j w = Some Scheduled" "\<forall>x\<in>set xs. op_job x \<noteq> j"
    "st \<in> {Succeeded, Partial, Failed}"
  shows "status (apply_op (OpFinish j w u st e) (run_ops xs (apply_op (OpStart j w t) l))) j w = Some st"
  using assms by (intro finishes running_survives run_ops_inv inv_op claims) simp_all

text \<open>A terminal status is final.\<close>

lemma terminal_forever:
  "inv l \<Longrightarrow> status l j w = Some s \<Longrightarrow> terminal s \<Longrightarrow> status (run_ops xs l) j w = Some s"
proof (induction xs arbitrary: l)
  case (Cons x xs)
  from moves [OF Cons.prems(1,2), of x] obtain s' where s': "status (apply_op x l) j w = Some s'" "transition s s'"
    by blast
  have "s' = s" using s'(2) Cons.prems(3) by (cases s) (auto simp: terminal_def)
  with s'(1) Cons show ?case by (auto intro: inv_op)
qed simp

end

definition status_of :: "ledger \<Rightarrow> string \<Rightarrow> int \<Rightarrow> execution_status option" where
  "status_of rows j w = map_option ex_status (find (is_window j w) rows)"

fun apply_window_op :: "window_op \<Rightarrow> ledger \<Rightarrow> ledger" where
  "apply_window_op (OpPlan j s w m) rows = snd (plan j s (utc w) m rows)"
| "apply_window_op (OpStart j w t) rows = snd (start j (utc w) (utc t) rows)"
| "apply_window_op (OpFinish j w t st e) rows = snd (finish j (utc w) (utc t) st e rows)"
| "apply_window_op (OpReconcile j t) rows = snd (reconcile j (utc t) rows)"

lemma find_map: "find P (map f xs) = map_option f (find (P \<circ> f) xs)"
  by (induction xs) auto

lemma status_of_map:
  assumes "\<And>r. is_window j w (f r) = is_window j w r"
  shows "status_of (map f rows) j w = map_option (ex_status \<circ> f) (find (is_window j w) rows)"
  using assms by (simp add: status_of_def find_map comp_def option.map_comp)

lemma find_is_windowD: "find (is_window j w) rows = Some r \<Longrightarrow> r \<in> set rows \<and> is_window j w r"
  by (auto simp: find_Some_iff)

lemma is_window_update [simp]:
  "is_window j w (r\<lparr>ex_status := s\<rparr>) = is_window j w r"
  "is_window j w (r\<lparr>ex_started_at := x\<rparr>) = is_window j w r"
  "is_window j w (r\<lparr>ex_finished_at := x\<rparr>) = is_window j w r"
  "is_window j w (r\<lparr>ex_error_type := e\<rparr>) = is_window j w r"
  "is_window j w (r\<lparr>ex_metadata := m\<rparr>) = is_window j w r"
  by (simp_all add: is_window_def)

lemma row_step_window: "row_step r r' \<Longrightarrow> is_window j w r' = is_window j w r"
  by (simp add: row_step_def is_window_def)

lemma ledger_le_status:
  assumes "ledger_le a b" "status_of a j w = Some s"
  shows "\<exists>s'. status_of b j w = Some s' \<and> transition s s'"
proof -
  obtain old new where b: "b = old @ new" and old: "list_all2 row_step a old"
    using assms(1) by (auto simp: ledger_le_def)
  from old assms(2) have "\<exists>s'. status_of old j w = Some s' \<and> transition s s'"
  proof (induction rule: list_all2_induct)
    case (Cons x xs y ys)
    then show ?case using row_step_window [of x y j w] by (auto simp: status_of_def row_step_def split: if_splits)
  qed (simp add: status_of_def)
  then show ?thesis by (auto simp: b status_of_def find_append)
qed

lemma status_of_plan_other: "j \<noteq> j' \<Longrightarrow> status_of (snd (plan j s w m rows)) j' w' = status_of rows j' w'"
proof -
  assume j: "j \<noteq> j'"
  show ?thesis using plan_cases [of j s w m rows]
  proof (elim disjE exE conjE)
    fix window
    assume "snd (plan j s w m rows) = plan_insert j s window m rows"
    with j show ?thesis
      by (simp add: status_of_def plan_insert_def find_append is_window_def split: option.splits)
  next
    fix window x d
    assume "snd (plan j s w m rows) = map (\<lambda>r. if ex_id r = ex_id x then r\<lparr>ex_metadata := d\<rparr> else r) rows"
    then have "status_of (snd (plan j s w m rows)) j' w' =
        map_option (ex_status \<circ> (\<lambda>r. if ex_id r = ex_id x then r\<lparr>ex_metadata := d\<rparr> else r)) (find (is_window j' w') rows)"
      by (simp add: status_of_map)
    then show ?thesis by (simp add: status_of_def comp_def cong: if_cong) (cases "find (is_window j' w') rows"; simp)
  qed simp
qed

lemma status_of_map_other:
  assumes "\<And>r. is_window j w (f r) = is_window j w r" "\<And>r. ex_job_name r = j \<Longrightarrow> ex_status (f r) = ex_status r"
  shows "status_of (map f rows) j w = status_of rows j w"
proof (cases "find (is_window j w) rows")
  case (Some r)
  then have "ex_job_name r = j" using find_is_windowD by (fastforce simp: is_window_def)
  then show ?thesis using Some assms by (simp add: status_of_map) (simp add: status_of_def)
qed (simp add: assms(1) status_of_map, simp add: status_of_def)

lemma reconcile_update_window [simp]: "is_window j w (reconcile_update j' t r) = is_window j w r"
  using reconcile_update_step row_step_window by blast

lemma reconcile_update_other: "ex_job_name r \<noteq> j \<Longrightarrow> reconcile_update j t r = r"
  by (simp add: reconcile_update_def reconcilable_def)

lemma apply_window_op_other:
  "op_job x \<noteq> j \<Longrightarrow> status_of (apply_window_op x rows) j w = status_of rows j w"
proof (cases x)
  case (OpPlan j' s w' m)
  then show "op_job x \<noteq> j \<Longrightarrow> ?thesis" by (simp add: status_of_plan_other)
next
  case (OpStart j' w' t)
  then show "op_job x \<noteq> j \<Longrightarrow> ?thesis"
    by (auto simp: start_eq is_window_def [of j'] intro!: status_of_map_other split: if_split_asm)
next
  case (OpFinish j' w' t st e)
  then show "op_job x \<noteq> j \<Longrightarrow> ?thesis"
    by (auto simp: finish_def is_window_def [of j'] intro!: status_of_map_other split: if_split_asm)
next
  case (OpReconcile j' t)
  then show "op_job x \<noteq> j \<Longrightarrow> ?thesis"
    by (auto simp: reconcile_def Let_def reconcile_update_other intro!: status_of_map_other)
qed

lemma status_of_start:
  "status_of (snd (start j (utc w) (utc t) rows)) j w =
     (case status_of rows j w of None \<Rightarrow> None | Some s \<Rightarrow> Some (if s = Scheduled then Running else s))"
proof -
  have "status_of (snd (start j (utc w) (utc t) rows)) j w =
      map_option (ex_status \<circ> (\<lambda>r. if is_window j w r \<and> ex_status r = Scheduled then claimed_row t r else r))
        (find (is_window j w) rows)"
    unfolding start_eq snd_conv by (rule status_of_map) simp
  then show ?thesis
    by (cases "find (is_window j w) rows") (auto simp: status_of_def dest: find_is_windowD)
qed

interpretation wl: window_ledger ledger_inv status_of apply_window_op
proof unfold_locales
  fix l x j w t st e s
  assume inv: "ledger_inv l"
  show "ledger_inv (apply_window_op x l)"
    using inv by (cases x) (simp_all add: ledger_op_inv)
  show "op_job x \<noteq> j \<Longrightarrow> status_of (apply_window_op x l) j w = status_of l j w"
    by (rule apply_window_op_other)
  show "status_of l j w = Some Scheduled \<Longrightarrow> status_of (apply_window_op (OpStart j w t) l) j w = Some Running"
    by (simp add: status_of_start)
  show "status_of l j w = Some s \<Longrightarrow> \<exists>s'. status_of (apply_window_op x l) j w = Some s' \<and> transition s s'"
    using inv by (elim ledger_le_status [rotated], cases x) (simp_all add: ledger_op_le)
next
  fix l j w t st e
  assume "ledger_inv l" "status_of l j w = Some Running" and st: "st \<in> {Succeeded, Partial, Failed}"
  then obtain r where r: "find (is_window j w) l = Some r" "ex_status r = Running"
    by (auto simp: status_of_def)
  then have "\<exists>r\<in>set l. is_window j w r \<and> ex_status r = Running" using find_is_windowD by blast
  with r st show "status_of (apply_window_op (OpFinish j w t st e) l) j w = Some st"
    using find_is_windowD [OF r(1)] by (auto simp: finish_def status_of_map)
qed

lemma status_of_None: "status_of rows j w = None \<longleftrightarrow> \<not> (\<exists>r\<in>set rows. is_window j w r)"
  by (auto simp: status_of_def find_None_iff)

lemma known_window_kept:
  assumes "ledger_inv rows" "status_of rows j w \<noteq> None"
  shows "status_of (apply_window_op x rows) j w \<noteq> None"
  using wl.moves [OF assms(1), of j w] assms(2) by fastforce

lemma status_of_mem:
  assumes "ledger_inv rows" "r \<in> set rows"
  shows "status_of rows (ex_job_name r) (ex_scheduled_at r) = Some (ex_status r)"
proof -
  obtain q where q: "find (is_window (ex_job_name r) (ex_scheduled_at r)) rows = Some q"
    using assms(2) by (cases "find (is_window (ex_job_name r) (ex_scheduled_at r)) rows")
      (auto simp: find_None_iff is_window_def)
  have "q = r" using row_in_ledger [OF assms(1)] find_is_windowD [OF q] assms(2) by (simp add: is_window_def)
  with q show ?thesis by (simp add: status_of_def)
qed


section \<open>Properties\<close>

text \<open>
  C3: a claimed window can be finished whatever the other jobs do to the ledger in between: after
  \<open>start\<close> of a planned window, any operations of other jobs, and \<open>finish\<close> with a final status, the
  window has that status, and no later operation of any job changes it.
\<close>

theorem claim_then_finish_is_final:
  assumes "ledger_inv rows" "status_of rows j w = Some Scheduled" "\<forall>x\<in>set others. op_job x \<noteq> j"
    "st \<in> {Succeeded, Partial, Failed}"
  shows "status_of (wl.run_ops later (apply_window_op (OpFinish j w u st e)
           (wl.run_ops others (apply_window_op (OpStart j w t) rows)))) j w = Some st"
proof (rule wl.terminal_forever)
  show "ledger_inv (apply_window_op (OpFinish j w u st e) (wl.run_ops others (apply_window_op (OpStart j w t) rows)))"
    by (intro wl.inv_op wl.run_ops_inv assms(1))
  show "terminal st" using assms(4) by (auto simp: terminal_def)
qed (rule wl.claim_then_finish [OF assms])

theorem claim_then_finish_is_final_witness:
  "status_of (wl.run_ops [OpReconcile ''a'' 9, OpPlan ''b'' ''github'' 3 None]
     (apply_window_op (OpFinish ''a'' 5 8 Partial (Some ''collector_partial''))
       (wl.run_ops [OpReconcile ''b'' 7]
         (apply_window_op (OpStart ''a'' 5 6) (snd (plan ''a'' ''arxiv'' (utc 5) None [])))))) ''a'' 5
   = Some Partial"
  by (rule claim_then_finish_is_final) code_simp+

end
