(* ===== verification/Worker.thy ===== *)
theory Worker
  imports Cron Window_Ledger
begin

text \<open>
  The scheduler host of \<open>apps/worker/.../main.py\<close>: \<open>scheduler_status_for_collector\<close>,
  \<open>wait_until_due\<close>, the segments of \<open>scheduled_job\<close> between two awaits, and \<open>scheduler_host\<close> as a
  step relation over three jobs that share the ledger, one execution lock per source and the stop
  event.  The event loop runs one coroutine at a time, so a segment is one atomic step; which
  coroutine runs next, what the clock shows and how a job ends are not determined.  The invariants
  show that jobs of one source never overlap, that a job executes only a window whose row is
  running, and that recording the outcome of a job cannot fail.  Logging calls are left out.
\<close>


section \<open>Terminal states of a collector\<close>

definition scheduler_status_for_collector :: "string \<Rightarrow> execution_status result" where
  "scheduler_status_for_collector status =
     (case execution_status_of status of
        None \<Rightarrow> Inl (ValueError (''collector returned unsupported terminal status: '' @ status))
      | Some resolved \<Rightarrow>
          if resolved \<notin> {Succeeded, Partial, Failed}
          then Inl (ValueError (''collector returned non-terminal status: '' @ status))
          else Inr resolved)"


section \<open>Waiting for a window\<close>

text \<open>
  One pass of the loop of \<open>wait_until_due\<close> observes whether the stop event is set, the wall clock,
  and whether the stop event was set while it waited (otherwise the wait timed out).  The list of
  observations is what the environment shows; None is a loop still running at its end.
\<close>

record poll =
  poll_stopped :: bool
  poll_now :: int
  poll_woken :: bool

definition poll_timeout :: "int \<Rightarrow> int \<Rightarrow> int \<Rightarrow> int" where
  "poll_timeout poll_seconds scheduled_at now = min poll_seconds (scheduled_at - now)"

fun wait_until_due :: "int \<Rightarrow> poll list \<Rightarrow> bool option" where
  "wait_until_due scheduled_at [] = None"
| "wait_until_due scheduled_at (p # ps) =
     (if poll_stopped p then Some False
      else if scheduled_at - poll_now p \<le> 0 then Some True
      else if poll_woken p then Some False
      else wait_until_due scheduled_at ps)"

lemma wait_until_due_True:
  "wait_until_due w ps = Some True \<Longrightarrow> \<exists>p\<in>set ps. w \<le> poll_now p \<and> \<not> poll_stopped p"
  by (induction ps) (auto split: if_splits)

lemma wait_until_due_reaches:
  "\<forall>p\<in>set ps. \<not> poll_stopped p \<and> \<not> poll_woken p \<Longrightarrow> wait_until_due w ps = Some True \<longleftrightarrow> (\<exists>p\<in>set ps. w \<le> poll_now p)"
  by (induction ps) auto

text \<open>
  A clock that after every time-out shows at least the waited time more is due after finitely many
  passes.
\<close>

fun polls_advance :: "int \<Rightarrow> int \<Rightarrow> int \<Rightarrow> poll list \<Rightarrow> bool" where
  "polls_advance poll_us w t [] = True"
| "polls_advance poll_us w t (p # ps) =
     (t \<le> poll_now p \<and> polls_advance poll_us w (poll_now p + poll_timeout poll_us w (poll_now p)) ps)"

lemma polls_advance_due:
  "polls_advance q w t ps \<Longrightarrow> 0 < q \<Longrightarrow> ps \<noteq> [] \<Longrightarrow> w - t \<le> (int (length ps) - 1) * q \<Longrightarrow>
     \<exists>p\<in>set ps. w \<le> poll_now p"
proof (induction ps arbitrary: t)
  case (Cons p ps)
  show ?case
  proof (cases "w \<le> poll_now p \<or> ps = []")
    case True
    with Cons.prems show ?thesis by auto
  next
    case False
    let ?t = "poll_now p + poll_timeout q w (poll_now p)"
    have "polls_advance q w ?t ps" using Cons.prems by simp
    moreover have "w - ?t \<le> (int (length ps) - 1) * q"
    proof (cases "q \<le> w - poll_now p")
      case True
      then show ?thesis using Cons.prems by (simp add: poll_timeout_def algebra_simps)
    next
      case outside: False
      have "0 \<le> (int (length ps) - 1) * q"
        using False Cons.prems(2) by (cases ps) simp_all
      with outside show ?thesis by (simp add: poll_timeout_def)
    qed
    ultimately show ?thesis using Cons.IH [of ?t] Cons.prems(2) False by auto
  qed
qed simp


section \<open>The segments of a scheduled job\<close>

record job_config =
  cfg_name :: string
  cfg_source :: string
  cfg_schedule :: string
  cfg_setting_name :: string
  cfg_plan_metadata :: "jdict option"

fun plan_missing :: "job_config \<Rightarrow> int list \<Rightarrow> int list \<Rightarrow> ledger \<Rightarrow> unit result \<times> ledger" where
  "plan_missing c known [] rows = (Inr (), rows)"
| "plan_missing c known (w # ws) rows =
     (if w \<in> set known then plan_missing c known ws rows
      else (case plan (cfg_name c) (cfg_source c) (utc w) None rows of
              (Inl e, rows') \<Rightarrow> (Inl e, rows')
            | (Inr _, rows') \<Rightarrow> plan_missing c known ws rows'))"

text \<open>Start-up: materialise every elapsed window, then reconcile.\<close>

definition job_boot :: "job_config \<Rightarrow> pydatetime \<Rightarrow> ledger \<Rightarrow> unit result \<times> ledger" where
  "job_boot c observed_at rows =
     (let windows = materialized_windows (cfg_name c) rows;
          materialised =
            (case windows of
               [] \<Rightarrow> (Inr (), rows)
             | first # _ \<Rightarrow>
                 (case elapsed_cron_runs (cfg_schedule c) (utc first) observed_at (cfg_setting_name c) of
                    Inl e \<Rightarrow> (Inl e, rows)
                  | Inr elapsed \<Rightarrow> plan_missing c windows elapsed rows))
      in case materialised of
           (Inl e, rows') \<Rightarrow> (Inl e, rows')
         | (Inr _, rows') \<Rightarrow>
             (case reconcile (cfg_name c) observed_at rows' of
                (Inl e, rows'') \<Rightarrow> (Inl e, rows'')
              | (Inr _, rows'') \<Rightarrow> (Inr (), rows'')))"

text \<open>Top of the loop: resolve the next window and plan it.\<close>

definition job_plan :: "job_config \<Rightarrow> pydatetime \<Rightarrow> ledger \<Rightarrow> int result \<times> ledger" where
  "job_plan c now rows =
     (case next_cron_run (cfg_schedule c) now (cfg_setting_name c) of
        Inl e \<Rightarrow> (Inl e, rows)
      | Inr scheduled_at \<Rightarrow>
          (case plan (cfg_name c) (cfg_source c) (utc scheduled_at) (cfg_plan_metadata c) rows of
             (Inl e, rows') \<Rightarrow> (Inl e, rows')
           | (Inr _, rows') \<Rightarrow> (Inr scheduled_at, rows')))"

text \<open>How the awaited job ends.\<close>

datatype job_outcome =
    JobReturned execution_status
  | JobRaised string \<comment> \<open>the name of the exception's type\<close>

definition job_finish :: "job_config \<Rightarrow> int \<Rightarrow> pydatetime \<Rightarrow> job_outcome \<Rightarrow> ledger \<Rightarrow> unit result \<times> ledger" where
  "job_finish c scheduled_at now outcome rows =
     (case outcome of
        JobRaised name \<Rightarrow> finish (cfg_name c) (utc scheduled_at) now Failed (Some name) rows
      | JobReturned status \<Rightarrow>
          finish (cfg_name c) (utc scheduled_at) now status
            (if status = Succeeded then None
             else Some (''collector_'' @ execution_status_value status)) rows)"


section \<open>The host\<close>

datatype job_id = ArxivDaily | GithubSnapshot | GithubDiscovery

datatype job_phase =
    Boot
  | LoopTop
  | Waiting int
  | Acquiring int
  | Locked int
  | Executing int
  | Returned
  | Crashed py_error

definition job_config_of :: "string \<Rightarrow> string \<Rightarrow> string \<Rightarrow> job_id \<Rightarrow> job_config" where
  "job_config_of arxiv_schedule github_snapshot_schedule github_discovery_schedule j =
     (case j of
        ArxivDaily \<Rightarrow>
          \<lparr>cfg_name = ''arxiv_daily'', cfg_source = ''arxiv'', cfg_schedule = arxiv_schedule,
           cfg_setting_name = ''ARXIV_SCHEDULE'',
           cfg_plan_metadata = Some [(''punctuality_contract'', JStr ''scheduler-punctuality-v2'')]\<rparr>
      | GithubSnapshot \<Rightarrow>
          \<lparr>cfg_name = ''github_daily_snapshot'', cfg_source = ''github'',
           cfg_schedule = github_snapshot_schedule,
           cfg_setting_name = ''GITHUB_SNAPSHOT_SCHEDULE'', cfg_plan_metadata = None\<rparr>
      | GithubDiscovery \<Rightarrow>
          \<lparr>cfg_name = ''github_weekly_discovery'', cfg_source = ''github'',
           cfg_schedule = github_discovery_schedule,
           cfg_setting_name = ''GITHUB_DISCOVERY_SCHEDULE'', cfg_plan_metadata = None\<rparr>)"

record host =
  host_ledger :: ledger
  host_phase :: "job_id \<Rightarrow> job_phase"
  host_lock :: "string \<Rightarrow> job_id option" \<comment> \<open>the execution lock of a source\<close>
  host_stop :: bool
  host_now :: int

definition host_init :: "ledger \<Rightarrow> int \<Rightarrow> host" where
  "host_init rows t =
     \<lparr>host_ledger = rows, host_phase = (\<lambda>_. Boot), host_lock = (\<lambda>_. None),
      host_stop = False, host_now = t\<rparr>"

text \<open>A job moves to a phase, with the ledger its segment left behind.\<close>

definition goto :: "job_id \<Rightarrow> job_phase \<Rightarrow> ledger \<Rightarrow> host \<Rightarrow> host" where
  "goto j p rows h = h\<lparr>host_phase := (host_phase h)(j := p), host_ledger := rows\<rparr>"

definition release :: "string \<Rightarrow> host \<Rightarrow> host" where
  "release source h = h\<lparr>host_lock := (host_lock h)(source := None)\<rparr>"

text \<open>The phase after a segment that may raise.\<close>

definition after :: "'a result \<Rightarrow> ('a \<Rightarrow> job_phase) \<Rightarrow> job_phase" where
  "after r f = (case r of Inl e \<Rightarrow> Crashed e | Inr x \<Rightarrow> f x)"

inductive host_step :: "(job_id \<Rightarrow> job_config) \<Rightarrow> host \<Rightarrow> host \<Rightarrow> bool" for cfg where
  clock: "host_step cfg h (h\<lparr>host_now := t\<rparr>)"
| stop: "host_step cfg h (h\<lparr>host_stop := True\<rparr>)"
| boot: "host_phase h j = Boot \<Longrightarrow> job_boot (cfg j) (utc (host_now h)) (host_ledger h) = (r, rows) \<Longrightarrow>
    host_step cfg h (goto j (after r (\<lambda>_. LoopTop)) rows h)"
| loop_exit: "host_phase h j = LoopTop \<Longrightarrow> host_stop h \<Longrightarrow>
    host_step cfg h (goto j Returned (host_ledger h) h)"
| loop_plan: "host_phase h j = LoopTop \<Longrightarrow> \<not> host_stop h \<Longrightarrow>
    job_plan (cfg j) (utc (host_now h)) (host_ledger h) = (r, rows) \<Longrightarrow>
    host_step cfg h (goto j (after r Waiting) rows h)"
| wait_stopped: "host_phase h j = Waiting w \<Longrightarrow> host_stop h \<Longrightarrow>
    host_step cfg h (goto j Returned (host_ledger h) h)"
| wait_due: "host_phase h j = Waiting w \<Longrightarrow> \<not> host_stop h \<Longrightarrow> w \<le> host_now h \<Longrightarrow>
    host_step cfg h (goto j (Acquiring w) (host_ledger h) h)"
| acquire: "host_phase h j = Acquiring w \<Longrightarrow> host_lock h (cfg_source (cfg j)) = None \<Longrightarrow>
    host_step cfg h (goto j (Locked w) (host_ledger h)
      (h\<lparr>host_lock := (host_lock h)(cfg_source (cfg j) := Some j)\<rparr>))"
| locked_stopped: "host_phase h j = Locked w \<Longrightarrow> host_stop h \<Longrightarrow>
    host_step cfg h (release (cfg_source (cfg j)) (goto j Returned (host_ledger h) h))"
| claimed: "host_phase h j = Locked w \<Longrightarrow> \<not> host_stop h \<Longrightarrow>
    start (cfg_name (cfg j)) (utc w) (utc (host_now h)) (host_ledger h) = (Inr True, rows) \<Longrightarrow>
    host_step cfg h (goto j (Executing w) rows h)"
| not_claimed: "host_phase h j = Locked w \<Longrightarrow> \<not> host_stop h \<Longrightarrow>
    start (cfg_name (cfg j)) (utc w) (utc (host_now h)) (host_ledger h) = (r, rows) \<Longrightarrow> r \<noteq> Inr True \<Longrightarrow>
    host_step cfg h (release (cfg_source (cfg j)) (goto j (after r (\<lambda>_. LoopTop)) rows h))"
| ended: "host_phase h j = Executing w \<Longrightarrow>
    (case outcome of JobReturned s \<Rightarrow> s \<in> {Succeeded, Partial, Failed} | JobRaised _ \<Rightarrow> True) \<Longrightarrow>
    job_finish (cfg j) w (utc (host_now h)) outcome (host_ledger h) = (r, rows) \<Longrightarrow>
    host_step cfg h (release (cfg_source (cfg j)) (goto j (after r (\<lambda>_. LoopTop)) rows h))"

inductive host_reachable :: "(job_id \<Rightarrow> job_config) \<Rightarrow> ledger \<Rightarrow> host \<Rightarrow> bool" for cfg rows where
  reach_init: "host_reachable cfg rows (host_init rows t)"
| reach_step: "host_reachable cfg rows h \<Longrightarrow> host_step cfg h h' \<Longrightarrow> host_reachable cfg rows h'"


section \<open>Invariants of the host\<close>

definition inside :: "job_phase \<Rightarrow> bool" where
  "inside p = (case p of Locked _ \<Rightarrow> True | Executing _ \<Rightarrow> True | _ \<Rightarrow> False)"

lemma inside_simps [simp]:
  "\<not> inside Boot" "\<not> inside LoopTop" "\<not> inside (Waiting w)" "\<not> inside (Acquiring w)"
  "inside (Locked w)" "inside (Executing w)" "\<not> inside Returned" "\<not> inside (Crashed e)"
  by (simp_all add: inside_def)

lemma after_simps [simp]: "after (Inl e) f = Crashed e" "after (Inr x) f = f x"
  by (simp_all add: after_def)

lemma inside_after [simp]: "\<not> inside (after r (\<lambda>_. LoopTop))"
  by (cases r) simp_all

lemma inside_after_waiting [simp]: "\<not> inside (after r Waiting)"
  by (cases r) simp_all

lemma after_not_executing [simp]: "after r (\<lambda>_. LoopTop) \<noteq> Executing w"
  by (cases r) simp_all

lemma after_waiting_not_executing [simp]: "after r Waiting \<noteq> Executing w"
  by (cases r) simp_all

text \<open>A job is inside the locked region exactly when it holds its source's lock.\<close>

definition lock_inv :: "(job_id \<Rightarrow> job_config) \<Rightarrow> host \<Rightarrow> bool" where
  "lock_inv cfg h = (\<forall>j. inside (host_phase h j) \<longleftrightarrow> host_lock h (cfg_source (cfg j)) = Some j)"

text \<open>An executing job's window is running in the ledger.\<close>

definition exec_inv :: "(job_id \<Rightarrow> job_config) \<Rightarrow> host \<Rightarrow> bool" where
  "exec_inv cfg h = (\<forall>j w. host_phase h j = Executing w \<longrightarrow>
     status_of (host_ledger h) (cfg_name (cfg j)) w = Some Running)"

lemma goto_simps [simp]:
  "host_phase (goto j p rows h) = (host_phase h)(j := p)"
  "host_ledger (goto j p rows h) = rows"
  "host_lock (goto j p rows h) = host_lock h"
  "host_now (goto j p rows h) = host_now h"
  "host_stop (goto j p rows h) = host_stop h"
  by (simp_all add: goto_def)

lemma release_simps [simp]:
  "host_phase (release s h) = host_phase h"
  "host_ledger (release s h) = host_ledger h"
  "host_lock (release s h) = (host_lock h)(s := None)"
  "host_now (release s h) = host_now h"
  by (simp_all add: release_def)

lemma lock_inv_goto:
  "lock_inv cfg h \<Longrightarrow> inside p = inside (host_phase h j) \<Longrightarrow> lock_inv cfg (goto j p rows h)"
  by (simp add: lock_inv_def)

lemma lock_inv_release:
  "lock_inv cfg h \<Longrightarrow> inside (host_phase h j) \<Longrightarrow> \<not> inside p \<Longrightarrow>
     lock_inv cfg (release (cfg_source (cfg j)) (goto j p rows h))"
  by (force simp: lock_inv_def)

lemma lock_inv_acquire:
  "lock_inv cfg h \<Longrightarrow> host_lock h (cfg_source (cfg j)) = None \<Longrightarrow> inside p \<Longrightarrow>
     lock_inv cfg (goto j p rows (h\<lparr>host_lock := (host_lock h)(cfg_source (cfg j) := Some j)\<rparr>))"
  by (force simp: lock_inv_def)

lemma lock_inv_step: "host_step cfg h h' \<Longrightarrow> lock_inv cfg h \<Longrightarrow> lock_inv cfg h'"
  by (induction rule: host_step.induct)
     (simp_all add: lock_inv_goto lock_inv_release lock_inv_acquire, simp_all add: lock_inv_def)

lemma plan_missing_op:
  "plan_missing c known ws rows = (r, rows') \<Longrightarrow>
     \<exists>xs. rows' = wl.run_ops xs rows \<and> (\<forall>x\<in>set xs. op_job x = cfg_name c)"
proof (induction c known ws rows rule: plan_missing.induct)
  case (1 c known rows)
  then show ?case by (intro exI [of _ "[]"]) simp
next
  case (2 c known w ws rows)
  show ?case
  proof (cases "w \<in> set known")
    case False
    obtain r1 rows1 where p: "plan (cfg_name c) (cfg_source c) (utc w) None rows = (r1, rows1)"
      by (cases "plan (cfg_name c) (cfg_source c) (utc w) None rows")
    let ?x = "OpPlan (cfg_name c) (cfg_source c) w None"
    have rows1: "rows1 = apply_window_op ?x rows" using p by simp
    show ?thesis
    proof (cases r1)
      case (Inl e)
      then have "rows' = rows1" using "2.prems" False p by simp
      then show ?thesis unfolding rows1 by (intro exI [of _ "[?x]"]) simp
    next
      case (Inr b)
      then have "plan_missing c known ws rows1 = (r, rows')" using "2.prems" False p by simp
      then have "\<exists>xs. rows' = wl.run_ops xs rows1 \<and> (\<forall>x\<in>set xs. op_job x = cfg_name c)"
        by (rule "2.IH"(2) [OF False p [symmetric] Inr])
      then obtain xs where "rows' = wl.run_ops xs rows1" "\<forall>x\<in>set xs. op_job x = cfg_name c"
        by blast
      then show ?thesis unfolding rows1 by (intro exI [of _ "?x # xs"]) simp
    qed
  next
    case True
    then have "plan_missing c known ws rows = (r, rows')" using "2.prems" by simp
    then show ?thesis by (rule "2.IH"(1) [OF True])
  qed
qed

text \<open>Each segment of a job is a sequence of ledger operations of that job.\<close>

lemma run_ops_snoc: "wl.run_ops (xs @ ys) l = wl.run_ops ys (wl.run_ops xs l)"
  by (induction xs arbitrary: l) simp_all

lemma job_boot_ops:
  assumes "job_boot c (utc t) rows = (r, rows')"
  shows "\<exists>xs. rows' = wl.run_ops xs rows \<and> (\<forall>x\<in>set xs. op_job x = cfg_name c)"
proof -
  let ?m = "case materialized_windows (cfg_name c) rows of [] \<Rightarrow> (Inr (), rows)
     | first # _ \<Rightarrow> (case elapsed_cron_runs (cfg_schedule c) (utc first) (utc t) (cfg_setting_name c) of
          Inl e \<Rightarrow> (Inl e, rows)
        | Inr elapsed \<Rightarrow> plan_missing c (materialized_windows (cfg_name c) rows) elapsed rows)"
  obtain r1 rows1 where m: "?m = (r1, rows1)" by (cases ?m)
  have 1: "\<exists>xs. rows1 = wl.run_ops xs rows \<and> (\<forall>x\<in>set xs. op_job x = cfg_name c)"
    using m by (auto split: list.splits sum.splits dest: plan_missing_op intro: exI [of _ "[]"])
  then obtain xs where xs: "rows1 = wl.run_ops xs rows" "\<forall>x\<in>set xs. op_job x = cfg_name c" by blast
  have "rows' = rows1 \<or> rows' = snd (reconcile (cfg_name c) (utc t) rows1)"
    using assms m by (auto simp: job_boot_def Let_def split: sum.splits prod.splits)
  then show ?thesis
  proof
    assume "rows' = snd (reconcile (cfg_name c) (utc t) rows1)"
    with xs show ?thesis
      by (intro exI [of _ "xs @ [OpReconcile (cfg_name c) t]"]) (auto simp: run_ops_snoc)
  qed (use xs in blast)
qed

lemma job_plan_ops:
  assumes "job_plan c now rows = (r, rows')"
  shows "\<exists>xs. rows' = wl.run_ops xs rows \<and> (\<forall>x\<in>set xs. op_job x = cfg_name c)"
proof (cases "next_cron_run (cfg_schedule c) now (cfg_setting_name c)")
  case (Inl e)
  with assms show ?thesis by (intro exI [of _ "[]"]) (simp add: job_plan_def)
next
  case (Inr w)
  with assms show ?thesis
    by (intro exI [of _ "[OpPlan (cfg_name c) (cfg_source c) w (cfg_plan_metadata c)]"])
       (auto simp: job_plan_def split: sum.splits prod.splits)
qed

lemma job_start_ops:
  "start j (utc w) (utc t) rows = (r, rows') \<Longrightarrow> rows' = wl.run_ops [OpStart j w t] rows"
  by simp

lemma job_finish_ops:
  assumes "job_finish c w (utc t) outcome rows = (r, rows')"
  shows "\<exists>xs. rows' = wl.run_ops xs rows \<and> (\<forall>x\<in>set xs. op_job x = cfg_name c)"
proof (cases outcome)
  case (JobReturned s)
  with assms show ?thesis
    by (intro exI [of _ "[OpFinish (cfg_name c) w t s (if s = Succeeded then None
          else Some (''collector_'' @ execution_status_value s))]"]) (simp add: job_finish_def)
next
  case (JobRaised n)
  with assms show ?thesis
    by (intro exI [of _ "[OpFinish (cfg_name c) w t Failed (Some n)]"]) (simp add: job_finish_def)
qed

lemma exec_inv_goto:
  assumes inv: "exec_inv cfg h" "ledger_inv (host_ledger h)" "inj (\<lambda>j. cfg_name (cfg j))"
    and ops: "\<exists>xs. rows = wl.run_ops xs (host_ledger h) \<and> (\<forall>x\<in>set xs. op_job x = cfg_name (cfg j))"
    and p: "\<And>w. p = Executing w \<Longrightarrow> status_of rows (cfg_name (cfg j)) w = Some Running"
    and same: "host_phase h' = (host_phase h)(j := p)" "host_ledger h' = rows"
  shows "exec_inv cfg h' \<and> ledger_inv (host_ledger h')"
proof -
  from ops obtain xs where xs: "rows = wl.run_ops xs (host_ledger h)" "\<forall>x\<in>set xs. op_job x = cfg_name (cfg j)"
    by blast
  have "status_of rows (cfg_name (cfg i)) w = Some Running"
    if "i \<noteq> j" "host_phase h i = Executing w" for i w
  proof -
    have "cfg_name (cfg i) \<noteq> cfg_name (cfg j)" using that(1) inv(3) by (auto dest: injD)
    then have "\<forall>x\<in>set xs. op_job x \<noteq> cfg_name (cfg i)" using xs(2) by auto
    with inv(1,2) that(2) show ?thesis unfolding xs(1) by (intro wl.running_survives) (auto simp: exec_inv_def)
  qed
  with p same have "exec_inv cfg h'" by (auto simp: exec_inv_def)
  then show ?thesis using wl.run_ops_inv [OF inv(2)] xs(1) same by simp
qed

lemma exec_inv_step:
  assumes "host_step cfg h h'" "exec_inv cfg h" "ledger_inv (host_ledger h)" "inj (\<lambda>j. cfg_name (cfg j))"
  shows "exec_inv cfg h' \<and> ledger_inv (host_ledger h')"
  using assms(1)
proof (cases rule: host_step.cases)
  case (boot j r rows)
  show ?thesis
    by (rule exec_inv_goto [OF assms(2-4) job_boot_ops [OF boot(3)]]) (simp_all add: boot(1))
next
  case (loop_plan j r rows)
  show ?thesis
    by (rule exec_inv_goto [OF assms(2-4) job_plan_ops [OF loop_plan(4)]]) (simp_all add: loop_plan(1))
next
  case (claimed j w rows)
  have s: "status_of rows (cfg_name (cfg j)) w = Some Running"
  proof -
    have "\<exists>r\<in>set (host_ledger h). is_window (cfg_name (cfg j)) w r \<and> ex_status r = Scheduled"
      by (rule start_claims(1) [OF claimed(4)])
    then obtain r where r: "r \<in> set (host_ledger h)" "is_window (cfg_name (cfg j)) w r" "ex_status r = Scheduled"
      by blast
    obtain q where q: "find (is_window (cfg_name (cfg j)) w) (host_ledger h) = Some q"
      using r(1,2) by (cases "find (is_window (cfg_name (cfg j)) w) (host_ledger h)") (auto simp: find_None_iff)
    have "q = r" using row_in_ledger [OF assms(3)] find_is_windowD [OF q] r(1,2) by (simp add: is_window_def)
    with q r(3) have "status_of (host_ledger h) (cfg_name (cfg j)) w = Some Scheduled" by (simp add: status_of_def)
    then show ?thesis using status_of_start [of "cfg_name (cfg j)" w "host_now h" "host_ledger h"] claimed(4) by simp
  qed
  show ?thesis
    by (rule exec_inv_goto [OF assms(2-4), where j = j and p = "Executing w" and rows = rows])
       (use s job_start_ops [OF claimed(4)] claimed(1) in \<open>auto intro: exI [of _ "[OpStart (cfg_name (cfg j)) w (host_now h)]"]\<close>)
next
  case (not_claimed j w r rows)
  show ?thesis
    by (rule exec_inv_goto [OF assms(2-4), where j = j and p = "after r (\<lambda>_. LoopTop)" and rows = rows])
       (use job_start_ops [OF not_claimed(4)] not_claimed(1) in \<open>auto intro: exI [of _ "[OpStart (cfg_name (cfg j)) w (host_now h)]"]\<close>)
next
  case (ended j w outcome r rows)
  show ?thesis
    by (rule exec_inv_goto [OF assms(2-4) job_finish_ops [OF ended(4)]]) (simp_all add: ended(1))
qed (use assms(2,3) in \<open>auto simp: exec_inv_def\<close>)

lemma reachable_lock_inv: "host_reachable cfg rows h \<Longrightarrow> lock_inv cfg h"
proof (induction rule: host_reachable.induct)
  case (reach_init t)
  then show ?case by (simp add: lock_inv_def host_init_def)
qed (rule lock_inv_step)

lemma reachable_exec_inv:
  assumes "host_reachable cfg rows h" "ledger_inv rows" "inj (\<lambda>j. cfg_name (cfg j))"
  shows "exec_inv cfg h \<and> ledger_inv (host_ledger h)"
  using assms
proof (induction rule: host_reachable.induct)
  case (reach_init t)
  then show ?case by (simp add: exec_inv_def host_init_def)
qed (use exec_inv_step in blast)

lemma finish_running:
  assumes "status_of rows j w = Some Running" "st \<in> {Succeeded, Partial, Failed}"
  shows "fst (finish j (utc w) (utc t) st e rows) = Inr ()"
proof -
  obtain r where "find (is_window j w) rows = Some r" "ex_status r = Running"
    using assms(1) by (auto simp: status_of_def)
  then have "\<exists>r\<in>set rows. is_window j w r \<and> ex_status r = Running" using find_is_windowD by blast
  with assms(2) show ?thesis by (auto simp: finish_def)
qed

lemma job_config_of_inj: "inj (\<lambda>j. cfg_name (job_config_of a b c j))"
  by (rule injI) (auto simp: job_config_of_def split: job_id.splits)

text \<open>What start-up leaves behind.\<close>

lemma plan_present:
  "plan j s (utc w) None rows = (Inr b, rows') \<Longrightarrow> status_of rows' j w \<noteq> None"
  by (auto simp: plan_def plan_insert_def status_of_def find_append is_window_def [of j w]
      split: option.splits if_splits)

lemma plan_missing_present:
  "plan_missing c known ws rows = (Inr (), rows') \<Longrightarrow> ledger_inv rows \<Longrightarrow>
     ledger_inv rows' \<and> (\<forall>w. w \<in> set ws - set known \<or> status_of rows (cfg_name c) w \<noteq> None \<longrightarrow>
       status_of rows' (cfg_name c) w \<noteq> None)"
proof (induction c known ws rows rule: plan_missing.induct)
  case (2 c known w ws rows)
  show ?case
  proof (cases "w \<in> set known")
    case True
    with "2.IH"(1) [OF True] "2.prems" show ?thesis by auto
  next
    case False
    obtain r1 rows1 where p: "plan (cfg_name c) (cfg_source c) (utc w) None rows = (r1, rows1)"
      by (cases "plan (cfg_name c) (cfg_source c) (utc w) None rows")
    obtain b where b: "r1 = Inr b" using "2.prems"(1) False p by (cases r1) auto
    have rows1: "rows1 = apply_window_op (OpPlan (cfg_name c) (cfg_source c) w None) rows" using p by simp
    have inv: "ledger_inv rows1" unfolding rows1 by (rule wl.inv_op [OF "2.prems"(2)])
    have w: "status_of rows1 (cfg_name c) w \<noteq> None" by (rule plan_present [OF p [unfolded b]])
    have kept: "status_of rows (cfg_name c) v \<noteq> None \<Longrightarrow> status_of rows1 (cfg_name c) v \<noteq> None" for v
      unfolding rows1 by (rule known_window_kept [OF "2.prems"(2)])
    have "plan_missing c known ws rows1 = (Inr (), rows')" using "2.prems"(1) False p b by simp
    from "2.IH"(2) [OF False p [symmetric] b this inv] w kept show ?thesis by auto
  qed
qed simp

lemma materialized_windows_set:
  "w \<in> set (materialized_windows j rows) \<longleftrightarrow> status_of rows j w \<noteq> None"
  unfolding status_of_None by (auto simp: materialized_windows_def is_window_def)

lemma reconcile_inv_closed:
  assumes "ledger_inv rows" "reconcile j (utc t) rows = (res, rows')" "status_of rows j w \<noteq> None" "w \<le> t"
  shows "\<exists>s. status_of rows' j w = Some s \<and> terminal s"
proof -
  have rows': "rows' = apply_window_op (OpReconcile j t) rows" using assms(2) by simp
  have inv: "ledger_inv rows'" unfolding rows' by (rule wl.inv_op [OF assms(1)])
  have "status_of rows' j w \<noteq> None" unfolding rows' by (rule known_window_kept [OF assms(1,3)])
  then obtain r where r: "r \<in> set rows'" "is_window j w r" unfolding status_of_None by auto
  then have "ex_status r \<noteq> Running \<and> ex_status r \<noteq> Scheduled"
    using reconcile_closes [OF assms(2) r(1)] assms(4) by (auto simp: is_window_def)
  then have "terminal (ex_status r)" by (cases "ex_status r") (simp_all add: terminal_def)
  with status_of_mem [OF inv r(1)] r(2) show ?thesis by (simp add: is_window_def)
qed


section \<open>Properties\<close>

text \<open>
  C1: start-up leaves no gap.  When the boot segment of a job succeeds on a table that already knows
  a first window, then every instant of the job's schedule after that window and up to now has a row
  with a terminal status, and so has every window up to now that was already materialised.
\<close>

theorem job_boot_closes_every_elapsed_window:
  assumes "ledger_inv rows" "job_boot c (utc t) rows = (Inr (), rows')"
    "materialized_windows (cfg_name c) rows = first # others"
  shows "\<exists>spec. parse_cron (cfg_schedule c) (cfg_setting_name c) = Inr spec \<and>
     (\<forall>w\<le>t. (cron_matches spec w \<and> first < w) \<or> w \<in> set (first # others) \<longrightarrow>
        (\<exists>s. status_of rows' (cfg_name c) w = Some s \<and> terminal s))"
proof -
  obtain elapsed rows1 res where e: "elapsed_cron_runs (cfg_schedule c) (utc first) (utc t) (cfg_setting_name c) = Inr elapsed"
    and m: "plan_missing c (first # others) elapsed rows = (Inr (), rows1)"
    and r: "reconcile (cfg_name c) (utc t) rows1 = (res, rows')"
    using assms(2) unfolding job_boot_def Let_def assms(3) by (auto split: sum.splits prod.splits)
  obtain spec where spec: "parse_cron (cfg_schedule c) (cfg_setting_name c) = Inr spec"
    and el: "elapsed = elapsed_loop spec first t"
    using e by (auto simp: elapsed_cron_runs_def split: sum.splits)
  have set: "set elapsed = {w. cron_matches spec w \<and> first < w \<and> w \<le> t}"
    unfolding el by (rule set_elapsed_loop [OF parse_cron_valid [OF spec]])
  note p = plan_missing_present [OF m assms(1)]
  have known: "w \<in> set (first # others) \<Longrightarrow> status_of rows1 (cfg_name c) w \<noteq> None" for w
    using p materialized_windows_set [of w "cfg_name c" rows] unfolding assms(3) by blast
  have "status_of rows1 (cfg_name c) w \<noteq> None"
    if "w \<le> t" "(cron_matches spec w \<and> first < w) \<or> w \<in> set (first # others)" for w
    using that known [of w] p set by blast
  then show ?thesis using reconcile_inv_closed [OF _ r] p spec by blast
qed

theorem job_boot_closes_every_elapsed_window_witness:
  "let c = job_config_of ''0 6 * * *'' ''0 7 * * *'' ''0 8 * * 1'' ArxivDaily;
       rows = snd (plan ''arxiv_daily'' ''arxiv'' (utc (6 * hour_us)) None []) in
   \<exists>spec. parse_cron (cfg_schedule c) (cfg_setting_name c) = Inr spec \<and>
     (\<forall>w\<le>3 * day_us. (cron_matches spec w \<and> 6 * hour_us < w) \<or> w \<in> set (6 * hour_us # []) \<longrightarrow>
        (\<exists>s. status_of (snd (job_boot c (utc (3 * day_us)) rows)) (cfg_name c) w = Some s \<and> terminal s))"
  unfolding Let_def
  by (rule job_boot_closes_every_elapsed_window
      [where rows = "snd (plan ''arxiv_daily'' ''arxiv'' (utc (6 * hour_us)) None [])" and others = "[]"])
     code_simp+

text \<open>
  C4: jobs of one source never overlap: in every reachable state of the scheduler host, two jobs whose
  configurations name the same source are not both inside the region their execution lock guards.
\<close>

theorem jobs_of_one_source_exclusive:
  assumes "host_reachable cfg rows h" "inside (host_phase h i)" "inside (host_phase h j)"
    "cfg_source (cfg i) = cfg_source (cfg j)"
  shows "i = j"
proof -
  note inv = reachable_lock_inv [OF assms(1), unfolded lock_inv_def, THEN spec]
  have "Some i = Some j"
    using inv [of i, THEN iffD1, OF assms(2)] inv [of j, THEN iffD1, OF assms(3)] assms(4) by metis
  then show ?thesis by simp
qed

text \<open>
  a job of the host executes a window only while the ledger shows that window running, so
  recording the outcome of the job never fails, in whatever way it ends.
\<close>

theorem executing_window_is_running:
  assumes "host_reachable (job_config_of a g d) rows h" "ledger_inv rows" "host_phase h j = Executing w"
    "case outcome of JobReturned s \<Rightarrow> s \<in> {Succeeded, Partial, Failed} | JobRaised _ \<Rightarrow> True"
  shows "status_of (host_ledger h) (cfg_name (job_config_of a g d j)) w = Some Running \<and>
     fst (job_finish (job_config_of a g d j) w (utc t) outcome (host_ledger h)) = Inr ()"
proof -
  have s: "status_of (host_ledger h) (cfg_name (job_config_of a g d j)) w = Some Running"
    using reachable_exec_inv [OF assms(1,2) job_config_of_inj] assms(3) by (simp add: exec_inv_def)
  with finish_running [OF s] assms(4) show ?thesis
    by (auto simp: job_finish_def split: job_outcome.splits)
qed

text \<open>
  \<open>wait_until_due\<close> answers true only when a poll shows the window due and the stop event unset;
  and it does answer true: when nobody sets the stop event and the clock shows after each time-out at
  least the time waited, \<open>n\<close> time-outs cover a remaining time of \<open>n\<close> poll intervals.
\<close>

theorem wait_until_due_ends_when_due:
  assumes "polls_advance q w t ps" "0 < q" "ps \<noteq> []" "w - t \<le> (int (length ps) - 1) * q"
    "\<forall>p\<in>set ps. \<not> poll_stopped p \<and> \<not> poll_woken p"
  shows "wait_until_due w ps = Some True \<and>
     \<not> (\<exists>qs. wait_until_due w qs = Some True \<and> (\<forall>p\<in>set qs. poll_now p < w \<or> poll_stopped p))"
  using wait_until_due_reaches [OF assms(5)] polls_advance_due [OF assms(1-4)]
    wait_until_due_True [of w] by (auto simp: not_le [symmetric])

theorem wait_until_due_ends_when_due_witness:
  "wait_until_due 100 [\<lparr>poll_stopped = False, poll_now = 10, poll_woken = False\<rparr>,
       \<lparr>poll_stopped = False, poll_now = 71, poll_woken = False\<rparr>,
       \<lparr>poll_stopped = False, poll_now = 100, poll_woken = False\<rparr>] = Some True \<and>
     \<not> (\<exists>qs. wait_until_due 100 qs = Some True \<and> (\<forall>p\<in>set qs. poll_now p < 100 \<or> poll_stopped p))"
  by (rule wait_until_due_ends_when_due [of 60 100 10]) (simp_all add: poll_timeout_def)

text \<open>A run of the host, for the witnesses: the arXiv job reaches its first execution.\<close>

lemma host_demo:
  "\<exists>h. host_reachable (job_config_of ''0 6 * * *'' ''0 7 * * *'' ''0 8 * * 1'') [] h \<and>
     host_phase h ArxivDaily = Executing (6 * hour_us)"
proof -
  let ?c = "job_config_of ''0 6 * * *'' ''0 7 * * *'' ''0 8 * * 1''"
  let ?w = "6 * hour_us"
  let ?rows = "snd (job_plan (?c ArxivDaily) (utc 0) [])"
  let ?at = "\<lambda>h p rows t. host_reachable ?c [] h \<and> host_phase h ArxivDaily = p \<and> host_ledger h = rows \<and>
     host_now h = t \<and> \<not> host_stop h \<and> host_lock h ''arxiv'' = None"
  have src: "cfg_source (?c ArxivDaily) = ''arxiv''" by (simp add: job_config_of_def)
  have b: "job_boot (?c ArxivDaily) (utc 0) [] = (Inr (), [])" by code_simp
  have p: "job_plan (?c ArxivDaily) (utc 0) [] = (Inr ?w, ?rows)" by code_simp
  have s: "fst (start (cfg_name (?c ArxivDaily)) (utc ?w) (utc ?w) ?rows) = Inr True" by code_simp
  have "?at (host_init [] 0) Boot [] 0" by (simp add: reach_init) (simp add: host_init_def)
  then obtain h1 where 1: "?at h1 LoopTop [] 0"
    using reach_step [OF _ boot [of _ ArxivDaily ?c "Inr ()" "[]"]] b by fastforce
  then obtain h2 where 2: "?at h2 (Waiting ?w) ?rows 0"
    using reach_step [OF _ loop_plan [of _ ArxivDaily ?c "Inr ?w" ?rows]] p by fastforce
  then obtain h3 where 3: "?at h3 (Waiting ?w) ?rows ?w"
    using reach_step [OF _ clock [of ?c h2 ?w]] by fastforce
  then obtain h4 where 4: "?at h4 (Acquiring ?w) ?rows ?w"
    using reach_step [OF _ wait_due [of _ ArxivDaily ?w ?c]] by fastforce
  let ?h5 = "goto ArxivDaily (Locked ?w) (host_ledger h4)
      (h4\<lparr>host_lock := (host_lock h4)(cfg_source (?c ArxivDaily) := Some ArxivDaily)\<rparr>)"
  have 5: "host_reachable ?c [] ?h5"
    using 4 src by (intro reach_step [OF _ acquire]) simp_all
  have st: "start (cfg_name (?c ArxivDaily)) (utc ?w) (utc (host_now ?h5)) (host_ledger ?h5)
      = (Inr True, snd (start (cfg_name (?c ArxivDaily)) (utc ?w) (utc ?w) ?rows))"
    using 4 s by (simp add: prod_eq_iff)
  have "host_reachable ?c [] (goto ArxivDaily (Executing ?w) (snd (start (cfg_name (?c ArxivDaily)) (utc ?w) (utc ?w) ?rows)) ?h5)"
    using 4 by (intro reach_step [OF 5 claimed] st) simp_all
  then show ?thesis by (intro exI conjI) (assumption, simp)
qed

theorem jobs_of_one_source_exclusive_witness:
  "\<exists>h. (host_reachable (job_config_of ''0 6 * * *'' ''0 7 * * *'' ''0 8 * * 1'') [] h \<and> inside (host_phase h ArxivDaily)) \<and>
     ArxivDaily = ArxivDaily"
proof -
  obtain h where h: "host_reachable (job_config_of ''0 6 * * *'' ''0 7 * * *'' ''0 8 * * 1'') [] h"
    "host_phase h ArxivDaily = Executing (6 * hour_us)" using host_demo by blast
  then have "inside (host_phase h ArxivDaily)" by simp
  from h(1) this jobs_of_one_source_exclusive [OF h(1) this this refl] show ?thesis by blast
qed

theorem executing_window_is_running_witness:
  "\<exists>h :: host. status_of (host_ledger h)
       (cfg_name (job_config_of ''0 6 * * *'' ''0 7 * * *'' ''0 8 * * 1'' ArxivDaily)) (6 * hour_us) = Some Running \<and>
     fst (job_finish (job_config_of ''0 6 * * *'' ''0 7 * * *'' ''0 8 * * 1'' ArxivDaily) (6 * hour_us)
       (utc (7 * hour_us)) (JobRaised ''TimeoutError'') (host_ledger h)) = Inr ()"
proof -
  obtain h where h: "host_reachable (job_config_of ''0 6 * * *'' ''0 7 * * *'' ''0 8 * * 1'') [] h"
    "host_phase h ArxivDaily = Executing (6 * hour_us)" using host_demo by blast
  have inv: "ledger_inv []" by (simp add: ledger_inv_def execution_unique_def)
  show ?thesis
    by (rule exI, rule executing_window_is_running [OF h(1) inv h(2)]) (simp only: job_outcome.case)
qed

end
