(* ===== verification/Punctuality.thy ===== *)
theory Punctuality
  imports Cron Scheduler_Ledger
begin

text \<open>
  Dispatch timing and the read-only verifier of \<open>observatory_operations/scheduler.py\<close>:
  \<open>scheduler_timing\<close>, \<open>_delay_seconds\<close> and \<open>SchedulerPunctualityVerifier.status\<close>.  A delay in
  seconds rounded to three digits is an integer number of milliseconds; the rounding is done on the
  exact value, half to even, where the code rounds a binary double (they can differ only when the
  delay is exactly half a millisecond off a millisecond).  The lemmas characterise when the two
  verdicts of the report are \<open>passed\<close>.
\<close>


section \<open>Timing of one execution\<close>

datatype timing_state = OnTime | Late | TimingMissed | TimingInterrupted | TimingPending

fun timing_state_value :: "timing_state \<Rightarrow> string" where
  "timing_state_value OnTime = ''on_time''"
| "timing_state_value Late = ''late''"
| "timing_state_value TimingMissed = ''missed''"
| "timing_state_value TimingInterrupted = ''interrupted''"
| "timing_state_value TimingPending = ''pending''"

definition delay_ms :: "int option \<Rightarrow> int \<Rightarrow> int option" where
  "delay_ms started_at scheduled_at =
     (case started_at of
        None \<Rightarrow> None
      | Some s \<Rightarrow> Some (round_half_even_div (max 0 (s - scheduled_at)) 1000))"

definition timing_at :: "scheduler_execution \<Rightarrow> int \<Rightarrow> int \<Rightarrow> timing_state \<times> int option" where
  "timing_at execution observed_at threshold_seconds =
     (let scheduled_at = ex_scheduled_at execution in
      if ex_status execution = Missed then (TimingMissed, None)
      else if ex_status execution = Interrupted then
        (TimingInterrupted, delay_ms (ex_started_at execution) scheduled_at)
      else
        (case ex_started_at execution of
           None \<Rightarrow> if scheduled_at \<le> observed_at then (TimingMissed, None) else (TimingPending, None)
         | Some started \<Rightarrow>
             let delay = round_half_even_div (max 0 (started - scheduled_at)) 1000
             in (if delay \<le> threshold_seconds * 1000 then OnTime else Late, Some delay)))"

definition scheduler_timing ::
  "scheduler_execution \<Rightarrow> pydatetime \<Rightarrow> int \<Rightarrow> (timing_state \<times> int option) result" where
  "scheduler_timing execution now threshold_seconds =
     (case require_utc now of
        Inl e \<Rightarrow> Inl e
      | Inr observed_at \<Rightarrow> Inr (timing_at execution observed_at threshold_seconds))"

lemma rounding_le: "2000 * (q::int) \<le> 2 * a + 1000 \<Longrightarrow> a \<le> th * 1000000 \<Longrightarrow> q \<le> th * 1000"
  by linarith

lemma rounding_gt: "2 * a - 1000 \<le> 2000 * (q::int) \<Longrightarrow> th * 1000000 + 500 < a \<Longrightarrow> th * 1000 < q"
  by linarith

lemma timing_within_threshold:
  assumes "ex_started_at r = Some s" "ex_status r \<notin> {Missed, Interrupted}"
    "s - ex_scheduled_at r \<le> threshold * second_us" "0 \<le> threshold"
  shows "fst (timing_at r now threshold) = OnTime"
proof -
  have "max 0 (s - ex_scheduled_at r) \<le> threshold * second_us" using assms(3,4) by simp
  then have "round_half_even_div (max 0 (s - ex_scheduled_at r)) 1000 \<le> threshold * 1000"
    using round_half_even_div_bounds [of 1000 "max 0 (s - ex_scheduled_at r)"] by (intro rounding_le) auto
  with assms(1,2) show ?thesis by (simp add: timing_at_def Let_def)
qed

lemma timing_beyond_threshold:
  assumes "ex_started_at r = Some s" "ex_status r \<notin> {Missed, Interrupted}"
    "s - ex_scheduled_at r > threshold * second_us + 500" "0 \<le> threshold"
  shows "fst (timing_at r now threshold) = Late"
proof -
  have "max 0 (s - ex_scheduled_at r) = s - ex_scheduled_at r" using assms(3,4) by simp
  then have "\<not> round_half_even_div (max 0 (s - ex_scheduled_at r)) 1000 \<le> threshold * 1000"
    using round_half_even_div_bounds [of 1000 "s - ex_scheduled_at r"] assms(3)
      rounding_gt [of "s - ex_scheduled_at r" _ threshold] by fastforce
  with assms(1,2) show ?thesis by (simp add: timing_at_def Let_def)
qed


section \<open>The report\<close>

definition punctuality_contract :: string where
  "punctuality_contract = ''scheduler-punctuality-v2''"

definition tagged :: "scheduler_execution \<Rightarrow> bool" where
  "tagged r = (dict_get (ex_metadata r) ''punctuality_contract'' = Some (JStr punctuality_contract))"

record evidence_row =
  ev_execution_id :: nat
  ev_scheduled_at :: int
  ev_started_at :: "int option"
  ev_finished_at :: "int option"
  ev_dispatch_delay_ms :: "int option"
  ev_timing_state :: timing_state
  ev_collector_status :: execution_status
  ev_error_type :: "string option"

definition row_payload :: "scheduler_execution \<Rightarrow> timing_state \<Rightarrow> int option \<Rightarrow> evidence_row" where
  "row_payload row timing delay =
     \<lparr>ev_execution_id = ex_id row, ev_scheduled_at = ex_scheduled_at row,
      ev_started_at = ex_started_at row, ev_finished_at = ex_finished_at row,
      ev_dispatch_delay_ms = delay, ev_timing_state = timing,
      ev_collector_status = ex_status row, ev_error_type = ex_error_type row\<rparr>"

record continuity_report =
  continuity_state :: string
  continuity_windows_observed :: int
  continuity_missing :: "int list"
  continuity_duplicates :: int
  continuity_missed_or_interrupted :: int

record qualification_report =
  punctuality_state :: string
  qualification_start :: "int option"
  qualification_completed :: int
  qualification_on_time :: int
  qualification_late :: int
  qualification_missed :: int
  qualification_interrupted :: int
  qualification_missing :: "int list"
  qualification_duplicates :: int
  qualification_evidence :: "evidence_row list"
  qualification_exit_code :: int
  qualification_message :: string

record punctuality_report =
  report_job_name :: string
  report_source_name :: string
  report_schedule :: string
  report_threshold_seconds :: int
  report_continuity_days :: int
  report_continuity :: continuity_report
  report_qualification_required :: int
  report_qualification :: qualification_report
  report_next_window :: "int option"
  report_latest :: "evidence_row option"

type_synonym windows_dict = "(int, scheduler_execution list) dict"

definition continuity_windows :: "int \<Rightarrow> nat \<Rightarrow> int list" where
  "continuity_windows due days = map (\<lambda>i. due - int i * day_us) (rev [0..<days])"

definition continuity_of ::
  "scheduler_execution list \<Rightarrow> windows_dict \<Rightarrow> int \<Rightarrow> int \<Rightarrow> int \<Rightarrow> string \<Rightarrow> nat \<Rightarrow> continuity_report" where
  "continuity_of rows by_window due now threshold source days =
     (let windows = continuity_windows due days;
          missing = filter (\<lambda>w. w \<notin> set (dict_keys by_window)) windows;
          duplicates = sum_list (map (\<lambda>w. max 0 (int (length (dict_get_list by_window w)) - 1)) windows);
          found = concat (map (dict_get_list by_window) windows);
          source_mismatches = sum_list (map (\<lambda>r. bool_int (ex_source_name r \<noteq> source)) found);
          bad = sum_list (map (\<lambda>r. bool_int (fst (timing_at r now threshold) \<in> {TimingMissed, TimingInterrupted})) found);
          observed = int days - int (length missing)
      in \<lparr>continuity_state =
            (if rows = [] then ''pending''
             else if missing \<noteq> [] \<or> duplicates \<noteq> 0 \<or> bad \<noteq> 0 \<or> source_mismatches \<noteq> 0 then ''failed''
             else if observed = int days then ''passed''
             else ''pending''),
          continuity_windows_observed = observed,
          continuity_missing = missing,
          continuity_duplicates = duplicates,
          continuity_missed_or_interrupted = bad\<rparr>)"

definition expected_windows :: "int option \<Rightarrow> nat \<Rightarrow> int list" where
  "expected_windows first count =
     (case first of None \<Rightarrow> [] | Some s \<Rightarrow> map (\<lambda>i. s + int i * day_us) [0..<count])"

definition qualification_of ::
  "scheduler_execution list \<Rightarrow> windows_dict \<Rightarrow> int \<Rightarrow> int \<Rightarrow> nat \<Rightarrow> qualification_report" where
  "qualification_of rows by_window now threshold required =
     (let first = min_default (map ex_scheduled_at (filter tagged rows));
          due = filter (\<lambda>w. w \<le> now) (expected_windows first required);
          matching = (\<lambda>w. filter tagged (dict_get_list by_window w));
          missing = filter (\<lambda>w. matching w = []) due;
          duplicates = sum_list (map (\<lambda>w. max 0 (int (length (matching w)) - 1)) due);
          found = concat (map matching due);
          count = (\<lambda>s. sum_list (map (\<lambda>r. bool_int (fst (timing_at r now threshold) = s)) found));
          completed = sum_list (map (\<lambda>r. bool_int (terminal (ex_status r))) found);
          evidence = map (\<lambda>r. let t = timing_at r now threshold in row_payload r (fst t) (snd t)) found;
          disqualifying = count Late + count TimingMissed + count TimingInterrupted;
          verdict =
            (if missing \<noteq> [] \<or> duplicates \<noteq> 0 \<or> disqualifying \<noteq> 0 then
               (''failed'', 2, ''Post-deployment punctuality evidence failed its timing contract.'')
             else if first \<noteq> None \<and> completed \<ge> int required then
               (''passed'', 0, ''Three real post-deployment windows met the on-time threshold.'')
             else
               (''pending'', 1, ''Post-deployment punctuality qualification is still accumulating.''))
      in \<lparr>punctuality_state = fst verdict,
          qualification_start = first,
          qualification_completed = min completed (int required),
          qualification_on_time = count OnTime,
          qualification_late = count Late,
          qualification_missed = count TimingMissed,
          qualification_interrupted = count TimingInterrupted,
          qualification_missing = missing,
          qualification_duplicates = duplicates,
          qualification_evidence = evidence,
          qualification_exit_code = fst (snd verdict),
          qualification_message = snd (snd verdict)\<rparr>)"

text \<open>
  The \<open>while any(..)\<close> loop that looks for the first day without an untagged row.  It ends because
  each pass leaves a row of the table behind.
\<close>

function first_untouched :: "windows_dict \<Rightarrow> int \<Rightarrow> int" where
  "first_untouched by_window w =
     (if \<exists>r\<in>set (dict_get_list by_window w). \<not> tagged r
      then first_untouched by_window (w + day_us) else w)"
  by pat_completeness auto
termination
proof (relation "measure (\<lambda>(d, w). length (filter (\<lambda>p. w \<le> fst p) d))", simp)
  fix d :: windows_dict and w
  assume "\<exists>r\<in>set (dict_get_list d w). \<not> tagged r"
  then obtain rs where "(w, rs) \<in> set d"
    by (auto simp: dict_get_list_def split: option.splits dest: map_of_SomeD dest!: sym [of "Some _"])
  then have "(w, rs) \<in> set (filter (\<lambda>p. w \<le> fst p) d)" by simp
  then have "length (filter (\<lambda>p. w + day_us \<le> fst p) (filter (\<lambda>p. w \<le> fst p) d)) <
      length (filter (\<lambda>p. w \<le> fst p) d)"
    by (rule length_filter_less) simp
  moreover have "filter (\<lambda>p. w + day_us \<le> fst p) (filter (\<lambda>p. w \<le> fst p) d) = filter (\<lambda>p. w + day_us \<le> fst p) d"
    unfolding filter_filter by (rule filter_cong) auto
  ultimately have "length (filter (\<lambda>p. w + day_us \<le> fst p) d) < length (filter (\<lambda>p. w \<le> fst p) d)"
    by simp
  then show "((d, w + day_us), (d, w)) \<in> measure (\<lambda>(d, w). length (filter (\<lambda>p. w \<le> fst p) d))"
    by simp
qed

declare first_untouched.simps [simp del]

definition next_qualification_window ::
  "windows_dict \<Rightarrow> qualification_report \<Rightarrow> int \<Rightarrow> int \<Rightarrow> nat \<Rightarrow> int option" where
  "next_qualification_window by_window q today_due now required =
     (let expected = expected_windows (qualification_start q) required;
          due = filter (\<lambda>w. w \<le> now) expected
      in if qualification_start q = None then Some (first_untouched by_window (today_due + day_us))
         else if length due < required then Some (expected ! length due)
         else None)"

definition job_rows :: "string \<Rightarrow> ledger \<Rightarrow> scheduler_execution list" where
  "job_rows job_name table = sort_key ex_scheduled_at (filter (\<lambda>r. ex_job_name r = job_name) table)"

definition verifier_init :: "pydatetime \<Rightarrow> int \<Rightarrow> (int \<times> int) result" where
  "verifier_init now threshold_seconds =
     (if threshold_seconds < 0 then Inl (ValueError ''punctuality threshold cannot be negative'')
      else case require_utc now of Inl e \<Rightarrow> Inl e | Inr t \<Rightarrow> Inr (t, threshold_seconds))"

definition punctuality_status ::
  "ledger \<Rightarrow> int \<Rightarrow> int \<Rightarrow> string \<Rightarrow> string \<Rightarrow> string \<Rightarrow> int \<Rightarrow> int \<Rightarrow> punctuality_report result" where
  "punctuality_status table now threshold job_name source schedule continuity_days qualification_windows =
     (if continuity_days < 1 \<or> qualification_windows < 1 then
        Inl (ValueError ''scheduler evidence windows must be positive'')
      else
        (case latest_due_window schedule now of
           Inl e \<Rightarrow> Inl e
         | Inr due \<Rightarrow>
             (let rows = job_rows job_name table;
                  by_window = group_by ex_scheduled_at rows;
                  continuity = continuity_of rows by_window due now threshold source (nat continuity_days);
                  q = qualification_of rows by_window now threshold (nat qualification_windows)
              in Inr \<lparr>report_job_name = job_name, report_source_name = source,
                      report_schedule = schedule, report_threshold_seconds = threshold,
                      report_continuity_days = continuity_days, report_continuity = continuity,
                      report_qualification_required = qualification_windows,
                      report_qualification = q,
                      report_next_window =
                        next_qualification_window by_window q due now (nat qualification_windows),
                      report_latest =
                        (case rows of [] \<Rightarrow> None
                         | _ \<Rightarrow> let t = timing_at (last rows) now threshold
                              in Some (row_payload (last rows) (fst t) (snd t)))\<rparr>)))"


section \<open>What the verdicts mean\<close>

lemma sum_list_bool_zero:
  "sum_list (map (\<lambda>x. bool_int (P x)) xs) = 0 \<longleftrightarrow> (\<forall>x\<in>set xs. \<not> P x)"
  by (simp add: sum_list_count filter_empty_conv)

lemma sum_list_nonneg_zero:
  "(\<And>x. x \<in> set xs \<Longrightarrow> 0 \<le> f x) \<Longrightarrow> sum_list (map f xs) = (0::int) \<longleftrightarrow> (\<forall>x\<in>set xs. f x = 0)"
proof (induction xs)
  case (Cons a xs)
  have "0 \<le> sum_list (map f xs)" using Cons.prems by (intro sum_list_nonneg) auto
  with Cons.prems [of a] have "f a + sum_list (map f xs) = 0 \<longleftrightarrow> f a = 0 \<and> sum_list (map f xs) = 0"
    by auto
  with Cons show ?case by simp
qed simp

lemma duplicates_zero:
  "sum_list (map (\<lambda>w. max 0 (int (length (f w)) - 1)) ws) = 0 \<longleftrightarrow> (\<forall>w\<in>set ws. length (f w) \<le> 1)"
  by (subst sum_list_nonneg_zero) auto

lemma found_rows:
  "dict_get_list (group_by ex_scheduled_at (job_rows j table)) w =
     filter (\<lambda>r. is_window j w r) (sort_key ex_scheduled_at table)"
  by (simp add: group_by_get job_rows_def filter_sort is_window_def conj_commute)

lemma one_row_per_window:
  assumes "\<forall>w\<in>set ws. length (f w) \<le> 1" "\<forall>w\<in>set ws. f w \<noteq> []"
  shows "length (concat (map f ws)) = length ws"
  using assms
proof (induction ws)
  case (Cons w ws)
  have "length (f w) = 1" using Cons.prems by (simp add: order_antisym Suc_leI)
  with Cons show ?case by simp
qed simp

lemma length_le_one_cases: "length xs \<le> 1 \<Longrightarrow> xs \<noteq> [] \<Longrightarrow> \<exists>x. xs = [x]"
  by (cases xs) auto

lemma single_row_iff:
  "xs \<noteq> [] \<and> length xs \<le> 1 \<and> (\<forall>x\<in>set xs. P x) \<longleftrightarrow> (\<exists>x. xs = [x] \<and> P x)"
  by (cases xs) auto

definition window_rows :: "ledger \<Rightarrow> string \<Rightarrow> int \<Rightarrow> scheduler_execution list" where
  "window_rows table job w = filter (is_window job w) (sort_key ex_scheduled_at table)"

text \<open>The continuity verdict: one row per window of the right source, none missed or interrupted.\<close>

lemma continuity_passed_iff:
  assumes "0 < days"
  shows "continuity_state (continuity_of (job_rows j table) (group_by ex_scheduled_at (job_rows j table)) due now th src days)
           = ''passed'' \<longleftrightarrow>
     (\<forall>w\<in>set (continuity_windows due days). \<exists>r. window_rows table j w = [r] \<and> ex_source_name r = src \<and>
         fst (timing_at r now th) \<notin> {TimingMissed, TimingInterrupted})" (is "?L \<longleftrightarrow> ?R")
proof -
  let ?by = "group_by ex_scheduled_at (job_rows j table)"
  let ?ws = "continuity_windows due days"
  have keys: "w \<in> set (dict_keys ?by) \<longleftrightarrow> window_rows table j w \<noteq> []" for w
    by (auto simp: keys_group_by window_rows_def job_rows_def filter_empty_conv is_window_def)
  have rows: "dict_get_list ?by w = window_rows table j w" for w
    by (simp add: found_rows window_rows_def)
  have ws: "?ws \<noteq> []" using assms by (simp add: continuity_windows_def)
  have ne: "?R \<Longrightarrow> job_rows j table \<noteq> []"
    using ws keys [of "hd ?ws"] list.set_sel(1) [OF ws] by (fastforce simp: group_by_def)
  have "?L \<longleftrightarrow> job_rows j table \<noteq> [] \<and> (\<forall>w\<in>set ?ws. window_rows table j w \<noteq> []) \<and>
      (\<forall>w\<in>set ?ws. length (window_rows table j w) \<le> 1) \<and>
      (\<forall>w\<in>set ?ws. \<forall>r\<in>set (window_rows table j w). \<not> fst (timing_at r now th) \<in> {TimingMissed, TimingInterrupted}) \<and>
      (\<forall>w\<in>set ?ws. \<forall>r\<in>set (window_rows table j w). \<not> ex_source_name r \<noteq> src)"
    unfolding continuity_of_def Let_def duplicates_zero sum_list_bool_zero rows keys
    by (auto simp: filter_empty_conv)
  also have "\<dots> \<longleftrightarrow> job_rows j table \<noteq> [] \<and> (\<forall>w\<in>set ?ws. window_rows table j w \<noteq> [] \<and>
      length (window_rows table j w) \<le> 1 \<and> (\<forall>r\<in>set (window_rows table j w). ex_source_name r = src \<and>
         fst (timing_at r now th) \<notin> {TimingMissed, TimingInterrupted}))"
    by blast
  also have "\<dots> \<longleftrightarrow> job_rows j table \<noteq> [] \<and> ?R"
    unfolding single_row_iff ..
  finally show ?thesis using ne by blast
qed

text \<open>The punctuality verdict.\<close>

definition tagged_rows :: "ledger \<Rightarrow> string \<Rightarrow> int \<Rightarrow> scheduler_execution list" where
  "tagged_rows table job w = filter tagged (window_rows table job w)"

lemma qualification_passed:
  assumes p: "punctuality_state (qualification_of (job_rows j table) (group_by ex_scheduled_at (job_rows j table)) now th n) = ''passed''"
  shows "\<exists>s. min_default (map ex_scheduled_at (filter tagged (job_rows j table))) = Some s \<and>
     (\<forall>i<n. s + int i * day_us \<le> now \<and>
        (\<exists>r. tagged_rows table j (s + int i * day_us) = [r] \<and>
           fst (timing_at r now th) = OnTime \<and> terminal (ex_status r)))"
proof -
  let ?by = "group_by ex_scheduled_at (job_rows j table)"
  let ?start = "min_default (map ex_scheduled_at (filter tagged (job_rows j table)))"
  let ?due = "filter (\<lambda>w. w \<le> now) (expected_windows ?start n)"
  let ?m = "tagged_rows table j"
  have m: "filter tagged (dict_get_list ?by w) = tagged_rows table j w" for w
    by (simp add: found_rows window_rows_def tagged_rows_def)
  let ?found = "concat (map (tagged_rows table j) ?due)"
  let ?c = "\<lambda>s. sum_list (map (\<lambda>r. bool_int (fst (timing_at r now th) = s)) ?found)"
  have nn: "0 \<le> ?c s" for s by (simp only: sum_list_count of_nat_0_le_iff)
  have v: "(if b then a else if c then d else e) = ''passed'' \<Longrightarrow> a \<noteq> ''passed'' \<Longrightarrow> e \<noteq> ''passed'' \<Longrightarrow> \<not> b \<and> c"
    for b c and a d e :: string by (auto split: if_splits)
  have "(filter (\<lambda>w. ?m w = []) ?due = [] \<and>
      sum_list (map (\<lambda>w. max 0 (int (length (?m w)) - 1)) ?due) = 0 \<and>
      ?c Late + ?c TimingMissed + ?c TimingInterrupted = 0) \<and> ?start \<noteq> None \<and>
      int n \<le> sum_list (map (\<lambda>r. bool_int (terminal (ex_status r))) ?found)"
    using p unfolding qualification_of_def Let_def qualification_report.simps if_distrib [of fst] fst_conv m
    by (drule_tac v) auto
  then have none: "\<forall>w\<in>set ?due. tagged_rows table j w \<noteq> []"
    and one: "\<forall>w\<in>set ?due. length (tagged_rows table j w) \<le> 1"
    and good: "?c Late = 0" "?c TimingMissed = 0" "?c TimingInterrupted = 0"
    and start: "?start \<noteq> None"
    and comp: "int n \<le> sum_list (map (\<lambda>r. bool_int (terminal (ex_status r))) ?found)"
    unfolding m duplicates_zero using nn [of Late] nn [of TimingMissed] nn [of TimingInterrupted]
    by (auto simp: filter_empty_conv)
  obtain s where s: "?start = Some s" using start by blast
  have len: "length ?found = length ?due" by (rule one_row_per_window [OF one none])
  have all: "n \<le> length (filter (\<lambda>r. terminal (ex_status r)) ?found)"
    using comp unfolding sum_list_count by simp
  have le: "length ?due \<le> n" using length_filter_le [of "\<lambda>w. w \<le> now" "expected_windows ?start n"]
    by (simp add: s expected_windows_def)
  have full: "length ?due = n" "length (filter (\<lambda>r. terminal (ex_status r)) ?found) = length ?found"
    using all le len length_filter_le [of "\<lambda>r. terminal (ex_status r)" ?found] by linarith+
  then have fin: "\<forall>r\<in>set ?found. terminal (ex_status r)"
    by (metis length_filter_less less_irrefl)
  have due: "?due = expected_windows ?start n"
    using full(1) by (metis (no_types, lifting) filter_True length_filter_less less_irrefl
        s expected_windows_def option.simps(5) length_map length_upt diff_zero)
  have "s + int i * day_us \<in> set ?due" if "i < n" for i
  proof -
    have "s + int i * day_us \<in> set (expected_windows ?start n)"
      unfolding s using that by (simp add: expected_windows_def)
    then show ?thesis by (simp only: due)
  qed
  moreover have "\<exists>r. tagged_rows table j w = [r] \<and> fst (timing_at r now th) = OnTime \<and> terminal (ex_status r)"
    if w: "w \<in> set ?due" for w
  proof -
    obtain r where r: "tagged_rows table j w = [r]"
      using length_le_one_cases one none w by blast
    then have mem: "r \<in> set ?found" using w by auto
    have "fst (timing_at r now th) \<notin> {Late, TimingMissed, TimingInterrupted}"
      using good mem unfolding sum_list_bool_zero by blast
    moreover have "fst (timing_at r now th) \<noteq> TimingPending"
      using fin mem w r
      by (auto simp: timing_at_def Let_def tagged_rows_def window_rows_def is_window_def filter_eq_Cons_iff
          split: option.splits if_splits)
    ultimately have "fst (timing_at r now th) = OnTime" by (cases "fst (timing_at r now th)") auto
    with r fin mem show ?thesis by blast
  qed
  ultimately show ?thesis using s by (intro exI [of _ s]) auto
qed

text \<open>Untagged rows, manual or historical, do not influence the punctuality verdict.\<close>

lemma tagged_only:
  "qualification_of (job_rows j table) (group_by ex_scheduled_at (job_rows j table)) now th n =
   qualification_of (job_rows j (filter tagged table)) (group_by ex_scheduled_at (job_rows j (filter tagged table))) now th n"
proof -
  have rows: "filter tagged (job_rows j (filter tagged table)) = filter tagged (job_rows j table)"
    by (simp add: job_rows_def filter_sort conj_commute conj_left_commute)
  have m: "filter tagged (dict_get_list (group_by ex_scheduled_at (job_rows j (filter tagged table))) w) =
      filter tagged (dict_get_list (group_by ex_scheduled_at (job_rows j table)) w)" for w
    unfolding found_rows by (simp add: filter_sort conj_commute conj_left_commute)
  show ?thesis unfolding qualification_of_def rows m ..
qed

lemma punctuality_statusD:
  assumes "punctuality_status table now th j src sched days n = Inr rep"
  shows "\<exists>due. latest_due_window sched now = Inr due \<and> 0 < days \<and> 0 < n \<and>
     report_continuity rep = continuity_of (job_rows j table) (group_by ex_scheduled_at (job_rows j table)) due now th src (nat days) \<and>
     report_qualification rep = qualification_of (job_rows j table) (group_by ex_scheduled_at (job_rows j table)) now th (nat n)"
  using assms by (auto simp: punctuality_status_def Let_def split: if_splits sum.splits)

lemma qualification_exit:
  "qualification_exit_code (qualification_of rows d now th n) =
     (if punctuality_state (qualification_of rows d now th n) = ''passed'' then 0
      else if punctuality_state (qualification_of rows d now th n) = ''pending'' then 1 else 2)"
  by (simp add: qualification_of_def Let_def)

lemma expected_windows_start: "0 < n \<Longrightarrow> s \<in> set (expected_windows (Some s) n)"
  by (force simp: expected_windows_def)

text \<open>A late tagged dispatch of an expected window that is due.\<close>

lemma late_disqualifies:
  assumes start: "min_default (map ex_scheduled_at (filter tagged (job_rows j table))) = Some s"
    and w: "w = s + int i * day_us" "i < n" "w \<le> now"
    and r: "r \<in> set (tagged_rows table j w)" "fst (timing_at r now th) \<in> {Late, TimingMissed, TimingInterrupted}"
  shows "punctuality_state (qualification_of (job_rows j table) (group_by ex_scheduled_at (job_rows j table)) now th n) = ''failed''"
proof -
  let ?due = "filter (\<lambda>w. w \<le> now) (expected_windows (Some s) n)"
  have m: "filter tagged (dict_get_list (group_by ex_scheduled_at (job_rows j table)) v) = tagged_rows table j v" for v
    by (simp add: found_rows window_rows_def tagged_rows_def)
  have due: "w \<in> set ?due" using w by (auto simp: expected_windows_def)
  let ?found = "concat (map (tagged_rows table j) ?due)"
  let ?c = "\<lambda>s. sum_list (map (\<lambda>r. bool_int (fst (timing_at r now th) = s)) ?found)"
  have nn: "0 \<le> ?c s" for s by (simp only: sum_list_count of_nat_0_le_iff)
  have mem: "r \<in> set ?found" using due r(1) by auto
  then have "?c (fst (timing_at r now th)) \<noteq> 0" unfolding sum_list_bool_zero by blast
  then have "?c Late + ?c TimingMissed + ?c TimingInterrupted \<noteq> 0"
    using r(2) nn [of Late] nn [of TimingMissed] nn [of TimingInterrupted] by auto
  then show ?thesis
    unfolding qualification_of_def Let_def qualification_report.simps start m if_distrib [of fst] fst_conv
    by simp
qed


section \<open>Properties\<close>

text \<open>
  C6: the report says the punctuality qualification passed only if a first tagged window exists and
  each of the required consecutive days from it is due and has exactly one tagged execution, which
  started on time and has ended; the exit code is then 0, and it is 0 in no other case.
\<close>

theorem punctuality_passed_means:
  assumes "punctuality_status table now th j src sched days n = Inr rep"
  shows "(qualification_exit_code (report_qualification rep) = 0 \<longleftrightarrow>
       punctuality_state (report_qualification rep) = ''passed'') \<and>
     (punctuality_state (report_qualification rep) = ''passed'' \<longrightarrow>
       (\<exists>s. min_default (map ex_scheduled_at (filter tagged (job_rows j table))) = Some s \<and>
        (\<forall>i<nat n. s + int i * day_us \<le> now \<and> (\<exists>r. tagged_rows table j (s + int i * day_us) = [r] \<and>
           fst (timing_at r now th) = OnTime \<and> terminal (ex_status r)))))"
proof -
  have q: "report_qualification rep = qualification_of (job_rows j table)
      (group_by ex_scheduled_at (job_rows j table)) now th (nat n)"
    using punctuality_statusD [OF assms] by blast
  have "qualification_exit_code (report_qualification rep) = 0 \<longleftrightarrow>
      punctuality_state (report_qualification rep) = ''passed''"
    unfolding q by (subst qualification_exit) simp
  then show ?thesis using qualification_passed [of j table now th "nat n"] unfolding q by blast
qed

text \<open>
  A tagged execution of one of the required days that is late, missed or interrupted makes the
  qualification fail for good: no later window and no untagged row can repair the verdict.
\<close>

theorem punctuality_late_is_final:
  assumes "punctuality_status table now th j src sched days n = Inr rep"
    "min_default (map ex_scheduled_at (filter tagged (job_rows j table))) = Some s"
    "i < nat n" "s + int i * day_us \<le> now" "r \<in> set (tagged_rows table j (s + int i * day_us))"
    "fst (timing_at r now th) \<in> {Late, TimingMissed, TimingInterrupted}"
  shows "punctuality_state (report_qualification rep) = ''failed'' \<and>
     qualification_exit_code (report_qualification rep) = 2"
proof -
  have q: "report_qualification rep = qualification_of (job_rows j table)
      (group_by ex_scheduled_at (job_rows j table)) now th (nat n)"
    using punctuality_statusD [OF assms(1)] by blast
  have "punctuality_state (report_qualification rep) = ''failed''"
    unfolding q by (rule late_disqualifies [OF assms(2) refl assms(3-6)])
  then show ?thesis unfolding q by (simp add: qualification_exit)
qed

text \<open>
  The continuity verdict is \<open>passed\<close> exactly when each of the last days ending at the latest due
  window has exactly one execution of the job, of the expected source, neither missed nor interrupted.
\<close>

theorem continuity_passed_means:
  assumes "punctuality_status table now th j src sched days n = Inr rep"
    "latest_due_window sched now = Inr due"
  shows "continuity_state (report_continuity rep) = ''passed'' \<longleftrightarrow>
     (\<forall>w\<in>set (continuity_windows due (nat days)). \<exists>r. window_rows table j w = [r] \<and>
        ex_source_name r = src \<and> fst (timing_at r now th) \<notin> {TimingMissed, TimingInterrupted})"
  using punctuality_statusD [OF assms(1)] assms(2) continuity_passed_iff [of "nat days" j table due now th src] by auto

text \<open>
  The punctuality verdict depends only on the rows tagged with the current contract: deleting
  every historical or manual row leaves the whole qualification report unchanged.
\<close>

theorem punctuality_ignores_untagged_rows:
  "qualification_of (job_rows j table) (group_by ex_scheduled_at (job_rows j table)) now th n =
   qualification_of (job_rows j (filter tagged table))
     (group_by ex_scheduled_at (job_rows j (filter tagged table))) now th n"
  by (rule tagged_only)

text \<open>
  The on-time boundary: a started execution is on time when it started at most the threshold after
  its window, and late as soon as the delay exceeds the threshold by more than the half millisecond
  that the rounding of delays can take away.
\<close>

theorem on_time_boundary:
  assumes "ex_started_at r = Some s" "ex_status r \<notin> {Missed, Interrupted}" "0 \<le> threshold"
  shows "(fst (timing_at r now threshold) = OnTime \<or> threshold * second_us < s - ex_scheduled_at r) \<and>
     (fst (timing_at r now threshold) = Late \<or> s - ex_scheduled_at r \<le> threshold * second_us + 500)"
  using timing_within_threshold [OF assms(1,2) _ assms(3)] timing_beyond_threshold [OF assms(1,2) _ assms(3)]
  by (meson not_le)

text \<open>A table of three tagged on-time executions, for the witnesses.\<close>

definition demo_row :: "nat \<Rightarrow> int \<Rightarrow> int \<Rightarrow> scheduler_execution" where
  "demo_row n day delay = \<lparr>ex_id = n, ex_job_name = ''j'', ex_source_name = ''arxiv'',
     ex_scheduled_at = day * day_us, ex_started_at = Some (day * day_us + delay * second_us),
     ex_finished_at = Some (day * day_us + 9 * minute_us), ex_status = Succeeded, ex_error_type = None,
     ex_metadata = [(''punctuality_contract'', JStr punctuality_contract)]\<rparr>"

definition demo_status :: "int \<Rightarrow> punctuality_report result" where
  "demo_status delay = punctuality_status [demo_row 1 0 5, demo_row 2 1 delay, demo_row 3 2 7]
     (3 * day_us - 1) 300 ''j'' ''arxiv'' ''0 0 * * *'' 3 3"

definition demo_report :: "int \<Rightarrow> punctuality_report" where
  "demo_report delay = (case demo_status delay of Inl _ \<Rightarrow> undefined | Inr r \<Rightarrow> r)"

lemma demo_status_ok: "demo_status 300 = Inr (demo_report 300)" "demo_status 301 = Inr (demo_report 301)"
proof -
  have "is_ok (demo_status 300)" "is_ok (demo_status 301)" by code_simp+
  then show "demo_status 300 = Inr (demo_report 300)" "demo_status 301 = Inr (demo_report 301)"
    by (auto simp: demo_report_def is_ok_def split: sum.splits)
qed

theorem punctuality_passed_means_witness:
  "let table = [demo_row 1 0 5, demo_row 2 1 300, demo_row 3 2 7] in
   punctuality_state (report_qualification (demo_report 300)) = ''passed'' \<and>
   (qualification_exit_code (report_qualification (demo_report 300)) = 0 \<longleftrightarrow>
       punctuality_state (report_qualification (demo_report 300)) = ''passed'') \<and>
   (punctuality_state (report_qualification (demo_report 300)) = ''passed'' \<longrightarrow>
       (\<exists>s. min_default (map ex_scheduled_at (filter tagged (job_rows ''j'' table))) = Some s \<and>
        (\<forall>i<nat 3. s + int i * day_us \<le> 3 * day_us - 1 \<and> (\<exists>r. tagged_rows table ''j'' (s + int i * day_us) = [r] \<and>
           fst (timing_at r (3 * day_us - 1) 300) = OnTime \<and> terminal (ex_status r)))))"
proof -
  have "punctuality_state (report_qualification (demo_report 300)) = ''passed''" by code_simp
  then show ?thesis
    using punctuality_passed_means [OF demo_status_ok(1) [unfolded demo_status_def]] unfolding Let_def by blast
qed

theorem punctuality_late_is_final_witness:
  "punctuality_state (report_qualification (demo_report 301)) = ''failed'' \<and>
     qualification_exit_code (report_qualification (demo_report 301)) = 2"
proof (rule punctuality_late_is_final [OF demo_status_ok(2) [unfolded demo_status_def], where s = 0 and i = 1])
  show "min_default (map ex_scheduled_at (filter tagged (job_rows ''j'' [demo_row 1 0 5, demo_row 2 1 301, demo_row 3 2 7]))) = Some 0"
    by code_simp
  show "demo_row 2 1 301 \<in> set (tagged_rows [demo_row 1 0 5, demo_row 2 1 301, demo_row 3 2 7] ''j'' (0 + int 1 * day_us))"
    by code_simp
qed code_simp+

theorem continuity_passed_means_witness:
  "continuity_state (report_continuity (demo_report 300)) = ''passed'' \<longleftrightarrow>
     (\<forall>w\<in>set (continuity_windows (2 * day_us) (nat 3)). \<exists>r.
        window_rows [demo_row 1 0 5, demo_row 2 1 300, demo_row 3 2 7] ''j'' w = [r] \<and> ex_source_name r = ''arxiv'' \<and>
        fst (timing_at r (3 * day_us - 1) 300) \<notin> {TimingMissed, TimingInterrupted})"
  by (rule continuity_passed_means [OF demo_status_ok(1) [unfolded demo_status_def]]) code_simp

theorem on_time_boundary_witness:
  "(fst (timing_at (demo_row 2 1 300) 0 300) = OnTime \<or>
      300 * second_us < day_us + 300 * second_us - ex_scheduled_at (demo_row 2 1 300)) \<and>
   (fst (timing_at (demo_row 2 1 300) 0 300) = Late \<or>
      day_us + 300 * second_us - ex_scheduled_at (demo_row 2 1 300) \<le> 300 * second_us + 500)"
  by (rule on_time_boundary) (simp_all add: demo_row_def)

end
