(* ===== verification/Source_Models.thy ===== *)
theory Source_Models
  imports Db_Models
begin

text \<open>
  The tables of the two collectors and of the coverage projection: \<open>arxiv_models.py\<close>,
  \<open>github_models.py\<close> and \<open>coverage_models.py\<close> of \<open>observatory_db\<close>, with their check and unique
  constraints.  Identities (UUIDs) are natural numbers, foreign keys refer to them, dates are day
  numbers, and bookkeeping columns that no modelled code reads are left out.
\<close>


section \<open>arXiv\<close>

datatype arxiv_match_method = ArxivApiQuery

fun arxiv_match_method_value :: "arxiv_match_method \<Rightarrow> string" where
  "arxiv_match_method_value ArxivApiQuery = ''ARXIV_API_QUERY''"

datatype cursor_status = CursorPending | CursorRunning | CursorSucceeded | CursorPartial | CursorFailed

fun cursor_status_value :: "cursor_status \<Rightarrow> string" where
  "cursor_status_value CursorPending = ''pending''"
| "cursor_status_value CursorRunning = ''running''"
| "cursor_status_value CursorSucceeded = ''succeeded''"
| "cursor_status_value CursorPartial = ''partial''"
| "cursor_status_value CursorFailed = ''failed''"

lemma cursor_status_value_inj: "cursor_status_value a = cursor_status_value b \<longleftrightarrow> a = b"
  by (cases a; cases b) simp_all

record arxiv_paper =
  paper_id :: nat
  paper_arxiv_id :: string
  paper_latest_version :: "int option"
  paper_title :: string
  paper_abstract :: string
  paper_published_at :: int
  paper_updated_at :: int
  paper_primary_category :: string
  paper_comment :: "string option"
  paper_journal_ref :: "string option"
  paper_doi :: "string option"
  paper_license_url :: "string option"
  paper_abs_url :: string
  paper_pdf_url :: "string option"
  paper_is_withdrawn :: bool
  paper_last_observed_at :: int
  paper_metadata :: jdict

definition arxiv_paper_unique :: "arxiv_paper list \<Rightarrow> bool" where
  "arxiv_paper_unique rows = distinct (map paper_arxiv_id rows)"

record arxiv_author =
  author_id :: nat
  author_display_name :: string
  author_normalized_name :: string

record arxiv_paper_author =
  pa_paper_id :: nat
  pa_position :: int
  pa_author_id :: nat

definition arxiv_paper_author_unique :: "arxiv_paper_author list \<Rightarrow> bool" where
  "arxiv_paper_author_unique rows =
     (distinct (map (\<lambda>a. (pa_paper_id a, pa_position a)) rows) \<and>
      distinct (map (\<lambda>a. (pa_paper_id a, pa_author_id a)) rows) \<and>
      list_all (\<lambda>a. pa_position a \<ge> 0) rows)"

record arxiv_category =
  acat_id :: nat
  acat_code :: string

definition arxiv_category_unique :: "arxiv_category list \<Rightarrow> bool" where
  "arxiv_category_unique rows = distinct (map acat_code rows)"

record arxiv_paper_category =
  pc_paper_id :: nat
  pc_category_id :: nat
  pc_is_primary :: bool

definition arxiv_paper_category_unique :: "arxiv_paper_category list \<Rightarrow> bool" where
  "arxiv_paper_category_unique rows = distinct (map (\<lambda>c. (pc_paper_id c, pc_category_id c)) rows)"

record arxiv_raw_response =
  araw_id :: nat
  araw_run_id :: nat
  araw_topic_id :: nat
  araw_mapping_id :: nat
  araw_raw_path :: string
  araw_checksum :: string
  araw_observed_at :: int
  araw_query :: string
  araw_start_index :: int
  araw_max_results :: int
  araw_sort_by :: string
  araw_sort_order :: string
  araw_http_status :: int
  araw_response_headers :: jdict
  araw_request_metadata :: jdict
  araw_parsed_entry_count :: "int option"
  araw_parse_error :: "string option"

definition arxiv_raw_check :: "arxiv_raw_response \<Rightarrow> bool" where
  "arxiv_raw_check r = (araw_start_index r \<ge> 0 \<and> araw_max_results r \<ge> 0)"

definition arxiv_raw_unique :: "arxiv_raw_response list \<Rightarrow> bool" where
  "arxiv_raw_unique rows = distinct (map araw_raw_path rows)"

record arxiv_observation =
  aobs_id :: nat
  aobs_paper_id :: nat
  aobs_raw_id :: nat
  aobs_run_id :: nat
  aobs_observed_at :: int
  aobs_arxiv_version :: "int option"
  aobs_metadata :: jdict

definition arxiv_observation_unique :: "arxiv_observation list \<Rightarrow> bool" where
  "arxiv_observation_unique rows = distinct (map (\<lambda>x. (aobs_paper_id x, aobs_raw_id x)) rows)"

record arxiv_match =
  amatch_id :: nat
  amatch_paper_id :: nat
  amatch_topic_id :: nat
  amatch_mapping_id :: nat
  amatch_query :: string
  amatch_method :: arxiv_match_method
  amatch_first_at :: int
  amatch_last_at :: int
  amatch_first_run_id :: nat
  amatch_last_run_id :: nat
  amatch_metadata :: jdict

definition arxiv_match_unique :: "arxiv_match list \<Rightarrow> bool" where
  "arxiv_match_unique rows =
     distinct (map (\<lambda>m. (amatch_paper_id m, amatch_topic_id m, amatch_mapping_id m, amatch_query m)) rows)"

record arxiv_cursor =
  cur_id :: nat
  cur_topic_id :: nat
  cur_mapping_id :: nat
  cur_key :: string
  cur_mode :: string
  cur_last_successful_run_at :: "int option"
  cur_last_query_from :: "int option"
  cur_last_query_until :: "int option"
  cur_last_observed_updated_at :: "int option"
  cur_window_from :: "int option"
  cur_window_until :: "int option"
  cur_next_start :: int
  cur_checkpoint :: jdict
  cur_status :: cursor_status
  cur_last_error :: "string option"
  cur_updated_at :: int

definition arxiv_cursor_check :: "arxiv_cursor \<Rightarrow> bool" where
  "arxiv_cursor_check c = (cur_next_start c \<ge> 0)"

definition arxiv_cursor_unique :: "arxiv_cursor list \<Rightarrow> bool" where
  "arxiv_cursor_unique rows = distinct (map (\<lambda>c. (cur_mapping_id c, cur_key c)) rows)"


section \<open>GitHub\<close>

datatype tracking_state = Candidate | Tracked | Ignored

fun tracking_state_value :: "tracking_state \<Rightarrow> string" where
  "tracking_state_value Candidate = ''candidate''"
| "tracking_state_value Tracked = ''tracked''"
| "tracking_state_value Ignored = ''ignored''"

datatype operation_status = OpPending | OpRunning | OpSucceeded | OpPartial | OpFailed

fun operation_status_value :: "operation_status \<Rightarrow> string" where
  "operation_status_value OpPending = ''pending''"
| "operation_status_value OpRunning = ''running''"
| "operation_status_value OpSucceeded = ''succeeded''"
| "operation_status_value OpPartial = ''partial''"
| "operation_status_value OpFailed = ''failed''"

datatype snapshot_method = Full200 | Conditional304

fun snapshot_method_value :: "snapshot_method \<Rightarrow> string" where
  "snapshot_method_value Full200 = ''full_200''"
| "snapshot_method_value Conditional304 = ''conditional_304''"

record github_repository =
  repo_id :: nat
  repo_github_id :: int
  repo_node_id :: string
  repo_owner_login :: string
  repo_name :: string
  repo_full_name :: string
  repo_html_url :: string
  repo_api_url :: string
  repo_description :: "string option"
  repo_homepage :: "string option"
  repo_language :: "string option"
  repo_default_branch :: "string option"
  repo_is_fork :: bool
  repo_fork_parent_github_id :: "int option"
  repo_archived :: bool
  repo_disabled :: bool
  repo_visibility :: string
  repo_created_at_github :: int
  repo_updated_at_github :: int
  repo_pushed_at_github :: "int option"
  repo_first_observed_at :: int
  repo_last_observed_at :: int
  repo_metadata :: jdict

definition github_repository_unique :: "github_repository list \<Rightarrow> bool" where
  "github_repository_unique rows = distinct (map repo_github_id rows)"

record github_raw_response =
  graw_id :: nat
  graw_run_id :: nat
  graw_repository_id :: "nat option"
  graw_topic_id :: "nat option"
  graw_mapping_id :: "nat option"
  graw_endpoint_type :: string
  graw_raw_path :: string
  graw_checksum :: string
  graw_observed_at :: int
  graw_request_url_hash :: string
  graw_query_parameters :: jdict
  graw_http_status :: int
  graw_etag :: "string option"
  graw_last_modified :: "string option"
  graw_rate_limit :: "int option"
  graw_rate_remaining :: "int option"
  graw_rate_reset_at :: "int option"
  graw_rate_resource :: "string option"
  graw_retry_after_seconds :: "int option"
  graw_response_headers :: jdict
  graw_request_metadata :: jdict
  graw_parse_error :: "string option"

definition github_raw_unique :: "github_raw_response list \<Rightarrow> bool" where
  "github_raw_unique rows = distinct (map graw_raw_path rows)"

record github_snapshot =
  snap_id :: nat
  snap_repository_id :: nat
  snap_observed_at :: int
  snap_date :: int
  snap_full_name :: string
  snap_stargazers :: int
  snap_forks :: int
  snap_open_issues :: int
  snap_subscribers :: int
  snap_size_kb :: int
  snap_language :: "string option"
  snap_archived :: bool
  snap_disabled :: bool
  snap_default_branch :: "string option"
  snap_pushed_at :: "int option"
  snap_updated_at_github :: int
  snap_topics :: "string list"
  snap_license_spdx :: "string option"
  snap_run_id :: nat
  snap_raw_id :: nat
  snap_method :: snapshot_method
  snap_etag :: "string option"

definition github_snapshot_check :: "github_snapshot \<Rightarrow> bool" where
  "github_snapshot_check s =
     (snap_stargazers s \<ge> 0 \<and> snap_forks s \<ge> 0 \<and> snap_open_issues s \<ge> 0 \<and>
      snap_subscribers s \<ge> 0 \<and> snap_size_kb s \<ge> 0)"

definition github_snapshot_unique :: "github_snapshot list \<Rightarrow> bool" where
  "github_snapshot_unique rows = distinct (map (\<lambda>s. (snap_repository_id s, snap_date s)) rows)"

record github_match =
  gmatch_id :: nat
  gmatch_topic_id :: nat
  gmatch_repository_id :: nat
  gmatch_mapping_id :: nat
  gmatch_query :: string
  gmatch_rank :: int
  gmatch_first_at :: int
  gmatch_last_at :: int
  gmatch_first_run_id :: nat
  gmatch_last_run_id :: nat
  gmatch_tracking :: tracking_state
  gmatch_metadata :: jdict

definition github_match_unique :: "github_match list \<Rightarrow> bool" where
  "github_match_unique rows =
     distinct (map (\<lambda>m. (gmatch_topic_id m, gmatch_repository_id m, gmatch_mapping_id m, gmatch_query m)) rows)"

record github_poll_state =
  poll_id :: nat
  poll_repository_id :: nat
  poll_last_checked_at :: "int option"
  poll_last_successful_at :: "int option"
  poll_last_snapshot_at :: "int option"
  poll_etag :: "string option"
  poll_last_modified :: "string option"
  poll_last_status :: "int option"
  poll_consecutive_failures :: int
  poll_next_eligible_at :: "int option"
  poll_last_error :: "string option"

record github_discovery_state =
  disc_id :: nat
  disc_topic_id :: nat
  disc_mapping_id :: nat
  disc_status :: operation_status
  disc_last_checked_at :: "int option"
  disc_last_successful_at :: "int option"
  disc_next_eligible_at :: "int option"
  disc_last_run_id :: "nat option"
  disc_last_error :: "string option"
  disc_metadata :: jdict


section \<open>Coverage\<close>

datatype coverage_status = Complete | PartialCoverage | ForwardOnly | Empty | Unknown

fun coverage_status_value :: "coverage_status \<Rightarrow> string" where
  "coverage_status_value Complete = ''complete''"
| "coverage_status_value PartialCoverage = ''partial''"
| "coverage_status_value ForwardOnly = ''forward_only''"
| "coverage_status_value Empty = ''empty''"
| "coverage_status_value Unknown = ''unknown''"

definition all_coverage_statuses :: "coverage_status list" where
  "all_coverage_statuses = [Complete, PartialCoverage, ForwardOnly, Empty, Unknown]"

lemma set_all_coverage_statuses [simp]: "s \<in> set all_coverage_statuses"
  by (cases s) (simp_all add: all_coverage_statuses_def)

lemma coverage_status_value_inj: "coverage_status_value a = coverage_status_value b \<longleftrightarrow> a = b"
  by (cases a; cases b) simp_all

datatype coverage_strategy =
    HistoricalBackfill | ForwardSnapshot | EventStream | ForwardOnlyStrategy | BoundedHistorical
  | HistoricalPlusForward | UnknownStrategy

fun coverage_strategy_value :: "coverage_strategy \<Rightarrow> string" where
  "coverage_strategy_value HistoricalBackfill = ''historical_backfill''"
| "coverage_strategy_value ForwardSnapshot = ''forward_snapshot''"
| "coverage_strategy_value EventStream = ''event_stream''"
| "coverage_strategy_value ForwardOnlyStrategy = ''forward_only''"
| "coverage_strategy_value BoundedHistorical = ''bounded_historical''"
| "coverage_strategy_value HistoricalPlusForward = ''historical_plus_forward''"
| "coverage_strategy_value UnknownStrategy = ''unknown''"

text \<open>
  The columns that \<open>CoverageProjection\<close> and \<open>TopicSourceCoverage\<close> share; a row of the table adds its
  identity, the time and the version of its derivation.
\<close>

record coverage_projection =
  cov_topic_id :: nat
  cov_source_id :: nat
  cov_status :: coverage_status
  cov_strategy :: coverage_strategy
  cov_start :: "int option"
  cov_end :: "int option"
  cov_target_start :: "int option"
  cov_target_end :: "int option"
  cov_first_observed_at :: "int option"
  cov_last_observed_at :: "int option"
  cov_last_successful_run_at :: "int option"
  cov_observation_count :: int
  cov_expected_count :: "int option"
  cov_missing_count :: int
  cov_partial_reason :: "string option"
  cov_metadata :: jdict

record coverage_row =
  crow_id :: nat
  crow_values :: coverage_projection
  crow_derived_at :: int
  crow_derivation_version :: string

definition coverage_check :: "coverage_row \<Rightarrow> bool" where
  "coverage_check r =
     (cov_observation_count (crow_values r) \<ge> 0 \<and>
      (case cov_expected_count (crow_values r) of None \<Rightarrow> True | Some n \<Rightarrow> n \<ge> 0) \<and>
      cov_missing_count (crow_values r) \<ge> 0)"

definition coverage_key :: "coverage_row \<Rightarrow> nat \<times> nat" where
  "coverage_key r = (cov_topic_id (crow_values r), cov_source_id (crow_values r))"

definition coverage_unique :: "coverage_row list \<Rightarrow> bool" where
  "coverage_unique rows = distinct (map coverage_key rows)"

end
