(* ===== verification/Coverage.thy ===== *)
theory Coverage
  imports Source_Models
begin

text \<open>
  \<open>observatory_operations/coverage.py\<close> and \<open>freshness_state\<close> of \<open>models.py\<close>: the projection that
  says what the persisted source facts cover.  \<open>derive_arxiv\<close> and \<open>derive_github\<close> compute one
  projection from the facts, \<open>rebuild\<close> brings the table \<open>topic_source_coverage\<close> in line with all of
  them, \<open>coverage_list\<close> and its companions read it.  The lemmas show that missing dates and cursor
  gaps are exactly what is absent, what \<open>complete\<close> means, and that a rebuild is exact and idempotent.
\<close>


section \<open>Freshness\<close>

datatype freshness = Fresh | Stale | VeryStale | FreshnessUnknown

fun freshness_value :: "freshness \<Rightarrow> string" where
  "freshness_value Fresh = ''fresh''"
| "freshness_value Stale = ''stale''"
| "freshness_value VeryStale = ''very_stale''"
| "freshness_value FreshnessUnknown = ''unknown''"

text \<open>The age in hours is compared exactly, as microseconds.\<close>

definition freshness_state :: "int option \<Rightarrow> int \<Rightarrow> int \<Rightarrow> int \<Rightarrow> freshness" where
  "freshness_state observed_at now fresh_hours very_stale_hours =
     (case observed_at of
        None \<Rightarrow> FreshnessUnknown
      | Some observed \<Rightarrow>
          (let age = max 0 (now - observed) in
           if age \<le> fresh_hours * hour_us then Fresh
           else if age \<le> very_stale_hours * hour_us then Stale
           else VeryStale))"


section \<open>Missing observations and cursor gaps\<close>

text \<open>The library's \<open>[a..b]\<close> is the loop that counts days from \<open>a\<close> while they are at most \<open>b\<close>.\<close>

definition missing_between :: "int list \<Rightarrow> int list" where
  "missing_between observation_dates =
     (let observed = sorted_set observation_dates in
      if length observed < 2 then []
      else filter (\<lambda>day. day \<notin> set observed) [hd observed..last observed])"

fun gap_loop :: "int \<Rightarrow> (int \<times> int) list \<Rightarrow> (int \<times> int) list" where
  "gap_loop current_end [] = []"
| "gap_loop current_end ((window_from, window_until) # ws) =
     (if window_from > current_end
      then (current_end, window_from) # gap_loop (max current_end window_until) ws
      else gap_loop (max current_end window_until) ws)"

definition cursor_window :: "arxiv_cursor \<Rightarrow> (int \<times> int) option" where
  "cursor_window c = (case (cur_window_from c, cur_window_until c) of
     (Some a, Some b) \<Rightarrow> Some (a, b) | _ \<Rightarrow> None)"

definition cursor_gaps :: "arxiv_cursor list \<Rightarrow> (int \<times> int) list" where
  "cursor_gaps cursors =
     (case sort_key fst (somes (map cursor_window cursors)) of
        [] \<Rightarrow> []
      | (a, current_end) # ws \<Rightarrow> gap_loop current_end ws)"

definition gap_payload :: "int \<times> int \<Rightarrow> json" where
  "gap_payload g = JObj [(''from'', JTime (fst g)), (''until'', JTime (snd g))]"


section \<open>Deriving a projection\<close>

record coverage_db =
  cdb_sources :: "source_row list"
  cdb_topics :: "topic_row list"
  cdb_mappings :: "mapping_row list"
  cdb_cursors :: "arxiv_cursor list"
  cdb_matches :: "arxiv_match list"
  cdb_gmatches :: "github_match list"
  cdb_snapshots :: "github_snapshot list"
  cdb_polls :: "github_poll_state list"
  cdb_discoveries :: "github_discovery_state list"
  cdb_coverage :: "coverage_row list"

definition min_date :: "int option list \<Rightarrow> int option" where
  "min_date values = min_default (map date_of (somes values))"

definition max_date :: "int option list \<Rightarrow> int option" where
  "max_date values = max_default (map date_of (somes values))"

definition max_datetime :: "int option list \<Rightarrow> int option" where
  "max_datetime values = max_default (somes values)"

definition nulls_last :: "int option \<Rightarrow> nat \<times> int" where
  "nulls_last x = (case x of None \<Rightarrow> (1, 0) | Some t \<Rightarrow> (0, t))"

definition group_cursors :: "coverage_db \<Rightarrow> nat list \<Rightarrow> arxiv_cursor list" where
  "group_cursors db mapping_ids =
     sort_key (\<lambda>c. (cur_mapping_id c, nulls_last (cur_window_from c), cur_key c))
       (filter (\<lambda>c. cur_mapping_id c \<in> set mapping_ids) (cdb_cursors db))"

definition backfill_cursors :: "arxiv_cursor list \<Rightarrow> arxiv_cursor list" where
  "backfill_cursors cursors = filter (\<lambda>c. cur_mode c = ''backfill'') cursors"

definition unresolved_cursors :: "arxiv_cursor list \<Rightarrow> arxiv_cursor list" where
  "unresolved_cursors cursors = filter (\<lambda>c. cur_status c \<noteq> CursorSucceeded) cursors"

definition group_matches :: "coverage_db \<Rightarrow> nat \<Rightarrow> nat list \<Rightarrow> arxiv_match list" where
  "group_matches db topic mapping_ids =
     filter (\<lambda>m. amatch_topic_id m = topic \<and> amatch_mapping_id m \<in> set mapping_ids) (cdb_matches db)"

definition arxiv_status :: "arxiv_cursor list \<Rightarrow> int \<Rightarrow> coverage_status \<times> string list" where
  "arxiv_status backfill observation_count =
     (let unresolved = unresolved_cursors backfill; gaps = cursor_gaps backfill in
      if backfill = [] then
        (Unknown, [''No persisted historical backfill window defines the target coverage.''])
      else if unresolved \<noteq> [] \<or> gaps \<noteq> [] then
        (PartialCoverage,
         (if unresolved \<noteq> [] then
            [show_nat (length unresolved) @ '' historical cursor window(s) unresolved: '' @
             join '', '' (sorted_set (map (cursor_status_value \<circ> cur_status) unresolved)) @ ''.'']
          else []) @
         (if gaps \<noteq> [] then
            [show_nat (length gaps) @ '' gap(s) exist between persisted target windows.'']
          else []))
      else if observation_count = 0 then (Empty, [])
      else (Complete, []))"

definition mapping_detail :: "arxiv_cursor list \<Rightarrow> mapping_row \<Rightarrow> bool \<times> json" where
  "mapping_detail backfill m =
     (let mapping_cursors = filter (\<lambda>c. cur_mapping_id c = mapping_id m) backfill;
          mapping_unresolved = unresolved_cursors mapping_cursors;
          mapping_partial = (mapping_unresolved \<noteq> [])
      in (mapping_partial,
          JObj [(''mapping_id'', JStr (show_nat (mapping_id m))),
                (''window_count'', JInt (int (length mapping_cursors))),
                (''unresolved_window_count'', JInt (int (length mapping_unresolved))),
                (''status'', JStr (if mapping_partial then ''partial'' else ''complete''))]))"

definition text_or_none :: "string \<Rightarrow> string option" where
  "text_or_none s = (if s = [] then None else Some s)"

definition derive_arxiv :: "coverage_db \<Rightarrow> mapping_row list \<Rightarrow> coverage_projection" where
  "derive_arxiv db mappings =
     (let mapping_ids = map mapping_id mappings;
          topic = mapping_topic_id (hd mappings);
          cursors = group_cursors db mapping_ids;
          backfill = backfill_cursors cursors;
          successful = filter (\<lambda>c. cur_status c = CursorSucceeded \<and> cursor_window c \<noteq> None) backfill;
          unresolved = unresolved_cursors backfill;
          gaps = cursor_gaps backfill;
          matches = group_matches db topic mapping_ids;
          observation_count = int (length (remdups (map amatch_paper_id matches)));
          status = arxiv_status backfill observation_count;
          details = map (mapping_detail backfill) mappings
      in \<lparr>cov_topic_id = topic,
          cov_source_id = mapping_source_id (hd mappings),
          cov_status = fst status,
          cov_strategy = HistoricalBackfill,
          cov_start = min_date (map cur_window_from successful),
          cov_end = max_date (map cur_window_until successful),
          cov_target_start = min_date (map cur_window_from backfill),
          cov_target_end = max_date (map cur_window_until backfill),
          cov_first_observed_at = min_default (map amatch_first_at matches),
          cov_last_observed_at = max_default (map amatch_last_at matches),
          cov_last_successful_run_at = max_datetime (map cur_last_successful_run_at cursors),
          cov_observation_count = observation_count,
          cov_expected_count = None,
          cov_missing_count = int (length unresolved) + int (length gaps),
          cov_partial_reason = text_or_none (join '' '' (snd status)),
          cov_metadata =
            [(''observation_unit'', JStr ''papers''),
             (''completeness_basis'', JStr ''persisted_backfill_cursor_windows''),
             (''backfill_window_count'', JInt (int (length backfill))),
             (''successful_window_count'', JInt (int (length successful))),
             (''partial_mapping_count'', JInt (sum_list (map (bool_int \<circ> fst) details))),
             (''mapping_details'', JList (map snd details)),
             (''window_gaps'', JList (map gap_payload gaps))]\<rparr>)"

definition tracked_repositories :: "coverage_db \<Rightarrow> nat \<Rightarrow> nat list \<Rightarrow> nat list" where
  "tracked_repositories db topic mapping_ids =
     remdups (map gmatch_repository_id
       (filter (\<lambda>m. gmatch_topic_id m = topic \<and> gmatch_mapping_id m \<in> set mapping_ids \<and>
                 gmatch_tracking m = Tracked) (cdb_gmatches db)))"

definition github_status ::
  "int list \<Rightarrow> github_discovery_state list \<Rightarrow> nat list \<Rightarrow> coverage_status \<times> string option" where
  "github_status observation_dates discovery_states tracked_ids =
     (if observation_dates \<noteq> [] then (ForwardOnly, None)
      else if discovery_states \<noteq> [] \<and> list_all (\<lambda>s. disc_status s = OpSucceeded) discovery_states \<and>
              tracked_ids = [] then (Empty, None)
      else (Unknown, Some
        (if tracked_ids \<noteq> [] then ''Tracked repositories have not produced a persisted Snapshot.''
         else ''No successful GitHub observation is available for this Topic.'')))"

definition discovery_detail :: "github_discovery_state list \<Rightarrow> mapping_row \<Rightarrow> json" where
  "discovery_detail discovery_states m =
     JObj [(''mapping_id'', JStr (show_nat (mapping_id m))),
           (''status'', JStr (case find (\<lambda>s. disc_mapping_id s = mapping_id m) discovery_states of
              None \<Rightarrow> ''not_initialized''
            | Some s \<Rightarrow> operation_status_value (disc_status s)))]"

text \<open>When no repository is tracked the snapshot queries are not sent; their results are empty.\<close>

definition derive_github :: "coverage_db \<Rightarrow> mapping_row list \<Rightarrow> coverage_projection" where
  "derive_github db mappings =
     (let mapping_ids = map mapping_id mappings;
          topic = mapping_topic_id (hd mappings);
          tracked_ids = tracked_repositories db topic mapping_ids;
          snapshots = filter (\<lambda>s. snap_repository_id s \<in> set tracked_ids) (cdb_snapshots db);
          observation_dates = sorted_set (map snap_date snapshots);
          polled = max_default (somes (map poll_last_successful_at
            (filter (\<lambda>p. poll_repository_id p \<in> set tracked_ids) (cdb_polls db))));
          discovery_states = filter (\<lambda>s. disc_mapping_id s \<in> set mapping_ids) (cdb_discoveries db);
          last_successful = or_else polled (max_datetime (map disc_last_successful_at discovery_states));
          missing_dates = missing_between observation_dates;
          status = github_status observation_dates discovery_states tracked_ids
      in \<lparr>cov_topic_id = topic,
          cov_source_id = mapping_source_id (hd mappings),
          cov_status = fst status,
          cov_strategy = ForwardSnapshot,
          cov_start = (if observation_dates \<noteq> [] then Some (hd observation_dates) else None),
          cov_end = (if observation_dates \<noteq> [] then Some (last observation_dates) else None),
          cov_target_start = None,
          cov_target_end = None,
          cov_first_observed_at = min_default (map snap_observed_at snapshots),
          cov_last_observed_at = max_default (map snap_observed_at snapshots),
          cov_last_successful_run_at = last_successful,
          cov_observation_count = int (length observation_dates),
          cov_expected_count =
            (if observation_dates \<noteq> [] then Some (last observation_dates - hd observation_dates + 1) else None),
          cov_missing_count = int (length missing_dates),
          cov_partial_reason = snd status,
          cov_metadata =
            [(''observation_unit'', JStr ''utc_snapshot_dates''),
             (''historical_backfill'', JStr ''unavailable_by_design''),
             (''tracked_repository_count'', JInt (int (length tracked_ids))),
             (''missing_dates'', JList (map JDate missing_dates)),
             (''partial_mapping_count'', JInt 0),
             (''mapping_details'', JList (map (discovery_detail discovery_states) mappings))]\<rparr>)"


section \<open>Rebuilding the table\<close>

definition coverage_version :: string where
  "coverage_version = ''coverage-v1''"

definition supported_sources :: "string list" where
  "supported_sources = [''arxiv'', ''github'']"

definition topic_of :: "coverage_db \<Rightarrow> mapping_row \<Rightarrow> topic_row option" where
  "topic_of db m = find (\<lambda>t. topic_id t = mapping_topic_id m) (cdb_topics db)"

definition source_of :: "coverage_db \<Rightarrow> mapping_row \<Rightarrow> source_row option" where
  "source_of db m = find (\<lambda>s. source_id s = mapping_source_id m) (cdb_sources db)"

text \<open>The joined and filtered mappings, each with its topic's slug and its source's name.\<close>

definition eligible_mapping :: "coverage_db \<Rightarrow> mapping_row \<Rightarrow> (string \<times> string \<times> mapping_row) option" where
  "eligible_mapping db m =
     (case (topic_of db m, source_of db m) of
        (Some t, Some s) \<Rightarrow>
          (if mapping_enabled m \<and> topic_status t = TopicActive \<and> source_name s \<in> set supported_sources
           then Some (topic_slug t, source_name s, m) else None)
      | _ \<Rightarrow> None)"

definition eligible_mappings :: "coverage_db \<Rightarrow> (string \<times> string \<times> mapping_row) list" where
  "eligible_mappings db =
     sort_key (\<lambda>(slug, name, m). (slug, name, mapping_id m))
       (somes (map (eligible_mapping db) (cdb_mappings db)))"

definition mapping_key :: "string \<times> string \<times> mapping_row \<Rightarrow> nat \<times> nat" where
  "mapping_key x = (mapping_topic_id (snd (snd x)), mapping_source_id (snd (snd x)))"

definition derive_group :: "coverage_db \<Rightarrow> (string \<times> string \<times> mapping_row) list \<Rightarrow> coverage_projection option" where
  "derive_group db grp =
     (let name = fst (snd (hd grp)); mappings = map (snd \<circ> snd) grp in
      if name = ''arxiv'' then Some (derive_arxiv db mappings)
      else if name = ''github'' then Some (derive_github db mappings)
      else None)"

definition projections :: "coverage_db \<Rightarrow> coverage_projection list" where
  "projections db = somes (map (derive_group db \<circ> snd) (group_by mapping_key (eligible_mappings db)))"

definition handled_source_ids :: "coverage_db \<Rightarrow> nat list" where
  "handled_source_ids db =
     map source_id (filter (\<lambda>s. source_name s \<in> set supported_sources) (cdb_sources db))"

definition projection_key :: "coverage_projection \<Rightarrow> nat \<times> nat" where
  "projection_key p = (cov_topic_id p, cov_source_id p)"

text \<open>\<open>_projection_changed\<close>: JSON metadata is compared up to the order of keys.\<close>

definition same_values :: "coverage_projection \<Rightarrow> coverage_projection \<Rightarrow> bool" where
  "same_values a b =
     (a\<lparr>cov_metadata := []\<rparr> = b\<lparr>cov_metadata := []\<rparr> \<and> jdict_eq (cov_metadata a) (cov_metadata b))"

definition projection_changed :: "coverage_row \<Rightarrow> coverage_projection \<Rightarrow> bool" where
  "projection_changed row p =
     (crow_derivation_version row \<noteq> coverage_version \<or> \<not> same_values (crow_values row) p)"

record rebuild_counts =
  n_created :: nat
  n_updated :: nat
  n_unchanged :: nat

definition rebuild_one ::
  "((nat \<times> nat) \<times> coverage_row) list \<Rightarrow> int \<Rightarrow> coverage_projection \<Rightarrow>
   coverage_row list \<times> rebuild_counts \<Rightarrow> coverage_row list \<times> rebuild_counts" where
  "rebuild_one existing now p st =
     (let rows = fst st; counts = snd st in
      case dict_get existing (projection_key p) of
        None \<Rightarrow>
          (rows @ [\<lparr>crow_id = fresh_id (map crow_id rows), crow_values = p, crow_derived_at = now,
                    crow_derivation_version = coverage_version\<rparr>],
           counts\<lparr>n_created := Suc (n_created counts)\<rparr>)
      | Some row \<Rightarrow>
          (if projection_changed row p then
             (map (\<lambda>r. if crow_id r = crow_id row
                       then r\<lparr>crow_values := p, crow_derived_at := now,
                              crow_derivation_version := coverage_version\<rparr> else r) rows,
              counts\<lparr>n_updated := Suc (n_updated counts)\<rparr>)
           else (rows, counts\<lparr>n_unchanged := Suc (n_unchanged counts)\<rparr>)))"

record rebuild_summary =
  sum_projections :: nat
  sum_counts :: rebuild_counts
  sum_deleted :: nat
  sum_derived_at :: int

definition rebuild :: "int \<Rightarrow> coverage_db \<Rightarrow> rebuild_summary \<times> coverage_db" where
  "rebuild now db =
     (let ps = projections db;
          handled = handled_source_ids db;
          existing = dict_by coverage_key
            (filter (\<lambda>r. cov_source_id (crow_values r) \<in> set handled) (cdb_coverage db));
          st = fold (rebuild_one existing now) ps
                 (cdb_coverage db, \<lparr>n_created = 0, n_updated = 0, n_unchanged = 0\<rparr>);
          dropped = map (crow_id \<circ> snd)
            (filter (\<lambda>(k, r). k \<notin> set (map projection_key ps)) existing)
      in (\<lparr>sum_projections = length ps, sum_counts = snd st, sum_deleted = length dropped,
           sum_derived_at = now\<rparr>,
          db\<lparr>cdb_coverage := filter (\<lambda>r. crow_id r \<notin> set dropped) (fst st)\<rparr>))"

section \<open>Reading the table\<close>

record freshness_settings =
  set_arxiv_fresh_hours :: int
  set_arxiv_very_stale_hours :: int
  set_github_fresh_hours :: int
  set_github_very_stale_hours :: int

definition default_freshness_settings :: freshness_settings where
  "default_freshness_settings =
     \<lparr>set_arxiv_fresh_hours = 36, set_arxiv_very_stale_hours = 72,
      set_github_fresh_hours = 36, set_github_very_stale_hours = 72\<rparr>"

definition validate_freshness_thresholds :: "freshness_settings \<Rightarrow> freshness_settings result" where
  "validate_freshness_thresholds s =
     (if set_arxiv_very_stale_hours s \<le> set_arxiv_fresh_hours s then
        Inl (ValueError ''arXiv very-stale threshold must exceed the fresh threshold'')
      else if set_github_very_stale_hours s \<le> set_github_fresh_hours s then
        Inl (ValueError ''GitHub very-stale threshold must exceed the fresh threshold'')
      else Inr s)"

definition coverage_thresholds :: "freshness_settings \<Rightarrow> string \<Rightarrow> int \<times> int" where
  "coverage_thresholds st source =
     (if source = ''arxiv'' then (set_arxiv_fresh_hours st, set_arxiv_very_stale_hours st)
      else if source = ''github'' then (set_github_fresh_hours st, set_github_very_stale_hours st)
      else (36, 72))"

record coverage_item =
  item_topic :: topic_row
  item_source :: string
  item_row :: coverage_row
  item_freshness :: freshness

definition coverage_item_of ::
  "freshness_settings \<Rightarrow> int \<Rightarrow> coverage_row \<times> topic_row \<times> source_row \<Rightarrow> coverage_item" where
  "coverage_item_of st now x =
     (case x of (row, topic, source) \<Rightarrow>
       (let th = coverage_thresholds st (source_name source); p = crow_values row in
        \<lparr>item_topic = topic, item_source = source_name source, item_row = row,
         item_freshness = freshness_state
           (or_else (cov_last_successful_run_at p) (cov_last_observed_at p)) now (fst th) (snd th)\<rparr>))"

definition joined_coverage :: "coverage_db \<Rightarrow> (coverage_row \<times> topic_row \<times> source_row) list" where
  "joined_coverage db = somes (map (\<lambda>r.
     (case (find (\<lambda>t. topic_id t = cov_topic_id (crow_values r)) (cdb_topics db),
            find (\<lambda>s. source_id s = cov_source_id (crow_values r)) (cdb_sources db)) of
        (Some t, Some s) \<Rightarrow> Some (r, t, s) | _ \<Rightarrow> None)) (cdb_coverage db))"

record coverage_page =
  page_items :: "coverage_item list"
  page_total :: nat
  page_limit :: nat
  page_offset :: nat

definition is_stale :: "coverage_item \<Rightarrow> bool" where
  "is_stale i = (item_freshness i \<in> {Stale, VeryStale})"

text \<open>An empty source or topic filter is no filter; \<open>stale\<close> may be None.\<close>

definition coverage_list ::
  "freshness_settings \<Rightarrow> int \<Rightarrow> string \<Rightarrow> coverage_status option \<Rightarrow> string \<Rightarrow> bool option \<Rightarrow> nat \<Rightarrow> nat \<Rightarrow>
   coverage_db \<Rightarrow> coverage_page" where
  "coverage_list st now source status topic stale limit offset db =
     (let rows = filter (\<lambda>(r, t, s).
            (source = [] \<or> source_name s = source) \<and>
            (case status of None \<Rightarrow> True | Some x \<Rightarrow> cov_status (crow_values r) = x) \<and>
            (topic = [] \<or> topic_slug t = topic)) (joined_coverage db);
          items = map (coverage_item_of st now)
            (sort_key (\<lambda>(r, t, s). (topic_canonical_name t, source_name s)) rows);
          kept = (case stale of None \<Rightarrow> items | Some b \<Rightarrow> filter (\<lambda>i. is_stale i = b) items)
      in \<lparr>page_items = take limit (drop offset kept), page_total = length kept,
          page_limit = limit, page_offset = offset\<rparr>)"

record coverage_channel =
  chan_channel :: string
  chan_label :: string
  chan_source :: string
  chan_state :: string
  chan_coverage :: "coverage_item option"

definition channel_sources :: "(string \<times> string \<times> string) list" where
  "channel_sources =
     [(''research'', ''arxiv'', ''Research''), (''developer'', ''github'', ''Developer''),
      (''community'', ''hacker_news'', ''Community''), (''public'', ''wikipedia'', ''Public'')]"

definition coverage_topic ::
  "freshness_settings \<Rightarrow> int \<Rightarrow> string \<Rightarrow> coverage_db \<Rightarrow> (topic_row \<times> coverage_channel list) option" where
  "coverage_topic st now slug db =
     (case find (\<lambda>t. topic_slug t = slug) (cdb_topics db) of
        None \<Rightarrow> None
      | Some t \<Rightarrow>
          (let by_source = dict_by item_source
                 (page_items (coverage_list st now [] None slug None 20 0 db))
           in Some (t, map (\<lambda>(channel, source, label).
                \<lparr>chan_channel = channel, chan_label = label, chan_source = source,
                 chan_state = (if dict_get by_source source \<noteq> None then ''collecting'' else ''not_started''),
                 chan_coverage = dict_get by_source source\<rparr>) channel_sources)))"

definition coverage_summary :: "coverage_db \<Rightarrow> (string, int) dict" where
  "coverage_summary db =
     map (\<lambda>s. (coverage_status_value s,
               int (length (filter (\<lambda>r. cov_status (crow_values r) = s) (cdb_coverage db)))))
       all_coverage_statuses"

section \<open>Missing dates and gaps are exactly what is absent\<close>

lemma set_missing_between:
  "d \<in> set (missing_between ds) \<longleftrightarrow> d \<notin> set ds \<and> (\<exists>a\<in>set ds. a < d) \<and> (\<exists>b\<in>set ds. d < b)"
proof -
  define o' where "o' = sorted_set ds"
  have s: "sorted o'" "set o' = set ds" by (simp_all add: o'_def)
  show ?thesis
  proof (cases "length o' < 2")
    case True
    then have "\<forall>a\<in>set ds. \<forall>b\<in>set ds. a = b"
      using s(2) by (cases o'; cases "tl o'") (auto simp flip: s(2))
    with True show ?thesis by (fastforce simp: missing_between_def simp flip: o'_def)
  next
    case False
    then have ne: "o' \<noteq> []" by auto
    have "d \<notin> set ds \<Longrightarrow> hd o' \<le> d \<and> d \<le> last o' \<longleftrightarrow> (\<exists>a\<in>set ds. a < d) \<and> (\<exists>b\<in>set ds. d < b)"
      using sorted_bounds [OF s(1)] hd_last_mem [OF ne] unfolding s(2) by (metis order.order_iff_strict order.strict_trans1 order.strict_trans2)
    with False show ?thesis by (auto simp: missing_between_def s(2) simp flip: o'_def)
  qed
qed

lemma sorted_missing_between: "sorted_wrt (<) (missing_between ds)"
proof -
  have "sorted_wrt (<) [a..b]" for a b :: int
  proof (induction a b rule: upto.induct)
    case (1 a b)
    then show ?case by (subst upto.simps) auto
  qed
  then show ?thesis by (simp add: missing_between_def Let_def sorted_wrt_filter)
qed

text \<open>Observed and missing dates together fill the range.\<close>

lemma missing_count:
  assumes "ds = sorted_set xs" "ds \<noteq> []"
  shows "last ds - hd ds + 1 = int (length ds) + int (length (missing_between ds))"
proof -
  have s: "sorted_set ds = ds" "sorted ds" "distinct ds"
    using assms(1) by (simp_all add: sorted_set_def sorted_sort_id)
  have le: "hd ds \<le> last ds" using sorted_bounds [OF s(2)] assms(2) by simp
  show ?thesis
  proof (cases "length ds < 2")
    case True
    then have "length ds = 1" using assms(2) by (cases ds; cases "tl ds") auto
    then show ?thesis by (auto simp: length_Suc_conv missing_between_def Let_def sorted_set_def)
  next
    case False
    have "set (filter (\<lambda>d. d \<in> set ds) [hd ds..last ds]) = set ds"
      using sorted_bounds [OF s(2)] by auto
    then have "length (filter (\<lambda>d. d \<in> set ds) [hd ds..last ds]) = length ds"
      using s(3) by (metis distinct_card distinct_filter distinct_upto)
    moreover have "length (filter (\<lambda>d. d \<in> set ds) [hd ds..last ds]) +
        length (filter (\<lambda>d. d \<notin> set ds) [hd ds..last ds]) = length [hd ds..last ds]"
      by (rule sum_length_filter_compl)
    ultimately show ?thesis using False le by (simp add: missing_between_def s(1) Let_def)
  qed
qed

lemma gap_loop_iff:
  "sorted (map fst ws) \<Longrightarrow>
   (\<exists>g\<in>set (gap_loop e ws). fst g \<le> t \<and> t < snd g) \<longleftrightarrow>
     e \<le> t \<and> (\<exists>w\<in>set ws. t < fst w) \<and> (\<forall>w\<in>set ws. fst w \<le> t \<longrightarrow> snd w \<le> t)"
proof (induction e ws rule: gap_loop.induct)
  case (2 e f u ws)
  have s: "sorted (map fst ws)" "\<forall>w\<in>set ws. f \<le> fst w" using "2.prems" by auto
  have IH: "(\<exists>g\<in>set (gap_loop (max e u) ws). fst g \<le> t \<and> t < snd g) \<longleftrightarrow>
      max e u \<le> t \<and> (\<exists>w\<in>set ws. t < fst w) \<and> (\<forall>w\<in>set ws. fst w \<le> t \<longrightarrow> snd w \<le> t)"
    using "2.IH" s(1) by (cases "e < f") auto
  show ?case
  proof (cases "f \<le> t")
    case True
    then show ?thesis using IH by auto
  next
    case False
    then have "\<forall>w\<in>set ws. \<not> fst w \<le> t" using s(2) by fastforce
    then show ?thesis using IH False by auto
  qed
qed simp

abbreviation windows_of :: "arxiv_cursor list \<Rightarrow> (int \<times> int) list" where
  "windows_of cursors \<equiv> somes (map cursor_window cursors)"

lemma cursor_gaps_uncovered:
  "(\<exists>g\<in>set (cursor_gaps cs). fst g \<le> t \<and> t < snd g) \<Longrightarrow>
     (\<exists>w\<in>set (windows_of cs). snd w \<le> t) \<and> (\<exists>w\<in>set (windows_of cs). t < fst w) \<and>
     (\<forall>w\<in>set (windows_of cs). fst w \<le> t \<longrightarrow> snd w \<le> t)"
proof -
  assume g: "\<exists>g\<in>set (cursor_gaps cs). fst g \<le> t \<and> t < snd g"
  define ws where "ws = sort_key fst (windows_of cs)"
  have set: "set ws = set (windows_of cs)" and srt: "sorted (map fst ws)" by (simp_all add: ws_def)
  obtain a e us where ws: "ws = (a, e) # us"
    using g by (cases ws) (auto simp: cursor_gaps_def simp flip: ws_def)
  have "\<exists>g\<in>set (gap_loop e us). fst g \<le> t \<and> t < snd g"
    using g by (simp add: cursor_gaps_def ws flip: ws_def)
  then have r: "e \<le> t \<and> (\<exists>w\<in>set us. t < fst w) \<and> (\<forall>w\<in>set us. fst w \<le> t \<longrightarrow> snd w \<le> t)"
    using gap_loop_iff [of us e t] srt ws by simp
  show ?thesis unfolding set [symmetric] ws using r by auto
qed

lemma uncovered_cursor_gaps:
  assumes "\<exists>w\<in>set (windows_of cs). fst w \<le> t" "\<exists>w\<in>set (windows_of cs). t < fst w"
    "\<forall>w\<in>set (windows_of cs). \<not> (fst w \<le> t \<and> t < snd w)"
  shows "\<exists>g\<in>set (cursor_gaps cs). fst g \<le> t \<and> t < snd g"
proof -
  define ws where "ws = sort_key fst (windows_of cs)"
  have set: "set ws = set (windows_of cs)" and srt: "sorted (map fst ws)" by (simp_all add: ws_def)
  obtain a e us where ws: "ws = (a, e) # us"
    using assms(1) set by (cases ws) auto
  have a: "\<forall>w\<in>set ws. a \<le> fst w" using srt ws by auto
  obtain w where "w \<in> set ws" "fst w \<le> t" using assms(1) unfolding set [symmetric] by blast
  with a have "a \<le> t" by force
  then have "e \<le> t" using assms(3) unfolding set [symmetric] ws by auto
  moreover have "(\<exists>w\<in>set us. t < fst w)" using assms(2) \<open>a \<le> t\<close> unfolding set [symmetric] ws by auto
  ultimately have "\<exists>g\<in>set (gap_loop e us). fst g \<le> t \<and> t < snd g"
    using gap_loop_iff [of us e t] srt ws assms(3) unfolding set [symmetric] by auto
  then show ?thesis by (simp add: cursor_gaps_def ws flip: ws_def)
qed

section \<open>A rebuild is exact and idempotent\<close>

text \<open>Projections have distinct keys, each of a supported source.\<close>

lemma derive_group_key:
  assumes "derive_group db grp = Some p" "grp \<noteq> []"
  shows "projection_key p = mapping_key (hd grp)"
proof -
  have hd: "hd (map (snd \<circ> snd) grp) = snd (snd (hd grp))" using assms(2) by (simp add: hd_map)
  show ?thesis
    using assms(1) hd
    by (auto simp: derive_group_def Let_def derive_arxiv_def derive_github_def projection_key_def
        mapping_key_def split: if_splits)
qed

lemma distinct_keys_somes:
  assumes "\<And>k g p. (k, g) \<in> set gs \<Longrightarrow> f g = Some p \<Longrightarrow> key p = k" "distinct (map fst gs)"
  shows "distinct (map key (somes (map (f \<circ> snd) gs))) \<and> key ` set (somes (map (f \<circ> snd) gs)) \<subseteq> fst ` set gs"
  using assms
proof (induction gs)
  case (Cons g gs)
  have "distinct (map key (somes (map (f \<circ> snd) gs))) \<and> key ` set (somes (map (f \<circ> snd) gs)) \<subseteq> fst ` set gs"
    using Cons.prems by (intro Cons.IH) auto
  note IH = this [THEN conjunct1] this [THEN conjunct2]
  show ?case
  proof (cases "f (snd g)")
    case None
    then have eq: "somes (map (f \<circ> snd) (g # gs)) = somes (map (f \<circ> snd) gs)" by simp
    show ?thesis unfolding eq by (intro conjI IH(1) subset_trans [OF IH(2)]) (simp add: subset_insertI)
  next
    case (Some p)
    then have eq: "somes (map (f \<circ> snd) (g # gs)) = p # somes (map (f \<circ> snd) gs)" by simp
    from Some have k: "key p = fst g" using Cons.prems(1) [of "fst g" "snd g" p] by simp
    have "fst g \<notin> fst ` set gs" using Cons.prems(2) by simp
    then have n: "fst g \<notin> key ` set (somes (map (f \<circ> snd) gs))" using IH(2) by blast
    have d: "map key (somes (map (f \<circ> snd) (g # gs))) = fst g # map key (somes (map (f \<circ> snd) gs))"
      by (subst eq) (simp add: k)
    have st: "key ` set (somes (map (f \<circ> snd) (g # gs))) = insert (fst g) (key ` set (somes (map (f \<circ> snd) gs)))"
      by (subst eq) (simp add: k)
    show ?thesis unfolding d st using n IH by (simp only: distinct.simps set_map list.set(2) image_insert) blast
  qed
qed simp

lemma group_by_nonempty:
  assumes "(k, g) \<in> set (group_by key xs)"
  shows "g \<noteq> [] \<and> (\<forall>x\<in>set g. x \<in> set xs \<and> key x = k)"
proof -
  have g: "g = filter (\<lambda>x. key x = k) xs" by (rule group_by_entry [OF assms])
  have "k \<in> key ` set xs" using assms keys_group_by [of key xs] by force
  then show ?thesis unfolding g by (auto simp: filter_empty_conv)
qed

lemma distinct_projections: "distinct (map projection_key (projections db))"
proof -
  have "projection_key p = k"
    if "(k, g) \<in> set (group_by mapping_key (eligible_mappings db))" "derive_group db g = Some p" for k g p
    using derive_group_key [OF that(2)] group_by_nonempty [OF that(1)] hd_in_set by metis
  then show ?thesis
    unfolding projections_def by (intro distinct_keys_somes [THEN conjunct1] distinct_group_by)
qed

lemma projection_handled:
  assumes "p \<in> set (projections db)"
  shows "cov_source_id p \<in> set (handled_source_ids db)"
proof -
  obtain k g where g: "(k, g) \<in> set (group_by mapping_key (eligible_mappings db))" "derive_group db g = Some p"
    using assms by (auto simp: projections_def image_iff)
  note ne = group_by_nonempty [OF g(1)]
  have "hd g \<in> set (eligible_mappings db)" using ne by simp
  then obtain m where m: "m \<in> set (cdb_mappings db)" "eligible_mapping db m = Some (hd g)"
    by (auto simp: eligible_mappings_def image_iff)
  then obtain t s where s: "source_of db m = Some s" "source_name s \<in> set supported_sources"
    "(topic_slug t, source_name s, m) = hd g" "topic_of db m = Some t"
    by (auto simp: eligible_mapping_def split: option.splits if_splits)
  have m': "snd (snd (hd g)) = m" unfolding s(3) [symmetric] by simp
  have "source_id s = mapping_source_id m" "s \<in> set (cdb_sources db)"
    using s(1) by (auto simp: source_of_def find_Some_iff)
  moreover have "cov_source_id p = mapping_source_id m"
    using derive_group_key [OF g(2)] ne m' by (simp add: projection_key_def mapping_key_def)
  ultimately have "cov_source_id p = source_id s" "s \<in> set (filter (\<lambda>s. source_name s \<in> set supported_sources) (cdb_sources db))"
    using s(2) by simp_all
  then show ?thesis unfolding handled_source_ids_def set_map by (rule image_eqI)
qed

definition coverage_inv :: "coverage_row list \<Rightarrow> bool" where
  "coverage_inv rows = (distinct (map crow_id rows) \<and> coverage_unique rows)"

abbreviation up_to_date :: "coverage_row \<Rightarrow> coverage_projection \<Rightarrow> bool" where
  "up_to_date r p \<equiv> \<not> projection_changed r p"

lemma up_to_date_key: "up_to_date r p \<Longrightarrow> coverage_key r = projection_key p"
proof -
  assume "up_to_date r p"
  then have eq: "(crow_values r)\<lparr>cov_metadata := []\<rparr> = p\<lparr>cov_metadata := []\<rparr>"
    by (simp add: projection_changed_def same_values_def)
  have "cov_topic_id (crow_values r) = cov_topic_id p" "cov_source_id (crow_values r) = cov_source_id p"
    using arg_cong [OF eq, of cov_topic_id] arg_cong [OF eq, of cov_source_id] by simp_all
  then show ?thesis by (simp add: coverage_key_def projection_key_def)
qed

lemma up_to_date_fresh: "up_to_date (r\<lparr>crow_values := p, crow_derived_at := t, crow_derivation_version := coverage_version\<rparr>) p"
  by (simp add: projection_changed_def same_values_def)

text \<open>What the lookup of \<open>existing\<close> says about the rows, before a projection is handled.\<close>

definition found_ok :: "((nat \<times> nat) \<times> coverage_row) list \<Rightarrow> coverage_row list \<Rightarrow> coverage_projection \<Rightarrow> bool" where
  "found_ok existing rows p =
     (case dict_get existing (projection_key p) of
        None \<Rightarrow> projection_key p \<notin> coverage_key ` set rows
      | Some row \<Rightarrow> row \<in> set rows \<and> coverage_key row = projection_key p)"

text \<open>The rows after some projections were handled.\<close>

definition rebuilt :: "coverage_projection list \<Rightarrow> coverage_row list \<Rightarrow> coverage_row list \<Rightarrow> bool" where
  "rebuilt ps rows rows' =
     (coverage_inv rows' \<and> (\<forall>p\<in>set ps. \<exists>r\<in>set rows'. up_to_date r p) \<and>
      (\<forall>r\<in>set rows'. r \<in> set rows \<and> coverage_key r \<notin> projection_key ` set ps \<or> (\<exists>p\<in>set ps. up_to_date r p)) \<and>
      (\<forall>r\<in>set rows. coverage_key r \<notin> projection_key ` set ps \<longrightarrow> r \<in> set rows'))"

lemma rebuilt_single:
  "rebuilt [p] rows rows' \<longleftrightarrow> coverage_inv rows' \<and> (\<exists>r\<in>set rows'. up_to_date r p) \<and>
     (\<forall>r\<in>set rows'. r \<in> set rows \<and> coverage_key r \<noteq> projection_key p \<or> up_to_date r p) \<and>
     (\<forall>r\<in>set rows. coverage_key r \<noteq> projection_key p \<longrightarrow> r \<in> set rows')"
  by (simp add: rebuilt_def)

lemma rebuild_one_rows:
  assumes inv: "coverage_inv rows" and ok: "found_ok existing rows p"
  shows "rebuilt [p] rows (fst (rebuild_one existing now p (rows, c)))"
proof (cases "dict_get existing (projection_key p)")
  case None
  let ?new = "\<lparr>crow_id = fresh_id (map crow_id rows), crow_values = p, crow_derived_at = now,
      crow_derivation_version = coverage_version\<rparr>"
  have n: "projection_key p \<notin> coverage_key ` set rows" using None ok by (simp add: found_ok_def)
  have k: "coverage_key ?new = projection_key p" by (simp add: coverage_key_def projection_key_def)
  have u: "up_to_date ?new p" by (simp add: projection_changed_def same_values_def)
  have "coverage_inv (rows @ [?new])"
    using inv n k fresh_id_notin [of "map crow_id rows"] by (simp add: coverage_inv_def coverage_unique_def)
  moreover have "coverage_key r \<noteq> projection_key p" if "r \<in> set rows" for r
    using n that by (metis image_eqI)
  ultimately show ?thesis using None u by (auto simp: rebuilt_def rebuild_one_def)
next
  case (Some row)
  with ok have row: "row \<in> set rows" "coverage_key row = projection_key p" by (simp_all add: found_ok_def)
  have same: "r = row" if "r \<in> set rows" "coverage_key r = projection_key p \<or> crow_id r = crow_id row" for r
    using that inv row distinct_map_inj [of crow_id rows r row] distinct_map_inj [of coverage_key rows r row]
    by (auto simp: coverage_inv_def coverage_unique_def)
  show ?thesis
  proof (cases "projection_changed row p")
    case False
    then show ?thesis using Some row inv same by (auto simp: rebuilt_def rebuild_one_def)
  next
    case True
    let ?upd = "\<lambda>r. if crow_id r = crow_id row
        then r\<lparr>crow_values := p, crow_derived_at := now, crow_derivation_version := coverage_version\<rparr> else r"
    have id: "crow_id (?upd r) = crow_id r" for r by simp
    have key: "coverage_key (?upd r) = coverage_key r" if "r \<in> set rows" for r
      using same [OF that] row(2) by (auto simp: coverage_key_def projection_key_def)
    have "map crow_id (map ?upd rows) = map crow_id rows" by simp
    moreover have "map coverage_key (map ?upd rows) = map coverage_key rows" using key by simp
    ultimately have 1: "coverage_inv (map ?upd rows)" using inv unfolding coverage_inv_def coverage_unique_def by metis
    have 2: "?upd row \<in> set (map ?upd rows)" "up_to_date (?upd row) p"
      using row(1) up_to_date_fresh by auto
    have 3: "r \<in> set (map ?upd rows) \<Longrightarrow> r \<in> set rows \<and> coverage_key r \<noteq> projection_key p \<or> up_to_date r p" for r
      using same up_to_date_fresh by (auto split: if_splits)
    have 4: "r \<in> set (map ?upd rows)" if "r \<in> set rows" "coverage_key r \<noteq> projection_key p" for r
    proof -
      have "crow_id r \<noteq> crow_id row" using same [of r] that row(2) by blast
      then have e: "r = ?upd r" by simp
      show ?thesis unfolding set_map using e that(1) by (rule image_eqI [where f = ?upd])
    qed
    have eq: "fst (rebuild_one existing now p (rows, c)) = map ?upd rows"
      using Some True by (simp add: rebuild_one_def)
    show ?thesis unfolding rebuilt_single eq
    proof (intro conjI ballI impI)
      show "coverage_inv (map ?upd rows)" by (rule 1)
      show "\<exists>r\<in>set (map ?upd rows). up_to_date r p" using 2(2,1) by (rule bexI [where P = "\<lambda>r. up_to_date r p"])
    qed (rule 3 4; assumption)+
  qed
qed

lemma found_ok_step:
  assumes "rebuilt [p] rows rows1" "found_ok existing rows q" "projection_key q \<noteq> projection_key p"
  shows "found_ok existing rows1 q"
proof (cases "dict_get existing (projection_key q)")
  case None
  then have n: "projection_key q \<notin> coverage_key ` set rows" using assms(2) by (simp add: found_ok_def)
  have "coverage_key r \<noteq> projection_key q" if "r \<in> set rows1" for r
    using assms(1,3) that n up_to_date_key [of r p] unfolding rebuilt_single by (metis image_eqI)
  then have "projection_key q \<notin> coverage_key ` set rows1" by (metis imageE)
  with None show ?thesis by (simp add: found_ok_def)
next
  case (Some row)
  with assms show ?thesis by (simp add: found_ok_def rebuilt_single)
qed

lemma rebuilt_trans:
  assumes "rebuilt [p] rows rows1" "rebuilt ps rows1 rows2" "projection_key p \<notin> projection_key ` set ps"
  shows "rebuilt (p # ps) rows rows2"
proof -
  have mem: "\<exists>r\<in>set rows2. up_to_date r p"
  proof -
    obtain r where r: "r \<in> set rows1" "up_to_date r p" using assms(1) unfolding rebuilt_single by blast
    then have "coverage_key r \<notin> projection_key ` set ps" using up_to_date_key assms(3) by metis
    with r assms(2) show ?thesis unfolding rebuilt_def by blast
  qed
  have old: "r \<in> set rows \<and> coverage_key r \<notin> projection_key ` set (p # ps) \<or> (\<exists>q\<in>set (p # ps). up_to_date r q)"
    if "r \<in> set rows2" for r
    using that assms(1,2) unfolding rebuilt_single rebuilt_def [of ps] by auto
  have kept: "r \<in> set rows2" if "r \<in> set rows" "coverage_key r \<notin> projection_key ` set (p # ps)" for r
    using that assms(1,2) unfolding rebuilt_single rebuilt_def [of ps] by simp
  show ?thesis using mem old kept assms(2) unfolding rebuilt_def by (simp only: list.set) blast
qed

definition counted :: "rebuild_counts \<Rightarrow> nat" where
  "counted c = n_created c + n_updated c + n_unchanged c"

lemma rebuild_fold:
  assumes "coverage_inv rows" "\<forall>p\<in>set ps. found_ok existing rows p" "distinct (map projection_key ps)"
    "fold (rebuild_one existing now) ps (rows, c) = (rows', c')"
  shows "rebuilt ps rows rows' \<and> counted c' = counted c + length ps"
  using assms
proof (induction ps arbitrary: rows c)
  case Nil
  then show ?case by (simp add: rebuilt_def)
next
  case (Cons p ps)
  obtain rows1 c1 where s: "rebuild_one existing now p (rows, c) = (rows1, c1)"
    by (cases "rebuild_one existing now p (rows, c)")
  have ok: "found_ok existing rows p" using Cons.prems by simp
  have r1: "rebuilt [p] rows rows1" using rebuild_one_rows [OF Cons.prems(1) ok] s by (metis fst_conv)
  have c1: "counted c1 = Suc (counted c)"
    using s by (auto simp: rebuild_one_def counted_def split: option.splits if_splits)
  have ok1: "\<forall>q\<in>set ps. found_ok existing rows1 q"
    using Cons.prems(2,3) by (auto intro!: found_ok_step [OF r1] simp: image_iff)
  have "rebuilt ps rows1 rows' \<and> counted c' = counted c1 + length ps"
    using Cons.prems s r1 by (intro Cons.IH ok1) (simp_all add: rebuilt_def)
  with rebuilt_trans [OF r1, of ps rows'] Cons.prems(3) c1 show ?case by simp
qed

lemma rebuild_fold_unchanged:
  assumes "\<forall>p\<in>set ps. \<exists>r. dict_get existing (projection_key p) = Some r \<and> up_to_date r p"
  shows "fold (rebuild_one existing now) ps (rows, c) = (rows, c\<lparr>n_unchanged := n_unchanged c + length ps\<rparr>)"
  using assms
proof (induction ps arbitrary: c)
  case (Cons p ps)
  obtain r where r: "dict_get existing (projection_key p) = Some r" "up_to_date r p"
    using Cons.prems by auto
  then have "rebuild_one existing now p (rows, c) = (rows, c\<lparr>n_unchanged := Suc (n_unchanged c)\<rparr>)"
    by (simp add: rebuild_one_def)
  with Cons show ?case by simp
qed simp

abbreviation handled_rows :: "coverage_db \<Rightarrow> coverage_row list \<Rightarrow> coverage_row list" where
  "handled_rows db rows \<equiv> filter (\<lambda>r. cov_source_id (crow_values r) \<in> set (handled_source_ids db)) rows"

lemma projections_update [simp]: "projections (db\<lparr>cdb_coverage := rows\<rparr>) = projections db"
proof -
  have e: "eligible_mapping (db\<lparr>cdb_coverage := rows\<rparr>) = eligible_mapping db"
    by (simp add: fun_eq_iff eligible_mapping_def topic_of_def source_of_def)
  have "derive_arxiv (db\<lparr>cdb_coverage := rows\<rparr>) = derive_arxiv db"
    by (simp add: fun_eq_iff derive_arxiv_def group_cursors_def group_matches_def)
  moreover have "derive_github (db\<lparr>cdb_coverage := rows\<rparr>) = derive_github db"
    by (simp add: fun_eq_iff derive_github_def tracked_repositories_def)
  ultimately have "derive_group (db\<lparr>cdb_coverage := rows\<rparr>) = derive_group db"
    by (simp add: fun_eq_iff derive_group_def Let_def)
  then show ?thesis by (simp add: projections_def eligible_mappings_def e)
qed

lemma handled_update [simp]: "handled_source_ids (db\<lparr>cdb_coverage := rows\<rparr>) = handled_source_ids db"
  by (simp add: handled_source_ids_def)

lemma distinct_dict_by: "distinct (dict_keys (dict_by key xs))"
proof -
  have "distinct (dict_keys d) \<Longrightarrow> distinct (dict_keys (foldl (\<lambda>d x. dict_set (key x) x d) d xs))" for d
    by (induction xs arbitrary: d) (auto simp: distinct_update)
  then show ?thesis by (simp add: dict_by_def)
qed

lemma dict_by_entry:
  assumes "distinct (map key xs)"
  shows "(k, x) \<in> set (dict_by key xs) \<longleftrightarrow> x \<in> set xs \<and> key x = k"
proof
  assume "(k, x) \<in> set (dict_by key xs)"
  then show "x \<in> set xs \<and> key x = k" using distinct_dict_by dict_by_get_SomeD by (metis map_of_is_SomeI)
next
  assume "x \<in> set xs \<and> key x = k"
  then have "dict_get (dict_by key xs) k = Some x" using dict_by_get_mem [OF assms] by auto
  then show "(k, x) \<in> set (dict_by key xs)" by (rule map_of_SomeD)
qed

text \<open>What the deletion loop keeps.\<close>

lemma kept_rows:
  assumes inv: "coverage_inv rows" "coverage_inv rows'"
    and sub: "\<forall>r\<in>set rows. coverage_key r \<notin> ks \<longrightarrow> r \<in> set rows'"
  shows "set (filter (\<lambda>r. crow_id r \<notin> set (map (crow_id \<circ> snd)
           (filter (\<lambda>(k, r). k \<notin> ks) (dict_by coverage_key (handled_rows db rows))))) rows') =
     {r \<in> set rows'. \<not> (r \<in> set (handled_rows db rows) \<and> coverage_key r \<notin> ks)}"
proof -
  have d: "distinct (map coverage_key (handled_rows db rows))"
    using inv(1) by (simp add: coverage_inv_def coverage_unique_def distinct_map_filter)
  have "crow_id r \<in> set (map (crow_id \<circ> snd) (filter (\<lambda>(k, r). k \<notin> ks) (dict_by coverage_key (handled_rows db rows))))
      \<longleftrightarrow> r \<in> set (handled_rows db rows) \<and> coverage_key r \<notin> ks" (is "?L \<longleftrightarrow> ?R") if r: "r \<in> set rows'" for r
  proof
    assume ?L
    then obtain k q where q: "(k, q) \<in> set (dict_by coverage_key (handled_rows db rows))" "k \<notin> ks" "crow_id q = crow_id r"
      by auto
    then have q': "q \<in> set (handled_rows db rows)" "coverage_key q = k" using dict_by_entry [OF d] by blast+
    then have "q \<in> set rows'" using sub q(2) by auto
    then have "q = r" using inv(2) r q(3) distinct_map_inj [of crow_id rows' q r] by (simp add: coverage_inv_def)
    with q' q(2) show ?R by simp
  next
    assume ?R
    then have "(coverage_key r, r) \<in> set (filter (\<lambda>(k, r). k \<notin> ks) (dict_by coverage_key (handled_rows db rows)))"
      using dict_by_entry [OF d] by simp
    then show ?L unfolding set_map by (rule rev_image_eqI) simp
  qed
  then show ?thesis by (simp only: set_filter) blast
qed

text \<open>What the table holds after a rebuild.\<close>

definition coverage_exact :: "coverage_db \<Rightarrow> coverage_row list \<Rightarrow> bool" where
  "coverage_exact db rows =
     (coverage_inv rows \<and> (\<forall>p\<in>set (projections db). \<exists>r\<in>set rows. up_to_date r p) \<and>
      (\<forall>r\<in>set (handled_rows db rows). \<exists>p\<in>set (projections db). up_to_date r p))"

lemma handled_mem:
  "r \<in> set (handled_rows db rows) \<longleftrightarrow> r \<in> set rows \<and> snd (coverage_key r) \<in> set (handled_source_ids db)"
  by (simp add: coverage_key_def)

lemma found_ok_existing:
  assumes "coverage_inv rows" "p \<in> set (projections db)"
  shows "found_ok (dict_by coverage_key (handled_rows db rows)) rows p"
proof (cases "dict_get (dict_by coverage_key (handled_rows db rows)) (projection_key p)")
  case None
  have "coverage_key r \<noteq> projection_key p" if "r \<in> set rows" for r
  proof
    assume k: "coverage_key r = projection_key p"
    then have "r \<in> set (handled_rows db rows)"
      using that projection_handled [OF assms(2)] unfolding handled_mem by (simp add: projection_key_def)
    with None k show False unfolding dict_by_get_None by (metis image_eqI)
  qed
  then have "projection_key p \<notin> coverage_key ` set rows" by (metis imageE)
  with None show ?thesis by (simp add: found_ok_def)
next
  case (Some row)
  then have "row \<in> set (handled_rows db rows) \<and> coverage_key row = projection_key p"
    by (rule dict_by_get_SomeD)
  with Some show ?thesis by (simp add: found_ok_def)
qed

lemma rebuild_result:
  assumes inv: "coverage_inv (cdb_coverage db)" and run: "rebuild now db = (sm, db')"
  shows "coverage_exact db (cdb_coverage db')"
    and "db' = db\<lparr>cdb_coverage := cdb_coverage db'\<rparr>"
    and "\<And>r. snd (coverage_key r) \<notin> set (handled_source_ids db) \<Longrightarrow>
           r \<in> set (cdb_coverage db') \<longleftrightarrow> r \<in> set (cdb_coverage db)"
    and "sum_projections sm = length (projections db)" "counted (sum_counts sm) = length (projections db)"
proof -
  let ?rows = "cdb_coverage db" and ?ps = "projections db"
  let ?c = "\<lparr>n_created = 0, n_updated = 0, n_unchanged = 0\<rparr>"
  let ?ex = "dict_by coverage_key (handled_rows db ?rows)"
  let ?ks = "set (map projection_key ?ps)"
  obtain rows1 c1 where f: "fold (rebuild_one ?ex now) ?ps (?rows, ?c) = (rows1, c1)"
    by (cases "fold (rebuild_one ?ex now) ?ps (?rows, ?c)")
  have ok: "\<forall>p\<in>set ?ps. found_ok ?ex ?rows p" using found_ok_existing [OF inv] by blast
  have "rebuilt ?ps ?rows rows1 \<and> counted c1 = counted ?c + length ?ps"
    by (rule rebuild_fold [OF inv ok distinct_projections f])
  then have r: "rebuilt ?ps ?rows rows1" and c: "counted c1 = length ?ps" by (simp_all add: counted_def)
  have sub: "\<forall>r\<in>set ?rows. coverage_key r \<notin> ?ks \<longrightarrow> r \<in> set rows1" using r by (simp add: rebuilt_def)
  have inv1: "coverage_inv rows1" using r by (simp add: rebuilt_def)
  define rows2 where "rows2 = filter (\<lambda>r. crow_id r \<notin> set (map (crow_id \<circ> snd)
      (filter (\<lambda>(k, r). k \<notin> ?ks) ?ex))) rows1"
  have set2: "set rows2 = {r \<in> set rows1. \<not> (r \<in> set (handled_rows db ?rows) \<and> coverage_key r \<notin> ?ks)}"
    unfolding rows2_def by (rule kept_rows [OF inv inv1 sub])
  have db': "db' = db\<lparr>cdb_coverage := rows2\<rparr>"
    and sm: "sum_projections sm = length ?ps" "sum_counts sm = c1"
    using run unfolding rebuild_def Let_def f by (auto simp: rows2_def)
  have inv2: "coverage_inv rows2"
    using inv1 by (simp add: rows2_def coverage_inv_def coverage_unique_def distinct_map_filter)
  have key: "snd (projection_key p) \<in> set (handled_source_ids db)" if "p \<in> set ?ps" for p
    using projection_handled [OF that] by (simp add: projection_key_def)
  have a: "\<exists>r\<in>set rows2. up_to_date r p" if p: "p \<in> set ?ps" for p
  proof -
    obtain r where r': "r \<in> set rows1" "up_to_date r p" using r p by (auto simp: rebuilt_def)
    then have "coverage_key r \<in> ?ks" using up_to_date_key p by (metis image_eqI set_map)
    with r' set2 show ?thesis by blast
  qed
  have b: "\<exists>p\<in>set ?ps. up_to_date r p" if q: "r \<in> set (handled_rows db rows2)" for r
  proof -
    have "r \<in> set rows1" "r \<in> set (handled_rows db ?rows) \<longrightarrow> coverage_key r \<in> ?ks"
      using q set2 by auto
    then show ?thesis using r q unfolding rebuilt_def handled_mem by auto
  qed
  show "coverage_exact db (cdb_coverage db')"
    unfolding coverage_exact_def using inv2 a b by (simp add: db' del: set_filter)
  show "db' = db\<lparr>cdb_coverage := cdb_coverage db'\<rparr>" by (simp add: db')
  show "sum_projections sm = length ?ps" "counted (sum_counts sm) = length ?ps" using sm c by simp_all
  show "r \<in> set (cdb_coverage db') \<longleftrightarrow> r \<in> set ?rows"
    if u: "snd (coverage_key r) \<notin> set (handled_source_ids db)" for r
  proof -
    have n: "coverage_key r \<notin> ?ks" using u key by auto
    have "\<not> up_to_date r p" if "p \<in> set ?ps" for p
      using n that up_to_date_key by (metis image_eqI set_map)
    then have "r \<in> set rows1 \<longleftrightarrow> r \<in> set ?rows" using r sub n unfolding rebuilt_def by blast
    moreover have "r \<notin> set (handled_rows db ?rows)" using u unfolding handled_mem by simp
    ultimately show ?thesis using set2 by (simp add: db' del: set_filter)
  qed
qed

lemma rebuild_of_exact:
  assumes ex: "coverage_exact db (cdb_coverage db)"
  shows "rebuild now db =
     (\<lparr>sum_projections = length (projections db),
       sum_counts = \<lparr>n_created = 0, n_updated = 0, n_unchanged = length (projections db)\<rparr>,
       sum_deleted = 0, sum_derived_at = now\<rparr>, db)"
proof -
  let ?rows = "cdb_coverage db" and ?ps = "projections db"
  let ?ex = "dict_by coverage_key (handled_rows db ?rows)"
  have d: "distinct (map coverage_key (handled_rows db ?rows))"
    using ex by (simp add: coverage_exact_def coverage_inv_def coverage_unique_def distinct_map_filter)
  have found: "\<exists>r. dict_get ?ex (projection_key p) = Some r \<and> up_to_date r p" if p: "p \<in> set ?ps" for p
  proof -
    obtain r where r: "r \<in> set ?rows" "up_to_date r p" using ex p by (auto simp: coverage_exact_def)
    note k = up_to_date_key [OF r(2)]
    have "r \<in> set (handled_rows db ?rows)"
      using r(1) k projection_handled [OF p] unfolding handled_mem by (simp add: projection_key_def)
    from dict_by_get_mem [OF d this] k r(2) show ?thesis by auto
  qed
  have "k \<in> set (map projection_key ?ps)" if "(k, r) \<in> set ?ex" for k r
  proof -
    have r: "r \<in> set (handled_rows db ?rows)" "coverage_key r = k" using that dict_by_entry [OF d] by blast+
    then obtain p where "p \<in> set ?ps" "up_to_date r p" using ex unfolding coverage_exact_def by blast
    with r(2) up_to_date_key show ?thesis by (metis image_eqI set_map)
  qed
  then have "filter (\<lambda>(k, r). k \<notin> set (map projection_key ?ps)) ?ex = []"
    by (auto simp: filter_empty_conv)
  then show ?thesis
    unfolding rebuild_def Let_def using rebuild_fold_unchanged [of ?ps ?ex now] found by simp
qed


section \<open>What the states of a projection mean\<close>

lemma windows_of_mem:
  "w \<in> set (windows_of cs) \<longleftrightarrow> (\<exists>c\<in>set cs. cur_window_from c = Some (fst w) \<and> cur_window_until c = Some (snd w))"
  by (cases w) (auto simp: cursor_window_def image_iff split: option.splits; force)

lemma covered_without_gaps:
  assumes "cursor_gaps cs = []" "\<exists>w\<in>set (windows_of cs). fst w \<le> t" "\<exists>w\<in>set (windows_of cs). t < snd w"
  shows "\<exists>w\<in>set (windows_of cs). fst w \<le> t \<and> t < snd w"
proof (rule ccontr)
  assume n: "\<not> ?thesis"
  obtain w where w: "w \<in> set (windows_of cs)" "t < snd w" using assms(3) by blast
  with n have "t < fst w" by (metis not_le)
  with w(1) have "\<exists>w\<in>set (windows_of cs). t < fst w" by blast
  from uncovered_cursor_gaps [OF assms(2) this] n assms(1) show False by auto
qed

lemma derive_arxiv_complete:
  fixes ms :: "mapping_row list"
  assumes "cov_status (derive_arxiv db ms) = Complete"
  shows "(\<forall>c\<in>set (backfill_cursors (group_cursors db (map mapping_id ms))). cur_status c = CursorSucceeded) \<and>
     cursor_gaps (backfill_cursors (group_cursors db (map mapping_id ms))) = [] \<and>
     backfill_cursors (group_cursors db (map mapping_id ms)) \<noteq> [] \<and>
     cov_observation_count (derive_arxiv db ms) > 0 \<and> cov_missing_count (derive_arxiv db ms) = 0"
proof -
  let ?b = "backfill_cursors (group_cursors db (map mapping_id ms))"
  have s: "fst (arxiv_status ?b (cov_observation_count (derive_arxiv db ms))) = Complete"
    using assms by (simp add: derive_arxiv_def Let_def)
  then have "unresolved_cursors ?b = []" "cursor_gaps ?b = []" "?b \<noteq> []"
    "cov_observation_count (derive_arxiv db ms) \<noteq> 0"
    by (auto simp: arxiv_status_def Let_def split: if_splits)
  moreover have "0 \<le> cov_observation_count (derive_arxiv db ms)" by (simp add: derive_arxiv_def Let_def)
  moreover have "cov_missing_count (derive_arxiv db ms) =
      int (length (unresolved_cursors ?b)) + int (length (cursor_gaps ?b))"
    by (simp add: derive_arxiv_def Let_def)
  ultimately show ?thesis by (auto simp: unresolved_cursors_def filter_empty_conv)
qed

section \<open>Properties\<close>

text \<open>A small database for the witnesses: one topic, both sources, two adjacent backfill windows.\<close>

definition demo_mapping :: "nat \<Rightarrow> nat \<Rightarrow> mapping_row" where
  "demo_mapping n s = \<lparr>mapping_id = n, mapping_topic_id = 1, mapping_source_id = s, mapping_enabled = True,
     mapping_type = ''query'', mapping_external_identifier = None, mapping_query = Some ''all:x'',
     mapping_configuration = []\<rparr>"

definition demo_cursor :: "nat \<Rightarrow> int \<Rightarrow> int \<Rightarrow> cursor_status \<Rightarrow> arxiv_cursor" where
  "demo_cursor n a b st = \<lparr>cur_id = n, cur_topic_id = 1, cur_mapping_id = 1, cur_key = show_nat n,
     cur_mode = ''backfill'', cur_last_successful_run_at = Some 7, cur_last_query_from = None,
     cur_last_query_until = None, cur_last_observed_updated_at = None, cur_window_from = Some a,
     cur_window_until = Some b, cur_next_start = 0, cur_checkpoint = [], cur_status = st,
     cur_last_error = None, cur_updated_at = 7\<rparr>"

definition demo_db :: coverage_db where
  "demo_db = \<lparr>
     cdb_sources = [\<lparr>source_id = 1, source_name = ''arxiv'', source_kind = ''k'', source_base_url = None,
        source_is_active = True, source_metadata = []\<rparr>],
     cdb_topics = [\<lparr>topic_id = 1, topic_canonical_name = ''X'', topic_normalized_name = ''x'',
        topic_slug = ''x'', topic_description = None, topic_category_id = None, topic_status = TopicActive,
        topic_monitoring_priority = 50, topic_deprecated_at = None, topic_registry_version = None,
        topic_metadata = []\<rparr>],
     cdb_mappings = [demo_mapping 1 1],
     cdb_cursors = [demo_cursor 1 0 10 CursorSucceeded, demo_cursor 2 10 20 CursorSucceeded],
     cdb_matches = [\<lparr>amatch_id = 1, amatch_paper_id = 1, amatch_topic_id = 1, amatch_mapping_id = 1,
        amatch_query = ''all:x'', amatch_method = ArxivApiQuery, amatch_first_at = 3, amatch_last_at = 4,
        amatch_first_run_id = 1, amatch_last_run_id = 1, amatch_metadata = []\<rparr>],
     cdb_gmatches = [], cdb_snapshots = [], cdb_polls = [], cdb_discoveries = [], cdb_coverage = []\<rparr>"

text \<open>
  C7: \<open>CoverageDeriver.rebuild\<close> is exact and idempotent.  From any table with unique rows, afterwards
  every projection of the persisted facts has an up-to-date row, every row of a supported source is
  the up-to-date row of a projection, rows of other sources are untouched, and rebuilding again at any
  later time reports every projection unchanged and leaves the database as it is.
\<close>

theorem rebuild_exact_and_idempotent:
  assumes "coverage_inv (cdb_coverage db)" "rebuild now db = (summary, db')"
  shows "coverage_exact db (cdb_coverage db') \<and>
     {r \<in> set (cdb_coverage db'). snd (coverage_key r) \<notin> set (handled_source_ids db)} =
       {r \<in> set (cdb_coverage db). snd (coverage_key r) \<notin> set (handled_source_ids db)} \<and>
     counted (sum_counts summary) = sum_projections summary \<and>
     rebuild later db' = (\<lparr>sum_projections = length (projections db),
       sum_counts = \<lparr>n_created = 0, n_updated = 0, n_unchanged = length (projections db)\<rparr>,
       sum_deleted = 0, sum_derived_at = later\<rparr>, db')"
proof -
  note r = rebuild_result [OF assms]
  have p: "projections db' = projections db" "handled_source_ids db' = handled_source_ids db"
    by (subst r(2), simp)+
  have "coverage_exact db' (cdb_coverage db')" using r(1) unfolding coverage_exact_def p .
  from rebuild_of_exact [OF this, of later] r(1,3-5) show ?thesis unfolding p by auto
qed

theorem rebuild_exact_and_idempotent_witness:
  "let db' = snd (rebuild 100 demo_db) in
     coverage_exact demo_db (cdb_coverage db') \<and>
     {r \<in> set (cdb_coverage db'). snd (coverage_key r) \<notin> set (handled_source_ids demo_db)} =
       {r \<in> set (cdb_coverage demo_db). snd (coverage_key r) \<notin> set (handled_source_ids demo_db)} \<and>
     counted (sum_counts (fst (rebuild 100 demo_db))) = sum_projections (fst (rebuild 100 demo_db)) \<and>
     rebuild 200 db' = (\<lparr>sum_projections = length (projections demo_db),
       sum_counts = \<lparr>n_created = 0, n_updated = 0, n_unchanged = length (projections demo_db)\<rparr>,
       sum_deleted = 0, sum_derived_at = 200\<rparr>, db')"
  unfolding Let_def
  by (rule rebuild_exact_and_idempotent [OF _ prod.collapse [symmetric]])
     (simp add: demo_db_def coverage_inv_def coverage_unique_def)

text \<open>
  C9: an arXiv projection says \<open>complete\<close> only if there are backfill windows, every one of them
  succeeded, something was observed, nothing is counted missing, and every instant from the start of
  any window to the end of any window lies inside a succeeded window.
\<close>

theorem arxiv_complete_means_covered:
  assumes "cov_status (derive_arxiv db ms) = Complete"
    "b = backfill_cursors (group_cursors db (map mapping_id ms))"
    "c1 \<in> set b" "c2 \<in> set b" "cursor_window c1 = Some (from1, until1)" "cursor_window c2 = Some (from2, until2)"
    "from1 \<le> t" "t < until2"
  shows "cov_observation_count (derive_arxiv db ms) > 0 \<and> cov_missing_count (derive_arxiv db ms) = 0 \<and>
     (\<exists>c\<in>set b. \<exists>a u. cursor_window c = Some (a, u) \<and> a \<le> t \<and> t < u \<and> cur_status c = CursorSucceeded)"
proof -
  note c = derive_arxiv_complete [OF assms(1), folded assms(2)]
  have w: "(from1, until1) \<in> set (windows_of b)" "(from2, until2) \<in> set (windows_of b)"
    using assms(3-6) by (auto simp: image_iff) metis+
  have "\<exists>w\<in>set (windows_of b). fst w \<le> t \<and> t < snd w"
    using c by (intro covered_without_gaps bexI [OF _ w(1)] bexI [OF _ w(2)]) (use assms(7,8) in simp_all)
  then obtain x where "x \<in> set b" "cursor_window x \<noteq> None" "fst (the (cursor_window x)) \<le> t" "t < snd (the (cursor_window x))"
    by (auto simp: image_iff) (metis fst_conv option.discI option.sel snd_conv)
  with c show ?thesis by force
qed

theorem arxiv_complete_means_covered_witness:
  "cov_observation_count (derive_arxiv demo_db [demo_mapping 1 1]) > 0 \<and>
   cov_missing_count (derive_arxiv demo_db [demo_mapping 1 1]) = 0 \<and>
   (\<exists>c\<in>set [demo_cursor 1 0 10 CursorSucceeded, demo_cursor 2 10 20 CursorSucceeded].
      \<exists>a u. cursor_window c = Some (a, u) \<and> a \<le> 10 \<and> 10 < u \<and> cur_status c = CursorSucceeded)"
  by (rule arxiv_complete_means_covered
        [where ?c1.0 = "demo_cursor 1 0 10 CursorSucceeded" and ?c2.0 = "demo_cursor 2 10 20 CursorSucceeded"])
     code_simp+

text \<open>
  the gaps that \<open>_cursor_gaps\<close> reports are exact: among windows that do not end before they
  start, an instant lies in a reported gap exactly when some window starts at or before it, some
  window starts after it, and no window contains it.
\<close>

theorem cursor_gaps_exact:
  assumes "list_all (\<lambda>c. case cursor_window c of None \<Rightarrow> True | Some (a, u) \<Rightarrow> a \<le> u) cursors"
  shows "(\<exists>g\<in>set (cursor_gaps cursors). fst g \<le> t \<and> t < snd g) \<longleftrightarrow>
     (\<exists>w\<in>set (windows_of cursors). fst w \<le> t) \<and> (\<exists>w\<in>set (windows_of cursors). t < fst w) \<and>
     \<not> (\<exists>w\<in>set (windows_of cursors). fst w \<le> t \<and> t < snd w)"
proof -
  have wf: "fst w \<le> snd w" if "w \<in> set (windows_of cursors)" for w
    using that assms by (fastforce simp: list_all_iff split: option.splits)
  show ?thesis
    using cursor_gaps_uncovered [of cursors t] uncovered_cursor_gaps [of cursors t] wf by (meson not_le order_trans)
qed

theorem cursor_gaps_exact_witness:
  "let cs = [demo_cursor 1 0 10 CursorSucceeded, demo_cursor 2 15 20 CursorFailed] in
   (\<exists>g\<in>set (cursor_gaps cs). fst g \<le> 12 \<and> 12 < snd g) \<longleftrightarrow>
     (\<exists>w\<in>set (windows_of cs). fst w \<le> 12) \<and> (\<exists>w\<in>set (windows_of cs). 12 < fst w) \<and>
     \<not> (\<exists>w\<in>set (windows_of cs). fst w \<le> 12 \<and> 12 < snd w)"
  unfolding Let_def by (rule cursor_gaps_exact) (simp add: demo_cursor_def cursor_window_def)

text \<open>
  \<open>MissingObservationDetector.between\<close> lists, in ascending order and once each, exactly the dates
  without observation that lie between two observed dates.
\<close>

theorem missing_dates_exact:
  "(d \<in> set (missing_between dates) \<longleftrightarrow>
      d \<notin> set dates \<and> (\<exists>a\<in>set dates. a < d) \<and> (\<exists>b\<in>set dates. d < b)) \<and>
   sorted_wrt (<) (missing_between dates)"
  using set_missing_between sorted_missing_between by blast

text \<open>
  A GitHub projection's counts add up: without an observed date nothing is expected or missing;
  otherwise the expected number of days from the first to the last observed date is the number of
  observed dates plus the number of missing ones.
\<close>

theorem github_counts_add_up:
  "case cov_expected_count (derive_github db ms) of
     None \<Rightarrow> cov_observation_count (derive_github db ms) = 0 \<and> cov_missing_count (derive_github db ms) = 0
   | Some n \<Rightarrow> n = cov_observation_count (derive_github db ms) + cov_missing_count (derive_github db ms) \<and>
       cov_observation_count (derive_github db ms) > 0 \<and> cov_status (derive_github db ms) = ForwardOnly"
proof -
  define dates where "dates = sorted_set (map snap_date (filter (\<lambda>s. snap_repository_id s \<in>
      set (tracked_repositories db (mapping_topic_id (hd ms)) (map mapping_id ms))) (cdb_snapshots db)))"
  have c: "cov_expected_count (derive_github db ms) = (if dates \<noteq> [] then Some (last dates - hd dates + 1) else None)"
    "cov_observation_count (derive_github db ms) = int (length dates)"
    "cov_missing_count (derive_github db ms) = int (length (missing_between dates))"
    "dates \<noteq> [] \<Longrightarrow> cov_status (derive_github db ms) = ForwardOnly"
    by (simp_all add: derive_github_def Let_def github_status_def del: sorted_set_Nil_iff flip: dates_def)
  have "missing_between [] = []" by (simp add: missing_between_def sorted_set_def)
  with c missing_count [OF dates_def] show ?thesis by auto
qed

end
