(* ===== verification/Health.thy ===== *)
theory Health
  imports Coverage Punctuality
begin

text \<open>
  \<open>observatory_operations/health.py\<close> with \<open>TopicQueryService.registry_status\<close>: the operational state
  of each collector, the data-quality counters, the overall state and its explanation, all computed
  from the tables.  The protection status of backups, one entry of the overview, is left out.  The
  lemmas say what the report's \<open>healthy\<close> stands for, down to the rows of the scheduler ledger and of
  the coverage table.
\<close>


section \<open>States\<close>

datatype collector_state = NotConfigured | NotInitialized | Healthy | Degraded | CollectorFailed | Paused

fun collector_state_value :: "collector_state \<Rightarrow> string" where
  "collector_state_value NotConfigured = ''not_configured''"
| "collector_state_value NotInitialized = ''not_initialized''"
| "collector_state_value Healthy = ''healthy''"
| "collector_state_value Degraded = ''degraded''"
| "collector_state_value CollectorFailed = ''failed''"
| "collector_state_value Paused = ''paused''"

datatype overall_state = OverallHealthy | OverallDegraded | OverallFailed | NotStarted

fun overall_state_value :: "overall_state \<Rightarrow> string" where
  "overall_state_value OverallHealthy = ''healthy''"
| "overall_state_value OverallDegraded = ''degraded''"
| "overall_state_value OverallFailed = ''failed''"
| "overall_state_value NotStarted = ''not_started''"

record operations_db =
  odb_coverage :: coverage_db
  odb_runs :: "ingestion_run list"
  odb_errors :: "ingestion_error_row list"
  odb_papers :: "arxiv_paper list"
  odb_arxiv_raw :: "arxiv_raw_response list"
  odb_repositories :: "github_repository list"
  odb_github_raw :: "github_raw_response list"
  odb_executions :: "scheduler_execution list"
  odb_versions :: "registry_version_row list"
  odb_aliases :: "alias_row list"

record health_settings =
  hs_freshness :: freshness_settings
  hs_github_token :: "string option"
  hs_arxiv_schedule :: string

definition source_presentation :: "(string \<times> string \<times> string \<times> string) list" where
  "source_presentation =
     [(''arxiv'', ''research'', ''Research'', ''arXiv''),
      (''github'', ''developer'', ''Developer'', ''GitHub''),
      (''hacker_news'', ''community'', ''Community'', ''Hacker News''),
      (''wikipedia'', ''public'', ''Public'', ''Wikipedia'')]"


section \<open>One source\<close>

definition count_distinct :: "'a list \<Rightarrow> int" where
  "count_distinct xs = int (length (remdups xs))"

definition source_and_mapping_count :: "operations_db \<Rightarrow> string \<Rightarrow> source_row option \<times> int" where
  "source_and_mapping_count db name =
     (let c = odb_coverage db in
      (find (\<lambda>s. source_name s = name) (cdb_sources c),
       int (length (filter (\<lambda>m. mapping_enabled m \<and>
          (case source_of c m of None \<Rightarrow> False | Some s \<Rightarrow> source_name s = name) \<and>
          (case topic_of c m of None \<Rightarrow> False | Some t \<Rightarrow> topic_status t = TopicActive)) (cdb_mappings c)))))"

text \<open>A descending order puts NULL first in PostgreSQL.\<close>

definition latest_runs :: "operations_db \<Rightarrow> source_row option \<Rightarrow> ingestion_run option \<times> ingestion_run option" where
  "latest_runs db source =
     (case source of
        None \<Rightarrow> (None, None)
      | Some s \<Rightarrow>
          (latest_by run_started_at (filter (\<lambda>r. run_source_id r = source_id s) (odb_runs db)),
           latest_by (\<lambda>r. nulls_last (run_finished_at r))
             (filter (\<lambda>r. run_source_id r = source_id s \<and> run_status r = RunSucceeded) (odb_runs db))))"

definition collector_state_of ::
  "source_row option \<Rightarrow> int \<Rightarrow> ingestion_run option \<Rightarrow> freshness \<Rightarrow> bool \<Rightarrow> collector_state" where
  "collector_state_of source active_mappings latest fresh configured =
     (case source of
        None \<Rightarrow> NotConfigured
      | Some s \<Rightarrow>
          (if \<not> configured \<or> active_mappings = 0 then NotConfigured
           else if \<not> source_is_active s then Paused
           else (case latest of
                   None \<Rightarrow> NotInitialized
                 | Some r \<Rightarrow>
                     (if run_status r = RunFailed then CollectorFailed
                      else if run_status r = RunPartial then Degraded
                      else if fresh \<in> {Stale, VeryStale} then Degraded
                      else Healthy))))"

record source_health =
  sh_source :: string
  sh_channel :: string
  sh_label :: string
  sh_display_name :: string
  sh_implemented :: bool
  sh_enabled :: bool
  sh_state :: collector_state
  sh_last_run_at :: "int option"
  sh_last_successful_run_at :: "int option"
  sh_latest_run_status :: "ingestion_status option"
  sh_active_mappings :: int
  sh_failed_mappings :: int
  sh_partial_mappings :: int
  sh_stale_mappings :: int
  sh_errors_last_run :: int
  sh_raw_responses_last_run :: int
  sh_freshness :: freshness
  sh_details :: jdict

definition presented :: "string \<Rightarrow> string \<times> string \<times> string" where
  "presented name = (case map_of source_presentation name of None \<Rightarrow> ([], [], []) | Some p \<Rightarrow> p)"

definition enabled_source :: "source_row option \<Rightarrow> int \<Rightarrow> bool" where
  "enabled_source source active_mappings =
     (case source of None \<Rightarrow> False | Some s \<Rightarrow> source_is_active s \<and> active_mappings \<noteq> 0)"

definition raw_count :: "nat list \<Rightarrow> ingestion_run option \<Rightarrow> int" where
  "raw_count run_ids latest =
     (case latest of None \<Rightarrow> 0 | Some r \<Rightarrow> int (length (filter (\<lambda>i. i = run_id r) run_ids)))"

definition health_of_source ::
  "string \<Rightarrow> source_row option \<Rightarrow> int \<Rightarrow> ingestion_run option \<times> ingestion_run option \<Rightarrow>
   freshness \<Rightarrow> bool \<Rightarrow> int \<times> int \<times> int \<Rightarrow> nat list \<Rightarrow> jdict \<Rightarrow> source_health" where
  "health_of_source name source active_mappings runs fresh configured mappings raw_run_ids details =
     (case (presented name, mappings) of ((channel, label, display), (failed, partial, stale)) \<Rightarrow>
       \<lparr>sh_source = name, sh_channel = channel, sh_label = label, sh_display_name = display,
        sh_implemented = True,
        sh_enabled = enabled_source source active_mappings,
        sh_state = collector_state_of source active_mappings (fst runs) fresh configured,
        sh_last_run_at = map_option run_started_at (fst runs),
        sh_last_successful_run_at = Option.bind (snd runs) run_finished_at,
        sh_latest_run_status = map_option run_status (fst runs),
        sh_active_mappings = active_mappings,
        sh_failed_mappings = failed, sh_partial_mappings = partial, sh_stale_mappings = stale,
        sh_errors_last_run = (case fst runs of None \<Rightarrow> 0 | Some r \<Rightarrow> run_error_count r),
        sh_raw_responses_last_run = raw_count raw_run_ids (fst runs),
        sh_freshness = fresh, sh_details = details\<rparr>)"

definition cursor_mappings_with :: "operations_db \<Rightarrow> (arxiv_cursor \<Rightarrow> bool) \<Rightarrow> int" where
  "cursor_mappings_with db P = count_distinct (map cur_mapping_id (filter P (cdb_cursors (odb_coverage db))))"

definition older_than :: "int \<Rightarrow> int option \<Rightarrow> bool" where
  "older_than limit x = (case x of None \<Rightarrow> False | Some t \<Rightarrow> t < limit)"

definition arxiv_health :: "health_settings \<Rightarrow> int \<Rightarrow> operations_db \<Rightarrow> source_health" where
  "arxiv_health st now db =
     (let sm = source_and_mapping_count db ''arxiv'';
          runs = latest_runs db (fst sm);
          fresh_hours = set_arxiv_fresh_hours (hs_freshness st);
          very_stale_hours = set_arxiv_very_stale_hours (hs_freshness st);
          stale_before = now - fresh_hours * hour_us;
          fresh = freshness_state (Option.bind (snd runs) run_finished_at) now fresh_hours very_stale_hours
      in health_of_source ''arxiv'' (fst sm) (snd sm) runs fresh True
           (cursor_mappings_with db (\<lambda>c. cur_status c = CursorFailed),
            cursor_mappings_with db (\<lambda>c. cur_status c = CursorPartial),
            cursor_mappings_with db (\<lambda>c. cur_mode c = ''incremental'' \<and>
              older_than stale_before (cur_last_successful_run_at c)))
           (map araw_run_id (odb_arxiv_raw db))
           [(''papers_observed'', JInt (int (length (odb_papers db)))),
            (''freshness_threshold_hours'', JInt fresh_hours),
            (''very_stale_threshold_hours'', JInt very_stale_hours)])"

definition discovery_count :: "operations_db \<Rightarrow> operation_status \<Rightarrow> int" where
  "discovery_count db s =
     int (length (filter (\<lambda>d. disc_status d = s) (cdb_discoveries (odb_coverage db))))"

definition github_health :: "health_settings \<Rightarrow> int \<Rightarrow> operations_db \<Rightarrow> source_health" where
  "github_health st now db =
     (let sm = source_and_mapping_count db ''github'';
          runs = latest_runs db (fst sm);
          c = odb_coverage db;
          fresh_hours = set_github_fresh_hours (hs_freshness st);
          very_stale_hours = set_github_very_stale_hours (hs_freshness st);
          latest_snapshot_at = max_default (map snap_observed_at (cdb_snapshots c));
          fresh = freshness_state latest_snapshot_at now fresh_hours very_stale_hours
      in health_of_source ''github'' (fst sm) (snd sm) runs fresh (hs_github_token st \<noteq> None)
           (discovery_count db OpFailed, discovery_count db OpPartial, 0)
           (map graw_run_id (odb_github_raw db))
           [(''auth_configured'', JBool (hs_github_token st \<noteq> None)),
            (''tracked_repositories'', JInt (count_distinct
               (map gmatch_repository_id (filter (\<lambda>m. gmatch_tracking m = Tracked) (cdb_gmatches c))))),
            (''repositories_known'', JInt (int (length (odb_repositories db)))),
            (''snapshot_dates'', JInt (count_distinct (map snap_date (cdb_snapshots c)))),
            (''latest_snapshot'', jopt (\<lambda>t. JDate (date_of t)) latest_snapshot_at),
            (''freshness_threshold_hours'', JInt fresh_hours),
            (''very_stale_threshold_hours'', JInt very_stale_hours)])"

definition not_started :: "string \<Rightarrow> operations_db \<Rightarrow> source_health" where
  "not_started name db =
     (let sm = source_and_mapping_count db name in
      case presented name of (channel, label, display) \<Rightarrow>
        \<lparr>sh_source = name, sh_channel = channel, sh_label = label, sh_display_name = display,
         sh_implemented = False, sh_enabled = enabled_source (fst sm) (snd sm),
         sh_state = NotInitialized, sh_last_run_at = None, sh_last_successful_run_at = None,
         sh_latest_run_status = None, sh_active_mappings = snd sm, sh_failed_mappings = 0,
         sh_partial_mappings = 0, sh_stale_mappings = 0, sh_errors_last_run = 0,
         sh_raw_responses_last_run = 0, sh_freshness = FreshnessUnknown,
         sh_details = [(''collection_state'', JStr ''not_started'')]\<rparr>)"

definition source_health_of :: "health_settings \<Rightarrow> int \<Rightarrow> operations_db \<Rightarrow> string \<Rightarrow> source_health result" where
  "source_health_of st now db name =
     (if map_of source_presentation name = None then
        Inl (ValueError (''unsupported operations source: '' @ name))
      else if name = ''arxiv'' then Inr (arxiv_health st now db)
      else if name = ''github'' then Inr (github_health st now db)
      else Inr (not_started name db))"

section \<open>Registry and data quality\<close>

text \<open>\<open>int(value)\<close> of a JSON value.\<close>

definition json_int :: "json \<Rightarrow> int result" where
  "json_int j = (case j of
     JInt n \<Rightarrow> Inr n
   | JBool b \<Rightarrow> Inr (bool_int b)
   | JFloat m \<Rightarrow> Inr (if m \<ge> 0 then m div 1000000 else - ((- m) div 1000000))
   | JStr s \<Rightarrow> (case py_int (strip s) of
        None \<Rightarrow> Inl (ValueError ''invalid literal for int() with base 10'') | Some n \<Rightarrow> Inr n)
   | JTime _ \<Rightarrow> Inl (ValueError ''invalid literal for int() with base 10'')
   | JDate _ \<Rightarrow> Inl (ValueError ''invalid literal for int() with base 10'')
   | _ \<Rightarrow> Inl (TypeError ''int() argument must be a string or a real number''))"

definition metadata_int :: "jdict \<Rightarrow> string \<Rightarrow> int result" where
  "metadata_int d key = (case dict_get d key of None \<Rightarrow> Inr 0 | Some j \<Rightarrow> json_int j)"

record registry_summary =
  reg_version :: int
  reg_checksum :: string
  reg_last_synced_at :: int
  reg_topic_count :: int
  reg_active_topics :: int
  reg_alias_count :: int
  reg_mapping_count :: int
  reg_warnings :: int

definition registry_status :: "operations_db \<Rightarrow> registry_summary option result" where
  "registry_status db =
     (case latest_by version_number (odb_versions db) of
        None \<Rightarrow> Inr None
      | Some v \<Rightarrow>
          result_bind (metadata_int (version_metadata v) ''warning_count'') (\<lambda>warnings.
            Inr (Some \<lparr>reg_version = version_number v, reg_checksum = version_checksum v,
              reg_last_synced_at = version_created_at v,
              reg_topic_count = int (length (cdb_topics (odb_coverage db))),
              reg_active_topics =
                int (length (filter (\<lambda>t. topic_status t = TopicActive) (cdb_topics (odb_coverage db)))),
              reg_alias_count = int (length (odb_aliases db)),
              reg_mapping_count = int (length (cdb_mappings (odb_coverage db))),
              reg_warnings = warnings\<rparr>)))"

record data_quality =
  dq_errors :: int
  dq_partial_mappings :: int
  dq_stale_cursors :: int
  dq_missing_dates :: int
  dq_registry_warnings :: int
  dq_missed :: int
  dq_interrupted :: int
  dq_partial :: int
  dq_failed :: int
  dq_late :: int

definition since_row :: "int \<Rightarrow> execution_status \<Rightarrow> scheduler_execution \<Rightarrow> bool" where
  "since_row since status r =
     ((case ex_finished_at r of None \<Rightarrow> False | Some t \<Rightarrow> t \<ge> since) \<and> ex_status r = status)"

definition scheduler_count :: "operations_db \<Rightarrow> int \<Rightarrow> execution_status \<Rightarrow> int" where
  "scheduler_count db since status = int (length (filter (since_row since status) (odb_executions db)))"

definition started_since :: "int \<Rightarrow> scheduler_execution \<Rightarrow> bool" where
  "started_since since r = (case ex_started_at r of None \<Rightarrow> False | Some t \<Rightarrow> t \<ge> since)"

definition stale_cursor :: "int \<Rightarrow> arxiv_cursor \<Rightarrow> bool" where
  "stale_cursor stale_before c =
     (cur_mode c = ''incremental'' \<and>
      (cur_status c \<in> {CursorPartial, CursorFailed} \<or> older_than stale_before (cur_last_successful_run_at c)))"

definition data_quality_of :: "health_settings \<Rightarrow> int \<Rightarrow> operations_db \<Rightarrow> data_quality result" where
  "data_quality_of st now db =
     (let since = now - 24 * hour_us;
          coverage_rows = cdb_coverage (odb_coverage db);
          stale_before = now - set_arxiv_fresh_hours (hs_freshness st) * hour_us
      in result_bind (result_map (\<lambda>r. metadata_int (cov_metadata (crow_values r)) ''partial_mapping_count'')
                        coverage_rows) (\<lambda>partials.
         result_bind (registry_status db) (\<lambda>registry.
         Inr \<lparr>dq_errors = int (length (filter (\<lambda>e. error_occurred_at e \<ge> since) (odb_errors db))),
              dq_partial_mappings = sum_list partials,
              dq_stale_cursors =
                int (length (filter (stale_cursor stale_before) (cdb_cursors (odb_coverage db)))),
              dq_missing_dates = sum_list (map (\<lambda>r. cov_missing_count (crow_values r))
                (filter (\<lambda>r. cov_strategy (crow_values r) = ForwardSnapshot) coverage_rows)),
              dq_registry_warnings = (case registry of None \<Rightarrow> 0 | Some g \<Rightarrow> reg_warnings g),
              dq_missed = scheduler_count db since Missed,
              dq_interrupted = scheduler_count db since Interrupted,
              dq_partial = scheduler_count db since Partial,
              dq_failed = scheduler_count db since Failed,
              dq_late = sum_list (map (\<lambda>r. bool_int (fst (timing_at r now 300) = Late))
                (filter (started_since since) (odb_executions db)))\<rparr>)))"

definition registry_section :: "operations_db \<Rightarrow> (string \<times> registry_summary option) result" where
  "registry_section db =
     result_bind (registry_status db) (\<lambda>registry. Inr
       (case registry of
          None \<Rightarrow> (''not_initialized'', None)
        | Some g \<Rightarrow> (if reg_warnings g = 0 then ''healthy'' else ''degraded'', Some g)))"


section \<open>The overall state\<close>

definition summary_count :: "(string, int) dict \<Rightarrow> coverage_status \<Rightarrow> int" where
  "summary_count summary s =
     (case dict_get summary (coverage_status_value s) of None \<Rightarrow> 0 | Some n \<Rightarrow> n)"

definition overall_state_of ::
  "source_health list \<Rightarrow> (string, int) dict \<Rightarrow> int \<Rightarrow> int \<Rightarrow> int \<Rightarrow> overall_state" where
  "overall_state_of active summary missing_snapshot_dates registry_warnings scheduler_anomalies =
     (let states = map sh_state active in
      if active = [] then NotStarted
      else if CollectorFailed \<in> set states then OverallFailed
      else if (\<exists>s\<in>set states. s \<noteq> Healthy) \<or> summary_count summary PartialCoverage > 0 \<or>
              summary_count summary Unknown > 0 \<or> missing_snapshot_dates > 0 \<or>
              registry_warnings > 0 \<or> scheduler_anomalies > 0 then OverallDegraded
      else OverallHealthy)"

definition spoken_state :: "collector_state \<Rightarrow> string" where
  "spoken_state s = replace_char CHR ''_'' '' '' (collector_state_value s)"

definition count_part :: "int \<Rightarrow> string \<Rightarrow> string list" where
  "count_part n phrase = (if n \<noteq> 0 then [show_int n @ phrase] else [])"

definition execution_part :: "int \<Rightarrow> string \<Rightarrow> string list" where
  "execution_part n status =
     (if n \<noteq> 0 then [show_int n @ '' scheduler '' @ (if n = 1 then ''execution'' else ''executions'') @ '' '' @
        (if n = 1 then ''was'' else ''were'') @ '' '' @ status @ '' in the last 24 hours''] else [])"

definition overall_explanation ::
  "collector_state \<Rightarrow> collector_state \<Rightarrow> (string, int) dict \<Rightarrow> data_quality \<Rightarrow> string" where
  "overall_explanation research developer summary q =
     join ''. ''
       ([''Research is '' @ spoken_state research, ''Developer is '' @ spoken_state developer] @
        count_part (summary_count summary PartialCoverage) '' Topic-source coverage projection(s) are partial'' @
        count_part (summary_count summary Unknown) '' Topic-source coverage projection(s) are unknown'' @
        count_part (summary_count summary ForwardOnly)
          '' GitHub projection(s) are accumulating forward-only history'' @
        count_part (dq_missing_dates q) '' expected GitHub snapshot date(s) are missing'' @
        (if dq_registry_warnings q \<noteq> 0 then
           [''Registry has '' @ show_int (dq_registry_warnings q) @ '' '' @
            (if dq_registry_warnings q = 1 then ''warning'' else ''warnings'')] else []) @
        execution_part (dq_missed q) ''missed'' @ execution_part (dq_interrupted q) ''interrupted'' @
        execution_part (dq_partial q) ''partial'' @ execution_part (dq_failed q) ''failed'' @
        execution_part (dq_late q) ''late'') @ ''.''"

record overview_report =
  ov_state :: overall_state
  ov_explanation :: string
  ov_registry :: "string \<times> registry_summary option"
  ov_sources :: "source_health list"
  ov_coverage :: "(string, int) dict"
  ov_quality :: data_quality
  ov_scheduler :: punctuality_report

definition scheduler_anomalies :: "data_quality \<Rightarrow> int" where
  "scheduler_anomalies q = dq_missed q + dq_interrupted q + dq_partial q + dq_failed q + dq_late q"

definition overview :: "health_settings \<Rightarrow> int \<Rightarrow> operations_db \<Rightarrow> overview_report result" where
  "overview st now db =
     result_bind (result_map (source_health_of st now db) (map fst source_presentation)) (\<lambda>sources.
     let summary = coverage_summary (odb_coverage db) in
     result_bind (data_quality_of st now db) (\<lambda>q.
     result_bind (punctuality_status (odb_executions db) now 300 ''arxiv_daily'' ''arxiv''
                    (hs_arxiv_schedule st) 7 3) (\<lambda>sched.
     let active = filter (\<lambda>s. sh_implemented s \<and> sh_enabled s) sources;
         overall = overall_state_of active summary (dq_missing_dates q) (dq_registry_warnings q)
                     (scheduler_anomalies q)
     in result_bind (registry_section db) (\<lambda>registry.
        Inr \<lparr>ov_state = overall,
             ov_explanation = overall_explanation (sh_state (sources ! 0)) (sh_state (sources ! 1)) summary q,
             ov_registry = registry, ov_sources = sources, ov_coverage = summary, ov_quality = q,
             ov_scheduler = sched\<rparr>))))"


section \<open>What healthy stands for\<close>

lemma summary_count_summary:
  "summary_count (coverage_summary db) s =
     int (length (filter (\<lambda>r. cov_status (crow_values r) = s) (cdb_coverage db)))"
  by (cases s) (simp_all add: summary_count_def coverage_summary_def all_coverage_statuses_def)

lemma overview_sources:
  assumes "overview st now db = Inr ov"
  shows "ov_sources ov = [arxiv_health st now db, github_health st now db,
           not_started ''hacker_news'' db, not_started ''wikipedia'' db]"
    and "data_quality_of st now db = Inr (ov_quality ov)"
    and "ov_coverage ov = coverage_summary (odb_coverage db)"
    and "ov_state ov = overall_state_of (filter (\<lambda>s. sh_implemented s \<and> sh_enabled s) (ov_sources ov))
           (ov_coverage ov) (dq_missing_dates (ov_quality ov)) (dq_registry_warnings (ov_quality ov))
           (scheduler_anomalies (ov_quality ov))"
  using assms
  by (auto simp: overview_def source_presentation_def source_health_of_def Let_def)

lemma overall_healthy:
  "overall_state_of active summary m w a = OverallHealthy \<longleftrightarrow>
     active \<noteq> [] \<and> (\<forall>s\<in>set active. sh_state s = Healthy) \<and> summary_count summary PartialCoverage \<le> 0 \<and>
     summary_count summary Unknown \<le> 0 \<and> m \<le> 0 \<and> w \<le> 0 \<and> a \<le> 0"
  by (auto simp: overall_state_of_def Let_def)

lemma quality_counts:
  assumes "data_quality_of st now db = Inr q"
  shows "dq_missed q = scheduler_count db (now - 24 * hour_us) Missed"
    and "dq_interrupted q = scheduler_count db (now - 24 * hour_us) Interrupted"
    and "dq_partial q = scheduler_count db (now - 24 * hour_us) Partial"
    and "dq_failed q = scheduler_count db (now - 24 * hour_us) Failed"
    and "dq_late q = int (length (filter (\<lambda>r. fst (timing_at r now 300) = Late)
           (filter (started_since (now - 24 * hour_us)) (odb_executions db))))"
  using assms by (auto simp: data_quality_of_def Let_def sum_list_count)

lemma no_anomalies:
  assumes "data_quality_of st now db = Inr q" "scheduler_anomalies q \<le> 0" "r \<in> set (odb_executions db)"
  shows "(\<forall>f. ex_finished_at r = Some f \<and> f \<ge> now - 24 * hour_us \<longrightarrow> ex_status r \<notin> {Missed, Interrupted, Partial, Failed}) \<and>
     (\<forall>s. ex_started_at r = Some s \<and> s \<ge> now - 24 * hour_us \<longrightarrow> fst (timing_at r now 300) \<noteq> Late)"
proof -
  let ?t = "now - 24 * hour_us"
  let ?late = "filter (\<lambda>r. fst (timing_at r now 300) = Late) (filter (started_since ?t) (odb_executions db))"
  have nn: "0 \<le> scheduler_count db t s" for t s by (simp add: scheduler_count_def)
  have "scheduler_count db ?t Missed + scheduler_count db ?t Interrupted + scheduler_count db ?t Partial +
      scheduler_count db ?t Failed + int (length ?late) \<le> 0"
    using assms(2) unfolding scheduler_anomalies_def quality_counts [OF assms(1)] .
  then have "scheduler_count db ?t Missed = 0 \<and> scheduler_count db ?t Interrupted = 0 \<and>
      scheduler_count db ?t Partial = 0 \<and> scheduler_count db ?t Failed = 0 \<and> int (length ?late) = 0"
    using nn [of ?t Missed] nn [of ?t Interrupted] nn [of ?t Partial] nn [of ?t Failed] by linarith
  then have z: "s \<in> {Missed, Interrupted, Partial, Failed} \<Longrightarrow> scheduler_count db ?t s = 0"
    and l: "?late = []" for s by auto
  have "\<not> since_row (now - 24 * hour_us) s r" if "s \<in> {Missed, Interrupted, Partial, Failed}" for s
    using z [OF that] assms(3) by (simp add: scheduler_count_def filter_empty_conv)
  moreover have "started_since (now - 24 * hour_us) r \<Longrightarrow> fst (timing_at r now 300) \<noteq> Late"
    using l assms(3) by (auto simp: filter_empty_conv)
  ultimately show ?thesis by (fastforce simp: since_row_def started_since_def)
qed

lemma collector_state_healthy:
  "collector_state_of source n latest fresh configured = Healthy \<longleftrightarrow>
     configured \<and> n \<noteq> 0 \<and> (\<exists>s. source = Some s \<and> source_is_active s) \<and>
     (\<exists>r. latest = Some r \<and> run_status r \<notin> {RunFailed, RunPartial}) \<and> fresh \<notin> {Stale, VeryStale}"
  by (auto simp: collector_state_of_def split: option.splits)

lemma health_of_source_healthy:
  assumes "sh_state (health_of_source name source n runs fresh configured ms raw det) = Healthy"
  shows "(\<exists>x. sh_latest_run_status (health_of_source name source n runs fresh configured ms raw det) = Some x \<and>
           x \<notin> {RunFailed, RunPartial}) \<and>
     sh_freshness (health_of_source name source n runs fresh configured ms raw det) \<notin> {Stale, VeryStale}"
proof -
  have "collector_state_of source n (fst runs) fresh configured = Healthy"
    using assms by (simp add: health_of_source_def split: prod.splits)
  then show ?thesis unfolding collector_state_healthy
    by (auto simp: health_of_source_def split: prod.splits)
qed

lemma arxiv_healthy:
  "sh_state (arxiv_health st now db) = Healthy \<Longrightarrow>
     (\<exists>x. sh_latest_run_status (arxiv_health st now db) = Some x \<and> x \<notin> {RunFailed, RunPartial}) \<and>
     sh_freshness (arxiv_health st now db) \<notin> {Stale, VeryStale}"
  unfolding arxiv_health_def Let_def by (rule health_of_source_healthy)

lemma github_healthy:
  "sh_state (github_health st now db) = Healthy \<Longrightarrow>
     (\<exists>x. sh_latest_run_status (github_health st now db) = Some x \<and> x \<notin> {RunFailed, RunPartial}) \<and>
     sh_freshness (github_health st now db) \<notin> {Stale, VeryStale}"
  unfolding github_health_def Let_def by (rule health_of_source_healthy)

lemma implemented_sources:
  assumes "overview st now db = Inr ov" "s \<in> set (ov_sources ov)" "sh_implemented s"
  shows "s = arxiv_health st now db \<or> s = github_health st now db"
  using assms(2,3) unfolding overview_sources(1) [OF assms(1)]
  by (auto simp: not_started_def Let_def split: prod.splits)

definition active_sources :: "overview_report \<Rightarrow> source_health list" where
  "active_sources ov = filter (\<lambda>s. sh_implemented s \<and> sh_enabled s) (ov_sources ov)"

text \<open>A database for the witnesses: one active arXiv source with a topic and a single run.\<close>

definition demo_run :: "ingestion_status \<Rightarrow> int option \<Rightarrow> ingestion_run" where
  "demo_run status finished = \<lparr>run_id = 1, run_source_id = 1, run_started_at = 10, run_finished_at = finished,
     run_status = status, run_records_requested = 0, run_records_received = 0, run_records_inserted = 0,
     run_records_updated = 0, run_records_skipped = 0, run_error_count = 0, run_checkpoint_before = None,
     run_checkpoint_after = None, run_collector_version = ''v'', run_metadata = []\<rparr>"

definition demo_operations :: "ingestion_run \<Rightarrow> operations_db" where
  "demo_operations r = \<lparr>odb_coverage = snd (rebuild 100 demo_db), odb_runs = [r], odb_errors = [],
     odb_papers = [], odb_arxiv_raw = [], odb_repositories = [], odb_github_raw = [], odb_executions = [],
     odb_versions = [], odb_aliases = []\<rparr>"

definition demo_settings :: health_settings where
  "demo_settings = \<lparr>hs_freshness = default_freshness_settings, hs_github_token = None,
     hs_arxiv_schedule = ''0 6 * * *''\<rparr>"

definition demo_overview :: overview_report where
  "demo_overview = (case overview demo_settings 200 (demo_operations (demo_run RunSucceeded (Some 20))) of
     Inl _ \<Rightarrow> undefined | Inr ov \<Rightarrow> ov)"

lemma demo_overview_ok:
  "overview demo_settings 200 (demo_operations (demo_run RunSucceeded (Some 20))) = Inr demo_overview"
proof -
  have "is_ok (overview demo_settings 200 (demo_operations (demo_run RunSucceeded (Some 20))))" by code_simp
  then show ?thesis by (auto simp: demo_overview_def is_ok_def split: sum.splits)
qed

section \<open>Properties\<close>

text \<open>
  C8: an overview that says \<open>healthy\<close> means that some implemented source is enabled; that the latest
  run of each such source neither failed nor ended partial and its data is not stale; that no coverage
  row is partial or unknown; and that no execution of the scheduler ledger finished missed,
  interrupted, partial or failed, or started late, within the last 24 hours.
\<close>

theorem overview_healthy_means:
  assumes "overview st now db = Inr ov" "ov_state ov = OverallHealthy"
  shows "active_sources ov \<noteq> [] \<and>
     (\<forall>s\<in>set (active_sources ov). (\<exists>x. sh_latest_run_status s = Some x \<and> x \<notin> {RunFailed, RunPartial}) \<and>
        sh_freshness s \<notin> {Stale, VeryStale}) \<and>
     (\<forall>r\<in>set (cdb_coverage (odb_coverage db)). cov_status (crow_values r) \<notin> {PartialCoverage, Unknown}) \<and>
     (\<forall>r\<in>set (odb_executions db).
        (\<forall>f. ex_finished_at r = Some f \<and> f \<ge> now - 24 * hour_us \<longrightarrow>
           ex_status r \<notin> {Missed, Interrupted, Partial, Failed}) \<and>
        (\<forall>s. ex_started_at r = Some s \<and> s \<ge> now - 24 * hour_us \<longrightarrow> fst (timing_at r now 300) \<noteq> Late))"
proof -
  note o = overview_sources [OF assms(1)]
  have h: "active_sources ov \<noteq> []" "\<forall>s\<in>set (active_sources ov). sh_state s = Healthy"
    "summary_count (coverage_summary (odb_coverage db)) PartialCoverage \<le> 0"
    "summary_count (coverage_summary (odb_coverage db)) Unknown \<le> 0" "scheduler_anomalies (ov_quality ov) \<le> 0"
    using assms(2) unfolding o(4) overall_healthy o(3) active_sources_def by blast+
  have "(\<exists>x. sh_latest_run_status s = Some x \<and> x \<notin> {RunFailed, RunPartial}) \<and> sh_freshness s \<notin> {Stale, VeryStale}"
    if s: "s \<in> set (active_sources ov)" for s
  proof -
    have "s = arxiv_health st now db \<or> s = github_health st now db"
      using s by (intro implemented_sources [OF assms(1)]) (auto simp: active_sources_def)
    then show ?thesis using h(2) s arxiv_healthy github_healthy by auto
  qed
  moreover have "cov_status (crow_values r) \<notin> {PartialCoverage, Unknown}"
    if "r \<in> set (cdb_coverage (odb_coverage db))" for r
    using h(3,4) that unfolding summary_count_summary by (auto simp: filter_empty_conv)
  ultimately show ?thesis using h(1) no_anomalies [OF o(2) h(5)] by blast
qed

theorem overview_healthy_means_witness:
  "ov_state demo_overview = OverallHealthy \<and> active_sources demo_overview \<noteq> [] \<and>
   list_all (\<lambda>s. sh_freshness s \<notin> {Stale, VeryStale}) (active_sources demo_overview)"
proof -
  have "ov_state demo_overview = OverallHealthy" by code_simp
  with overview_healthy_means [OF demo_overview_ok this] show ?thesis unfolding list_all_iff by blast
qed



end
