(* ===== verification/Calendar.thy ===== *)
theory Calendar
  imports Prelude
begin

text \<open>
  The date arithmetic and the text formats of \<open>datetime\<close> that the code uses: the proleptic Gregorian
  date of a day number (day 0 is 1970-01-01), \<open>isoformat()\<close> of dates and of UTC timestamps, and the
  \<open>strftime\<close> patterns of the query builder and of the raw store.  Years have four digits.
\<close>

definition civil_of_day :: "int \<Rightarrow> int \<times> int \<times> int" where
  "civil_of_day d =
     (let z = d + 719468; era = z div 146097; doe = z mod 146097;
          yoe = (doe - doe div 1460 + doe div 36524 - doe div 146096) div 365;
          doy = doe - (365 * yoe + yoe div 4 - yoe div 100);
          mp = (5 * doy + 2) div 153;
          day = doy - (153 * mp + 2) div 5 + 1;
          month = (if mp < 10 then mp + 3 else mp - 9);
          year = yoe + era * 400 + (if month \<le> 2 then 1 else 0)
      in (year, month, day))"

definition pad :: "nat \<Rightarrow> int \<Rightarrow> string" where
  "pad w n = show_padded w (nat n)"

lemma pad_code [code]: "pad w n = pad_left w CHR ''0'' (int_digits (max 0 n))"
proof -
  have "nat n = nat (max 0 n)" by simp
  then show ?thesis unfolding pad_def show_padded_def using show_nat_int [of "max 0 n"] by simp
qed

text \<open>Hour, minute, second and microsecond of a UTC timestamp.\<close>

definition clock_of :: "int \<Rightarrow> int \<times> int \<times> int \<times> int" where
  "clock_of t =
     (let u = t mod day_us in
      (u div hour_us, u mod hour_us div minute_us, u mod minute_us div second_us, u mod second_us))"

definition iso_date :: "int \<Rightarrow> string" where
  "iso_date d = (case civil_of_day d of (y, m, dd) \<Rightarrow> pad 4 y @ ''-'' @ pad 2 m @ ''-'' @ pad 2 dd)"

text \<open>\<open>isoformat()\<close> leaves the fraction out when it is zero.\<close>

definition iso_time :: "int \<Rightarrow> string" where
  "iso_time t =
     (case clock_of t of (h, mi, s, us) \<Rightarrow>
        iso_date (date_of t) @ ''T'' @ pad 2 h @ '':'' @ pad 2 mi @ '':'' @ pad 2 s @
        (if us = 0 then [] else ''.'' @ pad 6 us) @ ''+00:00'')"

text \<open>The same with \<open>Z\<close> for the offset, as pydantic serialises a UTC timestamp.\<close>

definition iso_zulu :: "int \<Rightarrow> string" where
  "iso_zulu t = take (length (iso_time t) - 6) (iso_time t) @ ''Z''"

text \<open>\<open>%Y%m%d%H%M\<close> and \<open>%Y%m%dT%H%M%S.%fZ\<close>\<close>

definition compact_minute :: "int \<Rightarrow> string" where
  "compact_minute t =
     (case (civil_of_day (date_of t), clock_of t) of ((y, m, d), (h, mi, s, us)) \<Rightarrow>
        pad 4 y @ pad 2 m @ pad 2 d @ pad 2 h @ pad 2 mi)"

definition compact_micro :: "int \<Rightarrow> string" where
  "compact_micro t =
     (case (civil_of_day (date_of t), clock_of t) of ((y, m, d), (h, mi, s, us)) \<Rightarrow>
        pad 4 y @ pad 2 m @ pad 2 d @ ''T'' @ pad 2 h @ pad 2 mi @ pad 2 s @ ''.'' @ pad 6 us @ ''Z'')"

text \<open>The text of a JSON string value.\<close>

definition json_text :: "json \<Rightarrow> string option" where
  "json_text j = (case j of
     JStr s \<Rightarrow> Some s | JTime t \<Rightarrow> Some (iso_time t) | JDate d \<Rightarrow> Some (iso_date d) | _ \<Rightarrow> None)"

lemma civil_examples:
  "civil_of_day 0 = (1970, 1, 1)" "civil_of_day 19782 = (2024, 2, 29)" "civil_of_day (-1) = (1969, 12, 31)"
  by code_simp+


section \<open>Representations\<close>

definition hex_digit :: "nat \<Rightarrow> char" where
  "hex_digit n = char_of (if n < 10 then 48 + n else 87 + n)"

text \<open>\<open>repr\<close> of a decimal in millionths of magnitude below 1e16.\<close>

definition fraction_text :: "int \<Rightarrow> string" where
  "fraction_text r =
     (let s = rev (dropWhile (\<lambda>c. c = CHR ''0'') (rev (pad 6 r))) in if s = [] then ''0'' else s)"

definition float_text :: "int \<Rightarrow> string" where
  "float_text m =
     (let a = \<bar>m\<bar> in (if m < 0 then ''-'' else []) @
      (if a = 0 \<or> 100 \<le> a then show_int (a div 1000000) @ ''.'' @ fraction_text (a mod 1000000)
       else if a < 10 then show_int a @ ''e-06''
       else show_int (a div 10) @ (if a mod 10 = 0 then [] else ''.'' @ show_int (a mod 10)) @ ''e-05''))"

text \<open>\<open>repr\<close> of a string of characters below 256.\<close>

definition repr_char :: "char \<Rightarrow> char \<Rightarrow> string" where
  "repr_char q c =
     (let n = (of_char c :: nat) in
      if c = q \<or> n = 92 then [CHR 0x5C, c] else if n = 9 then [CHR 0x5C, CHR ''t'']
      else if n = 10 then [CHR 0x5C, CHR ''n''] else if n = 13 then [CHR 0x5C, CHR ''r'']
      else if n < 32 \<or> 127 \<le> n \<and> n \<le> 160 \<or> n = 173 then [CHR 0x5C, CHR ''x'', hex_digit (n div 16), hex_digit (n mod 16)]
      else [c])"

definition repr_str :: "string \<Rightarrow> string" where
  "repr_str s =
     (let q = (if CHR 0x27 \<in> set s \<and> CHR 0x22 \<notin> set s then CHR 0x22 else CHR 0x27) in
      q # concat (map (repr_char q) s) @ [q])"

definition repr_list :: "string list \<Rightarrow> string" where
  "repr_list xs = ''['' @ join '', '' (map repr_str xs) @ '']''"

text \<open>\<open>str(value)\<close>, \<open>repr(value)\<close>, \<open>bool(value)\<close> and \<open>int(value)\<close> of a value that \<open>json.loads\<close> returned.\<close>

fun py_repr :: "json \<Rightarrow> string" where
  "py_repr JNull = ''None''"
| "py_repr (JBool b) = (if b then ''True'' else ''False'')"
| "py_repr (JInt n) = show_int n"
| "py_repr (JFloat m) = float_text m"
| "py_repr (JStr s) = repr_str s"
| "py_repr (JTime t) = repr_str (iso_time t)"
| "py_repr (JDate d) = repr_str (iso_date d)"
| "py_repr (JList xs) = ''['' @ join '', '' (map py_repr xs) @ '']''"
| "py_repr (JObj d) = ''{'' @ join '', '' (map (\<lambda>(k, v). repr_str k @ '': '' @ py_repr v) d) @ ''}''"

definition py_str :: "json \<Rightarrow> string" where
  "py_str j = (case json_text j of Some s \<Rightarrow> s | None \<Rightarrow> py_repr j)"

fun py_bool :: "json \<Rightarrow> bool" where
  "py_bool JNull = False"
| "py_bool (JBool b) = b"
| "py_bool (JInt n) = (n \<noteq> 0)"
| "py_bool (JFloat m) = (m \<noteq> 0)"
| "py_bool (JStr s) = (s \<noteq> [])"
| "py_bool (JTime t) = True"
| "py_bool (JDate d) = True"
| "py_bool (JList xs) = (xs \<noteq> [])"
| "py_bool (JObj d) = (d \<noteq> [])"

text \<open>\<open>int(text)\<close> strips whitespace and refuses more than 4300 digits.\<close>

definition int_of_text :: "string \<Rightarrow> int option" where
  "int_of_text s =
     (if length (filter (\<lambda>c. digit_of c \<noteq> None) s) > 4300 then None else py_int (strip s))"

definition int_of_json :: "json \<Rightarrow> int result" where
  "int_of_json j =
     (case j of
        JInt n \<Rightarrow> Inr n
      | JBool b \<Rightarrow> Inr (bool_int b)
      | JFloat m \<Rightarrow> Inr (if m < 0 then - ((- m) div 1000000) else m div 1000000)
      | _ \<Rightarrow>
          (case json_text j of
             None \<Rightarrow> Inl (TypeError ''int() argument must be a string, a bytes-like object or a real number'')
           | Some s \<Rightarrow>
               (case int_of_text s of
                  None \<Rightarrow> Inl (ValueError (''invalid literal for int() with base 10: '' @ repr_str s))
                | Some n \<Rightarrow> Inr n)))"

end
