(* ===== verification/Arxiv_Query.thy ===== *)
theory Arxiv_Query
  imports Calendar Db_Models
begin

text \<open>
  \<open>arxiv_collector/query.py\<close> and the window arithmetic of \<open>arxiv_collector/service.py\<close>: the search
  query of a mapping, the submission-date filter, \<open>QueryWindow\<close>, \<open>partition_windows\<close> and
  \<open>_split_window\<close>.  The lemmas show that a quoted term cannot end its own quotation, and that
  partitions and splits tile the window they are given.
\<close>


section \<open>Search terms\<close>

definition control_char :: "char \<Rightarrow> bool" where
  "control_char c = (let n = (of_char c :: nat) in n \<le> 31 \<or> n = 127)"

definition escape_term :: "string \<Rightarrow> string" where
  "escape_term t = replace_char CHR 0x22 [CHR 0x5C, CHR 0x22] (replace_char CHR 0x5C [CHR 0x5C, CHR 0x5C] t)"

definition search_term :: "json \<Rightarrow> string result" where
  "search_term value =
     (case json_text value of
        None \<Rightarrow> Inl (ArxivQueryError ''arXiv search terms must be strings'')
      | Some s \<Rightarrow>
          (let t = join '' '' (split_words (strip s)) in
           if t = [] then Inl (ArxivQueryError ''arXiv search terms cannot be empty'')
           else if list_ex control_char t then
             Inl (ArxivQueryError ''arXiv search terms cannot contain control characters'')
           else Inr (escape_term t)))"

definition quoted_all :: "string \<Rightarrow> string" where
  "quoted_all t = ''all:'' @ [CHR 0x22] @ t @ [CHR 0x22]"

definition from_mapping :: "mapping_row \<Rightarrow> string \<Rightarrow> string result" where
  "from_mapping m source =
     (if \<not> mapping_enabled m then Inl (ArxivQueryError ''disabled arXiv mappings cannot be queried'')
      else if source \<noteq> ''arxiv'' then Inl (ArxivQueryError ''mapping source must be arxiv'')
      else (case dict_get (mapping_configuration m) ''search_terms'' of
              Some (JList (v # vs)) \<Rightarrow>
                result_bind (result_map search_term (v # vs)) (\<lambda>terms.
                  if \<not> distinct terms then
                    Inl (ArxivQueryError ''arXiv mapping search_terms must be unique'')
                  else
                    (let expressions = map quoted_all terms in
                     Inr (if length expressions = 1 then hd expressions
                          else ''('' @ join '' OR '' expressions @ '')'')))
            | _ \<Rightarrow> Inl (ArxivQueryError ''arXiv mapping requires explicit search_terms'')))"

definition with_submitted_window :: "string \<Rightarrow> pydatetime \<Rightarrow> pydatetime \<Rightarrow> string result" where
  "with_submitted_window query window_from window_until =
     (case (utc_instant window_from, utc_instant window_until) of
        (Some a, Some b) \<Rightarrow>
          (if b \<le> a then Inl (ArxivQueryError ''arXiv query window must have positive duration'')
           else Inr (query @ '' AND submittedDate:['' @ compact_minute a @ '' TO '' @ compact_minute b @ '']''))
      | _ \<Rightarrow> Inl (ArxivQueryError ''arXiv query timestamps must be timezone-aware''))"

text \<open>How a reader of the query finds the end of a quoted term: backslash protects one character.\<close>

fun scan_quoted :: "string \<Rightarrow> (string \<times> string) option" where
  "scan_quoted [] = None"
| "scan_quoted (c # cs) =
     (if c = CHR 0x22 then Some ([], cs)
      else if c = CHR 0x5C then
        (case cs of [] \<Rightarrow> None
         | d # ds \<Rightarrow> map_option (\<lambda>(t, r). (d # t, r)) (scan_quoted ds))
      else map_option (\<lambda>(t, r). (c # t, r)) (scan_quoted cs))"

lemma escape_term_Cons:
  "escape_term (c # cs) =
     (if c = CHR 0x5C then [CHR 0x5C, CHR 0x5C] else if c = CHR 0x22 then [CHR 0x5C, CHR 0x22] else [c]) @
     escape_term cs"
  by (simp add: escape_term_def)

lemma escape_term_Nil [simp]: "escape_term [] = []"
  by (simp add: escape_term_def)

lemma scan_escape: "scan_quoted (escape_term t @ CHR 0x22 # rest) = Some (t, rest)"
  by (induction t) (simp_all add: escape_term_Cons)


section \<open>Windows\<close>

record query_window =
  window_from :: int
  window_until :: int

definition window_key :: "query_window \<Rightarrow> string" where
  "window_key w = ''backfill:'' @ iso_time (window_from w) @ '':'' @ iso_time (window_until w)"

abbreviation window :: "int \<Rightarrow> int \<Rightarrow> query_window" where
  "window a b \<equiv> \<lparr>window_from = a, window_until = b\<rparr>"

abbreviation duration :: "query_window \<Rightarrow> int" where
  "duration w \<equiv> window_until w - window_from w"

text \<open>The loop of \<open>partition_windows\<close> for a positive step.\<close>

function partition_loop :: "int \<Rightarrow> int \<Rightarrow> int \<Rightarrow> query_window list" where
  "partition_loop step cursor until =
     (if cursor < until \<and> 0 < step
      then window cursor (min (cursor + step) until) # partition_loop step (min (cursor + step) until) until
      else [])"
  by pat_completeness auto
termination
  by (relation "measure (\<lambda>(step, cursor, until). nat (until - cursor))") auto

declare partition_loop.simps [simp del]

definition partition_windows :: "int \<Rightarrow> int \<Rightarrow> int \<Rightarrow> query_window list result" where
  "partition_windows a b window_days =
     (if window_days < 1 then Inl (ArxivCollectionError ''backfill window_days must be positive'')
      else Inr (partition_loop (window_days * day_us) a b))"

definition split_window :: "int \<Rightarrow> query_window \<Rightarrow> (query_window \<times> query_window) option" where
  "split_window minimum_minutes w =
     (let minimum = minimum_minutes * minute_us in
      if duration w \<le> minimum then None
      else
        (let midpoint = window_from w + round_half_even_div (duration w) 2 in
         if midpoint - window_from w < minimum \<or> window_until w - midpoint < minimum then None
         else Some (window (window_from w) midpoint, window midpoint (window_until w))))"

text \<open>A list of windows tiles an interval: consecutive, non-empty, from one end to the other.\<close>

fun tiles :: "int \<Rightarrow> int \<Rightarrow> query_window list \<Rightarrow> bool" where
  "tiles a b [] = (a = b)"
| "tiles a b (w # ws) = (window_from w = a \<and> a < window_until w \<and> tiles (window_until w) b ws)"

lemma tiles_append: "tiles a b (xs @ ys) \<longleftrightarrow> (\<exists>c. tiles a c xs \<and> tiles c b ys)"
  by (induction xs arbitrary: a) auto

lemma tiles_le: "tiles a b ws \<Longrightarrow> a \<le> b"
  by (induction ws arbitrary: a) force+

lemma tiles_cover: "tiles a b ws \<Longrightarrow> a \<le> t \<and> t < b \<longleftrightarrow> (\<exists>w\<in>set ws. window_from w \<le> t \<and> t < window_until w)"
proof (induction ws arbitrary: a)
  case (Cons w ws)
  then have "tiles (window_until w) b ws" "window_from w = a" "a < window_until w" by auto
  with Cons.IH [of "window_until w"] tiles_le [of "window_until w" b ws] show ?case by auto
qed auto

lemma partition_loop_tiles: "0 < step \<Longrightarrow> a \<le> b \<Longrightarrow>
  tiles a b (partition_loop step a b) \<and> (\<forall>w\<in>set (partition_loop step a b). duration w \<le> step)"
proof (induction step a b rule: partition_loop.induct)
  case (1 step a b)
  show ?case
  proof (cases "a < b")
    case True
    with 1 have "tiles (min (a + step) b) b (partition_loop step (min (a + step) b) b) \<and>
        (\<forall>w\<in>set (partition_loop step (min (a + step) b) b). duration w \<le> step)" by auto
    with True 1(2) show ?thesis by (subst (1 2) partition_loop.simps) auto
  next
    case False
    with 1(3) show ?thesis by (subst (1 2) partition_loop.simps) auto
  qed
qed

lemma split_window_Some:
  assumes "split_window m w = Some (l, r)"
  shows "window_from l = window_from w" "window_until l = window_from r" "window_until r = window_until w"
    "m * minute_us \<le> duration l" "m * minute_us \<le> duration r"
  using assms by (auto simp: split_window_def Let_def split: if_splits)

lemma split_window_tiles:
  assumes "split_window m w = Some (l, r)" "0 < m"
  shows "tiles (window_from w) (window_until w) [l, r] \<and> duration l < duration w \<and> duration r < duration w"
  using split_window_Some [OF assms(1)] assms(2) by auto

text \<open>A window is not split only when it is too short for two parts of the minimal length.\<close>

lemma split_window_None:
  assumes "split_window m w = None" "0 < m"
  shows "duration w < 2 * (m * minute_us)"
proof (rule ccontr)
  assume n: "\<not> ?thesis"
  define k where "k = m * 30000000"
  have m2: "m * minute_us = 2 * k" by (simp add: k_def)
  have "0 < k" using assms(2) by (simp add: k_def)
  have d: "4 * k \<le> duration w" using n m2 by simp
  have b: "2 * duration w - 2 \<le> 4 * round_half_even_div (duration w) 2 \<and>
      4 * round_half_even_div (duration w) 2 \<le> 2 * duration w + 2"
    using round_half_even_div_bounds [of 2 "duration w"] by simp
  have "2 * k \<le> round_half_even_div (duration w) 2 \<and> 2 * k \<le> duration w - round_half_even_div (duration w) 2"
  proof (cases "duration w = 4 * k")
    case True
    then show ?thesis by (simp add: round_half_even_div_def)
  next
    case False
    then have "4 * k < duration w" using d by simp
    then show ?thesis using b [THEN conjunct1] b [THEN conjunct2] by (intro conjI) presburger+
  qed
  with assms(1) d \<open>0 < k\<close> show False by (auto simp: split_window_def Let_def m2 split: if_splits)
qed

section \<open>Reading a query back\<close>

fun chop :: "string \<Rightarrow> string \<Rightarrow> string option" where
  "chop [] s = Some s"
| "chop (c # cs) [] = None"
| "chop (c # cs) (d # ds) = (if c = d then chop cs ds else None)"

lemma chop_append [simp]: "chop p (p @ s) = Some s"
  by (induction p) auto

lemma chop_length: "chop p s = Some r \<Longrightarrow> length r \<le> length s"
  by (induction p s rule: chop.induct) (auto split: if_splits)

lemma scan_quoted_length: "scan_quoted s = Some (t, r) \<Longrightarrow> length r < length s"
proof (induction s arbitrary: t rule: scan_quoted.induct)
  case (2 c cs)
  then show ?case by (cases cs) (fastforce split: if_splits)+
qed simp

function read_terms :: "string \<Rightarrow> string list option" where
  "read_terms s =
     (case chop (''all:'' @ [CHR 0x22]) s of None \<Rightarrow> None
      | Some body \<Rightarrow> (case scan_quoted body of None \<Rightarrow> None
         | Some (t, rest) \<Rightarrow> (case chop '' OR '' rest of
              None \<Rightarrow> (if rest = [] then Some [t] else None)
            | Some other \<Rightarrow> map_option (\<lambda>ts. t # ts) (read_terms other))))"
  by pat_completeness auto
termination
proof (relation "measure length", goal_cases)
  case (2 s body tr t rest other)
  then show ?case using chop_length [of _ s body] scan_quoted_length [of body t rest] chop_length [of _ rest other]
    by fastforce
qed simp

declare read_terms.simps [simp del]

definition read_query :: "string \<Rightarrow> string list option" where
  "read_query q = (case q of [] \<Rightarrow> None
     | c # cs \<Rightarrow> (if c = CHR ''('' then read_terms (butlast cs) else read_terms q))"

lemma read_terms_join:
  "ts \<noteq> [] \<Longrightarrow> read_terms (join '' OR '' (map (\<lambda>t. quoted_all (escape_term t)) ts)) = Some ts"
proof (induction ts)
  case (Cons t ts)
  have q: "quoted_all (escape_term t) @ s = (''all:'' @ [CHR 0x22]) @ escape_term t @ CHR 0x22 # s" for s
    by (simp add: quoted_all_def)
  show ?case
  proof (cases ts)
    case Nil
    have "chop '' OR '' [] = None" by simp
    then show ?thesis
      using q [of "[]"] scan_escape [of t "[]"] Nil by (subst read_terms.simps) simp
  next
    case (Cons u us)
    let ?rest = "join '' OR '' (map (\<lambda>t. quoted_all (escape_term t)) ts)"
    have "join '' OR '' (map (\<lambda>t. quoted_all (escape_term t)) (t # ts)) =
        (''all:'' @ [CHR 0x22]) @ escape_term t @ CHR 0x22 # '' OR '' @ ?rest"
      using Cons q by simp
    then show ?thesis
      using scan_escape [of t "'' OR '' @ ?rest"] Cons.IH Cons chop_append [of "'' OR ''" ?rest]
      by (subst read_terms.simps) simp
  qed
qed simp

definition normal_term :: "string \<Rightarrow> string" where
  "normal_term s = join '' '' (split_words (strip s))"

lemma search_term_Inr: "search_term v = Inr e \<longleftrightarrow>
  (\<exists>s. json_text v = Some s \<and> normal_term s \<noteq> [] \<and> \<not> list_ex control_char (normal_term s) \<and>
       e = escape_term (normal_term s))"
  by (auto simp: search_term_def normal_term_def Let_def split: option.splits)

lemma search_terms_Inr: "list_all2 (\<lambda>v e. search_term v = Inr e) vs es \<Longrightarrow>
  \<exists>ts. es = map escape_term ts \<and>
       list_all2 (\<lambda>v t. \<exists>s. json_text v = Some s \<and> t = normal_term s \<and> t \<noteq> [] \<and> \<not> list_ex control_char t) vs ts"
proof (induction rule: list_all2_induct)
  case (Cons v vs e es)
  then obtain ts where ts: "es = map escape_term ts"
    "list_all2 (\<lambda>v t. \<exists>s. json_text v = Some s \<and> t = normal_term s \<and> t \<noteq> [] \<and> \<not> list_ex control_char t) vs ts"
    by blast
  from Cons(1) obtain s where s: "json_text v = Some s" "normal_term s \<noteq> []" "\<not> list_ex control_char (normal_term s)"
    "e = escape_term (normal_term s)" by (auto simp: search_term_Inr)
  show ?case by (rule exI [of _ "normal_term s # ts"]) (use s ts in auto)
qed simp

lemma read_query_expression:
  assumes "ts \<noteq> []"
  shows "read_query (let expressions = map quoted_all (map escape_term ts) in
     if length expressions = 1 then hd expressions else ''('' @ join '' OR '' expressions @ '')'') = Some ts"
proof (cases "length ts = 1")
  case True
  then obtain t where "ts = [t]" by (cases ts) auto
  then show ?thesis using read_terms_join [of ts] by (simp add: read_query_def) (simp add: quoted_all_def)
next
  case False
  have "map quoted_all (map escape_term ts) = map (\<lambda>t. quoted_all (escape_term t)) ts" by simp
  then show ?thesis using read_terms_join [OF assms] False by (simp add: read_query_def butlast_append comp_def)
qed


section \<open>Properties\<close>

text \<open>
  C10: whatever the registry configured as search terms, the query that \<open>from_mapping\<close> builds, read the
  way the API reads it (quoted terms in which a backslash protects the next character, joined by OR),
  consists of exactly the configured terms, normalised: no term can end its quotation or add an
  operator, and the terms are distinct, non-empty and free of control characters.
\<close>

theorem query_reads_back:
  assumes "from_mapping m source = Inr q"
  shows "\<exists>vs ts. dict_get (mapping_configuration m) ''search_terms'' = Some (JList vs) \<and>
     read_query q = Some ts \<and> distinct ts \<and>
     list_all2 (\<lambda>v t. \<exists>s. json_text v = Some s \<and> t = normal_term s \<and> t \<noteq> [] \<and> \<not> list_ex control_char t) vs ts"
proof -
  obtain v vs es where c: "dict_get (mapping_configuration m) ''search_terms'' = Some (JList (v # vs))"
    "result_map search_term (v # vs) = Inr es" "distinct es"
    "q = (let expressions = map quoted_all es in
       if length expressions = 1 then hd expressions else ''('' @ join '' OR '' expressions @ '')'')"
    using assms by (auto simp: from_mapping_def Let_def split: if_splits option.splits json.splits list.splits
        simp del: result_map.simps)
  obtain ts where ts: "es = map escape_term ts"
    "list_all2 (\<lambda>v t. \<exists>s. json_text v = Some s \<and> t = normal_term s \<and> t \<noteq> [] \<and> \<not> list_ex control_char t) (v # vs) ts"
    using search_terms_Inr [OF c(2) [unfolded result_map_Inr]] by blast
  have "ts \<noteq> []" using ts(2) by auto
  then have "read_query q = Some ts" using read_query_expression c(4) ts(1) by simp
  with c(1,3) ts show ?thesis by (auto simp: distinct_map)
qed

definition demo_search_mapping :: mapping_row where
  \<open>demo_search_mapping =
     \<lparr>mapping_id = 1, mapping_topic_id = 1, mapping_source_id = 1, mapping_enabled = True,
      mapping_type = ''query'', mapping_external_identifier = None, mapping_query = None,
      mapping_configuration =
        [(''search_terms'', JList [JStr ''say  "x" OR all:y'', JStr (''back'' @ [CHR 0x5C])])]\<rparr>\<close>

theorem query_reads_back_witness:
  \<open>\<exists>q. from_mapping demo_search_mapping ''arxiv'' = Inr q \<and>
       read_query q = Some [''say "x" OR all:y'', ''back'' @ [CHR 0x5C]]\<close>
proof -
  have "is_ok (from_mapping demo_search_mapping ''arxiv'')" by code_simp
  then obtain q where q: "from_mapping demo_search_mapping ''arxiv'' = Inr q"
    by (cases "from_mapping demo_search_mapping ''arxiv''") auto
  have n: \<open>normal_term ''say  "x" OR all:y'' = ''say "x" OR all:y''\<close>
    "normal_term (''back'' @ [CHR 0x5C]) = ''back'' @ [CHR 0x5C]" by code_simp+
  have \<open>read_query q = Some [''say "x" OR all:y'', ''back'' @ [CHR 0x5C]]\<close>
    using query_reads_back [OF q] n by (auto simp: demo_search_mapping_def json_text_def list_all2_Cons1)
  with q show ?thesis by blast
qed

text \<open>
  A backfill interval is cut into consecutive windows that tile it (every instant is in a window and
  no two windows overlap), none longer than the configured number of days; the loop always ends.
\<close>

theorem partition_windows_tile:
  assumes "partition_windows a b days = Inr ws" "a < b"
  shows "tiles a b ws \<and> list_all (\<lambda>w. duration w \<le> days * day_us) ws \<and>
    (\<forall>t. a \<le> t \<and> t < b \<longleftrightarrow> (\<exists>w\<in>set ws. window_from w \<le> t \<and> t < window_until w))"
proof -
  from assms have "1 \<le> days" "ws = partition_loop (days * day_us) a b"
    by (auto simp: partition_windows_def split: if_splits)
  with assms(2) partition_loop_tiles [of "days * day_us" a b] tiles_cover [of a b ws]
  show ?thesis by (auto simp: list_all_iff)
qed

theorem partition_windows_tile_witness:
  "\<exists>ws. partition_windows 0 (10 * day_us) 4 = Inr ws \<and> length ws = 3 \<and> tiles 0 (10 * day_us) ws"
proof -
  have "partition_windows 0 (10 * day_us) 4 = Inr (partition_loop (4 * day_us) 0 (10 * day_us))"
    by (simp add: partition_windows_def)
  moreover have "length (partition_loop (4 * day_us) 0 (10 * day_us)) = 3" by code_simp
  ultimately show ?thesis using partition_windows_tile [of 0 "10 * day_us" 4] by (auto simp del: tiles.simps)
qed

text \<open>
  A split cuts a window into two consecutive parts that tile it, each at least the minimal length and
  shorter than the window (so repeated splitting ends); it is refused only for a window shorter than
  two minimal parts.
\<close>

theorem split_window_sound:
  assumes "0 < m"
  shows "case split_window m w of
      Some (l, r) \<Rightarrow> tiles (window_from w) (window_until w) [l, r] \<and>
        m * minute_us \<le> duration l \<and> m * minute_us \<le> duration r \<and>
        duration l < duration w \<and> duration r < duration w
    | None \<Rightarrow> duration w < 2 * (m * minute_us)"
proof (cases "split_window m w")
  case None
  with split_window_None [OF _ assms] show ?thesis by simp
next
  case (Some lr)
  then obtain l r where lr: "split_window m w = Some (l, r)" by (cases lr) auto
  with split_window_Some [OF lr] split_window_tiles [OF lr assms] show ?thesis by simp
qed

theorem split_window_sound_witness:
  "split_window 60 (window 0 (5 * hour_us)) = Some (window 0 (9000 * second_us), window (9000 * second_us) (5 * hour_us)) \<and>
   tiles 0 (5 * hour_us) [window 0 (9000 * second_us), window (9000 * second_us) (5 * hour_us)]"
proof -
  have "split_window 60 (window 0 (5 * hour_us)) =
      Some (window 0 (9000 * second_us), window (9000 * second_us) (5 * hour_us))" by code_simp
  with split_window_sound [of 60 "window 0 (5 * hour_us)"] show ?thesis by (simp del: tiles.simps)
qed

end
