(* ===== verification/Arxiv_Client.thy ===== *)
theory Arxiv_Client
  imports Calendar
begin

text \<open>
  \<open>arxiv_collector/client.py\<close> with the request and response values of its \<open>models.py\<close>: the limiter
  that spaces requests, the retry loop of \<open>ArxivClient.get\<close> with its two callbacks, and the back-off.

  The environment \<open>env\<close> supplies what the code cannot decide: how much time passes before each reading
  of the monotonic clock, the readings of the wall clock, the outcome of each transport call and the
  jitter.  The monotonic clock only moves forward, and \<open>sleep(d)\<close> moves it by at least \<open>d\<close>.  \<open>world\<close>
  holds the clock, how much of the environment was used, and the trace of the request starts.  Times
  are microseconds.
\<close>

record arxiv_request =
  rq_search_query :: string
  rq_start :: int
  rq_max_results :: int
  rq_sort_by :: string
  rq_sort_order :: string

definition request_valid :: "arxiv_request \<Rightarrow> bool" where
  "request_valid r =
     (rq_search_query r \<noteq> [] \<and> rq_start r \<ge> 0 \<and> 1 \<le> rq_max_results r \<and> rq_max_results r \<le> 2000 \<and>
      rq_sort_by r \<in> {''relevance'', ''lastUpdatedDate'', ''submittedDate''} \<and>
      rq_sort_order r \<in> {''ascending'', ''descending''})"

record http_response =
  rs_request :: arxiv_request
  rs_status :: int
  rs_headers :: "(string, string) dict"
  rs_body :: string
  rs_requested_at :: int
  rs_duration_ms :: int
  rs_attempt :: nat

datatype transport_outcome =
    TransportRaised string \<comment> \<open>type name of a \<open>TimeoutError\<close>, \<open>ConnectionError\<close> or \<open>OSError\<close>\<close>
  | TransportBroken py_error \<comment> \<open>any other exception\<close>
  | TransportReplied int "(string, string) dict" string

record env =
  e_elapsed :: "nat \<Rightarrow> nat"
  e_wall :: "nat \<Rightarrow> int"
  e_transport :: "nat \<Rightarrow> transport_outcome"
  e_jitter :: "nat \<Rightarrow> nat"

record world =
  w_clock :: int
  w_ticks :: nat
  w_walls :: nat
  w_sent :: nat
  w_jitters :: nat
  w_last_start :: "int option" \<comment> \<open>\<open>_last_request_started\<close> of the limiter\<close>
  w_starts :: "int list" \<comment> \<open>trace: every value it took\<close>

definition world_init :: world where
  "world_init = \<lparr>w_clock = 0, w_ticks = 0, w_walls = 0, w_sent = 0, w_jitters = 0, w_last_start = None,
     w_starts = []\<rparr>"

definition read_clock :: "env \<Rightarrow> world \<Rightarrow> int \<times> world" where
  "read_clock e w =
     (let t = w_clock w + int (e_elapsed e (w_ticks w)) in
      (t, w\<lparr>w_clock := t, w_ticks := Suc (w_ticks w)\<rparr>))"

definition read_wall :: "env \<Rightarrow> world \<Rightarrow> int \<times> world" where
  "read_wall e w = (e_wall e (w_walls w), w\<lparr>w_walls := Suc (w_walls w)\<rparr>)"

definition sleep_for :: "int \<Rightarrow> world \<Rightarrow> world" where
  "sleep_for d w = w\<lparr>w_clock := w_clock w + max 0 d\<rparr>"


section \<open>The limiter\<close>

definition limiter_valid :: "int \<Rightarrow> bool" where
  "limiter_valid minimum_interval = (minimum_interval \<ge> 3 * second_us)"

definition acquire :: "env \<Rightarrow> int \<Rightarrow> world \<Rightarrow> world" where
  "acquire e minimum_interval w =
     (case read_clock e w of (now, w1) \<Rightarrow>
       (case w_last_start w of
          None \<Rightarrow> w1\<lparr>w_last_start := Some now, w_starts := w_starts w1 @ [now]\<rparr>
        | Some last_start \<Rightarrow>
            (let remaining = minimum_interval - (now - last_start) in
             if remaining > 0 then
               (case read_clock e (sleep_for remaining w1) of (now', w2) \<Rightarrow>
                  w2\<lparr>w_last_start := Some now', w_starts := w_starts w2 @ [now']\<rparr>)
             else w1\<lparr>w_last_start := Some now, w_starts := w_starts w1 @ [now]\<rparr>)))"


section \<open>The client\<close>

record client_config =
  cc_minimum_interval :: int
  cc_retry_attempts :: nat
  cc_timeout :: int
  cc_user_agent :: string

definition client_init :: "client_config \<Rightarrow> unit result" where
  "client_init c =
     (if cc_retry_attempts c < 1 \<or> cc_retry_attempts c > 5 then
        Inl (ValueError ''retry_attempts must be between one and five'')
      else if cc_timeout c \<le> 0 then Inl (ValueError ''timeout_seconds must be positive'')
      else if strip (cc_user_agent c) = [] then
        Inl (ValueError ''a descriptive arXiv User-Agent is required'')
      else if \<not> limiter_valid (cc_minimum_interval c) then
        Inl (ValueError ''arXiv request interval cannot be less than three seconds'')
      else Inr ())"

definition transient_status :: "int \<Rightarrow> bool" where
  "transient_status s = (s \<in> {429, 500, 502, 503, 504})"

text \<open>
  \<open>float(retry_after)\<close> in microseconds, for a decimal numeral of up to six fractional digits; the
  exponent, infinity and NaN notations of \<open>float\<close> are read as invalid.
\<close>

definition decimal_seconds :: "string \<Rightarrow> int option" where
  "decimal_seconds text =
     (let s = strip text; whole = takeWhile (\<lambda>c. c \<noteq> CHR ''.'') s; rest = drop (length whole) s in
      case py_int whole of
        None \<Rightarrow> None
      | Some n \<Rightarrow>
          (case rest of
             [] \<Rightarrow> Some (n * second_us)
           | _ # frac \<Rightarrow>
               (if frac = [] then Some (n * second_us)
                else if length frac > 6 \<or> CHR ''_'' \<in> set frac then None
                else (case py_nat frac of
                        None \<Rightarrow> None
                      | Some f \<Rightarrow> (let us = int f * 10 ^ (6 - length frac) in
                          Some (if hd s = CHR ''-'' then n * second_us - us else n * second_us + us))))))"

definition backoff_delay :: "int \<Rightarrow> nat \<Rightarrow> string option \<Rightarrow> int \<Rightarrow> int" where
  "backoff_delay minimum attempt retry_after jitter =
     (let retry_after_us = (case retry_after of
            None \<Rightarrow> 0
          | Some text \<Rightarrow> (case decimal_seconds text of None \<Rightarrow> 0 | Some v \<Rightarrow> max 0 v));
          exponential = min (30 * second_us) (minimum * 2 ^ (attempt - 1))
      in max retry_after_us (exponential + jitter))"

definition backoff :: "env \<Rightarrow> client_config \<Rightarrow> nat \<Rightarrow> string option \<Rightarrow> world \<Rightarrow> world" where
  "backoff e c attempt retry_after w =
     sleep_for (backoff_delay (cc_minimum_interval c) attempt retry_after (int (e_jitter e (w_jitters w))))
       (w\<lparr>w_jitters := Suc (w_jitters w)\<rparr>)"

text \<open>
  The body of the loop of \<open>get\<close>; \<open>final\<close> says that no attempt is left.  It ends with a result or asks
  for a retry with the \<open>Retry-After\<close> header.  The callbacks act on the caller's state.
\<close>

datatype attempt_outcome = Finished "http_response result" | Retry "string option"

definition handle_reply ::
  "bool \<Rightarrow> http_response \<Rightarrow> (http_response \<Rightarrow> 's \<Rightarrow> unit result \<times> 's) \<Rightarrow> 's \<Rightarrow> attempt_outcome \<times> 's" where
  "handle_reply final response on_response s =
     (case on_response response s of
        (Inl err, s') \<Rightarrow> (Finished (Inl err), s')
      | (Inr _, s') \<Rightarrow>
          (if rs_status response = 403 then
             (Finished (Inl (ArxivForbiddenError ''arXiv API returned 403; collection stopped without retry'')), s')
           else if 200 \<le> rs_status response \<and> rs_status response < 300 then (Finished (Inr response), s')
           else if \<not> transient_status (rs_status response) \<or> final then
             (Finished (Inl (ArxivHTTPError (rs_status response))), s')
           else (Retry (dict_get (rs_headers response) ''Retry-After''), s')))"

definition attempt_once ::
  "env \<Rightarrow> client_config \<Rightarrow> arxiv_request \<Rightarrow> (http_response \<Rightarrow> 's \<Rightarrow> unit result \<times> 's) \<Rightarrow>
   (nat \<Rightarrow> world \<Rightarrow> 's \<Rightarrow> unit result \<times> world \<times> 's) \<Rightarrow> nat \<Rightarrow> bool \<Rightarrow> world \<Rightarrow> 's \<Rightarrow>
   attempt_outcome \<times> world \<times> 's" where
  "attempt_once e c rq on_response on_attempt attempt final w s =
     (case on_attempt attempt w s of
        (Inl err, w1, s1) \<Rightarrow> (Finished (Inl err), w1, s1)
      | (Inr _, w1, s1) \<Rightarrow>
          (case read_clock e (acquire e (cc_minimum_interval c) w1) of (started, w3) \<Rightarrow>
           (case read_wall e w3 of (requested_at, w4) \<Rightarrow>
           (let w5 = w4\<lparr>w_sent := Suc (w_sent w4)\<rparr> in
            case e_transport e (w_sent w4) of
              TransportRaised name \<Rightarrow>
                (if final then
                   (Finished (Inl (ArxivTransportError (''arXiv request failed after '' @ show_nat attempt @
                      '' attempt(s): '' @ name))), w5, s1)
                 else (Retry None, w5, s1))
            | TransportBroken err \<Rightarrow> (Finished (Inl err), w5, s1)
            | TransportReplied status headers body \<Rightarrow>
                (case read_clock e w5 of (stopped, w6) \<Rightarrow>
                  (if \<not> (100 \<le> status \<and> status \<le> 599) then
                     (Finished (Inl (ValueError ''status_code'')), w6, s1)
                   else
                     (case handle_reply final
                        \<lparr>rs_request = rq, rs_status = status, rs_headers = headers, rs_body = body,
                         rs_requested_at = requested_at,
                         rs_duration_ms = max 0 (round_half_even_div (stopped - started) 1000),
                         rs_attempt = attempt\<rparr> on_response s1 of
                        (out, s2) \<Rightarrow> (out, w6, s2))))))))"

text \<open>The first argument is the number of attempts left.\<close>

fun get_loop ::
  "nat \<Rightarrow> env \<Rightarrow> client_config \<Rightarrow> arxiv_request \<Rightarrow> (http_response \<Rightarrow> 's \<Rightarrow> unit result \<times> 's) \<Rightarrow>
   (nat \<Rightarrow> world \<Rightarrow> 's \<Rightarrow> unit result \<times> world \<times> 's) \<Rightarrow> world \<Rightarrow> 's \<Rightarrow> http_response result \<times> world \<times> 's" where
  "get_loop 0 e c rq on_response on_attempt w s =
     (Inl (AssertionError ''arXiv request loop ended unexpectedly''), w, s)"
| "get_loop (Suc n) e c rq on_response on_attempt w s =
     (let attempt = cc_retry_attempts c - n in
      case attempt_once e c rq on_response on_attempt attempt (n = 0) w s of
        (Finished r, w1, s1) \<Rightarrow> (r, w1, s1)
      | (Retry retry_after, w1, s1) \<Rightarrow>
          get_loop n e c rq on_response on_attempt (backoff e c attempt retry_after w1) s1)"

definition client_get ::
  "env \<Rightarrow> client_config \<Rightarrow> arxiv_request \<Rightarrow> (http_response \<Rightarrow> 's \<Rightarrow> unit result \<times> 's) \<Rightarrow>
   (nat \<Rightarrow> world \<Rightarrow> 's \<Rightarrow> unit result \<times> world \<times> 's) \<Rightarrow> world \<Rightarrow> 's \<Rightarrow> http_response result \<times> world \<times> 's" where
  "client_get e c rq on_response on_attempt w s =
     get_loop (cc_retry_attempts c) e c rq on_response on_attempt w s"


section \<open>Pacing\<close>

text \<open>Consecutive request starts are at least the interval apart, and the clock is past the last one.\<close>

definition paced :: "int \<Rightarrow> world \<Rightarrow> bool" where
  "paced m w =
     (sorted_wrt (\<lambda>a b. a + m \<le> b) (w_starts w) \<and>
      (case w_last_start w of
         None \<Rightarrow> w_starts w = []
       | Some t \<Rightarrow> w_starts w \<noteq> [] \<and> last (w_starts w) = t \<and> t \<le> w_clock w))"

lemma read_clock_facts:
  assumes "read_clock e w = (t, w')"
  shows "t = w_clock w'" "w_clock w \<le> w_clock w'" "w_last_start w' = w_last_start w"
    "w_starts w' = w_starts w" "w_sent w' = w_sent w"
  using assms by (auto simp: read_clock_def Let_def)

lemma paced_later:
  "paced m w \<Longrightarrow> w_clock w \<le> w_clock w' \<Longrightarrow> w_last_start w' = w_last_start w \<Longrightarrow> w_starts w' = w_starts w \<Longrightarrow>
     paced m w'"
  by (auto simp: paced_def split: option.splits)

lemma sorted_wrt_snoc_last:
  fixes m :: int
  assumes "0 \<le> m" "sorted_wrt (\<lambda>a b. a + m \<le> b) xs" "xs \<noteq> []" "last xs + m \<le> t"
  shows "sorted_wrt (\<lambda>a b. a + m \<le> b) (xs @ [t])"
proof -
  have "x + m \<le> t" if x: "x \<in> set xs" for x
  proof (cases "x = last xs")
    case False
    obtain ys where ys: "xs = ys @ [last xs]" using assms(3) by (metis append_butlast_last_id)
    with x False have "x \<in> set ys" by (metis Un_iff empty_iff empty_set insert_iff list.simps(15) set_append)
    moreover have "sorted_wrt (\<lambda>a b. a + m \<le> b) (ys @ [last xs])" using assms(2) ys by simp
    ultimately have "x + m \<le> last xs" by (simp add: sorted_wrt_append)
    with assms(1,4) show ?thesis by linarith
  qed (use assms(4) in simp)
  with assms(2) show ?thesis by (simp add: sorted_wrt_append)
qed

lemma paced_start:
  assumes "paced m w" "0 \<le> m" "\<And>t. w_last_start w = Some t \<Longrightarrow> t + m \<le> now" "now \<le> w_clock w"
  shows "paced m (w\<lparr>w_last_start := Some now, w_starts := w_starts w @ [now]\<rparr>)"
proof (cases "w_last_start w")
  case None
  with assms show ?thesis by (simp add: paced_def)
next
  case (Some t)
  then have "w_starts w \<noteq> []" "last (w_starts w) + m \<le> now"
    using assms(1,3) by (auto simp: paced_def)
  then show ?thesis
    using assms(1,2,4) sorted_wrt_snoc_last [of m "w_starts w" now] by (simp add: paced_def)
qed

lemma acquire_paced:
  assumes "paced m w" "0 \<le> m"
  shows "paced m (acquire e m w)" "w_sent (acquire e m w) = w_sent w"
    "length (w_starts (acquire e m w)) = Suc (length (w_starts w))"
proof -
  obtain now w1 where r: "read_clock e w = (now, w1)" by (cases "read_clock e w")
  note f = read_clock_facts [OF r]
  have p1: "paced m w1" by (rule paced_later [OF assms(1) f(2-4)])
  show "paced m (acquire e m w)"
  proof (cases "w_last_start w")
    case None
    then have "acquire e m w = w1\<lparr>w_last_start := Some now, w_starts := w_starts w1 @ [now]\<rparr>"
      by (simp add: acquire_def r)
    moreover have "paced m \<dots>" using None f by (intro paced_start p1 assms(2)) simp_all
    ultimately show ?thesis by simp
  next
    case (Some t)
    show ?thesis
    proof (cases "m - (now - t) > 0")
      case True
      define ws where "ws = sleep_for (m - (now - t)) w1"
      obtain now' w2 where r2: "read_clock e ws = (now', w2)" by (cases "read_clock e ws")
      note f2 = read_clock_facts [OF r2]
      have s: "w_clock ws = w_clock w1 + (m - (now - t))" "w_last_start ws = w_last_start w1" "w_starts ws = w_starts w1"
        using True by (simp_all add: ws_def sleep_for_def)
      have ps: "paced m ws" using True by (intro paced_later [OF p1] s) (simp add: s)
      have p2: "paced m w2" by (rule paced_later [OF ps f2(2-4)])
      have "acquire e m w = w2\<lparr>w_last_start := Some now', w_starts := w_starts w2 @ [now']\<rparr>"
        using Some True r2 by (simp add: acquire_def r Let_def ws_def)
      moreover have "paced m \<dots>"
      proof (intro paced_start p2 assms(2))
        fix u assume "w_last_start w2 = Some u"
        then have "u = t" using f2(3) s(2) f(3) Some by simp
        then show "u + m \<le> now'" using f2(1,2) s(1) f(1) by simp
      qed (simp add: f2)
      ultimately show ?thesis by simp
    next
      case False
      then have "acquire e m w = w1\<lparr>w_last_start := Some now, w_starts := w_starts w1 @ [now]\<rparr>"
        using Some by (simp add: acquire_def r)
      moreover have "paced m \<dots>" using Some False f by (intro paced_start p1 assms(2)) simp_all
      ultimately show ?thesis by simp
    qed
  qed
  show "w_sent (acquire e m w) = w_sent w" "length (w_starts (acquire e m w)) = Suc (length (w_starts w))"
    by (simp_all add: acquire_def read_clock_def sleep_for_def Let_def split: option.splits)
qed



section \<open>What an attempt does\<close>

text \<open>Sending: the limiter is passed, the clocks are read, one transport call is made.\<close>

definition sends :: "env \<Rightarrow> int \<Rightarrow> world \<Rightarrow> world \<Rightarrow> bool" where
  "sends e m w w' =
     (w_sent w' = Suc (w_sent w) \<and> w_clock w \<le> w_clock w' \<and> (0 \<le> m \<longrightarrow> paced m w \<longrightarrow> paced m w') \<and>
      (\<exists>t. w_starts w' = w_starts w @ [t]))"

lemma acquire_starts: "\<exists>t. w_starts (acquire e m w) = w_starts w @ [t]" "w_clock w \<le> w_clock (acquire e m w)"
  "w_sent (acquire e m w) = w_sent w"
  by (simp_all add: acquire_def read_clock_def sleep_for_def Let_def split: option.splits)

text \<open>
  An attempt is refused by \<open>on_attempt\<close>, or it sends one request; then the transport raises, or the
  reply is handed to \<open>on_response\<close> before anything else is decided.
\<close>

lemma attempt_once_cases:
  assumes run: "attempt_once e c rq on_response on_attempt a final w s = (out, w', s')"
  obtains (refused) err where "on_attempt a w s = (Inl err, w', s')" "out = Finished (Inl err)"
  | (unanswered) u w1 where "on_attempt a w s = (Inr u, w1, s')" "sends e (cc_minimum_interval c) w1 w'"
      "\<And>rsp. out \<noteq> Finished (Inr rsp)" "\<And>m. out \<noteq> Finished (Inl (ArxivForbiddenError m)) \<or> e_transport e (w_sent w1) = TransportBroken (ArxivForbiddenError m)"
      "\<And>h b. e_transport e (w_sent w1) \<noteq> TransportReplied 403 h b"
  | (answered) u w1 s1 rsp r2 where "on_attempt a w s = (Inr u, w1, s1)" "sends e (cc_minimum_interval c) w1 w'"
      "e_transport e (w_sent w1) = TransportReplied (rs_status rsp) (rs_headers rsp) (rs_body rsp)"
      "100 \<le> rs_status rsp" "rs_status rsp \<le> 599" "on_response rsp s1 = (r2, s')"
      "handle_reply final rsp on_response s1 = (out, s')"
proof -
  obtain r w1 s1 where a: "on_attempt a w s = (r, w1, s1)" by (cases "on_attempt a w s")
  show ?thesis
  proof (cases r)
    case (Inl err)
    then show ?thesis using run a by (intro refused) (auto simp: attempt_once_def)
  next
    case (Inr u)
    let ?m = "cc_minimum_interval c"
    define w2 where "w2 = acquire e ?m w1"
    obtain started w3 where r3: "read_clock e w2 = (started, w3)" by (cases "read_clock e w2")
    obtain requested w4 where r4: "read_wall e w3 = (requested, w4)" by (cases "read_wall e w3")
    define w5 where "w5 = w4\<lparr>w_sent := Suc (w_sent w4)\<rparr>"
    obtain stopped w6 where r6: "read_clock e w5 = (stopped, w6)" by (cases "read_clock e w5")
    note f3 = read_clock_facts [OF r3] and f6 = read_clock_facts [OF r6]
    have w4: "w_sent w4 = w_sent w1" "w_clock w4 = w_clock w3" "w_last_start w4 = w_last_start w3" "w_starts w4 = w_starts w3"
      using r4 f3 acquire_starts(3) [where e = e and m = ?m and w = w1] by (auto simp: read_wall_def w2_def)
    have s5: "sends e ?m w1 w5" unfolding sends_def
    proof (intro conjI impI)
      assume m: "0 \<le> ?m" and p: "paced ?m w1"
      have "paced ?m w3" by (rule paced_later [OF acquire_paced(1) [OF p m] f3(2-4) [unfolded w2_def]])
      then show "paced ?m w5" by (rule paced_later) (simp_all add: w5_def w4)
    qed (use w4 f3 acquire_starts [where e = e and m = ?m and w = w1] in \<open>auto simp: w5_def w2_def\<close>)
    then have s6: "sends e ?m w1 w6"
      using f6 paced_later [where m = ?m and w = w5 and w' = w6] by (auto simp: sends_def)
    note step = run [unfolded attempt_once_def a prod.case Inr sum.case, folded w2_def,
        unfolded r3 prod.case r4 Let_def, folded w5_def, unfolded w4(1) r6 prod.case]
    show ?thesis
    proof (cases "e_transport e (w_sent w1)")
      case (TransportRaised name)
      then show ?thesis using step a Inr s5
        by (intro unanswered [of u w1]) (auto split: if_splits)
    next
      case (TransportBroken err)
      then show ?thesis using step a Inr s5 by (intro unanswered [of u w1]) auto
    next
      case (TransportReplied status headers body)
      show ?thesis
      proof (cases "100 \<le> status \<and> status \<le> 599")
        case False
        then show ?thesis using step TransportReplied a Inr s6 by (intro unanswered [of u w1]) auto
      next
        case True
        let ?rsp = "\<lparr>rs_request = rq, rs_status = status, rs_headers = headers, rs_body = body,
            rs_requested_at = requested, rs_duration_ms = max 0 (round_half_even_div (stopped - started) 1000),
            rs_attempt = a\<rparr>"
        obtain r2 s2 where o: "on_response ?rsp s1 = (r2, s2)" by (cases "on_response ?rsp s1")
        obtain out2 s3 where h: "handle_reply final ?rsp on_response s1 = (out2, s3)"
          by (cases "handle_reply final ?rsp on_response s1")
        have "s3 = s2" using h o by (auto simp: handle_reply_def split: sum.splits if_splits)
        moreover have "out2 = out" "w6 = w'" "s3 = s'" using step TransportReplied True h by simp_all
        ultimately show ?thesis
          using a Inr s6 TransportReplied True o h by (intro answered [of u w1 s1 ?rsp r2]) simp_all
      qed
    qed
  qed
qed

text \<open>What \<open>handle_reply\<close> decides once the response is recorded.\<close>

lemma handle_reply_recorded:
  assumes "handle_reply final rsp on_response s = (out, s')" "on_response rsp s = (Inr u, s')"
  shows "(rs_status rsp = 403 \<longrightarrow> (\<exists>m. out = Finished (Inl (ArxivForbiddenError m)))) \<and>
     (\<forall>r. out = Finished (Inr r) \<longrightarrow> r = rsp \<and> 200 \<le> rs_status rsp \<and> rs_status rsp < 300)"
  using assms by (auto simp: handle_reply_def split: if_splits)


section \<open>The interface of the retry loop\<close>

text \<open>
  A preorder on the caller's state and the world that every attempt and every back-off respects is
  respected by the whole call.
\<close>

locale client_callbacks =
  fixes e :: env and c :: client_config and rq :: arxiv_request
    and on_response :: "http_response \<Rightarrow> 's \<Rightarrow> unit result \<times> 's"
    and on_attempt :: "nat \<Rightarrow> world \<Rightarrow> 's \<Rightarrow> unit result \<times> world \<times> 's"
    and R :: "world \<times> 's \<Rightarrow> world \<times> 's \<Rightarrow> bool"
  assumes R_refl: "R z z"
    and R_trans: "R z z' \<Longrightarrow> R z' z'' \<Longrightarrow> R z z''"
    and R_attempt: "attempt_once e c rq on_response on_attempt a final w s = (out, w', s') \<Longrightarrow> R (w, s) (w', s')"
    and R_backoff: "R (w, s) (backoff e c a ra w, s)"
begin

lemma get_loop_R: "get_loop n e c rq on_response on_attempt w s = (r, w', s') \<Longrightarrow> R (w, s) (w', s')"
proof (induction n arbitrary: w s)
  case 0
  then show ?case by (simp add: R_refl)
next
  case (Suc n)
  let ?a = "cc_retry_attempts c - n"
  obtain out w1 s1 where o: "attempt_once e c rq on_response on_attempt ?a (n = 0) w s = (out, w1, s1)"
    by (cases "attempt_once e c rq on_response on_attempt ?a (n = 0) w s")
  note one = R_attempt [OF o]
  show ?case
  proof (cases out)
    case (Finished q)
    then show ?thesis using Suc.prems o one by (simp add: Let_def)
  next
    case (Retry ra)
    have "get_loop n e c rq on_response on_attempt (backoff e c ?a ra w1) s1 = (r, w', s')"
      using Suc.prems o Retry by (simp add: Let_def)
    from Suc.IH [OF this] R_trans [OF one R_trans [OF R_backoff]] show ?thesis by blast
  qed
qed

lemma client_get_R: "client_get e c rq on_response on_attempt w s = (r, w', s') \<Longrightarrow> R (w, s) (w', s')"
  unfolding client_get_def by (rule get_loop_R)

end

lemma backoff_facts [simp]:
  "w_sent (backoff e c a ra w) = w_sent w" "w_starts (backoff e c a ra w) = w_starts w"
  "w_last_start (backoff e c a ra w) = w_last_start w" "w_clock w \<le> w_clock (backoff e c a ra w)"
  by (simp_all add: backoff_def sleep_for_def)

lemma backoff_paced: "paced m w \<Longrightarrow> paced m (backoff e c a ra w)"
  by (rule paced_later) simp_all

text \<open>A successful call ends with an attempt whose response was recorded.\<close>

lemma get_loop_success:
  assumes "get_loop n e c rq on_response on_attempt w s = (Inr rsp, w', s')"
  shows "\<exists>a w0 s0 w1 s1 u. on_attempt a w0 s0 = (Inr u, w1, s1) \<and> on_response rsp s1 = (Inr (), s')"
  using assms
proof (induction n arbitrary: w s)
  case (Suc n)
  let ?a = "cc_retry_attempts c - n"
  obtain out w1 s1 where o: "attempt_once e c rq on_response on_attempt ?a (n = 0) w s = (out, w1, s1)"
    by (cases "attempt_once e c rq on_response on_attempt ?a (n = 0) w s")
  show ?case
  proof (cases out)
    case (Retry ra)
    then show ?thesis using Suc o by (simp add: Let_def)
  next
    case (Finished q)
    then have q: "out = Finished (Inr rsp)" "s1 = s'" using Suc.prems o by (simp_all add: Let_def)
    from o show ?thesis
    proof (cases rule: attempt_once_cases)
      case (answered u w2 s2 rsp2 r2)
      have "r2 = Inr ()" using answered(6,7) q(1) by (cases r2) (auto simp: handle_reply_def)
      with answered(6,7) q(1,2) handle_reply_recorded [of "n = 0" rsp2 on_response s2 out s1 "()"] have "rsp2 = rsp" by simp
      with answered(1,6) \<open>r2 = Inr ()\<close> q(2) show ?thesis by blast
    next
      case (unanswered u w2)
      then show ?thesis using q(1) by blast
    qed (use q(1) in auto)
  qed
qed simp

end
