(* ===== verification/Raw_Store.thy ===== *)
theory Raw_Store
  imports Calendar
begin

text \<open>
  \<open>collector_core/raw_store.py\<close>: the immutable store of raw observations.  Below the root there is one
  directory per observation; \<open>raw_files\<close> maps its path (the parts below the root) to its two files.
  A temporary directory is not visible to any operation, so it is not part of the state.

  SHA-256 and gzip are the parameter \<open>codec\<close>; \<open>codec_ok\<close> is what the code relies on.  The metadata file
  is a typed record: \<open>json.load\<close> gives back what \<open>json.dump(sort_keys=True)\<close> wrote, with sorted keys.
  What may go wrong while a directory is published is the argument \<open>write_fault\<close>: an \<open>OSError\<close> with
  its message, or another writer of the same name.  Paths are resolved
  lexically (no symbolic links) and the root is absolute.
\<close>


section \<open>Paths\<close>

record pypath =
  path_absolute :: bool
  path_parts :: "string list"

fun split_on :: "char \<Rightarrow> string \<Rightarrow> string list" where
  "split_on sep [] = [[]]"
| "split_on sep (c # cs) =
     (if c = sep then [] # split_on sep cs
      else (case split_on sep cs of [] \<Rightarrow> [[c]] | w # ws \<Rightarrow> (c # w) # ws))"

text \<open>\<open>Path(text)\<close>: empty and \<open>.\<close> components vanish.\<close>

definition path_of_text :: "string \<Rightarrow> pypath" where
  "path_of_text s =
     \<lparr>path_absolute = (case s of [] \<Rightarrow> False | c # _ \<Rightarrow> c = CHR ''/''),
      path_parts = filter (\<lambda>p. p \<noteq> [] \<and> p \<noteq> ''.'') (split_on CHR ''/'' s)\<rparr>"

definition resolve_step :: "string list \<Rightarrow> string \<Rightarrow> string list" where
  "resolve_step acc p = (if p = ''..'' then tl acc else p # acc)"

definition resolve_parts :: "string list \<Rightarrow> string list" where
  "resolve_parts ps = rev (foldl resolve_step [] ps)"

fun relative_to :: "string list \<Rightarrow> string list \<Rightarrow> string list option" where
  "relative_to ps [] = Some ps"
| "relative_to [] (r # rs) = None"
| "relative_to (p # ps) (r # rs) = (if p = r then relative_to ps rs else None)"

text \<open>The parts from the first occurrence of the source name on.\<close>

definition from_source :: "string \<Rightarrow> string list \<Rightarrow> string list option" where
  "from_source source ps =
     (let rest = dropWhile (\<lambda>p. p \<noteq> source) ps in if rest = [] then None else Some rest)"

definition source_char :: "char \<Rightarrow> bool" where
  "source_char c = (let n = (of_char c :: nat) in (97 \<le> n \<and> n \<le> 122) \<or> (48 \<le> n \<and> n \<le> 57))"

definition source_ok :: "string \<Rightarrow> bool" where
  "source_ok s = (case s of [] \<Rightarrow> False
     | c # cs \<Rightarrow> source_char c \<and> list_all (\<lambda>d. source_char d \<or> d = CHR ''_'' \<or> d = CHR ''-'') cs)"

definition validate_source :: "string \<Rightarrow> unit result" where
  "validate_source s = (if source_ok s then Inr () else Inl (ValueError ''source must match ^[a-z0-9][a-z0-9_-]*$''))"

definition logical_key :: "string list \<Rightarrow> pypath \<Rightarrow> string \<Rightarrow> string result" where
  "logical_key root directory source =
     result_bind (validate_source source) (\<lambda>_.
     result_bind
       (case relative_to (resolve_parts (path_parts directory)) (resolve_parts root) of
          Some relative \<Rightarrow> Inr relative
        | None \<Rightarrow> (case from_source source (path_parts directory) of
            None \<Rightarrow> Inl (ValueError ''Raw path is outside the configured root'')
          | Some relative \<Rightarrow> Inr relative))
       (\<lambda>relative. case relative of
          [] \<Rightarrow> Inl (OtherError ''IndexError'' ''tuple index out of range'')
        | p # ps \<Rightarrow> (if p \<noteq> source \<or> ''..'' \<in> set relative then Inl (ValueError ''invalid Raw logical key'')
            else Inr (join ''/'' relative))))"

definition resolve_key :: "string list \<Rightarrow> string \<Rightarrow> string \<Rightarrow> string list result" where
  "resolve_key root raw_path source =
     result_bind (validate_source source) (\<lambda>_.
       (let persisted = path_of_text raw_path; parts = path_parts persisted in
        if path_absolute persisted \<and> relative_to (resolve_parts parts) (resolve_parts root) \<noteq> None
        then Inr (resolve_parts parts)
        else
          (case from_source source parts of
             None \<Rightarrow> Inl (ValueError ''Raw pointer has no source segment'')
           | Some relative \<Rightarrow>
               (let resolved = resolve_parts (root @ relative) in
                case relative_to resolved (resolve_parts root) of
                  None \<Rightarrow> Inl (ValueError ''Raw pointer escapes the configured root'')
                | Some _ \<Rightarrow> Inr resolved))))"


section \<open>Records\<close>

record codec =
  cd_sha256 :: "string \<Rightarrow> string"
  cd_gzip :: "string \<Rightarrow> string"
  cd_gunzip :: "string \<Rightarrow> string option"

definition codec_ok :: "codec \<Rightarrow> bool" where
  "codec_ok c = ((\<forall>p. cd_gunzip c (cd_gzip c p) = Some p) \<and>
     (\<forall>p. cd_sha256 c p \<noteq> [] \<and> CHR ''/'' \<notin> set (cd_sha256 c p)))"

record raw_metadata =
  md_source :: string
  md_request_timestamp :: int
  md_collector_version :: string
  md_schema_version :: string
  md_sha256 :: string
  md_uncompressed_bytes :: int
  md_source_metadata :: jdict

record raw_dir =
  rd_payload :: string
  rd_metadata :: raw_metadata

record raw_record =
  rr_directory :: "string list"
  rr_metadata :: raw_metadata

type_synonym raw_files = "(string list, raw_dir) dict"

record write_request =
  wr_source :: string
  wr_payload :: string
  wr_request_timestamp :: pydatetime
  wr_collector_version :: string
  wr_schema_version :: string
  wr_source_metadata :: jdict

datatype write_fault =
    NoFault
  | FaultPayload string \<comment> \<open>the payload or the temporary directory cannot be written\<close>
  | FaultMetadata string
  | FaultRename string
  | RivalPublished raw_dir \<comment> \<open>another writer published this name first; the rename reports \<open>EEXIST\<close>\<close>
  | RivalNotEmpty raw_dir \<comment> \<open>the same, reported as \<open>ENOTEMPTY\<close>, which is not a \<open>FileExistsError\<close>\<close>
  | FaultSync string

definition sorted_json :: "jdict \<Rightarrow> jdict" where
  "sorted_json d = (case json_canon (JObj d) of JObj d' \<Rightarrow> d' | _ \<Rightarrow> d)"

definition day_directory :: "string \<Rightarrow> int \<Rightarrow> string list" where
  "day_directory source t =
     (case civil_of_day (date_of t) of (y, m, d) \<Rightarrow> [source, pad 4 y, pad 2 m, pad 2 d])"

definition record_key :: "string \<Rightarrow> int \<Rightarrow> string \<Rightarrow> string list" where
  "record_key source t checksum = day_directory source t @ [compact_micro t @ ''_'' @ checksum]"

definition new_metadata :: "codec \<Rightarrow> write_request \<Rightarrow> int \<Rightarrow> raw_metadata" where
  "new_metadata c q t =
     \<lparr>md_source = wr_source q, md_request_timestamp = t, md_collector_version = wr_collector_version q,
      md_schema_version = wr_schema_version q, md_sha256 = cd_sha256 c (wr_payload q),
      md_uncompressed_bytes = int (length (wr_payload q)), md_source_metadata = sorted_json (wr_source_metadata q)\<rparr>"

definition new_dir :: "codec \<Rightarrow> write_request \<Rightarrow> int \<Rightarrow> raw_dir" where
  "new_dir c q t = \<lparr>rd_payload = cd_gzip c (wr_payload q), rd_metadata = new_metadata c q t\<rparr>"

definition raw_load :: "raw_files \<Rightarrow> string list \<Rightarrow> raw_record result" where
  "raw_load files directory =
     (case dict_get files directory of
        None \<Rightarrow> Inl (FileNotFoundError ''metadata.json'')
      | Some d \<Rightarrow> Inr \<lparr>rr_directory = directory, rr_metadata = rd_metadata d\<rparr>)"

definition raw_read :: "codec \<Rightarrow> raw_files \<Rightarrow> raw_record \<Rightarrow> string result" where
  "raw_read c files r =
     (case dict_get files (rr_directory r) of
        None \<Rightarrow> Inl (FileNotFoundError ''payload.gz'')
      | Some d \<Rightarrow>
          (case cd_gunzip c (rd_payload d) of
             None \<Rightarrow> Inl (OSError ''Not a gzipped file'')
           | Some payload \<Rightarrow>
               (if cd_sha256 c payload \<noteq> md_sha256 (rr_metadata r) then
                  Inl (DataIntegrityError ''checksum mismatch'')
                else if int (length payload) \<noteq> md_uncompressed_bytes (rr_metadata r) then
                  Inl (DataIntegrityError ''length mismatch'')
                else Inr payload)))"

definition load_checked :: "codec \<Rightarrow> raw_files \<Rightarrow> string list \<Rightarrow> raw_record result" where
  "load_checked c files directory =
     result_bind (raw_load files directory) (\<lambda>record. result_bind (raw_read c files record) (\<lambda>_. Inr record))"

definition publish :: "codec \<Rightarrow> write_fault \<Rightarrow> raw_files \<Rightarrow> string list \<Rightarrow> raw_dir \<Rightarrow> unit result \<times> raw_files" where
  "publish c fault files key d =
     (case fault of
        NoFault \<Rightarrow> (Inr (), dict_set key d files)
      | FaultPayload m \<Rightarrow> (Inl (OSError m), files)
      | FaultMetadata m \<Rightarrow> (Inl (OSError m), files)
      | FaultRename m \<Rightarrow> (Inl (OSError m), files)
      | RivalPublished d' \<Rightarrow> (Inr (), dict_set key d' files)
      | RivalNotEmpty d' \<Rightarrow> (Inl (OSError ''Directory not empty''), dict_set key d' files)
      | FaultSync m \<Rightarrow> (Inl (OSError m), dict_set key d files))"

definition raw_write :: "codec \<Rightarrow> write_fault \<Rightarrow> write_request \<Rightarrow> raw_files \<Rightarrow> raw_record result \<times> raw_files" where
  "raw_write c fault q files =
     (case validate_source (wr_source q) of
        Inl e \<Rightarrow> (Inl e, files)
      | Inr _ \<Rightarrow>
          (case utc_instant (wr_request_timestamp q) of
             None \<Rightarrow> (Inl (ValueError ''request_timestamp must be timezone-aware''), files)
           | Some t \<Rightarrow>
               (let key = record_key (wr_source q) t (cd_sha256 c (wr_payload q)) in
                if dict_get files key \<noteq> None then (load_checked c files key, files)
                else
                  (case publish c fault files key (new_dir c q t) of
                     (Inl e, files') \<Rightarrow> (Inl e, files')
                   | (Inr _, files') \<Rightarrow> (load_checked c files' key, files')))))"

text \<open>\<open>sorted(glob("*/*/*/*/metadata.json"))\<close> below the directory of the source.\<close>

definition iter_records :: "raw_files \<Rightarrow> string \<Rightarrow> raw_record list result" where
  "iter_records files source =
     result_bind (validate_source source) (\<lambda>_.
       result_map (raw_load files)
         (sort (filter (\<lambda>k. length k = 5 \<and> hd k = source) (dict_keys files))))"

text \<open>\<open>raw.directory.parents[4]\<close> is the root of the store.\<close>

definition raw_path_of :: "string list \<Rightarrow> raw_record \<Rightarrow> string result" where
  "raw_path_of root raw =
     (let directory = root @ rr_directory raw in
      logical_key (take (length directory - 5) directory) \<lparr>path_absolute = True, path_parts = directory\<rparr>
        (md_source (rr_metadata raw)))"


section \<open>Names\<close>

lemma pad_chars: "c \<in> set (pad w n) \<Longrightarrow> digit_of c \<noteq> None"
proof -
  have z: "digit_of CHR ''0'' = Some 0" by (simp add: digit_of_def)
  assume "c \<in> set (pad w n)"
  then have "c = CHR ''0'' \<or> c \<in> set (show_nat (nat n))"
    by (auto simp: pad_def show_padded_def pad_left_def)
  then show ?thesis using show_nat_digits [of "nat n"] z by fastforce
qed

lemma pad_nonempty: "pad w n \<noteq> []"
  using show_nat_nonempty by (simp add: pad_def show_padded_def pad_left_def)

lemma not_digits [simp]: "digit_of CHR ''_'' = None" "digit_of CHR ''/'' = None" "digit_of CHR ''.'' = None"
  by (simp_all add: digit_of_def)

lemma compact_micro_chars: "c \<in> set (compact_micro t) \<Longrightarrow> digit_of c \<noteq> None \<or> c \<in> {CHR ''T'', CHR ''.'', CHR ''Z''}"
  by (auto simp: compact_micro_def dest: pad_chars split: prod.splits)

lemma compact_micro_no_underscore: "CHR ''_'' \<notin> set (compact_micro t)"
  using compact_micro_chars [of "CHR ''_''" t] by auto

lemma compact_micro_no_slash: "CHR ''/'' \<notin> set (compact_micro t)"
  using compact_micro_chars [of "CHR ''/''" t] by auto

lemma name_checksum:
  assumes "compact_micro t @ CHR ''_'' # a = compact_micro u @ CHR ''_'' # b"
  shows "compact_micro t = compact_micro u" "a = b"
proof -
  have "takeWhile (\<lambda>c. c \<noteq> CHR ''_'') (compact_micro t @ CHR ''_'' # a) = compact_micro t" for t a
    using compact_micro_no_underscore [of t] by (subst takeWhile_append2) auto
  then show "compact_micro t = compact_micro u" using assms by metis
  then show "a = b" using assms by simp
qed

lemma record_key_checksum: "record_key s t h = record_key s' t' h' \<Longrightarrow> h = h' \<and> s = s'"
  by (auto simp: record_key_def day_directory_def dest: name_checksum split: prod.splits)


section \<open>Soundness of the store\<close>

text \<open>A directory is sound when its name and its payload agree with its metadata.\<close>

definition sound_dir :: "codec \<Rightarrow> string list \<Rightarrow> raw_dir \<Rightarrow> bool" where
  "sound_dir c key d =
     (let m = rd_metadata d in
      source_ok (md_source m) \<and> key = record_key (md_source m) (md_request_timestamp m) (md_sha256 m) \<and>
      (case cd_gunzip c (rd_payload d) of
         None \<Rightarrow> False
       | Some p \<Rightarrow> cd_sha256 c p = md_sha256 m \<and> int (length p) = md_uncompressed_bytes m))"

definition store_sound :: "codec \<Rightarrow> raw_files \<Rightarrow> bool" where
  "store_sound c files =
     (distinct (dict_keys files) \<and> list_all (\<lambda>(key, d). sound_dir c key d) files)"

text \<open>A rival writer of the same name publishes a sound directory, as it runs the same code.\<close>

definition fault_sound :: "codec \<Rightarrow> write_request \<Rightarrow> write_fault \<Rightarrow> bool" where
  "fault_sound c q fault =
     (let sound = (\<lambda>d. \<exists>t. utc_instant (wr_request_timestamp q) = Some t \<and>
                     sound_dir c (record_key (wr_source q) t (cd_sha256 c (wr_payload q))) d)
      in case fault of RivalPublished d \<Rightarrow> sound d | RivalNotEmpty d \<Rightarrow> sound d | _ \<Rightarrow> True)"

lemma store_sound_get: "store_sound c files \<Longrightarrow> dict_get files k = Some d \<Longrightarrow> sound_dir c k d"
  by (auto simp: store_sound_def list_all_iff dest: map_of_SomeD)

lemma store_sound_set:
  assumes "store_sound c files" "sound_dir c k d"
  shows "store_sound c (dict_set k d files)"
proof -
  have dk: "distinct (dict_keys (dict_set k d files))" using assms(1) by (simp add: store_sound_def distinct_update)
  have "sound_dir c k' d'" if "(k', d') \<in> set (dict_set k d files)" for k' d'
  proof -
    from map_of_is_SomeI [OF dk that] have "(if k' = k then Some d else dict_get files k') = Some d'" by simp
    then show ?thesis using assms store_sound_get by (auto split: if_splits)
  qed
  with dk show ?thesis by (auto simp: store_sound_def list_all_iff)
qed

lemma new_dir_sound:
  assumes "codec_ok c" "source_ok (wr_source q)"
  shows "sound_dir c (record_key (wr_source q) t (cd_sha256 c (wr_payload q))) (new_dir c q t)"
  using assms by (simp add: sound_dir_def new_dir_def new_metadata_def codec_ok_def)

lemma load_checked_ok:
  assumes "store_sound c files" "dict_get files k = Some d"
  shows "load_checked c files k = Inr \<lparr>rr_directory = k, rr_metadata = rd_metadata d\<rparr>"
  using store_sound_get [OF assms] assms(2)
  by (auto simp: load_checked_def raw_load_def raw_read_def sound_dir_def Let_def split: option.splits)

lemma load_checked_Inr:
  "load_checked c files k = Inr r \<Longrightarrow> raw_load files k = Inr r \<and> (\<exists>p. raw_read c files r = Inr p) \<and>
     rr_directory r = k \<and> dict_get files k \<noteq> None"
  by (auto simp: load_checked_def raw_load_def split: option.splits)

text \<open>The cases of a write: rejected, already there, failed before or after publication, published.\<close>

lemma raw_write_cases:
  assumes "raw_write c fault q files = (r, files')"
  obtains (rejected) e where "r = Inl e" "files' = files"
  | (there) t where "utc_instant (wr_request_timestamp q) = Some t" "source_ok (wr_source q)"
      "dict_get files (record_key (wr_source q) t (cd_sha256 c (wr_payload q))) \<noteq> None"
      "files' = files" "r = load_checked c files (record_key (wr_source q) t (cd_sha256 c (wr_payload q)))"
  | (published) t d where "utc_instant (wr_request_timestamp q) = Some t" "source_ok (wr_source q)"
      "dict_get files (record_key (wr_source q) t (cd_sha256 c (wr_payload q))) = None"
      "d = new_dir c q t \<or> fault = RivalPublished d \<or> fault = RivalNotEmpty d"
      "files' = dict_set (record_key (wr_source q) t (cd_sha256 c (wr_payload q))) d files"
      "r = load_checked c files' (record_key (wr_source q) t (cd_sha256 c (wr_payload q))) \<or> is_ok r = False"
      "fault = NoFault \<Longrightarrow> d = new_dir c q t"
      "fault = NoFault \<Longrightarrow> r = load_checked c files' (record_key (wr_source q) t (cd_sha256 c (wr_payload q)))"
proof (cases "source_ok (wr_source q)")
  case False
  then show ?thesis using assms rejected by (auto simp: raw_write_def validate_source_def)
next
  case True
  show ?thesis
  proof (cases "utc_instant (wr_request_timestamp q)")
    case None
    then show ?thesis using assms True rejected by (auto simp: raw_write_def validate_source_def)
  next
    case (Some t)
    show ?thesis
    proof (cases "dict_get files (record_key (wr_source q) t (cd_sha256 c (wr_payload q))) = None")
      case False
      show ?thesis
        by (rule there [OF Some True False])
          (use assms True Some False in \<open>auto simp: raw_write_def validate_source_def Let_def\<close>)
    next
      case n: True
      let ?key = "record_key (wr_source q) t (cd_sha256 c (wr_payload q))"
      have w: "(r, files') = (case publish c fault files ?key (new_dir c q t) of
          (Inl e, files') \<Rightarrow> (Inl e, files') | (Inr _, files') \<Rightarrow> (load_checked c files' ?key, files'))"
        using assms True Some n by (simp add: raw_write_def validate_source_def Let_def)
      note pub = published [OF Some True n]
      show ?thesis
      proof (cases fault)
        case NoFault
        show ?thesis by (rule pub [of "new_dir c q t"]) (use w NoFault in \<open>simp_all add: publish_def\<close>)
      next
        case (RivalPublished d)
        show ?thesis by (rule pub [of d]) (use w RivalPublished in \<open>simp_all add: publish_def\<close>)
      next
        case (RivalNotEmpty d)
        show ?thesis by (rule pub [of d]) (use w RivalNotEmpty in \<open>simp_all add: publish_def\<close>)
      next
        case (FaultSync e)
        show ?thesis by (rule pub [of "new_dir c q t"]) (use w FaultSync in \<open>simp_all add: publish_def\<close>)
      qed (use w rejected in \<open>simp_all add: publish_def\<close>)
    qed
  qed
qed

lemma raw_write_keeps:
  assumes "raw_write c fault q files = (r, files')" "dict_get files k = Some d"
  shows "dict_get files' k = Some d"
  using assms(1) by (cases rule: raw_write_cases) (use assms(2) in auto)

lemma raw_write_stores:
  assumes "raw_write c fault q files = (Inr rec, files')"
  shows "dict_get files' (rr_directory rec) \<noteq> None \<and> (\<exists>p. raw_read c files' rec = Inr p)"
  using assms
proof (cases rule: raw_write_cases)
  case (there t)
  then show ?thesis using load_checked_Inr [OF there(5) [symmetric]] by simp
next
  case (published t d)
  then have "load_checked c files' (record_key (wr_source q) t (cd_sha256 c (wr_payload q))) = Inr rec" by auto
  from load_checked_Inr [OF this] show ?thesis by auto
qed simp

lemma raw_write_sound:
  assumes "raw_write c fault q files = (r, files')" "codec_ok c" "store_sound c files" "fault_sound c q fault"
  shows "store_sound c files'"
  using assms(1)
proof (cases rule: raw_write_cases)
  case (published t d)
  have "sound_dir c (record_key (wr_source q) t (cd_sha256 c (wr_payload q))) d"
    using published(1,2,4) new_dir_sound [OF assms(2) published(2), of t] assms(4)
    by (auto simp: fault_sound_def)
  with published(5) store_sound_set [OF assms(3)] show ?thesis by blast
qed (use assms in auto)

lemma raw_read_keeps:
  assumes "raw_write c fault q files = (r, files')" "raw_read c files rec = Inr p"
  shows "raw_read c files' rec = Inr p"
proof -
  obtain d where d: "dict_get files (rr_directory rec) = Some d"
    using assms(2) by (auto simp: raw_read_def split: option.splits)
  from raw_write_keeps [OF assms(1) d] d show ?thesis using assms(2) by (simp add: raw_read_def)
qed


section \<open>The interface of an immutable store\<close>

text \<open>
  What the collectors rely on: nothing readable is ever lost, and what a successful put returns is
  readable.
\<close>

locale immutable_store =
  fixes put :: "'q \<Rightarrow> 'st \<Rightarrow> 'r result \<times> 'st"
    and read :: "'st \<Rightarrow> 'r \<Rightarrow> 'c result"
  assumes put_keeps: "put q s = (r, s') \<Longrightarrow> read s x = Inr c \<Longrightarrow> read s' x = Inr c"
    and put_readable: "put q s = (Inr x, s') \<Longrightarrow> is_ok (read s' x)"
begin

fun put_all :: "'q list \<Rightarrow> 'st \<Rightarrow> 'r result list \<times> 'st" where
  "put_all [] s = ([], s)"
| "put_all (q # qs) s = (case put q s of (r, s1) \<Rightarrow> (case put_all qs s1 of (rs, s2) \<Rightarrow> (r # rs, s2)))"

lemma put_all_keeps: "put_all qs s = (rs, s') \<Longrightarrow> read s x = Inr c \<Longrightarrow> read s' x = Inr c"
  by (induction qs arbitrary: s rs) (auto split: prod.splits intro: put_keeps)

lemma put_all_readable: "put_all qs s = (rs, s') \<Longrightarrow> Inr x \<in> set rs \<Longrightarrow> is_ok (read s' x)"
proof (induction qs arbitrary: s rs)
  case (Cons q qs)
  obtain r s1 where p: "put q s = (r, s1)" by (cases "put q s")
  obtain rs2 s2 where a: "put_all qs s1 = (rs2, s2)" by (cases "put_all qs s1")
  have e: "rs = r # rs2" "s' = s2" using Cons.prems(1) p a by simp_all
  show ?case
  proof (cases "r = Inr x")
    case True
    with put_readable p obtain c where "read s1 x = Inr c" by (cases "read s1 x") fastforce+
    then show ?thesis using put_all_keeps [OF a] e by simp
  next
    case False
    then show ?thesis using Cons.IH [of s1 rs2] a Cons.prems(2) e by auto
  qed
qed simp

end

interpretation raw_store: immutable_store
  "\<lambda>(fault, q) (c, files). case raw_write c fault q files of (r, files') \<Rightarrow> (r, (c, files'))"
  "\<lambda>(c, files). raw_read c files"
  by unfold_locales (auto simp: is_ok_def split: prod.splits sum.splits dest: raw_read_keeps raw_write_stores)

section \<open>Paths stay below the root\<close>

lemma relative_to_append: "relative_to (r @ ps) r = Some ps"
  by (induction r) auto

lemma relative_to_SomeD: "relative_to ps r = Some xs \<Longrightarrow> ps = r @ xs"
  by (induction ps r rule: relative_to.induct) (auto split: if_splits)

lemma foldl_resolve_plain: "''..'' \<notin> set ps \<Longrightarrow> foldl resolve_step acc ps = rev ps @ acc"
  by (induction ps arbitrary: acc) (auto simp: resolve_step_def)

lemma resolve_parts_plain: "''..'' \<notin> set ps \<Longrightarrow> resolve_parts ps = ps"
  by (simp add: resolve_parts_def foldl_resolve_plain)

lemma resolve_parts_append_plain:
  "''..'' \<notin> set ps \<Longrightarrow> resolve_parts (r @ ps) = resolve_parts r @ ps"
  by (simp add: resolve_parts_def foldl_resolve_plain)

lemma set_foldl_resolve: "set (foldl resolve_step acc ps) \<subseteq> set acc \<union> (set ps - {''..''})"
proof (induction ps arbitrary: acc)
  case (Cons p ps)
  have "set (tl acc) \<subseteq> set acc" by (cases acc) auto
  moreover have "set (resolve_step acc p) \<subseteq> set (tl acc) \<union> set acc \<union> (set [p] - {''..''})"
    by (auto simp: resolve_step_def)
  ultimately show ?case using Cons [of "resolve_step acc p"] by fastforce
qed simp

lemma resolve_parts_no_up: "''..'' \<notin> set (resolve_parts ps)"
  using set_foldl_resolve [of "[]" ps] by (auto simp: resolve_parts_def)

lemma split_on_no_sep: "sep \<notin> set w \<Longrightarrow> split_on sep w = [w]"
  by (induction w) auto

lemma split_on_nonempty: "split_on sep s \<noteq> []"
  by (induction s) (auto split: list.splits)

lemma split_on_word: "sep \<notin> set w \<Longrightarrow> split_on sep (w @ sep # s) = w # split_on sep s"
  by (induction w) (auto simp: split_on_nonempty)

lemma split_on_join: "ws \<noteq> [] \<Longrightarrow> \<forall>w\<in>set ws. sep \<notin> set w \<Longrightarrow> split_on sep (join [sep] ws) = ws"
  by (induction "[sep]" ws rule: join.induct) (auto simp: split_on_no_sep split_on_word)

text \<open>A component of a name: not empty, no separator, neither \<open>.\<close> nor \<open>..\<close>.\<close>

definition plain_part :: "string \<Rightarrow> bool" where
  "plain_part p = (p \<noteq> [] \<and> p \<noteq> ''.'' \<and> p \<noteq> ''..'' \<and> CHR ''/'' \<notin> set p)"

lemma path_of_join:
  assumes "ps \<noteq> []" "\<forall>p\<in>set ps. plain_part p"
  shows "path_of_text (join ''/'' ps) = \<lparr>path_absolute = False, path_parts = ps\<rparr>"
proof -
  have f: "filter (\<lambda>p. p \<noteq> [] \<and> p \<noteq> ''.'') ps = ps"
    using assms(2) by (simp add: plain_part_def filter_id_conv)
  have sp: "split_on CHR ''/'' (join ''/'' ps) = ps"
    using split_on_join [of ps "CHR ''/''"] assms by (simp add: plain_part_def)
  obtain p qs where p: "ps = p # qs" using assms(1) by (cases ps) simp_all
  then obtain c cs where c: "p = c # cs" "c \<noteq> CHR ''/''"
    using assms(2) by (cases p) (auto simp: plain_part_def)
  have "\<exists>rest. join ''/'' ps = c # rest" unfolding p c(1) by (cases qs) simp_all
  then have "\<not> (case join ''/'' ps of [] \<Rightarrow> False | d # _ \<Rightarrow> d = CHR ''/'')" using c(2) by auto
  then show ?thesis unfolding path_of_text_def sp f by simp
qed

lemma source_ok_plain: "source_ok s \<Longrightarrow> plain_part s"
  by (cases s) (auto simp: source_ok_def plain_part_def source_char_def Let_def list_all_iff)

lemma pad_plain: "plain_part (pad w n)"
  using pad_chars [of "CHR ''/''" w n] pad_chars [of "CHR ''.''" w n] pad_nonempty [of w n]
  by (auto simp: plain_part_def)

lemma record_key_plain:
  assumes "source_ok s" "CHR ''/'' \<notin> set h"
  shows "\<forall>p\<in>set (record_key s t h). plain_part p"
proof -
  let ?name = "compact_micro t @ ''_'' @ h"
  have "CHR ''_'' \<in> set x \<Longrightarrow> x \<noteq> [] \<and> x \<noteq> ''.'' \<and> x \<noteq> ''..''" for x by auto
  moreover have "CHR ''_'' \<in> set ?name" by simp
  ultimately have "?name \<noteq> [] \<and> ?name \<noteq> ''.'' \<and> ?name \<noteq> ''..''" by blast
  moreover have "CHR ''/'' \<notin> set ?name" using assms(2) compact_micro_no_slash [of t] by simp
  ultimately have "plain_part ?name" unfolding plain_part_def by blast
  moreover obtain y m d where "civil_of_day (date_of t) = (y, m, d)" by (metis prod_cases3)
  ultimately show ?thesis
    using source_ok_plain [OF assms(1)] pad_plain by (simp add: record_key_def day_directory_def)
qed

lemma resolve_key_below:
  assumes "resolve_key root raw_path source = Inr d"
  shows "\<exists>below. d = resolve_parts root @ below \<and> ''..'' \<notin> set d"
proof -
  obtain ps where "d = resolve_parts ps" "relative_to d (resolve_parts root) \<noteq> None"
    using assms by (auto simp: resolve_key_def Let_def split: if_splits option.splits)
  then show ?thesis using relative_to_SomeD resolve_parts_no_up by blast
qed

lemma from_source_hd [simp]: "from_source s (s # ps) = Some (s # ps)"
  by (simp add: from_source_def)

lemma record_key_hd: "\<exists>ps. record_key s t h = s # ps"
  by (simp add: record_key_def day_directory_def split: prod.splits)

lemma plain_no_up: "\<forall>p\<in>set ps. plain_part p \<Longrightarrow> ''..'' \<notin> set ps"
  by (auto simp: plain_part_def)

lemma logical_key_record:
  assumes "source_ok s" "CHR ''/'' \<notin> set h"
  shows "logical_key root \<lparr>path_absolute = True, path_parts = root @ record_key s t h\<rparr> s =
     Inr (join ''/'' (record_key s t h))"
proof -
  obtain ps where k: "record_key s t h = s # ps" using record_key_hd by blast
  have u: "''..'' \<notin> set (record_key s t h)" by (rule plain_no_up [OF record_key_plain [OF assms]])
  have "relative_to (resolve_parts (root @ record_key s t h)) (resolve_parts root) = Some (record_key s t h)"
    by (simp add: resolve_parts_append_plain [OF u] relative_to_append)
  then show ?thesis using assms(1) u by (simp add: logical_key_def validate_source_def k)
qed

lemma resolve_key_record:
  assumes "source_ok s" "CHR ''/'' \<notin> set h"
  shows "resolve_key root (join ''/'' (record_key s t h)) s = Inr (resolve_parts root @ record_key s t h)"
proof -
  obtain ps where k: "record_key s t h = s # ps" using record_key_hd by blast
  note pl = record_key_plain [OF assms, of t]
  have p: "path_of_text (join ''/'' (record_key s t h)) = \<lparr>path_absolute = False, path_parts = record_key s t h\<rparr>"
    by (rule path_of_join) (use k pl in auto)
  show ?thesis
    using assms(1) resolve_parts_append_plain [OF plain_no_up [OF pl], of root]
    by (simp add: resolve_key_def validate_source_def p Let_def relative_to_append) (simp add: k relative_to_append)
qed

section \<open>Pointers\<close>

text \<open>
  The pointer of a database row is good when it is the logical key of a directory that can be read and the
  payload has the row's checksum.
\<close>

definition pointer_ok :: "codec \<Rightarrow> raw_files \<Rightarrow> string \<Rightarrow> string \<Rightarrow> string \<Rightarrow> bool" where
  "pointer_ok c files src path checksum =
     (\<exists>t h rec p. CHR ''/'' \<notin> set h \<and> path = join ''/'' (record_key src t h) \<and>
        raw_load files (record_key src t h) = Inr rec \<and> raw_read c files rec = Inr p \<and> cd_sha256 c p = checksum)"

definition files_kept :: "raw_files \<Rightarrow> raw_files \<Rightarrow> bool" where
  "files_kept files files' = (\<forall>k d. dict_get files k = Some d \<longrightarrow> dict_get files' k = Some d)"

lemma pointer_ok_kept:
  assumes "pointer_ok c files src path checksum" "files_kept files files'"
  shows "pointer_ok c files' src path checksum"
proof -
  obtain t h rec p where e: "CHR ''/'' \<notin> set h" "path = join ''/'' (record_key src t h)"
    "raw_load files (record_key src t h) = Inr rec" "raw_read c files rec = Inr p" "cd_sha256 c p = checksum"
    using assms(1) unfolding pointer_ok_def by blast
  have "raw_load files' (record_key src t h) = Inr rec"
    using e(3) assms(2) by (auto simp: raw_load_def files_kept_def split: option.splits)
  moreover have "raw_read c files' rec = Inr p"
    using e(4) assms(2) by (auto simp: raw_read_def files_kept_def split: option.splits)
  ultimately show ?thesis using e unfolding pointer_ok_def by metis
qed

lemma pointer_resolves:
  assumes "pointer_ok c files src path checksum" "source_ok src"
  shows "\<exists>key. resolve_key root path src = Inr (resolve_parts root @ key) \<and> dict_get files key \<noteq> None"
proof -
  obtain t h rec where e: "CHR ''/'' \<notin> set h" "path = join ''/'' (record_key src t h)"
    "raw_load files (record_key src t h) = Inr rec" using assms(1) by (auto simp: pointer_ok_def)
  from resolve_key_record [OF assms(2) e(1)] e show ?thesis by (auto simp: raw_load_def split: option.splits)
qed

lemma length_record_key: "length (record_key s t h) = 5"
  by (simp add: record_key_def day_directory_def split: prod.splits)

lemma raw_path_of_key:
  assumes "raw_path_of root rec = Inr path" "rr_directory rec = record_key src t h" "CHR ''/'' \<notin> set h" "source_ok src"
  shows "path = join ''/'' (record_key src t h)"
proof -
  let ?k = "record_key src t h"
  obtain ps where k: "?k = src # ps" using record_key_hd by blast
  from plain_no_up [OF record_key_plain [OF assms(4,3)]] have u: "''..'' \<notin> set ?k" .
  have "relative_to (resolve_parts (root @ ?k)) (resolve_parts root) = Some ?k"
    by (simp add: resolve_parts_append_plain [OF u] relative_to_append)
  moreover have "take (length (root @ ?k) - 5) (root @ ?k) = root" by (simp add: length_record_key)
  ultimately show ?thesis
    using assms(1) by (auto simp: raw_path_of_def assms(2) logical_key_def Let_def k validate_source_def split: if_splits)
qed

lemma raw_write_record:
  assumes "raw_write c fault q files = (Inr rec, files')"
  shows "\<exists>t p. rr_directory rec = record_key (wr_source q) t (cd_sha256 c (wr_payload q)) \<and>
    raw_load files' (rr_directory rec) = Inr rec \<and> raw_read c files' rec = Inr p \<and> cd_sha256 c p = md_sha256 (rr_metadata rec)"
proof -
  have "\<exists>t. load_checked c files' (record_key (wr_source q) t (cd_sha256 c (wr_payload q))) = Inr rec"
    using assms by (cases rule: raw_write_cases) auto
  then obtain t where t: "load_checked c files' (record_key (wr_source q) t (cd_sha256 c (wr_payload q))) = Inr rec" ..
  from load_checked_Inr [OF this] obtain p where p: "raw_read c files' rec = Inr p" by blast
  then have "cd_sha256 c p = md_sha256 (rr_metadata rec)"
    by (auto simp: raw_read_def split: option.splits if_splits)
  with load_checked_Inr [OF t] p show ?thesis by auto
qed

lemma raw_write_kept: "raw_write c fault q files = (r, files') \<Longrightarrow> files_kept files files'"
  using raw_write_keeps by (simp add: files_kept_def)

lemma raw_write_pointer:
  assumes "raw_write c fault q files = (Inr rec, files')" "codec_ok c" "source_ok (wr_source q)"
    "raw_path_of root rec = Inr path"
  shows "pointer_ok c files' (wr_source q) path (md_sha256 (rr_metadata rec))"
proof -
  from raw_write_record [OF assms(1)] obtain t p where
    k: "rr_directory rec = record_key (wr_source q) t (cd_sha256 c (wr_payload q))"
    "raw_load files' (rr_directory rec) = Inr rec" "raw_read c files' rec = Inr p" "cd_sha256 c p = md_sha256 (rr_metadata rec)"
    by blast
  have h: "CHR ''/'' \<notin> set (cd_sha256 c (wr_payload q))" using assms(2) by (simp add: codec_ok_def)
  show ?thesis using raw_path_of_key [OF assms(4) k(1) h assms(3)] h k unfolding pointer_ok_def by metis
qed



section \<open>Repeated writes\<close>

lemma put_all_codec: "raw_store.put_all qs (c, files) = (rs, (c', files')) \<Longrightarrow> c' = c"
  by (induction qs arbitrary: files rs) (auto split: prod.splits)

text \<open>A write of a payload that is already there returns the stored record, whatever the metadata.\<close>

lemma raw_write_again:
  assumes "store_sound c files" "utc_instant (wr_request_timestamp q) = Some t" "source_ok (wr_source q)"
    and "dict_get files (record_key (wr_source q) t (cd_sha256 c (wr_payload q))) = Some d"
  shows "raw_write c fault q files =
     (Inr \<lparr>rr_directory = record_key (wr_source q) t (cd_sha256 c (wr_payload q)), rr_metadata = rd_metadata d\<rparr>, files)"
  using load_checked_ok [OF assms(1,4)] assms(2-4)
  by (simp add: raw_write_def validate_source_def Let_def)

lemma raw_write_retry:
  assumes "codec_ok c" "store_sound c files" "utc_instant (wr_request_timestamp q) = Some t" "source_ok (wr_source q)"
  shows "is_ok (fst (raw_write c NoFault q files))"
proof (cases "dict_get files (record_key (wr_source q) t (cd_sha256 c (wr_payload q)))")
  case (Some d)
  then show ?thesis using raw_write_again [OF assms(2-4)] by simp
next
  case None
  let ?k = "record_key (wr_source q) t (cd_sha256 c (wr_payload q))"
  have "store_sound c (dict_set ?k (new_dir c q t) files)"
    by (rule store_sound_set [OF assms(2) new_dir_sound [OF assms(1,4)]])
  from load_checked_ok [OF this, of ?k "new_dir c q t"] show ?thesis
    using None assms(3,4) by (simp add: raw_write_def validate_source_def Let_def publish_def)
qed


section \<open>Properties\<close>


definition demo_codec :: codec where
  "demo_codec = \<lparr>cd_sha256 = (\<lambda>p. ''h'' @ show_nat (length p)), cd_gzip = (\<lambda>p. CHR ''z'' # p),
     cd_gunzip = (\<lambda>s. case s of [] \<Rightarrow> None | _ # p \<Rightarrow> Some p)\<rparr>"

definition demo_write :: write_request where
  "demo_write = \<lparr>wr_source = ''arxiv'', wr_payload = ''<feed/>'', wr_request_timestamp = utc (day_us + 5),
     wr_collector_version = ''0.1.0'', wr_schema_version = ''v1'', wr_source_metadata = [(''b'', JInt 2), (''a'', JInt 1)]\<rparr>"

lemma demo_codec_ok: "codec_ok demo_codec"
  using show_nat_digits not_digits(2) by (fastforce simp: codec_ok_def demo_codec_def)

lemma demo_write_fresh: "source_ok (wr_source demo_write)" "utc_instant (wr_request_timestamp demo_write) \<noteq> None"
  by code_simp+


text \<open>
  C13: an observation that was written can be read back byte for byte, now and after any later sequence
  of writes with any faults; writing the same payload for the same instant again changes nothing and
  returns the record of the first write.
\<close>

theorem raw_write_then_read:
  assumes "codec_ok c" "store_sound c files" "raw_write c NoFault q files = (Inr rec, files')"
    and "dict_get files (rr_directory rec) = None"
  shows "raw_read c files' rec = Inr (wr_payload q) \<and>
     (\<forall>qs rs files''. raw_store.put_all qs (c, files') = (rs, (c, files'')) \<longrightarrow>
        raw_read c files'' rec = Inr (wr_payload q)) \<and>
     (\<forall>fault extra. raw_write c fault (q\<lparr>wr_source_metadata := extra\<rparr>) files' = (Inr rec, files'))"
  using assms(3)
proof (cases rule: raw_write_cases)
  case (there t)
  then have "rr_directory rec = record_key (wr_source q) t (cd_sha256 c (wr_payload q))"
    using load_checked_Inr by metis
  with there(3) assms(4) show ?thesis by simp
next
  case (published t d)
  let ?k = "record_key (wr_source q) t (cd_sha256 c (wr_payload q))"
  have f: "files' = dict_set ?k (new_dir c q t) files" using published(5,7) by simp
  have s: "store_sound c files'" unfolding f
    by (rule store_sound_set [OF assms(2) new_dir_sound [OF assms(1) published(2)]])
  have g: "dict_get files' ?k = Some (new_dir c q t)" by (simp add: f)
  have rec: "rec = \<lparr>rr_directory = ?k, rr_metadata = new_metadata c q t\<rparr>"
    using published(8) load_checked_ok [OF s g] by (simp add: new_dir_def)
  have r: "raw_read c files' rec = Inr (wr_payload q)"
    using assms(1) g by (simp add: raw_read_def rec new_dir_def new_metadata_def codec_ok_def)
  have "raw_read c files'' rec = Inr (wr_payload q)"
    if "raw_store.put_all qs (c, files') = (rs, (c, files''))" for qs rs files''
    using raw_store.put_all_keeps [OF that, of rec "wr_payload q"] r by simp
  moreover have "raw_write c fault (q\<lparr>wr_source_metadata := extra\<rparr>) files' = (Inr rec, files')" for fault extra
    using raw_write_again [OF s, of "q\<lparr>wr_source_metadata := extra\<rparr>" t "new_dir c q t" fault] published(1,2) g
    by (simp add: rec new_dir_def)
  ultimately show ?thesis using r by blast
qed simp

theorem raw_write_then_read_witness:
  "\<exists>rec files'. raw_write demo_codec NoFault demo_write [] = (Inr rec, files') \<and>
     raw_read demo_codec files' rec = Inr ''<feed/>''"
proof -
  have s: "store_sound demo_codec []" by (simp add: store_sound_def)
  obtain r files' where w: "raw_write demo_codec NoFault demo_write [] = (r, files')"
    by (cases "raw_write demo_codec NoFault demo_write []")
  with raw_write_retry [OF demo_codec_ok s, of demo_write] demo_write_fresh obtain rec where "r = Inr rec"
    by (cases r) auto
  with w raw_write_then_read [OF demo_codec_ok s, of demo_write rec files'] show ?thesis
    by (simp add: demo_write_def)
qed

text \<open>
  Whatever path a database row holds, the directory that \<open>resolve_key\<close> returns lies below the
  configured root and has no upward component.
\<close>

theorem resolve_key_confined:
  "case resolve_key root raw_path source of
     Inr d \<Rightarrow> (\<exists>below. d = resolve_parts root @ below \<and> ''..'' \<notin> set d) | Inl _ \<Rightarrow> True"
  using resolve_key_below by (auto split: sum.splits)

text \<open>
  The logical key of a stored observation is portable: resolved against any other root it names the
  same observation below that root.
\<close>

theorem logical_key_portable:
  assumes "codec_ok c" "source_ok s"
  shows "\<exists>key. logical_key root \<lparr>path_absolute = True, path_parts = root @ record_key s t (cd_sha256 c p)\<rparr> s = Inr key \<and>
     (\<forall>root'. resolve_key root' key s = Inr (resolve_parts root' @ record_key s t (cd_sha256 c p)))"
proof -
  have h: "CHR ''/'' \<notin> set (cd_sha256 c p)" using assms(1) by (simp add: codec_ok_def)
  show ?thesis
    using logical_key_record [OF assms(2) h] resolve_key_record [OF assms(2) h] by blast
qed

theorem logical_key_portable_witness:
  "\<exists>key. logical_key [''data'', ''raw''] \<lparr>path_absolute = True, path_parts = [''data'', ''raw''] @
        record_key ''arxiv'' 0 (cd_sha256 demo_codec ''x'')\<rparr> ''arxiv'' = Inr key \<and>
     resolve_key [''mnt''] key ''arxiv'' = Inr (''mnt'' # record_key ''arxiv'' 0 (cd_sha256 demo_codec ''x''))"
proof -
  have "source_ok ''arxiv''" "resolve_parts [''mnt''] = [''mnt'']" by code_simp+
  with logical_key_portable [OF demo_codec_ok, of "''arxiv''" "[''data'', ''raw'']" 0 "''x''"] show ?thesis by fastforce
qed

end
