(* ===== verification/Arxiv_Persistence.thy ===== *)
theory Arxiv_Persistence
  imports Raw_Store Source_Models Arxiv_Client
begin

text \<open>
  \<open>arxiv_collector/persistence.py\<close> with the parsed values of \<open>models.py\<close>: the rows that a response and
  its feed leave in the database.  An ORM object is the identity of its row; a \<open>select\<close> sees what was
  added before it (autoflush), so every addition is made to the tables at once.  Replacing the
  \<open>authors\<close> collection deletes the relations that are no longer in it.  Unicode NFKC normalisation is
  the parameter \<open>nfkc\<close>.
\<close>


section \<open>Parsed values\<close>

record article =
  art_arxiv_id :: string
  art_latest_version :: "int option"
  art_title :: string
  art_abstract :: string
  art_published_at :: int
  art_updated_at :: int
  art_authors :: "string list"
  art_categories :: "string list"
  art_primary_category :: string
  art_comment :: "string option"
  art_journal_ref :: "string option"
  art_doi :: "string option"
  art_license_url :: "string option"
  art_abs_url :: string
  art_pdf_url :: "string option"
  art_is_withdrawn :: bool
  art_metadata :: jdict

record feed =
  fd_total_results :: int
  fd_start_index :: int
  fd_items_per_page :: int
  fd_articles :: "article list"
  fd_feed_id :: "string option"
  fd_updated_at :: "int option"
  fd_metadata :: jdict

definition feed_valid :: "feed \<Rightarrow> bool" where
  "feed_valid f = (fd_total_results f \<ge> 0 \<and> fd_start_index f \<ge> 0 \<and> fd_items_per_page f \<ge> 0)"

record counts =
  n_papers_inserted :: nat
  n_papers_updated :: nat
  n_papers_existing :: nat
  n_matches_added :: nat
  n_duplicate_papers :: nat

definition no_counts :: counts where
  "no_counts = \<lparr>n_papers_inserted = 0, n_papers_updated = 0, n_papers_existing = 0, n_matches_added = 0,
     n_duplicate_papers = 0\<rparr>"

definition add_counts :: "counts \<Rightarrow> counts \<Rightarrow> counts" where
  "add_counts a b =
     \<lparr>n_papers_inserted = n_papers_inserted a + n_papers_inserted b,
      n_papers_updated = n_papers_updated a + n_papers_updated b,
      n_papers_existing = n_papers_existing a + n_papers_existing b,
      n_matches_added = n_matches_added a + n_matches_added b,
      n_duplicate_papers = n_duplicate_papers a + n_duplicate_papers b\<rparr>"

text \<open>\<open>article.model_dump(mode="json")\<close>\<close>

definition article_json :: "article \<Rightarrow> jdict" where
  "article_json a =
     [(''arxiv_id'', JStr (art_arxiv_id a)), (''latest_version'', jopt JInt (art_latest_version a)),
      (''title'', JStr (art_title a)), (''abstract'', JStr (art_abstract a)),
      (''published_at'', JStr (iso_zulu (art_published_at a))), (''updated_at'', JStr (iso_zulu (art_updated_at a))),
      (''authors'', JList (map JStr (art_authors a))), (''categories'', JList (map JStr (art_categories a))),
      (''primary_category'', JStr (art_primary_category a)), (''comment'', jopt JStr (art_comment a)),
      (''journal_ref'', jopt JStr (art_journal_ref a)), (''doi'', jopt JStr (art_doi a)),
      (''license_url'', jopt JStr (art_license_url a)), (''abs_url'', JStr (art_abs_url a)),
      (''pdf_url'', jopt JStr (art_pdf_url a)), (''is_withdrawn'', JBool (art_is_withdrawn a)),
      (''metadata'', JObj (art_metadata a))]"


section \<open>The database\<close>

record arxiv_db =
  adb_raw :: "arxiv_raw_response list"
  adb_papers :: "arxiv_paper list"
  adb_authors :: "arxiv_author list"
  adb_paper_authors :: "arxiv_paper_author list"
  adb_categories :: "arxiv_category list"
  adb_paper_categories :: "arxiv_paper_category list"
  adb_observations :: "arxiv_observation list"
  adb_matches :: "arxiv_match list"
  adb_cursors :: "arxiv_cursor list"

definition normalize_author_name :: "(string \<Rightarrow> string) \<Rightarrow> string \<Rightarrow> string" where
  "normalize_author_name nfkc value = join '' '' (split_words (casefold (strip (nfkc value))))"

definition record_raw_response ::
  "string list \<Rightarrow> nat \<Rightarrow> nat \<Rightarrow> nat \<Rightarrow> raw_record \<Rightarrow> http_response \<Rightarrow> jdict \<Rightarrow> arxiv_db \<Rightarrow> nat result \<times> arxiv_db" where
  "record_raw_response root run topic mapping raw response request_metadata db =
     (case raw_path_of root raw of
        Inl e \<Rightarrow> (Inl e, db)
      | Inr raw_path \<Rightarrow>
          (case find (\<lambda>r. araw_raw_path r = raw_path) (adb_raw db) of
             Some r \<Rightarrow> (Inr (araw_id r), db)
           | None \<Rightarrow>
               (let i = fresh_id (map araw_id (adb_raw db));
                    row = \<lparr>araw_id = i, araw_run_id = run, araw_topic_id = topic, araw_mapping_id = mapping,
                      araw_raw_path = raw_path, araw_checksum = md_sha256 (rr_metadata raw),
                      araw_observed_at = rs_requested_at response,
                      araw_query = rq_search_query (rs_request response),
                      araw_start_index = rq_start (rs_request response),
                      araw_max_results = rq_max_results (rs_request response),
                      araw_sort_by = rq_sort_by (rs_request response),
                      araw_sort_order = rq_sort_order (rs_request response),
                      araw_http_status = rs_status response,
                      araw_response_headers = map (\<lambda>(k, v). (k, JStr v)) (rs_headers response),
                      araw_request_metadata = request_metadata,
                      araw_parsed_entry_count = None, araw_parse_error = None\<rparr>
                in (Inr i, db\<lparr>adb_raw := adb_raw db @ [row]\<rparr>))))"

definition update_raw :: "nat \<Rightarrow> (arxiv_raw_response \<Rightarrow> arxiv_raw_response) \<Rightarrow> arxiv_db \<Rightarrow> arxiv_db" where
  "update_raw i f db = db\<lparr>adb_raw := map (\<lambda>r. if araw_id r = i then f r else r) (adb_raw db)\<rparr>"

text \<open>\<open>message\<close> is \<open>f"{type(error).__name__}: {error}"\<close>.\<close>

definition record_parse_error :: "nat \<Rightarrow> string \<Rightarrow> arxiv_db \<Rightarrow> arxiv_db" where
  "record_parse_error raw message db =
     update_raw raw (\<lambda>r. r\<lparr>araw_parse_error := Some message, araw_parsed_entry_count := Some 0\<rparr>) db"

definition apply_values :: "article \<Rightarrow> arxiv_paper \<Rightarrow> arxiv_paper" where
  "apply_values a p = p\<lparr>paper_arxiv_id := art_arxiv_id a, paper_latest_version := art_latest_version a,
     paper_title := art_title a, paper_abstract := art_abstract a, paper_published_at := art_published_at a,
     paper_updated_at := art_updated_at a, paper_primary_category := art_primary_category a,
     paper_comment := art_comment a, paper_journal_ref := art_journal_ref a, paper_doi := art_doi a,
     paper_license_url := art_license_url a, paper_abs_url := art_abs_url a, paper_pdf_url := art_pdf_url a,
     paper_is_withdrawn := art_is_withdrawn a, paper_metadata := art_metadata a\<rparr>"

text \<open>Two dictionaries that differ in the order of keys only are equal.\<close>

definition values_changed :: "article \<Rightarrow> arxiv_paper \<Rightarrow> bool" where
  "values_changed a p =
     (\<not> (apply_values a p = p\<lparr>paper_metadata := art_metadata a\<rparr> \<and> jdict_eq (paper_metadata p) (art_metadata a)))"

datatype paper_state = PaperInserted | PaperUpdated | PaperExisting

definition blank_paper :: "nat \<Rightarrow> int \<Rightarrow> arxiv_paper" where
  "blank_paper i observed_at = \<lparr>paper_id = i, paper_arxiv_id = [], paper_latest_version = None, paper_title = [],
     paper_abstract = [], paper_published_at = 0, paper_updated_at = 0, paper_primary_category = [],
     paper_comment = None, paper_journal_ref = None, paper_doi = None, paper_license_url = None,
     paper_abs_url = [], paper_pdf_url = None, paper_is_withdrawn = False,
     paper_last_observed_at = observed_at, paper_metadata = []\<rparr>"

definition set_paper :: "arxiv_paper \<Rightarrow> arxiv_db \<Rightarrow> arxiv_db" where
  "set_paper p db = db\<lparr>adb_papers := map (\<lambda>r. if paper_id r = paper_id p then p else r) (adb_papers db)\<rparr>"

definition upsert_paper :: "article \<Rightarrow> int \<Rightarrow> arxiv_db \<Rightarrow> (nat \<times> paper_state) \<times> arxiv_db" where
  "upsert_paper a observed_at db =
     (case find (\<lambda>p. paper_arxiv_id p = art_arxiv_id a) (adb_papers db) of
        None \<Rightarrow>
          (let i = fresh_id (map paper_id (adb_papers db)) in
           ((i, PaperInserted), db\<lparr>adb_papers := adb_papers db @ [apply_values a (blank_paper i observed_at)]\<rparr>))
      | Some p \<Rightarrow>
          (let p' = p\<lparr>paper_last_observed_at := max (paper_last_observed_at p) observed_at\<rparr> in
           if art_updated_at a < paper_updated_at p then ((paper_id p, PaperExisting), set_paper p' db)
           else if \<not> values_changed a p' then ((paper_id p, PaperExisting), set_paper p' db)
           else ((paper_id p, PaperUpdated), set_paper (apply_values a p') db)))"

text \<open>The loop of \<open>_reconcile_authors\<close>: the desired relations from a position on, and the new authors.\<close>

fun desired_authors ::
  "(string \<Rightarrow> string) \<Rightarrow> nat \<Rightarrow> (int, arxiv_paper_author) dict \<Rightarrow> int \<Rightarrow> string list \<Rightarrow> arxiv_author list \<Rightarrow>
   arxiv_paper_author list \<times> arxiv_author list" where
  "desired_authors nfkc paper by_position position [] authors = ([], authors)"
| "desired_authors nfkc paper by_position position (name # names) authors =
     (let normalized = normalize_author_name nfkc name;
          keep = (case dict_get by_position position of
              None \<Rightarrow> None
            | Some relation \<Rightarrow>
                (case find (\<lambda>a. author_id a = pa_author_id relation) authors of
                   None \<Rightarrow> None
                 | Some a \<Rightarrow> (if author_display_name a = name \<and> author_normalized_name a = normalized
                              then Some relation else None)))
      in case keep of
           Some relation \<Rightarrow>
             (case desired_authors nfkc paper by_position (position + 1) names authors of
                (rest, authors') \<Rightarrow> (relation # rest, authors'))
         | None \<Rightarrow>
             (let i = fresh_id (map author_id authors);
                  author = \<lparr>author_id = i, author_display_name = name, author_normalized_name = normalized\<rparr>
              in case desired_authors nfkc paper by_position (position + 1) names (authors @ [author]) of
                (rest, authors') \<Rightarrow>
                  (\<lparr>pa_paper_id = paper, pa_position = position, pa_author_id = i\<rparr> # rest, authors')))"

definition reconcile_authors :: "(string \<Rightarrow> string) \<Rightarrow> nat \<Rightarrow> string list \<Rightarrow> arxiv_db \<Rightarrow> arxiv_db" where
  "reconcile_authors nfkc paper names db =
     (let mine = filter (\<lambda>r. pa_paper_id r = paper) (adb_paper_authors db) in
      case desired_authors nfkc paper (dict_by pa_position mine) 0 names (adb_authors db) of
        (desired, authors) \<Rightarrow>
          db\<lparr>adb_authors := authors,
             adb_paper_authors := filter (\<lambda>r. pa_paper_id r \<noteq> paper) (adb_paper_authors db) @ desired\<rparr>)"

text \<open>The category row of a code is found or created.\<close>

definition ensure_category :: "string \<Rightarrow> arxiv_category list \<Rightarrow> nat \<times> arxiv_category list" where
  "ensure_category code categories =
     (case find (\<lambda>c. acat_code c = code) categories of
        Some c \<Rightarrow> (acat_id c, categories)
      | None \<Rightarrow> (let i = fresh_id (map acat_id categories) in (i, categories @ [\<lparr>acat_id = i, acat_code = code\<rparr>])))"

text \<open>One round of the loop of \<open>_reconcile_categories\<close>: the category row is found or created, its
  relation created or its primary flag set.\<close>

definition reconcile_category ::
  "nat \<Rightarrow> string \<Rightarrow> (string, arxiv_paper_category) dict \<Rightarrow> string \<Rightarrow>
   arxiv_category list \<times> arxiv_paper_category list \<Rightarrow> arxiv_category list \<times> arxiv_paper_category list" where
  "reconcile_category paper primary existing_relations code st =
     (let (categories, relations) = st;
          (i, categories') = ensure_category code categories
      in (categories',
          case dict_get existing_relations code of
            None \<Rightarrow> relations @ [\<lparr>pc_paper_id = paper, pc_category_id = i, pc_is_primary = (code = primary)\<rparr>]
          | Some r \<Rightarrow> map (\<lambda>x. if pc_paper_id x = paper \<and> pc_category_id x = pc_category_id r
                              then x\<lparr>pc_is_primary := (code = primary)\<rparr> else x) relations))"

definition category_code :: "arxiv_category list \<Rightarrow> nat \<Rightarrow> string" where
  "category_code categories i = (case find (\<lambda>c. acat_id c = i) categories of None \<Rightarrow> [] | Some c \<Rightarrow> acat_code c)"

definition reconcile_categories :: "nat \<Rightarrow> string list \<Rightarrow> string \<Rightarrow> arxiv_db \<Rightarrow> arxiv_db" where
  "reconcile_categories paper codes primary db =
     (let mine = filter (\<lambda>r. pc_paper_id r = paper) (adb_paper_categories db);
          existing_relations = dict_by (\<lambda>r. category_code (adb_categories db) (pc_category_id r)) mine
      in case fold (reconcile_category paper primary existing_relations) codes
                (adb_categories db, adb_paper_categories db) of
           (categories, relations) \<Rightarrow>
             db\<lparr>adb_categories := categories,
                adb_paper_categories := filter (\<lambda>r. \<not> (pc_paper_id r = paper \<and>
                  category_code categories (pc_category_id r) \<notin> set codes)) relations\<rparr>)"

definition record_observation ::
  "nat \<Rightarrow> article \<Rightarrow> arxiv_raw_response \<Rightarrow> nat \<Rightarrow> arxiv_db \<Rightarrow> arxiv_db" where
  "record_observation paper a raw run db =
     (if list_ex (\<lambda>x. aobs_paper_id x = paper \<and> aobs_raw_id x = araw_id raw) (adb_observations db) then db
      else db\<lparr>adb_observations := adb_observations db @
        [\<lparr>aobs_id = fresh_id (map aobs_id (adb_observations db)), aobs_paper_id = paper, aobs_raw_id = araw_id raw,
          aobs_run_id = run, aobs_observed_at = araw_observed_at raw, aobs_arxiv_version = art_latest_version a,
          aobs_metadata = article_json a\<rparr>]\<rparr>)"

definition match_is :: "nat \<Rightarrow> nat \<Rightarrow> nat \<Rightarrow> string \<Rightarrow> arxiv_match \<Rightarrow> bool" where
  "match_is paper topic mapping query m =
     (amatch_paper_id m = paper \<and> amatch_topic_id m = topic \<and> amatch_mapping_id m = mapping \<and> amatch_query m = query)"

definition lineage :: "arxiv_raw_response \<Rightarrow> jdict" where
  "lineage raw = [(''latest_raw_response_id'', JStr (show_nat (araw_id raw))),
     (''latest_raw_path'', JStr (araw_raw_path raw))]"

definition upsert_match ::
  "nat \<Rightarrow> nat \<Rightarrow> nat \<Rightarrow> string \<Rightarrow> nat \<Rightarrow> arxiv_raw_response \<Rightarrow> arxiv_db \<Rightarrow> bool \<times> arxiv_db" where
  "upsert_match paper topic mapping query run raw db =
     (case find (match_is paper topic mapping query) (adb_matches db) of
        None \<Rightarrow>
          (True, db\<lparr>adb_matches := adb_matches db @
            [\<lparr>amatch_id = fresh_id (map amatch_id (adb_matches db)), amatch_paper_id = paper,
              amatch_topic_id = topic, amatch_mapping_id = mapping, amatch_query = query,
              amatch_method = ArxivApiQuery, amatch_first_at = araw_observed_at raw,
              amatch_last_at = araw_observed_at raw, amatch_first_run_id = run, amatch_last_run_id = run,
              amatch_metadata = lineage raw\<rparr>]\<rparr>)
      | Some m \<Rightarrow>
          (False, db\<lparr>adb_matches := map (\<lambda>x. if amatch_id x = amatch_id m then
              x\<lparr>amatch_last_at := max (amatch_last_at x) (araw_observed_at raw), amatch_last_run_id := run,
                amatch_metadata := dict_merge (amatch_metadata x) (lineage raw)\<rparr> else x) (adb_matches db)\<rparr>))"

text \<open>What the calls of \<open>persist_feed\<close> share: the topic, the mapping, the query, the run, the response.\<close>

record persist_context =
  px_topic :: nat
  px_mapping :: nat
  px_query :: string
  px_run :: nat
  px_raw :: arxiv_raw_response
  px_nfkc :: "string \<Rightarrow> string"

definition persist_article :: "persist_context \<Rightarrow> article \<Rightarrow> counts \<times> arxiv_db \<Rightarrow> counts \<times> arxiv_db" where
  "persist_article x a st =
     (let (counts, db) = st;
          ((paper, state), db1) = upsert_paper a (araw_observed_at (px_raw x)) db;
          counts1 = add_counts counts (case state of
              PaperInserted \<Rightarrow> no_counts\<lparr>n_papers_inserted := 1\<rparr>
            | PaperUpdated \<Rightarrow> no_counts\<lparr>n_papers_updated := 1\<rparr>
            | PaperExisting \<Rightarrow> no_counts\<lparr>n_papers_existing := 1\<rparr>);
          db2 = (if state \<noteq> PaperExisting
                 then reconcile_categories paper (art_categories a) (art_primary_category a)
                        (reconcile_authors (px_nfkc x) paper (art_authors a) db1)
                 else db1);
          db3 = record_observation paper a (px_raw x) (px_run x) db2;
          (added, db4) = upsert_match paper (px_topic x) (px_mapping x) (px_query x) (px_run x) (px_raw x) db3
      in (if added then add_counts counts1 (no_counts\<lparr>n_matches_added := 1\<rparr>) else counts1, db4))"

fun persist_articles ::
  "persist_context \<Rightarrow> string list \<Rightarrow> article list \<Rightarrow> counts \<times> arxiv_db \<Rightarrow> counts \<times> arxiv_db" where
  "persist_articles x seen [] st = st"
| "persist_articles x seen (a # as) st =
     (if art_arxiv_id a \<in> set seen
      then persist_articles x seen as (add_counts (fst st) (no_counts\<lparr>n_duplicate_papers := 1\<rparr>), snd st)
      else persist_articles x (art_arxiv_id a # seen) as (persist_article x a st))"

definition persist_feed :: "persist_context \<Rightarrow> feed \<Rightarrow> arxiv_db \<Rightarrow> counts \<times> arxiv_db" where
  "persist_feed x f db =
     persist_articles x [] (fd_articles f)
       (no_counts, update_raw (araw_id (px_raw x))
          (\<lambda>r. r\<lparr>araw_parsed_entry_count := Some (int (length (fd_articles f))), araw_parse_error := None\<rparr>) db)"

section \<open>What each operation touches\<close>

lemma apply_values_simps [simp]:
  "paper_id (apply_values a p) = paper_id p"
  "paper_arxiv_id (apply_values a p) = art_arxiv_id a"
  "paper_updated_at (apply_values a p) = art_updated_at a"
  "paper_last_observed_at (apply_values a p) = paper_last_observed_at p"
  "paper_metadata (apply_values a p) = art_metadata a"
  by (simp_all add: apply_values_def)

lemma blank_paper_simps [simp]:
  "paper_id (blank_paper i t) = i" "paper_last_observed_at (blank_paper i t) = t"
  by (simp_all add: blank_paper_def)

lemma apply_values_idem [simp]: "apply_values a (apply_values a p) = apply_values a p"
  by (simp add: apply_values_def)

lemma values_changed_apply [simp]: "\<not> values_changed a (apply_values a p)"
proof -
  have "apply_values a p = apply_values a p\<lparr>paper_metadata := art_metadata a\<rparr>" by (simp add: apply_values_def)
  then show ?thesis by (simp add: values_changed_def)
qed

lemma set_paper_frame [simp]:
  "adb_raw (set_paper p db) = adb_raw db" "adb_authors (set_paper p db) = adb_authors db"
  "adb_paper_authors (set_paper p db) = adb_paper_authors db" "adb_categories (set_paper p db) = adb_categories db"
  "adb_paper_categories (set_paper p db) = adb_paper_categories db"
  "adb_observations (set_paper p db) = adb_observations db" "adb_matches (set_paper p db) = adb_matches db"
  "adb_cursors (set_paper p db) = adb_cursors db"
  by (simp_all add: set_paper_def)

lemma upsert_paper_frame:
  assumes "upsert_paper a t db = (r, db')"
  shows "adb_raw db' = adb_raw db" "adb_authors db' = adb_authors db" "adb_paper_authors db' = adb_paper_authors db"
    "adb_categories db' = adb_categories db" "adb_paper_categories db' = adb_paper_categories db"
    "adb_observations db' = adb_observations db" "adb_matches db' = adb_matches db" "adb_cursors db' = adb_cursors db"
  using assms by (auto simp: upsert_paper_def Let_def split: option.splits if_splits)

lemma reconcile_authors_frame [simp]:
  "adb_raw (reconcile_authors n p as db) = adb_raw db" "adb_papers (reconcile_authors n p as db) = adb_papers db"
  "adb_categories (reconcile_authors n p as db) = adb_categories db"
  "adb_paper_categories (reconcile_authors n p as db) = adb_paper_categories db"
  "adb_observations (reconcile_authors n p as db) = adb_observations db"
  "adb_matches (reconcile_authors n p as db) = adb_matches db" "adb_cursors (reconcile_authors n p as db) = adb_cursors db"
  by (simp_all add: reconcile_authors_def Let_def split: prod.splits)

lemma reconcile_categories_frame [simp]:
  "adb_raw (reconcile_categories p cs c db) = adb_raw db" "adb_papers (reconcile_categories p cs c db) = adb_papers db"
  "adb_authors (reconcile_categories p cs c db) = adb_authors db"
  "adb_paper_authors (reconcile_categories p cs c db) = adb_paper_authors db"
  "adb_observations (reconcile_categories p cs c db) = adb_observations db"
  "adb_matches (reconcile_categories p cs c db) = adb_matches db" "adb_cursors (reconcile_categories p cs c db) = adb_cursors db"
  by (simp_all add: reconcile_categories_def Let_def split: prod.splits)

lemma record_observation_frame [simp]:
  "adb_raw (record_observation p a raw run db) = adb_raw db" "adb_papers (record_observation p a raw run db) = adb_papers db"
  "adb_authors (record_observation p a raw run db) = adb_authors db"
  "adb_paper_authors (record_observation p a raw run db) = adb_paper_authors db"
  "adb_categories (record_observation p a raw run db) = adb_categories db"
  "adb_paper_categories (record_observation p a raw run db) = adb_paper_categories db"
  "adb_matches (record_observation p a raw run db) = adb_matches db"
  "adb_cursors (record_observation p a raw run db) = adb_cursors db"
  by (simp_all add: record_observation_def)

lemma upsert_match_frame:
  assumes "upsert_match p topic m q run raw db = (b, db')"
  shows "adb_raw db' = adb_raw db" "adb_papers db' = adb_papers db" "adb_authors db' = adb_authors db"
    "adb_paper_authors db' = adb_paper_authors db" "adb_categories db' = adb_categories db"
    "adb_paper_categories db' = adb_paper_categories db" "adb_observations db' = adb_observations db"
    "adb_cursors db' = adb_cursors db"
  using assms by (auto simp: upsert_match_def Let_def split: option.splits)

text \<open>\<open>persist_article\<close> in steps.\<close>

definition reconcile_paper :: "persist_context \<Rightarrow> article \<Rightarrow> nat \<Rightarrow> paper_state \<Rightarrow> arxiv_db \<Rightarrow> arxiv_db" where
  "reconcile_paper x a paper state db =
     (if state \<noteq> PaperExisting
      then reconcile_categories paper (art_categories a) (art_primary_category a)
             (reconcile_authors (px_nfkc x) paper (art_authors a) db)
      else db)"

lemma reconcile_paper_frame [simp]:
  "adb_raw (reconcile_paper x a p s db) = adb_raw db" "adb_papers (reconcile_paper x a p s db) = adb_papers db"
  "adb_observations (reconcile_paper x a p s db) = adb_observations db"
  "adb_matches (reconcile_paper x a p s db) = adb_matches db" "adb_cursors (reconcile_paper x a p s db) = adb_cursors db"
  by (simp_all add: reconcile_paper_def)

lemma persist_article_elim:
  assumes "persist_article x a (c, db) = (c', db')"
  obtains paper state db1 added where
    "upsert_paper a (araw_observed_at (px_raw x)) db = ((paper, state), db1)"
    "upsert_match paper (px_topic x) (px_mapping x) (px_query x) (px_run x) (px_raw x)
       (record_observation paper a (px_raw x) (px_run x) (reconcile_paper x a paper state db1)) = (added, db')"
    "n_papers_inserted c' = n_papers_inserted c + (if state = PaperInserted then 1 else 0)"
    "n_papers_updated c' = n_papers_updated c + (if state = PaperUpdated then 1 else 0)"
    "n_papers_existing c' = n_papers_existing c + (if state = PaperExisting then 1 else 0)"
    "n_matches_added c' = n_matches_added c + (if added then 1 else 0)"
    "n_duplicate_papers c' = n_duplicate_papers c"
proof -
  obtain paper state db1 where u: "upsert_paper a (araw_observed_at (px_raw x)) db = ((paper, state), db1)"
    by (metis prod.collapse)
  obtain added db4 where m: "upsert_match paper (px_topic x) (px_mapping x) (px_query x) (px_run x) (px_raw x)
       (record_observation paper a (px_raw x) (px_run x) (reconcile_paper x a paper state db1)) = (added, db4)"
    by (metis prod.collapse)
  have "db4 = db'" and c: "c' = (let c1 = add_counts c (case state of
              PaperInserted \<Rightarrow> no_counts\<lparr>n_papers_inserted := 1\<rparr>
            | PaperUpdated \<Rightarrow> no_counts\<lparr>n_papers_updated := 1\<rparr>
            | PaperExisting \<Rightarrow> no_counts\<lparr>n_papers_existing := 1\<rparr>) in
       if added then add_counts c1 (no_counts\<lparr>n_matches_added := 1\<rparr>) else c1)"
    using assms u m by (simp_all add: persist_article_def reconcile_paper_def Let_def)
  with m have m': "upsert_match paper (px_topic x) (px_mapping x) (px_query x) (px_run x) (px_raw x)
       (record_observation paper a (px_raw x) (px_run x) (reconcile_paper x a paper state db1)) = (added, db')" by simp
  show ?thesis
    by (rule that [OF u m']; cases state; simp add: c add_counts_def no_counts_def Let_def)
qed

section \<open>Papers\<close>

definition papers_ok :: "arxiv_db \<Rightarrow> bool" where
  "papers_ok db = (distinct (map paper_id (adb_papers db)) \<and> arxiv_paper_unique (adb_papers db))"

text \<open>The paper of an article is in the table and an observation of that time changes nothing of it.\<close>

definition paper_settled :: "article \<Rightarrow> int \<Rightarrow> arxiv_paper \<Rightarrow> bool" where
  "paper_settled a observed_at p =
     (paper_arxiv_id p = art_arxiv_id a \<and> observed_at \<le> paper_last_observed_at p \<and>
      (art_updated_at a < paper_updated_at p \<or> \<not> values_changed a p))"

lemma find_unique:
  assumes "distinct (map key xs)" "x \<in> set xs" "key x = k"
  shows "find (\<lambda>y. key y = k) xs = Some x"
  using find_distinct_eq [OF assms(1,2)] assms(3) by simp

lemma find_key_None: "find (\<lambda>y. key y = k) xs = None \<longleftrightarrow> k \<notin> key ` set xs"
  by (auto simp: find_None_iff)

lemma find_key_SomeD: "find P xs = Some x \<Longrightarrow> x \<in> set xs \<and> P x"
  by (auto simp: find_Some_iff)

lemma set_paper_self:
  assumes "distinct (map paper_id (adb_papers db))" "p \<in> set (adb_papers db)"
  shows "set_paper p db = db"
proof -
  have "map (\<lambda>r. if paper_id r = paper_id p then p else r) (adb_papers db) = adb_papers db"
    by (rule map_update_id) (use distinct_map_inj [OF assms(1) _ assms(2)] in auto)
  then show ?thesis by (simp add: set_paper_def)
qed

lemma set_paper_set:
  assumes "distinct (map paper_id (adb_papers db))" "p \<in> set (adb_papers db)" "paper_id p' = paper_id p"
  shows "set (adb_papers (set_paper p' db)) = insert p' (set (adb_papers db) - {p})"
    "map paper_id (adb_papers (set_paper p' db)) = map paper_id (adb_papers db)"
    "length (adb_papers (set_paper p' db)) = length (adb_papers db)"
  using assms(2) distinct_map_inj [OF assms(1) _ assms(2)] assms(3)
  by (auto simp: set_paper_def image_iff)

lemma set_paper_arxiv_ids:
  assumes "papers_ok db" "p \<in> set (adb_papers db)" "paper_id p' = paper_id p" "paper_arxiv_id p' = paper_arxiv_id p"
  shows "papers_ok (set_paper p' db)"
proof -
  have d: "distinct (map paper_id (adb_papers db))" using assms(1) by (simp add: papers_ok_def)
  have "map paper_arxiv_id (adb_papers (set_paper p' db)) = map paper_arxiv_id (adb_papers db)"
    using distinct_map_inj [OF d _ assms(2)] assms(3,4) by (auto simp: set_paper_def)
  with assms(1) set_paper_set(2) [OF d assms(2,3)] show ?thesis
    by (simp add: papers_ok_def arxiv_paper_unique_def)
qed

lemma upsert_paper_settled:
  assumes "papers_ok db" "p \<in> set (adb_papers db)" "paper_settled a t p"
  shows "upsert_paper a t db = ((paper_id p, PaperExisting), db)"
proof -
  have "find (\<lambda>q. paper_arxiv_id q = art_arxiv_id a) (adb_papers db) = Some p"
    by (rule find_unique) (use assms in \<open>simp_all add: papers_ok_def arxiv_paper_unique_def paper_settled_def\<close>)
  moreover have "p\<lparr>paper_last_observed_at := max (paper_last_observed_at p) t\<rparr> = p"
    using assms(3) by (simp add: paper_settled_def max_def)
  moreover have "set_paper p db = db" using assms(1,2) set_paper_self by (simp add: papers_ok_def)
  ultimately show ?thesis using assms(3) by (auto simp: upsert_paper_def paper_settled_def)
qed

lemma upsert_paper_result:
  assumes ok: "papers_ok db" and run: "upsert_paper a t db = ((i, state), db')"
  shows "papers_ok db' \<and> (\<exists>p\<in>set (adb_papers db'). paper_id p = i \<and> paper_settled a t p) \<and>
     (\<forall>q. paper_arxiv_id q \<noteq> art_arxiv_id a \<longrightarrow> q \<in> set (adb_papers db) \<longrightarrow> q \<in> set (adb_papers db')) \<and>
     length (adb_papers db') = length (adb_papers db) + (if state = PaperInserted then 1 else 0)"
proof (cases "find (\<lambda>p. paper_arxiv_id p = art_arxiv_id a) (adb_papers db)")
  case None
  then have n: "art_arxiv_id a \<notin> paper_arxiv_id ` set (adb_papers db)" by (simp add: find_key_None)
  have "i = fresh_id (map paper_id (adb_papers db))" "state = PaperInserted"
    "db' = db\<lparr>adb_papers := adb_papers db @ [apply_values a (blank_paper i t)]\<rparr>"
    using run None by (auto simp: upsert_paper_def Let_def)
  moreover have "papers_ok (db\<lparr>adb_papers := adb_papers db @ [apply_values a (blank_paper i t)]\<rparr>)"
    using ok n fresh_id_notin [of "map paper_id (adb_papers db)"] calculation(1)
    by (auto simp: papers_ok_def arxiv_paper_unique_def)
  ultimately show ?thesis by (simp add: paper_settled_def)
next
  case (Some p)
  then have p: "p \<in> set (adb_papers db)" "paper_arxiv_id p = art_arxiv_id a"
    using find_key_SomeD by fastforce+
  have d: "distinct (map paper_id (adb_papers db))" using ok by (simp add: papers_ok_def)
  let ?p = "p\<lparr>paper_last_observed_at := max (paper_last_observed_at p) t\<rparr>"
  obtain p' where p': "db' = set_paper p' db" "i = paper_id p" "paper_id p' = paper_id p" "paper_settled a t p'"
      "state \<noteq> PaperInserted"
  proof -
    have "paper_settled a t ?p" if "art_updated_at a < paper_updated_at p \<or> \<not> values_changed a ?p"
      using that p by (simp add: paper_settled_def)
    moreover have "paper_settled a t (apply_values a ?p)" by (simp add: paper_settled_def)
    ultimately show ?thesis
      using run Some that [of ?p] that [of "apply_values a ?p"]
      by (auto simp: upsert_paper_def Let_def split: if_splits)
  qed
  have "paper_arxiv_id p' = paper_arxiv_id p" using p'(4) p(2) by (simp add: paper_settled_def)
  then have "papers_ok db'" using set_paper_arxiv_ids [OF ok p(1) p'(3)] p'(1) by simp
  with p' p set_paper_set [OF d p(1) p'(3)] show ?thesis by auto
qed

section \<open>Authors\<close>

definition authors_ok :: "arxiv_db \<Rightarrow> bool" where
  "authors_ok db =
     (distinct (map author_id (adb_authors db)) \<and> arxiv_paper_author_unique (adb_paper_authors db) \<and>
      list_all (\<lambda>r. pa_author_id r \<in> author_id ` set (adb_authors db)) (adb_paper_authors db))"

definition names_author :: "(string \<Rightarrow> string) \<Rightarrow> arxiv_author list \<Rightarrow> string \<Rightarrow> arxiv_paper_author \<Rightarrow> bool" where
  "names_author nfkc authors name r =
     (\<exists>a\<in>set authors. author_id a = pa_author_id r \<and> author_display_name a = name \<and>
        author_normalized_name a = normalize_author_name nfkc name)"

definition relations_of :: "nat \<Rightarrow> arxiv_author list \<Rightarrow> (int, arxiv_paper_author) dict \<Rightarrow> bool" where
  "relations_of paper authors d =
     ((\<forall>k r. dict_get d k = Some r \<longrightarrow> pa_paper_id r = paper \<and> pa_position r = k \<and>
         pa_author_id r \<in> author_id ` set authors) \<and>
      (\<forall>k r k' r'. dict_get d k = Some r \<longrightarrow> dict_get d k' = Some r' \<longrightarrow> pa_author_id r = pa_author_id r' \<longrightarrow> k = k'))"

lemma relations_of_mono: "relations_of paper A d \<Longrightarrow> set A \<subseteq> set A' \<Longrightarrow> relations_of paper A' d"
  unfolding relations_of_def by blast

lemma desired_authors_result:
  assumes "desired_authors nfkc paper d pos names A = (R, A')" "distinct (map author_id A)" "relations_of paper A d"
  shows "distinct (map author_id A') \<and> set A \<subseteq> set A' \<and> map pa_position R = map (\<lambda>k. pos + int k) [0..<length names] \<and>
     list_all2 (names_author nfkc A') names R \<and> (\<forall>r\<in>set R. pa_paper_id r = paper) \<and>
     (\<forall>r\<in>set R. dict_get d (pa_position r) = Some r \<or> pa_author_id r \<notin> author_id ` set A) \<and>
     distinct (map pa_author_id R)"
  using assms
proof (induction names arbitrary: pos A R A')
  case (Cons name names)
  have pos: "map (\<lambda>k. pos + int k) [0..<length (name # names)] = pos # map (\<lambda>k. pos + 1 + int k) [0..<length names]"
  proof -
    have "[0..<Suc (length names)] = 0 # map Suc [0..<length names]" by (simp add: map_Suc_upt upt_conv_Cons del: upt_Suc)
    then show ?thesis by (simp add: comp_def algebra_simps del: upt_Suc)
  qed
  define keep where "keep = (case dict_get d pos of None \<Rightarrow> None | Some relation \<Rightarrow>
      (case find (\<lambda>a. author_id a = pa_author_id relation) A of None \<Rightarrow> None
       | Some a \<Rightarrow> (if author_display_name a = name \<and> author_normalized_name a = normalize_author_name nfkc name
                    then Some relation else None)))"
  show ?case
  proof (cases keep)
    case (Some r)
    obtain R2 A2 where rec: "desired_authors nfkc paper d (pos + 1) names A = (R2, A2)"
      by (cases "desired_authors nfkc paper d (pos + 1) names A")
    have e: "R = r # R2" "A' = A2" using Cons.prems(1) Some rec by (simp_all add: keep_def)
    note IH = Cons.IH [OF rec Cons.prems(2,3)]
    obtain a where a: "dict_get d pos = Some r" "a \<in> set A" "author_id a = pa_author_id r"
      "author_display_name a = name" "author_normalized_name a = normalize_author_name nfkc name"
      using Some find_key_SomeD by (fastforce simp: keep_def split: option.splits if_splits)
    have r: "pa_paper_id r = paper" "pa_position r = pos" "pa_author_id r \<in> author_id ` set A"
      using Cons.prems(3) a(1) by (auto simp: relations_of_def)
    have "names_author nfkc A2 name r" using a IH unfolding names_author_def by blast
    moreover have "pa_author_id r \<notin> pa_author_id ` set R2"
    proof
      assume "pa_author_id r \<in> pa_author_id ` set R2"
      then obtain s where s: "s \<in> set R2" "pa_author_id s = pa_author_id r" by auto
      then have "dict_get d (pa_position s) = Some s" using IH r(3) by auto
      then have "pa_position s = pos" using Cons.prems(3) a(1) s(2) unfolding relations_of_def by metis
      moreover have "pa_position s \<in> set (map pa_position R2)" using s(1) by simp
      ultimately have "pos \<in> set (map (\<lambda>k. pos + 1 + int k) [0..<length names])" using IH by metis
      then show False by auto
    qed
    ultimately show ?thesis using IH r a(1) pos e by auto
  next
    case None
    let ?i = "fresh_id (map author_id A)"
    let ?a = "\<lparr>author_id = ?i, author_display_name = name, author_normalized_name = normalize_author_name nfkc name\<rparr>"
    let ?r = "\<lparr>pa_paper_id = paper, pa_position = pos, pa_author_id = ?i\<rparr>"
    obtain R2 A2 where rec: "desired_authors nfkc paper d (pos + 1) names (A @ [?a]) = (R2, A2)"
      by (cases "desired_authors nfkc paper d (pos + 1) names (A @ [?a])")
    have e: "R = ?r # R2" "A' = A2"
      using Cons.prems(1) None rec by (simp_all add: keep_def [symmetric] Let_def)
    have f: "?i \<notin> author_id ` set A" using fresh_id_notin [of "map author_id A"] by simp
    have dA: "distinct (map author_id (A @ [?a]))" using Cons.prems(2) f by simp
    have rel: "relations_of paper (A @ [?a]) d" by (rule relations_of_mono [OF Cons.prems(3)]) auto
    note IH = Cons.IH [OF rec dA rel]
    have "names_author nfkc A2 name ?r" unfolding names_author_def using IH by (intro bexI [of _ ?a]) auto
    moreover have "?i \<notin> pa_author_id ` set R2"
    proof
      assume "?i \<in> pa_author_id ` set R2"
      then obtain s where s: "s \<in> set R2" "pa_author_id s = ?i" by auto
      then have "dict_get d (pa_position s) = Some s" using IH by auto
      then show False using Cons.prems(3) s(2) f unfolding relations_of_def by metis
    qed
    ultimately show ?thesis using IH pos e f by auto
  qed
qed simp

lemma mine_relations_of:
  assumes "authors_ok db"
  shows "relations_of paper (adb_authors db)
    (dict_by pa_position (filter (\<lambda>r. pa_paper_id r = paper) (adb_paper_authors db)))" (is "relations_of _ _ ?d")
proof -
  have m: "r \<in> set (adb_paper_authors db) \<and> pa_paper_id r = paper \<and> pa_position r = k"
    if "dict_get ?d k = Some r" for k r using dict_by_get_SomeD [OF that] by auto
  have d: "distinct (map (\<lambda>a. (pa_paper_id a, pa_author_id a)) (adb_paper_authors db))"
    using assms by (simp add: authors_ok_def arxiv_paper_author_unique_def)
  have a: "r \<in> set (adb_paper_authors db) \<Longrightarrow> pa_author_id r \<in> author_id ` set (adb_authors db)" for r
    using assms by (simp add: authors_ok_def list_all_iff)
  show ?thesis unfolding relations_of_def
  proof (rule conjI, use m a in blast, intro allI impI)
    fix k r k' r' assume "dict_get ?d k = Some r" "dict_get ?d k' = Some r'" "pa_author_id r = pa_author_id r'"
    with m distinct_map_inj [OF d] have "r = r'" by (metis (no_types, lifting))
    then show "k = k'" using m \<open>dict_get ?d k = Some r\<close> \<open>dict_get ?d k' = Some r'\<close> by metis
  qed
qed

lemma list_all2_right: "list_all2 P xs ys \<Longrightarrow> y \<in> set ys \<Longrightarrow> \<exists>x\<in>set xs. P x y"
  by (induction rule: list_all2_induct) auto

lemma distinct_map_append:
  "distinct (map f xs) \<Longrightarrow> distinct (map f ys) \<Longrightarrow> (\<And>x y. x \<in> set xs \<Longrightarrow> y \<in> set ys \<Longrightarrow> f x \<noteq> f y) \<Longrightarrow>
     distinct (map f (xs @ ys))"
  by auto

lemma reconcile_authors_ok:
  assumes ok: "authors_ok db"
  shows "authors_ok (reconcile_authors nfkc paper names db)"
    "\<exists>R. filter (\<lambda>r. pa_paper_id r = paper) (adb_paper_authors (reconcile_authors nfkc paper names db)) = R \<and>
       map pa_position R = map int [0..<length names] \<and>
       list_all2 (names_author nfkc (adb_authors (reconcile_authors nfkc paper names db))) names R"
    "filter (\<lambda>r. pa_paper_id r \<noteq> paper) (adb_paper_authors (reconcile_authors nfkc paper names db)) =
       filter (\<lambda>r. pa_paper_id r \<noteq> paper) (adb_paper_authors db)"
    "set (adb_authors db) \<subseteq> set (adb_authors (reconcile_authors nfkc paper names db))"
proof -
  let ?d = "dict_by pa_position (filter (\<lambda>r. pa_paper_id r = paper) (adb_paper_authors db))"
  obtain R A where run: "desired_authors nfkc paper ?d 0 names (adb_authors db) = (R, A)"
    by (cases "desired_authors nfkc paper ?d 0 names (adb_authors db)")
  have db': "reconcile_authors nfkc paper names db = db\<lparr>adb_authors := A,
      adb_paper_authors := filter (\<lambda>r. pa_paper_id r \<noteq> paper) (adb_paper_authors db) @ R\<rparr>"
    by (simp add: reconcile_authors_def run)
  have dA: "distinct (map author_id (adb_authors db))" using ok by (simp add: authors_ok_def)
  note res = desired_authors_result [OF run dA mine_relations_of [OF ok]]
  have mine: "filter (\<lambda>r. pa_paper_id r = paper) R = R" using res by (auto intro: filter_True)
  have pos: "map pa_position R = map int [0..<length names]" using res by simp
  have others: "filter (\<lambda>r. pa_paper_id r \<noteq> paper) R = []" using res by auto
  show "\<exists>R. filter (\<lambda>r. pa_paper_id r = paper) (adb_paper_authors (reconcile_authors nfkc paper names db)) = R \<and>
       map pa_position R = map int [0..<length names] \<and>
       list_all2 (names_author nfkc (adb_authors (reconcile_authors nfkc paper names db))) names R"
    using mine pos res by (simp add: db')
  show "filter (\<lambda>r. pa_paper_id r \<noteq> paper) (adb_paper_authors (reconcile_authors nfkc paper names db)) =
       filter (\<lambda>r. pa_paper_id r \<noteq> paper) (adb_paper_authors db)"
    using others by (simp add: db')
  show "set (adb_authors db) \<subseteq> set (adb_authors (reconcile_authors nfkc paper names db))" using res by (simp add: db')
  have "distinct (map pa_position R)" by (simp only: pos) (simp add: distinct_map)
  moreover have "distinct (map g R) \<Longrightarrow> distinct (map (\<lambda>a. (pa_paper_id a, g a)) R)" for g :: "arxiv_paper_author \<Rightarrow> 'b"
    by (auto simp: distinct_map inj_on_def)
  ultimately have "distinct (map (\<lambda>a. (pa_paper_id a, pa_position a)) R)"
    "distinct (map (\<lambda>a. (pa_paper_id a, pa_author_id a)) R)" using res by blast+
  moreover have "list_all (\<lambda>r. pa_position r \<ge> 0) R"
  proof -
    have "p \<ge> 0" if "p \<in> set (map pa_position R)" for p using that unfolding pos by auto
    then show ?thesis by (auto simp: list_all_iff)
  qed
  moreover have "pa_author_id r \<in> author_id ` set A" if r: "r \<in> set R" for r
  proof -
    obtain name where "names_author nfkc A name r" using list_all2_right [OF _ r] res by blast
    then show ?thesis unfolding names_author_def by (metis image_eqI)
  qed
  ultimately have R: "distinct (map (\<lambda>a. (pa_paper_id a, pa_position a)) R)"
      "distinct (map (\<lambda>a. (pa_paper_id a, pa_author_id a)) R)" "list_all (\<lambda>r. pa_position r \<ge> 0) R"
      "list_all (\<lambda>r. pa_author_id r \<in> author_id ` set A) R" unfolding list_all_iff by blast+
  let ?O = "filter (\<lambda>r. pa_paper_id r \<noteq> paper) (adb_paper_authors db)"
  have O: "distinct (map (\<lambda>a. (pa_paper_id a, pa_position a)) ?O)" "distinct (map (\<lambda>a. (pa_paper_id a, pa_author_id a)) ?O)"
      "list_all (\<lambda>r. pa_position r \<ge> 0) ?O" "list_all (\<lambda>r. pa_author_id r \<in> author_id ` set (adb_authors db)) ?O"
    using ok by (simp_all add: authors_ok_def arxiv_paper_author_unique_def distinct_map_filter list_all_iff)
  have "author_id ` set (adb_authors db) \<subseteq> author_id ` set A" by (rule image_mono) (use res in blast)
  then have "list_all (\<lambda>r. pa_author_id r \<in> author_id ` set A) ?O" using O(4) unfolding list_all_iff by blast
  moreover have sep: "\<forall>x\<in>set ?O. \<forall>y\<in>set R. pa_paper_id x \<noteq> pa_paper_id y" using res by simp
  have "distinct (map (\<lambda>a. (pa_paper_id a, pa_position a)) (?O @ R))"
    by (rule distinct_map_append [OF O(1) R(1)]) (use sep in auto)
  moreover have "distinct (map (\<lambda>a. (pa_paper_id a, pa_author_id a)) (?O @ R))"
    by (rule distinct_map_append [OF O(2) R(2)]) (use sep in auto)
  ultimately show "authors_ok (reconcile_authors nfkc paper names db)"
    using res O(3) R(3,4) by (simp add: authors_ok_def arxiv_paper_author_unique_def db' del: map_append)
qed

section \<open>Categories\<close>

definition categories_ok :: "arxiv_db \<Rightarrow> bool" where
  "categories_ok db =
     (distinct (map acat_id (adb_categories db)) \<and> arxiv_category_unique (adb_categories db) \<and>
      arxiv_paper_category_unique (adb_paper_categories db) \<and>
      list_all (\<lambda>r. pc_category_id r \<in> acat_id ` set (adb_categories db)) (adb_paper_categories db))"

abbreviation has_relation :: "nat \<Rightarrow> arxiv_category list \<Rightarrow> arxiv_paper_category list \<Rightarrow> string \<Rightarrow> bool \<Rightarrow> bool" where
  "has_relation paper C R code primary \<equiv>
     (\<exists>r\<in>set R. pc_paper_id r = paper \<and> category_code C (pc_category_id r) = code \<and> pc_is_primary r = primary)"

text \<open>The state of the loop after the codes \<open>seen\<close>.\<close>

definition category_loop_inv ::
  "nat \<Rightarrow> string \<Rightarrow> (string, arxiv_paper_category) dict \<Rightarrow> string set \<Rightarrow>
   arxiv_category list \<times> arxiv_paper_category list \<Rightarrow> bool" where
  "category_loop_inv paper primary d seen st =
     (case st of (C, R) \<Rightarrow>
        distinct (map acat_id C) \<and> distinct (map acat_code C) \<and>
        distinct (map (\<lambda>r. (pc_paper_id r, pc_category_id r)) R) \<and>
        (\<forall>r\<in>set R. pc_category_id r \<in> acat_id ` set C) \<and>
        (\<forall>r\<in>set R. pc_paper_id r = paper \<longrightarrow> category_code C (pc_category_id r) \<in> fst ` set d \<union> seen) \<and>
        (\<forall>code r. dict_get d code = Some r \<longrightarrow> (\<exists>q. has_relation paper C R code q) \<and>
           category_code C (pc_category_id r) = code \<and> pc_category_id r \<in> acat_id ` set C) \<and>
        (\<forall>code\<in>seen. has_relation paper C R code (code = primary)))"

lemma category_code_eq: "distinct (map acat_id C) \<Longrightarrow> c \<in> set C \<Longrightarrow> category_code C (acat_id c) = acat_code c"
  using find_unique [of acat_id C c "acat_id c"] by (simp add: category_code_def)

lemma category_code_append:
  "i \<in> acat_id ` set C \<Longrightarrow> category_code (C @ D) i = category_code C i"
proof (induction C)
  case (Cons c C)
  then show ?case by (auto simp: category_code_def)
qed simp

lemma category_code_inj:
  assumes "distinct (map acat_id C)" "distinct (map acat_code C)" "i \<in> acat_id ` set C" "j \<in> acat_id ` set C"
    "category_code C i = category_code C j"
  shows "i = j"
  using assms category_code_eq [OF assms(1)] distinct_map_inj [OF assms(2)] by (metis imageE)

lemma ensure_category_result:
  assumes "ensure_category code C = (i, C')" "distinct (map acat_id C)" "distinct (map acat_code C)"
  shows "distinct (map acat_id C')" "distinct (map acat_code C')" "i \<in> acat_id ` set C'"
    "category_code C' i = code" "set C \<subseteq> set C'"
    "\<And>j. j \<in> acat_id ` set C \<Longrightarrow> category_code C' j = category_code C j"
proof -
  have all: "distinct (map acat_id C') \<and> distinct (map acat_code C') \<and> i \<in> acat_id ` set C' \<and>
      category_code C' i = code \<and> set C \<subseteq> set C' \<and> (\<forall>j\<in>acat_id ` set C. category_code C' j = category_code C j)"
  proof (cases "find (\<lambda>c. acat_code c = code) C")
    case None
    let ?i = "fresh_id (map acat_id C)"
    have e: "i = ?i" "C' = C @ [\<lparr>acat_id = ?i, acat_code = code\<rparr>]" using assms(1) None by (auto simp: ensure_category_def Let_def)
    have f: "?i \<notin> acat_id ` set C" using fresh_id_notin [of "map acat_id C"] by simp
    have d: "distinct (map acat_id C')" using assms(2) f by (simp add: e)
    have "category_code C' (acat_id \<lparr>acat_id = ?i, acat_code = code\<rparr>) = code"
      using category_code_eq [OF d, of "\<lparr>acat_id = ?i, acat_code = code\<rparr>"] by (simp add: e)
    moreover have "code \<notin> acat_code ` set C" using None find_key_None by metis
    ultimately show ?thesis using assms(3) d category_code_append by (auto simp: e)
  next
    case (Some c)
    then have "c \<in> set C" "acat_code c = code" using find_key_SomeD by fastforce+
    moreover have "i = acat_id c" "C' = C" using assms(1) Some by (simp_all add: ensure_category_def)
    ultimately show ?thesis using assms category_code_eq by auto
  qed
  then show "distinct (map acat_id C')" "distinct (map acat_code C')" "i \<in> acat_id ` set C'"
    "category_code C' i = code" "set C \<subseteq> set C'"
    "\<And>j. j \<in> acat_id ` set C \<Longrightarrow> category_code C' j = category_code C j" by blast+
qed

lemma reconcile_category_eq:
  assumes "ensure_category code C = (i, C')"
  shows "reconcile_category paper primary d code (C, R) =
    (C', case dict_get d code of
        None \<Rightarrow> R @ [\<lparr>pc_paper_id = paper, pc_category_id = i, pc_is_primary = (code = primary)\<rparr>]
      | Some r \<Rightarrow> map (\<lambda>x. if pc_paper_id x = paper \<and> pc_category_id x = pc_category_id r
                          then x\<lparr>pc_is_primary := (code = primary)\<rparr> else x) R)"
  using assms by (simp add: reconcile_category_def)

lemma category_loop_step:
  assumes inv: "category_loop_inv paper primary d seen (C, R)" and new: "code \<notin> seen"
  shows "category_loop_inv paper primary d (insert code seen) (reconcile_category paper primary d code (C, R))"
proof -
  obtain i C' where e: "ensure_category code C = (i, C')" by (cases "ensure_category code C")
  have I: "distinct (map acat_id C)" "distinct (map acat_code C)"
      "distinct (map (\<lambda>r. (pc_paper_id r, pc_category_id r)) R)"
      "\<And>r. r \<in> set R \<Longrightarrow> pc_category_id r \<in> acat_id ` set C"
      "\<And>r. r \<in> set R \<Longrightarrow> pc_paper_id r = paper \<Longrightarrow> category_code C (pc_category_id r) \<in> fst ` set d \<union> seen"
      "\<And>k r. dict_get d k = Some r \<Longrightarrow> (\<exists>q. has_relation paper C R k q) \<and>
           category_code C (pc_category_id r) = k \<and> pc_category_id r \<in> acat_id ` set C"
      "\<And>k. k \<in> seen \<Longrightarrow> has_relation paper C R k (k = primary)"
    using inv unfolding category_loop_inv_def by blast+
  note E = ensure_category_result [OF e I(1,2)]
  have ids: "j \<in> acat_id ` set C \<Longrightarrow> j \<in> acat_id ` set C'" for j using E(5) by blast
  have rel: "has_relation paper C' R k q" if "has_relation paper C R k q" for k q
    using that I(4) E(6) by metis
  show ?thesis
  proof (cases "dict_get d code")
    case None
    let ?r = "\<lparr>pc_paper_id = paper, pc_category_id = i, pc_is_primary = (code = primary)\<rparr>"
    have code: "code \<notin> fst ` set d" using None by (simp add: map_of_eq_None_iff)
    have "(paper, i) \<notin> (\<lambda>r. (pc_paper_id r, pc_category_id r)) ` set R"
    proof
      assume "(paper, i) \<in> (\<lambda>r. (pc_paper_id r, pc_category_id r)) ` set R"
      then obtain r where "r \<in> set R" "pc_paper_id r = paper" "pc_category_id r = i" by auto
      then have "code \<in> fst ` set d \<union> seen" using I(4,5) E(4,6) by metis
      then show False using code new by simp
    qed
    then have "distinct (map (\<lambda>r. (pc_paper_id r, pc_category_id r)) (R @ [?r]))" using I(3) by simp
    moreover have "has_relation paper C' (R @ [?r]) k q" if "has_relation paper C R k q" for k q
      using rel [OF that] by auto
    moreover have "has_relation paper C' (R @ [?r]) code (code = primary)" using E(4) by auto
    moreover have "\<forall>r\<in>set (R @ [?r]). pc_paper_id r = paper \<longrightarrow>
        category_code C' (pc_category_id r) \<in> fst ` set d \<union> insert code seen"
      using I(4,5) E(4,6) by auto
    ultimately show ?thesis
      unfolding reconcile_category_eq [OF e] category_loop_inv_def
      using None E(1-3) ids I(4,6,7) E(6) by (simp add: image_iff) metis
  next
    case (Some s)
    define f where "f x = (if pc_paper_id x = paper \<and> pc_category_id x = pc_category_id s
        then x\<lparr>pc_is_primary := (code = primary)\<rparr> else x)" for x :: arxiv_paper_category
    have f: "pc_paper_id (f x) = pc_paper_id x" "pc_category_id (f x) = pc_category_id x"
      "pc_is_primary (f x) = (if pc_paper_id x = paper \<and> pc_category_id x = pc_category_id s
         then code = primary else pc_is_primary x)" for x by (simp_all add: f_def)
    have e2: "reconcile_category paper primary d code (C, R) = (C', map f R)"
      unfolding reconcile_category_eq [OF e] Some option.case f_def ..
    have mem: "x \<in> set R \<Longrightarrow> f x \<in> set (map f R)" for x by simp
    have pairs: "map (\<lambda>r. (pc_paper_id r, pc_category_id r)) (map f R) = map (\<lambda>r. (pc_paper_id r, pc_category_id r)) R"
      by (simp add: f)
    note S = I(6) [OF Some]
    have keep: "has_relation paper C' (map f R) k (k = primary)" if k: "k \<in> seen" for k
    proof -
      obtain r where r: "r \<in> set R" "pc_paper_id r = paper" "category_code C' (pc_category_id r) = k" "pc_is_primary r = (k = primary)"
        using rel [OF I(7) [OF k]] by blast
      have "pc_category_id r \<noteq> pc_category_id s"
        using r(3) S E(6) k new by metis
      then show ?thesis using r f mem [OF r(1)] by metis
    qed
    have this_code: "has_relation paper C' (map f R) code (code = primary)"
    proof -
      obtain r where r: "r \<in> set R" "pc_paper_id r = paper" "category_code C (pc_category_id r) = code" using S by blast
      have "pc_category_id r = pc_category_id s" using category_code_inj [OF I(1,2) I(4) [OF r(1)]] S r(3) by metis
      then have "pc_is_primary (f r) = (code = primary)" using r(2) f(3) by simp
      moreover have "category_code C' (pc_category_id (f r)) = code" using r(1,3) I(4) E(6) f by metis
      ultimately show ?thesis using r(1,2) f(1) mem by metis
    qed
    have any: "\<exists>q. has_relation paper C' (map f R) k q" if "has_relation paper C R k q" for k q
      using rel [OF that] f mem by metis
    have cats: "\<forall>r\<in>set (map f R). pc_category_id r \<in> acat_id ` set C'" using I(4) ids f by auto
    have codes: "\<forall>r\<in>set (map f R). pc_paper_id r = paper \<longrightarrow>
        category_code C' (pc_category_id r) \<in> fst ` set d \<union> insert code seen"
      using I(4,5) E(6) f by auto
    have dd: "(\<exists>q. has_relation paper C' (map f R) k q) \<and> category_code C' (pc_category_id r) = k \<and>
        pc_category_id r \<in> acat_id ` set C'" if "dict_get d k = Some r" for k r
      using I(6) [OF that] any ids E(6) by metis
    show ?thesis
      unfolding e2 category_loop_inv_def prod.case pairs
      using E(1,2) I(3) cats codes dd keep this_code by blast
  qed
qed

lemma category_loop_fold:
  assumes "category_loop_inv paper primary d seen st" "distinct codes" "set codes \<inter> seen = {}"
  shows "category_loop_inv paper primary d (set codes \<union> seen) (fold (reconcile_category paper primary d) codes st)"
  using assms
proof (induction codes arbitrary: seen st)
  case (Cons code codes)
  obtain C R where st: "st = (C, R)" by (cases st)
  have "category_loop_inv paper primary d (insert code seen) (reconcile_category paper primary d code (C, R))"
    by (rule category_loop_step) (use Cons.prems st in auto)
  from Cons.IH [OF this] Cons.prems show ?case by (simp add: st)
qed simp

lemma reconcile_categories_ok:
  assumes ok: "categories_ok db" and codes: "distinct codes"
  shows "categories_ok (reconcile_categories paper codes primary db)"
    "let db' = reconcile_categories paper codes primary db;
         mine = filter (\<lambda>r. pc_paper_id r = paper) (adb_paper_categories db')
     in set (map (\<lambda>r. category_code (adb_categories db') (pc_category_id r)) mine) = set codes \<and>
        (\<forall>r\<in>set mine. pc_is_primary r = (category_code (adb_categories db') (pc_category_id r) = primary))"
proof -
  let ?C = "adb_categories db" and ?R = "adb_paper_categories db"
  let ?code = "\<lambda>r. category_code ?C (pc_category_id r)"
  let ?mine = "filter (\<lambda>r. pc_paper_id r = paper) ?R"
  let ?d = "dict_by ?code ?mine"
  have d: "r \<in> set ?R \<and> pc_paper_id r = paper \<and> ?code r = k" if "dict_get ?d k = Some r" for k r
    using dict_by_get_SomeD [OF that] by auto
  have start: "category_loop_inv paper primary ?d {} (?C, ?R)"
  proof -
    have k: "?code r \<in> fst ` set ?d" if "r \<in> set ?R" "pc_paper_id r = paper" for r
    proof -
      have "dict_get ?d (?code r) \<noteq> None" using that by (auto simp: dict_by_get_None)
      then show ?thesis by (metis map_of_eq_None_iff)
    qed
    have "(\<exists>q. has_relation paper ?C ?R c q) \<and> ?code r = c \<and> pc_category_id r \<in> acat_id ` set ?C"
      if "dict_get ?d c = Some r" for c r
      using d [OF that] ok by (auto simp: categories_ok_def list_all_iff)
    then show ?thesis
      using ok [unfolded categories_ok_def arxiv_category_unique_def arxiv_paper_category_unique_def list_all_iff] k
      unfolding category_loop_inv_def prod.case by blast
  qed
  obtain C R where fin: "fold (reconcile_category paper primary ?d) codes (?C, ?R) = (C, R)"
    by (cases "fold (reconcile_category paper primary ?d) codes (?C, ?R)")
  have inv: "category_loop_inv paper primary ?d (set codes) (C, R)"
    using category_loop_fold [OF start codes] fin by simp
  have db': "reconcile_categories paper codes primary db = db\<lparr>adb_categories := C,
      adb_paper_categories := filter (\<lambda>r. \<not> (pc_paper_id r = paper \<and> category_code C (pc_category_id r) \<notin> set codes)) R\<rparr>"
    by (simp add: reconcile_categories_def fin)
  show "categories_ok (reconcile_categories paper codes primary db)"
    using inv unfolding category_loop_inv_def prod.case db'
    by (auto simp: categories_ok_def arxiv_category_unique_def arxiv_paper_category_unique_def list_all_iff distinct_map_filter)
  have I: "distinct (map acat_id C)" "distinct (map acat_code C)"
      "distinct (map (\<lambda>r. (pc_paper_id r, pc_category_id r)) R)"
      "\<And>r. r \<in> set R \<Longrightarrow> pc_category_id r \<in> acat_id ` set C"
      "\<And>k. k \<in> set codes \<Longrightarrow> has_relation paper C R k (k = primary)"
    using inv unfolding category_loop_inv_def by blast+
  have prim: "pc_is_primary r = (category_code C (pc_category_id r) = primary)"
    if r: "r \<in> set R" "pc_paper_id r = paper" "category_code C (pc_category_id r) \<in> set codes" for r
  proof -
    obtain s where s: "s \<in> set R" "pc_paper_id s = paper" "category_code C (pc_category_id s) = category_code C (pc_category_id r)"
        "pc_is_primary s = (category_code C (pc_category_id r) = primary)" using I(5) [OF r(3)] by blast
    have "pc_category_id s = pc_category_id r" using category_code_inj [OF I(1,2) I(4) [OF s(1)] I(4) [OF r(1)] s(3)] .
    then have "s = r" using distinct_map_inj [OF I(3) s(1) r(1)] s(2) r(2) by simp
    then show ?thesis using s(4) by simp
  qed
  have "category_code C ` pc_category_id ` {r \<in> set R. pc_paper_id r = paper \<and> category_code C (pc_category_id r) \<in> set codes} = set codes"
    using I(5) by (auto simp: image_iff) (metis (mono_tags, lifting))
  with prim show "let db' = reconcile_categories paper codes primary db;
         mine = filter (\<lambda>r. pc_paper_id r = paper) (adb_paper_categories db')
     in set (map (\<lambda>r. category_code (adb_categories db') (pc_category_id r)) mine) = set codes \<and>
        (\<forall>r\<in>set mine. pc_is_primary r = (category_code (adb_categories db') (pc_category_id r) = primary))"
    unfolding db' Let_def by (auto simp: image_image)
qed

section \<open>Observations and matches\<close>

definition matches_ok :: "arxiv_db \<Rightarrow> bool" where
  "matches_ok db = (distinct (map amatch_id (adb_matches db)) \<and> arxiv_match_unique (adb_matches db))"

definition arxiv_db_ok :: "arxiv_db \<Rightarrow> bool" where
  "arxiv_db_ok db = (papers_ok db \<and> authors_ok db \<and> categories_ok db \<and>
     arxiv_observation_unique (adb_observations db) \<and> matches_ok db)"

lemma ok_congs:
  "adb_papers db' = adb_papers db \<Longrightarrow> papers_ok db' = papers_ok db"
  "adb_authors db' = adb_authors db \<Longrightarrow> adb_paper_authors db' = adb_paper_authors db \<Longrightarrow> authors_ok db' = authors_ok db"
  "adb_categories db' = adb_categories db \<Longrightarrow> adb_paper_categories db' = adb_paper_categories db \<Longrightarrow>
     categories_ok db' = categories_ok db"
  "adb_matches db' = adb_matches db \<Longrightarrow> matches_ok db' = matches_ok db"
  by (simp_all add: papers_ok_def authors_ok_def categories_ok_def matches_ok_def)

abbreviation observed :: "nat \<Rightarrow> nat \<Rightarrow> arxiv_db \<Rightarrow> bool" where
  "observed paper raw db \<equiv> list_ex (\<lambda>x. aobs_paper_id x = paper \<and> aobs_raw_id x = raw) (adb_observations db)"

lemma record_observation_result:
  assumes "arxiv_observation_unique (adb_observations db)"
  shows "arxiv_observation_unique (adb_observations (record_observation paper a raw run db))"
    "observed paper (araw_id raw) (record_observation paper a raw run db)"
    "observed p r db \<Longrightarrow> observed p r (record_observation paper a raw run db)"
    "observed paper (araw_id raw) db \<Longrightarrow> record_observation paper a raw run db = db"
  using assms by (auto simp: record_observation_def arxiv_observation_unique_def list_ex_iff)

text \<open>The match that a further upsert with this context leaves as it is.\<close>

definition match_settled :: "persist_context \<Rightarrow> nat \<Rightarrow> arxiv_match \<Rightarrow> bool" where
  "match_settled x paper m =
     (match_is paper (px_topic x) (px_mapping x) (px_query x) m \<and> araw_observed_at (px_raw x) \<le> amatch_last_at m \<and>
      amatch_last_run_id m = px_run x \<and> dict_merge (amatch_metadata m) (lineage (px_raw x)) = amatch_metadata m)"

lemma dict_set_same: "dict_get d k = Some v \<Longrightarrow> dict_set k v d = d"
  by (induction d) auto

lemma lineage_merge_twice [simp]:
  "dict_merge (dict_merge d (lineage raw)) (lineage raw) = dict_merge d (lineage raw)"
  by (simp add: lineage_def) (simp add: dict_set_same)

lemma lineage_merge_self [simp]: "dict_merge (lineage raw) (lineage raw) = lineage raw"
  by (simp add: lineage_def)

lemma find_match:
  assumes "matches_ok db" "m \<in> set (adb_matches db)" "match_is p t mp q m"
  shows "find (match_is p t mp q) (adb_matches db) = Some m"
proof -
  have "match_is p t mp q = (\<lambda>y. (amatch_paper_id y, amatch_topic_id y, amatch_mapping_id y, amatch_query y) = (p, t, mp, q))"
    by (auto simp: match_is_def fun_eq_iff)
  then show ?thesis
    using find_unique [of "\<lambda>y. (amatch_paper_id y, amatch_topic_id y, amatch_mapping_id y, amatch_query y)" "adb_matches db" m]
      assms by (simp add: matches_ok_def arxiv_match_unique_def match_is_def)
qed

lemma upsert_match_result:
  assumes ok: "matches_ok db"
    and run: "upsert_match paper (px_topic x) (px_mapping x) (px_query x) (px_run x) (px_raw x) db = (added, db')"
  shows "matches_ok db' \<and> (\<exists>m\<in>set (adb_matches db'). match_settled x paper m) \<and>
     length (adb_matches db') = length (adb_matches db) + (if added then 1 else 0) \<and>
     (\<forall>m\<in>set (adb_matches db). amatch_paper_id m \<noteq> paper \<longrightarrow> m \<in> set (adb_matches db'))"
proof (cases "find (match_is paper (px_topic x) (px_mapping x) (px_query x)) (adb_matches db)")
  case None
  let ?m = "\<lparr>amatch_id = fresh_id (map amatch_id (adb_matches db)), amatch_paper_id = paper,
      amatch_topic_id = px_topic x, amatch_mapping_id = px_mapping x, amatch_query = px_query x,
      amatch_method = ArxivApiQuery, amatch_first_at = araw_observed_at (px_raw x),
      amatch_last_at = araw_observed_at (px_raw x), amatch_first_run_id = px_run x, amatch_last_run_id = px_run x,
      amatch_metadata = lineage (px_raw x)\<rparr>"
  have e: "added" "db' = db\<lparr>adb_matches := adb_matches db @ [?m]\<rparr>" using run None by (auto simp: upsert_match_def)
  have "\<not> match_is paper (px_topic x) (px_mapping x) (px_query x) m" if "m \<in> set (adb_matches db)" for m
    using None that by (simp add: find_None_iff)
  then have n: "(paper, px_topic x, px_mapping x, px_query x) \<notin>
      (\<lambda>m. (amatch_paper_id m, amatch_topic_id m, amatch_mapping_id m, amatch_query m)) ` set (adb_matches db)"
    unfolding match_is_def by fastforce
  have "matches_ok db'"
    using ok n fresh_id_notin [of "map amatch_id (adb_matches db)"] e(2)
 by (simp add: matches_ok_def arxiv_match_unique_def)
  moreover have "match_settled x paper ?m" by (simp add: match_settled_def match_is_def)
  ultimately show ?thesis using e by auto
next
  case (Some m)
  define f where "f y = (if amatch_id y = amatch_id m then y\<lparr>amatch_last_at := max (amatch_last_at y) (araw_observed_at (px_raw x)),
      amatch_last_run_id := px_run x, amatch_metadata := dict_merge (amatch_metadata y) (lineage (px_raw x))\<rparr> else y)" for y :: arxiv_match
  have e: "\<not> added" "db' = db\<lparr>adb_matches := map f (adb_matches db)\<rparr>"
    using run Some by (auto simp: upsert_match_def f_def [abs_def])
  have m: "m \<in> set (adb_matches db)" "match_is paper (px_topic x) (px_mapping x) (px_query x) m"
    using find_key_SomeD [OF Some] by simp_all
  have k: "amatch_id (f y) = amatch_id y" "amatch_paper_id (f y) = amatch_paper_id y" "amatch_topic_id (f y) = amatch_topic_id y"
    "amatch_mapping_id (f y) = amatch_mapping_id y" "amatch_query (f y) = amatch_query y" for y by (simp_all add: f_def)
  have "matches_ok db'" using ok by (simp add: matches_ok_def arxiv_match_unique_def e comp_def k)
  moreover have "match_settled x paper (f m)" using m(2) by (simp add: match_settled_def match_is_def f_def)
  moreover have "m' \<in> set (map f (adb_matches db))" if "m' \<in> set (adb_matches db)" "amatch_paper_id m' \<noteq> paper" for m'
  proof -
    have "amatch_id m' \<noteq> amatch_id m"
      using that m ok distinct_map_inj [of amatch_id "adb_matches db" m' m] by (auto simp: matches_ok_def match_is_def)
    then have "f m' = m'" by (simp add: f_def)
    then show ?thesis using that(1) by (metis image_eqI list.set_map)
  qed
  ultimately show ?thesis using e m(1) by auto
qed

lemma upsert_match_settled:
  assumes "matches_ok db" "m \<in> set (adb_matches db)" "match_settled x paper m"
  shows "upsert_match paper (px_topic x) (px_mapping x) (px_query x) (px_run x) (px_raw x) db = (False, db)"
proof -
  have f: "find (match_is paper (px_topic x) (px_mapping x) (px_query x)) (adb_matches db) = Some m"
    by (rule find_match) (use assms in \<open>simp_all add: match_settled_def\<close>)
  have "map (\<lambda>y. if amatch_id y = amatch_id m then
      y\<lparr>amatch_last_at := max (amatch_last_at y) (araw_observed_at (px_raw x)), amatch_last_run_id := px_run x,
        amatch_metadata := dict_merge (amatch_metadata y) (lineage (px_raw x))\<rparr> else y) (adb_matches db) = adb_matches db"
  proof (rule map_update_id)
    fix y assume y: "y \<in> set (adb_matches db)"
    show "(if amatch_id y = amatch_id m then
      y\<lparr>amatch_last_at := max (amatch_last_at y) (araw_observed_at (px_raw x)), amatch_last_run_id := px_run x,
        amatch_metadata := dict_merge (amatch_metadata y) (lineage (px_raw x))\<rparr> else y) = y"
    proof (cases "amatch_id y = amatch_id m")
      case True
      then have "y = m" using distinct_map_inj [of amatch_id] assms(1,2) y by (metis matches_ok_def)
      then show ?thesis using assms(3) by (simp add: match_settled_def max_def)
    qed simp
  qed
  then show ?thesis using f by (simp add: upsert_match_def)
qed


section \<open>Articles and feeds\<close>

definition article_settled :: "persist_context \<Rightarrow> article \<Rightarrow> arxiv_db \<Rightarrow> bool" where
  "article_settled x a db =
     (\<exists>p\<in>set (adb_papers db). paper_settled a (araw_observed_at (px_raw x)) p \<and>
        observed (paper_id p) (araw_id (px_raw x)) db \<and> (\<exists>m\<in>set (adb_matches db). match_settled x (paper_id p) m))"

lemma reconcile_paper_ok:
  assumes "authors_ok db" "categories_ok db" "distinct (art_categories a)"
  shows "authors_ok (reconcile_paper x a paper state db) \<and> categories_ok (reconcile_paper x a paper state db)"
proof -
  let ?db1 = "reconcile_authors (px_nfkc x) paper (art_authors a) db"
  have "categories_ok ?db1" using assms(2) ok_congs(3) [of ?db1 db] by simp
  moreover have "authors_ok (reconcile_categories paper (art_categories a) (art_primary_category a) ?db1)"
    using reconcile_authors_ok(1) [OF assms(1)] ok_congs(2) [of "reconcile_categories paper (art_categories a) (art_primary_category a) ?db1" ?db1]
    by simp
  ultimately show ?thesis using assms reconcile_categories_ok(1) by (simp add: reconcile_paper_def)
qed

lemma persist_article_result:
  assumes ok: "arxiv_db_ok db" and cats: "distinct (art_categories a)" and run: "persist_article x a (c, db) = (c', db')"
  shows "arxiv_db_ok db' \<and> article_settled x a db' \<and>
     (\<forall>b. art_arxiv_id b \<noteq> art_arxiv_id a \<longrightarrow> article_settled x b db \<longrightarrow> article_settled x b db') \<and>
     adb_raw db' = adb_raw db \<and> adb_cursors db' = adb_cursors db \<and>
     n_papers_inserted c' + n_papers_updated c' + n_papers_existing c' =
       Suc (n_papers_inserted c + n_papers_updated c + n_papers_existing c) \<and>
     n_duplicate_papers c' = n_duplicate_papers c \<and>
     length (adb_papers db') + n_papers_inserted c = length (adb_papers db) + n_papers_inserted c' \<and>
     length (adb_matches db') + n_matches_added c = length (adb_matches db) + n_matches_added c'"
proof -
  obtain paper state db1 added where
    u: "upsert_paper a (araw_observed_at (px_raw x)) db = ((paper, state), db1)"
    and m: "upsert_match paper (px_topic x) (px_mapping x) (px_query x) (px_run x) (px_raw x)
       (record_observation paper a (px_raw x) (px_run x) (reconcile_paper x a paper state db1)) = (added, db')"
    and n: "n_papers_inserted c' = n_papers_inserted c + (if state = PaperInserted then 1 else 0)"
      "n_papers_updated c' = n_papers_updated c + (if state = PaperUpdated then 1 else 0)"
      "n_papers_existing c' = n_papers_existing c + (if state = PaperExisting then 1 else 0)"
      "n_matches_added c' = n_matches_added c + (if added then 1 else 0)"
      "n_duplicate_papers c' = n_duplicate_papers c"
    by (rule persist_article_elim [OF run])
  let ?db2 = "reconcile_paper x a paper state db1" and ?raw = "px_raw x"
  let ?db3 = "record_observation paper a ?raw (px_run x) ?db2"
  note frame1 = upsert_paper_frame [OF u]
  note frame4 = upsert_match_frame [OF m]
  note P = upsert_paper_result [OF _ u]
  have pok: "papers_ok db" "authors_ok db" "categories_ok db" "arxiv_observation_unique (adb_observations db)" "matches_ok db"
    using ok by (simp_all add: arxiv_db_ok_def)
  have "authors_ok db1" "categories_ok db1" using pok(2,3) ok_congs(2,3) [of db1 db] frame1 by simp_all
  note R = reconcile_paper_ok [OF this cats, of x paper state]
  have o2: "arxiv_observation_unique (adb_observations ?db2)" using pok(4) frame1 by simp
  note O = record_observation_result [OF o2, where paper = paper and a = a and raw = ?raw and run = "px_run x"]
  have m3: "matches_ok ?db3" using pok(5) frame1 ok_congs(4) [of ?db3 db] by simp
  note M = upsert_match_result [OF m3 m]
  have papers: "adb_papers db' = adb_papers db1" using frame4 by simp
  have "papers_ok db'" using P [OF pok(1)] papers ok_congs(1) [of db' db1] by simp
  moreover have "authors_ok db'" "categories_ok db'" using R ok_congs(2,3) [of db' ?db2] frame4 by simp_all
  ultimately have "arxiv_db_ok db'" using O(1) M frame4 by (simp add: arxiv_db_ok_def)
  moreover have "article_settled x a db'"
    using P [OF pok(1)] O(2) M papers frame4(7) unfolding article_settled_def by auto
  moreover have "article_settled x b db'" if b: "art_arxiv_id b \<noteq> art_arxiv_id a" "article_settled x b db" for b
  proof -
    obtain p m' where p: "p \<in> set (adb_papers db)" "paper_settled b (araw_observed_at ?raw) p"
        "observed (paper_id p) (araw_id ?raw) db" "m' \<in> set (adb_matches db)" "match_settled x (paper_id p) m'"
      using b(2) unfolding article_settled_def by blast
    have id: "paper_arxiv_id p \<noteq> art_arxiv_id a" using b(1) p(2) by (simp add: paper_settled_def)
    then have p1: "p \<in> set (adb_papers db1)" using P [OF pok(1)] p(1) by blast
    obtain p' where p': "p' \<in> set (adb_papers db1)" "paper_id p' = paper" "paper_arxiv_id p' = art_arxiv_id a"
      using P [OF pok(1)] by (auto simp: paper_settled_def)
    then have "paper_id p \<noteq> paper"
      using id p1 P [OF pok(1)] distinct_map_inj [of paper_id "adb_papers db1" p p'] by (auto simp: papers_ok_def)
    then have "m' \<in> set (adb_matches db')" using M p(4,5) frame1 by (auto simp: match_settled_def match_is_def)
    moreover have "observed (paper_id p) (araw_id ?raw) db'" using O(3) p(3) frame1 frame4 by simp
    ultimately show ?thesis using p p1 papers unfolding article_settled_def by auto
  qed
  moreover have "length (adb_papers db') + n_papers_inserted c = length (adb_papers db) + n_papers_inserted c'"
    using n(1) P [OF pok(1)] papers by simp
  moreover have "length (adb_matches db') + n_matches_added c = length (adb_matches db) + n_matches_added c'"
    using n(4) M frame1 by simp
  moreover have "n_papers_inserted c' + n_papers_updated c' + n_papers_existing c' =
      Suc (n_papers_inserted c + n_papers_updated c + n_papers_existing c)"
    using n(1-3) by (cases state) simp_all
  moreover have "adb_raw db' = adb_raw db" "adb_cursors db' = adb_cursors db" using frame1 frame4 by simp_all
  ultimately show ?thesis using n(5) by blast
qed

lemma persist_article_settled:
  assumes ok: "arxiv_db_ok db" and set: "article_settled x a db"
  shows "persist_article x a (c, db) = (add_counts c (no_counts\<lparr>n_papers_existing := 1\<rparr>), db)"
proof -
  obtain p m where p: "p \<in> set (adb_papers db)" "paper_settled a (araw_observed_at (px_raw x)) p"
      "observed (paper_id p) (araw_id (px_raw x)) db" "m \<in> set (adb_matches db)" "match_settled x (paper_id p) m"
    using set unfolding article_settled_def by blast
  have u: "upsert_paper a (araw_observed_at (px_raw x)) db = ((paper_id p, PaperExisting), db)"
    by (rule upsert_paper_settled) (use ok p in \<open>simp_all add: arxiv_db_ok_def\<close>)
  have o: "record_observation (paper_id p) a (px_raw x) (px_run x) db = db"
    using p(3) by (simp add: record_observation_def)
  have m: "upsert_match (paper_id p) (px_topic x) (px_mapping x) (px_query x) (px_run x) (px_raw x) db = (False, db)"
    by (rule upsert_match_settled [OF _ p(4,5)]) (use ok in \<open>simp add: arxiv_db_ok_def\<close>)
  show ?thesis by (simp add: persist_article_def u o m)
qed

fun first_articles :: "string list \<Rightarrow> article list \<Rightarrow> article list" where
  "first_articles seen [] = []"
| "first_articles seen (a # as) =
     (if art_arxiv_id a \<in> set seen then first_articles seen as
      else a # first_articles (art_arxiv_id a # seen) as)"

lemma first_articles_new: "a \<in> set (first_articles seen as) \<Longrightarrow> art_arxiv_id a \<notin> set seen \<and> a \<in> set as"
  by (induction seen as rule: first_articles.induct) (auto split: if_splits)

lemma length_first_articles: "length (first_articles seen as) \<le> length as"
  by (induction seen as rule: first_articles.induct) auto

lemma persist_articles_result:
  assumes "arxiv_db_ok db" "list_all (\<lambda>a. distinct (art_categories a)) as"
    and "persist_articles x seen as (c, db) = (c', db')"
  shows "arxiv_db_ok db' \<and> (\<forall>a\<in>set (first_articles seen as). article_settled x a db') \<and>
     (\<forall>b. art_arxiv_id b \<in> set seen \<longrightarrow> article_settled x b db \<longrightarrow> article_settled x b db') \<and>
     adb_raw db' = adb_raw db \<and> adb_cursors db' = adb_cursors db \<and>
     n_papers_inserted c' + n_papers_updated c' + n_papers_existing c' + n_duplicate_papers c' =
       length as + (n_papers_inserted c + n_papers_updated c + n_papers_existing c + n_duplicate_papers c) \<and>
     length (adb_papers db') + n_papers_inserted c = length (adb_papers db) + n_papers_inserted c' \<and>
     length (adb_matches db') + n_matches_added c = length (adb_matches db) + n_matches_added c'"
  using assms
proof (induction as arbitrary: seen c db)
  case (Cons a as)
  show ?case
  proof (cases "art_arxiv_id a \<in> set seen")
    case True
    let ?c = "add_counts c (no_counts\<lparr>n_duplicate_papers := 1\<rparr>)"
    have "persist_articles x seen as (?c, db) = (c', db')" using Cons.prems(3) True by simp
    from Cons.IH [OF Cons.prems(1) _ this] Cons.prems(2) True show ?thesis
      by (simp add: add_counts_def no_counts_def)
  next
    case False
    obtain c1 db1 where one: "persist_article x a (c, db) = (c1, db1)" by (cases "persist_article x a (c, db)")
    have rest: "persist_articles x (art_arxiv_id a # seen) as (c1, db1) = (c', db')" using Cons.prems(3) False one by simp
    have da: "distinct (art_categories a)" "list_all (\<lambda>a. distinct (art_categories a)) as" using Cons.prems(2) by simp_all
    note A = persist_article_result [OF Cons.prems(1) da(1) one]
    have IH: "arxiv_db_ok db'" "\<forall>a\<in>set (first_articles (art_arxiv_id a # seen) as). article_settled x a db'"
        "\<And>b. art_arxiv_id b \<in> set (art_arxiv_id a # seen) \<Longrightarrow> article_settled x b db1 \<Longrightarrow> article_settled x b db'"
        "adb_raw db' = adb_raw db1" "adb_cursors db' = adb_cursors db1"
        "n_papers_inserted c' + n_papers_updated c' + n_papers_existing c' + n_duplicate_papers c' =
           length as + (n_papers_inserted c1 + n_papers_updated c1 + n_papers_existing c1 + n_duplicate_papers c1)"
        "length (adb_papers db') + n_papers_inserted c1 = length (adb_papers db1) + n_papers_inserted c'"
        "length (adb_matches db') + n_matches_added c1 = length (adb_matches db1) + n_matches_added c'"
      using Cons.IH [OF A [THEN conjunct1] da(2) rest] by blast+
    have "article_settled x a db'" using A IH(3) by simp
    moreover have "article_settled x b db'" if "art_arxiv_id b \<in> set seen" "article_settled x b db" for b
    proof -
      have "art_arxiv_id b \<noteq> art_arxiv_id a" using that(1) False by auto
      then show ?thesis using A that IH(3) by simp
    qed
    ultimately show ?thesis using A IH False by simp
  qed
qed (simp add: arxiv_db_ok_def)

lemma persist_articles_settled:
  assumes "arxiv_db_ok db" "\<forall>a\<in>set (first_articles seen as). article_settled x a db"
  shows "persist_articles x seen as (c, db) =
     (c\<lparr>n_papers_existing := n_papers_existing c + length (first_articles seen as),
        n_duplicate_papers := n_duplicate_papers c + (length as - length (first_articles seen as))\<rparr>, db)"
  using assms(2)
proof (induction as arbitrary: seen c)
  case (Cons a as)
  show ?case
  proof (cases "art_arxiv_id a \<in> set seen")
    case True
    then show ?thesis
      using Cons.IH [of seen "add_counts c (no_counts\<lparr>n_duplicate_papers := 1\<rparr>)"] Cons.prems length_first_articles [of seen as]
      by (simp add: add_counts_def no_counts_def Suc_diff_le)
  next
    case False
    have "article_settled x a db" using Cons.prems False by simp
    from persist_article_settled [OF assms(1) this] False show ?thesis
      using Cons.IH [of "art_arxiv_id a # seen" "add_counts c (no_counts\<lparr>n_papers_existing := 1\<rparr>)"] Cons.prems
      by (simp add: add_counts_def no_counts_def)
  qed
qed simp

lemma update_raw_frame [simp]:
  "adb_papers (update_raw i f db) = adb_papers db" "adb_authors (update_raw i f db) = adb_authors db"
  "adb_paper_authors (update_raw i f db) = adb_paper_authors db" "adb_categories (update_raw i f db) = adb_categories db"
  "adb_paper_categories (update_raw i f db) = adb_paper_categories db"
  "adb_observations (update_raw i f db) = adb_observations db" "adb_matches (update_raw i f db) = adb_matches db"
  "adb_cursors (update_raw i f db) = adb_cursors db"
  by (simp_all add: update_raw_def)

lemma update_raw_ok: "arxiv_db_ok (update_raw i f db) = arxiv_db_ok db"
  unfolding arxiv_db_ok_def papers_ok_def authors_ok_def categories_ok_def matches_ok_def update_raw_frame ..

lemma upsert_paper_values:
  assumes "papers_ok db" "upsert_paper a t db = ((i, state), db')" "state \<noteq> PaperExisting"
  shows "\<exists>p\<in>set (adb_papers db'). paper_id p = i \<and> apply_values a p = p"
proof (cases "find (\<lambda>p. paper_arxiv_id p = art_arxiv_id a) (adb_papers db)")
  case None
  then have "db' = db\<lparr>adb_papers := adb_papers db @ [apply_values a (blank_paper i t)]\<rparr>"
    using assms(2) by (auto simp: upsert_paper_def Let_def)
  then show ?thesis by simp
next
  case (Some p)
  then have p: "p \<in> set (adb_papers db)" using find_key_SomeD by fastforce
  let ?q = "apply_values a (p\<lparr>paper_last_observed_at := max (paper_last_observed_at p) t\<rparr>)"
  have "db' = set_paper ?q db" "i = paper_id p"
    using assms(2,3) Some by (auto simp: upsert_paper_def Let_def split: if_splits)
  moreover have "distinct (map paper_id (adb_papers db))" using assms(1) by (simp add: papers_ok_def)
  ultimately show ?thesis using set_paper_set(1) [of db p ?q] p by simp
qed

definition feed_categories_distinct :: "feed \<Rightarrow> bool" where
  "feed_categories_distinct f = list_all (\<lambda>a. distinct (art_categories a)) (fd_articles f)"

definition counts_of :: "counts \<Rightarrow> nat" where
  "counts_of c = n_papers_inserted c + n_papers_updated c + n_papers_existing c + n_duplicate_papers c"

lemma persist_feed_result:
  assumes "arxiv_db_ok db" "feed_categories_distinct f" "persist_feed x f db = (c, db')"
  shows "arxiv_db_ok db' \<and> (\<forall>a\<in>set (first_articles [] (fd_articles f)). article_settled x a db') \<and>
     adb_cursors db' = adb_cursors db \<and>
     adb_raw db' = adb_raw (update_raw (araw_id (px_raw x))
       (\<lambda>r. r\<lparr>araw_parsed_entry_count := Some (int (length (fd_articles f))), araw_parse_error := None\<rparr>) db) \<and>
     counts_of c = length (fd_articles f) \<and>
     length (adb_papers db') = length (adb_papers db) + n_papers_inserted c \<and>
     length (adb_matches db') = length (adb_matches db) + n_matches_added c"
proof -
  let ?db = "update_raw (araw_id (px_raw x))
       (\<lambda>r. r\<lparr>araw_parsed_entry_count := Some (int (length (fd_articles f))), araw_parse_error := None\<rparr>) db"
  have "arxiv_db_ok ?db" using assms(1) by (simp add: update_raw_ok)
  moreover have "list_all (\<lambda>a. distinct (art_categories a)) (fd_articles f)"
    using assms(2) by (simp add: feed_categories_distinct_def)
  moreover have "persist_articles x [] (fd_articles f) (no_counts, ?db) = (c, db')"
    using assms(3) by (simp add: persist_feed_def)
  ultimately have r: "arxiv_db_ok db'" "\<forall>a\<in>set (first_articles [] (fd_articles f)). article_settled x a db'"
      "adb_raw db' = adb_raw ?db" "adb_cursors db' = adb_cursors ?db"
      "n_papers_inserted c + n_papers_updated c + n_papers_existing c + n_duplicate_papers c =
         length (fd_articles f) + (n_papers_inserted no_counts + n_papers_updated no_counts +
           n_papers_existing no_counts + n_duplicate_papers no_counts)"
      "length (adb_papers db') + n_papers_inserted no_counts = length (adb_papers ?db) + n_papers_inserted c"
      "length (adb_matches db') + n_matches_added no_counts = length (adb_matches ?db) + n_matches_added c"
    using persist_articles_result [of ?db "fd_articles f" x "[]" no_counts c db'] by blast+
  then show ?thesis by (simp add: no_counts_def counts_of_def)
qed

lemma persist_feed_again:
  assumes "arxiv_db_ok db" "feed_categories_distinct f" "persist_feed x f db = (c, db')"
  shows "persist_feed x f db' =
     (no_counts\<lparr>n_papers_existing := length (first_articles [] (fd_articles f)),
        n_duplicate_papers := length (fd_articles f) - length (first_articles [] (fd_articles f))\<rparr>, db')"
proof -
  let ?g = "\<lambda>r. r\<lparr>araw_parsed_entry_count := Some (int (length (fd_articles f))), araw_parse_error := None\<rparr>"
  note R = persist_feed_result [OF assms]
  have "map (\<lambda>r. if araw_id r = araw_id (px_raw x) then ?g r else r) (adb_raw db') = adb_raw db'"
    using R by (auto simp: update_raw_def)
  then have "update_raw (araw_id (px_raw x)) ?g db' = db'" by (simp add: update_raw_def)
  then show ?thesis
    using persist_articles_settled [of db' "[]" "fd_articles f" x no_counts] R
    by (simp add: persist_feed_def) (simp add: no_counts_def)
qed


section \<open>Properties\<close>

text \<open>
  persisting a feed keeps the tables well formed: no arXiv identifier, author position, author of a
  paper, category code, category of a paper, observation of a response or match identity occurs twice,
  so no unique constraint can fail.  The counts it reports are exact: every entry of the feed is counted
  once as inserted, updated, existing or duplicate, and the paper and match tables grow by exactly the
  reported numbers.
\<close>

theorem persist_feed_sound:
  assumes "arxiv_db_ok db" "feed_categories_distinct f" "persist_feed x f db = (c, db')"
  shows "arxiv_db_ok db' \<and> counts_of c = length (fd_articles f) \<and>
     length (adb_papers db') = length (adb_papers db) + n_papers_inserted c \<and>
     length (adb_matches db') = length (adb_matches db) + n_matches_added c"
  using persist_feed_result [OF assms] by blast

definition demo_article :: "string \<Rightarrow> int \<Rightarrow> article" where
  "demo_article i t = \<lparr>art_arxiv_id = i, art_latest_version = Some 1, art_title = ''T'', art_abstract = ''A'',
     art_published_at = 0, art_updated_at = t, art_authors = [''Ada L'', ''Bo''], art_categories = [''cs.AI'', ''cs.LG''],
     art_primary_category = ''cs.AI'', art_comment = None, art_journal_ref = None, art_doi = None, art_license_url = None,
     art_abs_url = ''u'', art_pdf_url = None, art_is_withdrawn = False, art_metadata = [(''entry_id'', JStr i)]\<rparr>"

definition demo_feed :: feed where
  "demo_feed = \<lparr>fd_total_results = 3, fd_start_index = 0, fd_items_per_page = 3,
     fd_articles = [demo_article ''1'' 5, demo_article ''2'' 6, demo_article ''1'' 7],
     fd_feed_id = None, fd_updated_at = None, fd_metadata = []\<rparr>"

definition demo_raw :: arxiv_raw_response where
  "demo_raw = \<lparr>araw_id = 1, araw_run_id = 1, araw_topic_id = 1, araw_mapping_id = 1, araw_raw_path = ''p'',
     araw_checksum = ''c'', araw_observed_at = 9, araw_query = ''q'', araw_start_index = 0, araw_max_results = 10,
     araw_sort_by = ''submittedDate'', araw_sort_order = ''ascending'', araw_http_status = 200,
     araw_response_headers = [], araw_request_metadata = [], araw_parsed_entry_count = None, araw_parse_error = None\<rparr>"

definition demo_context :: persist_context where
  "demo_context = \<lparr>px_topic = 1, px_mapping = 1, px_query = ''all:x'', px_run = 1, px_raw = demo_raw, px_nfkc = id\<rparr>"

definition demo_arxiv_db :: arxiv_db where
  "demo_arxiv_db = \<lparr>adb_raw = [demo_raw], adb_papers = [], adb_authors = [], adb_paper_authors = [], adb_categories = [],
     adb_paper_categories = [], adb_observations = [], adb_matches = [], adb_cursors = []\<rparr>"

lemma demo_db_ok: "arxiv_db_ok demo_arxiv_db" "feed_categories_distinct demo_feed"
  by code_simp+

theorem persist_feed_sound_witness:
  "\<exists>c db'. persist_feed demo_context demo_feed demo_arxiv_db = (c, db') \<and> arxiv_db_ok db' \<and>
     counts_of c = 3 \<and> length (adb_papers db') = n_papers_inserted c"
proof -
  obtain c db' where p: "persist_feed demo_context demo_feed demo_arxiv_db = (c, db')"
    by (cases "persist_feed demo_context demo_feed demo_arxiv_db")
  have "length (fd_articles demo_feed) = 3" "adb_papers demo_arxiv_db = []"
    by (simp_all add: demo_feed_def demo_arxiv_db_def)
  with persist_feed_sound [OF demo_db_ok p] p show ?thesis by simp
qed

text \<open>
  C14: persistence is idempotent: persisting the same feed of the same response again (a resumed or
  replayed page) changes nothing in the database; every entry is counted as existing or duplicate, and
  no paper, version or match is counted as new.
\<close>

theorem persist_feed_idempotent:
  assumes "arxiv_db_ok db" "feed_categories_distinct f" "persist_feed x f db = (c, db')"
  shows "\<exists>c'. persist_feed x f db' = (c', db') \<and> n_papers_inserted c' = 0 \<and> n_papers_updated c' = 0 \<and>
     n_matches_added c' = 0 \<and> n_papers_existing c' + n_duplicate_papers c' = length (fd_articles f)"
  using persist_feed_again [OF assms] length_first_articles [of "[]" "fd_articles f"] by (simp add: no_counts_def)

theorem persist_feed_idempotent_witness:
  "\<exists>c db' c'. persist_feed demo_context demo_feed demo_arxiv_db = (c, db') \<and>
     persist_feed demo_context demo_feed db' = (c', db') \<and> n_papers_inserted c' = 0"
proof -
  obtain c db' where p: "persist_feed demo_context demo_feed demo_arxiv_db = (c, db')"
    by (cases "persist_feed demo_context demo_feed demo_arxiv_db")
  with persist_feed_idempotent [OF demo_db_ok p] show ?thesis by blast
qed

text \<open>
  A paper that is inserted or updated afterwards reads as the entry of the feed says: its columns
  are the entry's values, its authors in order of position are the entry's authors, and its categories
  are exactly the entry's categories, with the primary flag on the primary one only.
\<close>

theorem persisted_paper_reads_back:
  assumes "arxiv_db_ok db" "distinct (art_categories a)" "persist_article x a (c, db) = (c', db')"
    and "n_papers_existing c' = n_papers_existing c"
  shows "\<exists>p\<in>set (adb_papers db'). apply_values a p = p \<and>
     (let mine = filter (\<lambda>r. pa_paper_id r = paper_id p) (adb_paper_authors db') in
        map pa_position mine = map int [0..<length (art_authors a)] \<and>
        list_all2 (names_author (px_nfkc x) (adb_authors db')) (art_authors a) mine) \<and>
     (let mine = filter (\<lambda>r. pc_paper_id r = paper_id p) (adb_paper_categories db');
          code = (\<lambda>r. category_code (adb_categories db') (pc_category_id r)) in
        code ` set mine = set (art_categories a) \<and>
        (\<forall>r\<in>set mine. pc_is_primary r = (code r = art_primary_category a)))"
proof -
  obtain paper state db1 added where
    u: "upsert_paper a (araw_observed_at (px_raw x)) db = ((paper, state), db1)"
    and m: "upsert_match paper (px_topic x) (px_mapping x) (px_query x) (px_run x) (px_raw x)
       (record_observation paper a (px_raw x) (px_run x) (reconcile_paper x a paper state db1)) = (added, db')"
    and n: "n_papers_existing c' = n_papers_existing c + (if state = PaperExisting then 1 else 0)"
    by (rule persist_article_elim [OF assms(3)])
  have new: "state \<noteq> PaperExisting" using n assms(4) by auto
  have ok: "papers_ok db" "authors_ok db1" "categories_ok db1"
    using assms(1) upsert_paper_frame [OF u] ok_congs(2,3) [of db1 db] by (simp_all add: arxiv_db_ok_def)
  let ?A = "reconcile_authors (px_nfkc x) paper (art_authors a) db1"
  have c2: "categories_ok ?A" using ok(3) ok_congs(3) [of ?A db1] by simp
  have fields: "adb_papers db' = adb_papers db1" "adb_authors db' = adb_authors ?A"
      "adb_paper_authors db' = adb_paper_authors ?A"
      "adb_categories db' = adb_categories (reconcile_categories paper (art_categories a) (art_primary_category a) ?A)"
      "adb_paper_categories db' = adb_paper_categories (reconcile_categories paper (art_categories a) (art_primary_category a) ?A)"
    using upsert_match_frame [OF m] new by (simp_all add: reconcile_paper_def)
  obtain p where p: "p \<in> set (adb_papers db1)" "paper_id p = paper" "apply_values a p = p"
    using upsert_paper_values [OF ok(1) u new] by blast
  show ?thesis
    using p reconcile_authors_ok(2) [OF ok(2), of paper "px_nfkc x" "art_authors a"]
      reconcile_categories_ok(2) [OF c2 assms(2), of paper "art_primary_category a"]
    unfolding fields Let_def by (intro bexI [of _ p]) simp_all
qed

theorem persisted_paper_reads_back_witness:
  "\<exists>c' db'. persist_article demo_context (demo_article ''1'' 5) (no_counts, demo_arxiv_db) = (c', db') \<and>
     (\<exists>p\<in>set (adb_papers db'). apply_values (demo_article ''1'' 5) p = p)"
proof -
  obtain c' db' where p: "persist_article demo_context (demo_article ''1'' 5) (no_counts, demo_arxiv_db) = (c', db')"
    by (cases "persist_article demo_context (demo_article ''1'' 5) (no_counts, demo_arxiv_db)")
  have "n_papers_existing c' = n_papers_existing no_counts"
    by (rule persist_article_elim [OF p]) (auto simp: upsert_paper_def demo_arxiv_db_def Let_def)
  moreover have "distinct (art_categories (demo_article ''1'' 5))" by (simp add: demo_article_def)
  ultimately show ?thesis using persisted_paper_reads_back [OF demo_db_ok(1) _ p] p by blast
qed

end
