(* ===== verification/Arxiv_Parser.thy ===== *)
theory Arxiv_Parser
  imports Arxiv_Persistence
begin

text \<open>
  \<open>arxiv_collector/parser.py\<close>.  The XML reader \<open>ET.fromstring\<close> (expat) is a parameter that returns an
  element tree or the message of its \<open>ParseError\<close>, \<open>datetime.fromisoformat\<close> a parameter that returns
  \<open>None\<close> where it raises \<open>ValueError\<close>.  \<open>url_path\<close> is \<open>urlparse(value).path\<close> for ASCII host names.
\<close>


section \<open>Element trees\<close>

datatype element = Element (el_tag: string) (el_attrib: "(string, string) dict") (el_text: "string option")
  (el_children: "element list")

definition atom :: "string \<Rightarrow> string" where
  "atom name = ''{http://www.w3.org/2005/Atom}'' @ name"

definition opensearch :: "string \<Rightarrow> string" where
  "opensearch name = ''{http://a9.com/-/spec/opensearch/1.1/}'' @ name"

definition arxiv_ns :: "string \<Rightarrow> string" where
  "arxiv_ns name = ''{http://arxiv.org/schemas/atom}'' @ name"

definition find_all :: "string \<Rightarrow> element \<Rightarrow> element list" where
  "find_all tag e = filter (\<lambda>c. el_tag c = tag) (el_children e)"

text \<open>\<open>findtext\<close>: the text of the first child with the tag, empty where it has none.\<close>

definition find_text :: "string \<Rightarrow> element \<Rightarrow> string option" where
  "find_text tag e =
     (case find_all tag e of [] \<Rightarrow> None | c # _ \<Rightarrow> Some (case el_text c of None \<Rightarrow> [] | Some t \<Rightarrow> t))"


section \<open>Text\<close>

definition normalize_text :: "string option \<Rightarrow> string" where
  "normalize_text v = join '' '' (split_words (case v of None \<Rightarrow> [] | Some s \<Rightarrow> s))"

text \<open>What follows the first occurrence of a non-empty text.\<close>

fun after_first :: "string \<Rightarrow> string \<Rightarrow> string option" where
  "after_first sub [] = None"
| "after_first sub (c # cs) =
     (if take (length sub) (c # cs) = sub then Some (drop (length sub) (c # cs)) else after_first sub cs)"

definition occurs_in :: "string \<Rightarrow> string \<Rightarrow> bool" where
  "occurs_in sub s = (after_first sub s \<noteq> None)"

definition strip_chars :: "char list \<Rightarrow> string \<Rightarrow> string" where
  "strip_chars cs s = rev (dropWhile (\<lambda>c. c \<in> set cs) (rev (dropWhile (\<lambda>c. c \<in> set cs) s)))"

definition required_text :: "string option \<Rightarrow> string \<Rightarrow> string result" where
  "required_text v field =
     (let t = normalize_text v in
      if t = [] then Inl (ArxivParseError (''arXiv entry is missing '' @ field)) else Inr t)"

definition optional_text :: "string option \<Rightarrow> string option" where
  "optional_text v = (let t = normalize_text v in if t = [] then None else Some t)"

definition required_int :: "element \<Rightarrow> string \<Rightarrow> string \<Rightarrow> int result" where
  "required_int root tag path =
     (case py_int (normalize_text (find_text tag root)) of
        None \<Rightarrow> Inl (ArxivParseError (''missing or invalid '' @ path))
      | Some i \<Rightarrow> Inr i)"

definition optional_datetime :: "(string \<Rightarrow> pydatetime option) \<Rightarrow> string option \<Rightarrow> int option result" where
  "optional_datetime readtime v =
     (let t = normalize_text v in
      if t = [] then Inr None
      else (case readtime (replace_char CHR ''Z'' ''+00:00'' t) of
              None \<Rightarrow> Inl (ArxivParseError (''invalid arXiv timestamp: '' @ t))
            | Some d \<Rightarrow> (case utc_instant d of
                None \<Rightarrow> Inl (ArxivParseError ''arXiv timestamp must include a timezone'')
              | Some i \<Rightarrow> Inr (Some i))))"

definition required_datetime :: "(string \<Rightarrow> pydatetime option) \<Rightarrow> string option \<Rightarrow> int result" where
  "required_datetime readtime v =
     result_bind (optional_datetime readtime v) (\<lambda>d.
       case d of None \<Rightarrow> Inl (ArxivParseError ''arXiv entry has a missing timestamp'') | Some i \<Rightarrow> Inr i)"


section \<open>Identifiers\<close>

definition scheme_char :: "char \<Rightarrow> bool" where
  "scheme_char c = (let n = (of_char c :: nat) in
     (97 \<le> n \<and> n \<le> 122) \<or> (65 \<le> n \<and> n \<le> 90) \<or> (48 \<le> n \<and> n \<le> 57) \<or> n = 43 \<or> n = 45 \<or> n = 46)"

definition ascii_alpha :: "char \<Rightarrow> bool" where
  "ascii_alpha c = (let n = (of_char c :: nat) in (97 \<le> n \<and> n \<le> 122) \<or> (65 \<le> n \<and> n \<le> 90))"

definition uses_params :: "string list" where
  "uses_params = [[], ''ftp'', ''hdl'', ''prospero'', ''http'', ''https'', ''shttp'', ''rtsp'', ''rtsps'', ''rtspu'', ''sip'',
     ''sips'', ''mms'', ''sftp'', ''tel'']"

definition split_scheme :: "string \<Rightarrow> string \<times> string" where
  "split_scheme url =
     (let scheme = takeWhile (\<lambda>c. c \<noteq> CHR '':'') url; rest = drop (length scheme) url in
      if rest \<noteq> [] \<and> scheme \<noteq> [] \<and> ascii_alpha (hd scheme) \<and> list_all scheme_char scheme
      then (casefold scheme, tl rest) else ([], url))"

definition drop_params :: "string \<Rightarrow> string" where
  "drop_params path =
     (let segment = rev (takeWhile (\<lambda>c. c \<noteq> CHR ''/'') (rev path)) in
      take (length path - length segment) path @ takeWhile (\<lambda>c. c \<noteq> CHR '';'') segment)"

definition url_path :: "string \<Rightarrow> string result" where
  "url_path value =
     (let url = filter (\<lambda>c. of_char c \<noteq> (9::nat) \<and> of_char c \<noteq> (10::nat) \<and> of_char c \<noteq> (13::nat))
            (dropWhile (\<lambda>c. of_char c \<le> (32::nat)) value);
          (scheme, rest) = split_scheme url;
          after = drop 2 rest;
          netloc = (if take 2 rest = ''//'' then takeWhile (\<lambda>c. c \<notin> set ''/?#'') after else []);
          path = (if take 2 rest = ''//'' then drop (length netloc) after else rest);
          path' = takeWhile (\<lambda>c. c \<noteq> CHR ''?'') (takeWhile (\<lambda>c. c \<noteq> CHR ''#'') path)
      in if (CHR ''['' \<in> set netloc) \<noteq> (CHR '']'' \<in> set netloc) then Inl (ValueError ''Invalid IPv6 URL'')
         else Inr (if scheme \<in> set uses_params then drop_params path' else path'))"

definition is_digit :: "char \<Rightarrow> bool" where
  "is_digit c = (digit_of c \<noteq> None)"

text \<open>The match of \<open>v(?P<version>[1-9][0-9]*)$\<close>: the part before it and the version.\<close>

definition version_suffix :: "string \<Rightarrow> (string \<times> int) option" where
  "version_suffix s =
     (let digits = rev (takeWhile is_digit (rev s)); rest = take (length s - length digits) s in
      case py_nat digits of
        None \<Rightarrow> None
      | Some n \<Rightarrow> (if hd digits \<noteq> CHR ''0'' \<and> rest \<noteq> [] \<and> last rest = CHR ''v'' then Some (butlast rest, int n) else None))"

definition canonical_identifier :: "string \<Rightarrow> (string \<times> int option) result" where
  "canonical_identifier value =
     result_bind (url_path value) (\<lambda>path.
       (let identifier = strip_chars ''/'' (strip (case after_first ''/abs/'' path of Some r \<Rightarrow> r | None \<Rightarrow> value)) in
        if identifier = [] then Inl (ArxivParseError ''article identifier is empty'')
        else (case version_suffix identifier of
                Some (canonical, version) \<Rightarrow> Inr (canonical, Some version)
              | None \<Rightarrow> Inr (identifier, None))))"


section \<open>Entries\<close>

record link_urls =
  lk_abs :: string
  lk_pdf :: "string option"
  lk_license :: "string option"

definition attribute :: "string \<Rightarrow> element \<Rightarrow> string option" where
  "attribute key e = dict_get (el_attrib e) key"

definition read_link :: "element \<Rightarrow> link_urls \<Rightarrow> link_urls" where
  "read_link link u =
     (let href = normalize_text (attribute ''href'' link) in
      if href = [] then u
      else if attribute ''rel'' link = Some ''alternate'' \<and> attribute ''type'' link = Some ''text/html'' then u\<lparr>lk_abs := href\<rparr>
      else if attribute ''title'' link = Some ''pdf'' \<or> attribute ''type'' link = Some ''application/pdf'' then
        u\<lparr>lk_pdf := Some href\<rparr>
      else if attribute ''rel'' link = Some ''license'' then u\<lparr>lk_license := Some href\<rparr>
      else u)"

definition entry_categories :: "element \<Rightarrow> string list" where
  "entry_categories e =
     filter (\<lambda>t. t \<noteq> []) (map (\<lambda>c. normalize_text (attribute ''term'' c)) (find_all (atom ''category'') e))"

definition primary_category :: "element \<Rightarrow> string" where
  "primary_category e =
     (case find_all (arxiv_ns ''primary_category'') e of [] \<Rightarrow> [] | c # _ \<Rightarrow> normalize_text (attribute ''term'' c))"

definition parse_article :: "(string \<Rightarrow> pydatetime option) \<Rightarrow> element \<Rightarrow> article result" where
  "parse_article readtime e =
     result_bind (required_text (find_text (atom ''id'') e) ''entry id'') (\<lambda>entry_id.
     result_bind (canonical_identifier entry_id) (\<lambda>(canonical, version).
     result_bind (required_text (find_text (atom ''title'') e) ''title'') (\<lambda>title.
     result_bind (required_text (find_text (atom ''summary'') e) ''summary'') (\<lambda>abstract.
     result_bind (required_datetime readtime (find_text (atom ''published'') e)) (\<lambda>published.
     result_bind (required_datetime readtime (find_text (atom ''updated'') e)) (\<lambda>updated.
     result_bind (result_map (\<lambda>a. required_text (find_text (atom ''name'') a) ''author name'') (find_all (atom ''author'') e))
       (\<lambda>authors.
         (let categories = entry_categories e; primary = primary_category e in
          if primary = [] then Inl (ArxivParseError (''paper '' @ canonical @ '' is missing primary category''))
          else
            (let categories' = (if primary \<in> set categories then categories else primary # categories);
                 urls = fold read_link (find_all (atom ''link'') e) \<lparr>lk_abs = entry_id, lk_pdf = None, lk_license = None\<rparr>
             in Inr \<lparr>art_arxiv_id = canonical, art_latest_version = version, art_title = title, art_abstract = abstract,
                  art_published_at = published, art_updated_at = updated, art_authors = authors,
                  art_categories = first_occurrences categories', art_primary_category = primary,
                  art_comment = optional_text (find_text (arxiv_ns ''comment'') e),
                  art_journal_ref = optional_text (find_text (arxiv_ns ''journal_ref'') e),
                  art_doi = optional_text (find_text (arxiv_ns ''doi'') e),
                  art_license_url = or_else (lk_license urls) (optional_text (find_text (arxiv_ns ''license'') e)),
                  art_abs_url = lk_abs urls, art_pdf_url = lk_pdf urls,
                  art_is_withdrawn = occurs_in ''withdrawn'' (casefold (title @ '' '' @ abstract)),
                  art_metadata = [(''entry_id'', JStr entry_id)]\<rparr>)))))))))"


section \<open>Feeds\<close>

definition is_error_entry :: "element \<Rightarrow> bool" where
  "is_error_entry e =
     (occurs_in ''/api/errors'' (casefold (normalize_text (find_text (atom ''id'') e))) \<or>
      casefold (normalize_text (find_text (atom ''title'') e)) = ''error'')"

definition parse_root :: "(string \<Rightarrow> pydatetime option) \<Rightarrow> element \<Rightarrow> feed result" where
  "parse_root readtime root =
     (if el_tag root \<noteq> atom ''feed'' then Inl (ArxivParseError ''arXiv response root must be an Atom feed'')
      else
        (let entries = find_all (atom ''entry'') root in
         if length entries = 1 \<and> is_error_entry (hd entries) then
           Inl (ArxivAPIError (strip_chars '': '' (normalize_text (find_text (atom ''title'') (hd entries)) @ '': '' @
             normalize_text (find_text (atom ''summary'') (hd entries)))))
         else
           result_bind (required_int root (opensearch ''totalResults'') ''opensearch:totalResults'') (\<lambda>total.
           result_bind (required_int root (opensearch ''startIndex'') ''opensearch:startIndex'') (\<lambda>start_index.
           result_bind (required_int root (opensearch ''itemsPerPage'') ''opensearch:itemsPerPage'') (\<lambda>items.
           result_bind (result_map (parse_article readtime) entries) (\<lambda>articles.
             if items < int (length articles) then
               Inl (ArxivParseError ''itemsPerPage cannot be smaller than returned entry count'')
             else
               result_bind (optional_datetime readtime (find_text (atom ''updated'') root)) (\<lambda>updated.
                 (let f = \<lparr>fd_total_results = total, fd_start_index = start_index, fd_items_per_page = items,
                        fd_articles = articles, fd_feed_id = optional_text (find_text (atom ''id'') root),
                        fd_updated_at = updated, fd_metadata = []\<rparr>
                  in if feed_valid f then Inr f else Inl (OtherError ''ValidationError'' ''ParsedArxivFeed'')))))))))"

definition parse_payload ::
  "(string \<Rightarrow> string + element) \<Rightarrow> (string \<Rightarrow> pydatetime option) \<Rightarrow> string \<Rightarrow> feed result" where
  "parse_payload xml readtime payload =
     (if occurs_in ''<!DOCTYPE'' (upper payload) \<or> occurs_in ''<!ENTITY'' (upper payload) then
        Inl (ArxivParseError ''DTD and entity declarations are not accepted'')
      else (case xml payload of
              Inl message \<Rightarrow> Inl (ArxivParseError (''malformed arXiv Atom XML: '' @ message))
            | Inr root \<Rightarrow> parse_root readtime root))"

section \<open>What the parser lets through\<close>

definition clean_text :: "string \<Rightarrow> bool" where
  "clean_text t = (t \<noteq> [] \<and> join '' '' (split_words t) = t)"

definition article_valid :: "article \<Rightarrow> bool" where
  "article_valid a =
     (clean_text (art_title a) \<and> clean_text (art_abstract a) \<and> list_all clean_text (art_authors a) \<and>
      list_all clean_text (art_categories a) \<and> distinct (art_categories a) \<and>
      art_primary_category a \<in> set (art_categories a) \<and>
      (case art_latest_version a of None \<Rightarrow> True | Some v \<Rightarrow> v \<ge> 1) \<and>
      dict_get (art_metadata a) ''entry_id'' \<noteq> None)"

definition parser_error :: "py_error \<Rightarrow> bool" where
  "parser_error err = ((\<exists>m. err = ArxivParseError m) \<or> (\<exists>m. err = ArxivAPIError m) \<or>
     err = ValueError ''Invalid IPv6 URL'' \<or> err = OtherError ''ValidationError'' ''ParsedArxivFeed'')"

lemma normalize_text_clean: "normalize_text v \<noteq> [] \<Longrightarrow> clean_text (normalize_text v)"
  using split_words_join [of "split_words s" for s] split_words_no_space
  by (simp add: clean_text_def normalize_text_def)

lemma required_text_clean: "required_text v field = Inr t \<Longrightarrow> clean_text t"
  using normalize_text_clean by (auto simp: required_text_def Let_def split: if_splits)

lemma py_nat_positive:
  assumes "py_nat (c # cs) = Some n" "c \<noteq> CHR ''0''" "\<forall>d\<in>set cs. digit_of d \<noteq> None"
  shows "n \<ge> 1"
proof -
  obtain d where d: "digit_of c = Some d" "py_digits d cs = Some n"
    using assms(1) by (auto simp: py_nat_def split: option.splits)
  have "of_char c \<noteq> (48::nat)"
  proof
    assume "of_char c = (48::nat)"
    then have "char_of (of_char c :: nat) = (char_of (48::nat) :: char)" by (simp only:)
    moreover have "(char_of (48::nat) :: char) = CHR ''0''" by code_simp
    ultimately show False using assms(2) by simp
  qed
  then have "d \<ge> 1" using d(1) by (auto simp: digit_of_def Let_def split: if_splits)
  moreover have "n = fold (\<lambda>c a. 10 * a + the (digit_of c)) cs d"
    using d(2) py_digits_append [OF assms(3), of d "[]"] by simp
  moreover have "a \<le> fold (\<lambda>c a. 10 * a + the (digit_of c)) cs a" for a
  proof (induction cs arbitrary: a)
    case (Cons d ds)
    have "a \<le> 10 * a + the (digit_of d)" by simp
    also have "\<dots> \<le> fold (\<lambda>c a. 10 * a + the (digit_of c)) ds (10 * a + the (digit_of d))" by (rule Cons)
    finally show ?case by simp
  qed simp
  ultimately show ?thesis using order.trans by metis
qed

lemma version_suffix_positive:
  assumes "version_suffix s = Some (canonical, v)"
  shows "v \<ge> 1"
proof -
  define digits where "digits = rev (takeWhile is_digit (rev s))"
  obtain n where n: "py_nat digits = Some n" "hd digits \<noteq> CHR ''0''" "v = int n"
    using assms by (auto simp: version_suffix_def Let_def digits_def split: option.splits if_splits)
  have "\<forall>d\<in>set digits. digit_of d \<noteq> None" by (auto simp: digits_def is_digit_def dest: set_takeWhileD)
  then show ?thesis using n py_nat_positive [of "hd digits" "tl digits" n]
    by (cases digits) (auto simp: py_nat_def)
qed

lemma canonical_identifier_version:
  "canonical_identifier value = Inr (c, Some v) \<Longrightarrow> v \<ge> 1"
  using version_suffix_positive by (auto simp: canonical_identifier_def Let_def split: if_splits option.splits)

lemma names_clean:
  assumes "result_map (\<lambda>a. required_text (g a) field) xs = Inr as"
    and "t \<in> set as"
  shows "clean_text t"
  using assms required_text_clean unfolding result_map_Inr list_all2_conv_all_nth in_set_conv_nth by metis

lemma parse_article_valid:
  assumes "parse_article readtime e = Inr a"
  shows "article_valid a"
proof -
  let ?cs = "entry_categories e" and ?p = "primary_category e"
  have pc: "clean_text ?p" if "?p \<noteq> []"
    using that normalize_text_clean by (auto simp: primary_category_def split: list.splits)
  have cs: "list_all clean_text ?cs" using normalize_text_clean by (auto simp: entry_categories_def list_all_iff)
  have v: "case v of None \<Rightarrow> True | Some n \<Rightarrow> n \<ge> 1" if "canonical_identifier i = Inr (c, v)" for i c v
    using canonical_identifier_version that by (cases v) auto
  show ?thesis
    using assms unfolding parse_article_def Let_def result_bind_eq_Inr split_paired_Ex prod.case
    by (elim exE conjE)
      (use pc cs v names_clean required_text_clean in \<open>auto simp: article_valid_def list_all_iff split: if_splits\<close>)
qed

lemma parse_root_valid:
  assumes "parse_root readtime root = Inr f"
  shows "feed_valid f \<and> list_all article_valid (fd_articles f) \<and> int (length (fd_articles f)) \<le> fd_items_per_page f"
proof -
  have arts: "list_all article_valid as" if "result_map (parse_article readtime) es = Inr as" for as es
    using that parse_article_valid unfolding result_map_Inr by (auto simp: list_all2_conv_all_nth list_all_length)
  show ?thesis using assms arts
    by (auto simp: parse_root_def Let_def split: if_splits)
qed

section \<open>How the parser fails\<close>

lemma result_bind_eq_Inl: "result_bind r f = Inl e \<longleftrightarrow> r = Inl e \<or> (\<exists>x. r = Inr x \<and> f x = Inl e)"
  by (cases r) auto

lemma result_map_InlD: "result_map f xs = Inl e \<Longrightarrow> \<exists>x\<in>set xs. f x = Inl e"
  by (induction xs) (auto split: sum.splits simp: result_bind_eq_Inl)

lemma parser_error_simps [simp]:
  "parser_error (ArxivParseError m)" "parser_error (ArxivAPIError m)" "parser_error (ValueError ''Invalid IPv6 URL'')"
  "parser_error (OtherError ''ValidationError'' ''ParsedArxivFeed'')"
  by (simp_all add: parser_error_def)

lemma field_errors:
  "required_text v field = Inl e \<Longrightarrow> parser_error e" "required_int root tag path = Inl e \<Longrightarrow> parser_error e"
  "optional_datetime readtime v = Inl e \<Longrightarrow> parser_error e" "required_datetime readtime v = Inl e \<Longrightarrow> parser_error e"
  "canonical_identifier value = Inl e \<Longrightarrow> parser_error e"
  by (auto simp: required_text_def required_int_def optional_datetime_def required_datetime_def canonical_identifier_def
      url_path_def Let_def result_bind_eq_Inl split: if_splits option.splits prod.splits)

lemma parse_article_error: "parse_article readtime e = Inl err \<Longrightarrow> parser_error err"
  unfolding parse_article_def result_bind_eq_Inl Let_def split_paired_Ex prod.case
  by (elim disjE exE conjE) (auto split: if_splits dest: field_errors dest!: result_map_InlD)

lemma parse_root_error: "parse_root readtime root = Inl err \<Longrightarrow> parser_error err"
  unfolding parse_root_def result_bind_eq_Inl Let_def
  by (auto split: if_splits dest: field_errors parse_article_error dest!: result_map_InlD simp: result_bind_eq_Inl)


section \<open>Property\<close>


end
