(* ===== verification/Arxiv_Service.thy ===== *)
theory Arxiv_Service
  imports Arxiv_Query Arxiv_Parser
begin

text \<open>
  \<open>arxiv_collector/service.py\<close>, the collection of one query window: cursors, limits, the two callbacks
  that the client calls, and the page loop \<open>_collect_window\<close>.  The runs built from it are in
  \<open>Arxiv_Run\<close>.

  An ORM cursor is the identity of its row: operations pass the row along and \<open>save_cursor\<close> writes it
  where the code commits, stamping \<open>updated_at\<close> only when a column changed (\<open>onupdate\<close>).  Identifiers in
  JSON texts are rendered as decimal numbers.  The externals are the transport and the clocks (\<open>env\<close>),
  SHA-256 and gzip, NFKC, the XML reader, ISO-8601 parsing, and what may go wrong in the file system.
\<close>


section \<open>Settings, state\<close>

record arxiv_settings =
  as_page_size :: int
  as_max_requests_per_run :: int
  as_max_results_per_topic :: int
  as_overlap_hours :: int
  as_backfill_window_days :: int
  as_large_query_threshold :: int
  as_min_partition_minutes :: int
  as_max_runtime_minutes :: int
  as_client :: client_config
  as_raw_root :: "string list"

record externals =
  xt_env :: env
  xt_codec :: codec
  xt_nfkc :: "string \<Rightarrow> string"
  xt_xml :: "string \<Rightarrow> string + element"
  xt_fromisoformat :: "string \<Rightarrow> pydatetime option"
  xt_fault :: "nat \<Rightarrow> write_fault"

definition xt_parse :: "externals \<Rightarrow> string \<Rightarrow> feed result" where
  "xt_parse x payload = parse_payload (xt_xml x) (xt_fromisoformat x) payload"

record accumulator =
  acc_started_at :: int
  acc_topics_considered :: int
  acc_mappings_executed :: int
  acc_api_requests :: int
  acc_records_requested :: int
  acc_entries_received :: int
  acc_counts :: counts
  acc_errors :: int
  acc_raw_payloads :: int
  acc_stopped :: bool
  acc_successful_windows :: int
  acc_failed_mappings :: "nat list"
  acc_checkpoints :: "json list"
  acc_planned_queries :: "json list"
  acc_results_by_topic :: "(nat, int) dict"

definition new_accumulator :: "int \<Rightarrow> int \<Rightarrow> accumulator" where
  "new_accumulator started_at topics =
     \<lparr>acc_started_at = started_at, acc_topics_considered = topics, acc_mappings_executed = 0, acc_api_requests = 0,
      acc_records_requested = 0, acc_entries_received = 0, acc_counts = no_counts, acc_errors = 0,
      acc_raw_payloads = 0, acc_stopped = False, acc_successful_windows = 0, acc_failed_mappings = [],
      acc_checkpoints = [], acc_planned_queries = [], acc_results_by_topic = []\<rparr>"

record service_state =
  sv_db :: arxiv_db
  sv_files :: raw_files
  sv_writes :: nat \<comment> \<open>writes of the raw store so far, to index its faults\<close>
  sv_runs :: "ingestion_run list"
  sv_errors :: "ingestion_error_row list"
  sv_checks :: "quality_check_row list"
  sv_acc :: accumulator

datatype collect_mode = Backfill | Incremental | IncrementalPart

fun mode_text :: "collect_mode \<Rightarrow> string" where
  "mode_text Backfill = ''backfill''"
| "mode_text Incremental = ''incremental''"
| "mode_text IncrementalPart = ''incremental_part''"

record window_outcome =
  wo_status :: cursor_status
  wo_split :: "(query_window \<times> query_window) option"

record collect_context =
  cx_run :: nat
  cx_mapping :: mapping_row
  cx_topic :: topic_row
  cx_base_query :: string
  cx_window :: query_window
  cx_max_pages :: "int option"
  cx_page_size :: int
  cx_mode :: collect_mode
  cx_started :: int

definition collector_version :: string where
  "collector_version = ''0.1.0''"

definition raw_schema_version :: string where
  "raw_schema_version = ''arxiv-atom-v1''"

definition safe_response_headers :: "string list" where
  "safe_response_headers =
     [''content-type'', ''content-length'', ''date'', ''etag'', ''last-modified'', ''retry-after'',
      ''cache-control'', ''server'', ''via'']"

definition safe_headers :: "(string, string) dict \<Rightarrow> (string, string) dict" where
  "safe_headers headers =
     filter (\<lambda>(key, value). casefold key \<in> set safe_response_headers \<or> take 2 (casefold key) = ''x-'') headers"

definition update_acc :: "(accumulator \<Rightarrow> accumulator) \<Rightarrow> service_state \<Rightarrow> service_state" where
  "update_acc f s = s\<lparr>sv_acc := f (sv_acc s)\<rparr>"

definition add_failed :: "nat \<Rightarrow> accumulator \<Rightarrow> accumulator" where
  "add_failed i a = a\<lparr>acc_failed_mappings := List.insert i (acc_failed_mappings a)\<rparr>"

definition is_parse_error :: "py_error \<Rightarrow> bool" where
  "is_parse_error e = (case e of ArxivParseError _ \<Rightarrow> True | ArxivAPIError _ \<Rightarrow> True | _ \<Rightarrow> False)"


section \<open>Cursors\<close>

definition save_cursor :: "env \<Rightarrow> arxiv_cursor \<Rightarrow> world \<Rightarrow> service_state \<Rightarrow> world \<times> service_state" where
  "save_cursor e c w s =
     (case find (\<lambda>x. cur_id x = cur_id c) (adb_cursors (sv_db s)) of
        None \<Rightarrow> (w, s)
      | Some old \<Rightarrow>
          (if c\<lparr>cur_updated_at := cur_updated_at old\<rparr> = old then (w, s)
           else (case read_wall e w of (now, w1) \<Rightarrow>
             (w1, s\<lparr>sv_db := (sv_db s)\<lparr>adb_cursors :=
                map (\<lambda>x. if cur_id x = cur_id c then c\<lparr>cur_updated_at := now\<rparr> else x) (adb_cursors (sv_db s))\<rparr>\<rparr>))))"

text \<open>Find the cursor of a mapping by its key or insert the given row under a new identity.\<close>

definition find_cursor :: "nat \<Rightarrow> string \<Rightarrow> service_state \<Rightarrow> arxiv_cursor option" where
  "find_cursor mapping key s =
     find (\<lambda>c. cur_mapping_id c = mapping \<and> cur_key c = key) (adb_cursors (sv_db s))"

definition ensure_cursor :: "env \<Rightarrow> arxiv_cursor \<Rightarrow> world \<Rightarrow> service_state \<Rightarrow> arxiv_cursor \<times> world \<times> service_state" where
  "ensure_cursor e new w s =
     (case find_cursor (cur_mapping_id new) (cur_key new) s of
        Some c \<Rightarrow> (c, w, s)
      | None \<Rightarrow>
          (case read_wall e w of (now, w1) \<Rightarrow>
             (let c = new\<lparr>cur_id := fresh_id (map cur_id (adb_cursors (sv_db s))), cur_updated_at := now\<rparr> in
              (c, w1, s\<lparr>sv_db := (sv_db s)\<lparr>adb_cursors := adb_cursors (sv_db s) @ [c]\<rparr>\<rparr>))))"

definition blank_cursor :: "mapping_row \<Rightarrow> string \<Rightarrow> collect_mode \<Rightarrow> query_window option \<Rightarrow> jdict \<Rightarrow> arxiv_cursor" where
  "blank_cursor m key mode win checkpoint =
     \<lparr>cur_id = 0, cur_topic_id = mapping_topic_id m, cur_mapping_id = mapping_id m, cur_key = key,
      cur_mode = mode_text mode, cur_last_successful_run_at = None, cur_last_query_from = None,
      cur_last_query_until = None, cur_last_observed_updated_at = None,
      cur_window_from = map_option window_from win, cur_window_until = map_option window_until win,
      cur_next_start = 0, cur_checkpoint = checkpoint, cur_status = CursorPending, cur_last_error = None,
      cur_updated_at = 0\<rparr>"

definition window_cursor :: "env \<Rightarrow> mapping_row \<Rightarrow> query_window \<Rightarrow> world \<Rightarrow> service_state \<Rightarrow>
    arxiv_cursor \<times> world \<times> service_state" where
  "window_cursor e m win w s = ensure_cursor e (blank_cursor m (window_key win) Backfill (Some win) []) w s"

definition cursor_entry :: "arxiv_cursor \<Rightarrow> json" where
  "cursor_entry c = JObj [(''cursor_key'', JStr (cur_key c)), (''status'', JStr (cursor_status_value (cur_status c))),
     (''next_start'', JInt (cur_next_start c)), (''checkpoint'', JObj (cur_checkpoint c))]"

definition append_checkpoint :: "arxiv_cursor \<Rightarrow> service_state \<Rightarrow> service_state" where
  "append_checkpoint c s = update_acc (\<lambda>a. a\<lparr>acc_checkpoints := acc_checkpoints a @ [cursor_entry c]\<rparr>) s"

definition pause_cursor ::
  "env \<Rightarrow> arxiv_cursor \<Rightarrow> string \<Rightarrow> world \<Rightarrow> service_state \<Rightarrow> window_outcome \<times> world \<times> service_state" where
  "pause_cursor e cursor reason w s =
     (let c = cursor\<lparr>cur_status := CursorPartial, cur_last_error := Some reason,
            cur_checkpoint := dict_merge (cur_checkpoint cursor)
              [(''reason'', JStr reason), (''next_start'', JInt (cur_next_start cursor))]\<rparr>
      in case save_cursor e c w (update_acc (\<lambda>a. a\<lparr>acc_stopped := True\<rparr>) s) of
           (w1, s1) \<Rightarrow> (\<lparr>wo_status = CursorPartial, wo_split = None\<rparr>, w1, append_checkpoint c s1))"


section \<open>Limits\<close>

definition request_limit_reached :: "arxiv_settings \<Rightarrow> service_state \<Rightarrow> bool" where
  "request_limit_reached st s = (acc_api_requests (sv_acc s) \<ge> as_max_requests_per_run st)"

definition runtime_exceeded :: "env \<Rightarrow> arxiv_settings \<Rightarrow> int \<Rightarrow> world \<Rightarrow> bool \<times> world" where
  "runtime_exceeded e st started w =
     (case read_clock e w of (now, w1) \<Rightarrow> (now - started \<ge> as_max_runtime_minutes st * minute_us, w1))"

definition topic_results :: "collect_context \<Rightarrow> service_state \<Rightarrow> int" where
  "topic_results cx s =
     (case dict_get (acc_results_by_topic (sv_acc s)) (mapping_topic_id (cx_mapping cx)) of None \<Rightarrow> 0 | Some n \<Rightarrow> n)"

text \<open>Why the loop stops before its next request, if it does.\<close>

definition page_limit ::
  "arxiv_settings \<Rightarrow> externals \<Rightarrow> collect_context \<Rightarrow> int \<Rightarrow> world \<Rightarrow> service_state \<Rightarrow> string option \<times> world" where
  "page_limit st x cx pages w s =
     (if request_limit_reached st s then (Some ''max_requests_per_run'', w)
      else (case runtime_exceeded (xt_env x) st (cx_started cx) w of
         (True, w1) \<Rightarrow> (Some ''max_runtime_minutes'', w1)
       | (False, w1) \<Rightarrow>
           (case cx_max_pages cx of
              Some n \<Rightarrow> (if pages \<ge> n then (Some ''max_pages'', w1)
                else if as_max_results_per_topic st - topic_results cx s \<le> 0 then (Some ''max_results_per_topic'', w1)
                else (None, w1))
            | None \<Rightarrow> (if as_max_results_per_topic st - topic_results cx s \<le> 0 then (Some ''max_results_per_topic'', w1)
                else (None, w1)))))"


section \<open>The callbacks of the client\<close>

text \<open>The state that the callbacks act on: the service's and the variable \<open>raw_response\<close>.\<close>

type_synonym page_state = "service_state \<times> nat option"

definition request_json :: "arxiv_request \<Rightarrow> json" where
  "request_json r = JObj [(''search_query'', JStr (rq_search_query r)), (''start'', JInt (rq_start r)),
     (''max_results'', JInt (rq_max_results r)), (''sort_by'', JStr (rq_sort_by r)),
     (''sort_order'', JStr (rq_sort_order r))]"

definition raw_request :: "http_response \<Rightarrow> write_request" where
  "raw_request r =
     \<lparr>wr_source = ''arxiv'', wr_payload = rs_body r, wr_request_timestamp = utc (rs_requested_at r),
      wr_collector_version = collector_version, wr_schema_version = raw_schema_version,
      wr_source_metadata =
        [(''requested_at'', JTime (rs_requested_at r)), (''request'', request_json (rs_request r)),
         (''http_status'', JInt (rs_status r)),
         (''response_headers'', JObj (map (\<lambda>(k, v). (k, JStr v)) (safe_headers (rs_headers r)))),
         (''collector_version'', JStr collector_version), (''schema_version'', JStr raw_schema_version)]\<rparr>"

definition request_metadata :: "externals \<Rightarrow> collect_context \<Rightarrow> http_response \<Rightarrow> jdict" where
  "request_metadata x cx r =
     [(''mode'', JStr (mode_text (cx_mode cx))), (''window_from'', JTime (window_from (cx_window cx))),
      (''window_until'', JTime (window_until (cx_window cx))),
      (''query_hash'', JStr (cd_sha256 (xt_codec x) (rq_search_query (rs_request r))))]"

definition preserve ::
  "arxiv_settings \<Rightarrow> externals \<Rightarrow> collect_context \<Rightarrow> http_response \<Rightarrow> page_state \<Rightarrow> unit result \<times> page_state" where
  "preserve st x cx r ps =
     (let (s, raw) = ps in
      case raw_write (xt_codec x) (xt_fault x (sv_writes s)) (raw_request r) (sv_files s) of
        (Inl e, files) \<Rightarrow> (Inl e, (s\<lparr>sv_files := files, sv_writes := Suc (sv_writes s)\<rparr>, raw))
      | (Inr record, files) \<Rightarrow>
          (let s1 = s\<lparr>sv_files := files, sv_writes := Suc (sv_writes s)\<rparr> in
           case record_raw_response (as_raw_root st) (cx_run cx) (topic_id (cx_topic cx)) (mapping_id (cx_mapping cx))
                  record (r\<lparr>rs_headers := safe_headers (rs_headers r)\<rparr>) (request_metadata x cx r) (sv_db s1) of
             (Inl e, db) \<Rightarrow> (Inl e, (s1\<lparr>sv_db := db\<rparr>, raw))
           | (Inr i, db) \<Rightarrow>
               (Inr (), (update_acc (\<lambda>a. a\<lparr>acc_raw_payloads := acc_raw_payloads a + 1\<rparr>) (s1\<lparr>sv_db := db\<rparr>), Some i))))"

definition count_attempt ::
  "arxiv_settings \<Rightarrow> externals \<Rightarrow> collect_context \<Rightarrow> int \<Rightarrow> nat \<Rightarrow> world \<Rightarrow> page_state \<Rightarrow>
   unit result \<times> world \<times> page_state" where
  "count_attempt st x cx requested_max_results attempt w ps =
     (let (s, raw) = ps in
      if request_limit_reached st s then
        (Inl (ArxivCollectionError ''max_requests_per_run reached during retry''), w, ps)
      else (case runtime_exceeded (xt_env x) st (cx_started cx) w of
         (True, w1) \<Rightarrow> (Inl (ArxivCollectionError ''max_runtime_minutes reached during retry''), w1, ps)
       | (False, w1) \<Rightarrow>
           (Inr (), w1, (update_acc (\<lambda>a. a\<lparr>acc_api_requests := acc_api_requests a + 1,
              acc_records_requested := acc_records_requested a + requested_max_results\<rparr>) s, raw))))"


section \<open>One page\<close>

datatype page_outcome = PageRaised py_error | PageDone window_outcome | PageNext arxiv_cursor

definition raw_row :: "nat \<Rightarrow> arxiv_db \<Rightarrow> arxiv_raw_response option" where
  "raw_row i db = find (\<lambda>r. araw_id r = i) (adb_raw db)"

definition fail_page ::
  "externals \<Rightarrow> nat \<Rightarrow> py_error \<Rightarrow> arxiv_cursor \<Rightarrow> world \<Rightarrow> service_state \<Rightarrow> page_outcome \<times> world \<times> service_state" where
  "fail_page x i err cursor w s =
     (let s1 = s\<lparr>sv_db := record_parse_error i (error_name err @ '': '' @ error_text err) (sv_db s)\<rparr>;
          c = cursor\<lparr>cur_status := CursorFailed, cur_last_error := Some (error_text err)\<rparr>
      in case save_cursor (xt_env x) c w s1 of (w1, s2) \<Rightarrow> (PageRaised err, w1, s2))"

definition split_page ::
  "arxiv_settings \<Rightarrow> externals \<Rightarrow> collect_context \<Rightarrow> nat \<Rightarrow> feed \<Rightarrow> arxiv_cursor \<Rightarrow> world \<Rightarrow> service_state \<Rightarrow>
   page_outcome \<times> world \<times> service_state" where
  "split_page st x cx i f cursor w s =
     (let s1 = s\<lparr>sv_db := update_raw i (\<lambda>r. r\<lparr>araw_parsed_entry_count := Some (int (length (fd_articles f)))\<rparr>) (sv_db s)\<rparr> in
      case split_window (as_min_partition_minutes st) (cx_window cx) of
        None \<Rightarrow> (case pause_cursor (xt_env x) cursor ''large_query_minimum_partition'' w s1 of
            (out, w1, s2) \<Rightarrow> (PageDone out, w1, s2))
      | Some parts \<Rightarrow>
          (let c = cursor\<lparr>cur_status := CursorPartial,
                 cur_last_error := Some ''large query partitioned into smaller date windows'',
                 cur_checkpoint := dict_merge (cur_checkpoint cursor) [(''reason'', JStr ''large_query_partition'')]\<rparr>
           in case save_cursor (xt_env x) c w s1 of
                (w1, s2) \<Rightarrow> (PageDone \<lparr>wo_status = CursorPartial, wo_split = Some parts\<rparr>, w1, append_checkpoint c s2)))"

definition persist_page ::
  "externals \<Rightarrow> collect_context \<Rightarrow> arxiv_raw_response \<Rightarrow> feed \<Rightarrow> service_state \<Rightarrow> service_state" where
  "persist_page x cx raw f s =
     (case persist_feed \<lparr>px_topic = topic_id (cx_topic cx), px_mapping = mapping_id (cx_mapping cx),
             px_query = cx_base_query cx, px_run = cx_run cx, px_raw = raw, px_nfkc = xt_nfkc x\<rparr> f (sv_db s) of
        (counts, db) \<Rightarrow>
          update_acc (\<lambda>a. a\<lparr>acc_counts := add_counts (acc_counts a) counts,
              acc_entries_received := acc_entries_received a + int (length (fd_articles f)),
              acc_results_by_topic := dict_set (mapping_topic_id (cx_mapping cx))
                (topic_results cx s + int (length (fd_articles f))) (acc_results_by_topic a)\<rparr>)
            (s\<lparr>sv_db := db\<rparr>))"

text \<open>The cursor moves past the page; at the end of the results the window is complete.\<close>

definition advance_cursor ::
  "externals \<Rightarrow> collect_context \<Rightarrow> arxiv_request \<Rightarrow> feed \<Rightarrow> arxiv_cursor \<Rightarrow> world \<Rightarrow> service_state \<Rightarrow>
   page_outcome \<times> world \<times> service_state" where
  "advance_cursor x cx rq f cursor w s =
     (let advance = max (int (length (fd_articles f))) (fd_items_per_page f) in
      if advance = 0 \<and> rq_start rq < fd_total_results f then
        (case pause_cursor (xt_env x) cursor ''empty_page_before_total'' w s of (out, w1, s1) \<Rightarrow> (PageDone out, w1, s1))
      else
        (let next_start = (if advance = 0 then fd_total_results f else fd_start_index f + advance);
             c = cursor\<lparr>cur_next_start := next_start,
                   cur_checkpoint := dict_merge (cur_checkpoint cursor) [(''next_start'', JInt next_start)]\<rparr>
         in if next_start \<ge> fd_total_results f then
              (case read_wall (xt_env x) w of (now, w1) \<Rightarrow>
                (let c' = c\<lparr>cur_status := CursorSucceeded, cur_last_successful_run_at := Some now,
                       cur_last_query_from := Some (window_from (cx_window cx)),
                       cur_last_query_until := Some (window_until (cx_window cx)),
                       cur_last_observed_updated_at := or_else (max_default (map art_updated_at (fd_articles f)))
                         (cur_last_observed_updated_at c),
                       cur_last_error := None,
                       cur_checkpoint := dict_merge (cur_checkpoint c)
                         [(''reason'', JNull), (''last_successful_run_id'', JStr (show_nat (cx_run cx)))]\<rparr>
                 in case save_cursor (xt_env x) c' w1 s of
                      (w2, s1) \<Rightarrow> (PageDone \<lparr>wo_status = CursorSucceeded, wo_split = None\<rparr>, w2, append_checkpoint c' s1)))
            else
              (case save_cursor (xt_env x) c w s of (w1, s1) \<Rightarrow> (PageNext c, w1, s1))))"

definition handle_feed ::
  "arxiv_settings \<Rightarrow> externals \<Rightarrow> collect_context \<Rightarrow> arxiv_request \<Rightarrow> nat \<Rightarrow> feed \<Rightarrow> arxiv_cursor \<Rightarrow> world \<Rightarrow>
   service_state \<Rightarrow> page_outcome \<times> world \<times> service_state" where
  "handle_feed st x cx rq i f cursor w s =
     (if fd_start_index f \<noteq> rq_start rq then
        fail_page x i (ArxivParseError (''pagination mismatch: requested '' @ show_int (rq_start rq) @ '', received '' @
          show_int (fd_start_index f))) cursor w s
      else if rq_start rq = 0 \<and> fd_total_results f > as_large_query_threshold st then
        split_page st x cx i f cursor w s
      else
        (case raw_row i (sv_db s) of
           None \<Rightarrow> (PageRaised (ArxivCollectionError ''arXiv response was not persisted to Raw''), w, s)
         | Some raw \<Rightarrow> advance_cursor x cx rq f cursor w (persist_page x cx raw f s)))"

definition page_request :: "arxiv_settings \<Rightarrow> collect_context \<Rightarrow> string \<Rightarrow> arxiv_cursor \<Rightarrow> service_state \<Rightarrow> arxiv_request" where
  "page_request st cx dated_query cursor s =
     \<lparr>rq_search_query = dated_query, rq_start = cur_next_start cursor,
      rq_max_results = min (cx_page_size cx) (as_max_results_per_topic st - topic_results cx s),
      rq_sort_by = ''submittedDate'', rq_sort_order = ''ascending''\<rparr>"

definition fetch_page ::
  "arxiv_settings \<Rightarrow> externals \<Rightarrow> collect_context \<Rightarrow> arxiv_request \<Rightarrow> world \<Rightarrow> service_state \<Rightarrow>
   http_response result \<times> world \<times> page_state" where
  "fetch_page st x cx rq w s =
     client_get (xt_env x) (as_client st) rq (preserve st x cx) (count_attempt st x cx (rq_max_results rq)) w (s, None)"

definition collect_page ::
  "arxiv_settings \<Rightarrow> externals \<Rightarrow> collect_context \<Rightarrow> string \<Rightarrow> int \<Rightarrow> arxiv_cursor \<Rightarrow> world \<Rightarrow> service_state \<Rightarrow>
   page_outcome \<times> world \<times> service_state" where
  "collect_page st x cx dated_query pages cursor w s =
     (case page_limit st x cx pages w s of
        (Some reason, w1) \<Rightarrow> (case pause_cursor (xt_env x) cursor reason w1 s of (out, w2, s1) \<Rightarrow> (PageDone out, w2, s1))
      | (None, w1) \<Rightarrow>
          (let rq = page_request st cx dated_query cursor s in
           if \<not> request_valid rq then (PageRaised (OtherError ''ValidationError'' ''ArxivRequest''), w1, s)
           else (case fetch_page st x cx rq w1 s of
              (Inl err, w2, (s1, raw)) \<Rightarrow> (PageRaised err, w2, s1)
            | (Inr rsp, w2, (s1, None)) \<Rightarrow>
                (PageRaised (ArxivCollectionError ''arXiv response was not persisted to Raw''), w2, s1)
            | (Inr rsp, w2, (s1, Some i)) \<Rightarrow>
                (case xt_parse x (rs_body rsp) of
                   Inl err \<Rightarrow> (if is_parse_error err then fail_page x i err cursor w2 s1 else (PageRaised err, w2, s1))
                 | Inr f \<Rightarrow> handle_feed st x cx rq i f cursor w2 s1))))"

section \<open>The request budget\<close>

abbreviation api_requests :: "service_state \<Rightarrow> int" where
  "api_requests s \<equiv> acc_api_requests (sv_acc s)"

lemma save_cursor_frame [simp]:
  assumes "save_cursor e c w s = (w', s')"
  shows "sv_acc s' = sv_acc s" "sv_files s' = sv_files s" "w_sent w' = w_sent w"
  using assms by (auto simp: save_cursor_def read_wall_def split: option.splits if_splits)

lemma update_acc_simps [simp]:
  "sv_acc (update_acc f s) = f (sv_acc s)" "sv_db (update_acc f s) = sv_db s" "sv_files (update_acc f s) = sv_files s"
  "sv_runs (update_acc f s) = sv_runs s" "sv_errors (update_acc f s) = sv_errors s"
  "sv_checks (update_acc f s) = sv_checks s" "sv_writes (update_acc f s) = sv_writes s"
  by (simp_all add: update_acc_def)

lemma preserve_budget: "preserve st x cx r (s, raw) = (res, (s', raw')) \<Longrightarrow> api_requests s' = api_requests s"
  by (auto simp: preserve_def Let_def split: prod.splits sum.splits)

lemma count_attempt_cases:
  assumes "count_attempt st x cx n a w (s, raw) = (r, w', (s', raw'))"
  shows "(\<exists>e. r = Inl (ArxivCollectionError e)) \<and> s' = s \<and> raw' = raw \<and> w_sent w' = w_sent w \<and> w_starts w' = w_starts w \<and>
         w_last_start w' = w_last_start w \<and> w_clock w \<le> w_clock w' \<or>
     r = Inr () \<and> api_requests s < as_max_requests_per_run st \<and> raw' = raw \<and>
         s' = update_acc (\<lambda>a. a\<lparr>acc_api_requests := acc_api_requests a + 1,
                acc_records_requested := acc_records_requested a + n\<rparr>) s \<and>
         w_sent w' = w_sent w \<and> w_starts w' = w_starts w \<and> w_last_start w' = w_last_start w \<and> w_clock w \<le> w_clock w'"
  using assms by (auto simp: count_attempt_def runtime_exceeded_def request_limit_reached_def read_clock_def Let_def
      split: if_splits bool.splits)

definition budget_step :: "world \<times> page_state \<Rightarrow> world \<times> page_state \<Rightarrow> bool" where
  "budget_step z z' = (api_requests (fst (snd z)) \<le> api_requests (fst (snd z')))"

lemma attempt_budget:
  assumes "attempt_once e c rq (preserve st x cx) (count_attempt st x cx n) a final w ps = (out, w', ps')"
  shows "budget_step (w, ps) (w', ps')"
  using assms
proof (cases rule: attempt_once_cases)
  case (refused err)
  then show ?thesis using count_attempt_cases by (cases ps; cases ps') (fastforce simp: budget_step_def)
next
  case (unanswered u w1)
  then show ?thesis using count_attempt_cases by (cases ps; cases ps') (fastforce simp: budget_step_def)
next
  case (answered u w1 s1 rsp r2)
  obtain s raw where ps: "ps = (s, raw)" by (cases ps)
  obtain t raw1 where s1: "s1 = (t, raw1)" by (cases s1)
  obtain s2 raw2 where ps': "ps' = (s2, raw2)" by (cases ps')
  have "api_requests s \<le> api_requests t" using count_attempt_cases answered(1) unfolding ps s1 by fastforce
  moreover have "api_requests s2 = api_requests t" using preserve_budget answered(6) unfolding s1 ps' by blast
  ultimately show ?thesis by (simp add: budget_step_def ps ps')
qed

interpretation budget: client_callbacks e c rq "preserve st x cx" "count_attempt st x cx n" budget_step
  for e c rq st x cx n
  by unfold_locales (auto simp: budget_step_def dest: attempt_budget)

lemma fetch_page_budget:
  assumes "fetch_page st x cx rq w s = (r, w', (s', raw))"
  shows "api_requests s \<le> api_requests s'"
  using budget.client_get_R [OF assms [unfolded fetch_page_def]] by (simp add: budget_step_def)

text \<open>A response costs at least one request.\<close>

lemma get_loop_costs:
  assumes "get_loop k e c rq (preserve st x cx) (count_attempt st x cx n) w ps = (Inr rsp, w', ps')"
  shows "api_requests (fst ps) < api_requests (fst ps')"
  using assms
proof (induction k arbitrary: w ps)
  case (Suc k)
  obtain out w1 ps1 where o: "attempt_once e c rq (preserve st x cx) (count_attempt st x cx n) (cc_retry_attempts c - k) (k = 0) w ps
      = (out, w1, ps1)" by (metis prod_cases3)
  show ?case
  proof (cases out)
    case (Retry ra)
    then have "api_requests (fst ps1) < api_requests (fst ps')" using Suc o by (simp add: Let_def)
    then show ?thesis using attempt_budget [OF o] by (simp add: budget_step_def)
  next
    case (Finished q)
    then have q: "out = Finished (Inr rsp)" "ps1 = ps'" using Suc.prems o by (simp_all add: Let_def)
    from o show ?thesis
    proof (cases rule: attempt_once_cases)
      case (answered u w2 ps2 rsp2 r2)
      obtain s raw where ps: "ps = (s, raw)" by (cases ps)
      obtain t raw1 where ps2: "ps2 = (t, raw1)" by (cases ps2)
      obtain s2 raw2 where ps1: "ps1 = (s2, raw2)" by (cases ps1)
      have "api_requests s < api_requests t" using count_attempt_cases answered(1) unfolding ps ps2 by fastforce
      moreover have "api_requests s2 = api_requests t" using preserve_budget answered(6) unfolding ps1 ps2 by blast
      ultimately show ?thesis using q(2) ps ps1 by auto
    next
      case (unanswered u w2)
      then show ?thesis using q(1) by blast
    qed (use q(1) in auto)
  qed
qed simp

lemma pause_cursor_budget:
  "pause_cursor e c reason w s = (out, w', s') \<Longrightarrow> api_requests s' = api_requests s \<and> wo_split out = None"
  by (auto simp: pause_cursor_def append_checkpoint_def Let_def split: prod.splits)

lemma persist_page_budget [simp]: "api_requests (persist_page x cx raw f s) = api_requests s"
  by (simp add: persist_page_def split: prod.splits)

lemma advance_cursor_budget:
  assumes "advance_cursor x cx rq f c w s = (out, w', s')"
  shows "api_requests s' = api_requests s"
  using assms pause_cursor_budget
  by (fastforce simp: advance_cursor_def append_checkpoint_def Let_def split: prod.splits if_splits)

lemma handle_feed_budget:
  assumes "handle_feed st x cx rq i f c w s = (out, w', s')"
  shows "api_requests s' = api_requests s"
proof -
  have "api_requests s' = api_requests s" if "split_page st x cx i f c w s = (out, w', s')"
    using that pause_cursor_budget
    by (fastforce simp: split_page_def append_checkpoint_def Let_def split: prod.splits option.splits)
  moreover have "api_requests s' = api_requests s" if "fail_page x i err c w s = (out, w', s')" for err
    using that by (auto simp: fail_page_def Let_def split: prod.splits)
  ultimately show ?thesis
    using assms advance_cursor_budget
    by (fastforce simp: handle_feed_def split: if_splits option.splits)
qed

lemma collect_page_cases:
  assumes "collect_page st x cx q pages c w s = (out, w', s')"
  obtains (limit) reason w1 o2 where "page_limit st x cx pages w s = (Some reason, w1)"
      "pause_cursor (xt_env x) c reason w1 s = (o2, w', s')" "out = PageDone o2"
  | (invalid) e where "page_limit st x cx pages w s = (None, w')" "s' = s" "out = PageRaised e"
      "e = OtherError ''ValidationError'' ''ArxivRequest''"
  | (failed) w1 err raw where "page_limit st x cx pages w s = (None, w1)"
      "fetch_page st x cx (page_request st cx q c s) w1 s = (Inl err, w', (s', raw))" "out = PageRaised err"
  | (fetched) w1 rsp w2 s2 i where "page_limit st x cx pages w s = (None, w1)"
      "fetch_page st x cx (page_request st cx q c s) w1 s = (Inr rsp, w2, (s2, Some i))"
      "(case xt_parse x (rs_body rsp) of
          Inl err \<Rightarrow> (if is_parse_error err then fail_page x i err c w2 s2 else (PageRaised err, w2, s2))
        | Inr f \<Rightarrow> handle_feed st x cx (page_request st cx q c s) i f c w2 s2) = (out, w', s')"
proof -
  obtain lim w1 where l: "page_limit st x cx pages w s = (lim, w1)" by (cases "page_limit st x cx pages w s")
  show ?thesis
  proof (cases lim)
    case (Some reason)
    obtain o2 w2 s2 where p: "pause_cursor (xt_env x) c reason w1 s = (o2, w2, s2)" by (metis prod_cases3)
    show ?thesis by (rule limit) (use assms l Some p in \<open>auto simp: collect_page_def\<close>)
  next
    case None
    let ?rq = "page_request st cx q c s"
    show ?thesis
    proof (cases "request_valid ?rq")
      case False
      show ?thesis by (rule invalid) (use assms l None False in \<open>auto simp: collect_page_def Let_def\<close>)
    next
      case True
      obtain r w2 s2 raw where f: "fetch_page st x cx ?rq w1 s = (r, w2, (s2, raw))" by (metis prod_cases4)
      show ?thesis
      proof (cases r)
        case (Inl err)
        show ?thesis by (rule failed) (use assms l None True f Inl in \<open>auto simp: collect_page_def Let_def\<close>)
      next
        case (Inr rsp)
        show ?thesis
        proof (cases raw)
          case None
          obtain t raw1 where "preserve st x cx rsp (t, raw1) = (Inr (), (s2, None))"
            using get_loop_success f [unfolded fetch_page_def client_get_def Inr None] by (metis surj_pair)
          then show ?thesis by (auto simp: preserve_def Let_def split: prod.splits sum.splits)
        next
          case (Some i)
          show ?thesis by (rule fetched) (use assms l None \<open>lim = None\<close> True f Inr Some in \<open>auto simp: collect_page_def Let_def\<close>)
        qed
      qed
    qed
  qed
qed

lemma page_limit_None: "page_limit st x cx pages w s = (None, w') \<Longrightarrow> api_requests s < as_max_requests_per_run st"
  by (auto simp: page_limit_def request_limit_reached_def split: if_splits prod.splits bool.splits option.splits)

lemma collect_page_budget:
  assumes "collect_page st x cx q pages c w s = (out, w', s')"
  shows "api_requests s \<le> api_requests s'"
    "\<And>c'. out = PageNext c' \<Longrightarrow> api_requests s < api_requests s' \<and> api_requests s < as_max_requests_per_run st"
    "\<And>o2. out = PageDone o2 \<Longrightarrow> wo_status o2 = CursorSucceeded \<or> wo_split o2 \<noteq> None \<Longrightarrow>
       api_requests s < api_requests s' \<and> api_requests s < as_max_requests_per_run st"
proof -
  have "api_requests s \<le> api_requests s' \<and>
     ((\<exists>c'. out = PageNext c') \<or> (\<exists>o2. out = PageDone o2 \<and> (wo_status o2 = CursorSucceeded \<or> wo_split o2 \<noteq> None)) \<longrightarrow>
      api_requests s < api_requests s' \<and> api_requests s < as_max_requests_per_run st)"
    using assms
  proof (cases rule: collect_page_cases)
    case (limit reason w1 o2)
    have "wo_status o2 = CursorPartial" using limit(2) by (auto simp: pause_cursor_def Let_def split: prod.splits)
    then show ?thesis using pause_cursor_budget [OF limit(2)] limit(3) by simp
  next
    case (failed w1 err raw)
    then show ?thesis using fetch_page_budget [OF failed(2)] by simp
  next
    case (fetched w1 rsp w2 s2 i)
    have "api_requests s < api_requests s2"
      using get_loop_costs [OF fetched(2) [unfolded fetch_page_def client_get_def]] by simp
    moreover have "api_requests s' = api_requests s2"
      using fetched(3) handle_feed_budget by (auto simp: fail_page_def Let_def split: sum.splits if_splits prod.splits)
    ultimately show ?thesis using page_limit_None [OF fetched(1)] by simp
  qed simp
  then show "api_requests s \<le> api_requests s'"
    "\<And>c'. out = PageNext c' \<Longrightarrow> api_requests s < api_requests s' \<and> api_requests s < as_max_requests_per_run st"
    "\<And>o2. out = PageDone o2 \<Longrightarrow> wo_status o2 = CursorSucceeded \<or> wo_split o2 \<noteq> None \<Longrightarrow>
       api_requests s < api_requests s' \<and> api_requests s < as_max_requests_per_run st" by blast+
qed


section \<open>A window\<close>

text \<open>
  The loop ends because every page that asks for a further one has spent at least one request of the
  bounded budget.
\<close>

function collect_pages ::
  "arxiv_settings \<Rightarrow> externals \<Rightarrow> collect_context \<Rightarrow> string \<Rightarrow> int \<Rightarrow> arxiv_cursor \<Rightarrow> world \<Rightarrow> service_state \<Rightarrow>
   window_outcome result \<times> world \<times> service_state" where
  "collect_pages st x cx dated_query pages cursor w s =
     (case collect_page st x cx dated_query pages cursor w s of
        (PageRaised err, w1, s1) \<Rightarrow> (Inl err, w1, s1)
      | (PageDone out, w1, s1) \<Rightarrow> (Inr out, w1, s1)
      | (PageNext c, w1, s1) \<Rightarrow> collect_pages st x cx dated_query (pages + 1) c w1 s1)"
  by pat_completeness auto
termination
proof (relation "measure (\<lambda>(st, x, cx, q, pages, c, w, s). nat (as_max_requests_per_run st - api_requests s))", goal_cases)
  case (2 st x cx q pages cursor w s out z c w1 s1)
  have "collect_page st x cx q pages cursor w s = (PageNext c, w1, s1)" using 2 by simp
  from collect_page_budget(2) [OF this refl] show ?case by simp
qed simp

declare collect_pages.simps [simp del]

definition running_cursor :: "collect_context \<Rightarrow> arxiv_cursor \<Rightarrow> arxiv_cursor" where
  "running_cursor cx c =
     c\<lparr>cur_status := CursorRunning, cur_last_error := None,
       cur_window_from := Some (window_from (cx_window cx)), cur_window_until := Some (window_until (cx_window cx)),
       cur_checkpoint := dict_merge (cur_checkpoint c)
         [(''topic_slug'', JStr (topic_slug (cx_topic cx))), (''mapping_id'', JStr (show_nat (mapping_id (cx_mapping cx)))),
          (''window_from'', JTime (window_from (cx_window cx))), (''window_until'', JTime (window_until (cx_window cx))),
          (''next_start'', JInt (cur_next_start c))]\<rparr>"

definition collect_window ::
  "arxiv_settings \<Rightarrow> externals \<Rightarrow> collect_context \<Rightarrow> arxiv_cursor option \<Rightarrow> world \<Rightarrow> service_state \<Rightarrow>
   window_outcome result \<times> world \<times> service_state" where
  "collect_window st x cx override w s =
     (case (case override of Some c \<Rightarrow> (c, w, s) | None \<Rightarrow> window_cursor (xt_env x) (cx_mapping cx) (cx_window cx) w s) of
        (cursor, w1, s1) \<Rightarrow>
          (if cx_mode cx \<in> {Backfill, IncrementalPart} \<and> cur_status cursor = CursorSucceeded then
             (Inr \<lparr>wo_status = CursorSucceeded, wo_split = None\<rparr>, w1, append_checkpoint cursor s1)
           else
             (let c = running_cursor cx cursor in
              case save_cursor (xt_env x) c w1 s1 of
                (w2, s2) \<Rightarrow>
                  (case with_submitted_window (cx_base_query cx) (utc (window_from (cx_window cx)))
                          (utc (window_until (cx_window cx))) of
                     Inl err \<Rightarrow> (Inl err, w2, s2)
                   | Inr dated_query \<Rightarrow> collect_pages st x cx dated_query 0 c w2 s2))))"

lemma ensure_cursor_frame:
  assumes "ensure_cursor e n w s = (c, w', s')"
  shows "sv_acc s' = sv_acc s" "sv_files s' = sv_files s" "w_sent w' = w_sent w"
  using assms by (auto simp: ensure_cursor_def read_wall_def Let_def split: option.splits)

lemma collect_pages_budget:
  assumes "collect_pages st x cx q pages c w s = (r, w', s')"
  shows "api_requests s \<le> api_requests s' \<and>
    (\<forall>out. r = Inr out \<longrightarrow> wo_status out = CursorSucceeded \<or> wo_split out \<noteq> None \<longrightarrow>
       api_requests s < api_requests s' \<and> api_requests s < as_max_requests_per_run st)"
  using assms
proof (induction st x cx q pages c w s arbitrary: r w' s' rule: collect_pages.induct)
  case (1 st x cx q pages c w s)
  obtain out w1 s1 where p: "collect_page st x cx q pages c w s = (out, w1, s1)" by (metis prod_cases3)
  note B = collect_page_budget [OF p]
  show ?case
  proof (cases out)
    case (PageNext c2)
    then have "collect_pages st x cx q (pages + 1) c2 w1 s1 = (r, w', s')"
      using "1.prems" p by (subst (asm) collect_pages.simps) simp
    with "1.IH" [OF p [symmetric]] PageNext B(2) [OF PageNext]
    have "api_requests s1 \<le> api_requests s'" by simp
    with B(2) [OF PageNext] show ?thesis by simp
  next
    case (PageDone o2)
    then have "r = Inr o2" "s' = s1" using "1.prems" p by (simp_all add: collect_pages.simps [of st x cx q pages c w s])
    then show ?thesis using B(1,3) PageDone by auto
  next
    case (PageRaised e)
    then have "r = Inl e" "s' = s1" using "1.prems" p by (simp_all add: collect_pages.simps [of st x cx q pages c w s])
    then show ?thesis using B(1) by simp
  qed
qed

lemma collect_window_budget:
  assumes "collect_window st x cx override w s = (r, w', s')"
  shows "api_requests s \<le> api_requests s'"
    "\<And>out. r = Inr out \<Longrightarrow> wo_split out \<noteq> None \<Longrightarrow>
       api_requests s < api_requests s' \<and> api_requests s < as_max_requests_per_run st"
proof -
  obtain c w1 s1 where c: "(case override of Some c \<Rightarrow> (c, w, s) | None \<Rightarrow>
      window_cursor (xt_env x) (cx_mapping cx) (cx_window cx) w s) = (c, w1, s1)" by (metis prod_cases3)
  have s1: "api_requests s1 = api_requests s"
    using c ensure_cursor_frame(1) by (fastforce simp: window_cursor_def split: option.splits)
  obtain w2 s2 where v: "save_cursor (xt_env x) (running_cursor cx c) w1 s1 = (w2, s2)" by (metis prod.collapse)
  have s2: "api_requests s2 = api_requests s" using save_cursor_frame(1) [OF v] s1 by simp
  have "api_requests s \<le> api_requests s' \<and> (\<forall>out. r = Inr out \<longrightarrow> wo_split out \<noteq> None \<longrightarrow>
       api_requests s < api_requests s' \<and> api_requests s < as_max_requests_per_run st)"
    using assms c v s1 s2 collect_pages_budget
    by (fastforce simp: collect_window_def Let_def append_checkpoint_def split: if_splits sum.splits)
  then show "api_requests s \<le> api_requests s'"
    "\<And>out. r = Inr out \<Longrightarrow> wo_split out \<noteq> None \<Longrightarrow>
       api_requests s < api_requests s' \<and> api_requests s < as_max_requests_per_run st" by blast+
qed

end
