(* ===== verification/Arxiv_Parts.thy ===== *)
theory Arxiv_Parts
  imports Arxiv_Service
begin

text \<open>
  \<open>arxiv_collector/service.py\<close>, the incremental collection of one mapping: the window it asks for, and the
  loop \<open>_collect_incremental_mapping\<close> over the parts of a window that was too large, whose progress is
  persisted in the checkpoint of the mapping's cursor.
\<close>


section \<open>Planned queries\<close>

definition plan_item :: "topic_row \<Rightarrow> mapping_row \<Rightarrow> string \<Rightarrow> query_window \<Rightarrow> int \<Rightarrow> json" where
  "plan_item t m base_query win page_size =
     JObj [(''topic_slug'', JStr (topic_slug t)), (''mapping_id'', JStr (show_nat (mapping_id m))),
       (''base_query'', JStr base_query), (''window_from'', JTime (window_from win)),
       (''window_until'', JTime (window_until win)), (''page_size'', JInt page_size)]"

definition plan_query :: "json \<Rightarrow> service_state \<Rightarrow> service_state" where
  "plan_query item s = update_acc (\<lambda>a. a\<lparr>acc_planned_queries := acc_planned_queries a @ [item]\<rparr>) s"

text \<open>The row of an ORM object after what happened to the table.\<close>

definition current_cursor :: "arxiv_cursor \<Rightarrow> service_state \<Rightarrow> arxiv_cursor" where
  "current_cursor c s =
     (case find (\<lambda>x. cur_id x = cur_id c) (adb_cursors (sv_db s)) of None \<Rightarrow> c | Some r \<Rightarrow> r)"


section \<open>The partition checkpoint\<close>

definition window_payload :: "query_window \<Rightarrow> json" where
  "window_payload win = JObj [(''window_from'', JTime (window_from win)), (''window_until'', JTime (window_until win))]"

definition require_aware :: "pydatetime \<Rightarrow> int result" where
  "require_aware t =
     (case utc_instant t of
        None \<Rightarrow> Inl (ArxivCollectionError ''collection timestamps must be timezone-aware'')
      | Some i \<Rightarrow> Inr i)"

text \<open>\<open>datetime.fromisoformat(str(value))\<close> of a JSON value.\<close>

definition text_datetime :: "externals \<Rightarrow> json \<Rightarrow> pydatetime option" where
  "text_datetime x j = (case j of JTime t \<Rightarrow> Some (utc t) | JStr s \<Rightarrow> xt_fromisoformat x s
     | JInt i \<Rightarrow> xt_fromisoformat x (show_int i) | _ \<Rightarrow> None)"

definition payload_instant :: "externals \<Rightarrow> jdict \<Rightarrow> string \<Rightarrow> int result" where
  "payload_instant x d key =
     (case Option.bind (dict_get d key) (text_datetime x) of
        None \<Rightarrow> Inl (ArxivCollectionError ''invalid incremental partition checkpoint'')
      | Some t \<Rightarrow> require_aware t)"

definition window_of_payload :: "externals \<Rightarrow> json \<Rightarrow> query_window result" where
  "window_of_payload x j =
     (case j of
        JObj d \<Rightarrow>
          result_bind (payload_instant x d ''window_from'') (\<lambda>a.
          result_bind (payload_instant x d ''window_until'') (\<lambda>b.
            if b \<le> a then Inl (ArxivCollectionError ''invalid incremental partition window'')
            else Inr (window a b)))
      | _ \<Rightarrow> Inl (ArxivCollectionError ''invalid incremental partition checkpoint''))"

definition json_list :: "json option \<Rightarrow> json list option" where
  "json_list j = (case j of Some (JList xs) \<Rightarrow> Some xs | _ \<Rightarrow> None)"

definition json_items :: "json option \<Rightarrow> json list" where
  "json_items j = (case json_list j of None \<Rightarrow> [] | Some xs \<Rightarrow> xs)"

definition partition_checkpoint :: "arxiv_cursor \<Rightarrow> query_window \<Rightarrow> jdict option" where
  "partition_checkpoint c win =
     (case dict_get (cur_checkpoint c) ''partition'' of
        Some (JObj v) \<Rightarrow>
          (if dict_get v ''root_from'' = Some (JTime (window_from win)) \<and>
              dict_get v ''root_until'' = Some (JTime (window_until win)) \<and>
              json_list (dict_get v ''pending'') \<noteq> None \<and> json_list (dict_get v ''completed'') \<noteq> None
           then Some v else None)
      | _ \<Rightarrow> None)"

definition new_partition :: "arxiv_settings \<Rightarrow> query_window \<Rightarrow> query_window \<times> query_window \<Rightarrow> jdict" where
  "new_partition st root parts =
     [(''version'', JInt 1), (''root_from'', JTime (window_from root)), (''root_until'', JTime (window_until root)),
      (''minimum_partition_minutes'', JInt (as_min_partition_minutes st)),
      (''pending'', JList [window_payload (fst parts), window_payload (snd parts)]), (''completed'', JList [])]"

definition partition_progress :: "jdict \<Rightarrow> json list \<Rightarrow> json list \<Rightarrow> jdict" where
  "partition_progress prt pending completed =
     dict_merge prt [(''pending'', JList pending), (''completed'', JList completed)]"

definition partition_parent :: "arxiv_cursor \<Rightarrow> jdict \<Rightarrow> string \<Rightarrow> arxiv_cursor" where
  "partition_parent parent prt reason =
     parent\<lparr>cur_status := CursorPartial, cur_last_error := Some reason,
       cur_checkpoint := dict_merge (cur_checkpoint parent) [(''reason'', JStr reason), (''partition'', JObj prt)]\<rparr>"

definition part_key :: "query_window \<Rightarrow> query_window \<Rightarrow> string" where
  "part_key root child = ''incremental-part:'' @ iso_time (window_from root) @ '':'' @ iso_time (window_until root) @ '':'' @
     iso_time (window_from child) @ '':'' @ iso_time (window_until child)"

definition part_cursor ::
  "env \<Rightarrow> mapping_row \<Rightarrow> query_window \<Rightarrow> query_window \<Rightarrow> world \<Rightarrow> service_state \<Rightarrow> arxiv_cursor \<times> world \<times> service_state" where
  "part_cursor e m root child w s =
     ensure_cursor e (blank_cursor m (part_key root child) IncrementalPart (Some child)
       [(''partition_root_from'', JTime (window_from root)), (''partition_root_until'', JTime (window_until root))]) w s"

definition failed_cursor :: "arxiv_cursor \<Rightarrow> py_error \<Rightarrow> arxiv_cursor" where
  "failed_cursor c err = c\<lparr>cur_status := CursorFailed, cur_last_error := Some (error_text err),
     cur_checkpoint := dict_merge (cur_checkpoint c) [(''reason'', JStr (error_name err))]\<rparr>"

definition text_or :: "string option \<Rightarrow> string \<Rightarrow> string" where
  "text_or t d = (case t of None \<Rightarrow> d | Some s \<Rightarrow> (if s = [] then d else s))"

definition completed_parent :: "collect_context \<Rightarrow> arxiv_cursor \<Rightarrow> jdict \<Rightarrow> int \<Rightarrow> arxiv_cursor" where
  "completed_parent cx parent prt now =
     parent\<lparr>cur_status := CursorSucceeded, cur_next_start := 0, cur_last_successful_run_at := Some now,
       cur_last_query_from := Some (window_from (cx_window cx)), cur_last_query_until := Some (window_until (cx_window cx)),
       cur_last_error := None,
       cur_checkpoint := dict_merge (cur_checkpoint parent)
         [(''reason'', JNull), (''partition'', JObj (dict_merge prt [(''status'', JStr ''completed'')])),
          (''last_successful_run_id'', JStr (show_nat (cx_run cx)))]\<rparr>"

definition part_context :: "collect_context \<Rightarrow> query_window \<Rightarrow> collect_context" where
  "part_context cx child = cx\<lparr>cx_window := child, cx_mode := IncrementalPart\<rparr>"

text \<open>What one part costs.\<close>

lemma part_step_budget:
  assumes "part_cursor e m root child w (plan_query item s) = (c, w1, s1)"
    "collect_window st x cx (Some c) w1 s1 = (Inr out, w2, s2)"
    "save_cursor e' parent w2 s2 = (w3, s3)"
  shows "api_requests s \<le> api_requests s3 \<and>
    (wo_split out \<noteq> None \<longrightarrow> api_requests s < api_requests s3 \<and> api_requests s < as_max_requests_per_run st)"
proof -
  have "api_requests s1 = api_requests s"
    using ensure_cursor_frame(1) [OF assms(1) [unfolded part_cursor_def]] by (simp add: plan_query_def)
  moreover have "api_requests s3 = api_requests s2" using save_cursor_frame(1) [OF assms(3)] by simp
  ultimately show ?thesis using collect_window_budget [OF assms(2)] by auto
qed

text \<open>
  The loop over the pending parts; \<open>cx_window\<close> is the root.  It ends because a split and every request
  are paid from the bounded budget, and a part that needs no request leaves fewer pending ones.
\<close>

function collect_parts ::
  "arxiv_settings \<Rightarrow> externals \<Rightarrow> collect_context \<Rightarrow> arxiv_cursor \<Rightarrow> jdict \<Rightarrow> json list \<Rightarrow> json list \<Rightarrow> world \<Rightarrow>
   service_state \<Rightarrow> window_outcome result \<times> world \<times> service_state" where
  "collect_parts st x cx parent prt [] completed w s =
     (case read_wall (xt_env x) w of (now, w1) \<Rightarrow>
       (let c = completed_parent cx parent prt now in
        case save_cursor (xt_env x) c w1 s of
          (w2, s1) \<Rightarrow> (Inr \<lparr>wo_status = CursorSucceeded, wo_split = None\<rparr>, w2, append_checkpoint c s1)))"
| "collect_parts st x cx parent prt (p # rest) completed w s =
     (case window_of_payload x p of
        Inl err \<Rightarrow> (Inl err, w, s)
      | Inr child \<Rightarrow>
         (case part_cursor (xt_env x) (cx_mapping cx) (cx_window cx) child w
                 (plan_query (plan_item (cx_topic cx) (cx_mapping cx) (cx_base_query cx) child (cx_page_size cx)) s) of
            (child_cursor, w1, s1) \<Rightarrow>
         (case collect_window st x (part_context cx child) (Some child_cursor) w1 s1 of
            (Inl err, w2, s2) \<Rightarrow>
              (case save_cursor (xt_env x) (failed_cursor (current_cursor child_cursor s2) err) w2 s2 of
                 (w3, s3) \<Rightarrow> (Inl err, w3, s3))
          | (Inr out, w2, s2) \<Rightarrow>
              (case wo_split out of
                 Some (l, r) \<Rightarrow>
                   (let pending' = [window_payload l, window_payload r] @ rest;
                        prt' = partition_progress prt pending' completed;
                        parent' = partition_parent parent prt' ''large_query_partition''
                    in case save_cursor (xt_env x) parent' w2 s2 of
                         (w3, s3) \<Rightarrow> collect_parts st x cx parent' prt' pending' completed w3 s3)
               | None \<Rightarrow>
                   (if wo_status out \<noteq> CursorSucceeded then
                      (let prt' = partition_progress prt (p # rest) completed;
                           parent' = partition_parent parent prt'
                             (text_or (cur_last_error (current_cursor child_cursor s2)) ''incremental_partition_incomplete'')
                       in case save_cursor (xt_env x) parent' w2 s2 of
                            (w3, s3) \<Rightarrow> (Inr \<lparr>wo_status = wo_status out, wo_split = None\<rparr>, w3, s3))
                    else
                      (let completed' = completed @ [p];
                           prt' = partition_progress prt rest completed';
                           parent' = partition_parent parent prt' ''large_query_partition''
                       in case save_cursor (xt_env x) parent' w2 s2 of
                            (w3, s3) \<Rightarrow> collect_parts st x cx parent' prt' rest completed' w3 s3))))))"
  by pat_completeness auto
termination
proof (relation "measures [\<lambda>(st, x, cx, parent, prt, pending, completed, w, s). nat (as_max_requests_per_run st - api_requests s),
      \<lambda>(st, x, cx, parent, prt, pending, completed, w, s). length pending]", goal_cases)
  case (2 st x cx parent prt p rest completed w s b xa y xb ya xc yb ba xba yc xaa xab xac xad yd)
  have "part_cursor (xt_env x) (cx_mapping cx) (cx_window cx) b w
     (plan_query (plan_item (cx_topic cx) (cx_mapping cx) (cx_base_query cx) b (cx_page_size cx)) s) = (xa, xb, ya)"
    "collect_window st x (part_context cx b) (Some xa) xb ya = (Inr ba, xba, yc)"
    "save_cursor (xt_env x) xac xba yc = (xad, yd)" using 2 by simp_all
  from part_step_budget [OF this] show ?case by auto
next
  case (3 st x cx parent prt p rest completed w s b xa y xb ya xc yb ba xba yc x2 xaa yd xab xac xad xae ye)
  have "part_cursor (xt_env x) (cx_mapping cx) (cx_window cx) b w
     (plan_query (plan_item (cx_topic cx) (cx_mapping cx) (cx_base_query cx) b (cx_page_size cx)) s) = (xa, xb, ya)"
    "collect_window st x (part_context cx b) (Some xa) xb ya = (Inr ba, xba, yc)"
    "save_cursor (xt_env x) xad xba yc = (xae, ye)" "wo_split ba \<noteq> None" using 3 by simp_all
  from part_step_budget [OF this(1-3)] this(4) show ?case by auto
qed simp

declare collect_parts.simps [simp del]


section \<open>The incremental collection of a mapping\<close>

definition incremental_cursor :: "env \<Rightarrow> mapping_row \<Rightarrow> world \<Rightarrow> service_state \<Rightarrow> arxiv_cursor \<times> world \<times> service_state" where
  "incremental_cursor e m w s = ensure_cursor e (blank_cursor m ''incremental'' Incremental None []) w s"

text \<open>
  The window to collect and the cursor with the columns it resets.  An unfinished window is resumed;
  otherwise the new one starts an overlap before the end of the last one.
\<close>

definition incremental_window :: "arxiv_settings \<Rightarrow> arxiv_cursor \<Rightarrow> int \<Rightarrow> query_window \<times> arxiv_cursor" where
  "incremental_window st c observed_until =
     (case (cur_status c \<in> {CursorRunning, CursorPartial, CursorFailed}, cur_window_from c, cur_window_until c) of
        (True, Some a, Some b) \<Rightarrow> (window a b, c)
      | _ \<Rightarrow>
          (let overlap = as_overlap_hours st * hour_us;
               a = (case cur_last_query_until c of None \<Rightarrow> observed_until - overlap | Some t \<Rightarrow> t - overlap)
           in (window a observed_until,
               c\<lparr>cur_next_start := 0, cur_window_from := Some a, cur_window_until := Some observed_until,
                 cur_checkpoint :=
                   [(''topic_id'', JStr (show_nat (cur_topic_id c))), (''mapping_id'', JStr (show_nat (cur_mapping_id c))),
                    (''window_from'', JTime a), (''window_until'', JTime observed_until), (''next_start'', JInt 0)]\<rparr>)))"

definition collect_incremental ::
  "arxiv_settings \<Rightarrow> externals \<Rightarrow> collect_context \<Rightarrow> arxiv_cursor \<Rightarrow> world \<Rightarrow> service_state \<Rightarrow>
   window_outcome result \<times> world \<times> service_state" where
  "collect_incremental st x cx parent w s =
     (case partition_checkpoint parent (cx_window cx) of
        Some prt \<Rightarrow>
          collect_parts st x cx parent prt (json_items (dict_get prt ''pending''))
            (json_items (dict_get prt ''completed'')) w s
      | None \<Rightarrow>
          (case collect_window st x cx (Some parent) w s of
             (Inl err, w1, s1) \<Rightarrow> (Inl err, w1, s1)
           | (Inr out, w1, s1) \<Rightarrow>
               (case wo_split out of
                  None \<Rightarrow> (Inr out, w1, s1)
                | Some (l, r) \<Rightarrow>
                    (let prt = new_partition st (cx_window cx) (l, r);
                         parent' = partition_parent (current_cursor parent s1) prt ''large_query_partition''
                     in case save_cursor (xt_env x) parent' w1 s1 of
                          (w2, s2) \<Rightarrow> collect_parts st x cx parent' prt [window_payload l, window_payload r] [] w2 s2))))"

end
