(* ===== verification/Arxiv_Run.thy ===== *)
theory Arxiv_Run
  imports Arxiv_Parts
begin

text \<open>
  \<open>arxiv_collector/service.py\<close>, the runs: \<open>collect\<close>, \<open>backfill\<close>, the selection of mappings, the recording of
  errors, the quality counts and the end of a run.  The registry (sources, topics, mappings) is read
  only.  An exception that a run does not handle is returned (\<open>Inl\<close>) with the state at that point: what
  was flushed but not committed is rolled back, and the run is still recorded as running.
\<close>

record arxiv_registry =
  rg_sources :: "source_row list"
  rg_topics :: "topic_row list"
  rg_mappings :: "mapping_row list"


section \<open>Sources, mappings, the start of a run\<close>

definition enabled_pair :: "arxiv_registry \<Rightarrow> mapping_row \<Rightarrow> (mapping_row \<times> topic_row) option" where
  "enabled_pair rg m =
     (case (find (\<lambda>s. source_id s = mapping_source_id m) (rg_sources rg),
            find (\<lambda>t. topic_id t = mapping_topic_id m) (rg_topics rg)) of
        (Some s, Some t) \<Rightarrow>
          (if source_name s = ''arxiv'' \<and> mapping_enabled m \<and> topic_status t = TopicActive then Some (m, t) else None)
      | _ \<Rightarrow> None)"

definition requested_slugs :: "string list option \<Rightarrow> string list" where
  "requested_slugs slugs = (case slugs of None \<Rightarrow> [] | Some xs \<Rightarrow> first_occurrences xs)"

definition enabled_mappings :: "arxiv_registry \<Rightarrow> string list option \<Rightarrow> (mapping_row \<times> topic_row) list result" where
  "enabled_mappings rg slugs =
     (let requested = requested_slugs slugs;
          rows = sort_key (\<lambda>(m, t). (- topic_monitoring_priority t, topic_slug t))
            (filter (\<lambda>(m, t). requested = [] \<or> topic_slug t \<in> set requested)
               (somes (map (enabled_pair rg) (rg_mappings rg))));
          missing = sorted_set (filter (\<lambda>slug. slug \<notin> set (map (topic_slug \<circ> snd) rows)) requested)
      in if missing \<noteq> [] then
           Inl (ArxivCollectionError (''active enabled arXiv mapping not found for: '' @ join '', '' missing))
         else if rows = [] then Inl (ArxivCollectionError ''no active enabled arXiv mappings are available'')
         else Inr rows)"

definition arxiv_source :: "arxiv_registry \<Rightarrow> source_row result" where
  "arxiv_source rg =
     (case find (\<lambda>s. source_name s = ''arxiv'') (rg_sources rg) of
        Some s \<Rightarrow> (if source_is_active s then Inr s
          else Inl (ArxivCollectionError ''arXiv source is not synchronized or active''))
      | None \<Rightarrow> Inl (ArxivCollectionError ''arXiv source is not synchronized or active''))"

text \<open>The interval in the metadata is in microseconds here.\<close>

definition start_run ::
  "arxiv_settings \<Rightarrow> env \<Rightarrow> source_row \<Rightarrow> string \<Rightarrow> string \<Rightarrow> int \<Rightarrow> int \<Rightarrow> world \<Rightarrow> service_state \<Rightarrow>
   nat \<times> world \<times> service_state" where
  "start_run st e src mode trigger win_from win_until w s =
     (case read_wall e w of (now, w1) \<Rightarrow>
       (let i = fresh_id (map run_id (sv_runs s));
            run = \<lparr>run_id = i, run_source_id = source_id src, run_started_at = now, run_finished_at = None,
              run_status = RunRunning, run_records_requested = 0, run_records_received = 0, run_records_inserted = 0,
              run_records_updated = 0, run_records_skipped = 0, run_error_count = 0,
              run_checkpoint_before = Some [(''window_from'', JTime win_from), (''window_until'', JTime win_until)],
              run_checkpoint_after = None, run_collector_version = collector_version,
              run_metadata = [(''mode'', JStr mode), (''trigger'', JStr trigger), (''schema_version'', JStr raw_schema_version),
                (''minimum_request_interval_seconds'', JFloat (cc_minimum_interval (as_client st))),
                (''concurrency'', JInt 1)]\<rparr>
        in (i, w1, s\<lparr>sv_runs := sv_runs s @ [run]\<rparr>)))"

definition new_run_accumulator :: "int \<Rightarrow> (mapping_row \<times> topic_row) list \<Rightarrow> accumulator" where
  "new_run_accumulator started_at mappings =
     new_accumulator started_at (int (length (first_occurrences (map (mapping_topic_id \<circ> fst) mappings))))"


section \<open>Errors\<close>

definition is_forbidden :: "py_error \<Rightarrow> bool" where
  "is_forbidden err = (case err of ArxivForbiddenError _ \<Rightarrow> True | _ \<Rightarrow> False)"

text \<open>What the loops over mappings catch besides \<open>ArxivForbiddenError\<close>.\<close>

definition is_collection_error :: "py_error \<Rightarrow> bool" where
  "is_collection_error err = (case err of
     ArxivHTTPError _ \<Rightarrow> True | ArxivTransportError _ \<Rightarrow> True | ArxivCollectionError _ \<Rightarrow> True
   | ArxivParseError _ \<Rightarrow> True | ArxivAPIError _ \<Rightarrow> True | ArxivQueryError _ \<Rightarrow> True | _ \<Rightarrow> False)"

definition fail_incremental_parent :: "env \<Rightarrow> arxiv_cursor \<Rightarrow> py_error \<Rightarrow> world \<Rightarrow> service_state \<Rightarrow> world \<times> service_state" where
  "fail_incremental_parent e c err w s = save_cursor e (failed_cursor (current_cursor c s) err) w s"

definition record_error ::
  "env \<Rightarrow> nat \<Rightarrow> mapping_row \<Rightarrow> py_error \<Rightarrow> bool \<Rightarrow> world \<Rightarrow> service_state \<Rightarrow> world \<times> service_state" where
  "record_error e run m err critical w s =
     (case (case latest_by cur_updated_at (filter (\<lambda>c. cur_mapping_id c = mapping_id m) (adb_cursors (sv_db s))) of
              None \<Rightarrow> (w, s)
            | Some c \<Rightarrow> save_cursor e (c\<lparr>cur_status := CursorFailed, cur_last_error := Some (error_text err)\<rparr>) w s) of
        (w1, s1) \<Rightarrow>
          (case read_wall e w1 of (now, w2) \<Rightarrow>
            (w2, s1\<lparr>sv_errors := sv_errors s1 @
              [\<lparr>error_run_id = run, error_occurred_at = now, error_type = error_name err, error_message = error_text err,
                error_record_identifier = Some (show_nat (mapping_id m)),
                error_details = [(''source'', JStr ''arxiv''), (''topic_id'', JStr (show_nat (mapping_topic_id m))),
                  (''mapping_id'', JStr (show_nat (mapping_id m))), (''critical'', JBool critical)]\<rparr>]\<rparr>)))"

definition count_error :: "nat \<Rightarrow> service_state \<Rightarrow> service_state" where
  "count_error mapping s = update_acc (\<lambda>a. add_failed mapping (a\<lparr>acc_errors := acc_errors a + 1\<rparr>)) s"


section \<open>The end of a run\<close>

definition terminal_status :: "accumulator \<Rightarrow> ingestion_status" where
  "terminal_status a =
     (if acc_errors a \<noteq> 0 \<and> acc_successful_windows a = 0 then RunFailed
      else if acc_errors a \<noteq> 0 \<or> acc_stopped a then RunPartial else RunSucceeded)"

definition count_where :: "('a \<Rightarrow> bool) \<Rightarrow> 'a list \<Rightarrow> int" where
  "count_where P xs = int (length (filter P xs))"

definition mapped_topics :: "arxiv_registry \<Rightarrow> nat list" where
  "mapped_topics rg =
     map mapping_topic_id (filter (\<lambda>m. mapping_enabled m \<and>
        (case find (\<lambda>s. source_id s = mapping_source_id m) (rg_sources rg) of
           Some s \<Rightarrow> source_name s = ''arxiv'' | None \<Rightarrow> False)) (rg_mappings rg))"

definition quality_counts ::
  "env \<Rightarrow> arxiv_registry \<Rightarrow> nat \<Rightarrow> world \<Rightarrow> service_state \<Rightarrow> (string, int) dict \<times> world" where
  "quality_counts e rg run w s =
     (case read_wall e w of (now, w1) \<Rightarrow>
       (let db = sv_db s; raw = filter (\<lambda>r. araw_run_id r = run) (adb_raw db);
            observed = map aobs_paper_id (filter (\<lambda>ob. aobs_run_id ob = run) (adb_observations db))
        in ([(''raw_response_count'', int (length raw)),
             (''parsed_entry_count'', sum_list (somes (map araw_parsed_entry_count raw))),
             (''unique_paper_count'', int (length (first_occurrences observed))),
             (''topic_match_count'', count_where (\<lambda>m. amatch_last_run_id m = run) (adb_matches db)),
             (''duplicate_paper_count'', int (n_duplicate_papers (acc_counts (sv_acc s)))),
             (''papers_without_authors'',
                count_where (\<lambda>p. \<not> list_ex (\<lambda>a. pa_paper_id a = paper_id p) (adb_paper_authors db)) (adb_papers db)),
             (''papers_without_categories'',
                count_where (\<lambda>p. \<not> list_ex (\<lambda>c. pc_paper_id c = paper_id p) (adb_paper_categories db)) (adb_papers db)),
             (''parse_error_count'', count_where (\<lambda>r. araw_parse_error r \<noteq> None) raw),
             (''enabled_topics_without_arxiv_mapping'',
                count_where (\<lambda>t. topic_status t = TopicActive \<and> topic_id t \<notin> set (mapped_topics rg)) (rg_topics rg)),
             (''stale_cursors'',
                count_where (\<lambda>c. cur_mode c = ''incremental'' \<and>
                    (case cur_last_successful_run_at c of None \<Rightarrow> False | Some t \<Rightarrow> t < now - 2 * day_us)) (adb_cursors db)),
             (''failed_mappings'', int (length (acc_failed_mappings (sv_acc s))))], w1)))"

definition warning_names :: "string list" where
  "warning_names =
     [''duplicate_paper_count'', ''papers_without_authors'', ''papers_without_categories'', ''parse_error_count'',
      ''enabled_topics_without_arxiv_mapping'', ''stale_cursors'', ''failed_mappings'']"

definition quality_check :: "nat \<Rightarrow> string \<times> int \<Rightarrow> quality_check_row" where
  "quality_check run p =
     \<lparr>check_run_id = Some run, check_name = fst p,
      check_status = (if fst p \<in> set warning_names \<and> snd p > 0 then QualityWarning else QualityPassed),
      check_observed = [(''count'', JInt (snd p))],
      check_expected = (if fst p \<in> set warning_names then [(''count'', JInt 0)] else [(''minimum'', JInt 0)]),
      check_details = [(''source'', JStr ''arxiv'')]\<rparr>"

definition finished_run :: "ingestion_status \<Rightarrow> int \<Rightarrow> accumulator \<Rightarrow> (string, int) dict \<Rightarrow> ingestion_run \<Rightarrow> ingestion_run" where
  "finished_run status now a quality r =
     r\<lparr>run_status := status, run_finished_at := Some now, run_records_requested := acc_records_requested a,
       run_records_received := acc_entries_received a, run_records_inserted := int (n_papers_inserted (acc_counts a)),
       run_records_updated := int (n_papers_updated (acc_counts a)), run_records_skipped := int (n_papers_existing (acc_counts a)),
       run_error_count := acc_errors a, run_checkpoint_after := Some [(''checkpoints'', JList (acc_checkpoints a))],
       run_metadata := dict_merge (run_metadata r)
         [(''api_requests'', JInt (acc_api_requests a)), (''raw_payloads_preserved'', JInt (acc_raw_payloads a)),
          (''topic_matches_added'', JInt (int (n_matches_added (acc_counts a)))),
          (''data_quality'', JObj (map (\<lambda>(k, v). (k, JInt v)) quality))]\<rparr>"

definition finish_run ::
  "env \<Rightarrow> arxiv_registry \<Rightarrow> nat \<Rightarrow> ingestion_status \<Rightarrow> world \<Rightarrow> service_state \<Rightarrow>
   (string, int) dict \<times> int \<times> world \<times> service_state" where
  "finish_run e rg run status w s =
     (case quality_counts e rg run w s of (quality, w1) \<Rightarrow>
      (case read_wall e w1 of (now, w2) \<Rightarrow>
        (quality, now, w2,
         s\<lparr>sv_checks := sv_checks s @ map (quality_check run) quality,
           sv_runs := map (\<lambda>r. if run_id r = run then finished_run status now (sv_acc s) quality r else r) (sv_runs s)\<rparr>)))"

record run_summary =
  sum_mode :: string
  sum_run :: "nat option"
  sum_status :: string
  sum_started_at :: int
  sum_finished_at :: int
  sum_topics_considered :: int
  sum_mappings_executed :: int
  sum_api_requests :: int
  sum_entries_received :: int
  sum_new_papers :: int
  sum_updated_papers :: int
  sum_existing_papers :: int
  sum_topic_matches_added :: int
  sum_errors :: int
  sum_raw_payloads :: int
  sum_estimated_delay :: int
  sum_checkpoints :: "json list"
  sum_planned_queries :: "json list"
  sum_data_quality :: "(string, int) dict"

definition summary ::
  "arxiv_settings \<Rightarrow> string \<Rightarrow> nat option \<Rightarrow> string \<Rightarrow> int \<Rightarrow> (string, int) dict \<Rightarrow> accumulator \<Rightarrow> run_summary" where
  "summary st mode run status finished quality a =
     \<lparr>sum_mode = mode, sum_run = run, sum_status = status, sum_started_at = acc_started_at a,
      sum_finished_at = finished, sum_topics_considered = acc_topics_considered a,
      sum_mappings_executed = acc_mappings_executed a, sum_api_requests = acc_api_requests a,
      sum_entries_received = acc_entries_received a, sum_new_papers = int (n_papers_inserted (acc_counts a)),
      sum_updated_papers = int (n_papers_updated (acc_counts a)), sum_existing_papers = int (n_papers_existing (acc_counts a)),
      sum_topic_matches_added = int (n_matches_added (acc_counts a)), sum_errors = acc_errors a,
      sum_raw_payloads = acc_raw_payloads a,
      sum_estimated_delay = max 0 ((int (length (acc_planned_queries a)) - 1) * cc_minimum_interval (as_client st)),
      sum_checkpoints = acc_checkpoints a, sum_planned_queries = acc_planned_queries a, sum_data_quality = quality\<rparr>"

definition end_run ::
  "arxiv_settings \<Rightarrow> externals \<Rightarrow> arxiv_registry \<Rightarrow> string \<Rightarrow> nat \<Rightarrow> world \<Rightarrow> service_state \<Rightarrow>
   run_summary result \<times> world \<times> service_state" where
  "end_run st x rg mode run w s =
     (let status = terminal_status (sv_acc s) in
      case finish_run (xt_env x) rg run status w s of
        (quality, now, w1, s1) \<Rightarrow>
          (Inr (summary st mode (Some run) (ingestion_status_value status) now quality (sv_acc s1)), w1, s1))"

definition size_or_default :: "arxiv_settings \<Rightarrow> int option \<Rightarrow> int" where
  "size_or_default st page_size = (case page_size of None \<Rightarrow> as_page_size st | Some n \<Rightarrow> (if n = 0 then as_page_size st else n))"


section \<open>Incremental collection\<close>

datatype run_step = RunRaised py_error | RunBreak | RunNext

record run_options =
  ro_run :: nat
  ro_max_pages :: "int option"
  ro_page_size :: int
  ro_started :: int
  ro_observed_until :: int

definition run_context :: "run_options \<Rightarrow> mapping_row \<Rightarrow> topic_row \<Rightarrow> string \<Rightarrow> query_window \<Rightarrow> collect_mode \<Rightarrow> collect_context" where
  "run_context ro m t q win mode =
     \<lparr>cx_run = ro_run ro, cx_mapping = m, cx_topic = t, cx_base_query = q, cx_window = win,
      cx_max_pages = ro_max_pages ro, cx_page_size = ro_page_size ro, cx_mode = mode, cx_started = ro_started ro\<rparr>"

definition stop_run :: "service_state \<Rightarrow> service_state" where
  "stop_run = update_acc (\<lambda>a. a\<lparr>acc_stopped := True\<rparr>)"

definition execute_mapping :: "service_state \<Rightarrow> service_state" where
  "execute_mapping = update_acc (\<lambda>a. a\<lparr>acc_mappings_executed := acc_mappings_executed a + 1\<rparr>)"

definition count_success :: "service_state \<Rightarrow> service_state" where
  "count_success = update_acc (\<lambda>a. a\<lparr>acc_successful_windows := acc_successful_windows a + 1\<rparr>)"

definition fail_mapping :: "nat \<Rightarrow> service_state \<Rightarrow> service_state" where
  "fail_mapping m = update_acc (add_failed m)"

text \<open>What follows a mapping whose collection raised.\<close>

definition incremental_error ::
  "externals \<Rightarrow> run_options \<Rightarrow> mapping_row \<Rightarrow> arxiv_cursor \<Rightarrow> py_error \<Rightarrow> world \<Rightarrow> service_state \<Rightarrow>
   run_step \<times> world \<times> service_state" where
  "incremental_error x ro m c err w s =
     (if \<not> is_forbidden err \<and> \<not> is_collection_error err then (RunRaised err, w, s)
      else (case fail_incremental_parent (xt_env x) c err w s of
        (w1, s1) \<Rightarrow> (case record_error (xt_env x) (ro_run ro) m err (is_forbidden err) w1 s1 of
          (w2, s2) \<Rightarrow> (if is_forbidden err then RunBreak else RunNext, w2, count_error (mapping_id m) s2))))"

definition collect_mapping ::
  "arxiv_settings \<Rightarrow> externals \<Rightarrow> run_options \<Rightarrow> mapping_row \<times> topic_row \<Rightarrow> world \<Rightarrow> service_state \<Rightarrow>
   run_step \<times> world \<times> service_state" where
  "collect_mapping st x ro mt w s =
     (case mt of (m, t) \<Rightarrow>
     (case runtime_exceeded (xt_env x) st (ro_started ro) w of
        (True, w1) \<Rightarrow> (RunBreak, w1, stop_run s)
      | (False, w1) \<Rightarrow>
         (let s1 = execute_mapping s in
          case incremental_cursor (xt_env x) m w1 s1 of
            (c0, w2, s2) \<Rightarrow>
          (case incremental_window st c0 (ro_observed_until ro) of
            (win, c) \<Rightarrow>
          (case from_mapping m ''arxiv'' of
             Inl err \<Rightarrow> (RunRaised err, w2, s1)
           | Inr q \<Rightarrow>
              (case collect_incremental st x (run_context ro m t q win Incremental) c w2
                      (plan_query (plan_item t m q win (ro_page_size ro)) s2) of
                 (Inl err, w3, s3) \<Rightarrow> incremental_error x ro m c err w3 s3
               | (Inr out, w3, s3) \<Rightarrow>
                   (let s4 = (if wo_status out = CursorSucceeded then count_success s3
                              else fail_mapping (mapping_id m) s3)
                    in if request_limit_reached st s4 then (RunBreak, w3, stop_run s4)
                       else (RunNext, w3, s4))))))))"

fun collect_mappings ::
  "arxiv_settings \<Rightarrow> externals \<Rightarrow> run_options \<Rightarrow> (mapping_row \<times> topic_row) list \<Rightarrow> world \<Rightarrow> service_state \<Rightarrow>
   unit result \<times> world \<times> service_state" where
  "collect_mappings st x ro [] w s = (Inr (), w, s)"
| "collect_mappings st x ro (mt # rest) w s =
     (case collect_mapping st x ro mt w s of
        (RunRaised err, w1, s1) \<Rightarrow> (Inl err, w1, s1)
      | (RunBreak, w1, s1) \<Rightarrow> (Inr (), w1, s1)
      | (RunNext, w1, s1) \<Rightarrow> collect_mappings st x ro rest w1 s1)"

definition collect ::
  "arxiv_settings \<Rightarrow> externals \<Rightarrow> arxiv_registry \<Rightarrow> string list option \<Rightarrow> int option \<Rightarrow> int option \<Rightarrow> string \<Rightarrow>
   world \<Rightarrow> service_state \<Rightarrow> run_summary result \<times> world \<times> service_state" where
  "collect st x rg slugs page_size max_pages trigger w s =
     (case enabled_mappings rg slugs of
        Inl err \<Rightarrow> (Inl err, w, s)
      | Inr mappings \<Rightarrow>
         (case read_wall (xt_env x) w of
            (observed_until, w1) \<Rightarrow>
         (let s1 = s\<lparr>sv_acc := new_run_accumulator observed_until mappings\<rparr> in
          case arxiv_source rg of
            Inl err \<Rightarrow> (Inl err, w1, s1)
          | Inr src \<Rightarrow>
             (case start_run st (xt_env x) src ''incremental'' trigger (observed_until - as_overlap_hours st * hour_us)
                     observed_until w1 s1 of
                (run, w2, s2) \<Rightarrow>
             (case read_clock (xt_env x) w2 of
                (started, w3) \<Rightarrow>
             (case collect_mappings st x \<lparr>ro_run = run, ro_max_pages = max_pages, ro_page_size = size_or_default st page_size,
                      ro_started = started, ro_observed_until = observed_until\<rparr> mappings w3 s2 of
                (Inl err, w4, s3) \<Rightarrow> (Inl err, w4, s3)
              | (Inr _, w4, s3) \<Rightarrow> end_run st x rg ''incremental'' run w4 s3))))))"

section \<open>Backfill\<close>

text \<open>
  The pending windows of one mapping; the result says whether the mapping failed and whether the API
  refused the collector.  A split costs a request of the bounded budget.
\<close>

record backfill_state =
  bs_forbidden :: bool
  bs_failed :: bool

lemma record_error_frame:
  assumes "record_error e run m err critical w s = (w', s')"
  shows "sv_acc s' = sv_acc s" "sv_files s' = sv_files s" "w_sent w' = w_sent w"
  using assms by (auto simp: record_error_def read_wall_def split: option.splits prod.splits)

lemma count_simps [simp]:
  "api_requests (count_error i s) = api_requests s" "api_requests (count_success s) = api_requests s"
  "api_requests (fail_mapping i s) = api_requests s" "api_requests (stop_run s) = api_requests s"
  "api_requests (execute_mapping s) = api_requests s"
  by (simp_all add: count_error_def count_success_def fail_mapping_def stop_run_def execute_mapping_def add_failed_def)

function backfill_windows ::
  "arxiv_settings \<Rightarrow> externals \<Rightarrow> run_options \<Rightarrow> mapping_row \<Rightarrow> topic_row \<Rightarrow> string \<Rightarrow> query_window list \<Rightarrow> bool \<Rightarrow>
   world \<Rightarrow> service_state \<Rightarrow> backfill_state result \<times> world \<times> service_state" where
  "backfill_windows st x ro m t q [] failed w s = (Inr \<lparr>bs_forbidden = False, bs_failed = failed\<rparr>, w, s)"
| "backfill_windows st x ro m t q (win # pending) failed w s =
     (case collect_window st x (run_context ro m t q win Backfill) None w s of
        (Inl err, w1, s1) \<Rightarrow>
          (if is_forbidden err then
             (case record_error (xt_env x) (ro_run ro) m err True w1 s1 of
                (w2, s2) \<Rightarrow> (Inr \<lparr>bs_forbidden = True, bs_failed = True\<rparr>, w2, count_error (mapping_id m) s2))
           else if is_collection_error err then
             (case record_error (xt_env x) (ro_run ro) m err False w1 s1 of
                (w2, s2) \<Rightarrow> backfill_windows st x ro m t q pending True w2 (count_error (mapping_id m) s2))
           else (Inl err, w1, s1))
      | (Inr out, w1, s1) \<Rightarrow>
          (case wo_split out of
             Some (l, r) \<Rightarrow> backfill_windows st x ro m t q (l # r # pending) failed w1 s1
           | None \<Rightarrow>
               (if wo_status out = CursorSucceeded then backfill_windows st x ro m t q pending failed w1 (count_success s1)
                else backfill_windows st x ro m t q pending True w1 s1)))"
  by pat_completeness auto
termination
proof (relation "measures [\<lambda>(st, x, ro, m, t, q, pending, failed, w, s). nat (as_max_requests_per_run st - api_requests s),
      \<lambda>(st, x, ro, m, t, q, pending, failed, w, s). length pending]", goal_cases)
  case (2 st x ro m t q win pending failed w s xa y a xaa ya w2 s2)
  have "collect_window st x (run_context ro m t q win Backfill) None w s = (Inl a, xaa, ya)"
    "record_error (xt_env x) (ro_run ro) m a False xaa ya = (w2, s2)" using 2 by simp_all
  from collect_window_budget(1) [OF this(1)] record_error_frame(1) [OF this(2)] show ?case by auto
next
  case (3 st x ro m t q win pending failed w s xa y b xaa ya)
  have "collect_window st x (run_context ro m t q win Backfill) None w s = (Inr b, xaa, ya)" using 3 by simp
  from collect_window_budget(1) [OF this] show ?case by auto
next
  case (4 st x ro m t q win pending failed w s xa y b xaa ya)
  have "collect_window st x (run_context ro m t q win Backfill) None w s = (Inr b, xaa, ya)" using 4 by simp
  from collect_window_budget(1) [OF this] show ?case by auto
next
  case (5 st x ro m t q win pending failed w s xa y b xaa ya x2 xab yb)
  have "collect_window st x (run_context ro m t q win Backfill) None w s = (Inr b, xaa, ya)" "wo_split b \<noteq> None"
    using 5 by simp_all
  from collect_window_budget [OF this(1)] this(2) show ?case by auto
qed simp

declare backfill_windows.simps [simp del]

definition backfill_mapping ::
  "arxiv_settings \<Rightarrow> externals \<Rightarrow> run_options \<Rightarrow> query_window list \<Rightarrow> mapping_row \<times> topic_row \<Rightarrow> world \<Rightarrow> service_state \<Rightarrow>
   run_step \<times> world \<times> service_state" where
  "backfill_mapping st x ro windows mt w s =
     (case mt of (m, t) \<Rightarrow>
     (case runtime_exceeded (xt_env x) st (ro_started ro) w of
        (True, w1) \<Rightarrow> (RunBreak, w1, stop_run s)
      | (False, w1) \<Rightarrow>
         (let s1 = execute_mapping s in
          case from_mapping m ''arxiv'' of
            Inl err \<Rightarrow> (RunRaised err, w1, s1)
          | Inr q \<Rightarrow>
             (case backfill_windows st x ro m t q windows False w1 s1 of
                (Inl err, w2, s2) \<Rightarrow> (RunRaised err, w2, s2)
              | (Inr b, w2, s2) \<Rightarrow>
                  (let s3 = (if bs_failed b then fail_mapping (mapping_id m) s2 else s2) in
                   if bs_forbidden b \<or> request_limit_reached st s3 then
                     (RunBreak, w2, update_acc (\<lambda>a. a\<lparr>acc_stopped := \<not> bs_forbidden b\<rparr>) s3)
                   else (RunNext, w2, s3))))))"

fun backfill_mappings ::
  "arxiv_settings \<Rightarrow> externals \<Rightarrow> run_options \<Rightarrow> query_window list \<Rightarrow> (mapping_row \<times> topic_row) list \<Rightarrow> world \<Rightarrow>
   service_state \<Rightarrow> unit result \<times> world \<times> service_state" where
  "backfill_mappings st x ro windows [] w s = (Inr (), w, s)"
| "backfill_mappings st x ro windows (mt # rest) w s =
     (case backfill_mapping st x ro windows mt w s of
        (RunRaised err, w1, s1) \<Rightarrow> (Inl err, w1, s1)
      | (RunBreak, w1, s1) \<Rightarrow> (Inr (), w1, s1)
      | (RunNext, w1, s1) \<Rightarrow> backfill_mappings st x ro windows rest w1 s1)"

definition plan_mapping :: "int \<Rightarrow> query_window list \<Rightarrow> mapping_row \<times> topic_row \<Rightarrow> json list result" where
  "plan_mapping page_size windows mt =
     (case mt of (m, t) \<Rightarrow>
       result_bind (from_mapping m ''arxiv'') (\<lambda>q. Inr (map (\<lambda>win. plan_item t m q win page_size) windows)))"

definition backfill ::
  "arxiv_settings \<Rightarrow> externals \<Rightarrow> arxiv_registry \<Rightarrow> string list option \<Rightarrow> pydatetime \<Rightarrow> pydatetime \<Rightarrow> bool \<Rightarrow>
   int option \<Rightarrow> int option \<Rightarrow> world \<Rightarrow> service_state \<Rightarrow> run_summary result \<times> world \<times> service_state" where
  "backfill st x rg slugs from_time until_time dry_run max_pages page_size w s =
     (case result_bind (require_aware from_time) (\<lambda>a. result_bind (require_aware until_time) (\<lambda>b.
          if b \<le> a then Inl (ArxivCollectionError ''backfill --until must be after --from'')
          else result_bind (enabled_mappings rg slugs) (\<lambda>mappings.
            result_bind (partition_windows a b (as_backfill_window_days st)) (\<lambda>windows. Inr (a, b, mappings, windows))))) of
        Inl err \<Rightarrow> (Inl err, w, s)
      | Inr (a, b, mappings, windows) \<Rightarrow>
         (case read_wall (xt_env x) w of
            (started_at, w1) \<Rightarrow>
         (case result_map (plan_mapping (size_or_default st page_size) windows) mappings of
            Inl err \<Rightarrow> (Inl err, w1, s)
          | Inr plans \<Rightarrow>
             (let s1 = s\<lparr>sv_acc := (new_run_accumulator started_at mappings)\<lparr>acc_planned_queries := concat plans\<rparr>\<rparr> in
              if dry_run then
                (case read_wall (xt_env x) w1 of
                   (now, w2) \<Rightarrow> (Inr (summary st ''dry_run'' None ''dry_run'' now [] (sv_acc s1)), w2, s1))
              else (case arxiv_source rg of
                 Inl err \<Rightarrow> (Inl err, w1, s1)
               | Inr src \<Rightarrow>
                  (case start_run st (xt_env x) src ''backfill'' ''manual'' a b w1 s1 of
                     (run, w2, s2) \<Rightarrow>
                  (case read_clock (xt_env x) w2 of
                     (started, w3) \<Rightarrow>
                  (case backfill_mappings st x \<lparr>ro_run = run, ro_max_pages = max_pages,
                           ro_page_size = size_or_default st page_size, ro_started = started, ro_observed_until = b\<rparr>
                         windows mappings w3 s2 of
                     (Inl err, w4, s3) \<Rightarrow> (Inl err, w4, s3)
                   | (Inr _, w4, s3) \<Rightarrow> end_run st x rg ''backfill'' run w4 s3))))))))"

end
