(* ===== verification/Arxiv_Demo.thy ===== *)
theory Arxiv_Demo
  imports Arxiv_Run
begin

text \<open>
  A concrete run, evaluated by the kernel: one mapping, an API that first answers 503 and then an empty
  result.  The witnesses of the properties of runs use it.
\<close>

definition demo_settings :: arxiv_settings where
  "demo_settings = \<lparr>as_page_size = 100, as_max_requests_per_run = 5, as_max_results_per_topic = 500, as_overlap_hours = 48,
     as_backfill_window_days = 7, as_large_query_threshold = 1000, as_min_partition_minutes = 60,
     as_max_runtime_minutes = 30,
     as_client = \<lparr>cc_minimum_interval = 3 * second_us, cc_retry_attempts = 3, cc_timeout = 30 * second_us,
       cc_user_agent = ''observatory''\<rparr>,
     as_raw_root = [''data'', ''raw'']\<rparr>"

text \<open>The first request is answered with 503, the others with an empty result.\<close>

definition demo_externals :: externals where
  "demo_externals = \<lparr>
     xt_env = \<lparr>e_elapsed = (\<lambda>_. 10), e_wall = (\<lambda>n. 100 * day_us + int n),
       e_transport = (\<lambda>n. TransportReplied (if n = 0 then 503 else 200) [] ''<feed/>''), e_jitter = (\<lambda>_. 0)\<rparr>,
     xt_codec = demo_codec, xt_nfkc = id,
     xt_xml = (\<lambda>_. Inr (Element (atom ''feed'') [] None
       [Element (opensearch ''totalResults'') [] (Some ''0'') [], Element (opensearch ''startIndex'') [] (Some ''0'') [],
        Element (opensearch ''itemsPerPage'') [] (Some ''100'') []])),
     xt_fromisoformat = (\<lambda>_. None), xt_fault = (\<lambda>_. NoFault)\<rparr>"

definition demo_registry :: arxiv_registry where
  "demo_registry = \<lparr>
     rg_sources = [\<lparr>source_id = 1, source_name = ''arxiv'', source_kind = ''api'', source_base_url = None,
       source_is_active = True, source_metadata = []\<rparr>],
     rg_topics = [\<lparr>topic_id = 1, topic_canonical_name = ''T'', topic_normalized_name = ''t'', topic_slug = ''t'',
       topic_description = None, topic_category_id = None, topic_status = TopicActive, topic_monitoring_priority = 50,
       topic_deprecated_at = None, topic_registry_version = None, topic_metadata = []\<rparr>],
     rg_mappings = [\<lparr>mapping_id = 1, mapping_topic_id = 1, mapping_source_id = 1, mapping_enabled = True,
       mapping_type = ''query'', mapping_external_identifier = None, mapping_query = None,
       mapping_configuration = [(''search_terms'', JList [JStr ''agents''])]\<rparr>]\<rparr>"

definition demo_state :: service_state where
  "demo_state = \<lparr>sv_db = \<lparr>adb_raw = [], adb_papers = [], adb_authors = [], adb_paper_authors = [], adb_categories = [],
       adb_paper_categories = [], adb_observations = [], adb_matches = [], adb_cursors = []\<rparr>,
     sv_files = [], sv_writes = 0, sv_runs = [], sv_errors = [], sv_checks = [], sv_acc = new_accumulator 0 0\<rparr>"

definition demo_collect :: "run_summary result \<times> world \<times> service_state" where
  "demo_collect = collect demo_settings demo_externals demo_registry None None None ''manual'' world_init demo_state"

lemma demo_collect_value:
  "(case demo_collect of (r, w, s) \<Rightarrow> (map_sum id sum_status r, w_sent w, w_starts w, map cur_status (adb_cursors (sv_db s)),
      map araw_http_status (adb_raw (sv_db s)), length (sv_files s), map run_status (sv_runs s))) =
     (Inr ''succeeded'', 2, [50, 3000090], [CursorSucceeded], [503, 200], 2, [RunSucceeded])"
  by code_simp

text \<open>
  A resumed window: its first half is finished, the second half is still pending.  The process stopped
  after the first part, and the cursor's checkpoint says so.
\<close>

definition resume_root :: query_window where
  "resume_root = window (90 * day_us) (92 * day_us)"

definition resume_parts :: "query_window list" where
  "resume_parts = [window (90 * day_us) (91 * day_us), window (91 * day_us) (92 * day_us)]"

definition resume_parent :: arxiv_cursor where
  "resume_parent =
     (blank_cursor (hd (rg_mappings demo_registry)) ''incremental'' Incremental (Some resume_root)
        [(''partition'', JObj [(''version'', JInt 1), (''root_from'', JTime (90 * day_us)), (''root_until'', JTime (92 * day_us)),
           (''minimum_partition_minutes'', JInt 60),
           (''pending'', JList [JObj [(''window_from'', JTime (91 * day_us)), (''window_until'', JTime (92 * day_us))]]),
           (''completed'', JList [JObj [(''window_from'', JTime (90 * day_us)), (''window_until'', JTime (91 * day_us))]])])])
     \<lparr>cur_id := 1, cur_status := CursorPartial\<rparr>"

definition resume_state :: service_state where
  "resume_state = demo_state\<lparr>sv_acc := new_run_accumulator 0 [(hd (rg_mappings demo_registry), hd (rg_topics demo_registry))],
     sv_db := (sv_db demo_state)\<lparr>adb_cursors := [resume_parent,
     (blank_cursor (hd (rg_mappings demo_registry)) (part_key resume_root (window (90 * day_us) (91 * day_us))) IncrementalPart
        (Some (window (90 * day_us) (91 * day_us))) [])\<lparr>cur_id := 2, cur_status := CursorSucceeded\<rparr>]\<rparr>\<rparr>"

definition resume_context :: collect_context where
  "resume_context = \<lparr>cx_run = 1, cx_mapping = hd (rg_mappings demo_registry), cx_topic = hd (rg_topics demo_registry),
     cx_base_query = ''all:agents'', cx_window = resume_root, cx_max_pages = None, cx_page_size = 100,
     cx_mode = Incremental, cx_started = 0\<rparr>"

definition resume_externals :: externals where
  "resume_externals = demo_externals\<lparr>xt_env := (xt_env demo_externals)\<lparr>e_transport := (\<lambda>_. TransportReplied 200 [] ''<feed/>'')\<rparr>\<rparr>"

definition demo_resume :: "window_outcome result \<times> world \<times> service_state" where
  "demo_resume = collect_incremental demo_settings resume_externals resume_context resume_parent world_init resume_state"

lemma demo_resume_value:
  "(case demo_resume of (r, w, s) \<Rightarrow> (map_sum id wo_status r, w_sent w, map cur_status (adb_cursors (sv_db s)))) =
     (Inr CursorSucceeded, 1, [CursorSucceeded, CursorSucceeded, CursorSucceeded])"
  by code_simp

end
