(* ===== verification/Arxiv_Guarantees.thy ===== *)
theory Arxiv_Guarantees
  imports Arxiv_Demo
begin

text \<open>
  What holds of whole runs.  \<open>collection_relation\<close> is the contract of the atomic effects of the service: a
  preorder on the world and the service's state that each of them respects is respected by every
  operation up to \<open>collect\<close> and \<open>backfill\<close>.  It is interpreted for the request budget and the pacing, for the
  Raw evidence, and for the constraints of the tables.
\<close>


section \<open>The contract\<close>

text \<open>A step of the world that starts no request.\<close>

definition quiet :: "world \<Rightarrow> world \<Rightarrow> bool" where
  "quiet w w' = (w_sent w' = w_sent w \<and> w_starts w' = w_starts w \<and> w_last_start w' = w_last_start w \<and> w_clock w \<le> w_clock w')"

lemma quiet_refl [simp]: "quiet w w"
  by (simp add: quiet_def)

lemma quiet_reads: "read_clock e w = (t, w') \<Longrightarrow> quiet w w'" "read_wall e w = (t, w') \<Longrightarrow> quiet w w'"
  by (auto simp: quiet_def read_clock_def read_wall_def Let_def)

lemma quiet_backoff: "quiet w (backoff e c a ra w)"
  by (simp add: quiet_def)

locale collection_relation =
  fixes st :: arxiv_settings and x :: externals
    and R :: "world \<times> service_state \<Rightarrow> world \<times> service_state \<Rightarrow> bool"
  assumes R_refl: "R z z"
    and R_trans: "R z z' \<Longrightarrow> R z' z'' \<Longrightarrow> R z z''"
    and R_quiet: "quiet w w' \<Longrightarrow> R (w, s) (w', s)"
    and R_cursors: "R (w, s) (w, s\<lparr>sv_db := (sv_db s)\<lparr>adb_cursors := cs\<rparr>\<rparr>)"
    and R_acc: "acc_api_requests a = api_requests s \<Longrightarrow> R (w, s) (w, s\<lparr>sv_acc := a\<rparr>)"
    and R_log: "R (w, s) (w, s\<lparr>sv_runs := rs, sv_errors := es, sv_checks := qs\<rparr>)"
    and R_parsed: "R (w, s) (w, s\<lparr>sv_db := update_raw i (\<lambda>r. r\<lparr>araw_parse_error := m r, araw_parsed_entry_count := k\<rparr>) (sv_db s)\<rparr>)"
    and R_persist: "xt_parse x body = Inr f \<Longrightarrow> raw_row i (sv_db s) = Some raw \<Longrightarrow> R (w, s) (w, persist_page x cx raw f s)"
    and R_attempt: "attempt_once (xt_env x) (as_client st) rq (preserve st x cx) (count_attempt st x cx n) at final w (s, raw0) =
       (out, w', (s', raw1)) \<Longrightarrow> R (w, s) (w', s')"

definition lift_R :: "(world \<times> service_state \<Rightarrow> world \<times> service_state \<Rightarrow> bool) \<Rightarrow> world \<times> page_state \<Rightarrow> world \<times> page_state \<Rightarrow> bool" where
  "lift_R R z z' = R (fst z, fst (snd z)) (fst z', fst (snd z'))"

sublocale collection_relation \<subseteq> callbacks: client_callbacks "xt_env x" "as_client st" rq "preserve st x cx"
    "count_attempt st x cx n" "lift_R R" for rq cx n
proof unfold_locales
  show "lift_R R z z" for z by (simp add: lift_R_def R_refl)
  show "lift_R R z z'' " if "lift_R R z z'" "lift_R R z' z''" for z z' z''
    using that unfolding lift_R_def by (rule R_trans)
  show "lift_R R (w, s) (w', s')" if "attempt_once (xt_env x) (as_client st) rq (preserve st x cx)
      (count_attempt st x cx n) a final w s = (out, w', s')" for a final w s out w' s'
    using that by (cases s; cases s') (simp add: lift_R_def R_attempt)
  show "lift_R R (w, s) (backoff (xt_env x) (as_client st) a ra w, s)" for w s a ra
    by (simp add: lift_R_def R_quiet quiet_backoff)
qed

context collection_relation
begin

lemma R_pair: "R z (w, s) \<Longrightarrow> quiet w w' \<Longrightarrow> R z (w', s)"
  by (rule R_trans [OF _ R_quiet])

lemma R_update_acc: "acc_api_requests (f (sv_acc s)) = api_requests s \<Longrightarrow> R (w, s) (w, update_acc f s)"
  by (simp add: update_acc_def R_acc)

lemma save_cursor_R: "save_cursor e c w s = (w', s') \<Longrightarrow> R (w, s) (w', s')"
  by (auto simp: save_cursor_def R_refl split: option.splits if_splits prod.splits
      intro!: R_trans [OF R_cursors R_quiet] quiet_reads)

lemma ensure_cursor_R: "ensure_cursor e n w s = (c, w', s') \<Longrightarrow> R (w, s) (w', s')"
  by (auto simp: ensure_cursor_def R_refl Let_def split: option.splits prod.splits
      intro!: R_trans [OF R_cursors R_quiet] quiet_reads)

lemma append_checkpoint_R: "R (w, s) (w, append_checkpoint c s)"
  by (simp add: append_checkpoint_def R_update_acc)

lemma pause_cursor_R: 
  assumes "pause_cursor e c reason w s = (out, w', s')"
  shows "R (w, s) (w', s')"
proof -
  have "R (w, s) (w, update_acc (\<lambda>a. a\<lparr>acc_stopped := True\<rparr>) s)" by (rule R_update_acc) simp
  from R_trans [OF this R_trans [OF save_cursor_R append_checkpoint_R]] show ?thesis
    using assms by (auto simp: pause_cursor_def Let_def split: prod.splits)
qed

lemma page_limit_R: "page_limit st x cx pages w s = (r, w') \<Longrightarrow> quiet w w'"
  by (auto simp: page_limit_def runtime_exceeded_def quiet_reads split: if_splits prod.splits bool.splits option.splits)

lemma fetch_page_R: "fetch_page st x cx rq w s = (r, w', (s', raw)) \<Longrightarrow> R (w, s) (w', s')"
  unfolding fetch_page_def by (drule callbacks.client_get_R) (simp add: lift_R_def)

lemma fail_page_R: "fail_page x i err c w s = (out, w', s') \<Longrightarrow> R (w, s) (w', s')"
  unfolding fail_page_def Let_def record_parse_error_def
  by (auto split: prod.splits intro: R_trans [OF R_parsed save_cursor_R])

lemma split_page_R: "split_page st x cx i f c w s = (out, w', s') \<Longrightarrow> R (w, s) (w', s')"
proof -
  assume a: "split_page st x cx i f c w s = (out, w', s')"
  let ?s1 = "s\<lparr>sv_db := update_raw i (\<lambda>r. r\<lparr>araw_parsed_entry_count := Some (int (length (fd_articles f)))\<rparr>) (sv_db s)\<rparr>"
  have one: "R (w, s) (w, ?s1)"
    using R_parsed [where w = w and s = s and i = i and m = araw_parse_error and k = "Some (int (length (fd_articles f)))"] by simp
  note after = R_trans [OF one]
  show ?thesis
  proof (cases "split_window (as_min_partition_minutes st) (cx_window cx)")
    case None
    then show ?thesis using a after [OF pause_cursor_R] by (auto simp: split_page_def Let_def split: prod.splits)
  next
    case (Some parts)
    then show ?thesis using a after [OF R_trans [OF save_cursor_R append_checkpoint_R]]
      by (auto simp: split_page_def Let_def split: prod.splits)
  qed
qed

lemma advance_cursor_R:
  assumes "advance_cursor x cx rq f c w s = (out, w', s')"
  shows "R (w, s) (w', s')"
  using assms unfolding advance_cursor_def
  by (auto simp: Let_def split: if_splits prod.splits
      intro: pause_cursor_R save_cursor_R R_trans [OF R_quiet [OF quiet_reads(2)] R_trans [OF save_cursor_R append_checkpoint_R]])

lemma handle_feed_R:
  assumes "handle_feed st x cx rq i f c w s = (out, w', s')" "xt_parse x body = Inr f"
  shows "R (w, s) (w', s')"
  using assms(1) unfolding handle_feed_def
  by (auto split: if_splits option.splits
      intro: fail_page_R split_page_R R_refl R_trans [OF R_persist [OF assms(2)] advance_cursor_R])

lemma collect_page_R:
  assumes "collect_page st x cx q pages c w s = (out, w', s')"
  shows "R (w, s) (w', s')"
  using assms
proof (cases rule: collect_page_cases)
  case (limit reason w1 o2)
  from R_trans [OF R_quiet [OF page_limit_R [OF limit(1)]] pause_cursor_R [OF limit(2)]] show ?thesis .
next
  case (invalid e)
  then show ?thesis using R_quiet [OF page_limit_R [OF invalid(1)]] by simp
next
  case (failed w1 err raw)
  from R_trans [OF R_quiet [OF page_limit_R [OF failed(1)]] fetch_page_R [OF failed(2)]] show ?thesis .
next
  case (fetched w1 rsp w2 s2 i)
  have "R (w2, s2) (w', s')"
    using fetched(3) by (auto split: sum.splits if_splits intro: fail_page_R handle_feed_R R_refl)
  from R_trans [OF R_trans [OF R_quiet [OF page_limit_R [OF fetched(1)]] fetch_page_R [OF fetched(2)]] this] show ?thesis .
qed

lemma collect_pages_R: "collect_pages st x cx q pages c w s = (r, w', s') \<Longrightarrow> R (w, s) (w', s')"
proof (induction "nat (as_max_requests_per_run st - api_requests s)" arbitrary: pages c w s rule: less_induct)
  case less
  obtain out w1 s1 where p: "collect_page st x cx q pages c w s = (out, w1, s1)" by (metis prod_cases3)
  note one = collect_page_R [OF p]
  note run = less.prems [unfolded collect_pages.simps [of st x cx q pages] p prod.case]
  show ?case
  proof (cases out)
    case (PageNext c2)
    from R_trans [OF one less.hyps] show ?thesis
      using run collect_page_budget(2) [OF p PageNext] PageNext by simp
  qed (use run one in simp_all)
qed

lemma collect_window_R:
  assumes "collect_window st x cx override w s = (r, w', s')"
  shows "R (w, s) (w', s')"
proof -
  obtain c w1 s1 where c: "(case override of Some c \<Rightarrow> (c, w, s) | None \<Rightarrow>
      window_cursor (xt_env x) (cx_mapping cx) (cx_window cx) w s) = (c, w1, s1)" by (metis prod_cases3)
  have one: "R (w, s) (w1, s1)"
    using c by (auto simp: window_cursor_def R_refl split: option.splits intro: ensure_cursor_R)
  obtain w2 s2 where v: "save_cursor (xt_env x) (running_cursor cx c) w1 s1 = (w2, s2)" by (metis prod.collapse)
  note two = R_trans [OF one save_cursor_R [OF v]]
  show ?thesis
    using assms c v two R_trans [OF one append_checkpoint_R] R_trans [OF two collect_pages_R]
    by (auto simp: collect_window_def Let_def split: if_splits sum.splits)
qed

lemma plan_query_R: "R (w, s) (w, plan_query item s)"
  by (simp add: plan_query_def R_update_acc)

lemma part_cursor_R: "part_cursor e m root child w (plan_query item s) = (c, w', s') \<Longrightarrow> R (w, s) (w', s')"
  unfolding part_cursor_def by (rule R_trans [OF plan_query_R ensure_cursor_R])

lemma collect_parts_R: "collect_parts st x cx parent prt pending completed w s = (r, w', s') \<Longrightarrow> R (w, s) (w', s')"
proof (induction "(nat (as_max_requests_per_run st - api_requests s), length pending)"
    arbitrary: parent prt pending completed w s rule: less_induct)
  case less
  show ?case
  proof (cases pending)
    case Nil
    obtain now w1 where n: "read_wall (xt_env x) w = (now, w1)" by (cases "read_wall (xt_env x) w")
    let ?c = "completed_parent cx parent prt now"
    obtain w2 s1 where v: "save_cursor (xt_env x) ?c w1 s = (w2, s1)" by (cases "save_cursor (xt_env x) ?c w1 s")
    show ?thesis
      using less.prems Nil n v R_trans [OF R_quiet [OF quiet_reads(2) [OF n]] R_trans [OF save_cursor_R [OF v] append_checkpoint_R]]
      by (auto simp: collect_parts.simps Let_def)
  next
    case (Cons p rest)
    note run = less.prems [unfolded Cons collect_parts.simps]
    show ?thesis
    proof (cases "window_of_payload x p")
      case (Inl err)
      then show ?thesis using run by (simp add: R_refl)
    next
      case (Inr child)
      let ?item = "plan_item (cx_topic cx) (cx_mapping cx) (cx_base_query cx) child (cx_page_size cx)"
      obtain cc w1 s1 where pc: "part_cursor (xt_env x) (cx_mapping cx) (cx_window cx) child w (plan_query ?item s) = (cc, w1, s1)"
        by (metis prod_cases3)
      obtain o2 w2 s2 where cw: "collect_window st x (part_context cx child) (Some cc) w1 s1 = (o2, w2, s2)"
        by (metis prod_cases3)
      have two: "R (w, s) (w2, s2)" by (rule R_trans [OF part_cursor_R [OF pc] collect_window_R [OF cw]])
      note step = run [unfolded Inr sum.case pc prod.case cw]
      show ?thesis
      proof (cases o2)
        case (Inl err)
        then show ?thesis using step R_trans [OF two save_cursor_R] by (auto split: prod.splits)
      next
        case (Inr out)
        show ?thesis
        proof (cases "wo_split out = None \<and> wo_status out \<noteq> CursorSucceeded")
          case True
          then show ?thesis using step Inr R_trans [OF two save_cursor_R] by (auto simp: Let_def split: prod.splits)
        next
          case False
          obtain parent' prt' pending' completed' w3 s3 where n: "save_cursor (xt_env x) parent' w2 s2 = (w3, s3)"
            "collect_parts st x cx parent' prt' pending' completed' w3 s3 = (r, w', s')"
            "wo_split out = None \<Longrightarrow> length pending' < length pending"
            using step Inr False Cons by (auto simp: Let_def split: prod.splits option.splits)
          have "((nat (as_max_requests_per_run st - api_requests s3), length pending'),
              (nat (as_max_requests_per_run st - api_requests s), length pending)) \<in> less_than <*lex*> less_than"
            using part_step_budget [OF pc cw [unfolded Inr] n(1)] n(3) by (cases "wo_split out = None") auto
          then show ?thesis using R_trans [OF R_trans [OF two save_cursor_R [OF n(1)]] less.hyps [OF _ n(2)]]
            by (auto simp: less_prod_def)
        qed
      qed
    qed
  qed
qed

lemma collect_incremental_R:
  assumes "collect_incremental st x cx parent w s = (r, w', s')"
  shows "R (w, s) (w', s')"
proof (cases "partition_checkpoint parent (cx_window cx)")
  case (Some prt)
  then show ?thesis using assms by (auto simp: collect_incremental_def intro: collect_parts_R)
next
  case None
  obtain o2 w1 s1 where cw: "collect_window st x cx (Some parent) w s = (o2, w1, s1)" by (metis prod_cases3)
  note one = collect_window_R [OF cw]
  show ?thesis
    using assms None cw one R_trans [OF one R_trans [OF save_cursor_R collect_parts_R]]
    by (auto simp: collect_incremental_def Let_def split: sum.splits option.splits prod.splits)
qed

lemma record_error_R:
  assumes "record_error e run m err critical w s = (w', s')"
  shows "R (w, s) (w', s')"
proof -
  obtain w1 s1 where c: "(case latest_by cur_updated_at (filter (\<lambda>c. cur_mapping_id c = mapping_id m) (adb_cursors (sv_db s))) of
      None \<Rightarrow> (w, s)
    | Some c \<Rightarrow> save_cursor e (c\<lparr>cur_status := CursorFailed, cur_last_error := Some (error_text err)\<rparr>) w s) = (w1, s1)"
    by (metis prod.collapse)
  have one: "R (w, s) (w1, s1)" using c by (auto simp: R_refl split: option.splits intro: save_cursor_R)
  have log: "R (w, s) (w, s\<lparr>sv_errors := es\<rparr>)" for w s es
    using R_log [where w = w and s = s and rs = "sv_runs s" and es = es and qs = "sv_checks s"] by simp
  obtain now w2 where n: "read_wall e w1 = (now, w2)" by (cases "read_wall e w1")
  show ?thesis
    using assms n R_trans [OF R_trans [OF one R_quiet [OF quiet_reads(2) [OF n]]] log]
    by (auto simp: record_error_def c)
qed

lemma counter_R:
  "R (w, s) (w, count_error i s)" "R (w, s) (w, count_success s)" "R (w, s) (w, fail_mapping i s)"
  "R (w, s) (w, stop_run s)" "R (w, s) (w, execute_mapping s)"
  by (simp_all add: count_error_def count_success_def fail_mapping_def stop_run_def execute_mapping_def add_failed_def R_update_acc)

lemma incremental_error_R:
  assumes "incremental_error x ro m c err w s = (out, w', s')"
  shows "R (w, s) (w', s')"
proof -
  obtain w1 s1 where f: "fail_incremental_parent (xt_env x) c err w s = (w1, s1)"
    by (cases "fail_incremental_parent (xt_env x) c err w s")
  obtain w2 s2 where g: "record_error (xt_env x) (ro_run ro) m err (is_forbidden err) w1 s1 = (w2, s2)"
    by (cases "record_error (xt_env x) (ro_run ro) m err (is_forbidden err) w1 s1")
  have "R (w, s) (w2, s2)"
    using f unfolding fail_incremental_parent_def by (rule R_trans [OF save_cursor_R record_error_R [OF g]])
  then show ?thesis
    using assms f g R_trans [OF _ counter_R(1)] by (auto simp: incremental_error_def R_refl split: if_splits)
qed

lemma runtime_exceeded_quiet: "runtime_exceeded e st started w = (b, w') \<Longrightarrow> quiet w w'"
  by (auto simp: runtime_exceeded_def quiet_reads split: prod.splits)

lemma collect_mapping_R:
  assumes "collect_mapping st x ro mt w s = (out, w', s')"
  shows "R (w, s) (w', s')"
proof -
  obtain m t where mt: "mt = (m, t)" by (cases mt)
  obtain b w1 where rt: "runtime_exceeded (xt_env x) st (ro_started ro) w = (b, w1)"
    by (cases "runtime_exceeded (xt_env x) st (ro_started ro) w")
  have one: "R (w, s) (w1, s)" by (rule R_quiet [OF runtime_exceeded_quiet [OF rt]])
  note run = assms [unfolded collect_mapping_def mt prod.case rt]
  show ?thesis
  proof (cases b)
    case True
    then show ?thesis using run R_trans [OF one counter_R(4)] by auto
  next
    case b: False
    let ?s1 = "execute_mapping s"
    have two: "R (w, s) (w1, ?s1)" by (rule R_trans [OF one counter_R(5)])
    obtain c0 w2 s2 where ic: "incremental_cursor (xt_env x) m w1 ?s1 = (c0, w2, s2)" by (metis prod_cases3)
    obtain win c where iw: "incremental_window st c0 (ro_observed_until ro) = (win, c)" by fastforce
    have "quiet w1 w2" using ic
      by (auto simp: incremental_cursor_def ensure_cursor_def Let_def quiet_reads split: option.splits prod.splits)
    then have raised: "R (w, s) (w2, ?s1)" by (rule R_pair [OF two])
    show ?thesis
    proof (cases "from_mapping m ''arxiv''")
      case (Inl err)
      then show ?thesis using run b ic iw raised by (simp add: Let_def)
    next
      case (Inr q)
      let ?s3 = "plan_query (plan_item t m q win (ro_page_size ro)) s2"
      have three: "R (w, s) (w2, ?s3)"
        using ic unfolding incremental_cursor_def by (rule R_trans [OF two R_trans [OF ensure_cursor_R plan_query_R]])
      obtain o2 w3 s3 where ci: "collect_incremental st x (run_context ro m t q win Incremental) c w2 ?s3 = (o2, w3, s3)"
        by (metis prod_cases3)
      note four = R_trans [OF three collect_incremental_R [OF ci]]
      note step = run [unfolded Let_def ic prod.case iw Inr sum.case ci]
      show ?thesis
      proof (cases o2)
        case (Inl err)
        then show ?thesis using step b R_trans [OF four incremental_error_R] by simp
      next
        case (Inr out2)
        then show ?thesis
          using step b R_trans [OF four counter_R(2)] R_trans [OF four counter_R(3)]
            R_trans [OF R_trans [OF four counter_R(2)] counter_R(4)] R_trans [OF R_trans [OF four counter_R(3)] counter_R(4)]
          by (auto split: if_splits)
      qed
    qed
  qed
qed

lemma collect_mappings_R: "collect_mappings st x ro mts w s = (r, w', s') \<Longrightarrow> R (w, s) (w', s')"
proof (induction mts arbitrary: w s)
  case (Cons mt rest)
  obtain out w1 s1 where o: "collect_mapping st x ro mt w s = (out, w1, s1)" by (metis prod_cases3)
  show ?case
    using Cons.prems o collect_mapping_R [OF o] R_trans [OF collect_mapping_R [OF o] Cons.IH]
    by (cases out) auto
qed (simp add: R_refl)

lemma end_run_R:
  assumes "end_run st x rg mode run w s = (r, w', s')"
  shows "R (w, s) (w', s')"
proof -
  have log: "R (w, s) (w, s\<lparr>sv_checks := cs, sv_runs := rs\<rparr>)" for w s cs rs
  proof -
    have "s\<lparr>sv_checks := cs, sv_runs := rs\<rparr> = s\<lparr>sv_runs := rs, sv_errors := sv_errors s, sv_checks := cs\<rparr>"
      by (cases s) simp
    then show ?thesis using R_log by metis
  qed
  obtain quality w1 where q: "quality_counts (xt_env x) rg run w s = (quality, w1)" by (cases "quality_counts (xt_env x) rg run w s")
  obtain now w2 where n: "read_wall (xt_env x) w1 = (now, w2)" by (cases "read_wall (xt_env x) w1")
  have "quiet w w1" using q by (auto simp: quality_counts_def Let_def quiet_reads split: prod.splits)
  from R_trans [OF R_pair [OF R_quiet [OF this] quiet_reads(2) [OF n]] log] show ?thesis
    using assms by (auto simp: end_run_def finish_run_def q n Let_def)
qed

lemma start_run_R:
  assumes "start_run st e src mode trigger a b w s = (run, w', s')"
  shows "R (w, s) (w', s')"
proof -
  have log: "R (w, s) (w, s\<lparr>sv_runs := rs\<rparr>)" for w s rs
    using R_log [where w = w and s = s and rs = rs and es = "sv_errors s" and qs = "sv_checks s"] by simp
  obtain now w1 where n: "read_wall e w = (now, w1)" by (cases "read_wall e w")
  show ?thesis using assms R_trans [OF R_quiet [OF quiet_reads(2) [OF n]] log] by (auto simp: start_run_def n Let_def)
qed

text \<open>A run starts with a new accumulator, so what it respects is counted from there.\<close>

definition from_new_run :: "world \<times> service_state \<Rightarrow> world \<times> service_state \<Rightarrow> bool" where
  "from_new_run z z' =
     (snd z' = snd z \<and> quiet (fst z) (fst z') \<or>
      (\<exists>a. acc_api_requests a = 0 \<and> R (fst z, (snd z)\<lparr>sv_acc := a\<rparr>) z'))"

lemma collect_R:
  assumes "collect st x rg slugs page_size max_pages trigger w s = (r, w', s')"
  shows "from_new_run (w, s) (w', s')"
proof (cases "enabled_mappings rg slugs")
  case (Inl err)
  then show ?thesis using assms by (simp add: collect_def from_new_run_def)
next
  case (Inr mappings)
  obtain until w1 where n: "read_wall (xt_env x) w = (until, w1)" by (cases "read_wall (xt_env x) w")
  let ?a = "new_run_accumulator until mappings"
  let ?s1 = "s\<lparr>sv_acc := ?a\<rparr>"
  have a: "acc_api_requests ?a = 0" by (simp add: new_run_accumulator_def new_accumulator_def)
  have one: "R (w, ?s1) (w1, ?s1)" by (rule R_quiet [OF quiet_reads(2) [OF n]])
  show ?thesis
  proof (cases "arxiv_source rg")
    case (Inl err)
    then have "w' = w1" "s' = ?s1" using assms Inr n by (simp_all add: collect_def)
    with a one show ?thesis unfolding from_new_run_def by auto
  next
    case src: (Inr src)
    obtain run w2 s2 where sr: "start_run st (xt_env x) src ''incremental'' trigger (until - as_overlap_hours st * hour_us) until w1 ?s1
        = (run, w2, s2)" by (metis prod_cases3)
    obtain started w3 where rc: "read_clock (xt_env x) w2 = (started, w3)" by (cases "read_clock (xt_env x) w2")
    have two: "R (w, ?s1) (w3, s2)" by (rule R_pair [OF R_trans [OF one start_run_R [OF sr]] quiet_reads(1) [OF rc]])
    let ?ro = "\<lparr>ro_run = run, ro_max_pages = max_pages, ro_page_size = size_or_default st page_size,
        ro_started = started, ro_observed_until = until\<rparr>"
    obtain o4 w4 s4 where cm: "collect_mappings st x ?ro mappings w3 s2 = (o4, w4, s4)" by (metis prod_cases3)
    note three = R_trans [OF two collect_mappings_R [OF cm]]
    have "R (w, ?s1) (w', s')"
      using assms Inr n src sr rc cm three R_trans [OF three end_run_R] by (auto simp: collect_def split: sum.splits)
    with a show ?thesis unfolding from_new_run_def by auto
  qed
qed

lemma backfill_windows_R: "backfill_windows st x ro m t q pending failed w s = (r, w', s') \<Longrightarrow> R (w, s) (w', s')"
proof (induction "(nat (as_max_requests_per_run st - api_requests s), length pending)"
    arbitrary: pending failed w s rule: less_induct)
  case less
  show ?case
  proof (cases pending)
    case Nil
    then show ?thesis using less.prems by (simp add: backfill_windows.simps R_refl)
  next
    case (Cons win rest)
    obtain o2 w1 s1 where cw: "collect_window st x (run_context ro m t q win Backfill) None w s = (o2, w1, s1)"
      by (metis prod_cases3)
    note one = collect_window_R [OF cw]
    note run = less.prems [unfolded Cons backfill_windows.simps(2) [of st x ro m t q win rest failed w s] cw prod.case]
    have next_windows: "R (w, s) (w', s')"
      if "backfill_windows st x ro m t q pending' failed' w2 s2 = (r, w', s')" "R (w, s) (w2, s2)"
        "api_requests s \<le> api_requests s2"
        "length pending' < length pending \<or> api_requests s < api_requests s2 \<and> api_requests s < as_max_requests_per_run st"
      for pending' failed' w2 s2
    proof -
      have "nat (as_max_requests_per_run st - api_requests s2) \<le> nat (as_max_requests_per_run st - api_requests s)"
        using that(3) by simp
      moreover have "length pending' < length pending \<or>
          nat (as_max_requests_per_run st - api_requests s2) < nat (as_max_requests_per_run st - api_requests s)"
        using that(4) by linarith
      ultimately have "(nat (as_max_requests_per_run st - api_requests s2), length pending')
          < (nat (as_max_requests_per_run st - api_requests s), length pending)"
        unfolding less_prod_simp by linarith
      from R_trans [OF that(2) less.hyps [OF this that(1)]] show ?thesis .
    qed
    show ?thesis
    proof (cases o2)
      case (Inl err)
      obtain w2 s2 where re: "record_error (xt_env x) (ro_run ro) m err (is_forbidden err) w1 s1 = (w2, s2)"
        by (cases "record_error (xt_env x) (ro_run ro) m err (is_forbidden err) w1 s1")
      have two: "R (w, s) (w2, count_error (mapping_id m) s2)"
        by (rule R_trans [OF R_trans [OF one record_error_R [OF re]] counter_R(1)])
      have api: "api_requests s \<le> api_requests (count_error (mapping_id m) s2)"
        using record_error_frame(1) [OF re] collect_window_budget(1) [OF cw] by simp
      show ?thesis
        using run Inl re one two next_windows [OF _ two api] Cons by (auto split: if_splits)
    next
      case (Inr out)
      note b = collect_window_budget [OF cw]
      show ?thesis
      proof (cases "wo_split out")
        case None
        then show ?thesis
          using run Inr Cons b(1) next_windows [OF _ one] next_windows [OF _ R_trans [OF one counter_R(2)]]
          by (auto split: if_splits)
      next
        case (Some parts)
        then show ?thesis
          using run Inr b(1) b(2) [OF Inr] next_windows [OF _ one] by (cases parts) auto
      qed
    qed
  qed
qed

lemma backfill_mapping_R:
  assumes "backfill_mapping st x ro windows mt w s = (out, w', s')"
  shows "R (w, s) (w', s')"
proof -
  obtain m t where mt: "mt = (m, t)" by (cases mt)
  obtain b w1 where rt: "runtime_exceeded (xt_env x) st (ro_started ro) w = (b, w1)"
    by (cases "runtime_exceeded (xt_env x) st (ro_started ro) w")
  have one: "R (w, s) (w1, s)" by (rule R_quiet [OF runtime_exceeded_quiet [OF rt]])
  have two: "R (w, s) (w1, execute_mapping s)" by (rule R_trans [OF one counter_R(5)])
  note run = assms [unfolded backfill_mapping_def mt prod.case rt]
  show ?thesis
  proof (cases b)
    case True
    then show ?thesis using run R_trans [OF one counter_R(4)] by auto
  next
    case b: False
    show ?thesis
    proof (cases "from_mapping m ''arxiv''")
      case (Inl err)
      then show ?thesis using run b two by (simp add: Let_def)
    next
      case (Inr q)
      obtain o2 w2 s2 where bw: "backfill_windows st x ro m t q windows False w1 (execute_mapping s) = (o2, w2, s2)"
        by (metis prod_cases3)
      note three = R_trans [OF two backfill_windows_R [OF bw]]
      have stop: "R (w, s) (w2, s3) \<Longrightarrow> R (w, s) (w2, update_acc (\<lambda>a. a\<lparr>acc_stopped := v\<rparr>) s3)" for s3 v
        by (rule R_trans [OF _ R_update_acc]) simp_all
      show ?thesis
        using run b Inr bw three R_trans [OF three counter_R(3)] stop [OF three] stop [OF R_trans [OF three counter_R(3)]]
        by (auto simp: Let_def split: sum.splits if_splits)
    qed
  qed
qed

lemma backfill_mappings_R: "backfill_mappings st x ro windows mts w s = (r, w', s') \<Longrightarrow> R (w, s) (w', s')"
proof (induction mts arbitrary: w s)
  case (Cons mt rest)
  obtain out w1 s1 where o: "backfill_mapping st x ro windows mt w s = (out, w1, s1)" by (metis prod_cases3)
  show ?case
    using Cons.prems o backfill_mapping_R [OF o] R_trans [OF backfill_mapping_R [OF o] Cons.IH]
    by (cases out) auto
qed (simp add: R_refl)

lemma backfill_R:
  assumes "backfill st x rg slugs a b dry_run max_pages page_size w s = (r, w', s')"
  shows "from_new_run (w, s) (w', s')"
proof -
  obtain args where args: "result_bind (require_aware a) (\<lambda>a. result_bind (require_aware b) (\<lambda>b.
          if b \<le> a then Inl (ArxivCollectionError ''backfill --until must be after --from'')
          else result_bind (enabled_mappings rg slugs) (\<lambda>mappings.
            result_bind (partition_windows a b (as_backfill_window_days st)) (\<lambda>windows. Inr (a, b, mappings, windows))))) = args"
    by blast
  show ?thesis
  proof (cases args)
    case (Inl err)
    then show ?thesis using assms args by (simp add: backfill_def from_new_run_def)
  next
    case (Inr v)
    obtain ta tb mappings windows where v: "v = (ta, tb, mappings, windows)" by (metis prod_cases4)
    obtain at w1 where n: "read_wall (xt_env x) w = (at, w1)" by (cases "read_wall (xt_env x) w")
    note run = assms [unfolded backfill_def args Inr v sum.case prod.case n]
    show ?thesis
    proof (cases "result_map (plan_mapping (size_or_default st page_size) windows) mappings")
      case (Inl err)
      then show ?thesis using run quiet_reads(2) [OF n] by (simp add: from_new_run_def)
    next
      case plans: (Inr plans)
      let ?a = "(new_run_accumulator at mappings)\<lparr>acc_planned_queries := concat plans\<rparr>"
      let ?s1 = "s\<lparr>sv_acc := ?a\<rparr>"
      have a: "acc_api_requests ?a = 0" by (simp add: new_run_accumulator_def new_accumulator_def)
      have one: "R (w, ?s1) (w1, ?s1)" by (rule R_quiet [OF quiet_reads(2) [OF n]])
      note step = run [unfolded plans sum.case Let_def]
      have "R (w, ?s1) (w', s')"
      proof (cases dry_run)
        case True
        obtain now w2 where n2: "read_wall (xt_env x) w1 = (now, w2)" by (cases "read_wall (xt_env x) w1")
        show ?thesis using step True n2 R_pair [OF one quiet_reads(2) [OF n2]] by simp
      next
        case False
        show ?thesis
        proof (cases "arxiv_source rg")
          case (Inl err)
          then show ?thesis using step False one by simp
        next
          case src: (Inr src)
          obtain run w2 s2 where sr: "start_run st (xt_env x) src ''backfill'' ''manual'' ta tb w1 ?s1 = (run, w2, s2)"
            by (metis prod_cases3)
          obtain started w3 where rc: "read_clock (xt_env x) w2 = (started, w3)" by (cases "read_clock (xt_env x) w2")
          have two: "R (w, ?s1) (w3, s2)" by (rule R_pair [OF R_trans [OF one start_run_R [OF sr]] quiet_reads(1) [OF rc]])
          let ?ro = "\<lparr>ro_run = run, ro_max_pages = max_pages, ro_page_size = size_or_default st page_size,
              ro_started = started, ro_observed_until = tb\<rparr>"
          obtain o4 w4 s4 where bm: "backfill_mappings st x ?ro windows mappings w3 s2 = (o4, w4, s4)" by (metis prod_cases3)
          note three = R_trans [OF two backfill_mappings_R [OF bm]]
          show ?thesis
            using step False src sr rc bm three R_trans [OF three end_run_R] by (auto split: sum.splits)
        qed
      qed
      with a show ?thesis unfolding from_new_run_def by auto
    qed
  qed
qed

end


section \<open>Limits of a run\<close>

definition limits :: "arxiv_settings \<Rightarrow> world \<times> service_state \<Rightarrow> world \<times> service_state \<Rightarrow> bool" where
  "limits st z z' =
     (case (z, z') of ((w, s), (w', s')) \<Rightarrow>
       api_requests s \<le> api_requests s' \<and>
       (api_requests s \<le> as_max_requests_per_run st \<longrightarrow> api_requests s' \<le> as_max_requests_per_run st) \<and>
       int (w_sent w') - int (w_sent w) \<le> api_requests s' - api_requests s \<and>
       w_clock w \<le> w_clock w' \<and>
       int (length (w_starts w')) - int (w_sent w') = int (length (w_starts w)) - int (w_sent w) \<and>
       (0 \<le> cc_minimum_interval (as_client st) \<longrightarrow> paced (cc_minimum_interval (as_client st)) w \<longrightarrow>
          paced (cc_minimum_interval (as_client st)) w'))"

lemma persist_page_frame [simp]:
  "sv_files (persist_page x cx raw f s) = sv_files s" "sv_runs (persist_page x cx raw f s) = sv_runs s"
  by (simp_all add: persist_page_def split: prod.splits)

lemma sends_limits:
  assumes "sends e (cc_minimum_interval (as_client st)) w w'" "api_requests s' = api_requests s + 1"
    "api_requests s < as_max_requests_per_run st"
  shows "limits st (w, s) (w', s')"
  using assms by (auto simp: limits_def sends_def)

lemma limits_quiet_left: "quiet w w1 \<Longrightarrow> limits st (w1, s) z \<Longrightarrow> limits st (w, s) z"
  using paced_later [where w = w and w' = w1] by (cases z) (auto simp: limits_def quiet_def)

lemma attempt_limits:
  assumes "attempt_once (xt_env x) (as_client st) rq (preserve st x cx) (count_attempt st x cx n) a final w (s, raw) =
    (out, w', (s', raw'))"
  shows "limits st (w, s) (w', s')"
proof -
  have counted: "quiet w w1 \<and> api_requests s1 = api_requests s + 1 \<and> api_requests s < as_max_requests_per_run st"
    if "count_attempt st x cx n a w (s, raw) = (Inr u, w1, (s1, raw1))" for u w1 s1 raw1
    using count_attempt_cases [OF that] by (auto simp: quiet_def)
  from assms show ?thesis
  proof (cases rule: attempt_once_cases)
    case (refused err)
    have "quiet w w' \<and> s' = s" using count_attempt_cases [OF refused(1)] by (auto simp: quiet_def)
    then show ?thesis using paced_later [where w = w and w' = w'] by (auto simp: limits_def quiet_def)
  next
    case (unanswered u w1)
    note c = counted [OF unanswered(1)]
    show ?thesis by (rule limits_quiet_left [OF _ sends_limits [OF unanswered(2)]]) (use c in auto)
  next
    case (answered u w1 ps1 rsp r2)
    obtain s1 raw1 where ps1: "ps1 = (s1, raw1)" by (cases ps1)
    note c = counted [OF answered(1) [unfolded ps1]]
    have "api_requests s' = api_requests s1" using preserve_budget answered(6) unfolding ps1 by blast
    with c show ?thesis by (intro limits_quiet_left [OF _ sends_limits [OF answered(2)]]) auto
  qed
qed

interpretation run_limits: collection_relation st x "limits st" for st x
proof unfold_locales
  show "limits st z z" for z by (auto simp: limits_def split: prod.splits)
  show "limits st z z''" if "limits st z z'" "limits st z' z''" for z z' z''
    using that by (auto simp: limits_def split: prod.splits)
  show "limits st (w, s) (w', s)" if "quiet w w'" for w w' s
    using that paced_later [where w = w and w' = w'] by (auto simp: limits_def quiet_def)
  show "limits st (w, s) (w', s')" if "attempt_once (xt_env x) (as_client st) rq (preserve st x cx) (count_attempt st x cx n)
      at final w (s, raw0) = (out, w', (s', raw1))" for rq cx n at final w s raw0 out w' s' raw1
    using that by (rule attempt_limits)
qed (auto simp: limits_def)

lemma run_limits_from_start:
  assumes "run_limits.from_new_run st (world_init, s) (w', s')" "0 \<le> cc_minimum_interval (as_client st)"
    "0 \<le> as_max_requests_per_run st"
  shows "int (w_sent w') \<le> as_max_requests_per_run st \<and> length (w_starts w') = w_sent w' \<and>
    sorted_wrt (\<lambda>a b. a + cc_minimum_interval (as_client st) \<le> b) (w_starts w')"
proof -
  have i: "w_sent world_init = 0" "w_starts world_init = []" "paced m world_init" for m
    by (simp_all add: world_init_def paced_def)
  from assms(1) show ?thesis unfolding run_limits.from_new_run_def
  proof
    assume "snd (w', s') = snd (world_init, s) \<and> quiet (fst (world_init, s)) (fst (w', s'))"
    then show ?thesis using i assms(3) by (simp add: quiet_def)
  next
    assume "\<exists>a. acc_api_requests a = 0 \<and> limits st (fst (world_init, s), snd (world_init, s)\<lparr>sv_acc := a\<rparr>) (w', s')"
    then obtain a where a: "acc_api_requests a = 0" "limits st (world_init, s\<lparr>sv_acc := a\<rparr>) (w', s')" by auto
    have "paced (cc_minimum_interval (as_client st)) w'" "int (w_sent w') \<le> as_max_requests_per_run st"
      "length (w_starts w') = w_sent w'"
      using a(2) a(1) i(1,2) i(3) [of "cc_minimum_interval (as_client st)"] assms(2,3) unfolding limits_def by simp_all
    then show ?thesis by (simp add: paced_def)
  qed
qed

lemma client_init_interval: "client_init c = Inr () \<Longrightarrow> 3 * second_us \<le> cc_minimum_interval c"
  by (auto simp: client_init_def limiter_valid_def split: if_splits)

text \<open>
  C15: whatever the API answers, an incremental run and a backfill start at most the configured number of
  requests, every retry included, and consecutive requests start at least the configured interval apart,
  which is never below three seconds.
\<close>

theorem run_respects_limits:
  assumes "client_init (as_client st) = Inr ()" "0 \<le> as_max_requests_per_run st"
    and "collect st x rg slugs page_size max_pages trigger world_init s = (r, w', s') \<or>
      backfill st x rg slugs a b dry_run max_pages page_size world_init s = (r, w', s')"
  shows "int (w_sent w') \<le> as_max_requests_per_run st \<and> length (w_starts w') = w_sent w' \<and>
    sorted_wrt (\<lambda>a b. a + cc_minimum_interval (as_client st) \<le> b) (w_starts w') \<and>
    3 * second_us \<le> cc_minimum_interval (as_client st)"
proof -
  note m = client_init_interval [OF assms(1)]
  have "run_limits.from_new_run st (world_init, s) (w', s')"
    using assms(3) by (rule disjE) (erule run_limits.collect_R run_limits.backfill_R)+
  from run_limits_from_start [OF this _ assms(2)] m show ?thesis by simp
qed

theorem run_respects_limits_witness:
  "\<exists>r w' s'. demo_collect = (r, w', s') \<and> w_starts w' = [50, 3000090] \<and> length (w_starts w') = w_sent w' \<and>
     int (w_sent w') \<le> 5 \<and> sorted_wrt (\<lambda>a b. a + 3 * second_us \<le> b) (w_starts w')"
proof -
  obtain r w' s' where c: "demo_collect = (r, w', s')" by (metis prod_cases3)
  have i: "client_init (as_client demo_settings) = Inr ()" "0 \<le> as_max_requests_per_run demo_settings" by code_simp+
  have "as_max_requests_per_run demo_settings = 5" "cc_minimum_interval (as_client demo_settings) = 3 * second_us"
    by (simp_all add: demo_settings_def)
  with run_respects_limits [OF i disjI1, OF c [unfolded demo_collect_def]] demo_collect_value [unfolded c prod.case]
  have "w_starts w' = [50, 3000090] \<and> length (w_starts w') = w_sent w' \<and> int (w_sent w') \<le> 5 \<and>
      sorted_wrt (\<lambda>a b. a + 3 * second_us \<le> b) (w_starts w')" by simp
  with c show ?thesis by blast
qed

end
