(* ===== verification/Arxiv_Evidence.thy ===== *)
theory Arxiv_Evidence
  imports Arxiv_Guarantees
begin

text \<open>
  The Raw evidence over whole runs: \<open>collection_relation\<close> interpreted for the store of raw observations, the
  table of raw responses and the observations of papers; and for the constraints of the tables.
\<close>

section \<open>What persistence touches\<close>

lemma persist_article_frame:
  assumes "persist_article x a (c, db) = (c', db')"
  shows "adb_raw db' = adb_raw db \<and> adb_cursors db' = adb_cursors db \<and>
    (\<forall>ob\<in>set (adb_observations db'). ob \<in> set (adb_observations db) \<or> aobs_raw_id ob = araw_id (px_raw x))"
proof -
  from assms show ?thesis
  proof (cases rule: persist_article_elim)
    case (1 paper state db1 added)
    then show ?thesis using upsert_paper_frame [OF 1(1)] upsert_match_frame [OF 1(2)]
      by (auto simp: record_observation_def split: if_splits)
  qed
qed

lemma persist_articles_frame:
  "persist_articles x seen as (c, db) = (c', db') \<Longrightarrow> adb_raw db' = adb_raw db \<and> adb_cursors db' = adb_cursors db \<and>
     (\<forall>ob\<in>set (adb_observations db'). ob \<in> set (adb_observations db) \<or> aobs_raw_id ob = araw_id (px_raw x))"
proof (induction as arbitrary: seen c db)
  case (Cons a as)
  obtain c1 db1 where p: "persist_article x a (c, db) = (c1, db1)" by (cases "persist_article x a (c, db)")
  show ?case
    using Cons.prems Cons.IH [where c = c1 and db = db1] Cons.IH [where db = db] p persist_article_frame [OF p]
    by (fastforce split: if_splits)
qed simp

lemma persist_feed_frame:
  assumes "persist_feed x f db = (c, db')"
  shows "adb_cursors db' = adb_cursors db \<and>
    (\<exists>g. (\<forall>r. araw_id (g r) = araw_id r \<and> araw_raw_path (g r) = araw_raw_path r \<and> araw_checksum (g r) = araw_checksum r) \<and>
       adb_raw db' = map g (adb_raw db)) \<and>
    (\<forall>ob\<in>set (adb_observations db'). ob \<in> set (adb_observations db) \<or> aobs_raw_id ob = araw_id (px_raw x))"
proof -
  define g :: "arxiv_raw_response \<Rightarrow> arxiv_raw_response" where "g = (\<lambda>r. if araw_id r = araw_id (px_raw x)
     then r\<lparr>araw_parsed_entry_count := Some (int (length (fd_articles f))), araw_parse_error := None\<rparr> else r)"
  have "adb_raw db' = map g (adb_raw db)"
    using persist_articles_frame [OF assms [unfolded persist_feed_def]] by (simp add: update_raw_def g_def)
  moreover have "araw_id (g r) = araw_id r \<and> araw_raw_path (g r) = araw_raw_path r \<and> araw_checksum (g r) = araw_checksum r" for r
    by (simp add: g_def)
  ultimately show ?thesis
    using persist_articles_frame [OF assms [unfolded persist_feed_def]] by auto
qed


section \<open>Evidence\<close>

text \<open>
  The row's pointer is the logical key of a directory of the store that can be read, and the payload has
  the row's checksum.
\<close>

definition evidence_of :: "codec \<Rightarrow> raw_files \<Rightarrow> arxiv_raw_response \<Rightarrow> bool" where
  "evidence_of c files r =
     (\<exists>t h rec p. CHR ''/'' \<notin> set h \<and> araw_raw_path r = join ''/'' (record_key ''arxiv'' t h) \<and>
        raw_load files (record_key ''arxiv'' t h) = Inr rec \<and> raw_read c files rec = Inr p \<and>
        cd_sha256 c p = araw_checksum r)"

definition same_evidence :: "arxiv_raw_response \<Rightarrow> arxiv_raw_response \<Rightarrow> bool" where
  "same_evidence r r' = (araw_id r' = araw_id r \<and> araw_raw_path r' = araw_raw_path r \<and> araw_checksum r' = araw_checksum r)"

lemma evidence_of_kept:
  assumes "evidence_of c files r" "files_kept files files'" "same_evidence r r'"
  shows "evidence_of c files' r'"
proof -
  obtain t h rec p where e: "CHR ''/'' \<notin> set h" "araw_raw_path r = join ''/'' (record_key ''arxiv'' t h)"
    "raw_load files (record_key ''arxiv'' t h) = Inr rec" "raw_read c files rec = Inr p" "cd_sha256 c p = araw_checksum r"
    using assms(1) unfolding evidence_of_def by blast
  have "raw_load files' (record_key ''arxiv'' t h) = Inr rec"
    using e(3) assms(2) by (auto simp: raw_load_def files_kept_def split: option.splits)
  moreover have "raw_read c files' rec = Inr p"
    using e(4) assms(2) by (auto simp: raw_read_def files_kept_def split: option.splits)
  ultimately show ?thesis using e assms(3) unfolding evidence_of_def same_evidence_def by metis
qed

definition keeps_evidence :: "codec \<Rightarrow> world \<times> service_state \<Rightarrow> world \<times> service_state \<Rightarrow> bool" where
  "keeps_evidence c z z' =
     (let s = snd z; s' = snd z' in
      files_kept (sv_files s) (sv_files s') \<and>
      (\<forall>r'\<in>set (adb_raw (sv_db s')). evidence_of c (sv_files s') r' \<or> (\<exists>r\<in>set (adb_raw (sv_db s)). same_evidence r r')) \<and>
      (\<forall>r\<in>set (adb_raw (sv_db s)). \<exists>r'\<in>set (adb_raw (sv_db s')). same_evidence r r') \<and>
      (\<forall>ob\<in>set (adb_observations (sv_db s')). ob \<in> set (adb_observations (sv_db s)) \<or>
         (\<exists>r'\<in>set (adb_raw (sv_db s')). araw_id r' = aobs_raw_id ob)))"

lemma same_evidence_refl [simp]: "same_evidence r r"
  by (simp add: same_evidence_def)

lemma same_evidence_trans: "same_evidence a b \<Longrightarrow> same_evidence b c \<Longrightarrow> same_evidence a c"
  by (simp add: same_evidence_def)

lemma keeps_evidence_same:
  assumes "sv_files s' = sv_files s" "adb_raw (sv_db s') = adb_raw (sv_db s)" "adb_observations (sv_db s') = adb_observations (sv_db s)"
  shows "keeps_evidence c (w, s) (w', s')"
  using assms by (auto simp: keeps_evidence_def files_kept_def intro: same_evidence_refl)

lemma keeps_evidence_trans:
  assumes "keeps_evidence c z z'" "keeps_evidence c z' z''"
  shows "keeps_evidence c z z''"
proof -
  note a = assms(1) [unfolded keeps_evidence_def Let_def] and b = assms(2) [unfolded keeps_evidence_def Let_def]
  have fb: "files_kept (sv_files (snd z')) (sv_files (snd z''))" using b by blast
  have "files_kept (sv_files (snd z)) (sv_files (snd z''))" using a fb by (simp add: files_kept_def)
  moreover have "evidence_of c (sv_files (snd z'')) r2 \<or> (\<exists>r\<in>set (adb_raw (sv_db (snd z))). same_evidence r r2)"
    if r2: "r2 \<in> set (adb_raw (sv_db (snd z'')))" for r2
  proof (cases "evidence_of c (sv_files (snd z'')) r2")
    case False
    with b r2 obtain r1 where r1: "r1 \<in> set (adb_raw (sv_db (snd z')))" "same_evidence r1 r2" by blast
    then have "\<not> evidence_of c (sv_files (snd z')) r1" using False evidence_of_kept [OF _ fb r1(2)] by blast
    with a r1(1) obtain r where "r \<in> set (adb_raw (sv_db (snd z)))" "same_evidence r r1" by blast
    with same_evidence_trans [OF _ r1(2)] show ?thesis by blast
  qed simp
  moreover have "\<exists>r2\<in>set (adb_raw (sv_db (snd z''))). same_evidence r r2" if r: "r \<in> set (adb_raw (sv_db (snd z)))" for r
  proof -
    from a r obtain r1 where r1: "r1 \<in> set (adb_raw (sv_db (snd z')))" "same_evidence r r1" by blast
    with b obtain r2 where "r2 \<in> set (adb_raw (sv_db (snd z'')))" "same_evidence r1 r2" by blast
    with same_evidence_trans [OF r1(2)] show ?thesis by blast
  qed
  moreover have "ob \<in> set (adb_observations (sv_db (snd z))) \<or> (\<exists>r2\<in>set (adb_raw (sv_db (snd z''))). araw_id r2 = aobs_raw_id ob)"
    if ob: "ob \<in> set (adb_observations (sv_db (snd z'')))" for ob
  proof (cases "ob \<in> set (adb_observations (sv_db (snd z')))")
    case True
    show ?thesis
    proof (cases "ob \<in> set (adb_observations (sv_db (snd z)))")
      case False
      with a True obtain r1 where r1: "r1 \<in> set (adb_raw (sv_db (snd z')))" "araw_id r1 = aobs_raw_id ob" by blast
      with b obtain r2 where "r2 \<in> set (adb_raw (sv_db (snd z'')))" "same_evidence r1 r2" by blast
      with r1(2) show ?thesis by (auto simp: same_evidence_def)
    qed simp
  qed (use b ob in blast)
  ultimately show ?thesis unfolding keeps_evidence_def Let_def by blast
qed

lemma keeps_evidence_update:
  assumes "\<And>r. same_evidence r (g r)" "adb_raw (sv_db s') = map g (adb_raw (sv_db s))" "sv_files s' = sv_files s"
    "\<forall>ob\<in>set (adb_observations (sv_db s')). ob \<in> set (adb_observations (sv_db s)) \<or>
       (\<exists>r'\<in>set (adb_raw (sv_db s')). araw_id r' = aobs_raw_id ob)"
  shows "keeps_evidence c (w, s) (w', s')"
  using assms by (auto simp: keeps_evidence_def files_kept_def)

section \<open>Preserving a response\<close>

lemma arxiv_source_ok: "source_ok ''arxiv''"
  by code_simp

text \<open>A row that \<open>record_raw_response\<close> adds names the record that the store has returned.\<close>

lemma record_raw_response_rows:
  assumes "record_raw_response root run topic mapping rec rsp md db = (r, db')"
  shows "adb_observations db' = adb_observations db \<and>
    (adb_raw db' = adb_raw db \<or>
     (\<exists>row. adb_raw db' = adb_raw db @ [row] \<and> raw_path_of root rec = Inr (araw_raw_path row) \<and>
        araw_checksum row = md_sha256 (rr_metadata rec)))"
  using assms by (auto simp: record_raw_response_def Let_def split: sum.splits option.splits)

lemma preserve_evidence:
  assumes "preserve st x cx r (s, raw) = (res, (s', raw'))" "codec_ok (xt_codec x)"
  shows "keeps_evidence (xt_codec x) (w, s) (w', s')"
proof -
  let ?c = "xt_codec x"
  obtain wr files where rw: "raw_write ?c (xt_fault x (sv_writes s)) (raw_request r) (sv_files s) = (wr, files)"
    by (metis prod.collapse)
  have kept: "files_kept (sv_files s) files" using raw_write_keeps [OF rw] by (simp add: files_kept_def)
  show ?thesis
  proof (cases wr)
    case (Inl e)
    then have "s' = s\<lparr>sv_files := files, sv_writes := Suc (sv_writes s)\<rparr>" using assms(1) rw by (simp add: preserve_def Let_def)
    then show ?thesis using kept by (auto simp: keeps_evidence_def intro: same_evidence_refl)
  next
    case (Inr rec)
    let ?rr = "record_raw_response (as_raw_root st) (cx_run cx) (topic_id (cx_topic cx)) (mapping_id (cx_mapping cx))
        rec (r\<lparr>rs_headers := safe_headers (rs_headers r)\<rparr>) (request_metadata x cx r) (sv_db s)"
    obtain o2 db where rr: "?rr = (o2, db)" by (cases ?rr)
    have s': "sv_files s' = files" "sv_db s' = db"
      using assms(1) rw Inr rr by (auto simp: preserve_def Let_def split: sum.splits)
    obtain t p where k: "rr_directory rec = record_key ''arxiv'' t (cd_sha256 ?c (rs_body r))"
      "raw_load files (rr_directory rec) = Inr rec" "raw_read ?c files rec = Inr p" "cd_sha256 ?c p = md_sha256 (rr_metadata rec)"
      using raw_write_record [OF rw [unfolded Inr]] by (auto simp: raw_request_def)
    have h: "CHR ''/'' \<notin> set (cd_sha256 ?c (rs_body r))" using assms(2) by (simp add: codec_ok_def)
    have new: "evidence_of ?c files row"
      if "raw_path_of (as_raw_root st) rec = Inr (araw_raw_path row)" "araw_checksum row = md_sha256 (rr_metadata rec)" for row
      using raw_path_of_key [OF that(1) k(1) h arxiv_source_ok] that(2) h k unfolding evidence_of_def by metis
    consider "adb_raw db = adb_raw (sv_db s)"
      | row where "adb_raw db = adb_raw (sv_db s) @ [row]" "evidence_of ?c files row"
      using record_raw_response_rows [OF rr] new by blast
    moreover have "adb_observations db = adb_observations (sv_db s)" using record_raw_response_rows [OF rr] by blast
    moreover have "\<exists>b\<in>set xs. same_evidence a b" "\<exists>b\<in>set xs. same_evidence b a" if "a \<in> set xs" for a xs
      using that same_evidence_refl by blast+
    ultimately show ?thesis using kept s' by cases (auto simp: keeps_evidence_def)
  qed
qed

lemma count_attempt_state:
  "count_attempt st x cx n a w (s, raw) = (r, w1, (s1, raw1)) \<Longrightarrow> sv_files s1 = sv_files s \<and> sv_db s1 = sv_db s"
  using count_attempt_cases by fastforce

lemma attempt_evidence:
  assumes "attempt_once e c rq (preserve st x cx) (count_attempt st x cx n) a final w (s, raw) = (out, w', (s', raw'))"
    "codec_ok (xt_codec x)"
  shows "keeps_evidence (xt_codec x) (w, s) (w', s')"
  using assms(1)
proof (cases rule: attempt_once_cases)
  case (refused err)
  then show ?thesis using count_attempt_state [OF refused(1)] by (intro keeps_evidence_same) auto
next
  case (unanswered u w1)
  then show ?thesis using count_attempt_state [OF unanswered(1)] by (intro keeps_evidence_same) auto
next
  case (answered u w1 ps1 rsp r2)
  obtain s1 raw1 where ps1: "ps1 = (s1, raw1)" by (cases ps1)
  have "keeps_evidence (xt_codec x) (w, s) (w1, s1)"
    using count_attempt_state [OF answered(1) [unfolded ps1]] by (intro keeps_evidence_same) auto
  from keeps_evidence_trans [OF this preserve_evidence [OF answered(6) [unfolded ps1] assms(2)]] show ?thesis .
qed

lemma persist_page_evidence:
  assumes "raw_row i (sv_db s) = Some raw"
  shows "keeps_evidence c (w, s) (w, persist_page x cx raw f s)"
proof -
  let ?x = "\<lparr>px_topic = topic_id (cx_topic cx), px_mapping = mapping_id (cx_mapping cx),
             px_query = cx_base_query cx, px_run = cx_run cx, px_raw = raw, px_nfkc = xt_nfkc x\<rparr>"
  obtain n db where p: "persist_feed ?x f (sv_db s) = (n, db)" by (cases "persist_feed ?x f (sv_db s)")
  from persist_feed_frame [OF p] obtain g where g: "\<And>r. same_evidence r (g r)" "adb_raw db = map g (adb_raw (sv_db s))"
    "\<forall>ob\<in>set (adb_observations db). ob \<in> set (adb_observations (sv_db s)) \<or> aobs_raw_id ob = araw_id raw"
    by (auto simp: same_evidence_def)
  have "raw \<in> set (adb_raw (sv_db s))" using assms by (auto simp: raw_row_def dest: find_key_SomeD)
  with g have obs: "\<forall>ob\<in>set (adb_observations db). ob \<in> set (adb_observations (sv_db s)) \<or>
      (\<exists>r'\<in>set (adb_raw db). araw_id r' = aobs_raw_id ob)" by (fastforce simp: same_evidence_def)
  show ?thesis
    by (rule keeps_evidence_update [OF g(1)]) (use g(2) obs p in \<open>simp_all add: persist_page_def\<close>)
qed

text \<open>The contract holds for every codec that does what the code relies on.\<close>

definition evidence_relation :: "externals \<Rightarrow> world \<times> service_state \<Rightarrow> world \<times> service_state \<Rightarrow> bool" where
  "evidence_relation x z z' = (codec_ok (xt_codec x) \<longrightarrow> keeps_evidence (xt_codec x) z z')"

interpretation run_evidence: collection_relation st x "evidence_relation x" for st x
proof unfold_locales
  show "evidence_relation x z z" for z by (cases z) (simp add: evidence_relation_def keeps_evidence_same)
  show "evidence_relation x z z''" if "evidence_relation x z z'" "evidence_relation x z' z''" for z z' z''
    using that keeps_evidence_trans unfolding evidence_relation_def by blast
  show "evidence_relation x (w, s) (w, s\<lparr>sv_db := update_raw i (\<lambda>r. r\<lparr>araw_parse_error := m r, araw_parsed_entry_count := k\<rparr>) (sv_db s)\<rparr>)"
    for w s i m k
    unfolding evidence_relation_def
    by (intro impI keeps_evidence_update
        [where g = "\<lambda>r. if araw_id r = i then r\<lparr>araw_parse_error := m r, araw_parsed_entry_count := k\<rparr> else r"])
      (auto simp: update_raw_def same_evidence_def)
  show "evidence_relation x (w, s) (w, persist_page x cx raw f s)"
    if "xt_parse x body = Inr f" "raw_row i (sv_db s) = Some raw" for body f i s raw w cx
    using persist_page_evidence [OF that(2)] by (simp add: evidence_relation_def)
  show "evidence_relation x (w, s) (w', s')" if "attempt_once (xt_env x) (as_client st) rq (preserve st x cx)
      (count_attempt st x cx n) at final w (s, raw0) = (out, w', (s', raw1))" for rq cx n at final w s raw0 out w' s' raw1
    using attempt_evidence [OF that] by (simp add: evidence_relation_def)
qed (auto simp: evidence_relation_def intro: keeps_evidence_same)

section \<open>Constraints\<close>

definition tables_ok :: "arxiv_db \<Rightarrow> bool" where
  "tables_ok db = (arxiv_db_ok db \<and> arxiv_raw_unique (adb_raw db) \<and> distinct (map araw_id (adb_raw db)))"

definition keeps_tables :: "world \<times> service_state \<Rightarrow> world \<times> service_state \<Rightarrow> bool" where
  "keeps_tables z z' = (tables_ok (sv_db (snd z)) \<longrightarrow> tables_ok (sv_db (snd z')))"

lemma arxiv_db_ok_frame:
  "adb_papers db' = adb_papers db \<Longrightarrow> adb_authors db' = adb_authors db \<Longrightarrow> adb_paper_authors db' = adb_paper_authors db \<Longrightarrow>
   adb_categories db' = adb_categories db \<Longrightarrow> adb_paper_categories db' = adb_paper_categories db \<Longrightarrow>
   adb_observations db' = adb_observations db \<Longrightarrow> adb_matches db' = adb_matches db \<Longrightarrow> arxiv_db_ok db' = arxiv_db_ok db"
  using ok_congs [of db' db] by (simp add: arxiv_db_ok_def)

lemma raw_tables_map:
  assumes "\<And>r. same_evidence r (g r)"
  shows "arxiv_raw_unique (map g rs) = arxiv_raw_unique rs"
    "distinct (map araw_id (map g rs)) = distinct (map araw_id rs)"
  using assms by (simp_all add: arxiv_raw_unique_def same_evidence_def comp_def)

lemma update_raw_tables:
  assumes "\<And>r. same_evidence r (f r)"
  shows "tables_ok (update_raw i f db) = tables_ok db"
proof -
  have g: "same_evidence r (if araw_id r = i then f r else r)" for r using assms by simp
  show ?thesis using raw_tables_map [OF g] by (simp add: tables_ok_def update_raw_ok) (simp add: update_raw_def)
qed

lemma record_raw_response_tables:
  assumes "record_raw_response root run topic mapping rec rsp md db = (r, db')" "tables_ok db"
  shows "tables_ok db'"
  using assms arxiv_db_ok_frame [of db' db] fresh_id_notin [of "map araw_id (adb_raw db)"]
  by (auto simp del: fresh_id_notin simp: record_raw_response_def tables_ok_def arxiv_raw_unique_def find_key_None Let_def
      split: sum.splits option.splits)

lemma preserve_tables:
  "preserve st x cx r (s, raw) = (res, (s', raw')) \<Longrightarrow> tables_ok (sv_db s) \<Longrightarrow> tables_ok (sv_db s')"
  by (auto simp: preserve_def Let_def split: prod.splits sum.splits dest: record_raw_response_tables)

lemma xt_parse_valid: "xt_parse x body = Inr f \<Longrightarrow> list_all article_valid (fd_articles f)"
  using parse_root_valid by (auto simp: xt_parse_def parse_payload_def split: if_splits sum.splits)

lemma persist_page_tables:
  assumes "xt_parse x body = Inr f" "tables_ok (sv_db s)"
  shows "tables_ok (sv_db (persist_page x cx raw f s))"
proof -
  let ?x = "\<lparr>px_topic = topic_id (cx_topic cx), px_mapping = mapping_id (cx_mapping cx),
             px_query = cx_base_query cx, px_run = cx_run cx, px_raw = raw, px_nfkc = xt_nfkc x\<rparr>"
  obtain n db where p: "persist_feed ?x f (sv_db s) = (n, db)" by (cases "persist_feed ?x f (sv_db s)")
  have d: "feed_categories_distinct f"
    using xt_parse_valid [OF assms(1)] by (auto simp: feed_categories_distinct_def article_valid_def list_all_iff)
  have ok: "arxiv_db_ok db" using persist_feed_result [OF _ d p] assms(2) by (simp add: tables_ok_def)
  obtain g where "\<And>r. same_evidence r (g r)" "adb_raw db = map g (adb_raw (sv_db s))"
    using persist_feed_frame [OF p] by (auto simp: same_evidence_def)
  with raw_tables_map [of g] ok assms(2) p show ?thesis by (simp add: persist_page_def tables_ok_def)
qed

lemma attempt_tables:
  assumes "attempt_once e c rq (preserve st x cx) (count_attempt st x cx n) a final w (s, raw) = (out, w', (s', raw'))"
    "tables_ok (sv_db s)"
  shows "tables_ok (sv_db s')"
  using assms(1)
proof (cases rule: attempt_once_cases)
  case (answered u w1 ps1 rsp r2)
  obtain s1 raw1 where ps1: "ps1 = (s1, raw1)" by (cases ps1)
  show ?thesis using preserve_tables answered(6) count_attempt_state [OF answered(1) [unfolded ps1]] assms(2)
    unfolding ps1 by metis
qed (use assms(2) count_attempt_state in metis)+

interpretation run_tables: collection_relation st x keeps_tables for st x
proof unfold_locales
  show "keeps_tables (w, s) (w, s\<lparr>sv_db := (sv_db s)\<lparr>adb_cursors := cs\<rparr>\<rparr>)" for w s cs
    using arxiv_db_ok_frame [of "(sv_db s)\<lparr>adb_cursors := cs\<rparr>" "sv_db s"] by (simp add: keeps_tables_def tables_ok_def)
  show "keeps_tables (w, s) (w, s\<lparr>sv_db := update_raw i (\<lambda>r. r\<lparr>araw_parse_error := m r, araw_parsed_entry_count := k\<rparr>) (sv_db s)\<rparr>)"
    for w s i m k
    using update_raw_tables [of "\<lambda>r. r\<lparr>araw_parse_error := m r, araw_parsed_entry_count := k\<rparr>"]
    by (simp add: keeps_tables_def same_evidence_def)
  show "keeps_tables (w, s) (w, persist_page x cx raw f s)"
    if "xt_parse x body = Inr f" "raw_row i (sv_db s) = Some raw" for body f i s raw w cx
    using persist_page_tables [OF that(1)] by (simp add: keeps_tables_def)
  show "keeps_tables (w, s) (w', s')" if "attempt_once (xt_env x) (as_client st) rq (preserve st x cx)
      (count_attempt st x cx n) at final w (s, raw0) = (out, w', (s', raw1))" for rq cx n at final w s raw0 out w' s' raw1
    using attempt_tables [OF that] by (simp add: keeps_tables_def)
qed (auto simp: keeps_tables_def)

section \<open>Properties\<close>

definition raw_evidence_ok :: "codec \<Rightarrow> service_state \<Rightarrow> bool" where
  "raw_evidence_ok c s =
     (list_all (evidence_of c (sv_files s)) (adb_raw (sv_db s)) \<and>
      list_all (\<lambda>ob. list_ex (\<lambda>r. araw_id r = aobs_raw_id ob) (adb_raw (sv_db s))) (adb_observations (sv_db s)))"

lemma evidence_resolves:
  assumes "evidence_of c files r"
  shows "\<exists>key. resolve_key root (araw_raw_path r) ''arxiv'' = Inr (resolve_parts root @ key) \<and> dict_get files key \<noteq> None"
proof -
  obtain t h rec where e: "CHR ''/'' \<notin> set h" "araw_raw_path r = join ''/'' (record_key ''arxiv'' t h)"
    "raw_load files (record_key ''arxiv'' t h) = Inr rec" using assms by (auto simp: evidence_of_def)
  have "source_ok ''arxiv''" by code_simp
  from resolve_key_record [OF this e(1)] e show ?thesis by (auto simp: raw_load_def split: option.splits)
qed

lemma keeps_evidence_ok:
  assumes "keeps_evidence c (w, s) (w', s')" "raw_evidence_ok c s"
  shows "raw_evidence_ok c s'"
proof -
  note k = assms(1) [unfolded keeps_evidence_def Let_def fst_conv snd_conv]
  have "evidence_of c (sv_files s') r'" if "r' \<in> set (adb_raw (sv_db s'))" for r'
    using that k assms(2) evidence_of_kept unfolding raw_evidence_ok_def list_all_iff by blast
  moreover have "\<exists>r'\<in>set (adb_raw (sv_db s')). araw_id r' = aobs_raw_id ob" if ob: "ob \<in> set (adb_observations (sv_db s'))" for ob
  proof (cases "ob \<in> set (adb_observations (sv_db s))")
    case True
    then obtain r where r: "r \<in> set (adb_raw (sv_db s))" "araw_id r = aobs_raw_id ob"
      using assms(2) by (auto simp: raw_evidence_ok_def list_all_iff list_ex_iff)
    with k obtain r' where "r' \<in> set (adb_raw (sv_db s'))" "same_evidence r r'" by blast
    with r(2) show ?thesis by (auto simp: same_evidence_def)
  qed (use ob k in blast)
  ultimately show ?thesis by (simp add: raw_evidence_ok_def list_all_iff list_ex_iff)
qed

lemma run_evidence_from_start:
  assumes "run_evidence.from_new_run x (w, s) (w', s')" "codec_ok (xt_codec x)"
  shows "\<exists>a. keeps_evidence (xt_codec x) (w, s\<lparr>sv_acc := a\<rparr>) (w', s')"
  using assms(1) unfolding run_evidence.from_new_run_def
proof
  assume "snd (w', s') = snd (w, s) \<and> quiet (fst (w, s)) (fst (w', s'))"
  then have "s' = s\<lparr>sv_acc := sv_acc s\<rparr>" by simp
  then show ?thesis using keeps_evidence_same by metis
qed (use assms(2) in \<open>auto simp: evidence_relation_def\<close>)

text \<open>
  C16: Raw first, over whole runs.  If every recorded response has readable evidence and every observation
  refers to a recorded response, then after any incremental run or backfill, whatever the API, the file
  system and the parser did and however the run ended, the same holds again; every directory of the store
  is unchanged, every earlier response is still recorded with its pointer and checksum, and the pointer
  of every response resolves below any root to a directory that the store has.
\<close>

theorem run_keeps_evidence:
  assumes "codec_ok (xt_codec x)" "raw_evidence_ok (xt_codec x) s"
    and "collect st x rg slugs page_size max_pages trigger w s = (r, w', s') \<or>
      backfill st x rg slugs a b dry_run max_pages page_size w s = (r, w', s')"
  shows "raw_evidence_ok (xt_codec x) s' \<and>
    (\<forall>k d. dict_get (sv_files s) k = Some d \<longrightarrow> dict_get (sv_files s') k = Some d) \<and>
    list_all (\<lambda>r. list_ex (same_evidence r) (adb_raw (sv_db s'))) (adb_raw (sv_db s)) \<and>
    list_all (\<lambda>r. \<forall>root. \<exists>key. resolve_key root (araw_raw_path r) ''arxiv'' = Inr (resolve_parts root @ key) \<and>
       dict_get (sv_files s') key \<noteq> None) (adb_raw (sv_db s'))"
proof -
  have "run_evidence.from_new_run x (w, s) (w', s')"
    using assms(3) by (rule disjE) (erule run_evidence.collect_R run_evidence.backfill_R)+
  from run_evidence_from_start [OF this assms(1)] obtain a where
    k: "keeps_evidence (xt_codec x) (w, s\<lparr>sv_acc := a\<rparr>) (w', s')" ..
  have ok: "raw_evidence_ok (xt_codec x) s'" using keeps_evidence_ok [OF k] assms(2) by (simp add: raw_evidence_ok_def)
  then have "list_all (\<lambda>r. \<forall>root. \<exists>key. resolve_key root (araw_raw_path r) ''arxiv'' = Inr (resolve_parts root @ key) \<and>
       dict_get (sv_files s') key \<noteq> None) (adb_raw (sv_db s'))"
    using evidence_resolves by (auto simp: raw_evidence_ok_def list_all_iff)
  with ok k show ?thesis by (auto simp: keeps_evidence_def files_kept_def list_all_iff list_ex_iff)
qed

theorem run_keeps_evidence_witness:
  "\<exists>r w' s'. demo_collect = (r, w', s') \<and> map araw_http_status (adb_raw (sv_db s')) = [503, 200] \<and>
     raw_evidence_ok demo_codec s'"
proof -
  obtain r w' s' where c: "demo_collect = (r, w', s')" by (metis prod_cases3)
  have x: "xt_codec demo_externals = demo_codec" by (simp add: demo_externals_def)
  have s: "raw_evidence_ok demo_codec demo_state" by (simp add: raw_evidence_ok_def demo_state_def)
  have "raw_evidence_ok demo_codec s'"
    using run_keeps_evidence [of demo_externals, unfolded x, OF demo_codec_ok s disjI1, OF c [unfolded demo_collect_def]] by blast
  moreover have "map araw_http_status (adb_raw (sv_db s')) = [503, 200]" using demo_collect_value [unfolded c prod.case] by simp
  ultimately show ?thesis using c by (intro exI conjI)
qed

text \<open>
  no run can violate a constraint of the arXiv tables: if the rows respect the unique constraints
  (papers, authors and their positions, categories and the primary flag, observations, matches, raw
  pointers) and the keys are distinct, so do the rows after any incremental run or backfill, however it
  ended.
\<close>

theorem run_keeps_constraints:
  assumes "tables_ok (sv_db s)"
    and "collect st x rg slugs page_size max_pages trigger w s = (r, w', s') \<or>
      backfill st x rg slugs a b dry_run max_pages page_size w s = (r, w', s')"
  shows "tables_ok (sv_db s')"
proof -
  have "run_tables.from_new_run (w, s) (w', s')"
    using assms(2) by (rule disjE) (erule run_tables.collect_R run_tables.backfill_R)+
  with assms(1) show ?thesis by (auto simp: run_tables.from_new_run_def keeps_tables_def)
qed

theorem run_keeps_constraints_witness:
  "\<exists>r w' s'. demo_collect = (r, w', s') \<and> length (adb_raw (sv_db s')) = 2 \<and> tables_ok (sv_db s')"
proof -
  obtain r w' s' where c: "demo_collect = (r, w', s')" by (metis prod_cases3)
  have s: "tables_ok (sv_db demo_state)" by code_simp
  have "length (map araw_http_status (adb_raw (sv_db s'))) = 2" using demo_collect_value [unfolded c prod.case] by simp
  then have "length (adb_raw (sv_db s')) = 2" by simp
  with run_keeps_constraints [OF s disjI1, OF c [unfolded demo_collect_def]] c show ?thesis by (intro exI conjI)
qed

end
