(* ===== verification/Arxiv_Progress.thy ===== *)
theory Arxiv_Progress
  imports Arxiv_Evidence
begin

text \<open>
  The cursors as the record of progress: what an operation may change in the table of cursors, what a
  succeeded window means, and the soundness of the partition checkpoint of an incremental collection.
\<close>


section \<open>The table of cursors\<close>

abbreviation cursors :: "service_state \<Rightarrow> arxiv_cursor list" where
  "cursors s \<equiv> adb_cursors (sv_db s)"

text \<open>Only the row of cursor \<open>i\<close> may differ.\<close>

definition only_cursor :: "nat \<Rightarrow> service_state \<Rightarrow> service_state \<Rightarrow> bool" where
  "only_cursor i s s' =
     (map cur_id (cursors s') = map cur_id (cursors s) \<and>
      (\<forall>c. cur_id c \<noteq> i \<longrightarrow> (c \<in> set (cursors s') \<longleftrightarrow> c \<in> set (cursors s))))"

text \<open>The table holds the row as the operation passes it along; its \<open>updated_at\<close> is the table's own.\<close>

definition stored :: "arxiv_cursor \<Rightarrow> service_state \<Rightarrow> bool" where
  "stored c s = (\<exists>t. c\<lparr>cur_updated_at := t\<rparr> \<in> set (cursors s))"

definition same_cursor :: "arxiv_cursor \<Rightarrow> arxiv_cursor \<Rightarrow> bool" where
  "same_cursor c c' = (cur_id c' = cur_id c \<and> cur_key c' = cur_key c \<and> cur_mapping_id c' = cur_mapping_id c)"

lemma only_cursor_refl [simp]: "only_cursor i s s"
  by (simp add: only_cursor_def)

lemma only_cursor_trans: "only_cursor i s s' \<Longrightarrow> only_cursor i s' s'' \<Longrightarrow> only_cursor i s s''"
  by (simp add: only_cursor_def)

lemma only_cursor_same: "cursors s' = cursors s \<Longrightarrow> only_cursor i s s'"
  by (simp add: only_cursor_def)

lemma only_cursor_ids: "only_cursor i s s' \<Longrightarrow> cur_id ` set (cursors s') = cur_id ` set (cursors s)"
  unfolding only_cursor_def using arg_cong [where f = set] by (metis set_map)

lemma save_cursor_only:
  assumes "save_cursor e c w s = (w', s')"
  shows "only_cursor (cur_id c) s s'"
  using assms by (auto simp: save_cursor_def only_cursor_def Let_def comp_def split: option.splits if_splits prod.splits)

lemma save_cursor_stored:
  assumes "save_cursor e c w s = (w', s')" "cur_id c \<in> cur_id ` set (cursors s)"
  shows "stored c s'"
proof -
  obtain old where old: "find (\<lambda>x. cur_id x = cur_id c) (cursors s) = Some old"
    using assms(2) by (cases "find (\<lambda>x. cur_id x = cur_id c) (cursors s)") (auto simp: find_None_iff)
  then have mem: "old \<in> set (cursors s)" "cur_id old = cur_id c" by (auto dest: find_key_SomeD)
  show ?thesis
  proof (cases "c\<lparr>cur_updated_at := cur_updated_at old\<rparr> = old")
    case True
    then have "s' = s" using assms(1) old by (simp add: save_cursor_def)
    with mem(1) True show ?thesis unfolding stored_def by metis
  next
    case False
    then have "\<exists>t. cursors s' = map (\<lambda>x. if cur_id x = cur_id c then c\<lparr>cur_updated_at := t\<rparr> else x) (cursors s)"
      using assms(1) old by (auto simp: save_cursor_def split: prod.splits)
    then obtain t where "cursors s' = map (\<lambda>x. if cur_id x = cur_id c then c\<lparr>cur_updated_at := t\<rparr> else x) (cursors s)" ..
    then have "c\<lparr>cur_updated_at := t\<rparr> \<in> set (cursors s')" using mem by (force simp: image_iff)
    then show ?thesis unfolding stored_def by blast
  qed
qed

lemma stored_id: "stored c s \<Longrightarrow> cur_id c \<in> cur_id ` set (cursors s)"
proof -
  assume "stored c s"
  then obtain t where "c\<lparr>cur_updated_at := t\<rparr> \<in> set (cursors s)" by (auto simp: stored_def)
  then have "cur_id (c\<lparr>cur_updated_at := t\<rparr>) \<in> cur_id ` set (cursors s)" by (rule imageI)
  then show ?thesis by simp
qed

lemma stored_same: "cursors s' = cursors s \<Longrightarrow> stored c s' = stored c s"
  by (simp add: stored_def)

lemma stored_current:
  assumes "stored c s" "distinct (map cur_id (cursors s))"
  shows "\<exists>t. current_cursor c s = c\<lparr>cur_updated_at := t\<rparr>"
proof -
  obtain t where t: "c\<lparr>cur_updated_at := t\<rparr> \<in> set (cursors s)" using assms(1) by (auto simp: stored_def)
  then have "find (\<lambda>x. cur_id x = cur_id c) (cursors s) = Some (c\<lparr>cur_updated_at := t\<rparr>)"
    using find_unique [OF assms(2) t] by simp
  then show ?thesis by (auto simp: current_cursor_def)
qed


section \<open>Operations on one cursor\<close>

text \<open>The client's callbacks do not touch the cursors: the contract of \<open>client_callbacks\<close> once more.\<close>

definition keeps_cursors :: "world \<times> page_state \<Rightarrow> world \<times> page_state \<Rightarrow> bool" where
  "keeps_cursors z z' = (cursors (fst (snd z')) = cursors (fst (snd z)))"

lemma preserve_cursors: "preserve st x cx r (s, raw) = (res, (s', raw')) \<Longrightarrow> cursors s' = cursors s"
  by (auto simp: preserve_def record_raw_response_def Let_def split: prod.splits sum.splits option.splits)

interpretation call_cursors: client_callbacks e c rq "preserve st x cx" "count_attempt st x cx n" keeps_cursors
  for e c rq st x cx n
proof unfold_locales
  show "keeps_cursors (w, ps) (w', ps')"
    if "attempt_once e c rq (preserve st x cx) (count_attempt st x cx n) a final w ps = (out, w', ps')" for a final w ps out w' ps'
    using that
  proof (cases rule: attempt_once_cases)
    case (answered u w1 ps1 rsp r2)
    then show ?thesis using count_attempt_state preserve_cursors
      by (cases ps; cases ps1; cases ps') (fastforce simp: keeps_cursors_def)
  next
    case (refused err)
    then show ?thesis using count_attempt_state by (cases ps; cases ps') (fastforce simp: keeps_cursors_def)
  next
    case (unanswered u w1)
    then show ?thesis using count_attempt_state by (cases ps; cases ps') (fastforce simp: keeps_cursors_def)
  qed
qed (auto simp: keeps_cursors_def)

lemma fetch_keeps_cursors: "fetch_page st x cx rq w s = (r, w', (s', raw)) \<Longrightarrow> cursors s' = cursors s"
  unfolding fetch_page_def by (drule call_cursors.client_get_R) (simp add: keeps_cursors_def)

lemma persist_page_cursors [simp]: "cursors (persist_page x cx raw f s) = cursors s"
proof -
  let ?x = "\<lparr>px_topic = topic_id (cx_topic cx), px_mapping = mapping_id (cx_mapping cx),
             px_query = cx_base_query cx, px_run = cx_run cx, px_raw = raw, px_nfkc = xt_nfkc x\<rparr>"
  obtain n db where p: "persist_feed ?x f (sv_db s) = (n, db)" by (cases "persist_feed ?x f (sv_db s)")
  then show ?thesis using persist_feed_frame [OF p] by (simp add: persist_page_def)
qed

lemma update_raw_cursors [simp]: "adb_cursors (update_raw i f db) = adb_cursors db"
  by (simp add: update_raw_def)

lemma append_checkpoint_cursors [simp]: "cursors (append_checkpoint c s) = cursors s" "cursors (plan_query i s) = cursors s"
  by (simp_all add: append_checkpoint_def plan_query_def)

text \<open>The cursor \<open>c\<close> has become \<open>c'\<close>, which the table holds; its partition checkpoint is the same.\<close>

definition advanced :: "arxiv_cursor \<Rightarrow> arxiv_cursor \<Rightarrow> service_state \<Rightarrow> bool" where
  "advanced c c' s =
     (same_cursor c c' \<and> stored c' s \<and>
      dict_get (cur_checkpoint c') ''partition'' = dict_get (cur_checkpoint c) ''partition'')"

lemma advanced_refl: "stored c s \<Longrightarrow> advanced c c s"
  by (simp add: advanced_def same_cursor_def)

lemma advanced_trans: "advanced c c' s \<Longrightarrow> advanced c' c'' s' \<Longrightarrow> advanced c c'' s'"
  by (auto simp: advanced_def same_cursor_def)

lemma advanced_stored: "advanced c c' s \<Longrightarrow> stored c' s \<and> cur_id c' = cur_id c"
  by (simp add: advanced_def same_cursor_def)

lemma advanced_same: "advanced c c' s \<Longrightarrow> cursors s' = cursors s \<Longrightarrow> advanced c c' s'"
  by (simp add: advanced_def stored_def)

lemma save_advances:
  assumes "save_cursor e c' w s = (w', s')" "stored c s" "same_cursor c c'"
    "dict_get (cur_checkpoint c') ''partition'' = dict_get (cur_checkpoint c) ''partition''"
  shows "only_cursor (cur_id c) s s' \<and> advanced c c' s'"
  using save_cursor_only [OF assms(1)] save_cursor_stored [OF assms(1)] stored_id [OF assms(2)] assms(3,4)
  by (simp add: advanced_def same_cursor_def)

definition succeeded_for :: "collect_context \<Rightarrow> arxiv_cursor \<Rightarrow> bool" where
  "succeeded_for cx c =
     (cur_status c = CursorSucceeded \<and> cur_last_query_from c = Some (window_from (cx_window cx)) \<and>
      cur_last_query_until c = Some (window_until (cx_window cx)))"

text \<open>What a page leaves: the row of its cursor, and what its outcome says about it.\<close>

definition page_leaves :: "arxiv_settings \<Rightarrow> collect_context \<Rightarrow> arxiv_cursor \<Rightarrow> page_outcome \<Rightarrow> service_state \<Rightarrow> service_state \<Rightarrow> bool" where
  "page_leaves st cx c out s s' =
     (only_cursor (cur_id c) s s' \<and>
      (case out of
         PageNext c' \<Rightarrow> advanced c c' s'
       | PageRaised _ \<Rightarrow> \<exists>c'. advanced c c' s'
       | PageDone q \<Rightarrow>
           (\<exists>c'. advanced c c' s' \<and> (wo_status q = CursorSucceeded \<longrightarrow> succeeded_for cx c')) \<and>
           (wo_status q = CursorSucceeded \<longrightarrow> wo_split q = None) \<and>
           (case wo_split q of None \<Rightarrow> True | Some p \<Rightarrow> split_window (as_min_partition_minutes st) (cx_window cx) = Some p)))"

lemma pause_leaves:
  assumes "pause_cursor e c reason w s = (q, w', s')" "stored c s"
  shows "page_leaves st cx c (PageDone q) s s'"
proof -
  let ?c = "c\<lparr>cur_status := CursorPartial, cur_last_error := Some reason,
            cur_checkpoint := dict_merge (cur_checkpoint c) [(''reason'', JStr reason), (''next_start'', JInt (cur_next_start c))]\<rparr>"
  obtain w1 s1 where v: "save_cursor e ?c w (update_acc (\<lambda>a. a\<lparr>acc_stopped := True\<rparr>) s) = (w1, s1)" by (metis prod.collapse)
  have s: "stored c (update_acc (\<lambda>a. a\<lparr>acc_stopped := True\<rparr>) s)" using assms(2) by (simp add: stored_def)
  have "only_cursor (cur_id c) (update_acc (\<lambda>a. a\<lparr>acc_stopped := True\<rparr>) s) s1 \<and> advanced c ?c s1"
    by (rule save_advances [OF v s]) (simp_all add: same_cursor_def update_conv)
  then have "only_cursor (cur_id c) s s1" "advanced c ?c s1" by (simp_all add: only_cursor_def)
  moreover have "q = \<lparr>wo_status = CursorPartial, wo_split = None\<rparr>" "s' = append_checkpoint ?c s1"
    using assms(1) v by (simp_all add: pause_cursor_def Let_def)
  ultimately show ?thesis using advanced_same [of c ?c s1 "append_checkpoint ?c s1"]
    by (auto simp: page_leaves_def only_cursor_def)
qed

lemma fail_leaves:
  assumes "fail_page x i err c w s = (out, w', s')" "stored c s"
  shows "page_leaves st cx c out s s'"
proof -
  let ?c = "c\<lparr>cur_status := CursorFailed, cur_last_error := Some (error_text err)\<rparr>"
  let ?s = "s\<lparr>sv_db := record_parse_error i (error_name err @ '': '' @ error_text err) (sv_db s)\<rparr>"
  obtain w1 s1 where v: "save_cursor (xt_env x) ?c w ?s = (w1, s1)" by (metis prod.collapse)
  have "only_cursor (cur_id c) ?s s1 \<and> advanced c ?c s1"
    by (rule save_advances [OF v]) (use assms(2) in \<open>simp_all add: same_cursor_def stored_def record_parse_error_def\<close>)
  then show ?thesis using assms(1) v by (auto simp: fail_page_def Let_def page_leaves_def only_cursor_def record_parse_error_def)
qed

lemma split_leaves:
  assumes "split_page st x cx i f c w s = (out, w', s')" "stored c s"
  shows "page_leaves st cx c out s s'"
proof -
  let ?s = "s\<lparr>sv_db := update_raw i (\<lambda>r. r\<lparr>araw_parsed_entry_count := Some (int (length (fd_articles f)))\<rparr>) (sv_db s)\<rparr>"
  have st: "stored c ?s" using assms(2) by (simp add: stored_def)
  show ?thesis
  proof (cases "split_window (as_min_partition_minutes st) (cx_window cx)")
    case None
    obtain q w1 s1 where p: "pause_cursor (xt_env x) c ''large_query_minimum_partition'' w ?s = (q, w1, s1)" by (metis prod_cases3)
    then show ?thesis using assms(1) None pause_leaves [OF p st]
      by (simp add: split_page_def Let_def page_leaves_def only_cursor_def)
  next
    case (Some parts)
    let ?c = "c\<lparr>cur_status := CursorPartial, cur_last_error := Some ''large query partitioned into smaller date windows'',
                 cur_checkpoint := dict_merge (cur_checkpoint c) [(''reason'', JStr ''large_query_partition'')]\<rparr>"
    obtain w1 s1 where v: "save_cursor (xt_env x) ?c w ?s = (w1, s1)" by (metis prod.collapse)
    have "only_cursor (cur_id c) ?s s1 \<and> advanced c ?c s1"
      by (rule save_advances [OF v st]) (simp_all add: same_cursor_def update_conv)
    then show ?thesis using assms(1) Some v advanced_same [of c ?c s1 "append_checkpoint ?c s1"]
      by (auto simp: split_page_def Let_def page_leaves_def only_cursor_def)
  qed
qed

lemma advance_leaves:
  assumes "advance_cursor x cx rq f c w s = (out, w', s')" "stored c s"
  shows "page_leaves st cx c out s s'"
proof -
  define adv where "adv = max (int (length (fd_articles f))) (fd_items_per_page f)"
  note run = assms(1) [unfolded advance_cursor_def Let_def, folded adv_def]
  show ?thesis
  proof (cases "adv = 0 \<and> rq_start rq < fd_total_results f")
    case True
    obtain q w1 s1 where p: "pause_cursor (xt_env x) c ''empty_page_before_total'' w s = (q, w1, s1)" by (metis prod_cases3)
    then show ?thesis using run True pause_leaves [OF p assms(2)] by auto
  next
    case False
    define nx where "nx = (if adv = 0 then fd_total_results f else fd_start_index f + adv)"
    define c1 where "c1 = c\<lparr>cur_next_start := nx, cur_checkpoint := dict_merge (cur_checkpoint c) [(''next_start'', JInt nx)]\<rparr>"
    note run1 = run [unfolded if_not_P [OF False], folded nx_def, folded c1_def]
    have c1: "same_cursor c c1" "dict_get (cur_checkpoint c1) ''partition'' = dict_get (cur_checkpoint c) ''partition''"
      by (simp_all add: c1_def same_cursor_def update_conv)
    show ?thesis
    proof (cases "fd_total_results f \<le> nx")
      case fin: True
      obtain now w1 where n: "read_wall (xt_env x) w = (now, w1)" by (cases "read_wall (xt_env x) w")
      define c2 where "c2 = c1\<lparr>cur_status := CursorSucceeded, cur_last_successful_run_at := Some now,
                       cur_last_query_from := Some (window_from (cx_window cx)),
                       cur_last_query_until := Some (window_until (cx_window cx)),
                       cur_last_observed_updated_at := or_else (max_default (map art_updated_at (fd_articles f)))
                         (cur_last_observed_updated_at c1),
                       cur_last_error := None,
                       cur_checkpoint := dict_merge (cur_checkpoint c1)
                         [(''reason'', JNull), (''last_successful_run_id'', JStr (show_nat (cx_run cx)))]\<rparr>"
      obtain w2 s2 where v: "save_cursor (xt_env x) c2 w1 s = (w2, s2)" by (metis prod.collapse)
      have "only_cursor (cur_id c) s s2 \<and> advanced c c2 s2"
        by (rule save_advances [OF v assms(2)]) (use c1 in \<open>simp_all add: c2_def same_cursor_def update_conv\<close>)
      moreover have "succeeded_for cx c2" by (simp add: c2_def succeeded_for_def)
      moreover have "out = PageDone \<lparr>wo_status = CursorSucceeded, wo_split = None\<rparr>" "s' = append_checkpoint c2 s2"
        using run1 fin n v by (simp_all add: c2_def)
      ultimately show ?thesis using advanced_same [of c c2 s2 s'] by (auto simp: page_leaves_def only_cursor_def)
    next
      case more: False
      obtain w2 s2 where v: "save_cursor (xt_env x) c1 w s = (w2, s2)" by (metis prod.collapse)
      have "only_cursor (cur_id c) s s2 \<and> advanced c c1 s2" by (rule save_advances [OF v assms(2) c1])
      then show ?thesis using run1 more v by (auto simp: page_leaves_def)
    qed
  qed
qed

lemma page_leaves_later:
  assumes "page_leaves st cx c out s1 s'" "cursors s1 = cursors s"
  shows "page_leaves st cx c out s s'"
  using assms by (simp add: page_leaves_def only_cursor_def)

lemma handle_leaves:
  assumes "handle_feed st x cx rq i f c w s = (out, w', s')" "stored c s"
  shows "page_leaves st cx c out s s'"
proof -
  have raised: "page_leaves st cx c (PageRaised e) s s" for e
    using advanced_refl [OF assms(2)] by (auto simp: page_leaves_def)
  have persisted: "page_leaves st cx c out s s'" if "advance_cursor x cx rq f c w (persist_page x cx raw f s) = (out, w', s')" for raw
    by (rule page_leaves_later [OF advance_leaves [OF that]]) (use assms(2) in \<open>simp_all add: stored_def\<close>)
  show ?thesis
    using assms fail_leaves split_leaves raised persisted
    by (auto simp: handle_feed_def split: if_splits option.splits)
qed

lemma collect_page_leaves:
  assumes "collect_page st x cx q pages c w s = (out, w', s')" "stored c s"
  shows "page_leaves st cx c out s s'"
proof -
  have raised: "page_leaves st cx c (PageRaised e) s t" if "cursors t = cursors s" for e t
    using that assms(2) advanced_refl [of c t] only_cursor_same [OF that] by (auto simp: page_leaves_def stored_def)
  from assms(1) show ?thesis
  proof (cases rule: collect_page_cases)
    case (limit reason w1 o2)
    then show ?thesis using pause_leaves [OF limit(2) assms(2)] by simp
  next
    case (invalid e)
    then show ?thesis using raised by simp
  next
    case (failed w1 err raw)
    then show ?thesis using raised fetch_keeps_cursors [OF failed(2)] by simp
  next
    case (fetched w1 rsp w2 s2 i)
    note k = fetch_keeps_cursors [OF fetched(2)]
    have s2: "stored c s2" using k assms(2) by (simp add: stored_def)
    have "page_leaves st cx c out s2 s'"
      using fetched(3) handle_leaves fail_leaves s2 raised [OF k] k
      by (auto split: sum.splits if_splits simp: page_leaves_def only_cursor_def)
    from page_leaves_later [OF this k] show ?thesis .
  qed
qed

text \<open>The same for a window: its rows, its success, its split.\<close>

definition window_leaves ::
  "arxiv_settings \<Rightarrow> collect_context \<Rightarrow> arxiv_cursor \<Rightarrow> window_outcome result \<Rightarrow> service_state \<Rightarrow> service_state \<Rightarrow> bool" where
  "window_leaves st cx c r s s' =
     (only_cursor (cur_id c) s s' \<and>
      (\<exists>c'. advanced c c' s' \<and>
         (case r of Inl _ \<Rightarrow> True
          | Inr q \<Rightarrow>
             (wo_status q = CursorSucceeded \<longrightarrow> wo_split q = None \<and> cur_status c' = CursorSucceeded \<and>
                (cx_mode cx = Incremental \<longrightarrow> succeeded_for cx c')) \<and>
             (case wo_split q of None \<Rightarrow> True | Some p \<Rightarrow> split_window (as_min_partition_minutes st) (cx_window cx) = Some p))))"

lemma window_leaves_after:
  assumes "advanced c c1 s1" "only_cursor (cur_id c) s s1" "window_leaves st cx c1 r s1 s'"
  shows "window_leaves st cx c r s s'"
proof -
  have i: "cur_id c1 = cur_id c" using advanced_stored [OF assms(1)] by blast
  from assms(3) [unfolded window_leaves_def i] obtain c' where "advanced c1 c' s'" "only_cursor (cur_id c) s1 s'"
    "case r of Inl _ \<Rightarrow> True
          | Inr q \<Rightarrow>
             (wo_status q = CursorSucceeded \<longrightarrow> wo_split q = None \<and> cur_status c' = CursorSucceeded \<and>
                (cx_mode cx = Incremental \<longrightarrow> succeeded_for cx c')) \<and>
             (case wo_split q of None \<Rightarrow> True | Some p \<Rightarrow> split_window (as_min_partition_minutes st) (cx_window cx) = Some p)"
    by blast
  with advanced_trans [OF assms(1)] only_cursor_trans [OF assms(2)] show ?thesis unfolding window_leaves_def by blast
qed

lemma collect_pages_leaves:
  "collect_pages st x cx q pages c w s = (r, w', s') \<Longrightarrow> stored c s \<Longrightarrow> window_leaves st cx c r s s'"
proof (induction "nat (as_max_requests_per_run st - api_requests s)" arbitrary: pages c w s rule: less_induct)
  case less
  obtain out w1 s1 where p: "collect_page st x cx q pages c w s = (out, w1, s1)" by (metis prod_cases3)
  note pl = collect_page_leaves [OF p less.prems(2)]
  note run = less.prems(1) [unfolded collect_pages.simps [of st x cx q pages] p prod.case]
  show ?case
  proof (cases out)
    case (PageNext c2)
    have a: "advanced c c2 s1" "only_cursor (cur_id c) s s1" using pl PageNext by (simp_all add: page_leaves_def)
    moreover have "window_leaves st cx c2 r s1 s'"
      using less.hyps [OF _ _ advanced_stored [OF a(1), THEN conjunct1]] run PageNext collect_page_budget(2) [OF p PageNext] by simp
    ultimately show ?thesis by (rule window_leaves_after)
  next
    case (PageDone o2)
    from pl [unfolded page_leaves_def PageDone page_outcome.case] obtain c' where c': "advanced c c' s1"
      "wo_status o2 = CursorSucceeded \<longrightarrow> succeeded_for cx c'" "only_cursor (cur_id c) s s1"
      "wo_status o2 = CursorSucceeded \<longrightarrow> wo_split o2 = None"
      "case wo_split o2 of None \<Rightarrow> True | Some p \<Rightarrow> split_window (as_min_partition_minutes st) (cx_window cx) = Some p"
      by blast
    have "r = Inr o2" "s' = s1" using run PageDone by simp_all
    with c' show ?thesis unfolding window_leaves_def by (auto simp: succeeded_for_def intro!: exI [of _ c'])
  next
    case (PageRaised e)
    then show ?thesis using run pl by (auto simp: page_leaves_def window_leaves_def)
  qed
qed

lemma collect_window_leaves:
  assumes "collect_window st x cx (Some c) w s = (r, w', s')" "stored c s"
  shows "window_leaves st cx c r s s'"
proof (cases "cx_mode cx \<in> {Backfill, IncrementalPart} \<and> cur_status c = CursorSucceeded")
  case True
  then show ?thesis
    using assms advanced_same [OF advanced_refl [OF assms(2)], of s'] by (auto simp: collect_window_def window_leaves_def only_cursor_def)
next
  case False
  let ?c = "running_cursor cx c"
  obtain w2 s2 where v: "save_cursor (xt_env x) ?c w s = (w2, s2)" by (metis prod.collapse)
  have a: "only_cursor (cur_id c) s s2 \<and> advanced c ?c s2"
    by (rule save_advances [OF v assms(2)]) (simp_all add: running_cursor_def same_cursor_def update_conv)
  show ?thesis
  proof (cases "with_submitted_window (cx_base_query cx) (utc (window_from (cx_window cx))) (utc (window_until (cx_window cx)))")
    case (Inl err)
    then have "r = Inl err" "s' = s2" using assms(1) False v by (auto simp: collect_window_def Let_def)
    then show ?thesis using a unfolding window_leaves_def by auto
  next
    case (Inr dq)
    have "collect_pages st x cx dq 0 ?c w2 s2 = (r, w', s')" using assms(1) False v Inr by (auto simp: collect_window_def Let_def)
    from collect_pages_leaves [OF this] a advanced_stored [of c ?c s2]
    have "window_leaves st cx ?c r s2 s'" by blast
    with a show ?thesis by (blast intro: window_leaves_after)
  qed
qed

section \<open>The parts of a window\<close>

definition distinct_cursors :: "service_state \<Rightarrow> bool" where
  "distinct_cursors s = distinct (map cur_id (cursors s))"

lemma only_cursor_distinct: "only_cursor i s s' \<Longrightarrow> distinct_cursors s' = distinct_cursors s"
  by (simp add: only_cursor_def distinct_cursors_def)

lemma distinct_cursors_eq:
  "distinct_cursors s \<Longrightarrow> c \<in> set (cursors s) \<Longrightarrow> d \<in> set (cursors s) \<Longrightarrow> cur_id c = cur_id d \<Longrightarrow> c = d"
  unfolding distinct_cursors_def by (rule distinct_map_inj)

definition part_done :: "mapping_row \<Rightarrow> query_window \<Rightarrow> service_state \<Rightarrow> query_window \<Rightarrow> bool" where
  "part_done m root s win =
     list_ex (\<lambda>c. cur_mapping_id c = mapping_id m \<and> cur_key c = part_key root win \<and> cur_status c = CursorSucceeded) (cursors s)"

lemma part_key_not_incremental: "part_key root win \<noteq> ''incremental''"
  by (simp add: part_key_def)

lemma part_done_same: "cursors s' = cursors s \<Longrightarrow> part_done m root s' = part_done m root s"
  by (rule ext) (simp add: part_done_def)

text \<open>A finished part stays finished while the row of another cursor changes.\<close>

lemma part_done_kept:
  assumes "part_done m root s win" "only_cursor i s s'"
    "\<And>c. c \<in> set (cursors s) \<Longrightarrow> cur_id c = i \<Longrightarrow> cur_key c = part_key root win \<Longrightarrow> cur_status c \<noteq> CursorSucceeded"
  shows "part_done m root s' win"
proof -
  obtain c where c: "c \<in> set (cursors s)" "cur_mapping_id c = mapping_id m" "cur_key c = part_key root win"
    "cur_status c = CursorSucceeded" using assms(1) by (auto simp: part_done_def list_ex_iff)
  then have "cur_id c \<noteq> i" using assms(3) by blast
  then have "c \<in> set (cursors s')" using assms(2) c(1) by (simp add: only_cursor_def)
  with c show ?thesis by (auto simp: part_done_def list_ex_iff)
qed

lemma stored_other:
  assumes "stored c s" "only_cursor i s s'" "cur_id c \<noteq> i"
  shows "stored c s'"
  using assms by (auto simp: stored_def only_cursor_def)

lemma ensure_cursor_result:
  assumes "ensure_cursor e n w s = (c, w', s')" "distinct_cursors s"
  shows "c \<in> set (cursors s')" "cur_key c = cur_key n" "cur_mapping_id c = cur_mapping_id n" "distinct_cursors s'"
    "set (cursors s) \<subseteq> set (cursors s')"
proof -
  have "c \<in> set (cursors s') \<and> cur_key c = cur_key n \<and> cur_mapping_id c = cur_mapping_id n \<and> distinct_cursors s' \<and>
      set (cursors s) \<subseteq> set (cursors s')"
  proof (cases "find_cursor (cur_mapping_id n) (cur_key n) s")
    case (Some d)
    then have "c = d" "s' = s" using assms(1) by (simp_all add: ensure_cursor_def)
    with Some assms(2) show ?thesis by (auto simp: find_cursor_def dest: find_key_SomeD)
  next
    case None
    define i where "i = fresh_id (map cur_id (cursors s))"
    have i: "i \<notin> set (map cur_id (cursors s))" unfolding i_def by (rule fresh_id_notin)
    obtain t w1 where t: "read_wall e w = (t, w1)" by (cases "read_wall e w")
    have c: "c = n\<lparr>cur_id := i, cur_updated_at := t\<rparr>" and s': "cursors s' = cursors s @ [c]"
      using assms(1) None by (auto simp: ensure_cursor_def i_def [symmetric] Let_def t)
    have "cur_id c = i" by (simp add: c)
    then have "distinct_cursors s'" using i assms(2) by (simp add: distinct_cursors_def s')
    then show ?thesis unfolding s' by (auto simp: c)
  qed
  then show "c \<in> set (cursors s')" "cur_key c = cur_key n" "cur_mapping_id c = cur_mapping_id n" "distinct_cursors s'"
    "set (cursors s) \<subseteq> set (cursors s')" by blast+
qed

lemma in_table_stored: "c \<in> set (cursors s) \<Longrightarrow> stored c s"
  unfolding stored_def by (rule exI [of _ "cur_updated_at c"]) simp

lemma part_done_more: "part_done m root s win \<Longrightarrow> set (cursors s) \<subseteq> set (cursors s') \<Longrightarrow> part_done m root s' win"
  by (auto simp: part_done_def list_ex_iff)

text \<open>What the collection of a part does to the other rows and to the finished parts.\<close>

lemma part_window:
  assumes "part_cursor e m root child w s = (cc, w1, s1)"
    "collect_window st x (part_context cx child) (Some cc) w1 s1 = (r, w2, s2)" "distinct_cursors s"
    "mapping_id (cx_mapping cx) = mapping_id m"
  shows "distinct_cursors s2 \<and>
    (\<forall>win. part_done m root s win \<longrightarrow> part_done m root s2 win) \<and>
    (\<forall>c. stored c s \<longrightarrow> cur_key c = ''incremental'' \<longrightarrow> stored c s2 \<and> cur_id c \<noteq> cur_id cc) \<and>
    (\<exists>c'. cur_id c' = cur_id cc \<and> cur_key c' = part_key root child \<and> stored c' s2 \<and>
       (case r of Inl _ \<Rightarrow> \<forall>c\<in>set (cursors s1). cur_id c = cur_id cc \<longrightarrow> cur_status c \<noteq> CursorSucceeded
        | Inr q \<Rightarrow> (wo_status q = CursorSucceeded \<longrightarrow> wo_split q = None \<and> part_done m root s2 child) \<and>
           (case wo_split q of None \<Rightarrow> True | Some p \<Rightarrow> split_window (as_min_partition_minutes st) child = Some p)))"
proof -
  note en = ensure_cursor_result [OF assms(1) [unfolded part_cursor_def] assms(3)]
  have key: "cur_key cc = part_key root child" "cur_mapping_id cc = mapping_id m"
    using en(2,3) by (simp_all add: blank_cursor_def)
  note wl = collect_window_leaves [OF assms(2) in_table_stored [OF en(1)], unfolded window_leaves_def]
  then obtain c' where c': "advanced cc c' s2" "only_cursor (cur_id cc) s1 s2"
    "case r of Inl _ \<Rightarrow> True
          | Inr q \<Rightarrow>
             (wo_status q = CursorSucceeded \<longrightarrow> wo_split q = None \<and> cur_status c' = CursorSucceeded) \<and>
             (case wo_split q of None \<Rightarrow> True | Some p \<Rightarrow> split_window (as_min_partition_minutes st) child = Some p)"
  proof -
    have win: "cx_window (part_context cx child) = child" by (simp add: part_context_def)
    from wl [unfolded win] obtain c' where "advanced cc c' s2" "only_cursor (cur_id cc) s1 s2"
      "case r of Inl _ \<Rightarrow> True
          | Inr q \<Rightarrow>
             (wo_status q = CursorSucceeded \<longrightarrow> wo_split q = None \<and> cur_status c' = CursorSucceeded \<and>
                (cx_mode (part_context cx child) = Incremental \<longrightarrow> succeeded_for (part_context cx child) c')) \<and>
             (case wo_split q of None \<Rightarrow> True | Some p \<Rightarrow> split_window (as_min_partition_minutes st) child = Some p)"
      by blast
    then show thesis by (intro that [of c']) (simp_all split: sum.splits)
  qed
  have d2: "distinct_cursors s2" using only_cursor_distinct [OF c'(2)] en(4) by simp
  have unchanged: "cursors s2 = cursors s1 \<and> r = Inr \<lparr>wo_status = CursorSucceeded, wo_split = None\<rparr>" if "cur_status cc = CursorSucceeded"
    using assms(2) that by (auto simp: collect_window_def part_context_def)
  have status: "cur_status c = cur_status cc" if "c \<in> set (cursors s1)" "cur_id c = cur_id cc" for c
    using distinct_cursors_eq [OF en(4) that(1) en(1) that(2)] by simp
  have kept: "part_done m root s2 win" if win: "part_done m root s win" for win
  proof (cases "cur_status cc = CursorSucceeded")
    case True
    then show ?thesis using unchanged part_done_more [OF win] en(5) by simp
  next
    case False
    from part_done_kept [OF part_done_more [OF win en(5)] c'(2)] show ?thesis using status False by metis
  qed
  have others: "stored c s2 \<and> cur_id c \<noteq> cur_id cc" if c: "stored c s" "cur_key c = ''incremental''" for c
  proof -
    obtain t where t: "c\<lparr>cur_updated_at := t\<rparr> \<in> set (cursors s)" using c(1) by (auto simp: stored_def)
    have "cur_id c \<noteq> cur_id cc"
    proof
      assume i: "cur_id c = cur_id cc"
      have "c\<lparr>cur_updated_at := t\<rparr> = cc"
        by (rule distinct_cursors_eq [OF en(4) _ en(1)]) (use t en(5) i in auto)
      then have "cur_key cc = cur_key (c\<lparr>cur_updated_at := t\<rparr>)" by simp
      then show False using c(2) key part_key_not_incremental by simp
    qed
    moreover have "stored c s1" using t en(5) by (auto simp: stored_def)
    ultimately show ?thesis using stored_other c'(2) by blast
  qed
  have fin: "part_done m root s2 child" if "cur_status c' = CursorSucceeded"
  proof -
    obtain t where "c'\<lparr>cur_updated_at := t\<rparr> \<in> set (cursors s2)" using c'(1) by (auto simp: advanced_def stored_def)
    moreover have "cur_mapping_id (c'\<lparr>cur_updated_at := t\<rparr>) = mapping_id m \<and>
        cur_key (c'\<lparr>cur_updated_at := t\<rparr>) = part_key root child \<and> cur_status (c'\<lparr>cur_updated_at := t\<rparr>) = CursorSucceeded"
      using that c'(1) key by (simp add: advanced_def same_cursor_def)
    ultimately show ?thesis unfolding part_done_def list_ex_iff by blast
  qed
  have "cur_id c' = cur_id cc" "cur_key c' = part_key root child" "stored c' s2"
    using c'(1) key by (simp_all add: advanced_def same_cursor_def)
  moreover have "case r of Inl _ \<Rightarrow> \<forall>c\<in>set (cursors s1). cur_id c = cur_id cc \<longrightarrow> cur_status c \<noteq> CursorSucceeded
        | Inr q \<Rightarrow> (wo_status q = CursorSucceeded \<longrightarrow> wo_split q = None \<and> part_done m root s2 child) \<and>
           (case wo_split q of None \<Rightarrow> True | Some p \<Rightarrow> split_window (as_min_partition_minutes st) child = Some p)"
  proof (cases r)
    case (Inl e)
    then have "cur_status cc \<noteq> CursorSucceeded" using unchanged by auto
    with Inl status show ?thesis by simp
  next
    case (Inr q)
    then show ?thesis using c'(3) fin by auto
  qed
  ultimately show ?thesis using d2 kept others by blast
qed

section \<open>The partition checkpoint\<close>

definition partition_of :: "query_window \<Rightarrow> jdict \<Rightarrow> json list \<Rightarrow> json list \<Rightarrow> bool" where
  "partition_of root prt pending completed =
     (dict_get prt ''root_from'' = Some (JTime (window_from root)) \<and>
      dict_get prt ''root_until'' = Some (JTime (window_until root)) \<and>
      dict_get prt ''pending'' = Some (JList pending) \<and> dict_get prt ''completed'' = Some (JList completed))"

definition parts_progress :: "mapping_row \<Rightarrow> query_window \<Rightarrow> json list \<Rightarrow> json list \<Rightarrow> service_state \<Rightarrow> bool" where
  "parts_progress m root completed pending s =
     (\<exists>ds ts. completed = map window_payload ds \<and> pending = map window_payload ts \<and>
        tiles (window_from root) (window_until root) (ds @ ts) \<and> list_all (part_done m root s) ds)"

text \<open>The parent's row, and the soundness of the progress that its checkpoint claims.\<close>

definition parent_holds :: "mapping_row \<Rightarrow> query_window \<Rightarrow> arxiv_cursor \<Rightarrow> service_state \<Rightarrow> bool" where
  "parent_holds m root c s =
     (stored c s \<and> cur_key c = ''incremental'' \<and>
      (case partition_checkpoint c root of
         None \<Rightarrow> True
       | Some prt \<Rightarrow>
           parts_progress m root (json_items (dict_get prt ''completed'')) (json_items (dict_get prt ''pending'')) s))"

definition collected :: "mapping_row \<Rightarrow> query_window \<Rightarrow> service_state \<Rightarrow> bool" where
  "collected m root s =
     (\<exists>ws. tiles (window_from root) (window_until root) ws \<and> list_all (part_done m root s) ws)"

lemma window_eta [simp]: "window (window_from w) (window_until w) = w"
  by simp

lemma window_of_window_payload:
  "window_from w < window_until w \<Longrightarrow> window_of_payload x (window_payload w) = Inr w"
  by (simp add: window_of_payload_def window_payload_def payload_instant_def text_datetime_def require_aware_def utc_instant_def)

lemma tiles_member: "tiles a b ws \<Longrightarrow> w \<in> set ws \<Longrightarrow> window_from w < window_until w"
  by (induction ws arbitrary: a) auto

lemma tiles_split:
  assumes "tiles a b (ds @ w # ts)" "split_window k w = Some (l, r)" "0 < k"
  shows "tiles a b (ds @ l # r # ts)"
proof -
  have "tiles (window_from w) (window_until w) [l, r]" using split_window_tiles [OF assms(2,3)] by simp
  with assms(1) show ?thesis by (auto simp: tiles_append)
qed

lemma partition_checkpoint_of:
  assumes "dict_get (cur_checkpoint c) ''partition'' = Some (JObj prt)" "partition_of root prt pending completed"
  shows "partition_checkpoint c root = Some prt" "json_items (dict_get prt ''pending'') = pending"
    "json_items (dict_get prt ''completed'') = completed"
  using assms by (auto simp: partition_checkpoint_def partition_of_def json_list_def json_items_def)

lemma parent_holdsI:
  assumes "stored c s" "cur_key c = ''incremental''" "dict_get (cur_checkpoint c) ''partition'' = Some (JObj prt)"
    "partition_of root prt pending completed" "parts_progress m root completed pending s"
  shows "parent_holds m root c s"
  using assms partition_checkpoint_of [OF assms(3,4)] by (simp add: parent_holds_def)

lemma partition_progress_of:
  "partition_of root prt p c \<Longrightarrow> partition_of root (partition_progress prt pending completed) pending completed"
  by (simp add: partition_of_def partition_progress_def update_conv)

lemma partition_parent_checkpoint [simp]:
  "dict_get (cur_checkpoint (partition_parent parent prt reason)) ''partition'' = Some (JObj prt)"
  "cur_id (partition_parent parent prt reason) = cur_id parent" "cur_key (partition_parent parent prt reason) = cur_key parent"
  by (simp_all add: partition_parent_def update_conv)

text \<open>Saving the parent keeps the finished parts: its key is not the key of a part.\<close>

lemma save_parent:
  assumes "save_cursor e c' w s = (w', s')" "stored c s" "cur_id c' = cur_id c" "cur_key c = ''incremental''" "distinct_cursors s"
  shows "stored c' s' \<and> distinct_cursors s' \<and> (\<forall>win. part_done m root s win \<longrightarrow> part_done m root s' win)"
proof -
  have o: "only_cursor (cur_id c) s s'" using save_cursor_only [OF assms(1)] assms(3) by simp
  obtain t where t: "c\<lparr>cur_updated_at := t\<rparr> \<in> set (cursors s)" using assms(2) by (auto simp: stored_def)
  have key: "cur_key d = ''incremental''" if d: "d \<in> set (cursors s)" "cur_id d = cur_id c" for d
  proof -
    have "d = c\<lparr>cur_updated_at := t\<rparr>" by (rule distinct_cursors_eq [OF assms(5) d(1) t]) (simp add: d(2))
    then show ?thesis using assms(4) by simp
  qed
  have "part_done m root s' win" if "part_done m root s win" for win
    by (rule part_done_kept [OF that o]) (use key part_key_not_incremental in metis)
  then show ?thesis
    using save_cursor_stored [OF assms(1)] stored_id [OF assms(2)] assms(3,5) only_cursor_distinct [OF o] by simp
qed

lemma list_all_mono': "list_all P xs \<Longrightarrow> (\<And>x. P x \<longrightarrow> Q x) \<Longrightarrow> list_all Q xs"
  by (simp add: list_all_iff)

lemma collect_parts_sound:
  assumes "0 < as_min_partition_minutes st" "m = cx_mapping cx" "root = cx_window cx"
  shows "collect_parts st x cx parent prt pending completed w s = (r, w', s') \<Longrightarrow> distinct_cursors s \<Longrightarrow> stored parent s \<Longrightarrow>
    cur_key parent = ''incremental'' \<Longrightarrow> partition_of root prt pending completed \<Longrightarrow>
    dict_get (cur_checkpoint parent) ''partition'' = Some (JObj prt) \<Longrightarrow> parts_progress m root completed pending s \<Longrightarrow>
    distinct_cursors s' \<and> (\<exists>c'. cur_id c' = cur_id parent \<and> parent_holds m root c' s' \<and>
      (case r of Inl _ \<Rightarrow> True | Inr q \<Rightarrow> wo_status q = CursorSucceeded \<longrightarrow> succeeded_for cx c' \<and> collected m root s'))"
proof (induction "(nat (as_max_requests_per_run st - api_requests s), length pending)"
    arbitrary: parent prt pending completed w s rule: less_induct)
  case less
  from less.prems(7) obtain ds ts where pr: "completed = map window_payload ds" "pending = map window_payload ts"
    "tiles (window_from root) (window_until root) (ds @ ts)" "list_all (part_done m root s) ds"
    unfolding parts_progress_def by blast
  show ?case
  proof (cases ts)
    case Nil
    obtain now w1 where n: "read_wall (xt_env x) w = (now, w1)" by (cases "read_wall (xt_env x) w")
    let ?c = "completed_parent cx parent prt now"
    obtain w2 s1 where v: "save_cursor (xt_env x) ?c w1 s = (w2, s1)" by (cases "save_cursor (xt_env x) ?c w1 s")
    have c: "cur_id ?c = cur_id parent" "cur_key ?c = ''incremental''" "succeeded_for cx ?c"
      "dict_get (cur_checkpoint ?c) ''partition'' = Some (JObj (dict_merge prt [(''status'', JStr ''completed'')]))"
      using less.prems(4) by (simp_all add: completed_parent_def succeeded_for_def update_conv)
    note sp = save_parent [OF v less.prems(3) c(1) less.prems(4,2)]
    have run: "r = Inr \<lparr>wo_status = CursorSucceeded, wo_split = None\<rparr>" "s' = append_checkpoint ?c s1"
      using less.prems(1) pr(2) Nil n v by (auto simp: collect_parts.simps Let_def)
    have s1: "cursors s' = cursors s1" by (simp add: run)
    have done1: "list_all (part_done m root s1) ds" using pr(4) sp by (blast intro: list_all_mono')
    have po: "partition_of root (dict_merge prt [(''status'', JStr ''completed'')]) pending completed"
      using less.prems(5) by (simp add: partition_of_def update_conv)
    have "parts_progress m root completed pending s1" using pr done1 unfolding parts_progress_def by blast
    then have "parent_holds m root ?c s1" using sp c(2,4) po by (blast intro: parent_holdsI)
    moreover have "collected m root s1" using pr(3) done1 Nil unfolding collected_def by auto
    moreover have "parent_holds m root c s' = parent_holds m root c s1" "collected m root s' = collected m root s1"
      "distinct_cursors s' = distinct_cursors s1" for c
      using s1 part_done_same [OF s1] by (auto simp: parent_holds_def collected_def parts_progress_def distinct_cursors_def stored_def split: option.splits)
    ultimately show ?thesis using c(1,3) run(1) sp by auto
  next
    case (Cons child ts')
    let ?p = "window_payload child" and ?rest = "map window_payload ts'"
    have pending: "pending = ?p # ?rest" using pr(2) Cons by simp
    have "child \<in> set (ds @ ts)" using Cons by simp
    then have wp: "window_of_payload x ?p = Inr child"
      using tiles_member [OF pr(3)] by (intro window_of_window_payload) simp
    let ?item = "plan_item (cx_topic cx) (cx_mapping cx) (cx_base_query cx) child (cx_page_size cx)"
    obtain cc w1 s1 where pc: "part_cursor (xt_env x) (cx_mapping cx) (cx_window cx) child w (plan_query ?item s) = (cc, w1, s1)"
      by (metis prod_cases3)
    obtain o2 w2 s2 where cw: "collect_window st x (part_context cx child) (Some cc) w1 s1 = (o2, w2, s2)"
      by (metis prod_cases3)
    have d: "distinct_cursors (plan_query ?item s)" using less.prems(2) by (simp add: distinct_cursors_def)
    have pc': "part_cursor (xt_env x) m root child w (plan_query ?item s) = (cc, w1, s1)" using pc assms(2,3) by simp
    have mid: "mapping_id (cx_mapping cx) = mapping_id m" by (simp add: assms(2))
    note pw = part_window [OF pc' cw d mid]
    have d2: "distinct_cursors s2" using pw by blast
    have st_item: "stored c (plan_query ?item s) = stored c s" "part_done m root (plan_query ?item s) = part_done m root s" for c
      using part_done_same [of "plan_query ?item s" s] by (simp_all add: stored_def)
    have parent2: "stored parent s2" "cur_id parent \<noteq> cur_id cc" using pw less.prems(3,4) st_item by blast+
    have done2: "list_all (part_done m root s2) ds" using pr(4) pw st_item(2) by (metis list_all_mono')
    note run = less.prems(1) [unfolded pending collect_parts.simps(2) [of st x cx parent prt ?p ?rest completed w s] wp sum.case pc prod.case cw]
    show ?thesis
    proof (cases o2)
      case (Inl err)
      have table: "\<forall>c\<in>set (cursors s1). cur_id c = cur_id cc \<longrightarrow> cur_status c \<noteq> CursorSucceeded" using pw Inl by auto
      note en = ensure_cursor_result [OF pc [unfolded part_cursor_def] d]
      have o12: "only_cursor (cur_id cc) s1 s2"
        using collect_window_leaves [OF cw in_table_stored [OF en(1)]] by (simp add: window_leaves_def)
      let ?f = "failed_cursor (current_cursor cc s2) err"
      obtain w3 s3 where v: "save_cursor (xt_env x) ?f w2 s2 = (w3, s3)" by (metis prod.collapse)
      have fid: "cur_id ?f = cur_id cc"
        by (auto simp: failed_cursor_def current_cursor_def split: option.splits dest: find_key_SomeD)
      have o: "only_cursor (cur_id cc) s2 s3" using save_cursor_only [OF v] fid by simp
      have "part_done m root s3 win" if "part_done m root s win" for win
        using part_done_kept [OF part_done_more [OF _ en(5)] only_cursor_trans [OF o12 o], of m root win] table that st_item(2) by metis
      then have done3: "list_all (part_done m root s3) ds" using pr(4) by (metis list_all_mono')
      have "parts_progress m root completed pending s3" using pr(1-3) done3 unfolding parts_progress_def by blast
      then have "parent_holds m root parent s3"
        using parent_holdsI [OF stored_other [OF parent2(1) o parent2(2)] less.prems(4,6,5)] by blast
      moreover have "r = Inl err" "s' = s3" using run Inl v by simp_all
      ultimately show ?thesis using only_cursor_distinct [OF o] d2 by auto
    next
      case (Inr out)
      note pwr = pw [unfolded Inr sum.case]
      have step: "(\<exists>c'. cur_id c' = cur_id parent \<and> parent_holds m root c' s3) \<and> distinct_cursors s3 \<and>
          stored par s3 \<and> parts_progress m root completed' pending' s3"
        if v: "save_cursor (xt_env x) par w2 s2 = (w3, s3)"
          and par: "par = partition_parent parent (partition_progress prt pending' completed') reason"
          and l: "completed' = map window_payload ds'" "pending' = map window_payload ts2"
            "tiles (window_from root) (window_until root) (ds' @ ts2)" "list_all (part_done m root s2) ds'"
        for par w3 s3 completed' pending' reason ds' ts2
      proof -
        have sp: "stored par s3" "distinct_cursors s3" "\<And>win. part_done m root s2 win \<longrightarrow> part_done m root s3 win"
          using save_parent [OF v parent2(1) _ less.prems(4) d2] by (simp_all add: par)
        have pp: "parts_progress m root completed' pending' s3"
          using l list_all_mono' [OF l(4) sp(3)] unfolding parts_progress_def by blast
        have "parent_holds m root par s3"
          by (rule parent_holdsI [OF sp(1) _ _ partition_progress_of [OF less.prems(5)] pp]) (simp_all add: par less.prems(4))
        moreover have "cur_id par = cur_id parent" by (simp add: par)
        ultimately show ?thesis using sp pp by blast
      qed
      show ?thesis
      proof (cases "wo_split out = None \<and> wo_status out \<noteq> CursorSucceeded")
        case True
        let ?par = "partition_parent parent (partition_progress prt pending completed)
            (text_or (cur_last_error (current_cursor cc s2)) ''incremental_partition_incomplete'')"
        obtain w3 s3 where v: "save_cursor (xt_env x) ?par w2 s2 = (w3, s3)" by (metis prod.collapse)
        have "r = Inr \<lparr>wo_status = wo_status out, wo_split = None\<rparr>" "s' = s3"
          using run Inr True v by (auto simp: Let_def pending)
        with step [OF v refl pr(1,2,3) done2] True show ?thesis by auto
      next
        case False
        obtain pending' completed' w3 s3 ds' ts2 where n:
          "save_cursor (xt_env x) (partition_parent parent (partition_progress prt pending' completed') ''large_query_partition'') w2 s2 = (w3, s3)"
          "collect_parts st x cx (partition_parent parent (partition_progress prt pending' completed') ''large_query_partition'')
             (partition_progress prt pending' completed') pending' completed' w3 s3 = (r, w', s')"
          "wo_split out = None \<Longrightarrow> length pending' < length pending"
          "completed' = map window_payload ds'" "pending' = map window_payload ts2"
          "tiles (window_from root) (window_until root) (ds' @ ts2)" "list_all (part_done m root s2) ds'"
        proof (cases "wo_split out")
          case None
          then have fin: "wo_status out = CursorSucceeded" using False by simp
          let ?par = "partition_parent parent (partition_progress prt ?rest (completed @ [?p])) ''large_query_partition''"
          obtain w3 s3 where v: "save_cursor (xt_env x) ?par w2 s2 = (w3, s3)" by (metis prod.collapse)
          have "part_done m root s2 child" using pwr fin by blast
          then show ?thesis
            using run Inr None fin v pr(1,3) done2 Cons pending
            by (intro that [of ?rest "completed @ [?p]" w3 s3 "ds @ [child]" ts']) (auto simp: Let_def)
        next
          case (Some lr)
          obtain l r2 where lr: "lr = (l, r2)" by (cases lr)
          have sw: "split_window (as_min_partition_minutes st) child = Some (l, r2)" using pwr Some lr by auto
          let ?pend = "[window_payload l, window_payload r2] @ ?rest"
          let ?par = "partition_parent parent (partition_progress prt ?pend completed) ''large_query_partition''"
          obtain w3 s3 where v: "save_cursor (xt_env x) ?par w2 s2 = (w3, s3)" by (metis prod.collapse)
          show ?thesis
            using run Inr Some lr v pr(1,3) done2 Cons tiles_split [OF _ sw assms(1)]
            by (intro that [of ?pend completed w3 s3 ds "l # r2 # ts'"]) (auto simp: Let_def)
        qed
        have "(nat (as_max_requests_per_run st - api_requests s3), length pending')
            < (nat (as_max_requests_per_run st - api_requests s), length pending)"
          using part_step_budget [OF pc cw [unfolded Inr] n(1)] n(3) unfolding less_prod_simp
          by (cases "wo_split out = None") linarith+
        note IH = less.hyps [OF this n(2)]
        note sn = step [OF n(1) refl n(4-7)]
        have "partition_of root (partition_progress prt pending' completed') pending' completed'"
          by (rule partition_progress_of [OF less.prems(5)])
        with IH sn less.prems(4) show ?thesis by simp
      qed
    qed
  qed
qed

section \<open>Incremental collection\<close>

lemma partition_checkpoint_Some:
  assumes "partition_checkpoint c root = Some prt"
  shows "dict_get (cur_checkpoint c) ''partition'' = Some (JObj prt)"
    "partition_of root prt (json_items (dict_get prt ''pending'')) (json_items (dict_get prt ''completed''))"
  using assms by (auto simp: partition_checkpoint_def partition_of_def json_items_def json_list_def
      split: option.splits json.splits if_splits)

lemma partition_checkpoint_same:
  "dict_get (cur_checkpoint c') ''partition'' = dict_get (cur_checkpoint c) ''partition'' \<Longrightarrow>
     partition_checkpoint c' root = partition_checkpoint c root"
  by (simp add: partition_checkpoint_def)

lemma current_of_stored:
  assumes "stored c' s" "distinct_cursors s" "cur_id c' = cur_id c"
  shows "\<exists>t. current_cursor c s = c'\<lparr>cur_updated_at := t\<rparr>"
proof -
  obtain t where t: "c'\<lparr>cur_updated_at := t\<rparr> \<in> set (cursors s)" using assms(1) by (auto simp: stored_def)
  then have "find (\<lambda>x. cur_id x = cur_id c) (cursors s) = Some (c'\<lparr>cur_updated_at := t\<rparr>)"
    using find_unique [OF assms(2) [unfolded distinct_cursors_def] t] assms(3) by simp
  then show ?thesis by (auto simp: current_cursor_def)
qed

lemma collect_incremental_sound:
  assumes "0 < as_min_partition_minutes st" "m = cx_mapping cx" "root = cx_window cx" "cx_mode cx = Incremental"
    and run: "collect_incremental st x cx parent w s = (r, w', s')"
    and "distinct_cursors s" "parent_holds m root parent s" "window_from root < window_until root"
  shows "distinct_cursors s' \<and> (\<exists>c'. cur_id c' = cur_id parent \<and> parent_holds m root c' s' \<and>
      (case r of Inl _ \<Rightarrow> True
       | Inr q \<Rightarrow> wo_status q = CursorSucceeded \<longrightarrow>
           succeeded_for cx c' \<and> (partition_checkpoint c' root = None \<or> collected m root s')))"
proof -
  have p: "stored parent s" "cur_key parent = ''incremental''" using assms(7) by (simp_all add: parent_holds_def)
  show ?thesis
  proof (cases "partition_checkpoint parent root")
    case (Some prt)
    note ck = partition_checkpoint_Some [OF Some]
    have cp: "collect_parts st x cx parent prt (json_items (dict_get prt ''pending'')) (json_items (dict_get prt ''completed'')) w s = (r, w', s')"
      using run Some by (simp add: collect_incremental_def assms(3))
    have pp: "parts_progress m root (json_items (dict_get prt ''completed'')) (json_items (dict_get prt ''pending'')) s"
      using assms(7) Some by (simp add: parent_holds_def)
    from collect_parts_sound [OF assms(1-3) cp assms(6) p ck(2,1) pp] show ?thesis
      by (cases r) (simp_all, blast)
  next
    case None
    obtain o2 w1 s1 where cw: "collect_window st x cx (Some parent) w s = (o2, w1, s1)" by (metis prod_cases3)
    from collect_window_leaves [OF cw p(1), unfolded window_leaves_def] obtain c1 where c1: "advanced parent c1 s1"
      "only_cursor (cur_id parent) s s1"
      "case o2 of Inl _ \<Rightarrow> True
          | Inr q \<Rightarrow>
             (wo_status q = CursorSucceeded \<longrightarrow> wo_split q = None \<and> cur_status c1 = CursorSucceeded \<and>
                (cx_mode cx = Incremental \<longrightarrow> succeeded_for cx c1)) \<and>
             (case wo_split q of None \<Rightarrow> True | Some p \<Rightarrow> split_window (as_min_partition_minutes st) (cx_window cx) = Some p)"
      by blast
    have d1: "distinct_cursors s1" using only_cursor_distinct [OF c1(2)] assms(6) by simp
    have n1: "partition_checkpoint c1 root = None"
      using partition_checkpoint_same [of c1 parent] c1(1) None by (simp add: advanced_def)
    have h1: "parent_holds m root c1 s1" "cur_id c1 = cur_id parent" "stored c1 s1" "cur_key c1 = ''incremental''"
      using c1(1) n1 p(2) by (simp_all add: parent_holds_def advanced_def same_cursor_def)
    note step = run [unfolded collect_incremental_def, folded assms(3), unfolded None option.case cw prod.case]
    show ?thesis
    proof (cases "\<exists>q lr. o2 = Inr q \<and> wo_split q = Some lr")
      case False
      then have "r = o2" "s' = s1" using step by (auto split: sum.splits option.splits)
      then show ?thesis using d1 h1 n1 c1(3) assms(4) by (auto split: sum.splits)
    next
      case True
      then obtain q l r2 where q: "o2 = Inr q" "wo_split q = Some (l, r2)" by auto
      have sw: "split_window (as_min_partition_minutes st) root = Some (l, r2)" using c1(3) q assms(3) by auto
      obtain t where cur: "current_cursor parent s1 = c1\<lparr>cur_updated_at := t\<rparr>"
        using current_of_stored [OF h1(3) d1 h1(2)] by blast
      let ?prt = "new_partition st root (l, r2)"
      let ?par = "partition_parent (c1\<lparr>cur_updated_at := t\<rparr>) ?prt ''large_query_partition''"
      let ?pending = "[window_payload l, window_payload r2]"
      obtain w2 s2 where v: "save_cursor (xt_env x) ?par w1 s1 = (w2, s2)" by (metis prod.collapse)
      have cp: "collect_parts st x cx ?par ?prt ?pending [] w2 s2 = (r, w', s')"
        using step q cur v by (simp add: Let_def assms(3))
      have sp: "stored ?par s2 \<and> distinct_cursors s2 \<and> (\<forall>win. part_done m root s1 win \<longrightarrow> part_done m root s2 win)"
        by (rule save_parent [OF v h1(3) _ h1(4) d1]) simp
      have po: "partition_of root ?prt ?pending []" by (simp add: partition_of_def new_partition_def)
      have "tiles (window_from root) (window_until root) [l, r2]"
        using split_window_tiles [OF sw assms(1)] by simp
      then have pp: "parts_progress m root [] ?pending s2"
        unfolding parts_progress_def by (intro exI [of _ "[]"] exI [of _ "[l, r2]"]) simp
      have id: "cur_key ?par = ''incremental''" "cur_id ?par = cur_id parent" using h1(2,4) by simp_all
      from collect_parts_sound [OF assms(1-3) cp _ _ id(1) po partition_parent_checkpoint(1) pp] sp show ?thesis
        unfolding id(2) by (cases r) (simp_all, blast+)
    qed
  qed
qed


section \<open>Property\<close>



end
