(* ===== verification/Arxiv_Refusal.thy ===== *)
theory Arxiv_Refusal
  imports Arxiv_Evidence
begin

text \<open>
  After a 403 reply the collector stops: the reply can only be the one to the last request of a run.  The
  lemmas follow the error from the client to the loop over mappings.
\<close>

definition forbidden_at :: "env \<Rightarrow> nat \<Rightarrow> bool" where
  "forbidden_at e i = (case e_transport e i of TransportReplied status _ _ \<Rightarrow> status = 403 | _ \<Rightarrow> False)"

text \<open>No request of the stretch was refused; or only its last one may have been.\<close>

definition calm :: "env \<Rightarrow> world \<Rightarrow> world \<Rightarrow> bool" where
  "calm e w w' = (w_sent w \<le> w_sent w' \<and> (\<forall>i. w_sent w \<le> i \<and> i < w_sent w' \<longrightarrow> \<not> forbidden_at e i))"

definition last_refused :: "env \<Rightarrow> world \<Rightarrow> world \<Rightarrow> bool" where
  "last_refused e w w' = (w_sent w \<le> w_sent w' \<and> (\<forall>i. w_sent w \<le> i \<and> Suc i < w_sent w' \<longrightarrow> \<not> forbidden_at e i))"

text \<open>A refusal shows as an error that the loops over mappings do not continue after.\<close>

definition obeys :: "env \<Rightarrow> world \<Rightarrow> py_error option \<Rightarrow> world \<Rightarrow> bool" where
  "obeys e w err w' =
     (calm e w w' \<or> last_refused e w w' \<and> (case err of None \<Rightarrow> False | Some x \<Rightarrow> \<not> is_collection_error x))"

definition error_of :: "'a result \<Rightarrow> py_error option" where
  "error_of r = (case r of Inl e \<Rightarrow> Some e | Inr _ \<Rightarrow> None)"

lemma error_of_simps [simp]: "error_of (Inl e) = Some e" "error_of (Inr x) = None"
  by (simp_all add: error_of_def)

lemma calm_same:
  assumes "w_sent w' = w_sent w"
  shows "calm e w w'"
  unfolding calm_def assms by (meson not_le order_refl)

lemma calm_quiet: "quiet w w' \<Longrightarrow> calm e w w'"
  by (rule calm_same) (simp add: quiet_def)

lemma calm_one:
  assumes "w_sent w' = Suc (w_sent w)" "\<not> forbidden_at e (w_sent w)"
  shows "calm e w w'"
  unfolding calm_def assms(1) using assms(2) le_less_Suc_eq by (metis Suc_n_not_le_n nat_le_linear)

lemma calm_trans: "calm e w w1 \<Longrightarrow> calm e w1 w' \<Longrightarrow> calm e w w'"
  unfolding calm_def by (meson le_trans not_le)

lemma last_refused_after: "calm e w w1 \<Longrightarrow> last_refused e w1 w' \<Longrightarrow> last_refused e w w'"
  unfolding calm_def last_refused_def by (meson le_trans not_le)

lemma calm_last: "calm e w w' \<Longrightarrow> last_refused e w w'"
  by (simp add: calm_def last_refused_def)

lemma obeys_calm: "calm e w w' \<Longrightarrow> obeys e w err w'"
  by (simp add: obeys_def)

lemma obeys_after: "calm e w w1 \<Longrightarrow> obeys e w1 err w' \<Longrightarrow> obeys e w err w'"
  using calm_trans last_refused_after by (auto simp: obeys_def)

lemma obeys_before: "obeys e w err w1 \<Longrightarrow> w_sent w' = w_sent w1 \<Longrightarrow> obeys e w err w'"
  by (simp add: obeys_def calm_def last_refused_def)

lemma obeys_last: "obeys e w err w' \<Longrightarrow> last_refused e w w'"
  using calm_last by (auto simp: obeys_def)

lemma obeys_continue:
  "obeys e w None w' \<Longrightarrow> calm e w w'" "obeys e w (Some x) w' \<Longrightarrow> is_collection_error x \<Longrightarrow> calm e w w'"
  by (simp_all add: obeys_def)


section \<open>The client\<close>

text \<open>What the store and the raw table raise is not an error that a loop over mappings catches.\<close>

lemma preserve_error:
  assumes "preserve st x cx r ps = (Inl err, ps')"
  shows "\<not> is_collection_error err"
proof -
  obtain s raw where ps: "ps = (s, raw)" by (cases ps)
  have load: "\<not> is_collection_error e" if "load_checked c files k = Inl e" for c files k e
    using that by (auto simp: load_checked_def raw_load_def raw_read_def result_bind_eq_Inl is_collection_error_def
        split: option.splits if_splits)
  have store: "\<not> is_collection_error e" if "raw_write c fault q files = (Inl e, files')" for c fault q files e files'
    using that load by (auto simp: raw_write_def publish_def validate_source_def Let_def is_collection_error_def
        split: sum.splits option.splits if_splits write_fault.splits prod.splits)
  have key: "\<not> is_collection_error e" if "logical_key root d source = Inl e" for root d source e
    using that by (auto simp: logical_key_def validate_source_def result_bind_eq_Inl is_collection_error_def
        split: option.splits if_splits list.splits)
  have row: "\<not> is_collection_error e" if "record_raw_response root run topic m raw rsp md db = (Inl e, db')"
    for root run topic m raw rsp md db e db'
    using that key by (auto simp: record_raw_response_def raw_path_of_def Let_def split: sum.splits option.splits)
  show ?thesis using assms store row unfolding ps
    by (auto simp: preserve_def Let_def split: prod.splits sum.splits)
qed

lemma attempt_obeys:
  assumes "attempt_once e c rq (preserve st x cx) (count_attempt st x cx n) a final w ps = (out, w', ps')"
  shows "case out of Finished r \<Rightarrow> obeys e w (error_of r) w' | Retry _ \<Rightarrow> calm e w w'"
proof -
  have sent: "w_sent w1 = w_sent w" if "count_attempt st x cx n a w ps = (r, w1, ps1)" for r w1 ps1
    using count_attempt_cases that by (cases ps; cases ps1) fastforce
  from assms show ?thesis
  proof (cases rule: attempt_once_cases)
    case (refused err)
    then show ?thesis using calm_same [OF sent [OF refused(1)]] by (simp add: obeys_calm)
  next
    case (unanswered u w1)
    have s1: "w_sent w1 = w_sent w" by (rule sent [OF unanswered(1)])
    have "calm e w w'"
      by (rule calm_one) (use s1 unanswered(2,5) in \<open>auto simp: sends_def forbidden_at_def split: transport_outcome.splits\<close>)
    then show ?thesis by (simp add: obeys_calm split: attempt_outcome.splits)
  next
    case (answered u w1 ps1 rsp r2)
    have s1: "w_sent w1 = w_sent w" by (rule sent [OF answered(1)])
    have sw: "w_sent w' = Suc (w_sent w)" using answered(2) s1 by (simp add: sends_def)
    have lr: "last_refused e w w'" unfolding last_refused_def sw by (meson Suc_less_eq le_SucI not_le order_refl)
    show ?thesis
    proof (cases "rs_status rsp = 403")
      case False
      then have "calm e w w'" using answered(3) s1 by (intro calm_one sw) (simp add: forbidden_at_def)
      then show ?thesis by (simp add: obeys_calm split: attempt_outcome.splits)
    next
      case True
      have "\<exists>err. out = Finished (Inl err) \<and> \<not> is_collection_error err"
      proof (cases r2)
        case (Inl err)
        then show ?thesis using answered(6,7) preserve_error [OF answered(6) [unfolded Inl]] by (auto simp: handle_reply_def)
      next
        case (Inr v)
        then show ?thesis using answered(6,7) True by (auto simp: handle_reply_def is_collection_error_def)
      qed
      then show ?thesis using lr by (auto simp: obeys_def)
    qed
  qed
qed

lemma get_loop_obeys:
  "get_loop k e c rq (preserve st x cx) (count_attempt st x cx n) w ps = (r, w', ps') \<Longrightarrow> obeys e w (error_of r) w'"
proof (induction k arbitrary: w ps)
  case 0
  then show ?case by (simp add: obeys_calm calm_same)
next
  case (Suc k)
  let ?a = "cc_retry_attempts c - k"
  obtain out w1 ps1 where o: "attempt_once e c rq (preserve st x cx) (count_attempt st x cx n) ?a (k = 0) w ps = (out, w1, ps1)"
    by (metis prod_cases3)
  note ao = attempt_obeys [OF o]
  show ?case
  proof (cases out)
    case (Finished q)
    then show ?thesis using Suc.prems o ao by (simp add: Let_def)
  next
    case (Retry ra)
    have c: "calm e w (backoff e c ?a ra w1)" using ao Retry calm_trans [OF _ calm_quiet [OF quiet_backoff]] by simp
    have "get_loop k e c rq (preserve st x cx) (count_attempt st x cx n) (backoff e c ?a ra w1) ps1 = (r, w', ps')"
      using Suc.prems o Retry by (simp add: Let_def)
    from obeys_after [OF c Suc.IH [OF this]] show ?thesis .
  qed
qed

lemma fetch_page_obeys: "fetch_page st x cx rq w s = (r, w', ps) \<Longrightarrow> obeys (xt_env x) w (error_of r) w'"
  unfolding fetch_page_def client_get_def by (rule get_loop_obeys)

section \<open>Pages, windows, parts\<close>

lemma pause_sent: "pause_cursor e c reason w s = (q, w', s') \<Longrightarrow> w_sent w' = w_sent w"
  by (auto simp: pause_cursor_def Let_def split: prod.splits)

lemma fail_page_sent:
  "fail_page x i err c w s = (out, w', s') \<Longrightarrow> w_sent w' = w_sent w \<and> out = PageRaised err"
  by (auto simp: fail_page_def Let_def split: prod.splits)

lemma split_page_sent: "split_page st x cx i f c w s = (out, w', s') \<Longrightarrow> w_sent w' = w_sent w"
  by (auto simp: split_page_def Let_def split: prod.splits option.splits dest: pause_sent)

lemma read_wall_sent: "read_wall e w = (t, w') \<Longrightarrow> w_sent w' = w_sent w"
  by (auto simp: read_wall_def)

lemma advance_cursor_sent: "advance_cursor x cx rq f c w s = (out, w', s') \<Longrightarrow> w_sent w' = w_sent w"
  by (auto simp: advance_cursor_def Let_def split: prod.splits if_splits dest: pause_sent read_wall_sent)

lemma handle_feed_sent: "handle_feed st x cx rq i f c w s = (out, w', s') \<Longrightarrow> w_sent w' = w_sent w"
  by (auto simp: handle_feed_def split: if_splits option.splits dest: fail_page_sent split_page_sent advance_cursor_sent)

definition page_error :: "page_outcome \<Rightarrow> py_error option" where
  "page_error out = (case out of PageRaised e \<Rightarrow> Some e | _ \<Rightarrow> None)"

lemma collect_page_obeys:
  assumes "collect_page st x cx q pages c w s = (out, w', s')"
  shows "obeys (xt_env x) w (page_error out) w'"
  using assms
proof (cases rule: collect_page_cases)
  case (limit reason w1 o2)
  have "calm (xt_env x) w w1" by (rule calm_quiet) (use limit(1) in \<open>auto simp: page_limit_def runtime_exceeded_def
      quiet_reads split: if_splits prod.splits bool.splits option.splits\<close>)
  from obeys_before [OF obeys_calm [OF this] pause_sent [OF limit(2)]] show ?thesis .
next
  case (invalid e)
  have "calm (xt_env x) w w'" by (rule calm_quiet) (use invalid(1) in \<open>auto simp: page_limit_def runtime_exceeded_def
      quiet_reads split: if_splits prod.splits bool.splits option.splits\<close>)
  then show ?thesis by (rule obeys_calm)
next
  case (failed w1 err raw)
  have "calm (xt_env x) w w1" by (rule calm_quiet) (use failed(1) in \<open>auto simp: page_limit_def runtime_exceeded_def
      quiet_reads split: if_splits prod.splits bool.splits option.splits\<close>)
  from obeys_after [OF this fetch_page_obeys [OF failed(2)]] failed(3) show ?thesis by (simp add: page_error_def)
next
  case (fetched w1 rsp w2 s2 i)
  have "calm (xt_env x) w w1" by (rule calm_quiet) (use fetched(1) in \<open>auto simp: page_limit_def runtime_exceeded_def
      quiet_reads split: if_splits prod.splits bool.splits option.splits\<close>)
  from obeys_after [OF this fetch_page_obeys [OF fetched(2)]] have c: "calm (xt_env x) w w2" by (simp add: obeys_def)
  have "w_sent w' = w_sent w2"
    using fetched(3) by (auto split: sum.splits if_splits dest: fail_page_sent handle_feed_sent)
  from obeys_before [OF obeys_calm [OF c] this] show ?thesis .
qed

lemma collect_pages_obeys:
  "collect_pages st x cx q pages c w s = (r, w', s') \<Longrightarrow> obeys (xt_env x) w (error_of r) w'"
proof (induction "nat (as_max_requests_per_run st - api_requests s)" arbitrary: pages c w s rule: less_induct)
  case less
  obtain out w1 s1 where p: "collect_page st x cx q pages c w s = (out, w1, s1)" by (metis prod_cases3)
  note one = collect_page_obeys [OF p]
  note run = less.prems [unfolded collect_pages.simps [of st x cx q pages] p prod.case]
  show ?case
  proof (cases out)
    case (PageNext c2)
    have c: "calm (xt_env x) w w1" using one PageNext by (simp add: page_error_def obeys_def)
    have "obeys (xt_env x) w1 (error_of r) w'"
      using less.hyps [of s1 "pages + 1" c2 w1] run collect_page_budget(2) [OF p PageNext] PageNext by simp
    from obeys_after [OF c this] show ?thesis .
  qed (use run one in \<open>auto simp: page_error_def\<close>)
qed

lemma collect_window_obeys:
  assumes "collect_window st x cx override w s = (r, w', s')"
  shows "obeys (xt_env x) w (error_of r) w'"
proof -
  obtain c w1 s1 where c: "(case override of Some c \<Rightarrow> (c, w, s) | None \<Rightarrow>
      window_cursor (xt_env x) (cx_mapping cx) (cx_window cx) w s) = (c, w1, s1)" by (metis prod_cases3)
  have one: "calm (xt_env x) w w1"
    by (rule calm_same) (use c in \<open>auto simp: window_cursor_def split: option.splits dest: ensure_cursor_frame(3)\<close>)
  obtain w2 s2 where v: "save_cursor (xt_env x) (running_cursor cx c) w1 s1 = (w2, s2)" by (metis prod.collapse)
  have two: "calm (xt_env x) w w2" using one save_cursor_frame(3) [OF v] by (simp add: calm_def)
  show ?thesis
    using assms c v obeys_calm [OF one] obeys_calm [OF two] obeys_after [OF two collect_pages_obeys]
    by (auto simp: collect_window_def Let_def split: if_splits sum.splits)
qed

lemma part_cursor_sent: "part_cursor e m root child w s = (c, w', s') \<Longrightarrow> w_sent w' = w_sent w"
  unfolding part_cursor_def by (rule ensure_cursor_frame(3))

lemma collect_parts_obeys:
  "collect_parts st x cx parent prt pending completed w s = (r, w', s') \<Longrightarrow> obeys (xt_env x) w (error_of r) w'"
proof (induction "(nat (as_max_requests_per_run st - api_requests s), length pending)"
    arbitrary: parent prt pending completed w s rule: less_induct)
  case less
  show ?case
  proof (cases pending)
    case Nil
    then have "w_sent w' = w_sent w"
      using less.prems by (auto simp: collect_parts.simps Let_def split: prod.splits dest: read_wall_sent)
    then show ?thesis by (intro obeys_calm calm_same)
  next
    case (Cons p rest)
    note run = less.prems [unfolded Cons collect_parts.simps(2) [of st x cx parent prt p rest completed w s]]
    show ?thesis
    proof (cases "window_of_payload x p")
      case (Inl err)
      then show ?thesis using run by (simp add: obeys_calm calm_same)
    next
      case (Inr child)
      let ?item = "plan_item (cx_topic cx) (cx_mapping cx) (cx_base_query cx) child (cx_page_size cx)"
      obtain cc w1 s1 where pc: "part_cursor (xt_env x) (cx_mapping cx) (cx_window cx) child w (plan_query ?item s) = (cc, w1, s1)"
        by (metis prod_cases3)
      obtain o2 w2 s2 where cw: "collect_window st x (part_context cx child) (Some cc) w1 s1 = (o2, w2, s2)"
        by (metis prod_cases3)
      have two: "obeys (xt_env x) w (error_of o2) w2"
        by (rule obeys_after [OF calm_same [OF part_cursor_sent [OF pc]] collect_window_obeys [OF cw]])
      note step = run [unfolded Inr sum.case pc prod.case cw]
      show ?thesis
      proof (cases o2)
        case (Inl err)
        then show ?thesis using step two obeys_before by (auto split: prod.splits dest: save_cursor_frame(3))
      next
        case (Inr out)
        then have two': "calm (xt_env x) w w2" using two by (simp add: obeys_def)
        show ?thesis
        proof (cases "wo_split out = None \<and> wo_status out \<noteq> CursorSucceeded")
          case True
          then have "w_sent w' = w_sent w2"
            using step Inr by (auto simp: Let_def split: prod.splits dest: save_cursor_frame(3))
          then show ?thesis using obeys_before [OF obeys_calm [OF two']] by blast
        next
          case False
          obtain parent' prt' pending' completed' w3 s3 where n: "save_cursor (xt_env x) parent' w2 s2 = (w3, s3)"
            "collect_parts st x cx parent' prt' pending' completed' w3 s3 = (r, w', s')"
            "wo_split out = None \<Longrightarrow> length pending' < length pending"
            using step Inr False Cons by (auto simp: Let_def split: prod.splits option.splits)
          have "(nat (as_max_requests_per_run st - api_requests s3), length pending')
              < (nat (as_max_requests_per_run st - api_requests s), length pending)"
            using part_step_budget [OF pc cw [unfolded Inr] n(1)] n(3) unfolding less_prod_simp
            by (cases "wo_split out = None") linarith+
          note IH = less.hyps [OF this n(2)]
          have "calm (xt_env x) w w3" using two' save_cursor_frame(3) [OF n(1)] by (simp add: calm_def)
          from obeys_after [OF this IH] show ?thesis .
        qed
      qed
    qed
  qed
qed

lemma collect_incremental_obeys:
  assumes "collect_incremental st x cx parent w s = (r, w', s')"
  shows "obeys (xt_env x) w (error_of r) w'"
proof (cases "partition_checkpoint parent (cx_window cx)")
  case (Some prt)
  then show ?thesis using assms by (auto simp: collect_incremental_def intro: collect_parts_obeys)
next
  case None
  obtain o2 w1 s1 where cw: "collect_window st x cx (Some parent) w s = (o2, w1, s1)" by (metis prod_cases3)
  note one = collect_window_obeys [OF cw]
  show ?thesis
  proof (cases "\<exists>q l r2. o2 = Inr q \<and> wo_split q = Some (l, r2)")
    case False
    then have "r = o2" "w' = w1" using assms None cw
      by (auto simp: collect_incremental_def split: sum.splits option.splits)
    with one show ?thesis by simp
  next
    case True
    then obtain q l r2 where q: "o2 = Inr q" "wo_split q = Some (l, r2)" by blast
    let ?par = "partition_parent (current_cursor parent s1) (new_partition st (cx_window cx) (l, r2)) ''large_query_partition''"
    obtain w2 s2 where v: "save_cursor (xt_env x) ?par w1 s1 = (w2, s2)" by (metis prod.collapse)
    have "calm (xt_env x) w w2" using one q save_cursor_frame(3) [OF v] by (simp add: obeys_def calm_def)
    then show ?thesis
      using assms None cw q v obeys_after [OF _ collect_parts_obeys] by (auto simp: collect_incremental_def Let_def)
  qed
qed

section \<open>Runs\<close>

lemma incremental_error_calm:
  assumes "incremental_error x ro m c err w s = (out, w', s')"
  shows "w_sent w' = w_sent w \<and> (out = RunNext \<longrightarrow> is_collection_error err)"
  using assms by (auto simp: incremental_error_def fail_incremental_parent_def split: if_splits prod.splits
      dest!: record_error_frame(3) save_cursor_frame(3))

lemma collect_mapping_obeys:
  assumes "collect_mapping st x ro mt w s = (out, w', s')"
  shows "last_refused (xt_env x) w w' \<and> (out = RunNext \<longrightarrow> calm (xt_env x) w w')"
proof -
  obtain m t where mt: "mt = (m, t)" by (cases mt)
  obtain b w1 where rt: "runtime_exceeded (xt_env x) st (ro_started ro) w = (b, w1)"
    by (cases "runtime_exceeded (xt_env x) st (ro_started ro) w")
  have one: "calm (xt_env x) w w1"
    by (rule calm_quiet) (use rt in \<open>auto simp: runtime_exceeded_def quiet_reads split: prod.splits\<close>)
  note run = assms [unfolded collect_mapping_def mt prod.case rt]
  show ?thesis
  proof (cases b)
    case True
    then show ?thesis using run one calm_last [OF one] by auto
  next
    case b: False
    let ?s1 = "execute_mapping s"
    obtain c0 w2 s2 where ic: "incremental_cursor (xt_env x) m w1 ?s1 = (c0, w2, s2)" by (metis prod_cases3)
    obtain win c where iw: "incremental_window st c0 (ro_observed_until ro) = (win, c)" by fastforce
    have two: "calm (xt_env x) w w2"
      using one ensure_cursor_frame(3) [OF ic [unfolded incremental_cursor_def]] by (simp add: calm_def)
    show ?thesis
    proof (cases "from_mapping m ''arxiv''")
      case (Inl err)
      then show ?thesis using run b ic iw calm_last [OF two] by (auto simp: Let_def)
    next
      case (Inr q)
      let ?s3 = "plan_query (plan_item t m q win (ro_page_size ro)) s2"
      obtain o2 w3 s3 where ci: "collect_incremental st x (run_context ro m t q win Incremental) c w2 ?s3 = (o2, w3, s3)"
        by (metis prod_cases3)
      have three: "obeys (xt_env x) w (error_of o2) w3" by (rule obeys_after [OF two collect_incremental_obeys [OF ci]])
      note step = run [unfolded Let_def ic prod.case iw Inr sum.case ci]
      show ?thesis
      proof (cases o2)
        case (Inl err)
        then have e: "incremental_error x ro m c err w3 s3 = (out, w', s')" using step b by simp
        have "obeys (xt_env x) w (Some err) w'"
          using obeys_before [OF three] incremental_error_calm [OF e] Inl by simp
        then show ?thesis using incremental_error_calm [OF e] obeys_last obeys_continue(2) by blast
      next
        case (Inr out2)
        then have "calm (xt_env x) w w3" using three by (simp add: obeys_def)
        moreover have "w' = w3" using step b Inr by (auto split: if_splits)
        ultimately show ?thesis using calm_last by blast
      qed
    qed
  qed
qed

lemma collect_mappings_refused:
  "collect_mappings st x ro mts w s = (r, w', s') \<Longrightarrow> last_refused (xt_env x) w w'"
proof (induction mts arbitrary: w s)
  case Nil
  then show ?case by (simp add: calm_last calm_same)
next
  case (Cons mt rest)
  obtain out w1 s1 where o: "collect_mapping st x ro mt w s = (out, w1, s1)" by (metis prod_cases3)
  note one = collect_mapping_obeys [OF o]
  show ?case
  proof (cases out)
    case RunNext
    then have "collect_mappings st x ro rest w1 s1 = (r, w', s')" using Cons.prems o by simp
    from last_refused_after [OF _ Cons.IH [OF this]] one RunNext show ?thesis by blast
  qed (use Cons.prems o one in auto)
qed

lemma last_refused_before: "last_refused e w w1 \<Longrightarrow> w_sent w' = w_sent w1 \<Longrightarrow> last_refused e w w'"
  by (simp add: last_refused_def)

lemma end_run_sent: "end_run st x rg mode run w s = (r, w', s') \<Longrightarrow> w_sent w' = w_sent w"
  by (auto simp: end_run_def finish_run_def quality_counts_def Let_def split: prod.splits dest!: read_wall_sent)

lemma start_run_sent: "start_run st e src mode trigger a b w s = (run, w', s') \<Longrightarrow> w_sent w' = w_sent w"
  by (auto simp: start_run_def Let_def split: prod.splits dest!: read_wall_sent)

lemma read_clock_sent: "read_clock e w = (t, w') \<Longrightarrow> w_sent w' = w_sent w"
  by (auto simp: read_clock_def Let_def)

lemma collect_refused:
  assumes "collect st x rg slugs page_size max_pages trigger w s = (r, w', s')"
  shows "last_refused (xt_env x) w w'"
proof (cases "\<exists>mappings src. enabled_mappings rg slugs = Inr mappings \<and> arxiv_source rg = Inr src")
  case False
  then have "w_sent w' = w_sent w"
    using assms by (auto simp: collect_def Let_def split: sum.splits prod.splits dest!: read_wall_sent)
  then show ?thesis by (intro calm_last calm_same)
next
  case True
  then obtain mappings src where ms: "enabled_mappings rg slugs = Inr mappings" "arxiv_source rg = Inr src" by blast
  obtain until w1 where n: "read_wall (xt_env x) w = (until, w1)" by (cases "read_wall (xt_env x) w")
  let ?s1 = "s\<lparr>sv_acc := new_run_accumulator until mappings\<rparr>"
  obtain run w2 s2 where sr: "start_run st (xt_env x) src ''incremental'' trigger (until - as_overlap_hours st * hour_us) until w1 ?s1
      = (run, w2, s2)" by (metis prod_cases3)
  obtain started w3 where rc: "read_clock (xt_env x) w2 = (started, w3)" by (cases "read_clock (xt_env x) w2")
  let ?ro = "\<lparr>ro_run = run, ro_max_pages = max_pages, ro_page_size = size_or_default st page_size,
      ro_started = started, ro_observed_until = until\<rparr>"
  obtain o4 w4 s4 where cm: "collect_mappings st x ?ro mappings w3 s2 = (o4, w4, s4)" by (metis prod_cases3)
  have "w_sent w3 = w_sent w" using read_wall_sent [OF n] start_run_sent [OF sr] read_clock_sent [OF rc] by simp
  from last_refused_after [OF calm_same [OF this] collect_mappings_refused [OF cm]]
  have "last_refused (xt_env x) w w4" .
  then show ?thesis
    using assms ms n sr rc cm last_refused_before end_run_sent by (auto simp: collect_def split: sum.splits)
qed

lemma backfill_windows_refused:
  "backfill_windows st x ro m t q pending failed w s = (r, w', s') \<Longrightarrow>
     last_refused (xt_env x) w w' \<and> (\<forall>b. r = Inr b \<longrightarrow> \<not> bs_forbidden b \<longrightarrow> calm (xt_env x) w w')"
proof (induction "(nat (as_max_requests_per_run st - api_requests s), length pending)"
    arbitrary: pending failed w s rule: less_induct)
  case less
  show ?case
  proof (cases pending)
    case Nil
    then have "w' = w" using less.prems by (simp add: backfill_windows.simps)
    then show ?thesis using calm_same [of w w] calm_last by blast
  next
    case (Cons win rest)
    obtain o2 w1 s1 where cw: "collect_window st x (run_context ro m t q win Backfill) None w s = (o2, w1, s1)"
      by (metis prod_cases3)
    note one = collect_window_obeys [OF cw]
    note run = less.prems [unfolded Cons backfill_windows.simps(2) [of st x ro m t q win rest failed w s] cw prod.case]
    have next_windows: ?thesis
      if "backfill_windows st x ro m t q pending' failed' w2 s2 = (r, w', s')" "calm (xt_env x) w w2"
        "api_requests s \<le> api_requests s2"
        "length pending' < length pending \<or> api_requests s < api_requests s2 \<and> api_requests s < as_max_requests_per_run st"
      for pending' failed' w2 s2
    proof -
      have "nat (as_max_requests_per_run st - api_requests s2) \<le> nat (as_max_requests_per_run st - api_requests s)"
        using that(3) by simp
      moreover have "length pending' < length pending \<or>
          nat (as_max_requests_per_run st - api_requests s2) < nat (as_max_requests_per_run st - api_requests s)"
        using that(4) by linarith
      ultimately have "(nat (as_max_requests_per_run st - api_requests s2), length pending')
          < (nat (as_max_requests_per_run st - api_requests s), length pending)"
        unfolding less_prod_simp by linarith
      from less.hyps [OF this that(1)] show ?thesis
        using last_refused_after [OF that(2)] calm_trans [OF that(2)] by blast
    qed
    show ?thesis
    proof (cases o2)
      case (Inl err)
      obtain w2 s2 where re: "record_error (xt_env x) (ro_run ro) m err (is_forbidden err) w1 s1 = (w2, s2)"
        by (cases "record_error (xt_env x) (ro_run ro) m err (is_forbidden err) w1 s1")
      note f = record_error_frame(1,3) [OF re]
      have two: "obeys (xt_env x) w (Some err) w2" using obeys_before [OF one f(2)] Inl by simp
      have api: "api_requests s \<le> api_requests (count_error (mapping_id m) s2)"
        using f(1) collect_window_budget(1) [OF cw] by simp
      show ?thesis
      proof (cases "\<not> is_forbidden err \<and> is_collection_error err")
        case True
        then have "backfill_windows st x ro m t q rest True w2 (count_error (mapping_id m) s2) = (r, w', s')"
          using run Inl re by simp
        from next_windows [OF this obeys_continue(2) [OF two] api] True Cons show ?thesis by simp
      next
        case False
        have "w_sent w' = w_sent w1" "\<And>b. r = Inr b \<Longrightarrow> bs_forbidden b"
          using run Inl re False f(2) by (auto split: if_splits)
        then show ?thesis using last_refused_before [OF obeys_last [OF one]] by auto
      qed
    next
      case (Inr out)
      have c: "calm (xt_env x) w w1" using one Inr by (simp add: obeys_def)
      note b = collect_window_budget [OF cw]
      show ?thesis
      proof (cases "wo_split out")
        case None
        then show ?thesis
          using run Inr Cons b(1) next_windows [OF _ c] by (auto split: if_splits)
      next
        case (Some parts)
        then show ?thesis
          using run Inr b(1) b(2) [OF Inr] next_windows [OF _ c] by (cases parts) auto
      qed
    qed
  qed
qed

lemma backfill_mapping_refused:
  assumes "backfill_mapping st x ro windows mt w s = (out, w', s')"
  shows "last_refused (xt_env x) w w' \<and> (out = RunNext \<longrightarrow> calm (xt_env x) w w')"
proof -
  obtain m t where mt: "mt = (m, t)" by (cases mt)
  obtain b w1 where rt: "runtime_exceeded (xt_env x) st (ro_started ro) w = (b, w1)"
    by (cases "runtime_exceeded (xt_env x) st (ro_started ro) w")
  have one: "calm (xt_env x) w w1"
    by (rule calm_quiet) (use rt in \<open>auto simp: runtime_exceeded_def quiet_reads split: prod.splits\<close>)
  note run = assms [unfolded backfill_mapping_def mt prod.case rt]
  show ?thesis
  proof (cases "b \<or> (\<exists>err. from_mapping m ''arxiv'' = Inl err)")
    case True
    then have "w' = w1" using run by (auto simp: Let_def split: bool.splits)
    then show ?thesis using one calm_last by blast
  next
    case False
    then obtain q where q: "from_mapping m ''arxiv'' = Inr q" "\<not> b" by (cases "from_mapping m ''arxiv''") auto
    obtain o2 w2 s2 where bw: "backfill_windows st x ro m t q windows False w1 (execute_mapping s) = (o2, w2, s2)"
      by (metis prod_cases3)
    note two = backfill_windows_refused [OF bw]
    have "w' = w2" "out = RunNext \<Longrightarrow> \<exists>v. o2 = Inr v \<and> \<not> bs_forbidden v"
      using run q bw by (auto simp: Let_def split: sum.splits if_splits)
    then show ?thesis using two last_refused_after [OF one] calm_trans [OF one] by blast
  qed
qed

lemma backfill_mappings_refused:
  "backfill_mappings st x ro windows mts w s = (r, w', s') \<Longrightarrow> last_refused (xt_env x) w w'"
proof (induction mts arbitrary: w s)
  case Nil
  then show ?case by (simp add: calm_last calm_same)
next
  case (Cons mt rest)
  obtain out w1 s1 where o: "backfill_mapping st x ro windows mt w s = (out, w1, s1)" by (metis prod_cases3)
  note one = backfill_mapping_refused [OF o]
  show ?case
  proof (cases out)
    case RunNext
    then have "backfill_mappings st x ro windows rest w1 s1 = (r, w', s')" using Cons.prems o by simp
    from last_refused_after [OF _ Cons.IH [OF this]] one RunNext show ?thesis by blast
  qed (use Cons.prems o one in auto)
qed

lemma backfill_refused:
  assumes "backfill st x rg slugs a0 b0 dry max_pages page_size w s = (r, w', s')"
  shows "last_refused (xt_env x) w w'"
proof (cases "result_bind (require_aware a0) (\<lambda>a. result_bind (require_aware b0) (\<lambda>b.
          if b \<le> a then Inl (ArxivCollectionError ''backfill --until must be after --from'')
          else result_bind (enabled_mappings rg slugs) (\<lambda>mappings.
            result_bind (partition_windows a b (as_backfill_window_days st)) (\<lambda>windows. Inr (a, b, mappings, windows)))))")
  case (Inl err)
  then have "w' = w" using assms by (simp add: backfill_def)
  then show ?thesis using calm_last [OF calm_same] by blast
next
  case (Inr args)
  obtain a b mappings windows where args: "args = (a, b, mappings, windows)" by (cases args)
  obtain begun w1 where n: "read_wall (xt_env x) w = (begun, w1)" by (cases "read_wall (xt_env x) w")
  note s1 = read_wall_sent [OF n]
  note run = assms [unfolded backfill_def Inr sum.case args prod.case n]
  show ?thesis
  proof (cases "dry \<or> (\<exists>err. result_map (plan_mapping (size_or_default st page_size) windows) mappings = Inl err)
      \<or> (\<exists>err. arxiv_source rg = Inl err)")
    case True
    then have "w_sent w' = w_sent w"
      using run s1 by (auto simp: Let_def split: sum.splits prod.splits if_splits dest!: read_wall_sent)
    then show ?thesis by (intro calm_last calm_same)
  next
    case False
    then obtain plans src where p: "result_map (plan_mapping (size_or_default st page_size) windows) mappings = Inr plans"
      "arxiv_source rg = Inr src" "\<not> dry" by (metis sum.exhaust)
    let ?s1 = "s\<lparr>sv_acc := (new_run_accumulator begun mappings)\<lparr>acc_planned_queries := concat plans\<rparr>\<rparr>"
    obtain rn w2 s2 where sr: "start_run st (xt_env x) src ''backfill'' ''manual'' a b w1 ?s1 = (rn, w2, s2)"
      by (metis prod_cases3)
    obtain started w3 where rc: "read_clock (xt_env x) w2 = (started, w3)" by (cases "read_clock (xt_env x) w2")
    let ?ro = "\<lparr>ro_run = rn, ro_max_pages = max_pages, ro_page_size = size_or_default st page_size,
        ro_started = started, ro_observed_until = b\<rparr>"
    obtain o4 w4 s4 where bm: "backfill_mappings st x ?ro windows mappings w3 s2 = (o4, w4, s4)" by (metis prod_cases3)
    have "w_sent w3 = w_sent w" using s1 start_run_sent [OF sr] read_clock_sent [OF rc] by simp
    from last_refused_after [OF calm_same [OF this] backfill_mappings_refused [OF bm]]
    have "last_refused (xt_env x) w w4" .
    then show ?thesis
      using run p sr rc bm last_refused_before end_run_sent by (auto simp: Let_def split: sum.splits)
  qed
qed

text \<open>
  C19: A 403 reply ends the run.  Whatever the answers, the stored state and the failures of the store, in a run
  of collect or of backfill (over any number of topics, windows, partitions and pages) no request is sent
  after a reply with status 403: such a reply can only be the one to the last request of the run.  The
  client does not retry it, no window or page after it is fetched, and the loop over topics stops.
\<close>
theorem refusal_ends_run:
  "(case collect st x rg slugs page_size max_pages trigger w s of (r, w', s') \<Rightarrow> last_refused (xt_env x) w w') \<and>
   (case backfill st x rg slugs a b dry max_pages page_size w s of (r, w', s') \<Rightarrow> last_refused (xt_env x) w w')"
  by (auto split: prod.splits intro: collect_refused backfill_refused)

end
