(* ===== verification/Registry_Models.thy ===== *)
theory Registry_Models
  imports Db_Models
begin

text \<open>
  The topic registry as written by people: \<open>topic_registry/models.py\<close>, \<open>normalization.py\<close> and
  \<open>source_catalog.py\<close>.  A definition is what pydantic has accepted from a YAML file; the field constraints
  of the classes are the predicates \<open>..._valid\<close>.  Unicode NFKC normalisation is the parameter \<open>nfkc\<close>.
\<close>


section \<open>Normalisation\<close>

definition normalize_whitespace :: "(string \<Rightarrow> string) \<Rightarrow> string \<Rightarrow> string" where
  "normalize_whitespace nfkc v = join '' '' (split_words (strip (nfkc v)))"

definition normalize_alias :: "(string \<Rightarrow> string) \<Rightarrow> bool \<Rightarrow> string \<Rightarrow> string" where
  "normalize_alias nfkc case_sensitive v =
     (let normalized = normalize_whitespace nfkc v in if case_sensitive then normalized else casefold normalized)"

definition normalize_canonical_name :: "(string \<Rightarrow> string) \<Rightarrow> string \<Rightarrow> string" where
  "normalize_canonical_name nfkc v = casefold (normalize_whitespace nfkc v)"


section \<open>Definitions\<close>

record category_def =
  cd_name :: string
  cd_slug :: string
  cd_description :: "string option"
  cd_parent :: "string option"
  cd_sort_order :: int

record alias_def =
  ad_value :: string
  ad_type :: alias_type
  ad_match_mode :: match_mode
  ad_case_sensitive :: bool
  ad_status :: alias_status
  ad_confidence :: int \<comment> \<open>in millionths\<close>
  ad_metadata :: jdict

definition alias_normal :: "(string \<Rightarrow> string) \<Rightarrow> alias_def \<Rightarrow> string" where
  "alias_normal nfkc a = normalize_alias nfkc (ad_case_sensitive a) (ad_value a)"

text \<open>The four classes of source configuration differ in the name of the field that holds the values.\<close>

record source_config =
  sc_enabled :: bool
  sc_values :: "string list"

datatype source_kind = Arxiv | Github | HackerNews | Wikipedia

fun source_kind_name :: "source_kind \<Rightarrow> string" where
  "source_kind_name Arxiv = ''arxiv''"
| "source_kind_name Github = ''github''"
| "source_kind_name HackerNews = ''hacker_news''"
| "source_kind_name Wikipedia = ''wikipedia''"

fun values_field :: "source_kind \<Rightarrow> string" where
  "values_field Arxiv = ''search_terms''"
| "values_field Github = ''search_queries''"
| "values_field HackerNews = ''terms''"
| "values_field Wikipedia = ''page_titles''"

definition source_config_valid :: "source_config \<Rightarrow> bool" where
  "source_config_valid c = (\<not> (sc_enabled c \<and> sc_values c = []))"

record sources_def =
  sd_arxiv :: "source_config option"
  sd_github :: "source_config option"
  sd_hacker_news :: "source_config option"
  sd_wikipedia :: "source_config option"

definition source_items :: "sources_def \<Rightarrow> (source_kind \<times> source_config) list" where
  "source_items s = somes (map (\<lambda>(k, c). map_option (Pair k) c)
     [(Arxiv, sd_arxiv s), (Github, sd_github s), (HackerNews, sd_hacker_news s), (Wikipedia, sd_wikipedia s)])"

record topic_def =
  td_canonical_name :: string
  td_slug :: string
  td_description :: string
  td_category :: string
  td_status :: topic_status
  td_priority :: int
  td_aliases :: "alias_def list"
  td_sources :: sources_def
  td_metadata :: jdict

record collision_def =
  al_alias :: string
  al_topics :: "string list"
  al_reason :: string

record registry_file =
  rf_categories :: "category_def list"
  rf_topics :: "topic_def list"
  rf_collisions :: "collision_def list"

datatype issue_severity = IssueError | IssueWarning

fun issue_severity_value :: "issue_severity \<Rightarrow> string" where
  "issue_severity_value IssueError = ''error''"
| "issue_severity_value IssueWarning = ''warning''"

record registry_issue =
  ri_code :: string
  ri_message :: string
  ri_severity :: issue_severity
  ri_source_file :: "string option"
  ri_entity :: "string option"

record loaded_registry =
  lr_categories :: "category_def list"
  lr_topics :: "topic_def list"
  lr_collisions :: "collision_def list"
  lr_source_files :: "string list"
  lr_checksum :: string
  lr_issues :: "registry_issue list"

definition alias_count :: "loaded_registry \<Rightarrow> int" where
  "alias_count r = sum_list (map (\<lambda>t. int (length (td_aliases t))) (lr_topics r))"

definition mapping_count :: "loaded_registry \<Rightarrow> int" where
  "mapping_count r = sum_list (map (\<lambda>t. int (length (source_items (td_sources t)))) (lr_topics r))"

definition registry_warnings :: "loaded_registry \<Rightarrow> registry_issue list" where
  "registry_warnings r = filter (\<lambda>i. ri_severity i = IssueWarning) (lr_issues r)"


section \<open>Field constraints\<close>

definition slug_char :: "char \<Rightarrow> bool" where
  "slug_char c = (let n = (of_char c :: nat) in (97 \<le> n \<and> n \<le> 122) \<or> (48 \<le> n \<and> n \<le> 57))"

text \<open>\<open>^[a-z0-9]+(?:-[a-z0-9]+)*$\<close>; the flag says whether the group read last has a character.\<close>

fun slug_groups :: "bool \<Rightarrow> string \<Rightarrow> bool" where
  "slug_groups seen [] = seen"
| "slug_groups seen (c # cs) =
     (if slug_char c then slug_groups True cs else c = CHR ''-'' \<and> seen \<and> slug_groups False cs)"

definition slug_pattern :: "string \<Rightarrow> bool" where
  "slug_pattern s = slug_groups False s"

definition within :: "nat \<Rightarrow> nat \<Rightarrow> string \<Rightarrow> bool" where
  "within a b s = (a \<le> length s \<and> length s \<le> b)"

definition category_valid :: "category_def \<Rightarrow> bool" where
  "category_valid c =
     (within 1 150 (cd_name c) \<and> slug_pattern (cd_slug c) \<and> length (cd_slug c) \<le> 150 \<and>
      (case cd_description c of None \<Rightarrow> True | Some d \<Rightarrow> length d \<le> 2000) \<and>
      (case cd_parent c of None \<Rightarrow> True | Some p \<Rightarrow> slug_pattern p \<and> length p \<le> 150) \<and>
      0 \<le> cd_sort_order c \<and> cd_sort_order c \<le> 10000)"

definition alias_valid :: "alias_def \<Rightarrow> bool" where
  "alias_valid a = (within 1 250 (ad_value a) \<and> 0 \<le> ad_confidence a \<and> ad_confidence a \<le> 1000000)"

definition topic_valid :: "topic_def \<Rightarrow> bool" where
  "topic_valid t =
     (within 1 250 (td_canonical_name t) \<and> slug_pattern (td_slug t) \<and> length (td_slug t) \<le> 250 \<and>
      within 10 4000 (td_description t) \<and> slug_pattern (td_category t) \<and> length (td_category t) \<le> 150 \<and>
      0 \<le> td_priority t \<and> td_priority t \<le> 100 \<and> list_all alias_valid (td_aliases t) \<and>
      list_all (\<lambda>(k, c). source_config_valid c) (source_items (td_sources t)))"

definition collision_valid :: "collision_def \<Rightarrow> bool" where
  "collision_valid c =
     (within 1 250 (al_alias c) \<and> 2 \<le> length (al_topics c) \<and> within 8 1000 (al_reason c) \<and> distinct (al_topics c))"

definition file_valid :: "registry_file \<Rightarrow> bool" where
  "file_valid f = (list_all category_valid (rf_categories f) \<and> list_all topic_valid (rf_topics f) \<and>
     list_all collision_valid (rf_collisions f))"


section \<open>The source catalogue\<close>

record source_spec =
  spec_name :: string
  spec_kind :: string
  spec_base_url :: string

fun source_catalog :: "source_kind \<Rightarrow> source_spec" where
  "source_catalog Arxiv = \<lparr>spec_name = ''arxiv'', spec_kind = ''api'', spec_base_url = ''https://export.arxiv.org/api''\<rparr>"
| "source_catalog Github = \<lparr>spec_name = ''github'', spec_kind = ''api'', spec_base_url = ''https://api.github.com''\<rparr>"
| "source_catalog HackerNews =
     \<lparr>spec_name = ''hacker_news'', spec_kind = ''api'', spec_base_url = ''https://hacker-news.firebaseio.com''\<rparr>"
| "source_catalog Wikipedia =
     \<lparr>spec_name = ''wikipedia'', spec_kind = ''api'', spec_base_url = ''https://en.wikipedia.org/w/api.php''\<rparr>"

lemma source_kind_name_inj [simp]: "source_kind_name a = source_kind_name b \<longleftrightarrow> a = b"
  by (cases a; cases b) simp_all

lemma spec_name_catalog [simp]: "spec_name (source_catalog k) = source_kind_name k"
  by (cases k) simp_all

lemma distinct_source_items [simp]: "distinct (map fst (source_items s))"
  by (auto simp: source_items_def split: option.splits)

lemma values_field_inj [simp]: "values_field a = values_field b \<longleftrightarrow> a = b"
  by (cases a; cases b) simp_all

end
