(* ===== verification/Registry_Checksum.thy ===== *)
theory Registry_Checksum
  imports Registry_Models Calendar "HOL-Library.Multiset"
begin

text \<open>
  \<open>topic_registry/checksum.py\<close>: the canonical payload of a registry, \<open>json.dumps\<close> with sorted keys and
  \<open>ensure_ascii=False\<close>, and the checksum.  SHA-256 of the UTF-8 text is the parameter \<open>sha\<close>.
\<close>


section \<open>Serialisation\<close>

definition json_escape_char :: "char \<Rightarrow> string" where
  "json_escape_char c =
     (let n = (of_char c :: nat) in
      if n = 34 then [CHR 0x5C, c] else if n = 92 then [c, c]
      else if n = 8 then [CHR 0x5C, CHR ''b''] else if n = 9 then [CHR 0x5C, CHR ''t'']
      else if n = 10 then [CHR 0x5C, CHR ''n''] else if n = 12 then [CHR 0x5C, CHR ''f'']
      else if n = 13 then [CHR 0x5C, CHR ''r'']
      else if n < 32 then [CHR 0x5C] @ ''u00'' @ [hex_digit (n div 16), hex_digit (n mod 16)]
      else [c])"

definition json_quote :: "string \<Rightarrow> string" where
  "json_quote s = CHR 0x22 # concat (map json_escape_char s) @ [CHR 0x22]"

text \<open>The two arguments are the separators of items and of keys.\<close>

fun json_print :: "string \<Rightarrow> string \<Rightarrow> json \<Rightarrow> string" where
  "json_print i k JNull = ''null''"
| "json_print i k (JBool b) = (if b then ''true'' else ''false'')"
| "json_print i k (JInt n) = show_int n"
| "json_print i k (JFloat m) = float_text m"
| "json_print i k (JStr s) = json_quote s"
| "json_print i k (JTime t) = json_quote (iso_time t)"
| "json_print i k (JDate d) = json_quote (iso_date d)"
| "json_print i k (JList xs) = ''['' @ join i (map (json_print i k) xs) @ '']''"
| "json_print i k (JObj d) = ''{'' @ join i (map (\<lambda>(key, v). json_quote key @ k @ json_print i k v) d) @ ''}''"

definition dumps :: "string \<Rightarrow> string \<Rightarrow> json \<Rightarrow> string" where
  "dumps i k j = json_print i k (json_canon j)"

abbreviation dumps_default :: "json \<Rightarrow> string" where
  "dumps_default \<equiv> dumps '', '' '': ''"


section \<open>The payload\<close>

fun canonicalize :: "json \<Rightarrow> json" where
  "canonicalize (JObj d) = JObj (sort_key fst (map (\<lambda>(k, v). (k, canonicalize v)) d))"
| "canonicalize (JList xs) = JList (sort_key dumps_default (map canonicalize xs))"
| "canonicalize j = j"

text \<open>\<open>model_dump(mode="json", by_alias=True, exclude_none=True)\<close>\<close>

definition when_some :: "string \<Rightarrow> ('a \<Rightarrow> json) \<Rightarrow> 'a option \<Rightarrow> jdict" where
  "when_some k f x = (case x of None \<Rightarrow> [] | Some v \<Rightarrow> [(k, f v)])"

definition category_dump :: "category_def \<Rightarrow> json" where
  "category_dump c = JObj ([(''name'', JStr (cd_name c)), (''slug'', JStr (cd_slug c))] @
     when_some ''description'' JStr (cd_description c) @ when_some ''parent'' JStr (cd_parent c) @
     [(''sort_order'', JInt (cd_sort_order c))])"

definition alias_dump :: "alias_def \<Rightarrow> json" where
  "alias_dump a = JObj [(''value'', JStr (ad_value a)), (''type'', JStr (alias_type_value (ad_type a))),
     (''match_mode'', JStr (match_mode_value (ad_match_mode a))), (''case_sensitive'', JBool (ad_case_sensitive a)),
     (''status'', JStr (alias_status_value (ad_status a))), (''confidence'', JFloat (ad_confidence a)),
     (''metadata'', JObj (ad_metadata a))]"

definition config_dump :: "source_kind \<Rightarrow> source_config \<Rightarrow> jdict" where
  "config_dump k c = [(values_field k, JList (map JStr (sc_values c)))]"

definition topic_dump :: "topic_def \<Rightarrow> json" where
  "topic_dump t = JObj [(''canonical_name'', JStr (td_canonical_name t)), (''slug'', JStr (td_slug t)),
     (''description'', JStr (td_description t)), (''category'', JStr (td_category t)),
     (''status'', JStr (topic_status_value (td_status t))), (''monitoring_priority'', JInt (td_priority t)),
     (''aliases'', JList (map alias_dump (td_aliases t))),
     (''sources'', JObj (map (\<lambda>(k, c). (source_kind_name k, JObj ((''enabled'', JBool (sc_enabled c)) # config_dump k c)))
        (source_items (td_sources t)))),
     (''metadata'', JObj (td_metadata t))]"

definition collision_dump :: "collision_def \<Rightarrow> json" where
  "collision_dump c = JObj [(''alias'', JStr (al_alias c)), (''topics'', JList (map JStr (al_topics c))),
     (''reason'', JStr (al_reason c))]"

definition registry_payload :: "category_def list \<Rightarrow> topic_def list \<Rightarrow> collision_def list \<Rightarrow> json" where
  "registry_payload categories topics collisions =
     canonicalize (JObj
       [(''schema_version'', JInt 1),
        (''categories'', JList (map category_dump (sort_key cd_slug categories))),
        (''topics'', JList (map topic_dump (sort_key td_slug topics))),
        (''allowed_alias_collisions'',
           JList (map collision_dump (sort_key (\<lambda>c. (casefold (al_alias c), sort (al_topics c))) collisions)))])"

definition registry_checksum ::
  "(string \<Rightarrow> string) \<Rightarrow> category_def list \<Rightarrow> topic_def list \<Rightarrow> collision_def list \<Rightarrow> string" where
  "registry_checksum sha categories topics collisions =
     sha (dumps '','' '':'' (registry_payload categories topics collisions))"


section \<open>The compact text is a function of the default text\<close>

text \<open>Delete the blanks outside of strings; the flag says whether the scan is inside one.\<close>

fun compact :: "bool \<Rightarrow> string \<Rightarrow> string" where
  "compact q [] = []"
| "compact False (c # cs) =
     (if c = CHR 0x22 then c # compact True cs else if c = CHR '' '' then compact False cs
      else c # compact False cs)"
| "compact True (c # cs) =
     (if c = CHR 0x22 then c # compact False cs
      else if c = CHR 0x5C then (case cs of [] \<Rightarrow> [c] | d # ds \<Rightarrow> c # d # compact True ds)
      else c # compact True cs)"

lemma hex_digit_plain: "n < 16 \<Longrightarrow> hex_digit n \<noteq> CHR 0x22 \<and> hex_digit n \<noteq> CHR 0x5C"
proof -
  assume "n < 16"
  then have "of_char (hex_digit n) \<noteq> (34 :: nat) \<and> of_char (hex_digit n) \<noteq> (92 :: nat)" by (auto simp: hex_digit_def)
  then show ?thesis by auto
qed

lemma compact_escape: "compact True (json_escape_char c @ t) = json_escape_char c @ compact True t"
proof -
  define n where "n = (of_char c :: nat)"
  have "c = CHR 0x22 \<longleftrightarrow> (of_char c :: nat) = of_char CHR 0x22" "c = CHR 0x5C \<longleftrightarrow> (of_char c :: nat) = of_char CHR 0x5C"
    by (metis char_of_char)+
  then have q: "c = CHR 0x22 \<longleftrightarrow> n = 34" "c = CHR 0x5C \<longleftrightarrow> n = 92" unfolding n_def by simp_all
  have h: "hex_digit (n div 16) \<noteq> CHR 0x22" "hex_digit (n div 16) \<noteq> CHR 0x5C"
    "hex_digit (n mod 16) \<noteq> CHR 0x22" "hex_digit (n mod 16) \<noteq> CHR 0x5C" if "n < 32"
    using hex_digit_plain [of "n div 16"] hex_digit_plain [of "n mod 16"] that by auto
  show ?thesis unfolding json_escape_char_def n_def [symmetric] Let_def using h q by auto
qed

lemma compact_quote: "compact False (json_quote s @ t) = json_quote s @ compact False t"
proof -
  have "compact True (concat (map json_escape_char s) @ t') = concat (map json_escape_char s) @ compact True t'" for t'
    by (induction s) (simp_all add: compact_escape)
  then show ?thesis by (simp add: json_quote_def)
qed

text \<open>Text without quotation marks and blanks is kept.\<close>

definition bare :: "string \<Rightarrow> bool" where
  "bare s = (\<forall>c\<in>set s. c \<noteq> CHR 0x22 \<and> c \<noteq> CHR '' '')"

lemma compact_bare: "bare s \<Longrightarrow> compact False (s @ t) = s @ compact False t"
  by (induction s) (auto simp: bare_def)

lemma bare_append [simp]: "bare (s @ t) \<longleftrightarrow> bare s \<and> bare t"
  by (auto simp: bare_def)

lemma bare_Nil [simp]: "bare []"
  by (simp add: bare_def)

lemma bare_Cons [simp]: "bare (c # s) \<longleftrightarrow> c \<noteq> CHR 0x22 \<and> c \<noteq> CHR '' '' \<and> bare s"
  by (auto simp: bare_def)

lemma bare_show_nat [simp]: "bare (show_nat n)"
proof -
  have "c \<noteq> CHR 0x22 \<and> c \<noteq> CHR '' ''" if "digit_of c \<noteq> None" for c
    using that by (auto simp: digit_of_def Let_def split: if_splits)
  then show ?thesis using show_nat_digits unfolding bare_def by blast
qed

lemma bare_show_int [simp]: "bare (show_int n)"
  by (simp add: show_int_def)

lemma bare_subset: "bare s \<Longrightarrow> set t \<subseteq> set s \<Longrightarrow> bare t"
  by (auto simp: bare_def)

lemma bare_fraction [simp]: "bare (fraction_text r)"
proof -
  have "bare (pad 6 r)" by (auto simp: pad_def show_padded_def pad_left_def) (simp add: bare_def)
  moreover have "set (rev (dropWhile (\<lambda>c. c = CHR ''0'') (rev (pad 6 r)))) \<subseteq> set (pad 6 r)"
    using set_dropWhileD by fastforce
  ultimately show ?thesis using bare_subset by (auto simp: fraction_text_def Let_def)
qed

lemma bare_float [simp]: "bare (float_text m)"
  by (simp add: float_text_def Let_def)

lemma compact_join:
  assumes "\<And>x t. x \<in> set xs \<Longrightarrow> compact False (f x @ t) = g x @ compact False t"
  shows "compact False (join '', '' (map f xs) @ t) = join '','' (map g xs) @ compact False t"
  using assms
proof (induction xs rule: induct_list012)
  case (3 x y xs)
  have "compact False (f x @ '', '' @ join '', '' (map f (y # xs)) @ t) =
      g x @ compact False ('', '' @ join '', '' (map f (y # xs)) @ t)" by (rule "3.prems") simp
  also have "compact False ('', '' @ join '', '' (map f (y # xs)) @ t) = '','' @ compact False (join '', '' (map f (y # xs)) @ t)"
    by simp
  finally show ?case using 3 by simp
qed simp_all

lemma compact_print: "compact False (json_print '', '' '': '' j @ t) = json_print '','' '':'' j @ compact False t"
proof (induction j arbitrary: t)
  case (JInt n)
  show ?case using compact_bare [OF bare_show_int] by simp
next
  case (JFloat m)
  show ?case using compact_bare [OF bare_float] by simp
next
  case (JList xs)
  have "compact False (join '', '' (map (json_print '', '' '': '') xs) @ '']'' @ t) =
      join '','' (map (json_print '','' '':'') xs) @ compact False ('']'' @ t)"
    by (rule compact_join) (rule JList)
  then show ?case by simp
next
  case (JObj d)
  have "compact False ((case x of (key, v) \<Rightarrow> json_quote key @ '': '' @ json_print '', '' '': '' v) @ t) =
      (case x of (key, v) \<Rightarrow> json_quote key @ '':'' @ json_print '','' '':'' v) @ compact False t" if "x \<in> set d" for x t
  proof (cases x)
    case (Pair key v)
    have "compact False (json_print '', '' '': '' v @ t) = json_print '','' '':'' v @ compact False t" for t
      using JObj.IH [of x v] that Pair by simp
    then show ?thesis using Pair by (simp add: compact_quote)
  qed
  then have "compact False (join '', '' (map (\<lambda>(key, v). json_quote key @ '': '' @ json_print '', '' '': '' v) d) @ ''}'' @ t) =
      join '','' (map (\<lambda>(key, v). json_quote key @ '':'' @ json_print '','' '':'' v) d) @ compact False (''}'' @ t)"
    by (rule compact_join)
  then show ?case by simp
qed (simp_all add: compact_quote)

lemma dumps_compact: "dumps '','' '':'' j = compact False (dumps_default j)"
  using compact_print [of "json_canon j" "[]"] by (simp add: dumps_def)


section \<open>The order of the files does not matter\<close>

lemma map_sort_key_self: "map f (sort_key f xs) = sort (map f xs)"
proof (rule properties_for_sort [symmetric])
  show "mset (map f (sort_key f xs)) = mset (map f xs)" by (metis mset_map mset_sort)
qed simp

lemma dumps_list: "dumps i k (JList zs) = ''['' @ join i (map (dumps i k) zs) @ '']''"
proof -
  have "dumps i k = json_print i k \<circ> json_canon" by (rule ext) (simp add: dumps_def)
  then show ?thesis by simp
qed

lemma dumps_sorted_list:
  assumes "mset xs = mset ys"
  shows "dumps '','' '':'' (JList (sort_key dumps_default (map canonicalize xs))) =
         dumps '','' '':'' (JList (sort_key dumps_default (map canonicalize ys)))"
proof -
  have "map (dumps '','' '':'') (sort_key dumps_default zs) = map (compact False) (sort (map dumps_default zs))" for zs
  proof -
    have "map (dumps '','' '':'') (sort_key dumps_default zs) = map (compact False) (map dumps_default (sort_key dumps_default zs))"
      by (simp add: dumps_compact)
    then show ?thesis by (simp only: map_sort_key_self)
  qed
  note texts = this
  have "sort (map dumps_default (map canonicalize xs)) = sort (map dumps_default (map canonicalize ys))"
  proof (rule properties_for_sort)
    show "mset (sort (map dumps_default (map canonicalize ys))) = mset (map dumps_default (map canonicalize xs))"
      using assms by (metis mset_map mset_sort)
  qed simp
  then have "map (dumps '','' '':'') (sort_key dumps_default (map canonicalize xs)) =
      map (dumps '','' '':'') (sort_key dumps_default (map canonicalize ys))" unfolding texts by (rule arg_cong)
  then show ?thesis by (simp only: dumps_list)
qed

lemma sort_values: "sort_key fst (map (\<lambda>(k, v). (k, f v)) d) = map (\<lambda>(k, v). (k, f v)) (sort_key fst d)"
proof (induction d)
  case (Cons x d)
  have "insort_key fst (case y of (k, v) \<Rightarrow> (k, f v)) (map (\<lambda>(k, v). (k, f v)) e) =
      map (\<lambda>(k, v). (k, f v)) (insort_key fst y e)" for y e
    by (induction e) (auto split: prod.splits)
  with Cons show ?case by simp
qed simp

lemma dumps_object:
  assumes "map (\<lambda>(key, v). (key, dumps i k v)) d = map (\<lambda>(key, v). (key, dumps i k v)) e"
  shows "dumps i k (JObj d) = dumps i k (JObj e)"
proof -
  have "dumps i k (JObj d) = ''{'' @ join i (map (\<lambda>(key, t). json_quote key @ k @ t)
      (sort_key fst (map (\<lambda>(key, v). (key, dumps i k v)) d))) @ ''}''" for d
    unfolding dumps_def json_canon.simps sort_values json_print.simps map_map
    by (simp add: comp_def case_prod_unfold)
  with assms show ?thesis by simp
qed

lemma sort_object:
  assumes "map (\<lambda>(key, v). (key, f v)) d = map (\<lambda>(key, v). (key, f v)) e"
  shows "map (\<lambda>(key, v). (key, f v)) (sort_key fst d) = map (\<lambda>(key, v). (key, f v)) (sort_key fst e)"
  using assms by (simp flip: sort_values)

lemma canonical_object:
  assumes "map (\<lambda>(key, v). (key, dumps i k (canonicalize v))) d = map (\<lambda>(key, v). (key, dumps i k (canonicalize v))) e"
  shows "dumps i k (canonicalize (JObj d)) = dumps i k (canonicalize (JObj e))"
  unfolding canonicalize.simps
  by (rule dumps_object, rule sort_object) (use assms in \<open>simp add: comp_def case_prod_unfold\<close>)

text \<open>
  The checksum does not depend on the order in which the files list their entries.  Two registries with
  the same categories, the same topics and the same reviewed collisions, in any order, have the same
  checksum, whatever the digest: every list of the canonical payload is sorted by its serialised items.
\<close>

theorem registry_checksum_order:
  assumes "mset categories = mset categories'" "mset topics = mset topics'" "mset collisions = mset collisions'"
  shows "registry_checksum sha categories topics collisions = registry_checksum sha categories' topics' collisions'"
proof -
  have "mset (map category_dump (sort_key cd_slug categories)) = mset (map category_dump (sort_key cd_slug categories'))"
    "mset (map topic_dump (sort_key td_slug topics)) = mset (map topic_dump (sort_key td_slug topics'))"
    "mset (map collision_dump (sort_key (\<lambda>c. (casefold (al_alias c), sort (al_topics c))) collisions)) =
     mset (map collision_dump (sort_key (\<lambda>c. (casefold (al_alias c), sort (al_topics c))) collisions'))"
    using assms by simp_all
  note lists = this [THEN dumps_sorted_list]
  have "dumps '','' '':'' (registry_payload categories topics collisions) =
      dumps '','' '':'' (registry_payload categories' topics' collisions')"
    unfolding registry_payload_def by (rule canonical_object) (simp add: lists del: map_map)
  then show ?thesis by (simp add: registry_checksum_def)
qed

theorem registry_checksum_order_witness:
  "let a = \<lparr>cd_name = ''AI'', cd_slug = ''ai'', cd_description = None, cd_parent = None, cd_sort_order = 0\<rparr>;
       b = \<lparr>cd_name = ''LLM'', cd_slug = ''llm'', cd_description = None, cd_parent = Some ''ai'', cd_sort_order = 1\<rparr>
   in a \<noteq> b \<and> registry_checksum id [a, b] [] [] = registry_checksum id [b, a] [] []"
proof -
  have "registry_checksum id [a, b] [] [] = registry_checksum id [b, a] [] []" for a b
    by (rule registry_checksum_order) simp_all
  then show ?thesis by simp
qed

end
