(* ===== verification/Registry_Loader.thy ===== *)
theory Registry_Loader
  imports Registry_Checksum
begin

text \<open>
  \<open>topic_registry/loader.py\<close>: the discovery of the files, the issues of a file, the validation across files
  and the loaded registry.  Reading a file (YAML and pydantic) is a parameter that gives a \<open>file_outcome\<close>.
\<close>


section \<open>Issues\<close>

definition error_issue :: "string \<Rightarrow> string \<Rightarrow> string option \<Rightarrow> string option \<Rightarrow> registry_issue" where
  "error_issue code message source_file entity = \<lparr>ri_code = code, ri_message = message, ri_severity = IssueError,
     ri_source_file = source_file, ri_entity = entity\<rparr>"

definition warning_issue :: "string \<Rightarrow> string \<Rightarrow> string option \<Rightarrow> registry_issue" where
  "warning_issue code message entity = \<lparr>ri_code = code, ri_message = message, ri_severity = IssueWarning,
     ri_source_file = None, ri_entity = entity\<rparr>"

lemma issue_severity [simp]:
  "ri_severity (error_issue c m f e) = IssueError" "ri_severity (warning_issue c m e) = IssueWarning"
  by (simp_all add: error_issue_def warning_issue_def)


section \<open>Categories\<close>

text \<open>
  \<open>_category_cycle_issues\<close>: from every category the chain of parents, until it leaves the table or meets a
  category of the path.
\<close>

type_synonym category_table = "(string, category_def) dict"

lemma cycle_measure:
  assumes "c \<in> set keys" "c \<notin> set path"
  shows "length (filter (\<lambda>k. k \<notin> set (path @ [c])) keys) < length (filter (\<lambda>k. k \<notin> set path) keys)"
proof -
  have "filter (\<lambda>k. k \<notin> set (path @ [c])) keys = filter (\<lambda>k. k \<noteq> c) (filter (\<lambda>k. k \<notin> set path) keys)"
    by (auto intro: filter_cong)
  also have "length \<dots> < length (filter (\<lambda>k. k \<notin> set path) keys)"
    by (rule length_filter_less [of c]) (use assms in auto)
  finally show ?thesis .
qed

function category_walk :: "category_table \<Rightarrow> string list \<Rightarrow> string option \<Rightarrow> string list option" where
  "category_walk categories path current =
     (case current of None \<Rightarrow> None
      | Some c \<Rightarrow>
          (case dict_get categories c of None \<Rightarrow> None
           | Some d \<Rightarrow>
               (if c \<in> set path then Some (dropWhile (\<lambda>x. x \<noteq> c) path @ [c])
                else category_walk categories (path @ [c]) (cd_parent d))))"
  by pat_completeness auto
termination
proof (relation "measure (\<lambda>(categories, path, current). length (filter (\<lambda>k. k \<notin> set path) (dict_keys categories)))", goal_cases)
  case (2 categories path current c d)
  have "c \<in> set (dict_keys categories)" using map_of_SomeD [OF 2(2)] by (force simp: image_iff)
  from cycle_measure [OF this 2(3)] show ?case by simp
qed simp

declare category_walk.simps [simp del]

definition category_cycle_issues :: "category_table \<Rightarrow> registry_issue list" where
  "category_cycle_issues categories =
     map snd (dict_by (\<lambda>i. (ri_code i, ri_message i))
       (somes (map (\<lambda>s. map_option (\<lambda>cycle. error_issue ''CATEGORY_CYCLE'' (''category cycle: '' @ join '' -> '' cycle) None None)
          (category_walk categories [] (Some s))) (dict_keys categories))))"

text \<open>The loop over the categories: the two tables and the issues.\<close>

fun category_loop ::
  "(string \<Rightarrow> string) \<Rightarrow> category_def list \<Rightarrow> category_table \<Rightarrow> (string, string) dict \<Rightarrow> registry_issue list \<times> category_table" where
  "category_loop nfkc [] by_slug names = ([], by_slug)"
| "category_loop nfkc (c # cs) by_slug names =
     (let normalized = normalize_canonical_name nfkc (cd_name c);
          slug_issue = (if cd_slug c \<in> set (dict_keys by_slug)
            then [error_issue ''DUPLICATE_CATEGORY_SLUG'' (''duplicate category: '' @ cd_slug c) None None] else []);
          name_issue = (if normalized \<in> set (dict_keys names)
            then [error_issue ''DUPLICATE_CATEGORY_NAME'' (''duplicate category name: '' @ cd_name c) None None] else [])
      in case category_loop nfkc cs (dict_set (cd_slug c) c by_slug) (dict_set normalized (cd_slug c) names) of
           (issues, table) \<Rightarrow> (slug_issue @ name_issue @ issues, table))"

definition parent_issues :: "category_table \<Rightarrow> category_def list \<Rightarrow> registry_issue list" where
  "parent_issues by_slug categories =
     concat (map (\<lambda>c. case cd_parent c of None \<Rightarrow> []
       | Some p \<Rightarrow> (if p \<noteq> [] \<and> p \<notin> set (dict_keys by_slug)
           then [error_issue ''MISSING_PARENT_CATEGORY''
                  (''category '' @ cd_slug c @ '' references missing parent '' @ p) None None] else [])) categories)"


section \<open>Topics\<close>

fun alias_loop :: "(string \<Rightarrow> string) \<Rightarrow> string \<Rightarrow> alias_def list \<Rightarrow> (string \<times> bool) list \<Rightarrow> registry_issue list" where
  "alias_loop nfkc slug [] seen = []"
| "alias_loop nfkc slug (a # as) seen =
     (let identity = (alias_normal nfkc a, ad_case_sensitive a) in
      (if identity \<in> set seen then
         [error_issue ''DUPLICATE_TOPIC_ALIAS'' (''topic '' @ slug @ '' repeats alias '' @ repr_str (ad_value a)) None (Some slug)]
       else []) @ alias_loop nfkc slug as (identity # seen))"

fun topic_loop ::
  "(string \<Rightarrow> string) \<Rightarrow> category_table \<Rightarrow> topic_def list \<Rightarrow> string list \<Rightarrow> string list \<Rightarrow> registry_issue list" where
  "topic_loop nfkc by_slug [] slugs names = []"
| "topic_loop nfkc by_slug (t # ts) slugs names =
     (let normalized = normalize_canonical_name nfkc (td_canonical_name t) in
      (if td_slug t \<in> set slugs
         then [error_issue ''DUPLICATE_TOPIC_SLUG'' (''duplicate topic: '' @ td_slug t) None None] else []) @
      (if normalized \<in> set names
         then [error_issue ''DUPLICATE_CANONICAL_NAME''
                (''canonical name '' @ repr_str (td_canonical_name t) @ '' belongs to multiple topics'') None None] else []) @
      (if td_category t \<notin> set (dict_keys by_slug)
         then [error_issue ''MISSING_CATEGORY''
                (''topic '' @ td_slug t @ '' references missing category '' @ td_category t) None (Some (td_slug t))] else []) @
      alias_loop nfkc (td_slug t) (td_aliases t) [] @
      topic_loop nfkc by_slug ts (td_slug t # slugs) (normalized # names))"

text \<open>\<open>aliases_by_folded\<close> and \<open>wikipedia_pages\<close>.\<close>

type_synonym alias_entry = "string \<times> alias_def"

definition alias_entries :: "topic_def list \<Rightarrow> alias_entry list" where
  "alias_entries topics = concat (map (\<lambda>t. map (Pair (td_slug t)) (td_aliases t)) topics)"

definition aliases_by_folded :: "(string \<Rightarrow> string) \<Rightarrow> topic_def list \<Rightarrow> (string, alias_entry list) dict" where
  "aliases_by_folded nfkc topics = group_by (\<lambda>(slug, a). normalize_alias nfkc False (ad_value a)) (alias_entries topics)"

definition normalized_page :: "string \<Rightarrow> string" where
  "normalized_page title = casefold (join '' '' (split_words (replace_char CHR ''_'' '' '' title)))"

definition wikipedia_pages :: "topic_def list \<Rightarrow> (string, string list) dict" where
  "wikipedia_pages topics =
     map (\<lambda>(p, es). (p, map snd es))
       (group_by fst (concat (map (\<lambda>t. case sd_wikipedia (td_sources t) of None \<Rightarrow> []
          | Some c \<Rightarrow> map (\<lambda>title. (normalized_page title, td_slug t)) (sc_values c)) topics)))"

definition page_issues :: "topic_def list \<Rightarrow> registry_issue list" where
  "page_issues topics =
     concat (map (\<lambda>(page, slugs). let distinct_topics = sorted_set slugs in
        if 1 < length distinct_topics then
          [warning_issue ''SHARED_WIKIPEDIA_PAGE''
             (''Wikipedia page '' @ repr_str page @ '' is explicitly shared by '' @ repr_list distinct_topics @
              ''; observations must surface shared provenance'') (Some page)]
        else []) (sort_key fst (wikipedia_pages topics)))"


section \<open>Collisions\<close>

text \<open>\<open>_entries_collide\<close>\<close>

definition entries_collide :: "(string \<Rightarrow> string) \<Rightarrow> alias_entry list \<Rightarrow> bool" where
  "entries_collide nfkc entries =
     (let aliases = map snd entries in
      list_ex (\<lambda>a. \<not> ad_case_sensitive a) aliases \<or>
      length (remdups (map (alias_normal nfkc) aliases)) < length aliases)"

definition allowlist_issues :: "(string \<Rightarrow> string) \<Rightarrow> collision_def list \<Rightarrow> registry_issue list" where
  "allowlist_issues nfkc collisions =
     concat (map (\<lambda>i. if normalize_alias nfkc False (al_alias (collisions ! i))
                        \<in> set (map (\<lambda>c. normalize_alias nfkc False (al_alias c)) (take i collisions))
        then [error_issue ''DUPLICATE_COLLISION_ALLOWLIST''
               (''alias '' @ repr_str (al_alias (collisions ! i)) @ '' is repeated in collision allowlist'') None None]
        else []) [0..<length collisions])"

definition allowlist_by_alias :: "(string \<Rightarrow> string) \<Rightarrow> collision_def list \<Rightarrow> (string, collision_def) dict" where
  "allowlist_by_alias nfkc collisions = dict_by (\<lambda>c. normalize_alias nfkc False (al_alias c)) collisions"

text \<open>What the loop over \<open>aliases_by_folded\<close> finds for one folded alias.\<close>

datatype collision_outcome = NoCollision | AllowedCollision string | ForbiddenCollision

definition collision_of ::
  "(string \<Rightarrow> string) \<Rightarrow> (string, collision_def) dict \<Rightarrow> string \<times> alias_entry list \<Rightarrow> collision_outcome" where
  "collision_of nfkc allowlist entry =
     (case entry of (folded, entries) \<Rightarrow>
       let topic_slugs = map fst entries in
       if length (remdups topic_slugs) < 2 \<or> \<not> entries_collide nfkc entries then NoCollision
       else (case dict_get allowlist folded of
               Some a \<Rightarrow> (if set (al_topics a) = set topic_slugs then AllowedCollision (al_reason a) else ForbiddenCollision)
             | None \<Rightarrow> ForbiddenCollision))"

definition collision_issue ::
  "(string \<Rightarrow> string) \<Rightarrow> (string, collision_def) dict \<Rightarrow> string \<times> alias_entry list \<Rightarrow> registry_issue list" where
  "collision_issue nfkc allowlist entry =
     (case entry of (folded, entries) \<Rightarrow>
       let shared = ''alias '' @ repr_str folded @ '' is shared by '' @ repr_list (sorted_set (map fst entries)) in
       case collision_of nfkc allowlist entry of
         NoCollision \<Rightarrow> []
       | AllowedCollision reason \<Rightarrow>
           [warning_issue ''ALLOWED_ALIAS_COLLISION'' (''reviewed '' @ shared @ '': '' @ reason) (Some folded)]
       | ForbiddenCollision \<Rightarrow> [error_issue ''ALIAS_COLLISION'' shared None (Some folded)])"

definition used_allowlist ::
  "(string \<Rightarrow> string) \<Rightarrow> (string, collision_def) dict \<Rightarrow> (string, alias_entry list) dict \<Rightarrow> string list" where
  "used_allowlist nfkc allowlist table =
     map fst (filter (\<lambda>e. case collision_of nfkc allowlist e of AllowedCollision _ \<Rightarrow> True | _ \<Rightarrow> False) table)"

definition collision_entry_issue ::
  "(string \<Rightarrow> string) \<Rightarrow> string list \<Rightarrow> string list \<Rightarrow> collision_def \<Rightarrow> registry_issue list" where
  "collision_entry_issue nfkc topic_slugs used c =
     (let unknown = sorted_set (filter (\<lambda>t. t \<notin> set topic_slugs) (al_topics c)) in
      if unknown \<noteq> [] then
        [error_issue ''ALLOWLIST_UNKNOWN_TOPIC''
           (''allowlist for '' @ repr_str (al_alias c) @ '' references '' @ repr_list unknown) None None]
      else if normalize_alias nfkc False (al_alias c) \<notin> set used then
        [warning_issue ''UNUSED_COLLISION_ALLOWLIST''
           (''allowlist for '' @ repr_str (al_alias c) @ '' does not match a current collision'') None]
      else [])"

definition cross_file_issues ::
  "(string \<Rightarrow> string) \<Rightarrow> category_def list \<Rightarrow> topic_def list \<Rightarrow> collision_def list \<Rightarrow> registry_issue list" where
  "cross_file_issues nfkc categories topics collisions =
     (case category_loop nfkc categories [] [] of
        (issues, by_slug) \<Rightarrow>
          (let table = aliases_by_folded nfkc topics; allowlist = allowlist_by_alias nfkc collisions in
           issues @ parent_issues by_slug categories @ category_cycle_issues by_slug @
           topic_loop nfkc by_slug topics [] [] @ page_issues topics @ allowlist_issues nfkc collisions @
           concat (map (collision_issue nfkc allowlist) table) @
           concat (map (collision_entry_issue nfkc (map td_slug topics) (used_allowlist nfkc allowlist table)) collisions)))"


section \<open>Loading\<close>

text \<open>
  A path is the list of its segments, which is how paths compare.  A file gives a parse error of YAML, the
  details (location, type, message) of a pydantic error, another error of reading, or a definition.
\<close>

type_synonym file_path = "string list"

definition path_text :: "file_path \<Rightarrow> string" where
  "path_text p = join ''/'' p"

datatype file_outcome =
    FileYamlError string
  | FileInvalid "(string list \<times> string \<times> string) list"
  | FileFailed string
  | FileParsed registry_file

record file_tree =
  ft_root :: file_path
  ft_is_dir :: bool
  ft_yaml :: "file_path list"
  ft_yml :: "file_path list"
  ft_read :: "file_path \<Rightarrow> file_outcome"

definition discover_files :: "file_tree \<Rightarrow> registry_issue list + file_path list" where
  "discover_files f =
     (if \<not> ft_is_dir f then
        Inl [error_issue ''REGISTRY_PATH_NOT_FOUND'' (path_text (ft_root f) @ '' is not a directory'') None None]
      else (let files = sort (ft_yaml f @ ft_yml f) in
        if files = [] then
          Inl [error_issue ''REGISTRY_EMPTY'' (''no YAML files found under '' @ path_text (ft_root f)) None None]
        else Inr files))"

definition pydantic_issue :: "file_path \<Rightarrow> string list \<times> string \<times> string \<Rightarrow> registry_issue" where
  "pydantic_issue path detail =
     (case detail of (loc, kind, msg) \<Rightarrow>
       let location = join ''.'' loc;
           code = (if kind = ''extra_forbidden''
                   then (if contains ''.sources.'' (''.'' @ location @ ''.'') then ''INVALID_SOURCE'' else ''UNKNOWN_FIELD'')
                   else ''SCHEMA_VALIDATION'')
       in error_issue code (location @ '': '' @ msg) (Some (path_text path)) (Some location))"

definition file_issues :: "(file_path \<Rightarrow> file_outcome) \<Rightarrow> file_path \<Rightarrow> registry_issue list" where
  "file_issues read path =
     (case read path of
        FileYamlError msg \<Rightarrow> [error_issue ''YAML_PARSE_ERROR'' msg (Some (path_text path)) None]
      | FileInvalid details \<Rightarrow> map (pydantic_issue path) details
      | FileFailed msg \<Rightarrow> [error_issue ''SCHEMA_VALIDATION'' msg (Some (path_text path)) None]
      | FileParsed _ \<Rightarrow> [])"

definition file_definitions :: "(file_path \<Rightarrow> file_outcome) \<Rightarrow> file_path list \<Rightarrow> registry_file list" where
  "file_definitions read files = somes (map (\<lambda>p. case read p of FileParsed d \<Rightarrow> Some d | _ \<Rightarrow> None) files)"

text \<open>\<open>str\<close> of the validation error.\<close>

definition validation_summary :: "registry_issue list \<Rightarrow> string" where
  "validation_summary issues = join ''; '' (map (\<lambda>i. ri_code i @ '': '' @ ri_message i) (take 5 issues))"

definition assemble ::
  "(string \<Rightarrow> string) \<Rightarrow> (string \<Rightarrow> string) \<Rightarrow> file_path list \<Rightarrow> registry_file list \<Rightarrow> registry_issue list + loaded_registry" where
  "assemble nfkc sha files defs =
     (let categories = concat (map rf_categories defs); topics = concat (map rf_topics defs);
          collisions = concat (map rf_collisions defs);
          issues = cross_file_issues nfkc categories topics collisions
      in if list_ex (\<lambda>i. ri_severity i = IssueError) issues then Inl issues
         else Inr \<lparr>lr_categories = sort_key cd_slug categories, lr_topics = sort_key td_slug topics,
           lr_collisions = sort_key (\<lambda>c. (casefold (al_alias c), al_topics c)) collisions,
           lr_source_files = map path_text files, lr_checksum = registry_checksum sha categories topics collisions,
           lr_issues = issues\<rparr>)"

definition load_registry ::
  "(string \<Rightarrow> string) \<Rightarrow> (string \<Rightarrow> string) \<Rightarrow> file_tree \<Rightarrow> registry_issue list + loaded_registry" where
  "load_registry nfkc sha f =
     (case discover_files f of
        Inl issues \<Rightarrow> Inl issues
      | Inr files \<Rightarrow>
          (let issues = concat (map (file_issues (ft_read f)) files) in
           if issues \<noteq> [] then Inl issues
           else assemble nfkc sha files (file_definitions (ft_read f) files)))"

end
