(* ===== verification/Registry_Diff.thy ===== *)
theory Registry_Diff
  imports Registry_Loader
begin

text \<open>
  \<open>topic_registry/diff.py\<close>: the read-only comparison of a loaded registry with the tables, and the tables
  that the registry is synchronised with.
\<close>

record registry_db =
  rdb_sources :: "source_row list"
  rdb_categories :: "category_row list"
  rdb_topics :: "topic_row list"
  rdb_aliases :: "alias_row list"
  rdb_mappings :: "mapping_row list"
  rdb_versions :: "registry_version_row list"
  rdb_audit :: "audit_row list"
  rdb_checks :: "quality_check_row list"


section \<open>Changes and warnings\<close>

datatype change_action = ChangeCreate | ChangeUpdate | ChangeAdd | ChangeRegistryUpdate

fun change_action_value :: "change_action \<Rightarrow> string" where
  "change_action_value ChangeCreate = ''create''"
| "change_action_value ChangeUpdate = ''update''"
| "change_action_value ChangeAdd = ''add''"
| "change_action_value ChangeRegistryUpdate = ''registry_update''"

record registry_change =
  ch_action :: change_action
  ch_entity_type :: string
  ch_entity_key :: string
  ch_before :: "jdict option"
  ch_after :: "jdict option"

record registry_diff =
  df_checksum :: string
  df_changes :: "registry_change list"
  df_warnings :: "registry_issue list"
  df_latest_version :: "int option"
  df_latest_checksum :: "string option"

definition has_changes :: "registry_diff \<Rightarrow> bool" where
  "has_changes d = (df_changes d \<noteq> [])"

definition change_count :: "registry_diff \<Rightarrow> string \<Rightarrow> change_action option \<Rightarrow> int" where
  "change_count d entity_type action = int (length (filter (\<lambda>c. ch_entity_type c = entity_type \<and>
     (case action of None \<Rightarrow> True | Some a \<Rightarrow> ch_action c = a)) (df_changes d)))"

definition warning_code_count :: "string \<Rightarrow> registry_issue list \<Rightarrow> int" where
  "warning_code_count code ws = int (length (filter (\<lambda>w. ri_code w = code) ws))"

definition diff_summary :: "registry_diff \<Rightarrow> jdict" where
  "diff_summary d =
     [(''topics'', JObj [(''create'', JInt (change_count d ''topic'' (Some ChangeCreate))),
        (''update'', JInt (change_count d ''topic'' (Some ChangeUpdate))),
        (''orphaned'', JInt (warning_code_count ''ORPHANED_DATABASE_TOPIC'' (df_warnings d)))]),
      (''categories'', JObj [(''create'', JInt (change_count d ''category'' (Some ChangeCreate))),
        (''update'', JInt (change_count d ''category'' (Some ChangeUpdate)))]),
      (''aliases'', JObj [(''add'', JInt (change_count d ''alias'' (Some ChangeAdd))),
        (''update'', JInt (change_count d ''alias'' (Some ChangeUpdate)))]),
      (''mappings'', JObj [(''add'', JInt (change_count d ''mapping'' (Some ChangeAdd))),
        (''update'', JInt (change_count d ''mapping'' (Some ChangeUpdate)))]),
      (''warnings'', JInt (int (length (df_warnings d)))), (''errors'', JInt 0)]"

definition or_empty :: "string option \<Rightarrow> string" where
  "or_empty t = (case t of None \<Rightarrow> [] | Some s \<Rightarrow> s)"

definition issue_dump :: "registry_issue \<Rightarrow> jdict" where
  "issue_dump i = [(''code'', JStr (ri_code i)), (''message'', JStr (ri_message i)),
     (''severity'', JStr (issue_severity_value (ri_severity i))), (''source_file'', jopt JStr (ri_source_file i)),
     (''entity'', jopt JStr (ri_entity i))]"

definition warning_payloads :: "registry_issue list \<Rightarrow> json list" where
  "warning_payloads ws = map (\<lambda>w. JObj (issue_dump w))
     (sort_key (\<lambda>w. (ri_code w, or_empty (ri_entity w), or_empty (ri_source_file w), ri_message w)) ws)"


section \<open>Definitions and records as dictionaries\<close>

definition category_definition :: "category_def \<Rightarrow> jdict" where
  "category_definition c = [(''name'', JStr (cd_name c)), (''slug'', JStr (cd_slug c)),
     (''description'', jopt JStr (cd_description c)), (''parent'', jopt JStr (cd_parent c)),
     (''sort_order'', JInt (cd_sort_order c))]"

definition category_slug_of :: "registry_db \<Rightarrow> nat option \<Rightarrow> string option" where
  "category_slug_of db i = Option.bind i (\<lambda>j. map_option category_slug (find (\<lambda>c. category_id c = j) (rdb_categories db)))"

definition category_record :: "registry_db \<Rightarrow> category_row \<Rightarrow> jdict" where
  "category_record db c = [(''name'', JStr (category_name c)), (''slug'', JStr (category_slug c)),
     (''description'', jopt JStr (category_description c)),
     (''parent'', jopt JStr (category_slug_of db (category_parent_id c))), (''sort_order'', JInt (category_sort_order c))]"

definition topic_definition :: "(string \<Rightarrow> string) \<Rightarrow> topic_def \<Rightarrow> jdict" where
  "topic_definition nfkc t = [(''canonical_name'', JStr (td_canonical_name t)),
     (''normalized_name'', JStr (normalize_canonical_name nfkc (td_canonical_name t))), (''slug'', JStr (td_slug t)),
     (''description'', JStr (td_description t)), (''category'', JStr (td_category t)),
     (''status'', JStr (topic_status_value (td_status t))), (''monitoring_priority'', JInt (td_priority t)),
     (''metadata'', JObj (td_metadata t))]"

definition topic_record :: "registry_db \<Rightarrow> topic_row \<Rightarrow> jdict" where
  "topic_record db t = [(''canonical_name'', JStr (topic_canonical_name t)),
     (''normalized_name'', JStr (topic_normalized_name t)), (''slug'', JStr (topic_slug t)),
     (''description'', jopt JStr (topic_description t)), (''category'', jopt JStr (category_slug_of db (topic_category_id t))),
     (''status'', JStr (topic_status_value (topic_status t))), (''monitoring_priority'', JInt (topic_monitoring_priority t)),
     (''metadata'', JObj (topic_metadata t))]"

definition alias_definition :: "(string \<Rightarrow> string) \<Rightarrow> alias_def \<Rightarrow> jdict" where
  "alias_definition nfkc a = [(''alias'', JStr (ad_value a)), (''normalized_alias'', JStr (alias_normal nfkc a)),
     (''alias_type'', JStr (alias_type_value (ad_type a))), (''match_mode'', JStr (match_mode_value (ad_match_mode a))),
     (''case_sensitive'', JBool (ad_case_sensitive a)), (''status'', JStr (alias_status_value (ad_status a))),
     (''confidence'', JFloat (ad_confidence a)), (''metadata'', JObj (ad_metadata a))]"

definition alias_record :: "alias_row \<Rightarrow> jdict" where
  "alias_record a = [(''alias'', JStr (alias_text a)), (''normalized_alias'', JStr (alias_normalized a)),
     (''alias_type'', JStr (alias_type_value (alias_kind a))), (''match_mode'', JStr (match_mode_value (alias_match_mode a))),
     (''case_sensitive'', JBool (alias_case_sensitive a)), (''status'', JStr (alias_status_value (alias_status a))),
     (''confidence'', JFloat (alias_confidence a)), (''metadata'', JObj (alias_metadata a))]"

definition single_value :: "bool \<Rightarrow> source_config \<Rightarrow> string option" where
  "single_value wanted c = (case sc_values c of [v] \<Rightarrow> (if wanted then Some v else None) | _ \<Rightarrow> None)"

definition mapping_definition :: "source_kind \<Rightarrow> source_config \<Rightarrow> jdict" where
  "mapping_definition k c = [(''source'', JStr (source_kind_name k)), (''enabled'', JBool (sc_enabled c)),
     (''mapping_type'', JStr ''registry''), (''external_identifier'', jopt JStr (single_value (k = Wikipedia) c)),
     (''query'', jopt JStr (single_value (k \<noteq> Wikipedia) c)), (''configuration'', JObj (config_dump k c))]"

definition source_name_of :: "registry_db \<Rightarrow> nat \<Rightarrow> string" where
  "source_name_of db i = (case find (\<lambda>s. source_id s = i) (rdb_sources db) of None \<Rightarrow> [] | Some s \<Rightarrow> source_name s)"

definition mapping_record :: "registry_db \<Rightarrow> mapping_row \<Rightarrow> jdict" where
  "mapping_record db m = [(''source'', JStr (source_name_of db (mapping_source_id m))),
     (''enabled'', JBool (mapping_enabled m)), (''mapping_type'', JStr (mapping_type m)),
     (''external_identifier'', jopt JStr (mapping_external_identifier m)), (''query'', jopt JStr (mapping_query m)),
     (''configuration'', JObj (mapping_configuration m))]"


section \<open>The comparison\<close>

definition created :: "change_action \<Rightarrow> string \<Rightarrow> string \<Rightarrow> jdict \<Rightarrow> registry_change" where
  "created action entity key after = \<lparr>ch_action = action, ch_entity_type = entity, ch_entity_key = key,
     ch_before = None, ch_after = Some after\<rparr>"

text \<open>One entry: created when there is no current record, updated when the dictionaries differ.\<close>

definition entry_change :: "change_action \<Rightarrow> string \<Rightarrow> string \<Rightarrow> jdict option \<Rightarrow> jdict \<Rightarrow> registry_change list" where
  "entry_change action entity key before after =
     (case before of None \<Rightarrow> [created action entity key after]
      | Some b \<Rightarrow> (if jdict_eq b after then []
          else [\<lparr>ch_action = ChangeUpdate, ch_entity_type = entity, ch_entity_key = key,
                 ch_before = Some b, ch_after = Some after\<rparr>]))"

definition category_changes :: "registry_db \<Rightarrow> loaded_registry \<Rightarrow> registry_change list" where
  "category_changes db r =
     (let categories = dict_by category_slug (rdb_categories db) in
      concat (map (\<lambda>d. entry_change ChangeCreate ''category'' (cd_slug d)
        (map_option (category_record db) (dict_get categories (cd_slug d))) (category_definition d)) (lr_categories r)))"

definition orphans :: "string \<Rightarrow> (string \<Rightarrow> string) \<Rightarrow> (string \<Rightarrow> string) \<Rightarrow> string list \<Rightarrow> string list \<Rightarrow> registry_issue list" where
  "orphans code message entity current desired =
     map (\<lambda>k. warning_issue code (message k) (Some (entity k))) (sorted_set (filter (\<lambda>k. k \<notin> set desired) current))"

definition current_aliases :: "registry_db \<Rightarrow> topic_row \<Rightarrow> (string, alias_row) dict" where
  "current_aliases db t = dict_by alias_normalized
     (filter (\<lambda>a. alias_topic_id a = topic_id t \<and> alias_source_id a = None) (rdb_aliases db))"

definition current_mappings :: "registry_db \<Rightarrow> topic_row \<Rightarrow> (string, mapping_row) dict" where
  "current_mappings db t = dict_by (\<lambda>m. source_name_of db (mapping_source_id m))
     (filter (\<lambda>m. mapping_topic_id m = topic_id t \<and> mapping_type m = ''registry'') (rdb_mappings db))"

definition entity_key :: "topic_def \<Rightarrow> string \<Rightarrow> string" where
  "entity_key d k = td_slug d @ '':'' @ k"

definition new_topic_changes :: "(string \<Rightarrow> string) \<Rightarrow> topic_def \<Rightarrow> registry_change list" where
  "new_topic_changes nfkc d =
     created ChangeCreate ''topic'' (td_slug d) (topic_definition nfkc d) #
     map (\<lambda>a. created ChangeAdd ''alias'' (entity_key d (alias_normal nfkc a)) (alias_definition nfkc a)) (td_aliases d) @
     map (\<lambda>(k, c). created ChangeAdd ''mapping'' (entity_key d (source_kind_name k)) (mapping_definition k c))
       (source_items (td_sources d))"

definition alias_changes :: "(string \<Rightarrow> string) \<Rightarrow> registry_db \<Rightarrow> topic_row \<Rightarrow> topic_def \<Rightarrow> registry_change list" where
  "alias_changes nfkc db t d =
     (let current = current_aliases db t in
      concat (map (\<lambda>(normalized, a). entry_change ChangeAdd ''alias'' (entity_key d normalized)
        (map_option alias_record (dict_get current normalized)) (alias_definition nfkc a))
        (dict_by (alias_normal nfkc) (td_aliases d))))"

definition mapping_changes :: "registry_db \<Rightarrow> topic_row \<Rightarrow> topic_def \<Rightarrow> registry_change list" where
  "mapping_changes db t d =
     (let current = current_mappings db t in
      concat (map (\<lambda>(k, c). entry_change ChangeAdd ''mapping'' (entity_key d (source_kind_name k))
        (map_option (mapping_record db) (dict_get current (source_kind_name k))) (mapping_definition k c))
        (source_items (td_sources d))))"

definition alias_orphans :: "(string \<Rightarrow> string) \<Rightarrow> registry_db \<Rightarrow> topic_row \<Rightarrow> topic_def \<Rightarrow> registry_issue list" where
  "alias_orphans nfkc db t d = orphans ''ORPHANED_DATABASE_ALIAS''
     (\<lambda>k. ''database alias '' @ entity_key d k @ '' is absent from YAML and was retained'') (entity_key d)
     (dict_keys (current_aliases db t)) (map (alias_normal nfkc) (td_aliases d))"

definition mapping_orphans :: "registry_db \<Rightarrow> topic_row \<Rightarrow> topic_def \<Rightarrow> registry_issue list" where
  "mapping_orphans db t d = orphans ''ORPHANED_DATABASE_MAPPING''
     (\<lambda>k. ''mapping '' @ entity_key d k @ '' is absent from YAML and was retained'') (entity_key d)
     (dict_keys (current_mappings db t)) (map (\<lambda>(k, c). source_kind_name k) (source_items (td_sources d)))"

definition topic_changes :: "(string \<Rightarrow> string) \<Rightarrow> registry_db \<Rightarrow> topic_def \<Rightarrow> registry_change list" where
  "topic_changes nfkc db d =
     (case dict_get (dict_by topic_slug (rdb_topics db)) (td_slug d) of
        None \<Rightarrow> new_topic_changes nfkc d
      | Some t \<Rightarrow>
          entry_change ChangeCreate ''topic'' (td_slug d) (Some (topic_record db t)) (topic_definition nfkc d) @
          alias_changes nfkc db t d @ mapping_changes db t d)"

definition topic_orphans :: "(string \<Rightarrow> string) \<Rightarrow> registry_db \<Rightarrow> topic_def \<Rightarrow> registry_issue list" where
  "topic_orphans nfkc db d =
     (case dict_get (dict_by topic_slug (rdb_topics db)) (td_slug d) of
        None \<Rightarrow> [] | Some t \<Rightarrow> alias_orphans nfkc db t d @ mapping_orphans db t d)"

definition diff_warnings :: "(string \<Rightarrow> string) \<Rightarrow> registry_db \<Rightarrow> loaded_registry \<Rightarrow> registry_issue list" where
  "diff_warnings nfkc db r =
     registry_warnings r @
     orphans ''ORPHANED_DATABASE_CATEGORY''
       (\<lambda>k. ''database category '' @ k @ '' is absent from registry YAML and was retained'') id
       (map category_slug (rdb_categories db)) (map cd_slug (lr_categories r)) @
     concat (map (topic_orphans nfkc db) (lr_topics r)) @
     orphans ''ORPHANED_DATABASE_TOPIC''
       (\<lambda>k. ''database topic '' @ k @ '' is absent from registry YAML and was retained'') id
       (map topic_slug (rdb_topics db)) (map td_slug (lr_topics r))"

definition latest_version :: "registry_db \<Rightarrow> registry_version_row option" where
  "latest_version db = latest_by version_number (rdb_versions db)"

definition version_warnings :: "registry_version_row \<Rightarrow> json" where
  "version_warnings v = (case dict_get (version_metadata v) ''warnings'' of None \<Rightarrow> JList [] | Some j \<Rightarrow> j)"

definition registry_change_of ::
  "registry_version_row option \<Rightarrow> loaded_registry \<Rightarrow> registry_issue list \<Rightarrow> registry_change list" where
  "registry_change_of latest r warnings =
     (case latest of None \<Rightarrow> []
      | Some v \<Rightarrow>
          (if version_checksum v \<noteq> lr_checksum r \<or> \<not> json_eq (version_warnings v) (JList (warning_payloads warnings)) then
             [\<lparr>ch_action = ChangeRegistryUpdate, ch_entity_type = ''registry'', ch_entity_key = ''topic-registry'',
               ch_before = Some [(''checksum'', JStr (version_checksum v)), (''warnings'', version_warnings v)],
               ch_after = Some [(''checksum'', JStr (lr_checksum r)), (''warnings'', JList (warning_payloads warnings))]\<rparr>]
           else []))"

definition compare_registry :: "(string \<Rightarrow> string) \<Rightarrow> registry_db \<Rightarrow> loaded_registry \<Rightarrow> registry_diff" where
  "compare_registry nfkc db r =
     (let latest = latest_version db;
          changes = category_changes db r @ concat (map (topic_changes nfkc db) (lr_topics r));
          warnings = diff_warnings nfkc db r
      in \<lparr>df_checksum = lr_checksum r,
          df_changes = (if changes = [] then registry_change_of latest r warnings else changes),
          df_warnings = warnings,
          df_latest_version = map_option version_number latest,
          df_latest_checksum = map_option version_checksum latest\<rparr>)"

end
