(* ===== verification/Registry_Sync.thy ===== *)
theory Registry_Sync
  imports Registry_Diff
begin

text \<open>
  \<open>topic_registry/sync.py\<close>: the synchronisation in one transaction.  Every \<open>session.flush()\<close> sends the
  pending rows: the database refuses them when a constraint is violated, and it may fail for reasons of its
  own, \<open>se_failure n\<close> at the n-th statement of the transaction.
\<close>

record sync_env =
  se_nfkc :: "string \<Rightarrow> string"
  se_now :: "nat \<Rightarrow> int"
  se_failure :: "nat \<Rightarrow> py_error option"
  se_before_commit :: "py_error option"

record sync_state =
  ss_db :: registry_db
  ss_flushes :: nat
  ss_clock :: nat

record sync_report =
  sr_dry_run :: bool
  sr_changed :: bool
  sr_version :: "int option"
  sr_checksum :: string
  sr_diff :: registry_diff
  sr_topic_count :: int
  sr_alias_count :: int
  sr_category_count :: int
  sr_mapping_count :: int

definition registry_constraints :: "registry_db \<Rightarrow> bool" where
  "registry_constraints db =
     (distinct (map source_name (rdb_sources db)) \<and>
      distinct (map category_name (rdb_categories db)) \<and> distinct (map category_slug (rdb_categories db)) \<and>
      list_all category_check (rdb_categories db) \<and>
      distinct (map topic_slug (rdb_topics db)) \<and> distinct (map topic_normalized_name (rdb_topics db)) \<and>
      list_all topic_check (rdb_topics db) \<and>
      alias_unique (rdb_aliases db) \<and> list_all alias_check (rdb_aliases db) \<and>
      mapping_unique (rdb_mappings db) \<and>
      distinct (map version_number (rdb_versions db)) \<and> list_all registry_version_check (rdb_versions db))"

definition flush :: "sync_env \<Rightarrow> sync_state \<Rightarrow> sync_state result" where
  "flush e s =
     (case se_failure e (ss_flushes s) of
        Some err \<Rightarrow> Inl err
      | None \<Rightarrow> (if registry_constraints (ss_db s) then Inr (s\<lparr>ss_flushes := Suc (ss_flushes s)\<rparr>) else Inl IntegrityError))"

definition utc_now :: "sync_env \<Rightarrow> sync_state \<Rightarrow> int \<times> sync_state" where
  "utc_now e s = (se_now e (ss_clock s), s\<lparr>ss_clock := Suc (ss_clock s)\<rparr>)"

definition update_db :: "(registry_db \<Rightarrow> registry_db) \<Rightarrow> sync_state \<Rightarrow> sync_state" where
  "update_db f s = s\<lparr>ss_db := f (ss_db s)\<rparr>"

text \<open>\<open>for x in xs: body(x)\<close> with a body that may raise.\<close>

fun result_fold :: "('a \<Rightarrow> 's \<Rightarrow> 's result) \<Rightarrow> 'a list \<Rightarrow> 's \<Rightarrow> 's result" where
  "result_fold f [] s = Inr s"
| "result_fold f (x # xs) s = result_bind (f x s) (result_fold f xs)"


section \<open>Sources and categories\<close>

definition required_sources :: "loaded_registry \<Rightarrow> source_kind list" where
  "required_sources r = sort_key source_kind_name
     (remdups (concat (map (\<lambda>t. map fst (source_items (td_sources t))) (lr_topics r))))"

definition new_source :: "source_kind \<Rightarrow> source_row list \<Rightarrow> source_row" where
  "new_source k rows = \<lparr>source_id = fresh_id (map source_id rows), source_name = spec_name (source_catalog k),
     source_kind = spec_kind (source_catalog k), source_base_url = Some (spec_base_url (source_catalog k)),
     source_is_active = True, source_metadata = [(''managed_by'', JStr ''topic_registry_source_catalog'')]\<rparr>"

definition ensure_source :: "source_kind \<Rightarrow> source_row list \<Rightarrow> source_row list" where
  "ensure_source k rows = (if source_kind_name k \<in> set (map source_name rows) then rows else rows @ [new_source k rows])"

definition ensure_sources :: "sync_env \<Rightarrow> loaded_registry \<Rightarrow> sync_state \<Rightarrow> sync_state result" where
  "ensure_sources e r s = flush e (update_db (\<lambda>db. db\<lparr>rdb_sources := fold ensure_source (required_sources r) (rdb_sources db)\<rparr>) s)"

definition upsert_category :: "category_def \<Rightarrow> category_row list \<Rightarrow> category_row list" where
  "upsert_category d rows =
     (if cd_slug d \<in> set (map category_slug rows) then
        map (\<lambda>c. if category_slug c = cd_slug d then c\<lparr>category_name := cd_name d, category_description := cd_description d,
            category_sort_order := cd_sort_order d\<rparr> else c) rows
      else rows @ [\<lparr>category_id = fresh_id (map category_id rows), category_name = cd_name d, category_slug = cd_slug d,
          category_description = cd_description d, category_parent_id = None, category_sort_order = cd_sort_order d\<rparr>])"

definition category_id_of :: "category_row list \<Rightarrow> string \<Rightarrow> nat option" where
  "category_id_of rows slug = map_option category_id (find (\<lambda>c. category_slug c = slug) rows)"

definition parent_id_of :: "category_row list \<Rightarrow> category_def \<Rightarrow> nat option" where
  "parent_id_of rows d = (case cd_parent d of None \<Rightarrow> None | Some p \<Rightarrow> (if p = [] then None else category_id_of rows p))"

definition set_parent :: "category_def \<Rightarrow> category_row list \<Rightarrow> category_row list" where
  "set_parent d rows = map (\<lambda>c. if category_slug c = cd_slug d then c\<lparr>category_parent_id := parent_id_of rows d\<rparr> else c) rows"

definition sync_categories :: "sync_env \<Rightarrow> loaded_registry \<Rightarrow> sync_state \<Rightarrow> sync_state result" where
  "sync_categories e r s =
     result_bind (flush e (update_db (\<lambda>db. db\<lparr>rdb_categories := fold upsert_category (lr_categories r) (rdb_categories db)\<rparr>) s))
       (\<lambda>s1. flush e (update_db (\<lambda>db. db\<lparr>rdb_categories := fold set_parent (lr_categories r) (rdb_categories db)\<rparr>) s1))"


section \<open>Topics\<close>

text \<open>The attributes of the row; the clock is read only for a topic that becomes deprecated.\<close>

definition topic_values :: "sync_env \<Rightarrow> int \<Rightarrow> topic_def \<Rightarrow> nat \<Rightarrow> topic_row \<Rightarrow> topic_row" where
  "topic_values e version d category t =
     t\<lparr>topic_canonical_name := td_canonical_name d,
       topic_normalized_name := normalize_canonical_name (se_nfkc e) (td_canonical_name d),
       topic_description := Some (td_description d), topic_category_id := Some category, topic_status := td_status d,
       topic_monitoring_priority := td_priority d, topic_registry_version := Some version, topic_metadata := td_metadata d\<rparr>"

definition deprecate :: "sync_env \<Rightarrow> topic_def \<Rightarrow> topic_status option \<Rightarrow> topic_row \<Rightarrow> sync_state \<Rightarrow> topic_row \<times> sync_state" where
  "deprecate e d previous_status t s =
     (if td_status d = TopicDeprecated then
        (case topic_deprecated_at t of
           Some _ \<Rightarrow> (t, s)
         | None \<Rightarrow> (case utc_now e s of (now, s1) \<Rightarrow> (t\<lparr>topic_deprecated_at := Some now\<rparr>, s1)))
      else if previous_status = Some TopicDeprecated then (t\<lparr>topic_deprecated_at := None\<rparr>, s)
      else (t, s))"

definition blank_topic :: "topic_def \<Rightarrow> topic_row list \<Rightarrow> topic_row" where
  "blank_topic d rows = \<lparr>topic_id = fresh_id (map topic_id rows), topic_canonical_name = td_canonical_name d,
     topic_normalized_name = [], topic_slug = td_slug d, topic_description = None, topic_category_id = None,
     topic_status = TopicActive, topic_monitoring_priority = 50, topic_deprecated_at = None,
     topic_registry_version = None, topic_metadata = []\<rparr>"

definition store_topic :: "topic_row \<Rightarrow> topic_row list \<Rightarrow> topic_row list" where
  "store_topic t rows =
     (if topic_id t \<in> set (map topic_id rows) then map (\<lambda>x. if topic_id x = topic_id t then t else x) rows else rows @ [t])"

definition sync_alias :: "(string \<Rightarrow> string) \<Rightarrow> nat \<Rightarrow> (string, alias_row) dict \<Rightarrow> alias_def \<Rightarrow> alias_row list \<Rightarrow> alias_row list" where
  "sync_alias nfkc topic existing d rows =
     (let values = (\<lambda>a. a\<lparr>alias_text := ad_value d, alias_kind := ad_type d, alias_match_mode := ad_match_mode d,
          alias_case_sensitive := ad_case_sensitive d, alias_status := ad_status d, alias_confidence := ad_confidence d,
          alias_metadata := ad_metadata d\<rparr>)
      in case dict_get existing (alias_normal nfkc d) of
           Some old \<Rightarrow> map (\<lambda>a. if alias_id a = alias_id old then values a else a) rows
         | None \<Rightarrow> rows @ [values \<lparr>alias_id = fresh_id (map alias_id rows), alias_topic_id = topic, alias_source_id = None,
             alias_text = ad_value d, alias_normalized = alias_normal nfkc d, alias_kind = AliasName, alias_match_mode = MatchExact,
             alias_case_sensitive = False, alias_status = AliasActive, alias_confidence = 1000000, alias_metadata = []\<rparr>])"

definition topic_aliases :: "nat \<Rightarrow> alias_row list \<Rightarrow> alias_row list" where
  "topic_aliases topic rows = filter (\<lambda>a. alias_topic_id a = topic \<and> alias_source_id a = None) rows"

definition sync_aliases :: "sync_env \<Rightarrow> nat \<Rightarrow> alias_def list \<Rightarrow> sync_state \<Rightarrow> sync_state result" where
  "sync_aliases e topic desired s =
     flush e (update_db (\<lambda>db.
       let existing = dict_by alias_normalized (topic_aliases topic (rdb_aliases db))
       in db\<lparr>rdb_aliases := fold (sync_alias (se_nfkc e) topic existing) desired (rdb_aliases db)\<rparr>) s)"

definition sync_mapping ::
  "nat \<Rightarrow> source_row list \<Rightarrow> (nat, mapping_row) dict \<Rightarrow> source_kind \<times> source_config \<Rightarrow> mapping_row list \<Rightarrow> mapping_row list result" where
  "sync_mapping topic sources existing item rows =
     (case item of (k, c) \<Rightarrow>
      (case find (\<lambda>x. source_name x = source_kind_name k) sources of
         None \<Rightarrow> Inl (KeyError (source_kind_name k))
       | Some src \<Rightarrow>
          (let values = (\<lambda>m. m\<lparr>mapping_enabled := sc_enabled c,
                 mapping_external_identifier := single_value (k = Wikipedia) c, mapping_query := single_value (k \<noteq> Wikipedia) c,
                 mapping_configuration := config_dump k c\<rparr>)
           in case dict_get existing (source_id src) of
                Some old \<Rightarrow> Inr (map (\<lambda>m. if mapping_id m = mapping_id old then values m else m) rows)
              | None \<Rightarrow> Inr (rows @ [values \<lparr>mapping_id = fresh_id (map mapping_id rows), mapping_topic_id = topic,
                  mapping_source_id = source_id src, mapping_enabled = True, mapping_type = ''registry'',
                  mapping_external_identifier = None, mapping_query = None, mapping_configuration = []\<rparr>]))))"

definition sync_mappings :: "sync_env \<Rightarrow> nat \<Rightarrow> (source_kind \<times> source_config) list \<Rightarrow> sync_state \<Rightarrow> sync_state result" where
  "sync_mappings e topic desired s =
     (let db = ss_db s;
          existing = dict_by mapping_source_id
            (filter (\<lambda>m. mapping_topic_id m = topic \<and> mapping_type m = ''registry'') (rdb_mappings db))
      in result_bind (result_fold (sync_mapping topic (rdb_sources db) existing) desired (rdb_mappings db))
           (\<lambda>rows. flush e (update_db (\<lambda>db. db\<lparr>rdb_mappings := rows\<rparr>) s)))"

definition sync_topic :: "sync_env \<Rightarrow> int \<Rightarrow> topic_def \<Rightarrow> sync_state \<Rightarrow> sync_state result" where
  "sync_topic e version d s =
     (let db = ss_db s;
          current = find (\<lambda>t. topic_slug t = td_slug d) (rdb_topics db);
          row = (case current of None \<Rightarrow> blank_topic d (rdb_topics db) | Some t \<Rightarrow> t)
      in case category_id_of (rdb_categories db) (td_category d) of
           None \<Rightarrow> Inl (KeyError (td_category d))
         | Some category \<Rightarrow>
             (case deprecate e d (map_option topic_status current) (topic_values e version d category row) s of
                (t, s1) \<Rightarrow>
                  result_bind (flush e (update_db (\<lambda>db. db\<lparr>rdb_topics := store_topic t (rdb_topics db)\<rparr>) s1)) (\<lambda>s2.
                  result_bind (sync_aliases e (topic_id t) (td_aliases d) s2) (\<lambda>s3.
                  sync_mappings e (topic_id t) (source_items (td_sources d)) s3))))"


section \<open>Version, audit and quality\<close>

definition add_version :: "sync_env \<Rightarrow> loaded_registry \<Rightarrow> registry_diff \<Rightarrow> int \<Rightarrow> string \<Rightarrow> sync_state \<Rightarrow> sync_state" where
  "add_version e r d version applied_by s =
     (case utc_now e s of (now, s1) \<Rightarrow>
        update_db (\<lambda>db. db\<lparr>rdb_versions := rdb_versions db @
          [\<lparr>version_id = fresh_id (map version_id (rdb_versions db)), version_number = version, version_checksum = lr_checksum r,
            version_source_file_count = int (length (lr_source_files r)), version_topic_count = int (length (lr_topics r)),
            version_alias_count = alias_count r, version_mapping_count = mapping_count r, version_applied_by = applied_by,
            version_metadata = [(''warning_count'', JInt (int (length (df_warnings d)))),
              (''warnings'', JList (warning_payloads (df_warnings d)))],
            version_created_at = now\<rparr>]\<rparr>) s1)"

definition change_audit :: "nat \<Rightarrow> registry_change \<Rightarrow> audit_row" where
  "change_audit version c = \<lparr>audit_version_id = version, audit_action = change_action_value (ch_action c),
     audit_entity_type = ch_entity_type c, audit_entity_id = ch_entity_key c, audit_before = ch_before c,
     audit_after = ch_after c\<rparr>"

definition review_audit :: "nat \<Rightarrow> registry_issue \<Rightarrow> audit_row" where
  "review_audit version w = \<lparr>audit_version_id = version, audit_action = ''review'', audit_entity_type = ''alias_collision'',
     audit_entity_id = (case ri_entity w of Some t \<Rightarrow> (if t = [] then ''unknown'' else t) | None \<Rightarrow> ''unknown''),
     audit_before = None, audit_after = Some (issue_dump w)\<rparr>"

definition write_audit :: "nat \<Rightarrow> registry_change list \<Rightarrow> loaded_registry \<Rightarrow> sync_state \<Rightarrow> sync_state" where
  "write_audit version changes r s = update_db (\<lambda>db. db\<lparr>rdb_audit := rdb_audit db @ map (change_audit version) changes @
     map (review_audit version) (filter (\<lambda>w. ri_code w = ''ALLOWED_ALIAS_COLLISION'') (registry_warnings r))\<rparr>) s"

definition warn_if :: "int \<Rightarrow> quality_status" where
  "warn_if n = (if n \<noteq> 0 then QualityWarning else QualityPassed)"

definition count_where :: "('a \<Rightarrow> bool) \<Rightarrow> 'a list \<Rightarrow> int" where
  "count_where p xs = int (length (filter p xs))"

definition registry_checks :: "loaded_registry \<Rightarrow> registry_diff \<Rightarrow> (string \<times> int \<times> quality_status) list" where
  "registry_checks r d =
     (let orphaned = warning_code_count ''ORPHANED_DATABASE_TOPIC'' (df_warnings d);
          active = count_where (\<lambda>t. td_status t = TopicActive) (lr_topics r);
          unmapped = count_where (\<lambda>t. source_items (td_sources t) = []) (lr_topics r);
          without_aliases = count_where (\<lambda>t. td_aliases t = []) (lr_topics r);
          allowed_collisions = warning_code_count ''ALLOWED_ALIAS_COLLISION'' (registry_warnings r)
      in [(''topic_count'', int (length (lr_topics r)), QualityPassed), (''active_topic_count'', active, QualityPassed),
          (''alias_count'', alias_count r, QualityPassed), (''unmapped_topics'', unmapped, warn_if unmapped),
          (''duplicate_aliases'', allowed_collisions, warn_if allowed_collisions),
          (''orphaned_database_topics'', orphaned, warn_if orphaned),
          (''topics_without_aliases'', without_aliases, warn_if without_aliases),
          (''topics_without_any_source_mapping'', unmapped, warn_if unmapped)])"

definition registry_check_row :: "int \<Rightarrow> string \<times> int \<times> quality_status \<Rightarrow> quality_check_row" where
  "registry_check_row version c =
     (case c of (name, n, status) \<Rightarrow> \<lparr>check_run_id = None, check_name = name, check_status = status,
        check_observed = [(''count'', JInt n)],
        check_expected = (if name \<in> {''unmapped_topics'', ''duplicate_aliases'', ''orphaned_database_topics'',
            ''topics_without_aliases'', ''topics_without_any_source_mapping''}
          then [(''count'', JInt 0)] else [(''minimum'', JInt 0)]),
        check_details = [(''registry_version'', JInt version)]\<rparr>)"

definition write_quality_checks :: "loaded_registry \<Rightarrow> registry_diff \<Rightarrow> int \<Rightarrow> sync_state \<Rightarrow> sync_state" where
  "write_quality_checks r d version s =
     update_db (\<lambda>db. db\<lparr>rdb_checks := rdb_checks db @ map (registry_check_row version) (registry_checks r d)\<rparr>) s"

definition report :: "loaded_registry \<Rightarrow> registry_diff \<Rightarrow> bool \<Rightarrow> int option \<Rightarrow> sync_report" where
  "report r d dry_run version = \<lparr>sr_dry_run = dry_run, sr_changed = has_changes d, sr_version = version,
     sr_checksum = lr_checksum r, sr_diff = d, sr_topic_count = int (length (lr_topics r)), sr_alias_count = alias_count r,
     sr_category_count = int (length (lr_categories r)), sr_mapping_count = mapping_count r\<rparr>"


section \<open>The transaction\<close>

definition apply_registry :: "sync_env \<Rightarrow> loaded_registry \<Rightarrow> registry_diff \<Rightarrow> int \<Rightarrow> string \<Rightarrow> sync_state \<Rightarrow> sync_state result" where
  "apply_registry e r d version applied_by s =
     result_bind (flush e (add_version e r d version applied_by s)) (\<lambda>s1.
     result_bind (ensure_sources e r s1) (\<lambda>s2.
     result_bind (sync_categories e r s2) (\<lambda>s3.
     result_bind (result_fold (sync_topic e version) (lr_topics r) s3) (\<lambda>s4.
     (let vid = (case find (\<lambda>v. version_number v = version) (rdb_versions (ss_db s4)) of None \<Rightarrow> 0 | Some v \<Rightarrow> version_id v);
          s5 = write_quality_checks r d version (write_audit vid (df_changes d) r s4)
      in case se_before_commit e of Some err \<Rightarrow> Inl err | None \<Rightarrow> flush e s5)))))"

definition sync :: "sync_env \<Rightarrow> loaded_registry \<Rightarrow> bool \<Rightarrow> string \<Rightarrow> registry_db \<Rightarrow> sync_report result \<times> registry_db" where
  "sync e r dry_run applied_by db =
     (let d = compare_registry (se_nfkc e) db r in
      if dry_run \<or> \<not> has_changes d then (Inr (report r d dry_run None), db)
      else (let version = (case df_latest_version d of None \<Rightarrow> 0 | Some v \<Rightarrow> v) + 1 in
        case apply_registry e r d version applied_by \<lparr>ss_db = db, ss_flushes = 0, ss_clock = 0\<rparr> of
          Inl err \<Rightarrow> (Inl err, db)
        | Inr s \<Rightarrow> (Inr (report r d False (Some version)), ss_db s)))"

end
