(* ===== verification/Registry_Accept.thy ===== *)
theory Registry_Accept
  imports Registry_Loader
begin

text \<open>
  What the loader accepts: the validation across files reports an error exactly when one of the conditions of
  \<open>registry_well_formed\<close>, stated without the tables and loops of the loader, is violated.
\<close>


section \<open>The specification\<close>

definition parent_relation :: "category_def list \<Rightarrow> (string \<times> string) set" where
  "parent_relation categories = {(cd_slug c, p) | c p. c \<in> set categories \<and> cd_parent c = Some p}"

definition categories_well_formed :: "(string \<Rightarrow> string) \<Rightarrow> category_def list \<Rightarrow> bool" where
  "categories_well_formed nfkc categories =
     (distinct (map cd_slug categories) \<and>
      distinct (map (\<lambda>c. normalize_canonical_name nfkc (cd_name c)) categories) \<and>
      (\<forall>c\<in>set categories. \<forall>p. cd_parent c = Some p \<and> p \<noteq> [] \<longrightarrow> p \<in> cd_slug ` set categories) \<and>
      acyclic (parent_relation categories))"

definition alias_identity :: "(string \<Rightarrow> string) \<Rightarrow> alias_def \<Rightarrow> string \<times> bool" where
  "alias_identity nfkc a = (alias_normal nfkc a, ad_case_sensitive a)"

definition topics_well_formed :: "(string \<Rightarrow> string) \<Rightarrow> category_def list \<Rightarrow> topic_def list \<Rightarrow> bool" where
  "topics_well_formed nfkc categories topics =
     (distinct (map td_slug topics) \<and>
      distinct (map (\<lambda>t. normalize_canonical_name nfkc (td_canonical_name t)) topics) \<and>
      (\<forall>t\<in>set topics. td_category t \<in> cd_slug ` set categories) \<and>
      (\<forall>t\<in>set topics. distinct (map (alias_identity nfkc) (td_aliases t))))"

text \<open>The aliases, of all topics, that are the same text up to case.\<close>

definition aliases_like :: "(string \<Rightarrow> string) \<Rightarrow> topic_def list \<Rightarrow> string \<Rightarrow> alias_entry list" where
  "aliases_like nfkc topics n = filter (\<lambda>(slug, a). normalize_alias nfkc False (ad_value a) = n) (alias_entries topics)"

text \<open>Several topics share the text and some observed text would match two of the aliases.\<close>

definition ambiguous_alias :: "(string \<Rightarrow> string) \<Rightarrow> topic_def list \<Rightarrow> string \<Rightarrow> bool" where
  "ambiguous_alias nfkc topics n =
     ((\<exists>a\<in>set (aliases_like nfkc topics n). \<exists>b\<in>set (aliases_like nfkc topics n). fst a \<noteq> fst b) \<and>
      ((\<exists>a\<in>set (aliases_like nfkc topics n). \<not> ad_case_sensitive (snd a)) \<or>
       \<not> distinct (map (\<lambda>(slug, a). alias_normal nfkc a) (aliases_like nfkc topics n))))"

definition collisions_well_formed ::
  "(string \<Rightarrow> string) \<Rightarrow> topic_def list \<Rightarrow> collision_def list \<Rightarrow> bool" where
  "collisions_well_formed nfkc topics collisions =
     (distinct (map (\<lambda>c. normalize_alias nfkc False (al_alias c)) collisions) \<and>
      (\<forall>c\<in>set collisions. set (al_topics c) \<subseteq> td_slug ` set topics) \<and>
      (\<forall>n. ambiguous_alias nfkc topics n \<longrightarrow>
        (\<exists>c\<in>set collisions. normalize_alias nfkc False (al_alias c) = n \<and>
           set (al_topics c) = fst ` set (aliases_like nfkc topics n))))"

definition registry_well_formed ::
  "(string \<Rightarrow> string) \<Rightarrow> category_def list \<Rightarrow> topic_def list \<Rightarrow> collision_def list \<Rightarrow> bool" where
  "registry_well_formed nfkc categories topics collisions =
     (categories_well_formed nfkc categories \<and> topics_well_formed nfkc categories topics \<and>
      collisions_well_formed nfkc topics collisions)"


section \<open>Issues without errors\<close>

definition clean :: "registry_issue list \<Rightarrow> bool" where
  "clean issues = (\<forall>i\<in>set issues. ri_severity i \<noteq> IssueError)"

lemma clean_simps [simp]:
  "clean []" "clean (a @ b) \<longleftrightarrow> clean a \<and> clean b" "clean (concat xss) \<longleftrightarrow> (\<forall>xs\<in>set xss. clean xs)"
  "\<not> clean [error_issue c m f e]" "clean [warning_issue c m e]"
  by (auto simp: clean_def)

lemma clean_error_if: "clean (if b then [error_issue c m f e] else []) \<longleftrightarrow> \<not> b"
  by simp

lemma not_clean: "list_ex (\<lambda>i. ri_severity i = IssueError) issues \<longleftrightarrow> \<not> clean issues"
  by (auto simp: clean_def list_ex_iff)


section \<open>Categories\<close>

lemma category_loop_Cons:
  "fst (category_loop nfkc (c # cs) by_slug names) =
     (if cd_slug c \<in> set (dict_keys by_slug)
      then [error_issue ''DUPLICATE_CATEGORY_SLUG'' (''duplicate category: '' @ cd_slug c) None None] else []) @
     (if normalize_canonical_name nfkc (cd_name c) \<in> set (dict_keys names)
      then [error_issue ''DUPLICATE_CATEGORY_NAME'' (''duplicate category name: '' @ cd_name c) None None] else []) @
     fst (category_loop nfkc cs (dict_set (cd_slug c) c by_slug)
       (dict_set (normalize_canonical_name nfkc (cd_name c)) (cd_slug c) names))"
  "snd (category_loop nfkc (c # cs) by_slug names) =
     snd (category_loop nfkc cs (dict_set (cd_slug c) c by_slug)
       (dict_set (normalize_canonical_name nfkc (cd_name c)) (cd_slug c) names))"
  by (simp_all only: category_loop.simps Let_def case_prod_beta fst_conv snd_conv append_assoc)

lemma category_loop_issues:
  "clean (fst (category_loop nfkc cs by_slug names)) \<longleftrightarrow>
     distinct (map cd_slug cs) \<and> set (map cd_slug cs) \<inter> set (dict_keys by_slug) = {} \<and>
     distinct (map (\<lambda>c. normalize_canonical_name nfkc (cd_name c)) cs) \<and>
     set (map (\<lambda>c. normalize_canonical_name nfkc (cd_name c)) cs) \<inter> set (dict_keys names) = {}"
proof (induction cs arbitrary: by_slug names)
  case (Cons c cs)
  have keys: "set (dict_keys (dict_set k v d)) = insert k (set (dict_keys d))" for k v and d :: "('k, 'v) dict"
    by (simp add: dom_update)
  show ?case
    unfolding category_loop_Cons clean_simps clean_error_if Cons keys by auto
qed simp

lemma category_loop_table: "snd (category_loop nfkc cs by_slug names) = foldl (\<lambda>d c. dict_set (cd_slug c) c d) by_slug cs"
  by (induction cs arbitrary: by_slug names) (simp_all only: category_loop_Cons category_loop.simps(1) snd_conv foldl.simps)

lemma category_table: "snd (category_loop nfkc cs [] []) = dict_by cd_slug cs"
  by (simp add: category_loop_table dict_by_def)

text \<open>The walk from one category: the path is a chain of parents.\<close>

definition table_parents :: "category_table \<Rightarrow> (string \<times> string) set" where
  "table_parents T = {(s, p). \<exists>d. dict_get T s = Some d \<and> cd_parent d = Some p}"

fun parent_chain :: "(string \<times> string) set \<Rightarrow> string list \<Rightarrow> string option \<Rightarrow> bool" where
  "parent_chain R [] current = True"
| "parent_chain R [c] current = (case current of None \<Rightarrow> True | Some p \<Rightarrow> (c, p) \<in> R)"
| "parent_chain R (c # d # path) current = ((c, d) \<in> R \<and> parent_chain R (d # path) current)"

lemma parent_chain_snoc:
  "parent_chain R (path @ [c]) p \<longleftrightarrow> parent_chain R path (Some c) \<and> parent_chain R [c] p"
  by (induction R path "Some c" rule: parent_chain.induct) auto

lemma parent_chain_reach: "parent_chain R (c # path) (Some p) \<Longrightarrow> (c, p) \<in> R\<^sup>+"
proof (induction path arbitrary: c)
  case (Cons d path)
  then have "(c, d) \<in> R" "(d, p) \<in> R\<^sup>+" by auto
  then show ?case by (rule trancl_into_trancl2)
qed simp

lemma parent_chain_suffix: "parent_chain R (xs @ ys) p \<Longrightarrow> parent_chain R ys p"
proof (induction xs)
  case (Cons x xs)
  then show ?case by (cases "xs @ ys") auto
qed simp

lemma category_walk_cycle:
  "category_walk T path current = Some cycle \<Longrightarrow> parent_chain (table_parents T) path current \<Longrightarrow> \<not> acyclic (table_parents T)"
proof (induction T path current rule: category_walk.induct)
  case (1 T path current)
  from "1.prems"(1) obtain c d where c: "current = Some c" "dict_get T c = Some d"
    by (subst (asm) category_walk.simps) (auto split: option.splits)
  show ?case
  proof (cases "c \<in> set path")
    case True
    then obtain xs ys where path: "path = xs @ c # ys" by (auto simp: in_set_conv_decomp)
    have "parent_chain (table_parents T) (c # ys) (Some c)"
      using parent_chain_suffix "1.prems"(2) unfolding path c(1) by blast
    then have "(c, c) \<in> (table_parents T)\<^sup>+" by (rule parent_chain_reach)
    then show ?thesis by (auto simp: acyclic_def)
  next
    case False
    have "category_walk T (path @ [c]) (cd_parent d) = Some cycle"
      using "1.prems"(1) c False by (subst (asm) category_walk.simps) simp
    moreover have "parent_chain (table_parents T) (path @ [c]) (cd_parent d)"
      using "1.prems"(2) c by (simp add: parent_chain_snoc table_parents_def split: option.split)
    ultimately show ?thesis using "1.IH" c False by blast
  qed
qed

lemma category_walk_no_cycle:
  "category_walk T path current = None \<Longrightarrow> current = Some c \<Longrightarrow> (c, c) \<notin> (table_parents T)\<^sup>+"
proof (induction T path current arbitrary: c rule: category_walk.induct)
  case (1 T path current)
  show ?case
  proof
    assume cyc: "(c, c) \<in> (table_parents T)\<^sup>+"
    then obtain p where p: "(c, p) \<in> table_parents T" "(p, c) \<in> (table_parents T)\<^sup>*" by (meson tranclD)
    then obtain d where d: "dict_get T c = Some d" "cd_parent d = Some p" by (auto simp: table_parents_def)
    have "c \<notin> set path" "category_walk T (path @ [c]) (cd_parent d) = None"
      using "1.prems" d by (subst (asm) category_walk.simps, simp split: if_splits)+
    then have "(p, p) \<notin> (table_parents T)\<^sup>+" using "1.IH" "1.prems"(2) d by blast
    moreover have "(p, p) \<in> (table_parents T)\<^sup>+" using p by (rule rtrancl_into_trancl1 [rotated])
    ultimately show False ..
  qed
qed

lemma foldl_dict_set_values:
  "snd ` set (foldl (\<lambda>d x. dict_set (key x) x d) d xs) \<subseteq> snd ` set d \<union> set xs"
proof (induction xs arbitrary: d)
  case (Cons x xs)
  have "snd ` set (dict_set (key x) x d) \<subseteq> insert x (snd ` set d)" by (induction d) auto
  with Cons [of "dict_set (key x) x d"] show ?case by auto
qed simp

lemma dict_by_values: "snd ` set (dict_by key xs) \<subseteq> set xs"
  using foldl_dict_set_values [of key "[]" xs] by (simp add: dict_by_def)

lemma foldl_dict_set_Nil: "foldl (\<lambda>d x. dict_set (f x) x d) m xs = [] \<longleftrightarrow> m = [] \<and> xs = []"
proof (induction xs arbitrary: m)
  case (Cons x xs)
  have "dict_set (f x) x m \<noteq> []" by (cases m) (auto split: if_splits)
  with Cons show ?case by simp
qed simp

lemma dict_by_Nil: "dict_by f xs = [] \<longleftrightarrow> xs = []"
  by (simp add: dict_by_def foldl_dict_set_Nil)

lemma somes_eq_Nil: "somes xs = [] \<longleftrightarrow> (\<forall>x\<in>set xs. x = None)"
  by (induction xs) (auto split: option.splits)

lemma category_cycle_clean: "clean (category_cycle_issues T) \<longleftrightarrow> acyclic (table_parents T)"
proof -
  define found where "found = somes (map (\<lambda>s. map_option (\<lambda>cycle. error_issue ''CATEGORY_CYCLE'' (''category cycle: '' @ join '' -> '' cycle) None None)
          (category_walk T [] (Some s))) (dict_keys T))"
  have "clean (category_cycle_issues T) \<longleftrightarrow> category_cycle_issues T = []"
  proof -
    have "ri_severity i = IssueError" if "i \<in> set (category_cycle_issues T)" for i
    proof -
      have "i \<in> snd ` set (dict_by (\<lambda>i. (ri_code i, ri_message i)) found)" using that by (simp add: category_cycle_issues_def found_def)
      then have "i \<in> set found" using dict_by_values by fast
      then show ?thesis by (auto simp: found_def eq_commute [of "Some i"])
    qed
    then show ?thesis by (cases "category_cycle_issues T") (auto simp: clean_def)
  qed
  also have "\<dots> \<longleftrightarrow> (\<forall>s\<in>set (dict_keys T). category_walk T [] (Some s) = None)"
    by (simp add: category_cycle_issues_def dict_by_Nil somes_eq_Nil)
  also have "\<dots> \<longleftrightarrow> acyclic (table_parents T)"
  proof
    assume none: "\<forall>s\<in>set (dict_keys T). category_walk T [] (Some s) = None"
    show "acyclic (table_parents T)"
      unfolding acyclic_def
    proof (intro allI notI)
      fix s assume s: "(s, s) \<in> (table_parents T)\<^sup>+"
      then obtain d where "dict_get T s = Some d" by (auto simp: table_parents_def dest: tranclD)
      then have "s \<in> set (dict_keys T)" using map_of_SomeD [of T s d] by (force simp: image_iff)
      then have "category_walk T [] (Some s) = None" using none by blast
      from category_walk_no_cycle [OF this refl] s show False ..
    qed
  next
    assume "acyclic (table_parents T)"
    then show "\<forall>s\<in>set (dict_keys T). category_walk T [] (Some s) = None"
      using category_walk_cycle [of T "[]"] by (metis not_None_eq parent_chain.simps(1))
  qed
  finally show ?thesis .
qed

lemma table_parents_eq: "distinct (map cd_slug cs) \<Longrightarrow> table_parents (dict_by cd_slug cs) = parent_relation cs"
  unfolding table_parents_def parent_relation_def
  using dict_by_get_mem [of cd_slug cs] dict_by_get_SomeD [of cd_slug cs] by fast

lemma keys_dict_by: "set (dict_keys (dict_by key xs)) = key ` set xs"
proof -
  have "k \<in> set (dict_keys (dict_by key xs)) \<longleftrightarrow> k \<in> key ` set xs" for k
    using dict_by_get_None [of key xs k] by (simp add: map_of_eq_None_iff)
  then show ?thesis by blast
qed

lemma parent_issues_clean:
  "clean (parent_issues T cs) \<longleftrightarrow>
     (\<forall>c\<in>set cs. \<forall>p. cd_parent c = Some p \<and> p \<noteq> [] \<longrightarrow> p \<in> set (dict_keys T))"
  by (auto simp: parent_issues_def clean_error_if split: option.splits)


lemma categories_clean:
  "clean (fst (category_loop nfkc cs [] [])) \<and> clean (parent_issues (dict_by cd_slug cs) cs) \<and>
   clean (category_cycle_issues (dict_by cd_slug cs)) \<longleftrightarrow> categories_well_formed nfkc cs"
proof (cases "distinct (map cd_slug cs)")
  case True
  show ?thesis
    unfolding category_loop_issues parent_issues_clean category_cycle_clean table_parents_eq [OF True] keys_dict_by
      categories_well_formed_def by auto
qed (simp add: category_loop_issues categories_well_formed_def)


section \<open>Topics\<close>

lemma fresh_keys:
  "(\<forall>x\<in>set xs. f x \<notin> set (f a # seen)) \<longleftrightarrow> f a \<notin> set (map f xs) \<and> (\<forall>x\<in>set xs. f x \<notin> set seen)"
proof -
  have "f a \<in> set (map f xs) \<longleftrightarrow> (\<exists>x\<in>set xs. f x = f a)" by (metis (no_types) imageE image_eqI set_map)
  then show ?thesis by auto
qed

lemma alias_loop_clean:
  "clean (alias_loop nfkc slug as seen) \<longleftrightarrow>
     distinct (map (alias_identity nfkc) as) \<and> (\<forall>a\<in>set as. alias_identity nfkc a \<notin> set seen)"
proof (induction as arbitrary: seen)
  case (Cons a as)
  show ?case unfolding alias_loop.simps Let_def clean_simps clean_error_if alias_identity_def [symmetric] Cons fresh_keys [of _ "alias_identity nfkc"] by auto
qed simp

lemma topic_loop_clean:
  "clean (topic_loop nfkc T ts slugs names) \<longleftrightarrow>
     distinct (map td_slug ts) \<and> (\<forall>t\<in>set ts. td_slug t \<notin> set slugs) \<and>
     distinct (map (\<lambda>t. normalize_canonical_name nfkc (td_canonical_name t)) ts) \<and>
     (\<forall>t\<in>set ts. normalize_canonical_name nfkc (td_canonical_name t) \<notin> set names) \<and>
     (\<forall>t\<in>set ts. td_category t \<in> set (dict_keys T)) \<and>
     (\<forall>t\<in>set ts. distinct (map (alias_identity nfkc) (td_aliases t)))"
proof (induction ts arbitrary: slugs names)
  case (Cons t ts)
  show ?case
    unfolding topic_loop.simps Let_def clean_simps clean_error_if Cons alias_loop_clean fresh_keys [of _ td_slug]
      fresh_keys [of _ "\<lambda>t. normalize_canonical_name nfkc (td_canonical_name t)"] by auto
qed simp

lemma topics_clean:
  "clean (topic_loop nfkc (dict_by cd_slug cs) ts [] []) \<longleftrightarrow> topics_well_formed nfkc cs ts"
  unfolding topic_loop_clean keys_dict_by topics_well_formed_def by simp

lemma page_issues_clean: "clean (page_issues ts)"
  by (auto simp: page_issues_def Let_def)


section \<open>Collisions\<close>

lemma distinct_take: "distinct xs \<longleftrightarrow> (\<forall>i<length xs. xs ! i \<notin> set (take i xs))"
proof (induction xs rule: rev_induct)
  case (snoc x xs)
  have "(\<forall>i<length (xs @ [x]). (xs @ [x]) ! i \<notin> set (take i (xs @ [x]))) \<longleftrightarrow>
      x \<notin> set xs \<and> (\<forall>i<length xs. xs ! i \<notin> set (take i xs))"
    by (auto simp: nth_append less_Suc_eq)
  with snoc show ?case by auto
qed simp

lemma allowlist_issues_clean:
  "clean (allowlist_issues nfkc cs) \<longleftrightarrow> distinct (map (\<lambda>c. normalize_alias nfkc False (al_alias c)) cs)"
proof -
  have "clean (allowlist_issues nfkc cs) \<longleftrightarrow> (\<forall>i<length cs. normalize_alias nfkc False (al_alias (cs ! i))
      \<notin> set (map (\<lambda>c. normalize_alias nfkc False (al_alias c)) (take i cs)))"
    unfolding allowlist_issues_def clean_simps(3) set_map ball_simps(9) clean_error_if by auto
  then show ?thesis unfolding distinct_take by (simp add: take_map)
qed

lemma entries_differ: "\<not> length (remdups (map fst es)) < 2 \<longleftrightarrow> (\<exists>a\<in>set es. \<exists>b\<in>set es. fst a \<noteq> fst b)"
proof -
  have "length (remdups (map fst es)) < 2 \<longleftrightarrow> card (fst ` set es) \<le> Suc 0"
    by (auto simp: length_remdups_card_conv)
  also have "\<dots> \<longleftrightarrow> (\<forall>a\<in>set es. \<forall>b\<in>set es. fst a = fst b)"
    by (subst card_le_Suc0_iff_eq) auto
  finally show ?thesis by blast
qed

lemma length_remdups_distinct: "length (remdups xs) < length xs \<longleftrightarrow> \<not> distinct xs"
proof (cases "distinct xs")
  case True
  then have "remdups xs = xs" by (rule distinct_remdups_id)
  with True show ?thesis by (metis less_irrefl)
next
  case False
  then have "length (remdups xs) \<noteq> length xs" by simp
  with length_remdups_leq [of xs] have "length (remdups xs) < length xs" by (rule le_neq_implies_less)
  with False show ?thesis by (metis)
qed

lemma entries_collide_iff:
  "entries_collide nfkc es \<longleftrightarrow> (\<exists>a\<in>set es. \<not> ad_case_sensitive (snd a)) \<or> \<not> distinct (map (\<lambda>(slug, a). alias_normal nfkc a) es)"
proof -
  have m: "map (alias_normal nfkc) (map snd es) = map (\<lambda>(slug, a). alias_normal nfkc a) es" by auto
  have "length (map snd es) = length (map (\<lambda>(slug, a). alias_normal nfkc a) es)" by simp
  then show ?thesis
    unfolding entries_collide_def Let_def m by (simp only: length_remdups_distinct list_ex_iff) simp
qed

lemma ambiguous_alias_iff:
  "ambiguous_alias nfkc ts n \<longleftrightarrow>
     \<not> length (remdups (map fst (aliases_like nfkc ts n))) < 2 \<and> entries_collide nfkc (aliases_like nfkc ts n)"
  unfolding ambiguous_alias_def entries_differ entries_collide_iff ..

lemma collision_issue_clean:
  "clean (collision_issue nfkc allowlist (n, aliases_like nfkc ts n)) \<longleftrightarrow>
     (ambiguous_alias nfkc ts n \<longrightarrow>
       (\<exists>c. dict_get allowlist n = Some c \<and> set (al_topics c) = fst ` set (aliases_like nfkc ts n)))"
  unfolding ambiguous_alias_iff
  by (auto simp: collision_issue_def collision_of_def Let_def split: option.splits)

lemma alias_groups:
  "(n, es) \<in> set (aliases_by_folded nfkc ts) \<longleftrightarrow> es = aliases_like nfkc ts n \<and> es \<noteq> []"
proof -
  have e: "es = aliases_like nfkc ts n" if "(n, es) \<in> set (aliases_by_folded nfkc ts)" for es
    using group_by_entry [OF that [unfolded aliases_by_folded_def]] by (simp add: aliases_like_def case_prod_beta')
  have k: "n \<in> fst ` set (aliases_by_folded nfkc ts) \<longleftrightarrow> aliases_like nfkc ts n \<noteq> []"
    unfolding aliases_by_folded_def keys_group_by by (auto simp: aliases_like_def filter_empty_conv)
  show ?thesis
  proof
    assume "(n, es) \<in> set (aliases_by_folded nfkc ts)"
    with e [OF this] k show "es = aliases_like nfkc ts n \<and> es \<noteq> []" by force
  next
    assume "es = aliases_like nfkc ts n \<and> es \<noteq> []"
    with k obtain es' where "(n, es') \<in> set (aliases_by_folded nfkc ts)" by force
    with e [OF this] \<open>es = aliases_like nfkc ts n \<and> es \<noteq> []\<close> show "(n, es) \<in> set (aliases_by_folded nfkc ts)" by simp
  qed
qed

lemma collision_entry_clean:
  "clean (collision_entry_issue nfkc slugs used c) \<longleftrightarrow> set (al_topics c) \<subseteq> set slugs"
  by (auto simp: collision_entry_issue_def Let_def filter_empty_conv)

lemma collisions_clean:
  "clean (allowlist_issues nfkc cols) \<and>
   clean (concat (map (collision_issue nfkc (allowlist_by_alias nfkc cols)) (aliases_by_folded nfkc ts))) \<and>
   clean (concat (map (collision_entry_issue nfkc (map td_slug ts) used) cols)) \<longleftrightarrow> collisions_well_formed nfkc ts cols"
proof (cases "distinct (map (\<lambda>c. normalize_alias nfkc False (al_alias c)) cols)")
  case True
  have look: "dict_get (allowlist_by_alias nfkc cols) n = Some c \<longleftrightarrow> c \<in> set cols \<and> normalize_alias nfkc False (al_alias c) = n" for n c
    unfolding allowlist_by_alias_def using dict_by_get_mem [OF True, of c] dict_by_get_SomeD by metis
  have none: "\<not> ambiguous_alias nfkc ts n" if "aliases_like nfkc ts n = []" for n
    using that by (simp add: ambiguous_alias_def)
  have "clean (concat (map (collision_issue nfkc (allowlist_by_alias nfkc cols)) (aliases_by_folded nfkc ts))) \<longleftrightarrow>
      (\<forall>n. aliases_like nfkc ts n \<noteq> [] \<longrightarrow> clean (collision_issue nfkc (allowlist_by_alias nfkc cols) (n, aliases_like nfkc ts n)))"
    using alias_groups [of _ _ nfkc ts] by fastforce
  also have "\<dots> \<longleftrightarrow> (\<forall>n. ambiguous_alias nfkc ts n \<longrightarrow>
        (\<exists>c\<in>set cols. normalize_alias nfkc False (al_alias c) = n \<and>
           set (al_topics c) = fst ` set (aliases_like nfkc ts n)))"
    unfolding collision_issue_clean look using none by blast
  finally show ?thesis
    using True by (simp add: collisions_well_formed_def allowlist_issues_clean collision_entry_clean) blast
qed (simp add: collisions_well_formed_def allowlist_issues_clean)


section \<open>The loader\<close>

lemma cross_file_clean:
  "clean (cross_file_issues nfkc cs ts cols) \<longleftrightarrow> registry_well_formed nfkc cs ts cols"
proof -
  have "cross_file_issues nfkc cs ts cols =
     (let table = aliases_by_folded nfkc ts; allowlist = allowlist_by_alias nfkc cols in
           fst (category_loop nfkc cs [] []) @ parent_issues (dict_by cd_slug cs) cs @ category_cycle_issues (dict_by cd_slug cs) @
           topic_loop nfkc (dict_by cd_slug cs) ts [] [] @ page_issues ts @ allowlist_issues nfkc cols @
           concat (map (collision_issue nfkc allowlist) table) @
           concat (map (collision_entry_issue nfkc (map td_slug ts) (used_allowlist nfkc allowlist table)) cols))"
    by (simp add: cross_file_issues_def case_prod_beta category_table)
  then show ?thesis
    using categories_clean [of nfkc cs] topics_clean [of nfkc cs ts] collisions_clean [of nfkc cols ts] page_issues_clean [of ts]
    unfolding registry_well_formed_def Let_def by (simp only: clean_simps(2)) blast
qed

text \<open>The order of the definitions does not matter.\<close>

lemma distinct_map_mset: "mset xs = mset ys \<Longrightarrow> distinct (map f xs) \<longleftrightarrow> distinct (map f ys)"
  by (rule mset_eq_imp_distinct_iff) simp

lemma mset_concat_map: "mset xs = mset ys \<Longrightarrow> mset (concat (map f xs)) = mset (concat (map f ys))"
proof -
  assume "mset xs = mset ys"
  then have "\<Sum>\<^sub># (image_mset (\<lambda>x. mset (f x)) (mset xs)) = \<Sum>\<^sub># (image_mset (\<lambda>x. mset (f x)) (mset ys))" by simp
  then show ?thesis by (simp add: mset_concat comp_def flip: sum_mset_sum_list)
qed

lemma registry_well_formed_mset:
  assumes "mset cs = mset cs'" "mset ts = mset ts'" "mset cols = mset cols'"
  shows "registry_well_formed nfkc cs ts cols \<longleftrightarrow> registry_well_formed nfkc cs' ts' cols'"
proof -
  note sets = mset_eq_setD [OF assms(1)] mset_eq_setD [OF assms(2)] mset_eq_setD [OF assms(3)]
  have like: "mset (aliases_like nfkc ts n) = mset (aliases_like nfkc ts' n)" for n
    unfolding aliases_like_def alias_entries_def mset_filter mset_concat_map [OF assms(2)] ..
  note ls = mset_eq_setD [OF like]
  have "parent_relation cs = parent_relation cs'" by (simp add: parent_relation_def sets)
  moreover have "ambiguous_alias nfkc ts n = ambiguous_alias nfkc ts' n" for n
    unfolding ambiguous_alias_def ls distinct_map_mset [OF like] ..
  ultimately show ?thesis
    unfolding registry_well_formed_def categories_well_formed_def topics_well_formed_def collisions_well_formed_def
      sets ls distinct_map_mset [OF assms(1)] distinct_map_mset [OF assms(2)] distinct_map_mset [OF assms(3)] by simp
qed

text \<open>The files that the loader reads, in their order, and what is written in them.\<close>

definition registry_files :: "file_tree \<Rightarrow> file_path list" where
  "registry_files f = sort (ft_yaml f @ ft_yml f)"

definition acceptable :: "(string \<Rightarrow> string) \<Rightarrow> file_tree \<Rightarrow> bool" where
  "acceptable nfkc f =
     (ft_is_dir f \<and> registry_files f \<noteq> [] \<and> list_all (\<lambda>p. file_issues (ft_read f) p = []) (registry_files f) \<and>
      (let defs = file_definitions (ft_read f) (registry_files f) in
       registry_well_formed nfkc (concat (map rf_categories defs)) (concat (map rf_topics defs)) (concat (map rf_collisions defs))))"

lemma assemble_accepts:
  "(case assemble nfkc sha files defs of
      Inl issues \<Rightarrow> \<not> registry_well_formed nfkc (concat (map rf_categories defs)) (concat (map rf_topics defs)) (concat (map rf_collisions defs))
    | Inr r \<Rightarrow> registry_well_formed nfkc (concat (map rf_categories defs)) (concat (map rf_topics defs)) (concat (map rf_collisions defs)) \<and>
        registry_well_formed nfkc (lr_categories r) (lr_topics r) (lr_collisions r))"
proof -
  let ?cs = "concat (map rf_categories defs)" and ?ts = "concat (map rf_topics defs)" and ?cols = "concat (map rf_collisions defs)"
  have "registry_well_formed nfkc (sort_key cd_slug ?cs) (sort_key td_slug ?ts)
      (sort_key (\<lambda>c. (casefold (al_alias c), al_topics c)) ?cols) \<longleftrightarrow> registry_well_formed nfkc ?cs ?ts ?cols"
    by (rule registry_well_formed_mset) (simp_all only: mset_sort)
  then show ?thesis unfolding assemble_def Let_def not_clean cross_file_clean by (simp del: mset_concat)
qed

lemma load_registry_accepts:
  "(case load_registry nfkc sha f of
      Inl issues \<Rightarrow> \<not> acceptable nfkc f
    | Inr r \<Rightarrow> acceptable nfkc f \<and> registry_well_formed nfkc (lr_categories r) (lr_topics r) (lr_collisions r))"
proof -
  let ?files = "sort (ft_yaml f @ ft_yml f)"
  have issues: "concat (map (file_issues (ft_read f)) ?files) = [] \<longleftrightarrow> list_all (\<lambda>p. file_issues (ft_read f) p = []) ?files"
    by (simp add: list_all_iff)
  show ?thesis
  proof (cases "ft_is_dir f \<and> ?files \<noteq> [] \<and> list_all (\<lambda>p. file_issues (ft_read f) p = []) ?files")
    case True
    then have "load_registry nfkc sha f = assemble nfkc sha ?files (file_definitions (ft_read f) ?files)"
      unfolding load_registry_def discover_files_def Let_def by (simp only: issues if_True if_False sum.case simp_thms)
    with assemble_accepts [of nfkc "file_definitions (ft_read f) ?files" sha ?files] True show ?thesis
      unfolding acceptable_def registry_files_def Let_def by (simp only: simp_thms)
  next
    case False
    then have "isl (load_registry nfkc sha f)"
      unfolding load_registry_def discover_files_def Let_def by (auto simp: issues simp del: concat_eq_Nil_conv)
    with False show ?thesis unfolding acceptable_def registry_files_def by (auto split: sum.split)
  qed
qed

lemma loaded_registry_well_formed:
  "load_registry nfkc sha f = Inr r \<Longrightarrow> registry_well_formed nfkc (lr_categories r) (lr_topics r) (lr_collisions r)"
  using load_registry_accepts [of nfkc f sha] by simp

text \<open>
  C31: The loader returns a registry exactly when the directory has files, every file can be read, and the
  entries of all files together are well formed: slugs and normalised names are unique, every referenced
  category exists, the parents have no cycle, no topic repeats an alias, and every alias that is ambiguous
  between topics is reviewed in the allowlist with exactly these topics.  The registry that it returns is well
  formed.
\<close>
theorem loader_accepts_well_formed:
  "(case load_registry nfkc sha f of
      Inl issues \<Rightarrow> \<not> acceptable nfkc f
    | Inr r \<Rightarrow> acceptable nfkc f \<and> registry_well_formed nfkc (lr_categories r) (lr_topics r) (lr_collisions r))"
  by (rule load_registry_accepts)

end
