(* ===== verification/Registry_Views.thy ===== *)
theory Registry_Views
  imports Registry_Sync
begin

text \<open>
  The tables of the registry seen as maps from natural keys (slug, normalised alias, source name) to the
  dictionaries that the comparison looks at, and what each step of the synchronisation does to these maps:
  it overrides them with the entries of the registry.
\<close>


section \<open>Rows by key\<close>

abbreviation row_of :: "('a \<Rightarrow> 'k) \<Rightarrow> 'a list \<Rightarrow> 'k \<Rightarrow> 'a option" where
  "row_of key rows k \<equiv> find (\<lambda>x. key x = k) rows"

lemma find_SomeD: "find P xs = Some x \<Longrightarrow> x \<in> set xs \<and> P x"
  by (auto simp: find_Some_iff)

lemma row_of_mem: "distinct (map key rows) \<Longrightarrow> x \<in> set rows \<Longrightarrow> key x = k \<Longrightarrow> row_of key rows k = Some x"
  using find_distinct_eq [of key rows x] by simp

lemma row_of_None: "row_of key rows k = None \<longleftrightarrow> k \<notin> key ` set rows"
  by (auto simp: find_None_iff)

lemma row_of_append: "row_of key (rows @ [x]) k =
    (case row_of key rows k of Some y \<Rightarrow> Some y | None \<Rightarrow> (if key x = k then Some x else None))"
  by (auto simp: find_append split: option.splits)

lemma row_of_map: "(\<And>x. key (f x) = key x) \<Longrightarrow> row_of key (map f rows) k = map_option f (row_of key rows k)"
  by (induction rows) simp_all

text \<open>An update of the rows with one identifier, under a key that it keeps.\<close>

lemma row_of_update:
  assumes "\<And>x. key (f x) = key x" "distinct (map ident rows)" "x \<in> set rows" "ident x = i"
  shows "row_of key (map (\<lambda>y. if ident y = i then f y else y) rows) k =
    (if row_of key rows k = Some x then Some (f x) else row_of key rows k)"
proof -
  have "row_of key (map (\<lambda>y. if ident y = i then f y else y) rows) k =
      map_option (\<lambda>y. if ident y = i then f y else y) (row_of key rows k)"
    by (rule row_of_map) (simp add: assms(1))
  moreover have "ident y = i \<longleftrightarrow> y = x" if "row_of key rows k = Some y" for y
    using find_SomeD [OF that] distinct_map_inj [OF assms(2) _ assms(3)] assms(4) by metis
  ultimately show ?thesis by (cases "row_of key rows k") simp_all
qed

lemma map_update_keys: "(\<And>x. key (f x) = key x) \<Longrightarrow> map key (map (\<lambda>y. if P y then f y else y) rows) = map key rows"
  by (induction rows) simp_all

lemma dict_by_row: "distinct (map key rows) \<Longrightarrow> dict_get (dict_by key rows) k = row_of key rows k"
proof (cases "row_of key rows k")
  case None
  then have "dict_get (dict_by key rows) k = None" unfolding row_of_None dict_by_get_None .
  with None show ?thesis by simp
next
  case (Some x)
  assume "distinct (map key rows)"
  with Some dict_by_get_mem [of key rows x] find_SomeD [OF Some] show ?thesis by auto
qed

lemma dict_by_filter:
  assumes "distinct (map (\<lambda>x. (class x, key x)) rows)" "\<And>x. P x \<longleftrightarrow> class x = a"
  shows "dict_get (dict_by key (filter P rows)) k = row_of (\<lambda>x. (class x, key x)) rows (a, k)"
proof -
  have "inj_on key (set (filter P rows))"
  proof (rule inj_onI)
    fix x y assume "x \<in> set (filter P rows)" "y \<in> set (filter P rows)" "key x = key y"
    then have "x \<in> set rows" "y \<in> set rows" "(class x, key x) = (class y, key y)" using assms(2) by simp_all
    then show "x = y" by (rule distinct_map_inj [OF assms(1)])
  qed
  then have "distinct (map key (filter P rows))"
    using assms(1) by (simp add: distinct_map)
  then have "dict_get (dict_by key (filter P rows)) k = find (\<lambda>x. key x = k) (filter P rows)" by (rule dict_by_row)
  also have "\<dots> = row_of (\<lambda>x. (class x, key x)) rows (a, k)" by (induction rows) (auto simp: assms(2))
  finally show ?thesis .
qed


section \<open>Aliases of a topic\<close>

definition alias_key :: "alias_row \<Rightarrow> (nat \<times> nat option) \<times> string" where
  "alias_key a = ((alias_topic_id a, alias_source_id a), alias_normalized a)"

definition alias_view :: "alias_row list \<Rightarrow> nat \<Rightarrow> string \<Rightarrow> jdict option" where
  "alias_view rows topic n = map_option alias_record (row_of alias_key rows ((topic, None), n))"

text \<open>The rows that the loop has looked up before it started are still there.\<close>

definition aliases_known :: "nat \<Rightarrow> (string, alias_row) dict \<Rightarrow> alias_row list \<Rightarrow> bool" where
  "aliases_known topic existing rows = (\<forall>n old. dict_get existing n = Some old \<longrightarrow>
     (\<exists>a\<in>set rows. alias_id a = alias_id old \<and> alias_key a = ((topic, None), n)))"

lemma aliases_known_update:
  assumes "aliases_known topic existing rows" "\<And>x. alias_id (f x) = alias_id x \<and> alias_key (f x) = alias_key x"
  shows "aliases_known topic existing (map f rows)"
  unfolding aliases_known_def
proof (intro allI impI)
  fix n old assume "dict_get existing n = Some old"
  then obtain a where "a \<in> set rows" "alias_id a = alias_id old" "alias_key a = ((topic, None), n)"
    using assms(1) by (auto simp: aliases_known_def)
  then show "\<exists>a\<in>set (map f rows). alias_id a = alias_id old \<and> alias_key a = ((topic, None), n)"
    using assms(2) [of a] by (intro bexI [of _ "f a"]) auto
qed

lemma sync_alias_keys: "\<exists>ys. map alias_key (sync_alias nfkc topic existing d rows) = map alias_key rows @ ys"
proof (cases "dict_get existing (alias_normal nfkc d)")
  case (Some old)
  then show ?thesis by (intro exI [of _ "[]"]) (simp add: sync_alias_def alias_key_def)
qed (simp add: sync_alias_def)

lemma fold_alias_keys: "\<exists>ys. map alias_key (fold (sync_alias nfkc topic existing) ds rows) = map alias_key rows @ ys"
proof (induction ds arbitrary: rows)
  case (Cons d ds)
  obtain ys where "map alias_key (sync_alias nfkc topic existing d rows) = map alias_key rows @ ys"
    using sync_alias_keys by blast
  with Cons [of "sync_alias nfkc topic existing d rows"] show ?case by auto
qed simp

definition alias_values :: "alias_def \<Rightarrow> alias_row \<Rightarrow> alias_row" where
  "alias_values d a = a\<lparr>alias_text := ad_value d, alias_kind := ad_type d, alias_match_mode := ad_match_mode d,
     alias_case_sensitive := ad_case_sensitive d, alias_status := ad_status d, alias_confidence := ad_confidence d,
     alias_metadata := ad_metadata d\<rparr>"

lemma alias_values_simps [simp]:
  "alias_id (alias_values d a) = alias_id a" "alias_topic_id (alias_values d a) = alias_topic_id a"
  "alias_source_id (alias_values d a) = alias_source_id a" "alias_normalized (alias_values d a) = alias_normalized a"
  "alias_key (alias_values d a) = alias_key a"
  by (simp_all add: alias_values_def alias_key_def)

lemma alias_values_record: "alias_normalized a = alias_normal nfkc d \<Longrightarrow> alias_record (alias_values d a) = alias_definition nfkc d"
  by (simp add: alias_record_def alias_values_def alias_definition_def)

lemma sync_alias_cases:
  assumes "aliases_known topic existing rows"
  obtains (update) a where "a \<in> set rows" "alias_key a = ((topic, None), alias_normal nfkc d)"
      "sync_alias nfkc topic existing d rows = map (\<lambda>x. if alias_id x = alias_id a then alias_values d x else x) rows"
  | (insert) a where "alias_id a = fresh_id (map alias_id rows)" "alias_key a = ((topic, None), alias_normal nfkc d)"
      "sync_alias nfkc topic existing d rows = rows @ [alias_values d a]"
proof (cases "dict_get existing (alias_normal nfkc d)")
  case None
  then show thesis
    by (intro insert [of "\<lparr>alias_id = fresh_id (map alias_id rows), alias_topic_id = topic, alias_source_id = None,
             alias_text = ad_value d, alias_normalized = alias_normal nfkc d, alias_kind = AliasName, alias_match_mode = MatchExact,
             alias_case_sensitive = False, alias_status = AliasActive, alias_confidence = 1000000, alias_metadata = []\<rparr>"])
      (simp_all add: sync_alias_def alias_values_def alias_key_def)
next
  case (Some old)
  then obtain a where "a \<in> set rows" "alias_id a = alias_id old" "alias_key a = ((topic, None), alias_normal nfkc d)"
    using assms by (auto simp: aliases_known_def)
  with Some show thesis by (intro update [of a]) (simp_all add: sync_alias_def alias_values_def)
qed

lemma sync_alias_step:
  assumes "aliases_known topic existing rows" "distinct (map alias_id rows)"
    and "distinct (map alias_key (sync_alias nfkc topic existing d rows))"
  shows "aliases_known topic existing (sync_alias nfkc topic existing d rows) \<and>
    distinct (map alias_id (sync_alias nfkc topic existing d rows)) \<and>
    alias_view (sync_alias nfkc topic existing d rows) topic =
      (alias_view rows topic)(alias_normal nfkc d \<mapsto> alias_definition nfkc d) \<and>
    (\<forall>k. fst k \<noteq> (topic, None) \<longrightarrow> row_of alias_key (sync_alias nfkc topic existing d rows) k = row_of alias_key rows k) \<and>
    alias_topic_id ` set (sync_alias nfkc topic existing d rows) \<subseteq> insert topic (alias_topic_id ` set rows)"
  using assms(1)
proof (cases rule: sync_alias_cases [where nfkc = nfkc and d = d])
  case (update a)
  obtain ys where ys: "map alias_key (sync_alias nfkc topic existing d rows) = map alias_key rows @ ys"
    using sync_alias_keys by blast
  have n: "alias_normalized a = alias_normal nfkc d" using update(2) by (simp add: alias_key_def)
  have dk: "distinct (map alias_key rows)" using assms(3) unfolding ys distinct_append by blast
  have look: "row_of alias_key (sync_alias nfkc topic existing d rows) k =
      (if row_of alias_key rows k = Some a then Some (alias_values d a) else row_of alias_key rows k)" for k
    unfolding update(3) by (rule row_of_update) (use assms(2) update(1) in simp_all)
  have at: "row_of alias_key rows k = Some a \<longleftrightarrow> k = ((topic, None), alias_normal nfkc d)" for k
    using row_of_mem [OF dk update(1)] update(2) find_SomeD [of "\<lambda>x. alias_key x = k" rows a] by blast
  have "aliases_known topic existing (sync_alias nfkc topic existing d rows)"
    unfolding update(3) by (rule aliases_known_update [OF assms(1)]) simp
  moreover have "distinct (map alias_id (sync_alias nfkc topic existing d rows))"
    unfolding update(3) using assms(2) by (subst map_update_keys) simp_all
  moreover have "alias_view (sync_alias nfkc topic existing d rows) topic =
      (alias_view rows topic)(alias_normal nfkc d \<mapsto> alias_definition nfkc d)"
    by (rule ext) (simp add: alias_view_def look at alias_values_record [of a nfkc d, OF n])
  ultimately show ?thesis using look at by (auto simp: update(3) image_iff)
next
  case (insert a)
  have n: "alias_normalized a = alias_normal nfkc d" using insert(2) by (simp add: alias_key_def)
  have new: "alias_key a \<notin> alias_key ` set rows" using assms(3) unfolding insert(3) by simp
  then have none: "row_of alias_key rows ((topic, None), alias_normal nfkc d) = None"
    unfolding row_of_None insert(2) .
  have look: "row_of alias_key (sync_alias nfkc topic existing d rows) k =
      (if k = ((topic, None), alias_normal nfkc d) then Some (alias_values d a) else row_of alias_key rows k)" for k
    unfolding insert(3) row_of_append using none insert(2) by (auto split: option.splits)
  have "aliases_known topic existing (sync_alias nfkc topic existing d rows)"
    using assms(1) unfolding aliases_known_def insert(3) by fastforce
  moreover have "distinct (map alias_id (sync_alias nfkc topic existing d rows))"
    using assms(2) insert(1) by (simp add: insert(3)) (metis fresh_id_notin list.set_map)
  moreover have "alias_view (sync_alias nfkc topic existing d rows) topic =
      (alias_view rows topic)(alias_normal nfkc d \<mapsto> alias_definition nfkc d)"
    by (rule ext) (simp add: alias_view_def look alias_values_record [of a nfkc d, OF n])
  moreover have "alias_topic_id a = topic" using insert(2) by (simp add: alias_key_def)
  ultimately show ?thesis using look by (auto simp: insert(3))
qed


fun desired_aliases :: "(string \<Rightarrow> string) \<Rightarrow> alias_def list \<Rightarrow> (string \<Rightarrow> jdict option) \<Rightarrow> string \<Rightarrow> jdict option" where
  "desired_aliases nfkc [] m = m"
| "desired_aliases nfkc (d # ds) m = desired_aliases nfkc ds (m(alias_normal nfkc d \<mapsto> alias_definition nfkc d))"

lemma fold_alias:
  assumes "aliases_known topic existing rows" "distinct (map alias_id rows)"
    and "distinct (map alias_key (fold (sync_alias nfkc topic existing) ds rows))"
  shows "distinct (map alias_id (fold (sync_alias nfkc topic existing) ds rows)) \<and>
    alias_view (fold (sync_alias nfkc topic existing) ds rows) topic = desired_aliases nfkc ds (alias_view rows topic) \<and>
    (\<forall>k. fst k \<noteq> (topic, None) \<longrightarrow> row_of alias_key (fold (sync_alias nfkc topic existing) ds rows) k = row_of alias_key rows k) \<and>
    alias_topic_id ` set (fold (sync_alias nfkc topic existing) ds rows) \<subseteq> insert topic (alias_topic_id ` set rows)"
  using assms
proof (induction ds arbitrary: rows)
  case Nil
  then show ?case by auto
next
  case (Cons d ds)
  obtain ys where ys: "map alias_key (fold (sync_alias nfkc topic existing) ds (sync_alias nfkc topic existing d rows)) =
      map alias_key (sync_alias nfkc topic existing d rows) @ ys" using fold_alias_keys by blast
  have dk: "distinct (map alias_key (sync_alias nfkc topic existing d rows))"
    using Cons.prems(3) unfolding fold_simps ys distinct_append by blast
  note one = sync_alias_step [OF Cons.prems(1,2) dk]
  note rest = Cons.IH [of "sync_alias nfkc topic existing d rows"]
  have "aliases_known topic existing (sync_alias nfkc topic existing d rows)"
    "distinct (map alias_id (sync_alias nfkc topic existing d rows))" using one by blast+
  note rest = rest [OF this Cons.prems(3) [unfolded fold_simps]]
  have views: "alias_view (sync_alias nfkc topic existing d rows) topic =
      (alias_view rows topic)(alias_normal nfkc d \<mapsto> alias_definition nfkc d)"
    "alias_view (fold (sync_alias nfkc topic existing) ds (sync_alias nfkc topic existing d rows)) topic =
      desired_aliases nfkc ds (alias_view (sync_alias nfkc topic existing d rows) topic)" using one rest by blast+
  have others: "\<forall>k. fst k \<noteq> (topic, None) \<longrightarrow> row_of alias_key (fold (sync_alias nfkc topic existing) ds (sync_alias nfkc topic existing d rows)) k =
      row_of alias_key rows k" using one rest by metis
  have "alias_topic_id ` set (fold (sync_alias nfkc topic existing) ds (sync_alias nfkc topic existing d rows))
        \<subseteq> insert topic (alias_topic_id ` set rows)" using one rest by blast
  with others rest show ?case unfolding fold_simps views desired_aliases.simps by blast
qed

text \<open>The loop starts from what it reads in the table.\<close>

lemma alias_lookup:
  assumes "distinct (map alias_key rows)"
  shows "dict_get (dict_by alias_normalized (topic_aliases topic rows)) n = row_of alias_key rows ((topic, None), n)"
  unfolding topic_aliases_def alias_key_def
  by (rule dict_by_filter) (use assms in \<open>simp_all add: alias_key_def [abs_def]\<close>)

lemma aliases_known_start:
  assumes "distinct (map alias_key rows)"
  shows "aliases_known topic (dict_by alias_normalized (topic_aliases topic rows)) rows"
  unfolding aliases_known_def alias_lookup [OF assms] by (blast dest: find_SomeD)

lemma current_aliases_view:
  assumes "distinct (map alias_key (rdb_aliases db))"
  shows "map_option alias_record (dict_get (current_aliases db t) n) = alias_view (rdb_aliases db) (topic_id t) n"
  using alias_lookup [OF assms, of "topic_id t" n] by (simp add: current_aliases_def topic_aliases_def alias_view_def)

lemma alias_unique_keys: "alias_unique rows \<Longrightarrow> distinct (map alias_key rows)"
proof -
  assume "alias_unique rows"
  then have "distinct (map (\<lambda>a. (alias_topic_id a, alias_normalized a)) rows)" by (simp add: alias_unique_def)
  moreover have "map (\<lambda>a. (alias_topic_id a, alias_normalized a)) rows =
      map (\<lambda>((t, s), n). (t, n)) (map alias_key rows)" by (simp add: alias_key_def)
  ultimately have "distinct (map (\<lambda>((t, s), n). (t, n)) (map alias_key rows))" by (simp only:)
  then show ?thesis unfolding distinct_map [of _ "map alias_key rows"] by blast
qed


section \<open>Mappings of a topic\<close>

definition mapping_row_key :: "mapping_row \<Rightarrow> (nat \<times> string) \<times> nat" where
  "mapping_row_key m = ((mapping_topic_id m, mapping_type m), mapping_source_id m)"

definition mappings_known :: "nat \<Rightarrow> (nat, mapping_row) dict \<Rightarrow> mapping_row list \<Rightarrow> bool" where
  "mappings_known topic existing rows = (\<forall>i old. dict_get existing i = Some old \<longrightarrow>
     (\<exists>m\<in>set rows. mapping_id m = mapping_id old \<and> mapping_row_key m = ((topic, ''registry''), i)))"

text \<open>The dictionary of a mapping without its first entry, the name of the source.\<close>

definition mapping_body :: "mapping_row \<Rightarrow> jdict" where
  "mapping_body m = [(''enabled'', JBool (mapping_enabled m)), (''mapping_type'', JStr (mapping_type m)),
     (''external_identifier'', jopt JStr (mapping_external_identifier m)), (''query'', jopt JStr (mapping_query m)),
     (''configuration'', JObj (mapping_configuration m))]"

definition config_body :: "source_kind \<Rightarrow> source_config \<Rightarrow> jdict" where
  "config_body k c = [(''enabled'', JBool (sc_enabled c)), (''mapping_type'', JStr ''registry''),
     (''external_identifier'', jopt JStr (single_value (k = Wikipedia) c)),
     (''query'', jopt JStr (single_value (k \<noteq> Wikipedia) c)), (''configuration'', JObj (config_dump k c))]"

definition mapping_values :: "source_kind \<Rightarrow> source_config \<Rightarrow> mapping_row \<Rightarrow> mapping_row" where
  "mapping_values k c m = m\<lparr>mapping_enabled := sc_enabled c,
     mapping_external_identifier := single_value (k = Wikipedia) c, mapping_query := single_value (k \<noteq> Wikipedia) c,
     mapping_configuration := config_dump k c\<rparr>"

lemma mapping_values_simps [simp]:
  "mapping_id (mapping_values k c m) = mapping_id m" "mapping_topic_id (mapping_values k c m) = mapping_topic_id m"
  "mapping_source_id (mapping_values k c m) = mapping_source_id m" "mapping_type (mapping_values k c m) = mapping_type m"
  "mapping_row_key (mapping_values k c m) = mapping_row_key m"
  by (simp_all add: mapping_values_def mapping_row_key_def)

lemma mapping_values_body: "mapping_type m = ''registry'' \<Longrightarrow> mapping_body (mapping_values k c m) = config_body k c"
  by (simp add: mapping_body_def mapping_values_def config_body_def)

lemma sync_mapping_cases:
  assumes "mappings_known topic existing rows" "sync_mapping topic sources existing (k, c) rows = Inr rows'"
  obtains (update) src m where "row_of source_name sources (source_kind_name k) = Some src" "m \<in> set rows"
      "mapping_row_key m = ((topic, ''registry''), source_id src)"
      "rows' = map (\<lambda>x. if mapping_id x = mapping_id m then mapping_values k c x else x) rows"
  | (insert) src m where "row_of source_name sources (source_kind_name k) = Some src"
      "mapping_id m = fresh_id (map mapping_id rows)" "mapping_row_key m = ((topic, ''registry''), source_id src)"
      "rows' = rows @ [mapping_values k c m]"
proof -
  obtain src where src: "row_of source_name sources (source_kind_name k) = Some src"
    using assms(2) by (auto simp: sync_mapping_def split: option.splits)
  show thesis
  proof (cases "dict_get existing (source_id src)")
    case None
    then show thesis
      using assms(2) src
      by (intro insert [of src "\<lparr>mapping_id = fresh_id (map mapping_id rows), mapping_topic_id = topic,
                  mapping_source_id = source_id src, mapping_enabled = True, mapping_type = ''registry'',
                  mapping_external_identifier = None, mapping_query = None, mapping_configuration = []\<rparr>"])
        (simp_all add: sync_mapping_def mapping_values_def mapping_row_key_def)
  next
    case (Some old)
    then obtain m where "m \<in> set rows" "mapping_id m = mapping_id old" "mapping_row_key m = ((topic, ''registry''), source_id src)"
      using assms(1) by (auto simp: mappings_known_def)
    with Some assms(2) src show thesis
      by (intro update [of src m]) (auto simp: sync_mapping_def mapping_values_def)
  qed
qed

lemma sync_mapping_keys:
  assumes "sync_mapping topic sources existing item rows = Inr rows'"
  shows "\<exists>ys. map mapping_row_key rows' = map mapping_row_key rows @ ys"
proof -
  obtain k c where item: "item = (k, c)" by (cases item)
  have keep: "map mapping_row_key (map (\<lambda>x. if P x then mapping_values k c x else x) rows) = map mapping_row_key rows" for P
    by (rule map_update_keys) simp
  have "\<exists>P. rows' = map (\<lambda>x. if P x then mapping_values k c x else x) rows \<or> (\<exists>m. rows' = rows @ [m])"
    using assms unfolding sync_mapping_def item
    by (auto simp: Let_def mapping_values_def [symmetric] split: option.splits)
  then consider P where "rows' = map (\<lambda>x. if P x then mapping_values k c x else x) rows" | m where "rows' = rows @ [m]"
    by blast
  then show ?thesis
  proof cases
    case 1
    have "map mapping_row_key rows' = map mapping_row_key rows @ []" unfolding 1 append_Nil2 by (rule keep)
    then show ?thesis ..
  qed simp
qed

text \<open>The entries of a topic by the identifier of their source.\<close>

definition mapping_view :: "mapping_row list \<Rightarrow> nat \<Rightarrow> nat \<Rightarrow> jdict option" where
  "mapping_view rows topic i = map_option mapping_body (row_of mapping_row_key rows ((topic, ''registry''), i))"

fun desired_mappings ::
  "source_row list \<Rightarrow> (source_kind \<times> source_config) list \<Rightarrow> (nat \<Rightarrow> jdict option) \<Rightarrow> nat \<Rightarrow> jdict option" where
  "desired_mappings sources [] m = m"
| "desired_mappings sources ((k, c) # xs) m = desired_mappings sources xs
     (case row_of source_name sources (source_kind_name k) of None \<Rightarrow> m | Some s \<Rightarrow> m(source_id s \<mapsto> config_body k c))"

lemma mappings_known_update:
  assumes "mappings_known topic existing rows" "\<And>x. mapping_id (f x) = mapping_id x \<and> mapping_row_key (f x) = mapping_row_key x"
  shows "mappings_known topic existing (map f rows)"
  unfolding mappings_known_def
proof (intro allI impI)
  fix i old assume "dict_get existing i = Some old"
  then obtain m where "m \<in> set rows" "mapping_id m = mapping_id old" "mapping_row_key m = ((topic, ''registry''), i)"
    using assms(1) by (auto simp: mappings_known_def)
  then show "\<exists>m\<in>set (map f rows). mapping_id m = mapping_id old \<and> mapping_row_key m = ((topic, ''registry''), i)"
    using assms(2) [of m] by (intro bexI [of _ "f m"]) auto
qed

lemma sync_mapping_step:
  assumes "mappings_known topic existing rows" "distinct (map mapping_id rows)"
    and "sync_mapping topic sources existing (k, c) rows = Inr rows'" "distinct (map mapping_row_key rows')"
  shows "mappings_known topic existing rows' \<and> distinct (map mapping_id rows') \<and>
    mapping_view rows' topic = desired_mappings sources [(k, c)] (mapping_view rows topic) \<and>
    (\<forall>q. fst q \<noteq> (topic, ''registry'') \<longrightarrow> row_of mapping_row_key rows' q = row_of mapping_row_key rows q) \<and>
    mapping_topic_id ` set rows' \<subseteq> insert topic (mapping_topic_id ` set rows) \<and>
    mapping_source_id ` set rows' \<subseteq> source_id ` set sources \<union> mapping_source_id ` set rows"
  using assms(1,3)
proof (cases rule: sync_mapping_cases)
  case (update src m)
  have t: "mapping_type m = ''registry''" using update(3) by (simp add: mapping_row_key_def)
  obtain ys where ys: "map mapping_row_key rows' = map mapping_row_key rows @ ys" using sync_mapping_keys [OF assms(3)] by blast
  have dk: "distinct (map mapping_row_key rows)" using assms(4) unfolding ys distinct_append by blast
  have look: "row_of mapping_row_key rows' q =
      (if row_of mapping_row_key rows q = Some m then Some (mapping_values k c m) else row_of mapping_row_key rows q)" for q
    unfolding update(4) by (rule row_of_update) (use assms(2) update(2) in simp_all)
  have at: "row_of mapping_row_key rows q = Some m \<longleftrightarrow> q = ((topic, ''registry''), source_id src)" for q
    using row_of_mem [OF dk update(2)] update(3) find_SomeD [of "\<lambda>x. mapping_row_key x = q" rows m] by blast
  have "mappings_known topic existing rows'"
    unfolding update(4) by (rule mappings_known_update [OF assms(1)]) simp
  moreover have "distinct (map mapping_id rows')" unfolding update(4) using assms(2) by (subst map_update_keys) simp_all
  moreover have "mapping_view rows' topic = desired_mappings sources [(k, c)] (mapping_view rows topic)"
    by (rule ext) (simp add: mapping_view_def look at update(1) mapping_values_body [OF t])
  ultimately show ?thesis using look at by (auto simp: update(4) image_iff)
next
  case (insert src m)
  have t: "mapping_type m = ''registry''" "mapping_topic_id m = topic" "mapping_source_id m = source_id src"
    using insert(3) by (simp_all add: mapping_row_key_def)
  have "mapping_row_key m \<notin> mapping_row_key ` set rows" using assms(4) unfolding insert(4) by simp
  then have none: "row_of mapping_row_key rows ((topic, ''registry''), source_id src) = None"
    unfolding row_of_None insert(3) .
  have look: "row_of mapping_row_key rows' q =
      (if q = ((topic, ''registry''), source_id src) then Some (mapping_values k c m) else row_of mapping_row_key rows q)" for q
    unfolding insert(4) row_of_append using none insert(3) by (auto split: option.splits)
  have "mappings_known topic existing rows'"
    using assms(1) unfolding mappings_known_def insert(4) by fastforce
  moreover have "distinct (map mapping_id rows')"
    using assms(2) insert(2) by (simp add: insert(4)) (metis fresh_id_notin list.set_map)
  moreover have "mapping_view rows' topic = desired_mappings sources [(k, c)] (mapping_view rows topic)"
    by (rule ext) (simp add: mapping_view_def look insert(1) mapping_values_body [OF t(1)])
  moreover have "src \<in> set sources" using find_SomeD [OF insert(1)] by blast
  ultimately show ?thesis using look t by (auto simp: insert(4))
qed

lemma result_fold_mapping_keys:
  "result_fold (sync_mapping topic sources existing) items rows = Inr rows' \<Longrightarrow>
     \<exists>ys. map mapping_row_key rows' = map mapping_row_key rows @ ys"
proof (induction items arbitrary: rows)
  case (Cons item items)
  then obtain rows1 where one: "sync_mapping topic sources existing item rows = Inr rows1"
    "result_fold (sync_mapping topic sources existing) items rows1 = Inr rows'" by auto
  from sync_mapping_keys [OF one(1)] Cons.IH [OF one(2)] show ?case by auto
qed simp

lemma subset_chain: "A \<subseteq> insert t B \<Longrightarrow> B \<subseteq> insert t C \<Longrightarrow> A \<subseteq> insert t C"
  by blast

lemma subset_chain_Un: "A \<subseteq> S \<union> B \<Longrightarrow> B \<subseteq> S \<union> C \<Longrightarrow> A \<subseteq> S \<union> C"
  by blast

lemma fold_mapping:
  assumes "mappings_known topic existing rows" "distinct (map mapping_id rows)"
    and "result_fold (sync_mapping topic sources existing) items rows = Inr rows'" "distinct (map mapping_row_key rows')"
  shows "distinct (map mapping_id rows') \<and>
    mapping_view rows' topic = desired_mappings sources items (mapping_view rows topic) \<and>
    (\<forall>q. fst q \<noteq> (topic, ''registry'') \<longrightarrow> row_of mapping_row_key rows' q = row_of mapping_row_key rows q) \<and>
    mapping_topic_id ` set rows' \<subseteq> insert topic (mapping_topic_id ` set rows) \<and>
    mapping_source_id ` set rows' \<subseteq> source_id ` set sources \<union> mapping_source_id ` set rows"
  using assms(1-3)
proof (induction items arbitrary: rows)
  case Nil
  then show ?case by auto
next
  case (Cons item items)
  obtain k c where item: "item = (k, c)" by (cases item)
  from Cons.prems(3) obtain rows1 where one: "sync_mapping topic sources existing (k, c) rows = Inr rows1"
    "result_fold (sync_mapping topic sources existing) items rows1 = Inr rows'" by (auto simp: item)
  obtain ys where ys: "map mapping_row_key rows' = map mapping_row_key rows1 @ ys" using result_fold_mapping_keys [OF one(2)] by blast
  have dk: "distinct (map mapping_row_key rows1)" using assms(4) unfolding ys distinct_append by blast
  note step = sync_mapping_step [OF Cons.prems(1,2) one(1) dk]
  note step1 = step [THEN conjunct1] step [THEN conjunct2, THEN conjunct1]
  note step2 = step [THEN conjunct2, THEN conjunct2]
  note rest = Cons.IH [OF step1 one(2)]
  have views: "mapping_view rows' topic = desired_mappings sources (item # items) (mapping_view rows topic)"
    unfolding item desired_mappings.simps rest [THEN conjunct2, THEN conjunct1] step2 [THEN conjunct1] ..
  have others: "row_of mapping_row_key rows' q = row_of mapping_row_key rows q" if q: "fst q \<noteq> (topic, ''registry'')" for q
    using rest [THEN conjunct2, THEN conjunct2, THEN conjunct1, rule_format, OF q]
      step2 [THEN conjunct2, THEN conjunct1, rule_format, OF q] by (rule trans)
  have "mapping_topic_id ` set rows' \<subseteq> insert topic (mapping_topic_id ` set rows) \<and>
      mapping_source_id ` set rows' \<subseteq> source_id ` set sources \<union> mapping_source_id ` set rows"
    using subset_chain [OF rest [THEN conjunct2, THEN conjunct2, THEN conjunct2, THEN conjunct1] step2 [THEN conjunct2, THEN conjunct2, THEN conjunct1]]
      subset_chain_Un [OF rest [THEN conjunct2, THEN conjunct2, THEN conjunct2, THEN conjunct2] step2 [THEN conjunct2, THEN conjunct2, THEN conjunct2]]
    by (rule conjI)
  with rest [THEN conjunct1] views others show ?case by (intro conjI allI impI) simp_all
qed

lemma mapping_lookup:
  assumes "distinct (map mapping_row_key rows)"
  shows "dict_get (dict_by mapping_source_id (filter (\<lambda>m. mapping_topic_id m = topic \<and> mapping_type m = ''registry'') rows)) i =
    row_of mapping_row_key rows ((topic, ''registry''), i)"
  unfolding mapping_row_key_def
  by (rule dict_by_filter) (use assms in \<open>simp_all add: mapping_row_key_def [abs_def]\<close>)

lemma mappings_known_start:
  assumes "distinct (map mapping_row_key rows)"
  shows "mappings_known topic
    (dict_by mapping_source_id (filter (\<lambda>m. mapping_topic_id m = topic \<and> mapping_type m = ''registry'') rows)) rows"
  unfolding mappings_known_def mapping_lookup [OF assms] by (blast dest: find_SomeD)

lemma mapping_unique_keys: "mapping_unique rows \<longleftrightarrow> distinct (map mapping_row_key rows)"
proof -
  have "map (\<lambda>m. (mapping_topic_id m, mapping_source_id m, mapping_type m)) rows =
      map (\<lambda>((t, y), i). (t, i, y)) (map mapping_row_key rows)" by (simp add: mapping_row_key_def)
  moreover have "inj_on (\<lambda>((t, y), i). (t, i, y)) A" for A :: "((nat \<times> string) \<times> nat) set" by (auto simp: inj_on_def)
  ultimately show ?thesis unfolding mapping_unique_def by (simp only: distinct_map [of _ "map mapping_row_key rows"] simp_thms)
qed

end
