(* ===== verification/Registry_Merge.thy ===== *)
theory Registry_Merge
  imports Registry_Views
begin

text \<open>
  The abstract registry: maps from natural keys to dictionaries.  Synchronisation refines the override of
  these maps by the entries of the registry, \<open>merge_registry\<close>.
\<close>

record registry_state =
  rs_categories :: "string \<Rightarrow> jdict option"
  rs_topics :: "string \<Rightarrow> jdict option"
  rs_aliases :: "string \<Rightarrow> string \<Rightarrow> jdict option"
  rs_mappings :: "string \<Rightarrow> string \<Rightarrow> jdict option"

definition by_source_name :: "source_row list \<Rightarrow> (nat \<Rightarrow> jdict option) \<Rightarrow> string \<Rightarrow> jdict option" where
  "by_source_name sources m n = (case row_of source_name sources n of None \<Rightarrow> None | Some s \<Rightarrow> m (source_id s))"

definition abs_registry :: "registry_db \<Rightarrow> registry_state" where
  "abs_registry db = \<lparr>
     rs_categories = (\<lambda>s. map_option (category_record db) (row_of category_slug (rdb_categories db) s)),
     rs_topics = (\<lambda>s. map_option (topic_record db) (row_of topic_slug (rdb_topics db) s)),
     rs_aliases = (\<lambda>s. case row_of topic_slug (rdb_topics db) s of None \<Rightarrow> (\<lambda>_. None)
        | Some t \<Rightarrow> alias_view (rdb_aliases db) (topic_id t)),
     rs_mappings = (\<lambda>s. case row_of topic_slug (rdb_topics db) s of None \<Rightarrow> (\<lambda>_. None)
        | Some t \<Rightarrow> by_source_name (rdb_sources db) (mapping_view (rdb_mappings db) (topic_id t)))\<rparr>"

lemma abs_registry_simps:
  "rs_categories (abs_registry db) = (\<lambda>s. map_option (category_record db) (row_of category_slug (rdb_categories db) s))"
  "rs_topics (abs_registry db) s = map_option (topic_record db) (row_of topic_slug (rdb_topics db) s)"
  "rs_aliases (abs_registry db) s = (case row_of topic_slug (rdb_topics db) s of None \<Rightarrow> (\<lambda>_. None)
        | Some t \<Rightarrow> alias_view (rdb_aliases db) (topic_id t))"
  "rs_mappings (abs_registry db) s = (case row_of topic_slug (rdb_topics db) s of None \<Rightarrow> (\<lambda>_. None)
        | Some t \<Rightarrow> by_source_name (rdb_sources db) (mapping_view (rdb_mappings db) (topic_id t)))"
  by (simp_all add: abs_registry_def)

fun desired_configs :: "(source_kind \<times> source_config) list \<Rightarrow> (string \<Rightarrow> jdict option) \<Rightarrow> string \<Rightarrow> jdict option" where
  "desired_configs [] m = m"
| "desired_configs ((k, c) # xs) m = desired_configs xs (m(source_kind_name k \<mapsto> config_body k c))"

definition merge_topic :: "(string \<Rightarrow> string) \<Rightarrow> topic_def \<Rightarrow> registry_state \<Rightarrow> registry_state" where
  "merge_topic nfkc d a = a\<lparr>
     rs_topics := (rs_topics a)(td_slug d \<mapsto> topic_definition nfkc d),
     rs_aliases := (rs_aliases a)(td_slug d := desired_aliases nfkc (td_aliases d) (rs_aliases a (td_slug d))),
     rs_mappings := (rs_mappings a)(td_slug d := desired_configs (source_items (td_sources d)) (rs_mappings a (td_slug d)))\<rparr>"

fun merge_categories :: "category_def list \<Rightarrow> (string \<Rightarrow> jdict option) \<Rightarrow> string \<Rightarrow> jdict option" where
  "merge_categories [] m = m"
| "merge_categories (d # ds) m = merge_categories ds (m(cd_slug d \<mapsto> category_definition d))"

fun merge_topics :: "(string \<Rightarrow> string) \<Rightarrow> topic_def list \<Rightarrow> registry_state \<Rightarrow> registry_state" where
  "merge_topics nfkc [] a = a"
| "merge_topics nfkc (d # ds) a = merge_topics nfkc ds (merge_topic nfkc d a)"

definition merge_registry :: "(string \<Rightarrow> string) \<Rightarrow> loaded_registry \<Rightarrow> registry_state \<Rightarrow> registry_state" where
  "merge_registry nfkc r a =
     merge_topics nfkc (lr_topics r) (a\<lparr>rs_categories := merge_categories (lr_categories r) (rs_categories a)\<rparr>)"


section \<open>Keys of the tables\<close>

definition registry_keys :: "registry_db \<Rightarrow> bool" where
  "registry_keys db =
     (distinct (map source_id (rdb_sources db)) \<and> distinct (map category_id (rdb_categories db)) \<and>
      distinct (map topic_id (rdb_topics db)) \<and> distinct (map alias_id (rdb_aliases db)) \<and>
      distinct (map mapping_id (rdb_mappings db)) \<and>
      alias_topic_id ` set (rdb_aliases db) \<subseteq> topic_id ` set (rdb_topics db) \<and>
      mapping_topic_id ` set (rdb_mappings db) \<subseteq> topic_id ` set (rdb_topics db) \<and>
      mapping_source_id ` set (rdb_mappings db) \<subseteq> source_id ` set (rdb_sources db) \<and>
      (\<forall>c\<in>set (rdb_categories db). \<forall>i. category_parent_id c = Some i \<longrightarrow> i \<in> category_id ` set (rdb_categories db)) \<and>
      (\<forall>t\<in>set (rdb_topics db). \<forall>i. topic_category_id t = Some i \<longrightarrow> i \<in> category_id ` set (rdb_categories db)))"

lemma flush_InrD:
  assumes "flush e s = Inr s'"
  shows "ss_db s' = ss_db s" "registry_constraints (ss_db s)"
  using assms by (auto simp: flush_def split: option.splits if_splits)

lemma update_db_simp [simp]: "ss_db (update_db f s) = f (ss_db s)"
  by (simp add: update_db_def)

lemma constraints_keys:
  assumes "registry_constraints db"
  shows "distinct (map alias_key (rdb_aliases db))" "distinct (map mapping_row_key (rdb_mappings db))"
    "distinct (map topic_slug (rdb_topics db))" "distinct (map category_slug (rdb_categories db))"
    "distinct (map source_name (rdb_sources db))"
  using assms alias_unique_keys by (auto simp: registry_constraints_def mapping_unique_keys)


section \<open>Aliases and mappings of one topic\<close>

lemma sync_aliases_result:
  assumes "sync_aliases e topic ds s = Inr s'" "registry_constraints (ss_db s)"
    and "distinct (map alias_id (rdb_aliases (ss_db s)))"
  shows "\<exists>rows. ss_db s' = (ss_db s)\<lparr>rdb_aliases := rows\<rparr> \<and> registry_constraints (ss_db s') \<and> distinct (map alias_id rows) \<and>
    alias_view rows topic = desired_aliases (se_nfkc e) ds (alias_view (rdb_aliases (ss_db s)) topic) \<and>
    (\<forall>i. i \<noteq> topic \<longrightarrow> alias_view rows i = alias_view (rdb_aliases (ss_db s)) i) \<and>
    alias_topic_id ` set rows \<subseteq> insert topic (alias_topic_id ` set (rdb_aliases (ss_db s)))"
proof -
  define rows where "rows = fold (sync_alias (se_nfkc e) topic
    (dict_by alias_normalized (topic_aliases topic (rdb_aliases (ss_db s))))) ds (rdb_aliases (ss_db s))"
  have f: "ss_db s' = (ss_db s)\<lparr>rdb_aliases := rows\<rparr>" "registry_constraints ((ss_db s)\<lparr>rdb_aliases := rows\<rparr>)"
    using flush_InrD [OF assms(1) [unfolded sync_aliases_def]] by (simp_all add: rows_def)
  have dk: "distinct (map alias_key rows)" using constraints_keys(1) [OF f(2)] by simp
  note start = aliases_known_start [OF constraints_keys(1) [OF assms(2)], of topic]
  note fa = fold_alias [OF start assms(3) dk [unfolded rows_def], folded rows_def]
  have "alias_view rows i = alias_view (rdb_aliases (ss_db s)) i" if "i \<noteq> topic" for i
    using fa that by (auto simp: alias_view_def)
  with f fa show ?thesis by (intro exI [of _ rows]) auto
qed

lemma result_fold_mapping_sources:
  "result_fold (sync_mapping topic sources existing) items rows = Inr rows' \<Longrightarrow>
     list_all (\<lambda>(k, c). row_of source_name sources (source_kind_name k) \<noteq> None) items"
  by (induction items arbitrary: rows) (auto simp: sync_mapping_def split: option.splits)

lemma by_source_name_desired:
  assumes "list_all (\<lambda>(k, c). row_of source_name sources (source_kind_name k) \<noteq> None) items"
    "distinct (map source_id sources)"
  shows "by_source_name sources (desired_mappings sources items m) = desired_configs items (by_source_name sources m)"
  using assms(1)
proof (induction items arbitrary: m)
  case (Cons item items)
  obtain k c where item: "item = (k, c)" by (cases item)
  obtain s where s: "row_of source_name sources (source_kind_name k) = Some s" using Cons.prems by (auto simp: item)
  have "source_id x \<noteq> source_id s" if "row_of source_name sources n = Some x" "n \<noteq> source_kind_name k" for n x
    using find_SomeD [OF that(1)] find_SomeD [OF s] that(2) distinct_map_inj [OF assms(2)] by metis
  then have up: "by_source_name sources (m(source_id s \<mapsto> config_body k c)) =
      (by_source_name sources m)(source_kind_name k \<mapsto> config_body k c)"
    by (auto simp: fun_eq_iff by_source_name_def s split: option.splits)
  have "list_all (\<lambda>(k, c). row_of source_name sources (source_kind_name k) \<noteq> None) items" using Cons.prems by simp
  from Cons.IH [OF this, of "m(source_id s \<mapsto> config_body k c)"]
  show ?case unfolding item desired_mappings.simps desired_configs.simps s option.case up .
qed simp

lemma sync_mappings_result:
  assumes "sync_mappings e topic items s = Inr s'" "registry_constraints (ss_db s)"
    and "distinct (map mapping_id (rdb_mappings (ss_db s)))" "distinct (map source_id (rdb_sources (ss_db s)))"
  shows "\<exists>rows. ss_db s' = (ss_db s)\<lparr>rdb_mappings := rows\<rparr> \<and> registry_constraints (ss_db s') \<and> distinct (map mapping_id rows) \<and>
    by_source_name (rdb_sources (ss_db s)) (mapping_view rows topic) =
      desired_configs items (by_source_name (rdb_sources (ss_db s)) (mapping_view (rdb_mappings (ss_db s)) topic)) \<and>
    (\<forall>i. i \<noteq> topic \<longrightarrow> mapping_view rows i = mapping_view (rdb_mappings (ss_db s)) i) \<and>
    mapping_topic_id ` set rows \<subseteq> insert topic (mapping_topic_id ` set (rdb_mappings (ss_db s))) \<and>
    mapping_source_id ` set rows \<subseteq> source_id ` set (rdb_sources (ss_db s)) \<union> mapping_source_id ` set (rdb_mappings (ss_db s))"
proof -
  let ?existing = "dict_by mapping_source_id
            (filter (\<lambda>m. mapping_topic_id m = topic \<and> mapping_type m = ''registry'') (rdb_mappings (ss_db s)))"
  obtain rows where rows: "result_fold (sync_mapping topic (rdb_sources (ss_db s)) ?existing) items (rdb_mappings (ss_db s)) = Inr rows"
    "flush e (update_db (\<lambda>db. db\<lparr>rdb_mappings := rows\<rparr>) s) = Inr s'"
    using assms(1) by (auto simp: sync_mappings_def Let_def)
  have f: "ss_db s' = (ss_db s)\<lparr>rdb_mappings := rows\<rparr>" "registry_constraints ((ss_db s)\<lparr>rdb_mappings := rows\<rparr>)"
    using flush_InrD [OF rows(2)] by simp_all
  have dk: "distinct (map mapping_row_key rows)" using constraints_keys(2) [OF f(2)] by simp
  note start = mappings_known_start [OF constraints_keys(2) [OF assms(2)], of topic]
  note fm = fold_mapping [OF start assms(3) rows(1) dk]
  have "mapping_view rows i = mapping_view (rdb_mappings (ss_db s)) i" if "i \<noteq> topic" for i
    using fm that by (auto simp: mapping_view_def)
  moreover have "by_source_name (rdb_sources (ss_db s)) (mapping_view rows topic) =
      desired_configs items (by_source_name (rdb_sources (ss_db s)) (mapping_view (rdb_mappings (ss_db s)) topic))"
    using fm by_source_name_desired [OF result_fold_mapping_sources [OF rows(1)] assms(4)] by simp
  ultimately show ?thesis using f fm by (intro exI [of _ rows]) auto
qed


section \<open>One topic\<close>

lemma deprecate_result:
  assumes "deprecate e d p t s = (t', s')"
  shows "ss_db s' = ss_db s \<and> (\<exists>x. t' = t\<lparr>topic_deprecated_at := x\<rparr>)"
  using assms by (auto simp: deprecate_def utc_now_def split: if_splits option.splits
      intro: exI [of _ "topic_deprecated_at t'"])

text \<open>Storing a row under its slug; the row of the slug, if there is one, has the same identifier.\<close>

lemma store_topic_result:
  assumes "distinct (map topic_id rows)" "distinct (map topic_slug rows)"
    and "case row_of topic_slug rows (topic_slug t) of None \<Rightarrow> topic_id t \<notin> topic_id ` set rows | Some x \<Rightarrow> topic_id t = topic_id x"
  shows "row_of topic_slug (store_topic t rows) = (row_of topic_slug rows)(topic_slug t \<mapsto> t) \<and>
    distinct (map topic_id (store_topic t rows)) \<and>
    topic_id ` set (store_topic t rows) = insert (topic_id t) (topic_id ` set rows) \<and>
    (\<forall>x\<in>set (store_topic t rows). x = t \<or> x \<in> set rows)"
proof (cases "row_of topic_slug rows (topic_slug t)")
  case None
  have "topic_slug t \<notin> topic_slug ` set rows" using None unfolding row_of_None .
  moreover have "topic_id t \<notin> topic_id ` set rows" using assms(3) None by simp
  ultimately show ?thesis using assms(1) None
    by (auto simp: store_topic_def fun_eq_iff row_of_append split: option.splits)
next
  case (Some x)
  then have x: "x \<in> set rows" "topic_slug x = topic_slug t" "topic_id t = topic_id x"
    using find_SomeD [OF Some] assms(3) by auto
  have only: "topic_id y = topic_id t \<longleftrightarrow> y = x" "topic_slug y = topic_slug t \<longleftrightarrow> y = x" if "y \<in> set rows" for y
    using distinct_map_inj [OF assms(1) that x(1)] distinct_map_inj [OF assms(2) that x(1)] x(2,3) by auto
  have "store_topic t rows = map (\<lambda>y. if topic_id y = topic_id t then t else y) rows"
    using x by (auto simp: store_topic_def)
  also have "\<dots> = map (\<lambda>y. if y = x then t else y) rows" using only(1) by simp
  finally have st: "store_topic t rows = map (\<lambda>y. if y = x then t else y) rows" .
  have ids: "map topic_id (store_topic t rows) = map topic_id rows" unfolding st using x(3) by (simp add: comp_def)
  have look: "row_of topic_slug (store_topic t rows) k = ((row_of topic_slug rows)(topic_slug t \<mapsto> t)) k" for k
  proof -
    have "row_of topic_slug (store_topic t rows) k = map_option (\<lambda>y. if y = x then t else y) (row_of topic_slug rows k)"
      unfolding st by (rule row_of_map) (simp add: x(2))
    then show ?thesis using only(2) find_SomeD [of "\<lambda>y. topic_slug y = k" rows] Some x(2)
      by (cases "row_of topic_slug rows k") auto
  qed
  have "topic_id ` set (store_topic t rows) = insert (topic_id t) (topic_id ` set rows)"
    using arg_cong [OF ids, of set] x by auto
  moreover have "distinct (map topic_id (store_topic t rows))" unfolding ids by (rule assms(1))
  moreover have "\<forall>y\<in>set (store_topic t rows). y = t \<or> y \<in> set rows" unfolding st by auto
  ultimately show ?thesis using look by (intro conjI ext) blast+
qed

definition same_but_topics :: "registry_db \<Rightarrow> registry_db \<Rightarrow> bool" where
  "same_but_topics db db' = (db' = db\<lparr>rdb_topics := rdb_topics db', rdb_aliases := rdb_aliases db', rdb_mappings := rdb_mappings db'\<rparr>)"

lemma same_but_topics_simps:
  assumes "same_but_topics db db'"
  shows "rdb_sources db' = rdb_sources db" "rdb_categories db' = rdb_categories db" "rdb_versions db' = rdb_versions db"
    "rdb_audit db' = rdb_audit db" "rdb_checks db' = rdb_checks db"
  using arg_cong [OF assms [unfolded same_but_topics_def], of rdb_sources]
    arg_cong [OF assms [unfolded same_but_topics_def], of rdb_categories]
    arg_cong [OF assms [unfolded same_but_topics_def], of rdb_versions]
    arg_cong [OF assms [unfolded same_but_topics_def], of rdb_audit]
    arg_cong [OF assms [unfolded same_but_topics_def], of rdb_checks] by simp_all

lemma category_slug_of_id:
  assumes "category_id_of (rdb_categories db) slug = Some i" "distinct (map category_id (rdb_categories db))"
  shows "category_slug_of db (Some i) = Some slug"
proof -
  obtain c where c: "row_of category_slug (rdb_categories db) slug = Some c" "category_id c = i"
    using assms(1) by (auto simp: category_id_of_def)
  then have "row_of category_id (rdb_categories db) i = Some c"
    using row_of_mem [OF assms(2)] find_SomeD [OF c(1)] by blast
  then show ?thesis using find_SomeD [OF c(1)] by (simp add: category_slug_of_def)
qed

lemma topic_values_record:
  assumes "category_id_of (rdb_categories db) (td_category d) = Some i" "distinct (map category_id (rdb_categories db))"
    and "topic_slug t = td_slug d"
  shows "topic_record db ((topic_values e v d i t)\<lparr>topic_deprecated_at := x\<rparr>) = topic_definition (se_nfkc e) d"
  using category_slug_of_id [OF assms(1,2)] assms(3)
  by (simp add: topic_record_def topic_values_def topic_definition_def jopt_def)

lemma topic_record_categories: "rdb_categories db' = rdb_categories db \<Longrightarrow> topic_record db' = topic_record db"
  by (rule ext) (simp add: topic_record_def category_slug_of_def)

lemma category_record_categories: "rdb_categories db' = rdb_categories db \<Longrightarrow> category_record db' = category_record db"
  by (rule ext) (simp add: category_record_def category_slug_of_def)

lemma fresh_topic_empty:
  assumes "registry_keys db" "i \<notin> topic_id ` set (rdb_topics db)"
  shows "alias_view (rdb_aliases db) i = (\<lambda>_. None)" "mapping_view (rdb_mappings db) i = (\<lambda>_. None)"
proof -
  have "((i, None), n) \<notin> alias_key ` set (rdb_aliases db)" for n
    using assms by (auto simp: registry_keys_def alias_key_def)
  then show "alias_view (rdb_aliases db) i = (\<lambda>_. None)"
    by (auto simp: alias_view_def fun_eq_iff simp flip: row_of_None)
  have "((i, ''registry''), n) \<notin> mapping_row_key ` set (rdb_mappings db)" for n
    using assms by (auto simp: registry_keys_def mapping_row_key_def)
  then show "mapping_view (rdb_mappings db) i = (\<lambda>_. None)"
    by (auto simp: mapping_view_def fun_eq_iff simp flip: row_of_None)
qed

lemma category_id_of_mem: "category_id_of rows slug = Some i \<Longrightarrow> i \<in> category_id ` set rows"
  by (auto simp: category_id_of_def dest: find_SomeD)

text \<open>The keys after the tables of one topic were replaced.\<close>

lemma registry_keys_topic:
  assumes "registry_keys db"
    and "distinct (map topic_id T) \<and> topic_id ` set T = insert (topic_id t) (topic_id ` set (rdb_topics db)) \<and>
      (\<forall>x\<in>set T. x = t \<or> x \<in> set (rdb_topics db))"
    and "distinct (map alias_id A)" "alias_topic_id ` set A \<subseteq> insert (topic_id t) (alias_topic_id ` set (rdb_aliases db))"
    and "distinct (map mapping_id M)" "mapping_topic_id ` set M \<subseteq> insert (topic_id t) (mapping_topic_id ` set (rdb_mappings db))"
    and "mapping_source_id ` set M \<subseteq> source_id ` set (rdb_sources db) \<union> mapping_source_id ` set (rdb_mappings db)"
    and "category_id_of (rdb_categories db) c = topic_category_id t"
  shows "registry_keys (db\<lparr>rdb_topics := T, rdb_aliases := A, rdb_mappings := M\<rparr>)"
proof -
  note old = assms(1) [unfolded registry_keys_def]
  have sub: "alias_topic_id ` set (rdb_aliases db) \<subseteq> topic_id ` set (rdb_topics db)"
    "mapping_topic_id ` set (rdb_mappings db) \<subseteq> topic_id ` set (rdb_topics db)"
    "mapping_source_id ` set (rdb_mappings db) \<subseteq> source_id ` set (rdb_sources db)" using old by - (elim conjE, assumption)+
  have ids: "topic_id ` set T = insert (topic_id t) (topic_id ` set (rdb_topics db))" using assms(2) by (elim conjE)
  have a: "alias_topic_id ` set A \<subseteq> topic_id ` set T" "mapping_topic_id ` set M \<subseteq> topic_id ` set T"
    "mapping_source_id ` set M \<subseteq> source_id ` set (rdb_sources db)"
    unfolding ids using subset_trans [OF assms(4) insert_mono [OF sub(1)]] subset_trans [OF assms(6) insert_mono [OF sub(2)]]
      subset_trans [OF assms(7) Un_least [OF subset_refl sub(3)]] by simp_all
  have "i \<in> category_id ` set (rdb_categories db)" if "x \<in> set T" "topic_category_id x = Some i" for x i
  proof (cases "x = t")
    case True
    with assms(8) that(2) show ?thesis by (intro category_id_of_mem [of _ c]) simp
  next
    case False
    then have "x \<in> set (rdb_topics db)" using assms(2) that(1) by blast
    with old that(2) show ?thesis by blast
  qed
  then have "\<forall>x\<in>set T. \<forall>i. topic_category_id x = Some i \<longrightarrow> i \<in> category_id ` set (rdb_categories db)" by blast
  moreover let ?new = "db\<lparr>rdb_topics := T, rdb_aliases := A, rdb_mappings := M\<rparr>"
  have new: "rdb_sources ?new = rdb_sources db" "rdb_categories ?new = rdb_categories db" "rdb_topics ?new = T"
    "rdb_aliases ?new = A" "rdb_mappings ?new = M" by simp_all
  ultimately show ?thesis using a assms(2,3,5) old unfolding registry_keys_def new
    by - (elim conjE, intro conjI, assumption+)
qed

lemma sync_topic_result:
  assumes "sync_topic e v d s = Inr s'" "registry_constraints (ss_db s)" "registry_keys (ss_db s)"
  shows "abs_registry (ss_db s') = merge_topic (se_nfkc e) d (abs_registry (ss_db s)) \<and>
    registry_constraints (ss_db s') \<and> registry_keys (ss_db s') \<and> same_but_topics (ss_db s) (ss_db s')"
proof -
  define db where "db = ss_db s"
  define current where "current = row_of topic_slug (rdb_topics db) (td_slug d)"
  define row where "row = (case current of None \<Rightarrow> blank_topic d (rdb_topics db) | Some t \<Rightarrow> t)"
  note run = assms(1) [unfolded sync_topic_def Let_def, folded db_def, folded current_def, folded row_def]
  obtain i where cat: "category_id_of (rdb_categories db) (td_category d) = Some i" using run by (auto split: option.splits)
  obtain t s1 where dep: "deprecate e d (map_option topic_status current) (topic_values e v d i row) s = (t, s1)" by fastforce
  obtain s2 s3 where st: "flush e (update_db (\<lambda>db. db\<lparr>rdb_topics := store_topic t (rdb_topics db)\<rparr>) s1) = Inr s2"
    "sync_aliases e (topic_id t) (td_aliases d) s2 = Inr s3"
    "sync_mappings e (topic_id t) (source_items (td_sources d)) s3 = Inr s'"
    using run cat dep by auto
  obtain x where x: "ss_db s1 = db" "t = (topic_values e v d i row)\<lparr>topic_deprecated_at := x\<rparr>"
    using deprecate_result [OF dep] by (auto simp: db_def)
  have keys: "registry_keys db" "registry_constraints db" using assms(2,3) by (simp_all add: db_def)
  note ids = keys(1) [unfolded registry_keys_def]
  have row: "topic_slug row = td_slug d" "case current of None \<Rightarrow> topic_id row \<notin> topic_id ` set (rdb_topics db) | Some x \<Rightarrow> topic_id row = topic_id x"
    using find_SomeD [of "\<lambda>t. topic_slug t = td_slug d" "rdb_topics db"] fresh_id_notin [of "map topic_id (rdb_topics db)"]
    by (auto simp: row_def current_def blank_topic_def split: option.splits)
  have t: "topic_slug t = td_slug d" "topic_id t = topic_id row" "topic_category_id t = Some i"
    using row(1) by (simp_all add: x(2) topic_values_def)
  have rec: "topic_record db t = topic_definition (se_nfkc e) d"
    unfolding x(2) by (rule topic_values_record [OF cat _ row(1)]) (use ids in blast)
  define db2 where "db2 = db\<lparr>rdb_topics := store_topic t (rdb_topics db)\<rparr>"
  have two: "ss_db s2 = db2" "registry_constraints db2" using flush_InrD [OF st(1)] x(1) by (simp_all add: db2_def)
  have stored: "case row_of topic_slug (rdb_topics db) (topic_slug t) of None \<Rightarrow> topic_id t \<notin> topic_id ` set (rdb_topics db)
      | Some x \<Rightarrow> topic_id t = topic_id x" unfolding t(1,2) using row(2) by (simp only: current_def)
  note store = store_topic_result [OF _ constraints_keys(3) [OF keys(2)] stored]
  note store = store [OF ids [THEN conjunct2, THEN conjunct2, THEN conjunct1]]
  obtain A where A: "ss_db s3 = db2\<lparr>rdb_aliases := A\<rparr>" "registry_constraints (ss_db s3)" "distinct (map alias_id A)"
    "alias_view A (topic_id t) = desired_aliases (se_nfkc e) (td_aliases d) (alias_view (rdb_aliases db) (topic_id t))"
    "\<And>j. j \<noteq> topic_id t \<Longrightarrow> alias_view A j = alias_view (rdb_aliases db) j"
    "alias_topic_id ` set A \<subseteq> insert (topic_id t) (alias_topic_id ` set (rdb_aliases db))"
    using sync_aliases_result [OF st(2), unfolded two, OF two(2)] ids by (auto simp: db2_def)
  have m1: "rdb_mappings (ss_db s3) = rdb_mappings db" "rdb_sources (ss_db s3) = rdb_sources db"
    using A(1) by (simp_all add: db2_def)
  have dm: "distinct (map mapping_id (rdb_mappings db))" and ds: "distinct (map source_id (rdb_sources db))"
    using ids by simp_all
  obtain M where M: "ss_db s' = (ss_db s3)\<lparr>rdb_mappings := M\<rparr>" "registry_constraints (ss_db s')" "distinct (map mapping_id M)"
    "by_source_name (rdb_sources db) (mapping_view M (topic_id t)) =
      desired_configs (source_items (td_sources d)) (by_source_name (rdb_sources db) (mapping_view (rdb_mappings db) (topic_id t)))"
    "\<forall>j. j \<noteq> topic_id t \<longrightarrow> mapping_view M j = mapping_view (rdb_mappings db) j"
    "mapping_topic_id ` set M \<subseteq> insert (topic_id t) (mapping_topic_id ` set (rdb_mappings db))"
    "mapping_source_id ` set M \<subseteq> source_id ` set (rdb_sources db) \<union> mapping_source_id ` set (rdb_mappings db)"
    using sync_mappings_result [OF st(3) A(2), unfolded m1, OF dm ds] by (elim exE conjE) (rule that, assumption+)
  have final: "ss_db s' = db\<lparr>rdb_topics := store_topic t (rdb_topics db), rdb_aliases := A, rdb_mappings := M\<rparr>"
    unfolding M(1) A(1) db2_def by simp
  have look: "row_of topic_slug (rdb_topics (ss_db s')) n = (if n = td_slug d then Some t else row_of topic_slug (rdb_topics db) n)" for n
    using fun_cong [OF store [THEN conjunct1], of n] t(1) by (simp add: final)
  have other: "topic_id y \<noteq> topic_id t" if "row_of topic_slug (rdb_topics db) n = Some y" "n \<noteq> td_slug d" for n y
  proof
    assume eq: "topic_id y = topic_id t"
    show False
    proof (cases current)
      case None
      then have "topic_id row \<notin> topic_id ` set (rdb_topics db)" using row(2) by simp
      moreover have "topic_id y \<in> topic_id ` set (rdb_topics db)" using find_SomeD [OF that(1)] by blast
      ultimately show False using eq t(2) by simp
    next
      case (Some z)
      then have "topic_id y = topic_id z" "z \<in> set (rdb_topics db)" "topic_slug z = td_slug d"
        using row(2) eq t(2) find_SomeD [of _ _ z] by (auto simp: current_def dest: find_SomeD)
      then have "y = z" using find_SomeD [OF that(1)] ids distinct_map_inj [of topic_id "rdb_topics db" y z] by blast
      then show False using \<open>topic_slug z = td_slug d\<close> find_SomeD [OF that(1)] that(2) by simp
    qed
  qed
  have old: "(case current of None \<Rightarrow> (\<lambda>_. None) | Some t \<Rightarrow> alias_view (rdb_aliases db) (topic_id t)) = alias_view (rdb_aliases db) (topic_id t)"
    "(case current of None \<Rightarrow> (\<lambda>_. None) | Some t \<Rightarrow> by_source_name (rdb_sources db) (mapping_view (rdb_mappings db) (topic_id t))) =
      by_source_name (rdb_sources db) (mapping_view (rdb_mappings db) (topic_id t))"
    using row(2) t(2) fresh_topic_empty [OF keys(1), of "topic_id t"]
    by (auto simp: by_source_name_def fun_eq_iff split: option.splits)
  have cats: "topic_record (ss_db s') = topic_record db" "category_record (ss_db s') = category_record db"
    by (rule topic_record_categories, simp add: final) (rule category_record_categories, simp add: final)
  have aliases: "rs_aliases (abs_registry (ss_db s')) n = ((rs_aliases (abs_registry db))
      (td_slug d := desired_aliases (se_nfkc e) (td_aliases d) (rs_aliases (abs_registry db) (td_slug d)))) n" for n
  proof (cases "n = td_slug d")
    case True
    then show ?thesis using A(4) old(1) [unfolded current_def] by (simp add: abs_registry_simps look) (simp add: final)
  next
    case False
    then show ?thesis using A(5) other by (cases "row_of topic_slug (rdb_topics db) n") (simp_all add: abs_registry_simps look, simp add: final)
  qed
  have mappings: "rs_mappings (abs_registry (ss_db s')) n = ((rs_mappings (abs_registry db))
      (td_slug d := desired_configs (source_items (td_sources d)) (rs_mappings (abs_registry db) (td_slug d)))) n" for n
  proof (cases "n = td_slug d")
    case True
    then show ?thesis using M(4) old(2) [unfolded current_def] by (simp add: abs_registry_simps look) (simp add: final)
  next
    case False
    then show ?thesis using M(5) other by (cases "row_of topic_slug (rdb_topics db) n") (simp_all add: abs_registry_simps look, simp add: final)
  qed
  have "rs_topics (abs_registry (ss_db s')) n = ((rs_topics (abs_registry db))(td_slug d \<mapsto> topic_definition (se_nfkc e) d)) n" for n
    by (simp add: abs_registry_simps look cats rec)
  moreover have "rs_categories (abs_registry (ss_db s')) = rs_categories (abs_registry db)"
    unfolding abs_registry_simps cats by (simp add: final)
  ultimately have "abs_registry (ss_db s') = merge_topic (se_nfkc e) d (abs_registry db)"
    unfolding merge_topic_def using aliases mappings by (intro registry_state.equality ext) simp_all
  moreover have "registry_keys (ss_db s')"
    unfolding final
  proof (rule registry_keys_topic [OF keys(1) store [THEN conjunct2] A(3,6) M(3,6,7)])
    show "category_id_of (rdb_categories db) (td_category d) = topic_category_id t" unfolding t(3) by (rule cat)
  qed
  moreover have "same_but_topics (ss_db s) (ss_db s')" by (simp add: same_but_topics_def final flip: db_def)
  ultimately show ?thesis using M(2) by (simp add: db_def)
qed

end
