(* ===== verification/Registry_Refinement.thy ===== *)
theory Registry_Refinement
  imports Registry_Merge Registry_Accept
begin

text \<open>
  The whole transaction: sources, categories, topics, version, audit and checks.  On the abstract registry a
  successful synchronisation is the override \<open>merge_registry\<close>.
\<close>


section \<open>Sources\<close>

lemma fold_ensure_source:
  "\<exists>ys. fold ensure_source ks rows = rows @ ys \<and> (distinct (map source_id rows) \<longrightarrow> distinct (map source_id (rows @ ys))) \<and>
     source_name ` set (rows @ ys) = source_name ` set rows \<union> source_kind_name ` set ks"
proof (induction ks arbitrary: rows)
  case (Cons k ks)
  have "\<exists>zs. ensure_source k rows = rows @ zs \<and> (distinct (map source_id rows) \<longrightarrow> distinct (map source_id (rows @ zs))) \<and>
      source_name ` set (rows @ zs) = insert (source_kind_name k) (source_name ` set rows)"
  proof (cases "source_kind_name k \<in> set (map source_name rows)")
    case True
    then show ?thesis by (intro exI [of _ "[]"]) (auto simp: ensure_source_def)
  next
    case False
    then show ?thesis
      using fresh_id_notin [of "map source_id rows"]
      by (intro exI [of _ "[new_source k rows]"]) (simp add: ensure_source_def new_source_def)
  qed
  then obtain zs where zs: "ensure_source k rows = rows @ zs"
    "distinct (map source_id rows) \<longrightarrow> distinct (map source_id (rows @ zs))"
    "source_name ` set (rows @ zs) = insert (source_kind_name k) (source_name ` set rows)" by blast
  obtain ys where ys: "fold ensure_source ks (rows @ zs) = (rows @ zs) @ ys"
    "distinct (map source_id (rows @ zs)) \<longrightarrow> distinct (map source_id ((rows @ zs) @ ys))"
    "source_name ` set ((rows @ zs) @ ys) = source_name ` set (rows @ zs) \<union> source_kind_name ` set ks" using Cons by blast
  have "fold ensure_source (k # ks) rows = rows @ (zs @ ys)" using ys(1) by (simp add: zs(1))
  moreover have "distinct (map source_id rows) \<longrightarrow> distinct (map source_id (rows @ (zs @ ys)))"
    using zs(2) ys(2) unfolding append_assoc by blast
  moreover have "source_name ` set (rows @ (zs @ ys)) = source_name ` set rows \<union> source_kind_name ` set (k # ks)"
    using ys(3) unfolding zs(3) append_assoc by simp
  ultimately show ?case by blast
qed simp

text \<open>More sources do not change what is mapped.\<close>

lemma by_source_name_more:
  assumes "distinct (map source_id (rows @ ys))" "\<And>i. i \<notin> source_id ` set rows \<Longrightarrow> m i = None"
  shows "by_source_name (rows @ ys) m = by_source_name rows m"
proof
  fix n
  show "by_source_name (rows @ ys) m n = by_source_name rows m n"
  proof (cases "row_of source_name rows n")
    case (Some s)
    then show ?thesis by (simp add: by_source_name_def find_append)
  next
    case None
    have "m (source_id s) = None" if "row_of source_name ys n = Some s" for s
    proof (rule assms(2))
      have "s \<in> set ys" using find_SomeD [OF that] by blast
      then show "source_id s \<notin> source_id ` set rows" using assms(1) by auto
    qed
    with None show ?thesis by (auto simp: by_source_name_def find_append split: option.split)
  qed
qed

lemma mapping_view_unknown:
  assumes "registry_keys db" "i \<notin> source_id ` set (rdb_sources db)"
  shows "mapping_view (rdb_mappings db) topic i = None"
proof -
  have "mapping_source_id ` set (rdb_mappings db) \<subseteq> source_id ` set (rdb_sources db)"
    using assms(1) unfolding registry_keys_def by (elim conjE)
  then have "((topic, ''registry''), i) \<notin> mapping_row_key ` set (rdb_mappings db)"
    using assms(2) by (auto simp: mapping_row_key_def)
  then show ?thesis by (simp add: mapping_view_def flip: row_of_None)
qed

lemma registry_keys_sources:
  assumes "registry_keys db" "distinct (map source_id S)" "source_id ` set (rdb_sources db) \<subseteq> source_id ` set S"
  shows "registry_keys (db\<lparr>rdb_sources := S\<rparr>)"
proof -
  let ?new = "db\<lparr>rdb_sources := S\<rparr>"
  note old = assms(1) [unfolded registry_keys_def]
  have "mapping_source_id ` set (rdb_mappings db) \<subseteq> source_id ` set (rdb_sources db)" using old by (elim conjE)
  then have "mapping_source_id ` set (rdb_mappings db) \<subseteq> source_id ` set S" using assms(3) by (rule subset_trans)
  moreover have new: "rdb_sources ?new = S" "rdb_categories ?new = rdb_categories db" "rdb_topics ?new = rdb_topics db"
    "rdb_aliases ?new = rdb_aliases db" "rdb_mappings ?new = rdb_mappings db" by simp_all
  ultimately show ?thesis using old assms(2) unfolding registry_keys_def new
    by - (elim conjE, intro conjI, assumption+)
qed

lemma ensure_sources_result:
  assumes "ensure_sources e r s = Inr s'" "registry_keys (ss_db s)"
  shows "registry_keys (ss_db s') \<and> registry_constraints (ss_db s') \<and> abs_registry (ss_db s') = abs_registry (ss_db s) \<and>
    (\<exists>S. ss_db s' = (ss_db s)\<lparr>rdb_sources := S\<rparr>)"
proof -
  let ?db = "ss_db s"
  let ?S = "fold ensure_source (required_sources r) (rdb_sources ?db)"
  have f: "ss_db s' = ?db\<lparr>rdb_sources := ?S\<rparr>" "registry_constraints (?db\<lparr>rdb_sources := ?S\<rparr>)"
    using flush_InrD [OF assms(1) [unfolded ensure_sources_def]] by simp_all
  obtain ys where ys: "?S = rdb_sources ?db @ ys"
    "distinct (map source_id (rdb_sources ?db)) \<longrightarrow> distinct (map source_id (rdb_sources ?db @ ys))"
    using fold_ensure_source [of "required_sources r" "rdb_sources ?db"] by blast
  have "distinct (map source_id (rdb_sources ?db))" using assms(2) unfolding registry_keys_def by (elim conjE)
  with ys have ids: "distinct (map source_id (rdb_sources ?db @ ys))" by blast
  have maps: "by_source_name (rdb_sources ?db @ ys) (mapping_view (rdb_mappings ?db) i) =
      by_source_name (rdb_sources ?db) (mapping_view (rdb_mappings ?db) i)" for i
    by (rule by_source_name_more [OF ids]) (rule mapping_view_unknown [OF assms(2)])
  have "topic_record (ss_db s') = topic_record ?db" "category_record (ss_db s') = category_record ?db"
    by (rule topic_record_categories, simp add: f(1)) (rule category_record_categories, simp add: f(1))
  then have "abs_registry (ss_db s') = abs_registry ?db"
    by (intro registry_state.equality ext) (simp_all add: abs_registry_simps, simp_all add: f(1) ys(1) maps split: option.split)
  moreover have "registry_keys (ss_db s')"
    unfolding f(1) ys(1) by (rule registry_keys_sources [OF assms(2) ids]) auto
  ultimately show ?thesis using f by auto
qed


section \<open>Categories\<close>

definition carries :: "category_def \<Rightarrow> category_row \<Rightarrow> bool" where
  "carries d c = (category_name c = cd_name d \<and> category_description c = cd_description d \<and>
     category_sort_order c = cd_sort_order d)"

definition category_tag :: "category_row \<Rightarrow> nat \<times> string" where
  "category_tag c = (category_id c, category_slug c)"

lemma upsert_category_step:
  "\<exists>ys. map category_tag (upsert_category d rows) = map category_tag rows @ ys \<and>
     (distinct (map category_id rows) \<longrightarrow> distinct (map category_id (upsert_category d rows))) \<and>
     (\<forall>s. s \<noteq> cd_slug d \<longrightarrow> row_of category_slug (upsert_category d rows) s = row_of category_slug rows s) \<and>
     (\<exists>c. row_of category_slug (upsert_category d rows) (cd_slug d) = Some c \<and> carries d c) \<and>
     category_parent_id ` set (upsert_category d rows) \<subseteq> insert None (category_parent_id ` set rows)"
proof (cases "cd_slug d \<in> set (map category_slug rows)")
  case True
  define f where "f = (\<lambda>c :: category_row. if category_slug c = cd_slug d then c\<lparr>category_name := cd_name d, category_description := cd_description d,
            category_sort_order := cd_sort_order d\<rparr> else c)"
  have up: "upsert_category d rows = map f rows" using True by (simp add: upsert_category_def f_def)
  have look: "row_of category_slug (map f rows) s = map_option f (row_of category_slug rows s)" for s
    by (rule row_of_map) (simp add: f_def)
  obtain c where c: "row_of category_slug rows (cd_slug d) = Some c"
    using True by (cases "row_of category_slug rows (cd_slug d)") (auto simp: find_None_iff)
  have "row_of category_slug (map f rows) s = row_of category_slug rows s" if "s \<noteq> cd_slug d" for s
    using that find_SomeD [of "\<lambda>x. category_slug x = s" rows] unfolding look by (cases "row_of category_slug rows s") (auto simp: f_def)
  moreover have "\<exists>x. row_of category_slug (map f rows) (cd_slug d) = Some x \<and> carries d x"
    using find_SomeD [OF c] unfolding look c by (simp add: carries_def f_def)
  moreover have "map category_tag (map f rows) = map category_tag rows" "map category_id (map f rows) = map category_id rows"
    by (simp_all add: category_tag_def f_def)
  moreover have "category_parent_id ` set (map f rows) \<subseteq> insert None (category_parent_id ` set rows)" by (auto simp: f_def)
  ultimately show ?thesis unfolding up by (intro exI [of _ "[]"]) (simp only: append_Nil2, blast)
next
  case False
  then have n: "row_of category_slug rows (cd_slug d) = None" unfolding row_of_None by simp
  define x where "x = \<lparr>category_id = fresh_id (map category_id rows), category_name = cd_name d, category_slug = cd_slug d,
          category_description = cd_description d, category_parent_id = None, category_sort_order = cd_sort_order d\<rparr>"
  have up: "upsert_category d rows = rows @ [x]" using False by (simp add: upsert_category_def x_def)
  have x: "category_slug x = cd_slug d" "carries d x" "category_parent_id x = None" "category_id x \<notin> set (map category_id rows)"
    using fresh_id_notin [of "map category_id rows"] by (simp_all add: x_def carries_def)
  then show ?thesis unfolding up using n
    by (intro exI [of _ "[category_tag x]"]) (auto simp: find_append split: option.split)
qed

lemma fold_upsert:
  assumes "distinct (map cd_slug ds)"
  shows "\<exists>ys. map category_tag (fold upsert_category ds rows) = map category_tag rows @ ys \<and>
     (distinct (map category_id rows) \<longrightarrow> distinct (map category_id (fold upsert_category ds rows))) \<and>
     (\<forall>s. s \<notin> cd_slug ` set ds \<longrightarrow> row_of category_slug (fold upsert_category ds rows) s = row_of category_slug rows s) \<and>
     (\<forall>d\<in>set ds. \<exists>c. row_of category_slug (fold upsert_category ds rows) (cd_slug d) = Some c \<and> carries d c) \<and>
     category_parent_id ` set (fold upsert_category ds rows) \<subseteq> insert None (category_parent_id ` set rows)"
  using assms
proof (induction ds arbitrary: rows)
  case (Cons d ds)
  define rows1 where "rows1 = upsert_category d rows"
  from upsert_category_step [of d rows, folded rows1_def] obtain zs where
    z: "map category_tag rows1 = map category_tag rows @ zs"
    "distinct (map category_id rows) \<longrightarrow> distinct (map category_id rows1)"
    "\<And>s. s \<noteq> cd_slug d \<Longrightarrow> row_of category_slug rows1 s = row_of category_slug rows s"
    "\<exists>c. row_of category_slug rows1 (cd_slug d) = Some c \<and> carries d c"
    "category_parent_id ` set rows1 \<subseteq> insert None (category_parent_id ` set rows)" by blast
  have "distinct (map cd_slug ds)" "cd_slug d \<notin> cd_slug ` set ds" using Cons.prems by simp_all
  with Cons.IH [of rows1] obtain ys where
    y: "map category_tag (fold upsert_category ds rows1) = map category_tag rows1 @ ys"
    "distinct (map category_id rows1) \<longrightarrow> distinct (map category_id (fold upsert_category ds rows1))"
    "\<And>s. s \<notin> cd_slug ` set ds \<Longrightarrow> row_of category_slug (fold upsert_category ds rows1) s = row_of category_slug rows1 s"
    "\<And>d. d \<in> set ds \<Longrightarrow> \<exists>c. row_of category_slug (fold upsert_category ds rows1) (cd_slug d) = Some c \<and> carries d c"
    "category_parent_id ` set (fold upsert_category ds rows1) \<subseteq> insert None (category_parent_id ` set rows1)" by blast
  have "\<exists>c. row_of category_slug (fold upsert_category ds rows1) (cd_slug d) = Some c \<and> carries d c"
    unfolding y(3) [OF \<open>cd_slug d \<notin> cd_slug ` set ds\<close>] by (rule z(4))
  moreover have "category_parent_id ` set (fold upsert_category ds rows1) \<subseteq> insert None (category_parent_id ` set rows)"
    using y(5) z(5) by (rule subset_chain)
  moreover have "row_of category_slug (fold upsert_category ds rows1) s = row_of category_slug rows s"
    if "s \<notin> cd_slug ` set (d # ds)" for s
    using y(3) [of s] z(3) [of s] that by simp
  moreover have "map category_tag (fold upsert_category ds rows1) = map category_tag rows @ (zs @ ys)"
    using y(1) z(1) by simp
  moreover have "distinct (map category_id rows) \<longrightarrow> distinct (map category_id (fold upsert_category ds rows1))"
    using y(2) z(2) by blast
  ultimately show ?case
    unfolding fold_simps rows1_def [symmetric] using y(4) by (intro exI [of _ "zs @ ys"] conjI allI impI ballI) auto
qed auto


text \<open>The second loop: the parents are looked up by slug, which no step changes.\<close>

lemma set_parent_tags [simp]: "map category_tag (set_parent d rows) = map category_tag rows"
  by (simp add: set_parent_def category_tag_def)

lemma category_id_of_tags: "category_id_of rows slug = map_option fst (find (\<lambda>t. snd t = slug) (map category_tag rows))"
  by (induction rows) (simp_all add: category_id_of_def category_tag_def)

lemma parent_id_of_tags: "map category_tag rows' = map category_tag rows \<Longrightarrow> parent_id_of rows' = parent_id_of rows"
  by (rule ext) (simp add: parent_id_of_def category_id_of_tags split: option.split)

lemma set_parent_look:
  "row_of category_slug (set_parent d rows) s =
     (if s = cd_slug d then map_option (\<lambda>c. c\<lparr>category_parent_id := parent_id_of rows d\<rparr>) (row_of category_slug rows s)
      else row_of category_slug rows s)"
proof -
  define f where "f = (\<lambda>c :: category_row. if category_slug c = cd_slug d then c\<lparr>category_parent_id := parent_id_of rows d\<rparr> else c)"
  have "row_of category_slug (map f rows) s = map_option f (row_of category_slug rows s)"
    by (rule row_of_map) (simp add: f_def)
  moreover have "set_parent d rows = map f rows" by (simp add: set_parent_def f_def)
  ultimately show ?thesis using find_SomeD [of "\<lambda>c. category_slug c = s" rows]
    by (cases "row_of category_slug rows s") (auto simp: f_def)
qed

lemma subset_insert_Un: "X \<subseteq> A \<union> P \<Longrightarrow> A \<subseteq> insert p B \<Longrightarrow> X \<subseteq> B \<union> insert p P"
  by blast

lemma fold_set_parent:
  assumes "distinct (map cd_slug ds)"
  shows "map category_tag (fold set_parent ds rows) = map category_tag rows \<and>
     (\<forall>s. s \<notin> cd_slug ` set ds \<longrightarrow> row_of category_slug (fold set_parent ds rows) s = row_of category_slug rows s) \<and>
     (\<forall>d\<in>set ds. row_of category_slug (fold set_parent ds rows) (cd_slug d) =
        map_option (\<lambda>c. c\<lparr>category_parent_id := parent_id_of rows d\<rparr>) (row_of category_slug rows (cd_slug d))) \<and>
     category_parent_id ` set (fold set_parent ds rows) \<subseteq> category_parent_id ` set rows \<union> parent_id_of rows ` set ds"
  using assms
proof (induction ds arbitrary: rows)
  case (Cons d ds)
  define rows1 where "rows1 = set_parent d rows"
  have tags: "map category_tag rows1 = map category_tag rows" by (simp add: rows1_def)
  note parents = parent_id_of_tags [OF tags]
  have new: "cd_slug d \<notin> cd_slug ` set ds" "distinct (map cd_slug ds)" using Cons.prems by simp_all
  note IH = Cons.IH [OF new(2), of rows1, unfolded tags parents]
  note look = set_parent_look [where d = d and rows = rows, folded rows1_def]
  have "row_of category_slug (fold set_parent ds rows1) (cd_slug x) =
      map_option (\<lambda>c. c\<lparr>category_parent_id := parent_id_of rows x\<rparr>) (row_of category_slug rows (cd_slug x))" if x: "x \<in> set (d # ds)" for x
  proof (cases "x = d")
    case True
    have "row_of category_slug (fold set_parent ds rows1) (cd_slug d) = row_of category_slug rows1 (cd_slug d)"
      using IH new(1) by blast
    then show ?thesis using look [of "cd_slug d"] True by simp
  next
    case False
    then have "x \<in> set ds" using x by simp
    moreover from this new(1) have "cd_slug x \<noteq> cd_slug d" by (metis imageI)
    ultimately show ?thesis using IH look [of "cd_slug x"] by simp
  qed
  moreover have "row_of category_slug (fold set_parent ds rows1) s = row_of category_slug rows s" if "s \<notin> cd_slug ` set (d # ds)" for s
    using IH look [of s] that by simp
  moreover have "category_parent_id ` set rows1 \<subseteq> insert (parent_id_of rows d) (category_parent_id ` set rows)"
    by (auto simp: rows1_def set_parent_def)
  then have "category_parent_id ` set (fold set_parent ds rows1) \<subseteq> category_parent_id ` set rows \<union> parent_id_of rows ` set (d # ds)"
    unfolding list.set image_insert using subset_insert_Un [OF IH [THEN conjunct2, THEN conjunct2, THEN conjunct2]] by blast
  ultimately show ?case unfolding fold_simps rows1_def [symmetric] using IH by (intro conjI ballI allI impI) blast+
qed auto

text \<open>The dictionary of a row: its parent is looked up in the tags of the rows.\<close>

lemma category_slug_of_tags:
  "category_slug_of db i = Option.bind i (\<lambda>j. map_option snd (find (\<lambda>t. fst t = j) (map category_tag (rdb_categories db))))"
proof -
  have "map_option category_slug (find (\<lambda>c. category_id c = j) rows) = map_option snd (find (\<lambda>t. fst t = j) (map category_tag rows))"
    for j rows by (induction rows) (simp_all add: category_tag_def)
  then show ?thesis by (simp add: category_slug_of_def)
qed

lemma category_slug_of_kept:
  assumes "map category_tag (rdb_categories db') = map category_tag (rdb_categories db) @ ys"
    and "\<And>j. i = Some j \<Longrightarrow> j \<in> category_id ` set (rdb_categories db)"
  shows "category_slug_of db' i = category_slug_of db i"
proof (cases i)
  case (Some j)
  then obtain c where "c \<in> set (rdb_categories db)" "category_id c = j" using assms(2) by blast
  then have "find (\<lambda>t. fst t = j) (map category_tag (rdb_categories db)) \<noteq> None"
    by (auto simp: find_None_iff category_tag_def)
  then show ?thesis unfolding category_slug_of_tags assms(1) by (auto simp: Some find_append)
qed (simp add: category_slug_of_def)

lemma merge_categories_look:
  assumes "distinct (map cd_slug ds)"
  shows "merge_categories ds m s = (case row_of cd_slug ds s of None \<Rightarrow> m s | Some d \<Rightarrow> Some (category_definition d))"
  using assms
proof (induction ds arbitrary: m)
  case (Cons d ds)
  have "row_of cd_slug ds (cd_slug d) = None" using Cons.prems unfolding row_of_None by simp
  with Cons show ?case by (auto split: option.split)
qed simp


lemma registry_keys_categories:
  assumes "registry_keys db" "distinct (map category_id C)" "category_id ` set (rdb_categories db) \<subseteq> category_id ` set C"
    and "category_parent_id ` set C \<subseteq> insert None (Some ` category_id ` set C)"
  shows "registry_keys (db\<lparr>rdb_categories := C\<rparr>)"
proof -
  let ?new = "db\<lparr>rdb_categories := C\<rparr>"
  note old = assms(1) [unfolded registry_keys_def]
  have "\<forall>c\<in>set C. \<forall>i. category_parent_id c = Some i \<longrightarrow> i \<in> category_id ` set C"
  proof (intro ballI allI impI)
    fix c i assume "c \<in> set C" "category_parent_id c = Some i"
    then have "Some i \<in> category_parent_id ` set C" by (metis imageI)
    with assms(4) have "Some i \<in> insert None (Some ` category_id ` set C)" by (rule subsetD)
    then show "i \<in> category_id ` set C" by auto
  qed
  moreover have "\<forall>t\<in>set (rdb_topics db). \<forall>i. topic_category_id t = Some i \<longrightarrow> i \<in> category_id ` set (rdb_categories db)"
    using old by (elim conjE)
  then have "\<forall>t\<in>set (rdb_topics db). \<forall>i. topic_category_id t = Some i \<longrightarrow> i \<in> category_id ` set C"
    using assms(3) by (metis subsetD)
  moreover have new: "rdb_sources ?new = rdb_sources db" "rdb_categories ?new = C" "rdb_topics ?new = rdb_topics db"
    "rdb_aliases ?new = rdb_aliases db" "rdb_mappings ?new = rdb_mappings db" by simp_all
  ultimately show ?thesis using old assms(2) unfolding registry_keys_def new
    by - (elim conjE, intro conjI, assumption+)
qed

lemma sync_categories_result:
  assumes "sync_categories e r s = Inr s'" "registry_keys (ss_db s)" "registry_constraints (ss_db s)"
    and "categories_well_formed nfkc (lr_categories r)" "list_all category_valid (lr_categories r)"
  shows "registry_keys (ss_db s') \<and> registry_constraints (ss_db s') \<and>
    abs_registry (ss_db s') = (abs_registry (ss_db s))\<lparr>rs_categories := merge_categories (lr_categories r) (rs_categories (abs_registry (ss_db s)))\<rparr> \<and>
    (\<exists>C. ss_db s' = (ss_db s)\<lparr>rdb_categories := C\<rparr>)"
proof -
  define db where "db = ss_db s"
  define ds where "ds = lr_categories r"
  define C1 where "C1 = fold upsert_category ds (rdb_categories db)"
  define C where "C = fold set_parent ds C1"
  define db' where "db' = db\<lparr>rdb_categories := C\<rparr>"
  obtain s1 where s1: "flush e (update_db (\<lambda>db. db\<lparr>rdb_categories := fold upsert_category (lr_categories r) (rdb_categories db)\<rparr>) s) = Inr s1"
    "flush e (update_db (\<lambda>db. db\<lparr>rdb_categories := fold set_parent (lr_categories r) (rdb_categories db)\<rparr>) s1) = Inr s'"
    using assms(1) by (auto simp: sync_categories_def)
  have mid: "ss_db s1 = db\<lparr>rdb_categories := C1\<rparr>"
    using flush_InrD(1) [OF s1(1)] by (simp add: db_def C1_def ds_def)
  have f: "ss_db s' = db'" "registry_constraints db'"
    using flush_InrD [OF s1(2)] by (simp_all add: mid db'_def C_def ds_def)
  have new: "rdb_sources db' = rdb_sources db" "rdb_categories db' = C" "rdb_topics db' = rdb_topics db"
    "rdb_aliases db' = rdb_aliases db" "rdb_mappings db' = rdb_mappings db" by (simp_all add: db'_def)
  have slugs: "distinct (map cd_slug ds)" using assms(4) by (simp add: categories_well_formed_def ds_def)
  have old: "registry_keys db" using assms(2) by (simp add: db_def)
  have ids: "distinct (map category_id (rdb_categories db))" using old unfolding registry_keys_def by (elim conjE)
  from fold_upsert [OF slugs, of "rdb_categories db", folded C1_def] obtain ys where
    up: "map category_tag C1 = map category_tag (rdb_categories db) @ ys"
    "distinct (map category_id (rdb_categories db)) \<longrightarrow> distinct (map category_id C1)"
    "\<And>x. x \<notin> cd_slug ` set ds \<Longrightarrow> row_of category_slug C1 x = row_of category_slug (rdb_categories db) x"
    "\<And>d. d \<in> set ds \<Longrightarrow> \<exists>c. row_of category_slug C1 (cd_slug d) = Some c \<and> carries d c"
    "category_parent_id ` set C1 \<subseteq> insert None (category_parent_id ` set (rdb_categories db))" by blast
  note sp = fold_set_parent [OF slugs, of C1, folded C_def]
  have tags: "map category_tag C = map category_tag (rdb_categories db) @ ys" using sp up(1) by simp
  have idtags: "map category_id rows = map fst (map category_tag rows)" for rows by (simp add: category_tag_def)
  have cid: "map category_id C = map category_id C1" unfolding idtags using sp by simp
  have dist: "distinct (map category_id C)" unfolding cid using up(2) ids by blast
  have more: "category_id ` set (rdb_categories db) \<subseteq> category_id ` set C"
    using arg_cong [OF tags, of "\<lambda>xs. set (map fst xs)"] by (auto simp: category_tag_def image_image)
  have kept: "category_slug_of db' i = category_slug_of db i" if "\<And>j. i = Some j \<Longrightarrow> j \<in> category_id ` set (rdb_categories db)" for i
    by (rule category_slug_of_kept [of _ _ ys]) (use tags that new in auto)
  have ok: "category_slug_of db' (parent_id_of C1 d) = cd_parent d" if d: "d \<in> set ds" for d
  proof (cases "cd_parent d")
    case None
    then show ?thesis by (simp add: parent_id_of_def category_slug_of_def)
  next
    case (Some p)
    have "category_valid d" using assms(5) d by (simp add: list_all_iff ds_def)
    then have "p \<noteq> []" using Some by (auto simp: category_valid_def slug_pattern_def)
    moreover from this Some d assms(4) have "p \<in> cd_slug ` set ds" by (auto simp: categories_well_formed_def ds_def)
    then obtain c where c: "row_of category_slug C1 p = Some c" using up(4) by blast
    ultimately have "parent_id_of C1 d = Some (category_id c)" by (simp add: parent_id_of_def Some category_id_of_def)
    moreover have "category_slug_of db' (Some (category_id c)) = Some p"
    proof (rule category_slug_of_id)
      have "category_id_of C p = category_id_of C1 p" unfolding category_id_of_tags using sp by simp
      then show "category_id_of (rdb_categories db') p = Some (category_id c)" by (simp add: new c category_id_of_def)
    qed (simp add: new dist)
    ultimately show ?thesis using Some by simp
  qed
  have cats: "rs_categories (abs_registry db') x = merge_categories ds (rs_categories (abs_registry db)) x" for x
  proof (cases "row_of cd_slug ds x")
    case None
    then have n: "x \<notin> cd_slug ` set ds" unfolding row_of_None .
    then have same: "row_of category_slug C x = row_of category_slug (rdb_categories db) x" using sp up(3) by simp
    have "category_record db' c = category_record db c" if "c \<in> set (rdb_categories db)" for c
      unfolding category_record_def by (subst kept) (use old that in \<open>auto simp: registry_keys_def\<close>)
    then have "map_option (category_record db') (row_of category_slug (rdb_categories db) x) =
        map_option (category_record db) (row_of category_slug (rdb_categories db) x)"
      using find_SomeD [of _ "rdb_categories db"] by (auto intro!: option.map_cong0 dest: find_SomeD)
    then show ?thesis unfolding merge_categories_look [OF slugs] None by (simp add: abs_registry_simps new same)
  next
    case (Some d)
    then have d: "d \<in> set ds" "cd_slug d = x" using find_SomeD [OF Some] by auto
    obtain c where c: "row_of category_slug C1 x = Some c" "carries d c" using up(4) [OF d(1)] d(2) by blast
    have "row_of category_slug C x = Some (c\<lparr>category_parent_id := parent_id_of C1 d\<rparr>)" using sp d c(1) by auto
    moreover have "category_record db' (c\<lparr>category_parent_id := parent_id_of C1 d\<rparr>) = category_definition d"
      using c(2) find_SomeD [OF c(1)] d(2) ok [OF d(1)] by (simp add: category_record_def category_definition_def carries_def)
    ultimately show ?thesis unfolding merge_categories_look [OF slugs] Some by (simp add: abs_registry_simps new)
  qed
  have tops: "topic_record db' t = topic_record db t" if "t \<in> set (rdb_topics db)" for t
    unfolding topic_record_def by (subst kept) (use old that in \<open>auto simp: registry_keys_def\<close>)
  have topics: "rs_topics (abs_registry db') x = rs_topics (abs_registry db) x" for x
    using tops find_SomeD [of "\<lambda>t. topic_slug t = x" "rdb_topics db"]
    by (cases "row_of topic_slug (rdb_topics db) x") (auto simp: abs_registry_simps new)
  have "abs_registry db' = (abs_registry db)\<lparr>rs_categories := merge_categories ds (rs_categories (abs_registry db))\<rparr>"
    using cats topics by (intro registry_state.equality ext) (simp_all add: abs_registry_simps(3,4) new split: option.split)
  moreover have "category_parent_id ` set C \<subseteq> insert None (Some ` category_id ` set C)"
  proof -
    have looked: "parent_id_of C1 d \<in> insert None (Some ` category_id ` set C)" for d
    proof (cases "parent_id_of C1 d")
      case (Some i)
      then have "\<exists>p. category_id_of C1 p = Some i" by (auto simp: parent_id_of_def split: option.splits if_splits)
      then have "i \<in> category_id ` set C" using category_id_of_mem [of C1] arg_cong [OF cid, of set] by auto
      then show ?thesis using Some by simp
    qed simp
    have "\<forall>c\<in>set (rdb_categories db). \<forall>i. category_parent_id c = Some i \<longrightarrow> i \<in> category_id ` set (rdb_categories db)"
      using old unfolding registry_keys_def by (elim conjE)
    then have "category_parent_id ` set (rdb_categories db) \<subseteq> insert None (Some ` category_id ` set (rdb_categories db))"
      by (auto simp: subset_iff image_iff) (metis not_None_eq)
    also have "\<dots> \<subseteq> insert None (Some ` category_id ` set C)" by (rule insert_mono [OF image_mono [OF more]])
    finally have "category_parent_id ` set (rdb_categories db) \<subseteq> insert None (Some ` category_id ` set C)" .
    with up(5) have "category_parent_id ` set C1 \<subseteq> insert None (Some ` category_id ` set C)" by (rule subset_chain)
    moreover have "parent_id_of C1 ` set ds \<subseteq> insert None (Some ` category_id ` set C)" using looked by (rule image_subsetI)
    ultimately show ?thesis using sp [THEN conjunct2, THEN conjunct2, THEN conjunct2] by (meson Un_least subset_trans)
  qed
  then have "registry_keys db'" unfolding db'_def by (rule registry_keys_categories [OF old dist more])
  ultimately show ?thesis using f by (auto simp: db_def db'_def ds_def)
qed


section \<open>Topics\<close>

lemma same_but_topics_iff:
  "same_but_topics db db' \<longleftrightarrow> rdb_sources db' = rdb_sources db \<and> rdb_categories db' = rdb_categories db \<and>
     rdb_versions db' = rdb_versions db \<and> rdb_audit db' = rdb_audit db \<and> rdb_checks db' = rdb_checks db"
proof
  assume same: "same_but_topics db db'"
  show "rdb_sources db' = rdb_sources db \<and> rdb_categories db' = rdb_categories db \<and>
     rdb_versions db' = rdb_versions db \<and> rdb_audit db' = rdb_audit db \<and> rdb_checks db' = rdb_checks db"
    by (intro conjI same_but_topics_simps [OF same])
qed (simp add: same_but_topics_def)

lemma sync_topics_result:
  assumes "result_fold (sync_topic e v) ds s = Inr s'" "registry_constraints (ss_db s)" "registry_keys (ss_db s)"
  shows "abs_registry (ss_db s') = merge_topics (se_nfkc e) ds (abs_registry (ss_db s)) \<and>
    registry_constraints (ss_db s') \<and> registry_keys (ss_db s') \<and> same_but_topics (ss_db s) (ss_db s')"
  using assms
proof (induction ds arbitrary: s)
  case (Cons d ds)
  then obtain s1 where s1: "sync_topic e v d s = Inr s1" "result_fold (sync_topic e v) ds s1 = Inr s'" by auto
  note one = sync_topic_result [OF s1(1) Cons.prems(2,3)]
  from one have mid: "registry_constraints (ss_db s1)" "registry_keys (ss_db s1)" by blast+
  note rest = Cons.IH [OF s1(2) mid]
  have "same_but_topics (ss_db s) (ss_db s')" using one rest unfolding same_but_topics_iff by simp
  with one rest show ?case by simp
qed (auto simp: same_but_topics_iff)


section \<open>The transaction\<close>

definition same_entries :: "registry_db \<Rightarrow> registry_db \<Rightarrow> bool" where
  "same_entries db db' = (rdb_sources db' = rdb_sources db \<and> rdb_categories db' = rdb_categories db \<and>
     rdb_topics db' = rdb_topics db \<and> rdb_aliases db' = rdb_aliases db \<and> rdb_mappings db' = rdb_mappings db)"

lemma same_entries_views:
  assumes "same_entries db db'"
  shows "abs_registry db' = abs_registry db" "registry_keys db' = registry_keys db"
proof -
  note same = assms [unfolded same_entries_def]
  have "topic_record db' = topic_record db" "category_record db' = category_record db"
    using topic_record_categories category_record_categories same by blast+
  then show "abs_registry db' = abs_registry db" using same by (simp add: abs_registry_def cong: option.case_cong)
  show "registry_keys db' = registry_keys db" using same by (simp add: registry_keys_def)
qed

lemma result_bind_Inr: "result_bind m f = Inr y \<longleftrightarrow> (\<exists>x. m = Inr x \<and> f x = Inr y)"
  by (cases m) auto

lemma apply_registry_result:
  assumes "apply_registry e r d v by s = Inr s'" "registry_keys (ss_db s)" "v \<notin> version_number ` set (rdb_versions (ss_db s))"
    and "categories_well_formed nfkc (lr_categories r)" "list_all category_valid (lr_categories r)"
  shows "abs_registry (ss_db s') = merge_registry (se_nfkc e) r (abs_registry (ss_db s)) \<and>
    registry_keys (ss_db s') \<and> registry_constraints (ss_db s') \<and>
    (\<exists>row. rdb_versions (ss_db s') = rdb_versions (ss_db s) @ [row] \<and> version_number row = v \<and>
       version_checksum row = lr_checksum r \<and> version_warnings row = JList (warning_payloads (df_warnings d)) \<and>
       rdb_audit (ss_db s') = rdb_audit (ss_db s) @ map (change_audit (version_id row)) (df_changes d) @
         map (review_audit (version_id row)) (filter (\<lambda>w. ri_code w = ''ALLOWED_ALIAS_COLLISION'') (registry_warnings r)) \<and>
       rdb_checks (ss_db s') = rdb_checks (ss_db s) @ map (registry_check_row v) (registry_checks r d))"
proof -
  obtain s1 s2 s3 s4 where st: "flush e (add_version e r d v by s) = Inr s1" "ensure_sources e r s1 = Inr s2"
    "sync_categories e r s2 = Inr s3" "result_fold (sync_topic e v) (lr_topics r) s3 = Inr s4"
    "(let vid = (case find (\<lambda>v'. version_number v' = v) (rdb_versions (ss_db s4)) of None \<Rightarrow> 0 | Some v \<Rightarrow> version_id v);
          s5 = write_quality_checks r d v (write_audit vid (df_changes d) r s4)
      in case se_before_commit e of Some err \<Rightarrow> Inl err | None \<Rightarrow> flush e s5) = Inr s'"
    using assms(1) unfolding apply_registry_def result_bind_Inr by (elim exE conjE) (rule that, assumption+)
  have "\<exists>row. ss_db (add_version e r d v by s) = (ss_db s)\<lparr>rdb_versions := rdb_versions (ss_db s) @ [row]\<rparr> \<and>
      version_number row = v \<and> version_checksum row = lr_checksum r \<and>
      version_warnings row = JList (warning_payloads (df_warnings d))"
    by (simp add: add_version_def utc_now_def) (intro exI conjI, rule refl, simp_all add: version_warnings_def)
  then obtain row where row: "ss_db (add_version e r d v by s) = (ss_db s)\<lparr>rdb_versions := rdb_versions (ss_db s) @ [row]\<rparr>"
    "version_number row = v" "version_checksum row = lr_checksum r"
    "version_warnings row = JList (warning_payloads (df_warnings d))" by blast
  have db1: "ss_db s1 = (ss_db s)\<lparr>rdb_versions := rdb_versions (ss_db s) @ [row]\<rparr>"
    using flush_InrD(1) [OF st(1)] row(1) by simp
  have "same_entries (ss_db s) (ss_db s1)" by (simp add: db1 same_entries_def)
  note v1 = same_entries_views [OF this]
  have k1: "registry_keys (ss_db s1)" unfolding v1 by (rule assms(2))
  note r2 = ensure_sources_result [OF st(2) k1]
  have k2: "registry_keys (ss_db s2)" "registry_constraints (ss_db s2)" using r2 by blast+
  note r3 = sync_categories_result [OF st(3) k2 assms(4,5)]
  have k3: "registry_constraints (ss_db s3)" "registry_keys (ss_db s3)" using r3 by blast+
  note r4 = sync_topics_result [OF st(4) k3]
  have log: "rdb_versions (ss_db s4) = rdb_versions (ss_db s) @ [row]" "rdb_audit (ss_db s4) = rdb_audit (ss_db s)"
    "rdb_checks (ss_db s4) = rdb_checks (ss_db s)"
    using r2 r3 r4 unfolding same_but_topics_iff by (auto simp: db1)
  have "find (\<lambda>v'. version_number v' = v) (rdb_versions (ss_db s)) = None" using assms(3) by (auto simp: find_None_iff)
  then have vid: "find (\<lambda>v'. version_number v' = v) (rdb_versions (ss_db s4)) = Some row" by (simp add: log find_append row(2))
  have "flush e (write_quality_checks r d v (write_audit (version_id row) (df_changes d) r s4)) = Inr s'"
    using st(5) unfolding vid by (simp split: option.splits)
  note f = flush_InrD [OF this]
  have same: "same_entries (ss_db s4) (ss_db s')" unfolding f by (simp add: same_entries_def write_quality_checks_def write_audit_def)
  have c: "registry_constraints (ss_db s')" using f by simp
  note v5 = same_entries_views [OF same]
  have "abs_registry (ss_db s') = merge_registry (se_nfkc e) r (abs_registry (ss_db s))"
    unfolding v5 merge_registry_def using r2 r3 r4 v1 by simp
  moreover have "registry_keys (ss_db s')" unfolding v5 using r4 by blast
  moreover have "rdb_versions (ss_db s') = rdb_versions (ss_db s) @ [row]"
    "rdb_audit (ss_db s') = rdb_audit (ss_db s) @ map (change_audit (version_id row)) (df_changes d) @
         map (review_audit (version_id row)) (filter (\<lambda>w. ri_code w = ''ALLOWED_ALIAS_COLLISION'') (registry_warnings r))"
    "rdb_checks (ss_db s') = rdb_checks (ss_db s) @ map (registry_check_row v) (registry_checks r d)"
    unfolding f by (simp_all add: write_quality_checks_def write_audit_def log)
  ultimately show ?thesis using c row by blast
qed

end
