(* ===== verification/Registry_Converge.thy ===== *)
theory Registry_Converge
  imports Registry_Refinement
begin

text \<open>
  The comparison in terms of the abstract registry, and the guarantees of a synchronisation: it refines the
  override, what is absent from the registry is kept, and the next comparison finds nothing to do.
\<close>


section \<open>The comparison reads the abstract registry\<close>

lemma dict_by_Some: "distinct (map key xs) \<Longrightarrow> dict_get (dict_by key xs) k = Some x \<longleftrightarrow> x \<in> set xs \<and> key x = k"
  using dict_by_get_mem [of key xs x] dict_by_get_SomeD [of key xs k x] by auto

lemma row_of_Some: "distinct (map key xs) \<Longrightarrow> row_of key xs k = Some x \<longleftrightarrow> x \<in> set xs \<and> key x = k"
  using row_of_mem [of key xs x k] find_SomeD [of "\<lambda>x. key x = k" xs x] by auto

lemma category_changes_abs:
  assumes "registry_constraints db"
  shows "category_changes db r = concat (map (\<lambda>d. entry_change ChangeCreate ''category'' (cd_slug d)
    (rs_categories (abs_registry db) (cd_slug d)) (category_definition d)) (lr_categories r))"
  by (simp add: category_changes_def Let_def abs_registry_simps dict_by_row [OF constraints_keys(4) [OF assms]])

lemma source_of_mapping:
  assumes "registry_keys db" "m \<in> set (rdb_mappings db)"
  obtains s where "s \<in> set (rdb_sources db)" "source_id s = mapping_source_id m"
    "source_name_of db (mapping_source_id m) = source_name s"
proof -
  have "mapping_source_id ` set (rdb_mappings db) \<subseteq> source_id ` set (rdb_sources db)" "distinct (map source_id (rdb_sources db))"
    using assms(1) unfolding registry_keys_def by - (elim conjE, assumption)+
  then obtain s where s: "s \<in> set (rdb_sources db)" "source_id s = mapping_source_id m"
    using subsetD [OF _ imageI [OF assms(2)]] by (metis imageE)
  moreover have "row_of source_id (rdb_sources db) (mapping_source_id m) = Some s"
    by (rule row_of_mem) (use s \<open>distinct (map source_id (rdb_sources db))\<close> in auto)
  ultimately show thesis by (intro that) (simp_all add: source_name_of_def)
qed

lemma current_mappings_get:
  assumes "registry_keys db" "registry_constraints db"
  shows "dict_get (current_mappings db t) n = Some m \<longleftrightarrow>
    (\<exists>s. row_of source_name (rdb_sources db) n = Some s \<and>
       row_of mapping_row_key (rdb_mappings db) ((topic_id t, ''registry''), source_id s) = Some m)"
proof -
  define rows where "rows = filter (\<lambda>m. mapping_topic_id m = topic_id t \<and> mapping_type m = ''registry'') (rdb_mappings db)"
  note names = constraints_keys(5) [OF assms(2)] and keys = constraints_keys(2) [OF assms(2)]
  have sids: "distinct (map source_id (rdb_sources db))" using assms(1) unfolding registry_keys_def by (elim conjE)
  have inj: "x = y" if "x \<in> set rows" "y \<in> set rows"
    "source_name_of db (mapping_source_id x) = source_name_of db (mapping_source_id y)" for x y
  proof -
    have xy: "x \<in> set (rdb_mappings db)" "y \<in> set (rdb_mappings db)" using that by (simp_all add: rows_def)
    obtain a where a: "a \<in> set (rdb_sources db)" "source_id a = mapping_source_id x"
      "source_name_of db (mapping_source_id x) = source_name a" using source_of_mapping [OF assms(1) xy(1)] .
    obtain b where b: "b \<in> set (rdb_sources db)" "source_id b = mapping_source_id y"
      "source_name_of db (mapping_source_id y) = source_name b" using source_of_mapping [OF assms(1) xy(2)] .
    have "source_name a = source_name b" using that(3) a(3) b(3) by simp
    then have "a = b" by (rule distinct_map_inj [OF names a(1) b(1)])
    then have "mapping_row_key x = mapping_row_key y" using that(1,2) a(2) b(2) by (simp add: mapping_row_key_def rows_def)
    then show "x = y" by (rule distinct_map_inj [OF keys xy])
  qed
  have "distinct rows" using keys unfolding rows_def by (simp add: distinct_map)
  moreover have "inj_on (\<lambda>m. source_name_of db (mapping_source_id m)) (set rows)"
    using inj by (intro inj_onI)
  ultimately have d: "distinct (map (\<lambda>m. source_name_of db (mapping_source_id m)) rows)" by (simp add: distinct_map)
  have "dict_get (current_mappings db t) n = Some m \<longleftrightarrow> m \<in> set rows \<and> source_name_of db (mapping_source_id m) = n"
    unfolding current_mappings_def rows_def [symmetric] by (rule dict_by_Some [OF d])
  also have "\<dots> \<longleftrightarrow> (\<exists>s. row_of source_name (rdb_sources db) n = Some s \<and>
       row_of mapping_row_key (rdb_mappings db) ((topic_id t, ''registry''), source_id s) = Some m)"
    unfolding row_of_Some [OF names] row_of_Some [OF keys]
  proof
    assume m: "m \<in> set rows \<and> source_name_of db (mapping_source_id m) = n"
    then have "m \<in> set (rdb_mappings db)" by (simp add: rows_def)
    from source_of_mapping [OF assms(1) this] obtain s where "s \<in> set (rdb_sources db)" "source_id s = mapping_source_id m"
      "source_name_of db (mapping_source_id m) = source_name s" .
    with m show "\<exists>s. (s \<in> set (rdb_sources db) \<and> source_name s = n) \<and>
        m \<in> set (rdb_mappings db) \<and> mapping_row_key m = ((topic_id t, ''registry''), source_id s)"
      by (intro exI [of _ s]) (simp add: rows_def mapping_row_key_def)
  next
    assume "\<exists>s. (s \<in> set (rdb_sources db) \<and> source_name s = n) \<and>
        m \<in> set (rdb_mappings db) \<and> mapping_row_key m = ((topic_id t, ''registry''), source_id s)"
    then obtain s where s: "s \<in> set (rdb_sources db)" "source_name s = n" "m \<in> set (rdb_mappings db)"
      "mapping_row_key m = ((topic_id t, ''registry''), source_id s)" by blast
    have "row_of source_id (rdb_sources db) (source_id s) = Some s" by (rule row_of_mem [OF sids s(1) refl])
    with s show "m \<in> set rows \<and> source_name_of db (mapping_source_id m) = n"
      by (auto simp: rows_def mapping_row_key_def source_name_of_def)
  qed
  finally show ?thesis .
qed

lemma current_mappings_view:
  assumes "registry_keys db" "registry_constraints db"
  shows "map_option mapping_body (dict_get (current_mappings db t) n) =
    by_source_name (rdb_sources db) (mapping_view (rdb_mappings db) (topic_id t)) n"
proof (cases "dict_get (current_mappings db t) n")
  case None
  then have "row_of mapping_row_key (rdb_mappings db) ((topic_id t, ''registry''), source_id s) = None"
    if "row_of source_name (rdb_sources db) n = Some s" for s
    using that current_mappings_get [OF assms, of t n] by (metis not_None_eq)
  with None show ?thesis by (auto simp: by_source_name_def mapping_view_def split: option.split)
next
  case (Some m)
  with current_mappings_get [OF assms, of t n m] show ?thesis by (auto simp: by_source_name_def mapping_view_def)
qed

lemma mapping_record_current:
  assumes "registry_keys db" "registry_constraints db" "dict_get (current_mappings db t) n = Some m"
  shows "mapping_record db m = (''source'', JStr n) # mapping_body m"
proof -
  have "source_name_of db (mapping_source_id m) = n"
    using dict_by_get_SomeD [OF assms(3) [unfolded current_mappings_def]] by simp
  then show ?thesis by (simp add: mapping_record_def mapping_body_def)
qed

lemma mapping_definition_body: "mapping_definition k c = (''source'', JStr (source_kind_name k)) # config_body k c"
  by (simp add: mapping_definition_def config_body_def)


section \<open>Nothing to do\<close>

text \<open>A table that has what the registry wants.\<close>

lemma entry_change_same: "entry_change action entity key (Some d) d = []"
  by (simp add: entry_change_def)

lemma desired_aliases_look:
  "desired_aliases nfkc ds m n =
     (case dict_get (dict_by (alias_normal nfkc) ds) n of None \<Rightarrow> m n | Some a \<Rightarrow> Some (alias_definition nfkc a))"
proof (induction ds arbitrary: m)
  case Nil
  then show ?case by (simp add: dict_by_get)
next
  case (Cons d ds)
  show ?case unfolding desired_aliases.simps Cons by (auto simp: dict_by_get find_append split: option.split)
qed

lemma desired_aliases_other:
  assumes "n \<notin> alias_normal nfkc ` set ds"
  shows "desired_aliases nfkc ds m n = m n"
proof -
  have "dict_get (dict_by (alias_normal nfkc) ds) n = None" unfolding dict_by_get_None by (rule assms)
  then show ?thesis by (simp add: desired_aliases_look)
qed

lemma desired_configs_look:
  assumes "distinct (map fst items)" "(k, c) \<in> set items"
  shows "desired_configs items m (source_kind_name k) = Some (config_body k c)"
proof -
  have skip: "desired_configs items m (source_kind_name k) = m (source_kind_name k)" if "k \<notin> fst ` set items" for items m k
    using that by (induction items m rule: desired_configs.induct) auto
  show ?thesis using assms
  proof (induction items arbitrary: m)
    case (Cons item items)
    then show ?case using skip [of k items] by (cases item) (auto simp: image_iff)
  qed simp
qed

lemma desired_configs_other:
  "n \<notin> source_kind_name ` fst ` set items \<Longrightarrow> desired_configs items m n = m n"
  by (induction items m rule: desired_configs.induct) auto

definition topic_stored :: "(string \<Rightarrow> string) \<Rightarrow> registry_state \<Rightarrow> topic_def \<Rightarrow> bool" where
  "topic_stored nfkc a d =
     (rs_topics a (td_slug d) = Some (topic_definition nfkc d) \<and>
      (\<exists>m. rs_aliases a (td_slug d) = desired_aliases nfkc (td_aliases d) m) \<and>
      (\<exists>m. rs_mappings a (td_slug d) = desired_configs (source_items (td_sources d)) m))"

lemma dict_by_entries: "(n, a) \<in> set (dict_by key xs) \<Longrightarrow> dict_get (dict_by key xs) n = Some a"
proof -
  have "distinct (dict_keys (dict_by key xs))"
    unfolding dict_by_def by (induction xs rule: rev_induct) (simp_all add: distinct_update)
  moreover assume "(n, a) \<in> set (dict_by key xs)"
  ultimately show ?thesis by simp
qed

lemma topic_changes_none:
  assumes "registry_keys db" "registry_constraints db" "topic_stored nfkc (abs_registry db) d"
  shows "topic_changes nfkc db d = []"
proof -
  obtain t where t: "row_of topic_slug (rdb_topics db) (td_slug d) = Some t" "topic_record db t = topic_definition nfkc d"
    using assms(3) by (auto simp: topic_stored_def abs_registry_simps)
  obtain ma where ma: "alias_view (rdb_aliases db) (topic_id t) = desired_aliases nfkc (td_aliases d) ma"
    using assms(3) t by (auto simp: topic_stored_def abs_registry_simps)
  obtain mm where mm: "by_source_name (rdb_sources db) (mapping_view (rdb_mappings db) (topic_id t)) =
      desired_configs (source_items (td_sources d)) mm"
    using assms(3) t by (auto simp: topic_stored_def abs_registry_simps)
  have "entry_change ChangeAdd ''alias'' (entity_key d n) (map_option alias_record (dict_get (current_aliases db t) n))
      (alias_definition nfkc a) = []" if "(n, a) \<in> set (dict_by (alias_normal nfkc) (td_aliases d))" for n a
    using dict_by_entries [OF that]
    unfolding current_aliases_view [OF constraints_keys(1) [OF assms(2)]] ma desired_aliases_look by (simp add: entry_change_same)
  then have as: "alias_changes nfkc db t d = []" by (auto simp: alias_changes_def Let_def)
  have "entry_change ChangeAdd ''mapping'' (entity_key d (source_kind_name k))
      (map_option (mapping_record db) (dict_get (current_mappings db t) (source_kind_name k))) (mapping_definition k c) = []"
    if "(k, c) \<in> set (source_items (td_sources d))" for k c
  proof -
    have "map_option mapping_body (dict_get (current_mappings db t) (source_kind_name k)) = Some (config_body k c)"
      unfolding current_mappings_view [OF assms(1,2)] mm by (rule desired_configs_look [OF distinct_source_items that])
    then obtain m where m: "dict_get (current_mappings db t) (source_kind_name k) = Some m" "mapping_body m = config_body k c" by auto
    then show ?thesis
      using mapping_record_current [OF assms(1,2) m(1)] by (simp add: entry_change_same mapping_definition_body)
  qed
  then have ms: "mapping_changes db t d = []" by (auto simp: mapping_changes_def Let_def)
  have "dict_get (dict_by topic_slug (rdb_topics db)) (td_slug d) = Some t"
    unfolding dict_by_row [OF constraints_keys(3) [OF assms(2)]] by (rule t(1))
  then show ?thesis by (simp add: topic_changes_def as ms t(2) entry_change_same)
qed


section \<open>What the override stores and keeps\<close>

lemma merge_topics_other:
  "s \<notin> td_slug ` set ds \<Longrightarrow> rs_topics (merge_topics nfkc ds a) s = rs_topics a s \<and>
     rs_aliases (merge_topics nfkc ds a) s = rs_aliases a s \<and> rs_mappings (merge_topics nfkc ds a) s = rs_mappings a s"
  by (induction ds arbitrary: a) (simp_all add: merge_topic_def)

lemma merge_topics_categories [simp]: "rs_categories (merge_topics nfkc ds a) = rs_categories a"
  by (induction ds arbitrary: a) (simp_all add: merge_topic_def)

lemma merge_topics_entry:
  assumes "distinct (map td_slug ds)" "d \<in> set ds"
  shows "rs_topics (merge_topics nfkc ds a) (td_slug d) = Some (topic_definition nfkc d) \<and>
    rs_aliases (merge_topics nfkc ds a) (td_slug d) = desired_aliases nfkc (td_aliases d) (rs_aliases a (td_slug d)) \<and>
    rs_mappings (merge_topics nfkc ds a) (td_slug d) = desired_configs (source_items (td_sources d)) (rs_mappings a (td_slug d))"
  using assms
proof (induction ds arbitrary: a)
  case (Cons x ds)
  show ?case
  proof (cases "d = x")
    case True
    then have "td_slug d \<notin> td_slug ` set ds" using Cons.prems(1) by simp
    from merge_topics_other [OF this, of nfkc "merge_topic nfkc x a"] show ?thesis using True by (simp add: merge_topic_def)
  next
    case False
    with Cons.prems(2) have d: "d \<in> set ds" by simp
    then have "td_slug d \<noteq> td_slug x" using Cons.prems(1) by (metis distinct.simps(2) imageI list.map(2) set_map)
    with Cons.IH [OF _ d, of "merge_topic nfkc x a"] Cons.prems(1) show ?thesis by (simp add: merge_topic_def)
  qed
qed simp

lemma merge_registry_entry:
  assumes "registry_well_formed nfkc (lr_categories r) (lr_topics r) (lr_collisions r)"
  shows "d \<in> set (lr_topics r) \<Longrightarrow>
      rs_aliases (merge_registry nfkc r a) (td_slug d) = desired_aliases nfkc (td_aliases d) (rs_aliases a (td_slug d)) \<and>
      rs_mappings (merge_registry nfkc r a) (td_slug d) =
        desired_configs (source_items (td_sources d)) (rs_mappings a (td_slug d)) \<and>
      topic_stored nfkc (merge_registry nfkc r a) d"
    and "c \<in> set (lr_categories r) \<Longrightarrow> rs_categories (merge_registry nfkc r a) (cd_slug c) = Some (category_definition c)"
    and "s \<notin> cd_slug ` set (lr_categories r) \<Longrightarrow> rs_categories (merge_registry nfkc r a) s = rs_categories a s"
    and "s \<notin> td_slug ` set (lr_topics r) \<Longrightarrow> rs_topics (merge_registry nfkc r a) s = rs_topics a s \<and>
      rs_aliases (merge_registry nfkc r a) s = rs_aliases a s \<and> rs_mappings (merge_registry nfkc r a) s = rs_mappings a s"
proof -
  have slugs: "distinct (map td_slug (lr_topics r))" "distinct (map cd_slug (lr_categories r))"
    using assms by (simp_all add: registry_well_formed_def topics_well_formed_def categories_well_formed_def)
  show "d \<in> set (lr_topics r) \<Longrightarrow>
      rs_aliases (merge_registry nfkc r a) (td_slug d) = desired_aliases nfkc (td_aliases d) (rs_aliases a (td_slug d)) \<and>
      rs_mappings (merge_registry nfkc r a) (td_slug d) =
        desired_configs (source_items (td_sources d)) (rs_mappings a (td_slug d)) \<and>
      topic_stored nfkc (merge_registry nfkc r a) d"
    using merge_topics_entry [OF slugs(1)] unfolding merge_registry_def topic_stored_def by auto
  show "rs_categories (merge_registry nfkc r a) (cd_slug c) = Some (category_definition c)" if "c \<in> set (lr_categories r)"
    unfolding merge_registry_def using row_of_mem [OF slugs(2) that refl] by (simp add: merge_categories_look [OF slugs(2)])
  show "rs_categories (merge_registry nfkc r a) s = rs_categories a s" if "s \<notin> cd_slug ` set (lr_categories r)"
  proof -
    have "row_of cd_slug (lr_categories r) s = None" unfolding row_of_None by (rule that)
    then show ?thesis unfolding merge_registry_def by (simp add: merge_categories_look [OF slugs(2)])
  qed
  show "s \<notin> td_slug ` set (lr_topics r) \<Longrightarrow> rs_topics (merge_registry nfkc r a) s = rs_topics a s \<and>
      rs_aliases (merge_registry nfkc r a) s = rs_aliases a s \<and> rs_mappings (merge_registry nfkc r a) s = rs_mappings a s"
    using merge_topics_other [of s "lr_topics r" nfkc] unfolding merge_registry_def by simp
qed


section \<open>Orphans\<close>

lemma orphans_set:
  "orphans code message entity current desired =
     map (\<lambda>k. warning_issue code (message k) (Some (entity k))) (sorted_list_of_set (set current - set desired))"
proof -
  have "sorted_set (filter (\<lambda>k. k \<notin> set desired) current) = sorted_list_of_set (set current - set desired)"
    by (rule sorted_distinct_set_unique) auto
  then show ?thesis by (simp add: orphans_def)
qed

definition abstract_orphans :: "(string \<Rightarrow> string) \<Rightarrow> registry_state \<Rightarrow> topic_def \<Rightarrow> registry_issue list" where
  "abstract_orphans nfkc a d =
     map (\<lambda>k. warning_issue ''ORPHANED_DATABASE_ALIAS'' (''database alias '' @ entity_key d k @ '' is absent from YAML and was retained'')
         (Some (entity_key d k)))
       (sorted_list_of_set (dom (rs_aliases a (td_slug d)) - alias_normal nfkc ` set (td_aliases d))) @
     map (\<lambda>k. warning_issue ''ORPHANED_DATABASE_MAPPING'' (''mapping '' @ entity_key d k @ '' is absent from YAML and was retained'')
         (Some (entity_key d k)))
       (sorted_list_of_set (dom (rs_mappings a (td_slug d)) - source_kind_name ` fst ` set (source_items (td_sources d))))"

lemma dom_map_option: "dom m = set (dict_keys d)" if "\<And>n. m n = map_option f (dict_get d n)"
proof -
  have "n \<in> dom m \<longleftrightarrow> n \<in> set (dict_keys d)" for n
    using map_of_eq_None_iff [of d n] that [of n] by (simp add: domIff)
  then show ?thesis by blast
qed

lemma topic_orphans_abs:
  assumes "registry_keys db" "registry_constraints db"
  shows "topic_orphans nfkc db d = abstract_orphans nfkc (abs_registry db) d"
proof (cases "row_of topic_slug (rdb_topics db) (td_slug d)")
  case None
  then show ?thesis
    by (simp add: topic_orphans_def dict_by_row [OF constraints_keys(3) [OF assms(2)]] abstract_orphans_def abs_registry_simps)
next
  case (Some t)
  have a: "dom (rs_aliases (abs_registry db) (td_slug d)) = set (dict_keys (current_aliases db t))"
    by (rule dom_map_option [of _ alias_record])
      (simp add: abs_registry_simps Some current_aliases_view [OF constraints_keys(1) [OF assms(2)]])
  have m: "dom (rs_mappings (abs_registry db) (td_slug d)) = set (dict_keys (current_mappings db t))"
    by (rule dom_map_option [of _ mapping_body]) (simp add: abs_registry_simps Some current_mappings_view [OF assms])
  have i: "set (map (\<lambda>(k, c). source_kind_name k) xs) = source_kind_name ` fst ` set xs" for xs :: "(source_kind \<times> source_config) list"
    by force
  show ?thesis
    unfolding topic_orphans_def dict_by_row [OF constraints_keys(3) [OF assms(2)]] Some abstract_orphans_def a m
      alias_orphans_def mapping_orphans_def orphans_set i by simp
qed

lemma dom_row: "dom (\<lambda>s. map_option f (row_of key rows s)) = key ` set rows"
proof -
  have "row_of key rows s \<noteq> None \<longleftrightarrow> s \<in> key ` set rows" for s unfolding row_of_None by simp
  then show ?thesis by (auto simp: dom_def)
qed

lemma diff_warnings_abs:
  assumes "registry_keys db" "registry_constraints db" "registry_keys db'" "registry_constraints db'"
    and "registry_well_formed nfkc (lr_categories r) (lr_topics r) (lr_collisions r)"
    and "abs_registry db' = merge_registry nfkc r (abs_registry db)"
  shows "diff_warnings nfkc db' r = diff_warnings nfkc db r"
proof -
  note entry = merge_registry_entry [OF assms(5), of _ "abs_registry db", folded assms(6)]
  have cats: "set (map category_slug (rdb_categories db')) - set (map cd_slug (lr_categories r)) =
      set (map category_slug (rdb_categories db)) - set (map cd_slug (lr_categories r))"
  proof -
    have "set (map category_slug (rdb_categories x)) = dom (rs_categories (abs_registry x))" for x
      by (simp add: abs_registry_simps dom_row)
    then show ?thesis using entry(3) by (auto simp: dom_def simp del: set_map) (metis option.distinct(1) set_map)+
  qed
  have tops: "set (map topic_slug (rdb_topics db')) - set (map td_slug (lr_topics r)) =
      set (map topic_slug (rdb_topics db)) - set (map td_slug (lr_topics r))"
  proof -
    have "set (map topic_slug (rdb_topics x)) = dom (rs_topics (abs_registry x))" for x
    proof -
      have "rs_topics (abs_registry x) = (\<lambda>s. map_option (topic_record x) (row_of topic_slug (rdb_topics x) s))"
        by (rule ext) (simp add: abs_registry_simps)
      then show ?thesis by (simp add: dom_row)
    qed
    then show ?thesis using entry(4) by (auto simp: dom_def simp del: set_map) (metis option.distinct(1) set_map)+
  qed
  have "topic_orphans nfkc db' d = topic_orphans nfkc db d" if d: "d \<in> set (lr_topics r)" for d
  proof -
    have "dom (rs_aliases (abs_registry db') (td_slug d)) - alias_normal nfkc ` set (td_aliases d) =
        dom (rs_aliases (abs_registry db) (td_slug d)) - alias_normal nfkc ` set (td_aliases d)"
    proof -
      show ?thesis using entry(1) [OF d] desired_aliases_other [of _ nfkc "td_aliases d"] by (auto simp: dom_def)
    qed
    moreover have "dom (rs_mappings (abs_registry db') (td_slug d)) - source_kind_name ` fst ` set (source_items (td_sources d)) =
        dom (rs_mappings (abs_registry db) (td_slug d)) - source_kind_name ` fst ` set (source_items (td_sources d))"
      using entry(1) [OF d] desired_configs_other [of _ "source_items (td_sources d)"] by (auto simp: dom_def)
    ultimately show ?thesis
      unfolding topic_orphans_abs [OF assms(1,2)] topic_orphans_abs [OF assms(3,4)] abstract_orphans_def by simp
  qed
  then have tos: "map (topic_orphans nfkc db') (lr_topics r) = map (topic_orphans nfkc db) (lr_topics r)" by simp
  show ?thesis unfolding diff_warnings_def orphans_set cats tops tos ..
qed


section \<open>Versions\<close>

lemma foldl_latest:
  "key (foldl (\<lambda>a r. if key a < key r then r else a) a xs) \<ge> (key a :: 'b::linorder) \<and>
   (\<forall>x\<in>set xs. key x \<le> key (foldl (\<lambda>a r. if key a < key r then r else a) a xs)) \<and>
   foldl (\<lambda>a r. if key a < key r then r else a) a xs \<in> insert a (set xs)"
proof (induction xs arbitrary: a)
  case (Cons x xs)
  from Cons [of "if key a < key x then x else a"] show ?case by (auto split: if_splits)
qed simp

lemma latest_by_max: "latest_by key xs = Some y \<Longrightarrow> y \<in> set xs \<and> (\<forall>x\<in>set xs. key x \<le> key y)"
  using foldl_latest [of key "hd xs" "tl xs"] by (cases xs) auto

lemma latest_by_None: "latest_by key xs = None \<longleftrightarrow> xs = []"
  by (cases xs) simp_all

lemma latest_by_snoc:
  assumes "\<forall>y\<in>set xs. key y < key x"
  shows "latest_by key (xs @ [x]) = Some x"
proof (cases xs)
  case (Cons a as)
  have "key (foldl (\<lambda>a r. if key a < key r then r else a) a as) < key x"
    using foldl_latest [of key a as] assms Cons by auto
  then show ?thesis by (simp add: Cons)
qed simp

lemma compare_latest: "df_latest_version (compare_registry nfkc db r) = map_option version_number (latest_version db)"
  by (simp add: compare_registry_def Let_def)

definition next_version :: "registry_db \<Rightarrow> int" where
  "next_version db = (case latest_version db of None \<Rightarrow> 0 | Some v \<Rightarrow> version_number v) + 1"

lemma next_version_new:
  assumes "v \<in> set (rdb_versions db)"
  shows "version_number v < next_version db"
proof (cases "latest_version db")
  case None
  then show ?thesis using assms by (simp add: latest_version_def latest_by_None)
next
  case (Some w)
  then show ?thesis using latest_by_max [OF Some [unfolded latest_version_def]] assms by (simp add: next_version_def)
qed


section \<open>One successful synchronisation\<close>

definition pydantic_valid :: "file_tree \<Rightarrow> bool" where
  "pydantic_valid f = (\<forall>p. case ft_read f p of FileParsed d \<Rightarrow> file_valid d | _ \<Rightarrow> True)"

lemma assemble_categories:
  "assemble nfkc sha files defs = Inr r \<Longrightarrow> set (lr_categories r) = (\<Union>d\<in>set defs. set (rf_categories d))"
  by (auto simp: assemble_def Let_def split: if_splits)

lemma file_definitions_parsed: "d \<in> set (file_definitions rd files) \<Longrightarrow> \<exists>p. rd p = FileParsed d"
  by (auto simp: file_definitions_def split: file_outcome.splits)

lemma loaded_categories_valid:
  assumes "load_registry nfkc sha f = Inr r" "pydantic_valid f"
  shows "list_all category_valid (lr_categories r)"
proof -
  obtain files where "assemble nfkc sha files (file_definitions (ft_read f) files) = Inr r"
    using assms(1) by (auto simp: load_registry_def Let_def split: sum.splits if_splits)
  note cats = assemble_categories [OF this]
  show ?thesis
    unfolding list_all_iff
  proof
    fix c assume "c \<in> set (lr_categories r)"
    then obtain d where d: "d \<in> set (file_definitions (ft_read f) files)" "c \<in> set (rf_categories d)" using cats by blast
    obtain p where "ft_read f p = FileParsed d" using file_definitions_parsed [OF d(1)] by blast
    then have "file_valid d" using assms(2) [unfolded pydantic_valid_def, rule_format, of p] by simp
    then show "category_valid c" using d(2) by (simp add: file_valid_def list_all_iff)
  qed
qed

lemma sync_cases:
  assumes "sync e r dry by db = (res, db')"
  obtains (failed) err where "res = Inl err" "db' = db"
  | (unchanged) "dry \<or> \<not> has_changes (compare_registry (se_nfkc e) db r)" "db' = db"
      "res = Inr (report r (compare_registry (se_nfkc e) db r) dry None)"
  | (changed) s where "\<not> dry" "has_changes (compare_registry (se_nfkc e) db r)"
      "apply_registry e r (compare_registry (se_nfkc e) db r) (next_version db) by \<lparr>ss_db = db, ss_flushes = 0, ss_clock = 0\<rparr> = Inr s"
      "db' = ss_db s" "res = Inr (report r (compare_registry (se_nfkc e) db r) False (Some (next_version db)))"
proof -
  have v: "(case df_latest_version (compare_registry (se_nfkc e) db r) of None \<Rightarrow> 0 | Some v \<Rightarrow> v) + 1 = next_version db"
    by (simp add: compare_latest next_version_def split: option.split)
  note run = assms [unfolded sync_def Let_def v]
  show thesis
  proof (cases "dry \<or> \<not> has_changes (compare_registry (se_nfkc e) db r)")
    case True
    with run show thesis by (intro unchanged) auto
  next
    case False
    show thesis
    proof (cases "apply_registry e r (compare_registry (se_nfkc e) db r) (next_version db) by \<lparr>ss_db = db, ss_flushes = 0, ss_clock = 0\<rparr>")
      case (Inl err)
      with run False show thesis by (intro failed [of err]) auto
    next
      case (Inr s)
      with run False show thesis by (intro changed [of s]) auto
    qed
  qed
qed

lemma sync_result:
  assumes "load_registry (se_nfkc e) sha f = Inr r" "pydantic_valid f" "registry_keys db"
    and "sync e r False by db = (Inr rep, db')" "sr_changed rep"
  shows "abs_registry db' = merge_registry (se_nfkc e) r (abs_registry db) \<and> registry_keys db' \<and> registry_constraints db' \<and>
    (\<exists>row. rdb_versions db' = rdb_versions db @ [row] \<and> version_number row = next_version db \<and>
       sr_version rep = Some (next_version db) \<and>
       version_checksum row = lr_checksum r \<and> version_warnings row = JList (warning_payloads (df_warnings (sr_diff rep))) \<and>
       rdb_audit db' = rdb_audit db @ map (change_audit (version_id row)) (df_changes (sr_diff rep)) @
         map (review_audit (version_id row)) (filter (\<lambda>w. ri_code w = ''ALLOWED_ALIAS_COLLISION'') (registry_warnings r)) \<and>
       rdb_checks db' = rdb_checks db @ map (registry_check_row (next_version db)) (registry_checks r (sr_diff rep))) \<and>
    sr_diff rep = compare_registry (se_nfkc e) db r"
  using assms(4)
proof (cases rule: sync_cases)
  case failed
  then show ?thesis by simp
next
  case unchanged
  with assms(5) show ?thesis by (auto simp: report_def)
next
  case (changed s)
  have cats: "categories_well_formed (se_nfkc e) (lr_categories r)"
    using loaded_registry_well_formed [OF assms(1)] by (simp add: registry_well_formed_def)
  have new: "next_version db \<notin> version_number ` set (rdb_versions db)" using next_version_new by (metis imageE less_irrefl)
  have rep: "rep = report r (compare_registry (se_nfkc e) db r) False (Some (next_version db))" using changed(5) by simp
  from apply_registry_result [OF changed(3) _ _ cats loaded_categories_valid [OF assms(1,2)]] assms(3) new
  show ?thesis unfolding rep changed(4) report_def by simp
qed

end
