(* ===== verification/Registry_Guarantees.thy ===== *)
theory Registry_Guarantees
  imports Registry_Converge
begin

text \<open>
  The guarantees of the synchronisation, and a registry of two categories and two topics on which they are
  witnessed: the database knows one of the topics with another description, an alias that the registry does not
  have and a category that it does not have.
\<close>


section \<open>A registry\<close>

definition demo_alias :: "string \<Rightarrow> bool \<Rightarrow> alias_def" where
  "demo_alias v case_sensitive = \<lparr>ad_value = v, ad_type = AliasAbbreviation, ad_match_mode = MatchPhrase,
     ad_case_sensitive = case_sensitive, ad_status = AliasActive, ad_confidence = 900000, ad_metadata = []\<rparr>"

definition demo_topic :: "string \<Rightarrow> string \<Rightarrow> alias_def list \<Rightarrow> topic_def" where
  "demo_topic name slug aliases = \<lparr>td_canonical_name = name, td_slug = slug, td_description = ''A field of study.'',
     td_category = ''llm'', td_status = TopicActive, td_priority = 70, td_aliases = aliases,
     td_sources = \<lparr>sd_arxiv = Some \<lparr>sc_enabled = True, sc_values = [name]\<rparr>, sd_github = None, sd_hacker_news = None,
       sd_wikipedia = Some \<lparr>sc_enabled = True, sc_values = [name]\<rparr>\<rparr>, td_metadata = []\<rparr>"

definition demo_file :: "alias_def list \<Rightarrow> registry_file" where
  "demo_file aliases = \<lparr>
     rf_categories = [\<lparr>cd_name = ''Language models'', cd_slug = ''llm'', cd_description = None, cd_parent = Some ''ai'', cd_sort_order = 1\<rparr>,
       \<lparr>cd_name = ''AI'', cd_slug = ''ai'', cd_description = None, cd_parent = None, cd_sort_order = 0\<rparr>],
     rf_topics = [demo_topic ''Retrieval'' ''rag'' aliases, demo_topic ''Agents'' ''agents'' []],
     rf_collisions = []\<rparr>"

definition demo_files :: "alias_def list \<Rightarrow> file_tree" where
  "demo_files aliases = \<lparr>ft_root = [''config''], ft_is_dir = True, ft_yaml = [[''config'', ''ai.yaml'']], ft_yml = [],
     ft_read = (\<lambda>_. FileParsed (demo_file aliases))\<rparr>"

definition demo_loaded :: "alias_def list \<Rightarrow> string \<Rightarrow> loaded_registry" where
  "demo_loaded aliases checksum = \<lparr>lr_categories = rev (rf_categories (demo_file aliases)),
     lr_topics = rev (rf_topics (demo_file aliases)), lr_collisions = [], lr_source_files = [''config/ai.yaml''],
     lr_checksum = checksum, lr_issues = []\<rparr>"

definition demo_registry :: registry_db where
  "demo_registry = \<lparr>rdb_sources = [],
     rdb_categories = [\<lparr>category_id = 1, category_name = ''Old'', category_slug = ''old'', category_description = None,
       category_parent_id = None, category_sort_order = 5\<rparr>],
     rdb_topics = [\<lparr>topic_id = 1, topic_canonical_name = ''Retrieval'', topic_normalized_name = ''retrieval'', topic_slug = ''rag'',
       topic_description = Some ''An old text.'', topic_category_id = Some 1, topic_status = TopicActive,
       topic_monitoring_priority = 50, topic_deprecated_at = None, topic_registry_version = None, topic_metadata = []\<rparr>],
     rdb_aliases = [\<lparr>alias_id = 1, alias_topic_id = 1, alias_source_id = None, alias_text = ''ret'', alias_normalized = ''ret'',
       alias_kind = AliasName, alias_match_mode = MatchExact, alias_case_sensitive = False, alias_status = AliasActive,
       alias_confidence = 1000000, alias_metadata = []\<rparr>],
     rdb_mappings = [], rdb_versions = [], rdb_audit = [], rdb_checks = []\<rparr>"

definition demo_env :: sync_env where
  "demo_env = \<lparr>se_nfkc = id, se_now = int, se_failure = (\<lambda>_. None), se_before_commit = None\<rparr>"

abbreviation demo_aliases :: "alias_def list" where
  "demo_aliases \<equiv> [demo_alias ''RAG'' True]"

abbreviation demo_checksum :: "alias_def list \<Rightarrow> string" where
  "demo_checksum aliases \<equiv> registry_checksum id (rf_categories (demo_file aliases)) (rf_topics (demo_file aliases)) []"

abbreviation demo_run :: "sync_report result \<times> registry_db" where
  "demo_run \<equiv> sync demo_env (demo_loaded demo_aliases (demo_checksum demo_aliases)) False ''cli'' demo_registry"

lemma demo_load:
  assumes "cross_file_issues id (rf_categories (demo_file aliases)) (rf_topics (demo_file aliases)) [] = []"
  shows "load_registry id id (demo_files aliases) = Inr (demo_loaded aliases (demo_checksum aliases))"
proof -
  have "discover_files (demo_files aliases) = Inr [[''config'', ''ai.yaml'']]"
    by (simp add: discover_files_def demo_files_def)
  moreover have "file_definitions (ft_read (demo_files aliases)) [[''config'', ''ai.yaml'']] = [demo_file aliases]"
    by (simp add: file_definitions_def demo_files_def)
  moreover have "concat (map (file_issues (ft_read (demo_files aliases))) [[''config'', ''ai.yaml'']]) = []"
    by (simp add: file_issues_def demo_files_def)
  moreover have "sort_key td_slug (rf_topics (demo_file aliases)) = rev (rf_topics (demo_file aliases))"
    "sort_key cd_slug (rf_categories (demo_file aliases)) = rev (rf_categories (demo_file aliases))"
    "rf_collisions (demo_file aliases) = []"
    by (simp_all add: demo_file_def demo_topic_def)
  moreover have "map path_text [[''config'', ''ai.yaml'']] = [''config/ai.yaml'']" by code_simp
  ultimately show ?thesis
    using assms by (simp add: load_registry_def assemble_def demo_loaded_def Let_def)
qed

lemma demo_loads: "load_registry id id (demo_files demo_aliases) = Inr (demo_loaded demo_aliases (demo_checksum demo_aliases))"
proof (rule demo_load)
  have "case cross_file_issues id (rf_categories (demo_file demo_aliases)) (rf_topics (demo_file demo_aliases)) [] of
      [] \<Rightarrow> True | _ \<Rightarrow> False" by code_simp
  then show "cross_file_issues id (rf_categories (demo_file demo_aliases)) (rf_topics (demo_file demo_aliases)) [] = []"
    by (simp split: list.splits)
qed

lemma demo_valid: "pydantic_valid (demo_files demo_aliases)"
proof -
  have "file_valid (demo_file demo_aliases)" by code_simp
  then show ?thesis by (simp add: pydantic_valid_def demo_files_def)
qed

lemma demo_keys: "registry_keys demo_registry"
  by (simp add: registry_keys_def demo_registry_def)

lemma demo_constraints: "registry_constraints demo_registry"
  by code_simp

lemma demo_changed:
  "case fst (sync demo_env (demo_loaded demo_aliases checksum) False ''cli'' demo_registry) of Inl _ \<Rightarrow> False | Inr rep \<Rightarrow> sr_changed rep"
  by code_simp

lemma demo_nfkc [simp]: "se_nfkc demo_env = id"
  by (simp add: demo_env_def)

lemma demo_sync: "\<exists>rep. demo_run = (Inr rep, snd demo_run) \<and> sr_changed rep"
proof (cases "fst demo_run")
  case (Inr rep)
  then have "demo_run = (Inr rep, snd demo_run)" by (metis prod.collapse)
  then show ?thesis using demo_changed [of "demo_checksum demo_aliases"] Inr by auto
qed (use demo_changed [of "demo_checksum demo_aliases"] in simp)


section \<open>The guarantees\<close>

text \<open>
  C28: A synchronisation that changes something overrides the stored registry with the loaded one: by slug,
  normalised alias and source, every category, topic, alias and mapping of the registry gets the values
  that are written in the files and every other entry keeps its own; the keys and constraints of the
  tables hold afterwards.
\<close>
theorem sync_refines_merge:
  assumes "load_registry (se_nfkc e) sha f = Inr r" "pydantic_valid f" "registry_keys db"
    and "sync e r False by db = (Inr rep, db')" "sr_changed rep"
  shows "abs_registry db' = merge_registry (se_nfkc e) r (abs_registry db) \<and> registry_keys db' \<and> registry_constraints db'"
  using sync_result [OF assms] by blast

theorem sync_refines_merge_witness:
  "abs_registry (snd demo_run) = merge_registry id (demo_loaded demo_aliases (demo_checksum demo_aliases)) (abs_registry demo_registry) \<and>
   registry_keys (snd demo_run) \<and> registry_constraints (snd demo_run)"
proof -
  obtain rep where "demo_run = (Inr rep, snd demo_run)" "sr_changed rep" using demo_sync by blast
  from sync_refines_merge [OF _ demo_valid demo_keys this, of id] show ?thesis using demo_loads by simp
qed

text \<open>
  What the files no longer mention is retained: after any synchronisation a category or a topic whose slug is
  not in the registry, an alias that its topic does not list and a mapping to a source that its topic does
  not configure are what they were.
\<close>
theorem sync_keeps_absent:
  assumes "load_registry (se_nfkc e) sha f = Inr r" "pydantic_valid f" "registry_keys db"
    and "sync e r False by db = (Inr rep, db')"
  shows "(c \<notin> cd_slug ` set (lr_categories r) \<longrightarrow> rs_categories (abs_registry db') c = rs_categories (abs_registry db) c) \<and>
    (t \<notin> td_slug ` set (lr_topics r) \<longrightarrow> rs_topics (abs_registry db') t = rs_topics (abs_registry db) t \<and>
       rs_aliases (abs_registry db') t = rs_aliases (abs_registry db) t \<and>
       rs_mappings (abs_registry db') t = rs_mappings (abs_registry db) t) \<and>
    (d \<in> set (lr_topics r) \<and> n \<notin> alias_normal (se_nfkc e) ` set (td_aliases d) \<longrightarrow>
       rs_aliases (abs_registry db') (td_slug d) n = rs_aliases (abs_registry db) (td_slug d) n) \<and>
    (d \<in> set (lr_topics r) \<and> n \<notin> source_kind_name ` fst ` set (source_items (td_sources d)) \<longrightarrow>
       rs_mappings (abs_registry db') (td_slug d) n = rs_mappings (abs_registry db) (td_slug d) n)"
proof (cases "sr_changed rep")
  case True
  have abs: "abs_registry db' = merge_registry (se_nfkc e) r (abs_registry db)" using sync_result [OF assms True] by blast
  note entry = merge_registry_entry [OF loaded_registry_well_formed [OF assms(1)], of _ "abs_registry db", folded abs]
  have "rs_aliases (abs_registry db') (td_slug d) n = rs_aliases (abs_registry db) (td_slug d) n"
    if "d \<in> set (lr_topics r)" "n \<notin> alias_normal (se_nfkc e) ` set (td_aliases d)"
    using entry(1) [OF that(1)] desired_aliases_other [OF that(2)] by simp
  moreover have "rs_mappings (abs_registry db') (td_slug d) n = rs_mappings (abs_registry db) (td_slug d) n"
    if "d \<in> set (lr_topics r)" "n \<notin> source_kind_name ` fst ` set (source_items (td_sources d))"
    using entry(1) [OF that(1)] desired_configs_other [OF that(2)] by simp
  ultimately show ?thesis using entry(3,4) by blast
next
  case False
  have "db' = db" using assms(4) False by (cases rule: sync_cases) (auto simp: report_def)
  then show ?thesis by simp
qed

theorem sync_keeps_absent_witness:
  "rs_categories (abs_registry (snd demo_run)) ''old'' = rs_categories (abs_registry demo_registry) ''old'' \<and>
   rs_aliases (abs_registry (snd demo_run)) ''rag'' ''ret'' = rs_aliases (abs_registry demo_registry) ''rag'' ''ret'' \<and>
   rs_aliases (abs_registry demo_registry) ''rag'' ''ret'' \<noteq> None"
proof -
  obtain rep where "demo_run = (Inr rep, snd demo_run)" using demo_sync by blast
  note kept = sync_keeps_absent [OF _ demo_valid demo_keys this, of id, unfolded demo_nfkc, OF demo_loads]
  have "''old'' \<notin> cd_slug ` set (lr_categories (demo_loaded demo_aliases checksum))" for checksum by code_simp
  moreover obtain d where "d \<in> set (lr_topics (demo_loaded demo_aliases (demo_checksum demo_aliases)))" "td_slug d = ''rag''"
    "''ret'' \<notin> alias_normal id ` set (td_aliases d)"
  proof -
    have "list_ex (\<lambda>d. td_slug d = ''rag'' \<and> ''ret'' \<notin> alias_normal id ` set (td_aliases d)) (lr_topics (demo_loaded demo_aliases checksum))"
      for checksum by code_simp
    then show thesis using that by (auto simp: list_ex_iff)
  qed
  moreover have "rs_aliases (abs_registry demo_registry) ''rag'' ''ret'' \<noteq> None"
    by (simp add: abs_registry_simps demo_registry_def alias_view_def alias_key_def)
  ultimately show ?thesis using kept [of "''old''" "''x''" d "''ret''"] by simp
qed

text \<open>
  C29: Synchronisation converges: after a successful run the comparison of the same registry with the
  database finds no change, and a further run, whatever its clock, writes nothing.
\<close>
theorem sync_converges:
  assumes "load_registry (se_nfkc e) sha f = Inr r" "pydantic_valid f" "registry_keys db" "registry_constraints db"
    and "sync e r False by db = (Inr rep, db')" "se_nfkc e2 = se_nfkc e"
  shows "\<not> has_changes (compare_registry (se_nfkc e) db' r) \<and>
    sync e2 r dry2 by2 db' = (Inr (report r (compare_registry (se_nfkc e) db' r) dry2 None), db')"
proof -
  have "\<not> has_changes (compare_registry (se_nfkc e) db' r)"
  proof (cases "sr_changed rep")
    case True
    note res = sync_result [OF assms(1-3,5) True]
    have wf: "registry_well_formed (se_nfkc e) (lr_categories r) (lr_topics r) (lr_collisions r)"
      by (rule loaded_registry_well_formed [OF assms(1)])
    have abs: "abs_registry db' = merge_registry (se_nfkc e) r (abs_registry db)"
      and keys: "registry_keys db'" "registry_constraints db'" using res by blast+
    obtain row where row: "rdb_versions db' = rdb_versions db @ [row]" "version_number row = next_version db"
      "version_checksum row = lr_checksum r" "version_warnings row = JList (warning_payloads (diff_warnings (se_nfkc e) db r))"
      using res by (auto simp: compare_registry_def Let_def)
    have latest: "latest_version db' = Some row"
      unfolding latest_version_def row(1) by (rule latest_by_snoc) (use next_version_new row(2) in auto)
    note entry = merge_registry_entry [OF wf, of _ "abs_registry db", folded abs]
    have "category_changes db' r = []"
      using entry(2) by (simp add: category_changes_abs [OF keys(2)] entry_change_same)
    moreover have "topic_changes (se_nfkc e) db' d = []" if "d \<in> set (lr_topics r)" for d
      using entry(1) [OF that] by (intro topic_changes_none [OF keys]) blast
    moreover have "registry_change_of (latest_version db') r (diff_warnings (se_nfkc e) db' r) = []"
      using row(3,4) by (simp add: latest registry_change_of_def diff_warnings_abs [OF assms(3,4) keys wf abs])
    ultimately show ?thesis by (simp add: has_changes_def compare_registry_def Let_def)
  next
    case False
    show ?thesis using assms(5) False by (cases rule: sync_cases) (auto simp: report_def)
  qed
  then show ?thesis by (simp add: sync_def Let_def assms(6))
qed

theorem sync_converges_witness:
  "\<not> has_changes (compare_registry id (snd demo_run) (demo_loaded demo_aliases (demo_checksum demo_aliases))) \<and>
   snd (sync (demo_env\<lparr>se_now := (\<lambda>n. 5)\<rparr>) (demo_loaded demo_aliases (demo_checksum demo_aliases)) False ''cron'' (snd demo_run)) = snd demo_run"
proof -
  obtain rep where "demo_run = (Inr rep, snd demo_run)" using demo_sync by blast
  from sync_converges [OF _ demo_valid demo_keys demo_constraints this, of id "demo_env\<lparr>se_now := (\<lambda>n. 5)\<rparr>" False "''cron''"]
  show ?thesis using demo_loads by simp
qed

text \<open>
  C30: Synchronisation is one transaction with a trail: an error, a dry run and a comparison without changes leave
  the database as it was; a run that changes something adds one version, numbered above all earlier ones and
  carrying the checksum of the registry, one audit row for each change of the comparison and for each
  reviewed collision, and the eight quality checks.
\<close>
theorem sync_transaction:
  assumes "load_registry (se_nfkc e) sha f = Inr r" "pydantic_valid f" "registry_keys db"
  shows "case sync e r dry by db of
      (Inl err, db') \<Rightarrow> db' = db
    | (Inr rep, db') \<Rightarrow>
        (if dry \<or> \<not> sr_changed rep then db' = db \<and> sr_version rep = None
         else \<exists>row. rdb_versions db' = rdb_versions db @ [row] \<and> sr_version rep = Some (version_number row) \<and>
           list_all (\<lambda>v. version_number v < version_number row) (rdb_versions db) \<and> version_checksum row = lr_checksum r \<and>
           rdb_audit db' = rdb_audit db @ map (change_audit (version_id row)) (df_changes (sr_diff rep)) @
             map (review_audit (version_id row)) (filter (\<lambda>w. ri_code w = ''ALLOWED_ALIAS_COLLISION'') (registry_warnings r)) \<and>
           length (rdb_checks db') = length (rdb_checks db) + 8)"
proof -
  obtain res db' where run: "sync e r dry by db = (res, db')" by (cases "sync e r dry by db")
  from run show ?thesis
  proof (cases rule: sync_cases)
    case unchanged
    then show ?thesis using run by (auto simp: report_def)
  next
    case (changed s)
    then obtain rep where rep: "res = Inr rep" "sr_changed rep" by (simp add: report_def)
    have "sync e r False by db = (Inr rep, db')" using run rep(1) changed(1) by simp
    from sync_result [OF assms this rep(2)] next_version_new show ?thesis
      using run rep changed(1) by (auto simp: list_all_iff registry_checks_def Let_def)
  qed (use run in auto)
qed

theorem sync_transaction_witness:
  "sync demo_env (demo_loaded demo_aliases (demo_checksum demo_aliases)) True ''cli'' demo_registry =
     (fst (sync demo_env (demo_loaded demo_aliases (demo_checksum demo_aliases)) True ''cli'' demo_registry), demo_registry) \<and>
   (\<exists>row. rdb_versions (snd demo_run) = [row] \<and> length (rdb_checks (snd demo_run)) = 8)"
proof -
  note th = sync_transaction [of demo_env id "demo_files demo_aliases" "demo_loaded demo_aliases (demo_checksum demo_aliases)" demo_registry,
      unfolded demo_nfkc, OF demo_loads demo_valid demo_keys]
  obtain rep where "demo_run = (Inr rep, snd demo_run)" "sr_changed rep" using demo_sync by blast
  with th [of False "''cli''"] have "\<exists>row. rdb_versions (snd demo_run) = [row] \<and> length (rdb_checks (snd demo_run)) = 8"
    by (auto simp: demo_registry_def split: prod.splits)
  moreover have "snd (sync demo_env (demo_loaded demo_aliases (demo_checksum demo_aliases)) True ''cli'' demo_registry) = demo_registry"
    using th [of True "''cli''"] by (auto split: prod.splits sum.splits)
  ultimately show ?thesis by (metis prod.collapse)
qed


section \<open>A registry that is accepted and cannot be stored\<close>

text \<open>
  The loader tells aliases apart by their normalised text and their case sensitivity, the table by the text
  alone: a topic with the aliases \<open>rag\<close>, case sensitive, and \<open>RAG\<close>, not case sensitive, is loaded without an
  error, and every synchronisation of it ends in an integrity error.
\<close>

definition empty_registry :: registry_db where
  "empty_registry = \<lparr>rdb_sources = [], rdb_categories = [], rdb_topics = [], rdb_aliases = [], rdb_mappings = [],
     rdb_versions = [], rdb_audit = [], rdb_checks = []\<rparr>"

abbreviation clashing_aliases :: "alias_def list" where
  "clashing_aliases \<equiv> [demo_alias ''rag'' True, demo_alias ''RAG'' False]"

theorem accepted_registry_cannot_sync:
  "load_registry id id (demo_files clashing_aliases) = Inr (demo_loaded clashing_aliases (demo_checksum clashing_aliases)) \<and>
   fst (sync demo_env (demo_loaded clashing_aliases (demo_checksum clashing_aliases)) False ''cli'' empty_registry) = Inl IntegrityError"
proof
  have "case cross_file_issues id (rf_categories (demo_file clashing_aliases)) (rf_topics (demo_file clashing_aliases)) [] of
      [] \<Rightarrow> True | _ \<Rightarrow> False" by code_simp
  then show "load_registry id id (demo_files clashing_aliases) = Inr (demo_loaded clashing_aliases (demo_checksum clashing_aliases))"
    by (intro demo_load) (simp split: list.splits)
  have "case fst (sync demo_env (demo_loaded clashing_aliases checksum) False ''cli'' empty_registry) of
      Inl IntegrityError \<Rightarrow> True | _ \<Rightarrow> False" for checksum by code_simp
  from this [of "demo_checksum clashing_aliases"]
  show "fst (sync demo_env (demo_loaded clashing_aliases (demo_checksum clashing_aliases)) False ''cli'' empty_registry) = Inl IntegrityError"
    by (auto split: sum.splits py_error.splits)
qed


section \<open>The same checksum, another version\<close>

text \<open>
  The checksum sorts every list, also the search terms of a source; the comparison does not.  A registry in
  which two search terms have changed places has the same checksum, and synchronising it makes a new version.
\<close>

definition terms_topic :: "string list \<Rightarrow> topic_def" where
  "terms_topic terms = \<lparr>td_canonical_name = ''RAG'', td_slug = ''rag'', td_description = ''A field of study.'', td_category = ''ai'',
     td_status = TopicActive, td_priority = 50, td_aliases = [],
     td_sources = \<lparr>sd_arxiv = Some \<lparr>sc_enabled = True, sc_values = terms\<rparr>, sd_github = None, sd_hacker_news = None,
       sd_wikipedia = None\<rparr>, td_metadata = []\<rparr>"

definition terms_registry :: "string \<Rightarrow> string list \<Rightarrow> loaded_registry" where
  "terms_registry checksum terms = \<lparr>
     lr_categories = [\<lparr>cd_name = ''AI'', cd_slug = ''ai'', cd_description = None, cd_parent = None, cd_sort_order = 0\<rparr>],
     lr_topics = [terms_topic terms], lr_collisions = [], lr_source_files = [''config/ai.yaml''], lr_checksum = checksum, lr_issues = []\<rparr>"

theorem reordered_terms_new_version:
  "registry_checksum sha categories [terms_topic [''a'', ''b'']] [] = registry_checksum sha categories [terms_topic [''b'', ''a'']] [] \<and>
   (case sync demo_env (terms_registry checksum [''a'', ''b'']) False ''cli'' empty_registry of
      (first, db) \<Rightarrow> (case fst (sync demo_env (terms_registry checksum [''b'', ''a'']) False ''cli'' db) of
         Inr rep \<Rightarrow> sr_version rep = Some 2 | Inl _ \<Rightarrow> False))"
proof
  have "canonicalize (topic_dump (terms_topic [''a'', ''b''])) = canonicalize (topic_dump (terms_topic [''b'', ''a'']))"
    by code_simp
  then show "registry_checksum sha categories [terms_topic [''a'', ''b'']] [] = registry_checksum sha categories [terms_topic [''b'', ''a'']] []"
    by (simp add: registry_checksum_def registry_payload_def)
  show "case sync demo_env (terms_registry checksum [''a'', ''b'']) False ''cli'' empty_registry of
      (first, db) \<Rightarrow> (case fst (sync demo_env (terms_registry checksum [''b'', ''a'']) False ''cli'' db) of
         Inr rep \<Rightarrow> sr_version rep = Some 2 | Inl _ \<Rightarrow> False)"
    by code_simp
qed

end
