(* ===== verification/Github_Models.thy ===== *)
theory Github_Models
  imports Calendar Db_Models
begin

text \<open>
  \<open>github_collector/models.py\<close>: the values that the GitHub collector passes around, and its exceptions
  (\<open>client.py\<close>, \<open>parser.py\<close>, \<open>query.py\<close>, \<open>service.py\<close>) as one datatype.  \<open>datetime\<close> fields that a validator
  makes aware and UTC are integers.
\<close>


section \<open>Requests and responses\<close>

record github_rate_limit =
  rl_resource :: "string option"
  rl_limit :: "int option"
  rl_remaining :: "int option"
  rl_reset_at :: "int option"
  rl_retry_after :: "int option"

datatype github_endpoint = RepositorySearch | RepositoryEndpoint

fun endpoint_text :: "github_endpoint \<Rightarrow> string" where
  "endpoint_text RepositorySearch = ''repository_search''"
| "endpoint_text RepositoryEndpoint = ''repository''"

record github_request =
  ghq_endpoint :: github_endpoint
  ghq_url :: string
  ghq_parameters :: jdict
  ghq_repository_id :: "int option"
  ghq_etag :: "string option"

record github_response =
  ghr_request :: github_request
  ghr_status :: int
  ghr_headers :: "(string, string) dict"
  ghr_payload :: string
  ghr_requested_at :: int
  ghr_final_url :: string
  ghr_rate_limit :: github_rate_limit
  ghr_attempts :: nat


section \<open>Parsed values\<close>

record repository_data =
  gd_github_id :: int
  gd_node_id :: string
  gd_owner_login :: string
  gd_name :: string
  gd_full_name :: string
  gd_html_url :: string
  gd_api_url :: string
  gd_description :: "string option"
  gd_homepage :: "string option"
  gd_language :: "string option"
  gd_default_branch :: "string option"
  gd_is_fork :: bool
  gd_fork_parent_github_id :: "int option"
  gd_archived :: bool
  gd_disabled :: bool
  gd_visibility :: string
  gd_created_at_github :: int
  gd_updated_at_github :: int
  gd_pushed_at_github :: "int option"
  gd_stargazers :: int
  gd_forks :: int
  gd_open_issues :: int
  gd_subscribers :: int
  gd_size_kb :: int
  gd_topics :: "string list"
  gd_license_spdx :: "string option"
  gd_metadata :: jdict

definition repository_data_valid :: "repository_data \<Rightarrow> bool" where
  "repository_data_valid d =
     (gd_stargazers d \<ge> 0 \<and> gd_forks d \<ge> 0 \<and> gd_open_issues d \<ge> 0 \<and> gd_subscribers d \<ge> 0 \<and> gd_size_kb d \<ge> 0)"

record search_result =
  sr_total_count :: int
  sr_incomplete_results :: bool
  sr_repositories :: "repository_data list"

definition search_result_valid :: "search_result \<Rightarrow> bool" where
  "search_result_valid r = (sr_total_count r \<ge> 0)"


section \<open>Exceptions\<close>

datatype github_error =
    GithubNotConfiguredError
  | GithubBudgetExhaustedError string github_rate_limit
  | GithubHTTPError github_response
  | GithubRateLimitError github_response \<comment> \<open>a subclass of \<open>GithubHTTPError\<close>\<close>
  | GithubTransportError string
  | GithubParseError string \<comment> \<open>a subclass of \<open>ValueError\<close>\<close>
  | GithubQueryError string \<comment> \<open>a subclass of \<open>ValueError\<close>\<close>
  | GithubCollectionError string
  | GithubRequestLimitReached \<comment> \<open>a subclass of \<open>GithubCollectionError\<close>\<close>
  | GithubRaised py_error \<comment> \<open>any other exception\<close>

type_synonym 'a github_result = "github_error + 'a"

definition github_bind :: "'a github_result \<Rightarrow> ('a \<Rightarrow> 'b github_result) \<Rightarrow> 'b github_result" where
  "github_bind r f = (case r of Inl e \<Rightarrow> Inl e | Inr x \<Rightarrow> f x)"

declare github_bind_def [code_unfold]

lemma github_bind_simps [simp]:
  "github_bind (Inl e) f = Inl e"
  "github_bind (Inr x) f = f x"
  by (simp_all add: github_bind_def)

lemma github_bind_eq_Inr [simp]:
  "github_bind r f = Inr y \<longleftrightarrow> (\<exists>x. r = Inr x \<and> f x = Inr y)"
  by (cases r) auto

definition github_lift :: "'a result \<Rightarrow> 'a github_result" where
  "github_lift r = (case r of Inl e \<Rightarrow> Inl (GithubRaised e) | Inr x \<Rightarrow> Inr x)"

lemma github_lift_eq_Inr [simp]: "github_lift r = Inr x \<longleftrightarrow> r = Inr x"
  by (cases r) (simp_all add: github_lift_def)

definition github_error_name :: "github_error \<Rightarrow> string" where
  "github_error_name e = (case e of
     GithubNotConfiguredError \<Rightarrow> ''GithubNotConfiguredError''
   | GithubBudgetExhaustedError _ _ \<Rightarrow> ''GithubBudgetExhaustedError''
   | GithubHTTPError _ \<Rightarrow> ''GithubHTTPError'' | GithubRateLimitError _ \<Rightarrow> ''GithubRateLimitError''
   | GithubTransportError _ \<Rightarrow> ''GithubTransportError'' | GithubParseError _ \<Rightarrow> ''GithubParseError''
   | GithubQueryError _ \<Rightarrow> ''GithubQueryError'' | GithubCollectionError _ \<Rightarrow> ''GithubCollectionError''
   | GithubRequestLimitReached \<Rightarrow> ''GithubRequestLimitReached'' | GithubRaised p \<Rightarrow> error_name p)"

definition github_error_text :: "github_error \<Rightarrow> string" where
  "github_error_text e = (case e of
     GithubNotConfiguredError \<Rightarrow> ''GitHub authentication is not configured.''
   | GithubBudgetExhaustedError resource _ \<Rightarrow>
       ''GitHub '' @ resource @ '' rate budget is below the configured floor''
   | GithubHTTPError r \<Rightarrow> ''GitHub API returned HTTP '' @ show_int (ghr_status r)
   | GithubRateLimitError r \<Rightarrow> ''GitHub API returned HTTP '' @ show_int (ghr_status r)
   | GithubTransportError m \<Rightarrow> m | GithubParseError m \<Rightarrow> m | GithubQueryError m \<Rightarrow> m
   | GithubCollectionError m \<Rightarrow> m | GithubRequestLimitReached \<Rightarrow> ''GitHub request limit reached''
   | GithubRaised p \<Rightarrow> error_text p)"

text \<open>The classes that the handlers name.\<close>

definition is_client_error :: "github_error \<Rightarrow> bool" where
  "is_client_error e = (case e of
     GithubNotConfiguredError \<Rightarrow> True | GithubBudgetExhaustedError _ _ \<Rightarrow> True | GithubHTTPError _ \<Rightarrow> True
   | GithubRateLimitError _ \<Rightarrow> True | GithubTransportError _ \<Rightarrow> True | _ \<Rightarrow> False)"

definition is_value_error :: "github_error \<Rightarrow> bool" where
  "is_value_error e = (case e of
     GithubParseError _ \<Rightarrow> True | GithubQueryError _ \<Rightarrow> True | GithubRaised (ValueError _) \<Rightarrow> True
   | GithubRaised (ArxivParseError _) \<Rightarrow> True | GithubRaised (ArxivAPIError _) \<Rightarrow> True
   | GithubRaised (ArxivQueryError _) \<Rightarrow> True
   | GithubRaised (OtherError n _) \<Rightarrow> n = ''ValidationError'' | _ \<Rightarrow> False)"

text \<open>The errors after which a run sends nothing more.\<close>

definition ends_run :: "github_error \<Rightarrow> bool" where
  "ends_run e = (case e of GithubBudgetExhaustedError _ _ \<Rightarrow> True | GithubRequestLimitReached \<Rightarrow> True | _ \<Rightarrow> False)"

end
