(* ===== verification/Github_Query.thy ===== *)
theory Github_Query
  imports Github_Models Raw_Store
begin

text \<open>
  \<open>github_collector/query.py\<close>, \<open>_effective_query\<close> of \<open>service.py\<close> and \<open>build_url\<close> of \<open>client.py\<close>: the search
  queries of a mapping, the qualifiers every query gets, and the URL of a search.  The URL is read back by
  the rules of \<open>application/x-www-form-urlencoded\<close>.
\<close>


section \<open>The queries of a mapping\<close>

definition clean_query :: "json \<Rightarrow> string github_result" where
  "clean_query value =
     (case json_text value of
        None \<Rightarrow> Inl (GithubQueryError ''GitHub search query must be a non-empty string'')
      | Some s \<Rightarrow>
          (if strip s = [] then Inl (GithubQueryError ''GitHub search query must be a non-empty string'')
           else Inr (join '' '' (split_words s))))"

fun clean_queries :: "json list \<Rightarrow> string list github_result" where
  "clean_queries [] = Inr []"
| "clean_queries (v # vs) = github_bind (clean_query v) (\<lambda>q. github_bind (clean_queries vs) (\<lambda>qs. Inr (q # qs)))"

definition configured_queries :: "mapping_row \<Rightarrow> json" where
  "configured_queries m =
     (case dict_get (mapping_configuration m) ''search_queries'' of
        None \<Rightarrow> JList []
      | Some v \<Rightarrow> (if json_text v \<noteq> None then JList [v] else v))"

definition or_mapping_query :: "mapping_row \<Rightarrow> string list \<Rightarrow> string list github_result" where
  "or_mapping_query m values =
     (if values = [] \<and> mapping_query m \<notin> {None, Some []} then clean_queries [JStr (the (mapping_query m))]
      else Inr values)"

definition search_queries :: "mapping_row \<Rightarrow> string list github_result" where
  "search_queries m =
     (case configured_queries m of
        JList vs \<Rightarrow>
          github_bind (clean_queries vs) (\<lambda>configured.
          github_bind (or_mapping_query m configured) (\<lambda>values.
            if values = [] then Inl (GithubQueryError ''enabled GitHub mapping requires an explicit search query'')
            else Inr (first_occurrences values)))
      | _ \<Rightarrow> Inl (GithubQueryError ''GitHub mapping search_queries must be an array''))"

definition effective_query :: "bool \<Rightarrow> string \<Rightarrow> string" where
  "effective_query track_forks query =
     join '' ''
       ([query] @
        (if contains ''is:public'' (casefold query) then [] else [''is:public'']) @
        (if \<not> track_forks \<and> \<not> contains ''fork:'' (casefold query) then [''fork:false''] else []))"

definition search_parameters :: "string \<Rightarrow> int \<Rightarrow> int \<Rightarrow> jdict" where
  "search_parameters query page per_page =
     [(''q'', JStr query), (''sort'', JStr ''stars''), (''order'', JStr ''desc''), (''page'', JInt page),
      (''per_page'', JInt per_page)]"


section \<open>URLs\<close>

text \<open>\<open>quote_plus\<close> of the UTF-8 encoding.\<close>

definition hex_upper :: "nat \<Rightarrow> char" where
  "hex_upper n = char_of (if n < 10 then 48 + n else 55 + n)"

definition unreserved :: "char \<Rightarrow> bool" where
  "unreserved c = (let n = (of_char c :: nat) in
     (48 \<le> n \<and> n \<le> 57) \<or> (65 \<le> n \<and> n \<le> 90) \<or> (97 \<le> n \<and> n \<le> 122) \<or> c \<in> {CHR ''_'', CHR ''.'', CHR ''-'', CHR ''~''})"

definition utf8 :: "char \<Rightarrow> nat list" where
  "utf8 c = (let n = (of_char c :: nat) in if n < 128 then [n] else [192 + n div 64, 128 + n mod 64])"

definition quote_byte :: "nat \<Rightarrow> string" where
  "quote_byte b =
     (let c = char_of b in
      if b = 32 then ''+'' else if b < 128 \<and> unreserved c then [c]
      else [CHR ''%'', hex_upper (b div 16), hex_upper (b mod 16)])"

definition quote_plus :: "string \<Rightarrow> string" where
  "quote_plus s = concat (map (\<lambda>c. concat (map quote_byte (utf8 c))) s)"

definition urlencode :: "jdict \<Rightarrow> string" where
  "urlencode d = join ''&'' (map (\<lambda>(k, v). quote_plus k @ ''='' @ quote_plus (py_str v)) d)"

definition rstrip_char :: "char \<Rightarrow> string \<Rightarrow> string" where
  "rstrip_char c s = rev (dropWhile (\<lambda>x. x = c) (rev s))"

definition build_url :: "string \<Rightarrow> string \<Rightarrow> jdict \<Rightarrow> string" where
  "build_url base_url path parameters =
     (let base = rstrip_char CHR ''/'' base_url;
          encoded = urlencode parameters;
          url = base @ ''/'' @ dropWhile (\<lambda>c. c = CHR ''/'') path
      in if encoded = [] then url else url @ ''?'' @ encoded)"


section \<open>What a mapping asks for\<close>

lemma clean_query_Inr:
  assumes "clean_query v = Inr q"
  shows "q \<noteq> [] \<and> split_words q \<noteq> [] \<and> join '' '' (split_words q) = q"
proof -
  from assms obtain s where s: "strip s \<noteq> []" "q = join '' '' (split_words s)"
    by (auto simp: clean_query_def split: option.splits if_splits)
  have w: "\<forall>w\<in>set (split_words s). w \<noteq> [] \<and> (\<forall>c\<in>set w. \<not> is_space c)"
    using split_words_no_space by blast
  have ne: "split_words s \<noteq> []"
  proof
    assume e: "split_words s = []"
    have all: "list_all is_space s"
    proof -
      have "split_words_aux acc t = [] \<Longrightarrow> acc = [] \<and> list_all is_space t" for acc t
        by (induction acc t rule: split_words_aux.induct) (auto split: if_splits)
      with e show ?thesis by (simp add: split_words_def)
    qed
    have "strip s = []" using all by (simp add: strip_def list_all_iff dropWhile_eq_Nil_conv [THEN iffD2])
    with s(1) show False by simp
  qed
  have "split_words q = split_words s" using split_words_join [OF w] s(2) by simp
  moreover have "q \<noteq> []"
  proof -
    obtain x xs where "split_words s = x # xs" using ne by (cases "split_words s") auto
    moreover have "x \<noteq> []" using w calculation by simp
    ultimately show ?thesis using s(2) by (cases xs) simp_all
  qed
  ultimately show ?thesis using ne s(2) by simp
qed

lemma clean_queries_Inr:
  "clean_queries vs = Inr qs \<longleftrightarrow> list_all2 (\<lambda>v q. clean_query v = Inr q) vs qs"
  by (induction vs arbitrary: qs) (auto simp: list_all2_Cons1)

lemma clean_queries_ok: "clean_queries vs = Inr qs \<Longrightarrow> q \<in> set qs \<Longrightarrow> q \<noteq> [] \<and> join '' '' (split_words q) = q"
  by (auto simp: clean_queries_Inr list_all2_conv_all_nth in_set_conv_nth dest: clean_query_Inr)

lemma search_queries_ok:
  assumes "search_queries m = Inr qs"
  shows "qs \<noteq> []" "distinct qs" "\<And>q. q \<in> set qs \<Longrightarrow> q \<noteq> [] \<and> join '' '' (split_words q) = q"
proof -
  obtain vs configured vals where c: "clean_queries vs = Inr configured" "or_mapping_query m configured = Inr vals"
      "vals \<noteq> []" "qs = first_occurrences vals"
    using assms by (auto simp: search_queries_def split: json.splits if_splits)
  have "\<exists>vs. clean_queries vs = Inr vals"
  proof (cases "vals = configured")
    case False
    then have "clean_queries [JStr (the (mapping_query m))] = Inr vals"
      using c(2) by (auto simp: or_mapping_query_def simp del: clean_queries.simps split: if_splits)
    then show ?thesis by blast
  qed (use c(1) in blast)
  then obtain vs where v: "clean_queries vs = Inr vals" "vals \<noteq> []" "qs = first_occurrences vals"
    using c(3,4) by blast
  show "qs \<noteq> []" using v(2,3) by (metis set_empty set_first_occurrences)
  show "distinct qs" using v(3) by simp
  show "q \<noteq> [] \<and> join '' '' (split_words q) = q" if "q \<in> set qs" for q
    using that v(3) clean_queries_ok [OF v(1)] by simp
qed


section \<open>Reading a URL back\<close>

text \<open>How a server reads the fields of a query string: percent and plus signs, then UTF-8.\<close>

definition hex_value :: "char \<Rightarrow> nat" where
  "hex_value c = (let n = of_char c in if n < 65 then n - 48 else n - 55)"

fun form_bytes :: "string \<Rightarrow> nat list" where
  "form_bytes [] = []"
| "form_bytes (c # cs) =
     (if c = CHR ''+'' then 32 # form_bytes cs
      else if c = CHR ''%'' then
        (case cs of a # b # rest \<Rightarrow> (16 * hex_value a + hex_value b) # form_bytes rest | _ \<Rightarrow> [])
      else of_char c # form_bytes cs)"

fun utf8_text :: "nat list \<Rightarrow> string" where
  "utf8_text [] = []"
| "utf8_text (b # bs) =
     (if b < 128 then char_of b # utf8_text bs
      else (case bs of [] \<Rightarrow> [] | b2 # rest \<Rightarrow> char_of ((b - 192) * 64 + (b2 - 128)) # utf8_text rest))"

definition form_text :: "string \<Rightarrow> string" where
  "form_text s = utf8_text (form_bytes s)"

definition form_field :: "string \<Rightarrow> string \<times> string" where
  "form_field s = (form_text (takeWhile (\<lambda>c. c \<noteq> CHR ''='') s), form_text (drop 1 (dropWhile (\<lambda>c. c \<noteq> CHR ''='') s)))"

definition form_fields :: "string \<Rightarrow> (string \<times> string) list" where
  "form_fields url = map form_field (split_on CHR ''&'' (drop 1 (dropWhile (\<lambda>c. c \<noteq> CHR ''?'') url)))"

lemma hex_value_upper: "n < 16 \<Longrightarrow> hex_value (hex_upper n) = n"
  by (simp add: hex_value_def hex_upper_def)

lemma quote_byte_chars:
  assumes "b < 256" "c \<in> set (quote_byte b)"
  shows "c \<notin> {CHR ''&'', CHR ''='', CHR ''?''}"
proof -
  have h: "hex_upper n \<notin> {CHR ''&'', CHR ''='', CHR ''?''}" if "n < 16" for n
  proof -
    have "n \<in> set [0..<16]" using that by simp
    moreover have "list_all (\<lambda>n. hex_upper n \<notin> {CHR ''&'', CHR ''='', CHR ''?''}) [0..<16]" by code_simp
    ultimately show ?thesis unfolding list_all_iff by blast
  qed
  have u: "\<not> unreserved CHR ''&''" "\<not> unreserved CHR ''=''" "\<not> unreserved CHR ''?''" by code_simp+
  have "b div 16 < 16" "b mod 16 < 16" using assms(1) by auto
  with assms(2) h u show ?thesis by (auto simp: quote_byte_def Let_def split: if_splits)
qed

lemma form_bytes_quote_byte: "b < 256 \<Longrightarrow> form_bytes (quote_byte b @ s) = b # form_bytes s"
proof -
  assume b: "b < 256"
  have u: "\<not> unreserved CHR ''+''" "\<not> unreserved CHR ''%''" by code_simp+
  have "b div 16 < 16" "b mod 16 < 16" using b by auto
  then show ?thesis
    using b u by (auto simp: quote_byte_def Let_def hex_value_upper)
qed

lemma form_bytes_quote_bytes:
  "list_all (\<lambda>b. b < 256) bs \<Longrightarrow> form_bytes (concat (map quote_byte bs)) = bs"
  by (induction bs) (simp_all add: form_bytes_quote_byte)

lemma utf8_bytes: "list_all (\<lambda>b. b < 256) (utf8 c)"
proof -
  have n: "of_char c < (256::nat)" by (rule nat_of_char_less_256)
  have "of_char c div 64 < (64::nat)" by (rule less_mult_imp_div_less) (use n in linarith)
  with n show ?thesis by (auto simp: utf8_def Let_def)
qed

lemma utf8_text_utf8: "utf8_text (utf8 c @ bs) = c # utf8_text bs"
proof -
  have n: "of_char c < (256::nat)" by (rule nat_of_char_less_256)
  show ?thesis
  proof (cases "of_char c < (128::nat)")
    case False
    have "(of_char c div 64) * 64 + of_char c mod 64 = (of_char c :: nat)" by simp
    with False n show ?thesis by (simp add: utf8_def Let_def)
  qed (simp add: utf8_def)
qed

lemma form_text_quote_plus: "form_text (quote_plus s) = s"
proof -
  have "quote_plus s = concat (map quote_byte (concat (map utf8 s)))"
    by (induction s) (simp_all add: quote_plus_def)
  moreover have "list_all (\<lambda>b. b < 256) (concat (map utf8 s))"
    by (induction s) (simp_all add: utf8_bytes)
  moreover have "utf8_text (concat (map utf8 s)) = s" by (induction s) (simp_all add: utf8_text_utf8)
  ultimately show ?thesis by (simp add: form_text_def form_bytes_quote_bytes)
qed

lemma quote_plus_chars: "c \<in> set (quote_plus s) \<Longrightarrow> c \<notin> {CHR ''&'', CHR ''='', CHR ''?''}"
proof -
  assume "c \<in> set (quote_plus s)"
  then obtain x b where "b \<in> set (utf8 x)" "c \<in> set (quote_byte b)" by (auto simp: quote_plus_def)
  then show ?thesis using utf8_bytes [of x] quote_byte_chars by (auto simp: list_all_iff)
qed

lemma form_field_quoted: "form_field (quote_plus k @ CHR ''='' # quote_plus v) = (k, v)"
proof -
  have "CHR ''='' \<notin> set (quote_plus k)" using quote_plus_chars by blast
  then have "takeWhile (\<lambda>c. c \<noteq> CHR ''='') (quote_plus k @ CHR ''='' # quote_plus v) = quote_plus k"
    "dropWhile (\<lambda>c. c \<noteq> CHR ''='') (quote_plus k @ CHR ''='' # quote_plus v) = CHR ''='' # quote_plus v"
    by (auto simp: takeWhile_append dropWhile_append)
  then show ?thesis by (simp add: form_field_def form_text_quote_plus)
qed

lemma split_on_plain: "sep \<notin> set w \<Longrightarrow> split_on sep w = [w]"
  by (induction w) auto

lemma urlencode_reads_back:
  assumes "d \<noteq> []"
  shows "map form_field (split_on CHR ''&'' (urlencode d)) = map (\<lambda>(k, v). (k, py_str v)) d"
proof -
  let ?ws = "map (\<lambda>(k, v). quote_plus k @ CHR ''='' # quote_plus (py_str v)) d"
  have "\<forall>w\<in>set ?ws. CHR ''&'' \<notin> set w" using quote_plus_chars by auto
  then have "split_on CHR ''&'' (urlencode d) = ?ws"
    using assms by (simp add: urlencode_def split_on_join)
  then show ?thesis by (auto simp: form_field_quoted)
qed

text \<open>
  C26: the server reads from the URL of a search exactly the parameters that the collector chose: the query,
  whatever characters it contains, the order by stars, the page and the page size.
\<close>

theorem search_url_reads_back:
  assumes "CHR ''?'' \<notin> set base"
  shows "form_fields (build_url base ''/search/repositories'' (search_parameters query page per_page)) =
    [(''q'', query), (''sort'', ''stars''), (''order'', ''desc''), (''page'', show_int page), (''per_page'', show_int per_page)]"
proof -
  let ?d = "search_parameters query page per_page"
  let ?path = "rstrip_char CHR ''/'' base @ ''/search/repositories''"
  have "set (rstrip_char CHR ''/'' base) \<subseteq> set base"
    by (auto simp: rstrip_char_def dest: set_dropWhileD)
  then have q: "CHR ''?'' \<notin> set ?path" using assms by auto
  have ne: "urlencode ?d \<noteq> []" by (simp add: urlencode_def search_parameters_def)
  have "build_url base ''/search/repositories'' ?d = ?path @ CHR ''?'' # urlencode ?d"
    using ne by (simp add: build_url_def)
  then have "drop 1 (dropWhile (\<lambda>c. c \<noteq> CHR ''?'') (build_url base ''/search/repositories'' ?d)) = urlencode ?d"
    using q by (simp add: dropWhile_append del: append_assoc)
  then show ?thesis
    using urlencode_reads_back [of ?d]
    by (simp add: form_fields_def search_parameters_def py_str_def json_text_def)
qed

theorem search_url_reads_back_witness:
  "form_fields (build_url ''https://api.github.com/'' ''/search/repositories'' (search_parameters ''a&b=c? is:public'' 1 20)) =
    [(''q'', ''a&b=c? is:public''), (''sort'', ''stars''), (''order'', ''desc''), (''page'', ''1''), (''per_page'', ''20'')]"
proof -
  have "CHR ''?'' \<notin> set ''https://api.github.com/''" by simp
  moreover have "show_int 1 = ''1''" "show_int 20 = ''20''" by code_simp+
  ultimately show ?thesis using search_url_reads_back by simp
qed

end
