(* ===== verification/Github_Client.thy ===== *)
theory Github_Client
  imports Github_Models Raw_Store
begin

text \<open>
  \<open>github_collector/client.py\<close>: the budgets that the response headers announce, the checks of the
  constructor, the retry loop of \<open>GithubClient.get\<close> with its two callbacks, the classification of refusals
  and the waiting times.

  The environment \<open>github_env\<close> supplies the readings of the wall clock, the outcome of each transport call
  and the jitter; \<open>github_world\<close> holds how much of it was used, the remembered budgets, and two traces: the
  transport calls (URL and headers) and the times slept.  Times are microseconds.  \<open>json.loads\<close> is a
  parameter that gives \<open>None\<close> where it raises \<open>UnicodeDecodeError\<close> or \<open>JSONDecodeError\<close>.  Requests of one
  client are sequential here: the collector awaits each of them.
\<close>


section \<open>Budgets\<close>

text \<open>The header names in lower case; a later header of the same name wins.\<close>

definition lower_headers :: "(string, string) dict \<Rightarrow> (string, string) dict" where
  "lower_headers headers = foldl (\<lambda>d (k, v). dict_set (casefold k) v d) [] headers"

definition header_integer :: "string option \<Rightarrow> int option" where
  "header_integer v = map_option (max 0) (Option.bind v int_of_text)"

text \<open>\<open>datetime.fromtimestamp(seconds, tz=UTC)\<close> raises outside the range of the platform.\<close>

definition reset_time :: "string option \<Rightarrow> int option result" where
  "reset_time v =
     (case header_integer v of
        None \<Rightarrow> Inr None
      | Some seconds \<Rightarrow>
          (if seconds \<ge> 2 ^ 63 then Inl (OtherError ''OverflowError'' ''timestamp out of range for platform time_t'')
           else if seconds > 67768036191676799 then Inl (OSError ''Value too large for defined data type'')
           else if seconds > 253402300799 then Inl (ValueError ''year is out of range'')
           else Inr (Some (seconds * second_us))))"

definition rate_limit_of :: "(string, string) dict \<Rightarrow> github_rate_limit result" where
  "rate_limit_of headers =
     (let h = lower_headers headers in
      case reset_time (dict_get h ''x-ratelimit-reset'') of
        Inl e \<Rightarrow> Inl e
      | Inr reset_at \<Rightarrow>
          Inr \<lparr>rl_resource = dict_get h ''x-ratelimit-resource'',
               rl_limit = header_integer (dict_get h ''x-ratelimit-limit''),
               rl_remaining = header_integer (dict_get h ''x-ratelimit-remaining''),
               rl_reset_at = reset_at,
               rl_retry_after = header_integer (dict_get h ''retry-after'')\<rparr>)"

type_synonym rate_budgets = "(string, github_rate_limit) dict"

definition remember_budget :: "github_rate_limit \<Rightarrow> rate_budgets \<Rightarrow> rate_budgets" where
  "remember_budget r budgets =
     (case rl_resource r of None \<Rightarrow> budgets | Some resource \<Rightarrow> dict_set resource r budgets)"

definition require_floor :: "rate_budgets \<Rightarrow> string \<Rightarrow> int \<Rightarrow> unit github_result" where
  "require_floor budgets resource floor_value =
     (case dict_get budgets resource of
        None \<Rightarrow> Inr ()
      | Some b \<Rightarrow>
          (case rl_remaining b of
             None \<Rightarrow> Inr ()
           | Some n \<Rightarrow> (if n \<le> floor_value then Inl (GithubBudgetExhaustedError resource b) else Inr ())))"


section \<open>The client\<close>

record github_client =
  gc_token :: "string option"
  gc_api_version :: string
  gc_user_agent :: string
  gc_timeout :: int
  gc_retry_attempts :: nat
  gc_min_core_remaining :: int
  gc_min_search_remaining :: int
  gc_max_wait :: int

definition has_token :: "string option \<Rightarrow> bool" where
  "has_token t = (t \<noteq> None \<and> t \<noteq> Some [])"

definition github_client_init :: "github_client \<Rightarrow> bool \<Rightarrow> bool \<Rightarrow> int \<Rightarrow> unit github_result" where
  "github_client_init c require_auth allow_anonymous_smoke concurrency =
     (if require_auth \<and> \<not> has_token (gc_token c) then Inl GithubNotConfiguredError
      else if \<not> has_token (gc_token c) \<and> \<not> allow_anonymous_smoke then Inl GithubNotConfiguredError
      else if concurrency < 1 \<or> concurrency > 4 then
        Inl (GithubRaised (ValueError ''GitHub concurrency must be between one and four''))
      else if gc_retry_attempts c < 1 \<or> gc_retry_attempts c > 5 then
        Inl (GithubRaised (ValueError ''GitHub retry attempts must be between one and five''))
      else if gc_timeout c \<le> 0 then Inl (GithubRaised (ValueError ''GitHub timeout must be positive''))
      else if strip (gc_api_version c) = [] \<or> strip (gc_user_agent c) = [] then
        Inl (GithubRaised (ValueError ''GitHub API version and User-Agent are required''))
      else Inr ())"

definition request_headers :: "github_client \<Rightarrow> github_request \<Rightarrow> (string, string) dict" where
  "request_headers c rq =
     [(''Accept'', ''application/vnd.github+json''), (''X-GitHub-Api-Version'', gc_api_version c),
      (''User-Agent'', gc_user_agent c)] @
     (if has_token (gc_token c) then [(''Authorization'', ''Bearer '' @ the (gc_token c))] else []) @
     (case ghq_etag rq of None \<Rightarrow> [] | Some etag \<Rightarrow> (if etag = [] then [] else [(''If-None-Match'', etag)]))"

definition transient_codes :: "int list" where
  "transient_codes = [500, 502, 503, 504]"

definition github_safe_names :: "string list" where
  "github_safe_names =
     [''content-type'', ''etag'', ''last-modified'', ''link'', ''location'', ''retry-after'',
      ''x-github-api-version-selected'', ''x-ratelimit-limit'', ''x-ratelimit-remaining'', ''x-ratelimit-reset'',
      ''x-ratelimit-resource'', ''x-ratelimit-used'']"

definition github_safe_headers :: "(string, string) dict \<Rightarrow> (string, string) dict" where
  "github_safe_headers headers = filter (\<lambda>(key, value). casefold key \<in> set github_safe_names) headers"


section \<open>The outside world\<close>

datatype github_outcome =
    GithubNoReply string \<comment> \<open>type name of a \<open>TimeoutError\<close>, \<open>ConnectionError\<close> or \<open>OSError\<close>\<close>
  | GithubBroken py_error \<comment> \<open>any other exception\<close>
  | GithubReplied int "(string, string) dict" string string \<comment> \<open>status, headers, body, final URL\<close>

record github_env =
  ge_wall :: "nat \<Rightarrow> int"
  ge_transport :: "nat \<Rightarrow> github_outcome"
  ge_jitter :: "nat \<Rightarrow> nat"

record github_world =
  gw_walls :: nat
  gw_jitters :: nat
  gw_budgets :: rate_budgets \<comment> \<open>\<open>rate_limits\<close> of the client\<close>
  gw_calls :: "(string \<times> (string, string) dict) list" \<comment> \<open>trace: every transport call\<close>
  gw_slept :: "int list" \<comment> \<open>trace: every time slept\<close>

definition github_world_init :: github_world where
  "github_world_init = \<lparr>gw_walls = 0, gw_jitters = 0, gw_budgets = [], gw_calls = [], gw_slept = []\<rparr>"

definition wall_now :: "github_env \<Rightarrow> github_world \<Rightarrow> int \<times> github_world" where
  "wall_now e w = (ge_wall e (gw_walls w), w\<lparr>gw_walls := Suc (gw_walls w)\<rparr>)"

definition sleep_us :: "int \<Rightarrow> github_world \<Rightarrow> github_world" where
  "sleep_us d w = w\<lparr>gw_slept := gw_slept w @ [d]\<rparr>"


section \<open>Refusals and waiting times\<close>

definition is_rate_limited :: "(string \<Rightarrow> json option) \<Rightarrow> github_response \<Rightarrow> bool" where
  "is_rate_limited loads r =
     (if ghr_status r = 429 then True
      else if ghr_status r \<noteq> 403 then False
      else if rl_remaining (ghr_rate_limit r) = Some 0 \<or> rl_retry_after (ghr_rate_limit r) \<noteq> None then True
      else (case loads (ghr_payload r) of
              None \<Rightarrow> False
            | Some body \<Rightarrow>
                (let message = (case body of
                       JObj d \<Rightarrow> casefold (case dict_get d ''message'' of None \<Rightarrow> [] | Some v \<Rightarrow> py_str v)
                     | _ \<Rightarrow> [])
                 in contains ''secondary rate limit'' message \<or> contains ''abuse'' message)))"

definition backoff_us :: "github_env \<Rightarrow> nat \<Rightarrow> github_world \<Rightarrow> int \<times> github_world" where
  "backoff_us e attempt w =
     (min (30 * second_us) (2 ^ (attempt - 1) * second_us) + int (ge_jitter e (gw_jitters w)),
      w\<lparr>gw_jitters := Suc (gw_jitters w)\<rparr>)"

text \<open>The largest integer that \<open>float\<close> accepts is below this bound.\<close>

definition float_bound :: int where
  "float_bound = 2 ^ 1024 - 2 ^ 970"

definition rate_wait_us ::
  "github_env \<Rightarrow> github_response \<Rightarrow> nat \<Rightarrow> github_world \<Rightarrow> int github_result \<times> github_world" where
  "rate_wait_us e r attempt w =
     (case rl_retry_after (ghr_rate_limit r) of
        Some n \<Rightarrow>
          (if n \<ge> float_bound then (Inl (GithubRaised (OtherError ''OverflowError'' ''int too large to convert to float'')), w)
           else (Inr (n * second_us), w))
      | None \<Rightarrow>
          (case (rl_remaining (ghr_rate_limit r) = Some 0, rl_reset_at (ghr_rate_limit r)) of
             (True, Some t) \<Rightarrow> (case wall_now e w of (now, w1) \<Rightarrow> (Inr (max 0 (t - now)), w1))
           | _ \<Rightarrow> (case backoff_us e attempt w of (d, w1) \<Rightarrow> (Inr d, w1))))"


section \<open>The retry loop\<close>

datatype github_step = GithubFinished "github_response github_result" | GithubSleep int

definition after_reply ::
  "github_env \<Rightarrow> github_client \<Rightarrow> (string \<Rightarrow> json option) \<Rightarrow> nat \<Rightarrow> bool \<Rightarrow> github_response \<Rightarrow> github_world \<Rightarrow>
   github_step \<times> github_world" where
  "after_reply e c loads attempt final r w =
     (if 200 \<le> ghr_status r \<and> ghr_status r < 300 \<or> ghr_status r = 304 then (GithubFinished (Inr r), w)
      else if is_rate_limited loads r then
        (if final then (GithubFinished (Inl (GithubRateLimitError r)), w)
         else (case rate_wait_us e r attempt w of
                 (Inl err, w1) \<Rightarrow> (GithubFinished (Inl err), w1)
               | (Inr d, w1) \<Rightarrow>
                   (if d > gc_max_wait c then (GithubFinished (Inl (GithubRateLimitError r)), w1)
                    else (GithubSleep d, w1))))
      else if ghr_status r \<in> set transient_codes \<and> \<not> final then
        (case backoff_us e attempt w of (d, w1) \<Rightarrow> (GithubSleep d, w1))
      else (GithubFinished (Inl (GithubHTTPError r)), w))"

text \<open>
  The body of the loop; \<open>final\<close> says that no attempt is left.  The callbacks act on the caller's state.
\<close>

definition github_attempt ::
  "github_env \<Rightarrow> github_client \<Rightarrow> (string \<Rightarrow> json option) \<Rightarrow> github_request \<Rightarrow>
   (github_response \<Rightarrow> 's \<Rightarrow> unit github_result \<times> 's) \<Rightarrow> ('s \<Rightarrow> unit github_result \<times> 's) \<Rightarrow> nat \<Rightarrow> bool \<Rightarrow>
   github_world \<Rightarrow> 's \<Rightarrow> github_step \<times> github_world \<times> 's" where
  "github_attempt e c loads rq on_response on_attempt attempt final w s =
     (case on_attempt s of
        (Inl err, s1) \<Rightarrow> (GithubFinished (Inl err), w, s1)
      | (Inr _, s1) \<Rightarrow>
         (case wall_now e w of (requested_at, w1) \<Rightarrow>
         (let i = length (gw_calls w1);
              w2 = w1\<lparr>gw_calls := gw_calls w1 @ [(ghq_url rq, request_headers c rq)]\<rparr>
          in case ge_transport e i of
               GithubNoReply name \<Rightarrow>
                 (if final then
                    (GithubFinished (Inl (GithubTransportError (''GitHub request failed after '' @ show_nat attempt @
                       '' attempt(s): '' @ name))), w2, s1)
                  else (case backoff_us e attempt w2 of (d, w3) \<Rightarrow> (GithubSleep d, w3, s1)))
             | GithubBroken err \<Rightarrow> (GithubFinished (Inl (GithubRaised err)), w2, s1)
             | GithubReplied status headers payload final_url \<Rightarrow>
                 (case rate_limit_of headers of
                    Inl err \<Rightarrow> (GithubFinished (Inl (GithubRaised err)), w2, s1)
                  | Inr rate \<Rightarrow>
                      (let w3 = w2\<lparr>gw_budgets := remember_budget rate (gw_budgets w2)\<rparr>;
                           r = \<lparr>ghr_request = rq, ghr_status = status, ghr_headers = github_safe_headers headers,
                                ghr_payload = payload, ghr_requested_at = requested_at, ghr_final_url = final_url,
                                ghr_rate_limit = rate, ghr_attempts = attempt\<rparr>
                       in case on_response r s1 of
                            (Inl err, s2) \<Rightarrow> (GithubFinished (Inl err), w3, s2)
                          | (Inr _, s2) \<Rightarrow>
                              (case after_reply e c loads attempt final r w3 of (out, w4) \<Rightarrow> (out, w4, s2)))))))"

text \<open>The first argument is the number of attempts left.\<close>

fun github_loop ::
  "nat \<Rightarrow> github_env \<Rightarrow> github_client \<Rightarrow> (string \<Rightarrow> json option) \<Rightarrow> github_request \<Rightarrow>
   (github_response \<Rightarrow> 's \<Rightarrow> unit github_result \<times> 's) \<Rightarrow> ('s \<Rightarrow> unit github_result \<times> 's) \<Rightarrow>
   github_world \<Rightarrow> 's \<Rightarrow> github_response github_result \<times> github_world \<times> 's" where
  "github_loop 0 e c loads rq on_response on_attempt w s =
     (Inl (GithubRaised (AssertionError ''GitHub request loop ended unexpectedly'')), w, s)"
| "github_loop (Suc n) e c loads rq on_response on_attempt w s =
     (case github_attempt e c loads rq on_response on_attempt (gc_retry_attempts c - n) (n = 0) w s of
        (GithubFinished r, w1, s1) \<Rightarrow> (r, w1, s1)
      | (GithubSleep d, w1, s1) \<Rightarrow> github_loop n e c loads rq on_response on_attempt (sleep_us d w1) s1)"

definition resource_of :: "github_request \<Rightarrow> string" where
  "resource_of rq = (if ghq_endpoint rq = RepositorySearch then ''search'' else ''core'')"

definition floor_of :: "github_client \<Rightarrow> github_request \<Rightarrow> int" where
  "floor_of c rq = (if ghq_endpoint rq = RepositorySearch then gc_min_search_remaining c else gc_min_core_remaining c)"

definition github_get ::
  "github_env \<Rightarrow> github_client \<Rightarrow> (string \<Rightarrow> json option) \<Rightarrow> github_request \<Rightarrow>
   (github_response \<Rightarrow> 's \<Rightarrow> unit github_result \<times> 's) \<Rightarrow> ('s \<Rightarrow> unit github_result \<times> 's) \<Rightarrow>
   github_world \<Rightarrow> 's \<Rightarrow> github_response github_result \<times> github_world \<times> 's" where
  "github_get e c loads rq on_response on_attempt w s =
     (case require_floor (gw_budgets w) (resource_of rq) (floor_of c rq) of
        Inl err \<Rightarrow> (Inl err, w, s)
      | Inr _ \<Rightarrow> github_loop (gc_retry_attempts c) e c loads rq on_response on_attempt w s)"


section \<open>Links\<close>

text \<open>The pages of a search are linked by the header \<open>Link\<close>.\<close>

definition link_section :: "string \<Rightarrow> string list" where
  "link_section item = map strip (split_on CHR '';'' item)"

definition next_target :: "string \<Rightarrow> string option" where
  "next_target item =
     (case link_section item of
        target # parameters \<Rightarrow>
          (if ''rel='' @ [CHR 0x22] @ ''next'' @ [CHR 0x22] \<in> set parameters \<and>
              target \<noteq> [] \<and> hd target = CHR ''<'' \<and> last target = CHR ''>''
           then Some (butlast (tl target)) else None)
      | [] \<Rightarrow> None)"

definition next_link :: "(string, string) dict \<Rightarrow> string option" where
  "next_link headers =
     (case find (\<lambda>(key, value). casefold key = ''link'') headers of
        None \<Rightarrow> None
      | Some (key, link) \<Rightarrow>
          (case List.map_filter next_target (split_on CHR '','' link) of [] \<Rightarrow> None | url # _ \<Rightarrow> Some url))"


section \<open>What an attempt does\<close>

text \<open>A step of the world that calls nobody and does not sleep.\<close>

definition still :: "github_world \<Rightarrow> github_world \<Rightarrow> bool" where
  "still w w' = (gw_calls w' = gw_calls w \<and> gw_slept w' = gw_slept w \<and> gw_budgets w' = gw_budgets w)"

lemma still_refl [simp]: "still w w"
  by (simp add: still_def)

lemma still_trans [trans]: "still w w' \<Longrightarrow> still w' w'' \<Longrightarrow> still w w''"
  by (simp add: still_def)

lemma wall_now_still: "wall_now e w = (t, w') \<Longrightarrow> still w w'"
  by (auto simp: wall_now_def still_def)

lemma backoff_us_result:
  assumes "backoff_us e attempt w = (d, w')"
  shows "still w w'" "0 \<le> d" "d \<le> 30 * second_us + int (ge_jitter e (gw_jitters w))"
  using assms by (auto simp: backoff_us_def still_def)

lemma rate_wait_us_still: "rate_wait_us e r attempt w = (d, w') \<Longrightarrow> still w w'"
  by (auto simp: rate_wait_us_def dest: backoff_us_result wall_now_still split: option.splits if_splits prod.splits bool.splits)

lemma header_integer_ge: "header_integer v = Some n \<Longrightarrow> 0 \<le> n"
  by (auto simp: header_integer_def)

lemma rate_limit_of_retry: "rate_limit_of h = Inr r \<Longrightarrow> rl_retry_after r = Some n \<Longrightarrow> 0 \<le> n"
  by (auto simp: rate_limit_of_def Let_def dest: header_integer_ge split: sum.splits)

lemma rate_wait_us_ge:
  assumes "rate_wait_us e r attempt w = (Inr d, w')" "\<And>n. rl_retry_after (ghr_rate_limit r) = Some n \<Longrightarrow> 0 \<le> n"
  shows "0 \<le> d"
  using assms by (auto simp: rate_wait_us_def dest: backoff_us_result(2) split: option.splits if_splits prod.splits bool.splits)

lemma after_reply_still: "after_reply e c loads attempt final r w = (out, w') \<Longrightarrow> still w w'"
  by (auto simp: after_reply_def dest: backoff_us_result rate_wait_us_still split: if_splits prod.splits sum.splits)

lemma after_reply_finished:
  assumes "after_reply e c loads attempt final r w = (GithubFinished (Inr rsp), w')"
  shows "rsp = r \<and> (200 \<le> ghr_status r \<and> ghr_status r < 300 \<or> ghr_status r = 304)"
  using assms by (auto simp: after_reply_def split: if_splits prod.splits sum.splits)

lemma after_reply_sleep:
  assumes "after_reply e c loads attempt final r w = (GithubSleep d, w')"
    "\<And>n. rl_retry_after (ghr_rate_limit r) = Some n \<Longrightarrow> 0 \<le> n"
    "\<And>n. int (ge_jitter e n) \<le> second_us"
  shows "0 \<le> d \<and> d \<le> max (gc_max_wait c) (31 * second_us)"
proof -
  have b: "0 \<le> d \<and> d \<le> 31 * second_us" if "backoff_us e attempt w1 = (d, w2)" for w1 w2
    using backoff_us_result [OF that] assms(3) [of "gw_jitters w1"] by linarith
  from assms(1) consider (wait) w1 where "rate_wait_us e r attempt w = (Inr d, w1)" "d \<le> gc_max_wait c"
    | (backoff) w1 where "backoff_us e attempt w = (d, w1)"
    by (auto simp: after_reply_def split: if_splits prod.splits sum.splits)
  then show ?thesis
  proof cases
    case wait
    then show ?thesis using rate_wait_us_ge [OF wait(1) assms(2)] by simp
  next
    case backoff
    from b [OF this] show ?thesis by (simp add: le_max_iff_disj)
  qed
qed

text \<open>
  An attempt is refused by \<open>on_attempt\<close>, or it makes one transport call; then nothing usable comes back, or
  the reply is handed to \<open>on_response\<close> before anything else is decided.
\<close>

lemma github_attempt_cases:
  assumes run: "github_attempt e c loads rq on_response on_attempt a final w s = (out, w', s')"
  obtains (refused) err where "on_attempt s = (Inl err, s')" "out = GithubFinished (Inl err)" "w' = w"
  | (lost) u where "on_attempt s = (Inr u, s')"
      "gw_calls w' = gw_calls w @ [(ghq_url rq, request_headers c rq)]" "gw_slept w' = gw_slept w"
      "gw_budgets w' = gw_budgets w" "\<And>rsp. out \<noteq> GithubFinished (Inr rsp)"
      "\<And>d. out = GithubSleep d \<Longrightarrow> 0 \<le> d \<and> (\<exists>n. d \<le> 30 * second_us + int (ge_jitter e n))"
      "\<And>status headers payload url. ge_transport e (length (gw_calls w)) = GithubReplied status headers payload url \<Longrightarrow>
         \<not> is_ok (rate_limit_of headers)"
  | (answered) u s1 headers final_url rate rsp r2 where "on_attempt s = (Inr u, s1)"
      "gw_calls w' = gw_calls w @ [(ghq_url rq, request_headers c rq)]" "gw_slept w' = gw_slept w"
      "ge_transport e (length (gw_calls w)) = GithubReplied (ghr_status rsp) headers (ghr_payload rsp) final_url"
      "rate_limit_of headers = Inr rate" "ghr_rate_limit rsp = rate" "ghr_request rsp = rq"
      "gw_budgets w' = remember_budget rate (gw_budgets w)" "on_response rsp s1 = (r2, s')"
      "(\<exists>err. r2 = Inl err \<and> out = GithubFinished (Inl err)) \<or>
       (\<exists>w1. r2 = Inr () \<and> after_reply e c loads a final rsp w1 = (out, w'))"
proof -
  obtain r s1 where oa: "on_attempt s = (r, s1)" by (cases "on_attempt s")
  show ?thesis
  proof (cases r)
    case (Inl err)
    then show ?thesis using run oa by (intro refused) (auto simp: github_attempt_def)
  next
    case (Inr u)
    obtain t w1 where n: "wall_now e w = (t, w1)" by (cases "wall_now e w")
    have w1: "gw_calls w1 = gw_calls w" "gw_slept w1 = gw_slept w" "gw_budgets w1 = gw_budgets w"
      using wall_now_still [OF n] by (simp_all add: still_def)
    define w2 where "w2 = w1\<lparr>gw_calls := gw_calls w1 @ [(ghq_url rq, request_headers c rq)]\<rparr>"
    have w2: "gw_calls w2 = gw_calls w @ [(ghq_url rq, request_headers c rq)]" "gw_slept w2 = gw_slept w"
      "gw_budgets w2 = gw_budgets w" by (simp_all add: w2_def w1)
    have w2': "w1\<lparr>gw_calls := gw_calls w @ [(ghq_url rq, request_headers c rq)]\<rparr> = w2" by (simp add: w2_def w1)
    note step = run [unfolded github_attempt_def oa Inr prod.case sum.case n Let_def w1(1) w2']
    show ?thesis
    proof (cases "ge_transport e (length (gw_calls w))")
      case (GithubNoReply name)
      show ?thesis
      proof (cases final)
        case True
        then show ?thesis using step GithubNoReply oa Inr w2 by (intro lost [of u]) auto
      next
        case False
        obtain d w3 where b: "backoff_us e a w2 = (d, w3)" by (cases "backoff_us e a w2")
        have "out = GithubSleep d" "w' = w3" "s' = s1" using step GithubNoReply False b by simp_all
        then show ?thesis using oa Inr w2 backoff_us_result [OF b] GithubNoReply by (intro lost [of u]) (auto simp: still_def)
      qed
    next
      case (GithubBroken err)
      then show ?thesis using step oa Inr w2 by (intro lost [of u]) auto
    next
      case (GithubReplied status headers payload final_url)
      show ?thesis
      proof (cases "rate_limit_of headers")
        case (Inl err)
        then show ?thesis using step GithubReplied oa Inr w2 by (intro lost [of u]) (auto simp: Inl)
      next
        case rate: (Inr rate)
        define w3 where "w3 = w2\<lparr>gw_budgets := remember_budget rate (gw_budgets w2)\<rparr>"
        define rsp where "rsp = \<lparr>ghr_request = rq, ghr_status = status, ghr_headers = github_safe_headers headers,
            ghr_payload = payload, ghr_requested_at = t, ghr_final_url = final_url, ghr_rate_limit = rate,
            ghr_attempts = a\<rparr>"
        have w3: "gw_calls w3 = gw_calls w @ [(ghq_url rq, request_headers c rq)]" "gw_slept w3 = gw_slept w"
          "gw_budgets w3 = remember_budget rate (gw_budgets w)" by (simp_all add: w3_def w2)
        obtain r2 s2 where o: "on_response rsp s1 = (r2, s2)" by (cases "on_response rsp s1")
        note step2 = step [unfolded GithubReplied github_outcome.case rate sum.case, folded w3_def rsp_def, unfolded o prod.case]
        have "s' = s2 \<and> still w3 w' \<and> ((\<exists>err. r2 = Inl err \<and> out = GithubFinished (Inl err)) \<or>
            (\<exists>w1. r2 = Inr () \<and> after_reply e c loads a final rsp w1 = (out, w')))"
        proof (cases r2)
          case (Inl err)
          then show ?thesis using step2 by simp
        next
          case (Inr v)
          obtain out' w4 where ar: "after_reply e c loads a final rsp w3 = (out', w4)"
            by (cases "after_reply e c loads a final rsp w3")
          then have "out' = out" "w4 = w'" "s' = s2" using step2 Inr by simp_all
          then show ?thesis using ar Inr after_reply_still [OF ar] by auto
        qed
        then show ?thesis using oa Inr w3 GithubReplied rate o
          by (intro answered [of u s1 rsp headers final_url rate r2]) (auto simp: rsp_def still_def)
      qed
    qed
  qed
qed


section \<open>The interface of the retry loop\<close>

text \<open>
  A preorder on the caller's state and the world that every attempt respects, together with the sleep it
  asks for, is respected by the whole call.
\<close>

definition slept_after :: "github_step \<Rightarrow> github_world \<Rightarrow> github_world" where
  "slept_after out w = (case out of GithubFinished _ \<Rightarrow> w | GithubSleep d \<Rightarrow> sleep_us d w)"

locale github_callbacks =
  fixes e :: github_env and c :: github_client and loads :: "string \<Rightarrow> json option" and rq :: github_request
    and on_response :: "github_response \<Rightarrow> 's \<Rightarrow> unit github_result \<times> 's"
    and on_attempt :: "'s \<Rightarrow> unit github_result \<times> 's"
    and R :: "github_world \<times> 's \<Rightarrow> github_world \<times> 's \<Rightarrow> bool"
  assumes R_refl: "R z z"
    and R_trans: "R z z' \<Longrightarrow> R z' z'' \<Longrightarrow> R z z''"
    and R_attempt: "github_attempt e c loads rq on_response on_attempt a final w s = (out, w', s') \<Longrightarrow>
      R (w, s) (slept_after out w', s')"
begin

lemma github_loop_R: "github_loop n e c loads rq on_response on_attempt w s = (r, w', s') \<Longrightarrow> R (w, s) (w', s')"
proof (induction n arbitrary: w s)
  case 0
  then show ?case by (simp add: R_refl)
next
  case (Suc n)
  obtain out w1 s1 where o: "github_attempt e c loads rq on_response on_attempt (gc_retry_attempts c - n) (n = 0) w s = (out, w1, s1)"
    by (metis prod_cases3)
  note one = R_attempt [OF o]
  show ?case
  proof (cases out)
    case (GithubFinished q)
    then show ?thesis using Suc.prems o one by (simp add: slept_after_def)
  next
    case (GithubSleep d)
    have "github_loop n e c loads rq on_response on_attempt (sleep_us d w1) s1 = (r, w', s')"
      using Suc.prems o GithubSleep by simp
    from R_trans [OF one [unfolded GithubSleep slept_after_def github_step.case] Suc.IH [OF this]] show ?thesis .
  qed
qed

lemma github_get_R: "github_get e c loads rq on_response on_attempt w s = (r, w', s') \<Longrightarrow> R (w, s) (w', s')"
  by (auto simp: github_get_def R_refl split: sum.splits intro: github_loop_R)

end

text \<open>A successful call ends with an attempt whose response was recorded.\<close>

lemma github_loop_success:
  assumes "github_loop n e c loads rq on_response on_attempt w s = (Inr rsp, w', s')"
  shows "\<exists>s0 s1 u. on_attempt s0 = (Inr u, s1) \<and> on_response rsp s1 = (Inr (), s') \<and> ghr_request rsp = rq \<and>
     (200 \<le> ghr_status rsp \<and> ghr_status rsp < 300 \<or> ghr_status rsp = 304)"
  using assms
proof (induction n arbitrary: w s)
  case (Suc n)
  obtain out w1 s1 where o: "github_attempt e c loads rq on_response on_attempt (gc_retry_attempts c - n) (n = 0) w s = (out, w1, s1)"
    by (metis prod_cases3)
  show ?case
  proof (cases out)
    case (GithubSleep d)
    then show ?thesis using Suc o by simp
  next
    case (GithubFinished q)
    then have q: "out = GithubFinished (Inr rsp)" "s1 = s'" using Suc.prems o by simp_all
    from o show ?thesis
    proof (cases rule: github_attempt_cases)
      case (answered u s2 headers final_url rate rsp2 r2)
      then obtain w2 where r: "r2 = Inr ()" "after_reply e c loads (gc_retry_attempts c - n) (n = 0) rsp2 w2 = (out, w1)"
        using q(1) by auto
      from after_reply_finished [OF r(2) [unfolded q(1)]] answered(1,7,9) r(1) q(2) show ?thesis by blast
    qed (use q(1) in auto)
  qed
qed simp

text \<open>No call is made while the remembered budget is at or below the floor.\<close>

lemma github_get_floor:
  assumes "dict_get (gw_budgets w) (resource_of rq) = Some b" "rl_remaining b = Some n" "n \<le> floor_of c rq"
  shows "github_get e c loads rq on_response on_attempt w s =
    (Inl (GithubBudgetExhaustedError (resource_of rq) b), w, s)"
  using assms by (simp add: github_get_def require_floor_def)

end
