(* ===== verification/Github_Parser.thy ===== *)
theory Github_Parser
  imports Github_Models
begin

text \<open>
  \<open>github_collector/parser.py\<close>: from a JSON payload to validated repository values.  \<open>json.loads\<close> (\<open>None\<close> where
  it raises \<open>UnicodeDecodeError\<close> or \<open>JSONDecodeError\<close>) and \<open>datetime.fromisoformat\<close> (\<open>None\<close> where it raises
  \<open>ValueError\<close>) are parameters.  The texts of pydantic's errors are abbreviated to the name of the class.
\<close>


section \<open>Fields\<close>

definition json_field :: "jdict \<Rightarrow> string \<Rightarrow> json \<Rightarrow> json" where
  "json_field d key default_value = (case dict_get d key of None \<Rightarrow> default_value | Some v \<Rightarrow> v)"

definition required_field :: "jdict \<Rightarrow> string \<Rightarrow> json github_result" where
  "required_field d key =
     (case dict_get d key of None \<Rightarrow> Inl (GithubRaised (KeyError (repr_str key))) | Some v \<Rightarrow> Inr v)"

definition required_str :: "jdict \<Rightarrow> string \<Rightarrow> string github_result" where
  "required_str d key = github_bind (required_field d key) (\<lambda>v. Inr (py_str v))"

definition github_required_int :: "jdict \<Rightarrow> string \<Rightarrow> int github_result" where
  "github_required_int d key = github_bind (required_field d key) (\<lambda>v. github_lift (int_of_json v))"

text \<open>The instants of the years 1 to 9999.\<close>

definition representable :: "int \<Rightarrow> bool" where
  "representable t = (- 62135596800 * second_us \<le> t \<and> t < 253402300800 * second_us)"

definition github_datetime :: "(string \<Rightarrow> pydatetime option) \<Rightarrow> json \<Rightarrow> int github_result" where
  "github_datetime fromiso value =
     (case json_text value of
        None \<Rightarrow> Inl (GithubParseError ''required GitHub timestamp is missing'')
      | Some s \<Rightarrow>
          (let text = replace_char CHR ''Z'' ''+00:00'' s in
           case fromiso text of
             None \<Rightarrow> Inl (GithubRaised (ValueError (''Invalid isoformat string: '' @ repr_str text)))
           | Some parsed \<Rightarrow>
               (case utc_instant parsed of
                  None \<Rightarrow> Inl (GithubParseError ''GitHub timestamp must include a timezone'')
                | Some t \<Rightarrow> (if representable t then Inr t
                    else Inl (GithubRaised (OtherError ''OverflowError'' ''date value out of range''))))))"

definition github_required_datetime :: "(string \<Rightarrow> pydatetime option) \<Rightarrow> jdict \<Rightarrow> string \<Rightarrow> int github_result" where
  "github_required_datetime fromiso d key = github_bind (required_field d key) (github_datetime fromiso)"

definition github_optional_datetime :: "(string \<Rightarrow> pydatetime option) \<Rightarrow> json \<Rightarrow> int option github_result" where
  "github_optional_datetime fromiso value =
     (if value = JNull then Inr None else github_bind (github_datetime fromiso value) (\<lambda>t. Inr (Some t)))"

definition optional_string :: "json \<Rightarrow> string option" where
  "optional_string value =
     (if value = JNull then None else (let text = strip (py_str value) in if text = [] then None else Some text))"

definition int_of_str :: "json \<Rightarrow> int github_result" where
  "int_of_str value =
     (case int_of_text (py_str value) of
        None \<Rightarrow> Inl (GithubRaised (ValueError (''invalid literal for int() with base 10: '' @ repr_str (py_str value))))
      | Some n \<Rightarrow> Inr n)"

definition optional_int :: "json \<Rightarrow> int option github_result" where
  "optional_int value = (if value = JNull then Inr None else github_bind (int_of_str value) (\<lambda>n. Inr (Some n)))"

definition count_of :: "json \<Rightarrow> int github_result" where
  "count_of value = (if value = JNull then Inr 0 else int_of_str value)"

text \<open>\<open>x.get(key) if isinstance(x, dict) else None\<close>\<close>

definition nested_field :: "json \<Rightarrow> string \<Rightarrow> json" where
  "nested_field value key = (case value of JObj d \<Rightarrow> json_field d key JNull | _ \<Rightarrow> JNull)"


section \<open>A repository\<close>

definition validated_data :: "repository_data \<Rightarrow> repository_data github_result" where
  "validated_data d =
     (if repository_data_valid d then Inr d
      else Inl (GithubRaised (OtherError ''ValidationError'' ''GithubRepositoryData'')))"

definition repository_of_fields ::
  "(string \<Rightarrow> pydatetime option) \<Rightarrow> jdict \<Rightarrow> jdict \<Rightarrow> json list \<Rightarrow> repository_data github_result" where
  "repository_of_fields fromiso d owner topics =
     github_bind (github_required_int d ''id'') (\<lambda>github_id.
     github_bind (required_str d ''node_id'') (\<lambda>node_id.
     github_bind (required_str owner ''login'') (\<lambda>owner_login.
     github_bind (required_str d ''name'') (\<lambda>name.
     github_bind (required_str d ''full_name'') (\<lambda>full_name.
     github_bind (required_str d ''html_url'') (\<lambda>html_url.
     github_bind (required_str d ''url'') (\<lambda>api_url.
     github_bind (optional_int (nested_field (json_field d ''parent'' JNull) ''id'')) (\<lambda>fork_parent.
     github_bind (github_required_datetime fromiso d ''created_at'') (\<lambda>created_at.
     github_bind (github_required_datetime fromiso d ''updated_at'') (\<lambda>updated_at.
     github_bind (github_optional_datetime fromiso (json_field d ''pushed_at'' JNull)) (\<lambda>pushed_at.
     github_bind (count_of (json_field d ''stargazers_count'' JNull)) (\<lambda>stargazers.
     github_bind (count_of (json_field d ''forks_count'' (json_field d ''forks'' JNull))) (\<lambda>forks.
     github_bind (count_of (json_field d ''open_issues_count'' JNull)) (\<lambda>open_issues.
     github_bind (count_of (json_field d ''subscribers_count'' JNull)) (\<lambda>subscribers.
     github_bind (count_of (json_field d ''size'' JNull)) (\<lambda>size_kb.
       validated_data
         \<lparr>gd_github_id = github_id, gd_node_id = node_id, gd_owner_login = owner_login, gd_name = name,
          gd_full_name = full_name, gd_html_url = html_url, gd_api_url = api_url,
          gd_description = optional_string (json_field d ''description'' JNull),
          gd_homepage = optional_string (json_field d ''homepage'' JNull),
          gd_language = optional_string (json_field d ''language'' JNull),
          gd_default_branch = optional_string (json_field d ''default_branch'' JNull),
          gd_is_fork = py_bool (json_field d ''fork'' (JBool False)), gd_fork_parent_github_id = fork_parent,
          gd_archived = py_bool (json_field d ''archived'' (JBool False)),
          gd_disabled = py_bool (json_field d ''disabled'' (JBool False)),
          gd_visibility = py_str (json_field d ''visibility'' (JStr ''public'')),
          gd_created_at_github = created_at, gd_updated_at_github = updated_at, gd_pushed_at_github = pushed_at,
          gd_stargazers = stargazers, gd_forks = forks, gd_open_issues = open_issues,
          gd_subscribers = subscribers, gd_size_kb = size_kb, gd_topics = map py_str topics,
          gd_license_spdx = optional_string (nested_field (json_field d ''license'' JNull) ''spdx_id''),
          gd_metadata = [(''private'', JBool (py_bool (json_field d ''private'' (JBool False)))),
            (''has_issues'', JBool (py_bool (json_field d ''has_issues'' (JBool False)))),
            (''has_wiki'', JBool (py_bool (json_field d ''has_wiki'' (JBool False))))]\<rparr>))))))))))))))))"

definition repository_of :: "(string \<Rightarrow> pydatetime option) \<Rightarrow> json \<Rightarrow> repository_data github_result" where
  "repository_of fromiso value =
     (case value of
        JObj d \<Rightarrow>
          (case json_field d ''owner'' JNull of
             JObj owner \<Rightarrow>
               (case json_field d ''topics'' (JList []) of
                  JList topics \<Rightarrow> repository_of_fields fromiso d owner topics
                | _ \<Rightarrow> Inl (GithubParseError ''repository topics must be an array''))
           | _ \<Rightarrow> Inl (GithubParseError ''repository owner must be an object''))
      | _ \<Rightarrow> Inl (GithubParseError ''repository item must be an object''))"


section \<open>Payloads\<close>

text \<open>\<open>except (KeyError, TypeError, ValueError) as error\<close>\<close>

definition parse_guard :: "string \<Rightarrow> 'a github_result \<Rightarrow> 'a github_result" where
  "parse_guard prefix r =
     (case r of
        Inr x \<Rightarrow> Inr x
      | Inl e \<Rightarrow>
          (let caught = (is_value_error e \<or>
                 (case e of GithubRaised (KeyError _) \<Rightarrow> True | GithubRaised (TypeError _) \<Rightarrow> True | _ \<Rightarrow> False))
           in if caught then Inl (GithubParseError (prefix @ github_error_text e)) else Inl e))"

fun repositories_of :: "(string \<Rightarrow> pydatetime option) \<Rightarrow> json list \<Rightarrow> repository_data list github_result" where
  "repositories_of fromiso [] = Inr []"
| "repositories_of fromiso (v # vs) =
     github_bind (repository_of fromiso v) (\<lambda>r. github_bind (repositories_of fromiso vs) (\<lambda>rs. Inr (r # rs)))"

definition search_of :: "(string \<Rightarrow> pydatetime option) \<Rightarrow> jdict \<Rightarrow> json list \<Rightarrow> search_result github_result" where
  "search_of fromiso d items =
     github_bind (repositories_of fromiso items) (\<lambda>repositories.
     github_bind (github_required_int d ''total_count'') (\<lambda>total.
       (let r = \<lparr>sr_total_count = total,
              sr_incomplete_results = py_bool (json_field d ''incomplete_results'' (JBool False)),
              sr_repositories = repositories\<rparr>
        in if search_result_valid r then Inr r
           else Inl (GithubRaised (OtherError ''ValidationError'' ''GithubSearchResult'')))))"

definition loaded_json :: "(string \<Rightarrow> json option) \<Rightarrow> string \<Rightarrow> json github_result" where
  "loaded_json loads payload =
     (case loads payload of
        None \<Rightarrow> Inl (GithubParseError ''GitHub response is not valid UTF-8 JSON'')
      | Some v \<Rightarrow> Inr v)"

definition parse_search ::
  "(string \<Rightarrow> json option) \<Rightarrow> (string \<Rightarrow> pydatetime option) \<Rightarrow> string \<Rightarrow> search_result github_result" where
  "parse_search loads fromiso payload =
     github_bind (loaded_json loads payload) (\<lambda>value.
       (case value of
          JObj d \<Rightarrow>
            (case json_field d ''items'' JNull of
               JList items \<Rightarrow> parse_guard ''invalid GitHub search payload: '' (search_of fromiso d items)
             | _ \<Rightarrow> Inl (GithubParseError ''GitHub search payload must contain an items array''))
        | _ \<Rightarrow> Inl (GithubParseError ''GitHub search payload must contain an items array'')))"

definition parse_repository ::
  "(string \<Rightarrow> json option) \<Rightarrow> (string \<Rightarrow> pydatetime option) \<Rightarrow> string \<Rightarrow> repository_data github_result" where
  "parse_repository loads fromiso payload =
     github_bind (loaded_json loads payload) (\<lambda>value.
       (case value of
          JObj d \<Rightarrow> parse_guard ''invalid GitHub repository payload: '' (repository_of fromiso value)
        | _ \<Rightarrow> Inl (GithubParseError ''GitHub repository payload must be an object'')))"


section \<open>What the parser returns\<close>

lemma github_bind_Inl: "github_bind r f = Inl e \<longleftrightarrow> r = Inl e \<or> (\<exists>x. r = Inr x \<and> f x = Inl e)"
  by (cases r) auto

lemma parse_guard_Inr [simp]: "parse_guard prefix r = Inr x \<longleftrightarrow> r = Inr x"
  by (cases r) (auto simp: parse_guard_def Let_def)

lemma github_datetime_representable: "github_datetime fromiso v = Inr t \<Longrightarrow> representable t"
  by (auto simp: github_datetime_def Let_def split: option.splits if_splits)

text \<open>A value of the model class: counts are not negative and timestamps are instants of the calendar.\<close>

definition repository_data_ok :: "repository_data \<Rightarrow> bool" where
  "repository_data_ok d =
     (repository_data_valid d \<and> representable (gd_created_at_github d) \<and> representable (gd_updated_at_github d) \<and>
      (case gd_pushed_at_github d of None \<Rightarrow> True | Some t \<Rightarrow> representable t))"

lemma repository_of_fields_ok:
  assumes "repository_of_fields fromiso d owner topics = Inr r"
  shows "repository_data_ok r"
  using assms
  by (auto simp: repository_of_fields_def validated_data_def repository_data_ok_def github_required_datetime_def
      github_optional_datetime_def github_datetime_representable split: if_splits)

lemma repository_of_ok: "repository_of fromiso v = Inr r \<Longrightarrow> repository_data_ok r"
  by (auto simp: repository_of_def repository_of_fields_ok split: json.splits)

lemma parse_repository_Inr:
  "parse_repository loads fromiso payload = Inr r \<Longrightarrow>
     \<exists>d. loads payload = Some (JObj d) \<and> repository_of fromiso (JObj d) = Inr r"
  by (cases "loads payload"; cases "the (loads payload)") (simp_all add: parse_repository_def loaded_json_def)

lemma parse_repository_ok: "parse_repository loads fromiso payload = Inr r \<Longrightarrow> repository_data_ok r"
  using parse_repository_Inr repository_of_ok by blast

lemma parse_repository_valid: "parse_repository loads fromiso payload = Inr r \<Longrightarrow> repository_data_valid r"
  using parse_repository_ok by (simp add: repository_data_ok_def)

lemma repositories_of_ok: "repositories_of fromiso vs = Inr rs \<Longrightarrow> list_all repository_data_ok rs"
  by (induction vs arbitrary: rs) (auto simp: repository_of_ok)

lemma parse_search_Inr:
  assumes "parse_search loads fromiso payload = Inr r"
  shows "\<exists>d items. loads payload = Some (JObj d) \<and> json_field d ''items'' JNull = JList items \<and>
    search_of fromiso d items = Inr r"
proof (cases "loads payload")
  case (Some v)
  then obtain d where "v = JObj d" using assms by (cases v) (simp_all add: parse_search_def loaded_json_def)
  then show ?thesis using assms Some
    by (cases "json_field d ''items'' JNull") (simp_all add: parse_search_def loaded_json_def)
qed (use assms in \<open>simp add: parse_search_def loaded_json_def\<close>)

lemma parse_search_ok:
  assumes "parse_search loads fromiso payload = Inr r"
  shows "search_result_valid r \<and> list_all repository_data_ok (sr_repositories r)"
  using parse_search_Inr [OF assms] by (auto simp: search_of_def repositories_of_ok Let_def split: if_splits)


section \<open>Errors\<close>

text \<open>Whatever the payload holds, the parser raises \<open>GithubParseError\<close>; only a date out of range escapes it.\<close>

definition overflow_error :: "github_error \<Rightarrow> bool" where
  "overflow_error e = (\<exists>m. e = GithubRaised (OtherError ''OverflowError'' m))"

definition field_error :: "github_error \<Rightarrow> bool" where
  "field_error e =
     (is_value_error e \<or> overflow_error e \<or>
      (case e of GithubRaised (KeyError _) \<Rightarrow> True | GithubRaised (TypeError _) \<Rightarrow> True | _ \<Rightarrow> False))"

definition field_safe :: "'a github_result \<Rightarrow> bool" where
  "field_safe r = (\<forall>e. r = Inl e \<longrightarrow> field_error e)"

lemma field_safe_Inr [simp, intro]: "field_safe (Inr x)"
  by (simp add: field_safe_def)

lemma field_safe_Inl [simp]: "field_safe (Inl e) = field_error e"
  by (simp add: field_safe_def)

lemma field_safe_bind [intro]: "field_safe r \<Longrightarrow> (\<And>x. field_safe (f x)) \<Longrightarrow> field_safe (github_bind r f)"
  by (cases r) simp_all

lemma field_error_simps [simp]:
  "field_error (GithubParseError m)" "field_error (GithubRaised (ValueError m))" "field_error (GithubRaised (KeyError m))"
  "field_error (GithubRaised (TypeError m))" "field_error (GithubRaised (OtherError ''ValidationError'' m))"
  "field_error (GithubRaised (OtherError ''OverflowError'' m))"
  by (simp_all add: field_error_def overflow_error_def is_value_error_def)

lemma required_field_safe [intro]: "field_safe (required_field d k)"
  by (simp add: required_field_def split: option.split)

lemma github_datetime_safe [intro]: "field_safe (github_datetime fromiso v)"
  by (simp add: github_datetime_def Let_def split: option.split)

lemma int_of_str_safe [intro]: "field_safe (int_of_str v)"
  by (simp add: int_of_str_def split: option.split)

lemma int_of_json_safe [intro]: "field_safe (github_lift (int_of_json v))"
  by (cases v) (auto simp: int_of_json_def github_lift_def split: option.split)

lemma field_readers_safe [intro]:
  "field_safe (required_str d k)" "field_safe (github_required_int d k)" "field_safe (github_required_datetime fromiso d k)"
  "field_safe (github_optional_datetime fromiso v)" "field_safe (optional_int v)" "field_safe (count_of v)"
  by (auto simp: required_str_def github_required_int_def github_required_datetime_def github_optional_datetime_def optional_int_def count_of_def)

lemma repository_of_fields_safe [intro]: "field_safe (repository_of_fields fromiso d owner topics)"
  unfolding repository_of_fields_def
  by (intro field_safe_bind field_readers_safe) (simp add: validated_data_def)

lemma repository_of_safe [intro]: "field_safe (repository_of fromiso v)"
  by (auto simp: repository_of_def split: json.split)

lemma repositories_of_safe [intro]: "field_safe (repositories_of fromiso vs)"
  by (induction vs) auto

lemma search_of_safe [intro]: "field_safe (search_of fromiso d items)"
  unfolding search_of_def
  by (intro field_safe_bind repositories_of_safe field_readers_safe) (simp add: Let_def)

lemma parse_guard_error:
  assumes "parse_guard prefix r = Inl e" "field_safe r"
  shows "(\<exists>m. e = GithubParseError m) \<or> overflow_error e"
  using assms by (cases r) (auto simp: parse_guard_def Let_def field_error_def split: if_splits)

lemma parse_repository_error:
  assumes "parse_repository loads fromiso payload = Inl e"
  shows "(\<exists>m. e = GithubParseError m) \<or> overflow_error e"
proof (cases "loads payload")
  case (Some v)
  then show ?thesis using assms parse_guard_error [OF _ repository_of_safe]
    by (cases v) (auto simp: parse_repository_def loaded_json_def)
qed (use assms in \<open>auto simp: parse_repository_def loaded_json_def\<close>)

lemma parse_search_error:
  assumes "parse_search loads fromiso payload = Inl e"
  shows "(\<exists>m. e = GithubParseError m) \<or> overflow_error e"
proof (cases "loads payload")
  case (Some v)
  then show ?thesis using assms parse_guard_error [OF _ search_of_safe]
    by (cases v) (auto simp: parse_search_def loaded_json_def split: json.splits)
qed (use assms in \<open>auto simp: parse_search_def loaded_json_def\<close>)


end
