(* ===== verification/Github_Persistence.thy ===== *)
theory Github_Persistence
  imports Raw_Store Source_Models Github_Models
begin

text \<open>
  \<open>github_collector/persistence.py\<close>: the rows that a response leaves in the database.  An ORM object is the
  identity of its row, a \<open>select\<close> sees what was added before it (autoflush), so every change is made to the
  tables at once.  A new row gets an identity that no row of its table has.
\<close>

record github_db =
  gdb_raw :: "github_raw_response list"
  gdb_repositories :: "github_repository list"
  gdb_snapshots :: "github_snapshot list"
  gdb_matches :: "github_match list"
  gdb_polls :: "github_poll_state list"
  gdb_discovery :: "github_discovery_state list"

definition github_header :: "(string, string) dict \<Rightarrow> string \<Rightarrow> string option" where
  "github_header headers name = map_option snd (find (\<lambda>(key, value). casefold key = name) headers)"

text \<open>\<open>a or b\<close> for optional texts.\<close>

definition str_or :: "string option \<Rightarrow> string option \<Rightarrow> string option" where
  "str_or a b = (if a = None \<or> a = Some [] then b else a)"


section \<open>Raw responses\<close>

definition new_github_raw ::
  "codec \<Rightarrow> nat \<Rightarrow> mapping_row option \<Rightarrow> nat option \<Rightarrow> raw_record \<Rightarrow> github_response \<Rightarrow> string \<Rightarrow> nat \<Rightarrow>
   github_raw_response" where
  "new_github_raw cd run mapping repository raw r raw_path i =
     \<lparr>graw_id = i, graw_run_id = run, graw_repository_id = repository,
      graw_topic_id = map_option mapping_topic_id mapping, graw_mapping_id = map_option mapping_id mapping,
      graw_endpoint_type = endpoint_text (ghq_endpoint (ghr_request r)), graw_raw_path = raw_path,
      graw_checksum = md_sha256 (rr_metadata raw), graw_observed_at = ghr_requested_at r,
      graw_request_url_hash = cd_sha256 cd (ghq_url (ghr_request r)),
      graw_query_parameters = ghq_parameters (ghr_request r), graw_http_status = ghr_status r,
      graw_etag = github_header (ghr_headers r) ''etag'',
      graw_last_modified = github_header (ghr_headers r) ''last-modified'',
      graw_rate_limit = rl_limit (ghr_rate_limit r), graw_rate_remaining = rl_remaining (ghr_rate_limit r),
      graw_rate_reset_at = rl_reset_at (ghr_rate_limit r), graw_rate_resource = rl_resource (ghr_rate_limit r),
      graw_retry_after_seconds = rl_retry_after (ghr_rate_limit r),
      graw_response_headers = map (\<lambda>(k, v). (k, JStr v)) (ghr_headers r),
      graw_request_metadata =
        [(''collector_version'', JStr (md_collector_version (rr_metadata raw))),
         (''schema_version'', JStr (md_schema_version (rr_metadata raw))),
         (''attempt'', JInt (int (ghr_attempts r))),
         (''final_url_changed'', JBool (ghr_final_url r \<noteq> ghq_url (ghr_request r)))],
      graw_parse_error = None\<rparr>"

definition record_github_raw ::
  "string list \<Rightarrow> codec \<Rightarrow> nat \<Rightarrow> mapping_row option \<Rightarrow> nat option \<Rightarrow> raw_record \<Rightarrow> github_response \<Rightarrow> github_db \<Rightarrow>
   nat result \<times> github_db" where
  "record_github_raw root cd run mapping repository raw r db =
     (case raw_path_of root raw of
        Inl e \<Rightarrow> (Inl e, db)
      | Inr raw_path \<Rightarrow>
          (case find (\<lambda>row. graw_raw_path row = raw_path) (gdb_raw db) of
             Some row \<Rightarrow> (Inr (graw_id row), db)
           | None \<Rightarrow>
               (let i = fresh_id (map graw_id (gdb_raw db)) in
                (Inr i, db\<lparr>gdb_raw := gdb_raw db @ [new_github_raw cd run mapping repository raw r raw_path i]\<rparr>))))"

definition github_raw_row :: "nat \<Rightarrow> github_db \<Rightarrow> github_raw_response option" where
  "github_raw_row i db = find (\<lambda>row. graw_id row = i) (gdb_raw db)"

definition record_github_parse_error :: "nat \<Rightarrow> github_error \<Rightarrow> github_db \<Rightarrow> github_db" where
  "record_github_parse_error i err db =
     db\<lparr>gdb_raw := map (\<lambda>row. if graw_id row = i then
          row\<lparr>graw_parse_error := Some (github_error_name err @ '': '' @ github_error_text err)\<rparr> else row) (gdb_raw db)\<rparr>"


section \<open>Repositories\<close>

definition repository_values :: "repository_data \<Rightarrow> github_repository \<Rightarrow> github_repository" where
  "repository_values d r =
     r\<lparr>repo_node_id := gd_node_id d, repo_owner_login := gd_owner_login d, repo_name := gd_name d,
       repo_full_name := gd_full_name d, repo_html_url := gd_html_url d, repo_api_url := gd_api_url d,
       repo_description := gd_description d, repo_homepage := gd_homepage d, repo_language := gd_language d,
       repo_default_branch := gd_default_branch d, repo_is_fork := gd_is_fork d,
       repo_fork_parent_github_id := gd_fork_parent_github_id d, repo_archived := gd_archived d,
       repo_disabled := gd_disabled d, repo_visibility := gd_visibility d,
       repo_created_at_github := gd_created_at_github d, repo_updated_at_github := gd_updated_at_github d,
       repo_pushed_at_github := gd_pushed_at_github d, repo_metadata := gd_metadata d\<rparr>"

definition blank_repository :: "nat \<Rightarrow> int \<Rightarrow> int \<Rightarrow> github_repository" where
  "blank_repository i github_id observed_at =
     \<lparr>repo_id = i, repo_github_id = github_id, repo_node_id = [], repo_owner_login = [], repo_name = [],
      repo_full_name = [], repo_html_url = [], repo_api_url = [], repo_description = None, repo_homepage = None,
      repo_language = None, repo_default_branch = None, repo_is_fork = False, repo_fork_parent_github_id = None,
      repo_archived = False, repo_disabled = False, repo_visibility = [], repo_created_at_github = 0,
      repo_updated_at_github = 0, repo_pushed_at_github = None, repo_first_observed_at = observed_at,
      repo_last_observed_at = observed_at, repo_metadata = []\<rparr>"

definition upsert_repository :: "repository_data \<Rightarrow> int \<Rightarrow> github_db \<Rightarrow> (nat \<times> bool) \<times> github_db" where
  "upsert_repository d observed_at db =
     (case find (\<lambda>r. repo_github_id r = gd_github_id d) (gdb_repositories db) of
        None \<Rightarrow>
          (let i = fresh_id (map repo_id (gdb_repositories db)) in
           ((i, True), db\<lparr>gdb_repositories := gdb_repositories db @
              [repository_values d (blank_repository i (gd_github_id d) observed_at)]\<rparr>))
      | Some old \<Rightarrow>
          ((repo_id old, False), db\<lparr>gdb_repositories := map (\<lambda>r. if repo_id r = repo_id old then
              (repository_values d r)\<lparr>repo_last_observed_at := max (repo_last_observed_at r) observed_at\<rparr> else r)
              (gdb_repositories db)\<rparr>))"

definition repository_row :: "nat \<Rightarrow> github_db \<Rightarrow> github_repository option" where
  "repository_row i db = find (\<lambda>r. repo_id r = i) (gdb_repositories db)"


section \<open>Matches\<close>

definition raw_reference :: "nat \<Rightarrow> jdict" where
  "raw_reference i = [(''raw_response_id'', JStr (show_nat i))]"

definition upsert_github_match ::
  "nat \<Rightarrow> mapping_row \<Rightarrow> string \<Rightarrow> int \<Rightarrow> nat \<Rightarrow> int \<Rightarrow> tracking_state \<Rightarrow> nat \<Rightarrow> github_db \<Rightarrow> bool \<times> github_db" where
  "upsert_github_match repository m query rank run observed_at tracking raw db =
     (case find (\<lambda>x. gmatch_topic_id x = mapping_topic_id m \<and> gmatch_repository_id x = repository \<and>
               gmatch_mapping_id x = mapping_id m \<and> gmatch_query x = query) (gdb_matches db) of
        None \<Rightarrow>
          (True, db\<lparr>gdb_matches := gdb_matches db @
             [\<lparr>gmatch_id = fresh_id (map gmatch_id (gdb_matches db)), gmatch_topic_id = mapping_topic_id m,
               gmatch_repository_id = repository, gmatch_mapping_id = mapping_id m, gmatch_query = query,
               gmatch_rank = rank, gmatch_first_at = observed_at, gmatch_last_at = observed_at,
               gmatch_first_run_id = run, gmatch_last_run_id = run, gmatch_tracking = tracking,
               gmatch_metadata = raw_reference raw\<rparr>]\<rparr>)
      | Some old \<Rightarrow>
          (False, db\<lparr>gdb_matches := map (\<lambda>x. if gmatch_id x = gmatch_id old then
             x\<lparr>gmatch_last_at := max (gmatch_last_at x) observed_at, gmatch_last_run_id := run,
               gmatch_rank := min (gmatch_rank x) rank,
               gmatch_tracking := (if gmatch_tracking x \<noteq> Ignored then tracking else gmatch_tracking x),
               gmatch_metadata := raw_reference raw\<rparr> else x) (gdb_matches db)\<rparr>))"


section \<open>Poll states\<close>

definition blank_poll :: "nat \<Rightarrow> nat \<Rightarrow> github_poll_state" where
  "blank_poll i repository =
     \<lparr>poll_id = i, poll_repository_id = repository, poll_last_checked_at = None, poll_last_successful_at = None,
      poll_last_snapshot_at = None, poll_etag = None, poll_last_modified = None, poll_last_status = None,
      poll_consecutive_failures = 0, poll_next_eligible_at = None, poll_last_error = None\<rparr>"

definition poll_of :: "nat \<Rightarrow> github_db \<Rightarrow> github_poll_state option" where
  "poll_of repository db = find (\<lambda>p. poll_repository_id p = repository) (gdb_polls db)"

definition ensure_poll :: "nat \<Rightarrow> github_db \<Rightarrow> github_db" where
  "ensure_poll repository db =
     (case poll_of repository db of
        Some _ \<Rightarrow> db
      | None \<Rightarrow> db\<lparr>gdb_polls := gdb_polls db @ [blank_poll (fresh_id (map poll_id (gdb_polls db))) repository]\<rparr>)"

definition update_poll :: "nat \<Rightarrow> (github_poll_state \<Rightarrow> github_poll_state) \<Rightarrow> github_db \<Rightarrow> github_db" where
  "update_poll repository f db =
     (let db' = ensure_poll repository db in
      db'\<lparr>gdb_polls := map (\<lambda>p. if poll_repository_id p = repository then f p else p) (gdb_polls db')\<rparr>)"

definition mark_poll_success :: "nat \<Rightarrow> int \<Rightarrow> github_snapshot \<Rightarrow> github_raw_response \<Rightarrow> github_db \<Rightarrow> github_db" where
  "mark_poll_success repository observed_at s raw db =
     update_poll repository (\<lambda>p. p\<lparr>poll_last_checked_at := Some observed_at,
       poll_last_successful_at := Some observed_at, poll_last_snapshot_at := Some (snap_observed_at s),
       poll_etag := str_or (graw_etag raw) (snap_etag s), poll_last_modified := graw_last_modified raw,
       poll_last_status := Some (graw_http_status raw), poll_consecutive_failures := 0,
       poll_next_eligible_at := None, poll_last_error := None\<rparr>) db"

definition mark_poll_failure ::
  "nat \<Rightarrow> int \<Rightarrow> int option \<Rightarrow> github_error \<Rightarrow> int option \<Rightarrow> github_db \<Rightarrow> github_db" where
  "mark_poll_failure repository observed_at status err next_eligible_at db =
     update_poll repository (\<lambda>p. p\<lparr>poll_last_checked_at := Some observed_at, poll_last_status := status,
       poll_consecutive_failures := poll_consecutive_failures p + 1, poll_next_eligible_at := next_eligible_at,
       poll_last_error := Some (github_error_name err @ '': '' @ github_error_text err)\<rparr>) db"


section \<open>Snapshots\<close>

definition daily_snapshot :: "nat \<Rightarrow> int \<Rightarrow> github_db \<Rightarrow> github_snapshot option" where
  "daily_snapshot repository day db =
     find (\<lambda>s. snap_repository_id s = repository \<and> snap_date s = day) (gdb_snapshots db)"

definition add_snapshot :: "github_snapshot \<Rightarrow> github_db \<Rightarrow> github_db" where
  "add_snapshot s db = db\<lparr>gdb_snapshots := gdb_snapshots db @ [s]\<rparr>"

definition full_snapshot ::
  "nat \<Rightarrow> repository_data \<Rightarrow> nat \<Rightarrow> github_raw_response \<Rightarrow> int \<Rightarrow> string option \<Rightarrow> nat \<Rightarrow> github_snapshot" where
  "full_snapshot repository d run raw observed_at etag i =
     \<lparr>snap_id = i, snap_repository_id = repository, snap_observed_at = observed_at, snap_date = date_of observed_at,
      snap_full_name = gd_full_name d, snap_stargazers = gd_stargazers d, snap_forks = gd_forks d,
      snap_open_issues = gd_open_issues d, snap_subscribers = gd_subscribers d, snap_size_kb = gd_size_kb d,
      snap_language = gd_language d, snap_archived = gd_archived d, snap_disabled = gd_disabled d,
      snap_default_branch = gd_default_branch d, snap_pushed_at = gd_pushed_at_github d,
      snap_updated_at_github = gd_updated_at_github d, snap_topics = gd_topics d,
      snap_license_spdx = gd_license_spdx d, snap_run_id = run, snap_raw_id = graw_id raw,
      snap_method = Full200, snap_etag = etag\<rparr>"

definition create_full_snapshot ::
  "nat \<Rightarrow> repository_data \<Rightarrow> nat \<Rightarrow> github_raw_response \<Rightarrow> int \<Rightarrow> string option \<Rightarrow> github_db \<Rightarrow> bool \<times> github_db" where
  "create_full_snapshot repository d run raw observed_at etag db =
     (case daily_snapshot repository (date_of observed_at) db of
        Some existing \<Rightarrow> (False, mark_poll_success repository observed_at existing raw db)
      | None \<Rightarrow>
          (let s = full_snapshot repository d run raw observed_at etag (fresh_id (map snap_id (gdb_snapshots db)))
           in (True, mark_poll_success repository observed_at s raw (add_snapshot s db))))"

definition unchanged_snapshot ::
  "github_repository \<Rightarrow> github_snapshot \<Rightarrow> nat \<Rightarrow> github_raw_response \<Rightarrow> int \<Rightarrow> nat \<Rightarrow> github_snapshot" where
  "unchanged_snapshot repository previous run raw observed_at i =
     previous\<lparr>snap_id := i, snap_repository_id := repo_id repository, snap_observed_at := observed_at,
       snap_date := date_of observed_at, snap_full_name := repo_full_name repository, snap_run_id := run,
       snap_raw_id := graw_id raw, snap_method := Conditional304,
       snap_etag := str_or (graw_etag raw) (snap_etag previous)\<rparr>"

definition create_unchanged_snapshot ::
  "github_repository \<Rightarrow> nat \<Rightarrow> github_raw_response \<Rightarrow> int \<Rightarrow> github_db \<Rightarrow> bool result \<times> github_db" where
  "create_unchanged_snapshot repository run raw observed_at db =
     (case daily_snapshot (repo_id repository) (date_of observed_at) db of
        Some existing \<Rightarrow> (Inr False, mark_poll_success (repo_id repository) observed_at existing raw db)
      | None \<Rightarrow>
          (case latest_by snap_observed_at
                  (filter (\<lambda>s. snap_repository_id s = repo_id repository) (gdb_snapshots db)) of
             None \<Rightarrow> (Inl (ValueError ''GitHub returned 304 before a baseline snapshot exists''), db)
           | Some previous \<Rightarrow>
               (let s = unchanged_snapshot repository previous run raw observed_at
                      (fresh_id (map snap_id (gdb_snapshots db)))
                in (Inr True, mark_poll_success (repo_id repository) observed_at s raw (add_snapshot s db)))))"

end
