(* ===== verification/Github_Service.thy ===== *)
theory Github_Service
  imports Github_Query Github_Client Github_Parser Github_Persistence
begin

text \<open>
  \<open>github_collector/service.py\<close>, the work on one mapping (\<open>_discover_mapping\<close>) and on one repository
  (\<open>_snapshot_repository\<close>), with the two callbacks that they hand to the client.  The runs built from them
  are in \<open>Github_Run\<close>.

  The state is what the session sees; an exception that escapes may leave it with rows that were flushed
  and not committed.  The service and its client read one wall clock.  Identifiers in JSON texts are
  rendered as decimal numbers.
\<close>


section \<open>Settings and state\<close>

record github_settings =
  hs_api_base_url :: string
  hs_page_size :: int
  hs_max_results :: int
  hs_max_requests :: int
  hs_conditional :: bool
  hs_max_runtime_minutes :: int
  hs_track_forks :: bool
  hs_snapshot_due_hours :: int
  hs_discovery_due_days :: int
  hs_concurrency :: int
  hs_require_auth :: bool
  hs_allow_anonymous :: bool
  hs_client :: github_client \<comment> \<open>the settings that the client is built from\<close>
  hs_raw_root :: "string list"

record github_externals =
  gx_env :: github_env
  gx_codec :: codec
  gx_loads :: "string \<Rightarrow> json option"
  gx_fromiso :: "string \<Rightarrow> pydatetime option"
  gx_fault :: "nat \<Rightarrow> write_fault"

record github_acc =
  ga_topics_considered :: int
  ga_mappings_executed :: int
  ga_requests_sent :: int
  ga_raw_payloads :: int
  ga_repositories_received :: int
  ga_repository_ids :: "int list"
  ga_new_repositories :: int
  ga_existing_repositories :: int
  ga_matches_added :: int
  ga_fork_count :: int
  ga_archived_count :: int
  ga_repositories_due :: int
  ga_responses_200 :: int
  ga_responses_304 :: int
  ga_responses_404 :: int
  ga_rate_limited :: int
  ga_snapshots_created :: int
  ga_unchanged :: int
  ga_failed_items :: int
  ga_rate_pauses :: int
  ga_errors :: int
  ga_planned_queries :: "json list"

definition new_github_acc :: github_acc where
  "new_github_acc =
     \<lparr>ga_topics_considered = 0, ga_mappings_executed = 0, ga_requests_sent = 0, ga_raw_payloads = 0,
      ga_repositories_received = 0, ga_repository_ids = [], ga_new_repositories = 0, ga_existing_repositories = 0,
      ga_matches_added = 0, ga_fork_count = 0, ga_archived_count = 0, ga_repositories_due = 0,
      ga_responses_200 = 0, ga_responses_304 = 0, ga_responses_404 = 0, ga_rate_limited = 0,
      ga_snapshots_created = 0, ga_unchanged = 0, ga_failed_items = 0, ga_rate_pauses = 0, ga_errors = 0,
      ga_planned_queries = []\<rparr>"

record github_state =
  gs_db :: github_db
  gs_files :: raw_files
  gs_writes :: nat \<comment> \<open>writes of the raw store so far, to index its faults\<close>
  gs_runs :: "ingestion_run list"
  gs_errors :: "ingestion_error_row list"
  gs_checks :: "quality_check_row list"
  gs_acc :: github_acc

definition on_acc :: "(github_acc \<Rightarrow> github_acc) \<Rightarrow> github_state \<Rightarrow> github_state" where
  "on_acc f s = s\<lparr>gs_acc := f (gs_acc s)\<rparr>"

definition on_db :: "(github_db \<Rightarrow> github_db) \<Rightarrow> github_state \<Rightarrow> github_state" where
  "on_db f s = s\<lparr>gs_db := f (gs_db s)\<rparr>"


section \<open>The callbacks of the client\<close>

text \<open>The state that the callbacks act on: the service's and the last element of \<open>raw_responses\<close>.\<close>

type_synonym github_page_state = "github_state \<times> nat option"

definition github_collector_version :: string where
  "github_collector_version = ''0.1.0''"

definition github_schema_version :: string where
  "github_schema_version = ''1''"

text \<open>\<open>rate_limit.model_dump(mode="json")\<close>\<close>

definition rate_limit_json :: "github_rate_limit \<Rightarrow> json" where
  "rate_limit_json r = JObj
     [(''resource'', jopt JStr (rl_resource r)), (''limit'', jopt JInt (rl_limit r)),
      (''remaining'', jopt JInt (rl_remaining r)), (''reset_at'', jopt (\<lambda>t. JStr (iso_zulu t)) (rl_reset_at r)),
      (''retry_after_seconds'', jopt JInt (rl_retry_after r))]"

definition github_raw_request :: "codec \<Rightarrow> github_response \<Rightarrow> write_request" where
  "github_raw_request cd r =
     \<lparr>wr_source = ''github'', wr_payload = ghr_payload r, wr_request_timestamp = utc (ghr_requested_at r),
      wr_collector_version = github_collector_version, wr_schema_version = github_schema_version,
      wr_source_metadata =
        [(''endpoint_type'', JStr (endpoint_text (ghq_endpoint (ghr_request r)))),
         (''request_url_hash'', JStr (cd_sha256 cd (ghq_url (ghr_request r)))),
         (''query_parameters'', JObj (ghq_parameters (ghr_request r))),
         (''github_repository_id'', jopt JInt (ghq_repository_id (ghr_request r))),
         (''http_status'', JInt (ghr_status r)), (''etag'', jopt JStr (github_header (ghr_headers r) ''etag'')),
         (''last_modified'', jopt JStr (github_header (ghr_headers r) ''last-modified'')),
         (''rate_limit'', rate_limit_json (ghr_rate_limit r)),
         (''response_headers'', JObj (map (\<lambda>(k, v). (k, JStr v)) (ghr_headers r)))]\<rparr>"

definition count_response :: "github_response \<Rightarrow> github_acc \<Rightarrow> github_acc" where
  "count_response r a =
     (let refused = ghr_status r \<in> {403, 429} in
      a\<lparr>ga_raw_payloads := ga_raw_payloads a + 1,
        ga_responses_200 := ga_responses_200 a + bool_int (ghr_status r = 200),
        ga_responses_304 := ga_responses_304 a + bool_int (ghr_status r = 304),
        ga_responses_404 := ga_responses_404 a + bool_int (ghr_status r = 404),
        ga_rate_limited := ga_rate_limited a + bool_int refused,
        ga_rate_pauses := ga_rate_pauses a + bool_int (refused \<and>
          (rl_retry_after (ghr_rate_limit r) \<noteq> None \<or> rl_remaining (ghr_rate_limit r) = Some 0))\<rparr>)"

definition preserve_github ::
  "github_settings \<Rightarrow> github_externals \<Rightarrow> nat \<Rightarrow> mapping_row option \<Rightarrow> nat option \<Rightarrow> github_response \<Rightarrow>
   github_page_state \<Rightarrow> unit github_result \<times> github_page_state" where
  "preserve_github st x run mapping repository r ps =
     (case ps of (s, raw) \<Rightarrow>
     (case raw_write (gx_codec x) (gx_fault x (gs_writes s)) (github_raw_request (gx_codec x) r) (gs_files s) of
        (Inl err, files) \<Rightarrow> (Inl (GithubRaised err), (s\<lparr>gs_files := files, gs_writes := Suc (gs_writes s)\<rparr>, raw))
      | (Inr record, files) \<Rightarrow>
          (let s1 = s\<lparr>gs_files := files, gs_writes := Suc (gs_writes s)\<rparr> in
           case record_github_raw (hs_raw_root st) (gx_codec x) run mapping repository record r (gs_db s1) of
             (Inl err, db) \<Rightarrow> (Inl (GithubRaised err), (s1, raw))
           | (Inr i, db) \<Rightarrow> (Inr (), (on_acc (count_response r) (s1\<lparr>gs_db := db\<rparr>), Some i)))))"

definition count_github_attempt :: "int \<Rightarrow> github_page_state \<Rightarrow> unit github_result \<times> github_page_state" where
  "count_github_attempt request_cap ps =
     (case ps of (s, raw) \<Rightarrow>
        if ga_requests_sent (gs_acc s) \<ge> request_cap then (Inl GithubRequestLimitReached, ps)
        else (Inr (), (on_acc (\<lambda>a. a\<lparr>ga_requests_sent := ga_requests_sent a + 1\<rparr>) s, raw)))"

text \<open>One request of the service, with its two callbacks.\<close>

record github_run =
  gr_run :: nat
  gr_client :: github_client
  gr_request_cap :: int

definition fetch ::
  "github_settings \<Rightarrow> github_externals \<Rightarrow> github_run \<Rightarrow> mapping_row option \<Rightarrow> nat option \<Rightarrow> github_request \<Rightarrow>
   github_world \<Rightarrow> github_state \<Rightarrow> github_response github_result \<times> github_world \<times> github_page_state" where
  "fetch st x ro mapping repository rq w s =
     github_get (gx_env x) (gr_client ro) (gx_loads x) rq (preserve_github st x (gr_run ro) mapping repository)
       (count_github_attempt (gr_request_cap ro)) w (s, None)"


section \<open>Discovery for one mapping\<close>

definition blank_discovery :: "nat \<Rightarrow> mapping_row \<Rightarrow> github_discovery_state" where
  "blank_discovery i m =
     \<lparr>disc_id = i, disc_topic_id = mapping_topic_id m, disc_mapping_id = mapping_id m, disc_status = OpPending,
      disc_last_checked_at = None, disc_last_successful_at = None, disc_next_eligible_at = None,
      disc_last_run_id = None, disc_last_error = None, disc_metadata = []\<rparr>"

definition discovery_state :: "mapping_row \<Rightarrow> github_db \<Rightarrow> github_db" where
  "discovery_state m db =
     (if find (\<lambda>d. disc_mapping_id d = mapping_id m) (gdb_discovery db) \<noteq> None then db
      else db\<lparr>gdb_discovery := gdb_discovery db @
        [blank_discovery (fresh_id (map disc_id (gdb_discovery db))) m]\<rparr>)"

definition update_discovery ::
  "mapping_row \<Rightarrow> (github_discovery_state \<Rightarrow> github_discovery_state) \<Rightarrow> github_db \<Rightarrow> github_db" where
  "update_discovery m f db =
     (let db' = discovery_state m db in
      db'\<lparr>gdb_discovery := map (\<lambda>d. if disc_mapping_id d = mapping_id m then f d else d) (gdb_discovery db')\<rparr>)"

definition tracking_of :: "github_settings \<Rightarrow> repository_data \<Rightarrow> tracking_state" where
  "tracking_of st d =
     (if gd_archived d \<or> gd_disabled d then Candidate
      else if gd_is_fork d \<and> \<not> hs_track_forks st then Candidate else Tracked)"

definition count_repository :: "repository_data \<Rightarrow> github_acc \<Rightarrow> github_acc" where
  "count_repository d a =
     a\<lparr>ga_repositories_received := ga_repositories_received a + 1,
       ga_repository_ids := List.insert (gd_github_id d) (ga_repository_ids a),
       ga_fork_count := ga_fork_count a + bool_int (gd_is_fork d),
       ga_archived_count := ga_archived_count a + bool_int (gd_archived d \<or> gd_disabled d)\<rparr>"

definition count_upsert :: "bool \<Rightarrow> bool \<Rightarrow> github_acc \<Rightarrow> github_acc" where
  "count_upsert created added a =
     a\<lparr>ga_new_repositories := ga_new_repositories a + bool_int created,
       ga_existing_repositories := ga_existing_repositories a + bool_int (\<not> created),
       ga_matches_added := ga_matches_added a + bool_int added\<rparr>"

definition persist_repository ::
  "github_settings \<Rightarrow> nat \<Rightarrow> mapping_row \<Rightarrow> string \<Rightarrow> int \<Rightarrow> nat \<Rightarrow> int \<Rightarrow> repository_data \<Rightarrow> github_state \<Rightarrow>
   github_state" where
  "persist_repository st run m query requested_at raw rank d s =
     (case upsert_repository d requested_at (gs_db s) of
        ((repository, created), db1) \<Rightarrow>
          (case upsert_github_match repository m query rank run requested_at (tracking_of st d) raw db1 of
             (added, db2) \<Rightarrow> on_acc (\<lambda>a. count_upsert created added (count_repository d a)) (s\<lparr>gs_db := db2\<rparr>)))"

fun persist_repositories ::
  "github_settings \<Rightarrow> nat \<Rightarrow> mapping_row \<Rightarrow> string \<Rightarrow> int \<Rightarrow> nat \<Rightarrow> int \<Rightarrow> repository_data list \<Rightarrow> github_state \<Rightarrow>
   github_state" where
  "persist_repositories st run m query requested_at raw received [] s = s"
| "persist_repositories st run m query requested_at raw received (d # ds) s =
     persist_repositories st run m query requested_at raw (received + 1) ds
       (persist_repository st run m query requested_at raw (received + 1) d s)"

text \<open>
  One turn of the loop over pages: it raises, or it ends with the next URL and the number of repositories
  received for the mapping so far.
\<close>

definition discover_page ::
  "github_settings \<Rightarrow> github_externals \<Rightarrow> github_run \<Rightarrow> mapping_row \<Rightarrow> int \<Rightarrow> string \<Rightarrow> jdict \<Rightarrow> string \<Rightarrow> int \<Rightarrow>
   github_world \<Rightarrow> github_state \<Rightarrow> (string option \<times> int) github_result \<times> github_world \<times> github_state" where
  "discover_page st x ro m result_cap query parameters url received w s =
     (case fetch st x ro (Some m) None
            \<lparr>ghq_endpoint = RepositorySearch, ghq_url = url, ghq_parameters = parameters, ghq_repository_id = None,
             ghq_etag = None\<rparr> w s of
        (Inl err, w1, (s1, _)) \<Rightarrow> (Inl err, w1, s1)
      | (Inr r, w1, (s1, raw)) \<Rightarrow>
          (if ghr_status r \<noteq> 200 then (Inl (GithubHTTPError r), w1, s1)
           else (case parse_search (gx_loads x) (gx_fromiso x) (ghr_payload r) of
                   Inl err \<Rightarrow>
                     (Inl err, w1, (case err of GithubParseError _ \<Rightarrow> on_db (record_github_parse_error (the raw) err) s1
                                    | _ \<Rightarrow> s1))
                 | Inr parsed \<Rightarrow>
                     (let page = take (nat (result_cap - received)) (sr_repositories parsed) in
                      (Inr (if page = [] then None else next_link (ghr_headers r), received + int (length page)), w1,
                       persist_repositories st (gr_run ro) m query (ghr_requested_at r) (the raw) received page s1)))))"

lemma discover_page_received:
  assumes "discover_page st x ro m result_cap query parameters url received w s = (Inr (next_url, received'), w', s')"
  shows "received \<le> received' \<and> (next_url \<noteq> None \<longrightarrow> received < received')"
  using assms by (auto simp: discover_page_def Let_def split: sum.splits prod.splits if_splits)

text \<open>The loop ends because a turn that is followed by another one has received a repository.\<close>

function discover_pages ::
  "github_settings \<Rightarrow> github_externals \<Rightarrow> github_run \<Rightarrow> mapping_row \<Rightarrow> int \<Rightarrow> string \<Rightarrow> jdict \<Rightarrow> string option \<Rightarrow> int \<Rightarrow>
   github_world \<Rightarrow> github_state \<Rightarrow> int github_result \<times> github_world \<times> github_state" where
  "discover_pages st x ro m result_cap query parameters next_url received w s =
     (case next_url of
        None \<Rightarrow> (Inr received, w, s)
      | Some url \<Rightarrow>
          (if received \<ge> result_cap then (Inr received, w, s)
           else (case discover_page st x ro m result_cap query parameters url received w s of
                   (Inl err, w1, s1) \<Rightarrow> (Inl err, w1, s1)
                 | (Inr (next_url', received'), w1, s1) \<Rightarrow>
                     discover_pages st x ro m result_cap query parameters next_url' received' w1 s1)))"
  by pat_completeness auto
termination
proof (relation "measures [\<lambda>(st, x, ro, m, cap, q, p, next_url, received, w, s). nat (cap - received),
      \<lambda>(st, x, ro, m, cap, q, p, next_url, received, w, s). (case next_url of None \<Rightarrow> 0 | Some _ \<Rightarrow> 1)]", goal_cases)
  case (2 st x ro m cap query parameters next_url received w s url res y b next_url' received' w1 s1)
  have "discover_page st x ro m cap query parameters url received w s = (Inr (next_url', received'), w1, s1)"
    using 2 by simp
  from discover_page_received [OF this] 2(1,2) show ?case by (cases next_url') auto
qed simp

declare discover_pages.simps [simp del]

definition first_url :: "github_settings \<Rightarrow> jdict \<Rightarrow> string" where
  "first_url st parameters = build_url (hs_api_base_url st) ''/search/repositories'' parameters"

fun discover_queries ::
  "github_settings \<Rightarrow> github_externals \<Rightarrow> github_run \<Rightarrow> mapping_row \<Rightarrow> int \<Rightarrow> string list \<Rightarrow> int \<Rightarrow>
   github_world \<Rightarrow> github_state \<Rightarrow> int github_result \<times> github_world \<times> github_state" where
  "discover_queries st x ro m result_cap [] received w s = (Inr received, w, s)"
| "discover_queries st x ro m result_cap (configured # rest) received w s =
     (if received \<ge> result_cap then (Inr received, w, s)
      else
        (let query = effective_query (hs_track_forks st) configured;
             parameters = search_parameters query 1 (min (hs_page_size st) (result_cap - received))
         in case discover_pages st x ro m result_cap query parameters (Some (first_url st parameters)) received w s of
              (Inl err, w1, s1) \<Rightarrow> (Inl err, w1, s1)
            | (Inr received', w1, s1) \<Rightarrow> discover_queries st x ro m result_cap rest received' w1 s1))"

definition succeeded_discovery :: "github_settings \<Rightarrow> int \<Rightarrow> int \<Rightarrow> github_discovery_state \<Rightarrow> github_discovery_state" where
  "succeeded_discovery st now received d =
     d\<lparr>disc_status := OpSucceeded, disc_last_checked_at := Some now, disc_last_successful_at := Some now,
       disc_next_eligible_at := Some (now + hs_discovery_due_days st * day_us), disc_last_error := None,
       disc_metadata := [(''repositories_received'', JInt received)]\<rparr>"

definition discover_mapping ::
  "github_settings \<Rightarrow> github_externals \<Rightarrow> github_run \<Rightarrow> int \<Rightarrow> mapping_row \<Rightarrow> github_world \<Rightarrow> github_state \<Rightarrow>
   unit github_result \<times> github_world \<times> github_state" where
  "discover_mapping st x ro result_cap m w s =
     (case wall_now (gx_env x) w of (now, w1) \<Rightarrow>
     (let s1 = on_db (update_discovery m (\<lambda>d. d\<lparr>disc_status := OpRunning, disc_last_checked_at := Some now,
            disc_last_run_id := Some (gr_run ro)\<rparr>)) s
      in case search_queries m of
           Inl err \<Rightarrow> (Inl err, w1, s1)
         | Inr queries \<Rightarrow>
             (case discover_queries st x ro m result_cap queries 0 w1 s1 of
                (Inl err, w2, s2) \<Rightarrow> (Inl err, w2, s2)
              | (Inr received, w2, s2) \<Rightarrow>
                  (case wall_now (gx_env x) w2 of (done_at, w3) \<Rightarrow>
                     (Inr (), w3, on_db (update_discovery m (succeeded_discovery st done_at received)) s2)))))"


section \<open>The snapshot of one repository\<close>

definition poll_etag_of :: "nat \<Rightarrow> github_db \<Rightarrow> string option" where
  "poll_etag_of repository db = (case poll_of repository db of None \<Rightarrow> None | Some p \<Rightarrow> poll_etag p)"

definition repository_request :: "github_settings \<Rightarrow> github_repository \<Rightarrow> github_db \<Rightarrow> github_request" where
  "repository_request st r db =
     \<lparr>ghq_endpoint = RepositoryEndpoint, ghq_url = repo_api_url r, ghq_parameters = [],
      ghq_repository_id = Some (repo_github_id r),
      ghq_etag = (if hs_conditional st then poll_etag_of (repo_id r) db else None)\<rparr>"

text \<open>The handler of \<open>GithubHTTPError\<close>.\<close>

definition failed_request :: "nat \<Rightarrow> github_error \<Rightarrow> github_state \<Rightarrow> github_state" where
  "failed_request repository err s =
     (case err of
        GithubHTTPError r \<Rightarrow>
          on_db (mark_poll_failure repository (ghr_requested_at r) (Some (ghr_status r)) err None) s
      | GithubRateLimitError r \<Rightarrow>
          on_db (mark_poll_failure repository (ghr_requested_at r) (Some (ghr_status r)) err
            (rl_reset_at (ghr_rate_limit r))) s
      | _ \<Rightarrow> s)"

definition store_unchanged ::
  "github_run \<Rightarrow> github_repository \<Rightarrow> github_response \<Rightarrow> github_raw_response \<Rightarrow> github_state \<Rightarrow>
   unit github_result \<times> github_state" where
  "store_unchanged ro repository r raw s =
     (case create_unchanged_snapshot repository (gr_run ro) raw (ghr_requested_at r) (gs_db s) of
        (Inl err, db) \<Rightarrow> (Inl (GithubRaised err), s\<lparr>gs_db := db\<rparr>)
      | (Inr created, db) \<Rightarrow>
          (Inr (), on_acc (\<lambda>a. a\<lparr>ga_snapshots_created := ga_snapshots_created a + bool_int created,
             ga_unchanged := ga_unchanged a + 1\<rparr>) (s\<lparr>gs_db := db\<rparr>)))"

definition store_full ::
  "github_externals \<Rightarrow> github_run \<Rightarrow> nat \<Rightarrow> github_response \<Rightarrow> github_raw_response \<Rightarrow> github_state \<Rightarrow>
   unit github_result \<times> github_state" where
  "store_full x ro repository r raw s =
     (case parse_repository (gx_loads x) (gx_fromiso x) (ghr_payload r) of
        Inl err \<Rightarrow>
          (Inl err, (case err of GithubParseError _ \<Rightarrow>
             on_db (\<lambda>db. mark_poll_failure repository (ghr_requested_at r) (Some (ghr_status r)) err None
               (record_github_parse_error (graw_id raw) err db)) s | _ \<Rightarrow> s))
      | Inr d \<Rightarrow>
          (case upsert_repository d (ghr_requested_at r) (gs_db s) of
             ((target, _), db1) \<Rightarrow>
               (case create_full_snapshot target d (gr_run ro) raw (ghr_requested_at r) (graw_etag raw) db1 of
                  (created, db2) \<Rightarrow>
                    (Inr (), on_acc (\<lambda>a. a\<lparr>ga_snapshots_created := ga_snapshots_created a + bool_int created\<rparr>)
                       (s\<lparr>gs_db := db2\<rparr>)))))"

definition store_reply ::
  "github_externals \<Rightarrow> github_run \<Rightarrow> nat \<Rightarrow> github_response \<Rightarrow> nat \<Rightarrow> github_state \<Rightarrow> unit github_result \<times> github_state" where
  "store_reply x ro i r raw_id s =
     (case (repository_row i (gs_db s), github_raw_row raw_id (gs_db s)) of
        (Some repository, Some raw) \<Rightarrow>
          (if ghr_status r = 304 then store_unchanged ro repository r raw s
           else if ghr_status r \<noteq> 200 then (Inl (GithubHTTPError r), s)
           else store_full x ro i r raw s)
      | _ \<Rightarrow> (Inl (GithubRaised (OtherError ''ObjectDeletedError'' [])), s))"

text \<open>\<open>i\<close> is the identity of the repository; the row of a loaded object is read again after a commit.\<close>

definition snapshot_repository ::
  "github_settings \<Rightarrow> github_externals \<Rightarrow> github_run \<Rightarrow> nat \<Rightarrow> github_world \<Rightarrow> github_state \<Rightarrow>
   unit github_result \<times> github_world \<times> github_state" where
  "snapshot_repository st x ro i w s =
     (case repository_row i (gs_db s) of
        None \<Rightarrow> (Inl (GithubRaised (OtherError ''ObjectDeletedError'' [])), w, s)
      | Some repository \<Rightarrow>
         (let s1 = on_db (ensure_poll i) s in
          case fetch st x ro None (Some i) (repository_request st repository (gs_db s1)) w s1 of
            (Inl err, w1, (s2, _)) \<Rightarrow> (Inl err, w1, failed_request i err s2)
          | (Inr r, w1, (s2, raw)) \<Rightarrow> (case store_reply x ro i r (the raw) s2 of (res, s3) \<Rightarrow> (res, w1, s3))))"

end
