(* ===== verification/Github_Run.thy ===== *)
theory Github_Run
  imports Github_Service
begin

text \<open>
  \<open>github_collector/service.py\<close>, the runs: \<open>discover\<close> and \<open>snapshot\<close>, the selection of mappings and of due
  repositories, the recording of errors, the quality checks and the end of a run.  Sources, topics and
  mappings are read only.
\<close>

record github_registry =
  gg_sources :: "source_row list"
  gg_topics :: "topic_row list"
  gg_mappings :: "mapping_row list"


section \<open>Selection\<close>

definition github_pair :: "github_registry \<Rightarrow> mapping_row \<Rightarrow> (mapping_row \<times> topic_row) option" where
  "github_pair rg m =
     (case (find (\<lambda>s. source_id s = mapping_source_id m) (gg_sources rg),
            find (\<lambda>t. topic_id t = mapping_topic_id m) (gg_topics rg)) of
        (Some s, Some t) \<Rightarrow>
          (if source_name s = ''github'' \<and> source_is_active s \<and> mapping_enabled m \<and> topic_status t = TopicActive
           then Some (m, t) else None)
      | _ \<Rightarrow> None)"

definition slug_list :: "string list option \<Rightarrow> string list" where
  "slug_list slugs = (case slugs of None \<Rightarrow> [] | Some xs \<Rightarrow> xs)"

definition github_mappings ::
  "github_registry \<Rightarrow> string list option \<Rightarrow> (mapping_row \<times> topic_row) list github_result" where
  "github_mappings rg slugs =
     (let requested = slug_list slugs;
          rows = sort_key (\<lambda>(m, t). (topic_slug t, mapping_id m))
            (filter (\<lambda>(m, t). requested = [] \<or> topic_slug t \<in> set requested)
               (somes (map (github_pair rg) (gg_mappings rg))));
          missing = sorted_set (filter (\<lambda>slug. slug \<notin> set (map (topic_slug \<circ> snd) rows)) requested)
      in if missing \<noteq> [] then
           Inl (GithubCollectionError (''active enabled GitHub mapping not found for: '' @ join '', '' missing))
         else if rows = [] then Inl (GithubCollectionError ''no active enabled GitHub mappings are available'')
         else Inr rows)"

text \<open>A repository is due when a match tracks it, its last snapshot is old enough and no pause is in force.\<close>

definition poll_due :: "github_settings \<Rightarrow> int \<Rightarrow> github_poll_state option \<Rightarrow> bool" where
  "poll_due st due_at poll =
     (case poll of
        None \<Rightarrow> True
      | Some p \<Rightarrow>
          (case poll_last_snapshot_at p of None \<Rightarrow> True | Some t \<Rightarrow> t \<le> due_at - hs_snapshot_due_hours st * hour_us) \<and>
          (case poll_next_eligible_at p of None \<Rightarrow> True | Some t \<Rightarrow> t \<le> due_at))"

definition tracks :: "github_registry \<Rightarrow> string list \<Rightarrow> nat \<Rightarrow> github_match \<Rightarrow> bool" where
  "tracks rg slugs repository x =
     (gmatch_repository_id x = repository \<and> gmatch_tracking x = Tracked \<and>
      (slugs = [] \<or> (\<exists>t\<in>set (gg_topics rg). topic_id t = gmatch_topic_id x \<and> topic_slug t \<in> set slugs)))"

definition due_repositories ::
  "github_settings \<Rightarrow> github_registry \<Rightarrow> string list \<Rightarrow> int list \<Rightarrow> int \<Rightarrow> github_db \<Rightarrow> github_repository list" where
  "due_repositories st rg slugs ids due_at db =
     sort_key repo_github_id
       (filter (\<lambda>r. list_ex (tracks rg slugs (repo_id r)) (gdb_matches db) \<and>
              poll_due st due_at (poll_of (repo_id r) db) \<and> (ids = [] \<or> repo_github_id r \<in> set ids))
          (gdb_repositories db))"

definition github_tracked_repositories ::
  "github_settings \<Rightarrow> github_registry \<Rightarrow> string list option \<Rightarrow> int list option \<Rightarrow> int \<Rightarrow> github_db \<Rightarrow>
   github_repository list github_result" where
  "github_tracked_repositories st rg slugs ids due_at db =
     (let wanted = (case ids of None \<Rightarrow> [] | Some xs \<Rightarrow> xs);
          rows = due_repositories st rg (slug_list slugs) wanted due_at db;
          missing = sorted_set (filter (\<lambda>i. i \<notin> set (map repo_github_id rows)) wanted)
      in if missing \<noteq> [] then
           Inl (GithubCollectionError (''tracked GitHub repository not found or not due: '' @
             join '', '' (map show_int missing)))
         else Inr rows)"

definition github_source :: "github_registry \<Rightarrow> source_row github_result" where
  "github_source rg =
     (case find (\<lambda>s. source_name s = ''github'') (gg_sources rg) of
        Some s \<Rightarrow> (if source_is_active s then Inr s
          else Inl (GithubCollectionError ''GitHub source is not synchronized or active''))
      | None \<Rightarrow> Inl (GithubCollectionError ''GitHub source is not synchronized or active''))"


section \<open>The start of a run\<close>

text \<open>Without a provided client the service builds one, which remembers no budget.\<close>

definition service_client ::
  "github_settings \<Rightarrow> github_client option \<Rightarrow> github_world \<Rightarrow> github_client github_result \<times> github_world" where
  "service_client st provided w =
     (case provided of
        Some c \<Rightarrow> (Inr c, w)
      | None \<Rightarrow>
          (case github_client_init (hs_client st) (hs_require_auth st) (hs_allow_anonymous st) (hs_concurrency st) of
             Inl GithubNotConfiguredError \<Rightarrow>
               (Inl (GithubCollectionError (github_error_text GithubNotConfiguredError)), w)
           | Inl err \<Rightarrow> (Inl err, w)
           | Inr _ \<Rightarrow> (Inr (hs_client st), w\<lparr>gw_budgets := []\<rparr>)))"

definition new_github_run :: "github_settings \<Rightarrow> source_row \<Rightarrow> string \<Rightarrow> int \<Rightarrow> nat \<Rightarrow> ingestion_run" where
  "new_github_run st src mode started_at i =
     \<lparr>run_id = i, run_source_id = source_id src, run_started_at = started_at, run_finished_at = None,
      run_status = RunRunning, run_records_requested = 0, run_records_received = 0, run_records_inserted = 0,
      run_records_updated = 0, run_records_skipped = 0, run_error_count = 0, run_checkpoint_before = None,
      run_checkpoint_after = None, run_collector_version = github_collector_version,
      run_metadata = [(''mode'', JStr mode), (''schema_version'', JStr github_schema_version),
        (''concurrency'', JInt (hs_concurrency st)), (''api_version'', JStr (gc_api_version (hs_client st))),
        (''authenticated'', JBool (gc_token (hs_client st) \<noteq> None))]\<rparr>"

definition start_github_run ::
  "github_settings \<Rightarrow> github_registry \<Rightarrow> string \<Rightarrow> int \<Rightarrow> github_state \<Rightarrow> nat github_result \<times> github_state" where
  "start_github_run st rg mode started_at s =
     (case github_source rg of
        Inl err \<Rightarrow> (Inl err, s)
      | Inr src \<Rightarrow>
          (let i = fresh_id (map run_id (gs_runs s)) in
           (Inr i, s\<lparr>gs_runs := gs_runs s @ [new_github_run st src mode started_at i]\<rparr>)))"

definition github_runtime_exceeded :: "github_settings \<Rightarrow> github_env \<Rightarrow> int \<Rightarrow> github_world \<Rightarrow> bool \<times> github_world" where
  "github_runtime_exceeded st e started_at w =
     (case wall_now e w of (now, w1) \<Rightarrow> (now - started_at \<ge> hs_max_runtime_minutes st * minute_us, w1))"


section \<open>Errors\<close>

definition error_row ::
  "nat \<Rightarrow> int \<Rightarrow> github_error \<Rightarrow> string \<Rightarrow> jdict \<Rightarrow> ingestion_error_row" where
  "error_row run now err identifier details =
     \<lparr>error_run_id = run, error_occurred_at = now, error_type = github_error_name err,
      error_message = github_error_text err, error_record_identifier = Some identifier, error_details = details\<rparr>"

definition failed_discovery :: "nat \<Rightarrow> int \<Rightarrow> github_error \<Rightarrow> github_discovery_state \<Rightarrow> github_discovery_state" where
  "failed_discovery run now err d =
     d\<lparr>disc_status := OpFailed, disc_last_checked_at := Some now, disc_last_error := Some (github_error_text err),
       disc_last_run_id := Some run\<rparr>"

definition record_mapping_error ::
  "github_env \<Rightarrow> nat \<Rightarrow> mapping_row \<Rightarrow> github_error \<Rightarrow> github_world \<Rightarrow> github_state \<Rightarrow> github_world \<times> github_state" where
  "record_mapping_error e run m err w s =
     (case wall_now e w of (checked_at, w1) \<Rightarrow> (case wall_now e w1 of (occurred_at, w2) \<Rightarrow>
       (w2, (on_db (update_discovery m (failed_discovery run checked_at err)) s)\<lparr>gs_errors := gs_errors s @
          [error_row run occurred_at err (show_nat (mapping_id m))
             [(''source'', JStr ''github''), (''mode'', JStr ''discovery''),
              (''topic_id'', JStr (show_nat (mapping_topic_id m))), (''mapping_id'', JStr (show_nat (mapping_id m)))]]\<rparr>)))"

definition record_repository_error ::
  "github_env \<Rightarrow> nat \<Rightarrow> nat \<Rightarrow> github_error \<Rightarrow> github_world \<Rightarrow> github_state \<Rightarrow> github_world \<times> github_state" where
  "record_repository_error e run i err w s =
     (case repository_row i (gs_db s) of
        None \<Rightarrow> (w, s)
      | Some r \<Rightarrow>
          (case wall_now e w of (occurred_at, w1) \<Rightarrow>
            (w1, s\<lparr>gs_errors := gs_errors s @
               [error_row run occurred_at err (show_int (repo_github_id r))
                  [(''source'', JStr ''github''), (''mode'', JStr ''snapshot''),
                   (''repository_id'', JStr (show_nat (repo_id r))), (''full_name'', JStr (repo_full_name r))]]\<rparr>)))"

definition count_failure :: "github_state \<Rightarrow> github_state" where
  "count_failure = on_acc (\<lambda>a. a\<lparr>ga_errors := ga_errors a + 1, ga_failed_items := ga_failed_items a + 1\<rparr>)"

definition count_stop :: "github_state \<Rightarrow> github_state" where
  "count_stop = on_acc (\<lambda>a. a\<lparr>ga_errors := ga_errors a + 1\<rparr>)"


section \<open>The end of a run\<close>

text \<open>A quotient of counts is kept exact; in JSON it is rounded to millionths.\<close>

datatype quality_value = QCount int | QRatio int int

definition ratio :: "int \<Rightarrow> int \<Rightarrow> quality_value" where
  "ratio n received = (if received \<noteq> 0 then QRatio n received else QRatio 0 1)"

fun quality_positive :: "quality_value \<Rightarrow> bool" where
  "quality_positive (QCount n) = (n > 0)"
| "quality_positive (QRatio n k) = (n > 0)"

fun quality_json :: "quality_value \<Rightarrow> json" where
  "quality_json (QCount n) = JInt n"
| "quality_json (QRatio n k) = JFloat (round_half_even_div (n * 1000000) k)"

definition planned_query_count :: "json \<Rightarrow> int" where
  "planned_query_count item =
     (case item of
        JObj d \<Rightarrow> (case dict_get d ''queries'' of Some (JList qs) \<Rightarrow> int (length qs) | _ \<Rightarrow> 0)
      | _ \<Rightarrow> 0)"

definition tracked_count :: "github_db \<Rightarrow> int" where
  "tracked_count db =
     int (length (first_occurrences (map gmatch_repository_id
       (filter (\<lambda>x. gmatch_tracking x = Tracked) (gdb_matches db)))))"

definition stale_count :: "github_settings \<Rightarrow> int \<Rightarrow> github_db \<Rightarrow> int" where
  "stale_count st now db =
     int (length (filter (\<lambda>r. case poll_of (repo_id r) db of
          None \<Rightarrow> True
        | Some p \<Rightarrow> (case poll_last_snapshot_at p of None \<Rightarrow> True | Some t \<Rightarrow> t < now - hs_snapshot_due_hours st * hour_us))
        (gdb_repositories db)))"

definition github_quality ::
  "github_settings \<Rightarrow> github_env \<Rightarrow> string \<Rightarrow> github_world \<Rightarrow> github_state \<Rightarrow>
   (string \<times> quality_value) list \<times> github_world" where
  "github_quality st e mode w s =
     (case wall_now e w of (now, w1) \<Rightarrow>
       (let a = gs_acc s; received = ga_repositories_received a; unique = int (length (ga_repository_ids a)) in
        ([(''discovery_query_count'',
             QCount (if mode = ''discovery'' then sum_list (map planned_query_count (ga_planned_queries a)) else 0)),
          (''candidate_repo_count'', QCount received), (''unique_repo_count'', QCount unique),
          (''tracked_repo_count'', QCount (tracked_count (gs_db s))), (''fork_count'', QCount (ga_fork_count a)),
          (''archived_count'', QCount (ga_archived_count a)),
          (''duplicate_ratio'', ratio (max 0 (received - unique)) received),
          (''fork_ratio'', ratio (ga_fork_count a) received), (''archived_ratio'', ratio (ga_archived_count a) received),
          (''snapshot_due_count'', QCount (ga_repositories_due a)),
          (''snapshot_success_count'', QCount (ga_snapshots_created a)),
          (''snapshot_304_count'', QCount (ga_responses_304 a)),
          (''snapshot_failure_count'', QCount (ga_failed_items a)),
          (''stale_repo_count'', QCount (stale_count st now (gs_db s))),
          (''missing_snapshot_count'',
             QCount (max 0 (ga_repositories_due a - ga_snapshots_created a - ga_unchanged a))),
          (''rate_limit_pause_count'', QCount (ga_rate_pauses a)),
          (''failed_mappings'', QCount (if mode = ''discovery'' then ga_failed_items a else 0)),
          (''mapping_without_results'', QCount 0)], w1)))"

definition github_warning_fields :: "string list" where
  "github_warning_fields =
     [''duplicate_ratio'', ''fork_ratio'', ''archived_ratio'', ''failed_mappings'', ''snapshot_failure_count'',
      ''missing_snapshot_count'', ''rate_limit_pause_count'']"

definition github_check :: "nat \<Rightarrow> string \<Rightarrow> string \<times> quality_value \<Rightarrow> quality_check_row" where
  "github_check run mode p =
     (case p of (name, value) \<Rightarrow>
        \<lparr>check_run_id = Some run, check_name = ''github_'' @ name,
         check_status = (if name \<in> set github_warning_fields \<and> quality_positive value then QualityWarning else QualityPassed),
         check_observed = [(''value'', quality_json value)], check_expected = [(''minimum'', JInt 0)],
         check_details = [(''source'', JStr ''github''), (''mode'', JStr mode)]\<rparr>)"

definition quality_object :: "(string \<times> quality_value) list \<Rightarrow> jdict" where
  "quality_object quality = map (\<lambda>(name, value). (name, quality_json value)) quality"

definition finished_github_run ::
  "ingestion_status \<Rightarrow> int \<Rightarrow> string \<Rightarrow> github_acc \<Rightarrow> (string \<times> quality_value) list \<Rightarrow> ingestion_run \<Rightarrow> ingestion_run" where
  "finished_github_run status now mode a quality r =
     r\<lparr>run_status := status, run_finished_at := Some now, run_records_requested := ga_requests_sent a,
       run_records_received := ga_repositories_received a,
       run_records_inserted := (if mode = ''discovery'' then ga_new_repositories a else ga_snapshots_created a),
       run_records_updated := (if mode = ''discovery'' then ga_existing_repositories a else 0),
       run_records_skipped := ga_unchanged a, run_error_count := ga_errors a,
       run_metadata := dict_merge (run_metadata r)
         [(''raw_payloads_preserved'', JInt (ga_raw_payloads a)), (''topic_matches_added'', JInt (ga_matches_added a)),
          (''data_quality'', JObj (quality_object quality))]\<rparr>"

definition finish_github_run ::
  "github_settings \<Rightarrow> github_env \<Rightarrow> nat \<Rightarrow> ingestion_status \<Rightarrow> string \<Rightarrow> github_world \<Rightarrow> github_state \<Rightarrow>
   (string \<times> quality_value) list \<times> int \<times> github_world \<times> github_state" where
  "finish_github_run st e run status mode w s =
     (case github_quality st e mode w s of (quality, w1) \<Rightarrow>
      (case wall_now e w1 of (now, w2) \<Rightarrow>
        (quality, now, w2,
         s\<lparr>gs_checks := gs_checks s @ map (github_check run mode) quality,
           gs_runs := map (\<lambda>r. if run_id r = run then finished_github_run status now mode (gs_acc s) quality r else r)
             (gs_runs s)\<rparr>)))"

definition github_terminal_status :: "github_acc \<Rightarrow> ingestion_status" where
  "github_terminal_status a = (if ga_errors a \<noteq> 0 then RunPartial else RunSucceeded)"

record github_summary =
  gsum_mode :: string
  gsum_run :: "nat option"
  gsum_status :: string
  gsum_started_at :: int
  gsum_finished_at :: int
  gsum_auth_configured :: bool
  gsum_counts :: github_acc \<comment> \<open>the counters of the accumulator, one field each\<close>
  gsum_unique_repositories :: int
  gsum_data_quality :: jdict
  gsum_rate_budgets :: jdict

definition rate_budgets_json :: "rate_budgets \<Rightarrow> jdict" where
  "rate_budgets_json budgets =
     List.map_filter (\<lambda>resource. map_option (\<lambda>b. (resource, rate_limit_json b)) (dict_get budgets resource))
       [''search'', ''core'']"

definition github_summary_of ::
  "github_settings \<Rightarrow> string \<Rightarrow> nat option \<Rightarrow> string \<Rightarrow> int \<Rightarrow> int \<Rightarrow> jdict \<Rightarrow> rate_budgets \<Rightarrow> github_acc \<Rightarrow> github_summary" where
  "github_summary_of st mode run status started finished quality budgets a =
     \<lparr>gsum_mode = mode, gsum_run = run, gsum_status = status, gsum_started_at = started, gsum_finished_at = finished,
      gsum_auth_configured = (gc_token (hs_client st) \<noteq> None), gsum_counts = a,
      gsum_unique_repositories = int (length (ga_repository_ids a)), gsum_data_quality = quality,
      gsum_rate_budgets = rate_budgets_json budgets\<rparr>"

definition end_github_run ::
  "github_settings \<Rightarrow> github_env \<Rightarrow> string \<Rightarrow> int \<Rightarrow> nat \<Rightarrow> github_world \<Rightarrow> github_state \<Rightarrow>
   github_summary github_result \<times> github_world \<times> github_state" where
  "end_github_run st e mode started run w s =
     (let status = github_terminal_status (gs_acc s) in
      case finish_github_run st e run status mode w s of
        (quality, now, w1, s1) \<Rightarrow>
          (Inr (github_summary_of st mode (Some run) (ingestion_status_value status) started now
                  (quality_object quality) (gw_budgets w1) (gs_acc s1)), w1, s1))"

definition dry_github_run ::
  "github_settings \<Rightarrow> github_env \<Rightarrow> int \<Rightarrow> github_world \<Rightarrow> github_state \<Rightarrow>
   github_summary github_result \<times> github_world \<times> github_state" where
  "dry_github_run st e started w s =
     (case wall_now e w of (now, w1) \<Rightarrow>
        (Inr (github_summary_of st ''dry_run'' None ''dry_run'' started now [] [] (gs_acc s)), w1, s))"

text \<open>\<open>max_results or default\<close>: zero counts as absent.\<close>

definition or_default :: "int option \<Rightarrow> int \<Rightarrow> int" where
  "or_default v d = (case v of None \<Rightarrow> d | Some n \<Rightarrow> (if n = 0 then d else n))"


section \<open>Discovery\<close>

definition discovery_plan_item :: "github_settings \<Rightarrow> int \<Rightarrow> mapping_row \<times> topic_row \<Rightarrow> json github_result" where
  "discovery_plan_item st result_cap mt =
     (case mt of (m, t) \<Rightarrow>
        github_bind (search_queries m) (\<lambda>queries.
          Inr (JObj [(''topic_slug'', JStr (topic_slug t)), (''mapping_id'', JStr (show_nat (mapping_id m))),
            (''queries'', JList (map (\<lambda>q. JStr (effective_query (hs_track_forks st) q)) queries)),
            (''max_results'', JInt result_cap), (''page_size'', JInt (min (hs_page_size st) result_cap))])))"

fun discovery_plan :: "github_settings \<Rightarrow> int \<Rightarrow> (mapping_row \<times> topic_row) list \<Rightarrow> json list github_result" where
  "discovery_plan st result_cap [] = Inr []"
| "discovery_plan st result_cap (mt # rest) =
     github_bind (discovery_plan_item st result_cap mt) (\<lambda>item.
     github_bind (discovery_plan st result_cap rest) (\<lambda>items. Inr (item # items)))"

definition caught_in_discovery :: "github_error \<Rightarrow> bool" where
  "caught_in_discovery err =
     (is_client_error err \<or>
      (case err of GithubParseError _ \<Rightarrow> True | GithubQueryError _ \<Rightarrow> True | GithubRequestLimitReached \<Rightarrow> True | _ \<Rightarrow> False))"

datatype github_turn = TurnRaised github_error | TurnBreak | TurnNext

definition discovery_turn ::
  "github_settings \<Rightarrow> github_externals \<Rightarrow> github_run \<Rightarrow> int \<Rightarrow> int \<Rightarrow> mapping_row \<Rightarrow> github_world \<Rightarrow> github_state \<Rightarrow>
   github_turn \<times> github_world \<times> github_state" where
  "discovery_turn st x ro started result_cap m w s =
     (case github_runtime_exceeded st (gx_env x) started w of
        (True, w1) \<Rightarrow>
          (case record_mapping_error (gx_env x) (gr_run ro) m
                  (GithubCollectionError ''GitHub discovery runtime limit reached'') w1 (count_stop s) of
             (w2, s2) \<Rightarrow> (TurnBreak, w2, s2))
      | (False, w1) \<Rightarrow>
          (case discover_mapping st x ro result_cap m w1
                  (on_acc (\<lambda>a. a\<lparr>ga_mappings_executed := ga_mappings_executed a + 1\<rparr>) s) of
             (Inr _, w2, s2) \<Rightarrow> (TurnNext, w2, s2)
           | (Inl err, w2, s2) \<Rightarrow>
               (if caught_in_discovery err then
                  (case record_mapping_error (gx_env x) (gr_run ro) m err w2 (count_failure s2) of
                     (w3, s3) \<Rightarrow> (if ends_run err then TurnBreak else TurnNext, w3, s3))
                else (TurnRaised err, w2, s2))))"

fun discovery_turns ::
  "github_settings \<Rightarrow> github_externals \<Rightarrow> github_run \<Rightarrow> int \<Rightarrow> int \<Rightarrow> mapping_row list \<Rightarrow> github_world \<Rightarrow>
   github_state \<Rightarrow> unit github_result \<times> github_world \<times> github_state" where
  "discovery_turns st x ro started result_cap [] w s = (Inr (), w, s)"
| "discovery_turns st x ro started result_cap (m # rest) w s =
     (case discovery_turn st x ro started result_cap m w s of
        (TurnRaised err, w1, s1) \<Rightarrow> (Inl err, w1, s1)
      | (TurnBreak, w1, s1) \<Rightarrow> (Inr (), w1, s1)
      | (TurnNext, w1, s1) \<Rightarrow> discovery_turns st x ro started result_cap rest w1 s1)"

definition discovery_acc :: "(mapping_row \<times> topic_row) list \<Rightarrow> json list \<Rightarrow> github_acc" where
  "discovery_acc mappings planned =
     new_github_acc\<lparr>ga_topics_considered := int (length (first_occurrences (map (mapping_topic_id \<circ> fst) mappings))),
       ga_planned_queries := planned\<rparr>"

definition run_discovery ::
  "github_settings \<Rightarrow> github_externals \<Rightarrow> github_registry \<Rightarrow> github_client option \<Rightarrow> (mapping_row \<times> topic_row) list \<Rightarrow>
   int \<Rightarrow> int \<Rightarrow> int \<Rightarrow> github_world \<Rightarrow> github_state \<Rightarrow> github_summary github_result \<times> github_world \<times> github_state" where
  "run_discovery st x rg provided mappings result_cap request_cap started w s =
     (case service_client st provided w of
        (Inl err, w1) \<Rightarrow> (Inl err, w1, s)
      | (Inr c, w1) \<Rightarrow>
         (case start_github_run st rg ''discovery'' started s of
            (Inl err, s1) \<Rightarrow> (Inl err, w1, s1)
          | (Inr run, s1) \<Rightarrow>
             (case discovery_turns st x \<lparr>gr_run = run, gr_client = c, gr_request_cap = request_cap\<rparr> started result_cap
                     (map fst mappings) w1 s1 of
                (Inl err, w2, s2) \<Rightarrow> (Inl err, w2, s2)
              | (Inr _, w2, s2) \<Rightarrow> end_github_run st (gx_env x) ''discovery'' started run w2 s2)))"

definition discover ::
  "github_settings \<Rightarrow> github_externals \<Rightarrow> github_registry \<Rightarrow> github_client option \<Rightarrow> string list option \<Rightarrow> bool \<Rightarrow>
   int option \<Rightarrow> int option \<Rightarrow> github_world \<Rightarrow> github_state \<Rightarrow>
   github_summary github_result \<times> github_world \<times> github_state" where
  "discover st x rg provided slugs dry_run max_results max_requests w s =
     (case wall_now (gx_env x) w of (started, w1) \<Rightarrow>
     (case github_mappings rg slugs of
        Inl err \<Rightarrow> (Inl err, w1, s)
      | Inr mappings \<Rightarrow>
         (let result_cap = or_default max_results (hs_max_results st);
              request_cap = or_default max_requests (hs_max_requests st)
          in if result_cap < 1 \<or> request_cap < 1 then
               (Inl (GithubCollectionError ''GitHub result and request limits must be positive''), w1, s)
             else
               (case discovery_plan st result_cap mappings of
                  Inl err \<Rightarrow> (Inl err, w1, s)
                | Inr planned \<Rightarrow>
                    (let s1 = s\<lparr>gs_acc := discovery_acc mappings planned\<rparr> in
                     if dry_run then dry_github_run st (gx_env x) started w1 s1
                     else run_discovery st x rg provided mappings result_cap request_cap started w1 s1)))))"


section \<open>Snapshots\<close>

definition caught_in_snapshot :: "github_error \<Rightarrow> bool" where
  "caught_in_snapshot err = (is_client_error err \<or> err = GithubRequestLimitReached \<or> is_value_error err)"

definition snapshot_turn ::
  "github_settings \<Rightarrow> github_externals \<Rightarrow> github_run \<Rightarrow> int \<Rightarrow> nat \<Rightarrow> github_world \<Rightarrow> github_state \<Rightarrow>
   github_turn \<times> github_world \<times> github_state" where
  "snapshot_turn st x ro started i w s =
     (if ga_requests_sent (gs_acc s) \<ge> gr_request_cap ro then (TurnBreak, w, count_stop s)
      else (case github_runtime_exceeded st (gx_env x) started w of
        (True, w1) \<Rightarrow> (TurnBreak, w1, count_stop s)
      | (False, w1) \<Rightarrow>
          (case snapshot_repository st x ro i w1 s of
             (Inr _, w2, s2) \<Rightarrow> (TurnNext, w2, s2)
           | (Inl err, w2, s2) \<Rightarrow>
               (if caught_in_snapshot err then
                  (case record_repository_error (gx_env x) (gr_run ro) i err w2 (count_failure s2) of
                     (w3, s3) \<Rightarrow> (if ends_run err then TurnBreak else TurnNext, w3, s3))
                else (TurnRaised err, w2, s2)))))"

fun snapshot_turns ::
  "github_settings \<Rightarrow> github_externals \<Rightarrow> github_run \<Rightarrow> int \<Rightarrow> nat list \<Rightarrow> github_world \<Rightarrow> github_state \<Rightarrow>
   unit github_result \<times> github_world \<times> github_state" where
  "snapshot_turns st x ro started [] w s = (Inr (), w, s)"
| "snapshot_turns st x ro started (i # rest) w s =
     (case snapshot_turn st x ro started i w s of
        (TurnRaised err, w1, s1) \<Rightarrow> (Inl err, w1, s1)
      | (TurnBreak, w1, s1) \<Rightarrow> (Inr (), w1, s1)
      | (TurnNext, w1, s1) \<Rightarrow> snapshot_turns st x ro started rest w1 s1)"

definition snapshot_plan_item :: "github_settings \<Rightarrow> github_repository \<Rightarrow> json" where
  "snapshot_plan_item st r =
     JObj [(''github_repository_id'', JInt (repo_github_id r)), (''full_name'', JStr (repo_full_name r)),
       (''conditional'', JBool (hs_conditional st))]"

definition snapshot_acc :: "github_settings \<Rightarrow> string list option \<Rightarrow> github_repository list \<Rightarrow> github_acc" where
  "snapshot_acc st slugs repositories =
     new_github_acc\<lparr>ga_repositories_due := int (length repositories),
       ga_topics_considered := int (length (first_occurrences (slug_list slugs))),
       ga_planned_queries := map (snapshot_plan_item st) repositories\<rparr>"

definition run_snapshot ::
  "github_settings \<Rightarrow> github_externals \<Rightarrow> github_registry \<Rightarrow> github_client option \<Rightarrow> github_repository list \<Rightarrow>
   int \<Rightarrow> int \<Rightarrow> github_world \<Rightarrow> github_state \<Rightarrow> github_summary github_result \<times> github_world \<times> github_state" where
  "run_snapshot st x rg provided repositories request_cap started w s =
     (case service_client st provided w of
        (Inl err, w1) \<Rightarrow> (Inl err, w1, s)
      | (Inr c, w1) \<Rightarrow>
         (case start_github_run st rg ''snapshot'' started s of
            (Inl err, s1) \<Rightarrow> (Inl err, w1, s1)
          | (Inr run, s1) \<Rightarrow>
             (case snapshot_turns st x \<lparr>gr_run = run, gr_client = c, gr_request_cap = request_cap\<rparr> started
                     (map repo_id repositories) w1 s1 of
                (Inl err, w2, s2) \<Rightarrow> (Inl err, w2, s2)
              | (Inr _, w2, s2) \<Rightarrow> end_github_run st (gx_env x) ''snapshot'' started run w2 s2)))"

definition snapshot ::
  "github_settings \<Rightarrow> github_externals \<Rightarrow> github_registry \<Rightarrow> github_client option \<Rightarrow> string list option \<Rightarrow> int list option \<Rightarrow>
   bool \<Rightarrow> int option \<Rightarrow> github_world \<Rightarrow> github_state \<Rightarrow>
   github_summary github_result \<times> github_world \<times> github_state" where
  "snapshot st x rg provided slugs ids dry_run max_requests w s =
     (case wall_now (gx_env x) w of (started, w1) \<Rightarrow>
     (case github_tracked_repositories st rg slugs ids started (gs_db s) of
        Inl err \<Rightarrow> (Inl err, w1, s)
      | Inr repositories \<Rightarrow>
          (let s1 = s\<lparr>gs_acc := snapshot_acc st slugs repositories\<rparr> in
           if dry_run then dry_github_run st (gx_env x) started w1 s1
           else run_snapshot st x rg provided repositories (or_default max_requests (hs_max_requests st)) started w1 s1)))"

end
