(* ===== verification/Github_Demo.thy ===== *)
theory Github_Demo
  imports Github_Run
begin

text \<open>
  Concrete runs, evaluated by the kernel: a discovery whose first request is answered with 503 and the
  second with one repository; then a snapshot of that repository, answered with 200.  The witnesses of the
  properties of runs use them.
\<close>

definition github_demo_client :: github_client where
  "github_demo_client = \<lparr>gc_token = Some ''secret'', gc_api_version = ''2022-11-28'', gc_user_agent = ''observatory'',
     gc_timeout = 30 * second_us, gc_retry_attempts = 3, gc_min_core_remaining = 100, gc_min_search_remaining = 2,
     gc_max_wait = 60 * second_us\<rparr>"

definition github_demo_settings :: github_settings where
  "github_demo_settings = \<lparr>hs_api_base_url = ''https://api.github.com'', hs_page_size = 100, hs_max_results = 100,
     hs_max_requests = 10, hs_conditional = True, hs_max_runtime_minutes = 30, hs_track_forks = False,
     hs_snapshot_due_hours = 20, hs_discovery_due_days = 7, hs_concurrency = 1, hs_require_auth = True,
     hs_allow_anonymous = False, hs_client = github_demo_client, hs_raw_root = [''data'', ''raw'']\<rparr>"

definition github_demo_repository :: json where
  "github_demo_repository = JObj
     [(''id'', JInt 7), (''node_id'', JStr ''R7''), (''owner'', JObj [(''login'', JStr ''o'')]), (''name'', JStr ''n''),
      (''full_name'', JStr ''o/n''), (''html_url'', JStr ''h''), (''url'', JStr ''u''),
      (''created_at'', JStr ''t''), (''updated_at'', JStr ''t''), (''stargazers_count'', JInt 5)]"

definition github_demo_loads :: "string \<Rightarrow> json option" where
  "github_demo_loads payload =
     (if payload = ''search'' then
        Some (JObj [(''total_count'', JInt 1), (''items'', JList [github_demo_repository])])
      else if payload = ''repository'' then Some github_demo_repository else None)"

definition github_demo_transport :: "nat \<Rightarrow> github_outcome" where
  "github_demo_transport n =
     (if n = 0 then GithubReplied 503 [] ''busy'' ''s''
      else if n = 1 then GithubReplied 200 [(''X-RateLimit-Resource'', ''search''), (''X-RateLimit-Remaining'', ''29'')] ''search'' ''s''
      else if n = 2 then GithubReplied 200 [(''ETag'', ''e1'')] ''repository'' ''u''
      else GithubReplied 304 [] [] ''u'')"

definition github_demo_externals :: github_externals where
  "github_demo_externals = \<lparr>
     gx_env = \<lparr>ge_wall = (\<lambda>n. 1767225600000000 + int n * second_us), ge_transport = github_demo_transport,
       ge_jitter = (\<lambda>_. 0)\<rparr>,
     gx_codec = demo_codec, gx_loads = github_demo_loads,
     gx_fromiso = (\<lambda>_. Some (utc 1577836800000000)), gx_fault = (\<lambda>_. NoFault)\<rparr>"

definition github_demo_registry :: github_registry where
  "github_demo_registry = \<lparr>
     gg_sources = [\<lparr>source_id = 1, source_name = ''github'', source_kind = ''api'', source_base_url = None,
       source_is_active = True, source_metadata = []\<rparr>],
     gg_topics = [\<lparr>topic_id = 1, topic_canonical_name = ''T'', topic_normalized_name = ''t'', topic_slug = ''t'',
       topic_description = None, topic_category_id = None, topic_status = TopicActive, topic_monitoring_priority = 50,
       topic_deprecated_at = None, topic_registry_version = None, topic_metadata = []\<rparr>],
     gg_mappings = [\<lparr>mapping_id = 1, mapping_topic_id = 1, mapping_source_id = 1, mapping_enabled = True,
       mapping_type = ''query'', mapping_external_identifier = None, mapping_query = None,
       mapping_configuration = [(''search_queries'', JList [JStr ''agents''])]\<rparr>]\<rparr>"

text \<open>A mapping that configures no query.\<close>

definition unset_mapping :: mapping_row where
  "unset_mapping = (hd (gg_mappings github_demo_registry))\<lparr>mapping_id := 2, mapping_configuration := []\<rparr>"

definition github_demo_state :: github_state where
  "github_demo_state = \<lparr>gs_db = \<lparr>gdb_raw = [], gdb_repositories = [], gdb_snapshots = [], gdb_matches = [], gdb_polls = [],
       gdb_discovery = []\<rparr>,
     gs_files = [], gs_writes = 0, gs_runs = [], gs_errors = [], gs_checks = [], gs_acc = new_github_acc\<rparr>"

definition demo_discover :: "github_summary github_result \<times> github_world \<times> github_state" where
  "demo_discover = discover github_demo_settings github_demo_externals github_demo_registry None None False None None
     github_world_init github_demo_state"

lemma demo_discover_value:
  "(case demo_discover of (r, w, s) \<Rightarrow> (map_sum id gsum_status r, length (gw_calls w), gw_slept w, ga_requests_sent (gs_acc s),
      map graw_http_status (gdb_raw (gs_db s)), map gmatch_tracking (gdb_matches (gs_db s)), map run_status (gs_runs s))) =
     (Inr ''succeeded'', 2, [second_us], 2, [503, 200], [Tracked], [RunSucceeded])"
  by code_simp

end
