(* ===== verification/Github_Effects.thy ===== *)
theory Github_Effects
  imports Github_Run
begin

text \<open>
  The contract of the effects of a GitHub run.  \<open>github_effect\<close> lists the changes that a run makes to the
  tables, one operation of \<open>Github_Persistence\<close> at a time.  \<open>github_relation\<close> is a preorder on the world and
  the state that each of them, each attempt of the client and each change of the log respects; it is then
  respected by \<open>discover\<close> and \<open>snapshot\<close>.
\<close>


section \<open>Whole runs\<close>

text \<open>The public operations of the service, with the client and the request limit that they are given.\<close>

inductive github_runs ::
  "github_settings \<Rightarrow> github_externals \<Rightarrow> github_registry \<Rightarrow> github_client option \<Rightarrow> int option \<Rightarrow>
   github_world \<times> github_state \<Rightarrow> github_summary github_result \<Rightarrow> github_world \<times> github_state \<Rightarrow> bool"
  for st x rg provided max_requests where
  discovery: "discover st x rg provided slugs dry_run max_results max_requests w s = (r, w', s') \<Longrightarrow>
     github_runs st x rg provided max_requests (w, s) r (w', s')"
| snapshots: "snapshot st x rg provided slugs ids dry_run max_requests w s = (r, w', s') \<Longrightarrow>
     github_runs st x rg provided max_requests (w, s) r (w', s')"

definition used_client :: "github_settings \<Rightarrow> github_client option \<Rightarrow> github_client" where
  "used_client st provided = (case provided of None \<Rightarrow> hs_client st | Some c \<Rightarrow> c)"

text \<open>The counters that a summary reports are those of the run.\<close>

lemma end_github_run_counts:
  "end_github_run st e mode started run w s = (Inr sm, w', s') \<Longrightarrow> gsum_counts sm = gs_acc s'"
  by (auto simp: end_github_run_def finish_github_run_def github_summary_of_def Let_def split: prod.splits)

lemma dry_github_run_counts: "dry_github_run st e started w s = (Inr sm, w', s') \<Longrightarrow> gsum_counts sm = gs_acc s'"
  by (auto simp: dry_github_run_def github_summary_of_def split: prod.splits)

lemma github_runs_counts:
  assumes "github_runs st x rg provided max_requests z (Inr sm) z'"
  shows "gsum_counts sm = gs_acc (snd z')"
  using assms
  by (cases rule: github_runs.cases)
    (auto simp: discover_def snapshot_def run_discovery_def run_snapshot_def Let_def
      dest: end_github_run_counts dry_github_run_counts split: prod.splits sum.splits if_splits)


section \<open>Changes of the tables\<close>

inductive github_effect :: "github_db \<Rightarrow> github_db \<Rightarrow> bool" where
  repository: "github_effect db (snd (upsert_repository d t db))"
| matched: "tracking \<noteq> Ignored \<Longrightarrow> i \<in> repo_id ` set (gdb_repositories db) \<Longrightarrow>
     github_effect db (snd (upsert_github_match i m query rank run t tracking raw db))"
| ensured: "github_effect db (ensure_poll i db)"
| polled: "(\<And>p. poll_repository_id (f p) = poll_repository_id p) \<Longrightarrow> (\<And>p. poll_id (f p) = poll_id p) \<Longrightarrow>
     github_effect db (update_poll i f db)"
| discovered: "(\<And>d. disc_mapping_id (f d) = disc_mapping_id d) \<Longrightarrow> (\<And>d. disc_id (f d) = disc_id d) \<Longrightarrow>
     github_effect db (update_discovery m f db)"
| unreadable: "github_effect db (record_github_parse_error i err db)"
| full: "repository_data_valid d \<Longrightarrow> raw \<in> set (gdb_raw db) \<Longrightarrow> i \<in> repo_id ` set (gdb_repositories db) \<Longrightarrow>
     github_effect db (snd (create_full_snapshot i d run raw t etag db))"
| unchanged: "raw \<in> set (gdb_raw db) \<Longrightarrow> r \<in> set (gdb_repositories db) \<Longrightarrow>
     github_effect db (snd (create_unchanged_snapshot r run raw t db))"

lemma failure_effect: "github_effect db (mark_poll_failure i t status err eligible db)"
  unfolding mark_poll_failure_def by (rule polled) simp_all

lemma find_row_SomeD: "find P rows = Some r \<Longrightarrow> r \<in> set rows \<and> P r"
  by (induction rows) (auto split: if_splits)

lemma repository_row_SomeD: "repository_row i db = Some r \<Longrightarrow> r \<in> set (gdb_repositories db) \<and> repo_id r = i"
  using find_row_SomeD by (fastforce simp: repository_row_def)

lemma github_raw_row_SomeD: "github_raw_row i db = Some r \<Longrightarrow> r \<in> set (gdb_raw db) \<and> graw_id r = i"
  using find_row_SomeD by (fastforce simp: github_raw_row_def)

lemma upsert_repository_id:
  assumes "upsert_repository d t db = ((i, created), db')"
  shows "i \<in> repo_id ` set (gdb_repositories db')"
proof (cases "find (\<lambda>r. repo_github_id r = gd_github_id d) (gdb_repositories db)")
  case None
  then show ?thesis using assms by (auto simp: upsert_repository_def Let_def repository_values_def blank_repository_def)
next
  case (Some old)
  define g where "g r = (if repo_id r = repo_id old then
      (repository_values d r)\<lparr>repo_last_observed_at := max (repo_last_observed_at r) t\<rparr> else r)" for r
  have "i = repo_id old" "gdb_repositories db' = map g (gdb_repositories db)"
    using assms Some by (auto simp: upsert_repository_def g_def)
  moreover have "repo_id (g old) = repo_id old" by (simp add: g_def repository_values_def)
  moreover have "old \<in> set (gdb_repositories db)" using find_row_SomeD [OF Some] by blast
  ultimately show ?thesis by (metis image_eqI list.set_map)
qed

lemma tracking_of_not_ignored: "tracking_of st d \<noteq> Ignored"
  by (simp add: tracking_of_def)


section \<open>The contract\<close>

definition quiet_github :: "github_world \<Rightarrow> github_world \<Rightarrow> bool" where
  "quiet_github w w' = (gw_calls w' = gw_calls w \<and> gw_slept w' = gw_slept w)"

lemma still_quiet: "still w w' \<Longrightarrow> quiet_github w w'"
  by (simp add: still_def quiet_github_def)

lemma wall_now_quiet: "wall_now e w = (t, w') \<Longrightarrow> quiet_github w w'"
  by (rule still_quiet [OF wall_now_still])

abbreviation requests_sent :: "github_state \<Rightarrow> int" where
  "requests_sent s \<equiv> ga_requests_sent (gs_acc s)"

definition run_uses :: "github_client \<Rightarrow> int \<Rightarrow> github_run \<Rightarrow> bool" where
  "run_uses c cap ro = (gr_client ro = c \<and> gr_request_cap ro = cap)"

locale github_relation =
  fixes st :: github_settings and x :: github_externals and c :: github_client and cap :: int
    and R :: "github_world \<times> github_state \<Rightarrow> github_world \<times> github_state \<Rightarrow> bool"
  assumes R_refl: "R z z"
    and R_trans: "R z z' \<Longrightarrow> R z' z'' \<Longrightarrow> R z z''"
    and R_quiet: "quiet_github w w' \<Longrightarrow> R (w, s) (w', s)"
    and R_acc: "ga_requests_sent a = requests_sent s \<Longrightarrow> R (w, s) (w, s\<lparr>gs_acc := a\<rparr>)"
    and R_log: "R (w, s) (w, s\<lparr>gs_runs := rs, gs_errors := es, gs_checks := qs\<rparr>)"
    and R_effect: "github_effect (gs_db s) db \<Longrightarrow> R (w, s) (w, s\<lparr>gs_db := db\<rparr>)"
    and R_attempt: "github_attempt (gx_env x) c (gx_loads x) rq (preserve_github st x run mapping repository)
        (count_github_attempt cap) n final w (s, raw0) = (out, w', (s', raw1)) \<Longrightarrow> R (w, s) (slept_after out w', s')"

definition lift_github ::
  "(github_world \<times> github_state \<Rightarrow> github_world \<times> github_state \<Rightarrow> bool) \<Rightarrow>
   github_world \<times> github_page_state \<Rightarrow> github_world \<times> github_page_state \<Rightarrow> bool" where
  "lift_github R z z' = R (fst z, fst (snd z)) (fst z', fst (snd z'))"

sublocale github_relation \<subseteq> callbacks: github_callbacks "gx_env x" c "gx_loads x" rq
    "preserve_github st x run mapping repository" "count_github_attempt cap" "lift_github R"
  for rq run mapping repository
proof unfold_locales
  show "lift_github R z z" for z by (simp add: lift_github_def R_refl)
  show "lift_github R z z''" if "lift_github R z z'" "lift_github R z' z''" for z z' z''
    using that unfolding lift_github_def by (rule R_trans)
  show "lift_github R (w, s) (slept_after out w', s')"
    if "github_attempt (gx_env x) c (gx_loads x) rq (preserve_github st x run mapping repository)
        (count_github_attempt cap) a final w s = (out, w', s')" for a final w s out w' s'
    using that by (cases s; cases s') (simp add: lift_github_def R_attempt)
qed

context github_relation
begin

lemma R_on_acc: "ga_requests_sent (f (gs_acc s)) = requests_sent s \<Longrightarrow> R (w, s) (w, on_acc f s)"
  by (simp add: on_acc_def R_acc)

lemma R_on_db: "github_effect (gs_db s) (f (gs_db s)) \<Longrightarrow> R (w, s) (w, on_db f s)"
  by (simp add: on_db_def R_effect)

lemma R_errors: "R (w, s) (w, s\<lparr>gs_errors := es\<rparr>)"
  using R_log [where w = w and s = s and rs = "gs_runs s" and es = es and qs = "gs_checks s"] by simp

lemma R_runs: "R (w, s) (w, s\<lparr>gs_runs := rs\<rparr>)"
  using R_log [where w = w and s = s and rs = rs and es = "gs_errors s" and qs = "gs_checks s"] by simp

lemma fetch_R:
  assumes "fetch st x ro mapping repository rq w s = (r, w', (s', raw))" "run_uses c cap ro"
  shows "R (w, s) (w', s')"
proof -
  have "lift_github R (w, (s, None)) (w', (s', raw))"
    using assms unfolding fetch_def run_uses_def by (intro callbacks.github_get_R) simp
  then show ?thesis by (simp add: lift_github_def)
qed


subsection \<open>Discovery\<close>

lemma persist_repository_R: "R (w, s) (w, persist_repository st run m q t raw rank d s)"
proof -
  obtain i created db1 where u: "upsert_repository d t (gs_db s) = ((i, created), db1)" by (metis prod.collapse)
  obtain added db2 where v: "upsert_github_match i m q rank run t (tracking_of st d) raw db1 = (added, db2)"
    by (cases "upsert_github_match i m q rank run t (tracking_of st d) raw db1")
  have one: "github_effect (gs_db s) db1" using github_effect.repository [of "gs_db s" d t] u by simp
  have two: "github_effect (gs_db (s\<lparr>gs_db := db1\<rparr>)) db2"
    using matched [OF tracking_of_not_ignored upsert_repository_id [OF u], of m q rank run t st d raw] v by simp
  have "R (w, s) (w, s\<lparr>gs_db := db2\<rparr>)" using R_trans [OF R_effect [OF one] R_effect [OF two]] by simp
  moreover have "R (w, s\<lparr>gs_db := db2\<rparr>) (w, on_acc (\<lambda>a. count_upsert created added (count_repository d a)) (s\<lparr>gs_db := db2\<rparr>))"
    by (rule R_on_acc) (simp add: count_upsert_def count_repository_def)
  ultimately show ?thesis using u v R_trans by (simp add: persist_repository_def)
qed

lemma persist_repositories_R: "R (w, s) (w, persist_repositories st run m q t raw received ds s)"
  by (induction ds arbitrary: received s) (auto intro: R_refl R_trans [OF persist_repository_R])

lemma discover_page_R:
  assumes "discover_page st x ro m result_cap q parameters url received w s = (r, w', s')" "run_uses c cap ro"
  shows "R (w, s) (w', s')"
proof -
  obtain r2 w1 s1 raw where f: "fetch st x ro (Some m) None
      \<lparr>ghq_endpoint = RepositorySearch, ghq_url = url, ghq_parameters = parameters, ghq_repository_id = None,
       ghq_etag = None\<rparr> w s = (r2, w1, (s1, raw))" by (metis prod_cases4)
  note one = fetch_R [OF f assms(2)]
  have bad: "R (w1, s1) (w1, on_db (record_github_parse_error i err) s1)" for i err
    by (rule R_on_db) (rule unreadable)
  show ?thesis
    using assms(1) f one R_trans [OF one bad] R_trans [OF one persist_repositories_R]
    by (auto simp: discover_page_def Let_def split: sum.splits if_splits github_error.splits)
qed

lemma discover_pages_R:
  "discover_pages st x ro m result_cap q parameters next_url received w s = (r, w', s') \<Longrightarrow> run_uses c cap ro \<Longrightarrow> R (w, s) (w', s')"
proof (induction "nat (result_cap - received)" arbitrary: next_url received w s rule: less_induct)
  case less
  note run = less.prems(1) [unfolded discover_pages.simps [of st x ro m result_cap q parameters next_url]]
  show ?case
  proof (cases next_url)
    case None
    then show ?thesis using run by (simp add: R_refl)
  next
    case (Some url)
    show ?thesis
    proof (cases "received \<ge> result_cap")
      case True
      then show ?thesis using run Some by (simp add: R_refl)
    next
      case False
      obtain r2 w1 s1 where p: "discover_page st x ro m result_cap q parameters url received w s = (r2, w1, s1)"
        by (metis prod_cases3)
      note one = discover_page_R [OF p less.prems(2)]
      show ?thesis
      proof (cases r2)
        case (Inl err)
        then show ?thesis using run Some False p one by simp
      next
        case (Inr z)
        obtain next_url' received' where z: "z = (next_url', received')" by (cases z)
        have rest: "discover_pages st x ro m result_cap q parameters next_url' received' w1 s1 = (r, w', s')"
          using run Some False p Inr z by simp
        show ?thesis
        proof (cases next_url')
          case None
          then have "w' = w1" "s' = s1" using rest by (simp_all add: discover_pages.simps [of st x ro m result_cap q parameters None])
          then show ?thesis using one by simp
        next
          case (Some v)
          have "received < received'" using discover_page_received [OF p [unfolded Inr z]] Some by simp
          then have "R (w1, s1) (w', s')" using False less.prems(2) by (intro less.hyps [OF _ rest]) simp_all
          then show ?thesis by (rule R_trans [OF one])
        qed
      qed
    qed
  qed
qed

lemma discover_queries_R:
  "discover_queries st x ro m result_cap qs received w s = (r, w', s') \<Longrightarrow> run_uses c cap ro \<Longrightarrow> R (w, s) (w', s')"
  by (induction qs arbitrary: received w s)
    (auto simp: R_refl Let_def split: if_splits prod.splits sum.splits intro: R_trans [OF discover_pages_R] discover_pages_R)

lemma update_discovery_R:
  assumes "\<And>d. disc_mapping_id (f d) = disc_mapping_id d" "\<And>d. disc_id (f d) = disc_id d"
  shows "R (w, s) (w, on_db (update_discovery m f) s)"
  by (rule R_on_db) (rule discovered [OF assms])

lemma discover_mapping_R:
  assumes "discover_mapping st x ro result_cap m w s = (r, w', s')" "run_uses c cap ro"
  shows "R (w, s) (w', s')"
proof -
  obtain now w1 where n: "wall_now (gx_env x) w = (now, w1)" by (cases "wall_now (gx_env x) w")
  define s1 where "s1 = on_db (update_discovery m (\<lambda>d. d\<lparr>disc_status := OpRunning, disc_last_checked_at := Some now,
            disc_last_run_id := Some (gr_run ro)\<rparr>)) s"
  have "R (w1, s) (w1, s1)" unfolding s1_def by (rule update_discovery_R) simp_all
  then have one: "R (w, s) (w1, s1)" by (rule R_trans [OF R_quiet [OF wall_now_quiet [OF n]]])
  note run = assms(1) [unfolded discover_mapping_def n prod.case Let_def, folded s1_def]
  show ?thesis
  proof (cases "search_queries m")
    case (Inl err)
    then show ?thesis using run one by simp
  next
    case (Inr queries)
    obtain r2 w2 s2 where q: "discover_queries st x ro m result_cap queries 0 w1 s1 = (r2, w2, s2)" by (metis prod_cases3)
    note two = R_trans [OF one discover_queries_R [OF q assms(2)]]
    show ?thesis
    proof (cases r2)
      case (Inl err)
      then show ?thesis using run \<open>search_queries m = Inr queries\<close> q two by simp
    next
      case received: (Inr received)
      obtain t w3 where n2: "wall_now (gx_env x) w2 = (t, w3)" by (cases "wall_now (gx_env x) w2")
      have "R (w3, s2) (w3, on_db (update_discovery m (succeeded_discovery st t received)) s2)"
        by (rule update_discovery_R) (simp_all add: succeeded_discovery_def)
      from R_trans [OF R_trans [OF two R_quiet [OF wall_now_quiet [OF n2]]] this] show ?thesis
        using run Inr q received n2 by simp
    qed
  qed
qed

lemma record_mapping_error_R:
  assumes "record_mapping_error e run m err w s = (w', s')"
  shows "R (w, s) (w', s')"
proof -
  obtain t w1 where n: "wall_now e w = (t, w1)" by (cases "wall_now e w")
  obtain u w2 where n2: "wall_now e w1 = (u, w2)" by (cases "wall_now e w1")
  have q: "quiet_github w w2" using wall_now_quiet [OF n] wall_now_quiet [OF n2] by (simp add: quiet_github_def)
  have "R (w2, s) (w2, on_db (update_discovery m (failed_discovery run t err)) s)"
    by (rule update_discovery_R) (simp_all add: failed_discovery_def)
  from R_trans [OF R_trans [OF R_quiet [OF q] this] R_errors] show ?thesis
    using assms by (auto simp: record_mapping_error_def n n2)
qed

lemma count_failure_R: "R (w, s) (w, count_failure s)" "R (w, s) (w, count_stop s)"
  unfolding count_failure_def count_stop_def by (rule R_on_acc, simp)+

lemma runtime_R: "github_runtime_exceeded st e started w = (b, w') \<Longrightarrow> R (w, s) (w', s)"
  by (auto simp: github_runtime_exceeded_def intro: R_quiet wall_now_quiet split: prod.splits)

lemma discovery_turn_R:
  assumes "discovery_turn st x ro started result_cap m w s = (out, w', s')" "run_uses c cap ro"
  shows "R (w, s) (w', s')"
proof -
  obtain b w1 where rt: "github_runtime_exceeded st (gx_env x) started w = (b, w1)"
    by (cases "github_runtime_exceeded st (gx_env x) started w")
  have one: "R (w, s) (w1, s)" by (rule runtime_R [OF rt])
  note run = assms(1) [unfolded discovery_turn_def rt prod.case]
  show ?thesis
  proof (cases b)
    case True
    then show ?thesis using run R_trans [OF R_trans [OF one count_failure_R(2)] record_mapping_error_R]
      by (auto split: prod.splits)
  next
    case False
    let ?s1 = "on_acc (\<lambda>a. a\<lparr>ga_mappings_executed := ga_mappings_executed a + 1\<rparr>) s"
    have "R (w1, s) (w1, ?s1)" by (rule R_on_acc) simp
    note two = R_trans [OF one this]
    obtain r2 w2 s2 where d: "discover_mapping st x ro result_cap m w1 ?s1 = (r2, w2, s2)" by (metis prod_cases3)
    note three = R_trans [OF two discover_mapping_R [OF d assms(2)]]
    show ?thesis
      using run False d three R_trans [OF R_trans [OF three count_failure_R(1)] record_mapping_error_R]
      by (auto split: sum.splits if_splits prod.splits)
  qed
qed

lemma discovery_turns_R:
  "discovery_turns st x ro started result_cap ms w s = (r, w', s') \<Longrightarrow> run_uses c cap ro \<Longrightarrow> R (w, s) (w', s')"
  by (induction ms arbitrary: w s)
    (auto simp: R_refl split: prod.splits github_turn.splits intro: R_trans [OF discovery_turn_R] discovery_turn_R)


subsection \<open>Snapshots\<close>

lemma failed_request_R: "R (w, s) (w, failed_request i err s)"
  by (cases err) (simp_all add: failed_request_def R_refl R_on_db failure_effect)

lemma store_unchanged_R:
  assumes "store_unchanged ro repository r raw s = (res, s')" "raw \<in> set (gdb_raw (gs_db s))"
    "repository \<in> set (gdb_repositories (gs_db s))"
  shows "R (w, s) (w, s')"
proof -
  obtain o2 db where u: "create_unchanged_snapshot repository (gr_run ro) raw (ghr_requested_at r) (gs_db s) = (o2, db)"
    by (cases "create_unchanged_snapshot repository (gr_run ro) raw (ghr_requested_at r) (gs_db s)")
  have one: "R (w, s) (w, s\<lparr>gs_db := db\<rparr>)"
    using unchanged [OF assms(2,3), of "gr_run ro" "ghr_requested_at r"] u by (intro R_effect) simp
  have two: "R (w, s\<lparr>gs_db := db\<rparr>) (w, on_acc (\<lambda>a. a\<lparr>ga_snapshots_created := ga_snapshots_created a + n,
      ga_unchanged := ga_unchanged a + 1\<rparr>) (s\<lparr>gs_db := db\<rparr>))" for n
    by (rule R_on_acc) simp
  show ?thesis using assms(1) u one R_trans [OF one two] by (auto simp: store_unchanged_def split: sum.splits)
qed

lemma store_full_R:
  assumes "store_full x ro i r raw s = (res, s')" "raw \<in> set (gdb_raw (gs_db s))"
  shows "R (w, s) (w, s')"
proof (cases "parse_repository (gx_loads x) (gx_fromiso x) (ghr_payload r)")
  case (Inl err)
  let ?db1 = "record_github_parse_error (graw_id raw) err (gs_db s)"
  have "R (w, s) (w, s\<lparr>gs_db := mark_poll_failure i (ghr_requested_at r) (Some (ghr_status r)) err None ?db1\<rparr>)"
    using R_trans [OF R_effect [OF unreadable] R_effect [OF failure_effect]] by simp
  then show ?thesis using assms(1) Inl by (auto simp: store_full_def on_db_def R_refl split: github_error.splits)
next
  case (Inr d)
  obtain target created1 db1 where u: "upsert_repository d (ghr_requested_at r) (gs_db s) = ((target, created1), db1)"
    by (metis prod.collapse)
  obtain created db2 where f: "create_full_snapshot target d (gr_run ro) raw (ghr_requested_at r) (graw_etag raw) db1 = (created, db2)"
    by (cases "create_full_snapshot target d (gr_run ro) raw (ghr_requested_at r) (graw_etag raw) db1")
  have one: "github_effect (gs_db s) db1" using github_effect.repository [of "gs_db s" d "ghr_requested_at r"] u by simp
  have "gdb_raw db1 = gdb_raw (gs_db s)"
    using u by (auto simp: upsert_repository_def Let_def split: option.splits)
  then have two: "github_effect (gs_db (s\<lparr>gs_db := db1\<rparr>)) db2"
    using full [OF parse_repository_valid [OF Inr] _ upsert_repository_id [OF u], of raw "gr_run ro" "ghr_requested_at r" "graw_etag raw"]
      assms(2) f by simp
  have three: "R (w, s) (w, s\<lparr>gs_db := db2\<rparr>)" using R_trans [OF R_effect [OF one] R_effect [OF two]] by simp
  have "R (w, s\<lparr>gs_db := db2\<rparr>) (w, on_acc (\<lambda>a. a\<lparr>ga_snapshots_created := ga_snapshots_created a + bool_int created\<rparr>)
      (s\<lparr>gs_db := db2\<rparr>))"
    by (rule R_on_acc) simp
  from R_trans [OF three this] show ?thesis using assms(1) Inr u f by (simp add: store_full_def)
qed

lemma store_reply_R:
  assumes "store_reply x ro i r raw_id s = (res, s')"
  shows "R (w, s) (w, s')"
proof (cases "repository_row i (gs_db s)")
  case None
  then show ?thesis using assms by (simp add: store_reply_def R_refl)
next
  case row: (Some repository)
  show ?thesis
  proof (cases "github_raw_row raw_id (gs_db s)")
    case None
    then show ?thesis using assms row by (simp add: store_reply_def R_refl)
  next
    case (Some raw)
    note in_tables = repository_row_SomeD [OF row] github_raw_row_SomeD [OF Some]
    show ?thesis
      using assms row Some in_tables store_unchanged_R [of ro repository r raw s res s' w] store_full_R [of ro i r raw s res s' w]
      by (auto simp: store_reply_def R_refl split: if_splits)
  qed
qed

lemma snapshot_repository_R:
  assumes "snapshot_repository st x ro i w s = (res, w', s')" "run_uses c cap ro"
  shows "R (w, s) (w', s')"
proof (cases "repository_row i (gs_db s)")
  case None
  then show ?thesis using assms(1) by (simp add: snapshot_repository_def R_refl)
next
  case (Some repository)
  let ?s1 = "on_db (ensure_poll i) s"
  have one: "R (w, s) (w, ?s1)" by (rule R_on_db) (rule ensured)
  obtain r2 w1 s2 raw where f: "fetch st x ro None (Some i) (repository_request st repository (gs_db ?s1)) w ?s1 = (r2, w1, (s2, raw))"
    by (metis prod_cases4)
  note two = R_trans [OF one fetch_R [OF f assms(2)]]
  show ?thesis
    using assms(1) Some f two R_trans [OF two failed_request_R] R_trans [OF two store_reply_R]
    by (auto simp: snapshot_repository_def Let_def split: sum.splits prod.splits)
qed

lemma record_repository_error_R:
  "record_repository_error e run i err w s = (w', s') \<Longrightarrow> R (w, s) (w', s')"
  by (auto simp: record_repository_error_def R_refl split: option.splits prod.splits
      intro: R_trans [OF R_quiet [OF wall_now_quiet] R_errors])

lemma snapshot_turn_R:
  assumes "snapshot_turn st x ro started i w s = (out, w', s')" "run_uses c cap ro"
  shows "R (w, s) (w', s')"
proof (cases "requests_sent s \<ge> gr_request_cap ro")
  case True
  then show ?thesis using assms(1) count_failure_R(2) by (auto simp: snapshot_turn_def)
next
  case low: False
  obtain b w1 where rt: "github_runtime_exceeded st (gx_env x) started w = (b, w1)"
    by (cases "github_runtime_exceeded st (gx_env x) started w")
  have one: "R (w, s) (w1, s)" by (rule runtime_R [OF rt])
  obtain r2 w2 s2 where p: "snapshot_repository st x ro i w1 s = (r2, w2, s2)" by (metis prod_cases3)
  note two = R_trans [OF one snapshot_repository_R [OF p assms(2)]]
  show ?thesis
    using assms(1) low rt p two R_trans [OF one count_failure_R(2)]
      R_trans [OF R_trans [OF two count_failure_R(1)] record_repository_error_R]
    by (auto simp: snapshot_turn_def split: if_splits sum.splits prod.splits bool.splits)
qed

lemma snapshot_turns_R:
  "snapshot_turns st x ro started ids w s = (r, w', s') \<Longrightarrow> run_uses c cap ro \<Longrightarrow> R (w, s) (w', s')"
  by (induction ids arbitrary: w s)
    (auto simp: R_refl split: prod.splits github_turn.splits intro: R_trans [OF snapshot_turn_R] snapshot_turn_R)


subsection \<open>Runs\<close>

text \<open>A run starts with fresh counters; before that, nothing happens that others see.\<close>

definition from_new_run :: "'a github_result \<Rightarrow> github_world \<times> github_state \<Rightarrow> github_world \<times> github_state \<Rightarrow> bool" where
  "from_new_run r z z' =
     ((\<exists>err. r = Inl err) \<and> snd z' = snd z \<and> quiet_github (fst z) (fst z') \<or>
      (\<exists>a. ga_requests_sent a = 0 \<and> R (fst z, (snd z)\<lparr>gs_acc := a\<rparr>) z'))"

lemma end_github_run_R:
  assumes "end_github_run st e mode started run w s = (r, w', s')"
  shows "R (w, s) (w', s')"
proof -
  obtain quality w1 where q: "github_quality st e mode w s = (quality, w1)" by (cases "github_quality st e mode w s")
  obtain now w2 where n: "wall_now e w1 = (now, w2)" by (cases "wall_now e w1")
  have "quiet_github w w2"
    using q wall_now_quiet [OF n] by (auto simp: github_quality_def Let_def quiet_github_def dest: wall_now_quiet split: prod.splits)
  then have "R (w, s) (w2, s)" by (rule R_quiet)
  moreover have "w' = w2" "s' = s\<lparr>gs_runs := gs_runs s', gs_errors := gs_errors s, gs_checks := gs_checks s'\<rparr>"
    using assms q n by (auto simp: end_github_run_def finish_github_run_def Let_def)
  ultimately show ?thesis using R_trans [OF _ R_log] by metis
qed

lemma service_client_uses:
  assumes "service_client st provided w = (Inr c', w')"
  shows "quiet_github w w'" "c' = (case provided of None \<Rightarrow> hs_client st | Some c \<Rightarrow> c)"
  using assms by (auto simp: service_client_def quiet_github_def split: option.splits sum.splits github_error.splits)

lemma service_client_quiet: "service_client st provided w = (r, w') \<Longrightarrow> quiet_github w w'"
  by (auto simp: service_client_def quiet_github_def split: option.splits sum.splits github_error.splits)

lemma start_github_run_R: "start_github_run st rg mode started s = (r, s') \<Longrightarrow> R (w, s) (w, s')"
  by (auto simp: start_github_run_def R_refl R_runs Let_def split: sum.splits)

lemma run_discovery_R:
  assumes "run_discovery st x rg provided mappings result_cap cap started w s = (r, w', s')"
    "c = (case provided of None \<Rightarrow> hs_client st | Some c \<Rightarrow> c)"
  shows "R (w, s) (w', s')"
proof -
  obtain c2 w1 where sc: "service_client st provided w = (c2, w1)" by (cases "service_client st provided w")
  have one: "R (w, s) (w1, s)" by (rule R_quiet [OF service_client_quiet [OF sc]])
  show ?thesis
  proof (cases c2)
    case (Inl err)
    then show ?thesis using assms(1) sc one by (simp add: run_discovery_def)
  next
    case (Inr c')
    obtain run s1 where sr: "start_github_run st rg ''discovery'' started s = (run, s1)"
      by (cases "start_github_run st rg ''discovery'' started s")
    note two = R_trans [OF one start_github_run_R [OF sr]]
    show ?thesis
    proof (cases run)
      case (Inl err)
      then show ?thesis using assms(1) sc Inr sr two by (simp add: run_discovery_def)
    next
      case run: (Inr i)
      let ?ro = "\<lparr>gr_run = i, gr_client = c', gr_request_cap = cap\<rparr>"
      have u: "run_uses c cap ?ro" using service_client_uses(2) [OF sc [unfolded Inr]] assms(2) by (simp add: run_uses_def)
      obtain r2 w2 s2 where t: "discovery_turns st x ?ro started result_cap (map fst mappings) w1 s1 = (r2, w2, s2)"
        by (metis prod_cases3)
      note three = R_trans [OF two discovery_turns_R [OF t u]]
      show ?thesis
        using assms(1) sc Inr sr run t three R_trans [OF three end_github_run_R]
        by (auto simp: run_discovery_def split: sum.splits)
    qed
  qed
qed

lemma run_snapshot_R:
  assumes "run_snapshot st x rg provided repositories cap started w s = (r, w', s')"
    "c = (case provided of None \<Rightarrow> hs_client st | Some c \<Rightarrow> c)"
  shows "R (w, s) (w', s')"
proof -
  obtain c2 w1 where sc: "service_client st provided w = (c2, w1)" by (cases "service_client st provided w")
  have one: "R (w, s) (w1, s)" by (rule R_quiet [OF service_client_quiet [OF sc]])
  show ?thesis
  proof (cases c2)
    case (Inl err)
    then show ?thesis using assms(1) sc one by (simp add: run_snapshot_def)
  next
    case (Inr c')
    obtain run s1 where sr: "start_github_run st rg ''snapshot'' started s = (run, s1)"
      by (cases "start_github_run st rg ''snapshot'' started s")
    note two = R_trans [OF one start_github_run_R [OF sr]]
    show ?thesis
    proof (cases run)
      case (Inl err)
      then show ?thesis using assms(1) sc Inr sr two by (simp add: run_snapshot_def)
    next
      case run: (Inr i)
      let ?ro = "\<lparr>gr_run = i, gr_client = c', gr_request_cap = cap\<rparr>"
      have u: "run_uses c cap ?ro" using service_client_uses(2) [OF sc [unfolded Inr]] assms(2) by (simp add: run_uses_def)
      obtain r2 w2 s2 where t: "snapshot_turns st x ?ro started (map repo_id repositories) w1 s1 = (r2, w2, s2)"
        by (metis prod_cases3)
      note three = R_trans [OF two snapshot_turns_R [OF t u]]
      show ?thesis
        using assms(1) sc Inr sr run t three R_trans [OF three end_github_run_R]
        by (auto simp: run_snapshot_def split: sum.splits)
    qed
  qed
qed

lemma dry_github_run_R: "dry_github_run st e started w s = (r, w', s') \<Longrightarrow> R (w, s) (w', s')"
  by (auto simp: dry_github_run_def R_quiet wall_now_quiet split: prod.splits)

lemma new_run_R:
  assumes "wall_now e w = (t, w1)" "ga_requests_sent a = 0" "R (w1, s\<lparr>gs_acc := a\<rparr>) (w', s')"
  shows "from_new_run r (w, s) (w', s')"
  unfolding from_new_run_def
  using assms(2) R_trans [OF R_quiet [OF wall_now_quiet [OF assms(1)]] assms(3)] by (intro disjI2 exI [of _ a]) simp

lemma idle_R: "wall_now e w = (t, w1) \<Longrightarrow> from_new_run (Inl err) (w, s) (w1, s)"
  by (simp add: from_new_run_def wall_now_quiet)

lemma discover_R:
  assumes "discover st x rg provided slugs dry_run max_results max_requests w s = (r, w', s')"
    "c = (case provided of None \<Rightarrow> hs_client st | Some c \<Rightarrow> c)" "cap = or_default max_requests (hs_max_requests st)"
  shows "from_new_run r (w, s) (w', s')"
proof -
  obtain t w1 where n: "wall_now (gx_env x) w = (t, w1)" by (cases "wall_now (gx_env x) w")
  have z: "ga_requests_sent (discovery_acc mappings planned) = 0" for mappings planned
    by (simp add: discovery_acc_def new_github_acc_def)
  show ?thesis
    using assms(1) n idle_R [OF n, where s = s] new_run_R [OF n z dry_github_run_R]
      new_run_R [OF n z run_discovery_R [OF _ assms(2)]] assms(3)
    by (auto simp: discover_def Let_def split: sum.splits if_splits)
qed

lemma snapshot_R:
  assumes "snapshot st x rg provided slugs ids dry_run max_requests w s = (r, w', s')"
    "c = (case provided of None \<Rightarrow> hs_client st | Some c \<Rightarrow> c)" "cap = or_default max_requests (hs_max_requests st)"
  shows "from_new_run r (w, s) (w', s')"
proof -
  obtain t w1 where n: "wall_now (gx_env x) w = (t, w1)" by (cases "wall_now (gx_env x) w")
  have z: "ga_requests_sent (snapshot_acc st slugs rows) = 0" for rows
    by (simp add: snapshot_acc_def new_github_acc_def)
  show ?thesis
    using assms(1) n idle_R [OF n, where s = s] new_run_R [OF n z dry_github_run_R]
      new_run_R [OF n z run_snapshot_R [OF _ assms(2)]] assms(3)
    by (auto simp: snapshot_def Let_def split: sum.splits if_splits)
qed

lemma github_runs_R:
  assumes "github_runs st x rg provided max_requests z r z'" "c = used_client st provided"
    "cap = or_default max_requests (hs_max_requests st)"
  shows "from_new_run r z z'"
  using assms(1)
proof (cases rule: github_runs.cases)
  case (discovery slugs dry_run max_results w s w' s')
  show ?thesis unfolding discovery(1,2)
    by (rule discover_R [OF discovery(3) _ assms(3)]) (simp add: assms(2) used_client_def)
next
  case (snapshots slugs ids dry_run w s w' s')
  show ?thesis unfolding snapshots(1,2)
    by (rule snapshot_R [OF snapshots(3) _ assms(3)]) (simp add: assms(2) used_client_def)
qed

end

end
