(* ===== verification/Github_Tables.thy ===== *)
theory Github_Tables
  imports Github_Effects
begin

text \<open>
  What the changes of \<open>github_effect\<close> do to the tables: they respect every constraint, and they keep the
  history.  A table grows when its rows stay in place, each in a given relation to what it was, and new
  rows are only added at the end.
\<close>


section \<open>Growing tables\<close>

definition grows :: "('a \<Rightarrow> 'a \<Rightarrow> bool) \<Rightarrow> 'a list \<Rightarrow> 'a list \<Rightarrow> bool" where
  "grows P xs ys = (length xs \<le> length ys \<and> list_all2 P xs (take (length xs) ys))"

lemma grows_refl: "(\<And>x. P x x) \<Longrightarrow> grows P xs xs"
  by (simp add: grows_def list_all2_conv_all_nth)

lemma grows_map: "(\<And>x. P x (f x)) \<Longrightarrow> grows P xs (map f xs)"
  by (simp add: grows_def list_all2_conv_all_nth)

lemma grows_append: "(\<And>x. P x x) \<Longrightarrow> grows P xs (xs @ ys)"
  by (simp add: grows_def list_all2_conv_all_nth)

lemma grows_trans:
  assumes "grows P xs ys" "grows P ys zs" "\<And>x y z. P x y \<Longrightarrow> P y z \<Longrightarrow> P x z"
  shows "grows P xs zs"
proof -
  have "P (xs ! i) (zs ! i)" if "i < length xs" for i
    using assms that by (fastforce simp: grows_def list_all2_conv_all_nth)
  with assms(1,2) show ?thesis by (auto simp: grows_def list_all2_conv_all_nth)
qed

lemma grows_mem: "grows P xs ys \<Longrightarrow> x \<in> set xs \<Longrightarrow> \<exists>y\<in>set ys. P x y"
  by (auto simp: grows_def in_set_conv_nth list_all2_conv_all_nth) (metis nth_mem order_less_le_trans)

lemma grows_eq: "grows (=) xs ys \<longleftrightarrow> (\<exists>new. ys = xs @ new)"
proof
  assume g: "grows (=) xs ys"
  then have "take (length xs) ys = xs" by (simp add: grows_def flip: list_all2_eq)
  then show "\<exists>new. ys = xs @ new" by (metis append_take_drop_id)
qed (auto simp: grows_append)


section \<open>History\<close>

definition repository_grows :: "github_repository \<Rightarrow> github_repository \<Rightarrow> bool" where
  "repository_grows r r' =
     (repo_id r' = repo_id r \<and> repo_github_id r' = repo_github_id r \<and>
      repo_first_observed_at r' = repo_first_observed_at r \<and> repo_last_observed_at r \<le> repo_last_observed_at r')"

definition match_grows :: "github_match \<Rightarrow> github_match \<Rightarrow> bool" where
  "match_grows x x' =
     (gmatch_id x' = gmatch_id x \<and> gmatch_topic_id x' = gmatch_topic_id x \<and>
      gmatch_repository_id x' = gmatch_repository_id x \<and> gmatch_mapping_id x' = gmatch_mapping_id x \<and>
      gmatch_query x' = gmatch_query x \<and> gmatch_first_at x' = gmatch_first_at x \<and>
      gmatch_first_run_id x' = gmatch_first_run_id x \<and> gmatch_last_at x \<le> gmatch_last_at x' \<and>
      gmatch_rank x' \<le> gmatch_rank x \<and> (gmatch_tracking x' = Ignored \<longleftrightarrow> gmatch_tracking x = Ignored))"

definition raw_kept :: "github_raw_response \<Rightarrow> github_raw_response \<Rightarrow> bool" where
  "raw_kept r r' = (r\<lparr>graw_parse_error := None\<rparr> = r'\<lparr>graw_parse_error := None\<rparr>)"

definition poll_kept :: "github_poll_state \<Rightarrow> github_poll_state \<Rightarrow> bool" where
  "poll_kept p p' = (poll_id p' = poll_id p \<and> poll_repository_id p' = poll_repository_id p)"

definition discovery_kept :: "github_discovery_state \<Rightarrow> github_discovery_state \<Rightarrow> bool" where
  "discovery_kept d d' = (disc_id d' = disc_id d \<and> disc_mapping_id d' = disc_mapping_id d)"

definition github_history :: "github_db \<Rightarrow> github_db \<Rightarrow> bool" where
  "github_history db db' =
     (grows repository_grows (gdb_repositories db) (gdb_repositories db') \<and>
      grows (=) (gdb_snapshots db) (gdb_snapshots db') \<and> grows match_grows (gdb_matches db) (gdb_matches db') \<and>
      grows raw_kept (gdb_raw db) (gdb_raw db') \<and> grows poll_kept (gdb_polls db) (gdb_polls db') \<and>
      grows discovery_kept (gdb_discovery db) (gdb_discovery db'))"

lemmas kept_defs = repository_grows_def match_grows_def raw_kept_def poll_kept_def discovery_kept_def

lemma kept_refl [simp]:
  "repository_grows r r" "match_grows x x" "raw_kept w w" "poll_kept p p" "discovery_kept d d"
  by (simp_all add: kept_defs)

lemma github_history_refl [simp]: "github_history db db"
  by (simp add: github_history_def grows_refl)

lemma github_history_trans: "github_history db db' \<Longrightarrow> github_history db' db'' \<Longrightarrow> github_history db db''"
  unfolding github_history_def
  by (elim conjE, intro conjI; erule (1) grows_trans) (auto simp: kept_defs)

lemma upsert_repository_history: "github_history db (snd (upsert_repository d t db))"
  by (auto simp: github_history_def upsert_repository_def Let_def grows_refl grows_append repository_grows_def
      repository_values_def intro: grows_map split: option.split)

lemma upsert_github_match_history:
  assumes "tracking \<noteq> Ignored"
  shows "github_history db (snd (upsert_github_match i m q rank run t tracking raw db))"
  using assms
  by (auto simp: github_history_def upsert_github_match_def grows_refl grows_append match_grows_def intro!: grows_map split: option.split)

lemma ensure_poll_history: "github_history db (ensure_poll i db)"
  by (simp add: github_history_def ensure_poll_def grows_refl grows_append split: option.split)

lemma map_polls_history:
  assumes "\<And>p. poll_kept p (f p)"
  shows "github_history db (db\<lparr>gdb_polls := map f (gdb_polls db)\<rparr>)"
  using assms by (simp add: github_history_def grows_refl grows_map)

lemma update_poll_history:
  assumes "\<And>p. poll_kept p (f p)"
  shows "github_history db (update_poll i f db)"
  unfolding update_poll_def Let_def
  by (rule github_history_trans [OF ensure_poll_history map_polls_history]) (simp add: assms)

lemma update_discovery_history:
  assumes "\<And>d. discovery_kept d (f d)"
  shows "github_history db (update_discovery m f db)"
proof -
  have "github_history db (discovery_state m db)"
    by (simp add: github_history_def discovery_state_def grows_refl grows_append)
  moreover have "github_history db' (db'\<lparr>gdb_discovery := map (\<lambda>d. if disc_mapping_id d = mapping_id m then f d else d)
      (gdb_discovery db')\<rparr>)" for db'
    using assms by (simp add: github_history_def grows_refl grows_map)
  ultimately show ?thesis unfolding update_discovery_def Let_def by (rule github_history_trans)
qed

lemma parse_error_history: "github_history db (record_github_parse_error i err db)"
  by (simp add: github_history_def record_github_parse_error_def grows_refl grows_map raw_kept_def)

lemma mark_poll_success_history: "github_history db (mark_poll_success i t s raw db)"
  unfolding mark_poll_success_def by (rule update_poll_history) (simp add: poll_kept_def)

lemma add_snapshot_history: "github_history db (add_snapshot s db)"
  by (simp add: github_history_def add_snapshot_def grows_refl grows_append)

lemma create_full_history: "github_history db (snd (create_full_snapshot i d run raw t etag db))"
  by (auto simp: create_full_snapshot_def Let_def mark_poll_success_history split: option.split
      intro: github_history_trans [OF add_snapshot_history mark_poll_success_history])

lemma create_unchanged_history: "github_history db (snd (create_unchanged_snapshot r run raw t db))"
  by (auto simp: create_unchanged_snapshot_def Let_def mark_poll_success_history split: option.split
      intro: github_history_trans [OF add_snapshot_history mark_poll_success_history])

lemma effect_history:
  assumes "github_effect db db'"
  shows "github_history db db'"
  using assms
proof (cases rule: github_effect.cases)
  case (polled f i)
  then show ?thesis by (simp add: update_poll_history poll_kept_def)
next
  case (discovered f m)
  then show ?thesis by (simp add: update_discovery_history discovery_kept_def)
qed (simp_all add: upsert_repository_history upsert_github_match_history ensure_poll_history parse_error_history
    create_full_history create_unchanged_history)


section \<open>Constraints\<close>

definition poll_unique :: "github_poll_state list \<Rightarrow> bool" where
  "poll_unique rows = distinct (map poll_repository_id rows)"

definition discovery_unique :: "github_discovery_state list \<Rightarrow> bool" where
  "discovery_unique rows = distinct (map disc_mapping_id rows)"

text \<open>Unique columns, primary keys, checks, and the foreign keys of snapshots and matches.\<close>

definition github_unique_ok :: "github_db \<Rightarrow> bool" where
  "github_unique_ok db =
     (github_repository_unique (gdb_repositories db) \<and> github_raw_unique (gdb_raw db) \<and>
      github_snapshot_unique (gdb_snapshots db) \<and> github_match_unique (gdb_matches db) \<and>
      poll_unique (gdb_polls db) \<and> discovery_unique (gdb_discovery db))"

definition github_keys_ok :: "github_db \<Rightarrow> bool" where
  "github_keys_ok db =
     (distinct (map repo_id (gdb_repositories db)) \<and> distinct (map graw_id (gdb_raw db)) \<and>
      distinct (map snap_id (gdb_snapshots db)) \<and> distinct (map gmatch_id (gdb_matches db)) \<and>
      distinct (map poll_id (gdb_polls db)) \<and> distinct (map disc_id (gdb_discovery db)))"

definition github_references_ok :: "github_db \<Rightarrow> bool" where
  "github_references_ok db =
     (list_all (\<lambda>s. github_snapshot_check s \<and> snap_repository_id s \<in> repo_id ` set (gdb_repositories db) \<and>
          snap_raw_id s \<in> graw_id ` set (gdb_raw db)) (gdb_snapshots db) \<and>
      list_all (\<lambda>x. gmatch_repository_id x \<in> repo_id ` set (gdb_repositories db)) (gdb_matches db))"

definition github_tables_ok :: "github_db \<Rightarrow> bool" where
  "github_tables_ok db = (github_unique_ok db \<and> github_keys_ok db \<and> github_references_ok db)"

lemma distinct_map_same: "distinct (map k xs) \<Longrightarrow> (\<And>x. k (f x) = k x) \<Longrightarrow> distinct (map k (map f xs))"
  by (simp add: comp_def)

lemma find_none_key: "find (\<lambda>x. k x = v) xs = None \<longleftrightarrow> v \<notin> k ` set xs"
  by (auto simp: find_None_iff)

lemma upsert_repository_tables:
  assumes "github_tables_ok db"
  shows "github_tables_ok (snd (upsert_repository d t db))"
proof (cases "find (\<lambda>r. repo_github_id r = gd_github_id d) (gdb_repositories db)")
  case None
  let ?i = "fresh_id (map repo_id (gdb_repositories db))"
  have "?i \<notin> repo_id ` set (gdb_repositories db)" using fresh_id_notin [of "map repo_id (gdb_repositories db)"] by simp
  moreover have "gd_github_id d \<notin> repo_github_id ` set (gdb_repositories db)" using None by (simp add: find_none_key)
  ultimately show ?thesis
    using assms None
    by (auto simp del: fresh_id_notin simp: github_tables_ok_def github_unique_ok_def github_keys_ok_def github_references_ok_def
        upsert_repository_def Let_def github_repository_unique_def repository_values_def blank_repository_def list_all_iff)
next
  case (Some old)
  define g where "g r = (if repo_id r = repo_id old then
      (repository_values d r)\<lparr>repo_last_observed_at := max (repo_last_observed_at r) t\<rparr> else r)" for r
  have g: "repo_id (g r) = repo_id r" "repo_github_id (g r) = repo_github_id r" for r
    by (simp_all add: g_def repository_values_def)
  have e: "snd (upsert_repository d t db) = db\<lparr>gdb_repositories := map g (gdb_repositories db)\<rparr>"
    using Some by (simp add: upsert_repository_def g_def [abs_def])
  show ?thesis
    using assms unfolding e
    by (simp add: github_tables_ok_def github_unique_ok_def github_keys_ok_def github_references_ok_def
        github_repository_unique_def comp_def g image_image)
qed

lemma upsert_github_match_tables:
  assumes "github_tables_ok db" "i \<in> repo_id ` set (gdb_repositories db)"
  shows "github_tables_ok (snd (upsert_github_match i m q rank run t tracking raw db))"
proof (cases "find (\<lambda>x. gmatch_topic_id x = mapping_topic_id m \<and> gmatch_repository_id x = i \<and>
    gmatch_mapping_id x = mapping_id m \<and> gmatch_query x = q) (gdb_matches db)")
  case None
  let ?i = "fresh_id (map gmatch_id (gdb_matches db))"
  have "?i \<notin> gmatch_id ` set (gdb_matches db)" using fresh_id_notin [of "map gmatch_id (gdb_matches db)"] by simp
  moreover have "(mapping_topic_id m, i, mapping_id m, q) \<notin>
      (\<lambda>x. (gmatch_topic_id x, gmatch_repository_id x, gmatch_mapping_id x, gmatch_query x)) ` set (gdb_matches db)"
    using None by (auto simp: find_None_iff)
  ultimately show ?thesis
    using assms None
    by (auto simp del: fresh_id_notin simp: github_tables_ok_def github_unique_ok_def github_keys_ok_def github_references_ok_def
        upsert_github_match_def github_match_unique_def list_all_iff)
next
  case (Some old)
  define g where "g x = (if gmatch_id x = gmatch_id old then
             x\<lparr>gmatch_last_at := max (gmatch_last_at x) t, gmatch_last_run_id := run,
               gmatch_rank := min (gmatch_rank x) rank,
               gmatch_tracking := (if gmatch_tracking x \<noteq> Ignored then tracking else gmatch_tracking x),
               gmatch_metadata := raw_reference raw\<rparr> else x)" for x :: github_match
  have g: "gmatch_id (g x) = gmatch_id x" "gmatch_topic_id (g x) = gmatch_topic_id x"
    "gmatch_repository_id (g x) = gmatch_repository_id x" "gmatch_mapping_id (g x) = gmatch_mapping_id x"
    "gmatch_query (g x) = gmatch_query x" for x by (simp_all add: g_def)
  have e: "snd (upsert_github_match i m q rank run t tracking raw db) = db\<lparr>gdb_matches := map g (gdb_matches db)\<rparr>"
    using Some by (simp add: upsert_github_match_def g_def [abs_def])
  show ?thesis
    using assms unfolding e
    by (simp add: github_tables_ok_def github_unique_ok_def github_keys_ok_def github_references_ok_def
        github_match_unique_def comp_def g list_all_iff)
qed

lemma ensure_poll_tables:
  assumes "github_tables_ok db"
  shows "github_tables_ok (ensure_poll i db)"
proof (cases "poll_of i db")
  case None
  let ?i = "fresh_id (map poll_id (gdb_polls db))"
  have "?i \<notin> poll_id ` set (gdb_polls db)" using fresh_id_notin [of "map poll_id (gdb_polls db)"] by simp
  moreover have "i \<notin> poll_repository_id ` set (gdb_polls db)" using None by (simp add: poll_of_def find_none_key)
  ultimately show ?thesis
    using assms None
    by (simp del: fresh_id_notin add: github_tables_ok_def github_unique_ok_def github_keys_ok_def github_references_ok_def
        ensure_poll_def poll_unique_def blank_poll_def)
qed (use assms in \<open>simp add: ensure_poll_def\<close>)

lemma map_polls_tables:
  assumes "github_tables_ok db" "\<And>p. poll_kept p (f p)"
  shows "github_tables_ok (db\<lparr>gdb_polls := map f (gdb_polls db)\<rparr>)"
  using assms
  by (simp add: github_tables_ok_def github_unique_ok_def github_keys_ok_def github_references_ok_def poll_unique_def comp_def
      poll_kept_def)

lemma update_poll_tables:
  assumes "github_tables_ok db" "\<And>p. poll_kept p (f p)"
  shows "github_tables_ok (update_poll i f db)"
  unfolding update_poll_def Let_def
  by (rule map_polls_tables [OF ensure_poll_tables [OF assms(1)]]) (simp add: assms(2))

lemma update_discovery_tables:
  assumes "github_tables_ok db" "\<And>d. discovery_kept d (f d)"
  shows "github_tables_ok (update_discovery m f db)"
proof -
  have one: "github_tables_ok (discovery_state m db)"
  proof (cases "find (\<lambda>d. disc_mapping_id d = mapping_id m) (gdb_discovery db)")
    case None
    let ?i = "fresh_id (map disc_id (gdb_discovery db))"
    have "?i \<notin> disc_id ` set (gdb_discovery db)" using fresh_id_notin [of "map disc_id (gdb_discovery db)"] by simp
    moreover have "mapping_id m \<notin> disc_mapping_id ` set (gdb_discovery db)" using None by (simp add: find_none_key)
    ultimately show ?thesis
      using assms(1) None
      by (simp del: fresh_id_notin add: github_tables_ok_def github_unique_ok_def github_keys_ok_def github_references_ok_def
          discovery_state_def discovery_unique_def blank_discovery_def)
  qed (use assms(1) in \<open>simp add: discovery_state_def\<close>)
  have "github_tables_ok (db'\<lparr>gdb_discovery := map (\<lambda>d. if disc_mapping_id d = mapping_id m then f d else d)
      (gdb_discovery db')\<rparr>)" if "github_tables_ok db'" for db'
  proof -
    define g where "g d = (if disc_mapping_id d = mapping_id m then f d else d)" for d
    have "disc_id (g d) = disc_id d" "disc_mapping_id (g d) = disc_mapping_id d" for d
      using assms(2) [of d] by (simp_all add: g_def discovery_kept_def)
    with that show ?thesis unfolding g_def [symmetric]
      by (simp add: github_tables_ok_def github_unique_ok_def github_keys_ok_def github_references_ok_def
          discovery_unique_def comp_def)
  qed
  with one show ?thesis by (simp add: update_discovery_def Let_def)
qed

lemma parse_error_tables:
  assumes "github_tables_ok db"
  shows "github_tables_ok (record_github_parse_error i err db)"
proof -
  define g where "g r = (if graw_id r = i then
      r\<lparr>graw_parse_error := Some (github_error_name err @ '': '' @ github_error_text err)\<rparr> else r)" for r :: github_raw_response
  have g: "graw_id (g r) = graw_id r" "graw_raw_path (g r) = graw_raw_path r" for r by (simp_all add: g_def)
  have e: "record_github_parse_error i err db = db\<lparr>gdb_raw := map g (gdb_raw db)\<rparr>"
    by (simp add: record_github_parse_error_def g_def [abs_def])
  show ?thesis
    using assms unfolding e
    by (simp add: github_tables_ok_def github_unique_ok_def github_keys_ok_def github_references_ok_def github_raw_unique_def
        comp_def g image_image)
qed

lemma add_snapshot_tables:
  assumes "github_tables_ok db" "github_snapshot_check s" "snap_repository_id s \<in> repo_id ` set (gdb_repositories db)"
    "snap_raw_id s \<in> graw_id ` set (gdb_raw db)" "snap_id s = fresh_id (map snap_id (gdb_snapshots db))"
    "daily_snapshot (snap_repository_id s) (snap_date s) db = None"
  shows "github_tables_ok (add_snapshot s db)"
proof -
  have "snap_id s \<notin> snap_id ` set (gdb_snapshots db)"
    using fresh_id_notin [of "map snap_id (gdb_snapshots db)"] assms(5) by simp
  moreover have "(snap_repository_id s, snap_date s) \<notin> (\<lambda>s. (snap_repository_id s, snap_date s)) ` set (gdb_snapshots db)"
    using assms(6) by (auto simp: daily_snapshot_def find_None_iff)
  ultimately show ?thesis
    using assms(1-4)
    by (auto simp: github_tables_ok_def github_unique_ok_def github_keys_ok_def github_references_ok_def
        github_snapshot_unique_def add_snapshot_def)
qed

lemma mark_poll_success_tables: "github_tables_ok db \<Longrightarrow> github_tables_ok (mark_poll_success i t s raw db)"
  unfolding mark_poll_success_def by (rule update_poll_tables) (simp_all add: poll_kept_def)

lemma create_full_tables:
  assumes "github_tables_ok db" "repository_data_valid d" "raw \<in> set (gdb_raw db)" "i \<in> repo_id ` set (gdb_repositories db)"
  shows "github_tables_ok (snd (create_full_snapshot i d run raw t etag db))"
proof (cases "daily_snapshot i (date_of t) db")
  case None
  let ?s = "full_snapshot i d run raw t etag (fresh_id (map snap_id (gdb_snapshots db)))"
  have "github_tables_ok (add_snapshot ?s db)"
    by (rule add_snapshot_tables)
      (use assms None in \<open>auto simp: full_snapshot_def github_snapshot_check_def repository_data_valid_def\<close>)
  then show ?thesis using None by (simp add: create_full_snapshot_def Let_def mark_poll_success_tables)
qed (simp add: create_full_snapshot_def mark_poll_success_tables assms(1))

lemma latest_by_mem: "latest_by key xs = Some x \<Longrightarrow> x \<in> set xs"
proof -
  have "foldl (\<lambda>a r. if key a < key r then r else a) y ys \<in> insert y (set ys)" for y ys
    by (induction ys arbitrary: y) auto
  then show "latest_by key xs = Some x \<Longrightarrow> x \<in> set xs" by (cases xs) auto
qed

lemma create_unchanged_tables:
  assumes "github_tables_ok db" "raw \<in> set (gdb_raw db)" "r \<in> set (gdb_repositories db)"
  shows "github_tables_ok (snd (create_unchanged_snapshot r run raw t db))"
proof (cases "daily_snapshot (repo_id r) (date_of t) db")
  case None
  show ?thesis
  proof (cases "latest_by snap_observed_at (filter (\<lambda>s. snap_repository_id s = repo_id r) (gdb_snapshots db))")
    case (Some previous)
    have p: "github_snapshot_check previous"
      using latest_by_mem [OF Some] assms(1) by (auto simp: github_tables_ok_def github_references_ok_def list_all_iff)
    let ?s = "unchanged_snapshot r previous run raw t (fresh_id (map snap_id (gdb_snapshots db)))"
    have "github_tables_ok (add_snapshot ?s db)"
      by (rule add_snapshot_tables)
        (use assms None p in \<open>auto simp: unchanged_snapshot_def github_snapshot_check_def\<close>)
    then show ?thesis using None Some by (simp add: create_unchanged_snapshot_def Let_def mark_poll_success_tables)
  qed (use None assms(1) in \<open>simp add: create_unchanged_snapshot_def\<close>)
qed (simp add: create_unchanged_snapshot_def mark_poll_success_tables assms(1))

lemma effect_tables:
  assumes "github_effect db db'" "github_tables_ok db"
  shows "github_tables_ok db'"
  using assms(1)
proof (cases rule: github_effect.cases)
  case (polled f i)
  then show ?thesis using assms(2) by (simp add: update_poll_tables poll_kept_def)
next
  case (discovered f m)
  then show ?thesis using assms(2) by (simp add: update_discovery_tables discovery_kept_def)
qed (use assms(2) in \<open>simp_all add: upsert_repository_tables upsert_github_match_tables ensure_poll_tables parse_error_tables
    create_full_tables create_unchanged_tables\<close>)

end
