(* ===== verification/Github_Guarantees.thy ===== *)
theory Github_Guarantees
  imports Github_Tables
begin

text \<open>
  What holds of whole GitHub runs: \<open>github_relation\<close> interpreted for the request budget and the waiting
  times, for the evidence of every response, and for the constraints and the history of the tables.
\<close>


section \<open>The two callbacks\<close>

lemma count_github_attempt_cases:
  assumes "count_github_attempt cap (s, raw) = (r, ps)"
  obtains (refused) "r = Inl GithubRequestLimitReached" "ps = (s, raw)" "requests_sent s \<ge> cap"
  | (counted) "r = Inr ()" "ps = (on_acc (\<lambda>a. a\<lparr>ga_requests_sent := ga_requests_sent a + 1\<rparr>) s, raw)"
      "requests_sent s < cap"
  using assms by (auto simp: count_github_attempt_def split: if_splits)

lemma preserve_github_cases:
  assumes "preserve_github st x run mapping repository r (s, raw) = (res, (s', raw'))"
  obtains (failed) err wr files where "res = Inl err" "raw' = raw"
      "raw_write (gx_codec x) (gx_fault x (gs_writes s)) (github_raw_request (gx_codec x) r) (gs_files s) = (wr, files)"
      "s' = s\<lparr>gs_files := files, gs_writes := Suc (gs_writes s)\<rparr>"
  | (recorded) rec files i db where "res = Inr ()" "raw' = Some i"
      "raw_write (gx_codec x) (gx_fault x (gs_writes s)) (github_raw_request (gx_codec x) r) (gs_files s) = (Inr rec, files)"
      "record_github_raw (hs_raw_root st) (gx_codec x) run mapping repository rec r (gs_db s) = (Inr i, db)"
      "s' = on_acc (count_response r) (s\<lparr>gs_files := files, gs_writes := Suc (gs_writes s), gs_db := db\<rparr>)"
proof -
  obtain wr files where w: "raw_write (gx_codec x) (gx_fault x (gs_writes s)) (github_raw_request (gx_codec x) r) (gs_files s) = (wr, files)"
    by (metis prod.collapse)
  show ?thesis
  proof (cases wr)
    case (Inl e)
    then show ?thesis using assms w by (intro failed) (auto simp: preserve_github_def)
  next
    case (Inr rec)
    obtain o2 db where rr: "record_github_raw (hs_raw_root st) (gx_codec x) run mapping repository rec r (gs_db s) = (o2, db)"
      by (metis prod.collapse)
    show ?thesis
    proof (cases o2)
      case (Inl e)
      then show ?thesis using assms w Inr rr by (intro failed) (auto simp: preserve_github_def Let_def)
    next
      case (Inr i)
      then show ?thesis using assms w \<open>wr = Inr rec\<close> rr by (intro recorded) (auto simp: preserve_github_def Let_def)
    qed
  qed
qed

lemma count_response_sent [simp]: "ga_requests_sent (count_response r a) = ga_requests_sent a"
  by (simp add: count_response_def Let_def)

lemma preserve_github_sent:
  "preserve_github st x run mapping repository r (s, raw) = (res, (s', raw')) \<Longrightarrow> requests_sent s' = requests_sent s"
  by (erule preserve_github_cases) (simp_all add: on_acc_def)

lemma record_github_raw_cases:
  assumes "record_github_raw root cd run mapping repository rec r db = (Inr i, db')"
  obtains (known) row where "db' = db" "row \<in> set (gdb_raw db)" "graw_id row = i" "raw_path_of root rec = Inr (graw_raw_path row)"
  | (added) path where "raw_path_of root rec = Inr path" "path \<notin> graw_raw_path ` set (gdb_raw db)"
      "i = fresh_id (map graw_id (gdb_raw db))"
      "db' = db\<lparr>gdb_raw := gdb_raw db @ [new_github_raw cd run mapping repository rec r path i]\<rparr>"
proof -
  obtain path where p: "raw_path_of root rec = Inr path"
    using assms by (auto simp: record_github_raw_def split: sum.splits)
  show ?thesis
  proof (cases "find (\<lambda>row. graw_raw_path row = path) (gdb_raw db)")
    case None
    then have "path \<notin> graw_raw_path ` set (gdb_raw db)" by (simp add: find_none_key)
    then show ?thesis using assms p None by (intro added [of path]) (auto simp: record_github_raw_def Let_def)
  next
    case (Some row)
    from find_row_SomeD [OF Some] show ?thesis using assms p Some
      by (intro known [of row]) (auto simp: record_github_raw_def)
  qed
qed


section \<open>Requests and waiting\<close>

text \<open>
  Every transport call is counted, calls stop at the cap, and no sleep is longer than the configured
  maximum or the longest back-off (30 seconds and a jitter of at most one).
\<close>

definition spends ::
  "github_env \<Rightarrow> github_client \<Rightarrow> int \<Rightarrow> github_world \<times> github_state \<Rightarrow> github_world \<times> github_state \<Rightarrow> bool" where
  "spends e c cap z z' =
     (\<exists>calls slept. gw_calls (fst z') = gw_calls (fst z) @ calls \<and> gw_slept (fst z') = gw_slept (fst z) @ slept \<and>
        int (length calls) = requests_sent (snd z') - requests_sent (snd z) \<and>
        (calls \<noteq> [] \<longrightarrow> requests_sent (snd z') \<le> cap) \<and> length slept \<le> length calls \<and>
        ((\<forall>n. int (ge_jitter e n) \<le> second_us) \<longrightarrow>
           (\<forall>d\<in>set slept. 0 \<le> d \<and> d \<le> max (gc_max_wait c) (31 * second_us))))"

lemma spends_quiet:
  assumes "quiet_github w w'" "requests_sent s' = requests_sent s"
  shows "spends e c cap (w, s) (w', s')"
  unfolding spends_def by (rule exI [of _ "[]"], rule exI [of _ "[]"]) (use assms in \<open>simp add: quiet_github_def\<close>)

lemma spends_trans:
  assumes "spends e c cap z z'" "spends e c cap z' z''"
  shows "spends e c cap z z''"
proof -
  obtain calls slept where a: "gw_calls (fst z') = gw_calls (fst z) @ calls" "gw_slept (fst z') = gw_slept (fst z) @ slept"
    "int (length calls) = requests_sent (snd z') - requests_sent (snd z)"
    "calls \<noteq> [] \<Longrightarrow> requests_sent (snd z') \<le> cap" "length slept \<le> length calls"
    "(\<forall>n. int (ge_jitter e n) \<le> second_us) \<Longrightarrow> (\<forall>d\<in>set slept. 0 \<le> d \<and> d \<le> max (gc_max_wait c) (31 * second_us))"
    using assms(1) unfolding spends_def by blast
  obtain calls' slept' where b: "gw_calls (fst z'') = gw_calls (fst z') @ calls'" "gw_slept (fst z'') = gw_slept (fst z') @ slept'"
    "int (length calls') = requests_sent (snd z'') - requests_sent (snd z')"
    "calls' \<noteq> [] \<Longrightarrow> requests_sent (snd z'') \<le> cap" "length slept' \<le> length calls'"
    "(\<forall>n. int (ge_jitter e n) \<le> second_us) \<Longrightarrow> (\<forall>d\<in>set slept'. 0 \<le> d \<and> d \<le> max (gc_max_wait c) (31 * second_us))"
    using assms(2) unfolding spends_def by blast
  show ?thesis
    unfolding spends_def
  proof (intro exI conjI)
    show "gw_calls (fst z'') = gw_calls (fst z) @ (calls @ calls')" using a b by simp
    show "gw_slept (fst z'') = gw_slept (fst z) @ (slept @ slept')" using a b by simp
    show "calls @ calls' \<noteq> [] \<longrightarrow> requests_sent (snd z'') \<le> cap"
    proof (cases "calls' = []")
      case True
      then show ?thesis using a(4) b(3) by simp
    qed (use b(4) in simp)
    show "(\<forall>n. int (ge_jitter e n) \<le> second_us) \<longrightarrow>
        (\<forall>d\<in>set (slept @ slept'). 0 \<le> d \<and> d \<le> max (gc_max_wait c) (31 * second_us))"
      using a(6) b(6) by auto
  qed (use a b in simp_all)
qed

lemma spends_call:
  assumes "gw_calls w' = gw_calls w @ [call]" "gw_slept w' = gw_slept w" "requests_sent s' = requests_sent s + 1"
    "requests_sent s < cap"
    and "\<And>d. out = GithubSleep d \<Longrightarrow> \<forall>n. int (ge_jitter e n) \<le> second_us \<Longrightarrow> 0 \<le> d \<and> d \<le> max (gc_max_wait c) (31 * second_us)"
  shows "spends e c cap (w, s) (slept_after out w', s')"
proof (cases out)
  case (GithubFinished r)
  show ?thesis unfolding spends_def
    by (rule exI [of _ "[call]"], rule exI [of _ "[]"]) (use assms GithubFinished in \<open>simp add: slept_after_def\<close>)
next
  case (GithubSleep d)
  show ?thesis unfolding spends_def
    by (rule exI [of _ "[call]"], rule exI [of _ "[d]"])
      (use assms GithubSleep in \<open>simp add: slept_after_def sleep_us_def\<close>)
qed

lemma spends_attempt:
  assumes "github_attempt e c loads rq (preserve_github st x run mapping repository) (count_github_attempt cap) n final w
      (s, raw0) = (out, w', (s', raw1))"
  shows "spends e c cap (w, s) (slept_after out w', s')"
  using assms
proof (cases rule: github_attempt_cases)
  case (refused err)
  then have "s' = s" "slept_after out w' = w" by (auto elim: count_github_attempt_cases simp: slept_after_def)
  then show ?thesis by (simp add: spends_quiet quiet_github_def)
next
  case (lost u)
  have s: "requests_sent s' = requests_sent s + 1 \<and> requests_sent s < cap"
    using lost(1) by (rule count_github_attempt_cases) (auto simp: on_acc_def)
  have d: "0 \<le> d \<and> d \<le> max (gc_max_wait c) (31 * second_us)"
    if out: "out = GithubSleep d" and j: "\<forall>n. int (ge_jitter e n) \<le> second_us" for d
  proof -
    from lost(6) [OF out] obtain k where "0 \<le> d" "d \<le> 30 * second_us + int (ge_jitter e k)" by blast
    with j [rule_format, of k] show ?thesis by (simp add: le_max_iff_disj)
  qed
  show ?thesis by (rule spends_call [OF lost(2,3)]) (use s d in simp_all)
next
  case (answered u ps1 headers final_url rate rsp r2)
  obtain s1 raw' where ps1: "ps1 = (s1, raw')" by (cases ps1)
  have s1: "requests_sent s1 = requests_sent s + 1 \<and> requests_sent s < cap"
    using answered(1) unfolding ps1 by (rule count_github_attempt_cases) (auto simp: on_acc_def)
  have s: "requests_sent s' = requests_sent s + 1 \<and> requests_sent s < cap"
    using preserve_github_sent [OF answered(9) [unfolded ps1]] s1 by simp
  have d: "0 \<le> d \<and> d \<le> max (gc_max_wait c) (31 * second_us)"
    if out: "out = GithubSleep d" and j: "\<forall>n. int (ge_jitter e n) \<le> second_us" for d
  proof -
    obtain w1 where "after_reply e c loads n final rsp w1 = (GithubSleep d, w')" using answered(10) out by auto
    then show ?thesis using rate_limit_of_retry [OF answered(5)] j unfolding answered(6) [symmetric]
      by (intro after_reply_sleep) auto
  qed
  show ?thesis by (rule spends_call [OF answered(2,3)]) (use s d in simp_all)
qed

interpretation run_spends: github_relation st x c cap "spends (gx_env x) c cap" for st x c cap
proof unfold_locales
  show "spends (gx_env x) c cap z z" for z by (cases z) (simp add: spends_quiet quiet_github_def)
  show "spends (gx_env x) c cap z z''" if "spends (gx_env x) c cap z z'" "spends (gx_env x) c cap z' z''" for z z' z''
    using that by (rule spends_trans)
  show "spends (gx_env x) c cap (w, s) (slept_after out w', s')"
    if "github_attempt (gx_env x) c (gx_loads x) rq (preserve_github st x run mapping repository)
        (count_github_attempt cap) n final w (s, raw0) = (out, w', (s', raw1))"
    for rq run mapping repository n final w s raw0 out w' s' raw1
    using that by (rule spends_attempt)
qed (simp_all add: spends_quiet quiet_github_def)


section \<open>Every reply reaches the store\<close>

definition payload_stored :: "codec \<Rightarrow> raw_files \<Rightarrow> string \<Rightarrow> bool" where
  "payload_stored cd files payload =
     (\<exists>k d p. dict_get files k = Some d \<and> cd_gunzip cd (rd_payload d) = Some p \<and> cd_sha256 cd p = cd_sha256 cd payload)"

definition replies_stored :: "github_externals \<Rightarrow> nat \<Rightarrow> nat \<Rightarrow> raw_files \<Rightarrow> bool" where
  "replies_stored x m n files =
     (\<forall>i status headers payload final_url. m \<le> i \<longrightarrow> i < n \<longrightarrow>
        ge_transport (gx_env x) i = GithubReplied status headers payload final_url \<longrightarrow>
        is_ok (rate_limit_of headers) \<longrightarrow> payload_stored (gx_codec x) files payload)"

definition store_works :: "github_externals \<Rightarrow> bool" where
  "store_works x = (codec_ok (gx_codec x) \<and> (\<forall>n. gx_fault x n = NoFault))"

definition captures :: "github_externals \<Rightarrow> github_world \<times> github_state \<Rightarrow> github_world \<times> github_state \<Rightarrow> bool" where
  "captures x z z' =
     (store_works x \<longrightarrow> store_sound (gx_codec x) (gs_files (snd z)) \<longrightarrow>
        store_sound (gx_codec x) (gs_files (snd z')) \<and> files_kept (gs_files (snd z)) (gs_files (snd z')) \<and>
        length (gw_calls (fst z)) \<le> length (gw_calls (fst z')) \<and>
        replies_stored x (length (gw_calls (fst z))) (length (gw_calls (fst z'))) (gs_files (snd z')))"

lemma files_kept_refl [simp]: "files_kept f f"
  by (simp add: files_kept_def)

lemma files_kept_trans: "files_kept a b \<Longrightarrow> files_kept b c \<Longrightarrow> files_kept a c"
  by (simp add: files_kept_def)

lemma payload_stored_kept: "payload_stored cd files p \<Longrightarrow> files_kept files files' \<Longrightarrow> payload_stored cd files' p"
  unfolding payload_stored_def files_kept_def by blast

lemma captures_quiet:
  assumes "gw_calls w' = gw_calls w" "gs_files s' = gs_files s"
  shows "captures x (w, s) (w', s')"
  using assms by (simp add: captures_def replies_stored_def)

lemma captures_trans:
  assumes "captures x z z'" "captures x z' z''"
  shows "captures x z z''"
  unfolding captures_def
proof (intro impI)
  assume w: "store_works x" and s: "store_sound (gx_codec x) (gs_files (snd z))"
  note a = assms(1) [unfolded captures_def, rule_format, OF w s]
  note b = assms(2) [unfolded captures_def, rule_format, OF w a [THEN conjunct1]]
  have "replies_stored x (length (gw_calls (fst z))) (length (gw_calls (fst z''))) (gs_files (snd z''))"
    unfolding replies_stored_def
  proof (intro allI impI)
    fix i status headers payload final_url
    assume i: "length (gw_calls (fst z)) \<le> i" "i < length (gw_calls (fst z''))"
      and t: "ge_transport (gx_env x) i = GithubReplied status headers payload final_url" and ok: "is_ok (rate_limit_of headers)"
    show "payload_stored (gx_codec x) (gs_files (snd z'')) payload"
    proof (cases "i < length (gw_calls (fst z'))")
      case True
      have "payload_stored (gx_codec x) (gs_files (snd z')) payload"
        using a True i(1) t ok unfolding replies_stored_def by blast
      then show ?thesis using b by (blast intro: payload_stored_kept)
    next
      case False
      then show ?thesis using b i(2) t ok unfolding replies_stored_def by (meson not_le)
    qed
  qed
  then show "store_sound (gx_codec x) (gs_files (snd z'')) \<and> files_kept (gs_files (snd z)) (gs_files (snd z'')) \<and>
      length (gw_calls (fst z)) \<le> length (gw_calls (fst z'')) \<and>
      replies_stored x (length (gw_calls (fst z))) (length (gw_calls (fst z''))) (gs_files (snd z''))"
    using a b files_kept_trans by (meson order_trans)
qed

lemma raw_write_works:
  assumes "codec_ok cd" "store_sound cd files" "source_ok (wr_source q)" "utc_instant (wr_request_timestamp q) = Some t"
    "raw_write cd NoFault q files = (r, files')"
  shows "payload_stored cd files' (wr_payload q)"
proof -
  let ?k = "record_key (wr_source q) t (cd_sha256 cd (wr_payload q))"
  have sound: "store_sound cd files'"
    using raw_write_sound [OF assms(5,1,2)] by (simp add: fault_sound_def Let_def)
  have "dict_get files' ?k \<noteq> None"
    using assms(3-5) by (auto simp: raw_write_def validate_source_def publish_def Let_def split: if_splits)
  then obtain d where d: "dict_get files' ?k = Some d" by blast
  have sd: "sound_dir cd ?k d" by (rule store_sound_get [OF sound d])
  then obtain p where p: "cd_gunzip cd (rd_payload d) = Some p" "cd_sha256 cd p = md_sha256 (rd_metadata d)"
    "?k = record_key (md_source (rd_metadata d)) (md_request_timestamp (rd_metadata d)) (md_sha256 (rd_metadata d))"
    by (auto simp: sound_dir_def Let_def split: option.splits)
  have "cd_sha256 cd (wr_payload q) = md_sha256 (rd_metadata d)" using record_key_checksum [OF p(3)] by simp
  then show ?thesis using d p unfolding payload_stored_def by metis
qed

lemma count_github_attempt_files:
  "count_github_attempt cap (s, raw) = (r, (s', raw')) \<Longrightarrow> gs_files s' = gs_files s \<and> gs_db s' = gs_db s \<and> gs_writes s' = gs_writes s"
  by (erule count_github_attempt_cases) (simp_all add: on_acc_def)

lemma captures_attempt:
  assumes "github_attempt (gx_env x) c loads rq (preserve_github st x run mapping repository) (count_github_attempt cap) n final w
      (s, raw0) = (out, w', (s', raw1))"
  shows "captures x (w, s) (slept_after out w', s')"
proof -
  have calls: "gw_calls (slept_after out w') = gw_calls w'"
    by (simp add: slept_after_def sleep_us_def split: github_step.split)
  have one: "replies_stored x (length (gw_calls w)) (Suc (length (gw_calls w))) files \<longleftrightarrow>
      (\<forall>status headers payload final_url. ge_transport (gx_env x) (length (gw_calls w)) = GithubReplied status headers payload final_url \<longrightarrow>
         is_ok (rate_limit_of headers) \<longrightarrow> payload_stored (gx_codec x) files payload)" for files
    unfolding replies_stored_def by (metis le_antisym le_refl lessI less_Suc_eq_le)
  from assms show ?thesis
  proof (cases rule: github_attempt_cases)
    case (refused err)
    then show ?thesis using count_github_attempt_files [OF refused(1)] by (intro captures_quiet) (auto simp: slept_after_def)
  next
    case (lost u)
    then show ?thesis using count_github_attempt_files [OF lost(1)] by (auto simp: captures_def calls one)
  next
    case (answered u ps1 headers final_url rate rsp r2)
    obtain s1 raw' where ps1: "ps1 = (s1, raw')" by (cases ps1)
    have s1: "gs_files s1 = gs_files s" using count_github_attempt_files [OF answered(1) [unfolded ps1]] by simp
    let ?q = "github_raw_request (gx_codec x) rsp"
    have q: "source_ok (wr_source ?q)" "utc_instant (wr_request_timestamp ?q) = Some (ghr_requested_at rsp)" "wr_payload ?q = ghr_payload rsp"
      by (simp_all add: github_raw_request_def) code_simp
    have "\<exists>wr. raw_write (gx_codec x) (gx_fault x (gs_writes s1)) ?q (gs_files s) = (wr, gs_files s')"
      using answered(9) [unfolded ps1] by (rule preserve_github_cases) (auto simp: s1 on_acc_def)
    then obtain wr where w: "raw_write (gx_codec x) (gx_fault x (gs_writes s1)) ?q (gs_files s) = (wr, gs_files s')" ..
    show ?thesis
      unfolding captures_def
    proof (intro impI)
      assume works: "store_works x" and sound: "store_sound (gx_codec x) (gs_files (snd (w, s)))"
      then have f: "gx_fault x (gs_writes s1) = NoFault" "codec_ok (gx_codec x)" by (simp_all add: store_works_def)
      have sound': "store_sound (gx_codec x) (gs_files s')"
        using raw_write_sound [OF w f(2)] sound f(1) by (simp add: fault_sound_def Let_def)
      have "payload_stored (gx_codec x) (gs_files s') (ghr_payload rsp)"
        using raw_write_works [OF f(2) _ q(1,2) w [unfolded f(1)]] sound q(3) by simp
      then show "store_sound (gx_codec x) (gs_files (snd (slept_after out w', s'))) \<and>
          files_kept (gs_files (snd (w, s))) (gs_files (snd (slept_after out w', s'))) \<and>
          length (gw_calls (fst (w, s))) \<le> length (gw_calls (fst (slept_after out w', s'))) \<and>
          replies_stored x (length (gw_calls (fst (w, s)))) (length (gw_calls (fst (slept_after out w', s'))))
            (gs_files (snd (slept_after out w', s')))"
        using sound' raw_write_kept [OF w] answered(2,4) by (simp add: calls one)
    qed
  qed
qed

interpretation run_captures: github_relation st x c cap "captures x" for st x c cap
proof unfold_locales
  show "captures x z z''" if "captures x z z'" "captures x z' z''" for z z' z''
    using that by (rule captures_trans)
  show "captures x (w, s) (slept_after out w', s')"
    if "github_attempt (gx_env x) c (gx_loads x) rq (preserve_github st x run mapping repository)
        (count_github_attempt cap) n final w (s, raw0) = (out, w', (s', raw1))"
    for rq run mapping repository n final w s raw0 out w' s' raw1
    using that by (rule captures_attempt)
qed (auto simp: quiet_github_def intro: captures_quiet)


section \<open>Evidence\<close>

definition github_evidence_ok :: "codec \<Rightarrow> github_state \<Rightarrow> bool" where
  "github_evidence_ok cd s =
     list_all (\<lambda>r. pointer_ok cd (gs_files s) ''github'' (graw_raw_path r) (graw_checksum r)) (gdb_raw (gs_db s))"

definition keeps_github_evidence ::
  "codec \<Rightarrow> github_world \<times> github_state \<Rightarrow> github_world \<times> github_state \<Rightarrow> bool" where
  "keeps_github_evidence cd z z' =
     (codec_ok cd \<longrightarrow> files_kept (gs_files (snd z)) (gs_files (snd z')) \<and>
        (github_evidence_ok cd (snd z) \<longrightarrow> github_evidence_ok cd (snd z')))"

lemma raw_kept_evidence:
  assumes "list_all2 raw_kept rs rs'" "list_all (\<lambda>r. pointer_ok cd files src (graw_raw_path r) (graw_checksum r)) rs"
  shows "list_all (\<lambda>r. pointer_ok cd files src (graw_raw_path r) (graw_checksum r)) rs'"
proof -
  have "graw_raw_path r' = graw_raw_path r \<and> graw_checksum r' = graw_checksum r" if "raw_kept r r'" for r r'
    using that unfolding raw_kept_def by (metis github_raw_response.select_convs(7,8) github_raw_response.surjective
        github_raw_response.update_convs(22))
  with assms show ?thesis by (fastforce simp: list_all_length list_all2_conv_all_nth)
qed

lemma effect_raw_rows:
  assumes "github_effect db db'"
  shows "list_all2 raw_kept (gdb_raw db) (gdb_raw db')"
proof -
  have refl: "list_all2 raw_kept rs rs" for rs by (simp add: list_all2_conv_all_nth)
  have polls: "gdb_raw (update_poll i f db) = gdb_raw db" for i f db
    by (simp add: update_poll_def ensure_poll_def Let_def split: option.split)
  show ?thesis
    using assms
  proof (cases rule: github_effect.cases)
    case (unreadable i err)
    have "list_all2 raw_kept (gdb_raw db) (map g (gdb_raw db))" if "\<And>r. raw_kept r (g r)" for g
      using that by (simp add: list_all2_conv_all_nth)
    then show ?thesis by (simp add: unreadable record_github_parse_error_def raw_kept_def)
  qed (auto simp: refl polls upsert_repository_def upsert_github_match_def ensure_poll_def update_discovery_def discovery_state_def
      create_full_snapshot_def create_unchanged_snapshot_def mark_poll_success_def add_snapshot_def Let_def split: option.split)
qed

lemma attempt_evidence_ok:
  assumes "github_attempt e c loads rq (preserve_github st x run mapping repository) (count_github_attempt cap) n final w
      (s, raw0) = (out, w', (s', raw1))" "codec_ok (gx_codec x)"
  shows "files_kept (gs_files s) (gs_files s') \<and>
    (github_evidence_ok (gx_codec x) s \<longrightarrow> github_evidence_ok (gx_codec x) s')"
  using assms(1)
proof (cases rule: github_attempt_cases)
  case (refused err)
  then show ?thesis by (auto elim: count_github_attempt_cases)
next
  case (lost u)
  then show ?thesis by (auto elim: count_github_attempt_cases simp: on_acc_def github_evidence_ok_def)
next
  case (answered u ps1 headers final_url rate rsp r2)
  obtain s1 raw' where ps1: "ps1 = (s1, raw')" by (cases ps1)
  have s1: "gs_files s1 = gs_files s" "gs_db s1 = gs_db s"
    using answered(1) unfolding ps1 by (auto elim: count_github_attempt_cases simp: on_acc_def)
  from answered(9) [unfolded ps1] show ?thesis
  proof (cases rule: preserve_github_cases)
    case (failed err wr files)
    have "files_kept (gs_files s) files" using raw_write_kept [OF failed(3)] s1 by simp
    then show ?thesis using failed(4) s1 pointer_ok_kept by (auto simp: github_evidence_ok_def list_all_iff)
  next
    case (recorded rec files i db)
    have k: "files_kept (gs_files s) files" using raw_write_kept [OF recorded(3)] s1 by simp
    have g: "source_ok (wr_source (github_raw_request (gx_codec x) rsp))" by (simp add: github_raw_request_def) code_simp
    have "github_evidence_ok (gx_codec x) s'" if ok: "github_evidence_ok (gx_codec x) s"
    proof -
      have old: "list_all (\<lambda>r. pointer_ok (gx_codec x) files ''github'' (graw_raw_path r) (graw_checksum r)) (gdb_raw (gs_db s))"
        using ok pointer_ok_kept [OF _ k] by (auto simp: github_evidence_ok_def list_all_iff)
      from recorded(4) show ?thesis
      proof (cases rule: record_github_raw_cases)
        case (known row)
        then show ?thesis using old recorded(5) s1 by (simp add: github_evidence_ok_def on_acc_def)
      next
        case (added path)
        have "pointer_ok (gx_codec x) files ''github'' path (md_sha256 (rr_metadata rec))"
          using raw_write_pointer [OF recorded(3) assms(2) g added(1)] by (simp add: github_raw_request_def)
        then show ?thesis using old added(4) recorded(5) s1
          by (simp add: github_evidence_ok_def on_acc_def new_github_raw_def)
      qed
    qed
    then show ?thesis using k recorded(5) by (simp add: on_acc_def)
  qed
qed

interpretation run_evidence_github: github_relation st x c cap "keeps_github_evidence (gx_codec x)" for st x c cap
proof unfold_locales
  show "keeps_github_evidence (gx_codec x) z z''"
    if "keeps_github_evidence (gx_codec x) z z'" "keeps_github_evidence (gx_codec x) z' z''" for z z' z''
    using that files_kept_trans unfolding keeps_github_evidence_def by blast
  show "keeps_github_evidence (gx_codec x) (w, s) (w, s\<lparr>gs_db := db\<rparr>)" if "github_effect (gs_db s) db" for s db w
    using raw_kept_evidence [OF effect_raw_rows [OF that]] by (simp add: keeps_github_evidence_def github_evidence_ok_def)
  show "keeps_github_evidence (gx_codec x) (w, s) (slept_after out w', s')"
    if "github_attempt (gx_env x) c (gx_loads x) rq (preserve_github st x run mapping repository)
        (count_github_attempt cap) n final w (s, raw0) = (out, w', (s', raw1))"
    for rq run mapping repository n final w s raw0 out w' s' raw1
    using attempt_evidence_ok [OF that] by (simp add: keeps_github_evidence_def)
qed (simp_all add: keeps_github_evidence_def github_evidence_ok_def)


section \<open>Tables\<close>

definition keeps_github_tables :: "github_world \<times> github_state \<Rightarrow> github_world \<times> github_state \<Rightarrow> bool" where
  "keeps_github_tables z z' =
     (github_history (gs_db (snd z)) (gs_db (snd z')) \<and>
      (github_tables_ok (gs_db (snd z)) \<longrightarrow> github_tables_ok (gs_db (snd z'))))"

lemma new_raw_tables:
  assumes "github_tables_ok db" "graw_id row = fresh_id (map graw_id (gdb_raw db))"
    "graw_raw_path row \<notin> graw_raw_path ` set (gdb_raw db)"
  shows "github_tables_ok (db\<lparr>gdb_raw := gdb_raw db @ [row]\<rparr>)"
proof -
  have "graw_id row \<notin> graw_id ` set (gdb_raw db)"
    using fresh_id_notin [of "map graw_id (gdb_raw db)"] assms(2) by simp
  then show ?thesis using assms(1,3)
    by (auto simp: github_tables_ok_def github_unique_ok_def github_keys_ok_def github_references_ok_def
        github_raw_unique_def list_all_iff)
qed

lemma record_github_raw_tables:
  assumes "record_github_raw root cd run mapping repository rec r db = (Inr i, db')"
  shows "github_history db db' \<and> (github_tables_ok db \<longrightarrow> github_tables_ok db')"
  using assms
proof (cases rule: record_github_raw_cases)
  case (added path)
  have "github_tables_ok db \<Longrightarrow> github_tables_ok db'"
    unfolding added(4) by (rule new_raw_tables) (simp_all add: new_github_raw_def added(2,3))
  moreover have "github_history db db'" unfolding added(4) by (simp add: github_history_def grows_refl grows_append)
  ultimately show ?thesis by blast
qed simp

lemma attempt_tables_ok:
  assumes "github_attempt e c loads rq (preserve_github st x run mapping repository) (count_github_attempt cap) n final w
      (s, raw0) = (out, w', (s', raw1))"
  shows "github_history (gs_db s) (gs_db s') \<and> (github_tables_ok (gs_db s) \<longrightarrow> github_tables_ok (gs_db s'))"
  using assms
proof (cases rule: github_attempt_cases)
  case (refused err)
  then show ?thesis by (auto elim: count_github_attempt_cases)
next
  case (lost u)
  then show ?thesis by (auto elim: count_github_attempt_cases simp: on_acc_def)
next
  case (answered u ps1 headers final_url rate rsp r2)
  obtain s1 raw' where ps1: "ps1 = (s1, raw')" by (cases ps1)
  have s1: "gs_db s1 = gs_db s" using answered(1) unfolding ps1 by (auto elim: count_github_attempt_cases simp: on_acc_def)
  from answered(9) [unfolded ps1] show ?thesis
  proof (cases rule: preserve_github_cases)
    case (recorded rec files i db)
    then show ?thesis using record_github_raw_tables [OF recorded(4)] s1 by (simp add: on_acc_def)
  qed (simp add: s1)
qed

interpretation run_tables_github: github_relation st x c cap keeps_github_tables for st x c cap
proof unfold_locales
  show "keeps_github_tables z z''" if "keeps_github_tables z z'" "keeps_github_tables z' z''" for z z' z''
    using that github_history_trans unfolding keeps_github_tables_def by blast
  show "keeps_github_tables (w, s) (w, s\<lparr>gs_db := db\<rparr>)" if "github_effect (gs_db s) db" for s db w
    using effect_history [OF that] effect_tables [OF that] by (simp add: keeps_github_tables_def)
  show "keeps_github_tables (w, s) (slept_after out w', s')"
    if "github_attempt (gx_env x) c (gx_loads x) rq (preserve_github st x run mapping repository)
        (count_github_attempt cap) n final w (s, raw0) = (out, w', (s', raw1))"
    for rq run mapping repository n final w s raw0 out w' s' raw1
    using attempt_tables_ok [OF that] by (simp add: keeps_github_tables_def)
qed (simp_all add: keeps_github_tables_def)

end
