(* ===== verification/Github_Budget.thy ===== *)
theory Github_Budget
  imports Github_Effects
begin

text \<open>
  A client that is handed from one run to the next remembers the rate budgets of its last replies.  A run
  that starts at or below the floor of its resource calls nobody: every request is refused before it is
  sent, and each step leaves the transport, the sleeps and the budgets as they were.
\<close>

definition at_floor :: "rate_budgets \<Rightarrow> string \<Rightarrow> int \<Rightarrow> bool" where
  "at_floor budgets resource floor_value =
     (case dict_get budgets resource of
        None \<Rightarrow> False
      | Some b \<Rightarrow> (case rl_remaining b of None \<Rightarrow> False | Some n \<Rightarrow> n \<le> floor_value))"

lemma fetch_blocked:
  assumes "at_floor (gw_budgets w) (resource_of rq) (floor_of (gr_client ro) rq)"
  shows "\<exists>err. fetch st x ro mapping repository rq w s = (Inl err, w, (s, None))"
proof -
  obtain b n where b: "dict_get (gw_budgets w) (resource_of rq) = Some b" "rl_remaining b = Some n" "n \<le> floor_of (gr_client ro) rq"
    using assms by (auto simp: at_floor_def split: option.splits)
  show ?thesis unfolding fetch_def by (rule exI, rule github_get_floor [OF b])
qed

lemma at_floor_still: "at_floor (gw_budgets w) resource n \<Longrightarrow> still w w' \<Longrightarrow> at_floor (gw_budgets w') resource n"
  by (simp add: still_def)

lemma runtime_still: "github_runtime_exceeded st e started w = (b, w') \<Longrightarrow> still w w'"
  by (auto simp: github_runtime_exceeded_def dest: wall_now_still split: prod.splits)

lemma record_mapping_error_still: "record_mapping_error e run m err w s = (w', s') \<Longrightarrow> still w w'"
  by (auto simp: record_mapping_error_def dest!: wall_now_still intro: still_trans split: prod.splits)

lemma record_repository_error_still: "record_repository_error e run i err w s = (w', s') \<Longrightarrow> still w w'"
  by (auto simp: record_repository_error_def dest!: wall_now_still split: prod.splits option.splits)

lemma end_github_run_still: "end_github_run st e mode started run w s = (r, w', s') \<Longrightarrow> still w w'"
  by (auto simp: end_github_run_def finish_github_run_def github_quality_def Let_def dest!: wall_now_still
      intro: still_trans split: prod.splits)

lemma dry_github_run_still: "dry_github_run st e started w s = (r, w', s') \<Longrightarrow> still w w'"
  by (auto simp: dry_github_run_def dest: wall_now_still split: prod.splits)


section \<open>Discovery\<close>

abbreviation search_blocked :: "github_client \<Rightarrow> github_world \<Rightarrow> bool" where
  "search_blocked c w \<equiv> at_floor (gw_budgets w) ''search'' (gc_min_search_remaining c)"

lemma discover_page_blocked:
  assumes "search_blocked (gr_client ro) w"
  shows "\<exists>err. discover_page st x ro m result_cap query parameters url received w s = (Inl err, w, s)"
proof -
  let ?rq = "\<lparr>ghq_endpoint = RepositorySearch, ghq_url = url, ghq_parameters = parameters, ghq_repository_id = None,
    ghq_etag = None\<rparr>"
  have "at_floor (gw_budgets w) (resource_of ?rq) (floor_of (gr_client ro) ?rq)"
    using assms by (simp add: resource_of_def floor_of_def)
  from fetch_blocked [OF this] obtain err where "fetch st x ro (Some m) None ?rq w s = (Inl err, w, (s, None))" ..
  then show ?thesis by (simp add: discover_page_def)
qed

lemma discover_pages_blocked:
  assumes "search_blocked (gr_client ro) w"
  shows "\<exists>res. discover_pages st x ro m result_cap query parameters next_url received w s = (res, w, s)"
  using discover_page_blocked [OF assms]
  by (subst discover_pages.simps) (auto split: option.split, metis (mono_tags, lifting) old.prod.case old.sum.simps(5))

lemma discover_queries_blocked:
  "search_blocked (gr_client ro) w \<Longrightarrow> \<exists>res. discover_queries st x ro m result_cap qs received w s = (res, w, s)"
proof (induction qs arbitrary: received)
  case (Cons q qs)
  let ?query = "effective_query (hs_track_forks st) q"
  let ?parameters = "search_parameters ?query 1 (min (hs_page_size st) (result_cap - received))"
  obtain res where p: "discover_pages st x ro m result_cap ?query ?parameters (Some (first_url st ?parameters)) received w s = (res, w, s)"
    using discover_pages_blocked [OF Cons.prems] by blast
  show ?case
  proof (cases res)
    case (Inl err)
    then show ?thesis using p by (simp add: Let_def)
  next
    case (Inr received')
    then show ?thesis using p Cons.IH [OF Cons.prems, of received'] by (simp add: Let_def)
  qed
qed simp

lemma discover_mapping_blocked:
  assumes "discover_mapping st x ro result_cap m w s = (res, w', s')" "search_blocked (gr_client ro) w"
  shows "still w w'"
proof -
  obtain t w1 where n: "wall_now (gx_env x) w = (t, w1)" by (cases "wall_now (gx_env x) w")
  note one = wall_now_still [OF n]
  note b = at_floor_still [OF assms(2) one]
  show ?thesis
  proof (cases "search_queries m")
    case (Inl err)
    then show ?thesis using assms(1) n one by (auto simp: discover_mapping_def)
  next
    case (Inr queries)
    let ?s1 = "on_db (update_discovery m (\<lambda>d. d\<lparr>disc_status := OpRunning, disc_last_checked_at := Some t,
            disc_last_run_id := Some (gr_run ro)\<rparr>)) s"
    obtain r2 where q: "discover_queries st x ro m result_cap queries 0 w1 ?s1 = (r2, w1, ?s1)"
      using discover_queries_blocked [OF b] by blast
    show ?thesis using assms(1) n q Inr one
      by (auto simp: discover_mapping_def Let_def dest!: wall_now_still intro: still_trans split: sum.splits prod.splits)
  qed
qed

lemma discovery_turn_blocked:
  assumes "discovery_turn st x ro started result_cap m w s = (out, w', s')" "search_blocked (gr_client ro) w"
  shows "still w w'"
proof -
  obtain b w1 where rt: "github_runtime_exceeded st (gx_env x) started w = (b, w1)"
    by (cases "github_runtime_exceeded st (gx_env x) started w")
  note one = runtime_still [OF rt]
  let ?s1 = "on_acc (\<lambda>a. a\<lparr>ga_mappings_executed := ga_mappings_executed a + 1\<rparr>) s"
  obtain r2 w2 s2 where d: "discover_mapping st x ro result_cap m w1 ?s1 = (r2, w2, s2)" by (metis prod_cases3)
  note two = still_trans [OF one discover_mapping_blocked [OF d at_floor_still [OF assms(2) one]]]
  show ?thesis using assms(1) rt d one two
    by (auto simp: discovery_turn_def dest!: record_mapping_error_still intro: still_trans
        split: bool.splits sum.splits prod.splits if_splits)
qed

lemma discovery_turns_blocked:
  "discovery_turns st x ro started result_cap ms w s = (r, w', s') \<Longrightarrow> search_blocked (gr_client ro) w \<Longrightarrow> still w w'"
proof (induction ms arbitrary: w s)
  case (Cons m ms)
  obtain out w1 s1 where t: "discovery_turn st x ro started result_cap m w s = (out, w1, s1)" by (metis prod_cases3)
  note one = discovery_turn_blocked [OF t Cons.prems(2)]
  show ?case using Cons.prems(1) t one still_trans [OF one Cons.IH [OF _ at_floor_still [OF Cons.prems(2) one]]]
    by (auto split: github_turn.splits)
qed simp

lemma discover_blocked:
  assumes "discover st x rg (Some c) slugs dry_run max_results max_requests w s = (r, w', s')" "search_blocked c w"
  shows "still w w'"
proof -
  obtain t w1 where n: "wall_now (gx_env x) w = (t, w1)" by (cases "wall_now (gx_env x) w")
  note one = wall_now_still [OF n]
  note b = at_floor_still [OF assms(2) one]
  have run: "still w1 w2" if "run_discovery st x rg (Some c) mappings result_cap request_cap t w1 s1 = (r2, w2, s2)"
    for mappings result_cap request_cap s1 r2 w2 s2
    using that b
    by (auto simp: run_discovery_def service_client_def dest!: end_github_run_still discovery_turns_blocked
        intro: still_trans split: sum.splits prod.splits)
  show ?thesis using assms(1) n one
    by (auto simp: discover_def Let_def dest!: run dry_github_run_still intro: still_trans split: sum.splits if_splits)
qed


section \<open>Snapshots\<close>

abbreviation core_blocked :: "github_client \<Rightarrow> github_world \<Rightarrow> bool" where
  "core_blocked c w \<equiv> at_floor (gw_budgets w) ''core'' (gc_min_core_remaining c)"

lemma snapshot_repository_blocked:
  assumes "snapshot_repository st x ro i w s = (res, w', s')" "core_blocked (gr_client ro) w"
  shows "still w w'"
proof (cases "repository_row i (gs_db s)")
  case None
  then show ?thesis using assms(1) by (simp add: snapshot_repository_def)
next
  case (Some repository)
  let ?s1 = "on_db (ensure_poll i) s"
  let ?rq = "repository_request st repository (gs_db ?s1)"
  have "at_floor (gw_budgets w) (resource_of ?rq) (floor_of (gr_client ro) ?rq)"
    using assms(2) by (simp add: resource_of_def floor_of_def repository_request_def)
  from fetch_blocked [OF this] obtain err where "fetch st x ro None (Some i) ?rq w ?s1 = (Inl err, w, (?s1, None))" ..
  then show ?thesis using assms(1) Some by (auto simp: snapshot_repository_def Let_def)
qed

lemma snapshot_turn_blocked:
  assumes "snapshot_turn st x ro started i w s = (out, w', s')" "core_blocked (gr_client ro) w"
  shows "still w w'"
proof -
  obtain b w1 where rt: "github_runtime_exceeded st (gx_env x) started w = (b, w1)"
    by (cases "github_runtime_exceeded st (gx_env x) started w")
  note one = runtime_still [OF rt]
  obtain r2 w2 s2 where d: "snapshot_repository st x ro i w1 s = (r2, w2, s2)" by (metis prod_cases3)
  note two = still_trans [OF one snapshot_repository_blocked [OF d at_floor_still [OF assms(2) one]]]
  show ?thesis using assms(1) rt d one two
    by (auto simp: snapshot_turn_def dest!: record_repository_error_still intro: still_trans
        split: bool.splits sum.splits prod.splits if_splits)
qed

lemma snapshot_turns_blocked:
  "snapshot_turns st x ro started ids w s = (r, w', s') \<Longrightarrow> core_blocked (gr_client ro) w \<Longrightarrow> still w w'"
proof (induction ids arbitrary: w s)
  case (Cons i ids)
  obtain out w1 s1 where t: "snapshot_turn st x ro started i w s = (out, w1, s1)" by (metis prod_cases3)
  note one = snapshot_turn_blocked [OF t Cons.prems(2)]
  show ?case using Cons.prems(1) t one still_trans [OF one Cons.IH [OF _ at_floor_still [OF Cons.prems(2) one]]]
    by (auto split: github_turn.splits)
qed simp

lemma snapshot_blocked:
  assumes "snapshot st x rg (Some c) slugs ids dry_run max_requests w s = (r, w', s')" "core_blocked c w"
  shows "still w w'"
proof -
  obtain t w1 where n: "wall_now (gx_env x) w = (t, w1)" by (cases "wall_now (gx_env x) w")
  note one = wall_now_still [OF n]
  note b = at_floor_still [OF assms(2) one]
  have run: "still w1 w2" if "run_snapshot st x rg (Some c) repositories request_cap t w1 s1 = (r2, w2, s2)"
    for repositories request_cap s1 r2 w2 s2
    using that b
    by (auto simp: run_snapshot_def service_client_def dest!: end_github_run_still snapshot_turns_blocked
        intro: still_trans split: sum.splits prod.splits)
  show ?thesis using assms(1) n one
    by (auto simp: snapshot_def Let_def dest!: run dry_github_run_still intro: still_trans split: sum.splits if_splits)
qed

end
