(* ===== verification/Github_Claims.thy ===== *)
theory Github_Claims
  imports Github_Demo Github_Guarantees Github_Budget
begin

text \<open>
  The properties of whole runs of the GitHub service, with their witnesses on the runs of \<open>Github_Demo\<close>.
\<close>


section \<open>The demonstration runs\<close>

lemma demo_discover_runs:
  obtains r w s where "demo_discover = (r, w, s)"
    "github_runs github_demo_settings github_demo_externals github_demo_registry None None
       (github_world_init, github_demo_state) r (w, s)"
proof -
  obtain r w s where d: "demo_discover = (r, w, s)" by (cases demo_discover)
  show ?thesis by (rule that [OF d]) (rule github_runs.discovery [OF d [unfolded demo_discover_def]])
qed

lemma demo_externals_ok:
  "codec_ok (gx_codec github_demo_externals)" "store_works github_demo_externals"
  "ge_jitter (gx_env github_demo_externals) n = 0"
  by (simp_all add: github_demo_externals_def store_works_def demo_codec_ok)

lemma demo_state_ok:
  "github_evidence_ok cd github_demo_state" "store_sound cd (gs_files github_demo_state)"
  "github_tables_ok (gs_db github_demo_state)"
  by (simp_all add: github_demo_state_def github_evidence_ok_def store_sound_def github_tables_ok_def
      github_unique_ok_def github_keys_ok_def github_references_ok_def github_repository_unique_def github_raw_unique_def
      github_snapshot_unique_def github_match_unique_def poll_unique_def discovery_unique_def)


section \<open>The request budget\<close>

text \<open>
  C20: however it ends, a run sends at most as many requests as its limit allows, and its summary reports
  exactly the number that it sent; it never sleeps without having called, and no sleep is longer than the configured maximum
  wait or the longest back-off (30 seconds and a jitter of at most one).
\<close>

theorem github_run_bounded:
  assumes run: "github_runs st x rg provided max_requests (w, s) r (w', s')"
    and jitter: "\<forall>n. int (ge_jitter (gx_env x) n) \<le> second_us"
  shows "\<exists>calls slept. gw_calls w' = gw_calls w @ calls \<and> gw_slept w' = gw_slept w @ slept \<and>
    int (length calls) \<le> max 0 (or_default max_requests (hs_max_requests st)) \<and> length slept \<le> length calls \<and>
    (\<forall>d\<in>set slept. 0 \<le> d \<and> d \<le> max (gc_max_wait (used_client st provided)) (31 * second_us)) \<and>
    (case r of Inr sm \<Rightarrow> ga_requests_sent (gsum_counts sm) = int (length calls) | Inl _ \<Rightarrow> True)"
proof -
  let ?c = "used_client st provided" and ?cap = "or_default max_requests (hs_max_requests st)"
  from run_spends.github_runs_R [OF run refl refl]
  consider (idle) err where "r = Inl err" "quiet_github w w'"
    | (ran) a where "ga_requests_sent a = 0" "spends (gx_env x) ?c ?cap (w, s\<lparr>gs_acc := a\<rparr>) (w', s')"
    unfolding run_spends.from_new_run_def by auto
  then show ?thesis
  proof cases
    case idle
    then show ?thesis by (intro exI [of _ "[]"]) (simp add: quiet_github_def)
  next
    case ran
    then obtain calls slept where c: "gw_calls w' = gw_calls w @ calls" "gw_slept w' = gw_slept w @ slept"
      "int (length calls) = ga_requests_sent (gs_acc s')" "calls \<noteq> [] \<longrightarrow> ga_requests_sent (gs_acc s') \<le> ?cap"
      "length slept \<le> length calls" "\<forall>d\<in>set slept. 0 \<le> d \<and> d \<le> max (gc_max_wait ?c) (31 * second_us)"
      using jitter unfolding spends_def by auto
    have "int (length calls) \<le> max 0 ?cap" using c(3,4) by (cases "calls = []") auto
    then show ?thesis using c github_runs_counts run by (intro exI [of _ calls] exI [of _ slept]) (auto split: sum.split)
  qed
qed

theorem github_run_bounded_witness:
  "\<exists>calls. gw_calls (fst (snd demo_discover)) = calls \<and> int (length calls) \<le> 10 \<and>
     (case fst demo_discover of Inr sm \<Rightarrow> ga_requests_sent (gsum_counts sm) = int (length calls) | Inl _ \<Rightarrow> True)"
proof (rule demo_discover_runs)
  fix r w s
  assume d: "demo_discover = (r, w, s)" and run: "github_runs github_demo_settings github_demo_externals
      github_demo_registry None None (github_world_init, github_demo_state) r (w, s)"
  show ?thesis using github_run_bounded [OF run] unfolding d
    by (auto simp: demo_externals_ok or_default_def github_demo_settings_def github_world_init_def)
qed


section \<open>Evidence\<close>

text \<open>
  C22: however a run ends and whatever the raw store fails at, no stored record is lost or changed, and the
  pointer of every recorded response leads, below any raw root that the files are mounted at, to a record
  whose payload decodes and has the recorded checksum.
\<close>

theorem github_run_keeps_evidence:
  assumes run: "github_runs st x rg provided max_requests (w, s) r (w', s')"
    and cd: "codec_ok (gx_codec x)" and ok: "github_evidence_ok (gx_codec x) s"
  shows "github_evidence_ok (gx_codec x) s' \<and> files_kept (gs_files s) (gs_files s') \<and>
    (\<forall>row\<in>set (gdb_raw (gs_db s')). \<forall>root. \<exists>key.
       resolve_key root (graw_raw_path row) ''github'' = Inr (resolve_parts root @ key) \<and>
       dict_get (gs_files s') key \<noteq> None)"
proof -
  from run_evidence_github.github_runs_R [OF run refl refl]
  have k: "github_evidence_ok (gx_codec x) s' \<and> files_kept (gs_files s) (gs_files s')"
    unfolding run_evidence_github.from_new_run_def using cd ok
    by (auto simp: keeps_github_evidence_def github_evidence_ok_def)
  moreover have "source_ok ''github''" by code_simp
  ultimately show ?thesis using pointer_resolves by (fastforce simp: github_evidence_ok_def list_all_iff)
qed

theorem github_run_keeps_evidence_witness:
  "github_evidence_ok demo_codec (snd (snd demo_discover))"
proof (rule demo_discover_runs)
  fix r w s
  assume d: "demo_discover = (r, w, s)" and run: "github_runs github_demo_settings github_demo_externals
      github_demo_registry None None (github_world_init, github_demo_state) r (w, s)"
  show ?thesis using github_run_keeps_evidence [OF run demo_externals_ok(1) demo_state_ok(1)] unfolding d
    by (simp add: github_demo_externals_def)
qed




section \<open>Tables\<close>






section \<open>Runs that send nothing\<close>

text \<open>
  a run that is given a client whose remembered budget is at or below the floor of its resource (core
  for snapshots, search for discovery) sends no request and does not sleep, whatever it has to do.
\<close>

theorem budget_floor_stops_run:
  assumes "snapshot st x rg (Some c) slugs ids dry_run max_requests w s = (r, w', s') \<and>
      at_floor (gw_budgets w) ''core'' (gc_min_core_remaining c) \<or>
    discover st x rg (Some c) slugs dry_run max_results max_requests w s = (r, w', s') \<and>
      at_floor (gw_budgets w) ''search'' (gc_min_search_remaining c)"
  shows "gw_calls w' = gw_calls w \<and> gw_slept w' = gw_slept w \<and> gw_budgets w' = gw_budgets w"
proof -
  from assms have "still w w'" by (auto intro: snapshot_blocked discover_blocked)
  then show ?thesis by (simp add: still_def)
qed

theorem budget_floor_stops_run_witness:
  "gw_calls (fst (snd (snapshot github_demo_settings github_demo_externals github_demo_registry (Some github_demo_client)
     None None False None (github_world_init\<lparr>gw_budgets := [(''core'',
       \<lparr>rl_resource = Some ''core'', rl_limit = Some 5000, rl_remaining = Some 100, rl_reset_at = None,
        rl_retry_after = None\<rparr>)]\<rparr>) (snd (snd demo_discover))))) = []"
proof -
  let ?w = "github_world_init\<lparr>gw_budgets := [(''core'', \<lparr>rl_resource = Some ''core'', rl_limit = Some 5000,
    rl_remaining = Some 100, rl_reset_at = None, rl_retry_after = None\<rparr>)]\<rparr>"
  obtain r w s where run: "snapshot github_demo_settings github_demo_externals github_demo_registry (Some github_demo_client)
     None None False None ?w (snd (snd demo_discover)) = (r, w, s)" by (metis prod_cases3)
  have "at_floor (gw_budgets ?w) ''core'' (gc_min_core_remaining github_demo_client)"
    by (simp add: at_floor_def github_demo_client_def)
  then show ?thesis using budget_floor_stops_run [OF disjI1 [OF conjI [OF run]]] run by (simp add: github_world_init_def)
qed



end
