(* ===== verification/Backup_Models.thy ===== *)
theory Backup_Models
  imports Raw_Store Registry_Loader
begin

text \<open>
  \<open>operations/backup_models.py\<close>: the manifests and reports of a backup with their validators, and the file
  trees that backup and restore work on.

  A tree maps the parts of a path below its root to the bytes of a regular file; a directory exists when a
  file lies below it, and there are no symbolic links.
\<close>


section \<open>File trees\<close>

type_synonym byte_tree = "(string list, string) dict"

definition has_directory :: "byte_tree \<Rightarrow> string list \<Rightarrow> bool" where
  "has_directory tree p = list_ex (\<lambda>k. length p < length k \<and> take (length p) k = p) (dict_keys tree)"

definition subtree :: "string list \<Rightarrow> byte_tree \<Rightarrow> byte_tree" where
  "subtree p tree =
     map (\<lambda>(k, bytes). (drop (length p) k, bytes))
       (filter (\<lambda>(k, bytes). length p < length k \<and> take (length p) k = p) tree)"

definition below :: "string list \<Rightarrow> byte_tree \<Rightarrow> byte_tree" where
  "below p tree = map (\<lambda>(k, bytes). (p @ k, bytes)) tree"


section \<open>Validators\<close>

definition hex_char :: "char \<Rightarrow> bool" where
  "hex_char c = (let n = (of_char c :: nat) in (48 \<le> n \<and> n \<le> 57) \<or> (97 \<le> n \<and> n \<le> 102))"

definition digest_text :: "string \<Rightarrow> bool" where
  "digest_text s = (length s = 64 \<and> list_all hex_char s)"

definition backup_id_ok :: "string \<Rightarrow> bool" where
  "backup_id_ok s =
     (length s = 23 \<and> list_all (\<lambda>c. digit_of c \<noteq> None) (take 8 s @ take 6 (drop 9 s)) \<and>
      s ! 8 = CHR ''T'' \<and> s ! 15 = CHR ''Z'' \<and> s ! 16 = CHR ''-'' \<and> list_all hex_char (drop 17 s))"

text \<open>A safe logical key that begins with the name of a source; backslashes count as separators.\<close>

definition logical_path :: "string \<Rightarrow> string option" where
  "logical_path value =
     (let normalized = map (\<lambda>c. if c = CHR 0x5C then CHR ''/'' else c) value;
          parts = split_on CHR ''/'' normalized
      in if normalized \<noteq> [] \<and> hd normalized = CHR ''/'' \<or> ''..'' \<in> set parts then None
         else if length parts < 2 \<or> \<not> source_ok (hd parts) then None
         else Some normalized)"


section \<open>Manifests\<close>

record database_manifest =
  dm_server_version :: string
  dm_migration_head :: string
  dm_dump_filename :: string
  dm_table_count :: int
  dm_size_bytes :: int
  dm_sha256 :: string
  dm_counts :: "(string, int) dict"

definition database_manifest_ok :: "database_manifest \<Rightarrow> bool" where
  "database_manifest_ok m = (dm_table_count m \<ge> 0 \<and> dm_size_bytes m > 0 \<and> digest_text (dm_sha256 m))"

record registry_manifest =
  gm_version :: "int option"
  gm_checksum :: "string option"
  gm_topic_count :: int
  gm_config_checksum :: string
  gm_config_bytes :: int

definition registry_manifest_ok :: "registry_manifest \<Rightarrow> bool" where
  "registry_manifest_ok m = (gm_topic_count m \<ge> 0 \<and> digest_text (gm_config_checksum m) \<and> gm_config_bytes m \<ge> 0)"

record raw_summary =
  rw_file_count :: int
  rw_total_bytes :: int
  rw_manifest_filename :: string
  rw_manifest_sha256 :: string

definition raw_summary_ok :: "raw_summary \<Rightarrow> bool" where
  "raw_summary_ok m = (rw_file_count m \<ge> 0 \<and> rw_total_bytes m \<ge> 0 \<and> digest_text (rw_manifest_sha256 m))"

record source_manifest =
  sm_entity_count :: int
  sm_match_count :: int
  sm_raw_response_count :: int
  sm_snapshot_count :: "int option"
  sm_observation_dates :: "int option"
  sm_latest_run_at :: "int option"

definition source_manifest_ok :: "source_manifest \<Rightarrow> bool" where
  "source_manifest_ok m =
     (sm_entity_count m \<ge> 0 \<and> sm_match_count m \<ge> 0 \<and> sm_raw_response_count m \<ge> 0 \<and>
      pred_option (\<lambda>n. n \<ge> 0) (sm_snapshot_count m) \<and> pred_option (\<lambda>n. n \<ge> 0) (sm_observation_dates m))"

datatype verification_state = Unverified | VerifiedPass | VerifiedWarning | VerifiedFail

fun verification_state_value :: "verification_state \<Rightarrow> string" where
  "verification_state_value Unverified = ''unverified''"
| "verification_state_value VerifiedPass = ''pass''"
| "verification_state_value VerifiedWarning = ''warning''"
| "verification_state_value VerifiedFail = ''fail''"

record backup_manifest =
  bm_schema_version :: string
  bm_backup_id :: string
  bm_label :: "string option"
  bm_started_at :: int
  bm_completed_at :: int
  bm_application_version :: string
  bm_git_commit :: "string option"
  bm_database :: database_manifest
  bm_registry :: registry_manifest
  bm_raw :: raw_summary
  bm_sources :: "(string, source_manifest) dict"
  bm_projection_count :: int
  bm_tool_version :: string
  bm_verification_state :: verification_state
  bm_total_bytes :: int

definition backup_schema_version :: string where
  "backup_schema_version = ''1''"

definition backup_tool_version :: string where
  "backup_tool_version = ''backup-v1''"

definition backup_manifest_ok :: "backup_manifest \<Rightarrow> bool" where
  "backup_manifest_ok m =
     (bm_schema_version m = backup_schema_version \<and> backup_id_ok (bm_backup_id m) \<and>
      pred_option (\<lambda>l. length l \<le> 200) (bm_label m) \<and> database_manifest_ok (bm_database m) \<and>
      registry_manifest_ok (bm_registry m) \<and> raw_summary_ok (bm_raw m) \<and>
      bm_sources m \<noteq> [] \<and> list_all (\<lambda>(name, s). source_ok name \<and> source_manifest_ok s) (bm_sources m) \<and>
      bm_projection_count m \<ge> 0 \<and> bm_total_bytes m \<ge> 0)"


section \<open>Entries of the Raw manifest\<close>

record raw_entry =
  re_path :: string
  re_size_bytes :: int
  re_sha256 :: string
  re_sidecar :: bool
  re_sidecar_size_bytes :: int
  re_sidecar_sha256 :: string
  re_source_checksum :: string

text \<open>The validated entry, or \<open>None\<close> where validation fails.\<close>

definition validated_entry :: "raw_entry \<Rightarrow> raw_entry option" where
  "validated_entry e =
     (if re_size_bytes e \<ge> 0 \<and> digest_text (re_sha256 e) \<and> re_sidecar_size_bytes e \<ge> 0 \<and>
         digest_text (re_sidecar_sha256 e) \<and> digest_text (re_source_checksum e)
      then map_option (\<lambda>path. e\<lparr>re_path := path\<rparr>) (logical_path (re_path e)) else None)"


section \<open>Reports\<close>

record verification_report =
  vr_verified_at :: int
  vr_tool_version :: string
  vr_manifest_valid :: bool
  vr_database_dump_valid :: bool
  vr_dump_checksum_valid :: bool
  vr_registry_valid :: bool
  vr_raw_expected :: int
  vr_raw_checked :: int
  vr_raw_missing :: int
  vr_raw_checksum_failures :: int
  vr_sidecar_failures :: int
  vr_extra_raw :: int
  vr_result :: verification_state
  vr_failures :: "string list"
  vr_warnings :: "string list"

definition verification_report_ok :: "verification_report \<Rightarrow> bool" where
  "verification_report_ok r =
     (vr_raw_expected r \<ge> 0 \<and> vr_raw_checked r \<ge> 0 \<and> vr_raw_missing r \<ge> 0 \<and> vr_raw_checksum_failures r \<ge> 0 \<and>
      vr_sidecar_failures r \<ge> 0 \<and> vr_extra_raw r \<ge> 0 \<and> vr_result r \<noteq> Unverified)"


section \<open>What is not part of the program\<close>

text \<open>
  JSON texts, streams of compressed lines, the YAML parser, the errors of decompression, the check of a dump
  by \<open>pg_restore\<close> and files outside of the trees.  \<open>bi_metadata\<close>, \<open>bi_entry\<close> and \<open>bi_manifest\<close> give the typed
  fields of a JSON text, before the checks of this theory; their errors are \<open>OtherError\<close>s of the name of the
  class, and the text of a pydantic error is shortened to the name of its model.  \<open>bi_lines\<close> gives the lines
  that iterating over a compressed text file yields, and the error that ends it.
\<close>

record backup_io =
  bi_codec :: codec
  bi_nfkc :: "string \<Rightarrow> string"
  bi_gunzip_error :: "string \<Rightarrow> py_error"
  bi_metadata_text :: "raw_metadata \<Rightarrow> string"
  bi_metadata :: "string \<Rightarrow> raw_metadata result"
  bi_entry_text :: "raw_entry \<Rightarrow> string"
  bi_entry :: "string \<Rightarrow> raw_entry option"
  bi_lines :: "string \<Rightarrow> string list \<times> py_error option"
  bi_manifest_text :: "backup_manifest \<Rightarrow> string"
  bi_manifest :: "string \<Rightarrow> backup_manifest result"
  bi_report_text :: "verification_report \<Rightarrow> string"
  bi_definition :: "string \<Rightarrow> file_outcome"
  bi_validate_dump :: "string \<Rightarrow> unit result"
  bi_outside :: "string \<Rightarrow> string option"

abbreviation newline :: char where
  "newline \<equiv> CHR 0x0A"

definition entry_line :: "backup_io \<Rightarrow> raw_entry \<Rightarrow> string" where
  "entry_line io e = bi_entry_text io e @ [newline]"

text \<open>What is written is read back, and digests are hexadecimal.\<close>

definition backup_io_ok :: "backup_io \<Rightarrow> bool" where
  "backup_io_ok io =
     (codec_ok (bi_codec io) \<and> (\<forall>p. digest_text (cd_sha256 (bi_codec io) p)) \<and>
      (\<forall>e. bi_entry io (entry_line io e) = Some e) \<and>
      (\<forall>es. bi_lines io (cd_gzip (bi_codec io) (concat (map (entry_line io) es))) = (map (entry_line io) es, None)))"

definition read_entry :: "backup_io \<Rightarrow> string \<Rightarrow> raw_entry option" where
  "read_entry io line = Option.bind (bi_entry io line) validated_entry"

definition read_manifest :: "backup_io \<Rightarrow> string \<Rightarrow> backup_manifest result" where
  "read_manifest io text =
     result_bind (bi_manifest io text) (\<lambda>m.
       if backup_manifest_ok m then Inr m else Inl (OtherError ''ValidationError'' ''BackupManifest''))"

text \<open>A file that is named by a manifest: an absolute name or one with \<open>..\<close> may leave the directory.\<close>

definition named_file :: "backup_io \<Rightarrow> byte_tree \<Rightarrow> string \<Rightarrow> string option" where
  "named_file io tree name =
     (let p = path_of_text name
      in if path_absolute p \<or> ''..'' \<in> set (path_parts p) then bi_outside io name else dict_get tree (path_parts p))"


section \<open>Lemmas on trees\<close>

lemma below_get [simp]: "dict_get (below p tree) (p @ k) = dict_get tree k"
  by (induction tree) (auto simp: below_def)

lemma below_get_other: "take (length p) k \<noteq> p \<Longrightarrow> dict_get (below p tree) k = None"
  by (induction tree) (auto simp: below_def)

lemma subtree_get: "k \<noteq> [] \<Longrightarrow> dict_get (subtree p tree) k = dict_get tree (p @ k)"
proof (induction tree)
  case (Cons x tree)
  obtain k' bytes where x: "x = (k', bytes)" by (cases x)
  show ?case
  proof (cases "length p < length k' \<and> take (length p) k' = p")
    case True
    then have "k' = p @ drop (length p) k'" by (metis append_take_drop_id)
    then show ?thesis using Cons True by (auto simp: x subtree_def)
  next
    case False
    then have "k' \<noteq> p @ k" using Cons.prems by auto
    then show ?thesis using Cons False by (auto simp: x subtree_def)
  qed
qed (simp add: subtree_def)

lemma subtree_below [simp]: "[] \<notin> fst ` set tree \<Longrightarrow> subtree p (below p tree) = tree"
  by (induction tree) (auto simp: subtree_def below_def)

lemma has_directory_get: "dict_get tree (p @ q) = Some bytes \<Longrightarrow> q \<noteq> [] \<Longrightarrow> has_directory tree p"
  by (force simp: has_directory_def list_ex_iff dest: map_of_SomeD)

end
