(* ===== verification/Backup_Raw.thy ===== *)
theory Backup_Raw
  imports Backup_Models
begin

text \<open>
  The Raw part of a backup: \<open>RawIntegrityVerifier.verify_raw_directory\<close> (\<open>integrity.py\<close>) and, of
  \<open>backup.py\<close>, \<open>tree_checksum\<close>, \<open>RawBackupCopier\<close> and \<open>BackupVerifier._verify_raw\<close>.  The trees of the source, of
  the copy and of a backup are \<open>byte_tree\<close>s; roots are the resolved parts of absolute paths.  There are no
  symbolic links and no directories called \<open>payload.gz\<close> or \<open>metadata.json\<close>.
\<close>


section \<open>One record directory\<close>

definition payload_file :: "string list \<Rightarrow> string list" where
  "payload_file key = key @ [''payload.gz'']"

definition metadata_file :: "string list \<Rightarrow> string list" where
  "metadata_file key = key @ [''metadata.json'']"

text \<open>\<open>LocalRawStore.load\<close> and \<open>LocalRawStore.read\<close> on bytes\<close>

definition load_record :: "backup_io \<Rightarrow> byte_tree \<Rightarrow> string list \<Rightarrow> raw_record result" where
  "load_record io tree key =
     (case dict_get tree (metadata_file key) of
        None \<Rightarrow> Inl (FileNotFoundError ''metadata.json'')
      | Some text \<Rightarrow> result_bind (bi_metadata io text) (\<lambda>m. Inr \<lparr>rr_directory = key, rr_metadata = m\<rparr>))"

definition read_record :: "backup_io \<Rightarrow> byte_tree \<Rightarrow> raw_record \<Rightarrow> string result" where
  "read_record io tree r =
     (case dict_get tree (payload_file (rr_directory r)) of
        None \<Rightarrow> Inl (FileNotFoundError ''payload.gz'')
      | Some bytes \<Rightarrow>
          (case cd_gunzip (bi_codec io) bytes of
             None \<Rightarrow> Inl (bi_gunzip_error io bytes)
           | Some payload \<Rightarrow>
               (if cd_sha256 (bi_codec io) payload \<noteq> md_sha256 (rr_metadata r) then
                  Inl (DataIntegrityError ''checksum mismatch'')
                else if int (length payload) \<noteq> md_uncompressed_bytes (rr_metadata r) then
                  Inl (DataIntegrityError ''length mismatch'')
                else Inr payload)))"

definition verify_raw_directory :: "backup_io \<Rightarrow> byte_tree \<Rightarrow> string list \<Rightarrow> string option \<Rightarrow> unit result" where
  "verify_raw_directory io tree key expected =
     (if \<not> has_directory tree key then Inl (FileNotFoundError ''Raw pointer directory does not exist'')
      else if dict_get tree (metadata_file key) = None then Inl (FileNotFoundError ''metadata sidecar does not exist'')
      else if dict_get tree (payload_file key) = None then Inl (FileNotFoundError ''compressed payload does not exist'')
      else result_bind (load_record io tree key) (\<lambda>r.
        if expected \<notin> {None, Some (md_sha256 (rr_metadata r))} then
          Inl (DataIntegrityError ''expected checksum does not match the Raw metadata sidecar'')
        else result_bind (read_record io tree r) (\<lambda>_. Inr ())))"


section \<open>\<open>tree_checksum\<close>\<close>

text \<open>\<open>n.to_bytes(8, "big")\<close>\<close>

definition eight_bytes :: "nat \<Rightarrow> string" where
  "eight_bytes n = map (\<lambda>i. char_of (n div 256 ^ (7 - i) mod 256)) [0..<8]"

definition tree_encoding :: "byte_tree \<Rightarrow> string" where
  "tree_encoding tree =
     concat (map (\<lambda>(k, content).
         eight_bytes (length (join ''/'' k)) @ join ''/'' k @ eight_bytes (length content) @ content)
       (sort_key fst tree))"

definition tree_checksum :: "codec \<Rightarrow> byte_tree \<Rightarrow> string \<times> int" where
  "tree_checksum c tree = (cd_sha256 c (tree_encoding tree), sum_list (map (\<lambda>(k, content). int (length content)) tree))"


section \<open>Copying\<close>

definition recovery_sources :: "string list" where
  "recovery_sources = [''arxiv'', ''github'']"

definition backup_error :: "string \<Rightarrow> py_error" where
  "backup_error m = OtherError ''BackupError'' m"

definition persisted_sources :: "byte_tree \<Rightarrow> string list" where
  "persisted_sources tree =
     filter (\<lambda>name. name = [] \<or> hd name \<noteq> CHR ''.'') (map hd (filter (\<lambda>k. length k \<ge> 2) (dict_keys tree)))"

text \<open>The directories that \<open>iter_records\<close> finds, in its order.\<close>

definition record_keys :: "byte_tree \<Rightarrow> string \<Rightarrow> string list list" where
  "record_keys tree source =
     map butlast (sort (filter (\<lambda>k. length k = 6 \<and> hd k = source \<and> last k = ''metadata.json'') (dict_keys tree)))"

definition copied_entry :: "backup_io \<Rightarrow> string \<Rightarrow> string \<Rightarrow> string \<Rightarrow> string \<Rightarrow> raw_entry" where
  "copied_entry io path payload sidecar checksum =
     \<lparr>re_path = path, re_size_bytes = int (length payload), re_sha256 = cd_sha256 (bi_codec io) payload,
      re_sidecar = True, re_sidecar_size_bytes = int (length sidecar),
      re_sidecar_sha256 = cd_sha256 (bi_codec io) sidecar, re_source_checksum = checksum\<rparr>"

definition put_copy :: "string list \<Rightarrow> string \<Rightarrow> string \<Rightarrow> byte_tree \<Rightarrow> byte_tree" where
  "put_copy key payload sidecar target =
     dict_set (metadata_file key) sidecar (dict_set (payload_file key) payload target)"

text \<open>The key of a logical path below a root, unless it leads out of it.\<close>

definition key_below :: "string list \<Rightarrow> string \<Rightarrow> string list option" where
  "key_below root path = relative_to (resolve_parts (root @ path_parts (path_of_text path))) (resolve_parts root)"

definition copy_record ::
  "backup_io \<Rightarrow> string list \<Rightarrow> string list \<Rightarrow> byte_tree \<Rightarrow> string \<Rightarrow> string list \<Rightarrow> byte_tree \<Rightarrow>
   raw_entry result \<times> byte_tree" where
  "copy_record io root target_root tree source key target =
     (case result_bind (load_record io tree key) (\<lambda>r.
           result_bind (logical_key root \<lparr>path_absolute = True, path_parts = root @ key\<rparr> source) (\<lambda>logical.
           result_bind (verify_raw_directory io tree key (Some (md_sha256 (rr_metadata r)))) (\<lambda>_. Inr (r, logical)))) of
        Inl err \<Rightarrow> (Inl err, target)
      | Inr (r, logical) \<Rightarrow>
          (case key_below target_root logical of
             None \<Rightarrow> (Inl (backup_error (''Raw logical key escapes backup root: '' @ logical)), target)
           | Some dest \<Rightarrow>
               (if has_directory target dest then (Inl (OtherError ''FileExistsError'' logical), target)
                else
                  (let payload = the (dict_get tree (payload_file key)); sidecar = the (dict_get tree (metadata_file key))
                   in (case validated_entry (copied_entry io logical payload sidecar (md_sha256 (rr_metadata r))) of
                         None \<Rightarrow> Inl (OtherError ''ValidationError'' ''RawManifestEntry'')
                       | Some e \<Rightarrow> Inr e,
                       put_copy dest payload sidecar target)))))"

text \<open>The entries written so far, the copy, and the error that ended the work.\<close>

fun copy_keys ::
  "backup_io \<Rightarrow> string list \<Rightarrow> string list \<Rightarrow> byte_tree \<Rightarrow> string \<Rightarrow> string list list \<Rightarrow> raw_entry list \<Rightarrow> byte_tree \<Rightarrow>
   raw_entry list \<times> byte_tree \<times> py_error option" where
  "copy_keys io root target_root tree source [] es target = (es, target, None)"
| "copy_keys io root target_root tree source (key # keys) es target =
     (case copy_record io root target_root tree source key target of
        (Inl err, target') \<Rightarrow> (es, target', Some err)
      | (Inr e, target') \<Rightarrow> copy_keys io root target_root tree source keys (es @ [e]) target')"

fun copy_sources ::
  "backup_io \<Rightarrow> string list \<Rightarrow> string list \<Rightarrow> byte_tree \<Rightarrow> string list \<Rightarrow> raw_entry list \<Rightarrow> byte_tree \<Rightarrow>
   raw_entry list \<times> byte_tree \<times> py_error option" where
  "copy_sources io root target_root tree [] es target = (es, target, None)"
| "copy_sources io root target_root tree (source # rest) es target =
     (case validate_source source of
        Inl err \<Rightarrow> (es, target, Some err)
      | Inr _ \<Rightarrow>
          (case copy_keys io root target_root tree source (record_keys tree source) es target of
             (es', target', Some err) \<Rightarrow> (es', target', Some err)
           | (es', target', None) \<Rightarrow> copy_sources io root target_root tree rest es' target'))"

definition copy_entries ::
  "backup_io \<Rightarrow> string list \<Rightarrow> string list \<Rightarrow> string list \<Rightarrow> byte_tree \<Rightarrow> raw_entry list \<times> byte_tree \<times> py_error option" where
  "copy_entries io sources root target_root tree =
     (let unregistered = sorted_set (filter (\<lambda>s. s \<notin> set sources) (persisted_sources tree))
      in if unregistered \<noteq> [] then
           ([], [], Some (backup_error (''Raw source directory has no recovery adapter: '' @ join '', '' unregistered)))
         else copy_sources io root target_root tree sources [] [])"

definition raw_manifest_bytes :: "backup_io \<Rightarrow> raw_entry list \<Rightarrow> string" where
  "raw_manifest_bytes io es = cd_gzip (bi_codec io) (concat (map (entry_line io) es))"

definition raw_summary_of :: "backup_io \<Rightarrow> raw_entry list \<Rightarrow> raw_summary" where
  "raw_summary_of io es =
     \<lparr>rw_file_count = int (length es),
      rw_total_bytes = sum_list (map (\<lambda>e. re_size_bytes e + re_sidecar_size_bytes e) es),
      rw_manifest_filename = ''raw-manifest.jsonl.gz'',
      rw_manifest_sha256 = cd_sha256 (bi_codec io) (raw_manifest_bytes io es)\<rparr>"

text \<open>The copy and the file of the manifest are there also when an error ends the work.\<close>

definition copy_raw ::
  "backup_io \<Rightarrow> string list \<Rightarrow> string list \<Rightarrow> string list \<Rightarrow> byte_tree \<Rightarrow> raw_summary result \<times> byte_tree \<times> string" where
  "copy_raw io sources root target_root tree =
     (case copy_entries io (sorted_set sources) root target_root tree of
        (es, target, Some err) \<Rightarrow> (Inl err, target, raw_manifest_bytes io es)
      | (es, target, None) \<Rightarrow> (Inr (raw_summary_of io es), target, raw_manifest_bytes io es))"


section \<open>Verification of the copy\<close>

definition os_error :: "py_error \<Rightarrow> bool" where
  "os_error e = (case e of
     OSError _ \<Rightarrow> True | FileNotFoundError _ \<Rightarrow> True | TimeoutError \<Rightarrow> True | ConnectionError _ \<Rightarrow> True
   | OtherError n _ \<Rightarrow> n \<in> {''FileExistsError'', ''PermissionError'', ''NotADirectoryError'', ''IsADirectoryError'', ''BadGzipFile''}
   | _ \<Rightarrow> False)"

definition value_error :: "py_error \<Rightarrow> bool" where
  "value_error e = (case e of
     ValueError _ \<Rightarrow> True | ArxivParseError _ \<Rightarrow> True | ArxivAPIError _ \<Rightarrow> True | ArxivQueryError _ \<Rightarrow> True
   | OtherError n _ \<Rightarrow> n \<in> {''ValidationError'', ''JSONDecodeError'', ''UnicodeDecodeError''}
   | _ \<Rightarrow> False)"

definition integrity_error :: "py_error \<Rightarrow> bool" where
  "integrity_error e = (os_error e \<or> value_error e \<or> (case e of DataIntegrityError _ \<Rightarrow> True | _ \<Rightarrow> False))"

record raw_check =
  rk_paths :: "string list"
  rk_sources :: "(string, int) dict"
  rk_checked :: int
  rk_missing :: int
  rk_checksum_failures :: int
  rk_sidecar_failures :: int
  rk_failures :: "string list"

definition new_raw_check :: raw_check where
  "new_raw_check = \<lparr>rk_paths = [], rk_sources = [], rk_checked = 0, rk_missing = 0, rk_checksum_failures = 0,
     rk_sidecar_failures = 0, rk_failures = []\<rparr>"

definition rk_fail :: "string \<Rightarrow> raw_check \<Rightarrow> raw_check" where
  "rk_fail message st = st\<lparr>rk_failures := rk_failures st @ [message]\<rparr>"

definition count_of_source :: "(string, int) dict \<Rightarrow> string \<Rightarrow> int" where
  "count_of_source counts source = (case dict_get counts source of None \<Rightarrow> 0 | Some n \<Rightarrow> n)"

text \<open>The checks of the two files of an entry.\<close>

definition check_payload :: "backup_io \<Rightarrow> raw_entry \<Rightarrow> string \<Rightarrow> raw_check \<Rightarrow> raw_check" where
  "check_payload io e bytes st =
     (if int (length bytes) \<noteq> re_size_bytes e \<or> cd_sha256 (bi_codec io) bytes \<noteq> re_sha256 e then
        rk_fail (''Raw payload byte checksum mismatch: '' @ re_path e)
          (st\<lparr>rk_checksum_failures := rk_checksum_failures st + 1\<rparr>)
      else st)"

definition check_sidecar :: "backup_io \<Rightarrow> raw_entry \<Rightarrow> string \<Rightarrow> raw_check \<Rightarrow> raw_check" where
  "check_sidecar io e bytes st =
     (if int (length bytes) \<noteq> re_sidecar_size_bytes e \<or> cd_sha256 (bi_codec io) bytes \<noteq> re_sidecar_sha256 e then
        rk_fail (''Raw sidecar byte checksum mismatch: '' @ re_path e)
          (st\<lparr>rk_sidecar_failures := rk_sidecar_failures st + 1\<rparr>)
      else st)"

definition check_files :: "backup_io \<Rightarrow> byte_tree \<Rightarrow> raw_entry \<Rightarrow> string list \<Rightarrow> raw_check \<Rightarrow> raw_check result" where
  "check_files io tree e key st =
     (case (dict_get tree (payload_file key), dict_get tree (metadata_file key)) of
        (None, _) \<Rightarrow> Inr (rk_fail (''Raw payload missing: '' @ re_path e) (st\<lparr>rk_missing := rk_missing st + 1\<rparr>))
      | (Some _, None) \<Rightarrow>
          Inr (rk_fail (''Raw sidecar missing: '' @ re_path e) (st\<lparr>rk_sidecar_failures := rk_sidecar_failures st + 1\<rparr>))
      | (Some payload, Some sidecar) \<Rightarrow>
          (let st' = check_sidecar io e sidecar (check_payload io e payload (st\<lparr>rk_checked := rk_checked st + 1\<rparr>))
           in case verify_raw_directory io tree key (Some (re_source_checksum e)) of
                Inr _ \<Rightarrow> Inr st'
              | Inl err \<Rightarrow>
                  (if integrity_error err then
                     Inr (rk_fail (''Raw integrity failed for '' @ re_path e @ '': '' @ error_text err)
                       (st'\<lparr>rk_checksum_failures := rk_checksum_failures st' + 1\<rparr>))
                   else Inl err)))"

definition check_entry ::
  "backup_io \<Rightarrow> string list \<Rightarrow> byte_tree \<Rightarrow> string list \<Rightarrow> nat \<Rightarrow> raw_entry \<Rightarrow> raw_check \<Rightarrow> raw_check result" where
  "check_entry io root tree names line_number e st =
     (let source = hd (split_on CHR ''/'' (re_path e)) in
      if re_path e \<in> set (rk_paths st) then Inr (rk_fail (''Raw manifest repeats '' @ re_path e) st)
      else
        (let st1 = st\<lparr>rk_paths := rk_paths st @ [re_path e]\<rparr> in
         if source \<notin> set names then
           Inr (rk_fail (''Raw manifest source '' @ repr_str source @ '' is absent from the backup manifest'') st1)
         else
           (let st2 = st1\<lparr>rk_sources := dict_set source (count_of_source (rk_sources st1) source + 1) (rk_sources st1)\<rparr>
            in case key_below root (re_path e) of
                 None \<Rightarrow> Inr (rk_fail (''Raw manifest path escapes root at line '' @ show_nat line_number) st2)
               | Some key \<Rightarrow> check_files io tree e key st2)))"

fun check_lines ::
  "backup_io \<Rightarrow> string list \<Rightarrow> byte_tree \<Rightarrow> string list \<Rightarrow> py_error option \<Rightarrow> nat \<Rightarrow> string list \<Rightarrow> raw_check \<Rightarrow>
   raw_check result" where
  "check_lines io root tree names ending n [] st =
     (case ending of
        None \<Rightarrow> Inr st
      | Some err \<Rightarrow>
          (if os_error err \<or> value_error err then Inr (rk_fail (''Raw manifest invalid: '' @ error_text err) st) else Inl err))"
| "check_lines io root tree names ending n (line # rest) st =
     (case read_entry io line of
        None \<Rightarrow> Inr (rk_fail ''Raw manifest invalid: RawManifestEntry'' st)
      | Some e \<Rightarrow>
          result_bind (check_entry io root tree names n e st)
            (\<lambda>st'. check_lines io root tree names ending (n + 1) rest st'))"

record raw_verdict =
  rv_expected :: int
  rv_checked :: int
  rv_missing :: int
  rv_checksum_failures :: int
  rv_sidecar_failures :: int
  rv_extras :: int
  rv_failures :: "string list"
  rv_warnings :: "string list"

definition no_raw_manifest :: raw_verdict where
  "no_raw_manifest = \<lparr>rv_expected = 0, rv_checked = 0, rv_missing = 0, rv_checksum_failures = 0,
     rv_sidecar_failures = 0, rv_extras = 0, rv_failures = [''Raw manifest is missing''], rv_warnings = []\<rparr>"

definition unreferenced :: "byte_tree \<Rightarrow> string list \<Rightarrow> int" where
  "unreferenced tree paths =
     int (length (filter (\<lambda>path. path \<notin> set paths)
       (first_occurrences (map (\<lambda>k. join ''/'' (butlast k))
          (filter (\<lambda>k. length k = 6 \<and> last k = ''metadata.json'') (dict_keys tree))))))"

definition compare_source :: "(string, int) dict \<Rightarrow> string \<times> source_manifest \<Rightarrow> raw_verdict \<Rightarrow> raw_verdict" where
  "compare_source counts named v =
     (case named of (source, m) \<Rightarrow>
       (let raw_count = count_of_source counts source; database_count = sm_raw_response_count m in
        if raw_count < database_count then
          v\<lparr>rv_failures := rv_failures v @ [''Raw manifest has fewer '' @ source @ '' records than the database snapshot'']\<rparr>
        else if raw_count > database_count then
          v\<lparr>rv_extras := rv_extras v + (raw_count - database_count),
            rv_warnings := rv_warnings v @ [show_int (raw_count - database_count) @ '' '' @ source @
              '' Raw record(s) are newer than or unreferenced by the database snapshot'']\<rparr>
        else v))"

definition raw_verdict_of :: "backup_manifest \<Rightarrow> byte_tree \<Rightarrow> raw_check \<Rightarrow> raw_verdict" where
  "raw_verdict_of manifest tree st =
     (let extras = unreferenced tree (rk_paths st);
          counted = rw_file_count (bm_raw manifest) = int (length (rk_paths st))
      in fold (compare_source (rk_sources st)) (bm_sources manifest)
           \<lparr>rv_expected = int (length (rk_paths st)), rv_checked = rk_checked st, rv_missing = rk_missing st,
            rv_checksum_failures = rk_checksum_failures st, rv_sidecar_failures = rk_sidecar_failures st,
            rv_extras = extras,
            rv_failures = rk_failures st @
              (if counted then [] else [''Raw manifest entry count differs from backup manifest'']),
            rv_warnings =
              (if extras \<noteq> 0 then [show_int extras @ '' unreferenced Raw record(s) exist in the backup''] else [])\<rparr>)"

text \<open>\<open>directory\<close> is the resolved path of the backup, \<open>tree\<close> its files.\<close>

definition verify_raw ::
  "backup_io \<Rightarrow> string list \<Rightarrow> byte_tree \<Rightarrow> backup_manifest \<Rightarrow> raw_verdict result" where
  "verify_raw io directory tree manifest =
     (case named_file io tree (rw_manifest_filename (bm_raw manifest)) of
        None \<Rightarrow> Inr no_raw_manifest
      | Some bytes \<Rightarrow>
          (let raw = subtree [''raw''] tree;
               start = (if cd_sha256 (bi_codec io) bytes \<noteq> rw_manifest_sha256 (bm_raw manifest)
                 then rk_fail ''Raw manifest checksum mismatch'' new_raw_check else new_raw_check)
           in case bi_lines io bytes of (lines, ending) \<Rightarrow>
                result_bind (check_lines io (directory @ [''raw'']) raw (dict_keys (bm_sources manifest)) ending 1 lines start)
                  (\<lambda>st. Inr (raw_verdict_of manifest raw st))))"

end
