(* ===== verification/Backup_Copy.thy ===== *)
theory Backup_Copy
  imports Backup_Raw
begin

text \<open>
  What the copier leaves and what the verifier makes of it: a copy that succeeds holds every record of the
  source byte for byte and passes the verification; a backup that passes holds what was copied.
\<close>


section \<open>Plain trees\<close>

text \<open>Names of a file system, without backslashes.\<close>

definition tree_plain :: "byte_tree \<Rightarrow> bool" where
  "tree_plain tree = (\<forall>k\<in>set (dict_keys tree). \<forall>p\<in>set k. plain_part p \<and> CHR 0x5C \<notin> set p)"

definition plain_key :: "string list \<Rightarrow> bool" where
  "plain_key key = (\<forall>p\<in>set key. plain_part p \<and> CHR 0x5C \<notin> set p)"

lemma record_keys_mem:
  assumes "key \<in> set (record_keys tree source)"
  shows "length key = 5" "hd key = source" "metadata_file key \<in> set (dict_keys tree)"
proof -
  obtain k where k: "k \<in> set (dict_keys tree)" "length k = 6" "hd k = source" "last k = ''metadata.json''" "key = butlast k"
    using assms by (auto simp: record_keys_def)
  then have "k = metadata_file key" unfolding metadata_file_def by (metis append_butlast_last_id list.size(3) zero_neq_numeral)
  moreover from k show l: "length key = 5" by simp
  moreover from l have "key \<noteq> []" by auto
  ultimately show "hd key = source" "metadata_file key \<in> set (dict_keys tree)"
    using k by (auto simp: metadata_file_def) (metis hd_append2)
qed

lemma record_keys_plain: "tree_plain tree \<Longrightarrow> key \<in> set (record_keys tree source) \<Longrightarrow> plain_key key"
  using record_keys_mem(3) by (fastforce simp: tree_plain_def plain_key_def metadata_file_def)

lemma plain_key_no_up: "plain_key key \<Longrightarrow> ''..'' \<notin> set key"
  by (auto simp: plain_key_def plain_part_def)

lemma plain_key_path: "plain_key key \<Longrightarrow> key \<noteq> [] \<Longrightarrow> path_parts (path_of_text (join ''/'' key)) = key"
  using path_of_join [of key] by (simp add: plain_key_def)

lemma key_below_plain: "plain_key key \<Longrightarrow> key \<noteq> [] \<Longrightarrow> key_below root (join ''/'' key) = Some key"
  by (simp add: key_below_def plain_key_path resolve_parts_append_plain plain_key_no_up relative_to_append)

lemma logical_key_plain:
  assumes "plain_key key" "key \<noteq> []" "source_ok (hd key)"
  shows "logical_key root \<lparr>path_absolute = True, path_parts = root @ key\<rparr> (hd key) = Inr (join ''/'' key)"
  using assms plain_key_no_up [OF assms(1)]
  by (cases key) (simp_all add: logical_key_def validate_source_def resolve_parts_append_plain relative_to_append)

lemma join_chars: "c \<in> set (join ''/'' ps) \<Longrightarrow> c = CHR ''/'' \<or> (\<exists>p\<in>set ps. c \<in> set p)"
  by (induction "''/''" ps rule: join.induct) auto

lemma logical_path_plain:
  assumes "plain_key key" "length key \<ge> 2" "source_ok (hd key)"
  shows "logical_path (join ''/'' key) = Some (join ''/'' key)"
proof -
  let ?p = "join ''/'' key"
  have ne: "key \<noteq> []" using assms(2) by auto
  have "CHR 0x5C \<notin> set ?p" using join_chars [of "CHR 0x5C" key] assms(1) by (auto simp: plain_key_def)
  then have m: "map (\<lambda>c. if c = CHR 0x5C then CHR ''/'' else c) ?p = ?p" by (auto intro: map_idI)
  have s: "split_on CHR ''/'' ?p = key"
    using split_on_join [of key "CHR ''/''"] ne assms(1) by (simp add: plain_key_def plain_part_def)
  obtain x ks where k: "key = x # ks" using ne by (cases key) simp_all
  then have "x \<noteq> []" "CHR ''/'' \<notin> set x" using assms(1) by (auto simp: plain_key_def plain_part_def)
  then have "\<not> (?p \<noteq> [] \<and> hd ?p = CHR ''/'')" using k by (cases x; cases ks) auto
  then show ?thesis using plain_key_no_up [OF assms(1)] assms(2,3) by (simp add: logical_path_def m s Let_def)
qed


section \<open>One record\<close>

text \<open>The record that a key holds in a tree, and its entry.\<close>

definition intact :: "backup_io \<Rightarrow> byte_tree \<Rightarrow> string list \<Rightarrow> bool" where
  "intact io tree key =
     (\<exists>payload sidecar m. dict_get tree (payload_file key) = Some payload \<and> dict_get tree (metadata_file key) = Some sidecar \<and>
        bi_metadata io sidecar = Inr m \<and> verify_raw_directory io tree key (Some (md_sha256 m)) = Inr ())"

definition entry_of :: "backup_io \<Rightarrow> byte_tree \<Rightarrow> string list \<Rightarrow> raw_entry" where
  "entry_of io tree key =
     copied_entry io (join ''/'' key) (the (dict_get tree (payload_file key))) (the (dict_get tree (metadata_file key)))
       (case bi_metadata io (the (dict_get tree (metadata_file key))) of Inr m \<Rightarrow> md_sha256 m | Inl _ \<Rightarrow> [])"

lemma verify_raw_directory_files:
  assumes "verify_raw_directory io tree key expected = Inr ()"
  shows "\<exists>payload sidecar m. dict_get tree (payload_file key) = Some payload \<and> dict_get tree (metadata_file key) = Some sidecar \<and>
    bi_metadata io sidecar = Inr m \<and> expected \<in> {None, Some (md_sha256 m)}"
  using assms by (auto simp: verify_raw_directory_def load_record_def split: if_splits option.splits)

text \<open>The verdict on a directory depends on its two files only.\<close>

lemma verify_raw_directory_cong:
  assumes "dict_get tree' (payload_file key) = dict_get tree (payload_file key)"
    "dict_get tree' (metadata_file key) = dict_get tree (metadata_file key)"
    "verify_raw_directory io tree key expected = Inr ()"
  shows "verify_raw_directory io tree' key expected = Inr ()"
proof -
  from verify_raw_directory_files [OF assms(3)] obtain sidecar where "dict_get tree' (metadata_file key) = Some sidecar"
    using assms(2) by auto
  then have "has_directory tree' key" using has_directory_get [of tree' key "[''metadata.json'']"] by (simp add: metadata_file_def)
  moreover have "load_record io tree' key = load_record io tree key"
    using assms(2) by (simp add: load_record_def)
  moreover have "read_record io tree' r = read_record io tree r" if "load_record io tree key = Inr r" for r
  proof -
    have "rr_directory r = key" using that by (auto simp: load_record_def split: option.splits)
    then show ?thesis using assms(1) by (simp add: read_record_def)
  qed
  ultimately show ?thesis using assms
    by (cases "load_record io tree key") (auto simp: verify_raw_directory_def split: if_splits)
qed

lemma validated_entry_plain:
  assumes "validated_entry e = Some e'" "logical_path (re_path e) = Some (re_path e)"
  shows "e' = e"
  using assms by (auto simp: validated_entry_def split: if_splits)

lemma copy_record_Inr:
  assumes "copy_record io root target_root tree source key target = (Inr e, target')"
    "plain_key key" "length key \<ge> 2" "source_ok (hd key)" "source = hd key"
  shows "intact io tree key \<and> e = entry_of io tree key \<and> validated_entry e = Some e \<and> \<not> has_directory target key \<and>
    target' = put_copy key (the (dict_get tree (payload_file key))) (the (dict_get tree (metadata_file key))) target"
proof -
  have ne: "key \<noteq> []" using assms(3) by auto
  note facts = logical_key_plain [OF assms(2) ne assms(4)] key_below_plain [OF assms(2) ne] logical_path_plain [OF assms(2-4)]
  let ?payload = "the (dict_get tree (payload_file key))" and ?sidecar = "the (dict_get tree (metadata_file key))"
  obtain r where l: "load_record io tree key = Inr r"
    using assms(1) by (cases "load_record io tree key") (simp_all add: copy_record_def)
  have v: "verify_raw_directory io tree key (Some (md_sha256 (rr_metadata r))) = Inr ()"
    using assms(1) by (cases "verify_raw_directory io tree key (Some (md_sha256 (rr_metadata r)))")
      (simp_all add: copy_record_def l facts(1) assms(5))
  have n: "\<not> has_directory target key"
    using assms(1) by (cases "has_directory target key") (simp_all add: copy_record_def l v facts(1,2) assms(5))
  have r: "validated_entry (copied_entry io (join ''/'' key) ?payload ?sidecar (md_sha256 (rr_metadata r))) = Some e"
    "target' = put_copy key ?payload ?sidecar target"
    using assms(1) n by (auto simp: copy_record_def l v facts(1,2) assms(5) Let_def split: option.splits)
  have "e = copied_entry io (join ''/'' key) ?payload ?sidecar (md_sha256 (rr_metadata r))"
    by (rule validated_entry_plain [OF r(1)]) (simp add: copied_entry_def facts(3))
  moreover from l have "bi_metadata io ?sidecar = Inr (rr_metadata r)"
    by (auto simp: load_record_def split: option.splits)
  moreover obtain payload sidecar m where "dict_get tree (payload_file key) = Some payload"
    "dict_get tree (metadata_file key) = Some sidecar" "bi_metadata io sidecar = Inr m" "md_sha256 (rr_metadata r) = md_sha256 m"
    using verify_raw_directory_files [OF v] by auto
  ultimately show ?thesis using r n v by (simp add: intact_def entry_of_def)
qed


section \<open>All records\<close>

definition put_key :: "byte_tree \<Rightarrow> string list \<Rightarrow> byte_tree \<Rightarrow> byte_tree" where
  "put_key tree key target =
     put_copy key (the (dict_get tree (payload_file key))) (the (dict_get tree (metadata_file key))) target"

definition record_files :: "string list list \<Rightarrow> string list set" where
  "record_files keys = payload_file ` set keys \<union> metadata_file ` set keys"

lemma file_names [simp]: "payload_file a \<noteq> metadata_file b" "metadata_file a \<noteq> payload_file b"
  "payload_file a = payload_file b \<longleftrightarrow> a = b" "metadata_file a = metadata_file b \<longleftrightarrow> a = b"
  by (simp_all add: payload_file_def metadata_file_def)

lemma put_key_get:
  assumes "intact io tree key"
  shows "dict_get (put_key tree key target) k = (if k \<in> record_files [key] then dict_get tree k else dict_get target k)"
  using assms by (auto simp: put_key_def put_copy_def record_files_def intact_def)

lemma put_key_directory: "has_directory target k \<Longrightarrow> has_directory (put_key tree key target) k"
  by (auto simp: has_directory_def list_ex_iff put_key_def put_copy_def dom_update)

lemma put_key_own_directory: "has_directory (put_key tree key target) key"
  by (rule has_directory_get [of _ _ "[''metadata.json'']"]) (simp_all add: put_key_def put_copy_def metadata_file_def)

lemma fold_put_key_get:
  assumes "\<forall>key\<in>set keys. intact io tree key"
  shows "dict_get (fold (put_key tree) keys target) k = (if k \<in> record_files keys then dict_get tree k else dict_get target k)"
  using assms
proof (induction keys arbitrary: target)
  case (Cons key keys)
  then show ?case using put_key_get [of io tree key target k] by (auto simp: record_files_def)
qed (simp add: record_files_def)

lemma fold_put_key_directory: "has_directory target k \<Longrightarrow> has_directory (fold (put_key tree) keys target) k"
  by (induction keys arbitrary: target) (simp_all add: put_key_directory)

lemma fold_put_key_distinct: "distinct (dict_keys target) \<Longrightarrow> distinct (dict_keys (fold (put_key tree) keys target))"
  by (induction keys arbitrary: target) (simp_all add: put_key_def put_copy_def distinct_update)

text \<open>What a successful copy of some keys means.\<close>

definition copied_keys :: "backup_io \<Rightarrow> byte_tree \<Rightarrow> string list list \<Rightarrow> byte_tree \<Rightarrow> bool" where
  "copied_keys io tree keys target =
     (distinct keys \<and> (\<forall>key\<in>set keys. intact io tree key \<and> validated_entry (entry_of io tree key) = Some (entry_of io tree key) \<and>
        \<not> has_directory target key))"

lemma fold_put_key_own_directory: "x \<in> set xs \<Longrightarrow> has_directory (fold (put_key tree) xs target) x"
proof (induction xs arbitrary: target)
  case (Cons y ys)
  show ?case
  proof (cases "x = y")
    case True
    then show ?thesis using fold_put_key_directory [OF put_key_own_directory] by simp
  next
    case False
    then show ?thesis using Cons by simp
  qed
qed simp

lemma copied_keys_append:
  assumes "copied_keys io tree xs target" "copied_keys io tree ys (fold (put_key tree) xs target)"
  shows "copied_keys io tree (xs @ ys) target"
proof -
  have "\<not> has_directory target y" if "y \<in> set ys" for y
    using assms(2) that fold_put_key_directory unfolding copied_keys_def by metis
  moreover have "set xs \<inter> set ys = {}"
    using assms(2) fold_put_key_own_directory unfolding copied_keys_def by fastforce
  moreover have "distinct xs" "distinct ys" using assms unfolding copied_keys_def by blast+
  moreover have "intact io tree key \<and> validated_entry (entry_of io tree key) = Some (entry_of io tree key)"
    if "key \<in> set xs \<or> key \<in> set ys" for key
    using assms that unfolding copied_keys_def by blast
  moreover have "\<not> has_directory target x" if "x \<in> set xs" for x
    using assms(1) that unfolding copied_keys_def by blast
  ultimately show ?thesis unfolding copied_keys_def by (metis Un_iff distinct_append set_append)
qed

lemma copy_keys_None:
  assumes "copy_keys io root target_root tree source keys es target = (es', target', None)"
    "\<forall>key\<in>set keys. plain_key key \<and> length key = 5 \<and> hd key = source" "source_ok source"
  shows "es' = es @ map (entry_of io tree) keys \<and> target' = fold (put_key tree) keys target \<and> copied_keys io tree keys target"
  using assms(1,2)
proof (induction keys arbitrary: es target)
  case Nil
  then show ?case by (simp add: copied_keys_def)
next
  case (Cons key keys)
  obtain r t where c: "copy_record io root target_root tree source key target = (r, t)"
    by (cases "copy_record io root target_root tree source key target")
  obtain e where e: "r = Inr e" using Cons.prems(1) c by (cases r) simp_all
  have k: "plain_key key" "2 \<le> length key" "source_ok (hd key)" "source = hd key" using Cons.prems(2) assms(3) by auto
  have one: "intact io tree key \<and> e = entry_of io tree key \<and> validated_entry e = Some e \<and> \<not> has_directory target key \<and>
      t = put_key tree key target"
    unfolding put_key_def by (rule copy_record_Inr [OF c [unfolded e] k])
  have rest: "es' = (es @ [e]) @ map (entry_of io tree) keys \<and> target' = fold (put_key tree) keys t \<and> copied_keys io tree keys t"
    using Cons.IH [of "es @ [e]" t] Cons.prems c e by simp
  have e': "e = entry_of io tree key" and t: "t = put_key tree key target" using one by blast+
  have "copied_keys io tree [key] target" using one unfolding copied_keys_def e' by simp
  moreover have "copied_keys io tree keys (fold (put_key tree) [key] target)" using rest t by simp
  ultimately have "copied_keys io tree (key # keys) target" using copied_keys_append [of io tree "[key]"] by simp
  then show ?case using rest unfolding e' t by simp
qed

definition all_keys :: "byte_tree \<Rightarrow> string list \<Rightarrow> string list list" where
  "all_keys tree sources = concat (map (record_keys tree) sources)"

lemma copy_sources_None:
  assumes "copy_sources io root target_root tree sources es target = (es', target', None)" "tree_plain tree"
  shows "es' = es @ map (entry_of io tree) (all_keys tree sources) \<and>
    target' = fold (put_key tree) (all_keys tree sources) target \<and> copied_keys io tree (all_keys tree sources) target \<and>
    list_all source_ok sources"
  using assms(1)
proof (induction sources arbitrary: es target)
  case Nil
  then show ?case by (simp add: all_keys_def copied_keys_def)
next
  case (Cons source sources)
  obtain e1 t1 err where c: "copy_keys io root target_root tree source (record_keys tree source) es target = (e1, t1, err)"
    by (metis prod_cases3)
  have ok: "source_ok source" "err = None"
    using Cons.prems c by (auto simp: validate_source_def split: if_splits option.splits)
  have one: "e1 = es @ map (entry_of io tree) (record_keys tree source) \<and> t1 = fold (put_key tree) (record_keys tree source) target \<and>
      copied_keys io tree (record_keys tree source) target"
    by (rule copy_keys_None [OF c [unfolded ok(2)] _ ok(1)])
      (use record_keys_plain [OF assms(2)] record_keys_mem in blast)
  have "copy_sources io root target_root tree sources e1 t1 = (es', target', None)"
    using Cons.prems c ok by (simp add: validate_source_def)
  from Cons.IH [OF this] one copied_keys_append [of io tree "record_keys tree source" target "all_keys tree sources"] ok(1)
  show ?case by (simp add: all_keys_def)
qed

text \<open>The result of a successful copy, in one lemma.\<close>

lemma copy_raw_Inr:
  assumes "copy_raw io sources root target_root tree = (Inr summary, target, bytes)" "tree_plain tree"
  defines "keys \<equiv> all_keys tree (sorted_set sources)"
  shows "summary = raw_summary_of io (map (entry_of io tree) keys)"
    "bytes = raw_manifest_bytes io (map (entry_of io tree) keys)"
    "copied_keys io tree keys []"
    "dict_get target k = (if k \<in> record_files keys then dict_get tree k else None)"
    "list_all source_ok (sorted_set sources)"
    "set (persisted_sources tree) \<subseteq> set sources"
    "distinct (dict_keys target)"
proof -
  obtain es err where c: "copy_entries io (sorted_set sources) root target_root tree = (es, target, err)"
    using assms(1) by (auto simp: copy_raw_def split: prod.splits option.splits)
  have e: "err = None" "summary = raw_summary_of io es" "bytes = raw_manifest_bytes io es"
    using assms(1) c by (auto simp: copy_raw_def split: option.splits)
  have u: "filter (\<lambda>s. s \<notin> set (sorted_set sources)) (persisted_sources tree) = []"
    and s: "copy_sources io root target_root tree (sorted_set sources) [] [] = (es, target, None)"
    using c e(1) by (auto simp: copy_entries_def Let_def split: if_splits)
  note r = copy_sources_None [OF s assms(2)]
  show "summary = raw_summary_of io (map (entry_of io tree) keys)"
    "bytes = raw_manifest_bytes io (map (entry_of io tree) keys)" "copied_keys io tree keys []"
    "list_all source_ok (sorted_set sources)"
    using e r by (simp_all add: keys_def)
  show "dict_get target k = (if k \<in> record_files keys then dict_get tree k else None)"
    using r fold_put_key_get [of keys io tree "[]" k] by (simp add: keys_def copied_keys_def)
  show "set (persisted_sources tree) \<subseteq> set sources" using u by (auto simp: filter_empty_conv)
  show "distinct (dict_keys target)" using r fold_put_key_distinct [of "[]" tree keys] by (simp add: keys_def)
qed

end
