(* ===== verification/Backup_Verified.thy ===== *)
theory Backup_Verified
  imports Backup_Copy
begin

text \<open>
  \<open>BackupVerifier._verify_raw\<close> (\<open>backup.py\<close>) against \<open>RawBackupCopier.copy\<close>: the verification of what the copier
  left finds nothing wrong, and a backup that it finds nothing wrong with holds the copied bytes.
\<close>


section \<open>One intact entry\<close>

text \<open>The state of the verifier after an intact record.\<close>

definition checked_key :: "string list \<Rightarrow> raw_check \<Rightarrow> raw_check" where
  "checked_key key st =
     st\<lparr>rk_paths := rk_paths st @ [join ''/'' key],
        rk_sources := dict_set (hd key) (count_of_source (rk_sources st) (hd key) + 1) (rk_sources st),
        rk_checked := rk_checked st + 1\<rparr>"

text \<open>The record of a key has the same files in two trees.\<close>

definition same_files :: "byte_tree \<Rightarrow> byte_tree \<Rightarrow> string list \<Rightarrow> bool" where
  "same_files tree raw key =
     (dict_get raw (payload_file key) = dict_get tree (payload_file key) \<and>
      dict_get raw (metadata_file key) = dict_get tree (metadata_file key))"

text \<open>Different bytes of two collections have different digests.\<close>

definition no_collision :: "codec \<Rightarrow> string set \<Rightarrow> string set \<Rightarrow> bool" where
  "no_collision c xs ys = (\<forall>x\<in>xs. \<forall>y\<in>ys. cd_sha256 c x = cd_sha256 c y \<longrightarrow> x = y)"

lemma entry_of_fields:
  "re_path (entry_of io tree key) = join ''/'' key"
  "re_size_bytes (entry_of io tree key) = int (length (the (dict_get tree (payload_file key))))"
  "re_sha256 (entry_of io tree key) = cd_sha256 (bi_codec io) (the (dict_get tree (payload_file key)))"
  "re_sidecar_size_bytes (entry_of io tree key) = int (length (the (dict_get tree (metadata_file key))))"
  "re_sidecar_sha256 (entry_of io tree key) = cd_sha256 (bi_codec io) (the (dict_get tree (metadata_file key)))"
  by (simp_all add: entry_of_def copied_entry_def)

lemma split_join_plain: "plain_key key \<Longrightarrow> key \<noteq> [] \<Longrightarrow> split_on CHR ''/'' (join ''/'' key) = key"
  using split_on_join [of key "CHR ''/''"] by (simp add: plain_key_def plain_part_def)

lemma join_inj: "plain_key a \<Longrightarrow> plain_key b \<Longrightarrow> a \<noteq> [] \<Longrightarrow> b \<noteq> [] \<Longrightarrow> join ''/'' a = join ''/'' b \<Longrightarrow> a = b"
  by (metis split_join_plain)

lemma intact_same_files:
  assumes "intact io tree key" "same_files tree raw key"
  shows "dict_get raw (payload_file key) = Some (the (dict_get tree (payload_file key)))"
    "dict_get raw (metadata_file key) = Some (the (dict_get tree (metadata_file key)))"
    "verify_raw_directory io raw key (Some (re_source_checksum (entry_of io tree key))) = Inr ()"
proof -
  obtain payload sidecar m where f: "dict_get tree (payload_file key) = Some payload"
    "dict_get tree (metadata_file key) = Some sidecar" "bi_metadata io sidecar = Inr m"
    and v: "verify_raw_directory io tree key (Some (md_sha256 m)) = Inr ()"
    using assms(1) by (auto simp: intact_def)
  show "dict_get raw (payload_file key) = Some (the (dict_get tree (payload_file key)))"
    "dict_get raw (metadata_file key) = Some (the (dict_get tree (metadata_file key)))"
    using f(1,2) assms(2) by (simp_all add: same_files_def)
  have "re_source_checksum (entry_of io tree key) = md_sha256 m" using f by (simp add: entry_of_def copied_entry_def)
  then show "verify_raw_directory io raw key (Some (re_source_checksum (entry_of io tree key))) = Inr ()"
    using verify_raw_directory_cong [OF _ _ v] assms(2) by (simp add: same_files_def)
qed

lemma check_files_intact:
  assumes "intact io tree key" "same_files tree raw key"
  shows "check_files io raw (entry_of io tree key) key st = Inr (st\<lparr>rk_checked := rk_checked st + 1\<rparr>)"
  using intact_same_files [OF assms]
  by (simp add: check_files_def check_payload_def check_sidecar_def entry_of_fields)

lemma check_entry_intact:
  assumes "intact io tree key" "same_files tree raw key" "plain_key key" "key \<noteq> []"
    "hd key \<in> set names" "join ''/'' key \<notin> set (rk_paths st)"
  shows "check_entry io root raw names n (entry_of io tree key) st = Inr (checked_key key st)"
  using check_files_intact [OF assms(1,2)] assms(5,6)
  by (simp add: check_entry_def entry_of_fields(1) split_join_plain [OF assms(3,4)] key_below_plain [OF assms(3,4)]
      checked_key_def Let_def)


section \<open>All entries\<close>

definition checkable :: "backup_io \<Rightarrow> byte_tree \<Rightarrow> string list \<Rightarrow> string list \<Rightarrow> bool" where
  "checkable io tree names key =
     (intact io tree key \<and> plain_key key \<and> key \<noteq> [] \<and> hd key \<in> set names \<and>
      validated_entry (entry_of io tree key) = Some (entry_of io tree key))"

lemma read_entry_line: "backup_io_ok io \<Longrightarrow> read_entry io (entry_line io e) = validated_entry e"
  by (simp add: read_entry_def backup_io_ok_def)

lemma checked_fold:
  "rk_paths (fold checked_key keys st) = rk_paths st @ map (join ''/'') keys"
  "rk_checked (fold checked_key keys st) = rk_checked st + int (length keys)"
  "rk_missing (fold checked_key keys st) = rk_missing st"
  "rk_checksum_failures (fold checked_key keys st) = rk_checksum_failures st"
  "rk_sidecar_failures (fold checked_key keys st) = rk_sidecar_failures st"
  "rk_failures (fold checked_key keys st) = rk_failures st"
  "count_of_source (rk_sources (fold checked_key keys st)) s =
     count_of_source (rk_sources st) s + int (length (filter (\<lambda>key. hd key = s) keys))"
  by (induction keys arbitrary: st) (auto simp: checked_key_def count_of_source_def)

lemma check_lines_intact:
  assumes "backup_io_ok io"
  shows "\<lbrakk>\<forall>key\<in>set keys. checkable io tree names key \<and> same_files tree raw key; distinct keys;
      \<forall>key\<in>set keys. join ''/'' key \<notin> set (rk_paths st)\<rbrakk> \<Longrightarrow>
    check_lines io root raw names None n (map (entry_line io) (map (entry_of io tree) keys)) st = Inr (fold checked_key keys st)"
proof (induction keys arbitrary: n st)
  case (Cons key keys)
  have c: "checkable io tree names key" "same_files tree raw key" "join ''/'' key \<notin> set (rk_paths st)" using Cons.prems by simp_all
  then have r: "read_entry io (entry_line io (entry_of io tree key)) = Some (entry_of io tree key)"
    using read_entry_line [OF assms] unfolding checkable_def by metis
  have e: "check_entry io root raw names n (entry_of io tree key) st = Inr (checked_key key st)"
    using check_entry_intact c unfolding checkable_def by metis
  have "join ''/'' k \<noteq> join ''/'' key" if "k \<in> set keys" for k
    using join_inj [of k key] that Cons.prems(1,2) c(1) by (auto simp: checkable_def)
  then have "\<forall>k\<in>set keys. join ''/'' k \<notin> set (rk_paths (checked_key key st))"
    using Cons.prems(3) by (simp add: checked_key_def)
  then show ?case using Cons.IH [of "checked_key key st" "n + 1"] Cons.prems(1,2) by (simp add: r e)
qed simp


section \<open>The copy passes\<close>

lemma record_keys_length: "length (filter (\<lambda>key. hd key = s) (record_keys tree source)) =
    (if s = source then length (record_keys tree source) else 0)"
proof -
  have "filter (\<lambda>key. hd key = s) (record_keys tree source) = (if s = source then record_keys tree source else [])"
    using record_keys_mem(2) [of _ tree source] by (auto intro!: filter_True filter_False)
  then show ?thesis by simp
qed

lemma all_keys_count:
  "distinct sources \<Longrightarrow> length (filter (\<lambda>key. hd key = s) (all_keys tree sources)) =
    (if s \<in> set sources then length (record_keys tree s) else 0)"
  by (induction sources) (auto simp: all_keys_def record_keys_length)

lemma all_keys_mem:
  assumes "key \<in> set (all_keys tree sources)"
  shows "hd key \<in> set sources" "length key = 5" "tree_plain tree \<Longrightarrow> plain_key key"
  using assms record_keys_mem record_keys_plain by (auto simp: all_keys_def)

lemma compare_source_none:
  assumes "list_all (\<lambda>(s, m). sm_raw_response_count m = count_of_source counts s) named"
  shows "fold (compare_source counts) named v = v"
  using assms by (induction named) (auto simp: compare_source_def Let_def)

lemma compare_source_enough:
  assumes "sm_raw_response_count (snd named) \<le> count_of_source counts (fst named)"
  shows "rv_failures (compare_source counts named v) = rv_failures v \<and> rv_extras v \<le> rv_extras (compare_source counts named v)"
  using assms by (cases named) (simp add: compare_source_def Let_def)

lemma compare_source_failures:
  assumes "list_all (\<lambda>(s, m). sm_raw_response_count m \<le> count_of_source counts s) named"
  shows "rv_failures (fold (compare_source counts) named v) = rv_failures v \<and>
    rv_extras v \<le> rv_extras (fold (compare_source counts) named v)"
  using assms
proof (induction named arbitrary: v)
  case (Cons x named)
  let ?v = "compare_source counts x v"
  have "rv_failures ?v = rv_failures v" "rv_extras v \<le> rv_extras ?v"
    using compare_source_enough [of x counts v] Cons.prems by (simp_all add: case_prod_beta)
  moreover have "rv_failures (fold (compare_source counts) named ?v) = rv_failures ?v"
    "rv_extras ?v \<le> rv_extras (fold (compare_source counts) named ?v)"
    using Cons.IH [of ?v] Cons.prems by simp_all
  ultimately show ?case by simp
qed simp

lemma compare_source_keeps:
  "rv_expected (fold (compare_source counts) named v) = rv_expected v"
  "rv_checked (fold (compare_source counts) named v) = rv_checked v"
  "rv_missing (fold (compare_source counts) named v) = rv_missing v"
  "rv_checksum_failures (fold (compare_source counts) named v) = rv_checksum_failures v"
  "rv_sidecar_failures (fold (compare_source counts) named v) = rv_sidecar_failures v"
  by (induction named arbitrary: v) (auto simp: compare_source_def Let_def)

text \<open>What the verifier finds of a copy, as one verdict.\<close>

definition passed_raw :: "nat \<Rightarrow> raw_verdict" where
  "passed_raw n = \<lparr>rv_expected = int n, rv_checked = int n, rv_missing = 0, rv_checksum_failures = 0,
     rv_sidecar_failures = 0, rv_extras = 0, rv_failures = [], rv_warnings = []\<rparr>"

text \<open>A backup that holds a copy and its manifest.\<close>

definition holds_copy :: "byte_tree \<Rightarrow> byte_tree \<Rightarrow> string \<Rightarrow> bool" where
  "holds_copy backup target bytes =
     (dict_get backup [''raw-manifest.jsonl.gz''] = Some bytes \<and>
      (\<forall>k\<in>set (dict_keys (subtree [''raw''] backup) @ dict_keys target).
         dict_get (subtree [''raw''] backup) k = dict_get target k))"

lemma holds_copy_get: "holds_copy backup target bytes \<Longrightarrow> dict_get (subtree [''raw''] backup) k = dict_get target k"
proof -
  assume h: "holds_copy backup target bytes"
  show ?thesis
  proof (cases "k \<in> set (dict_keys (subtree [''raw''] backup) @ dict_keys target)")
    case True
    then show ?thesis using h unfolding holds_copy_def by blast
  next
    case False
    then have "dict_get (subtree [''raw''] backup) k = None" "dict_get target k = None"
      by (simp_all add: map_of_eq_None_iff)
    then show ?thesis by simp
  qed
qed

lemma key_in_tree: "k \<in> set (dict_keys tree) \<longleftrightarrow> dict_get tree k \<noteq> None"
  by (simp add: map_of_eq_None_iff)

lemma unreferenced_copy:
  assumes "\<And>k. k \<in> set (dict_keys raw) \<Longrightarrow> k \<in> record_files keys"
  shows "unreferenced raw (map (join ''/'') keys) = 0"
proof -
  have "join ''/'' (butlast k) \<in> set (map (join ''/'') keys)"
    if "k \<in> set (dict_keys raw)" "last k = ''metadata.json''" for k
    using assms [OF that(1)] that(2) by (auto simp: record_files_def payload_file_def metadata_file_def)
  then show ?thesis
    unfolding unreferenced_def by (simp add: filter_empty_conv)
qed

lemma manifest_file [simp]: "named_file io tree ''raw-manifest.jsonl.gz'' = dict_get tree [''raw-manifest.jsonl.gz'']"
proof -
  have "path_of_text ''raw-manifest.jsonl.gz'' = \<lparr>path_absolute = False, path_parts = [''raw-manifest.jsonl.gz'']\<rparr>" by code_simp
  then show ?thesis by (simp add: named_file_def)
qed

lemma copy_raw_checkable:
  assumes "copy_raw io sources root target_root tree = (Inr summary, target, bytes)" "tree_plain tree"
    "set sources \<subseteq> set names" "holds_copy backup target bytes" "key \<in> set (all_keys tree (sorted_set sources))"
  shows "checkable io tree names key" "same_files tree (subtree [''raw''] backup) key"
proof -
  note c = copy_raw_Inr [OF assms(1,2)]
  note k = all_keys_mem [OF assms(5)]
  have "key \<noteq> []" using k(2) by auto
  moreover have "hd key \<in> set names" using k(1) assms(3) by auto
  ultimately show "checkable io tree names key"
    using c(3) assms(5) k(3) [OF assms(2)] unfolding checkable_def copied_keys_def by blast
  show "same_files tree (subtree [''raw''] backup) key"
    using assms(5) by (simp add: same_files_def holds_copy_get [OF assms(4)] c(4)) (simp add: record_files_def)
qed

text \<open>The check of the lines of a copy, for any names that contain the sources of the copy.\<close>

lemma check_lines_copy:
  assumes "backup_io_ok io" "copy_raw io sources root target_root tree = (Inr summary, target, bytes)" "tree_plain tree"
    "set sources \<subseteq> set names" "holds_copy backup target bytes"
  defines "keys \<equiv> all_keys tree (sorted_set sources)"
  shows "check_lines io dir (subtree [''raw''] backup) names None 1 (map (entry_line io) (map (entry_of io tree) keys)) new_raw_check
    = Inr (fold checked_key keys new_raw_check)"
proof -
  have "distinct keys" using copy_raw_Inr(3) [OF assms(2,3)] unfolding keys_def copied_keys_def by blast
  moreover have "\<forall>key\<in>set keys. checkable io tree names key \<and> same_files tree (subtree [''raw''] backup) key"
    using copy_raw_checkable [OF assms(2-5)] unfolding keys_def by blast
  ultimately show ?thesis by (intro check_lines_intact [OF assms(1)]) (simp_all add: new_raw_check_def)
qed

lemma verify_raw_of_copy:
  assumes "backup_io_ok io" "copy_raw io sources root target_root tree = (Inr summary, target, bytes)" "tree_plain tree"
    "set sources \<subseteq> set (dict_keys (bm_sources manifest))" "holds_copy backup target bytes" "bm_raw manifest = summary"
  defines "keys \<equiv> all_keys tree (sorted_set sources)"
  shows "verify_raw io directory backup manifest =
    Inr (fold (compare_source (rk_sources (fold checked_key keys new_raw_check))) (bm_sources manifest) (passed_raw (length keys)))"
proof -
  note c = copy_raw_Inr [OF assms(2,3)]
  let ?raw = "subtree [''raw''] backup" and ?st = "fold checked_key keys new_raw_check"
  have b: "dict_get backup [''raw-manifest.jsonl.gz''] = Some bytes" using assms(5) unfolding holds_copy_def by blast
  have s: "rw_manifest_filename (bm_raw manifest) = ''raw-manifest.jsonl.gz''"
    "rw_manifest_sha256 (bm_raw manifest) = cd_sha256 (bi_codec io) bytes" "rw_file_count (bm_raw manifest) = int (length keys)"
    using assms(6) c(1,2) by (simp_all add: raw_summary_of_def keys_def)
  have l: "bi_lines io bytes = (map (entry_line io) (map (entry_of io tree) keys), None)"
    using assms(1) c(2) unfolding backup_io_ok_def raw_manifest_bytes_def keys_def by blast
  have r: "check_lines io (directory @ [''raw'']) ?raw (dict_keys (bm_sources manifest)) None 1
      (map (entry_line io) (map (entry_of io tree) keys)) new_raw_check = Inr ?st"
    unfolding keys_def by (rule check_lines_copy [OF assms(1-5)])
  have "k \<in> record_files keys" if "k \<in> set (dict_keys ?raw)" for k
    using that c(4) [of k] unfolding key_in_tree holds_copy_get [OF assms(5)] keys_def by (auto split: if_splits)
  then have u: "unreferenced ?raw (map (join ''/'') keys) = 0" by (rule unreferenced_copy)
  have v: "raw_verdict_of manifest ?raw ?st = fold (compare_source (rk_sources ?st)) (bm_sources manifest) (passed_raw (length keys))"
    using u by (simp add: raw_verdict_of_def checked_fold s(3) new_raw_check_def passed_raw_def)
  show ?thesis unfolding verify_raw_def s(1) manifest_file b using r v s(2) l by simp
qed


section \<open>What passes is the copy\<close>

text \<open>Failures are only added.\<close>

definition more_failures :: "raw_check \<Rightarrow> raw_check \<Rightarrow> bool" where
  "more_failures st st' = (\<exists>extra. rk_failures st' = rk_failures st @ extra)"

lemma more_failures_refl: "more_failures st st"
  by (simp add: more_failures_def)

lemma more_failures_trans: "more_failures a b \<Longrightarrow> more_failures b c \<Longrightarrow> more_failures a c"
  by (auto simp: more_failures_def)

lemma more_failures_none: "more_failures st st' \<Longrightarrow> rk_failures st' = [] \<Longrightarrow> rk_failures st = []"
  by (simp add: more_failures_def)

lemma check_payload_more: "more_failures st (check_payload io e bytes st)"
  by (simp add: more_failures_def check_payload_def rk_fail_def)

lemma check_sidecar_more: "more_failures st (check_sidecar io e bytes st)"
  by (simp add: more_failures_def check_sidecar_def rk_fail_def)

lemma check_files_more:
  assumes "check_files io tree e key st = Inr st'"
  shows "more_failures st st'"
proof (cases "dict_get tree (payload_file key)")
  case None
  then show ?thesis using assms by (auto simp: check_files_def more_failures_def rk_fail_def)
next
  case payload: (Some payload)
  show ?thesis
  proof (cases "dict_get tree (metadata_file key)")
    case None
    then show ?thesis using assms payload by (auto simp: check_files_def more_failures_def rk_fail_def)
  next
    case (Some sidecar)
    define mid where "mid = check_sidecar io e sidecar (check_payload io e payload (st\<lparr>rk_checked := rk_checked st + 1\<rparr>))"
    have "more_failures (st\<lparr>rk_checked := rk_checked st + 1\<rparr>) mid"
      unfolding mid_def using more_failures_trans check_payload_more check_sidecar_more by blast
    then have m: "more_failures st mid" by (simp add: more_failures_def)
    have "st' = mid \<or> (\<exists>m. st' = rk_fail m (mid\<lparr>rk_checksum_failures := rk_checksum_failures mid + 1\<rparr>))"
      using assms payload Some
      by (cases "verify_raw_directory io tree key (Some (re_source_checksum e))")
        (auto simp: check_files_def Let_def mid_def [symmetric] split: if_splits)
    then show ?thesis using m by (auto simp: more_failures_def rk_fail_def)
  qed
qed

lemma check_entry_more:
  assumes "check_entry io root tree names n e st = Inr st'"
  shows "more_failures st st'"
proof -
  let ?source = "hd (split_on CHR ''/'' (re_path e))"
  let ?st1 = "st\<lparr>rk_paths := rk_paths st @ [re_path e]\<rparr>"
  let ?st2 = "?st1\<lparr>rk_sources := dict_set ?source (count_of_source (rk_sources ?st1) ?source + 1) (rk_sources ?st1)\<rparr>"
  consider "st' = rk_fail (''Raw manifest repeats '' @ re_path e) st" | (failed) m where "st' = rk_fail m ?st1"
    | (escapes) m where "st' = rk_fail m ?st2" | (checked) key where "check_files io tree e key ?st2 = Inr st'"
    using assms by (auto simp: check_entry_def Let_def split: if_splits option.splits)
  then show ?thesis
  proof cases
    case checked
    then show ?thesis using check_files_more [OF checked] by (simp add: more_failures_def)
  qed (simp_all add: more_failures_def rk_fail_def)
qed

lemma check_lines_more:
  "check_lines io root tree names ending n lines st = Inr st' \<Longrightarrow> more_failures st st'"
proof (induction lines arbitrary: n st)
  case Nil
  then show ?case by (auto simp: more_failures_def rk_fail_def split: option.splits if_splits)
next
  case (Cons line lines)
  show ?case
  proof (cases "read_entry io line")
    case None
    then show ?thesis using Cons.prems by (auto simp: more_failures_def rk_fail_def)
  next
    case (Some e)
    then obtain mid where mid: "check_entry io root tree names n e st = Inr mid"
      "check_lines io root tree names ending (n + 1) lines mid = Inr st'"
      using Cons.prems by (cases "check_entry io root tree names n e st") simp_all
    then show ?thesis using check_entry_more Cons.IH more_failures_trans by blast
  qed
qed

lemma compare_source_more: "rv_failures (fold (compare_source counts) named v) = [] \<Longrightarrow> rv_failures v = []"
proof (induction named arbitrary: v)
  case (Cons x named)
  then have "rv_failures (compare_source counts x v) = []" by simp
  then show ?case by (cases x) (auto simp: compare_source_def Let_def split: if_splits)
qed simp

lemma raw_verdict_more:
  assumes "rv_failures (raw_verdict_of manifest tree st) = []"
  shows "rk_failures st = []"
  using compare_source_more [OF assms [unfolded raw_verdict_of_def Let_def]] by simp

lemma verify_raw_passed:
  assumes "verify_raw io directory backup manifest = Inr v" "rv_failures v = []"
    "rw_manifest_filename (bm_raw manifest) = ''raw-manifest.jsonl.gz''"
  shows "\<exists>bytes lines ending st. dict_get backup [''raw-manifest.jsonl.gz''] = Some bytes \<and>
    cd_sha256 (bi_codec io) bytes = rw_manifest_sha256 (bm_raw manifest) \<and> bi_lines io bytes = (lines, ending) \<and>
    check_lines io (directory @ [''raw'']) (subtree [''raw''] backup) (dict_keys (bm_sources manifest)) ending 1 lines new_raw_check
      = Inr st \<and> rk_failures st = []"
proof -
  obtain bytes where b: "dict_get backup [''raw-manifest.jsonl.gz''] = Some bytes"
    using assms(1,2) unfolding verify_raw_def assms(3) manifest_file
    by (cases "dict_get backup [''raw-manifest.jsonl.gz'']") (auto simp: no_raw_manifest_def)
  obtain lines ending where l: "bi_lines io bytes = (lines, ending)" by (cases "bi_lines io bytes")
  define first where "first = (if cd_sha256 (bi_codec io) bytes \<noteq> rw_manifest_sha256 (bm_raw manifest)
     then rk_fail ''Raw manifest checksum mismatch'' new_raw_check else new_raw_check)"
  have "result_bind (check_lines io (directory @ [''raw'']) (subtree [''raw''] backup) (dict_keys (bm_sources manifest)) ending 1 lines first)
      (\<lambda>st. Inr (raw_verdict_of manifest (subtree [''raw''] backup) st)) = Inr v"
    using assms(1) unfolding verify_raw_def assms(3) manifest_file by (simp add: b l Let_def first_def)
  then obtain st where st: "check_lines io (directory @ [''raw'']) (subtree [''raw''] backup) (dict_keys (bm_sources manifest)) ending 1 lines first = Inr st"
    "v = raw_verdict_of manifest (subtree [''raw''] backup) st"
    by (cases "check_lines io (directory @ [''raw'']) (subtree [''raw''] backup) (dict_keys (bm_sources manifest)) ending 1 lines first")
      simp_all
  have "rv_failures (raw_verdict_of manifest (subtree [''raw''] backup) st) = []" using assms(2) st(2) by simp
  from raw_verdict_more [OF this] have f: "rk_failures st = []" .
  then have "rk_failures first = []" using more_failures_none check_lines_more st(1) by blast
  then have "cd_sha256 (bi_codec io) bytes = rw_manifest_sha256 (bm_raw manifest)" "first = new_raw_check"
    by (auto simp: first_def rk_fail_def split: if_splits)
  then show ?thesis using b l st(1) f by metis
qed

text \<open>An entry without failures: its files have the digests of the entry.\<close>

lemma check_files_passed:
  assumes "check_files io tree e key st = Inr st'" "rk_failures st' = []"
  shows "\<exists>payload sidecar. dict_get tree (payload_file key) = Some payload \<and> dict_get tree (metadata_file key) = Some sidecar \<and>
    cd_sha256 (bi_codec io) payload = re_sha256 e \<and> cd_sha256 (bi_codec io) sidecar = re_sidecar_sha256 e \<and>
    verify_raw_directory io tree key (Some (re_source_checksum e)) = Inr ()"
proof -
  obtain payload where p: "dict_get tree (payload_file key) = Some payload"
    using assms by (cases "dict_get tree (payload_file key)") (auto simp: check_files_def rk_fail_def)
  obtain sidecar where s: "dict_get tree (metadata_file key) = Some sidecar"
    using assms p by (cases "dict_get tree (metadata_file key)") (auto simp: check_files_def rk_fail_def)
  let ?st1 = "check_payload io e payload (st\<lparr>rk_checked := rk_checked st + 1\<rparr>)"
  have v: "verify_raw_directory io tree key (Some (re_source_checksum e)) = Inr ()"
    using assms p s by (cases "verify_raw_directory io tree key (Some (re_source_checksum e))")
      (auto simp: check_files_def rk_fail_def Let_def split: if_splits)
  then have f: "rk_failures (check_sidecar io e sidecar ?st1) = []" using assms p s by (auto simp: check_files_def Let_def)
  then have "rk_failures ?st1 = []" using more_failures_none check_sidecar_more by blast
  then have "cd_sha256 (bi_codec io) payload = re_sha256 e" by (auto simp: check_payload_def rk_fail_def split: if_splits)
  moreover have "cd_sha256 (bi_codec io) sidecar = re_sidecar_sha256 e"
    using f by (auto simp: check_sidecar_def rk_fail_def split: if_splits)
  ultimately show ?thesis using p s v by blast
qed

lemma check_entry_passed:
  assumes "check_entry io root tree names n e st = Inr st'" "rk_failures st' = []" "key_below root (re_path e) = Some key"
  shows "\<exists>st2. check_files io tree e key st2 = Inr st'"
  using assms by (auto simp: check_entry_def rk_fail_def Let_def split: if_splits)

lemma check_lines_passed:
  assumes "backup_io_ok io"
  shows "\<lbrakk>check_lines io root raw names ending n (map (entry_line io) (map (entry_of io tree) keys)) st = Inr st'; rk_failures st' = [];
      \<forall>key\<in>set keys. plain_key key \<and> key \<noteq> [] \<and> validated_entry (entry_of io tree key) = Some (entry_of io tree key);
      key \<in> set keys\<rbrakk> \<Longrightarrow>
    \<exists>st1 st2. check_files io raw (entry_of io tree key) key st1 = Inr st2 \<and> rk_failures st2 = []"
proof (induction keys arbitrary: n st)
  case (Cons k keys)
  have k: "plain_key k" "k \<noteq> []" "validated_entry (entry_of io tree k) = Some (entry_of io tree k)" using Cons.prems(3) by simp_all
  have r: "read_entry io (entry_line io (entry_of io tree k)) = Some (entry_of io tree k)"
    unfolding read_entry_line [OF assms] by (rule k(3))
  then obtain mid where mid: "check_entry io root raw names n (entry_of io tree k) st = Inr mid"
    "check_lines io root raw names ending (n + 1) (map (entry_line io) (map (entry_of io tree) keys)) mid = Inr st'"
    using Cons.prems(1) by (cases "check_entry io root raw names n (entry_of io tree k) st") simp_all
  show ?case
  proof (cases "key = k")
    case True
    have "rk_failures mid = []" using more_failures_none check_lines_more mid(2) Cons.prems(2) by blast
    moreover have "key_below root (re_path (entry_of io tree k)) = Some k"
      unfolding entry_of_fields(1) by (rule key_below_plain [OF k(1,2)])
    ultimately show ?thesis using check_entry_passed [OF mid(1)] True by blast
  next
    case False
    then show ?thesis using Cons.IH [OF mid(2) Cons.prems(2)] Cons.prems(3,4) by simp
  qed
qed simp

end
