(* ===== verification/Backup_Store.thy ===== *)
theory Backup_Store
  imports Backup_Verified
begin

text \<open>
  The Raw store of the collectors (\<open>collector_core/raw_store.py\<close>, records of typed metadata) as a tree of bytes,
  as backup and restore see it: loading and reading agree, so a store that only the collectors wrote can
  be backed up.
\<close>


definition store_tree :: "backup_io \<Rightarrow> raw_files \<Rightarrow> byte_tree" where
  "store_tree io files =
     concat (map (\<lambda>(key, d). [(payload_file key, rd_payload d), (metadata_file key, bi_metadata_text io (rd_metadata d))]) files)"

text \<open>The sidecars of a store are read back.\<close>

definition sidecars_ok :: "backup_io \<Rightarrow> raw_files \<Rightarrow> bool" where
  "sidecars_ok io files = list_all (\<lambda>(key, d). bi_metadata io (bi_metadata_text io (rd_metadata d)) = Inr (rd_metadata d)) files"

lemma sidecars_ok_get:
  "sidecars_ok io files \<Longrightarrow> dict_get files key = Some d \<Longrightarrow> bi_metadata io (bi_metadata_text io (rd_metadata d)) = Inr (rd_metadata d)"
  by (auto simp: sidecars_ok_def list_all_iff dest: map_of_SomeD)

lemma store_tree_get:
  "dict_get (store_tree io files) (payload_file key) = map_option rd_payload (dict_get files key)"
  "dict_get (store_tree io files) (metadata_file key) = map_option (\<lambda>d. bi_metadata_text io (rd_metadata d)) (dict_get files key)"
  by (induction files) (auto simp: store_tree_def)

lemma store_tree_Cons: "store_tree io ((key, d) # files) =
    (payload_file key, rd_payload d) # (metadata_file key, bi_metadata_text io (rd_metadata d)) # store_tree io files"
  by (simp add: store_tree_def)

lemma store_tree_keys: "set (dict_keys (store_tree io files)) = record_files (dict_keys files)"
proof (induction files)
  case (Cons x files)
  have "record_files (dict_keys (x # files)) = insert (payload_file (fst x)) (insert (metadata_file (fst x)) (record_files (dict_keys files)))"
    by (simp add: record_files_def insert_commute)
  then show ?case using Cons by (cases x) (simp add: store_tree_Cons)
qed (simp add: store_tree_def record_files_def)

lemma store_tree_load:
  assumes "sidecars_ok io files"
  shows "load_record io (store_tree io files) key = raw_load files key"
  using assms by (cases "dict_get files key") (auto simp: load_record_def raw_load_def store_tree_get dest: sidecars_ok_get)

lemma store_tree_read:
  assumes "dict_get files (rr_directory r) = Some d" "raw_read (bi_codec io) files r = Inr p"
  shows "read_record io (store_tree io files) r = Inr p"
  using assms by (auto simp: read_record_def raw_read_def store_tree_get split: option.splits if_splits)

lemma store_tree_directory: "dict_get files key \<noteq> None \<Longrightarrow> has_directory (store_tree io files) key"
  using has_directory_get [of "store_tree io files" key "[''payload.gz'']"]
  by (auto simp: store_tree_get payload_file_def [symmetric])

text \<open>A record that the store can read passes the check of its directory.\<close>

lemma store_tree_verifies:
  assumes "sidecars_ok io files" "raw_load files key = Inr r" "raw_read (bi_codec io) files r = Inr p"
    "expected \<in> {None, Some (md_sha256 (rr_metadata r))}"
  shows "verify_raw_directory io (store_tree io files) key expected = Inr ()"
proof -
  obtain d where d: "dict_get files key = Some d" "rr_directory r = key"
    using assms(2) by (auto simp: raw_load_def split: option.splits)
  have "read_record io (store_tree io files) r = Inr p" using store_tree_read assms(3) d by simp
  then show ?thesis
    using assms(2,4) d(1) store_tree_directory [of files key io]
    by (auto simp: verify_raw_directory_def store_tree_load [OF assms(1)] store_tree_get)
qed


section \<open>Sound stores\<close>

lemma hex_chars: "hex_char c \<Longrightarrow> c \<noteq> CHR ''/'' \<and> c \<noteq> CHR 0x5C"
  by (auto simp: hex_char_def Let_def)

lemma digit_no_backslash: "digit_of CHR 0x5C = None"
  by (simp add: digit_of_def)

lemma source_no_backslash: "source_ok s \<Longrightarrow> CHR 0x5C \<notin> set s"
  by (cases s) (auto simp: source_ok_def source_char_def Let_def list_all_iff)

lemma record_key_plain_key:
  assumes "source_ok s" "digest_text h"
  shows "plain_key (record_key s t h)" "length (record_key s t h) = 5" "hd (record_key s t h) = s"
proof -
  obtain y m d where c: "civil_of_day (date_of t) = (y, m, d)" by (metis prod_cases3)
  have h: "CHR ''/'' \<notin> set h" "CHR 0x5C \<notin> set h"
    using assms(2) hex_chars by (auto simp: digest_text_def list_all_iff)
  have "CHR 0x5C \<notin> set (pad w n)" for w n using pad_chars [of "CHR 0x5C" w n] digit_no_backslash by auto
  moreover have "CHR 0x5C \<notin> set (compact_micro t)" using compact_micro_chars [of "CHR 0x5C" t] digit_no_backslash by auto
  ultimately have "\<forall>p\<in>set (record_key s t h). CHR 0x5C \<notin> set p"
    using h(2) source_no_backslash [OF assms(1)] by (simp add: record_key_def day_directory_def c)
  then show "plain_key (record_key s t h)" using record_key_plain [OF assms(1) h(1), of t] by (simp add: plain_key_def)
  show "length (record_key s t h) = 5" "hd (record_key s t h) = s" by (simp_all add: record_key_def day_directory_def c)
qed

text \<open>The directories of a sound store.\<close>

lemma sound_store_key:
  assumes "backup_io_ok io" "store_sound (bi_codec io) files" "dict_get files key = Some d"
  shows "plain_key key" "length key = 5" "source_ok (hd key)" "digest_text (md_sha256 (rd_metadata d))"
    "hd key = md_source (rd_metadata d)"
proof -
  have s: "sound_dir (bi_codec io) key d" using store_sound_get assms(2,3) by blast
  then have k: "source_ok (md_source (rd_metadata d))"
    "key = record_key (md_source (rd_metadata d)) (md_request_timestamp (rd_metadata d)) (md_sha256 (rd_metadata d))"
    by (simp_all add: sound_dir_def Let_def)
  obtain p where "cd_sha256 (bi_codec io) p = md_sha256 (rd_metadata d)"
    using s by (auto simp: sound_dir_def Let_def split: option.splits)
  then show h: "digest_text (md_sha256 (rd_metadata d))" using assms(1) unfolding backup_io_ok_def by metis
  show "plain_key key" "length key = 5" "hd key = md_source (rd_metadata d)"
    unfolding k(2) by (rule record_key_plain_key [OF k(1) h])+
  then show "source_ok (hd key)" using k(1) by simp
qed

lemma sound_store_plain:
  assumes "backup_io_ok io" "store_sound (bi_codec io) files"
  shows "tree_plain (store_tree io files)"
proof -
  have "plain_part p \<and> CHR 0x5C \<notin> set p" if "k \<in> set (dict_keys (store_tree io files))" "p \<in> set k" for k p
  proof -
    from that(1) obtain key where "key \<in> set (dict_keys files)" and k: "k = payload_file key \<or> k = metadata_file key"
      unfolding store_tree_keys record_files_def by blast
    then obtain d where "dict_get files key = Some d" using key_in_tree [of key files] by blast
    moreover from sound_store_key(1) [OF assms this(1)] have "plain_key key" .
    moreover have "p \<in> set key \<or> p = ''payload.gz'' \<or> p = ''metadata.json''"
      using k that(2) by (auto simp: payload_file_def metadata_file_def)
    ultimately show ?thesis unfolding plain_key_def by (elim disjE) (simp_all add: plain_part_def)
  qed
  then show ?thesis unfolding tree_plain_def by blast
qed

lemma sound_store_reads:
  assumes "store_sound c files" "dict_get files key = Some d"
  shows "\<exists>p. raw_read c files \<lparr>rr_directory = key, rr_metadata = rd_metadata d\<rparr> = Inr p"
  using load_checked_Inr [OF load_checked_ok [OF assms]] by simp

text \<open>A record of a sound store is copied.\<close>

lemma sound_record_copied:
  assumes "backup_io_ok io" "store_sound (bi_codec io) files" "sidecars_ok io files" "dict_get files key = Some d"
    "\<not> has_directory target key"
  shows "copy_record io root target_root (store_tree io files) (hd key) key target =
    (Inr (entry_of io (store_tree io files) key), put_key (store_tree io files) key target)"
proof -
  note k = sound_store_key [OF assms(1,2,4)]
  let ?tree = "store_tree io files" and ?m = "rd_metadata d" and ?r = "\<lparr>rr_directory = key, rr_metadata = rd_metadata d\<rparr>"
  have ne: "key \<noteq> []" and two: "2 \<le> length key" using k(2) by auto
  have l: "load_record io ?tree key = Inr ?r" using assms(4) by (simp add: store_tree_load [OF assms(3)] raw_load_def)
  obtain p where "raw_read (bi_codec io) files ?r = Inr p" using sound_store_reads [OF assms(2,4)] by blast
  then have v: "verify_raw_directory io ?tree key (Some (md_sha256 ?m)) = Inr ()"
    using store_tree_verifies [OF assms(3), of key ?r p "Some (md_sha256 ?m)"] assms(4) by (simp add: raw_load_def)
  have e: "entry_of io ?tree key = copied_entry io (join ''/'' key) (the (dict_get ?tree (payload_file key)))
      (the (dict_get ?tree (metadata_file key))) (md_sha256 ?m)"
    using sidecars_ok_get [OF assms(3,4)] assms(4) by (simp add: entry_of_def store_tree_get)
  have "validated_entry (entry_of io ?tree key) = Some (entry_of io ?tree key)"
    using assms(1) k(4) logical_path_plain [OF k(1) two k(3)]
    unfolding e by (simp add: validated_entry_def copied_entry_def backup_io_ok_def)
  then show ?thesis
    using assms(5) unfolding e copy_record_def put_key_def
    by (simp add: l v logical_key_plain [OF k(1) ne k(3)] key_below_plain [OF k(1) ne] Let_def)
qed


section \<open>The copy of a sound store\<close>

lemma has_directory_put_key:
  assumes "has_directory (put_key tree key target) k" "length key = length k" "key \<noteq> k"
  shows "has_directory target k"
  using assms by (auto simp: has_directory_def list_ex_iff put_key_def put_copy_def dom_update payload_file_def metadata_file_def)

lemma copy_keys_sound:
  assumes "backup_io_ok io" "store_sound (bi_codec io) files" "sidecars_ok io files"
  shows "\<lbrakk>\<forall>key\<in>set keys. dict_get files key \<noteq> None \<and> hd key = source \<and> length key = 5 \<and> \<not> has_directory target key; distinct keys\<rbrakk> \<Longrightarrow>
    copy_keys io root target_root (store_tree io files) source keys es target =
      (es @ map (entry_of io (store_tree io files)) keys, fold (put_key (store_tree io files)) keys target, None)"
proof (induction keys arbitrary: es target)
  case (Cons key keys)
  obtain d where d: "dict_get files key = Some d" using Cons.prems(1) by auto
  have h: "hd key = source" "length key = 5" "\<not> has_directory target key" using Cons.prems(1) by simp_all
  have c: "copy_record io root target_root (store_tree io files) source key target =
      (Inr (entry_of io (store_tree io files) key), put_key (store_tree io files) key target)"
    using sound_record_copied [OF assms d h(3)] h(1) by simp
  have "\<not> has_directory (put_key (store_tree io files) key target) k" if "k \<in> set keys" for k
    using has_directory_put_key [of "store_tree io files" key target k] that Cons.prems h(2) by auto
  then show ?case using Cons.IH [of "put_key (store_tree io files) key target"] Cons.prems by (simp add: c)
qed simp

lemma record_keys_store:
  assumes "key \<in> set (record_keys (store_tree io files) source)"
  shows "dict_get files key \<noteq> None"
proof -
  have "metadata_file key \<in> record_files (dict_keys files)" using record_keys_mem(3) [OF assms] unfolding store_tree_keys .
  then have "key \<in> set (dict_keys files)" unfolding record_files_def by (metis UnE file_names(2,4) imageE)
  then show ?thesis using key_in_tree [of key files] by blast
qed

lemma record_keys_of:
  assumes "metadata_file key \<in> set (dict_keys tree)" "length key = 5" "hd key = source"
  shows "key \<in> set (record_keys tree source)"
proof -
  have "key \<noteq> []" using assms(2) by auto
  then have "key = butlast (metadata_file key)" "length (metadata_file key) = 6" "hd (metadata_file key) = source"
    "last (metadata_file key) = ''metadata.json''"
    using assms(2,3) by (simp_all add: metadata_file_def)
  then show ?thesis using assms(1) unfolding record_keys_def set_map set_sort set_filter by blast
qed

lemma record_keys_distinct:
  assumes "distinct (dict_keys tree)"
  shows "distinct (record_keys tree source)"
proof -
  let ?found = "filter (\<lambda>k. length k = 6 \<and> hd k = source \<and> last k = ''metadata.json'') (dict_keys tree)"
  have m: "k = metadata_file (butlast k)" if "k \<in> {k. length k = 6 \<and> last k = ''metadata.json''}" for k :: "string list"
    using that by (cases k rule: rev_cases) (simp_all add: metadata_file_def)
  have "inj_on butlast {k :: string list. length k = 6 \<and> last k = ''metadata.json''}"
  proof (rule inj_onI)
    fix x y :: "string list"
    assume x: "x \<in> {k. length k = 6 \<and> last k = ''metadata.json''}" and y: "y \<in> {k. length k = 6 \<and> last k = ''metadata.json''}"
      and b: "butlast x = butlast y"
    have "x = metadata_file (butlast x)" by (rule m [OF x])
    also have "\<dots> = metadata_file (butlast y)" unfolding b ..
    also have "\<dots> = y" by (rule m [OF y, symmetric])
    finally show "x = y" .
  qed
  then have i: "inj_on butlast (set (sort ?found))" by (rule inj_on_subset) auto
  have "distinct (sort ?found)" unfolding distinct_sort by (rule distinct_filter [OF assms])
  then show ?thesis unfolding record_keys_def distinct_map using i by (rule conjI)
qed

lemma store_tree_distinct: "distinct (dict_keys files) \<Longrightarrow> distinct (dict_keys (store_tree io files))"
proof (induction files)
  case (Cons x files)
  have n: "fst x \<notin> set (dict_keys files)" using Cons.prems by simp
  have "payload_file (fst x) \<notin> set (dict_keys (store_tree io files))" "metadata_file (fst x) \<notin> set (dict_keys (store_tree io files))"
    unfolding store_tree_keys record_files_def using n by (metis UnE file_names imageE)+
  then show ?case using Cons by (cases x) (simp add: store_tree_Cons)
qed (simp add: store_tree_def)

lemma fold_put_key_no_directory:
  assumes "has_directory (fold (put_key tree) keys target) k" "\<forall>key\<in>set keys. length key = length k \<and> key \<noteq> k"
  shows "has_directory target k"
  using assms
proof (induction keys arbitrary: target)
  case (Cons key keys)
  then have "has_directory (put_key tree key target) k" by simp
  then show ?case using has_directory_put_key Cons.prems(2) by simp
qed simp

lemma copy_sources_sound:
  assumes "backup_io_ok io" "store_sound (bi_codec io) files" "sidecars_ok io files"
  shows "\<lbrakk>distinct sources; list_all source_ok sources; \<forall>s\<in>set sources. \<forall>key. length key = 5 \<and> hd key = s \<longrightarrow> \<not> has_directory target key\<rbrakk> \<Longrightarrow>
    \<exists>es' target'. copy_sources io root target_root (store_tree io files) sources es target = (es', target', None)"
proof (induction sources arbitrary: es target)
  case (Cons source sources)
  let ?tree = "store_tree io files" and ?keys = "record_keys (store_tree io files) source"
  have "distinct ?keys" using record_keys_distinct store_tree_distinct assms(2) by (simp add: store_sound_def)
  then have c: "copy_keys io root target_root ?tree source ?keys es target =
      (es @ map (entry_of io ?tree) ?keys, fold (put_key ?tree) ?keys target, None)"
    using record_keys_store [of _ io files source] record_keys_mem [of _ ?tree source] Cons.prems(3)
    by (intro copy_keys_sound [OF assms]) auto
  have "\<not> has_directory (fold (put_key ?tree) ?keys target) key"
    if "s \<in> set sources" "length key = 5" "hd key = s" for s key
  proof
    assume d: "has_directory (fold (put_key ?tree) ?keys target) key"
    have "\<forall>k\<in>set ?keys. length k = length key \<and> k \<noteq> key"
      using record_keys_mem [of _ ?tree source] that Cons.prems(1) by auto
    then have "has_directory target key" using fold_put_key_no_directory [OF d] by blast
    then show False using Cons.prems(3) that by simp
  qed
  then have "\<exists>es' target'. copy_sources io root target_root ?tree sources (es @ map (entry_of io ?tree) ?keys)
      (fold (put_key ?tree) ?keys target) = (es', target', None)"
    using Cons.prems by (intro Cons.IH) auto
  then show ?case using Cons.prems(2) by (simp add: validate_source_def c)
qed simp

lemma sound_store_copied:
  assumes "backup_io_ok io" "store_sound (bi_codec io) files" "sidecars_ok io files"
    "\<forall>key\<in>set (dict_keys files). hd key \<in> set sources" "list_all source_ok sources"
  shows "\<exists>summary target bytes. copy_raw io sources root target_root (store_tree io files) = (Inr summary, target, bytes)"
proof -
  let ?tree = "store_tree io files"
  have "s \<in> set sources" if "s \<in> set (persisted_sources ?tree)" for s
  proof -
    from that obtain k where "k \<in> set (dict_keys ?tree)" and s: "s = hd k"
      unfolding persisted_sources_def set_filter set_map by blast
    then have k: "k \<in> record_files (dict_keys files)" "s = hd k" unfolding store_tree_keys by simp_all
    then obtain key where key: "key \<in> set (dict_keys files)" "k = payload_file key \<or> k = metadata_file key"
      unfolding record_files_def by blast
    then obtain d where "dict_get files key = Some d" using key_in_tree [of key files] by blast
    then have "key \<noteq> []" using sound_store_key(2) [OF assms(1,2)] by force
    then have "s = hd key" using k(2) key(2) by (auto simp: payload_file_def metadata_file_def)
    then show ?thesis using assms(4) key(1) by blast
  qed
  then have u: "filter (\<lambda>s. s \<notin> set (sorted_set sources)) (persisted_sources ?tree) = []"
    by (auto simp: filter_empty_conv)
  have "\<exists>es' target'. copy_sources io root target_root ?tree (sorted_set sources) [] [] = (es', target', None)"
    using assms(5) by (intro copy_sources_sound [OF assms(1-3)]) (auto simp: has_directory_def list_all_iff)
  then obtain es' target' where "copy_sources io root target_root ?tree (sorted_set sources) [] [] = (es', target', None)" by blast
  then show ?thesis by (simp add: copy_raw_def copy_entries_def u [unfolded set_sorted_set])
qed

end
