(* ===== verification/Backup_Verify.thy ===== *)
theory Backup_Verify
  imports Backup_Store
begin

text \<open>
  \<open>BackupVerifier.verify\<close> (\<open>backup.py\<close>) with the registry snapshot and the dump, and \<open>BackupCatalog\<close>.  A backup is
  the tree of its files; the directory exists when the tree is not empty.
\<close>


section \<open>The registry snapshot\<close>

definition has_suffix :: "string \<Rightarrow> string \<Rightarrow> bool" where
  "has_suffix suffix name = (length suffix \<le> length name \<and> drop (length name - length suffix) name = suffix)"

text \<open>The files below a directory as the loader of the registry sees them.\<close>

definition registry_snapshot_files :: "backup_io \<Rightarrow> string list \<Rightarrow> byte_tree \<Rightarrow> file_tree" where
  "registry_snapshot_files io root tree =
     \<lparr>ft_root = root, ft_is_dir = (tree \<noteq> []),
      ft_yaml = map (\<lambda>k. root @ k) (filter (\<lambda>k. has_suffix ''.yaml'' (last k)) (dict_keys tree)),
      ft_yml = map (\<lambda>k. root @ k) (filter (\<lambda>k. has_suffix ''.yml'' (last k)) (dict_keys tree)),
      ft_read = (\<lambda>p. case dict_get tree (drop (length root) p) of
         None \<Rightarrow> FileFailed ''No such file or directory'' | Some bytes \<Rightarrow> bi_definition io bytes)\<rparr>"

definition registry_directory :: "string list" where
  "registry_directory = [''registry'', ''topics'']"

definition registry_matches :: "backup_io \<Rightarrow> byte_tree \<Rightarrow> loaded_registry \<Rightarrow> registry_manifest \<Rightarrow> bool" where
  "registry_matches io tree loaded m =
     (case tree_checksum (bi_codec io) tree of (checksum, bytes) \<Rightarrow>
        checksum = gm_config_checksum m \<and> bytes = gm_config_bytes m \<and>
        Some (lr_checksum loaded) = gm_checksum m \<and> int (length (lr_topics loaded)) = gm_topic_count m)"

text \<open>Whether the snapshot is valid, and the failures.\<close>

definition verify_registry :: "backup_io \<Rightarrow> string list \<Rightarrow> byte_tree \<Rightarrow> backup_manifest \<Rightarrow> bool \<times> string list" where
  "verify_registry io directory tree manifest =
     (let snapshot = subtree registry_directory tree in
      case load_registry (bi_nfkc io) (cd_sha256 (bi_codec io))
             (registry_snapshot_files io (directory @ registry_directory) snapshot) of
        Inl issues \<Rightarrow> (False, [''Registry snapshot invalid: '' @ validation_summary issues])
      | Inr loaded \<Rightarrow>
          (if registry_matches io snapshot loaded (bm_registry manifest) then (True, [])
           else (False, [''Registry snapshot checksum or projection checksum differs''])))"


section \<open>The dump\<close>

definition postgres_tool_error :: "py_error \<Rightarrow> bool" where
  "postgres_tool_error e = (case e of OtherError name _ \<Rightarrow> name = ''PostgresToolError'' | _ \<Rightarrow> False)"

text \<open>Whether the dump and its checksum are valid, and the failures; other errors than the tool's pass through.\<close>

definition verify_dump :: "backup_io \<Rightarrow> byte_tree \<Rightarrow> database_manifest \<Rightarrow> (bool \<times> bool \<times> string list) result" where
  "verify_dump io tree m =
     (case named_file io tree (dm_dump_filename m) of
        None \<Rightarrow> Inr (False, False, [''PostgreSQL dump is missing or empty''])
      | Some bytes \<Rightarrow>
          (if bytes = [] then Inr (False, False, [''PostgreSQL dump is missing or empty''])
           else
             (let matches = (cd_sha256 (bi_codec io) bytes = dm_sha256 m);
                  differs = (if matches then [] else [''PostgreSQL dump checksum mismatch'']) in
              case bi_validate_dump io bytes of
                Inr _ \<Rightarrow> Inr (True, matches, differs)
              | Inl err \<Rightarrow>
                  (if postgres_tool_error err then Inr (False, matches, differs @ [error_text err]) else Inl err))))"


section \<open>The report\<close>

definition unsupported_sources :: "backup_manifest \<Rightarrow> string list" where
  "unsupported_sources m = sorted_set (filter (\<lambda>s. s \<notin> set recovery_sources) (dict_keys (bm_sources m)))"

definition unsupported_failures :: "backup_manifest \<Rightarrow> string list" where
  "unsupported_failures m =
     (if unsupported_sources m = [] then []
      else [''backup contains source(s) without a recovery adapter: '' @ join '', '' (unsupported_sources m)])"

definition result_of :: "string list \<Rightarrow> string list \<Rightarrow> verification_state" where
  "result_of failures warnings =
     (if failures \<noteq> [] then VerifiedFail else if warnings \<noteq> [] then VerifiedWarning else VerifiedPass)"

definition report_of ::
  "int \<Rightarrow> bool \<Rightarrow> bool \<times> bool \<Rightarrow> bool \<Rightarrow> raw_verdict \<Rightarrow> string list \<Rightarrow> string list \<Rightarrow> verification_report" where
  "report_of now manifest_valid dump registry_valid v failures warnings =
     \<lparr>vr_verified_at = now, vr_tool_version = backup_tool_version, vr_manifest_valid = manifest_valid,
      vr_database_dump_valid = fst dump, vr_dump_checksum_valid = snd dump, vr_registry_valid = registry_valid,
      vr_raw_expected = rv_expected v, vr_raw_checked = rv_checked v, vr_raw_missing = rv_missing v,
      vr_raw_checksum_failures = rv_checksum_failures v, vr_sidecar_failures = rv_sidecar_failures v,
      vr_extra_raw = rv_extras v, vr_result = result_of failures warnings, vr_failures = failures,
      vr_warnings = warnings\<rparr>"

text \<open>The files that are read, before the report is written.\<close>

definition verify_manifest ::
  "backup_io \<Rightarrow> int \<Rightarrow> string list \<Rightarrow> byte_tree \<Rightarrow> backup_manifest \<Rightarrow> verification_report result" where
  "verify_manifest io now directory tree m =
     result_bind (verify_dump io tree (bm_database m)) (\<lambda>(dump_valid, dump_matches, dump_failures).
     (case verify_registry io directory tree m of (registry_valid, registry_failures) \<Rightarrow>
     result_bind (verify_raw io directory tree m) (\<lambda>v.
       Inr (report_of now True (dump_valid, dump_matches) registry_valid v
              (unsupported_failures m @ dump_failures @ registry_failures @ rv_failures v) (rv_warnings v)))))"

definition backup_report :: "backup_io \<Rightarrow> int \<Rightarrow> string list \<Rightarrow> byte_tree \<Rightarrow> verification_report result" where
  "backup_report io now directory tree =
     (let invalid = (\<lambda>message. report_of now False (False, False) False (no_raw_manifest\<lparr>rv_failures := []\<rparr>)
        [''manifest invalid: '' @ message] []) in
      case dict_get tree [''manifest.json''] of
        None \<Rightarrow> Inr (invalid ''No such file or directory'')
      | Some text \<Rightarrow>
          (case read_manifest io text of
             Inl err \<Rightarrow> (if os_error err \<or> value_error err then Inr (invalid (error_text err)) else Inl err)
           | Inr m \<Rightarrow> verify_manifest io now directory tree m))"

definition verify_backup ::
  "backup_io \<Rightarrow> int \<Rightarrow> bool \<Rightarrow> string list \<Rightarrow> byte_tree \<Rightarrow> verification_report result \<times> byte_tree" where
  "verify_backup io now write_report directory tree =
     (case backup_report io now directory tree of
        Inl err \<Rightarrow> (Inl err, tree)
      | Inr report \<Rightarrow>
          (Inr report, if write_report \<and> tree \<noteq> [] then dict_set [''verification.json''] (bi_report_text io report) tree else tree))"


section \<open>The catalog\<close>

text \<open>The root of the backups is a tree too: a backup is a directory of the root.\<close>

definition catalog_manifest :: "backup_io \<Rightarrow> byte_tree \<Rightarrow> string \<Rightarrow> backup_manifest result" where
  "catalog_manifest io root name =
     (case dict_get root [name, ''manifest.json''] of
        None \<Rightarrow> Inl (FileNotFoundError ''manifest.json'')
      | Some text \<Rightarrow> read_manifest io text)"

definition validation_error :: "py_error \<Rightarrow> bool" where
  "validation_error e = (case e of OtherError name _ \<Rightarrow> name = ''ValidationError'' | _ \<Rightarrow> False)"

definition directory_names :: "byte_tree \<Rightarrow> string list" where
  "directory_names root = first_occurrences (map hd (filter (\<lambda>k. length k \<ge> 2) (dict_keys root)))"

fun read_manifests :: "backup_io \<Rightarrow> byte_tree \<Rightarrow> string list \<Rightarrow> backup_manifest list result" where
  "read_manifests io root [] = Inr []"
| "read_manifests io root (name # rest) =
     (if name \<noteq> [] \<and> hd name = CHR ''.'' then read_manifests io root rest
      else (case catalog_manifest io root name of
              Inr m \<Rightarrow> result_bind (read_manifests io root rest) (\<lambda>ms. Inr (m # ms))
            | Inl err \<Rightarrow>
                (if os_error err \<or> validation_error err then read_manifests io root rest else Inl err)))"

text \<open>\<open>sorted(.., reverse=True)\<close> keeps the order of equal keys.\<close>

definition catalog_list :: "backup_io \<Rightarrow> byte_tree \<Rightarrow> backup_manifest list result" where
  "catalog_list io root =
     result_bind (read_manifests io root (directory_names root)) (\<lambda>ms. Inr (sort_key (\<lambda>m. - bm_completed_at m) ms))"

definition catalog_show :: "backup_io \<Rightarrow> byte_tree \<Rightarrow> string \<Rightarrow> backup_manifest option result" where
  "catalog_show io root name =
     (if name = [] \<or> CHR ''/'' \<in> set name \<or> CHR 0x5C \<in> set name then Inr None
      else (case catalog_manifest io root name of
              Inr m \<Rightarrow> Inr (Some m)
            | Inl err \<Rightarrow> (if os_error err \<or> validation_error err then Inr None else Inl err)))"

record backup_summary =
  bs_backup_id :: string
  bs_label :: "string option"
  bs_completed_at :: int
  bs_verification_state :: verification_state
  bs_migration_head :: string
  bs_database_bytes :: int
  bs_raw_objects :: int
  bs_raw_bytes :: int
  bs_total_bytes :: int
  bs_registry_version :: "int option"

definition summary_of :: "backup_manifest \<Rightarrow> backup_summary" where
  "summary_of m = \<lparr>bs_backup_id = bm_backup_id m, bs_label = bm_label m, bs_completed_at = bm_completed_at m,
     bs_verification_state = bm_verification_state m, bs_migration_head = dm_migration_head (bm_database m),
     bs_database_bytes = dm_size_bytes (bm_database m), bs_raw_objects = rw_file_count (bm_raw m),
     bs_raw_bytes = rw_total_bytes (bm_raw m), bs_total_bytes = bm_total_bytes m,
     bs_registry_version = gm_version (bm_registry m)\<rparr>"

record protection_status =
  ps_latest :: "backup_summary option"
  ps_latest_verified :: "backup_summary option"
  ps_verified_age_seconds :: "int option"
  ps_latest_drill :: "jdict option"

definition backup_verified :: "backup_manifest \<Rightarrow> bool" where
  "backup_verified m = (bm_verification_state m \<in> {VerifiedPass, VerifiedWarning})"

text \<open>
  \<open>drill_json\<close> reads a report of a drill: the object, or \<open>None\<close> for what is skipped; \<open>drill_order\<close> is \<open>str\<close> of its
  time of completion, empty where there is none.  \<open>glob\<close> gives the reports in the order of the tree.
\<close>

definition drill_reports :: "(string \<Rightarrow> jdict option) \<Rightarrow> byte_tree \<Rightarrow> jdict list" where
  "drill_reports drill_json root =
     somes (map (\<lambda>(k, bytes). drill_json bytes)
       (filter (\<lambda>(k, bytes). length k = 2 \<and> hd k = ''drill-reports'' \<and> has_suffix ''.json'' (last k)) root))"

definition catalog_status ::
  "backup_io \<Rightarrow> (string \<Rightarrow> jdict option) \<Rightarrow> (jdict \<Rightarrow> string) \<Rightarrow> int \<Rightarrow> byte_tree \<Rightarrow> protection_status result" where
  "catalog_status io drill_json drill_order now root =
     result_bind (catalog_list io root) (\<lambda>manifests.
       let verified = filter backup_verified manifests;
           drills = rev (sort_key drill_order (rev (drill_reports drill_json root)))
       in Inr \<lparr>ps_latest = (case manifests of [] \<Rightarrow> None | m # _ \<Rightarrow> Some (summary_of m)),
            ps_latest_verified = (case verified of [] \<Rightarrow> None | m # _ \<Rightarrow> Some (summary_of m)),
            ps_verified_age_seconds = (case verified of [] \<Rightarrow> None
              | m # _ \<Rightarrow> Some (max 0 ((now - bm_completed_at m) div 1000000))),
            ps_latest_drill = (case drills of [] \<Rightarrow> None | d # _ \<Rightarrow> Some d)\<rparr>)"


section \<open>Reports without failures\<close>

lemma check_files_counts:
  assumes "check_files io tree e key st = Inr st'" "rk_failures st' = []"
  shows "st' = st\<lparr>rk_checked := rk_checked st + 1\<rparr>"
proof -
  obtain payload sidecar where f: "dict_get tree (payload_file key) = Some payload" "dict_get tree (metadata_file key) = Some sidecar"
    "verify_raw_directory io tree key (Some (re_source_checksum e)) = Inr ()"
    using check_files_passed [OF assms] by blast
  define mid where "mid = check_payload io e payload (st\<lparr>rk_checked := rk_checked st + 1\<rparr>)"
  have s: "st' = check_sidecar io e sidecar mid" using assms(1) f by (simp add: check_files_def mid_def)
  then have "st' = mid" using assms(2) by (auto simp: check_sidecar_def rk_fail_def split: if_splits)
  moreover have "mid = st\<lparr>rk_checked := rk_checked st + 1\<rparr>"
    using assms(2) unfolding \<open>st' = mid\<close> mid_def by (auto simp: check_payload_def rk_fail_def split: if_splits)
  ultimately show ?thesis by simp
qed

definition counted :: "raw_check \<Rightarrow> bool" where
  "counted st = (rk_checked st = int (length (rk_paths st)) \<and> rk_missing st = 0 \<and> rk_checksum_failures st = 0 \<and>
     rk_sidecar_failures st = 0)"

lemma check_entry_counts:
  assumes "check_entry io root tree names n e st = Inr st'" "rk_failures st' = []" "counted st"
  shows "counted st'"
proof -
  let ?source = "hd (split_on CHR ''/'' (re_path e))"
  let ?st1 = "st\<lparr>rk_paths := rk_paths st @ [re_path e]\<rparr>"
  let ?st2 = "?st1\<lparr>rk_sources := dict_set ?source (count_of_source (rk_sources ?st1) ?source + 1) (rk_sources ?st1)\<rparr>"
  obtain key where "check_files io tree e key ?st2 = Inr st'"
    using assms(1,2) by (auto simp: check_entry_def Let_def rk_fail_def split: if_splits option.splits)
  from check_files_counts [OF this assms(2)] show ?thesis using assms(3) by (simp add: counted_def)
qed

lemma check_lines_counts:
  "check_lines io root tree names ending n lines st = Inr st' \<Longrightarrow> rk_failures st' = [] \<Longrightarrow> counted st \<Longrightarrow> counted st'"
proof (induction lines arbitrary: n st)
  case Nil
  then show ?case by (auto simp: rk_fail_def split: option.splits if_splits)
next
  case (Cons line lines)
  obtain e where e: "read_entry io line = Some e"
    using Cons.prems(1,2) by (cases "read_entry io line") (auto simp: rk_fail_def)
  then obtain mid where mid: "check_entry io root tree names n e st = Inr mid"
    "check_lines io root tree names ending (n + 1) lines mid = Inr st'"
    using Cons.prems(1) by (cases "check_entry io root tree names n e st") simp_all
  have "rk_failures mid = []" using more_failures_none check_lines_more mid(2) Cons.prems(2) by blast
  then show ?case using Cons.IH mid(2) Cons.prems(2) check_entry_counts [OF mid(1)] Cons.prems(3) by blast
qed

lemma compare_source_enough_left:
  "rv_failures (fold (compare_source counts) named v) = [] \<Longrightarrow>
    list_all (\<lambda>(s, m). sm_raw_response_count m \<le> count_of_source counts s) named"
proof (induction named arbitrary: v)
  case (Cons x named)
  have "rv_failures (compare_source counts x v) = []" using compare_source_more Cons.prems by force
  then have "sm_raw_response_count (snd x) \<le> count_of_source counts (fst x)"
    by (cases x) (auto simp: compare_source_def Let_def split: if_splits)
  then show ?case using Cons by (simp add: case_prod_beta)
qed simp

text \<open>A Raw verdict without failures.\<close>

lemma verify_raw_complete:
  assumes "verify_raw io directory tree manifest = Inr v" "rv_failures v = []"
  shows "rv_checked v = rv_expected v" "rv_missing v = 0" "rv_checksum_failures v = 0" "rv_sidecar_failures v = 0"
    "rv_expected v = rw_file_count (bm_raw manifest)"
    "\<exists>bytes. named_file io tree (rw_manifest_filename (bm_raw manifest)) = Some bytes \<and>
       cd_sha256 (bi_codec io) bytes = rw_manifest_sha256 (bm_raw manifest)"
proof -
  obtain bytes where b: "named_file io tree (rw_manifest_filename (bm_raw manifest)) = Some bytes"
    using assms by (cases "named_file io tree (rw_manifest_filename (bm_raw manifest))") (auto simp: verify_raw_def no_raw_manifest_def)
  obtain lines ending where l: "bi_lines io bytes = (lines, ending)" by (cases "bi_lines io bytes")
  define first where "first = (if cd_sha256 (bi_codec io) bytes \<noteq> rw_manifest_sha256 (bm_raw manifest)
     then rk_fail ''Raw manifest checksum mismatch'' new_raw_check else new_raw_check)"
  let ?check = "check_lines io (directory @ [''raw'']) (subtree [''raw''] tree) (dict_keys (bm_sources manifest)) ending 1 lines first"
  have "result_bind ?check (\<lambda>st. Inr (raw_verdict_of manifest (subtree [''raw''] tree) st)) = Inr v"
    using assms(1) unfolding verify_raw_def by (simp add: b l Let_def first_def)
  then obtain st where st: "?check = Inr st" "v = raw_verdict_of manifest (subtree [''raw''] tree) st"
    by (cases ?check) simp_all
  have n: "rv_failures (raw_verdict_of manifest (subtree [''raw''] tree) st) = []" using assms(2) st(2) by simp
  have f: "rk_failures st = []" by (rule raw_verdict_more [OF n])
  then have "rk_failures first = []" using more_failures_none check_lines_more st(1) by blast
  then have d: "cd_sha256 (bi_codec io) bytes = rw_manifest_sha256 (bm_raw manifest)" "first = new_raw_check"
    by (auto simp: first_def rk_fail_def split: if_splits)
  have c: "counted st" using check_lines_counts [OF st(1) f] by (simp add: d(2) counted_def new_raw_check_def)
  then show "rv_checked v = rv_expected v" "rv_missing v = 0" "rv_checksum_failures v = 0" "rv_sidecar_failures v = 0"
    unfolding st(2) raw_verdict_of_def Let_def by (simp_all add: compare_source_keeps counted_def)
  have "rw_file_count (bm_raw manifest) = int (length (rk_paths st))"
    using compare_source_more [OF n [unfolded raw_verdict_of_def Let_def]] f by (simp split: if_splits)
  then show "rv_expected v = rw_file_count (bm_raw manifest)"
    unfolding st(2) raw_verdict_of_def Let_def by (simp add: compare_source_keeps)
  show "\<exists>bytes. named_file io tree (rw_manifest_filename (bm_raw manifest)) = Some bytes \<and>
      cd_sha256 (bi_codec io) bytes = rw_manifest_sha256 (bm_raw manifest)" using b d(1) by blast
qed

text \<open>What a report that is not a failure means.\<close>

lemma report_accepted:
  assumes "backup_report io now directory tree = Inr r" "vr_result r \<noteq> VerifiedFail"
  obtains content m dump loaded v where
    "dict_get tree [''manifest.json''] = Some content" "read_manifest io content = Inr m"
    "set (dict_keys (bm_sources m)) \<subseteq> set recovery_sources"
    "named_file io tree (dm_dump_filename (bm_database m)) = Some dump" "dump \<noteq> []"
    "cd_sha256 (bi_codec io) dump = dm_sha256 (bm_database m)" "bi_validate_dump io dump = Inr ()"
    "load_registry (bi_nfkc io) (cd_sha256 (bi_codec io))
       (registry_snapshot_files io (directory @ registry_directory) (subtree registry_directory tree)) = Inr loaded"
    "registry_matches io (subtree registry_directory tree) loaded (bm_registry m)"
    "verify_raw io directory tree m = Inr v" "rv_failures v = []"
    "r = report_of now True (True, True) True v [] (rv_warnings v)"
proof -
  have no: "failures = []" if "vr_result (report_of a b c d e failures w) \<noteq> VerifiedFail" for a b c d e failures w
    using that by (simp add: report_of_def result_of_def split: if_splits)
  obtain content where t: "dict_get tree [''manifest.json''] = Some content"
    using assms no by (cases "dict_get tree [''manifest.json'']") (fastforce simp: backup_report_def Let_def)+
  obtain m where m: "read_manifest io content = Inr m"
    using assms no t by (cases "read_manifest io content") (fastforce simp: backup_report_def Let_def split: if_splits)+
  have b: "verify_manifest io now directory tree m = Inr r" using assms(1) t m by (simp add: backup_report_def Let_def)
  obtain dv dm df where d: "verify_dump io tree (bm_database m) = Inr (dv, dm, df)"
    using b by (cases "verify_dump io tree (bm_database m)") (auto simp: verify_manifest_def)
  obtain rv rf where g: "verify_registry io directory tree m = (rv, rf)" by (cases "verify_registry io directory tree m")
  obtain v where v: "verify_raw io directory tree m = Inr v"
    using b d g by (cases "verify_raw io directory tree m") (auto simp: verify_manifest_def)
  have r: "r = report_of now True (dv, dm) rv v (unsupported_failures m @ df @ rf @ rv_failures v) (rv_warnings v)"
    using b d g v by (simp add: verify_manifest_def)
  have e: "unsupported_failures m = []" "df = []" "rf = []" "rv_failures v = []"
    using no [OF assms(2) [unfolded r]] by simp_all
  have s: "set (dict_keys (bm_sources m)) \<subseteq> set recovery_sources"
    using e(1) by (auto simp: unsupported_failures_def unsupported_sources_def filter_empty_conv split: if_splits)
  obtain dump where dump: "named_file io tree (dm_dump_filename (bm_database m)) = Some dump" "dump \<noteq> []"
    using d e(2) by (auto simp: verify_dump_def split: option.splits if_splits)
  have c: "cd_sha256 (bi_codec io) dump = dm_sha256 (bm_database m)" "bi_validate_dump io dump = Inr ()" "dv" "dm"
    using d e(2) dump by (auto simp: verify_dump_def Let_def split: sum.splits if_splits)
  obtain loaded where l: "load_registry (bi_nfkc io) (cd_sha256 (bi_codec io))
      (registry_snapshot_files io (directory @ registry_directory) (subtree registry_directory tree)) = Inr loaded"
    "registry_matches io (subtree registry_directory tree) loaded (bm_registry m)" "rv"
    using g e(3) by (auto simp: verify_registry_def Let_def split: sum.splits if_splits)
  show ?thesis
    by (rule that [OF t m s dump c(1,2) l(1,2) v e(4)]) (simp add: r e c(3,4) l(3))
qed

lemma accepted_state:
  assumes "backup_report io now directory tree = Inr r" "vr_result r \<noteq> VerifiedFail"
  shows "vr_result r \<in> {VerifiedPass, VerifiedWarning}"
  using assms by (rule report_accepted) (simp add: report_of_def result_of_def)

end
