(* ===== verification/Backup_Integrity.thy ===== *)
theory Backup_Integrity
  imports Backup_Store Source_Models
begin

text \<open>
  \<open>integrity.py\<close> and \<open>source_recovery.py\<close>: the check of the Raw pointers of the database against the files, the
  recovery adapters and the lineage samples.
\<close>


section \<open>Adapters\<close>

record recovery_adapter =
  ra_entity_table :: string
  ra_match_table :: string
  ra_raw_table :: string
  ra_snapshot_table :: "string option"
  ra_observation_dates :: bool

definition recovery_adapters :: "(string, recovery_adapter) dict" where
  "recovery_adapters =
     [(''arxiv'', \<lparr>ra_entity_table = ''arxiv_papers'', ra_match_table = ''arxiv_topic_matches'',
        ra_raw_table = ''arxiv_raw_responses'', ra_snapshot_table = None, ra_observation_dates = False\<rparr>),
      (''github'', \<lparr>ra_entity_table = ''github_repositories'', ra_match_table = ''github_topic_repository_matches'',
        ra_raw_table = ''github_raw_responses'', ra_snapshot_table = Some ''github_repository_snapshots'',
        ra_observation_dates = True\<rparr>)]"

definition recovery_adapter_of :: "string \<Rightarrow> recovery_adapter result" where
  "recovery_adapter_of source =
     (case dict_get recovery_adapters source of
        Some a \<Rightarrow> Inr a
      | None \<Rightarrow> Inl (ValueError (''source '' @ repr_str source @ '' has no recovery adapter'')))"


section \<open>Pointers\<close>

record raw_pointer =
  rp_id :: nat
  rp_source :: string
  rp_path :: string
  rp_checksum :: string
  rp_observed_at :: int

text \<open>The rows of the tables of Raw responses, by source.\<close>

definition arxiv_pointer :: "arxiv_raw_response \<Rightarrow> raw_pointer" where
  "arxiv_pointer r = \<lparr>rp_id = araw_id r, rp_source = ''arxiv'', rp_path = araw_raw_path r, rp_checksum = araw_checksum r,
     rp_observed_at = araw_observed_at r\<rparr>"

definition github_pointer :: "github_raw_response \<Rightarrow> raw_pointer" where
  "github_pointer r = \<lparr>rp_id = graw_id r, rp_source = ''github'', rp_path = graw_raw_path r, rp_checksum = graw_checksum r,
     rp_observed_at = graw_observed_at r\<rparr>"

definition pointer_rows :: "arxiv_raw_response list \<Rightarrow> github_raw_response list \<Rightarrow> (string, raw_pointer list) dict" where
  "pointer_rows arxiv github = [(''arxiv'', map arxiv_pointer arxiv), (''github'', map github_pointer github)]"

text \<open>\<open>random.Random(0).sample\<close> is the argument \<open>sampled\<close>; rows of one time keep their order.\<close>

definition select_pointers ::
  "(raw_pointer list \<Rightarrow> int \<Rightarrow> raw_pointer list) \<Rightarrow> (string, raw_pointer list) dict \<Rightarrow> string option \<Rightarrow> int \<Rightarrow> bool \<Rightarrow>
   raw_pointer list \<times> int" where
  "select_pointers sampled rows source sample full =
     (let sources = (case source of Some s \<Rightarrow> [s] | None \<Rightarrow> recovery_sources);
          of_source = (\<lambda>s. sort_key (\<lambda>p. - rp_observed_at p) (dict_get_list rows s));
          candidates = concat (map (\<lambda>s. if full then of_source s else take (nat sample) (of_source s)) sources);
          available = sum_list (map (\<lambda>s. int (length (dict_get_list rows s))) sources)
      in if full \<or> int (length candidates) \<le> sample then (sort_key rp_observed_at candidates, available)
         else (sampled candidates sample, available))"


section \<open>The check\<close>

text \<open>\<open>resolve_path\<close> gives the place of the record below the root.\<close>

definition pointer_key :: "string list \<Rightarrow> raw_pointer \<Rightarrow> string list result" where
  "pointer_key root p =
     result_bind (resolve_key root (rp_path p) (rp_source p)) (\<lambda>path.
       Inr (drop (length (resolve_parts root)) path))"

record integrity_failure =
  if_source :: string
  if_raw_id :: nat
  if_raw_path :: string
  if_reason :: string

definition caught_by_integrity :: "py_error \<Rightarrow> bool" where
  "caught_by_integrity e =
     (integrity_error e \<or> (case e of KeyError _ \<Rightarrow> True | TypeError _ \<Rightarrow> True | _ \<Rightarrow> False))"

definition check_pointer ::
  "backup_io \<Rightarrow> string list \<Rightarrow> byte_tree \<Rightarrow> raw_pointer \<Rightarrow> integrity_failure option result" where
  "check_pointer io root tree p =
     result_bind (pointer_key root p) (\<lambda>key.
       (case verify_raw_directory io tree key (Some (rp_checksum p)) of
          Inr _ \<Rightarrow> Inr None
        | Inl err \<Rightarrow>
            (if caught_by_integrity err then
               Inr (Some \<lparr>if_source = rp_source p, if_raw_id = rp_id p, if_raw_path = rp_path p,
                 if_reason = error_text err\<rparr>)
             else Inl err)))"

datatype integrity_state = NoRawRecords | IntegrityPass | IntegrityFail

record integrity_report =
  ir_state :: integrity_state
  ir_mode :: string
  ir_source :: "string option"
  ir_available :: int
  ir_checked :: int
  ir_failures :: int
  ir_details :: "integrity_failure list"

definition verify_integrity ::
  "backup_io \<Rightarrow> (raw_pointer list \<Rightarrow> int \<Rightarrow> raw_pointer list) \<Rightarrow> string list \<Rightarrow> byte_tree \<Rightarrow> (string, raw_pointer list) dict \<Rightarrow>
   int \<Rightarrow> string option \<Rightarrow> bool \<Rightarrow> integrity_report result" where
  "verify_integrity io sampled root tree rows sample source full =
     (if sample < 1 \<or> sample > 10000 then Inl (ValueError ''Raw integrity sample must be between 1 and 10000'')
      else if (case source of None \<Rightarrow> False | Some s \<Rightarrow> dict_get recovery_adapters s = None) then
        Inl (ValueError (''Raw integrity source must have a registered recovery adapter: '' @ join '', '' recovery_sources))
      else (case select_pointers sampled rows source sample full of (pointers, available) \<Rightarrow>
        result_bind (result_map (check_pointer io root tree) pointers) (\<lambda>checks.
          let failures = somes checks in
          Inr \<lparr>ir_state = (if available = 0 then NoRawRecords else if failures = [] then IntegrityPass else IntegrityFail),
            ir_mode = (if full then ''full'' else ''sample''), ir_source = source, ir_available = available,
            ir_checked = int (length pointers), ir_failures = int (length failures), ir_details = take 100 failures\<rparr>)))"


section \<open>Lineage\<close>

text \<open>\<open>_verify_raw_pointer\<close>\<close>

definition verify_raw_pointer ::
  "backup_io \<Rightarrow> string list \<Rightarrow> byte_tree \<Rightarrow> string \<Rightarrow> string \<Rightarrow> string \<Rightarrow> unit result" where
  "verify_raw_pointer io root tree source raw_path checksum =
     result_bind (resolve_key root raw_path source) (\<lambda>path.
     result_bind (load_record io tree (drop (length (resolve_parts root)) path)) (\<lambda>r.
       if md_sha256 (rr_metadata r) \<noteq> checksum then
         Inl (DataIntegrityError ''lineage checksum differs from the Raw metadata sidecar'')
       else result_bind (read_record io tree r) (\<lambda>_. Inr ())))"

record lineage_sample =
  ls_raw_id :: nat
  ls_raw_key :: string
  ls_match_id :: nat
  ls_mapping_id :: nat
  ls_run_id :: nat
  ls_evidence_id :: nat \<comment> \<open>the observation or the snapshot\<close>

text \<open>The first ten rows of the join, which are the candidates; the first that fails ends the sampling.\<close>

definition sample_lineage ::
  "backup_io \<Rightarrow> string list \<Rightarrow> byte_tree \<Rightarrow> string \<Rightarrow> (lineage_sample \<times> string) list \<Rightarrow> lineage_sample list result" where
  "sample_lineage io root tree source rows =
     result_map (\<lambda>(s, checksum). result_bind (verify_raw_pointer io root tree source (ls_raw_key s) checksum) (\<lambda>_. Inr s))
       (take 10 rows)"

text \<open>The join of matches, observations, Raw responses, mappings and runs, in the order of the identities of the matches.\<close>

definition arxiv_lineage_rows ::
  "arxiv_match list \<Rightarrow> arxiv_observation list \<Rightarrow> arxiv_raw_response list \<Rightarrow> nat list \<Rightarrow> nat list \<Rightarrow>
   (lineage_sample \<times> string) list" where
  "arxiv_lineage_rows matches observations raws mappings runs =
     concat (map (\<lambda>m. concat (map (\<lambda>ob.
         concat (map (\<lambda>raw.
           if amatch_mapping_id m \<in> set mappings \<and> aobs_run_id ob \<in> set runs then
             [(\<lparr>ls_raw_id = araw_id raw, ls_raw_key = araw_raw_path raw, ls_match_id = amatch_id m,
                ls_mapping_id = amatch_mapping_id m, ls_run_id = aobs_run_id ob, ls_evidence_id = aobs_id ob\<rparr>,
               araw_checksum raw)]
           else [])
           (filter (\<lambda>raw. araw_id raw = aobs_raw_id ob) raws)))
         (filter (\<lambda>ob. aobs_paper_id ob = amatch_paper_id m) observations)))
       (sort_key amatch_id matches))"

definition github_lineage_rows ::
  "github_snapshot list \<Rightarrow> github_match list \<Rightarrow> github_raw_response list \<Rightarrow> nat list \<Rightarrow> nat list \<Rightarrow>
   (lineage_sample \<times> string) list" where
  "github_lineage_rows snapshots matches raws mappings runs =
     concat (map (\<lambda>s. concat (map (\<lambda>m.
         concat (map (\<lambda>raw.
           if gmatch_mapping_id m \<in> set mappings \<and> snap_run_id s \<in> set runs then
             [(\<lparr>ls_raw_id = graw_id raw, ls_raw_key = graw_raw_path raw, ls_match_id = gmatch_id m,
                ls_mapping_id = gmatch_mapping_id m, ls_run_id = snap_run_id s, ls_evidence_id = snap_id s\<rparr>,
               graw_checksum raw)]
           else [])
           (filter (\<lambda>raw. graw_id raw = snap_raw_id s) raws)))
         (filter (\<lambda>m. gmatch_repository_id m = snap_repository_id s) matches)))
       (sort_key snap_id snapshots))"


section \<open>Lemmas\<close>

text \<open>A check that finds no failure.\<close>

lemma somes_empty: "somes xs = [] \<longleftrightarrow> (\<forall>x\<in>set xs. x = None)"
  by (induction xs) (auto simp: somes_def split: option.splits)

lemma check_pointer_None:
  "check_pointer io root tree p = Inr None \<longleftrightarrow>
    (\<exists>key. pointer_key root p = Inr key \<and> verify_raw_directory io tree key (Some (rp_checksum p)) = Inr ())"
  by (cases "pointer_key root p") (auto simp: check_pointer_def split: sum.splits if_splits)

lemma checks_None:
  assumes "result_map (check_pointer io root tree) ps = Inr checks"
  shows "somes checks = [] \<longleftrightarrow> (\<forall>p\<in>set ps. check_pointer io root tree p = Inr None)"
  using assms unfolding result_map_Inr somes_empty
  by (induction rule: list_all2_induct) auto

lemma checks_all_None:
  assumes "\<forall>p\<in>set ps. check_pointer io root tree p = Inr None"
  shows "result_map (check_pointer io root tree) ps = Inr (map (\<lambda>_. None) ps)"
  using assms by (induction ps) simp_all

lemma sources_known: "set recovery_sources = set (dict_keys recovery_adapters)"
  by (simp add: recovery_sources_def recovery_adapters_def)

lemma select_full:
  assumes "select_pointers sampled rows None sample True = (pointers, available)"
  shows "set pointers = (\<Union>s\<in>set recovery_sources. set (dict_get_list rows s))" "int (length pointers) = available"
proof -
  have p: "pointers = sort_key rp_observed_at (concat (map (\<lambda>s. sort_key (\<lambda>p. - rp_observed_at p) (dict_get_list rows s)) recovery_sources))"
    "available = sum_list (map (\<lambda>s. int (length (dict_get_list rows s))) recovery_sources)"
    using assms by (simp_all add: select_pointers_def Let_def)
  show "set pointers = (\<Union>s\<in>set recovery_sources. set (dict_get_list rows s))" unfolding p(1) by auto
  show "int (length pointers) = available" unfolding p by (simp add: recovery_sources_def)
qed

text \<open>The evidence of the collectors passes.\<close>

lemma pointer_ok_checks:
  assumes "pointer_ok (bi_codec io) files (rp_source p) (rp_path p) (rp_checksum p)" "sidecars_ok io files" "source_ok (rp_source p)"
  shows "check_pointer io root (store_tree io files) p = Inr None"
proof -
  obtain t h r payload where e: "CHR ''/'' \<notin> set h" "rp_path p = join ''/'' (record_key (rp_source p) t h)"
    "raw_load files (record_key (rp_source p) t h) = Inr r" "raw_read (bi_codec io) files r = Inr payload"
    "cd_sha256 (bi_codec io) payload = rp_checksum p"
    using assms(1) unfolding pointer_ok_def by blast
  have "rp_checksum p = md_sha256 (rr_metadata r)" using e(4,5) by (auto simp: raw_read_def split: option.splits if_splits)
  then have "verify_raw_directory io (store_tree io files) (record_key (rp_source p) t h) (Some (rp_checksum p)) = Inr ()"
    using store_tree_verifies [OF assms(2) e(3,4)] by simp
  then show ?thesis
    unfolding check_pointer_None pointer_key_def e(2) resolve_key_record [OF assms(3) e(1)] by simp
qed

end
