(* ===== verification/Backup_Service.thy ===== *)
theory Backup_Service
  imports Backup_Verify Backup_Integrity Health
begin

text \<open>
  \<open>BackupService\<close> (\<open>backup.py\<close>): the snapshot of the database, and the creation of a backup in a stage that is
  published by one rename.  The root of the backups is a tree; a stage is the tree of its files.
\<close>


section \<open>The snapshot of the database\<close>

text \<open>\<open>assert_version_compatible\<close> (\<open>postgres_backup.py\<close>)\<close>

definition assert_version_compatible :: "string \<Rightarrow> int \<Rightarrow> unit result" where
  "assert_version_compatible client_version server_version_num =
     (case py_int (hd (split_on CHR ''.'' client_version)) of
        None \<Rightarrow> Inl (ValueError ''invalid literal for int() with base 10'')
      | Some client_major \<Rightarrow>
          (let server_major = server_version_num div 10000 in
           if client_major < server_major then
             Inl (OtherError ''PostgresToolError'' (''pg_dump major '' @ show_int client_major @
               '' is older than PostgreSQL server major '' @ show_int server_major))
           else Inr ()))"

text \<open>
  What the transaction shows: the version of a PostgreSQL server (\<open>None\<close> for another dialect), the counts of
  all tables, the dates of the GitHub snapshots, the runs with the names of their sources, the status of the
  registry, the head of the migrations, the number of tables, and the dump.
\<close>

record database_view =
  dv_server :: "(int \<times> string) option"
  dv_counts :: "(string, int) dict"
  dv_snapshot_dates :: "int list"
  dv_runs :: "(string \<times> int) list"
  dv_registry :: "registry_summary option result"
  dv_migration :: string
  dv_table_count :: int
  dv_dump :: "string result"

definition adapter_tables :: "recovery_adapter \<Rightarrow> string list" where
  "adapter_tables a = [ra_entity_table a, ra_match_table a, ra_raw_table a] @
     (case ra_snapshot_table a of None \<Rightarrow> [] | Some t \<Rightarrow> [t])"

definition latest_run_of :: "(string \<times> int) list \<Rightarrow> string \<Rightarrow> int option" where
  "latest_run_of runs name =
     (case map snd (filter (\<lambda>r. fst r = name) runs) of [] \<Rightarrow> None | t # ts \<Rightarrow> Some (fold max ts t))"

definition table_count :: "(string, int) dict \<Rightarrow> string \<Rightarrow> int" where
  "table_count counts table = (case dict_get counts table of None \<Rightarrow> 0 | Some n \<Rightarrow> n)"

definition source_manifest_of :: "database_view \<Rightarrow> string \<Rightarrow> recovery_adapter \<Rightarrow> source_manifest result" where
  "source_manifest_of db name a =
     (let missing = sorted_set (filter (\<lambda>t. t \<notin> set (dict_keys (dv_counts db))) (adapter_tables a)) in
      if missing \<noteq> [] then
        Inl (backup_error (''recovery adapter '' @ repr_str name @ '' references missing table(s): '' @ join '', '' missing))
      else Inr \<lparr>sm_entity_count = table_count (dv_counts db) (ra_entity_table a),
        sm_match_count = table_count (dv_counts db) (ra_match_table a),
        sm_raw_response_count = table_count (dv_counts db) (ra_raw_table a),
        sm_snapshot_count = map_option (table_count (dv_counts db)) (ra_snapshot_table a),
        sm_observation_dates = (if ra_observation_dates a then Some (count_distinct (dv_snapshot_dates db)) else None),
        sm_latest_run_at = latest_run_of (dv_runs db) name\<rparr>)"

definition source_manifests :: "database_view \<Rightarrow> (string, source_manifest) dict result" where
  "source_manifests db =
     result_map (\<lambda>(name, a). result_bind (source_manifest_of db name a) (\<lambda>m. Inr (name, m))) recovery_adapters"

definition registry_manifest_of :: "registry_summary option \<Rightarrow> registry_manifest" where
  "registry_manifest_of registry =
     \<lparr>gm_version = map_option reg_version registry, gm_checksum = map_option reg_checksum registry,
      gm_topic_count = (case registry of None \<Rightarrow> 0 | Some r \<Rightarrow> reg_topic_count r),
      gm_config_checksum = replicate 64 CHR ''0'', gm_config_bytes = 0\<rparr>"

record database_snapshot =
  ds_database :: database_manifest
  ds_sources :: "(string, source_manifest) dict"
  ds_projection_count :: int
  ds_registry :: registry_manifest

text \<open>The files of a stage, and what a step makes of them; an error leaves what was written.\<close>

type_synonym 'a staged = "'a result \<times> byte_tree"

definition staged_bind :: "'a staged \<Rightarrow> ('a \<Rightarrow> byte_tree \<Rightarrow> 'b staged) \<Rightarrow> 'b staged" where
  "staged_bind p k = (case p of (Inl err, stage) \<Rightarrow> (Inl err, stage) | (Inr x, stage) \<Rightarrow> k x stage)"

definition staged_result :: "'a result \<Rightarrow> byte_tree \<Rightarrow> 'a staged" where
  "staged_result r stage = (r, stage)"

definition take_snapshot :: "backup_io \<Rightarrow> string \<Rightarrow> database_view \<Rightarrow> byte_tree \<Rightarrow> database_snapshot staged" where
  "take_snapshot io client_version db stage =
     (case result_bind (case dv_server db of None \<Rightarrow> Inr () | Some (num, _) \<Rightarrow> assert_version_compatible client_version num) (\<lambda>_.
           result_bind (source_manifests db) (\<lambda>sources.
           result_bind (dv_registry db) (\<lambda>registry.
           result_bind (case dict_get (dv_counts db) ''topic_source_coverage'' of
              None \<Rightarrow> Inl (KeyError ''topic_source_coverage'') | Some n \<Rightarrow> Inr n) (\<lambda>projected.
           result_bind (dv_dump db) (\<lambda>dump. Inr (sources, registry, projected, dump)))))) of
        Inl err \<Rightarrow> (Inl err, stage)
      | Inr (sources, registry, projected, dump) \<Rightarrow>
          (let m = \<lparr>dm_server_version = (case dv_server db of None \<Rightarrow> ''test-sqlite'' | Some (_, v) \<Rightarrow> v),
                    dm_migration_head = dv_migration db, dm_dump_filename = ''postgres.dump'',
                    dm_table_count = dv_table_count db, dm_size_bytes = int (length dump),
                    dm_sha256 = cd_sha256 (bi_codec io) dump, dm_counts = dv_counts db\<rparr>
           in (if database_manifest_ok m
               then Inr \<lparr>ds_database = m, ds_sources = sources, ds_projection_count = projected,
                      ds_registry = registry_manifest_of registry\<rparr>
               else Inl (OtherError ''ValidationError'' ''DatabaseManifest''),
               dict_set [''postgres.dump''] dump stage)))"


section \<open>Preflight\<close>

definition validate_backup_root :: "string list \<Rightarrow> string list \<Rightarrow> unit result" where
  "validate_backup_root root raw_root =
     (if relative_to root raw_root \<noteq> None then Inl (backup_error ''backup output must not be inside the Raw source tree'')
      else if relative_to raw_root root \<noteq> None then Inl (backup_error ''backup output must not contain the Raw source tree'')
      else Inr ())"

definition tree_bytes :: "byte_tree \<Rightarrow> int" where
  "tree_bytes tree = sum_list (map (\<lambda>(k, bytes). int (length bytes)) tree)"

definition disk_preflight :: "int \<Rightarrow> byte_tree \<Rightarrow> unit result" where
  "disk_preflight available raw =
     (if available < tree_bytes raw + 16 * 1024 * 1024
      then Inl (backup_error ''insufficient free disk space for Raw copy and database dump'') else Inr ())"

text \<open>\<open>generate_backup_id\<close>; \<open>hex\<close> are the six digits of the UUID.\<close>

definition compact_second :: "int \<Rightarrow> string" where
  "compact_second t =
     (case (civil_of_day (date_of t), clock_of t) of ((y, m, d), (h, mi, s, us)) \<Rightarrow>
        pad 4 y @ pad 2 m @ pad 2 d @ ''T'' @ pad 2 h @ pad 2 mi @ pad 2 s @ ''Z'')"

definition generate_backup_id :: "int \<Rightarrow> string \<Rightarrow> string" where
  "generate_backup_id t hex = compact_second t @ ''-'' @ hex"

text \<open>\<open>_git_commit\<close> on the exit status and the output of \<open>git rev-parse\<close>.\<close>

definition git_commit_of :: "int \<times> string \<Rightarrow> string option" where
  "git_commit_of r = (let commit = strip (snd r) in if fst r = 0 \<and> length commit = 40 then Some commit else None)"


section \<open>Creation\<close>

record backup_env =
  be_root :: "string list"
  be_raw_root :: "string list"
  be_raw :: byte_tree
  be_config :: "byte_tree option" \<comment> \<open>\<open>config/topics\<close>\<close>
  be_hex :: string
  be_label :: "string option"
  be_started :: int
  be_completed :: int
  be_verified :: "int \<times> int" \<comment> \<open>the times of the two verifications\<close>
  be_available_bytes :: int
  be_client_version :: "string result"
  be_database :: database_view
  be_application_version :: "string option" \<comment> \<open>of the installed package\<close>
  be_git :: "int \<times> string"
  be_failure_text :: "string \<Rightarrow> py_error \<Rightarrow> string" \<comment> \<open>the JSON text of \<open>FAILED.json\<close>\<close>

definition copy_config :: "backup_io \<Rightarrow> byte_tree option \<Rightarrow> registry_manifest \<Rightarrow> byte_tree \<Rightarrow> registry_manifest staged" where
  "copy_config io config m stage =
     (case config of
        None \<Rightarrow> (Inl (FileNotFoundError ''config/topics''), stage)
      | Some topics \<Rightarrow>
          (case tree_checksum (bi_codec io) topics of (checksum, bytes) \<Rightarrow>
             (Inr (m\<lparr>gm_config_checksum := checksum, gm_config_bytes := bytes\<rparr>),
              dict_merge stage (below registry_directory topics))))"

definition stage_raw :: "backup_io \<Rightarrow> backup_env \<Rightarrow> string list \<Rightarrow> byte_tree \<Rightarrow> raw_summary staged" where
  "stage_raw io env directory stage =
     (case copy_raw io recovery_sources (be_raw_root env) (directory @ [''raw'']) (be_raw env) of
        (r, target, bytes) \<Rightarrow>
          (r, dict_set [''raw-manifest.jsonl.gz''] bytes (dict_merge stage (below [''raw''] target))))"

definition new_manifest ::
  "backup_env \<Rightarrow> string \<Rightarrow> database_snapshot \<Rightarrow> registry_manifest \<Rightarrow> raw_summary \<Rightarrow> backup_manifest result" where
  "new_manifest env backup_id snapshot registry raw =
     (let m = \<lparr>bm_schema_version = backup_schema_version, bm_backup_id = backup_id, bm_label = be_label env,
        bm_started_at = be_started env, bm_completed_at = be_completed env,
        bm_application_version = (case be_application_version env of None \<Rightarrow> ''0.1.0'' | Some v \<Rightarrow> v),
        bm_git_commit = git_commit_of (be_git env), bm_database = ds_database snapshot, bm_registry = registry,
        bm_raw = raw, bm_sources = ds_sources snapshot, bm_projection_count = ds_projection_count snapshot,
        bm_tool_version = backup_tool_version, bm_verification_state = Unverified,
        bm_total_bytes = dm_size_bytes (ds_database snapshot) + rw_total_bytes raw + gm_config_bytes registry\<rparr>
      in if backup_manifest_ok m then Inr m else Inl (OtherError ''ValidationError'' ''BackupManifest''))"

definition write_manifest :: "backup_io \<Rightarrow> backup_manifest \<Rightarrow> byte_tree \<Rightarrow> byte_tree" where
  "write_manifest io m stage = dict_set [''manifest.json''] (bi_manifest_text io m) stage"

text \<open>\<open>verifier.verify(stage)\<close>, and the error for a report of failures.\<close>

definition verified_stage ::
  "backup_io \<Rightarrow> int \<Rightarrow> string list \<Rightarrow> (verification_report \<Rightarrow> string) \<Rightarrow> byte_tree \<Rightarrow> verification_report staged" where
  "verified_stage io now directory message stage =
     staged_bind (verify_backup io now True directory stage) (\<lambda>report stage.
       staged_result (if vr_result report = VerifiedFail then Inl (backup_error (message report)) else Inr report) stage)"

text \<open>The work inside of the \<open>try\<close>, up to the rename: what the backup holds, and its two verifications.\<close>

definition gather_stage :: "backup_io \<Rightarrow> backup_env \<Rightarrow> string \<Rightarrow> string list \<Rightarrow> backup_manifest staged" where
  "gather_stage io env backup_id directory =
     staged_bind (staged_result (be_client_version env) []) (\<lambda>client_version stage.
     staged_bind (take_snapshot io client_version (be_database env) stage) (\<lambda>snapshot stage.
     staged_bind (copy_config io (be_config env) (ds_registry snapshot) stage) (\<lambda>registry stage.
     staged_bind (stage_raw io env directory stage) (\<lambda>raw stage.
       staged_result (new_manifest env backup_id snapshot registry raw) stage))))"

definition seal_stage ::
  "backup_io \<Rightarrow> backup_env \<Rightarrow> string list \<Rightarrow> backup_manifest \<Rightarrow> byte_tree \<Rightarrow> (backup_manifest \<times> verification_report) staged" where
  "seal_stage io env directory manifest stage =
     staged_bind (verified_stage io (fst (be_verified env)) directory
         (\<lambda>r. ''backup verification failed: '' @ join ''; '' (take 3 (vr_failures r))) (write_manifest io manifest stage)) (\<lambda>report stage.
     (let manifest = manifest\<lparr>bm_verification_state := vr_result report\<rparr> in
      staged_bind (verified_stage io (snd (be_verified env)) directory
          (\<lambda>r. ''final backup verification failed'') (write_manifest io manifest stage)) (\<lambda>report stage.
        (Inr (manifest, report), stage))))"

definition fill_stage ::
  "backup_io \<Rightarrow> backup_env \<Rightarrow> string \<Rightarrow> string list \<Rightarrow> (backup_manifest \<times> verification_report) staged" where
  "fill_stage io env backup_id directory =
     staged_bind (gather_stage io env backup_id directory) (seal_stage io env directory)"

record created_backup =
  cr_backup_id :: string
  cr_path :: "string list"
  cr_manifest :: backup_manifest
  cr_report :: verification_report

definition has_path :: "byte_tree \<Rightarrow> string list \<Rightarrow> bool" where
  "has_path tree p = (has_directory tree p \<or> dict_get tree p \<noteq> None)"

definition create_backup :: "backup_io \<Rightarrow> backup_env \<Rightarrow> byte_tree \<Rightarrow> created_backup result \<times> byte_tree" where
  "create_backup io env root =
     (let backup_id = generate_backup_id (be_started env) (be_hex env); stage_path = [''.tmp'', backup_id] in
      case result_bind (validate_backup_root (be_root env) (be_raw_root env)) (\<lambda>_.
           result_bind (disk_preflight (be_available_bytes env) (be_raw env)) (\<lambda>_.
           if has_path root stage_path then Inl (OtherError ''FileExistsError'' backup_id) else Inr ())) of
        Inl err \<Rightarrow> (Inl err, root)
      | Inr _ \<Rightarrow>
          (let failed = (\<lambda>err stage. (Inl err, dict_merge root (below stage_path
                 (dict_set [''FAILED.json''] (be_failure_text env backup_id err) stage)))) in
           case fill_stage io env backup_id (be_root env @ stage_path) of
             (Inl err, stage) \<Rightarrow> failed err stage
           | (Inr (manifest, report), stage) \<Rightarrow>
               (if has_path root [backup_id] then
                  failed (backup_error (''final backup already exists: /'' @ join ''/'' (be_root env @ [backup_id]))) stage
                else (Inr \<lparr>cr_backup_id = backup_id, cr_path = be_root env @ [backup_id], cr_manifest = manifest,
                       cr_report = report\<rparr>, dict_merge root (below [backup_id] stage)))))"


section \<open>Published backups\<close>

lemma staged_bind_Inr:
  assumes "staged_bind p k = (Inr y, stage')"
  obtains x stage where "p = (Inr x, stage)" "k x stage = (Inr y, stage')"
  using assms by (auto simp: staged_bind_def split: prod.splits sum.splits)

lemma dict_get_merge_distinct:
  assumes "distinct (dict_keys b)"
  shows "dict_get (dict_merge a b) k = (case dict_get b k of None \<Rightarrow> dict_get a k | Some v \<Rightarrow> Some v)"
proof -
  have "map_of (rev b) = map_of b" by (rule map_of_inject_set [THEN iffD2]) (use assms in \<open>simp_all add: rev_map [symmetric]\<close>)
  then show ?thesis by (simp add: dict_get_merge)
qed

lemma below_keys: "dict_keys (below p tree) = map (\<lambda>k. p @ k) (dict_keys tree)"
  by (induction tree) (auto simp: below_def)

lemma distinct_below [simp]: "distinct (dict_keys (below p tree)) = distinct (dict_keys tree)"
  by (simp add: below_keys distinct_map inj_on_def)

lemma verified_stage_Inr:
  assumes "verified_stage io now directory message stage = (Inr report, stage')"
  shows "backup_report io now directory stage = Inr report" "vr_result report \<noteq> VerifiedFail"
    "k \<noteq> [''verification.json''] \<Longrightarrow> dict_get stage' k = dict_get stage k"
    "distinct (dict_keys stage) \<Longrightarrow> distinct (dict_keys stage')"
  using assms
  by (auto simp: verified_stage_def staged_result_def verify_backup_def distinct_update elim!: staged_bind_Inr
      split: sum.splits if_splits)

text \<open>A stage that was filled: its pieces, and the report on it.\<close>

lemma gather_stage_Inr:
  assumes "gather_stage io env backup_id directory = (Inr manifest, stage)"
  obtains snapshot registry raw target bytes base where
    "copy_raw io recovery_sources (be_raw_root env) (directory @ [''raw'']) (be_raw env) = (Inr raw, target, bytes)"
    "new_manifest env backup_id snapshot registry raw = Inr manifest" "distinct (dict_keys base)"
    "stage = dict_set [''raw-manifest.jsonl.gz''] bytes (dict_merge base (below [''raw''] target))"
proof -
  obtain client s0 snapshot s1 registry s2 raw s3 where s:
    "staged_result (be_client_version env) [] = (Inr client, s0)"
    "take_snapshot io client (be_database env) s0 = (Inr snapshot, s1)"
    "copy_config io (be_config env) (ds_registry snapshot) s1 = (Inr registry, s2)"
    "stage_raw io env directory s2 = (Inr raw, s3)"
    "staged_result (new_manifest env backup_id snapshot registry raw) s3 = (Inr manifest, stage)"
    using assms unfolding gather_stage_def by (elim staged_bind_Inr)
  obtain r target bytes where c: "copy_raw io recovery_sources (be_raw_root env) (directory @ [''raw'']) (be_raw env) = (r, target, bytes)"
    by (metis prod_cases3)
  have "distinct (dict_keys s0)" using s(1) by (simp add: staged_result_def)
  then have "distinct (dict_keys s1)"
    using s(2) by (auto simp: take_snapshot_def Let_def distinct_update split: sum.splits if_splits)
  then have "distinct (dict_keys s2)" using s(3) by (auto simp: copy_config_def distinct_dict_merge split: option.splits prod.splits)
  moreover have "r = Inr raw" "stage = dict_set [''raw-manifest.jsonl.gz''] bytes (dict_merge s2 (below [''raw''] target))"
    "new_manifest env backup_id snapshot registry raw = Inr manifest"
    using s(4,5) by (simp_all add: stage_raw_def staged_result_def c)
  ultimately show ?thesis using that c by simp
qed

lemma seal_stage_Inr:
  assumes "seal_stage io env directory m0 gathered = (Inr (manifest, report), stage)"
  obtains r1 :: verification_report and tested :: byte_tree where
    "manifest = m0\<lparr>bm_verification_state := vr_result r1\<rparr>" "vr_result r1 \<in> {VerifiedPass, VerifiedWarning}"
    "backup_report io (snd (be_verified env)) directory tested = Inr report" "vr_result report \<noteq> VerifiedFail"
    "\<And>k. k \<noteq> [''verification.json''] \<Longrightarrow> dict_get stage k = dict_get tested k"
    "\<And>k. k \<noteq> [''manifest.json''] \<Longrightarrow> k \<noteq> [''verification.json''] \<Longrightarrow> dict_get stage k = dict_get gathered k"
    "dict_get stage [''manifest.json''] = Some (bi_manifest_text io manifest)"
    "distinct (dict_keys gathered) \<Longrightarrow> distinct (dict_keys stage)"
proof -
  obtain r1 s1 s2 where s1: "verified_stage io (fst (be_verified env)) directory
      (\<lambda>r. ''backup verification failed: '' @ join ''; '' (take 3 (vr_failures r))) (write_manifest io m0 gathered) = (Inr r1, s1)"
    and s2: "verified_stage io (snd (be_verified env)) directory (\<lambda>r. ''final backup verification failed'')
      (write_manifest io (m0\<lparr>bm_verification_state := vr_result r1\<rparr>) s1) = (Inr report, s2)"
    and e: "manifest = m0\<lparr>bm_verification_state := vr_result r1\<rparr>" "stage = s2"
    using assms unfolding seal_stage_def Let_def by (elim staged_bind_Inr) simp
  let ?tested = "write_manifest io manifest s1"
  note g = verified_stage_Inr(3) [OF s2, folded e] and g1 = verified_stage_Inr(3) [OF s1]
  show ?thesis
  proof (rule that [of r1 ?tested])
    show "manifest = m0\<lparr>bm_verification_state := vr_result r1\<rparr>" by (rule e(1))
    show "vr_result r1 \<in> {VerifiedPass, VerifiedWarning}" by (rule accepted_state [OF verified_stage_Inr(1,2) [OF s1]])
    show "backup_report io (snd (be_verified env)) directory ?tested = Inr report" "vr_result report \<noteq> VerifiedFail"
      using verified_stage_Inr(1,2) [OF s2] e(1) by simp_all
    show "dict_get stage k = dict_get ?tested k" if "k \<noteq> [''verification.json'']" for k by (rule g [OF that])
    show "dict_get stage k = dict_get gathered k" if "k \<noteq> [''manifest.json'']" "k \<noteq> [''verification.json'']" for k
      using that g [OF that(2)] g1 [OF that(2)] by (simp add: write_manifest_def)
    show "dict_get stage [''manifest.json''] = Some (bi_manifest_text io manifest)"
      using g [of "[''manifest.json'']"] by (simp add: write_manifest_def)
    show "distinct (dict_keys stage)" if "distinct (dict_keys gathered)"
      using verified_stage_Inr(4) [OF s2] verified_stage_Inr(4) [OF s1] that e(2) by (simp add: write_manifest_def distinct_update)
  qed
qed

lemma create_backup_Inr:
  assumes "create_backup io env root = (Inr r, root')"
  obtains gathered stage m0 where
    "gather_stage io env (cr_backup_id r) (be_root env @ [''.tmp'', cr_backup_id r]) = (Inr m0, gathered)"
    "seal_stage io env (be_root env @ [''.tmp'', cr_backup_id r]) m0 gathered = (Inr (cr_manifest r, cr_report r), stage)"
    "\<not> has_path root [cr_backup_id r]" "root' = dict_merge root (below [cr_backup_id r] stage)"
    "cr_backup_id r = generate_backup_id (be_started env) (be_hex env)"
proof -
  let ?id = "generate_backup_id (be_started env) (be_hex env)"
  obtain manifest report stage where f: "fill_stage io env ?id (be_root env @ [''.tmp'', ?id]) = (Inr (manifest, report), stage)"
    and r: "\<not> has_path root [?id]" "root' = dict_merge root (below [?id] stage)"
      "r = \<lparr>cr_backup_id = ?id, cr_path = be_root env @ [?id], cr_manifest = manifest, cr_report = report\<rparr>"
    using assms by (auto simp: create_backup_def Let_def split: sum.splits prod.splits if_splits)
  from f obtain m0 gathered where "gather_stage io env ?id (be_root env @ [''.tmp'', ?id]) = (Inr m0, gathered)"
    "seal_stage io env (be_root env @ [''.tmp'', ?id]) m0 gathered = (Inr (manifest, report), stage)"
    unfolding fill_stage_def by (rule staged_bind_Inr)
  then show ?thesis using r by (intro that) simp_all
qed

end
