(* ===== verification/Restore.thy ===== *)
theory Restore
  imports Backup_Service
begin

text \<open>
  \<open>restore.py\<close>: the preflight, the restore into an empty target with its verification, and the drill.  What lies
  outside of the program is in the environment: the parsed URLs, the copy that \<open>shutil.copytree\<close> leaves, the
  outcome of \<open>pg_restore\<close>, what the restored database shows and the answers of the API.  The directory \<open>raw\<close> of
  a backup exists, as the copier makes it.
\<close>


section \<open>Preflight\<close>

definition restore_error :: "string \<Rightarrow> py_error" where
  "restore_error m = OtherError ''RestoreError'' m"

record restored_view =
  vw_counts :: "(string, int) dict"
  vw_migration :: string
  vw_registry :: "registry_summary option result"
  vw_pointers :: "(string, raw_pointer list) dict"
  vw_lineage :: "(string, (lineage_sample \<times> string) list) dict"
  vw_api_smoke :: "(string, int) dict result"

record restore_env =
  rs_backup :: "string list"
  rs_raw_dir :: "string list"
  rs_active_raw :: "string list"
  rs_active_database :: "string option"
  rs_driver :: string
  rs_database :: "string option"
  rs_symlink :: bool
  rs_target :: "byte_tree option" \<comment> \<open>the target directory, if it exists\<close>
  rs_parent_exists :: bool
  rs_tables :: "string list" \<comment> \<open>of the target database\<close>
  rs_started :: int
  rs_completed :: int
  rs_duration_ms :: int
  rs_copytree :: "byte_tree \<Rightarrow> byte_tree result"
  rs_pg_restore :: "string option \<Rightarrow> unit result"
  rs_view :: restored_view

definition starts_with :: "string \<Rightarrow> string \<Rightarrow> bool" where
  "starts_with prefix s = (take (length prefix) s = prefix)"

text \<open>The refusals after the backup was verified, in the order of the code.\<close>

definition target_refusal :: "restore_env \<Rightarrow> string option" where
  "target_refusal env =
     (let target = rs_raw_dir env; active = rs_active_raw env; backup = rs_backup env in
      if \<not> starts_with ''postgresql'' (rs_driver env) then Some ''restore requires an explicit PostgreSQL target URL''
      else if rs_active_database env = rs_database env then
        Some ''restore target database name must differ from the active Observatory database''
      else if relative_to target active \<noteq> None then Some ''restore target must not be the active Raw directory''
      else if relative_to target backup \<noteq> None then Some ''restore Raw target must not be inside the source backup''
      else if relative_to backup target \<noteq> None then Some ''restore Raw target must not contain the source backup''
      else if rs_symlink env then Some ''restore Raw target must not be a symlink''
      else if (case rs_target env of None \<Rightarrow> False | Some files \<Rightarrow> files \<noteq> []) then Some ''restore Raw target must be empty''
      else if \<not> rs_parent_exists env then Some ''restore Raw target parent must already exist''
      else if rs_tables env \<noteq> [] then Some ''restore database target must be empty''
      else None)"

definition restore_preflight :: "backup_io \<Rightarrow> restore_env \<Rightarrow> byte_tree \<Rightarrow> backup_manifest result" where
  "restore_preflight io env tree =
     result_bind (fst (verify_backup io (rs_started env) False (rs_backup env) tree)) (\<lambda>report.
       if vr_result report = VerifiedFail then Inl (restore_error ''backup verification failed'')
       else
         (let name = last (rs_backup env) in
          result_bind (catalog_show io (below [name] tree) name) (\<lambda>shown.
            case shown of
              None \<Rightarrow> Inl (restore_error ''backup manifest is unavailable'')
            | Some m \<Rightarrow>
                (case target_refusal env of
                   Some message \<Rightarrow> Inl (restore_error message)
                 | None \<Rightarrow> Inr m))))"


section \<open>Verification of what was restored\<close>

definition verify_restored_tree :: "byte_tree \<Rightarrow> byte_tree \<Rightarrow> unit result" where
  "verify_restored_tree source target =
     (let keys = sort (dict_keys source) in
      if keys \<noteq> sort (dict_keys target) then Inl (restore_error ''restored Raw file tree differs from backup'')
      else (case find (\<lambda>k. dict_get source k \<noteq> dict_get target k) keys of
              Some k \<Rightarrow> Inl (restore_error (''restored Raw bytes differ: '' @ join ''/'' k))
            | None \<Rightarrow> Inr ()))"

record restore_report =
  rt_started :: int
  rt_completed :: int
  rt_backup_id :: string
  rt_database_restored :: bool
  rt_raw_restored :: bool
  rt_expected_counts :: "(string, int) dict"
  rt_restored_counts :: "(string, int) dict"
  rt_raw_integrity :: "integrity_report option" \<comment> \<open>\<open>None\<close>: not checked\<close>
  rt_lineage :: "(string, lineage_sample list) dict"
  rt_expected_migration :: string
  rt_restored_migration :: string
  rt_registry_valid :: bool
  rt_registry :: "registry_summary option"
  rt_api_smoke :: "(string, int) dict"
  rt_duration_ms :: int
  rt_passed :: bool

definition lineage_samples ::
  "backup_io \<Rightarrow> string list \<Rightarrow> byte_tree \<Rightarrow> (string, (lineage_sample \<times> string) list) dict \<Rightarrow> string list \<Rightarrow>
   (string, lineage_sample list) dict result" where
  "lineage_samples io root tree rows sources =
     result_map (\<lambda>source.
       if source \<notin> set (dict_keys recovery_adapters) then Inr (source, [])
       else result_bind (sample_lineage io root tree source (dict_get_list rows source)) (\<lambda>samples. Inr (source, samples))) sources"

definition restored_registry_valid :: "registry_summary option \<Rightarrow> registry_manifest \<Rightarrow> bool" where
  "restored_registry_valid registry m =
     (case registry of
        None \<Rightarrow> False
      | Some r \<Rightarrow> Some (reg_version r) = gm_version m \<and> Some (reg_checksum r) = gm_checksum m \<and>
          reg_topic_count r = gm_topic_count m)"

definition same_dict :: "('k, 'v) dict \<Rightarrow> ('k, 'v) dict \<Rightarrow> bool" where
  "same_dict a b = (set (dict_keys a) = set (dict_keys b) \<and> list_all (\<lambda>k. dict_get a k = dict_get b k) (dict_keys a))"

definition restored_state_valid ::
  "restored_view \<Rightarrow> backup_manifest \<Rightarrow> registry_summary option \<Rightarrow> integrity_report \<Rightarrow> (string, lineage_sample list) dict \<Rightarrow>
   (string, int) dict \<Rightarrow> bool" where
  "restored_state_valid seen m registry raw lineage smoke =
     (same_dict (vw_counts seen) (dm_counts (bm_database m)) \<and>
      vw_migration seen = dm_migration_head (bm_database m) \<and>
      restored_registry_valid registry (bm_registry m) \<and>
      (ir_state raw = IntegrityPass \<or> rw_file_count (bm_raw m) = 0 \<and> ir_state raw = NoRawRecords) \<and>
      list_all (\<lambda>(source, s). dict_get_list lineage source \<noteq> [] \<or> sm_match_count s = 0) (bm_sources m) \<and>
      list_all (\<lambda>(path, status). status = 200) smoke)"

definition verify_restored ::
  "backup_io \<Rightarrow> restore_env \<Rightarrow> backup_manifest \<Rightarrow> byte_tree \<Rightarrow> restore_report result" where
  "verify_restored io env m tree =
     (let seen = rs_view env in
      result_bind (vw_registry seen) (\<lambda>registry.
      result_bind (verify_integrity io (\<lambda>ps n. ps) (rs_raw_dir env) tree (vw_pointers seen) 100 None True) (\<lambda>raw.
      result_bind (lineage_samples io (rs_raw_dir env) tree (vw_lineage seen) (dict_keys (bm_sources m))) (\<lambda>lineage.
      result_bind (vw_api_smoke seen) (\<lambda>smoke.
        Inr \<lparr>rt_started = rs_started env, rt_completed = rs_completed env, rt_backup_id = bm_backup_id m,
             rt_database_restored = True, rt_raw_restored = True, rt_expected_counts = dm_counts (bm_database m),
             rt_restored_counts = vw_counts seen, rt_raw_integrity = Some raw, rt_lineage = lineage,
             rt_expected_migration = dm_migration_head (bm_database m), rt_restored_migration = vw_migration seen,
             rt_registry_valid = restored_registry_valid registry (bm_registry m), rt_registry = registry,
             rt_api_smoke = smoke, rt_duration_ms = rs_duration_ms env,
             rt_passed = restored_state_valid seen m registry raw lineage smoke\<rparr>)))))"


section \<open>Restore\<close>

definition failed_restore :: "restore_env \<Rightarrow> backup_manifest \<Rightarrow> bool \<Rightarrow> bool \<Rightarrow> restore_report" where
  "failed_restore env m raw_restored database_restored =
     \<lparr>rt_started = rs_started env, rt_completed = rs_completed env, rt_backup_id = bm_backup_id m,
      rt_database_restored = database_restored, rt_raw_restored = raw_restored,
      rt_expected_counts = dm_counts (bm_database m), rt_restored_counts = [], rt_raw_integrity = None,
      rt_lineage = map (\<lambda>s. (s, [])) (dict_keys (bm_sources m)),
      rt_expected_migration = dm_migration_head (bm_database m), rt_restored_migration = ''unknown'',
      rt_registry_valid = False, rt_registry = None, rt_api_smoke = [], rt_duration_ms = rs_duration_ms env,
      rt_passed = False\<rparr>"

definition safe_message :: "string \<Rightarrow> py_error \<Rightarrow> string" where
  "safe_message phase err =
     (if error_name err \<in> {''RestoreError'', ''PostgresToolError''} then error_text err
      else phase @ '' failed ('' @ error_name err @ '')'')"

text \<open>The target directory and the report file, which are what a restore changes on disk.\<close>

record restore_disk =
  rd_target :: "byte_tree option"
  rd_report :: "restore_report option"

definition restore_backup ::
  "backup_io \<Rightarrow> restore_env \<Rightarrow> byte_tree \<Rightarrow> restore_report result \<times> restore_disk" where
  "restore_backup io env tree =
     (let untouched = \<lparr>rd_target = rs_target env, rd_report = None\<rparr> in
      case restore_preflight io env tree of
        Inl err \<Rightarrow> (Inl err, untouched)
      | Inr m \<Rightarrow>
          (let failed = (\<lambda>phase target raw_restored database_restored err.
                 (Inl (restore_error (safe_message phase err)),
                  \<lparr>rd_target = target, rd_report = Some (failed_restore env m raw_restored database_restored)\<rparr>)) in
           case rs_copytree env (subtree [''raw''] tree) of
             Inl err \<Rightarrow> failed ''Raw staging copy'' (rs_target env) False False err
           | Inr stage \<Rightarrow>
               (case verify_restored_tree (subtree [''raw''] tree) stage of
                  Inl err \<Rightarrow> failed ''Raw staging verification'' (rs_target env) False False err
                | Inr _ \<Rightarrow>
                    (case rs_pg_restore env (dict_get tree [''postgres.dump'']) of
                       Inl err \<Rightarrow> failed ''PostgreSQL restore'' (Some stage) True False err
                     | Inr _ \<Rightarrow>
                         (case verify_restored io env m stage of
                            Inl err \<Rightarrow> failed ''post-restore verification'' (Some stage) True True err
                          | Inr report \<Rightarrow>
                              (if rt_passed report then Inr report
                               else Inl (restore_error ''restored data failed verification''),
                               \<lparr>rd_target = Some stage, rd_report = Some report\<rparr>))))))"


section \<open>The drill\<close>

definition drill_prefix :: string where
  "drill_prefix = ''signal_observatory_restore_drill_''"

definition drill_name :: "string \<Rightarrow> string \<Rightarrow> string" where
  "drill_name timestamp suffix = drill_prefix @ timestamp @ ''_'' @ suffix"

definition drill_name_ok :: "string \<Rightarrow> bool" where
  "drill_name_ok name =
     (starts_with drill_prefix name \<and>
      (let rest = drop (length drill_prefix) name in
       length rest = 21 \<and> list_all (\<lambda>c. digit_of c \<noteq> None) (take 14 rest) \<and> rest ! 14 = CHR ''_'' \<and>
       list_all hex_char (drop 15 rest)))"

text \<open>The databases of the server, the directory of the drill and the reports that are kept.\<close>

record drill_state =
  dr_databases :: "string list"
  dr_directory :: bool
  dr_reports :: "(string, restore_report) dict"

definition create_drill_database :: "string \<Rightarrow> drill_state \<Rightarrow> unit result \<times> drill_state" where
  "create_drill_database name st =
     (if name \<in> set (dr_databases st) then (Inl (restore_error ''drill database already exists''), st)
      else (Inr (), st\<lparr>dr_databases := dr_databases st @ [name]\<rparr>))"

definition drop_drill_database :: "string \<Rightarrow> drill_state \<Rightarrow> unit result \<times> drill_state" where
  "drop_drill_database name st =
     (if \<not> starts_with drill_prefix name then (Inl (restore_error ''refusing to drop a non-drill database''), st)
      else (Inr (), st\<lparr>dr_databases := filter (\<lambda>d. d \<noteq> name) (dr_databases st)\<rparr>))"

text \<open>The \<open>finally\<close> block.\<close>

definition drill_cleanup :: "bool \<Rightarrow> bool \<Rightarrow> bool \<Rightarrow> string \<Rightarrow> drill_state \<Rightarrow> unit result \<times> drill_state" where
  "drill_cleanup succeeded keep_on_failure created name st =
     (if succeeded \<or> \<not> keep_on_failure then
        (case (if created then drop_drill_database name st else (Inr (), st)) of
           (Inl err, st') \<Rightarrow> (Inl err, st')
         | (Inr _, st') \<Rightarrow> (Inr (), st'\<lparr>dr_directory := False\<rparr>))
      else (Inr (), st))"

text \<open>
  \<open>drill_root\<close> is the directory of the drill in the directory for temporary files; the database of the target
  is new, so it has no tables.
\<close>

definition run_drill ::
  "backup_io \<Rightarrow> restore_env \<Rightarrow> byte_tree \<Rightarrow> string list \<Rightarrow> string \<Rightarrow> string \<Rightarrow> bool \<Rightarrow> drill_state \<Rightarrow>
   restore_report result \<times> drill_state" where
  "run_drill io env tree drill_root timestamp suffix keep_on_failure st =
     (let name = drill_name timestamp suffix in
      if \<not> drill_name_ok name then (Inl (restore_error ''invalid drill database name''), st)
      else if dr_directory st then (Inl (OtherError ''FileExistsError'' (timestamp @ ''-'' @ suffix)), st)
      else
        (let st = st\<lparr>dr_directory := True\<rparr>;
             finish = (\<lambda>r succeeded created st. case drill_cleanup succeeded keep_on_failure created name st of
               (Inl err, st') \<Rightarrow> (Inl err, st') | (Inr _, st') \<Rightarrow> (r, st')) in
         case create_drill_database name st of
           (Inl err, st) \<Rightarrow> finish (Inl err) False False st
         | (Inr _, st) \<Rightarrow>
             (case restore_backup io (env\<lparr>rs_raw_dir := drill_root @ [''raw''], rs_database := Some name, rs_symlink := False,
                      rs_target := None, rs_parent_exists := True, rs_tables := []\<rparr>) tree of
                (Inr report, disk) \<Rightarrow>
                  finish (Inr report) (rt_passed report) True (st\<lparr>dr_reports := dict_set name report (dr_reports st)\<rparr>)
              | (Inl err, disk) \<Rightarrow>
                  (case rd_report disk of
                     None \<Rightarrow> finish (Inl err) False True st
                   | Some report \<Rightarrow>
                       finish (Inl err) False True (st\<lparr>dr_reports := dict_set name report (dr_reports st)\<rparr>)))))"

end
