(* ===== verification/Backup_Demo.thy ===== *)
theory Backup_Demo
  imports Restore
begin

text \<open>
  A concrete environment for the witnesses of backup and restore: texts in a unary coding, a compression that marks
  its text, a digest of the second character, one arXiv record and an empty topic registry.
\<close>


section \<open>Texts\<close>

definition put_text :: "string \<Rightarrow> string \<Rightarrow> string" where
  "put_text s rest = concat (map (\<lambda>c. replicate (of_char c) CHR ''1'' @ ''2'') s) @ CHR ''3'' # rest"

fun take_text :: "nat \<Rightarrow> string \<Rightarrow> string \<Rightarrow> string \<times> string" where
  "take_text n acc [] = (acc, [])"
| "take_text n acc (c # cs) =
     (if c = CHR ''1'' then take_text (n + 1) acc cs
      else if c = CHR ''2'' then take_text 0 (acc @ [char_of n]) cs
      else (acc, cs))"

definition put_int :: "int \<Rightarrow> string \<Rightarrow> string" where
  "put_int n rest = put_text ((if n < 0 then ''-'' else '''') @ replicate (nat \<bar>n\<bar>) CHR ''i'') rest"

definition demo_int_of :: "string \<Rightarrow> int" where
  "demo_int_of s = (if s \<noteq> [] \<and> hd s = CHR ''-'' then - int (length (tl s)) else int (length s))"

definition demo_entry_text :: "raw_entry \<Rightarrow> string" where
  "demo_entry_text e = CHR ''n'' # put_text (re_path e) (put_int (re_size_bytes e) (put_text (re_sha256 e)
     (put_text (if re_sidecar e then ''t'' else '''') (put_int (re_sidecar_size_bytes e) (put_text (re_sidecar_sha256 e)
        (put_text (re_source_checksum e) []))))))"

definition demo_entry :: "string \<Rightarrow> raw_entry option" where
  "demo_entry s =
     (case take_text 0 [] (tl s) of (path, s1) \<Rightarrow> case take_text 0 [] s1 of (bytes, s2) \<Rightarrow>
      case take_text 0 [] s2 of (sha, s3) \<Rightarrow> case take_text 0 [] s3 of (sidecar, s4) \<Rightarrow>
      case take_text 0 [] s4 of (sidecar_bytes, s5) \<Rightarrow> case take_text 0 [] s5 of (sidecar_sha, s6) \<Rightarrow>
      case take_text 0 [] s6 of (checksum, s7) \<Rightarrow>
        Some \<lparr>re_path = path, re_size_bytes = demo_int_of bytes, re_sha256 = sha, re_sidecar = (sidecar \<noteq> ''''),
          re_sidecar_size_bytes = demo_int_of sidecar_bytes, re_sidecar_sha256 = sidecar_sha, re_source_checksum = checksum\<rparr>)"

fun keep_lines :: "string \<Rightarrow> string \<Rightarrow> string list" where
  "keep_lines acc [] = (if acc = [] then [] else [acc])"
| "keep_lines acc (c # cs) = (if c = newline then (acc @ [c]) # keep_lines [] cs else keep_lines (acc @ [c]) cs)"

definition demo_lines :: "string \<Rightarrow> string list \<times> py_error option" where
  "demo_lines s = (if s \<noteq> [] \<and> hd s = CHR ''z'' then (keep_lines [] (tl s), None)
     else ([], Some (OtherError ''BadGzipFile'' ''Not a gzipped file'')))"


section \<open>Bytes and records\<close>

definition demo_hex :: "nat \<Rightarrow> char" where
  "demo_hex n = (if n < 10 then char_of (48 + n) else char_of (87 + n))"

definition demo_digest :: "string \<Rightarrow> string" where
  "demo_digest p = replicate 63 CHR ''0'' @ [demo_hex (case p of _ # c # _ \<Rightarrow> of_char c mod 16 | _ \<Rightarrow> 15)]"

definition backup_codec :: codec where
  "backup_codec = \<lparr>cd_sha256 = demo_digest, cd_gzip = (\<lambda>p. CHR ''z'' # p),
     cd_gunzip = (\<lambda>s. if s \<noteq> [] \<and> hd s = CHR ''z'' then Some (tl s) else None)\<rparr>"

definition demo_payload :: string where
  "demo_payload = ''5''"

definition backup_metadata :: raw_metadata where
  "backup_metadata = \<lparr>md_source = ''arxiv'', md_request_timestamp = 0, md_collector_version = ''1'', md_schema_version = ''1'',
     md_sha256 = demo_digest demo_payload, md_uncompressed_bytes = 1, md_source_metadata = []\<rparr>"

definition demo_record :: "string list" where
  "demo_record = record_key ''arxiv'' 0 (demo_digest demo_payload)"

definition backup_files :: raw_files where
  "backup_files = [(demo_record, \<lparr>rd_payload = CHR ''z'' # demo_payload, rd_metadata = backup_metadata\<rparr>)]"

text \<open>The text of every manifest is read as the argument.\<close>

definition demo_io :: "backup_manifest result \<Rightarrow> backup_io" where
  "demo_io manifest = \<lparr>bi_codec = backup_codec, bi_nfkc = id, bi_gunzip_error = (\<lambda>s. OtherError ''BadGzipFile'' ''Not a gzipped file''),
     bi_metadata_text = (\<lambda>m. ''m0''),
     bi_metadata = (\<lambda>s. if s = ''m0'' then Inr backup_metadata else Inl (OtherError ''JSONDecodeError'' ''value expected'')),
     bi_entry_text = demo_entry_text, bi_entry = demo_entry, bi_lines = demo_lines,
     bi_manifest_text = (\<lambda>m. ''manifest''), bi_manifest = (\<lambda>s. manifest), bi_report_text = (\<lambda>r. ''checked''),
     bi_definition = (\<lambda>s. FileParsed \<lparr>rf_categories = [], rf_topics = [], rf_collisions = []\<rparr>),
     bi_validate_dump = (\<lambda>s. Inr ()), bi_outside = (\<lambda>name. None)\<rparr>"


definition demo_tree :: byte_tree where
  "demo_tree = [(payload_file demo_record, CHR ''z'' # demo_payload), (metadata_file demo_record, ''m0'')]"

definition demo_raw_entries :: "raw_entry list" where
  "demo_raw_entries = [copied_entry (demo_io (Inl TimeoutError)) (join ''/'' demo_record) (CHR ''z'' # demo_payload) ''m0''
     (demo_digest demo_payload)]"

definition demo_raw_bytes :: string where
  "demo_raw_bytes = raw_manifest_bytes (demo_io (Inl TimeoutError)) demo_raw_entries"

definition demo_raw_summary :: raw_summary where
  "demo_raw_summary = raw_summary_of (demo_io (Inl TimeoutError)) demo_raw_entries"

text \<open>A database with one Raw row and no topics.\<close>

definition demo_counts :: "(string, int) dict" where
  "demo_counts = [(''arxiv_papers'', 0), (''arxiv_raw_responses'', 1), (''arxiv_topic_matches'', 0), (''github_raw_responses'', 0),
     (''github_repositories'', 0), (''github_repository_snapshots'', 0), (''github_topic_repository_matches'', 0),
     (''topic_source_coverage'', 0)]"

definition demo_registry :: registry_summary where
  "demo_registry = \<lparr>reg_version = 1, reg_checksum = registry_checksum demo_digest [] [] [], reg_last_synced_at = 0,
     reg_topic_count = 0, reg_active_topics = 0, reg_alias_count = 0, reg_mapping_count = 0, reg_warnings = 0\<rparr>"

definition demo_view :: database_view where
  "demo_view = \<lparr>dv_server = None, dv_counts = demo_counts, dv_snapshot_dates = [], dv_runs = [], dv_registry = Inr (Some demo_registry),
     dv_migration = ''head'', dv_table_count = 8, dv_dump = Inr ''pgdump''\<rparr>"

definition demo_config :: byte_tree where
  "demo_config = [([''a.yaml''], ''{}'')]"

definition demo_backup_env :: backup_env where
  "demo_backup_env = \<lparr>be_root = [''backups''], be_raw_root = [''raw''], be_raw = demo_tree, be_config = Some demo_config,
     be_hex = ''abcdef'', be_label = None, be_started = 0, be_completed = 1000000, be_verified = (2000000, 3000000),
     be_available_bytes = 100000000, be_client_version = Inr ''16.1'', be_database = demo_view, be_application_version = None,
     be_git = (1, ''''), be_failure_text = (\<lambda>i e. ''failed'')\<rparr>"

definition demo_sources :: "(string, source_manifest) dict" where
  "demo_sources =
     [(''arxiv'', \<lparr>sm_entity_count = 0, sm_match_count = 0, sm_raw_response_count = 1, sm_snapshot_count = None,
        sm_observation_dates = None, sm_latest_run_at = None\<rparr>),
      (''github'', \<lparr>sm_entity_count = 0, sm_match_count = 0, sm_raw_response_count = 0, sm_snapshot_count = Some 0,
        sm_observation_dates = Some 0, sm_latest_run_at = None\<rparr>)]"

definition demo_manifest :: backup_manifest where
  "demo_manifest =
     (case tree_checksum backup_codec demo_config of (checksum, bytes) \<Rightarrow>
      \<lparr>bm_schema_version = ''1'', bm_backup_id = ''19700101T000000Z-abcdef'', bm_label = None, bm_started_at = 0,
       bm_completed_at = 1000000, bm_application_version = ''0.1.0'', bm_git_commit = None,
       bm_database = \<lparr>dm_server_version = ''test-sqlite'', dm_migration_head = ''head'', dm_dump_filename = ''postgres.dump'',
         dm_table_count = 8, dm_size_bytes = 6, dm_sha256 = demo_digest ''pgdump'', dm_counts = demo_counts\<rparr>,
       bm_registry = \<lparr>gm_version = Some 1, gm_checksum = Some (registry_checksum demo_digest [] [] []), gm_topic_count = 0,
         gm_config_checksum = checksum, gm_config_bytes = bytes\<rparr>,
       bm_raw = demo_raw_summary, bm_sources = demo_sources, bm_projection_count = 0, bm_tool_version = ''backup-v1'',
       bm_verification_state = Unverified, bm_total_bytes = 6 + rw_total_bytes demo_raw_summary + bytes\<rparr>)"

text \<open>The files of the stage before and after the verifications, and the backup that is published.\<close>

definition demo_stage :: byte_tree where
  "demo_stage = [([''postgres.dump''], ''pgdump''), ([''registry'', ''topics'', ''a.yaml''], ''{}''),
     (''raw'' # payload_file demo_record, CHR ''z'' # demo_payload), (''raw'' # metadata_file demo_record, ''m0''),
     ([''raw-manifest.jsonl.gz''], demo_raw_bytes)]"

definition demo_published :: byte_tree where
  "demo_published = demo_stage @ [([''manifest.json''], ''manifest''), ([''verification.json''], ''checked'')]"

definition demo_id :: string where
  "demo_id = ''19700101T000000Z-abcdef''"

definition demo_pointer :: raw_pointer where
  "demo_pointer = \<lparr>rp_id = 1, rp_source = ''arxiv'', rp_path = join ''/'' demo_record, rp_checksum = demo_digest demo_payload,
     rp_observed_at = 0\<rparr>"

definition demo_restore_env :: restore_env where
  "demo_restore_env = \<lparr>rs_backup = [''backups'', demo_id], rs_raw_dir = [''restored''], rs_active_raw = [''raw''],
     rs_active_database = Some ''observatory'', rs_driver = ''postgresql+psycopg'', rs_database = Some ''restored'', rs_symlink = False,
     rs_target = None, rs_parent_exists = True, rs_tables = [], rs_started = 4000000, rs_completed = 5000000, rs_duration_ms = 1000,
     rs_copytree = Inr, rs_pg_restore = (\<lambda>dump. Inr ()),
     rs_view = \<lparr>vw_counts = demo_counts, vw_migration = ''head'', vw_registry = Inr (Some demo_registry),
       vw_pointers = [(''arxiv'', [demo_pointer]), (''github'', [])], vw_lineage = [], vw_api_smoke = Inr [(''/api/operations'', 200)]\<rparr>\<rparr>"

abbreviation good_io :: backup_io where
  "good_io \<equiv> demo_io (Inr demo_manifest)"


section \<open>The laws hold\<close>

lemma take_text_unary: "take_text n acc (replicate k CHR ''1'' @ rest) = take_text (n + k) acc rest"
  by (induction k arbitrary: n) simp_all

lemma take_put_text: "take_text 0 acc (put_text s rest) = (acc @ s, rest)"
proof (induction s arbitrary: acc)
  case Nil
  show ?case by (simp add: put_text_def)
next
  case (Cons c s)
  have "put_text (c # s) rest = replicate (of_char c) CHR ''1'' @ CHR ''2'' # put_text s rest" by (simp add: put_text_def)
  then show ?case using Cons by (simp add: take_text_unary)
qed

lemma int_of_put: "demo_int_of ((if n < 0 then ''-'' else '''') @ replicate (nat \<bar>n\<bar>) CHR ''i'') = n"
  by (cases "nat \<bar>n\<bar>") (auto simp: demo_int_of_def)

lemma take_put_int: "take_text 0 [] (put_int n rest) = ((if n < 0 then ''-'' else '''') @ replicate (nat \<bar>n\<bar>) CHR ''i'', rest)"
  by (simp add: put_int_def take_put_text)

lemma demo_entry_read: "demo_entry (demo_entry_text e @ [newline]) = Some e"
proof -
  have a: "put_text s rest @ t = put_text s (rest @ t)" "put_int n rest @ t = put_int n (rest @ t)" for s rest t n
    by (simp_all add: put_text_def put_int_def)
  show ?thesis
    by (simp add: demo_entry_def demo_entry_text_def a take_put_text take_put_int int_of_put del: append.simps(2) append_Cons)
qed

lemma keep_lines_line: "newline \<notin> set w \<Longrightarrow> keep_lines acc (w @ newline # rest) = (acc @ w @ [newline]) # keep_lines [] rest"
  by (induction w arbitrary: acc) auto

lemma put_text_chars: "newline \<in> set (put_text s rest) \<longleftrightarrow> newline \<in> set rest" "newline \<in> set (put_int n rest) \<longleftrightarrow> newline \<in> set rest"
  by (auto simp: put_text_def put_int_def)

lemma demo_entry_one_line: "newline \<notin> set (demo_entry_text e)"
  by (simp add: demo_entry_text_def put_text_chars)

lemma demo_lines_read: "keep_lines [] (concat (map (\<lambda>e. demo_entry_text e @ [newline]) es)) = map (\<lambda>e. demo_entry_text e @ [newline]) es"
  by (induction es) (simp_all add: keep_lines_line [OF demo_entry_one_line])

lemma demo_hex_ok: "n < 16 \<Longrightarrow> hex_char (demo_hex n)"
  by (auto simp: demo_hex_def hex_char_def Let_def of_char_of)

lemma demo_digest_text: "digest_text (demo_digest p)"
proof -
  have "hex_char (demo_hex (case p of _ # c # _ \<Rightarrow> of_char c mod 16 | _ \<Rightarrow> 15))"
    by (rule demo_hex_ok) (auto split: list.splits)
  moreover have "hex_char CHR ''0''" by (simp add: hex_char_def)
  ultimately show ?thesis by (simp add: digest_text_def demo_digest_def list_all_iff)
qed

lemma backup_codec_ok: "codec_ok backup_codec"
proof -
  have "CHR ''/'' \<notin> set (demo_digest p)" for p
    using demo_digest_text [of p] hex_chars by (auto simp: digest_text_def list_all_iff)
  moreover have "demo_digest p \<noteq> []" for p by (simp add: demo_digest_def)
  ultimately show ?thesis by (simp add: codec_ok_def backup_codec_def)
qed

lemma demo_io_ok: "backup_io_ok (demo_io m)"
proof -
  have l: "map (entry_line (demo_io m)) es = map (\<lambda>e. demo_entry_text e @ [newline]) es" for es
    by (simp add: entry_line_def demo_io_def)
  have "demo_lines (CHR ''z'' # concat (map (\<lambda>e. demo_entry_text e @ [newline]) es)) = (map (\<lambda>e. demo_entry_text e @ [newline]) es, None)" for es
    by (simp add: demo_lines_def demo_lines_read)
  moreover have "bi_lines (demo_io m) = demo_lines" "bi_codec (demo_io m) = backup_codec" "bi_entry (demo_io m) = demo_entry"
    "cd_gzip backup_codec = (\<lambda>p. CHR ''z'' # p)" "cd_sha256 backup_codec = demo_digest"
    by (simp_all add: demo_io_def backup_codec_def)
  ultimately show ?thesis
    using backup_codec_ok demo_digest_text demo_entry_read unfolding backup_io_ok_def l by (simp add: entry_line_def demo_io_def)
qed

lemma demo_store_sound: "store_sound backup_codec backup_files"
proof -
  have "source_ok ''arxiv''" by code_simp
  then show ?thesis
    by (simp add: store_sound_def backup_files_def sound_dir_def demo_record_def backup_metadata_def backup_codec_def
        demo_payload_def Let_def)
qed

lemma demo_sidecars: "sidecars_ok (demo_io m) backup_files"
  by (simp add: sidecars_ok_def backup_files_def demo_io_def)


section \<open>The copy\<close>

lemma demo_record_key: "plain_key demo_record" "length demo_record = 5" "hd demo_record = ''arxiv''" "demo_record \<noteq> []"
proof -
  have "source_ok ''arxiv''" by code_simp
  note k = record_key_plain_key [OF this demo_digest_text, of 0 demo_payload, folded demo_record_def]
  from k show "plain_key demo_record" "length demo_record = 5" "hd demo_record = ''arxiv''" by simp_all
  from k(2) show "demo_record \<noteq> []" by auto
qed

lemma demo_store_tree: "store_tree (demo_io m) backup_files = demo_tree"
  by (simp add: store_tree_def backup_files_def demo_tree_def demo_io_def)

lemma demo_tree_plain: "tree_plain demo_tree"
  using sound_store_plain [OF demo_io_ok, of m backup_files for m] demo_store_sound demo_store_tree by (simp add: demo_io_def)

lemma sorted_recovery: "sorted_set recovery_sources = [''arxiv'', ''github'']"
  by code_simp

lemma copied_demo_keys: "all_keys demo_tree [''arxiv'', ''github''] = [demo_record]"
  using demo_record_key by (simp add: all_keys_def record_keys_def demo_tree_def payload_file_def metadata_file_def)

lemma demo_copy:
  "copy_raw (demo_io m) recovery_sources root target_root demo_tree = (Inr demo_raw_summary, demo_tree, demo_raw_bytes)"
proof -
  have k: "\<forall>key\<in>set (dict_keys backup_files). hd key \<in> set recovery_sources"
    using demo_record_key by (simp add: backup_files_def recovery_sources_def)
  have o: "list_all source_ok recovery_sources" by code_simp
  have "store_sound (bi_codec (demo_io m)) backup_files" using demo_store_sound by (simp add: demo_io_def)
  from sound_store_copied [OF demo_io_ok this demo_sidecars k o]
  obtain summary target bytes where c: "copy_raw (demo_io m) recovery_sources root target_root demo_tree = (Inr summary, target, bytes)"
    unfolding demo_store_tree by blast
  obtain es where e: "copy_sources (demo_io m) root target_root demo_tree [''arxiv'', ''github''] [] [] = (es, target, None)"
    using c by (auto simp: copy_raw_def copy_entries_def Let_def sorted_recovery split: prod.splits option.splits if_splits)
  have "target = fold (put_key demo_tree) (all_keys demo_tree [''arxiv'', ''github'']) []"
    using copy_sources_None [OF e demo_tree_plain] by blast
  then have t: "target = demo_tree" unfolding copied_demo_keys by (simp add: put_key_def put_copy_def demo_tree_def)
  note r = copy_raw_Inr [OF c demo_tree_plain, unfolded sorted_recovery copied_demo_keys]
  have "entry_of (demo_io m) demo_tree demo_record = hd demo_raw_entries"
    by (simp add: entry_of_def demo_raw_entries_def demo_tree_def copied_entry_def demo_io_def backup_codec_def backup_metadata_def)
  then have "map (entry_of (demo_io m) demo_tree) [demo_record] = demo_raw_entries" by (simp add: demo_raw_entries_def)
  moreover have "raw_summary_of (demo_io m) es = raw_summary_of (demo_io (Inl TimeoutError)) es"
    "raw_manifest_bytes (demo_io m) es = raw_manifest_bytes (demo_io (Inl TimeoutError)) es" for es
    by (simp_all add: raw_summary_of_def raw_manifest_bytes_def entry_line_def [abs_def] demo_io_def)
  ultimately show ?thesis using c r(1,2) t by (simp add: demo_raw_summary_def demo_raw_bytes_def)
qed


section \<open>A backup of it\<close>

lemma demo_manifest_fields:
  "bm_raw demo_manifest = demo_raw_summary" "bm_sources demo_manifest = demo_sources"
  "dm_dump_filename (bm_database demo_manifest) = ''postgres.dump''" "dm_sha256 (bm_database demo_manifest) = demo_digest ''pgdump''"
  "gm_config_checksum (bm_registry demo_manifest) = fst (tree_checksum backup_codec demo_config)"
  "gm_config_bytes (bm_registry demo_manifest) = snd (tree_checksum backup_codec demo_config)"
  "gm_checksum (bm_registry demo_manifest) = Some (registry_checksum demo_digest [] [] [])"
  "gm_topic_count (bm_registry demo_manifest) = 0"
  by (simp_all add: demo_manifest_def split: prod.splits)

lemma demo_summary_bytes: "rw_total_bytes demo_raw_summary = 4" "rw_file_count demo_raw_summary = 1"
  by (simp_all add: demo_raw_summary_def raw_summary_of_def demo_raw_entries_def copied_entry_def demo_payload_def)

lemma demo_config_bytes: "snd (tree_checksum backup_codec demo_config) = 2"
  by (simp add: tree_checksum_def demo_config_def)

lemma demo_manifest_ok: "backup_manifest_ok demo_manifest"
proof -
  have "backup_id_ok ''19700101T000000Z-abcdef''" "source_ok ''arxiv''" "source_ok ''github''" by code_simp+
  moreover have "digest_text (rw_manifest_sha256 demo_raw_summary)"
    using demo_digest_text by (simp add: demo_raw_summary_def raw_summary_of_def demo_io_def backup_codec_def)
  moreover have "digest_text (fst (tree_checksum backup_codec demo_config))"
    using demo_digest_text by (simp add: tree_checksum_def backup_codec_def)
  ultimately show ?thesis
    using demo_digest_text demo_summary_bytes demo_config_bytes
    by (auto simp: backup_manifest_ok_def demo_manifest_def backup_schema_version_def database_manifest_ok_def
        registry_manifest_ok_def raw_summary_ok_def source_manifest_ok_def demo_sources_def split: prod.splits)
qed

lemma demo_registry_loads:
  "load_registry id demo_digest (registry_snapshot_files good_io root demo_config) =
    Inr \<lparr>lr_categories = [], lr_topics = [], lr_collisions = [], lr_source_files = [path_text (root @ [''a.yaml''])],
      lr_checksum = registry_checksum demo_digest [] [] [], lr_issues = []\<rparr>"
proof -
  have y: "has_suffix ''.yaml'' ''a.yaml''" "\<not> has_suffix ''.yml'' ''a.yaml''" by code_simp+
  have c: "cross_file_issues id [] [] [] = []" by code_simp
  have f: "discover_files (registry_snapshot_files good_io root demo_config) = Inr [root @ [''a.yaml'']]"
    by (simp add: discover_files_def registry_snapshot_files_def demo_config_def y)
  have r: "ft_read (registry_snapshot_files good_io root demo_config) (root @ [''a.yaml'']) = FileParsed \<lparr>rf_categories = [], rf_topics = [], rf_collisions = []\<rparr>"
    by (simp add: registry_snapshot_files_def demo_config_def demo_io_def)
  show ?thesis by (simp add: load_registry_def f file_issues_def file_definitions_def r assemble_def c Let_def)
qed

lemma demo_response_counts:
  "\<forall>(s, m)\<in>set (bm_sources demo_manifest). sm_raw_response_count m = int (length (record_keys demo_tree s))"
  using demo_record_key
  by (simp add: demo_manifest_fields(2) demo_sources_def record_keys_def demo_tree_def payload_file_def metadata_file_def)

text \<open>The report on a directory that holds the parts of the backup.\<close>

lemma demo_report:
  assumes "dict_get T [''manifest.json''] = Some ''manifest''" "dict_get T [''postgres.dump''] = Some ''pgdump''"
    "subtree registry_directory T = demo_config" "dict_get T [''raw-manifest.jsonl.gz''] = Some demo_raw_bytes"
    "subtree [''raw''] T = demo_tree"
  shows "backup_report good_io now directory T = Inr (report_of now True (True, True) True (passed_raw 1) [] [])"
proof -
  have m: "read_manifest good_io ''manifest'' = Inr demo_manifest" using demo_manifest_ok by (simp add: read_manifest_def demo_io_def)
  have "path_of_text ''postgres.dump'' = \<lparr>path_absolute = False, path_parts = [''postgres.dump'']\<rparr>" by code_simp
  then have d: "verify_dump good_io T (bm_database demo_manifest) = Inr (True, True, [])"
    using assms(2) by (simp add: verify_dump_def named_file_def demo_manifest_fields) (simp add: demo_io_def backup_codec_def)
  have io: "bi_nfkc good_io = id" "bi_codec good_io = backup_codec" "cd_sha256 backup_codec = demo_digest"
    by (simp_all add: demo_io_def backup_codec_def)
  have g: "verify_registry good_io directory T demo_manifest = (True, [])"
    unfolding verify_registry_def assms(3) io Let_def demo_registry_loads
    by (simp add: registry_matches_def demo_manifest_fields io split: prod.splits)
  have u: "unsupported_failures demo_manifest = []"
    by (simp add: unsupported_failures_def unsupported_sources_def demo_manifest_fields(2) demo_sources_def recovery_sources_def sorted_set_def)
  have h: "holds_copy T demo_tree demo_raw_bytes" using assms(4,5) by (simp add: holds_copy_def)
  have s: "set recovery_sources \<subseteq> set (dict_keys (bm_sources demo_manifest))"
    by (simp add: demo_manifest_fields(2) demo_sources_def recovery_sources_def)
  let ?st = "fold checked_key [demo_record] new_raw_check"
  have "list_all (\<lambda>(s, m). sm_raw_response_count m = count_of_source (rk_sources ?st) s) (bm_sources demo_manifest)"
    using demo_record_key(3) by (simp add: demo_manifest_fields(2) demo_sources_def checked_key_def new_raw_check_def count_of_source_def)
  from compare_source_none [OF this] have v: "verify_raw good_io directory T demo_manifest = Inr (passed_raw 1)"
    using verify_raw_of_copy [where directory = directory and io = good_io, OF demo_io_ok demo_copy demo_tree_plain s h demo_manifest_fields(1)]
    unfolding sorted_recovery copied_demo_keys by simp
  show ?thesis
    by (simp add: backup_report_def assms(1) m verify_manifest_def d g v u) (simp add: passed_raw_def)
qed

lemma demo_snapshot:
  "take_snapshot good_io client demo_view [] =
    (Inr \<lparr>ds_database = bm_database demo_manifest, ds_sources = demo_sources, ds_projection_count = 0,
       ds_registry = registry_manifest_of (Some demo_registry)\<rparr>, [([''postgres.dump''], ''pgdump'')])"
proof -
  have n: "sorted_set ([] :: string list) = []" by simp
  have "source_manifests demo_view = Inr demo_sources"
    by (simp add: source_manifests_def recovery_adapters_def source_manifest_of_def adapter_tables_def demo_view_def demo_counts_def
        table_count_def count_distinct_def latest_run_of_def demo_sources_def Let_def)
  moreover have "database_manifest_ok (bm_database demo_manifest)" using demo_manifest_ok by (simp add: backup_manifest_ok_def)
  moreover have "bm_database demo_manifest = \<lparr>dm_server_version = ''test-sqlite'', dm_migration_head = ''head'',
      dm_dump_filename = ''postgres.dump'', dm_table_count = 8, dm_size_bytes = 6, dm_sha256 = demo_digest ''pgdump'', dm_counts = demo_counts\<rparr>"
    by (simp add: demo_manifest_def split: prod.splits)
  moreover have "dict_get demo_counts ''topic_source_coverage'' = Some 0" by (simp add: demo_counts_def)
  moreover have "cd_sha256 (bi_codec good_io) = demo_digest" by (simp add: demo_io_def backup_codec_def)
  ultimately show ?thesis by (simp add: take_snapshot_def) (simp add: demo_view_def)
qed

lemma demo_gather: "gather_stage good_io demo_backup_env demo_id directory = (Inr demo_manifest, demo_stage)"
proof -
  let ?registry = "(registry_manifest_of (Some demo_registry))\<lparr>gm_config_checksum := fst (tree_checksum backup_codec demo_config),
      gm_config_bytes := snd (tree_checksum backup_codec demo_config)\<rparr>"
  let ?snapshot = "\<lparr>ds_database = bm_database demo_manifest, ds_sources = demo_sources, ds_projection_count = 0,
       ds_registry = registry_manifest_of (Some demo_registry)\<rparr>"
  have c: "bi_codec good_io = backup_codec" by (simp add: demo_io_def)
  have g: "copy_config good_io (Some demo_config) (registry_manifest_of (Some demo_registry)) [([''postgres.dump''], ''pgdump'')] =
      (Inr ?registry, [([''postgres.dump''], ''pgdump''), ([''registry'', ''topics'', ''a.yaml''], ''{}'')])"
    by (simp add: copy_config_def c below_def registry_directory_def split: prod.splits) (simp add: demo_config_def)
  have r: "stage_raw good_io demo_backup_env directory [([''postgres.dump''], ''pgdump''), ([''registry'', ''topics'', ''a.yaml''], ''{}'')] =
      (Inr demo_raw_summary, demo_stage)"
    using demo_copy [of "Inr demo_manifest" "[''raw'']" "directory @ [''raw'']"]
    by (simp add: stage_raw_def demo_backup_env_def demo_tree_def below_def demo_stage_def)
  have "new_manifest demo_backup_env demo_id ?snapshot ?registry demo_raw_summary = Inr demo_manifest"
  proof -
    have "git_commit_of (1, '''') = None" by (simp add: git_commit_of_def)
    then have m: "\<lparr>bm_schema_version = backup_schema_version, bm_backup_id = demo_id, bm_label = be_label demo_backup_env,
        bm_started_at = be_started demo_backup_env, bm_completed_at = be_completed demo_backup_env,
        bm_application_version = (case be_application_version demo_backup_env of None \<Rightarrow> ''0.1.0'' | Some v \<Rightarrow> v),
        bm_git_commit = git_commit_of (be_git demo_backup_env), bm_database = ds_database ?snapshot, bm_registry = ?registry,
        bm_raw = demo_raw_summary, bm_sources = ds_sources ?snapshot, bm_projection_count = ds_projection_count ?snapshot,
        bm_tool_version = backup_tool_version, bm_verification_state = Unverified,
        bm_total_bytes = dm_size_bytes (ds_database ?snapshot) + rw_total_bytes demo_raw_summary + gm_config_bytes ?registry\<rparr> = demo_manifest"
      by (simp add: demo_manifest_def demo_backup_env_def backup_schema_version_def backup_tool_version_def demo_id_def
          registry_manifest_of_def demo_registry_def split: prod.splits)
    show ?thesis unfolding new_manifest_def m Let_def using demo_manifest_ok by simp
  qed
  then show ?thesis
    using demo_snapshot [of "''16.1''"] g r
    by (simp add: gather_stage_def staged_bind_def staged_result_def demo_backup_env_def)
qed

lemma demo_id_generated: "generate_backup_id 0 ''abcdef'' = demo_id"
  by code_simp

lemma demo_stage_parts:
  assumes "T = demo_stage @ rest" "subtree [''raw''] rest = []" "subtree registry_directory rest = []"
  shows "dict_get T [''postgres.dump''] = Some ''pgdump''" "subtree registry_directory T = demo_config"
    "dict_get T [''raw-manifest.jsonl.gz''] = Some demo_raw_bytes" "subtree [''raw''] T = demo_tree"
proof -
  have a: "subtree p (x @ y) = subtree p x @ subtree p y" for p x y by (simp add: subtree_def)
  show "dict_get T [''postgres.dump''] = Some ''pgdump''" "dict_get T [''raw-manifest.jsonl.gz''] = Some demo_raw_bytes"
    by (simp_all add: assms(1) demo_stage_def)
  have "subtree [''raw''] demo_stage = demo_tree" "subtree registry_directory demo_stage = demo_config"
    by (simp_all add: subtree_def demo_stage_def demo_tree_def demo_config_def registry_directory_def payload_file_def metadata_file_def)
  then show "subtree registry_directory T = demo_config" "subtree [''raw''] T = demo_tree" unfolding assms(1) a assms(2,3) by simp_all
qed

definition demo_pass_report :: "int \<Rightarrow> verification_report" where
  "demo_pass_report now = report_of now True (True, True) True (passed_raw 1) [] []"

lemma demo_pass: "vr_result (demo_pass_report now) = VerifiedPass"
  by (simp add: demo_pass_report_def report_of_def result_of_def)

lemma demo_verify:
  assumes "T = demo_stage @ rest" "dict_get rest [''manifest.json''] = Some ''manifest''" "subtree [''raw''] rest = []"
    "subtree registry_directory rest = []"
  shows "backup_report good_io now directory T = Inr (demo_pass_report now)"
proof -
  have "dict_get T [''manifest.json''] = Some ''manifest''" using assms(1,2) by (simp add: demo_stage_def)
  then show ?thesis
    unfolding demo_pass_report_def by (rule demo_report) (fact demo_stage_parts [OF assms(1,3,4)])+
qed

lemma demo_seal:
  "seal_stage good_io demo_backup_env directory demo_manifest demo_stage =
    (Inr (demo_manifest\<lparr>bm_verification_state := VerifiedPass\<rparr>, demo_pass_report 3000000), demo_published)"
proof -
  have w: "write_manifest good_io m demo_stage = demo_stage @ [([''manifest.json''], ''manifest'')]"
    "write_manifest good_io m (demo_stage @ [([''manifest.json''], ''manifest''), ([''verification.json''], ''checked'')]) =
      demo_stage @ [([''manifest.json''], ''manifest''), ([''verification.json''], ''checked'')]"
    "dict_set [''verification.json''] ''checked'' (demo_stage @ [([''manifest.json''], ''manifest'')]) =
      demo_stage @ [([''manifest.json''], ''manifest''), ([''verification.json''], ''checked'')]"
    "dict_set [''verification.json''] ''checked'' (demo_stage @ [([''manifest.json''], ''manifest''), ([''verification.json''], ''checked'')]) =
      demo_stage @ [([''manifest.json''], ''manifest''), ([''verification.json''], ''checked'')]" for m
    by (simp_all add: write_manifest_def demo_stage_def demo_io_def)
  have e: "backup_report good_io now directory (demo_stage @ [([''manifest.json''], ''manifest'')]) = Inr (demo_pass_report now)"
    "backup_report good_io now directory (demo_stage @ [([''manifest.json''], ''manifest''), ([''verification.json''], ''checked'')]) =
      Inr (demo_pass_report now)" for now
    by (rule demo_verify [OF refl]; simp add: subtree_def registry_directory_def)+
  have n: "demo_stage \<noteq> []" by (simp add: demo_stage_def)
  have t: "bi_report_text good_io r = ''checked''" for r by (simp add: demo_io_def)
  have v: "be_verified demo_backup_env = (2000000, 3000000)" by (simp add: demo_backup_env_def)
  show ?thesis
    unfolding seal_stage_def verified_stage_def verify_backup_def w e v fst_conv snd_conv
    by (simp add: staged_bind_def staged_result_def n t w e demo_pass demo_published_def)
qed

definition demo_created :: created_backup where
  "demo_created = \<lparr>cr_backup_id = demo_id, cr_path = [''backups'', demo_id],
     cr_manifest = demo_manifest\<lparr>bm_verification_state := VerifiedPass\<rparr>, cr_report = demo_pass_report 3000000\<rparr>"

lemma demo_create: "create_backup good_io demo_backup_env [] = (Inr demo_created, below [demo_id] demo_published)"
proof -
  have p: "validate_backup_root [''backups''] [''raw''] = Inr ()" by (simp add: validate_backup_root_def)
  have d: "disk_preflight 100000000 demo_tree = Inr ()"
    by (simp add: disk_preflight_def tree_bytes_def demo_tree_def demo_payload_def)
  have h: "\<not> has_path [] q" for q by (simp add: has_path_def has_directory_def)
  have f: "fill_stage good_io demo_backup_env demo_id directory =
      (Inr (demo_manifest\<lparr>bm_verification_state := VerifiedPass\<rparr>, demo_pass_report 3000000), demo_published)" for directory
    unfolding fill_stage_def demo_gather by (simp add: staged_bind_def demo_seal)
  have m: "dict_merge [] (below [demo_id] demo_published) = below [demo_id] demo_published"
    by (simp add: below_def demo_published_def demo_stage_def)
  have g: "generate_backup_id (be_started demo_backup_env) (be_hex demo_backup_env) = demo_id"
    unfolding demo_id_generated [symmetric] by (simp add: demo_backup_env_def)
  have e: "be_root demo_backup_env = [''backups'']" "be_raw_root demo_backup_env = [''raw'']"
    "be_available_bytes demo_backup_env = 100000000" "be_raw demo_backup_env = demo_tree"
    by (simp_all add: demo_backup_env_def)
  show ?thesis
    unfolding create_backup_def Let_def g e p d f by (simp add: h m demo_created_def)
qed


section \<open>The restore of it\<close>

lemma demo_backup_directory: "subtree [demo_id] (below [demo_id] demo_published) = demo_published"
  by (rule subtree_below) (auto simp: demo_published_def demo_stage_def)

lemma demo_published_report: "backup_report good_io now directory demo_published = Inr (demo_pass_report now)"
  unfolding demo_published_def by (rule demo_verify [OF refl]) (simp_all add: subtree_def registry_directory_def)

lemma demo_published_raw: "subtree [''raw''] demo_published = demo_tree"
  unfolding demo_published_def by (rule demo_stage_parts [OF refl]) (simp_all add: subtree_def registry_directory_def)

lemma demo_not_refused: "target_refusal demo_restore_env = None"
proof -
  have "starts_with ''postgresql'' ''postgresql+psycopg''" by code_simp
  then show ?thesis by (simp add: target_refusal_def demo_restore_env_def Let_def)
qed

lemma demo_preflight: "restore_preflight good_io demo_restore_env demo_published = Inr demo_manifest"
proof -
  have n: "demo_id \<noteq> []" "CHR ''/'' \<notin> set demo_id" "CHR 0x5C \<notin> set demo_id" by (simp_all add: demo_id_def)
  have "dict_get (below [demo_id] demo_published) [demo_id, ''manifest.json''] = Some ''manifest''"
    using below_get [of "[demo_id]" demo_published "[''manifest.json'']"] by (simp add: demo_published_def demo_stage_def)
  moreover have "read_manifest good_io ''manifest'' = Inr demo_manifest" using demo_manifest_ok by (simp add: read_manifest_def demo_io_def)
  ultimately have "catalog_show good_io (below [demo_id] demo_published) demo_id = Inr (Some demo_manifest)"
    using n by (simp add: catalog_show_def catalog_manifest_def)
  moreover have "last (rs_backup demo_restore_env) = demo_id" by (simp add: demo_restore_env_def)
  ultimately show ?thesis
    by (simp add: restore_preflight_def verify_backup_def demo_published_report demo_not_refused demo_pass Let_def)
qed

lemma demo_pointer_ok: "pointer_ok backup_codec backup_files ''arxiv'' (join ''/'' demo_record) (demo_digest demo_payload)"
proof -
  have h: "CHR ''/'' \<notin> set (demo_digest demo_payload)"
    using demo_digest_text [of demo_payload] hex_chars by (auto simp: digest_text_def list_all_iff)
  have l: "raw_load backup_files demo_record = Inr \<lparr>rr_directory = demo_record, rr_metadata = backup_metadata\<rparr>"
    by (simp add: raw_load_def backup_files_def)
  have r: "raw_read backup_codec backup_files \<lparr>rr_directory = demo_record, rr_metadata = backup_metadata\<rparr> = Inr demo_payload"
    by (simp add: raw_read_def backup_files_def backup_codec_def backup_metadata_def) (simp add: demo_payload_def)
  have c: "cd_sha256 backup_codec demo_payload = demo_digest demo_payload" by (simp add: backup_codec_def)
  show ?thesis unfolding pointer_ok_def using h l r c unfolding demo_record_def by blast
qed

lemma demo_pointer_checked: "check_pointer (demo_io m) root demo_tree demo_pointer = Inr None"
proof -
  have "source_ok ''arxiv''" by code_simp
  then show ?thesis
    using pointer_ok_checks [of "demo_io m" backup_files demo_pointer root] demo_sidecars demo_pointer_ok
    by (simp add: demo_store_tree demo_pointer_def) (simp add: demo_io_def)
qed

lemma demo_restored:
  "\<exists>report. verify_restored good_io demo_restore_env demo_manifest demo_tree = Inr report \<and> rt_passed report"
proof -
  let ?rows = "[(''arxiv'', [demo_pointer]), (''github'', [])]"
  have s: "select_pointers (\<lambda>ps n. ps) ?rows None 100 True = ([demo_pointer], 1)"
    by (simp add: select_pointers_def recovery_sources_def dict_get_list_def)
  obtain integrity where i: "verify_integrity good_io (\<lambda>ps n. ps) [''restored''] demo_tree ?rows 100 None True = Inr integrity"
    "ir_state integrity = IntegrityPass"
    by (simp add: verify_integrity_def s demo_pointer_checked Let_def)
  have l: "lineage_samples good_io [''restored''] demo_tree [] [''arxiv'', ''github''] = Inr [(''arxiv'', []), (''github'', [])]"
    by (simp add: lineage_samples_def recovery_adapters_def sample_lineage_def dict_get_list_def)
  have m: "dm_counts (bm_database demo_manifest) = demo_counts" "dm_migration_head (bm_database demo_manifest) = ''head''"
    "gm_version (bm_registry demo_manifest) = Some 1"
    by (simp_all add: demo_manifest_def split: prod.splits)
  show ?thesis
    by (simp add: verify_restored_def demo_restore_env_def i l restored_state_valid_def m demo_manifest_fields demo_sources_def
        restored_registry_valid_def demo_registry_def same_dict_def list_all_iff)
qed

lemma demo_restore:
  "\<exists>report disk. restore_backup good_io demo_restore_env demo_published = (Inr report, disk) \<and> rd_target disk = Some demo_tree \<and>
     rd_report disk = Some report \<and> rt_passed report"
proof -
  obtain report where r: "verify_restored good_io demo_restore_env demo_manifest demo_tree = Inr report" "rt_passed report"
    using demo_restored by blast
  have v: "verify_restored_tree demo_tree demo_tree = Inr ()" by (simp add: verify_restored_tree_def find_None_iff split: option.splits)
  have e: "rs_copytree demo_restore_env = Inr" "rs_pg_restore demo_restore_env dump = Inr ()" for dump
    by (simp_all add: demo_restore_env_def)
  show ?thesis by (simp add: restore_backup_def demo_preflight demo_published_raw e v r Let_def)
qed


section \<open>Its verification\<close>

lemma demo_published_copy: "holds_copy demo_published demo_tree demo_raw_bytes"
  using demo_published_raw by (simp add: holds_copy_def) (simp add: demo_published_def demo_stage_def)

lemma demo_verified_raw: "verify_raw good_io [] demo_published demo_manifest = Inr (passed_raw 1)"
proof -
  have s: "set recovery_sources \<subseteq> set (dict_keys (bm_sources demo_manifest))"
    by (simp add: demo_manifest_fields(2) demo_sources_def recovery_sources_def)
  let ?st = "fold checked_key [demo_record] new_raw_check"
  have "list_all (\<lambda>(s, m). sm_raw_response_count m = count_of_source (rk_sources ?st) s) (bm_sources demo_manifest)"
    using demo_record_key(3) by (simp add: demo_manifest_fields(2) demo_sources_def checked_key_def new_raw_check_def count_of_source_def)
  from compare_source_none [OF this] show ?thesis
    using verify_raw_of_copy [where directory = "[]" and io = good_io, OF demo_io_ok demo_copy demo_tree_plain s demo_published_copy
        demo_manifest_fields(1)]
    unfolding sorted_recovery copied_demo_keys by simp
qed

lemma demo_no_collision: "no_collision (bi_codec good_io) (insert demo_raw_bytes (snd ` set demo_tree)) (snd ` set demo_published)"
proof -
  have b: "\<exists>rest. demo_raw_bytes = CHR ''z'' # CHR ''n'' # rest"
    by (simp add: demo_raw_bytes_def raw_manifest_bytes_def demo_raw_entries_def entry_line_def demo_io_def backup_codec_def demo_entry_text_def)
  then obtain rest where b: "demo_raw_bytes = CHR ''z'' # CHR ''n'' # rest" by blast
  have c: "cd_sha256 (bi_codec good_io) = demo_digest" by (simp add: demo_io_def backup_codec_def)
  show ?thesis
    by (simp add: no_collision_def c b demo_tree_def demo_published_def demo_stage_def demo_payload_def demo_digest_def demo_hex_def)
qed

end
