(* ===== verification/Backup_Claims.thy ===== *)
theory Backup_Claims
  imports Backup_Demo
begin

text \<open>
  What backup and restore promise, over all their parts: the copy passes its verification, what passes is the
  copy, a published backup holds the Raw evidence, and a restore gives it back.
\<close>


section \<open>The Raw copy\<close>

lemma fold_compare_exact:
  assumes "\<forall>(s, m)\<in>set named. sm_raw_response_count m = count_of_source counts s"
  shows "fold (compare_source counts) named v = v"
  using assms by (intro compare_source_none) (simp add: list_all_iff)

lemma copied_count:
  "count_of_source (rk_sources (fold checked_key (all_keys tree (sorted_set sources)) new_raw_check)) s =
    (if s \<in> set sources then int (length (record_keys tree s)) else 0)"
  unfolding checked_fold(7) all_keys_count [OF distinct_sorted_set] set_sorted_set
  by (simp add: new_raw_check_def) (simp add: count_of_source_def)

lemma verified_copy:
  assumes "backup_io_ok io" "tree_plain tree"
    "copy_raw io sources root target_root tree = (Inr summary, target, bytes)"
    "holds_copy backup target bytes" "bm_raw manifest = summary"
    "set (dict_keys (bm_sources manifest)) = set sources"
    "\<forall>(s, m)\<in>set (bm_sources manifest). sm_raw_response_count m = int (length (record_keys tree s))"
  shows "verify_raw io directory backup manifest = Inr (passed_raw (length (all_keys tree (sorted_set sources))))"
proof -
  let ?st = "fold checked_key (all_keys tree (sorted_set sources)) new_raw_check"
  have "sm_raw_response_count m = count_of_source (rk_sources ?st) s" if "(s, m) \<in> set (bm_sources manifest)" for s m
  proof -
    have "s \<in> set sources" using that assms(6) by force
    then show ?thesis using that assms(7) by (auto simp: copied_count)
  qed
  then have "fold (compare_source (rk_sources ?st)) (bm_sources manifest) v = v" for v
    by (intro fold_compare_exact) blast
  then show ?thesis
    using verify_raw_of_copy [OF assms(1,3,2) _ assms(4,5), of directory] assms(6) by simp
qed

text \<open>Where the database of the snapshot has fewer rows than the Raw tree, the copy still passes.\<close>

lemma verified_copy_at_least:
  assumes "backup_io_ok io" "tree_plain tree"
    "copy_raw io sources root target_root tree = (Inr summary, target, bytes)"
    "holds_copy backup target bytes" "bm_raw manifest = summary"
    "set (dict_keys (bm_sources manifest)) = set sources"
    "\<forall>(s, m)\<in>set (bm_sources manifest). sm_raw_response_count m \<le> int (length (record_keys tree s))"
  shows "\<exists>v. verify_raw io directory backup manifest = Inr v \<and> rv_failures v = [] \<and> rv_checked v = rw_file_count summary"
proof -
  let ?keys = "all_keys tree (sorted_set sources)"
  let ?st = "fold checked_key ?keys new_raw_check"
  have "sm_raw_response_count m \<le> count_of_source (rk_sources ?st) s" if "(s, m) \<in> set (bm_sources manifest)" for s m
  proof -
    have "s \<in> set sources" using that assms(6) by force
    then show ?thesis using that assms(7) by (auto simp: copied_count)
  qed
  then have "list_all (\<lambda>(s, m). sm_raw_response_count m \<le> count_of_source (rk_sources ?st) s) (bm_sources manifest)"
    by (auto simp: list_all_iff)
  from compare_source_failures [OF this, of "passed_raw (length ?keys)"]
  show ?thesis
    using verify_raw_of_copy [OF assms(1,3,2) _ assms(4,5), of directory] assms(6) copy_raw_Inr(1) [OF assms(3,2)]
    by (simp add: compare_source_keeps passed_raw_def raw_summary_of_def)
qed

text \<open>
  C34: A Raw copy that the copier finished (copy_raw) passes the verifier (verify_raw): in a backup that holds
  the copy and its manifest, whose manifest names the copied sources and counts no more database rows than
  the Raw tree has records, the verification reports no failure and checks every copied record; where the counts
  agree, its verdict has no missing, damaged or extra records and no warnings at all.
\<close>

theorem copied_raw_verifies:
  assumes "backup_io_ok io" "tree_plain tree"
    "copy_raw io sources root target_root tree = (Inr summary, target, bytes)"
    "holds_copy backup target bytes" "bm_raw manifest = summary"
    "set (dict_keys (bm_sources manifest)) = set sources"
    "\<forall>(s, m)\<in>set (bm_sources manifest). sm_raw_response_count m \<le> int (length (record_keys tree s))"
  shows "(\<exists>v. verify_raw io directory backup manifest = Inr v \<and> rv_failures v = [] \<and> rv_checked v = rw_file_count summary) \<and>
    ((\<forall>(s, m)\<in>set (bm_sources manifest). sm_raw_response_count m = int (length (record_keys tree s))) \<longrightarrow>
      verify_raw io directory backup manifest = Inr (passed_raw (length (all_keys tree (sorted_set sources)))))"
  using verified_copy [OF assms(1-6)] verified_copy_at_least [OF assms] by blast

theorem copied_raw_verifies_witness: "verify_raw good_io [] demo_published demo_manifest = Inr (passed_raw 1)"
proof -
  have c: "\<forall>(s, m)\<in>set (bm_sources demo_manifest). sm_raw_response_count m \<le> int (length (record_keys demo_tree s))"
    using demo_response_counts by auto
  have "set (dict_keys (bm_sources demo_manifest)) = set recovery_sources"
    by (simp add: demo_manifest_fields(2) demo_sources_def recovery_sources_def)
  from copied_raw_verifies [where directory = "[]" and io = good_io, OF demo_io_ok demo_tree_plain demo_copy demo_published_copy
      demo_manifest_fields(1) this c] demo_response_counts
  show ?thesis by (simp add: sorted_recovery copied_demo_keys)
qed

text \<open>
  C33: What passes is the copy: when the verifier reports no failures on a backup with the manifest of a copy, then
  every file that was copied is in the backup, byte for byte as in the copy and as in the source, provided
  that no two different contents among the copied and the verified files have the same SHA-256 digest.
\<close>

theorem verified_raw_is_the_copy:
  assumes "backup_io_ok io" "tree_plain tree"
    "copy_raw io sources root target_root tree = (Inr summary, target, bytes)" "bm_raw manifest = summary"
    "verify_raw io directory backup manifest = Inr v" "rv_failures v = []"
    "no_collision (bi_codec io) (insert bytes (snd ` set tree)) (snd ` set backup)"
    "dict_get target k = Some content"
  shows "dict_get tree k = Some content \<and> dict_get backup (''raw'' # k) = Some content"
proof -
  let ?keys = "all_keys tree (sorted_set sources)" and ?raw = "subtree [''raw''] backup"
  note c = copy_raw_Inr [OF assms(3,2)]
  have s: "rw_manifest_filename (bm_raw manifest) = ''raw-manifest.jsonl.gz''"
    "rw_manifest_sha256 (bm_raw manifest) = cd_sha256 (bi_codec io) bytes"
    using assms(4) c(1,2) by (simp_all add: raw_summary_of_def)
  obtain found lines ending st where f: "dict_get backup [''raw-manifest.jsonl.gz''] = Some found"
    "cd_sha256 (bi_codec io) found = cd_sha256 (bi_codec io) bytes" "bi_lines io found = (lines, ending)"
    "check_lines io (directory @ [''raw'']) ?raw (dict_keys (bm_sources manifest)) ending 1 lines new_raw_check = Inr st"
    "rk_failures st = []"
    using verify_raw_passed [OF assms(5,6) s(1)] unfolding s(2) by blast
  have in_backup: "x \<in> snd ` set backup" if "dict_get backup j = Some x" for j x
    using map_of_SomeD [OF that] by force
  have "found = bytes" using assms(7) f(2) in_backup [OF f(1)] unfolding no_collision_def by (metis insertI1)
  then have l: "lines = map (entry_line io) (map (entry_of io tree) ?keys)"
    using f(3) assms(1) c(2) unfolding backup_io_ok_def raw_manifest_bytes_def by (metis fst_conv)
  have k: "k \<in> record_files ?keys" "dict_get tree k = Some content"
    using assms(8) c(4) [of k] by (auto split: if_splits)
  then obtain key where key: "key \<in> set ?keys" "k = payload_file key \<or> k = metadata_file key"
    unfolding record_files_def by blast
  have v: "\<forall>key\<in>set ?keys. plain_key key \<and> key \<noteq> [] \<and> validated_entry (entry_of io tree key) = Some (entry_of io tree key)"
  proof
    fix key assume "key \<in> set ?keys"
    moreover from all_keys_mem [OF this] assms(2) have "plain_key key" "length key = 5" by blast+
    moreover from this have "key \<noteq> []" by auto
    ultimately show "plain_key key \<and> key \<noteq> [] \<and> validated_entry (entry_of io tree key) = Some (entry_of io tree key)"
      using c(3) unfolding copied_keys_def by blast
  qed
  obtain st1 st2 where "check_files io ?raw (entry_of io tree key) key st1 = Inr st2" "rk_failures st2 = []"
    using check_lines_passed [OF assms(1) f(4) [unfolded l] f(5) v key(1)] by blast
  from check_files_passed [OF this] obtain payload sidecar where p:
    "dict_get ?raw (payload_file key) = Some payload" "dict_get ?raw (metadata_file key) = Some sidecar"
    "cd_sha256 (bi_codec io) payload = cd_sha256 (bi_codec io) (the (dict_get tree (payload_file key)))"
    "cd_sha256 (bi_codec io) sidecar = cd_sha256 (bi_codec io) (the (dict_get tree (metadata_file key)))"
    unfolding entry_of_fields by blast
  have ne: "payload_file key \<noteq> []" "metadata_file key \<noteq> []" by (simp_all add: payload_file_def metadata_file_def)
  have raw: "dict_get backup (''raw'' # payload_file key) = Some payload" "dict_get backup (''raw'' # metadata_file key) = Some sidecar"
    using p(1,2) subtree_get [OF ne(1), of "[''raw'']" backup] subtree_get [OF ne(2), of "[''raw'']" backup] by simp_all
  have c_in: "content \<in> insert bytes (snd ` set tree)" using map_of_SomeD [OF k(2)] by force
  have "dict_get backup (''raw'' # k) = Some content"
    using key(2)
  proof
    assume e: "k = payload_file key"
    then have "cd_sha256 (bi_codec io) content = cd_sha256 (bi_codec io) payload" using p(3) k(2) by simp
    then have "content = payload" using assms(7) c_in in_backup [OF raw(1)] unfolding no_collision_def by blast
    then show ?thesis using raw(1) e by simp
  next
    assume e: "k = metadata_file key"
    then have "cd_sha256 (bi_codec io) content = cd_sha256 (bi_codec io) sidecar" using p(4) k(2) by simp
    then have "content = sidecar" using assms(7) c_in in_backup [OF raw(2)] unfolding no_collision_def by blast
    then show ?thesis using raw(2) e by simp
  qed
  then show ?thesis using k(2) by simp
qed

theorem verified_raw_is_the_copy_witness:
  "dict_get demo_tree (metadata_file demo_record) = Some ''m0'' \<and> dict_get demo_published (''raw'' # metadata_file demo_record) = Some ''m0''"
  by (rule verified_raw_is_the_copy [where io = good_io, OF demo_io_ok demo_tree_plain demo_copy demo_manifest_fields(1) demo_verified_raw])
    (simp_all add: passed_raw_def demo_no_collision, simp add: demo_tree_def)




section \<open>Published backups\<close>

text \<open>Where the records of the source are in the root after a backup was published.\<close>

lemma published_record:
  assumes "create_backup io env root = (Inr r, root')" "tree_plain (be_raw env)"
    "key \<in> set (all_keys (be_raw env) (sorted_set recovery_sources))" "k \<in> {payload_file key, metadata_file key}"
  shows "dict_get root' (cr_backup_id r # ''raw'' # k) = dict_get (be_raw env) k \<and> dict_get (be_raw env) k \<noteq> None \<and>
    intact io (be_raw env) key"
proof -
  let ?id = "cr_backup_id r"
  obtain gathered stage m0 where g: "gather_stage io env ?id (be_root env @ [''.tmp'', ?id]) = (Inr m0, gathered)"
    "seal_stage io env (be_root env @ [''.tmp'', ?id]) m0 gathered = (Inr (cr_manifest r, cr_report r), stage)"
    "root' = dict_merge root (below [?id] stage)"
    using create_backup_Inr [OF assms(1)] by metis
  obtain raw target bytes base where c: "copy_raw io recovery_sources (be_raw_root env) ((be_root env @ [''.tmp'', ?id]) @ [''raw'']) (be_raw env)
      = (Inr raw, target, bytes)" "distinct (dict_keys base)"
    "gathered = dict_set [''raw-manifest.jsonl.gz''] bytes (dict_merge base (below [''raw''] target))"
    by (rule gather_stage_Inr [OF g(1)]) (rule that)
  note cr = copy_raw_Inr [OF c(1) assms(2)]
  have i: "intact io (be_raw env) key" using cr(3) assms(3) unfolding copied_keys_def by blast
  then obtain content where content: "dict_get (be_raw env) k = Some content" using assms(4) by (auto simp: intact_def)
  have "k \<in> record_files (all_keys (be_raw env) (sorted_set recovery_sources))"
    using assms(3,4) unfolding record_files_def by blast
  then have t: "dict_get target k = Some content" using cr(4) content by simp
  have ne: "k \<noteq> []" using assms(4) by (auto simp: payload_file_def metadata_file_def)
  have dg: "distinct (dict_keys gathered)" by (simp add: c(2,3) distinct_update distinct_dict_merge)
  obtain tested :: byte_tree and r1 :: verification_report where s: "distinct (dict_keys stage)"
    "\<And>k. k \<noteq> [''manifest.json''] \<Longrightarrow> k \<noteq> [''verification.json''] \<Longrightarrow> dict_get stage k = dict_get gathered k"
    by (rule seal_stage_Inr [OF g(2)]) (use dg that in blast)
  have "dict_get (below [''raw''] target) (''raw'' # k) = Some content" using below_get [of "[''raw'']" target k] t by simp
  then have "dict_get gathered (''raw'' # k) = Some content"
    using dict_get_merge_distinct [of "below [''raw''] target" base "''raw'' # k"] cr(7) ne by (simp add: c(3))
  then have "dict_get stage (''raw'' # k) = Some content" using s(2) by simp
  then have "dict_get (below [?id] stage) (?id # ''raw'' # k) = Some content" using below_get [of "[?id]" stage "''raw'' # k"] by simp
  then have "dict_get root' (?id # ''raw'' # k) = Some content"
    using dict_get_merge_distinct [of "below [?id] stage" root "?id # ''raw'' # k"] s(1) by (simp add: g(3))
  then show ?thesis using content i by simp
qed

text \<open>
  A published backup holds the Raw evidence: when BackupService.create returns, then for every sidecar of a
  registered source in the Raw tree the published directory has the payload and the sidecar with exactly the
  bytes of the source, and the record had passed the check of its digest and length.
\<close>

theorem published_backup_holds_raw:
  assumes "create_backup io env root = (Inr r, root')" "tree_plain (be_raw env)"
    "dict_get (be_raw env) (metadata_file key) = Some sidecar" "length key = 5" "hd key \<in> set recovery_sources"
  shows "intact io (be_raw env) key \<and>
    dict_get root' (cr_backup_id r # ''raw'' # metadata_file key) = Some sidecar \<and>
    dict_get root' (cr_backup_id r # ''raw'' # payload_file key) = dict_get (be_raw env) (payload_file key)"
proof -
  have "key \<in> set (record_keys (be_raw env) (hd key))"
    using assms(3) key_in_tree [of "metadata_file key" "be_raw env"] by (intro record_keys_of [OF _ assms(4) refl]) simp
  then have key: "key \<in> set (all_keys (be_raw env) (sorted_set recovery_sources))" using assms(5) by (auto simp: all_keys_def)
  show ?thesis
    using published_record [OF assms(1,2) key, of "metadata_file key"] published_record [OF assms(1,2) key, of "payload_file key"]
      assms(3) by simp
qed

theorem published_backup_holds_raw_witness:
  "dict_get (below [demo_id] demo_published) (demo_id # ''raw'' # metadata_file demo_record) = Some ''m0''"
proof -
  have e: "be_raw demo_backup_env = demo_tree" by (simp add: demo_backup_env_def)
  have "dict_get demo_tree (metadata_file demo_record) = Some ''m0''" by (simp add: demo_tree_def)
  from published_backup_holds_raw [OF demo_create, unfolded e, OF demo_tree_plain this demo_record_key(2)]
  show ?thesis using demo_record_key(3) by (simp add: recovery_sources_def demo_created_def)
qed

text \<open>
  C37: Creating a backup touches only its own directories: whatever the outcome, every file of the root outside
  of the stage of this backup keeps its content, apart from the published directory of a backup that succeeds, and
  that directory did not exist before; so no earlier backup is ever changed, and a failure publishes nothing.
\<close>

theorem create_touches_only_its_own:
  assumes "create_backup io env root = (r, root')" "take 2 k \<noteq> [''.tmp'', generate_backup_id (be_started env) (be_hex env)]"
  shows "(if is_ok r then \<not> has_path root [generate_backup_id (be_started env) (be_hex env)] \<and>
       (take 1 k \<noteq> [generate_backup_id (be_started env) (be_hex env)] \<longrightarrow> dict_get root' k = dict_get root k)
     else dict_get root' k = dict_get root k)"
proof -
  let ?id = "generate_backup_id (be_started env) (be_hex env)"
  have other: "dict_get (dict_merge root (below p stage)) k = dict_get root k" if "take (length p) k \<noteq> p" for p stage
  proof -
    have "k \<notin> set (dict_keys (below p stage))" using that by (auto simp: below_keys)
    then have "dict_get (rev (below p stage)) k = None" by (simp add: map_of_eq_None_iff)
    then show ?thesis by (simp add: dict_get_merge)
  qed
  consider "root' = root" "\<not> is_ok r" | stage where "root' = dict_merge root (below [''.tmp'', ?id] stage)" "\<not> is_ok r"
    | stage where "root' = dict_merge root (below [?id] stage)" "is_ok r" "\<not> has_path root [?id]"
    using assms(1) by (auto simp: create_backup_def Let_def split: sum.splits prod.splits if_splits)
  then show ?thesis
    by cases (use other [of "[''.tmp'', ?id]"] other [of "[?id]"] assms(2) in \<open>simp_all add: numeral_2_eq_2\<close>)
qed

theorem create_touches_only_its_own_witness: "dict_get (below [demo_id] demo_published) [''20260101T000000Z-000000'', ''manifest.json''] = None"
proof -
  have g: "generate_backup_id (be_started demo_backup_env) (be_hex demo_backup_env) = demo_id"
    unfolding demo_id_generated [symmetric] by (simp add: demo_backup_env_def)
  have n: "demo_id \<noteq> ''20260101T000000Z-000000''" by (simp add: demo_id_def)
  show ?thesis
    using create_touches_only_its_own [OF demo_create, of "[''20260101T000000Z-000000'', ''manifest.json'']"] n
    unfolding g by simp
qed

text \<open>What is not in the identity of a backup.\<close>

lemma backup_id_chars:
  assumes "backup_id_ok s" "c \<in> set s"
  shows "c \<noteq> CHR ''/'' \<and> c \<noteq> CHR 0x5C"
proof -
  have l: "length s = 23" using assms(1) by (simp add: backup_id_ok_def)
  have d: "digit_of CHR ''/'' = None" "digit_of CHR 0x5C = None" by (simp_all add: digit_of_def)
  obtain i where i: "i < 23" "c = s ! i" using assms(2) l by (metis in_set_conv_nth)
  consider "i < 8" | "i = 8" | "9 \<le> i" "i < 15" | "i = 15" | "i = 16" | "17 \<le> i" by linarith
  then show ?thesis
  proof cases
    case 1
    then have "c \<in> set (take 8 s)" using i l by (auto simp: in_set_conv_nth)
    then have "digit_of c \<noteq> None" using assms(1) unfolding backup_id_ok_def list_all_iff set_append by blast
    then show ?thesis using d by metis
  next
    case 3
    then have "c = take 6 (drop 9 s) ! (i - 9)" "i - 9 < length (take 6 (drop 9 s))" using i l by simp_all
    then have "c \<in> set (take 6 (drop 9 s))" by (metis nth_mem)
    then have "digit_of c \<noteq> None" using assms(1) unfolding backup_id_ok_def list_all_iff set_append by blast
    then show ?thesis using d by metis
  next
    case 6
    then have "c = drop 17 s ! (i - 17)" "i - 17 < length (drop 17 s)" using i l by simp_all
    then have "c \<in> set (drop 17 s)" by (metis nth_mem)
    then have "hex_char c" using assms(1) unfolding backup_id_ok_def list_all_iff by blast
    then show ?thesis by (rule hex_chars)
  qed (use assms(1) i in \<open>auto simp: backup_id_ok_def\<close>)
qed

lemma published_manifest:
  assumes "create_backup io env root = (Inr r, root')"
  shows "dict_get root' [cr_backup_id r, ''manifest.json''] = Some (bi_manifest_text io (cr_manifest r))"
    "backup_manifest_ok (cr_manifest r)" "bm_backup_id (cr_manifest r) = cr_backup_id r" "backup_verified (cr_manifest r)"
    "vr_result (cr_report r) \<noteq> VerifiedFail"
    "bm_total_bytes (cr_manifest r) = dm_size_bytes (bm_database (cr_manifest r)) + rw_total_bytes (bm_raw (cr_manifest r)) +
       gm_config_bytes (bm_registry (cr_manifest r))"
proof -
  let ?id = "cr_backup_id r"
  obtain gathered stage m0 where g: "gather_stage io env ?id (be_root env @ [''.tmp'', ?id]) = (Inr m0, gathered)"
    "seal_stage io env (be_root env @ [''.tmp'', ?id]) m0 gathered = (Inr (cr_manifest r, cr_report r), stage)"
    "root' = dict_merge root (below [?id] stage)"
    using create_backup_Inr [OF assms] by metis
  obtain snapshot registry raw bytes and base :: byte_tree and target :: byte_tree where
    n: "new_manifest env ?id snapshot registry raw = Inr m0" "distinct (dict_keys base)"
    "gathered = dict_set [''raw-manifest.jsonl.gz''] bytes (dict_merge base (below [''raw''] target))"
    by (rule gather_stage_Inr [OF g(1)]) (rule that)
  have dg: "distinct (dict_keys gathered)" by (simp add: n(2,3) distinct_update distinct_dict_merge)
  obtain r1 :: verification_report and tested :: byte_tree where s: "cr_manifest r = m0\<lparr>bm_verification_state := vr_result r1\<rparr>"
    "vr_result r1 \<in> {VerifiedPass, VerifiedWarning}" "backup_report io (snd (be_verified env)) (be_root env @ [''.tmp'', ?id]) tested = Inr (cr_report r)"
    "vr_result (cr_report r) \<noteq> VerifiedFail" "dict_get stage [''manifest.json''] = Some (bi_manifest_text io (cr_manifest r))"
    "distinct (dict_keys stage)"
    by (rule seal_stage_Inr [OF g(2)]) (use dg that in blast)
  show "dict_get root' [?id, ''manifest.json''] = Some (bi_manifest_text io (cr_manifest r))"
    using dict_get_merge_distinct [of "below [?id] stage" root "[?id, ''manifest.json'']"] s(5,6)
      below_get [of "[?id]" stage "[''manifest.json'']"] by (simp add: g(3))
  have m0: "backup_manifest_ok m0" "bm_backup_id m0 = ?id"
    "bm_total_bytes m0 = dm_size_bytes (bm_database m0) + rw_total_bytes (bm_raw m0) + gm_config_bytes (bm_registry m0)"
    using n(1) by (auto simp: new_manifest_def Let_def split: if_splits)
  show "backup_manifest_ok (cr_manifest r)" using m0(1) unfolding s(1) by (simp add: backup_manifest_ok_def)
  show "bm_backup_id (cr_manifest r) = cr_backup_id r" using m0(2) s(1) by simp
  show "bm_total_bytes (cr_manifest r) = dm_size_bytes (bm_database (cr_manifest r)) + rw_total_bytes (bm_raw (cr_manifest r)) +
       gm_config_bytes (bm_registry (cr_manifest r))" using m0(3) s(1) by simp
  show "backup_verified (cr_manifest r)" using s(2) by (simp add: s(1) backup_verified_def)
  show "vr_result (cr_report r) \<noteq> VerifiedFail" by (rule s(4))
qed

text \<open>
  A backup that create returned can be found and is verified: its directory has a manifest that the catalog
  shows, with this identity, the state pass or warning and the sum of the sizes of its parts, and the report of
  the last verification is no failure; provided that the JSON text of the manifest is read back.
\<close>

theorem published_backup_is_listed:
  assumes "create_backup io env root = (Inr r, root')" "bi_manifest io (bi_manifest_text io (cr_manifest r)) = Inr (cr_manifest r)"
  shows "catalog_show io root' (cr_backup_id r) = Inr (Some (cr_manifest r)) \<and> bm_backup_id (cr_manifest r) = cr_backup_id r \<and>
    backup_verified (cr_manifest r) \<and> vr_result (cr_report r) \<noteq> VerifiedFail \<and>
    bm_total_bytes (cr_manifest r) = dm_size_bytes (bm_database (cr_manifest r)) + rw_total_bytes (bm_raw (cr_manifest r)) +
       gm_config_bytes (bm_registry (cr_manifest r))"
proof -
  note p = published_manifest [OF assms(1)]
  have i: "backup_id_ok (cr_backup_id r)" using p(2,3) by (simp add: backup_manifest_ok_def)
  then have n: "CHR ''/'' \<notin> set (cr_backup_id r)" "CHR 0x5C \<notin> set (cr_backup_id r)" "cr_backup_id r \<noteq> []"
    using backup_id_chars [OF i] by (auto simp: backup_id_ok_def)
  have "catalog_manifest io root' (cr_backup_id r) = Inr (cr_manifest r)"
    using p(1,2) assms(2) by (simp add: catalog_manifest_def read_manifest_def)
  then show ?thesis using n p(3-6) by (simp add: catalog_show_def)
qed

text \<open>
  C36: What a report that is no failure means: the manifest is there and valid, its sources all have an adapter, the
  dump is not empty, has the digest of the manifest and is accepted by pg_restore, the registry snapshot
  loads with the digest of the manifest, and all records of the Raw manifest, as many as the manifest says, were
  checked: none missing, none with a wrong payload or sidecar.
\<close>

theorem accepted_backup_is_complete:
  assumes "backup_report io now directory tree = Inr r" "vr_result r \<noteq> VerifiedFail"
  shows "\<exists>content m dump loaded. dict_get tree [''manifest.json''] = Some content \<and> read_manifest io content = Inr m \<and>
    set (dict_keys (bm_sources m)) \<subseteq> set recovery_sources \<and>
    named_file io tree (dm_dump_filename (bm_database m)) = Some dump \<and> dump \<noteq> [] \<and>
    cd_sha256 (bi_codec io) dump = dm_sha256 (bm_database m) \<and> bi_validate_dump io dump = Inr () \<and>
    load_registry (bi_nfkc io) (cd_sha256 (bi_codec io))
      (registry_snapshot_files io (directory @ registry_directory) (subtree registry_directory tree)) = Inr loaded \<and>
    registry_matches io (subtree registry_directory tree) loaded (bm_registry m) \<and>
    vr_failures r = [] \<and> vr_raw_expected r = rw_file_count (bm_raw m) \<and> vr_raw_checked r = rw_file_count (bm_raw m) \<and>
    vr_raw_missing r = 0 \<and> vr_raw_checksum_failures r = 0 \<and> vr_sidecar_failures r = 0"
proof (rule report_accepted [OF assms], goal_cases)
  case (1 content m dump loaded v)
  note v = verify_raw_complete [OF 1(10,11)]
  have "vr_failures r = []" "vr_raw_expected r = rw_file_count (bm_raw m)" "vr_raw_checked r = rw_file_count (bm_raw m)"
    "vr_raw_missing r = 0" "vr_raw_checksum_failures r = 0" "vr_sidecar_failures r = 0"
    unfolding 1(12) by (simp_all add: report_of_def v)
  then show ?case using 1 by blast
qed

theorem accepted_backup_is_complete_witness:
  "\<exists>m. read_manifest good_io ''manifest'' = Inr m \<and> rw_file_count (bm_raw m) = 1"
proof -
  have "vr_result (demo_pass_report 0) \<noteq> VerifiedFail" by (simp add: demo_pass)
  from accepted_backup_is_complete [OF demo_published_report this] obtain content m where
    "dict_get demo_published [''manifest.json''] = Some content" "read_manifest good_io content = Inr m"
    "vr_raw_expected (demo_pass_report 0) = rw_file_count (bm_raw m)" by blast
  then show ?thesis by (simp add: demo_published_def demo_stage_def demo_pass_report_def report_of_def passed_raw_def)
qed

end
