(* ===== verification/Restore_Claims.thy ===== *)
theory Restore_Claims
  imports Backup_Claims
begin

text \<open>
  What a restore, a drill, the check of the Raw pointers and the catalog promise.
\<close>


section \<open>Restore\<close>

lemma verify_restored_tree_Inr:
  assumes "verify_restored_tree source target = Inr ()"
  shows "dict_get target k = dict_get source k"
proof -
  have s: "sort (dict_keys source) = sort (dict_keys target)"
    and f: "find (\<lambda>k. dict_get source k \<noteq> dict_get target k) (sort (dict_keys source)) = None"
    using assms by (auto simp: verify_restored_tree_def Let_def split: if_splits option.splits)
  from s have keys: "set (dict_keys source) = set (dict_keys target)" by (metis set_sort)
  show ?thesis
  proof (cases "k \<in> set (dict_keys source)")
    case True
    moreover have "\<not> (\<exists>k. k \<in> set (dict_keys source) \<and> dict_get source k \<noteq> dict_get target k)"
      using f unfolding find_None_iff set_sort .
    ultimately show ?thesis by metis
  next
    case False
    then show ?thesis using keys key_in_tree [of k source] key_in_tree [of k target] by simp
  qed
qed

text \<open>The outcomes of a restore.\<close>

lemma restore_cases:
  assumes "restore_backup io env tree = (res, disk)"
  obtains (refused) err where "restore_preflight io env tree = Inl err" "res = Inl err" "disk = \<lparr>rd_target = rs_target env, rd_report = None\<rparr>"
  | (kept) m err where "restore_preflight io env tree = Inr m" "res = Inl err"
      "disk = \<lparr>rd_target = rs_target env, rd_report = Some (failed_restore env m False False)\<rparr>"
  | (failed) m stage err restored where "restore_preflight io env tree = Inr m" "verify_restored_tree (subtree [''raw''] tree) stage = Inr ()"
      "res = Inl err" "disk = \<lparr>rd_target = Some stage, rd_report = Some (failed_restore env m True restored)\<rparr>"
  | (checked) m stage report where "restore_preflight io env tree = Inr m" "verify_restored_tree (subtree [''raw''] tree) stage = Inr ()"
      "verify_restored io env m stage = Inr report" "is_ok res = rt_passed report" "is_ok res \<Longrightarrow> res = Inr report"
      "disk = \<lparr>rd_target = Some stage, rd_report = Some report\<rparr>"
proof (cases "restore_preflight io env tree")
  case (Inl err)
  then show ?thesis using assms refused by (simp add: restore_backup_def)
next
  case m: (Inr m)
  show ?thesis
  proof (cases "rs_copytree env (subtree [''raw''] tree)")
    case (Inl err)
    show ?thesis by (rule kept [OF m, of "restore_error (safe_message ''Raw staging copy'' err)"])
      (use assms m Inl in \<open>auto simp: restore_backup_def\<close>)
  next
    case stage: (Inr stage)
    show ?thesis
    proof (cases "verify_restored_tree (subtree [''raw''] tree) stage")
      case (Inl err)
      show ?thesis by (rule kept [OF m, of "restore_error (safe_message ''Raw staging verification'' err)"])
        (use assms m stage Inl in \<open>auto simp: restore_backup_def\<close>)
    next
      case v: (Inr u)
      show ?thesis
      proof (cases "rs_pg_restore env (dict_get tree [''postgres.dump''])")
        case (Inl err)
        show ?thesis by (rule failed [OF m, of stage "restore_error (safe_message ''PostgreSQL restore'' err)" False])
          (use assms m stage v Inl in \<open>auto simp: restore_backup_def\<close>)
      next
        case pg: (Inr w)
        show ?thesis
        proof (cases "verify_restored io env m stage")
          case (Inl err)
          show ?thesis by (rule failed [OF m, of stage "restore_error (safe_message ''post-restore verification'' err)" True])
            (use assms m stage v pg Inl in \<open>auto simp: restore_backup_def\<close>)
        next
          case (Inr report)
          have r: "res = (if rt_passed report then Inr report else Inl (restore_error ''restored data failed verification''))"
            "disk = \<lparr>rd_target = Some stage, rd_report = Some report\<rparr>"
            using assms by (simp_all add: restore_backup_def m stage v pg Inr)
          show ?thesis
            by (rule checked [of m stage report, OF m _ Inr _ _ r(2)]) (simp_all add: r(1) v split: if_splits)
        qed
      qed
    qed
  qed
qed

lemma verify_restored_report: "verify_restored io env m stage = Inr report \<Longrightarrow> rt_raw_restored report"
  by (auto simp: verify_restored_def Let_def split: sum.splits)

text \<open>
  C38: The report of a restore tells the truth about the disk: where one is written, the restore returned exactly
  when the report says it passed, and the target directory holds the Raw tree of the backup, file by file,
  exactly when the report says that Raw was restored; otherwise the target is as it was before.
\<close>

theorem restore_report_is_true:
  assumes "restore_backup io env tree = (res, disk)" "rd_report disk = Some report"
  shows "is_ok res = rt_passed report \<and>
    (if rt_raw_restored report then \<exists>files. rd_target disk = Some files \<and> (\<forall>k. dict_get files k = dict_get (subtree [''raw''] tree) k)
     else rd_target disk = rs_target env)"
  using assms(1)
proof (cases rule: restore_cases)
  case (failed m stage err restored)
  then have r: "report = failed_restore env m True restored" using assms(2) by simp
  show ?thesis using failed(3,4) verify_restored_tree_Inr [OF failed(2)] unfolding r by (simp add: failed_restore_def)
next
  case (checked m stage r)
  then show ?thesis using assms(2) verify_restored_tree_Inr [OF checked(2)] verify_restored_report [OF checked(3)] by simp
qed (use assms(2) in \<open>auto simp: failed_restore_def\<close>)

theorem restore_report_is_true_witness:
  "\<exists>report disk files. restore_backup good_io demo_restore_env demo_published = (Inr report, disk) \<and> rd_target disk = Some files \<and>
     dict_get files (metadata_file demo_record) = Some ''m0'' \<and> rt_passed report"
proof -
  obtain report disk where r: "restore_backup good_io demo_restore_env demo_published = (Inr report, disk)" "rd_report disk = Some report"
    "rd_target disk = Some demo_tree"
    using demo_restore by blast
  from restore_report_is_true [OF r(1,2)] have "rt_passed report" by simp
  then show ?thesis using r by (auto simp: demo_tree_def)
qed

text \<open>
  A refused target is never touched: where the target is the active database or Raw directory, lies in the backup
  or around it, is not empty, is a symbolic link, has no parent or a database with tables, or is no PostgreSQL
  database, the restore raises, writes no report and leaves the target directory as it is, whatever the backup holds.
\<close>

theorem refused_target_untouched:
  assumes "target_refusal env = Some message"
  shows "\<exists>err. restore_backup io env tree = (Inl err, \<lparr>rd_target = rs_target env, rd_report = None\<rparr>)"
proof -
  have "\<exists>err. restore_preflight io env tree = Inl err"
  proof (cases "fst (verify_backup io (rs_started env) False (rs_backup env) tree)")
    case (Inr report)
    then show ?thesis using assms
      by (cases "catalog_show io (below [last (rs_backup env)] tree) (last (rs_backup env))")
        (auto simp: restore_preflight_def Let_def split: option.splits)
  qed (simp add: restore_preflight_def)
  then show ?thesis by (auto simp: restore_backup_def)
qed

theorem refused_target_untouched_witness:
  "\<exists>err. restore_backup good_io (demo_restore_env\<lparr>rs_tables := [''papers'']\<rparr>) demo_published =
     (Inl err, \<lparr>rd_target = None, rd_report = None\<rparr>)"
proof -
  have "starts_with ''postgresql'' ''postgresql+psycopg''" by code_simp
  then have "target_refusal (demo_restore_env\<lparr>rs_tables := [''papers'']\<rparr>) = Some ''restore database target must be empty''"
    by (simp add: target_refusal_def demo_restore_env_def Let_def)
  from refused_target_untouched [OF this, of good_io demo_published] show ?thesis by (simp add: demo_restore_env_def)
qed

lemma nonempty_target_refused:
  assumes "rs_target env = Some (f # files)"
  shows "target_refusal env \<noteq> None"
  using assms by (simp add: target_refusal_def Let_def)

text \<open>
  C32: Backup and restore give the Raw evidence back: when create published a backup of a Raw tree and a
  restore of the published directory returned, then the restored Raw directory holds the payload and the
  sidecar of every record of the registered sources, with the bytes that they had when the backup was made.
\<close>

theorem restore_gives_evidence_back:
  assumes "create_backup io env root = (Inr r, root')" "tree_plain (be_raw env)"
    "restore_backup io renv (subtree [cr_backup_id r] root') = (Inr report, disk)"
    "dict_get (be_raw env) (metadata_file key) = Some sidecar" "length key = 5" "hd key \<in> set recovery_sources"
  shows "\<exists>files payload. rd_target disk = Some files \<and> dict_get files (metadata_file key) = Some sidecar \<and>
    dict_get files (payload_file key) = Some payload \<and> dict_get (be_raw env) (payload_file key) = Some payload"
  using assms(3)
proof (cases rule: restore_cases)
  case (checked m stage rep)
  let ?backup = "subtree [cr_backup_id r] root'"
  have "key \<in> set (record_keys (be_raw env) (hd key))"
    using assms(4) key_in_tree [of "metadata_file key" "be_raw env"] by (intro record_keys_of [OF _ assms(5) refl]) simp
  then have key: "key \<in> set (all_keys (be_raw env) (sorted_set recovery_sources))" using assms(6) by (auto simp: all_keys_def)
  have "dict_get stage k = dict_get root' (cr_backup_id r # ''raw'' # k)" if "k \<noteq> []" for k
    using verify_restored_tree_Inr [OF checked(2), of k] subtree_get [OF that, of "[''raw'']" ?backup]
      subtree_get [of "''raw'' # k" "[cr_backup_id r]" root'] by simp
  moreover have "metadata_file key \<noteq> []" "payload_file key \<noteq> []" by (simp_all add: payload_file_def metadata_file_def)
  ultimately have "dict_get stage (metadata_file key) = dict_get (be_raw env) (metadata_file key)"
    "dict_get stage (payload_file key) = dict_get (be_raw env) (payload_file key)" "dict_get (be_raw env) (payload_file key) \<noteq> None"
    using published_record [OF assms(1,2) key, of "metadata_file key"] published_record [OF assms(1,2) key, of "payload_file key"]
    by simp_all
  then show ?thesis using checked(6) assms(4) by auto
qed auto
theorem restore_gives_evidence_back_witness:
  "\<exists>report disk files. restore_backup good_io demo_restore_env demo_published = (Inr report, disk) \<and> rd_target disk = Some files \<and>
     dict_get files (metadata_file demo_record) = Some ''m0''"
proof -
  have e: "be_raw demo_backup_env = demo_tree" "cr_backup_id demo_created = demo_id" by (simp_all add: demo_backup_env_def demo_created_def)
  obtain report disk where r: "restore_backup good_io demo_restore_env demo_published = (Inr report, disk)" using demo_restore by blast
  have "dict_get demo_tree (metadata_file demo_record) = Some ''m0''" by (simp add: demo_tree_def)
  from restore_gives_evidence_back [OF demo_create, unfolded e demo_backup_directory, OF demo_tree_plain r this demo_record_key(2)]
  obtain files where "rd_target disk = Some files" "dict_get files (metadata_file demo_record) = Some ''m0''"
    using demo_record_key(3) by (auto simp: recovery_sources_def)
  then show ?thesis using r by blast
qed



section \<open>The drill\<close>

lemma drill_prefix_name: "starts_with drill_prefix (drill_name timestamp suffix)"
  by (simp add: starts_with_def drill_name_def)

lemma cleanup_new:
  assumes "drill_cleanup succeeded keep True (drill_name t u) st = (r, st')" "succeeded \<or> \<not> keep"
  shows "r = Inr () \<and> dr_databases st' = filter (\<lambda>d. d \<noteq> drill_name t u) (dr_databases st) \<and> \<not> dr_directory st'"
  using assms drill_prefix_name by (auto simp: drill_cleanup_def drop_drill_database_def)




section \<open>The Raw pointers\<close>

lemma known_sources_ok: "source_ok ''arxiv''" "source_ok ''github''"
  by code_simp+

lemma pointer_rows_get:
  "(\<Union>s\<in>set recovery_sources. set (dict_get_list (pointer_rows arxiv github) s)) =
    arxiv_pointer ` set arxiv \<union> github_pointer ` set github"
  by (simp add: recovery_sources_def pointer_rows_def dict_get_list_def)

lemma pointer_rows_length:
  "select_pointers sampled (pointer_rows arxiv github) None sample True = (pointers, available) \<Longrightarrow>
    available = int (length arxiv) + int (length github)"
  by (auto simp: select_pointers_def Let_def recovery_sources_def pointer_rows_def dict_get_list_def)

text \<open>
  C40: The evidence that the collectors keep passes the integrity check: when every Raw row of the arXiv and of the
  GitHub table has a good pointer into the store (the invariant of both collectors), the full check of
  the pointers against the files of the store checks every row and finds no failure.
\<close>

theorem collected_evidence_passes:
  assumes "sidecars_ok io files"
    "list_all (\<lambda>r. pointer_ok (bi_codec io) files ''arxiv'' (araw_raw_path r) (araw_checksum r)) arxiv"
    "list_all (\<lambda>r. pointer_ok (bi_codec io) files ''github'' (graw_raw_path r) (graw_checksum r)) github"
  shows "\<exists>report. verify_integrity io sampled root (store_tree io files) (pointer_rows arxiv github) 100 None True = Inr report \<and>
    ir_failures report = 0 \<and> ir_checked report = int (length arxiv) + int (length github) \<and> ir_available report = ir_checked report \<and>
    ir_state report = (if arxiv = [] \<and> github = [] then NoRawRecords else IntegrityPass)"
proof -
  obtain pointers available where s: "select_pointers sampled (pointer_rows arxiv github) None 100 True = (pointers, available)"
    by (cases "select_pointers sampled (pointer_rows arxiv github) None 100 True")
  note p = select_full [OF s] pointer_rows_length [OF s]
  have "check_pointer io root (store_tree io files) p = Inr None" if "p \<in> set pointers" for p
  proof -
    from that have "p \<in> arxiv_pointer ` set arxiv \<union> github_pointer ` set github" unfolding p(1) pointer_rows_get .
    then show ?thesis
    proof
      assume "p \<in> arxiv_pointer ` set arxiv"
      then show ?thesis using assms(2) known_sources_ok(1)
        by (intro pointer_ok_checks [OF _ assms(1)]) (auto simp: arxiv_pointer_def list_all_iff)
    next
      assume "p \<in> github_pointer ` set github"
      then show ?thesis using assms(3) known_sources_ok(2)
        by (intro pointer_ok_checks [OF _ assms(1)]) (auto simp: github_pointer_def list_all_iff)
    qed
  qed
  then have c: "result_map (check_pointer io root (store_tree io files)) pointers = Inr (map (\<lambda>_. None) pointers)"
    by (intro checks_all_None) blast
  have n: "somes (map (\<lambda>_. None :: integrity_failure option) pointers) = []" by (simp add: somes_empty)
  have z: "available = 0 \<longleftrightarrow> arxiv = [] \<and> github = []"
    unfolding p(3) by (metis add_nonneg_eq_0_iff length_0_conv of_nat_0_eq_iff of_nat_0_le_iff)
  show ?thesis using p(2,3) n z by (simp add: verify_integrity_def s c Let_def)
qed

theorem collected_evidence_passes_witness:
  "\<exists>row report. araw_raw_path row = join ''/'' demo_record \<and>
    verify_integrity good_io (\<lambda>ps n. ps) [] (store_tree good_io backup_files) (pointer_rows [row] []) 100 None True = Inr report \<and>
    ir_state report = IntegrityPass \<and> ir_checked report = 1"
proof -
  let ?row = "\<lparr>araw_id = 1, araw_run_id = 1, araw_topic_id = 1, araw_mapping_id = 1, araw_raw_path = join ''/'' demo_record,
    araw_checksum = demo_digest demo_payload, araw_observed_at = 0, araw_query = ''q'', araw_start_index = 0, araw_max_results = 100,
    araw_sort_by = ''s'', araw_sort_order = ''o'', araw_http_status = 200, araw_response_headers = [], araw_request_metadata = [],
    araw_parsed_entry_count = None, araw_parse_error = None\<rparr>"
  have a: "list_all (\<lambda>r. pointer_ok (bi_codec good_io) backup_files ''arxiv'' (araw_raw_path r) (araw_checksum r)) [?row]"
    using demo_pointer_ok by (simp add: demo_io_def)
  from collected_evidence_passes [OF demo_sidecars a, of "[]" "\<lambda>ps n. ps" "[]"] obtain report where
    "verify_integrity good_io (\<lambda>ps n. ps) [] (store_tree good_io backup_files) (pointer_rows [?row] []) 100 None True = Inr report"
    "ir_state report = IntegrityPass" "ir_checked report = 1" by auto
  then show ?thesis by (intro exI [of _ ?row] exI [of _ report]) simp
qed

text \<open>
  A full integrity check that passes has looked at everything: there are rows, as many were checked as are
  available, and for every row of every source the pointer leads to a directory below the root whose sidecar has
  the digest of the row and whose payload has the digest and the length of the sidecar.
\<close>

theorem integrity_pass_is_complete:
  assumes "verify_integrity io sampled root tree rows sample None True = Inr report" "ir_state report = IntegrityPass"
  shows "ir_available report > 0 \<and> ir_checked report = ir_available report \<and> ir_failures report = 0 \<and>
    (\<forall>s\<in>set recovery_sources. \<forall>p\<in>set (dict_get_list rows s).
      \<exists>key. pointer_key root p = Inr key \<and> verify_raw_directory io tree key (Some (rp_checksum p)) = Inr ())"
proof -
  obtain pointers available where s: "select_pointers sampled rows None sample True = (pointers, available)"
    by (cases "select_pointers sampled rows None sample True")
  note p = select_full [OF s]
  obtain checks where c: "result_map (check_pointer io root tree) pointers = Inr checks"
    using assms(1) by (cases "result_map (check_pointer io root tree) pointers") (auto simp: verify_integrity_def s split: if_splits)
  have r: "ir_state report = (if available = 0 then NoRawRecords else if somes checks = [] then IntegrityPass else IntegrityFail)"
    "ir_available report = available" "ir_checked report = int (length pointers)" "ir_failures report = int (length (somes checks))"
    using assms(1) by (auto simp: verify_integrity_def s c Let_def split: if_splits)
  have e: "available \<noteq> 0" "somes checks = []" using r(1) assms(2) by (auto split: if_splits)
  have "check_pointer io root tree p = Inr None" if "p \<in> set pointers" for p
    using checks_None [OF c] e(2) that by blast
  then have "\<forall>s\<in>set recovery_sources. \<forall>p\<in>set (dict_get_list rows s). check_pointer io root tree p = Inr None"
    unfolding p(1) by blast
  moreover have "available > 0" using p(2) e(1) by linarith
  ultimately show ?thesis using r(2-4) p(2) e(2) unfolding check_pointer_None by simp
qed


section \<open>The catalog\<close>

lemma catalog_sorted:
  assumes "catalog_list io root = Inr ms"
  shows "sorted (map (\<lambda>m. - bm_completed_at m) ms)"
  using assms by (cases "read_manifests io root (directory_names root)") (auto simp: catalog_list_def)

text \<open>
  The status shows the latest verified backup: no other backup of the catalog with the state pass or warning was
  completed later than the one that the status names, its age is never negative, and where the catalog has no
  verified backup, the status names none and has no age.
\<close>

theorem status_names_latest_verified:
  assumes "catalog_status io drill_json drill_order now root = Inr status" "catalog_list io root = Inr ms"
  shows "case ps_latest_verified status of
      None \<Rightarrow> filter backup_verified ms = [] \<and> ps_verified_age_seconds status = None
    | Some b \<Rightarrow> \<exists>m\<in>set ms. backup_verified m \<and> b = summary_of m \<and>
        (\<forall>m'\<in>set (filter backup_verified ms). bm_completed_at m' \<le> bm_completed_at m) \<and>
        (\<exists>age\<ge>0. ps_verified_age_seconds status = Some age)"
proof -
  have s: "ps_latest_verified status = (case filter backup_verified ms of [] \<Rightarrow> None | m # _ \<Rightarrow> Some (summary_of m))"
    "ps_verified_age_seconds status = (case filter backup_verified ms of [] \<Rightarrow> None
       | m # _ \<Rightarrow> Some (max 0 ((now - bm_completed_at m) div 1000000)))"
    using assms by (auto simp: catalog_status_def Let_def)
  show ?thesis
  proof (cases "filter backup_verified ms")
    case Nil
    then show ?thesis by (simp add: s)
  next
    case (Cons m rest)
    have "sorted (map (\<lambda>m. - bm_completed_at m) (filter backup_verified ms))"
      using sorted_filter [OF catalog_sorted [OF assms(2)]] .
    then have "\<forall>m'\<in>set (filter backup_verified ms). bm_completed_at m' \<le> bm_completed_at m" unfolding Cons by auto
    moreover have "m \<in> set (filter backup_verified ms)" unfolding Cons by simp
    then have m: "m \<in> set ms" "backup_verified m" by simp_all
    moreover have "ps_latest_verified status = Some (summary_of m)" "\<exists>age\<ge>0. ps_verified_age_seconds status = Some age"
      unfolding s Cons by simp_all
    ultimately show ?thesis by auto
  qed
qed

text \<open>
  One unreadable manifest ends the catalog: where the manifest of some directory of the root raises an error
  that is neither an OSError nor a ValidationError, as a text that is not UTF-8 does, listing the backups raises,
  although the verifier turns the same error into a failed report of that backup alone.
\<close>

theorem undecodable_manifest_ends_catalog:
  assumes "name \<in> set (directory_names root)" "\<not> (name \<noteq> [] \<and> hd name = CHR ''.'')"
    "dict_get root [name, ''manifest.json''] = Some content" "bi_manifest io content = Inl (OtherError ''UnicodeDecodeError'' message)"
  shows "(\<exists>err. catalog_list io root = Inl err) \<and>
    (\<exists>report. backup_report io now directory (subtree [name] root) = Inr report \<and> vr_result report = VerifiedFail)"
proof -
  have c: "catalog_manifest io root name = Inl (OtherError ''UnicodeDecodeError'' message)"
    using assms(3,4) by (simp add: catalog_manifest_def read_manifest_def)
  have "\<exists>err. read_manifests io root names = Inl err" if "name \<in> set names" for names
    using that
  proof (induction names)
    case (Cons n names)
    show ?case
    proof (cases "n = name")
      case True
      then show ?thesis using assms(2) by (auto simp: c os_error_def validation_error_def)
    next
      case False
      then obtain err where "read_manifests io root names = Inl err" using Cons by auto
      then show ?thesis by (auto split: sum.splits)
    qed
  qed simp
  from this [OF assms(1)] obtain err where "read_manifests io root (directory_names root) = Inl err" by blast
  then have "\<exists>err. catalog_list io root = Inl err" by (simp add: catalog_list_def)
  moreover have "dict_get (subtree [name] root) [''manifest.json''] = Some content" using subtree_get [of "[''manifest.json'']" "[name]" root] assms(3) by simp
  then have "\<exists>report. backup_report io now directory (subtree [name] root) = Inr report \<and> vr_result report = VerifiedFail"
    using assms(4) by (simp add: backup_report_def read_manifest_def value_error_def report_of_def result_of_def)
  ultimately show ?thesis by blast
qed

theorem undecodable_manifest_ends_catalog_witness:
  "\<exists>err. catalog_list (demo_io (Inl (OtherError ''UnicodeDecodeError'' ''invalid start byte''))) [([''b'', ''manifest.json''], ''x'')] = Inl err"
  using undecodable_manifest_ends_catalog [of "''b''" "[([''b'', ''manifest.json''], ''x'')]" "''x''"
    "demo_io (Inl (OtherError ''UnicodeDecodeError'' ''invalid start byte''))" "''invalid start byte''"]
  by (simp add: directory_names_def demo_io_def)

end
